(* ===== verification/MX_Prelude.thy ===== *)
theory MX_Prelude
  imports Main "HOL-Library.Word" "HOL-Library.AList"
begin

text \<open>
  Shared vocabulary of the development.

  Rust strings are \<^typ>\<open>string\<close> (the bytes of their UTF-8 encoding), \<^verbatim>\<open>u32\<close> and
  \<^verbatim>\<open>u64\<close> are words of their width, a \<^verbatim>\<open>Result<T, E>\<close> is \<open>'e + 't\<close> with
  \<^term>\<open>Inl\<close> for \<^verbatim>\<open>Err\<close>, and a \<^verbatim>\<open>HashMap\<close> is an association list with distinct
  keys: its order stands for the iteration order, which the standard library leaves open, so
  that every theorem about a traversal holds for every order.

  The theory holds the string operations of the standard library the sources use
  (\<^verbatim>\<open>strip_prefix\<close>, \<^verbatim>\<open>split_once\<close>, \<^verbatim>\<open>splitn\<close>, \<^verbatim>\<open>split\<close>, \<^verbatim>\<open>join\<close>), the
  saturating conversions of integers, the hash map with its interface locale, and the
  interface of a string codec.
\<close>

named_theorems str_simps
named_theorems hm_simps

type_synonym u32 = "32 word"
type_synonym u64 = "64 word"

subsection \<open>Saturating integers\<close>

definition u32_max :: nat where
  "u32_max = 4294967295"

definition u64_max :: nat where
  "u64_max = 18446744073709551615"

text \<open>\<^verbatim>\<open>u32::try_from(n).unwrap_or(u32::MAX)\<close>\<close>

definition u32_sat :: "nat \<Rightarrow> u32" where
  "u32_sat n = (if n \<le> u32_max then of_nat n else of_nat u32_max)"

text \<open>\<^verbatim>\<open>a.saturating_add(b)\<close> on \<^verbatim>\<open>u32\<close>, and on \<^verbatim>\<open>usize\<close> (64 bits).\<close>

definition u32_saturating_add :: "u32 \<Rightarrow> u32 \<Rightarrow> u32" where
  "u32_saturating_add a b = u32_sat (unat a + unat b)"

definition usize_saturating_add :: "nat \<Rightarrow> nat \<Rightarrow> nat" where
  "usize_saturating_add a b = min (a + b) u64_max"

subsection \<open>Strings\<close>

fun strip_prefix :: "string \<Rightarrow> string \<Rightarrow> string option" where
  "strip_prefix [] s = Some s"
| "strip_prefix (p # ps) [] = None"
| "strip_prefix (p # ps) (c # cs) = (if p = c then strip_prefix ps cs else None)"

definition starts_with :: "string \<Rightarrow> string \<Rightarrow> bool" where
  "starts_with p s = (strip_prefix p s \<noteq> None)"

text \<open>\<^verbatim>\<open>s.split_once(c)\<close> for a character separator.\<close>

fun split_once :: "char \<Rightarrow> string \<Rightarrow> (string \<times> string) option" where
  "split_once sep [] = None"
| "split_once sep (c # cs) =
     (if c = sep then Some ([], cs)
      else case split_once sep cs of None \<Rightarrow> None | Some (a, b) \<Rightarrow> Some (c # a, b))"

text \<open>\<^verbatim>\<open>s.splitn(n, c)\<close>: at most \<open>n\<close> parts, the last one unsplit.\<close>

fun splitn :: "nat \<Rightarrow> char \<Rightarrow> string \<Rightarrow> string list" where
  "splitn 0 sep s = []"
| "splitn (Suc 0) sep s = [s]"
| "splitn (Suc (Suc n)) sep s =
     (case split_once sep s of None \<Rightarrow> [s] | Some (a, b) \<Rightarrow> a # splitn (Suc n) sep b)"

text \<open>\<^verbatim>\<open>s.split(c)\<close>: all parts, one more than there are separators.\<close>

fun str_split :: "char \<Rightarrow> string \<Rightarrow> string list" where
  "str_split sep [] = [[]]"
| "str_split sep (c # cs) =
     (if c = sep then [] # str_split sep cs
      else case str_split sep cs of [] \<Rightarrow> [[c]] | p # ps \<Rightarrow> (c # p) # ps)"

text \<open>\<^verbatim>\<open>parts.join(c)\<close>\<close>

fun str_join :: "char \<Rightarrow> string list \<Rightarrow> string" where
  "str_join sep [] = []"
| "str_join sep [p] = p"
| "str_join sep (p # ps) = p @ sep # str_join sep ps"

subsection \<open>Hash maps\<close>

type_synonym ('k, 'v) hash_map = "('k \<times> 'v) list"

definition hm_get :: "('k, 'v) hash_map \<Rightarrow> 'k \<Rightarrow> 'v option" where
  "hm_get m k = map_of m k"

definition hm_insert :: "'k \<Rightarrow> 'v \<Rightarrow> ('k, 'v) hash_map \<Rightarrow> ('k, 'v) hash_map" where
  "hm_insert k v m = AList.update k v m"

definition hm_remove :: "'k \<Rightarrow> ('k, 'v) hash_map \<Rightarrow> ('k, 'v) hash_map" where
  "hm_remove k m = AList.delete k m"

definition hm_values :: "('k, 'v) hash_map \<Rightarrow> 'v list" where
  "hm_values m = map snd m"

definition hm_ok :: "('k, 'v) hash_map \<Rightarrow> bool" where
  "hm_ok m = distinct (map fst m)"

subsection \<open>Lemmas on saturation\<close>

lemma unat_u32_sat: "unat (u32_sat n) = min n u32_max"
  by (simp add: u32_sat_def u32_max_def unat_of_nat)

lemma unat_u32_saturating_add: "unat (u32_saturating_add a b) = min (unat a + unat b) u32_max"
  by (simp add: u32_saturating_add_def unat_u32_sat)

lemma unat_le_u32_max: "unat (a :: u32) \<le> u32_max"
proof -
  have "unat a < 2 ^ LENGTH(32)" by (rule unsigned_less)
  then show ?thesis by (simp add: u32_max_def)
qed

lemma u32_sat_eq_iff: "n \<le> u32_max \<Longrightarrow> m \<le> u32_max \<Longrightarrow> u32_sat n = u32_sat m \<longleftrightarrow> n = m"
  by (metis unat_u32_sat min.absorb1)

lemma u32_sat_0 [simp]: "u32_sat 0 = 0"
  by (simp add: u32_sat_def u32_max_def)

lemma u32_sat_eq_0: "u32_sat n = 0 \<longleftrightarrow> n = 0"
  by (metis u32_sat_0 unat_u32_sat min_0L min_def unat_0 u32_max_def zero_neq_numeral)

subsection \<open>Lemmas on strings\<close>

lemma strip_prefix_append [simp]: "strip_prefix p (p @ s) = Some s"
  by (induction p) auto

lemma strip_prefix_Some_iff: "strip_prefix p s = Some r \<longleftrightarrow> s = p @ r"
  by (induction p s rule: strip_prefix.induct) auto

lemma strip_prefix_self [simp]: "strip_prefix p p = Some []"
  using strip_prefix_append [of p "[]"] by simp

lemma starts_with_iff: "starts_with p s \<longleftrightarrow> (\<exists>r. s = p @ r)"
  by (auto simp: starts_with_def strip_prefix_Some_iff)

lemma split_once_append: "sep \<notin> set a \<Longrightarrow> split_once sep (a @ sep # b) = Some (a, b)"
  by (induction a) auto

lemma split_once_none: "split_once sep s = None \<longleftrightarrow> sep \<notin> set s"
  by (induction s) (auto split: option.splits)

lemma split_once_some: "split_once sep s = Some (a, b) \<longleftrightarrow> s = a @ sep # b \<and> sep \<notin> set a"
proof
  show "split_once sep s = Some (a, b) \<Longrightarrow> s = a @ sep # b \<and> sep \<notin> set a"
    by (induction s arbitrary: a) (auto split: if_splits option.splits)
qed (auto simp: split_once_append)

lemma splitn_field [str_simps]:
  "sep \<notin> set a \<Longrightarrow> splitn (Suc (Suc n)) sep (a @ sep # b) = a # splitn (Suc n) sep b"
  by (simp add: split_once_append)

lemma str_split_nonempty [simp]: "str_split sep s \<noteq> []"
  by (induction s) (auto split: list.splits)

lemma str_split_no_sep: "sep \<notin> set s \<Longrightarrow> str_split sep s = [s]"
  by (induction s) auto

lemma str_split_append: "sep \<notin> set a \<Longrightarrow> str_split sep (a @ sep # b) = a # str_split sep b"
  by (induction a) auto

lemma str_split_join:
  "ps \<noteq> [] \<Longrightarrow> (\<And>p. p \<in> set ps \<Longrightarrow> sep \<notin> set p) \<Longrightarrow> str_split sep (str_join sep ps) = ps"
  by (induction sep ps rule: str_join.induct)
     (simp_all add: str_split_no_sep str_split_append)

lemma set_str_join_subset: "set (str_join sep ps) \<subseteq> insert sep (\<Union> (set ` set ps))"
  by (induction sep ps rule: str_join.induct) auto

lemma str_join_eq_Nil: "[] \<notin> set ps \<Longrightarrow> str_join sep ps = [] \<longleftrightarrow> ps = []"
  by (induction sep ps rule: str_join.induct) auto

subsection \<open>The hash map interface\<close>

locale map_store =
  fixes get :: "'m \<Rightarrow> 'k \<Rightarrow> 'v option"
    and ins :: "'k \<Rightarrow> 'v \<Rightarrow> 'm \<Rightarrow> 'm"
    and del :: "'k \<Rightarrow> 'm \<Rightarrow> 'm"
    and vals :: "'m \<Rightarrow> 'v list"
    and ok :: "'m \<Rightarrow> bool"
  assumes get_ins: "get (ins k v m) k' = (if k' = k then Some v else get m k')"
    and get_del: "get (del k m) k' = (if k' = k then None else get m k')"
    and vals_get: "ok m \<Longrightarrow> v \<in> set (vals m) \<longleftrightarrow> (\<exists>k. get m k = Some v)"
    and ok_ins: "ok m \<Longrightarrow> ok (ins k v m)"
    and ok_del: "ok m \<Longrightarrow> ok (del k m)"
begin

lemma get_ins_same [simp]: "get (ins k v m) k = Some v"
  by (simp add: get_ins)

lemma get_del_same [simp]: "get (del k m) k = None"
  by (simp add: get_del)

lemma vals_ins: "ok m \<Longrightarrow> x \<in> set (vals (ins k v m)) \<Longrightarrow> x = v \<or> x \<in> set (vals m)"
  by (auto simp: vals_get ok_ins get_ins split: if_splits)

lemma vals_del: "ok m \<Longrightarrow> x \<in> set (vals (del k m)) \<Longrightarrow> x \<in> set (vals m)"
  by (auto simp: vals_get ok_del get_del split: if_splits)

end

interpretation hm: map_store hm_get hm_insert hm_remove hm_values hm_ok
proof (unfold_locales, goal_cases)
  case (1 k v m k') then show ?case by (simp add: hm_get_def hm_insert_def update_conv')
next
  case (2 k m k') then show ?case by (simp add: hm_get_def hm_remove_def delete_conv')
next
  case (3 m v) then show ?case
    by (force simp: hm_ok_def hm_values_def hm_get_def intro: map_of_is_SomeI dest: map_of_SomeD)
next
  case (4 m k v) then show ?case by (simp add: hm_ok_def hm_insert_def distinct_update)
next
  case (5 m k) then show ?case by (simp add: hm_ok_def hm_remove_def distinct_delete)
qed

lemmas hm_laws [hm_simps] = hm.get_ins hm.get_del hm.ok_ins hm.ok_del

lemma hm_ok_Nil [simp]: "hm_ok []"
  by (simp add: hm_ok_def)

lemma hm_get_Nil [simp]: "hm_get [] k = None"
  by (simp add: hm_get_def)

subsection \<open>The codec interface\<close>

text \<open>
  What every pair of a printer and its parser promises: on the values the printer is meant
  for, parsing what was printed gives the value back. Injectivity of the printer, which is what
  keeps two entries from sharing one storage key, is a consequence.
\<close>

locale codec =
  fixes encode :: "'a \<Rightarrow> string"
    and decode :: "string \<Rightarrow> 'b option"
    and view :: "'a \<Rightarrow> 'b"
    and valid :: "'a \<Rightarrow> bool"
  assumes decode_encode: "valid x \<Longrightarrow> decode (encode x) = Some (view x)"
begin

lemma encode_view_inj:
  assumes "valid x" and "valid y" and "encode x = encode y"
  shows "view x = view y"
  using assms by (metis decode_encode option.inject)

lemma distinct_views_distinct_codes:
  assumes "\<And>x. x \<in> set xs \<Longrightarrow> valid x" and "distinct (map view xs)"
  shows "distinct (map encode xs)"
  using assms
proof (induction xs)
  case (Cons a xs)
  then show ?case using encode_view_inj by (auto simp: image_iff)
qed simp

end

end
