(* ===== verification/Entry_Key.thy ===== *)
theory Entry_Key
  imports MX_Prelude
begin

text \<open>
  The identity of a registry entry (\<^verbatim>\<open>modelexpress_server/src/registry/entry_key.rs\<close>):
  the tenant partition, the model name, the revision and the weight mode folded into the one
  string every registry backend keys its records and leases on, and parsed back by eviction.

  Shown here: parsing inverts printing on every well-formed key, hence two entries that differ
  in any component never share a lease, and the cache directories of two tenants are disjoint.
\<close>

subsection \<open>Tenants and DNS-1123 labels\<close>

definition is_ascii_lowercase :: "char \<Rightarrow> bool" where
  "is_ascii_lowercase c = (97 \<le> (of_char c :: nat) \<and> (of_char c :: nat) \<le> 122)"

definition is_ascii_uppercase :: "char \<Rightarrow> bool" where
  "is_ascii_uppercase c = (65 \<le> (of_char c :: nat) \<and> (of_char c :: nat) \<le> 90)"

definition is_ascii_digit :: "char \<Rightarrow> bool" where
  "is_ascii_digit c = (48 \<le> (of_char c :: nat) \<and> (of_char c :: nat) \<le> 57)"

definition is_ascii_alphanumeric :: "char \<Rightarrow> bool" where
  "is_ascii_alphanumeric c = (is_ascii_lowercase c \<or> is_ascii_uppercase c \<or> is_ascii_digit c)"

text \<open>\<^verbatim>\<open>bytes.first()\<close> and \<^verbatim>\<open>bytes.last()\<close>\<close>

definition first_opt :: "'a list \<Rightarrow> 'a option" where
  "first_opt xs = (case xs of [] \<Rightarrow> None | x # _ \<Rightarrow> Some x)"

definition last_opt :: "'a list \<Rightarrow> 'a option" where
  "last_opt xs = first_opt (rev xs)"

definition is_some_and :: "('a \<Rightarrow> bool) \<Rightarrow> 'a option \<Rightarrow> bool" where
  "is_some_and p x = (case x of None \<Rightarrow> False | Some a \<Rightarrow> p a)"

definition matches_dns1123_label :: "string \<Rightarrow> bool" where
  "matches_dns1123_label s =
     (list_all (\<lambda>b. is_ascii_lowercase b \<or> is_ascii_digit b \<or> b = CHR ''-'') s
      \<and> is_some_and is_ascii_alphanumeric (first_opt s)
      \<and> is_some_and is_ascii_alphanumeric (last_opt s))"

definition is_dns1123_label :: "string \<Rightarrow> bool" where
  "is_dns1123_label s = (length s \<le> 63 \<and> matches_dns1123_label s)"

definition is_dns1123_subdomain :: "string \<Rightarrow> bool" where
  "is_dns1123_subdomain s =
     (length s \<le> 253 \<and> list_all matches_dns1123_label (str_split (CHR ''.'') s))"

datatype Tenant = Tenant string

primrec tenant_as_str :: "Tenant \<Rightarrow> string" where
  "tenant_as_str (Tenant n) = n"

definition tenant_new :: "string \<Rightarrow> Tenant option" where
  "tenant_new namespace = (if is_dns1123_label namespace then Some (Tenant namespace) else None)"

subsection \<open>Paths\<close>

text \<open>
  \<^verbatim>\<open>Path::join\<close>: an absolute argument replaces the path, otherwise the argument is
  appended after a separator (none is added after an empty path or one that ends in it).
\<close>

definition path_join :: "string \<Rightarrow> string \<Rightarrow> string" where
  "path_join root p =
     (if starts_with ''/'' p then p
      else if root = [] \<or> last root = CHR ''/'' then root @ p
      else root @ CHR ''/'' # p)"

definition PARTITIONS_DIR :: string where
  "PARTITIONS_DIR = ''.modelexpress/tenants''"

definition partition_dir :: "string \<Rightarrow> Tenant option \<Rightarrow> string" where
  "partition_dir cache_root tenant =
     (case tenant of
        Some t \<Rightarrow> path_join (path_join cache_root PARTITIONS_DIR) (tenant_as_str t)
      | None \<Rightarrow> cache_root)"

subsection \<open>Entry keys\<close>

record EntryKey =
  ek_tenant :: "Tenant option"
  ek_model_name :: string
  ek_revision :: "string option"
  ek_metadata_only :: bool

definition STRUCTURED_PREFIX :: string where "STRUCTURED_PREFIX = ''mx1:''"
definition TENANT_PREFIX :: string where "TENANT_PREFIX = ''mxt1:''"
definition METADATA_FLAG :: string where "METADATA_FLAG = ''m''"
definition FULL_WEIGHT_FLAG :: string where "FULL_WEIGHT_FLAG = ''-''"

definition entry_key_new :: "string \<Rightarrow> string option \<Rightarrow> bool \<Rightarrow> EntryKey" where
  "entry_key_new name rv meta =
     \<lparr>ek_tenant = None, ek_model_name = name, ek_revision = rv, ek_metadata_only = meta\<rparr>"

definition in_tenant :: "EntryKey \<Rightarrow> Tenant option \<Rightarrow> EntryKey" where
  "in_tenant k t = k\<lparr>ek_tenant := t\<rparr>"

definition needs_structured_form :: "EntryKey \<Rightarrow> bool" where
  "needs_structured_form k =
     (ek_revision k \<noteq> None \<or> ek_metadata_only k
      \<or> starts_with STRUCTURED_PREFIX (ek_model_name k)
      \<or> starts_with TENANT_PREFIX (ek_model_name k))"

definition revision_field :: "string \<Rightarrow> string option" where
  "revision_field r = (if r \<noteq> [] then Some r else None)"

definition parse_key :: "string \<Rightarrow> EntryKey" where
  "parse_key key =
     (case strip_prefix TENANT_PREFIX key of
        Some fs \<Rightarrow>
          (case splitn 4 (CHR '':'') fs of
             [t, r, flags, name] \<Rightarrow>
               (case tenant_new t of
                  Some tenant \<Rightarrow>
                    in_tenant (entry_key_new name (revision_field r) (flags = METADATA_FLAG))
                      (Some tenant)
                | None \<Rightarrow> entry_key_new key None False)
           | _ \<Rightarrow> entry_key_new key None False)
      | None \<Rightarrow>
          (case strip_prefix STRUCTURED_PREFIX key of
             None \<Rightarrow> entry_key_new key None False
           | Some fs \<Rightarrow>
               (case splitn 3 (CHR '':'') fs of
                  [r, flags, name] \<Rightarrow>
                    entry_key_new name (revision_field r) (flags = METADATA_FLAG)
                | _ \<Rightarrow> entry_key_new key None False)))"

definition key_to_string :: "EntryKey \<Rightarrow> string" where
  "key_to_string k =
     (let flags = (if ek_metadata_only k then METADATA_FLAG else FULL_WEIGHT_FLAG);
          rv = (case ek_revision k of Some r \<Rightarrow> r | None \<Rightarrow> [])
      in case ek_tenant k of
           Some t \<Rightarrow>
             TENANT_PREFIX @ tenant_as_str t @ '':'' @ rv @ '':'' @ flags @ '':'' @ ek_model_name k
         | None \<Rightarrow>
             if \<not> needs_structured_form k then ek_model_name k
             else STRUCTURED_PREFIX @ rv @ '':'' @ flags @ '':'' @ ek_model_name k)"

definition belongs_to :: "EntryKey \<Rightarrow> Tenant option \<Rightarrow> string \<Rightarrow> bool" where
  "belongs_to k tenant name = (ek_tenant k = tenant \<and> ek_model_name k = name)"

definition cache_dir :: "EntryKey \<Rightarrow> string \<Rightarrow> string" where
  "cache_dir k cache_root = partition_dir cache_root (ek_tenant k)"

text \<open>
  What the callers guarantee of a key: the tenant came from \<^const>\<open>tenant_new\<close>, and a revision
  is a commit identifier, so it is not empty and holds no colon.
\<close>

definition key_ok :: "EntryKey \<Rightarrow> bool" where
  "key_ok k =
     ((case ek_tenant k of None \<Rightarrow> True | Some t \<Rightarrow> is_dns1123_label (tenant_as_str t))
      \<and> (case ek_revision k of None \<Rightarrow> True | Some r \<Rightarrow> r \<noteq> [] \<and> CHR '':'' \<notin> set r))"

subsection \<open>Labels\<close>

lemma label_char_not:
  assumes "matches_dns1123_label s" and "\<not> is_ascii_lowercase c" and "\<not> is_ascii_digit c"
    and "c \<noteq> CHR ''-''"
  shows "c \<notin> set s"
  using assms by (auto simp: matches_dns1123_label_def list_all_iff)

lemma label_no_colon: "is_dns1123_label s \<Longrightarrow> CHR '':'' \<notin> set s"
  by (rule label_char_not)
     (simp_all add: is_dns1123_label_def is_ascii_lowercase_def is_ascii_digit_def)

lemma label_no_slash: "is_dns1123_label s \<Longrightarrow> CHR ''/'' \<notin> set s"
  by (rule label_char_not)
     (simp_all add: is_dns1123_label_def is_ascii_lowercase_def is_ascii_digit_def)

lemma label_no_dot: "is_dns1123_label s \<Longrightarrow> CHR ''.'' \<notin> set s"
  by (rule label_char_not)
     (simp_all add: is_dns1123_label_def is_ascii_lowercase_def is_ascii_digit_def)

lemma label_nonempty: "is_dns1123_label s \<Longrightarrow> s \<noteq> []"
  by (auto simp: is_dns1123_label_def matches_dns1123_label_def first_opt_def is_some_and_def)

lemma tenant_new_as_str: "is_dns1123_label (tenant_as_str t) \<Longrightarrow> tenant_new (tenant_as_str t) = Some t"
  by (cases t) (simp add: tenant_new_def)

subsection \<open>Round trip\<close>

lemmas prefix_defs = TENANT_PREFIX_def STRUCTURED_PREFIX_def
lemmas flag_defs = METADATA_FLAG_def FULL_WEIGHT_FLAG_def

lemma flag_no_colon: "CHR '':'' \<notin> set (if b then METADATA_FLAG else FULL_WEIGHT_FLAG)"
  by (simp add: flag_defs)

lemma flag_is_metadata:
  "((if b then METADATA_FLAG else FULL_WEIGHT_FLAG) = METADATA_FLAG) = b"
  by (simp add: flag_defs)

lemma splitn_three:
  assumes "CHR '':'' \<notin> set a" and "CHR '':'' \<notin> set b"
  shows "splitn 3 (CHR '':'') (a @ '':'' @ b @ '':'' @ c) = [a, b, c]"
  using assms by (simp add: numeral_3_eq_3 split_once_append)

lemma splitn_four:
  assumes "CHR '':'' \<notin> set a" and "CHR '':'' \<notin> set b" and "CHR '':'' \<notin> set c"
  shows "splitn 4 (CHR '':'') (a @ '':'' @ b @ '':'' @ c @ '':'' @ d) = [a, b, c, d]"
  using assms by (simp add: eval_nat_numeral split_once_append)

lemma revision_field_inverse:
  assumes "key_ok k"
  shows "revision_field (case ek_revision k of Some r \<Rightarrow> r | None \<Rightarrow> []) = ek_revision k"
    and "CHR '':'' \<notin> set (case ek_revision k of Some r \<Rightarrow> r | None \<Rightarrow> [])"
  using assms by (auto simp: key_ok_def revision_field_def split: option.splits)

lemma tenant_prefix_not_structured: "strip_prefix TENANT_PREFIX (STRUCTURED_PREFIX @ s) = None"
  by (simp add: prefix_defs)

lemma parse_plain:
  assumes "\<not> starts_with TENANT_PREFIX s" and "\<not> starts_with STRUCTURED_PREFIX s"
  shows "parse_key s = entry_key_new s None False"
  using assms by (simp add: parse_key_def starts_with_def)

lemma parse_structured:
  assumes "CHR '':'' \<notin> set r" and "CHR '':'' \<notin> set f"
  shows "parse_key (STRUCTURED_PREFIX @ r @ '':'' @ f @ '':'' @ n)
       = entry_key_new n (revision_field r) (f = METADATA_FLAG)"
  by (simp only: parse_key_def tenant_prefix_not_structured strip_prefix_append option.case
      splitn_three [OF assms] list.case)

lemma parse_tenant:
  assumes "is_dns1123_label (tenant_as_str t)" and "CHR '':'' \<notin> set r" and "CHR '':'' \<notin> set f"
  shows "parse_key (TENANT_PREFIX @ tenant_as_str t @ '':'' @ r @ '':'' @ f @ '':'' @ n)
       = in_tenant (entry_key_new n (revision_field r) (f = METADATA_FLAG)) (Some t)"
  by (simp only: parse_key_def strip_prefix_append option.case
      splitn_four [OF label_no_colon [OF assms(1)] assms(2,3)] list.case
      tenant_new_as_str [OF assms(1)])

lemma parse_to_string:
  assumes "key_ok k"
  shows "parse_key (key_to_string k) = k"
proof (cases "ek_tenant k")
  case (Some t)
  with assms have "is_dns1123_label (tenant_as_str t)" by (simp add: key_ok_def)
  then show ?thesis
    by (simp only: key_to_string_def Let_def Some option.case parse_tenant
        revision_field_inverse [OF assms] flag_no_colon flag_is_metadata not_False_eq_True)
       (simp add: in_tenant_def entry_key_new_def Some)
next
  case None
  show ?thesis
  proof (cases "needs_structured_form k")
    case True
    then show ?thesis
      by (simp only: key_to_string_def Let_def None option.case parse_structured True if_False
          revision_field_inverse [OF assms] flag_no_colon flag_is_metadata not_True_eq_False
          not_False_eq_True)
         (simp add: entry_key_new_def None)
  next
    case False
    then have "parse_key (ek_model_name k) = entry_key_new (ek_model_name k) None False"
      by (intro parse_plain) (auto simp: needs_structured_form_def)
    with False show ?thesis
      by (simp add: key_to_string_def Let_def None entry_key_new_def needs_structured_form_def)
  qed
qed

text \<open>The tenant of a key is read back whatever the other fields hold.\<close>

lemma split_once_two:
  "\<exists>x y. split_once c (a @ c # b @ c # d) = Some (x, y) \<and> c \<in> set y"
proof (cases "c \<in> set a")
  case True
  then obtain x y where "a = x @ c # y" "c \<notin> set x" by (metis split_list_first)
  then show ?thesis using split_once_append [of c x "y @ c # b @ c # d"] by simp
next
  case False
  then show ?thesis using split_once_append [of c a "b @ c # d"] by simp
qed

lemma tenant_of_key:
  assumes "ek_tenant k = Some t" and "is_dns1123_label (tenant_as_str t)"
  shows "ek_tenant (parse_key (key_to_string k)) = Some t"
proof -
  let ?rv = "case ek_revision k of Some r \<Rightarrow> r | None \<Rightarrow> []"
  let ?fl = "if ek_metadata_only k then METADATA_FLAG else FULL_WEIGHT_FLAG"
  let ?rest = "?rv @ CHR '':'' # ?fl @ CHR '':'' # ek_model_name k"
  obtain x y where xy: "split_once (CHR '':'') ?rest = Some (x, y)" "CHR '':'' \<in> set y"
    using split_once_two by blast
  then obtain u v where "split_once (CHR '':'') y = Some (u, v)"
    using split_once_none by (cases "split_once (CHR '':'') y") auto
  with xy have "splitn 4 (CHR '':'') (tenant_as_str t @ CHR '':'' # ?rest) = [tenant_as_str t, x, u, v]"
    by (simp add: eval_nat_numeral split_once_append label_no_colon [OF assms(2)])
  then show ?thesis
    using assms(1) tenant_new_as_str [OF assms(2)]
    by (simp add: key_to_string_def parse_key_def Let_def in_tenant_def)
qed

interpretation key_codec: codec key_to_string "\<lambda>s. Some (parse_key s)" "\<lambda>k. k" key_ok
  by unfold_locales (simp add: parse_to_string)

subsection \<open>Partitions\<close>

text \<open>A path lies inside a directory when it extends it at a separator.\<close>

definition path_inside :: "string \<Rightarrow> string \<Rightarrow> bool" where
  "path_inside dir p = (p = dir \<or> starts_with (path_join dir []) p)"

lemma path_join_relative:
  "\<exists>base. \<forall>q. \<not> starts_with ''/'' q \<longrightarrow> path_join root q = base @ q"
  by (cases "root = [] \<or> last root = CHR ''/''")
     (auto simp: path_join_def intro: exI [of _ root] exI [of _ "root @ ''/''"])

lemma label_not_absolute: "is_dns1123_label s \<Longrightarrow> \<not> starts_with ''/'' s"
  by (metis label_no_slash starts_with_iff append_Cons list.set_intros(1))

lemma partition_dir_tenant:
  obtains base where
    "\<And>t. is_dns1123_label (tenant_as_str t) \<Longrightarrow> partition_dir root (Some t) = base @ tenant_as_str t"
proof -
  obtain base where
    "\<forall>q. \<not> starts_with ''/'' q \<longrightarrow> path_join (path_join root PARTITIONS_DIR) q = base @ q"
    using path_join_relative by blast
  then show ?thesis by (intro that [of base]) (simp add: partition_dir_def label_not_absolute)
qed

lemma path_inside_label:
  assumes "path_inside (base @ a) (base @ b)" and "is_dns1123_label a" and "is_dns1123_label b"
  shows "a = b"
proof (rule ccontr)
  assume "a \<noteq> b"
  have "base @ a \<noteq> []" "last (base @ a) \<noteq> CHR ''/''"
    using assms(2) label_nonempty label_no_slash last_in_set by (fastforce)+
  then have "path_join (base @ a) [] = (base @ a) @ ''/''"
    by (simp add: path_join_def starts_with_def)
  with assms(1) \<open>a \<noteq> b\<close> have "\<exists>r. b = a @ ''/'' @ r"
    by (auto simp: path_inside_def starts_with_iff)
  with assms(3) show False using label_no_slash by fastforce
qed

subsection \<open>Properties\<close>

text \<open>
  Parsing the string an entry key prints to gives the key back, whatever the model name:
  a name holding colons, or one that itself begins with a structural prefix, is recovered
  unchanged. The hypothesis is what the callers guarantee: a validated tenant, and a revision
  that is a non-empty commit identifier without a colon.
\<close>

theorem entry_key_roundtrip: "key_ok k \<Longrightarrow> parse_key (key_to_string k) = k"
  by (rule parse_to_string)

theorem entry_key_roundtrip_witness:
  "parse_key (key_to_string
     \<lparr>ek_tenant = Some (Tenant ''team-a''), ek_model_name = ''gs://b/foo:m:bar'',
       ek_revision = Some ''abc123'', ek_metadata_only = True\<rparr>)
   = \<lparr>ek_tenant = Some (Tenant ''team-a''), ek_model_name = ''gs://b/foo:m:bar'',
       ek_revision = Some ''abc123'', ek_metadata_only = True\<rparr>"
  by (rule entry_key_roundtrip) code_simp

text \<open>
  C38. The registry string identifies the entry: two well-formed keys with the same string have
  the same tenant, model name, revision and weight mode. A request for one revision never joins
  the lease of another, a metadata-only download never satisfies a full-weight request, and no
  tenant reaches another tenant's record.
\<close>

theorem entry_key_injective:
  "key_ok j \<Longrightarrow> key_ok k \<Longrightarrow> key_to_string j = key_to_string k \<Longrightarrow>
     ek_tenant j = ek_tenant k \<and> ek_model_name j = ek_model_name k
     \<and> ek_revision j = ek_revision k \<and> ek_metadata_only j = ek_metadata_only k"
  using key_codec.encode_view_inj by blast

theorem entry_key_injective_witness:
  "let k = entry_key_new ''mx1:a:-:b'' None False in
     ek_model_name k = ek_model_name (parse_key (key_to_string k))"
proof -
  let ?k = "entry_key_new ''mx1:a:-:b'' None False"
  have ok: "key_ok ?k" by code_simp
  have "parse_key (key_to_string ?k) = ?k" by code_simp
  then have "key_to_string ?k = key_to_string (parse_key (key_to_string ?k))"
    and "key_ok (parse_key (key_to_string ?k))"
    using ok by simp_all
  then show ?thesis using entry_key_injective [OF ok] by (simp add: Let_def)
qed

text \<open>
  The cache partitions of two different tenants are disjoint directories: neither path is
  the other one or lies below it, for every cache root.
\<close>

theorem tenant_partitions_disjoint:
  assumes "tenant_new a = Some ta" and "tenant_new b = Some tb" and "a \<noteq> b"
  shows "\<not> path_inside (partition_dir root (Some ta)) (partition_dir root (Some tb))"
proof -
  have ta: "is_dns1123_label a" "ta = Tenant a" and tb: "is_dns1123_label b" "tb = Tenant b"
    using assms(1,2) by (auto simp: tenant_new_def split: if_splits)
  obtain base where
    base: "\<And>t. is_dns1123_label (tenant_as_str t) \<Longrightarrow> partition_dir root (Some t) = base @ tenant_as_str t"
    using partition_dir_tenant [of root] by blast
  show ?thesis
    using path_inside_label [of base a b] assms(3) ta tb base [of ta] base [of tb] by auto
qed

theorem tenant_partitions_disjoint_witness:
  "\<not> path_inside (partition_dir ''/cache'' (Some (Tenant ''a''))) (partition_dir ''/cache'' (Some (Tenant ''a-b'')))"
proof -
  have "tenant_new ''a'' = Some (Tenant ''a'')" "tenant_new ''a-b'' = Some (Tenant ''a-b'')"
    by code_simp+
  then show ?thesis using tenant_partitions_disjoint by (simp add: tenant_partitions_disjoint)
qed

end
