(* ===== verification/Lane_Layout.thy ===== *)
theory Lane_Layout
  imports MX_Prelude
begin

text \<open>
  Lane membership and rank assignment of the collective refit path
  (\<^verbatim>\<open>modelexpress_server/src/refit_collective/lanes.rs\<close>): the declared lanes are
  validated against the expected slots, and every slot gets, per lane that declares it, the rank
  its position gives it.

  The nested loops of \<^verbatim>\<open>LaneLayout::new\<close> are one recursive function each, threading
  the sets and the slot index they mutate. Shown here: which error is returned when, that a
  layout is accepted exactly when its declaration is well formed, that every expected slot of an
  accepted layout holds the rank of its position, that ranks in a lane are distinct and below the
  world size, and that the bootstrap leaders are exactly the first trainer of each lane.
\<close>

datatype LaneKind = LaneUnspecified | LaneReshard | LaneBroadcast

record Assignment =
  as_lane_id :: u32
  as_kind :: LaneKind
  as_rank_in_lane :: u32
  as_world_size :: u32

record Lane =
  ln_lane_id :: u32
  ln_kind :: LaneKind
  ln_trainer_slots :: "string list"
  ln_generator_slots :: "string list"

definition slots_in_rank_order :: "Lane \<Rightarrow> string list" where
  "slots_in_rank_order l = ln_trainer_slots l @ ln_generator_slots l"

definition world_size :: "Lane \<Rightarrow> u32" where
  "world_size l =
     u32_sat (usize_saturating_add (length (ln_trainer_slots l)) (length (ln_generator_slots l)))"

record LaneLayout =
  ll_lanes :: "Lane list"
  ll_by_slot :: "(string, Assignment list) hash_map"
  ll_trainer_count :: u32
  ll_generator_count :: u32

datatype LaneError =
    NoLanes
  | NoTrainers
  | NoGenerators
  | DuplicateLaneId u32
  | UnspecifiedLaneKind u32
  | UnknownSlot u32 string string
  | DuplicateSlotInLane u32 string
  | UnassignedSlot string
  | MultipleBroadcastLanes nat
  | UnknownParticipant string
  | NoTrainerSlotInLane u32

text \<open>The first loop over a lane's slots: each must be an expected slot of its role.\<close>

fun check_known :: "u32 \<Rightarrow> (string \<times> string list \<times> string) list \<Rightarrow> LaneError + unit" where
  "check_known lane [] = Inr ()"
| "check_known lane ((slot, known, role) # rest) =
     (if slot \<notin> set known then Inl (UnknownSlot lane slot role) else check_known lane rest)"

definition role_slots :: "Lane \<Rightarrow> string list \<Rightarrow> string list \<Rightarrow> (string \<times> string list \<times> string) list" where
  "role_slots l trainers generators =
     map (\<lambda>s. (s, trainers, ''trainer'')) (ln_trainer_slots l)
     @ map (\<lambda>s. (s, generators, ''generator'')) (ln_generator_slots l)"

text \<open>\<^verbatim>\<open>by_slot.entry(slot).or_default().push(a)\<close>\<close>

definition push_assignment ::
  "string \<Rightarrow> Assignment \<Rightarrow> (string, Assignment list) hash_map \<Rightarrow> (string, Assignment list) hash_map"
  where
  "push_assignment slot a m =
     hm_insert slot ((case hm_get m slot of None \<Rightarrow> [] | Some xs \<Rightarrow> xs) @ [a]) m"

text \<open>The second loop over a lane's slots, \<^verbatim>\<open>enumerate()\<close>d: no repetition, ranks recorded.\<close>

fun assign_ranks ::
  "Lane \<Rightarrow> u32 \<Rightarrow> nat \<Rightarrow> string list \<Rightarrow> string set \<Rightarrow> (string, Assignment list) hash_map
   \<Rightarrow> LaneError + (string, Assignment list) hash_map" where
  "assign_ranks l ws rank [] seen m = Inr m"
| "assign_ranks l ws rank (slot # rest) seen m =
     (if slot \<in> seen then Inl (DuplicateSlotInLane (ln_lane_id l) slot)
      else assign_ranks l ws (Suc rank) rest (insert slot seen)
             (push_assignment slot
                \<lparr>as_lane_id = ln_lane_id l, as_kind = ln_kind l, as_rank_in_lane = u32_sat rank,
                  as_world_size = ws\<rparr> m))"

text \<open>The loop over the declared lanes.\<close>

fun place_lanes ::
  "string list \<Rightarrow> string list \<Rightarrow> Lane list \<Rightarrow> u32 set \<Rightarrow> (string, Assignment list) hash_map
   \<Rightarrow> LaneError + (string, Assignment list) hash_map" where
  "place_lanes trainers generators [] seen m = Inr m"
| "place_lanes trainers generators (l # ls) seen m =
     (if ln_lane_id l \<in> seen then Inl (DuplicateLaneId (ln_lane_id l))
      else if ln_kind l = LaneUnspecified then Inl (UnspecifiedLaneKind (ln_lane_id l))
      else if ln_trainer_slots l = [] then Inl (NoTrainerSlotInLane (ln_lane_id l))
      else case check_known (ln_lane_id l) (role_slots l trainers generators) of
             Inl e \<Rightarrow> Inl e
           | Inr _ \<Rightarrow>
               (case assign_ranks l (world_size l) 0 (slots_in_rank_order l) {} m of
                  Inl e \<Rightarrow> Inl e
                | Inr m' \<Rightarrow>
                    place_lanes trainers generators ls (insert (ln_lane_id l) seen) m'))"

fun check_assigned :: "string list \<Rightarrow> (string, Assignment list) hash_map \<Rightarrow> LaneError + unit" where
  "check_assigned [] m = Inr ()"
| "check_assigned (s # ss) m =
     (if hm_get m s = None then Inl (UnassignedSlot s) else check_assigned ss m)"

definition lane_layout_new :: "Lane list \<Rightarrow> string list \<Rightarrow> string list \<Rightarrow> LaneError + LaneLayout" where
  "lane_layout_new lanes trainers generators =
     (if trainers = [] then Inl NoTrainers
      else if generators = [] then Inl NoGenerators
      else if lanes = [] then Inl NoLanes
      else let broadcast = length (filter (\<lambda>l. ln_kind l = LaneBroadcast) lanes) in
        if broadcast > 1 then Inl (MultipleBroadcastLanes broadcast)
        else case place_lanes trainers generators lanes {} [] of
               Inl e \<Rightarrow> Inl e
             | Inr m \<Rightarrow>
                 (case check_assigned (trainers @ generators) m of
                    Inl e \<Rightarrow> Inl e
                  | Inr _ \<Rightarrow>
                      Inr \<lparr>ll_lanes = lanes, ll_by_slot = m,
                           ll_trainer_count = u32_sat (length trainers),
                           ll_generator_count = u32_sat (length generators)\<rparr>))"

definition lane_count :: "LaneLayout \<Rightarrow> u32" where
  "lane_count ll = u32_sat (length (ll_lanes ll))"

definition broadcast_lane_id :: "LaneLayout \<Rightarrow> u32 option" where
  "broadcast_lane_id ll =
     map_option ln_lane_id (find (\<lambda>l. ln_kind l = LaneBroadcast) (ll_lanes ll))"

definition assign_slot :: "LaneLayout \<Rightarrow> string \<Rightarrow> LaneError + Assignment list" where
  "assign_slot ll slot =
     (case hm_get (ll_by_slot ll) slot of
        Some as \<Rightarrow> Inr as
      | None \<Rightarrow> Inl (UnknownParticipant slot))"

definition is_bootstrap_leader :: "LaneLayout \<Rightarrow> string \<Rightarrow> bool" where
  "is_bootstrap_leader ll slot =
     (case hm_get (ll_by_slot ll) slot of
        Some as \<Rightarrow> list_ex (\<lambda>a. as_rank_in_lane a = 0) as
      | None \<Rightarrow> False)"

subsection \<open>Specification\<close>

text \<open>
  The declaration a layout is accepted for, and the assignments it gives, stated without the
  loops: a slot's assignments are read off the declaration, lane by lane.
\<close>

definition lane_wf :: "string list \<Rightarrow> string list \<Rightarrow> Lane \<Rightarrow> bool" where
  "lane_wf trainers generators l =
     (ln_kind l \<noteq> LaneUnspecified \<and> ln_trainer_slots l \<noteq> []
      \<and> set (ln_trainer_slots l) \<subseteq> set trainers \<and> set (ln_generator_slots l) \<subseteq> set generators
      \<and> distinct (slots_in_rank_order l))"

definition lanes_wf :: "string list \<Rightarrow> string list \<Rightarrow> Lane list \<Rightarrow> bool" where
  "lanes_wf trainers generators lanes =
     (distinct (map ln_lane_id lanes) \<and> (\<forall>l \<in> set lanes. lane_wf trainers generators l))"

definition declaration_wf :: "Lane list \<Rightarrow> string list \<Rightarrow> string list \<Rightarrow> bool" where
  "declaration_wf lanes trainers generators =
     (trainers \<noteq> [] \<and> generators \<noteq> [] \<and> lanes \<noteq> []
      \<and> length (filter (\<lambda>l. ln_kind l = LaneBroadcast) lanes) \<le> 1
      \<and> lanes_wf trainers generators lanes
      \<and> (\<forall>s \<in> set trainers \<union> set generators. \<exists>l \<in> set lanes. s \<in> set (slots_in_rank_order l)))"

text \<open>The position of a slot in a list, where it occurs.\<close>

fun pos_of :: "'a \<Rightarrow> 'a list \<Rightarrow> nat option" where
  "pos_of x [] = None"
| "pos_of x (y # ys) = (if x = y then Some 0 else map_option Suc (pos_of x ys))"

definition lane_assignment :: "string \<Rightarrow> Lane \<Rightarrow> Assignment option" where
  "lane_assignment slot l =
     map_option (\<lambda>i. \<lparr>as_lane_id = ln_lane_id l, as_kind = ln_kind l,
                       as_rank_in_lane = u32_sat i, as_world_size = world_size l\<rparr>)
       (pos_of slot (slots_in_rank_order l))"

definition slot_assignments :: "string \<Rightarrow> Lane list \<Rightarrow> Assignment list" where
  "slot_assignments slot lanes = List.map_filter (lane_assignment slot) lanes"

subsection \<open>Positions\<close>

lemma pos_of_None [simp]: "pos_of x xs = None \<longleftrightarrow> x \<notin> set xs"
  by (induction xs) auto

lemma pos_of_SomeD: "pos_of x xs = Some i \<Longrightarrow> i < length xs \<and> xs ! i = x"
  by (induction xs arbitrary: i) (auto split: if_splits)

lemma pos_of_mem [dest]: "pos_of x xs = Some i \<Longrightarrow> x \<in> set xs"
  using pos_of_SomeD nth_mem by fastforce

lemma pos_of_nth: "distinct xs \<Longrightarrow> i < length xs \<Longrightarrow> pos_of (xs ! i) xs = Some i"
  by (induction xs arbitrary: i) (auto simp: nth_Cons split: nat.splits)

lemma pos_of_0: "pos_of x xs = Some 0 \<longleftrightarrow> xs \<noteq> [] \<and> hd xs = x"
  by (cases xs) auto

subsection \<open>The loops\<close>

lemma check_known_Inr: "check_known n xs = Inr u \<longleftrightarrow> (\<forall>(s, k, r) \<in> set xs. s \<in> set k)"
  by (induction n xs rule: check_known.induct) auto

lemma check_known_roles:
  "check_known n (role_slots l trainers generators) = Inr u \<longleftrightarrow>
     set (ln_trainer_slots l) \<subseteq> set trainers \<and> set (ln_generator_slots l) \<subseteq> set generators"
  by (fastforce simp: check_known_Inr role_slots_def)

lemma get_push_assignment:
  "hm_get (push_assignment slot a m) s =
     (if s = slot then Some ((case hm_get m slot of None \<Rightarrow> [] | Some xs \<Rightarrow> xs) @ [a]) else hm_get m s)"
  by (simp add: push_assignment_def hm_simps)

lemma assign_ranks_Inr_iff:
  "(\<exists>m'. assign_ranks l ws r slots seen m = Inr m') \<longleftrightarrow> distinct slots \<and> set slots \<inter> seen = {}"
  by (induction slots arbitrary: r seen m) auto

lemma assign_ranks_get:
  assumes "assign_ranks l ws r slots seen m = Inr m'"
  shows "hm_get m' s =
    (case pos_of s slots of
       None \<Rightarrow> hm_get m s
     | Some i \<Rightarrow>
         Some ((case hm_get m s of None \<Rightarrow> [] | Some xs \<Rightarrow> xs) @
           [\<lparr>as_lane_id = ln_lane_id l, as_kind = ln_kind l, as_rank_in_lane = u32_sat (r + i),
              as_world_size = ws\<rparr>]))"
  using assms
proof (induction slots arbitrary: r seen m)
  case (Cons a slots)
  then have new: "a \<notin> seen" and rest: "assign_ranks l ws (Suc r) slots (insert a seen)
      (push_assignment a \<lparr>as_lane_id = ln_lane_id l, as_kind = ln_kind l,
         as_rank_in_lane = u32_sat r, as_world_size = ws\<rparr> m) = Inr m'"
    by (simp_all split: if_splits)
  have "a \<notin> set slots"
    using rest assign_ranks_Inr_iff [of l ws "Suc r" slots "insert a seen"] by auto
  then show ?case
    using Cons.IH [OF rest] by (auto simp: get_push_assignment split: option.splits)
qed simp

lemma place_lanes_Inr_iff:
  "(\<exists>m'. place_lanes trainers generators ls seen m = Inr m') \<longleftrightarrow>
     lanes_wf trainers generators ls \<and> set (map ln_lane_id ls) \<inter> seen = {}"
proof (induction ls arbitrary: seen m)
  case (Cons l ls)
  show ?case
  proof (cases "ln_lane_id l \<notin> seen \<and> lane_wf trainers generators l")
    case True
    then obtain m1 where "assign_ranks l (world_size l) 0 (slots_in_rank_order l) {} m = Inr m1"
      using assign_ranks_Inr_iff [of l "world_size l" 0 "slots_in_rank_order l" "{}" m]
      by (auto simp: lane_wf_def)
    moreover have "check_known (ln_lane_id l) (role_slots l trainers generators) = Inr ()"
      using True by (simp add: check_known_roles lane_wf_def)
    ultimately show ?thesis using True Cons.IH [of "insert (ln_lane_id l) seen" m1]
      by (auto simp: lanes_wf_def lane_wf_def)
  next
    case False
    then show ?thesis
      using assign_ranks_Inr_iff [of l "world_size l" 0 "slots_in_rank_order l" "{}" m]
      by (auto simp: lanes_wf_def lane_wf_def check_known_roles split: sum.splits if_splits)
  qed
qed (simp add: lanes_wf_def)

lemma slot_assignments_Cons:
  "slot_assignments s (l # ls) =
     (case lane_assignment s l of None \<Rightarrow> [] | Some a \<Rightarrow> [a]) @ slot_assignments s ls"
  by (simp add: slot_assignments_def List.map_filter_simps split: option.splits)

lemma slot_assignments_Nil [simp]: "slot_assignments s [] = []"
  by (simp add: slot_assignments_def List.map_filter_simps)

lemma slot_assignments_empty:
  "slot_assignments s ls = [] \<longleftrightarrow> (\<forall>l \<in> set ls. s \<notin> set (slots_in_rank_order l))"
  by (induction ls) (auto simp: slot_assignments_Cons lane_assignment_def split: option.splits)

lemma in_slot_assignments:
  "a \<in> set (slot_assignments s ls) \<longleftrightarrow> (\<exists>l \<in> set ls. lane_assignment s l = Some a)"
  by (induction ls) (auto simp: slot_assignments_Cons split: option.splits)

lemma place_lanes_get:
  assumes "place_lanes trainers generators ls seen m = Inr m'"
  shows "hm_get m' s =
    (if slot_assignments s ls = [] then hm_get m s
     else Some ((case hm_get m s of None \<Rightarrow> [] | Some xs \<Rightarrow> xs) @ slot_assignments s ls))"
  using assms
proof (induction ls arbitrary: seen m)
  case (Cons l ls)
  then obtain m1 where
    m1: "assign_ranks l (world_size l) 0 (slots_in_rank_order l) {} m = Inr m1" and
    rest: "place_lanes trainers generators ls (insert (ln_lane_id l) seen) m1 = Inr m'"
    by (auto split: if_splits sum.splits)
  show ?case
    using Cons.IH [OF rest] assign_ranks_get [OF m1, of s]
    by (auto simp: slot_assignments_Cons lane_assignment_def split: option.splits)
qed simp

lemma check_assigned_Inr: "check_assigned ss m = Inr u \<longleftrightarrow> (\<forall>s \<in> set ss. hm_get m s \<noteq> None)"
  by (induction ss) auto

subsection \<open>Accepted layouts\<close>

lemma lane_layout_new_Inr:
  assumes "lane_layout_new lanes trainers generators = Inr ll"
  obtains m where "place_lanes trainers generators lanes {} [] = Inr m"
    and "\<And>s. s \<in> set trainers \<union> set generators \<Longrightarrow> hm_get m s \<noteq> None"
    and "ll = \<lparr>ll_lanes = lanes, ll_by_slot = m, ll_trainer_count = u32_sat (length trainers),
                ll_generator_count = u32_sat (length generators)\<rparr>"
  using assms
  by (auto simp: lane_layout_new_def Let_def check_assigned_Inr split: if_splits sum.splits)

lemma layout_by_slot:
  assumes "lane_layout_new lanes trainers generators = Inr ll"
  shows "hm_get (ll_by_slot ll) s =
    (if slot_assignments s lanes = [] then None else Some (slot_assignments s lanes))"
  using assms by (elim lane_layout_new_Inr) (simp add: place_lanes_get)

lemma layout_lanes:
  assumes "lane_layout_new lanes trainers generators = Inr ll"
  shows "ll_lanes ll = lanes"
  using assms by (elim lane_layout_new_Inr) simp

lemma layout_accepted_iff:
  "(\<exists>ll. lane_layout_new lanes trainers generators = Inr ll) \<longleftrightarrow>
     declaration_wf lanes trainers generators"
proof (cases "lanes_wf trainers generators lanes")
  case True
  then obtain m where m: "place_lanes trainers generators lanes {} [] = Inr m"
    using place_lanes_Inr_iff [of trainers generators lanes "{}"] by auto
  have "(\<exists>u. check_assigned (trainers @ generators) m = Inr u) \<longleftrightarrow>
     (\<forall>s \<in> set trainers \<union> set generators. \<exists>l \<in> set lanes. s \<in> set (slots_in_rank_order l))"
    by (simp add: check_assigned_Inr place_lanes_get [OF m] slot_assignments_empty)
  then show ?thesis using True m
    by (auto simp: lane_layout_new_def declaration_wf_def Let_def split: sum.splits)
next
  case False
  then have "\<And>m. place_lanes trainers generators lanes {} [] \<noteq> Inr m"
    using place_lanes_Inr_iff [of trainers generators lanes "{}"] by auto
  then show ?thesis using False
    by (auto simp: lane_layout_new_def declaration_wf_def Let_def split: sum.splits)
qed

lemma layout_declaration_wf:
  "lane_layout_new lanes trainers generators = Inr ll \<Longrightarrow> declaration_wf lanes trainers generators"
  using layout_accepted_iff by blast

lemma layout_lane_wf:
  "lane_layout_new lanes trainers generators = Inr ll \<Longrightarrow> l \<in> set lanes \<Longrightarrow>
     lane_wf trainers generators l"
  using layout_declaration_wf by (fastforce simp: declaration_wf_def lanes_wf_def)

lemma unat_world_size:
  assumes "length (slots_in_rank_order l) \<le> u32_max"
  shows "unat (world_size l) = length (slots_in_rank_order l)"
  using assms
  by (simp add: world_size_def unat_u32_sat usize_saturating_add_def slots_in_rank_order_def
      u32_max_def u64_max_def)

lemma lane_assignment_rank:
  assumes "lane_assignment s l = Some a" and "length (slots_in_rank_order l) \<le> u32_max"
  shows "unat (as_rank_in_lane a) < length (slots_in_rank_order l)"
    and "slots_in_rank_order l ! unat (as_rank_in_lane a) = s"
    and "as_lane_id a = ln_lane_id l" and "as_world_size a = world_size l"
  using assms by (auto simp: lane_assignment_def unat_u32_sat dest!: pos_of_SomeD)

subsection \<open>Properties\<close>

text \<open>
  A layout is accepted exactly when its declaration is well formed: there are trainers,
  generators and lanes, at most one broadcast lane, distinct lane ids, every lane has a kind and
  a trainer and only slots expected for their role, none repeated on a lane, and no expected
  slot is left off every lane. The validation neither rejects a good declaration nor lets a bad
  one through.
\<close>

theorem lane_layout_accepts_iff:
  "(\<exists>ll. lane_layout_new lanes trainers generators = Inr ll) \<longleftrightarrow>
     declaration_wf lanes trainers generators"
  by (rule layout_accepted_iff)

text \<open>
  In an accepted layout a slot's assignments are, in declared lane order, exactly the lanes
  that declare it, each with the rank its position among the trainers and then the generators
  gives it; a slot on no lane is an unknown participant. The loops that build the slot index
  compute the same as reading the declaration lane by lane.
\<close>

theorem lane_layout_assigns_positions:
  assumes "lane_layout_new lanes trainers generators = Inr ll"
  shows "assign_slot ll s =
    (if \<exists>l \<in> set lanes. s \<in> set (slots_in_rank_order l)
     then Inr (slot_assignments s lanes) else Inl (UnknownParticipant s))"
  using layout_by_slot [OF assms, of s] slot_assignments_empty [of s lanes]
  by (auto simp: assign_slot_def)

definition example_lanes :: "Lane list" where
  "example_lanes =
     [\<lparr>ln_lane_id = 0, ln_kind = LaneReshard, ln_trainer_slots = [''t0''], ln_generator_slots = [''g0'']\<rparr>,
      \<lparr>ln_lane_id = 2, ln_kind = LaneBroadcast, ln_trainer_slots = [''t0'', ''t1''], ln_generator_slots = [''g0'']\<rparr>]"

lemma example_layout: "\<exists>ll. lane_layout_new example_lanes [''t0'', ''t1''] [''g0''] = Inr ll"
  unfolding layout_accepted_iff by code_simp

theorem lane_layout_assigns_positions_witness:
  "\<exists>ll. lane_layout_new example_lanes [''t0'', ''t1''] [''g0''] = Inr ll
     \<and> assign_slot ll ''g0'' = Inr (slot_assignments ''g0'' example_lanes)"
proof -
  obtain ll where ll: "lane_layout_new example_lanes [''t0'', ''t1''] [''g0''] = Inr ll"
    using example_layout by blast
  have "\<exists>l \<in> set example_lanes. ''g0'' \<in> set (slots_in_rank_order l)" by code_simp
  then show ?thesis using ll lane_layout_assigns_positions [OF ll, of "''g0''"] by simp
qed

text \<open>
  Ranks are a numbering of the lane: two different slots of one lane of an accepted layout
  hold different ranks, and every rank is below the world size both slots are told. The bound on
  the number of slots is where the 32-bit rank would saturate.
\<close>

theorem lane_ranks_distinct_bounded:
  assumes "lane_layout_new lanes trainers generators = Inr ll" and "l \<in> set lanes"
    and "length (slots_in_rank_order l) \<le> u32_max"
    and "lane_assignment s l = Some a" and "lane_assignment t l = Some b" and "s \<noteq> t"
  shows "as_rank_in_lane a \<noteq> as_rank_in_lane b \<and> as_world_size a = as_world_size b
    \<and> as_rank_in_lane a < as_world_size a \<and> as_rank_in_lane b < as_world_size b
    \<and> a \<in> set (slot_assignments s (ll_lanes ll))"
  using lane_assignment_rank [OF assms(4,3)] lane_assignment_rank [OF assms(5,3)] assms(2,4,6)
    unat_world_size [OF assms(3)] layout_lanes [OF assms(1)]
  by (auto simp: word_less_nat_alt in_slot_assignments)

theorem lane_ranks_distinct_bounded_witness:
  "let l = example_lanes ! 1 in
     as_rank_in_lane (the (lane_assignment ''t1'' l)) \<noteq> as_rank_in_lane (the (lane_assignment ''g0'' l))"
proof -
  obtain ll where ll: "lane_layout_new example_lanes [''t0'', ''t1''] [''g0''] = Inr ll"
    using example_layout by blast
  let ?l = "example_lanes ! 1"
  have "?l \<in> set example_lanes" "length (slots_in_rank_order ?l) \<le> u32_max"
    by (simp_all add: example_lanes_def slots_in_rank_order_def u32_max_def)
  moreover have "lane_assignment ''t1'' ?l = Some (the (lane_assignment ''t1'' ?l))"
    "lane_assignment ''g0'' ?l = Some (the (lane_assignment ''g0'' ?l))"
    by (simp_all add: example_lanes_def slots_in_rank_order_def lane_assignment_def)
  ultimately show ?thesis using lane_ranks_distinct_bounded [OF ll] by (simp add: Let_def)
qed

text \<open>
  The slots that owe a lane its bootstrap identifier are exactly the first trainers of the
  lanes: rank 0 of every lane is a trainer, and no other slot of the layout is a leader.
\<close>

theorem bootstrap_leaders_are_first_trainers:
  assumes "lane_layout_new lanes trainers generators = Inr ll"
  shows "is_bootstrap_leader ll s \<longleftrightarrow>
    (\<exists>l \<in> set lanes. ln_trainer_slots l \<noteq> [] \<and> hd (ln_trainer_slots l) = s)"
proof -
  have first: "(\<exists>a. lane_assignment s l = Some a \<and> as_rank_in_lane a = 0) \<longleftrightarrow>
      ln_trainer_slots l \<noteq> [] \<and> hd (ln_trainer_slots l) = s" if "l \<in> set lanes" for l
    using layout_lane_wf [OF assms that] pos_of_0 [of s "slots_in_rank_order l"]
    by (auto simp: lane_assignment_def u32_sat_eq_0 lane_wf_def slots_in_rank_order_def)
  have "is_bootstrap_leader ll s \<longleftrightarrow> (\<exists>a \<in> set (slot_assignments s lanes). as_rank_in_lane a = 0)"
    by (auto simp: is_bootstrap_leader_def layout_by_slot [OF assms] list_ex_iff)
  also have "\<dots> \<longleftrightarrow> (\<exists>l \<in> set lanes. \<exists>a. lane_assignment s l = Some a \<and> as_rank_in_lane a = 0)"
    unfolding Bex_def in_slot_assignments by blast
  finally show ?thesis using first by simp
qed

theorem bootstrap_leaders_are_first_trainers_witness:
  "\<exists>ll. lane_layout_new example_lanes [''t0'', ''t1''] [''g0''] = Inr ll
     \<and> is_bootstrap_leader ll ''t0'' \<and> \<not> is_bootstrap_leader ll ''t1''"
proof -
  obtain ll where ll: "lane_layout_new example_lanes [''t0'', ''t1''] [''g0''] = Inr ll"
    using example_layout by blast
  show ?thesis
    using ll bootstrap_leaders_are_first_trainers [OF ll] by (auto simp: example_lanes_def)
qed

end
