(* ===== verification/Registry_Backend.thy ===== *)
theory Registry_Backend
  imports MX_Prelude
begin

text \<open>
  The contract of the model registry (\<^verbatim>\<open>registry/backend.rs\<close>): the record type, the claim
  outcomes, and what \<^verbatim>\<open>trait RegistryBackend\<close> promises about download leases.

  The promise is stated as an abstract lease cell per registry key (a status and the current
  lease, if any) with one transition per trait method, taken from the trait's documentation. The
  locale \<open>lease_backend\<close> is the interface of the trait's clients: a backend whose methods
  refine the cell transitions. Mutual exclusion of downloads, fencing of stale owners, progress
  after expiry and stability of finished downloads are proved once in the locale; the in-memory
  and the Redis backend interpret it in their own theories.
\<close>

datatype ModelStatus = DOWNLOADING | DOWNLOADED | ERROR

datatype ModelProvider = HuggingFace | Ngc | Gcs | S3

text \<open>Times are instants (\<^verbatim>\<open>DateTime<Utc>\<close>) as integers, durations are non-negative.\<close>

record ModelRecord =
  mr_model_name :: string
  mr_provider :: ModelProvider
  mr_status :: ModelStatus
  mr_created_at :: int
  mr_last_used_at :: int
  mr_message :: "string option"

datatype ClaimOutcome = Claimed | TookOver | AlreadyExists ModelStatus

subsection \<open>The abstract lease cell\<close>

type_synonym lease_cell = "(ModelStatus \<times> (string \<times> int) option) option"

definition lease_expired :: "int \<Rightarrow> (string \<times> int) option \<Rightarrow> bool" where
  "lease_expired now l = (case l of None \<Rightarrow> True | Some (c, e) \<Rightarrow> e \<le> now)"

definition lease_owned_by :: "string \<Rightarrow> lease_cell \<Rightarrow> bool" where
  "lease_owned_by c cell =
     (case cell of Some (DOWNLOADING, Some (c', e)) \<Rightarrow> c' = c | _ \<Rightarrow> False)"

datatype lease_event =
    EClaim string nat
  | ERetry string nat
  | ERefresh string nat
  | EFinish string ModelStatus "string option"
  | ESet ModelStatus "string option"
  | ETouch
  | EDelete

datatype lease_reply = RClaim ClaimOutcome | RBool bool | RUnit

text \<open>One trait method call, at time \<open>t\<close>, on the cell of its key; \<open>dl\<close> gives a lease's deadline.\<close>

fun cell_step :: "(int \<Rightarrow> nat \<Rightarrow> int) \<Rightarrow> int \<Rightarrow> lease_event \<Rightarrow> lease_cell \<Rightarrow> lease_reply \<times> lease_cell" where
  "cell_step dl t (EClaim c d) cell =
     (case cell of
        None \<Rightarrow> (RClaim Claimed, Some (DOWNLOADING, Some (c, dl t d)))
      | Some (st, l) \<Rightarrow>
          if st = DOWNLOADING \<and> lease_expired t l
          then (RClaim TookOver, Some (DOWNLOADING, Some (c, dl t d)))
          else (RClaim (AlreadyExists st), cell))"
| "cell_step dl t (ERetry c d) cell =
     (case cell of
        Some (ERROR, l) \<Rightarrow> (RBool True, Some (DOWNLOADING, Some (c, dl t d)))
      | _ \<Rightarrow> (RBool False, cell))"
| "cell_step dl t (ERefresh c d) cell =
     (if lease_owned_by c cell then (RBool True, Some (DOWNLOADING, Some (c, dl t d)))
      else (RBool False, cell))"
| "cell_step dl t (EFinish c st m) cell =
     (if lease_owned_by c cell then (RBool True, Some (st, None)) else (RBool False, cell))"
| "cell_step dl t (ESet st m) cell =
     (RUnit, Some (st, if st = DOWNLOADING then Option.bind cell snd else None))"
| "cell_step dl t ETouch cell = (RUnit, cell)"
| "cell_step dl t EDelete cell = (RUnit, None)"

text \<open>The calls a download worker makes, with the claim id it makes them under.\<close>

fun worker_event :: "lease_event \<Rightarrow> bool" where
  "worker_event (ESet st m) = False"
| "worker_event EDelete = False"
| "worker_event e = True"

fun event_claim :: "lease_event \<Rightarrow> string option" where
  "event_claim (EClaim c d) = Some c"
| "event_claim (ERetry c d) = Some c"
| "event_claim (ERefresh c d) = Some c"
| "event_claim (EFinish c st m) = Some c"
| "event_claim _ = None"

text \<open>Whether the reply gave the caller the download.\<close>

fun reply_owns :: "lease_reply \<Rightarrow> bool" where
  "reply_owns (RClaim Claimed) = True"
| "reply_owns (RClaim TookOver) = True"
| "reply_owns (RBool b) = b"
| "reply_owns _ = False"

fun run_events :: "(int \<Rightarrow> string \<Rightarrow> lease_event \<Rightarrow> 's \<Rightarrow> lease_reply \<times> 's) \<Rightarrow> string \<Rightarrow>
    (int \<times> lease_event) list \<Rightarrow> 's \<Rightarrow> lease_reply list \<times> 's" where
  "run_events perform k [] s = ([], s)"
| "run_events perform k ((t, e) # es) s =
     (let (r, s') = perform t k e s; (rs, s'') = run_events perform k es s' in (r # rs, s''))"

lemma run_events_Cons [simp]:
  "fst (run_events p k ((t, e) # es) s) = fst (p t k e s) # fst (run_events p k es (snd (p t k e s)))"
  "snd (run_events p k ((t, e) # es) s) = snd (run_events p k es (snd (p t k e s)))"
  by (simp_all add: Let_def split: prod.splits)

declare run_events.simps(2) [simp del]

subsection \<open>Facts of the cell\<close>

fun_cases worker_event_elims: "worker_event (ESet st m)" "worker_event EDelete"

lemma cell_step_foreign:
  assumes "worker_event e" and "event_claim e \<noteq> Some c" and "t < x"
    and "cell = Some (DOWNLOADING, Some (c, x))"
  shows "snd (cell_step dl t e cell) = cell" and "\<not> reply_owns (fst (cell_step dl t e cell))"
  using assms by (cases e; auto simp: lease_owned_by_def lease_expired_def)+

lemma cell_step_fenced:
  assumes "cell = Some (DOWNLOADING, Some (c, x))" and "c' \<noteq> c"
  shows "cell_step dl t (EFinish c' st m) cell = (RBool False, cell)"
    and "cell_step dl t (ERefresh c' d) cell = (RBool False, cell)"
  using assms by (auto simp: lease_owned_by_def)

lemma cell_step_settled:
  assumes "worker_event e" and "cell = Some (DOWNLOADED, l)"
  shows "snd (cell_step dl t e cell) = cell" and "\<not> reply_owns (fst (cell_step dl t e cell))"
  using assms by (cases e; auto simp: lease_owned_by_def)+

subsection \<open>The interface\<close>

locale lease_backend =
  fixes perform :: "int \<Rightarrow> string \<Rightarrow> lease_event \<Rightarrow> 's \<Rightarrow> lease_reply \<times> 's"
    and cell :: "'s \<Rightarrow> string \<Rightarrow> lease_cell"
    and deadline :: "int \<Rightarrow> nat \<Rightarrow> int"
    and inv :: "'s \<Rightarrow> bool"
    and in_scope :: "string \<Rightarrow> bool"
  assumes perform_reply: "inv s \<Longrightarrow> in_scope k \<Longrightarrow>
      fst (perform t k e s) = fst (cell_step deadline t e (cell s k))"
    and perform_cell: "inv s \<Longrightarrow> in_scope k \<Longrightarrow> in_scope k' \<Longrightarrow>
      cell (snd (perform t k e s)) k' =
        (if k' = k then snd (cell_step deadline t e (cell s k)) else cell s k')"
    and perform_inv: "inv s \<Longrightarrow> in_scope k \<Longrightarrow> inv (snd (perform t k e s))"
begin

lemma run_inv: "inv s \<Longrightarrow> in_scope k \<Longrightarrow> inv (snd (run_events perform k es s))"
  by (induction es arbitrary: s) (auto simp: perform_inv)

text \<open>What every call of a run keeps of the cell, and makes true of its replies, the run does.\<close>

lemma run_keeps:
  assumes "inv s" and "in_scope k" and "P (cell s k)"
    and "\<And>t e c. (t, e) \<in> set es \<Longrightarrow> P c \<Longrightarrow>
      P (snd (cell_step deadline t e c)) \<and> Q (fst (cell_step deadline t e c))"
  shows "list_all Q (fst (run_events perform k es s)) \<and> P (cell (snd (run_events perform k es s)) k)"
  using assms
proof (induction es arbitrary: s)
  case (Cons a es)
  obtain t e where a: "a = (t, e)" by fastforce
  let ?s' = "snd (perform t k e s)"
  have "P (snd (cell_step deadline t e (cell s k))) \<and> Q (fst (cell_step deadline t e (cell s k)))"
    using Cons.prems(3,4) by (simp add: a)
  then have "P (cell ?s' k)" "Q (fst (perform t k e s))" "inv ?s'"
    using Cons.prems(1,2) by (simp_all add: perform_reply perform_cell perform_inv)
  then show ?case using Cons.IH [of ?s'] Cons.prems(2,4) by (simp add: a)
qed simp

text \<open>
  While one claim holds an unexpired lease, nobody else gets the download: every call of every
  other worker before the deadline is refused and leaves the lease as it was.
\<close>

lemma exclusive:
  assumes "inv s" and "in_scope k" and "cell s k = Some (DOWNLOADING, Some (c, x))"
    and "\<And>t e. (t, e) \<in> set es \<Longrightarrow> t < x \<and> worker_event e \<and> event_claim e \<noteq> Some c"
  shows "list_all (\<lambda>r. \<not> reply_owns r) (fst (run_events perform k es s))
    \<and> cell (snd (run_events perform k es s)) k = Some (DOWNLOADING, Some (c, x))"
proof (rule run_keeps [OF assms(1,2)])
  show "cell s k = Some (DOWNLOADING, Some (c, x))" by (rule assms(3))
next
  fix t e y
  assume "(t, e) \<in> set es" and y: "y = Some (DOWNLOADING, Some (c, x))"
  then show "snd (cell_step deadline t e y) = Some (DOWNLOADING, Some (c, x))
    \<and> \<not> reply_owns (fst (cell_step deadline t e y))"
    using assms(4) [of t e] cell_step_foreign [OF _ _ _ y] by blast
qed

text \<open>A worker that lost its lease can neither renew it nor publish a result.\<close>

lemma fenced:
  assumes "inv s" and "in_scope k" and "cell s k = Some (DOWNLOADING, Some (c, x))" and "c' \<noteq> c"
  shows "fst (perform t k (EFinish c' st m) s) = RBool False"
    and "cell (snd (perform t k (EFinish c' st m) s)) k = cell s k"
    and "fst (perform t k (ERefresh c' d) s) = RBool False"
    and "cell (snd (perform t k (ERefresh c' d) s)) k = cell s k"
  using cell_step_fenced [OF assms(3,4)] assms(1,2)
  by (simp_all add: perform_reply perform_cell)

text \<open>An expired or missing lease is always taken over, and an unknown model always claimed.\<close>

lemma takeover:
  assumes "inv s" and "in_scope k"
    and "cell s k = None \<or> (\<exists>l. cell s k = Some (DOWNLOADING, l) \<and> lease_expired t l)"
  shows "reply_owns (fst (perform t k (EClaim c d) s))
    \<and> cell (snd (perform t k (EClaim c d) s)) k = Some (DOWNLOADING, Some (c, deadline t d))"
  using assms by (auto simp: perform_reply perform_cell)

text \<open>A finished download stays finished under every worker's calls.\<close>

lemma settled:
  assumes "inv s" and "in_scope k" and "cell s k = Some (DOWNLOADED, l)"
    and "\<And>t e. (t, e) \<in> set es \<Longrightarrow> worker_event e"
  shows "list_all (\<lambda>r. \<not> reply_owns r) (fst (run_events perform k es s))
    \<and> cell (snd (run_events perform k es s)) k = Some (DOWNLOADED, l)"
proof (rule run_keeps [OF assms(1,2)])
  show "cell s k = Some (DOWNLOADED, l)" by (rule assms(3))
next
  fix t e y
  assume "(t, e) \<in> set es" and y: "y = Some (DOWNLOADED, l)"
  then show "snd (cell_step deadline t e y) = Some (DOWNLOADED, l)
    \<and> \<not> reply_owns (fst (cell_step deadline t e y))"
    using assms(4) [of t e] cell_step_settled [OF _ y] by blast
qed

text \<open>A whole run of calls at one key never touches another key.\<close>

lemma run_frame:
  assumes "inv s" and "in_scope k" and "in_scope k'" and "k' \<noteq> k"
  shows "cell (snd (run_events perform k es s)) k' = cell s k'"
  using assms(1)
  by (induction es arbitrary: s) (auto simp: assms perform_cell perform_inv)

end

end
