(* ===== verification/Registry_Memory.thy ===== *)
theory Registry_Memory
  imports Registry_Backend "HOL-Library.Multiset"
begin

text \<open>
  The in-memory registry backend (\<^verbatim>\<open>registry/backend/memory.rs\<close>): the mutex-guarded
  pair of hash maps and every method of the trait, each one atomic under the lock. The instant
  \<^verbatim>\<open>Utc::now()\<close> returns is an argument of the method. \<^verbatim>\<open>chrono\<close>'s checked addition
  of a duration to an instant (with the range check of \<^verbatim>\<open>TimeDelta::from_std\<close>) is the
  parameter \<open>add\<close>.

  Shown here: the invariant that a lease exists only for a \<^const>\<open>DOWNLOADING\<close> record, the
  refinement of the lease contract (an interpretation of \<open>lease_backend\<close>), and the behaviour
  of the eviction listing and the status counts.
\<close>

record DownloadLease =
  dl_claim_id :: string
  dl_expires_at :: int

record InMemoryState =
  ms_models :: "(string, ModelRecord) hash_map"
  ms_leases :: "(string, DownloadLease) hash_map"

type_synonym checked_add = "int \<Rightarrow> nat \<Rightarrow> int option"

definition lease_deadline :: "checked_add \<Rightarrow> int \<Rightarrow> nat \<Rightarrow> int" where
  "lease_deadline add now d = (case add now d of Some t \<Rightarrow> t | None \<Rightarrow> now)"

definition mem_new :: InMemoryState where
  "mem_new = \<lparr>ms_models = [], ms_leases = []\<rparr>"

definition mem_get_status :: "string \<Rightarrow> InMemoryState \<Rightarrow> ModelStatus option" where
  "mem_get_status name s = map_option mr_status (hm_get (ms_models s) name)"

definition mem_get_model_record :: "string \<Rightarrow> InMemoryState \<Rightarrow> ModelRecord option" where
  "mem_get_model_record name s = hm_get (ms_models s) name"

definition mem_set_status ::
  "int \<Rightarrow> string \<Rightarrow> ModelProvider \<Rightarrow> ModelStatus \<Rightarrow> string option \<Rightarrow> InMemoryState \<Rightarrow> InMemoryState"
  where
  "mem_set_status now name provider status message s =
     (let record =
        (case hm_get (ms_models s) name of
           Some r \<Rightarrow> r\<lparr>mr_provider := provider, mr_status := status, mr_message := message,
                        mr_last_used_at := now\<rparr>
         | None \<Rightarrow> \<lparr>mr_model_name = name, mr_provider = provider, mr_status = status,
                      mr_created_at = now, mr_last_used_at = now, mr_message = message\<rparr>);
        s' = s\<lparr>ms_models := hm_insert name record (ms_models s)\<rparr>
      in if status \<noteq> DOWNLOADING then s'\<lparr>ms_leases := hm_remove name (ms_leases s)\<rparr> else s')"

definition mem_touch_model :: "int \<Rightarrow> string \<Rightarrow> InMemoryState \<Rightarrow> InMemoryState" where
  "mem_touch_model now name s =
     (case hm_get (ms_models s) name of
        Some r \<Rightarrow> s\<lparr>ms_models := hm_insert name (r\<lparr>mr_last_used_at := now\<rparr>) (ms_models s)\<rparr>
      | None \<Rightarrow> s)"

definition mem_delete_model :: "string \<Rightarrow> InMemoryState \<Rightarrow> InMemoryState" where
  "mem_delete_model name s =
     s\<lparr>ms_models := hm_remove name (ms_models s), ms_leases := hm_remove name (ms_leases s)\<rparr>"

text \<open>\<^verbatim>\<open>sort_by_key\<close> is a stable sort; \<^verbatim>\<open>truncate\<close> keeps a prefix.\<close>

definition mem_get_models_by_last_used :: "u32 option \<Rightarrow> InMemoryState \<Rightarrow> ModelRecord list" where
  "mem_get_models_by_last_used limit s =
     (let records = sort_key mr_last_used_at (hm_values (ms_models s))
      in case limit of Some n \<Rightarrow> take (unat n) records | None \<Rightarrow> records)"

fun count_status :: "ModelStatus \<Rightarrow> u32 \<times> u32 \<times> u32 \<Rightarrow> u32 \<times> u32 \<times> u32" where
  "count_status DOWNLOADING (a, b, c) = (u32_saturating_add a 1, b, c)"
| "count_status DOWNLOADED (a, b, c) = (a, u32_saturating_add b 1, c)"
| "count_status ERROR (a, b, c) = (a, b, u32_saturating_add c 1)"

definition mem_get_status_counts :: "InMemoryState \<Rightarrow> u32 \<times> u32 \<times> u32" where
  "mem_get_status_counts s = fold (\<lambda>r acc. count_status (mr_status r) acc) (hm_values (ms_models s)) (0, 0, 0)"

definition mem_try_claim_for_download ::
  "checked_add \<Rightarrow> int \<Rightarrow> string \<Rightarrow> ModelProvider \<Rightarrow> string \<Rightarrow> nat \<Rightarrow> InMemoryState
   \<Rightarrow> ClaimOutcome \<times> InMemoryState" where
  "mem_try_claim_for_download add now name provider claim_id d s =
     (let lease = \<lparr>dl_claim_id = claim_id, dl_expires_at = lease_deadline add now d\<rparr>;
          expired = (case hm_get (ms_leases s) name of
                       None \<Rightarrow> True | Some l \<Rightarrow> dl_expires_at l \<le> now)
      in case hm_get (ms_models s) name of
           Some existing \<Rightarrow>
             if mr_status existing = DOWNLOADING \<and> expired
             then (TookOver,
                   s\<lparr>ms_models := hm_insert name
                        (existing\<lparr>mr_provider := provider, mr_last_used_at := now,
                           mr_message := Some ''Taking over expired download lease...''\<rparr>)
                        (ms_models s),
                     ms_leases := hm_insert name lease (ms_leases s)\<rparr>)
             else (AlreadyExists (mr_status existing), s)
         | None \<Rightarrow>
             (Claimed,
              s\<lparr>ms_models := hm_insert name
                   \<lparr>mr_model_name = name, mr_provider = provider, mr_status = DOWNLOADING,
                     mr_created_at = now, mr_last_used_at = now, mr_message = None\<rparr> (ms_models s),
                ms_leases := hm_insert name lease (ms_leases s)\<rparr>))"

definition mem_try_reset_error_for_retry ::
  "checked_add \<Rightarrow> int \<Rightarrow> string \<Rightarrow> ModelProvider \<Rightarrow> string \<Rightarrow> nat \<Rightarrow> InMemoryState
   \<Rightarrow> bool \<times> InMemoryState" where
  "mem_try_reset_error_for_retry add now name provider claim_id d s =
     (case hm_get (ms_models s) name of
        Some record \<Rightarrow>
          if mr_status record = ERROR
          then (True,
                s\<lparr>ms_models := hm_insert name
                     (record\<lparr>mr_provider := provider, mr_status := DOWNLOADING,
                        mr_message := Some ''Retrying download...'', mr_last_used_at := now\<rparr>)
                     (ms_models s),
                  ms_leases := hm_insert name
                     \<lparr>dl_claim_id = claim_id, dl_expires_at = lease_deadline add now d\<rparr>
                     (ms_leases s)\<rparr>)
          else (False, s)
      | None \<Rightarrow> (False, s))"

definition owns_claim :: "string \<Rightarrow> string \<Rightarrow> InMemoryState \<Rightarrow> bool" where
  "owns_claim name claim_id s =
     (case hm_get (ms_leases s) name of Some l \<Rightarrow> dl_claim_id l = claim_id | None \<Rightarrow> False)"

definition not_downloading :: "string \<Rightarrow> InMemoryState \<Rightarrow> bool" where
  "not_downloading name s =
     (case hm_get (ms_models s) name of Some r \<Rightarrow> mr_status r \<noteq> DOWNLOADING | None \<Rightarrow> True)"

definition mem_refresh_download_claim ::
  "checked_add \<Rightarrow> int \<Rightarrow> string \<Rightarrow> ModelProvider \<Rightarrow> string \<Rightarrow> nat \<Rightarrow> InMemoryState
   \<Rightarrow> bool \<times> InMemoryState" where
  "mem_refresh_download_claim add now name provider claim_id d s =
     (if \<not> owns_claim name claim_id s \<or> not_downloading name s then (False, s)
      else case (hm_get (ms_models s) name, hm_get (ms_leases s) name) of
             (Some record, Some lease) \<Rightarrow>
               (True,
                s\<lparr>ms_models := hm_insert name
                     (record\<lparr>mr_provider := provider, mr_last_used_at := now\<rparr>) (ms_models s),
                  ms_leases := hm_insert name
                     (lease\<lparr>dl_expires_at := lease_deadline add now d\<rparr>) (ms_leases s)\<rparr>)
           | _ \<Rightarrow> (False, s))"

definition mem_finish_download_claim ::
  "int \<Rightarrow> string \<Rightarrow> ModelProvider \<Rightarrow> string \<Rightarrow> ModelStatus \<Rightarrow> string option \<Rightarrow> InMemoryState
   \<Rightarrow> bool \<times> InMemoryState" where
  "mem_finish_download_claim now name provider claim_id status message s =
     (if \<not> owns_claim name claim_id s \<or> not_downloading name s then (False, s)
      else case hm_get (ms_models s) name of
             None \<Rightarrow> (False, s)
           | Some record \<Rightarrow>
               (True,
                s\<lparr>ms_models := hm_insert name
                     (record\<lparr>mr_provider := provider, mr_status := status, mr_message := message,
                        mr_last_used_at := now\<rparr>) (ms_models s),
                  ms_leases := hm_remove name (ms_leases s)\<rparr>))"

subsection \<open>Calls of one provider as lease events\<close>

fun mem_perform ::
  "checked_add \<Rightarrow> ModelProvider \<Rightarrow> int \<Rightarrow> string \<Rightarrow> lease_event \<Rightarrow> InMemoryState
   \<Rightarrow> lease_reply \<times> InMemoryState" where
  "mem_perform add p t k (EClaim c d) s = apfst RClaim (mem_try_claim_for_download add t k p c d s)"
| "mem_perform add p t k (ERetry c d) s = apfst RBool (mem_try_reset_error_for_retry add t k p c d s)"
| "mem_perform add p t k (ERefresh c d) s = apfst RBool (mem_refresh_download_claim add t k p c d s)"
| "mem_perform add p t k (EFinish c st m) s = apfst RBool (mem_finish_download_claim t k p c st m s)"
| "mem_perform add p t k (ESet st m) s = (RUnit, mem_set_status t k p st m s)"
| "mem_perform add p t k ETouch s = (RUnit, mem_touch_model t k s)"
| "mem_perform add p t k EDelete s = (RUnit, mem_delete_model k s)"

definition mem_cell :: "InMemoryState \<Rightarrow> string \<Rightarrow> lease_cell" where
  "mem_cell s k =
     map_option
       (\<lambda>r. (mr_status r,
             map_option (\<lambda>l. (dl_claim_id l, dl_expires_at l)) (hm_get (ms_leases s) k)))
       (hm_get (ms_models s) k)"

text \<open>A lease exists only for a record that is downloading; records are filed under their name.\<close>

definition mem_inv :: "InMemoryState \<Rightarrow> bool" where
  "mem_inv s =
     (hm_ok (ms_models s) \<and> hm_ok (ms_leases s)
      \<and> (\<forall>k l. hm_get (ms_leases s) k = Some l \<longrightarrow>
           (\<exists>r. hm_get (ms_models s) k = Some r \<and> mr_status r = DOWNLOADING))
      \<and> (\<forall>k r. hm_get (ms_models s) k = Some r \<longrightarrow> mr_model_name r = k))"

lemmas mem_op_defs =
  mem_try_claim_for_download_def mem_try_reset_error_for_retry_def mem_refresh_download_claim_def
  mem_finish_download_claim_def mem_set_status_def mem_touch_model_def mem_delete_model_def
  owns_claim_def not_downloading_def

subsection \<open>Invariant\<close>

lemma mem_inv_new: "mem_inv mem_new"
  by (simp add: mem_inv_def mem_new_def)

lemma mem_inv_with_lease:
  "mem_inv s \<Longrightarrow> mr_status r = DOWNLOADING \<Longrightarrow> mr_model_name r = k \<Longrightarrow>
     mem_inv (s\<lparr>ms_models := hm_insert k r (ms_models s), ms_leases := hm_insert k l (ms_leases s)\<rparr>)"
  by (auto simp: mem_inv_def hm_simps)

lemma mem_inv_without_lease:
  "mem_inv s \<Longrightarrow> mr_model_name r = k \<Longrightarrow>
     mem_inv (s\<lparr>ms_models := hm_insert k r (ms_models s), ms_leases := hm_remove k (ms_leases s)\<rparr>)"
  by (auto simp: mem_inv_def hm_simps)

lemma mem_inv_same_status:
  "mem_inv s \<Longrightarrow> hm_get (ms_models s) k = Some r0 \<Longrightarrow> mr_status r = mr_status r0 \<Longrightarrow> mr_model_name r = k \<Longrightarrow>
     mem_inv (s\<lparr>ms_models := hm_insert k r (ms_models s)\<rparr>)"
  by (auto simp: mem_inv_def hm_simps)

lemma mem_inv_downloading:
  "mem_inv s \<Longrightarrow> mr_status r = DOWNLOADING \<Longrightarrow> mr_model_name r = k \<Longrightarrow>
     mem_inv (s\<lparr>ms_models := hm_insert k r (ms_models s)\<rparr>)"
  by (auto simp: mem_inv_def hm_simps)

lemma mem_inv_delete: "mem_inv s \<Longrightarrow> mem_inv (mem_delete_model k s)"
  by (auto simp: mem_inv_def mem_delete_model_def hm_simps)

lemma mem_inv_name: "mem_inv s \<Longrightarrow> hm_get (ms_models s) k = Some r \<Longrightarrow> mr_model_name r = k"
  by (auto simp: mem_inv_def)

lemmas mem_inv_intros =
  mem_inv_with_lease mem_inv_without_lease mem_inv_same_status mem_inv_downloading mem_inv_delete

lemma mem_perform_inv: "mem_inv s \<Longrightarrow> mem_inv (snd (mem_perform add p t k e s))"
proof (cases e)
  case (ESet st m)
  then show "mem_inv s \<Longrightarrow> ?thesis"
    by (cases "hm_get (ms_models s) k")
       (auto simp: mem_set_status_def Let_def mem_inv_name
         intro!: mem_inv_without_lease mem_inv_downloading)
next
  case ETouch
  then show "mem_inv s \<Longrightarrow> ?thesis"
    by (auto simp: mem_touch_model_def mem_inv_name intro!: mem_inv_same_status split: option.splits)
next
  case EDelete
  then show "mem_inv s \<Longrightarrow> ?thesis" by (simp add: mem_inv_delete)
qed (auto simp: mem_op_defs Let_def mem_inv_name
      intro!: mem_inv_with_lease mem_inv_without_lease split: option.splits)

subsection \<open>Refinement of the lease contract\<close>

lemma mem_lease_only_downloading:
  "mem_inv s \<Longrightarrow> hm_get (ms_models s) k = Some r \<Longrightarrow> mr_status r \<noteq> DOWNLOADING \<Longrightarrow>
     hm_get (ms_leases s) k = None"
  by (cases "hm_get (ms_leases s) k") (auto simp: mem_inv_def)

lemma mem_no_model_no_lease:
  "mem_inv s \<Longrightarrow> hm_get (ms_models s) k = None \<Longrightarrow> hm_get (ms_leases s) k = None"
  by (cases "hm_get (ms_leases s) k") (auto simp: mem_inv_def)

lemmas mem_cell_simps = mem_cell_def mem_op_defs lease_owned_by_def lease_expired_def

lemma mem_perform_reply:
  assumes "mem_inv s"
  shows "fst (mem_perform add p t k e s) = fst (cell_step (lease_deadline add) t e (mem_cell s k))"
  using assms
  by (cases e; cases "hm_get (ms_models s) k"; cases "hm_get (ms_leases s) k")
     (auto simp: mem_cell_simps Let_def split: ModelStatus.splits)

lemma mem_perform_cell:
  assumes "mem_inv s"
  shows "mem_cell (snd (mem_perform add p t k e s)) k' =
    (if k' = k then snd (cell_step (lease_deadline add) t e (mem_cell s k)) else mem_cell s k')"
proof (cases "hm_get (ms_models s) k")
  case None
  then show ?thesis using mem_no_model_no_lease [OF assms None]
    by (cases e) (auto simp: mem_cell_simps Let_def hm_simps)
next
  case (Some r)
  show ?thesis
  proof (cases "hm_get (ms_leases s) k")
    case None
    with Some show ?thesis
      by (cases e; cases "mr_status r") (auto simp: mem_cell_simps Let_def hm_simps)
  next
    case (Some l)
    with \<open>hm_get (ms_models s) k = Some r\<close> have "mr_status r = DOWNLOADING"
      using mem_lease_only_downloading [OF assms] by fastforce
    with Some \<open>hm_get (ms_models s) k = Some r\<close> show ?thesis
      by (cases e) (auto simp: mem_cell_simps Let_def hm_simps)
  qed
qed

interpretation mem: lease_backend "mem_perform add p" mem_cell "lease_deadline add" mem_inv "\<lambda>_. True"
  for add p
  by unfold_locales (simp_all add: mem_perform_reply mem_perform_cell mem_perform_inv)

subsection \<open>Listings\<close>

lemma listing_set: "set (mem_get_models_by_last_used None s) = set (hm_values (ms_models s))"
  by (simp add: mem_get_models_by_last_used_def)

lemma listing_names:
  assumes "mem_inv reg"
  shows "distinct (map mr_model_name (mem_get_models_by_last_used None reg))"
    and "m \<in> set (mem_get_models_by_last_used None reg) \<longleftrightarrow> mem_get_model_record (mr_model_name m) reg = Some m"
proof -
  have ok: "hm_ok (ms_models reg)" and nm: "\<And>k r. hm_get (ms_models reg) k = Some r \<Longrightarrow> mr_model_name r = k"
    using assms by (auto simp: mem_inv_def)
  have "map mr_model_name (hm_values (ms_models reg)) = map fst (ms_models reg)"
    using ok nm by (auto simp: hm_values_def hm_ok_def hm_get_def)
  then have "distinct (map mr_model_name (hm_values (ms_models reg)))" using ok by (simp add: hm_ok_def)
  then show "distinct (map mr_model_name (mem_get_models_by_last_used None reg))"
    by (simp add: mem_get_models_by_last_used_def distinct_map)
  show "m \<in> set (mem_get_models_by_last_used None reg) \<longleftrightarrow> mem_get_model_record (mr_model_name m) reg = Some m"
    using nm by (auto simp: listing_set hm.vals_get [OF ok] mem_get_model_record_def)
qed

lemma listing_keys:
  assumes "mem_inv reg"
  shows "k \<in> mr_model_name ` set (mem_get_models_by_last_used None reg) \<longleftrightarrow> mem_get_model_record k reg \<noteq> None"
proof -
  have "mr_model_name r = k" if "mem_get_model_record k reg = Some r" for r
    using assms that by (auto simp: mem_inv_def mem_get_model_record_def)
  then have "mem_get_model_record k reg = Some r \<longleftrightarrow> r \<in> set (mem_get_models_by_last_used None reg) \<and> mr_model_name r = k" for r
    using listing_names(2) [OF assms, of r] by metis
  then show ?thesis by (simp add: image_iff Bex_def) metis
qed

subsection \<open>Reachable states\<close>

inductive mem_reachable :: "checked_add \<Rightarrow> InMemoryState \<Rightarrow> bool" for add where
  start: "mem_reachable add mem_new"
| call: "mem_reachable add s \<Longrightarrow> mem_reachable add (snd (mem_perform add p t k e s))"

inductive_simps mem_reachable_unfold: "mem_reachable add s"

lemma mem_reachable_inv: "mem_reachable add s \<Longrightarrow> mem_inv s"
  by (induction rule: mem_reachable.induct) (simp_all add: mem_inv_new mem_perform_inv)

lemma mem_claim_won:
  assumes "mem_inv s" and "mem_try_claim_for_download add t k p c d s = (out, s1)"
    and "out = Claimed \<or> out = TookOver"
  shows "mem_inv s1" and "mem_cell s1 k = Some (DOWNLOADING, Some (c, lease_deadline add t d))"
proof -
  have perf: "mem_perform add p t k (EClaim c d) s = (RClaim out, s1)"
    using assms(2) by simp
  then show "mem_inv s1" using mem_perform_inv [OF assms(1), of add p t k "EClaim c d"] by simp
  have "RClaim out = fst (cell_step (lease_deadline add) t (EClaim c d) (mem_cell s k))"
    and "mem_cell s1 k = snd (cell_step (lease_deadline add) t (EClaim c d) (mem_cell s k))"
    using mem_perform_reply [OF assms(1), of add p t k "EClaim c d"]
      mem_perform_cell [OF assms(1), of add p t k "EClaim c d" k] perf
    by (simp_all del: mem_perform.simps cell_step.simps)
  with assms(3) show "mem_cell s1 k = Some (DOWNLOADING, Some (c, lease_deadline add t d))"
    by (auto split: option.splits if_splits)
qed

subsection \<open>Listing and counting\<close>

lemma mem_listing_unlimited:
  "mset (mem_get_models_by_last_used None s) = mset (hm_values (ms_models s))
   \<and> sorted (map mr_last_used_at (mem_get_models_by_last_used None s))"
  by (simp add: mem_get_models_by_last_used_def)

lemma take_is_oldest:
  assumes "sorted (map f xs)" and "x \<in> set (take n xs)" and "y \<in> set (drop n xs)"
  shows "f x \<le> f y"
proof -
  have "sorted (map f (take n xs) @ map f (drop n xs))"
    using assms(1) by (simp flip: map_append)
  with assms(2,3) show ?thesis by (auto simp: sorted_append)
qed

lemma count_status_fold:
  assumes "unat a + length rs \<le> u32_max" and "unat b + length rs \<le> u32_max"
    and "unat c + length rs \<le> u32_max"
  shows "fold (\<lambda>r acc. count_status (mr_status r) acc) rs (a, b, c) = (x, y, z) \<Longrightarrow>
    unat x = unat a + length (filter (\<lambda>r. mr_status r = DOWNLOADING) rs)
    \<and> unat y = unat b + length (filter (\<lambda>r. mr_status r = DOWNLOADED) rs)
    \<and> unat z = unat c + length (filter (\<lambda>r. mr_status r = ERROR) rs)"
  using assms
proof (induction rs arbitrary: a b c)
  case (Cons r rs)
  then show ?case
    by (cases "mr_status r") (fastforce simp: unat_u32_saturating_add)+
qed simp

subsection \<open>Properties\<close>

text \<open>
  C1. Download leases are exclusive. Once a claim returned ownership (first claim or takeover)
  with some deadline, every call any other worker makes for that model before the deadline, in
  any number and order and for any provider, is refused, and the lease still belongs to the
  owner with its deadline. Two replicas never download one entry under live leases.
\<close>

theorem mem_claim_exclusive:
  assumes "mem_reachable add s" and "mem_try_claim_for_download add t k p c d s = (out, s1)"
    and "out = Claimed \<or> out = TookOver"
    and "\<forall>(t', e) \<in> set es. t' < lease_deadline add t d \<and> worker_event e \<and> event_claim e \<noteq> Some c"
  shows "list_all (\<lambda>r. \<not> reply_owns r) (fst (run_events (mem_perform add q) k es s1))
    \<and> mem_cell (snd (run_events (mem_perform add q) k es s1)) k
        = Some (DOWNLOADING, Some (c, lease_deadline add t d))"
  using mem_claim_won [OF mem_reachable_inv [OF assms(1)] assms(2,3)] assms(4)
  by (intro mem.exclusive) auto

theorem mem_claim_exclusive_witness:
  "\<exists>s1. mem_try_claim_for_download (\<lambda>t d. Some (t + int d)) 100 ''m'' HuggingFace ''a'' 30 mem_new = (Claimed, s1)
     \<and> list_all (\<lambda>r. \<not> reply_owns r)
         (fst (run_events (mem_perform (\<lambda>t d. Some (t + int d)) Ngc) ''m''
            [(110, EClaim ''b'' 30), (120, EFinish ''b'' DOWNLOADED None)] s1))"
proof -
  let ?add = "\<lambda>t d. Some (t + int d)"
  obtain out s1 where claim: "mem_try_claim_for_download ?add 100 ''m'' HuggingFace ''a'' 30 mem_new = (out, s1)"
    by fastforce
  then have out: "out = Claimed"
    by (simp add: mem_try_claim_for_download_def mem_new_def)
  have "lease_deadline ?add 100 30 = 130" by (simp add: lease_deadline_def)
  then show ?thesis
    using mem_claim_exclusive [OF mem_reachable.start claim,
        of "[(110, EClaim ''b'' 30), (120, EFinish ''b'' DOWNLOADED None)]" Ngc] claim out
    by simp
qed

text \<open>
  A stale owner is fenced. After another worker took over an expired lease, the previous
  owner can neither publish a terminal status nor renew: both calls return false and the lease
  stays with the new owner.
\<close>

theorem mem_stale_owner_fenced:
  assumes "mem_reachable add s" and "mem_try_claim_for_download add t k p c d s = (out, s1)"
    and "out = Claimed \<or> out = TookOver" and "c' \<noteq> c"
  shows "fst (mem_finish_download_claim t' k q c' st m s1) = False
    \<and> fst (mem_refresh_download_claim add t' k q c' d' s1) = False
    \<and> mem_cell (snd (mem_finish_download_claim t' k q c' st m s1)) k
        = Some (DOWNLOADING, Some (c, lease_deadline add t d))"
  using mem.fenced [OF _ TrueI _ assms(4), where s = s1 and add = add and p = q and t = t' and k = k]
    mem_claim_won [OF mem_reachable_inv [OF assms(1)] assms(2,3)]
  by simp

theorem mem_stale_owner_fenced_witness:
  "\<exists>s1. mem_try_claim_for_download (\<lambda>t d. Some (t + int d)) 100 ''m'' HuggingFace ''a'' 30 mem_new = (Claimed, s1)
     \<and> fst (mem_finish_download_claim 120 ''m'' HuggingFace ''b'' DOWNLOADED None s1) = False"
proof -
  let ?add = "\<lambda>t d. Some (t + int d)"
  obtain out s1 where claim: "mem_try_claim_for_download ?add 100 ''m'' HuggingFace ''a'' 30 mem_new = (out, s1)"
    by fastforce
  then have out: "out = Claimed"
    by (simp add: mem_try_claim_for_download_def mem_new_def)
  show ?thesis
    using mem_stale_owner_fenced [OF mem_reachable.start claim, of "''b''"] claim out by simp
qed

text \<open>
  Every reachable state of the in-memory registry keeps its two maps consistent: a lease
  exists only for a record whose status is downloading, and records are filed under their name.
\<close>

theorem mem_reachable_consistent:
  assumes "mem_reachable add s"
  shows "(hm_get (ms_leases s) k = Some l \<longrightarrow> mem_get_status k s = Some DOWNLOADING)
    \<and> (mem_get_model_record k s = Some r \<longrightarrow> mr_model_name r = k)"
  using mem_reachable_inv [OF assms]
  by (auto simp: mem_inv_def mem_get_status_def mem_get_model_record_def)

theorem mem_reachable_consistent_witness:
  "hm_get (ms_leases mem_new) ''m'' = None \<and> mem_get_model_record ''m'' mem_new = None"
  using mem_reachable_consistent [OF mem_reachable.start, of "''m''"]
  by (simp add: mem_new_def mem_get_model_record_def)

text \<open>
  The eviction listing is the least recently used prefix: with a limit it returns that many
  records (or all), in ascending order of last use, and no record it leaves out was used before
  one it returns.
\<close>

theorem mem_listing_is_lru_prefix:
  "sorted (map mr_last_used_at (mem_get_models_by_last_used (Some n) s))
   \<and> length (mem_get_models_by_last_used (Some n) s) = min (unat n) (length (ms_models s))
   \<and> (\<exists>rest. mset (mem_get_models_by_last_used (Some n) s) + mset rest = mset (hm_values (ms_models s))
        \<and> (\<forall>x \<in> set (mem_get_models_by_last_used (Some n) s). \<forall>y \<in> set rest.
             mr_last_used_at x \<le> mr_last_used_at y))"
proof -
  let ?all = "sort_key mr_last_used_at (hm_values (ms_models s))"
  have "mset (take (unat n) ?all) + mset (drop (unat n) ?all) = mset (hm_values (ms_models s))"
    by (metis append_take_drop_id mset_append mset_sort)
  moreover have "\<forall>x \<in> set (take (unat n) ?all). \<forall>y \<in> set (drop (unat n) ?all). mr_last_used_at x \<le> mr_last_used_at y"
    using take_is_oldest [of mr_last_used_at ?all] by auto
  ultimately show ?thesis
    by (auto simp: mem_get_models_by_last_used_def hm_values_def sorted_wrt_take simp flip: take_map)
qed

theorem mem_listing_is_lru_prefix_witness:
  "length (mem_get_models_by_last_used (Some 1)
     (mem_set_status 5 ''b'' Ngc DOWNLOADED None (mem_set_status 3 ''a'' Ngc DOWNLOADED None mem_new))) = 1"
proof -
  let ?s = "mem_set_status 5 ''b'' Ngc DOWNLOADED None (mem_set_status 3 ''a'' Ngc DOWNLOADED None mem_new)"
  have "length (ms_models ?s) = 2" by code_simp
  then show ?thesis using mem_listing_is_lru_prefix [of 1 ?s] by simp
qed

text \<open>
  The status counts are exact as long as the registry holds no more records than a 32-bit
  counter can count: each counter is the number of records with its status.
\<close>

theorem mem_status_counts_exact:
  assumes "mem_get_status_counts s = (downloading, downloaded, err)"
    and "length (ms_models s) \<le> u32_max"
  shows "unat downloading = length (filter (\<lambda>r. mr_status r = DOWNLOADING) (hm_values (ms_models s)))
    \<and> unat downloaded = length (filter (\<lambda>r. mr_status r = DOWNLOADED) (hm_values (ms_models s)))
    \<and> unat err = length (filter (\<lambda>r. mr_status r = ERROR) (hm_values (ms_models s)))"
  using count_status_fold [of 0 "hm_values (ms_models s)" 0 0] assms
  by (simp add: mem_get_status_counts_def hm_values_def)

theorem mem_status_counts_exact_witness:
  "let s = mem_set_status 3 ''a'' Ngc ERROR None mem_new in
     unat (snd (snd (mem_get_status_counts s))) = 1"
proof -
  let ?s = "mem_set_status 3 ''a'' Ngc ERROR None mem_new"
  obtain x y z where c: "mem_get_status_counts ?s = (x, y, z)" by (metis prod_cases3)
  have m: "ms_models ?s = [(''a'', \<lparr>mr_model_name = ''a'', mr_provider = Ngc, mr_status = ERROR,
      mr_created_at = 3, mr_last_used_at = 3, mr_message = None\<rparr>)]"
    by (simp add: mem_set_status_def mem_new_def hm_insert_def)
  show ?thesis
    using mem_status_counts_exact [OF c] c by (simp add: m hm_values_def u32_max_def Let_def)
qed

end
