(* ===== verification/MX_Text.thy ===== *)
theory MX_Text
  imports MX_Prelude
begin

text \<open>
  Results and text shared by the components that store numbers and bytes as strings: the
  \<^verbatim>\<open>?\<close> operator and \<^verbatim>\<open>collect\<close> on \<^verbatim>\<open>Result\<close>, decimal printing and
  \<^verbatim>\<open>str::parse\<close> for the integer types, \<^verbatim>\<open>{:02x}\<close> and
  \<^verbatim>\<open>u8::from_str_radix(_, 16)\<close>, \<^verbatim>\<open>trim\<close> and \<^verbatim>\<open>find\<close>. The decimal and hex
  printers are codecs.
\<close>

named_theorems res_simps

subsection \<open>Results\<close>

definition sum_bind :: "'e + 'a \<Rightarrow> ('a \<Rightarrow> 'e + 'b) \<Rightarrow> 'e + 'b" where
  "sum_bind x f = (case x of Inl e \<Rightarrow> Inl e | Inr a \<Rightarrow> f a)"

text \<open>\<^verbatim>\<open>option.ok_or(e)\<close> and \<^verbatim>\<open>result.map_err(f)\<close>\<close>

definition ok_or :: "'e \<Rightarrow> 'a option \<Rightarrow> 'e + 'a" where
  "ok_or e x = (case x of None \<Rightarrow> Inl e | Some a \<Rightarrow> Inr a)"

definition map_err :: "('e \<Rightarrow> 'f) \<Rightarrow> 'e + 'a \<Rightarrow> 'f + 'a" where
  "map_err f x = (case x of Inl e \<Rightarrow> Inl (f e) | Inr a \<Rightarrow> Inr a)"

text \<open>\<^verbatim>\<open>iter.map(f).collect::<Result<Vec<_>, _>>()\<close>: the first error wins.\<close>

fun collect_results :: "('a \<Rightarrow> 'e + 'b) \<Rightarrow> 'a list \<Rightarrow> 'e + 'b list" where
  "collect_results f [] = Inr []"
| "collect_results f (x # xs) =
     (case f x of Inl e \<Rightarrow> Inl e
      | Inr y \<Rightarrow> (case collect_results f xs of Inl e \<Rightarrow> Inl e | Inr ys \<Rightarrow> Inr (y # ys)))"

lemma sum_bind_simps [simp, res_simps]:
  "sum_bind (Inl e) f = Inl e" "sum_bind (Inr a) f = f a"
  by (simp_all add: sum_bind_def)

lemma sum_bind_Inr_iff: "sum_bind x f = Inr b \<longleftrightarrow> (\<exists>a. x = Inr a \<and> f a = Inr b)"
  by (cases x) auto

lemma ok_or_simps [simp, res_simps]: "ok_or e None = Inl e" "ok_or e (Some a) = Inr a"
  by (simp_all add: ok_or_def)

lemma ok_or_Inr_iff: "ok_or e x = Inr a \<longleftrightarrow> x = Some a"
  by (cases x) auto

lemma map_err_simps [simp, res_simps]: "map_err f (Inl e) = Inl (f e)" "map_err f (Inr a) = Inr a"
  by (simp_all add: map_err_def)

lemma map_err_Inr_iff: "map_err f x = Inr a \<longleftrightarrow> x = Inr a"
  by (cases x) auto

lemma collect_results_all:
  "(\<And>x. x \<in> set xs \<Longrightarrow> f x = Inr (g x)) \<Longrightarrow> collect_results f xs = Inr (map g xs)"
  by (induction xs) auto

lemma collect_results_Inr_iff:
  "collect_results f xs = Inr ys \<longleftrightarrow> list_all2 (\<lambda>x y. f x = Inr y) xs ys"
proof (induction xs arbitrary: ys)
  case (Cons x xs)
  have "collect_results f (x # xs) = Inr ys
      \<longleftrightarrow> (\<exists>z zs. f x = Inr z \<and> collect_results f xs = Inr zs \<and> ys = z # zs)"
    by (auto split: sum.splits)
  then show ?case unfolding Cons.IH list_all2_Cons1 by blast
qed auto

subsection \<open>Decimal numbers\<close>

definition digit_char :: "nat \<Rightarrow> char" where
  "digit_char d = char_of (48 + d)"

fun show_nat :: "nat \<Rightarrow> string" where
  "show_nat n = (if n < 10 then [digit_char n] else show_nat (n div 10) @ [digit_char (n mod 10)])"

declare show_nat.simps [simp del]

definition digit_value :: "char \<Rightarrow> nat option" where
  "digit_value c = (let n = of_char c in if 48 \<le> n \<and> n \<le> 57 then Some (n - 48) else None)"

fun digits_value :: "nat \<Rightarrow> string \<Rightarrow> nat option" where
  "digits_value acc [] = Some acc"
| "digits_value acc (c # cs) =
     (case digit_value c of None \<Rightarrow> None | Some d \<Rightarrow> digits_value (acc * 10 + d) cs)"

text \<open>
  \<^verbatim>\<open>s.parse::<uN>()\<close>: an optional plus sign, at least one digit, nothing else, and a value
  that fits.
\<close>

definition parse_uint :: "nat \<Rightarrow> string \<Rightarrow> nat option" where
  "parse_uint bound s =
     (let ds = (case s of c # cs \<Rightarrow> if c = CHR ''+'' then cs else s | [] \<Rightarrow> [])
      in if ds = [] then None
         else case digits_value 0 ds of
                Some n \<Rightarrow> if n \<le> bound then Some n else None
              | None \<Rightarrow> None)"

definition parse_u32 :: "string \<Rightarrow> u32 option" where
  "parse_u32 s = map_option of_nat (parse_uint u32_max s)"

definition parse_u64 :: "string \<Rightarrow> nat option" where
  "parse_u64 s = parse_uint u64_max s"

text \<open>\<^verbatim>\<open>s.parse::<i32>()\<close> and \<^verbatim>\<open>s.parse::<i64>()\<close>, and how such numbers print.\<close>

definition parse_signed :: "nat \<Rightarrow> string \<Rightarrow> int option" where
  "parse_signed bound s =
     (case s of
        c # cs \<Rightarrow>
          if c = CHR ''-'' then
            (if cs \<noteq> [] \<and> hd cs \<noteq> CHR ''+''
             then map_option (\<lambda>n. - int n) (parse_uint (bound + 1) cs) else None)
          else map_option int (parse_uint bound s)
      | [] \<Rightarrow> None)"

definition parse_i32 :: "string \<Rightarrow> int option" where
  "parse_i32 s = parse_signed 2147483647 s"

definition parse_i64 :: "string \<Rightarrow> int option" where
  "parse_i64 s = parse_signed 9223372036854775807 s"

definition show_int :: "int \<Rightarrow> string" where
  "show_int i = (if i < 0 then CHR ''-'' # show_nat (nat (- i)) else show_nat (nat i))"

lemma digit_value_char [simp]: "d < 10 \<Longrightarrow> digit_value (digit_char d) = Some d"
  by (simp add: digit_value_def digit_char_def Let_def of_char_of)

lemma digit_char_neq: "d < 10 \<Longrightarrow> digit_value c = None \<Longrightarrow> digit_char d \<noteq> c"
  by auto

lemma digits_value_append:
  "digits_value acc (a @ b) = (case digits_value acc a of None \<Rightarrow> None | Some n \<Rightarrow> digits_value n b)"
  by (induction a arbitrary: acc) (auto split: option.splits)

lemma show_nat_nonempty [simp]: "show_nat n \<noteq> []"
  by (subst show_nat.simps) simp

lemma digits_value_show [simp]: "digits_value 0 (show_nat n) = Some n"
proof (induction n rule: show_nat.induct)
  case (1 n)
  show ?case
  proof (cases "n < 10")
    case True then show ?thesis by (simp add: show_nat.simps)
  next
    case False
    then have "digits_value 0 (show_nat (n div 10)) = Some (n div 10)" by (rule 1)
    with False show ?thesis by (subst show_nat.simps) (simp add: digits_value_append)
  qed
qed

lemma show_nat_inj: "show_nat m = show_nat n \<longleftrightarrow> m = n"
  by (metis digits_value_show option.inject)

lemma set_show_nat: "c \<in> set (show_nat n) \<Longrightarrow> \<exists>d<10. c = digit_char d"
proof (induction n rule: show_nat.induct)
  case (1 n)
  show ?case
  proof (cases "n < 10")
    case True then show ?thesis using "1.prems" by (auto simp: show_nat.simps)
  next
    case False
    have "c \<in> set (show_nat (n div 10)) \<or> c = digit_char (n mod 10)"
      using "1.prems" False by (auto simp: show_nat.simps [of n])
    with 1(1) [OF False] show ?thesis by (metis mod_less_divisor zero_less_numeral)
  qed
qed

text \<open>Printed numbers never contain a separator.\<close>

lemma show_nat_free: "digit_value c = None \<Longrightarrow> c \<notin> set (show_nat n)"
  using set_show_nat digit_char_neq by blast

lemma parse_uint_show_nat: "parse_uint bound (show_nat n) = (if n \<le> bound then Some n else None)"
proof (cases "show_nat n")
  case (Cons c cs)
  have "CHR ''+'' \<notin> set (show_nat n)" by (rule show_nat_free) (simp add: digit_value_def)
  then have "c \<noteq> CHR ''+''" unfolding Cons by (metis list.set_intros(1))
  with Cons digits_value_show [of n] show ?thesis by (simp add: parse_uint_def Let_def)
qed simp

lemma parse_uint_show: "n \<le> bound \<Longrightarrow> parse_uint bound (show_nat n) = Some n"
  by (simp add: parse_uint_show_nat)

lemma parse_u32_show [simp]: "parse_u32 (show_nat (unat x)) = Some x"
  by (simp add: parse_u32_def parse_uint_show unat_le_u32_max)

lemma parse_u64_show_nat: "parse_u64 (show_nat n) = (if n \<le> u64_max then Some n else None)"
  by (simp add: parse_u64_def parse_uint_show_nat)

lemma parse_u64_show: "n \<le> u64_max \<Longrightarrow> parse_u64 (show_nat n) = Some n"
  by (simp add: parse_u64_def parse_uint_show)

lemma parse_signed_nat: "n \<le> bound \<Longrightarrow> parse_signed bound (show_nat n) = Some (int n)"
proof (cases "show_nat n")
  case (Cons c cs)
  assume "n \<le> bound"
  have "CHR ''-'' \<notin> set (show_nat n)" by (rule show_nat_free) (simp add: digit_value_def)
  then have "c \<noteq> CHR ''-''" unfolding Cons by (metis list.set_intros(1))
  with Cons parse_uint_show [OF \<open>n \<le> bound\<close>] show ?thesis by (simp add: parse_signed_def)
qed simp

lemma parse_i32_show: "n \<le> 2147483647 \<Longrightarrow> parse_i32 (show_nat n) = Some (int n)"
  by (simp add: parse_i32_def parse_signed_nat)

lemma parse_signed_show:
  assumes "- int bound - 1 \<le> i" "i \<le> int bound"
  shows "parse_signed bound (show_int i) = Some i"
proof (cases "i < 0")
  case True
  have "CHR ''+'' \<notin> set (show_nat (nat (- i)))" by (rule show_nat_free) (simp add: digit_value_def)
  then have "hd (show_nat (nat (- i))) \<noteq> CHR ''+''" by (metis list.set_sel(1) show_nat_nonempty)
  moreover have "parse_uint (bound + 1) (show_nat (nat (- i))) = Some (nat (- i))"
    by (rule parse_uint_show) (use assms True in linarith)
  ultimately show ?thesis using True by (simp add: parse_signed_def show_int_def)
next
  case False
  then show ?thesis using assms(2) by (simp add: show_int_def parse_signed_nat)
qed

lemma show_int_nonempty [simp]: "show_int i \<noteq> []"
  by (simp add: show_int_def)

interpretation i32_codec: codec show_int parse_i32 "\<lambda>i. i" "\<lambda>i. - 2147483648 \<le> i \<and> i \<le> 2147483647"
  by unfold_locales (simp add: parse_i32_def parse_signed_show)

interpretation i64_codec: codec show_int parse_i64 "\<lambda>i. i" "\<lambda>i. - 9223372036854775808 \<le> i \<and> i \<le> 9223372036854775807"
  by unfold_locales (simp add: parse_i64_def parse_signed_show)

interpretation u32_codec: codec "\<lambda>x. show_nat (unat x)" parse_u32 "\<lambda>x. x" "\<lambda>_. True"
  by unfold_locales simp

interpretation u64_codec: codec show_nat parse_u64 "\<lambda>n. n" "\<lambda>n. n \<le> u64_max"
  by unfold_locales (simp add: parse_u64_show)

subsection \<open>Hexadecimal bytes\<close>

type_synonym u8 = "8 word"

definition hex_digit :: "nat \<Rightarrow> char" where
  "hex_digit d = (if d < 10 then char_of (48 + d) else char_of (87 + d))"

definition hex_value :: "char \<Rightarrow> nat option" where
  "hex_value c =
     (let n = of_char c in
      if 48 \<le> n \<and> n \<le> 57 then Some (n - 48)
      else if 97 \<le> n \<and> n \<le> 102 then Some (n - 87)
      else if 65 \<le> n \<and> n \<le> 70 then Some (n - 55) else None)"

definition show_byte :: "u8 \<Rightarrow> string" where
  "show_byte b = [hex_digit (unat b div 16), hex_digit (unat b mod 16)]"

text \<open>\<^verbatim>\<open>u8::from_str_radix(pair, 16)\<close> on a text of two characters.\<close>

definition parse_byte :: "char \<Rightarrow> char \<Rightarrow> u8 option" where
  "parse_byte a b =
     (case hex_value b of
        None \<Rightarrow> None
      | Some y \<Rightarrow>
          if a = CHR ''+'' then Some (of_nat y)
          else (case hex_value a of None \<Rightarrow> None | Some x \<Rightarrow> Some (of_nat (16 * x + y))))"

lemma hex_value_digit [simp]: "d < 16 \<Longrightarrow> hex_value (hex_digit d) = Some d"
  by (auto simp: hex_value_def hex_digit_def Let_def of_char_of)

lemma parse_byte_show [simp]: "parse_byte (hex_digit (unat b div 16)) (hex_digit (unat b mod 16)) = Some b"
proof -
  have lt: "unat b < 256" using unsigned_less [of b] by simp
  then have hi: "unat b div 16 < 16" by auto
  then have "hex_digit (unat b div 16) \<noteq> CHR ''+''"
    using hex_value_digit [OF hi] by (auto simp: hex_value_def)
  moreover have "16 * (unat b div 16) + unat b mod 16 = unat b" by simp
  ultimately show ?thesis using hi by (simp add: parse_byte_def)
qed

subsection \<open>Searching and trimming\<close>

text \<open>\<^verbatim>\<open>s.find(pat)\<close> with the text before and after the match.\<close>

fun find_split :: "string \<Rightarrow> string \<Rightarrow> (string \<times> string) option" where
  "find_split pat [] = (if pat = [] then Some ([], []) else None)"
| "find_split pat (c # cs) =
     (case strip_prefix pat (c # cs) of
        Some r \<Rightarrow> Some ([], r)
      | None \<Rightarrow> map_option (\<lambda>(a, b). (c # a, b)) (find_split pat cs))"

text \<open>\<^verbatim>\<open>char::is_whitespace\<close> on ASCII and \<^verbatim>\<open>s.trim()\<close>\<close>

definition is_whitespace :: "char \<Rightarrow> bool" where
  "is_whitespace c = (let n = of_char c :: nat in n = 32 \<or> (9 \<le> n \<and> n \<le> 13))"

definition trim :: "string \<Rightarrow> string" where
  "trim s = rev (dropWhile is_whitespace (rev (dropWhile is_whitespace s)))"

definition trim_end_matches :: "char \<Rightarrow> string \<Rightarrow> string" where
  "trim_end_matches c s = rev (dropWhile (\<lambda>x. x = c) (rev s))"

definition trim_start_matches :: "char \<Rightarrow> string \<Rightarrow> string" where
  "trim_start_matches c s = dropWhile (\<lambda>x. x = c) s"

lemma trim_empty_iff: "trim s = [] \<longleftrightarrow> list_all is_whitespace s"
proof
  assume "trim s = []"
  then have "\<forall>c\<in>set (dropWhile is_whitespace s). is_whitespace c"
    by (simp add: trim_def dropWhile_eq_Nil_conv)
  then show "list_all is_whitespace s"
    unfolding list_all_iff by (metis set_dropWhileD set_takeWhileD takeWhile_dropWhile_id Un_iff set_append)
next
  assume "list_all is_whitespace s"
  then have "dropWhile is_whitespace s = []" unfolding list_all_iff by (subst dropWhile_eq_Nil_conv)
  then show "trim s = []" by (simp add: trim_def del: dropWhile_eq_Nil_conv)
qed

definition to_lowercase :: "string \<Rightarrow> string" where
  "to_lowercase s = map (\<lambda>c. let n = of_char c :: nat in if 65 \<le> n \<and> n \<le> 90 then char_of (n + 32) else c) s"

lemma to_lowercase_eq_Nil [simp]: "to_lowercase s = [] \<longleftrightarrow> s = []"
  by (simp add: to_lowercase_def)

subsection \<open>Ordered maps\<close>

text \<open>\<^verbatim>\<open>BTreeMap\<close>: an association list in ascending key order.\<close>

type_synonym ('k, 'v) btree_map = "('k \<times> 'v) list"

fun bt_insert :: "'k::linorder \<Rightarrow> 'v \<Rightarrow> ('k, 'v) btree_map \<Rightarrow> ('k, 'v) btree_map" where
  "bt_insert k v [] = [(k, v)]"
| "bt_insert k v ((k', v') # m) =
     (if k < k' then (k, v) # (k', v') # m
      else if k = k' then (k, v) # m
      else (k', v') # bt_insert k v m)"

definition bt_get :: "('k::linorder, 'v) btree_map \<Rightarrow> 'k \<Rightarrow> 'v option" where
  "bt_get m k = map_of m k"

definition bt_values :: "('k::linorder, 'v) btree_map \<Rightarrow> 'v list" where
  "bt_values m = map snd m"

text \<open>\<^verbatim>\<open>entry(k).or_insert(v)\<close>\<close>

definition bt_or_insert :: "'k::linorder \<Rightarrow> 'v \<Rightarrow> ('k, 'v) btree_map \<Rightarrow> ('k, 'v) btree_map" where
  "bt_or_insert k v m = (case bt_get m k of None \<Rightarrow> bt_insert k v m | Some _ \<Rightarrow> m)"

definition bt_ok :: "('k::linorder, 'v) btree_map \<Rightarrow> bool" where
  "bt_ok m = sorted_wrt (<) (map fst m)"

lemma bt_get_insert: "bt_get (bt_insert k v m) k' = (if k' = k then Some v else bt_get m k')"
  unfolding bt_get_def by (induction m) auto

lemma bt_get_Nil [simp]: "bt_get [] k = None"
  by (simp add: bt_get_def)

lemma set_bt_insert: "fst ` set (bt_insert k v m) = insert k (fst ` set m)"
proof (induction m)
  case (Cons x m)
  then show ?case by (cases x) (simp add: insert_commute)
qed simp

lemma bt_ok_insert: "bt_ok m \<Longrightarrow> bt_ok (bt_insert k v m)"
  unfolding bt_ok_def
proof (induction m)
  case (Cons x m)
  obtain k' v' where x: "x = (k', v')" by (cases x)
  have "fst ` set (bt_insert k v m) = insert k (fst ` set m)" by (rule set_bt_insert)
  with Cons show ?case by (force simp: x)
qed simp

lemma bt_get_or_insert:
  "bt_get (bt_or_insert k v m) k' = (if k' = k \<and> bt_get m k = None then Some v else bt_get m k')"
  by (auto simp: bt_or_insert_def bt_get_insert split: option.splits)

lemma bt_values_get: "bt_ok m \<Longrightarrow> v \<in> set (bt_values m) \<longleftrightarrow> (\<exists>k. bt_get m k = Some v)"
proof -
  assume "bt_ok m"
  then have "distinct (map fst m)" by (simp add: bt_ok_def strict_sorted_iff)
  then show ?thesis by (force simp: bt_values_def bt_get_def dest: map_of_SomeD intro: map_of_is_SomeI)
qed

end
