(* ===== verification/Registry_Redis.thy ===== *)
theory Registry_Redis
  imports MX_Text Registry_Backend "HOL-Library.Multiset"
begin

text \<open>
  The Redis registry backend (\<^verbatim>\<open>registry/backend/redis.rs\<close>): the key scheme, the Lua
  scripts that run as single atomic EVALs, and the trait methods built on them.

  A Redis keyspace maps each key to its hash; the empty hash is the absent key, as in Redis. A
  hash is a record with one optional field per field name the backend uses: \<^verbatim>\<open>HSET\<close> sets
  it, \<^verbatim>\<open>HDEL\<close> clears it, \<^verbatim>\<open>HGET\<close> reads it. Scripts see the server's clock
  \<open>now_ms\<close>; \<open>now\<close> is the RFC 3339 text of the caller's clock. \<^verbatim>\<open>chrono\<close>'s
  printer and parser of that text are the parameters \<open>fmt\<close> and \<open>parse\<close>. The pages a
  \<^verbatim>\<open>SCAN\<close> returns are an argument, since the server may repeat keys across them.
  Connection failures are outside the model: every method is the one that reached the server.

  Shown here: the key scheme is injective and invertible, the scripts refine the lease contract
  (a second interpretation of \<open>lease_backend\<close>), the lazy migration of legacy records keeps
  records and never lets one provider's record answer another provider's claim, and what is
  written is what is read.
\<close>

record RedisHash =
  rh_status :: "string option"
  rh_provider :: "string option"
  rh_created_at :: "string option"
  rh_last_used_at :: "string option"
  rh_message :: "string option"
  rh_claim_id :: "string option"
  rh_lease_expires_at :: "int option"

type_synonym redis_store = "string \<Rightarrow> RedisHash"

definition empty_hash :: RedisHash where
  "empty_hash = \<lparr>rh_status = None, rh_provider = None, rh_created_at = None,
     rh_last_used_at = None, rh_message = None, rh_claim_id = None, rh_lease_expires_at = None\<rparr>"

datatype RegistryError =
    UnknownProvider string
  | UnknownStatus string
  | MissingField string string
  | InvalidRfc3339 string string

subsection \<open>Keys, providers, statuses\<close>

definition KEY_PREFIX :: string where "KEY_PREFIX = ''mx:model:''"

definition ALL_PROVIDERS :: "ModelProvider list" where
  "ALL_PROVIDERS = [HuggingFace, Ngc, Gcs, S3]"

fun provider_str :: "ModelProvider \<Rightarrow> string" where
  "provider_str HuggingFace = ''HuggingFace''"
| "provider_str Ngc = ''Ngc''"
| "provider_str Gcs = ''Gcs''"
| "provider_str S3 = ''S3''"

definition provider_from_str :: "string \<Rightarrow> RegistryError + ModelProvider" where
  "provider_from_str s =
     (if s = ''HuggingFace'' then Inr HuggingFace
      else if s = ''Ngc'' then Inr Ngc
      else if s = ''Gcs'' then Inr Gcs
      else if s = ''S3'' then Inr S3
      else Inl (UnknownProvider s))"

fun status_str :: "ModelStatus \<Rightarrow> string" where
  "status_str DOWNLOADING = ''DOWNLOADING''"
| "status_str DOWNLOADED = ''DOWNLOADED''"
| "status_str ERROR = ''ERROR''"

definition status_from_str :: "string \<Rightarrow> RegistryError + ModelStatus" where
  "status_from_str s =
     (if s = ''DOWNLOADING'' then Inr DOWNLOADING
      else if s = ''DOWNLOADED'' then Inr DOWNLOADED
      else if s = ''ERROR'' then Inr ERROR
      else Inl (UnknownStatus s))"

definition model_key :: "ModelProvider \<Rightarrow> string \<Rightarrow> string" where
  "model_key p name = KEY_PREFIX @ provider_str p @ '':'' @ name"

definition legacy_model_key :: "string \<Rightarrow> string" where
  "legacy_model_key name = KEY_PREFIX @ name"

definition candidate_keys :: "string \<Rightarrow> string list" where
  "candidate_keys name = map (\<lambda>p. model_key p name) ALL_PROVIDERS @ [legacy_model_key name]"

definition lease_duration_millis :: "nat \<Rightarrow> nat" where
  "lease_duration_millis ms = min ms u64_max"

fun name_after_provider :: "ModelProvider list \<Rightarrow> string \<Rightarrow> string option" where
  "name_after_provider [] rest = Some rest"
| "name_after_provider (p # ps) rest =
     (case Option.bind (strip_prefix (provider_str p) rest) (strip_prefix '':'') of
        Some name \<Rightarrow> Some name
      | None \<Rightarrow> name_after_provider ps rest)"

definition model_name_from_key :: "string \<Rightarrow> string option" where
  "model_name_from_key key =
     (case strip_prefix KEY_PREFIX key of
        None \<Rightarrow> None
      | Some rest \<Rightarrow> name_after_provider ALL_PROVIDERS rest)"

definition take_field :: "string \<Rightarrow> string \<Rightarrow> 'a option \<Rightarrow> RegistryError + 'a" where
  "take_field name fld v = (case v of Some x \<Rightarrow> Inr x | None \<Rightarrow> Inl (MissingField fld name))"

definition parse_rfc3339 :: "(string \<Rightarrow> int option) \<Rightarrow> string \<Rightarrow> string \<Rightarrow> RegistryError + int" where
  "parse_rfc3339 parse s fld =
     (case parse s of Some t \<Rightarrow> Inr t | None \<Rightarrow> Inl (InvalidRfc3339 fld s))"

definition record_from_hash ::
  "(string \<Rightarrow> int option) \<Rightarrow> string \<Rightarrow> RedisHash \<Rightarrow> RegistryError + ModelRecord" where
  "record_from_hash parse name h =
     sum_bind (sum_bind (take_field name ''provider'' (rh_provider h)) provider_from_str) (\<lambda>provider.
     sum_bind (sum_bind (take_field name ''status'' (rh_status h)) status_from_str) (\<lambda>status.
     sum_bind (sum_bind (take_field name ''created_at'' (rh_created_at h))
                 (\<lambda>s. parse_rfc3339 parse s ''created_at'')) (\<lambda>created.
     sum_bind (sum_bind (take_field name ''last_used_at'' (rh_last_used_at h))
                 (\<lambda>s. parse_rfc3339 parse s ''last_used_at'')) (\<lambda>used.
     Inr \<lparr>mr_model_name = name, mr_provider = provider, mr_status = status,
           mr_created_at = created, mr_last_used_at = used, mr_message = rh_message h\<rparr>))))"

subsection \<open>The Lua scripts\<close>

definition CLAIM_WON_SENTINEL :: string where "CLAIM_WON_SENTINEL = ''__MX_CLAIM_WON__''"
definition CLAIM_TAKEOVER_SENTINEL :: string where
  "CLAIM_TAKEOVER_SENTINEL = ''__MX_CLAIM_TAKEOVER__''"

text \<open>The arguments \<^verbatim>\<open>ARGV\<close> of the claim script.\<close>

record ClaimArgs =
  ca_win_sentinel :: string
  ca_status :: string
  ca_provider :: string
  ca_now :: string
  ca_message :: string
  ca_claim_id :: string
  ca_lease_ttl_ms :: nat
  ca_takeover_message :: string
  ca_takeover_sentinel :: string

definition claim_existing :: "int \<Rightarrow> ClaimArgs \<Rightarrow> string \<Rightarrow> string \<Rightarrow> redis_store \<Rightarrow> string \<times> redis_store" where
  "claim_existing now_ms a key status st =
     (if status \<noteq> ca_status a then (status, st)
      else if (case rh_lease_expires_at (st key) of Some e \<Rightarrow> e > now_ms | None \<Rightarrow> False)
      then (status, st)
      else (ca_takeover_sentinel a,
            st(key := (st key)\<lparr>rh_provider := Some (ca_provider a),
                 rh_last_used_at := Some (ca_now a), rh_message := Some (ca_takeover_message a),
                 rh_claim_id := Some (ca_claim_id a),
                 rh_lease_expires_at := Some (now_ms + int (ca_lease_ttl_ms a))\<rparr>)))"

definition claim_lua :: "int \<Rightarrow> string \<Rightarrow> string \<Rightarrow> ClaimArgs \<Rightarrow> redis_store \<Rightarrow> string \<times> redis_store" where
  "claim_lua now_ms key legacy a st =
     (let fresh = (ca_win_sentinel a,
            st(key := (st key)\<lparr>rh_status := Some (ca_status a), rh_provider := Some (ca_provider a),
                 rh_created_at := Some (ca_now a), rh_last_used_at := Some (ca_now a),
                 rh_message := Some (ca_message a), rh_claim_id := Some (ca_claim_id a),
                 rh_lease_expires_at := Some (now_ms + int (ca_lease_ttl_ms a))\<rparr>))
      in case rh_status (st key) of
           Some existing \<Rightarrow> claim_existing now_ms a key existing st
         | None \<Rightarrow>
             (case rh_status (st legacy) of
                Some legacy_status \<Rightarrow>
                  if rh_provider (st legacy) = Some (ca_provider a)
                  then claim_existing now_ms a key legacy_status
                         (st(key := st legacy, legacy := empty_hash))
                  else fresh
              | None \<Rightarrow> fresh))"

fun touch_lua :: "string list \<Rightarrow> string \<Rightarrow> redis_store \<Rightarrow> nat \<times> redis_store" where
  "touch_lua [] now st = (0, st)"
| "touch_lua (k # ks) now st =
     (if st k \<noteq> empty_hash then (1, st(k := (st k)\<lparr>rh_last_used_at := Some now\<rparr>))
      else touch_lua ks now st)"

definition retry_cas_lua ::
  "int \<Rightarrow> string \<Rightarrow> string \<Rightarrow> string \<Rightarrow> string \<Rightarrow> string \<Rightarrow> string \<Rightarrow> string \<Rightarrow> nat \<Rightarrow> redis_store
   \<Rightarrow> nat \<times> redis_store" where
  "retry_cas_lua now_ms key from_status to_status provider last_used message claim_id ttl st =
     (if rh_status (st key) \<noteq> Some from_status then (0, st)
      else (1, st(key := (st key)\<lparr>rh_status := Some to_status, rh_provider := Some provider,
                 rh_last_used_at := Some last_used, rh_message := Some message,
                 rh_claim_id := Some claim_id,
                 rh_lease_expires_at := Some (now_ms + int ttl)\<rparr>)))"

definition refresh_claim_lua ::
  "int \<Rightarrow> string \<Rightarrow> string \<Rightarrow> string \<Rightarrow> nat \<Rightarrow> string \<Rightarrow> redis_store \<Rightarrow> nat \<times> redis_store" where
  "refresh_claim_lua now_ms key downloading claim_id ttl now st =
     (if rh_status (st key) \<noteq> Some downloading then (0, st)
      else if rh_claim_id (st key) \<noteq> Some claim_id then (0, st)
      else (1, st(key := (st key)\<lparr>rh_lease_expires_at := Some (now_ms + int ttl),
                 rh_last_used_at := Some now\<rparr>)))"

definition finish_claim_lua ::
  "string \<Rightarrow> string \<Rightarrow> string \<Rightarrow> string \<Rightarrow> string \<Rightarrow> string \<Rightarrow> string option \<Rightarrow> redis_store
   \<Rightarrow> nat \<times> redis_store" where
  "finish_claim_lua key downloading claim_id terminal provider now message st =
     (if rh_status (st key) \<noteq> Some downloading then (0, st)
      else if rh_claim_id (st key) \<noteq> Some claim_id then (0, st)
      else (1, st(key := (st key)\<lparr>rh_status := Some terminal, rh_provider := Some provider,
                 rh_last_used_at := Some now, rh_message := message,
                 rh_claim_id := None, rh_lease_expires_at := None\<rparr>)))"

definition set_status_lua ::
  "string \<Rightarrow> string \<Rightarrow> string \<Rightarrow> string \<Rightarrow> string \<Rightarrow> string option \<Rightarrow> redis_store \<Rightarrow> redis_store" where
  "set_status_lua key status provider last_used created_if_new message st =
     (let h = (st key)\<lparr>rh_status := Some status, rh_provider := Some provider,
                 rh_last_used_at := Some last_used, rh_message := message\<rparr>;
          h = (case rh_created_at h of None \<Rightarrow> h\<lparr>rh_created_at := Some created_if_new\<rparr> | Some _ \<Rightarrow> h);
          h = (if status \<noteq> ''DOWNLOADING'' then h\<lparr>rh_claim_id := None, rh_lease_expires_at := None\<rparr> else h)
      in st(key := h))"

subsection \<open>The trait methods\<close>

definition redis_get_status :: "string \<Rightarrow> redis_store \<Rightarrow> RegistryError + ModelStatus option" where
  "redis_get_status name st =
     (case List.map_filter (\<lambda>k. rh_status (st k)) (candidate_keys name) of
        s # _ \<Rightarrow> sum_bind (status_from_str s) (\<lambda>x. Inr (Some x))
      | [] \<Rightarrow> Inr None)"

definition redis_get_model_record ::
  "(string \<Rightarrow> int option) \<Rightarrow> string \<Rightarrow> redis_store \<Rightarrow> RegistryError + ModelRecord option" where
  "redis_get_model_record parse name st =
     (case filter (\<lambda>h. h \<noteq> empty_hash) (map st (candidate_keys name)) of
        h # _ \<Rightarrow> sum_bind (record_from_hash parse name h) (\<lambda>r. Inr (Some r))
      | [] \<Rightarrow> Inr None)"

definition redis_set_status ::
  "string \<Rightarrow> string \<Rightarrow> ModelProvider \<Rightarrow> ModelStatus \<Rightarrow> string option \<Rightarrow> redis_store \<Rightarrow> redis_store" where
  "redis_set_status now name provider status message st =
     set_status_lua (model_key provider name) (status_str status) (provider_str provider) now now message st"

definition redis_touch_model :: "string \<Rightarrow> string \<Rightarrow> redis_store \<Rightarrow> redis_store" where
  "redis_touch_model now name st = snd (touch_lua (candidate_keys name) now st)"

definition redis_delete_model :: "string \<Rightarrow> redis_store \<Rightarrow> redis_store" where
  "redis_delete_model name st = fold (\<lambda>k s. s(k := empty_hash)) (candidate_keys name) st"

text \<open>The deduplicating loop over the pages of a \<^verbatim>\<open>SCAN\<close>.\<close>

fun scan_push :: "string list \<Rightarrow> string list \<Rightarrow> string list" where
  "scan_push keys [] = keys"
| "scan_push keys (k # batch) = scan_push (if k \<in> set keys then keys else keys @ [k]) batch"

definition scan_all_keys :: "string list list \<Rightarrow> string list" where
  "scan_all_keys pages = foldl scan_push [] pages"

definition record_of_key ::
  "(string \<Rightarrow> int option) \<Rightarrow> redis_store \<Rightarrow> string \<Rightarrow> ModelRecord option" where
  "record_of_key parse st key =
     (if st key = empty_hash then None
      else case model_name_from_key key of
             None \<Rightarrow> None
           | Some name \<Rightarrow>
               (case record_from_hash parse name (st key) of Inr r \<Rightarrow> Some r | Inl _ \<Rightarrow> None))"

definition redis_get_models_by_last_used ::
  "(string \<Rightarrow> int option) \<Rightarrow> string list list \<Rightarrow> u32 option \<Rightarrow> redis_store \<Rightarrow> ModelRecord list" where
  "redis_get_models_by_last_used parse pages limit st =
     (let keys = scan_all_keys pages in
      if keys = [] then []
      else let records = sort_key mr_last_used_at (List.map_filter (record_of_key parse st) keys)
           in case limit of Some n \<Rightarrow> take (unat n) records | None \<Rightarrow> records)"

fun count_status_text :: "string \<Rightarrow> u32 \<times> u32 \<times> u32 \<Rightarrow> u32 \<times> u32 \<times> u32" where
  "count_status_text s (a, b, c) =
     (if s = ''DOWNLOADING'' then (u32_saturating_add a 1, b, c)
      else if s = ''DOWNLOADED'' then (a, u32_saturating_add b 1, c)
      else if s = ''ERROR'' then (a, b, u32_saturating_add c 1)
      else (a, b, c))"

definition redis_get_status_counts :: "string list list \<Rightarrow> redis_store \<Rightarrow> u32 \<times> u32 \<times> u32" where
  "redis_get_status_counts pages st =
     fold count_status_text (List.map_filter (\<lambda>k. rh_status (st k)) (scan_all_keys pages)) (0, 0, 0)"

definition claim_args :: "string \<Rightarrow> ModelProvider \<Rightarrow> string \<Rightarrow> nat \<Rightarrow> ClaimArgs" where
  "claim_args now provider claim_id d =
     \<lparr>ca_win_sentinel = CLAIM_WON_SENTINEL, ca_status = status_str DOWNLOADING,
       ca_provider = provider_str provider, ca_now = now, ca_message = ''Starting download...'',
       ca_claim_id = claim_id, ca_lease_ttl_ms = lease_duration_millis d,
       ca_takeover_message = ''Taking over expired download lease...'',
       ca_takeover_sentinel = CLAIM_TAKEOVER_SENTINEL\<rparr>"

definition redis_try_claim_for_download ::
  "int \<Rightarrow> string \<Rightarrow> string \<Rightarrow> ModelProvider \<Rightarrow> string \<Rightarrow> nat \<Rightarrow> redis_store
   \<Rightarrow> (RegistryError + ClaimOutcome) \<times> redis_store" where
  "redis_try_claim_for_download now_ms now name provider claim_id d st =
     (let (result, st') = claim_lua now_ms (model_key provider name) (legacy_model_key name)
                            (claim_args now provider claim_id d) st
      in (if result = CLAIM_WON_SENTINEL then Inr Claimed
          else if result = CLAIM_TAKEOVER_SENTINEL then Inr TookOver
          else sum_bind (status_from_str result) (\<lambda>s. Inr (AlreadyExists s)), st'))"

definition redis_try_reset_error_for_retry ::
  "int \<Rightarrow> string \<Rightarrow> string \<Rightarrow> ModelProvider \<Rightarrow> string \<Rightarrow> nat \<Rightarrow> redis_store \<Rightarrow> bool \<times> redis_store" where
  "redis_try_reset_error_for_retry now_ms now name provider claim_id d st =
     (let (won, st') = retry_cas_lua now_ms (model_key provider name) (status_str ERROR)
            (status_str DOWNLOADING) (provider_str provider) now ''Retrying download...'' claim_id
            (lease_duration_millis d) st
      in (won = 1, st'))"

definition redis_refresh_download_claim ::
  "int \<Rightarrow> string \<Rightarrow> string \<Rightarrow> ModelProvider \<Rightarrow> string \<Rightarrow> nat \<Rightarrow> redis_store \<Rightarrow> bool \<times> redis_store" where
  "redis_refresh_download_claim now_ms now name provider claim_id d st =
     (let (won, st') = refresh_claim_lua now_ms (model_key provider name) (status_str DOWNLOADING)
            claim_id (lease_duration_millis d) now st
      in (won = 1, st'))"

definition redis_finish_download_claim ::
  "string \<Rightarrow> string \<Rightarrow> ModelProvider \<Rightarrow> string \<Rightarrow> ModelStatus \<Rightarrow> string option \<Rightarrow> redis_store
   \<Rightarrow> bool \<times> redis_store" where
  "redis_finish_download_claim now name provider claim_id status message st =
     (let (won, st') = finish_claim_lua (model_key provider name) (status_str DOWNLOADING) claim_id
            (status_str status) (provider_str provider) now message st
      in (won = 1, st'))"

definition redact_url :: "string \<Rightarrow> string" where
  "redact_url url =
     (case find_split ''://'' url of
        None \<Rightarrow> url
      | Some (scheme, rest) \<Rightarrow>
          (case split_once (CHR ''@'') rest of
             None \<Rightarrow> url
           | Some (userinfo, tail) \<Rightarrow>
               (case split_once (CHR '':'') userinfo of
                  Some (user, _) \<Rightarrow> scheme @ ''://'' @ user @ '':***'' @ ''@'' @ tail
                | None \<Rightarrow> scheme @ ''://'' @ ''***'' @ ''@'' @ tail)))"

subsection \<open>Calls of one provider as lease events\<close>

definition redis_deadline :: "int \<Rightarrow> nat \<Rightarrow> int" where
  "redis_deadline t d = t + int (lease_duration_millis d)"

definition claim_reply :: "RegistryError + ClaimOutcome \<Rightarrow> lease_reply" where
  "claim_reply r = (case r of Inr out \<Rightarrow> RClaim out | Inl e \<Rightarrow> RUnit)"

fun redis_perform ::
  "(int \<Rightarrow> string) \<Rightarrow> ModelProvider \<Rightarrow> int \<Rightarrow> string \<Rightarrow> lease_event \<Rightarrow> redis_store
   \<Rightarrow> lease_reply \<times> redis_store" where
  "redis_perform fmt p t k (EClaim c d) s =
     apfst claim_reply (redis_try_claim_for_download t (fmt t) k p c d s)"
| "redis_perform fmt p t k (ERetry c d) s =
     apfst RBool (redis_try_reset_error_for_retry t (fmt t) k p c d s)"
| "redis_perform fmt p t k (ERefresh c d) s =
     apfst RBool (redis_refresh_download_claim t (fmt t) k p c d s)"
| "redis_perform fmt p t k (EFinish c st m) s =
     apfst RBool (redis_finish_download_claim (fmt t) k p c st m s)"
| "redis_perform fmt p t k (ESet st m) s = (RUnit, redis_set_status (fmt t) k p st m s)"
| "redis_perform fmt p t k ETouch s = (RUnit, redis_touch_model (fmt t) k s)"
| "redis_perform fmt p t k EDelete s = (RUnit, redis_delete_model k s)"

definition status_opt :: "string \<Rightarrow> ModelStatus option" where
  "status_opt s = (case status_from_str s of Inr x \<Rightarrow> Some x | Inl _ \<Rightarrow> None)"

definition hash_lease :: "RedisHash \<Rightarrow> (string \<times> int) option" where
  "hash_lease h =
     (case (rh_claim_id h, rh_lease_expires_at h) of (Some c, Some e) \<Rightarrow> Some (c, e) | _ \<Rightarrow> None)"

definition hash_cell :: "RedisHash \<Rightarrow> lease_cell" where
  "hash_cell h = map_option (\<lambda>x. (x, hash_lease h)) (Option.bind (rh_status h) status_opt)"

definition redis_cell :: "ModelProvider \<Rightarrow> redis_store \<Rightarrow> string \<Rightarrow> lease_cell" where
  "redis_cell p s k = hash_cell (s (model_key p k))"

text \<open>A name that does not itself begin with a provider token and a colon.\<close>

definition plain_name :: "string \<Rightarrow> bool" where
  "plain_name k = list_all (\<lambda>p. \<not> starts_with (provider_str p @ '':'') k) ALL_PROVIDERS"

text \<open>
  A hash is well formed when its status is one of the three texts, and it carries a claim id and
  a lease together, only while downloading.
\<close>

definition hash_ok :: "RedisHash \<Rightarrow> bool" where
  "hash_ok h =
     ((\<forall>s. rh_status h = Some s \<longrightarrow> status_opt s \<noteq> None)
      \<and> (rh_claim_id h = None \<longleftrightarrow> rh_lease_expires_at h = None)
      \<and> (rh_claim_id h \<noteq> None \<longrightarrow> rh_status h = Some (status_str DOWNLOADING)))"

text \<open>The store after migration: well-formed scoped records, no legacy record left.\<close>

definition redis_inv :: "ModelProvider \<Rightarrow> redis_store \<Rightarrow> bool" where
  "redis_inv p s =
     (\<forall>k. plain_name k \<longrightarrow> hash_ok (s (model_key p k)) \<and> s (legacy_model_key k) = empty_hash)"

subsection \<open>Providers, statuses, keys\<close>

lemma provider_roundtrip: "provider_from_str (provider_str p) = Inr p"
  by (cases p) (simp_all add: provider_from_str_def)

lemma status_roundtrip: "status_from_str (status_str s) = Inr s"
  by (cases s) (simp_all add: status_from_str_def)

lemma status_opt_str [simp]: "status_opt (status_str s) = Some s"
  by (simp add: status_opt_def status_roundtrip)

lemma status_opt_texts [simp]:
  "status_opt ''DOWNLOADING'' = Some DOWNLOADING" "status_opt ''DOWNLOADED'' = Some DOWNLOADED"
  "status_opt ''ERROR'' = Some ERROR"
  by (simp_all add: status_opt_def status_from_str_def)

lemma status_str_text [simp]: "status_str s = ''DOWNLOADING'' \<longleftrightarrow> s = DOWNLOADING"
  "''DOWNLOADING'' = status_str s \<longleftrightarrow> s = DOWNLOADING"
  by (cases s; simp)+

lemma status_opt_Some: "status_opt s = Some x \<longleftrightarrow> s = status_str x"
  by (cases x) (auto simp: status_opt_def status_from_str_def)

interpretation status_codec: codec status_str status_opt "\<lambda>s. s" "\<lambda>_. True"
  by unfold_locales simp

interpretation provider_codec: codec provider_str
  "\<lambda>s. case provider_from_str s of Inr p \<Rightarrow> Some p | Inl _ \<Rightarrow> None" "\<lambda>p. p" "\<lambda>_. True"
  by unfold_locales (simp add: provider_roundtrip)

lemma status_str_inj [simp]: "status_str a = status_str b \<longleftrightarrow> a = b"
  using status_codec.encode_view_inj by blast

lemma provider_no_colon: "CHR '':'' \<notin> set (provider_str p)"
  by (cases p) simp_all

lemma model_key_inj [simp]: "model_key p a = model_key q b \<longleftrightarrow> p = q \<and> a = b"
proof
  assume "model_key p a = model_key q b"
  then have "split_once (CHR '':'') (provider_str p @ '':'' @ a) = split_once (CHR '':'') (provider_str q @ '':'' @ b)"
    by (simp add: model_key_def)
  then have "provider_str p = provider_str q \<and> a = b"
    by (simp add: split_once_append provider_no_colon)
  then show "p = q \<and> a = b" using provider_codec.encode_view_inj by blast
qed simp

lemma legacy_key_inj [simp]: "legacy_model_key a = legacy_model_key b \<longleftrightarrow> a = b"
  by (simp add: legacy_model_key_def)

lemma in_ALL_PROVIDERS [simp]: "p \<in> set ALL_PROVIDERS"
  by (cases p) (simp_all add: ALL_PROVIDERS_def)

lemma model_key_not_legacy [simp]: "plain_name b \<Longrightarrow> model_key p a \<noteq> legacy_model_key b"
proof
  assume "plain_name b" and "model_key p a = legacy_model_key b"
  then have "b = (provider_str p @ '':'') @ a" by (simp add: model_key_def legacy_model_key_def)
  then have "starts_with (provider_str p @ '':'') b" unfolding starts_with_iff by blast
  with \<open>plain_name b\<close> show False by (simp add: plain_name_def list_all_iff)
qed

lemma legacy_not_model_key [simp]: "plain_name b \<Longrightarrow> legacy_model_key b \<noteq> model_key p a"
  using model_key_not_legacy by metis

lemma own_legacy_not_model_key [simp]: "legacy_model_key a \<noteq> model_key p a"
  by (auto simp: legacy_model_key_def model_key_def dest: arg_cong [where f = length])

lemma own_model_key_not_legacy [simp]: "model_key p a \<noteq> legacy_model_key a"
  using own_legacy_not_model_key by metis

subsection \<open>Hashes\<close>

lemmas hash_defs = hash_ok_def hash_cell_def hash_lease_def

lemma hash_ok_empty [simp]: "hash_ok empty_hash"
  by (simp add: hash_ok_def empty_hash_def)

lemma hash_cell_empty [simp]: "hash_cell empty_hash = None"
  by (simp add: hash_cell_def empty_hash_def)

lemma hash_ok_status: "hash_ok h \<Longrightarrow> rh_status h = Some s \<Longrightarrow> \<exists>x. s = status_str x"
  by (auto simp: hash_ok_def status_opt_Some)

text \<open>The four shapes of a well-formed hash.\<close>

lemma hash_ok_cases [consumes 1, case_names absent held idle]:
  assumes "hash_ok h"
  obtains (absent) "rh_status h = None" "rh_claim_id h = None" "rh_lease_expires_at h = None"
  | (held) c e where "rh_status h = Some (status_str DOWNLOADING)" "rh_claim_id h = Some c"
      "rh_lease_expires_at h = Some e"
  | (idle) x where "rh_status h = Some (status_str x)" "rh_claim_id h = None"
      "rh_lease_expires_at h = None"
  using assms hash_ok_status [OF assms]
  by (cases "rh_status h"; cases "rh_claim_id h"; cases "rh_lease_expires_at h")
     (auto simp: hash_ok_def)

lemma sentinels_differ:
  "status_str x \<noteq> CLAIM_WON_SENTINEL" "status_str x \<noteq> CLAIM_TAKEOVER_SENTINEL"
  "CLAIM_TAKEOVER_SENTINEL \<noteq> CLAIM_WON_SENTINEL"
  by (cases x; simp add: CLAIM_WON_SENTINEL_def CLAIM_TAKEOVER_SENTINEL_def)+

lemmas redis_method_defs =
  redis_try_claim_for_download_def redis_try_reset_error_for_retry_def
  redis_refresh_download_claim_def redis_finish_download_claim_def redis_set_status_def
  claim_lua_def claim_existing_def claim_args_def retry_cas_lua_def refresh_claim_lua_def
  finish_claim_lua_def set_status_lua_def

subsection \<open>Refinement of the lease contract\<close>

text \<open>The methods that address the scoped key change nothing else.\<close>

definition scoped_event :: "lease_event \<Rightarrow> bool" where
  "scoped_event e = (e \<noteq> ETouch \<and> e \<noteq> EDelete)"

lemma scoped_only_key:
  assumes "scoped_event e" and "s (legacy_model_key k) = empty_hash" and "key \<noteq> model_key p k"
  shows "snd (redis_perform fmt p t k e s) key = s key"
  using assms
  by (cases e) (auto simp: scoped_event_def redis_method_defs Let_def empty_hash_def split: option.splits)

lemma scoped_reply:
  assumes "hash_ok (s (model_key p k))" and "s (legacy_model_key k) = empty_hash" and "scoped_event e"
  shows "fst (redis_perform fmt p t k e s) = fst (cell_step redis_deadline t e (hash_cell (s (model_key p k))))"
  using assms(1)
proof (cases rule: hash_ok_cases)
  case absent
  then show ?thesis using assms(2,3)
    by (cases e) (auto simp: scoped_event_def redis_method_defs Let_def hash_cell_def hash_lease_def
        lease_owned_by_def empty_hash_def claim_reply_def sentinels_differ)
next
  case (held c x)
  then show ?thesis using assms(3)
    by (cases e) (auto simp: scoped_event_def redis_method_defs Let_def hash_cell_def hash_lease_def
        lease_owned_by_def lease_expired_def claim_reply_def sentinels_differ sum_bind_def
        status_roundtrip simp del: status_str.simps)
next
  case (idle x)
  then show ?thesis using assms(3)
    by (cases e; cases x) (auto simp: scoped_event_def redis_method_defs Let_def hash_cell_def hash_lease_def
        lease_owned_by_def lease_expired_def claim_reply_def sentinels_differ sum_bind_def
        status_roundtrip simp del: status_str.simps)
qed

lemma scoped_hash:
  assumes "hash_ok (s (model_key p k))" and "s (legacy_model_key k) = empty_hash" and "scoped_event e"
  shows "hash_ok (snd (redis_perform fmt p t k e s) (model_key p k))
    \<and> hash_cell (snd (redis_perform fmt p t k e s) (model_key p k)) =
        snd (cell_step redis_deadline t e (hash_cell (s (model_key p k))))"
  using assms(1)
proof (cases rule: hash_ok_cases)
  case absent
  then show ?thesis using assms(2,3)
    by (cases e) (auto simp: scoped_event_def redis_method_defs Let_def hash_defs
        lease_owned_by_def empty_hash_def redis_deadline_def split: option.splits)
next
  case (held c x)
  then show ?thesis using assms(3)
    by (cases e) (auto simp: scoped_event_def redis_method_defs Let_def hash_defs
        lease_owned_by_def lease_expired_def redis_deadline_def split: option.splits)
next
  case (idle x)
  then show ?thesis using assms(3)
    by (cases e; cases x) (auto simp: scoped_event_def redis_method_defs Let_def hash_defs
        lease_owned_by_def lease_expired_def redis_deadline_def split: option.splits)
qed

lemma touch_lua_hash:
  "(snd (touch_lua ks now s) key = s key) \<or>
   (s key \<noteq> empty_hash \<and> snd (touch_lua ks now s) key = (s key)\<lparr>rh_last_used_at := Some now\<rparr>)"
  by (induction ks) auto

lemma last_used_irrelevant:
  "hash_cell (h\<lparr>rh_last_used_at := v\<rparr>) = hash_cell h" "hash_ok (h\<lparr>rh_last_used_at := v\<rparr>) = hash_ok h"
  by (simp_all add: hash_defs)

lemma touch_keeps:
  "hash_cell (snd (touch_lua ks now s) key) = hash_cell (s key)"
  "hash_ok (snd (touch_lua ks now s) key) = hash_ok (s key)"
  "s key = empty_hash \<Longrightarrow> snd (touch_lua ks now s) key = empty_hash"
  using touch_lua_hash [of ks now s key] by (auto simp: last_used_irrelevant)

lemma delete_keys: "fold (\<lambda>k s. s(k := empty_hash)) ks s key = (if key \<in> set ks then empty_hash else s key)"
  by (induction ks arbitrary: s) auto

lemma redis_delete_key:
  "redis_delete_model name s key = (if key \<in> set (candidate_keys name) then empty_hash else s key)"
  by (simp add: redis_delete_model_def delete_keys)

lemma model_key_candidate: "plain_name k \<Longrightarrow> plain_name k' \<Longrightarrow> model_key p k' \<in> set (candidate_keys k) \<longleftrightarrow> k' = k"
  by (auto simp: candidate_keys_def)

lemma redis_perform_key:
  assumes "redis_inv p s" and "plain_name k" and "plain_name k'"
  shows "hash_ok (snd (redis_perform fmt p t k e s) (model_key p k'))
    \<and> snd (redis_perform fmt p t k e s) (legacy_model_key k') = empty_hash
    \<and> hash_cell (snd (redis_perform fmt p t k e s) (model_key p k')) =
        (if k' = k then snd (cell_step redis_deadline t e (redis_cell p s k)) else redis_cell p s k')"
proof -
  have ok: "hash_ok (s (model_key p k))" "hash_ok (s (model_key p k'))"
    "s (legacy_model_key k) = empty_hash" "s (legacy_model_key k') = empty_hash"
    using assms by (auto simp: redis_inv_def)
  show ?thesis
  proof (cases "scoped_event e")
    case True
    then show ?thesis
      using scoped_hash [OF ok(1,3) True] scoped_only_key [where k = k and s = s, OF True ok(3)] ok assms(2,3)
      by (simp add: redis_cell_def del: redis_perform.simps cell_step.simps)
  next
    case False
    then consider "e = ETouch" | "e = EDelete" by (auto simp: scoped_event_def)
    then show ?thesis
      using ok assms(2,3)
      by cases (auto simp: redis_touch_model_def touch_keeps redis_delete_key model_key_candidate redis_cell_def)
  qed
qed

interpretation redis: lease_backend "redis_perform fmt p" "redis_cell p" redis_deadline "redis_inv p" plain_name
  for fmt p
proof (unfold_locales, goal_cases)
  case (1 s k t e)
  then show ?case
  proof (cases "scoped_event e")
    case True
    then show ?thesis using 1 scoped_reply [of s p k e] by (auto simp: redis_inv_def redis_cell_def)
  qed (auto simp: scoped_event_def)
next
  case (2 s k k' t e)
  then show ?case using redis_perform_key [of p s k k'] by (simp add: redis_cell_def [of p "snd _"])
next
  case (3 s k t e)
  then show ?case using redis_perform_key [of p s k] by (auto simp: redis_inv_def)
qed

subsection \<open>Claims, migration, listing\<close>

lemma redis_claim_won:
  assumes "redis_inv p s" and "plain_name k"
    and "redis_try_claim_for_download t now k p c d s = (Inr out, s1)"
    and "out = Claimed \<or> out = TookOver"
  shows "redis_inv p s1" and "redis_cell p s1 k = Some (DOWNLOADING, Some (c, redis_deadline t d))"
proof -
  have perf: "redis_perform (\<lambda>_. now) p t k (EClaim c d) s = (RClaim out, s1)"
    using assms(3) by (simp add: claim_reply_def)
  then show "redis_inv p s1" using redis.perform_inv [OF assms(1,2), of "\<lambda>_. now" t "EClaim c d"] by simp
  have "RClaim out = fst (cell_step redis_deadline t (EClaim c d) (redis_cell p s k))"
    and "redis_cell p s1 k = snd (cell_step redis_deadline t (EClaim c d) (redis_cell p s k))"
    using redis.perform_reply [OF assms(1,2), of "\<lambda>_. now" t "EClaim c d"]
      redis.perform_cell [OF assms(1,2,2), of "\<lambda>_. now" t "EClaim c d"] perf
    by (simp_all del: redis_perform.simps cell_step.simps)
  with assms(4) show "redis_cell p s1 k = Some (DOWNLOADING, Some (c, redis_deadline t d))"
    by (auto split: option.splits if_splits)
qed

lemma scan_push_props:
  "distinct keys \<Longrightarrow> distinct (scan_push keys batch) \<and> set (scan_push keys batch) = set keys \<union> set batch"
  by (induction keys batch rule: scan_push.induct) auto

lemma foldl_scan_push:
  "distinct keys \<Longrightarrow> distinct (foldl scan_push keys pages)
     \<and> set (foldl scan_push keys pages) = set keys \<union> \<Union> (set ` set pages)"
  by (induction pages arbitrary: keys) (auto simp: scan_push_props)

lemma scan_all_keys_props:
  "distinct (scan_all_keys pages)" "set (scan_all_keys pages) = \<Union> (set ` set pages)"
  using foldl_scan_push [of "[]" pages] by (auto simp: scan_all_keys_def)

lemma count_text_fold:
  assumes "unat a + length ss \<le> u32_max" and "unat b + length ss \<le> u32_max"
    and "unat c + length ss \<le> u32_max"
  shows "fold count_status_text ss (a, b, c) = (x, y, z) \<Longrightarrow>
    unat x = unat a + count_list ss ''DOWNLOADING''
    \<and> unat y = unat b + count_list ss ''DOWNLOADED''
    \<and> unat z = unat c + count_list ss ''ERROR''"
  using assms
proof (induction ss arbitrary: a b c)
  case (Cons s ss)
  then show ?case by (fastforce simp: unat_u32_saturating_add split: if_splits)
qed simp

lemma length_map_filter: "length (List.map_filter f xs) \<le> length xs"
  by (induction xs) (auto simp: List.map_filter_simps split: option.splits)

lemma count_map_filter:
  "count_list (List.map_filter f xs) y = length (filter (\<lambda>x. f x = Some y) xs)"
  by (induction xs) (auto simp: List.map_filter_simps split: option.splits)

lemma length_filter_set:
  assumes "distinct xs"
  shows "length (filter P xs) = card {x \<in> set xs. P x}"
  using assms by (metis distinct_card distinct_filter set_filter)

lemma find_split_scheme: "CHR '':'' \<notin> set a \<Longrightarrow> find_split ''://'' (a @ ''://'' @ b) = Some (a, b)"
  by (induction a) auto

subsection \<open>Properties\<close>

text \<open>
  C2. The Redis registry grants a download to one worker at a time: after a claim script
  returned ownership, every script any other worker runs for that model and provider before the
  deadline (measured on the server's clock) is refused and leaves owner and deadline as they were.
\<close>

theorem redis_claim_exclusive:
  assumes "redis_inv p s" and "plain_name k"
    and "redis_try_claim_for_download t now k p c d s = (Inr out, s1)"
    and "out = Claimed \<or> out = TookOver"
    and "\<forall>(t', e) \<in> set es. t' < redis_deadline t d \<and> worker_event e \<and> event_claim e \<noteq> Some c"
  shows "list_all (\<lambda>r. \<not> reply_owns r) (fst (run_events (redis_perform fmt p) k es s1))
    \<and> redis_cell p (snd (run_events (redis_perform fmt p) k es s1)) k
        = Some (DOWNLOADING, Some (c, redis_deadline t d))"
  using redis_claim_won [OF assms(1-4)] assms(2,5) by (intro redis.exclusive) auto

lemma redis_inv_empty: "redis_inv p (\<lambda>_. empty_hash)"
  by (simp add: redis_inv_def)

lemma redis_first_claim:
  "\<exists>s1. redis_try_claim_for_download 100 ''now'' ''m'' p ''a'' 30 (\<lambda>_. empty_hash) = (Inr Claimed, s1)"
  by (simp add: redis_method_defs Let_def empty_hash_def)

lemma plain_m: "plain_name ''m''"
  by code_simp

theorem redis_claim_exclusive_witness:
  "\<exists>s1. redis_try_claim_for_download 100 ''now'' ''m'' Ngc ''a'' 30 (\<lambda>_. empty_hash) = (Inr Claimed, s1)
     \<and> list_all (\<lambda>r. \<not> reply_owns r)
         (fst (run_events (redis_perform (\<lambda>_. ''now'') Ngc) ''m''
            [(110, EClaim ''b'' 30), (120, EFinish ''b'' DOWNLOADED None)] s1))"
proof -
  obtain s1 where claim:
    "redis_try_claim_for_download 100 ''now'' ''m'' Ngc ''a'' 30 (\<lambda>_. empty_hash) = (Inr Claimed, s1)"
    using redis_first_claim by blast
  have "redis_deadline 100 30 = 130"
    by (simp add: redis_deadline_def lease_duration_millis_def u64_max_def)
  then show ?thesis
    using redis_claim_exclusive [OF redis_inv_empty plain_m, of 100 "''now''" Ngc "''a''" 30 Claimed s1
        "[(110, EClaim ''b'' 30), (120, EFinish ''b'' DOWNLOADED None)]" "\<lambda>_. ''now''"] claim
    by simp
qed

text \<open>
  The Redis scripts fence a stale owner: after another worker took the lease, the previous
  owner's finish and refresh scripts return false and the lease stays with the new owner.
\<close>

theorem redis_stale_owner_fenced:
  assumes "redis_inv p s" and "plain_name k"
    and "redis_try_claim_for_download t now k p c d s = (Inr out, s1)"
    and "out = Claimed \<or> out = TookOver" and "c' \<noteq> c"
  shows "fst (redis_finish_download_claim (fmt t') k p c' st m s1) = False
    \<and> fst (redis_refresh_download_claim t' (fmt t') k p c' d' s1) = False
    \<and> redis_cell p (snd (redis_finish_download_claim (fmt t') k p c' st m s1)) k
        = Some (DOWNLOADING, Some (c, redis_deadline t d))"
  using redis.fenced [OF _ assms(2) _ assms(5), where s = s1 and p = p and t = t' and fmt = fmt]
    redis_claim_won [OF assms(1-4)]
  by simp

theorem redis_stale_owner_fenced_witness:
  "\<exists>s1. redis_try_claim_for_download 100 ''now'' ''m'' Ngc ''a'' 30 (\<lambda>_. empty_hash) = (Inr Claimed, s1)
     \<and> fst (redis_finish_download_claim ''now'' ''m'' Ngc ''b'' DOWNLOADED None s1) = False"
proof -
  obtain s1 where claim:
    "redis_try_claim_for_download 100 ''now'' ''m'' Ngc ''a'' 30 (\<lambda>_. empty_hash) = (Inr Claimed, s1)"
    using redis_first_claim by blast
  show ?thesis
    using redis_stale_owner_fenced [OF redis_inv_empty plain_m, of 100 "''now''" Ngc "''a''" 30 Claimed s1 "''b''"
        "\<lambda>_. ''now''" 0 DOWNLOADED None 0] claim
    by simp
qed

text \<open>
  Lazy migration of a record stored under the name-only legacy key, on the first claim for
  its provider: the legacy key is gone, the record lives under the scoped key with its status
  and creation time kept, and a record that is not downloading answers the claim with its status.
\<close>

theorem redis_claim_migrates_legacy:
  assumes "rh_status (s (model_key p n)) = None"
    and "rh_status (s (legacy_model_key n)) = Some (status_str x)"
    and "rh_provider (s (legacy_model_key n)) = Some (provider_str p)"
  shows "let (r, s') = redis_try_claim_for_download t now n p c d s in
      s' (legacy_model_key n) = empty_hash
      \<and> rh_status (s' (model_key p n)) = Some (status_str x)
      \<and> rh_created_at (s' (model_key p n)) = rh_created_at (s (legacy_model_key n))
      \<and> (x \<noteq> DOWNLOADING \<longrightarrow> r = Inr (AlreadyExists x) \<and> s' (model_key p n) = s (legacy_model_key n))"
  using assms
  by (auto simp: redis_method_defs Let_def sum_bind_def status_roundtrip sentinels_differ
      split: option.splits simp del: status_str.simps)

definition legacy_example :: "string \<Rightarrow> redis_store" where
  "legacy_example provider = (\<lambda>_. empty_hash)(legacy_model_key ''m'' :=
     empty_hash\<lparr>rh_status := Some ''DOWNLOADED'', rh_provider := Some provider\<rparr>)"

lemma legacy_example_fields:
  "rh_status (legacy_example q (model_key p ''m'')) = None"
  "rh_status (legacy_example q (legacy_model_key ''m'')) = Some (status_str DOWNLOADED)"
  "rh_provider (legacy_example q (legacy_model_key ''m'')) = Some q"
  by (simp_all add: legacy_example_def empty_hash_def)

theorem redis_claim_migrates_legacy_witness:
  "\<exists>s'. redis_try_claim_for_download 100 ''now'' ''m'' Ngc ''a'' 30 (legacy_example ''Ngc'')
      = (Inr (AlreadyExists DOWNLOADED), s') \<and> s' (legacy_model_key ''m'') = empty_hash"
proof -
  have "rh_provider (legacy_example ''Ngc'' (legacy_model_key ''m'')) = Some (provider_str Ngc)"
    by (simp add: legacy_example_fields)
  from redis_claim_migrates_legacy [OF legacy_example_fields(1,2) this, of 100 "''now''" "''a''" 30]
  show ?thesis by (auto simp: Let_def split: prod.splits)
qed

text \<open>
  A legacy record of another provider never answers a claim: the claim creates a fresh
  record under its own provider's key, owns the download, and the legacy record is untouched.
\<close>

theorem redis_claim_ignores_foreign_legacy:
  assumes "rh_status (s (model_key p n)) = None"
    and "rh_provider (s (legacy_model_key n)) \<noteq> Some (provider_str p)"
  shows "let (r, s') = redis_try_claim_for_download t now n p c d s in
      r = Inr Claimed \<and> s' (legacy_model_key n) = s (legacy_model_key n)
      \<and> redis_cell p s' n = Some (DOWNLOADING, Some (c, redis_deadline t d))"
  using assms
  by (auto simp: redis_method_defs Let_def redis_cell_def hash_cell_def hash_lease_def
      redis_deadline_def split: option.splits)

theorem redis_claim_ignores_foreign_legacy_witness:
  "fst (redis_try_claim_for_download 100 ''now'' ''m'' HuggingFace ''a'' 30 (legacy_example ''Gcs'')) = Inr Claimed"
proof -
  have "rh_provider (legacy_example ''Gcs'' (legacy_model_key ''m'')) \<noteq> Some (provider_str HuggingFace)"
    by (simp add: legacy_example_fields)
  from redis_claim_ignores_foreign_legacy [OF legacy_example_fields(1) this, of 100 "''now''" "''a''" 30]
  show ?thesis by (auto simp: Let_def split: prod.splits)
qed

text \<open>
  What is written is what is read: after \<^verbatim>\<open>set_status\<close> on a name no other provider
  holds, \<^verbatim>\<open>get_model_record\<close> returns the record with that provider, status, message and
  time, keeping the creation time of a record that existed. The clock text is assumed to parse
  back to its instant.
\<close>

theorem redis_set_get_roundtrip:
  assumes "parse (fmt t) = Some t" and "created = (case rh_created_at (s (model_key p n)) of None \<Rightarrow> fmt t | Some x \<Rightarrow> x)"
    and "parse created = Some t0"
    and "\<forall>q. q \<noteq> p \<longrightarrow> s (model_key q n) = empty_hash"
  shows "redis_get_model_record parse n (redis_set_status (fmt t) n p st m s)
    = Inr (Some \<lparr>mr_model_name = n, mr_provider = p, mr_status = st, mr_created_at = t0,
                  mr_last_used_at = t, mr_message = m\<rparr>)"
proof -
  let ?s' = "redis_set_status (fmt t) n p st m s"
  let ?h = "?s' (model_key p n)"
  have h: "rh_status ?h = Some (status_str st)" "rh_provider ?h = Some (provider_str p)"
    "rh_created_at ?h = Some created" "rh_last_used_at ?h = Some (fmt t)" "rh_message ?h = m"
    by (auto simp: redis_set_status_def set_status_lua_def Let_def assms(2) split: option.splits)
  then have ne: "?h \<noteq> empty_hash" by (metis RedisHash.select_convs(1) empty_hash_def option.distinct(1))
  have "?s' (model_key q n) = empty_hash" if "q \<noteq> p" for q
    using that assms(4) by (simp add: redis_set_status_def set_status_lua_def Let_def)
  then have "\<exists>tl. filter (\<lambda>h. h \<noteq> empty_hash) (map ?s' (candidate_keys n)) = ?h # tl"
    using ne by (cases p) (auto simp: candidate_keys_def ALL_PROVIDERS_def)
  moreover have "record_from_hash parse n ?h = Inr \<lparr>mr_model_name = n, mr_provider = p, mr_status = st,
      mr_created_at = t0, mr_last_used_at = t, mr_message = m\<rparr>"
    by (simp add: record_from_hash_def sum_bind_def take_field_def h provider_roundtrip status_roundtrip
        parse_rfc3339_def assms(1,3))
  ultimately show ?thesis by (auto simp: redis_get_model_record_def sum_bind_def)
qed

theorem redis_set_get_roundtrip_witness:
  "redis_get_model_record (\<lambda>s. if s = ''t7'' then Some 7 else None) ''m''
     (redis_set_status ''t7'' ''m'' Gcs ERROR (Some ''x'') (\<lambda>_. empty_hash))
   = Inr (Some \<lparr>mr_model_name = ''m'', mr_provider = Gcs, mr_status = ERROR, mr_created_at = 7,
                 mr_last_used_at = 7, mr_message = Some ''x''\<rparr>)"
  by (rule redis_set_get_roundtrip [where fmt = "\<lambda>_. ''t7''" and t = 7 and created = "''t7''"])
     (simp_all add: empty_hash_def)

text \<open>
  Status counts are exact although the server may return a key on several pages of a scan:
  each counter is the number of distinct scanned keys whose stored status is that text.
\<close>

theorem redis_status_counts_exact:
  assumes "redis_get_status_counts pages s = (downloading, downloaded, err)"
    and "card (\<Union> (set ` set pages)) \<le> u32_max"
  shows "unat downloading = card {k \<in> \<Union> (set ` set pages). rh_status (s k) = Some ''DOWNLOADING''}
    \<and> unat downloaded = card {k \<in> \<Union> (set ` set pages). rh_status (s k) = Some ''DOWNLOADED''}
    \<and> unat err = card {k \<in> \<Union> (set ` set pages). rh_status (s k) = Some ''ERROR''}"
proof -
  let ?ks = "scan_all_keys pages"
  have "length ?ks \<le> u32_max"
    using assms(2) scan_all_keys_props [of pages] by (metis distinct_card)
  then have "length (List.map_filter (\<lambda>k. rh_status (s k)) ?ks) \<le> u32_max"
    using length_map_filter [of "\<lambda>k. rh_status (s k)" ?ks] by linarith
  then show ?thesis
    using count_text_fold [of 0 "List.map_filter (\<lambda>k. rh_status (s k)) ?ks" 0 0 downloading downloaded err]
      assms(1) scan_all_keys_props [of pages]
    by (simp add: redis_get_status_counts_def count_map_filter length_filter_set)
qed

theorem redis_status_counts_exact_witness:
  "let s = (\<lambda>_. empty_hash)(''k'' := empty_hash\<lparr>rh_status := Some ''ERROR''\<rparr>)
   in unat (snd (snd (redis_get_status_counts [[''k''], [''k'']] s))) = 1"
proof -
  let ?s = "(\<lambda>_. empty_hash)(''k'' := empty_hash\<lparr>rh_status := Some ''ERROR''\<rparr>)"
  obtain x y z where c: "redis_get_status_counts [[''k''], [''k'']] ?s = (x, y, z)"
    by (metis prod_cases3)
  have one: "{k. k = ''k'' \<and> rh_status (?s k) = Some ''ERROR''} = {''k''}" by auto
  show ?thesis
    using redis_status_counts_exact [OF c] c one by (simp add: u32_max_def Let_def)
qed

text \<open>
  The log form of a connection URL does not depend on the password: two URLs that differ
  only in the password of their user info are logged as the same text.
\<close>

theorem redact_url_hides_password:
  assumes "CHR '':'' \<notin> set scheme" and "CHR '':'' \<notin> set user" and "CHR ''@'' \<notin> set user"
    and "CHR ''@'' \<notin> set pw1" and "CHR ''@'' \<notin> set pw2"
  shows "redact_url (scheme @ ''://'' @ user @ '':'' @ pw1 @ ''@'' @ host)
       = redact_url (scheme @ ''://'' @ user @ '':'' @ pw2 @ ''@'' @ host)"
proof -
  have "redact_url (scheme @ ''://'' @ user @ '':'' @ pw @ ''@'' @ host)
      = scheme @ ''://'' @ user @ '':***'' @ ''@'' @ host" if "CHR ''@'' \<notin> set pw" for pw
  proof -
    have at: "split_once (CHR ''@'') (user @ '':'' @ pw @ ''@'' @ host) = Some (user @ '':'' @ pw, host)"
      using split_once_append [of "CHR ''@''" "user @ '':'' @ pw" host] assms(3) that by simp
    have col: "split_once (CHR '':'') (user @ '':'' @ pw) = Some (user, pw)"
      using split_once_append [of "CHR '':''" user pw] assms(2) by simp
    show ?thesis
      by (simp only: redact_url_def find_split_scheme [OF assms(1)] option.case prod.case at col)
  qed
  then show ?thesis using assms(4,5) by simp
qed

theorem redact_url_hides_password_witness:
  "redact_url ''redis://u:secret@h:6379'' = redact_url ''redis://u:other@h:6379''"
  using redact_url_hides_password [of "''redis''" "''u''" "''secret''" "''other''" "''h:6379''"] by simp

end
