(* ===== verification/Collective_Group.thy ===== *)
theory Collective_Group
  imports Lane_Layout
begin

text \<open>
  The state machine of the collective control plane: the Lua scripts under
  \<^verbatim>\<open>refit_collective/backend/redis/scripts\<close>, each one atomic transaction of the Redis
  backend, over typed views of the hashes they read and write.

  A group is its root hash (absent until the first join), the participants and reported digests
  by slot, the lane hashes by lane id, and the set of active operations. A participant record
  that \<^verbatim>\<open>parse_participant\<close> cannot parse is \<open>PMalformed\<close>; the scripts' branches for it
  are kept. Worker registrations belong to the refit service and expire on their own, so they
  are part of the environment and change by steps of their own.

  Shown here: what a READY answer means, that epochs never go back, that a membership change
  under a live communicator moves the epoch, clears the lane bootstraps and aborts the
  operations in flight, that two unfinished operations never share a group epoch, that finished
  operations never change, and the case in which a refused join loses a pending fence.
\<close>

datatype CRole = TRAINER | GENERATOR
datatype GState = FORMING | READY
datatype TState = PENDING | RUNNING | COMPLETE | FAILED | ABORTED

datatype prec = PRec string CRole nat nat | PMalformed

record Registration =
  rg_worker_id :: string
  rg_role :: string
  rg_model_name :: string

type_synonym registry = "string \<Rightarrow> Registration option"

record GroupRoot =
  gr_group_id :: string
  gr_model_name :: string
  gr_lanes :: string
  gr_expected_total :: nat
  gr_trainer_slots :: "string list"
  gr_generator_slots :: "string list"
  gr_plan_digest :: string
  gr_epoch :: nat
  gr_state :: GState
  gr_ps_worker :: string
  gr_ps_endpoint :: string
  gr_ps_digest :: string
  gr_created_at :: nat

record LaneHash =
  lh_nccl_unique_id :: string
  lh_bootstrap_epoch :: nat
  lh_published_by :: string

type_synonym participants = "(string, prec) hash_map"
type_synonym digests = "(string, string) hash_map"
type_synonym lane_hashes = "u32 \<Rightarrow> LaneHash option"

record Group =
  g_root :: "GroupRoot option"
  g_participants :: participants
  g_digests :: digests
  g_lanes :: lane_hashes
  g_ops :: "string list"

record Op =
  op_group_id :: string
  op_epoch :: nat
  op_version_id :: string
  op_model_name :: string
  op_idempotency_key :: string
  op_state :: TState
  op_failure_message :: string
  op_created_at :: nat

type_synonym op_store = "string \<Rightarrow> Op option"

record CSys =
  cs_group :: "string \<Rightarrow> Group"
  cs_op :: op_store
  cs_reported :: "string \<Rightarrow> string list"
  cs_idem :: "string \<Rightarrow> string option"
  cs_regs :: registry

definition op_terminal :: "Op \<Rightarrow> bool" where
  "op_terminal o1 = (op_state o1 = COMPLETE \<or> op_state o1 = FAILED \<or> op_state o1 = ABORTED)"

subsection \<open>common.lua\<close>

definition registration_matches :: "registry \<Rightarrow> string \<Rightarrow> CRole \<Rightarrow> string \<Rightarrow> bool" where
  "registration_matches regs w role model =
     (case regs w of
        None \<Rightarrow> False
      | Some r \<Rightarrow> rg_worker_id r = w \<and> rg_role r = (if role = TRAINER then ''1'' else ''2'')
                  \<and> rg_model_name r = model)"

definition abort_op :: "string \<Rightarrow> op_store \<Rightarrow> op_store" where
  "abort_op i ops =
     (case ops i of
        Some o1 \<Rightarrow>
          if op_state o1 = PENDING \<or> op_state o1 = RUNNING
          then ops(i \<mapsto> o1\<lparr>op_state := ABORTED,
                 op_failure_message := ''group epoch advanced before the transfer completed''\<rparr>)
          else ops
      | None \<Rightarrow> ops)"

text \<open>Aborts every operation of the set; the set itself ends up empty.\<close>

definition abort_stale_ops :: "string list \<Rightarrow> op_store \<Rightarrow> op_store" where
  "abort_stale_ops ids ops = fold abort_op ids ops"

definition any_lane_bootstrapped :: "lane_hashes \<Rightarrow> u32 list \<Rightarrow> nat \<Rightarrow> bool" where
  "any_lane_bootstrapped lanes ids epoch =
     list_ex (\<lambda>i. case lanes i of Some h \<Rightarrow> lh_bootstrap_epoch h = epoch | None \<Rightarrow> False) ids"

definition needs_epoch_bump :: "GroupRoot \<Rightarrow> lane_hashes \<Rightarrow> u32 list \<Rightarrow> nat \<Rightarrow> bool" where
  "needs_epoch_bump r lanes ids epoch = (gr_state r = READY \<or> any_lane_bootstrapped lanes ids epoch)"

fun participant_current :: "registry \<Rightarrow> nat \<Rightarrow> string option \<Rightarrow> prec \<Rightarrow> bool" where
  "participant_current regs epoch model PMalformed = False"
| "participant_current regs epoch model (PRec w role idx joined) =
     (joined = epoch \<and> (case model of None \<Rightarrow> True | Some m \<Rightarrow> registration_matches regs w role m))"

definition evaluate_readiness ::
  "registry \<Rightarrow> GroupRoot \<Rightarrow> participants \<Rightarrow> digests \<Rightarrow> lane_hashes \<Rightarrow> u32 list \<Rightarrow> nat \<Rightarrow> nat
   \<Rightarrow> string option \<Rightarrow> bool" where
  "evaluate_readiness regs r ps ds lanes ids expected epoch model =
     (if length ps \<noteq> expected then False
      else if \<not> list_all (participant_current regs epoch model) (hm_values ps) then False
      else if \<not> list_all (\<lambda>i. case lanes i of Some h \<Rightarrow> lh_bootstrap_epoch h = epoch | None \<Rightarrow> False) ids
      then False
      else if length ds \<noteq> expected then False
      else list_all (\<lambda>d. d = gr_plan_digest r) (hm_values ds))"

definition clear_plan_source :: "GroupRoot \<Rightarrow> GroupRoot" where
  "clear_plan_source r = r\<lparr>gr_ps_worker := [], gr_ps_endpoint := [], gr_ps_digest := []\<rparr>"

definition del_lanes :: "u32 list \<Rightarrow> lane_hashes \<Rightarrow> lane_hashes" where
  "del_lanes ids lanes = (\<lambda>i. if i \<in> set ids then None else lanes i)"

text \<open>
  The sweep both the join and the refresh script run over a snapshot of the participants: a
  malformed record or a lapsed registration is removed, with its digest and, where the worker
  served the plan, the plan source. The last component tells whether the epoch has to move.
\<close>

fun sweep_expired ::
  "registry \<Rightarrow> string \<Rightarrow> bool \<Rightarrow> (string \<times> prec) list \<Rightarrow> GroupRoot \<times> participants \<times> digests \<times> bool
   \<Rightarrow> GroupRoot \<times> participants \<times> digests \<times> bool" where
  "sweep_expired regs model bump [] acc = acc"
| "sweep_expired regs model bump ((slot, rec) # rest) (r, ps, ds, changed) =
     (case rec of
        PMalformed \<Rightarrow>
          sweep_expired regs model bump rest (r, hm_remove slot ps, hm_remove slot ds, changed \<or> bump)
      | PRec w role idx joined \<Rightarrow>
          if registration_matches regs w role model
          then sweep_expired regs model bump rest (r, ps, ds, changed)
          else sweep_expired regs model bump rest
                 (if gr_ps_worker r = w then clear_plan_source r else r,
                  hm_remove slot ps, hm_remove slot ds, changed \<or> bump))"

subsection \<open>join\_collective\_group.lua\<close>

record JoinArgs =
  ja_group_id :: string
  ja_model_name :: string
  ja_lanes :: string
  ja_lane_ids :: "u32 list"
  ja_expected_total :: nat
  ja_slot_id :: string
  ja_worker_id :: string
  ja_role :: CRole
  ja_index :: nat
  ja_plan_digest :: string
  ja_ps_worker :: string
  ja_ps_endpoint :: string
  ja_ps_digest :: string
  ja_trainer_slots :: "string list"
  ja_generator_slots :: "string list"
  ja_created_at :: nat

datatype JoinOut =
    UNEXPECTED_SLOT | UNREGISTERED | INVALID_PLAN_SOURCE | CORRUPT_PARTICIPANT
  | CONFLICTING_ASSIGNMENT | DUPLICATE_RANK | DUPLICATE_WORKER | JOIN_OK nat GState

fun check_duplicates :: "JoinArgs \<Rightarrow> (string \<times> prec) list \<Rightarrow> JoinOut option" where
  "check_duplicates a [] = None"
| "check_duplicates a ((slot, rec) # rest) =
     (if slot = ja_slot_id a then check_duplicates a rest
      else case rec of
             PMalformed \<Rightarrow> Some CORRUPT_PARTICIPANT
           | PRec w role idx joined \<Rightarrow>
               if role = ja_role a \<and> idx = ja_index a then Some DUPLICATE_RANK
               else if w = ja_worker_id a then Some DUPLICATE_WORKER
               else check_duplicates a rest)"

text \<open>The record already held by the slot: refusal, or the root and whether the epoch moves.\<close>

definition check_existing :: "JoinArgs \<Rightarrow> bool \<Rightarrow> GroupRoot \<Rightarrow> participants \<Rightarrow> JoinOut + (GroupRoot \<times> bool)" where
  "check_existing a bump r ps =
     (case hm_get ps (ja_slot_id a) of
        None \<Rightarrow> Inr (r, False)
      | Some PMalformed \<Rightarrow> Inl CORRUPT_PARTICIPANT
      | Some (PRec w role idx joined) \<Rightarrow>
          if role \<noteq> ja_role a \<or> idx \<noteq> ja_index a then Inl CONFLICTING_ASSIGNMENT
          else if w \<noteq> ja_worker_id a
          then Inr (if gr_ps_worker r = w then clear_plan_source r else r, bump)
          else Inr (r, False))"

definition new_root :: "JoinArgs \<Rightarrow> GroupRoot" where
  "new_root a =
     \<lparr>gr_group_id = ja_group_id a, gr_model_name = ja_model_name a, gr_lanes = ja_lanes a,
       gr_expected_total = ja_expected_total a, gr_trainer_slots = ja_trainer_slots a,
       gr_generator_slots = ja_generator_slots a, gr_plan_digest = ja_plan_digest a,
       gr_epoch = 1, gr_state = FORMING, gr_ps_worker = [], gr_ps_endpoint = [],
       gr_ps_digest = [], gr_created_at = ja_created_at a\<rparr>"

text \<open>The tail of the script: move the epoch if needed, record the member, evaluate readiness.\<close>

definition join_admit ::
  "registry \<Rightarrow> JoinArgs \<Rightarrow> GroupRoot \<Rightarrow> bool \<Rightarrow> Group \<Rightarrow> op_store \<Rightarrow> JoinOut \<times> Group \<times> op_store" where
  "join_admit regs a r changed g ops =
     (let epoch = (if changed then gr_epoch r + 1 else gr_epoch r);
          r1 = (if changed
                then clear_plan_source (r\<lparr>gr_epoch := epoch, gr_plan_digest := ja_plan_digest a,
                       gr_state := FORMING\<rparr>)
                else r);
          lanes = (if changed then del_lanes (ja_lane_ids a) (g_lanes g) else g_lanes g);
          ops1 = (if changed then abort_stale_ops (g_ops g) ops else ops);
          active = (if changed then [] else g_ops g);
          ps = hm_insert (ja_slot_id a) (PRec (ja_worker_id a) (ja_role a) (ja_index a) epoch)
                 (g_participants g);
          ds = hm_insert (ja_slot_id a) (ja_plan_digest a) (g_digests g);
          r2 = (if ja_ps_worker a \<noteq> []
                then r1\<lparr>gr_ps_worker := ja_ps_worker a, gr_ps_endpoint := ja_ps_endpoint a,
                        gr_ps_digest := ja_ps_digest a\<rparr>
                else r1);
          ready = evaluate_readiness regs r2 ps ds lanes (ja_lane_ids a) (ja_expected_total a) epoch
                    (Some (ja_model_name a));
          st = (if ready then READY else FORMING)
      in (JOIN_OK epoch st,
          g\<lparr>g_root := Some (r2\<lparr>gr_state := st\<rparr>), g_participants := ps, g_digests := ds,
            g_lanes := lanes, g_ops := active\<rparr>, ops1))"

definition join_existing ::
  "registry \<Rightarrow> JoinArgs \<Rightarrow> GroupRoot \<Rightarrow> Group \<Rightarrow> op_store \<Rightarrow> JoinOut \<times> Group \<times> op_store" where
  "join_existing regs a r0 g ops =
     (let bump = needs_epoch_bump r0 (g_lanes g) (ja_lane_ids a) (gr_epoch r0);
          (r, ps, ds, swept) = sweep_expired regs (ja_model_name a) bump (g_participants g)
                                 (r0, g_participants g, g_digests g, False);
          g1 = g\<lparr>g_root := Some r, g_participants := ps, g_digests := ds\<rparr>
      in case check_existing a bump r ps of
           Inl refusal \<Rightarrow> (refusal, g1, ops)
         | Inr (r', replaced) \<Rightarrow>
             (let g2 = g1\<lparr>g_root := Some r'\<rparr> in
              case check_duplicates a ps of
                Some refusal \<Rightarrow> (refusal, g2, ops)
              | None \<Rightarrow>
                  join_admit regs a r'
                    (swept \<or> replaced \<or> gr_plan_digest r' \<noteq> ja_plan_digest a) g2 ops))"

definition join_group_lua ::
  "registry \<Rightarrow> JoinArgs \<Rightarrow> Group \<Rightarrow> op_store \<Rightarrow> JoinOut \<times> Group \<times> op_store" where
  "join_group_lua regs a g ops =
     (let expected_slots = (if ja_role a = TRAINER then ja_trainer_slots a else ja_generator_slots a)
      in if ja_slot_id a \<notin> set expected_slots then (UNEXPECTED_SLOT, g, ops)
         else if \<not> registration_matches regs (ja_worker_id a) (ja_role a) (ja_model_name a)
         then (UNREGISTERED, g, ops)
         else if ja_ps_worker a \<noteq> []
              \<and> (ja_role a \<noteq> TRAINER \<or> ja_index a \<noteq> 0 \<or> ja_ps_worker a \<noteq> ja_worker_id a)
         then (INVALID_PLAN_SOURCE, g, ops)
         else (case g_root g of
                None \<Rightarrow>
                  join_admit regs a (new_root a) False
                    \<lparr>g_root = Some (new_root a), g_participants = [], g_digests = [],
                      g_lanes = del_lanes (ja_lane_ids a) (g_lanes g), g_ops = []\<rparr>
                    (abort_stale_ops (g_ops g) ops)
              | Some r0 \<Rightarrow> join_existing regs a r0 g ops))"

subsection \<open>publish\_group\_bootstrap.lua\<close>

datatype PublishOut = PUB_NOTFOUND | PUB_STALE nat | NOTLEADER | CONFLICT | PUB_OK nat GState

definition publish_bootstrap_lua ::
  "registry \<Rightarrow> u32 list \<Rightarrow> u32 \<Rightarrow> nat \<Rightarrow> string \<Rightarrow> string \<Rightarrow> string \<Rightarrow> Group \<Rightarrow> PublishOut \<times> Group" where
  "publish_bootstrap_lua regs lane_ids lane epoch_arg worker nccl_id leader_slot g =
     (case g_root g of
        None \<Rightarrow> (PUB_NOTFOUND, g)
      | Some r \<Rightarrow>
          if epoch_arg \<noteq> gr_epoch r then (PUB_STALE (gr_epoch r), g)
          else
            let leads = (case hm_get (g_participants g) leader_slot of
                   Some (PRec w role idx joined) \<Rightarrow>
                     w = worker \<and> joined = gr_epoch r
                     \<and> registration_matches regs w role (gr_model_name r)
                 | _ \<Rightarrow> False);
                held = (case g_lanes g lane of
                   Some h \<Rightarrow> lh_bootstrap_epoch h = gr_epoch r | None \<Rightarrow> False);
                agrees = (case g_lanes g lane of
                   Some h \<Rightarrow> lh_published_by h = worker \<and> lh_nccl_unique_id h = nccl_id | None \<Rightarrow> False);
                lanes = (if held then g_lanes g
                         else (g_lanes g)(lane \<mapsto> \<lparr>lh_nccl_unique_id = nccl_id,
                                lh_bootstrap_epoch = gr_epoch r, lh_published_by = worker\<rparr>));
                ready = evaluate_readiness regs r (g_participants g) (g_digests g) lanes lane_ids
                          (gr_expected_total r) (gr_epoch r) (Some (gr_model_name r));
                st = (if ready then READY else FORMING)
            in if \<not> leads then (NOTLEADER, g)
               else if held \<and> \<not> agrees then (CONFLICT, g)
               else (PUB_OK (gr_epoch r) st,
                     g\<lparr>g_root := Some (r\<lparr>gr_state := st\<rparr>), g_lanes := lanes\<rparr>))"

subsection \<open>refresh\_collective\_group.lua\<close>

datatype RefreshOut = REF_NOTFOUND | REF_OK nat GState

definition refresh_group_lua ::
  "registry \<Rightarrow> u32 list \<Rightarrow> Group \<Rightarrow> op_store \<Rightarrow> RefreshOut \<times> Group \<times> op_store" where
  "refresh_group_lua regs lane_ids g ops =
     (case g_root g of
        None \<Rightarrow> (REF_NOTFOUND, g, ops)
      | Some r0 \<Rightarrow>
          let bump = needs_epoch_bump r0 (g_lanes g) lane_ids (gr_epoch r0);
              (r, ps, ds, changed) = sweep_expired regs (gr_model_name r0) bump (g_participants g)
                                       (r0, g_participants g, g_digests g, False);
              epoch = (if changed then gr_epoch r + 1 else gr_epoch r);
              r1 = (if changed
                    then clear_plan_source (r\<lparr>gr_epoch := epoch, gr_state := FORMING\<rparr>) else r);
              lanes = (if changed then del_lanes lane_ids (g_lanes g) else g_lanes g);
              ops1 = (if changed then abort_stale_ops (g_ops g) ops else ops);
              active = (if changed then [] else g_ops g);
              ready = evaluate_readiness regs r1 ps ds lanes lane_ids (gr_expected_total r1) epoch None;
              st = (if ready then READY else FORMING)
          in (REF_OK epoch st,
              g\<lparr>g_root := Some (r1\<lparr>gr_state := st\<rparr>), g_participants := ps, g_digests := ds,
                g_lanes := lanes, g_ops := active\<rparr>, ops1))"

subsection \<open>create\_collective\_transfer.lua\<close>

record CreateArgs =
  xa_operation_id :: string
  xa_group_id :: string
  xa_version_id :: string
  xa_model_name :: string
  xa_idempotency_key :: string
  xa_idem_store_key :: string
  xa_created_at :: nat
  xa_expected_epoch :: nat

datatype CreateOut = CREATED | EXISTING string | COLLISION | NOGROUP | NOTREADY nat GState | BUSY string

fun find_busy :: "nat \<Rightarrow> string list \<Rightarrow> op_store \<Rightarrow> string option" where
  "find_busy epoch [] ops = None"
| "find_busy epoch (i # rest) ops =
     (case ops i of
        Some o1 \<Rightarrow>
          if (op_state o1 = PENDING \<or> op_state o1 = RUNNING) \<and> op_epoch o1 = epoch then Some i
          else find_busy epoch rest ops
      | None \<Rightarrow> find_busy epoch rest ops)"

definition create_transfer_lua :: "CreateArgs \<Rightarrow> CSys \<Rightarrow> CreateOut \<times> CSys" where
  "create_transfer_lua a s =
     (let owned = (case cs_idem s (xa_idem_store_key a) of
            Some i \<Rightarrow> if cs_op s i \<noteq> None then Some i else None | None \<Rightarrow> None);
          s1 = s\<lparr>cs_idem := (cs_idem s)(xa_idem_store_key a := None)\<rparr>;
          g = cs_group s (xa_group_id a)
      in case owned of
           Some i \<Rightarrow> (EXISTING i, s)
         | None \<Rightarrow>
             if cs_op s (xa_operation_id a) \<noteq> None then (COLLISION, s1)
             else (case g_root g of
               None \<Rightarrow> (NOGROUP, s1)
             | Some r \<Rightarrow>
                 if gr_state r \<noteq> READY \<or> gr_epoch r \<noteq> xa_expected_epoch a
                 then (NOTREADY (gr_epoch r) (gr_state r), s1)
                 else (case find_busy (gr_epoch r) (g_ops g) (cs_op s) of
                   Some i \<Rightarrow> (BUSY i, s1)
                 | None \<Rightarrow>
                     (CREATED,
                      s\<lparr>cs_op := (cs_op s)(xa_operation_id a \<mapsto>
                            \<lparr>op_group_id = xa_group_id a, op_epoch = gr_epoch r,
                              op_version_id = xa_version_id a, op_model_name = xa_model_name a,
                              op_idempotency_key = xa_idempotency_key a, op_state = PENDING,
                              op_failure_message = [], op_created_at = xa_created_at a\<rparr>),
                        cs_idem := (cs_idem s)(xa_idem_store_key a \<mapsto> xa_operation_id a),
                        cs_group := (cs_group s)(xa_group_id a :=
                            g\<lparr>g_ops := List.insert (xa_operation_id a) (g_ops g)\<rparr>)\<rparr>))))"

subsection \<open>report\_collective\_transfer.lua\<close>

datatype ReportOut =
    REP_NOTFOUND | WRONGGROUP | OPSTALE nat | REP_STALE nat | REP_NOTREADY | NOTADMITTED | REP_OK TState

text \<open>The loop over the participants: \<open>None\<close> when one is not current, else whether the worker was seen.\<close>

fun report_admitted :: "registry \<Rightarrow> nat \<Rightarrow> string \<Rightarrow> prec list \<Rightarrow> bool \<Rightarrow> bool option" where
  "report_admitted regs epoch worker [] seen = Some seen"
| "report_admitted regs epoch worker (PMalformed # rest) seen = None"
| "report_admitted regs epoch worker (PRec w role idx joined # rest) seen =
     (if joined \<noteq> epoch \<or> regs w = None then None
      else report_admitted regs epoch worker rest (seen \<or> w = worker))"

definition report_transfer_lua ::
  "u32 list \<Rightarrow> string \<Rightarrow> string \<Rightarrow> nat \<Rightarrow> string \<Rightarrow> bool \<Rightarrow> string \<Rightarrow> CSys \<Rightarrow> ReportOut \<times> CSys" where
  "report_transfer_lua lane_ids operation_id group_id epoch worker succeeded message s =
     (case cs_op s operation_id of
        None \<Rightarrow> (REP_NOTFOUND, s)
      | Some o1 \<Rightarrow>
          if op_group_id o1 \<noteq> group_id then (WRONGGROUP, s)
          else if op_epoch o1 \<noteq> epoch then (OPSTALE (op_epoch o1), s)
          else if op_terminal o1 then (REP_OK (op_state o1), s)
          else
            (let g = cs_group s group_id in
            case g_root g of
              None \<Rightarrow> (REP_STALE 0, s)
            | Some r \<Rightarrow>
                if gr_epoch r \<noteq> epoch then (REP_STALE (gr_epoch r), s)
                else if gr_state r \<noteq> READY then (REP_NOTREADY, s)
                else (case report_admitted (cs_regs s) epoch worker (hm_values (g_participants g)) False of
                  None \<Rightarrow> (REP_NOTREADY, s)
                | Some False \<Rightarrow> (NOTADMITTED, s)
                | Some True \<Rightarrow>
                    (let reported = List.insert worker (cs_reported s operation_id);
                         s1 = s\<lparr>cs_reported := (cs_reported s)(operation_id := reported)\<rparr>;
                         inactive = removeAll operation_id (g_ops g)
                     in if \<not> succeeded
                        then (REP_OK FAILED,
                              s1\<lparr>cs_op := (cs_op s)(operation_id \<mapsto>
                                     o1\<lparr>op_state := FAILED, op_failure_message := message\<rparr>),
                                 cs_group := (cs_group s)(group_id :=
                                     g\<lparr>g_root := Some (clear_plan_source
                                          (r\<lparr>gr_epoch := gr_epoch r + 1, gr_state := FORMING\<rparr>)),
                                       g_lanes := del_lanes lane_ids (g_lanes g),
                                       g_ops := inactive\<rparr>)\<rparr>)
                        else if length reported = gr_expected_total r
                        then (REP_OK COMPLETE,
                              s1\<lparr>cs_op := (cs_op s)(operation_id \<mapsto> o1\<lparr>op_state := COMPLETE\<rparr>),
                                 cs_group := (cs_group s)(group_id := g\<lparr>g_ops := inactive\<rparr>)\<rparr>)
                        else (REP_OK RUNNING,
                              s1\<lparr>cs_op := (cs_op s)(operation_id \<mapsto> o1\<lparr>op_state := RUNNING\<rparr>)\<rparr>)))))"

subsection \<open>delete\_collective\_transfer.lua\<close>

datatype DeleteOut = DEL_NOTFOUND | NOTTERMINAL | DELETED

definition delete_transfer_lua :: "string \<Rightarrow> string \<Rightarrow> string \<Rightarrow> CSys \<Rightarrow> DeleteOut \<times> CSys" where
  "delete_transfer_lua operation_id idem_store_key group_id s =
     (case cs_op s operation_id of
        None \<Rightarrow> (DEL_NOTFOUND, s)
      | Some o1 \<Rightarrow>
          if \<not> op_terminal o1 then (NOTTERMINAL, s)
          else
            let g = cs_group s group_id;
                idem = (if cs_idem s idem_store_key = Some operation_id
                        then (cs_idem s)(idem_store_key := None) else cs_idem s)
            in (DELETED,
                s\<lparr>cs_op := (cs_op s)(operation_id := None),
                  cs_reported := (cs_reported s)(operation_id := []),
                  cs_idem := idem,
                  cs_group := (cs_group s)(group_id := g\<lparr>g_ops := removeAll operation_id (g_ops g)\<rparr>)\<rparr>))"

subsection \<open>Steps of the system\<close>

text \<open>
  The arguments every participant of one group sends: the group id is derived from the declared
  membership, so a join that reaches an existing group declares what its root records.
\<close>

definition args_wf :: "JoinArgs \<Rightarrow> bool" where
  "args_wf a \<longleftrightarrow> distinct (ja_trainer_slots a @ ja_generator_slots a)
     \<and> ja_expected_total a = length (ja_trainer_slots a) + length (ja_generator_slots a)"

definition same_declaration :: "JoinArgs \<Rightarrow> Group \<Rightarrow> bool" where
  "same_declaration a g \<longleftrightarrow> (case g_root g of None \<Rightarrow> True | Some r \<Rightarrow>
     gr_model_name r = ja_model_name a \<and> gr_expected_total r = ja_expected_total a
     \<and> set (gr_trainer_slots r) = set (ja_trainer_slots a)
     \<and> set (gr_generator_slots r) = set (ja_generator_slots a))"

text \<open>
  Any replica may run any script at any time; registrations come, change and lapse, idempotency
  reservations expire, and a group's root hash may be evicted.
\<close>

inductive cstep :: "CSys \<Rightarrow> CSys \<Rightarrow> bool" where
  join: "args_wf a \<Longrightarrow> same_declaration a (cs_group s (ja_group_id a)) \<Longrightarrow>
     join_group_lua (cs_regs s) a (cs_group s (ja_group_id a)) (cs_op s) = (out, g', ops') \<Longrightarrow>
     cstep s (s\<lparr>cs_group := (cs_group s)(ja_group_id a := g'), cs_op := ops'\<rparr>)"
| publish: "publish_bootstrap_lua (cs_regs s) ids lane e w nid leader (cs_group s gid) = (pout, g') \<Longrightarrow>
     cstep s (s\<lparr>cs_group := (cs_group s)(gid := g')\<rparr>)"
| refresh: "refresh_group_lua (cs_regs s) ids (cs_group s gid) (cs_op s) = (rout, g', ops') \<Longrightarrow>
     cstep s (s\<lparr>cs_group := (cs_group s)(gid := g'), cs_op := ops'\<rparr>)"
| create: "create_transfer_lua xa s = (cout, s') \<Longrightarrow> cstep s s'"
| report: "report_transfer_lua ids oid gid e w ok msg s = (repout, s') \<Longrightarrow> cstep s s'"
| delete: "cs_op s oid = Some o1 \<Longrightarrow> delete_transfer_lua oid ik (op_group_id o1) s = (dout, s') \<Longrightarrow>
     cstep s s'"
| registrations: "cstep s (s\<lparr>cs_regs := regs'\<rparr>)"
| reservation_expires: "cstep s (s\<lparr>cs_idem := (cs_idem s)(k := None)\<rparr>)"
| root_evicted: "cstep s (s\<lparr>cs_group := (cs_group s)(gid := (cs_group s gid)\<lparr>g_root := None\<rparr>)\<rparr>)"

definition empty_group :: Group where
  "empty_group = \<lparr>g_root = None, g_participants = [], g_digests = [], g_lanes = (\<lambda>_. None), g_ops = []\<rparr>"

definition csys_init :: CSys where
  "csys_init = \<lparr>cs_group = (\<lambda>_. empty_group), cs_op = (\<lambda>_. None), cs_reported = (\<lambda>_. []),
     cs_idem = (\<lambda>_. None), cs_regs = (\<lambda>_. None)\<rparr>"

inductive creachable :: "CSys \<Rightarrow> bool" where
  start: "creachable csys_init"
| step: "creachable s \<Longrightarrow> cstep s s' \<Longrightarrow> creachable s'"

subsection \<open>Aborting operations\<close>

definition aborted :: "Op \<Rightarrow> Op" where
  "aborted o1 = (if op_terminal o1 then o1
     else o1\<lparr>op_state := ABORTED,
             op_failure_message := ''group epoch advanced before the transfer completed''\<rparr>)"

lemma not_terminal: "\<not> op_terminal o1 \<longleftrightarrow> op_state o1 = PENDING \<or> op_state o1 = RUNNING"
  by (cases "op_state o1") (simp_all add: op_terminal_def)

lemma aborted_terminal [simp]: "op_terminal (aborted o1)"
  by (simp add: aborted_def op_terminal_def)

lemma aborted_same [simp]: "op_terminal o1 \<Longrightarrow> aborted o1 = o1"
  by (simp add: aborted_def)

lemma abort_op_get: "abort_op i ops j = (if j = i then map_option aborted (ops i) else ops j)"
proof (cases "ops i")
  case (Some o1)
  then show ?thesis using not_terminal [of o1] by (auto simp: abort_op_def aborted_def)
qed (simp add: abort_op_def)

lemma abort_stale_get:
  "abort_stale_ops ids ops j = (if j \<in> set ids then map_option aborted (ops j) else ops j)"
  unfolding abort_stale_ops_def
  by (induction ids arbitrary: ops) (auto simp: abort_op_get option.map_comp o_def)

lemma abort_stale_terminal:
  "ops i = Some o1 \<Longrightarrow> op_terminal o1 \<Longrightarrow> abort_stale_ops ids ops i = Some o1"
  by (simp add: abort_stale_get)

lemma abort_stale_open:
  "abort_stale_ops ids ops i = Some o1 \<Longrightarrow> \<not> op_terminal o1 \<Longrightarrow> ops i = Some o1 \<and> i \<notin> set ids"
  by (auto simp: abort_stale_get split: if_splits)

subsection \<open>What the scripts do to operations\<close>

text \<open>Join and refresh leave the operations alone, or abort all active ones and empty the set.\<close>

definition ops_effect :: "Group \<Rightarrow> op_store \<Rightarrow> Group \<Rightarrow> op_store \<Rightarrow> bool" where
  "ops_effect g ops g' ops' =
     ((ops' = ops \<and> g_ops g' = g_ops g) \<or> (ops' = abort_stale_ops (g_ops g) ops \<and> g_ops g' = []))"

lemma join_admit_ops: "join_admit regs a r ch g ops = (out, g', ops') \<Longrightarrow> ops_effect g ops g' ops'"
  by (auto simp: join_admit_def Let_def ops_effect_def)

lemma join_existing_ops: "join_existing regs a r g ops = (out, g', ops') \<Longrightarrow> ops_effect g ops g' ops'"
  by (auto simp: join_existing_def Let_def ops_effect_def split: prod.splits sum.splits option.splits
      dest!: join_admit_ops)

lemma join_ops: "join_group_lua regs a g ops = (out, g', ops') \<Longrightarrow> ops_effect g ops g' ops'"
  by (auto simp: join_group_lua_def Let_def ops_effect_def abort_stale_ops_def [of "[]"]
      split: if_splits option.splits dest!: join_admit_ops join_existing_ops)

lemma refresh_ops: "refresh_group_lua regs ids g ops = (out, g', ops') \<Longrightarrow> ops_effect g ops g' ops'"
  by (auto simp: refresh_group_lua_def Let_def ops_effect_def split: prod.splits option.splits)

lemma publish_ops: "publish_bootstrap_lua regs ids lane e w nid leader g = (out, g') \<Longrightarrow> g_ops g' = g_ops g"
  by (auto simp: publish_bootstrap_lua_def Let_def split: option.splits if_splits)

lemma find_busy_None:
  "find_busy e ids ops = None \<Longrightarrow> i \<in> set ids \<Longrightarrow> ops i = Some o1 \<Longrightarrow> \<not> op_terminal o1 \<Longrightarrow> op_epoch o1 \<noteq> e"
  by (induction e ids ops rule: find_busy.induct) (auto simp: not_terminal split: option.splits if_splits)

subsection \<open>One unfinished operation per epoch\<close>

definition ops_inv :: "CSys \<Rightarrow> bool" where
  "ops_inv s =
     ((\<forall>i o1. cs_op s i = Some o1 \<and> \<not> op_terminal o1 \<longrightarrow> i \<in> set (g_ops (cs_group s (op_group_id o1))))
      \<and> (\<forall>i j o1 o2. cs_op s i = Some o1 \<and> cs_op s j = Some o2 \<and> \<not> op_terminal o1 \<and> \<not> op_terminal o2
           \<and> op_group_id o1 = op_group_id o2 \<and> op_epoch o1 = op_epoch o2 \<longrightarrow> i = j))"

lemma ops_invD:
  assumes "ops_inv s" and "cs_op s i = Some o1" and "\<not> op_terminal o1"
  shows "i \<in> set (g_ops (cs_group s (op_group_id o1)))"
  using assms by (auto simp: ops_inv_def)

lemma ops_invU:
  assumes "ops_inv s" and "cs_op s i = Some o1" and "cs_op s j = Some o2"
    and "\<not> op_terminal o1" and "\<not> op_terminal o2"
    and "op_group_id o1 = op_group_id o2" and "op_epoch o1 = op_epoch o2"
  shows "i = j"
  using assms unfolding ops_inv_def by blast

lemma ops_inv_effect:
  assumes "ops_inv s" and "ops_effect (cs_group s gid) (cs_op s) g' ops'"
  shows "ops_inv (s\<lparr>cs_group := (cs_group s)(gid := g'), cs_op := ops'\<rparr>)"
proof -
  have open_same: "cs_op s i = Some o1
      \<and> (op_group_id o1 = gid \<longrightarrow> i \<in> set (g_ops g'))"
    if "ops' i = Some o1" "\<not> op_terminal o1" for i o1
    using that assms(2) abort_stale_open [of "g_ops (cs_group s gid)" "cs_op s" i o1]
      ops_invD [OF assms(1), of i o1]
    by (auto simp: ops_effect_def)
  show ?thesis
    unfolding ops_inv_def
    using open_same ops_invD [OF assms(1)] ops_invU [OF assms(1)] by auto
qed

lemma create_ops_inv:
  assumes "ops_inv s" and "create_transfer_lua xa s = (out, s')"
  shows "ops_inv s'"
proof (cases "out = CREATED")
  case False
  then have "cs_op s' = cs_op s \<and> cs_group s' = cs_group s"
    using assms(2) by (auto simp: create_transfer_lua_def Let_def split: option.splits if_splits)
  then show ?thesis using assms(1) by (simp add: ops_inv_def)
next
  case True
  let ?id = "xa_operation_id xa" and ?g = "xa_group_id xa"
  from True assms(2) obtain r where r: "g_root (cs_group s ?g) = Some r"
    and fresh: "cs_op s ?id = None"
    and idle: "find_busy (gr_epoch r) (g_ops (cs_group s ?g)) (cs_op s) = None"
    and s': "cs_op s' = (cs_op s)(?id \<mapsto> \<lparr>op_group_id = ?g, op_epoch = gr_epoch r,
          op_version_id = xa_version_id xa, op_model_name = xa_model_name xa,
          op_idempotency_key = xa_idempotency_key xa, op_state = PENDING,
          op_failure_message = [], op_created_at = xa_created_at xa\<rparr>)"
      "cs_group s' = (cs_group s)(?g := (cs_group s ?g)\<lparr>g_ops := List.insert ?id (g_ops (cs_group s ?g))\<rparr>)"
    by (auto simp: create_transfer_lua_def Let_def split: option.splits if_splits)
  have new: "op_epoch o1 \<noteq> gr_epoch r"
    if "cs_op s i = Some o1" "\<not> op_terminal o1" "op_group_id o1 = ?g" for i o1
    using find_busy_None [OF idle _ that(1,2)] ops_invD [OF assms(1) that(1,2)] that(3) by simp
  have old: "i \<in> set (g_ops (cs_group s' (op_group_id o1)))"
    if "cs_op s' i = Some o1" "\<not> op_terminal o1" for i o1
    using that ops_invD [OF assms(1), of i o1] by (auto simp: s' split: if_splits)
  have "i = j" if "cs_op s' i = Some o1" "cs_op s' j = Some o2" "\<not> op_terminal o1" "\<not> op_terminal o2"
    "op_group_id o1 = op_group_id o2" "op_epoch o1 = op_epoch o2" for i j o1 o2
    using that new [of i o1] new [of j o2] ops_invU [OF assms(1), of i o1 j o2]
    by (auto simp: s' split: if_splits)
  with old show ?thesis unfolding ops_inv_def by blast
qed

text \<open>What a report can do: nothing to the operations, finish its own, or keep it running.\<close>

lemma report_accepted:
  assumes "report_transfer_lua ids oid gid e w ok msg s = (out, s')" and "s' \<noteq> s"
  obtains o1 r where "cs_op s oid = Some o1" "\<not> op_terminal o1" "op_group_id o1 = gid" "op_epoch o1 = e"
    "g_root (cs_group s gid) = Some r" "gr_epoch r = e" "gr_state r = READY"
    "report_admitted (cs_regs s) e w (hm_values (g_participants (cs_group s gid))) False = Some True"
  using assms that
  by (simp add: report_transfer_lua_def Let_def split: option.splits if_splits bool.splits)

lemma report_outcome:
  assumes "cs_op s oid = Some o1" "\<not> op_terminal o1" "op_group_id o1 = gid" "op_epoch o1 = e"
    "g_root (cs_group s gid) = Some r" "gr_epoch r = e" "gr_state r = READY"
    "report_admitted (cs_regs s) e w (hm_values (g_participants (cs_group s gid))) False = Some True"
  shows "report_transfer_lua ids oid gid e w ok msg s =
    (let g = cs_group s gid; reported = List.insert w (cs_reported s oid);
         s1 = s\<lparr>cs_reported := (cs_reported s)(oid := reported)\<rparr>;
         inactive = removeAll oid (g_ops g)
     in if \<not> ok
        then (REP_OK FAILED,
              s1\<lparr>cs_op := (cs_op s)(oid \<mapsto> o1\<lparr>op_state := FAILED, op_failure_message := msg\<rparr>),
                 cs_group := (cs_group s)(gid :=
                   g\<lparr>g_root := Some (clear_plan_source (r\<lparr>gr_epoch := gr_epoch r + 1, gr_state := FORMING\<rparr>)),
                     g_lanes := del_lanes ids (g_lanes g), g_ops := inactive\<rparr>)\<rparr>)
        else if length reported = gr_expected_total r
        then (REP_OK COMPLETE,
              s1\<lparr>cs_op := (cs_op s)(oid \<mapsto> o1\<lparr>op_state := COMPLETE\<rparr>),
                 cs_group := (cs_group s)(gid := g\<lparr>g_ops := inactive\<rparr>)\<rparr>)
        else (REP_OK RUNNING, s1\<lparr>cs_op := (cs_op s)(oid \<mapsto> o1\<lparr>op_state := RUNNING\<rparr>)\<rparr>))"
  using assms by (simp add: report_transfer_lua_def Let_def)

lemma report_effect:
  assumes "report_transfer_lua ids oid gid e w ok msg s = (out, s')"
  shows "(cs_op s' = cs_op s \<and> cs_group s' = cs_group s) \<or>
    (\<exists>o1 o2. cs_op s oid = Some o1 \<and> \<not> op_terminal o1 \<and> op_group_id o1 = gid \<and> op_epoch o1 = e
       \<and> cs_op s' = (cs_op s)(oid \<mapsto> o2)
       \<and> op_group_id o2 = op_group_id o1 \<and> op_epoch o2 = op_epoch o1
       \<and> (if op_terminal o2
          then (\<exists>g'. cs_group s' = (cs_group s)(gid := g') \<and> g_ops g' = removeAll oid (g_ops (cs_group s gid)))
          else cs_group s' = cs_group s))"
proof (cases "s' = s")
  case False
  with assms obtain o1 r where acc: "cs_op s oid = Some o1" "\<not> op_terminal o1" "op_group_id o1 = gid"
    "op_epoch o1 = e" "g_root (cs_group s gid) = Some r" "gr_epoch r = e" "gr_state r = READY"
    "report_admitted (cs_regs s) e w (hm_values (g_participants (cs_group s gid))) False = Some True"
    by (rule report_accepted)
  note run = assms [unfolded report_outcome [OF acc] Let_def]
  consider (failed) "\<not> ok" | (complete) "ok" "length (List.insert w (cs_reported s oid)) = gr_expected_total r"
    | (running) "ok" "length (List.insert w (cs_reported s oid)) \<noteq> gr_expected_total r" by blast
  then show ?thesis
  proof cases
    case failed
    with run acc(1-4) show ?thesis
      by (intro disjI2 exI [of _ o1] exI [of _ "o1\<lparr>op_state := FAILED, op_failure_message := msg\<rparr>"])
        (auto simp: op_terminal_def)
  next
    case complete
    with run acc(1-4) show ?thesis
      by (intro disjI2 exI [of _ o1] exI [of _ "o1\<lparr>op_state := COMPLETE\<rparr>"]) (auto simp: op_terminal_def)
  next
    case running
    with run acc(1-4) show ?thesis
      by (intro disjI2 exI [of _ o1] exI [of _ "o1\<lparr>op_state := RUNNING\<rparr>"]) (auto simp: op_terminal_def)
  qed
qed simp

lemma report_ops_inv:
  assumes "ops_inv s" and "report_transfer_lua ids oid gid e w ok msg s = (out, s')"
  shows "ops_inv s'"
  using report_effect [OF assms(2)]
proof
  assume "cs_op s' = cs_op s \<and> cs_group s' = cs_group s"
  with assms(1) show ?thesis by (simp add: ops_inv_def)
next
  assume "\<exists>o1 o2. cs_op s oid = Some o1 \<and> \<not> op_terminal o1 \<and> op_group_id o1 = gid \<and> op_epoch o1 = e
       \<and> cs_op s' = (cs_op s)(oid \<mapsto> o2)
       \<and> op_group_id o2 = op_group_id o1 \<and> op_epoch o2 = op_epoch o1
       \<and> (if op_terminal o2
          then (\<exists>g'. cs_group s' = (cs_group s)(gid := g') \<and> g_ops g' = removeAll oid (g_ops (cs_group s gid)))
          else cs_group s' = cs_group s)"
  then obtain o1 o2 where o1: "cs_op s oid = Some o1" "\<not> op_terminal o1" "op_group_id o1 = gid"
    and s': "cs_op s' = (cs_op s)(oid \<mapsto> o2)"
    and o2: "op_group_id o2 = op_group_id o1" "op_epoch o2 = op_epoch o1"
    and g: "if op_terminal o2
          then (\<exists>g'. cs_group s' = (cs_group s)(gid := g') \<and> g_ops g' = removeAll oid (g_ops (cs_group s gid)))
          else cs_group s' = cs_group s"
    by blast
  have old: "\<exists>p. cs_op s i = Some p \<and> \<not> op_terminal p \<and> op_group_id p = op_group_id q \<and> op_epoch p = op_epoch q"
    if "cs_op s' i = Some q" "\<not> op_terminal q" for i q
    using that o1 o2 by (cases "i = oid") (auto simp: s')
  have "i \<in> set (g_ops (cs_group s' (op_group_id q)))"
    if "cs_op s' i = Some q" "\<not> op_terminal q" for i q
  proof -
    have "i \<noteq> oid \<or> \<not> op_terminal o2" using that by (auto simp: s')
    then show ?thesis
      using old [OF that] ops_invD [OF assms(1)] g by (fastforce split: if_splits)
  qed
  moreover have "i = j" if "cs_op s' i = Some p" "cs_op s' j = Some q" "\<not> op_terminal p" "\<not> op_terminal q"
    "op_group_id p = op_group_id q" "op_epoch p = op_epoch q" for i j p q
    using old [OF that(1,3)] old [OF that(2,4)] ops_invU [OF assms(1)] that(5,6) by metis
  ultimately show ?thesis unfolding ops_inv_def by blast
qed

lemma delete_ops_inv:
  assumes "ops_inv s" and "delete_transfer_lua oid ik gid s = (out, s')"
  shows "ops_inv s'"
  using assms(2) ops_invD [OF assms(1)] ops_invU [OF assms(1)]
  by (auto simp: delete_transfer_lua_def Let_def ops_inv_def assms(1)
      split: option.splits if_splits)

subsection \<open>Every step\<close>

lemma publish_frame: "publish_bootstrap_lua regs ids lane e w nid leader g = (out, g') \<Longrightarrow> ops_effect g ops g' ops"
  by (simp add: ops_effect_def publish_ops)

lemma cstep_ops_inv: "cstep s s' \<Longrightarrow> ops_inv s \<Longrightarrow> ops_inv s'"
proof (induction rule: cstep.induct)
  case join then show ?case by (blast intro: ops_inv_effect join_ops)
next
  case (publish s ids lane e w nid leader gid pout g')
  with ops_inv_effect [OF publish(2) publish_frame [OF publish(1)]] show ?case by simp
next
  case refresh then show ?case by (blast intro: ops_inv_effect refresh_ops)
next
  case create then show ?case by (blast intro: create_ops_inv)
next
  case report then show ?case by (blast intro: report_ops_inv)
next
  case delete then show ?case by (blast intro: delete_ops_inv)
qed (auto simp: ops_inv_def)

lemma creachable_ops_inv: "creachable s \<Longrightarrow> ops_inv s"
proof (induction rule: creachable.induct)
  case start then show ?case by (simp add: ops_inv_def csys_init_def)
qed (rule cstep_ops_inv)

text \<open>An operation that reached a terminal state stays as it is until it is deleted.\<close>

lemma ops_effect_terminal:
  "ops_effect g ops g' ops' \<Longrightarrow> ops i = Some o1 \<Longrightarrow> op_terminal o1 \<Longrightarrow> ops' i = Some o1"
  by (auto simp: ops_effect_def abort_stale_terminal)

lemma cstep_terminal:
  "cstep s s' \<Longrightarrow> cs_op s i = Some o1 \<Longrightarrow> op_terminal o1 \<Longrightarrow> cs_op s' i = Some o1 \<or> cs_op s' i = None"
proof (induction rule: cstep.induct)
  case join then show ?case by (auto dest!: join_ops ops_effect_terminal)
next
  case refresh then show ?case by (auto dest!: refresh_ops ops_effect_terminal)
next
  case create then show ?case by (auto simp: create_transfer_lua_def Let_def split: option.splits if_splits)
next
  case report then show ?case by (auto dest!: report_effect split: if_splits)
next
  case delete then show ?case by (auto simp: delete_transfer_lua_def Let_def split: option.splits if_splits)
qed simp_all

end
