(* ===== verification/Collective_Cohort.thy ===== *)
theory Collective_Cohort
  imports Collective_Group
begin

text \<open>
  What the group scripts promise their callers. \<open>gcall\<close> collects the calls a group can
  receive with the epoch and state they answer; over it stand the invariant of the admitted
  cohort, the meaning of a READY answer, the monotone epoch and the fence that a changed
  membership puts between communicators. The last section evaluates the one sequence of calls
  that gets around that fence.
\<close>

subsection \<open>The sweep\<close>

fun expired :: "registry \<Rightarrow> string \<Rightarrow> prec \<Rightarrow> bool" where
  "expired regs model PMalformed = True"
| "expired regs model (PRec w role idx joined) = (\<not> registration_matches regs w role model)"

definition same_root :: "GroupRoot \<Rightarrow> GroupRoot \<Rightarrow> bool" where
  "same_root r r' \<longleftrightarrow> clear_plan_source r' = clear_plan_source r"

lemma clear_plan_source_sel [simp]:
  "gr_epoch (clear_plan_source r) = gr_epoch r" "gr_state (clear_plan_source r) = gr_state r"
  "gr_plan_digest (clear_plan_source r) = gr_plan_digest r"
  "gr_expected_total (clear_plan_source r) = gr_expected_total r"
  "gr_model_name (clear_plan_source r) = gr_model_name r"
  "gr_trainer_slots (clear_plan_source r) = gr_trainer_slots r"
  "gr_generator_slots (clear_plan_source r) = gr_generator_slots r"
  "gr_ps_worker (clear_plan_source r) = []"
  "clear_plan_source (clear_plan_source r) = clear_plan_source r"
  by (simp_all add: clear_plan_source_def)

lemma same_root_intros [simp]: "same_root r r" "same_root r (clear_plan_source r') \<longleftrightarrow> same_root r r'"
  by (simp_all add: same_root_def)

lemma same_rootD:
  assumes "same_root r r'"
  shows "gr_epoch r' = gr_epoch r" "gr_state r' = gr_state r" "gr_plan_digest r' = gr_plan_digest r"
    "gr_expected_total r' = gr_expected_total r" "gr_model_name r' = gr_model_name r"
    "gr_trainer_slots r' = gr_trainer_slots r" "gr_generator_slots r' = gr_generator_slots r"
  using assms unfolding same_root_def by (metis clear_plan_source_sel)+

definition dead_slots :: "registry \<Rightarrow> string \<Rightarrow> (string \<times> prec) list \<Rightarrow> string set" where
  "dead_slots regs model ps = fst ` {x \<in> set ps. expired regs model (snd x)}"

lemma dead_slots_simps [simp]:
  "dead_slots regs model [] = {}"
  "dead_slots regs model ((k, v) # ps) =
     (if expired regs model v then insert k (dead_slots regs model ps) else dead_slots regs model ps)"
  by (force simp: dead_slots_def)+

text \<open>The sweep removes exactly the expired slots, and reports a change when it may matter.\<close>

lemma sweep_expired_spec:
  assumes "sweep_expired regs model bump snap (r, ps, ds, ch) = (r', ps', ds', ch')"
  shows "same_root r0 r \<Longrightarrow> same_root r0 r'"
    and "hm_ok ps \<Longrightarrow> hm_ok ps'" and "hm_ok ds \<Longrightarrow> hm_ok ds'"
    and "hm_get ps' k = (if k \<in> dead_slots regs model snap then None else hm_get ps k)"
    and "hm_get ds' k = (if k \<in> dead_slots regs model snap then None else hm_get ds k)"
    and "ch' \<longleftrightarrow> ch \<or> bump \<and> dead_slots regs model snap \<noteq> {}"
  using assms
proof (induction snap arbitrary: r ps ds ch)
  case (Cons x snap)
  obtain k v where x: "x = (k, v)" by (cases x)
  {
    case 1 then show ?case by (cases v) (auto simp: x split: if_splits dest: Cons.IH(1) [rotated])
  next
    case 2 then show ?case by (cases v) (auto simp: x hm_simps split: if_splits dest: Cons.IH(2) [rotated])
  next
    case 3 then show ?case by (cases v) (auto simp: x hm_simps split: if_splits dest: Cons.IH(3) [rotated])
  next
    case 4 then show ?case by (cases v) (auto simp: x hm_simps split: if_splits dest: Cons.IH(4))
  next
    case 5 then show ?case by (cases v) (auto simp: x hm_simps split: if_splits dest: Cons.IH(5))
  next
    case 6 then show ?case by (cases v) (auto simp: x split: if_splits dest: Cons.IH(6))
  }
qed auto

lemma hm_get_in: "hm_get m k = Some v \<Longrightarrow> (k, v) \<in> set m"
  by (simp add: hm_get_def map_of_SomeD)

lemma hm_in_get: "hm_ok m \<Longrightarrow> (k, v) \<in> set m \<Longrightarrow> hm_get m k = Some v"
  by (simp add: hm_get_def hm_ok_def)

lemma sweep_live:
  assumes "sweep_expired regs model bump ps (r, ps, ds, ch) = (r', ps', ds', ch')"
    and "hm_get ps' k = Some v"
  shows "hm_get ps k = Some v" and "\<not> expired regs model v"
proof -
  from assms(2) have k: "k \<notin> dead_slots regs model ps" "hm_get ps k = Some v"
    by (simp_all add: sweep_expired_spec(4) [OF assms(1)] split: if_splits)
  then show "hm_get ps k = Some v" by simp
  from k(2) have "(k, v) \<in> set ps" by (rule hm_get_in)
  with k(1) show "\<not> expired regs model v" by (force simp: dead_slots_def)
qed

subsection \<open>Calls on a group\<close>

inductive gcall :: "registry \<Rightarrow> u32 list \<Rightarrow> Group \<Rightarrow> op_store \<Rightarrow> (nat \<times> GState) option \<Rightarrow> Group \<Rightarrow> op_store \<Rightarrow> bool"
  for regs ids g ops where
  joined: "args_wf a \<Longrightarrow> same_declaration a g \<Longrightarrow> ja_lane_ids a = ids \<Longrightarrow>
     join_group_lua regs a g ops = (JOIN_OK e st, g', ops') \<Longrightarrow> gcall regs ids g ops (Some (e, st)) g' ops'"
| refused: "args_wf a \<Longrightarrow> same_declaration a g \<Longrightarrow> ja_lane_ids a = ids \<Longrightarrow>
     join_group_lua regs a g ops = (out, g', ops') \<Longrightarrow> (\<And>e st. out \<noteq> JOIN_OK e st) \<Longrightarrow>
     gcall regs ids g ops None g' ops'"
| published: "publish_bootstrap_lua regs ids lane ep w nid leader g = (PUB_OK e st, g') \<Longrightarrow>
     gcall regs ids g ops (Some (e, st)) g' ops"
| refreshed: "refresh_group_lua regs ids g ops = (REF_OK e st, g', ops') \<Longrightarrow>
     gcall regs ids g ops (Some (e, st)) g' ops'"

text \<open>The invariant of the cohort: distinct slots of the declaration, one rank and one worker each.\<close>

fun prec_ok :: "GroupRoot \<Rightarrow> string \<Rightarrow> prec \<Rightarrow> bool" where
  "prec_ok r slot PMalformed = False"
| "prec_ok r slot (PRec w role idx joined) =
     (slot \<in> set (if role = TRAINER then gr_trainer_slots r else gr_generator_slots r))"

fun clash :: "prec \<Rightarrow> prec \<Rightarrow> bool" where
  "clash (PRec w role idx joined) (PRec w' role' idx' joined') = (w = w' \<or> role = role' \<and> idx = idx')"
| "clash _ _ = False"

definition cohort_inv :: "Group \<Rightarrow> bool" where
  "cohort_inv g \<longleftrightarrow> (case g_root g of None \<Rightarrow> True | Some r \<Rightarrow>
     distinct (gr_trainer_slots r @ gr_generator_slots r)
     \<and> gr_expected_total r = length (gr_trainer_slots r) + length (gr_generator_slots r)
     \<and> hm_ok (g_participants g) \<and> hm_ok (g_digests g)
     \<and> dom (hm_get (g_digests g)) = dom (hm_get (g_participants g))
     \<and> (\<forall>k v. hm_get (g_participants g) k = Some v \<longrightarrow> prec_ok r k v)
     \<and> (\<forall>k v k' v'. hm_get (g_participants g) k = Some v \<and> hm_get (g_participants g) k' = Some v'
          \<and> clash v v' \<longrightarrow> k = k'))"

subsection \<open>The invariant is kept\<close>

text \<open>The members of a group, apart from its root: what the invariant is about.\<close>

definition members_inv :: "GroupRoot \<Rightarrow> participants \<Rightarrow> digests \<Rightarrow> bool" where
  "members_inv r ps ds \<longleftrightarrow>
     hm_ok ps \<and> hm_ok ds \<and> dom (hm_get ds) = dom (hm_get ps)
     \<and> (\<forall>k v. hm_get ps k = Some v \<longrightarrow> prec_ok r k v)
     \<and> (\<forall>k v k' v'. hm_get ps k = Some v \<and> hm_get ps k' = Some v' \<and> clash v v' \<longrightarrow> k = k')"

definition decl_wf :: "GroupRoot \<Rightarrow> bool" where
  "decl_wf r \<longleftrightarrow> distinct (gr_trainer_slots r @ gr_generator_slots r)
     \<and> gr_expected_total r = length (gr_trainer_slots r) + length (gr_generator_slots r)"

lemma cohort_inv_iff:
  "cohort_inv g \<longleftrightarrow> (\<forall>r. g_root g = Some r \<longrightarrow> decl_wf r \<and> members_inv r (g_participants g) (g_digests g))"
  by (auto simp: cohort_inv_def members_inv_def decl_wf_def split: option.splits)

lemma prec_ok_cong:
  "set (gr_trainer_slots r) = set (gr_trainer_slots r') \<Longrightarrow> set (gr_generator_slots r) = set (gr_generator_slots r')
   \<Longrightarrow> prec_ok r k v = prec_ok r' k v"
  by (cases v) auto

lemma members_inv_cong:
  assumes "gr_trainer_slots r = gr_trainer_slots r'" "gr_generator_slots r = gr_generator_slots r'"
  shows "members_inv r ps ds = members_inv r' ps ds"
  using prec_ok_cong [of r r'] assms by (simp add: members_inv_def)

lemma members_sweep:
  assumes "members_inv r ps ds" and "sweep_expired regs model bump ps (r, ps, ds, ch) = (r', ps', ds', ch')"
  shows "members_inv r' ps' ds'"
proof -
  note s = sweep_expired_spec [OF assms(2)]
  have "same_root r r'" by (rule s(1)) simp
  note r' = same_rootD(6,7) [OF this]
  have "members_inv r ps' ds'"
    using assms(1) s(2,3) unfolding members_inv_def s(4,5) by (auto simp: dom_def set_eq_iff)
  with members_inv_cong [of r r'] r' show ?thesis by simp
qed

lemma check_duplicates_None:
  assumes "check_duplicates a ps = None" and "(k, v) \<in> set ps" and "k \<noteq> ja_slot_id a"
  obtains w role idx j where "v = PRec w role idx j" "w \<noteq> ja_worker_id a"
    "\<not> (role = ja_role a \<and> idx = ja_index a)"
  using assms by (induction a ps rule: check_duplicates.induct) (auto split: if_splits prec.splits)

lemma members_insert:
  assumes "members_inv r ps ds" and "check_duplicates a ps = None"
    and "ja_slot_id a \<in> set (if ja_role a = TRAINER then gr_trainer_slots r else gr_generator_slots r)"
  shows "members_inv r (hm_insert (ja_slot_id a) (PRec (ja_worker_id a) (ja_role a) (ja_index a) e) ps)
           (hm_insert (ja_slot_id a) d ds)"
proof -
  have new: "\<not> clash v (PRec (ja_worker_id a) (ja_role a) (ja_index a) e)"
    "\<not> clash (PRec (ja_worker_id a) (ja_role a) (ja_index a) e) v"
    if "hm_get ps k = Some v" "k \<noteq> ja_slot_id a" for k v
    using check_duplicates_None [OF assms(2) hm_get_in [OF that(1)] that(2)] by (metis clash.simps(1))+
  show ?thesis
    using assms(1,3) new unfolding members_inv_def by (auto simp: hm_simps dom_def set_eq_iff split: if_splits)
qed

subsection \<open>The calls taken apart\<close>

lemma join_ok_cases:
  assumes "join_group_lua regs a g ops = (JOIN_OK e st, g', ops')"
  obtains
    (fresh) "g_root g = None"
      "join_admit regs a (new_root a) False
         \<lparr>g_root = Some (new_root a), g_participants = [], g_digests = [],
           g_lanes = del_lanes (ja_lane_ids a) (g_lanes g), g_ops = []\<rparr>
         (abort_stale_ops (g_ops g) ops) = (JOIN_OK e st, g', ops')"
      "ja_slot_id a \<in> set (if ja_role a = TRAINER then ja_trainer_slots a else ja_generator_slots a)"
  | (existing) r0 r ps ds swept r' replaced where "g_root g = Some r0"
      "sweep_expired regs (ja_model_name a) (needs_epoch_bump r0 (g_lanes g) (ja_lane_ids a) (gr_epoch r0))
         (g_participants g) (r0, g_participants g, g_digests g, False) = (r, ps, ds, swept)"
      "check_existing a (needs_epoch_bump r0 (g_lanes g) (ja_lane_ids a) (gr_epoch r0)) r ps = Inr (r', replaced)"
      "check_duplicates a ps = None"
      "join_admit regs a r' (swept \<or> replaced \<or> gr_plan_digest r' \<noteq> ja_plan_digest a)
         (g\<lparr>g_participants := ps, g_digests := ds, g_root := Some r'\<rparr>) ops = (JOIN_OK e st, g', ops')"
      "ja_slot_id a \<in> set (if ja_role a = TRAINER then ja_trainer_slots a else ja_generator_slots a)"
proof (cases "g_root g")
  case None
  with assms fresh show ?thesis by (auto simp: join_group_lua_def Let_def split: if_splits)
next
  case (Some r0)
  let ?bump = "needs_epoch_bump r0 (g_lanes g) (ja_lane_ids a) (gr_epoch r0)"
  obtain r ps ds swept where sw: "sweep_expired regs (ja_model_name a) ?bump (g_participants g)
      (r0, g_participants g, g_digests g, False) = (r, ps, ds, swept)" by (metis prod_cases4)
  have refusal: "x \<noteq> JOIN_OK e st" if "check_existing a ?bump r ps = Inl x" for x
    using that by (auto simp: check_existing_def split: option.splits prec.splits if_splits)
  have dup: "x \<noteq> JOIN_OK e st" if "check_duplicates a ps = Some x" for x
    using that by (induction a ps rule: check_duplicates.induct) (auto split: if_splits prec.splits)
  from assms Some sw refusal dup obtain r' replaced where
    "check_existing a ?bump r ps = Inr (r', replaced)" "check_duplicates a ps = None"
    "join_admit regs a r' (swept \<or> replaced \<or> gr_plan_digest r' \<noteq> ja_plan_digest a)
       (g\<lparr>g_participants := ps, g_digests := ds, g_root := Some r'\<rparr>) ops = (JOIN_OK e st, g', ops')"
    "ja_slot_id a \<in> set (if ja_role a = TRAINER then ja_trainer_slots a else ja_generator_slots a)"
    by (auto simp: join_group_lua_def join_existing_def Let_def split: if_splits sum.splits option.splits prod.splits)
  then show ?thesis by (rule existing [OF Some sw])
qed

lemma check_existing_root:
  "check_existing a bump r ps = Inr (r', replaced) \<Longrightarrow> same_root r r'"
  by (auto simp: check_existing_def split: option.splits prec.splits if_splits)

lemma evaluate_readiness_state [simp]:
  "evaluate_readiness regs (r\<lparr>gr_state := st\<rparr>) = evaluate_readiness regs r"
  by (intro ext) (simp add: evaluate_readiness_def)

lemma join_admit_result:
  assumes "join_admit regs a r ch g ops = (JOIN_OK e st, g', ops')"
  shows "e = (if ch then gr_epoch r + 1 else gr_epoch r)"
    and "\<exists>r'. g_root g' = Some r' \<and> gr_epoch r' = e \<and> gr_state r' = st
      \<and> gr_trainer_slots r' = gr_trainer_slots r \<and> gr_generator_slots r' = gr_generator_slots r
      \<and> gr_expected_total r' = gr_expected_total r \<and> gr_model_name r' = gr_model_name r
      \<and> (st = READY \<longrightarrow> evaluate_readiness regs r' (g_participants g') (g_digests g') (g_lanes g')
           (ja_lane_ids a) (ja_expected_total a) e (Some (ja_model_name a)))"
    and "g_participants g' = hm_insert (ja_slot_id a) (PRec (ja_worker_id a) (ja_role a) (ja_index a) e) (g_participants g)"
    and "g_digests g' = hm_insert (ja_slot_id a) (ja_plan_digest a) (g_digests g)"
    and "g_lanes g' = (if ch then del_lanes (ja_lane_ids a) (g_lanes g) else g_lanes g)"
    and "ch \<Longrightarrow> ops' = abort_stale_ops (g_ops g) ops \<and> g_ops g' = []"
  using assms by (cases ch; auto simp: join_admit_def Let_def)+

lemma evaluate_readiness_iff:
  "evaluate_readiness regs r ps ds lanes ids n e model \<longleftrightarrow>
     length ps = n \<and> list_all (participant_current regs e model) (hm_values ps)
     \<and> (\<forall>i\<in>set ids. \<exists>h. lanes i = Some h \<and> lh_bootstrap_epoch h = e)
     \<and> length ds = n \<and> (\<forall>d\<in>set (hm_values ds). d = gr_plan_digest r)"
  by (auto simp: evaluate_readiness_def list_all_iff split: option.splits)

lemma new_root_sel [simp]:
  "gr_epoch (new_root a) = 1" "gr_trainer_slots (new_root a) = ja_trainer_slots a"
  "gr_generator_slots (new_root a) = ja_generator_slots a" "gr_model_name (new_root a) = ja_model_name a"
  "gr_expected_total (new_root a) = ja_expected_total a"
  by (simp_all add: new_root_def)

lemma refresh_ok_cases:
  assumes "refresh_group_lua regs ids g ops = (REF_OK e st, g', ops')"
  obtains r0 r ps ds ch r' where "g_root g = Some r0"
    "sweep_expired regs (gr_model_name r0) (needs_epoch_bump r0 (g_lanes g) ids (gr_epoch r0))
       (g_participants g) (r0, g_participants g, g_digests g, False) = (r, ps, ds, ch)"
    "e = (if ch then gr_epoch r + 1 else gr_epoch r)"
    "g_root g' = Some r'" "gr_epoch r' = e" "gr_state r' = st"
    "gr_trainer_slots r' = gr_trainer_slots r" "gr_generator_slots r' = gr_generator_slots r"
    "gr_expected_total r' = gr_expected_total r" "gr_model_name r' = gr_model_name r"
    "g_participants g' = ps" "g_digests g' = ds"
    "g_lanes g' = (if ch then del_lanes ids (g_lanes g) else g_lanes g)"
    "ch \<Longrightarrow> ops' = abort_stale_ops (g_ops g) ops \<and> g_ops g' = []"
    "st = READY \<Longrightarrow> evaluate_readiness regs r' ps ds (g_lanes g') ids (gr_expected_total r') e None"
proof (cases "g_root g")
  case (Some r0)
  obtain r ps ds ch where sw: "sweep_expired regs (gr_model_name r0)
      (needs_epoch_bump r0 (g_lanes g) ids (gr_epoch r0)) (g_participants g)
      (r0, g_participants g, g_digests g, False) = (r, ps, ds, ch)" by (metis prod_cases4)
  note eq = assms [unfolded refresh_group_lua_def Let_def Some sw option.case prod.case prod.inject RefreshOut.inject]
  show ?thesis
    by (rule that [where r' = "the (g_root g')", OF Some sw]; insert eq; cases ch; auto split: if_splits)
qed (use assms in \<open>simp add: refresh_group_lua_def\<close>)

lemma publish_ok_cases:
  assumes "publish_bootstrap_lua regs ids lane ep w nid leader g = (PUB_OK e st, g')"
  obtains r where "g_root g = Some r" "e = gr_epoch r" "ep = e" "g_root g' = Some (r\<lparr>gr_state := st\<rparr>)"
    "g_participants g' = g_participants g" "g_digests g' = g_digests g" "g_ops g' = g_ops g"
    "g_lanes g' lane = Some \<lparr>lh_nccl_unique_id = nid, lh_bootstrap_epoch = e, lh_published_by = w\<rparr>"
    "\<And>i. i \<noteq> lane \<Longrightarrow> g_lanes g' i = g_lanes g i"
    "\<exists>role idx. hm_get (g_participants g) leader = Some (PRec w role idx e) \<and> registration_matches regs w role (gr_model_name r)"
    "st = READY \<Longrightarrow> evaluate_readiness regs r (g_participants g) (g_digests g) (g_lanes g') ids
       (gr_expected_total r) e (Some (gr_model_name r))"
proof (cases "g_root g")
  case (Some r)
  show ?thesis
    by (rule that [OF Some], insert assms Some)
      (auto simp: publish_bootstrap_lua_def Let_def split: if_splits option.splits prec.splits)
qed (use assms in \<open>simp add: publish_bootstrap_lua_def\<close>)

subsection \<open>What READY means\<close>

definition cohort_ready :: "registry \<Rightarrow> u32 list \<Rightarrow> nat \<Rightarrow> Group \<Rightarrow> bool" where
  "cohort_ready regs ids e g \<longleftrightarrow> (\<exists>r. g_root g = Some r \<and> gr_state r = READY \<and> gr_epoch r = e
     \<and> dom (hm_get (g_participants g)) = set (gr_trainer_slots r) \<union> set (gr_generator_slots r)
     \<and> (\<forall>k v. hm_get (g_participants g) k = Some v \<longrightarrow>
          (\<exists>w role idx. v = PRec w role idx e \<and> registration_matches regs w role (gr_model_name r)
             \<and> hm_get (g_digests g) k = Some (gr_plan_digest r)))
     \<and> (\<forall>i\<in>set ids. \<exists>h. g_lanes g i = Some h \<and> lh_bootstrap_epoch h = e))"

lemma hm_length_card: "hm_ok m \<Longrightarrow> length m = card (dom (hm_get m))"
  unfolding hm_ok_def hm_get_def dom_map_of_conv_image_fst
  by (metis distinct_card length_map list.set_map)

lemma ready_cohort:
  assumes "decl_wf r" "members_inv r (g_participants g) (g_digests g)" "g_root g = Some r" "gr_state r = READY"
    and "evaluate_readiness regs r (g_participants g) (g_digests g) (g_lanes g) ids (gr_expected_total r) (gr_epoch r) model"
    and "\<And>k v. hm_get (g_participants g) k = Some v \<Longrightarrow> model = None \<Longrightarrow> \<not> expired regs (gr_model_name r) v"
    and "model = None \<or> model = Some (gr_model_name r)"
  shows "cohort_ready regs ids (gr_epoch r) g"
proof -
  let ?ps = "g_participants g" and ?ds = "g_digests g" and ?S = "set (gr_trainer_slots r @ gr_generator_slots r)"
  note m = assms(2) [unfolded members_inv_def] and ev = assms(5) [unfolded evaluate_readiness_iff]
  have sub: "dom (hm_get ?ps) \<subseteq> ?S"
  proof
    fix k assume "k \<in> dom (hm_get ?ps)"
    then obtain v where v: "hm_get ?ps k = Some v" by auto
    with m have "prec_ok r k v" by blast
    then show "k \<in> ?S" by (cases v) (auto split: if_splits)
  qed
  have "card (dom (hm_get ?ps)) = card ?S"
    using m ev assms(1) hm_length_card [of ?ps] distinct_card [of "gr_trainer_slots r @ gr_generator_slots r"]
    by (simp add: decl_wf_def del: set_append)
  then have slots: "dom (hm_get ?ps) = ?S" using sub by (simp add: card_subset_eq)
  have "\<exists>w role idx. v = PRec w role idx (gr_epoch r) \<and> registration_matches regs w role (gr_model_name r)
      \<and> hm_get ?ds k = Some (gr_plan_digest r)" if v: "hm_get ?ps k = Some v" for k v
  proof -
    from v m have "v \<in> set (hm_values ?ps)" by (auto simp: hm.vals_get)
    with ev have cur: "participant_current regs (gr_epoch r) model v" by (simp add: list_all_iff)
    from v m obtain d where d: "hm_get ?ds k = Some d" by blast
    then have "d \<in> set (hm_values ?ds)" using m by (auto simp: hm.vals_get)
    with ev d cur assms(6) [OF v] assms(7) show ?thesis by (cases v) auto
  qed
  with slots assms(3,4) ev show ?thesis by (auto simp: cohort_ready_def)
qed

lemma join_keeps:
  assumes "cohort_inv g" "args_wf a" "same_declaration a g" "ja_lane_ids a = ids"
    and "join_group_lua regs a g ops = (JOIN_OK e st, g', ops')"
  shows "cohort_inv g'" and "st = READY \<Longrightarrow> cohort_ready regs ids e g'"
proof -
  have main: "cohort_inv g' \<and> (st = READY \<longrightarrow> cohort_ready regs ids e g')"
    if adm: "join_admit regs a r ch h ops1 = (JOIN_OK e st, g', ops')"
      and wf: "decl_wf r" and mem: "members_inv r (g_participants h) (g_digests h)"
      and dup: "check_duplicates a (g_participants h) = None"
      and slot: "ja_slot_id a \<in> set (if ja_role a = TRAINER then gr_trainer_slots r else gr_generator_slots r)"
      and decl: "gr_model_name r = ja_model_name a" "gr_expected_total r = ja_expected_total a"
    for r ch h ops1
  proof -
    from join_admit_result(2) [OF adm] obtain r' where r': "g_root g' = Some r'" "gr_epoch r' = e" "gr_state r' = st"
      "gr_trainer_slots r' = gr_trainer_slots r" "gr_generator_slots r' = gr_generator_slots r"
      "gr_expected_total r' = gr_expected_total r" "gr_model_name r' = gr_model_name r"
      "st = READY \<longrightarrow> evaluate_readiness regs r' (g_participants g') (g_digests g') (g_lanes g')
         (ja_lane_ids a) (ja_expected_total a) e (Some (ja_model_name a))" by blast
    have wf': "decl_wf r'" using wf by (simp add: decl_wf_def r')
    have mem': "members_inv r' (g_participants g') (g_digests g')"
      using members_insert [OF mem dup slot] members_inv_cong [of r' r] r'
      by (simp add: join_admit_result(3,4) [OF adm])
    have "cohort_ready regs ids e g'" if "st = READY"
      using ready_cohort [OF wf' mem' r'(1), of regs ids "Some (gr_model_name r')"] r' that decl assms(4) by simp
    with wf' mem' r'(1) show ?thesis by (simp add: cohort_inv_iff)
  qed
  from assms(5) have "cohort_inv g' \<and> (st = READY \<longrightarrow> cohort_ready regs ids e g')"
  proof (cases rule: join_ok_cases)
    case fresh
    show ?thesis
      by (rule main [OF fresh(2)])
        (use fresh(3) assms(2) in \<open>auto simp: decl_wf_def args_wf_def members_inv_def dom_def split: if_splits\<close>)
  next
    case (existing r0 r ps ds swept r' replaced)
    have r': "same_root r0 r'"
      using sweep_expired_spec(1) [OF existing(2), of r0] check_existing_root [OF existing(3)]
      by (simp add: same_root_def)
    from assms(1) existing(1) have inv: "decl_wf r0" "members_inv r0 (g_participants g) (g_digests g)"
      by (auto simp: cohort_inv_iff)
    have "members_inv r' ps ds"
      using members_sweep [OF inv(2) existing(2)] members_inv_cong [of r r']
        same_rootD(6,7) [OF check_existing_root [OF existing(3)]] by simp
    then show ?thesis
      by (intro main [OF existing(5)])
        (use existing(1,4,6) inv(1) assms(3) same_rootD [OF r'] in
          \<open>simp_all add: decl_wf_def same_declaration_def split: if_splits\<close>)
  qed
  then show "cohort_inv g'" and "st = READY \<Longrightarrow> cohort_ready regs ids e g'" by simp_all
qed

lemma refresh_keeps:
  assumes "cohort_inv g" "refresh_group_lua regs ids g ops = (REF_OK e st, g', ops')"
  shows "cohort_inv g'" and "st = READY \<Longrightarrow> cohort_ready regs ids e g'"
proof -
  from assms(2) have "cohort_inv g' \<and> (st = READY \<longrightarrow> cohort_ready regs ids e g')"
  proof (cases rule: refresh_ok_cases)
    case (1 r0 r ps ds ch r')
    have r: "same_root r0 r" using sweep_expired_spec(1) [OF 1(2), of r0] by simp
    from assms(1) 1(1) have inv: "decl_wf r0" "members_inv r0 (g_participants g) (g_digests g)"
      by (auto simp: cohort_inv_iff)
    have mem: "members_inv r' ps ds"
      using members_sweep [OF inv(2) 1(2)] members_inv_cong [of r r'] 1(7,8) by simp
    have wf: "decl_wf r'" using inv(1) 1(7,8,9) same_rootD [OF r] by (simp add: decl_wf_def)
    have live: "\<not> expired regs (gr_model_name r') v" if "hm_get ps k = Some v" for k v
      using sweep_live(2) [OF 1(2) that] 1(10) same_rootD(5) [OF r] by simp
    have "cohort_ready regs ids e g'" if "st = READY"
      using ready_cohort [of r' g' regs ids None] wf mem 1 live that by simp
    with wf mem 1(4,11,12) show ?thesis by (simp add: cohort_inv_iff)
  qed
  then show "cohort_inv g'" and "st = READY \<Longrightarrow> cohort_ready regs ids e g'" by simp_all
qed

lemma publish_keeps:
  assumes "cohort_inv g" "publish_bootstrap_lua regs ids lane ep w nid leader g = (PUB_OK e st, g')"
  shows "cohort_inv g'" and "st = READY \<Longrightarrow> cohort_ready regs ids e g'"
proof -
  from assms(2) have "cohort_inv g' \<and> (st = READY \<longrightarrow> cohort_ready regs ids e g')"
  proof (cases rule: publish_ok_cases)
    case (1 r)
    let ?r = "r\<lparr>gr_state := st\<rparr>"
    from assms(1) 1(1) have inv: "decl_wf r" "members_inv r (g_participants g) (g_digests g)"
      by (auto simp: cohort_inv_iff)
    have inv': "decl_wf ?r" "members_inv ?r (g_participants g') (g_digests g')"
      using inv members_inv_cong [of r ?r] 1(5,6) by (simp_all add: decl_wf_def)
    have "cohort_ready regs ids e g'" if "st = READY"
      using ready_cohort [of ?r g' regs ids "Some (gr_model_name r)"] inv' 1 that by simp
    with inv' 1(4) show ?thesis by (simp add: cohort_inv_iff)
  qed
  then show "cohort_inv g'" and "st = READY \<Longrightarrow> cohort_ready regs ids e g'" by simp_all
qed

text \<open>A refused join leaves the group alone, or leaves it with the expired members swept out.\<close>

lemma join_refused_cases:
  assumes "join_group_lua regs a g ops = (out, g', ops')" and "\<And>e st. out \<noteq> JOIN_OK e st"
  obtains (same) "g' = g" "ops' = ops"
  | (swept) r0 r ps ds ch r' where "g_root g = Some r0"
      "sweep_expired regs (ja_model_name a) (needs_epoch_bump r0 (g_lanes g) (ja_lane_ids a) (gr_epoch r0))
         (g_participants g) (r0, g_participants g, g_digests g, False) = (r, ps, ds, ch)"
      "same_root r r'" "g' = g\<lparr>g_root := Some r', g_participants := ps, g_digests := ds\<rparr>" "ops' = ops"
proof (cases "g' = g \<and> ops' = ops")
  case True then show ?thesis using same by blast
next
  case False
  have adm: "join_admit regs a r ch h ops1 \<noteq> (out, g', ops')" for r ch h ops1
    using assms(2) by (auto simp: join_admit_def Let_def)
  from False assms(1) adm obtain r0 where r0: "g_root g = Some r0" and ex: "join_existing regs a r0 g ops = (out, g', ops')"
    by (auto simp: join_group_lua_def Let_def split: if_splits option.splits)
  let ?bump = "needs_epoch_bump r0 (g_lanes g) (ja_lane_ids a) (gr_epoch r0)"
  obtain r ps ds ch where sw: "sweep_expired regs (ja_model_name a) ?bump (g_participants g)
      (r0, g_participants g, g_digests g, False) = (r, ps, ds, ch)" by (metis prod_cases4)
  from ex adm sw have "\<exists>r'. same_root r r' \<and> g' = g\<lparr>g_root := Some r', g_participants := ps, g_digests := ds\<rparr> \<and> ops' = ops"
    by (auto simp: join_existing_def Let_def dest!: check_existing_root split: sum.splits option.splits prod.splits)
      (rule exI [of _ r], simp)
  then show ?thesis using swept [OF r0 sw] by blast
qed

lemma join_refused_keeps:
  assumes "cohort_inv g" "join_group_lua regs a g ops = (out, g', ops')" "\<And>e st. out \<noteq> JOIN_OK e st"
  shows "cohort_inv g'"
  using assms(2,3)
proof (cases rule: join_refused_cases)
  case same with assms(1) show ?thesis by simp
next
  case (swept r0 r ps ds ch r')
  have r': "same_root r0 r'" using sweep_expired_spec(1) [OF swept(2), of r0] swept(3) by (simp add: same_root_def)
  from assms(1) swept(1) have inv: "decl_wf r0" "members_inv r0 (g_participants g) (g_digests g)"
    by (auto simp: cohort_inv_iff)
  have "members_inv r' ps ds"
    using members_sweep [OF inv(2) swept(2)] members_inv_cong [of r r'] same_rootD(6,7) [OF swept(3)] by simp
  then show ?thesis using inv(1) same_rootD [OF r'] by (simp add: cohort_inv_iff swept(4) decl_wf_def)
qed

lemma gcall_keeps: "gcall regs ids g ops ans g' ops' \<Longrightarrow> cohort_inv g \<Longrightarrow> cohort_inv g'"
  by (induction rule: gcall.induct) (blast intro: join_keeps join_refused_keeps publish_keeps refresh_keeps)+

subsection \<open>The cohort in reachable states\<close>

lemma join_any_keeps:
  assumes "cohort_inv g" "args_wf a" "same_declaration a g" "join_group_lua regs a g ops = (out, g', ops')"
  shows "cohort_inv g'"
proof (cases "\<exists>e st. out = JOIN_OK e st")
  case True
  then obtain e st where "out = JOIN_OK e st" by blast
  then show ?thesis using join_keeps(1) [OF assms(1-3) refl] assms(4) by simp
next
  case False
  then show ?thesis using join_refused_keeps [OF assms(1,4)] by blast
qed

lemma publish_any_keeps:
  assumes "cohort_inv g" "publish_bootstrap_lua regs ids lane ep w nid leader g = (out, g')"
  shows "cohort_inv g'"
proof (cases "\<exists>e st. out = PUB_OK e st")
  case True then show ?thesis using publish_keeps(1) [OF assms(1)] assms(2) by blast
next
  case False
  then have "g' = g" using assms(2) by (auto simp: publish_bootstrap_lua_def Let_def split: option.splits if_splits)
  with assms(1) show ?thesis by simp
qed

lemma refresh_any_keeps:
  assumes "cohort_inv g" "refresh_group_lua regs ids g ops = (out, g', ops')"
  shows "cohort_inv g'"
proof (cases out)
  case REF_NOTFOUND
  then have "g' = g" using assms(2) by (auto simp: refresh_group_lua_def Let_def split: option.splits prod.splits)
  with assms(1) show ?thesis by simp
next
  case (REF_OK e st) then show ?thesis using refresh_keeps(1) [OF assms(1)] assms(2) by blast
qed

lemma cohort_inv_root:
  assumes "cohort_inv g" "g_root g = Some r"
    "gr_trainer_slots r' = gr_trainer_slots r" "gr_generator_slots r' = gr_generator_slots r"
    "gr_expected_total r' = gr_expected_total r"
  shows "cohort_inv (g\<lparr>g_root := Some r', g_lanes := ls, g_ops := os\<rparr>)"
  using assms members_inv_cong [of r r'] by (simp add: cohort_inv_iff decl_wf_def)

lemma cohort_inv_ops [simp]: "cohort_inv (g\<lparr>g_ops := os\<rparr>) = cohort_inv g"
  by (simp add: cohort_inv_iff)

lemma report_keeps:
  assumes "\<And>gid. cohort_inv (cs_group s gid)" "report_transfer_lua ids oid gid e w ok msg s = (out, s')"
  shows "cohort_inv (cs_group s' gid')"
proof (cases "s' = s")
  case False
  with assms(2) obtain o1 r where acc: "cs_op s oid = Some o1" "\<not> op_terminal o1" "op_group_id o1 = gid"
    "op_epoch o1 = e" "g_root (cs_group s gid) = Some r" "gr_epoch r = e" "gr_state r = READY"
    "report_admitted (cs_regs s) e w (hm_values (g_participants (cs_group s gid))) False = Some True"
    by (rule report_accepted)
  from assms(2) [unfolded report_outcome [OF acc] Let_def] assms(1) cohort_inv_root [OF assms(1) acc(5)]
  show ?thesis by (auto split: if_splits)
qed (simp add: assms(1))

lemma cstep_cohort_inv: "cstep s s' \<Longrightarrow> (\<And>gid. cohort_inv (cs_group s gid)) \<Longrightarrow> cohort_inv (cs_group s' gid)"
proof (induction rule: cstep.induct)
  case join then show ?case by (auto intro: join_any_keeps)
next
  case publish then show ?case by (auto intro: publish_any_keeps)
next
  case refresh then show ?case by (auto intro: refresh_any_keeps)
next
  case create then show ?case by (auto simp: create_transfer_lua_def Let_def split: option.splits if_splits)
next
  case report then show ?case by (blast intro: report_keeps)
next
  case delete then show ?case by (auto simp: delete_transfer_lua_def Let_def split: option.splits if_splits)
qed (auto simp: cohort_inv_iff)

lemma creachable_cohort_inv: "creachable s \<Longrightarrow> cohort_inv (cs_group s gid)"
  by (induction arbitrary: gid rule: creachable.induct)
    (auto simp: csys_init_def empty_group_def cohort_inv_iff [of "empty_group"] intro: cstep_cohort_inv,
     simp add: cohort_inv_iff)

lemma gcall_ready: "gcall regs ids g ops ans g' ops' \<Longrightarrow> cohort_inv g \<Longrightarrow> ans = Some (e, READY) \<Longrightarrow> cohort_ready regs ids e g'"
  by (induction rule: gcall.induct) (blast intro: join_keeps refresh_keeps publish_keeps)+

subsection \<open>The fence\<close>

definition lost :: "participants \<Rightarrow> participants \<Rightarrow> string \<Rightarrow> string \<Rightarrow> bool" where
  "lost ps ps' k w \<longleftrightarrow> (\<exists>role idx j. hm_get ps k = Some (PRec w role idx j))
     \<and> (\<forall>role idx j. hm_get ps' k \<noteq> Some (PRec w role idx j))"

definition fenced :: "u32 list \<Rightarrow> nat \<Rightarrow> Group \<Rightarrow> nat \<Rightarrow> Group \<Rightarrow> op_store \<Rightarrow> bool" where
  "fenced ids e0 g e g' ops' \<longleftrightarrow> e = e0 + 1 \<and> (\<forall>i\<in>set ids. g_lanes g' i = None) \<and> g_ops g' = []
     \<and> (\<forall>i\<in>set (g_ops g). \<forall>o1. ops' i = Some o1 \<longrightarrow> op_terminal o1)"

lemma abort_stale_fenced: "i \<in> set ids \<Longrightarrow> abort_stale_ops ids ops i = Some o1 \<Longrightarrow> op_terminal o1"
  by (auto simp: abort_stale_get)

lemma join_fences:
  assumes "join_group_lua regs a g ops = (JOIN_OK e st, g', ops')" "g_root g = Some r0"
    and "needs_epoch_bump r0 (g_lanes g) (ja_lane_ids a) (gr_epoch r0)"
    and "lost (g_participants g) (g_participants g') k w"
  shows "fenced (ja_lane_ids a) (gr_epoch r0) g e g' ops'"
  using assms(1)
proof (cases rule: join_ok_cases)
  case fresh with assms(2) show ?thesis by simp
next
  case (existing r1 r ps ds swept r' replaced)
  let ?new = "PRec (ja_worker_id a) (ja_role a) (ja_index a) e"
  note adm = join_admit_result [OF existing(5)] and sw = sweep_expired_spec [OF existing(2)]
  have r1: "r1 = r0" using existing(1) assms(2) by simp
  have root: "gr_epoch r' = gr_epoch r0"
    using same_rootD(1) [OF check_existing_root [OF existing(3)]] same_rootD(1) [OF sw(1), of r0] r1 by simp
  have "swept \<or> replaced"
  proof (cases "hm_get ps k = hm_get (g_participants g) k")
    case True
    with assms(4) adm(3) have k: "k = ja_slot_id a" by (auto simp: lost_def hm_simps split: if_splits)
    with True assms(3,4) adm(3) existing(3) r1 show ?thesis
      by (auto simp: lost_def hm_simps check_existing_def split: if_splits)
  next
    case False
    with sw(4) [of k] have "dead_slots regs (ja_model_name a) (g_participants g) \<noteq> {}" by (auto split: if_splits)
    with sw(6) assms(3) r1 show ?thesis by simp
  qed
  then show ?thesis using adm(1,5,6) root abort_stale_fenced by (auto simp: fenced_def del_lanes_def)
qed

lemma refresh_fences:
  assumes "refresh_group_lua regs ids g ops = (REF_OK e st, g', ops')" "g_root g = Some r0"
    and "needs_epoch_bump r0 (g_lanes g) ids (gr_epoch r0)"
    and "lost (g_participants g) (g_participants g') k w"
  shows "fenced ids (gr_epoch r0) g e g' ops'"
  using assms(1)
proof (cases rule: refresh_ok_cases)
  case (1 r1 r ps ds ch r')
  note sw = sweep_expired_spec [OF 1(2)]
  have r1: "r1 = r0" using 1(1) assms(2) by simp
  have root: "gr_epoch r = gr_epoch r0" using same_rootD(1) [OF sw(1), of r0] r1 by simp
  have "dead_slots regs (gr_model_name r1) (g_participants g) \<noteq> {}"
    using sw(4) [of k] assms(4) 1(11) by (auto simp: lost_def split: if_splits)
  then have ch using sw(6) assms(3) r1 by simp
  then show ?thesis using 1(3,13,14) root abort_stale_fenced by (auto simp: fenced_def del_lanes_def)
qed

lemma gcall_fences:
  "gcall regs ids g ops ans g' ops' \<Longrightarrow> ans = Some (e, st) \<Longrightarrow> g_root g = Some r \<Longrightarrow>
   needs_epoch_bump r (g_lanes g) ids (gr_epoch r) \<Longrightarrow> lost (g_participants g) (g_participants g') k w \<Longrightarrow>
   fenced ids (gr_epoch r) g e g' ops'"
proof (induction rule: gcall.induct)
  case joined then show ?case by (auto intro: join_fences)
next
  case published then show ?case by (auto simp: lost_def elim: publish_ok_cases)
next
  case refreshed then show ?case by (auto intro: refresh_fences)
qed simp

subsection \<open>Epochs\<close>

lemma join_epoch:
  assumes "join_group_lua regs a g ops = (out, g', ops')" "g_root g = Some r" "g_root g' = Some r'"
  shows "gr_epoch r \<le> gr_epoch r'"
proof (cases "\<exists>e st. out = JOIN_OK e st")
  case True
  then obtain e st where "join_group_lua regs a g ops = (JOIN_OK e st, g', ops')" using assms(1) by blast
  then show ?thesis
  proof (cases rule: join_ok_cases)
    case (existing r0 r1 ps ds swept r2 replaced)
    have "same_root r r2"
      using sweep_expired_spec(1) [OF existing(2), of r] check_existing_root [OF existing(3)] existing(1) assms(2)
      by (simp add: same_root_def)
    then show ?thesis using same_rootD(1) [of r r2] join_admit_result(1,2) [OF existing(5)] assms(3) by auto
  qed (use assms(2) in simp)
next
  case False
  then have "\<And>e st. out \<noteq> JOIN_OK e st" by blast
  with assms(1) show ?thesis
  proof (cases rule: join_refused_cases)
    case (swept r0 r1 ps ds ch r2)
    have "same_root r r2"
      using sweep_expired_spec(1) [OF swept(2), of r] swept(1,3) assms(2) by (simp add: same_root_def)
    then show ?thesis using same_rootD(1) [of r r2] swept(4) assms(3) by simp
  qed (use assms(2,3) in auto)
qed

lemma refresh_epoch:
  assumes "refresh_group_lua regs ids g ops = (out, g', ops')" "g_root g = Some r" "g_root g' = Some r'"
  shows "gr_epoch r \<le> gr_epoch r'"
proof (cases out)
  case REF_NOTFOUND
  then show ?thesis using assms by (auto simp: refresh_group_lua_def Let_def split: prod.splits)
next
  case (REF_OK e st)
  with assms(1) have "refresh_group_lua regs ids g ops = (REF_OK e st, g', ops')" by simp
  then show ?thesis
  proof (cases rule: refresh_ok_cases)
    case (1 r0 r1 ps ds ch r2)
    then show ?thesis using same_rootD(1) [OF sweep_expired_spec(1) [OF 1(2)], of r] assms(2,3) by auto
  qed
qed

lemma publish_epoch:
  "publish_bootstrap_lua regs ids lane ep w nid leader g = (out, g') \<Longrightarrow> g_root g = Some r \<Longrightarrow> g_root g' = Some r'
   \<Longrightarrow> gr_epoch r' = gr_epoch r"
  by (auto simp: publish_bootstrap_lua_def Let_def split: if_splits)

lemma report_epoch:
  assumes "report_transfer_lua ids oid gid e w ok msg s = (out, s')"
    and "g_root (cs_group s gid') = Some r" "g_root (cs_group s' gid') = Some r'"
  shows "gr_epoch r \<le> gr_epoch r'"
proof (cases "s' = s")
  case False
  with assms(1) obtain o1 q where acc: "cs_op s oid = Some o1" "\<not> op_terminal o1" "op_group_id o1 = gid"
    "op_epoch o1 = e" "g_root (cs_group s gid) = Some q" "gr_epoch q = e" "gr_state q = READY"
    "report_admitted (cs_regs s) e w (hm_values (g_participants (cs_group s gid))) False = Some True"
    by (rule report_accepted)
  from assms(1) [unfolded report_outcome [OF acc] Let_def] assms(2,3) acc(5) show ?thesis
    by (auto split: if_splits)
qed (use assms in simp)

lemma cstep_epoch:
  "cstep s s' \<Longrightarrow> g_root (cs_group s gid) = Some r \<Longrightarrow> g_root (cs_group s' gid) = Some r' \<Longrightarrow> gr_epoch r \<le> gr_epoch r'"
proof (induction rule: cstep.induct)
  case join then show ?case by (auto intro: join_epoch split: if_splits)
next
  case publish then show ?case by (auto dest: publish_epoch split: if_splits)
next
  case refresh then show ?case by (auto intro: refresh_epoch split: if_splits)
next
  case create then show ?case by (auto simp: create_transfer_lua_def Let_def split: option.splits if_splits)
next
  case report then show ?case by (blast intro: report_epoch)
next
  case delete then show ?case by (auto simp: delete_transfer_lua_def Let_def split: option.splits if_splits)
qed (auto split: if_splits)

subsection \<open>A small group\<close>

text \<open>One trainer slot and one generator slot on one lane; worker \<open>w2\<close> is the trainer's replacement.\<close>

definition demo_regs :: registry where
  "demo_regs = [''w0'' \<mapsto> \<lparr>rg_worker_id = ''w0'', rg_role = ''1'', rg_model_name = ''m''\<rparr>,
                ''w1'' \<mapsto> \<lparr>rg_worker_id = ''w1'', rg_role = ''2'', rg_model_name = ''m''\<rparr>,
                ''w2'' \<mapsto> \<lparr>rg_worker_id = ''w2'', rg_role = ''1'', rg_model_name = ''m''\<rparr>]"

definition demo_args :: "string \<Rightarrow> string \<Rightarrow> CRole \<Rightarrow> nat \<Rightarrow> JoinArgs" where
  "demo_args slot w role idx =
     \<lparr>ja_group_id = ''g'', ja_model_name = ''m'', ja_lanes = ''0|1|t0|g0'', ja_lane_ids = [0],
       ja_expected_total = 2, ja_slot_id = slot, ja_worker_id = w, ja_role = role, ja_index = idx,
       ja_plan_digest = ''d'', ja_ps_worker = [], ja_ps_endpoint = [], ja_ps_digest = [],
       ja_trainer_slots = [''t0''], ja_generator_slots = [''g0''], ja_created_at = 0\<rparr>"

definition demo_root :: "GState \<Rightarrow> GroupRoot" where
  "demo_root st = (new_root (demo_args ''t0'' ''w0'' TRAINER 0))\<lparr>gr_state := st\<rparr>"

definition demo_group :: "GState \<Rightarrow> bool \<Rightarrow> Group" where
  "demo_group st boot =
     \<lparr>g_root = Some (demo_root st),
       g_participants = [(''t0'', PRec ''w0'' TRAINER 0 1), (''g0'', PRec ''w1'' GENERATOR 0 1)],
       g_digests = [(''t0'', ''d''), (''g0'', ''d'')],
       g_lanes = (if boot then [0 \<mapsto> \<lparr>lh_nccl_unique_id = ''ab'', lh_bootstrap_epoch = 1, lh_published_by = ''w0''\<rparr>]
                  else (\<lambda>_. None)),
       g_ops = []\<rparr>"

definition demo_sys :: "GState \<Rightarrow> bool \<Rightarrow> CSys" where
  "demo_sys st boot = csys_init\<lparr>cs_regs := demo_regs, cs_group := (\<lambda>_. empty_group)(''g'' := demo_group st boot)\<rparr>"

lemma demo_declared [simp]:
  "args_wf (demo_args slot w role idx)" "ja_group_id (demo_args slot w role idx) = ''g''"
  "ja_lane_ids (demo_args slot w role idx) = [0]" "same_declaration (demo_args slot w role idx) (demo_group st boot)"
  by (simp_all add: args_wf_def demo_args_def same_declaration_def demo_group_def demo_root_def new_root_def)

lemmas demo_defs = demo_regs_def demo_args_def demo_root_def new_root_def

lemma demo_join_0:
  "join_group_lua demo_regs (demo_args ''t0'' ''w0'' TRAINER 0) empty_group ops =
     (JOIN_OK 1 FORMING, empty_group\<lparr>g_root := Some (demo_root FORMING),
        g_participants := [(''t0'', PRec ''w0'' TRAINER 0 1)], g_digests := [(''t0'', ''d'')]\<rparr>, ops)"
  by (simp add: demo_defs empty_group_def join_group_lua_def join_admit_def Let_def registration_matches_def
      evaluate_readiness_def del_lanes_def abort_stale_ops_def hm_insert_def)

lemma demo_join_1:
  "join_group_lua demo_regs (demo_args ''g0'' ''w1'' GENERATOR 0)
     (empty_group\<lparr>g_root := Some (demo_root FORMING),
        g_participants := [(''t0'', PRec ''w0'' TRAINER 0 1)], g_digests := [(''t0'', ''d'')]\<rparr>) ops =
     (JOIN_OK 1 FORMING, demo_group FORMING False, ops)"
  by (simp add: demo_defs demo_group_def empty_group_def join_group_lua_def join_existing_def join_admit_def Let_def
      registration_matches_def evaluate_readiness_def needs_epoch_bump_def any_lane_bootstrapped_def
      check_existing_def hm_insert_def hm_get_def hm_values_def)

lemma demo_publish:
  "publish_bootstrap_lua demo_regs [0] 0 1 ''w0'' ''ab'' ''t0'' (demo_group FORMING False) =
     (PUB_OK 1 READY, demo_group READY True)"
  by (simp add: demo_defs demo_group_def publish_bootstrap_lua_def Let_def registration_matches_def
      evaluate_readiness_def hm_get_def hm_values_def)

lemma demo_reachable: "creachable (demo_sys FORMING False)" "creachable (demo_sys READY True)"
proof -
  let ?s0 = "csys_init\<lparr>cs_regs := demo_regs\<rparr>"
  let ?g1 = "empty_group\<lparr>g_root := Some (demo_root FORMING),
        g_participants := [(''t0'', PRec ''w0'' TRAINER 0 1)], g_digests := [(''t0'', ''d'')]\<rparr>"
  let ?s1 = "?s0\<lparr>cs_group := (cs_group ?s0)(''g'' := ?g1), cs_op := cs_op ?s0\<rparr>"
  have decl: "same_declaration (demo_args s w role i) ?g1" for s w role i
    by (simp add: same_declaration_def demo_root_def demo_args_def new_root_def)
  have s0: "creachable ?s0" by (rule creachable.step [OF creachable.start cstep.registrations])
  have "cstep ?s0 ?s1"
    using cstep.join [of "demo_args ''t0'' ''w0'' TRAINER 0" ?s0] demo_join_0
    by (simp add: csys_init_def same_declaration_def empty_group_def)
  with s0 have s1: "creachable ?s1" by (rule creachable.step)
  have "cstep ?s1 (demo_sys FORMING False)"
    using cstep.join [of "demo_args ''g0'' ''w1'' GENERATOR 0" ?s1] demo_join_1
    by (simp add: csys_init_def demo_sys_def decl [simplified])
  with s1 show "creachable (demo_sys FORMING False)" by (rule creachable.step)
  moreover have "cstep (demo_sys FORMING False) (demo_sys READY True)"
    using cstep.publish [of "demo_sys FORMING False" "[0]" 0 1 "''w0''" "''ab''" "''t0''" "''g''"] demo_publish
    by (simp add: demo_sys_def csys_init_def)
  ultimately show "creachable (demo_sys READY True)" by (rule creachable.step)
qed

subsection \<open>Properties\<close>

text \<open>
  C6. In every reachable state of the system, when a join, a published bootstrap or a refresh
  answers READY at epoch \<open>e\<close>, then the group is READY at \<open>e\<close> and its members are exactly the
  declared trainer and generator slots; each of them joined at \<open>e\<close> itself, has a live
  registration for the model and the role, and reported the digest the group holds; and every
  declared lane has a bootstrap of that very epoch.
\<close>

theorem ready_answer_means_whole_cohort:
  assumes "creachable s" and "gcall (cs_regs s) ids (cs_group s gid) (cs_op s) (Some (e, READY)) g' ops'"
  shows "cohort_ready (cs_regs s) ids e g'"
  using gcall_ready [OF assms(2) creachable_cohort_inv [OF assms(1)]] by simp

theorem ready_answer_means_whole_cohort_witness:
  "cohort_ready demo_regs [0] 1 (demo_group READY True)"
  using ready_answer_means_whole_cohort [OF demo_reachable(1), of "[0]" "''g''" 1 "demo_group READY True"]
    gcall.published [OF demo_publish]
  by (auto simp: demo_sys_def csys_init_def)

text \<open>
  C22. The fence: when a group is READY or has a lane bootstrapped for its epoch, and a call takes
  a slot from an admitted worker (its registration lapsed, or another generation of the slot
  joined), then either the call is answered, and the answer carries the next epoch, no declared
  lane keeps a bootstrap, the set of active operations is empty, and every operation that was in
  it is terminal; or the call is a join that was refused, the one exception, whose harm
  \<open>refused_join_drops_fence\<close> shows.
\<close>

theorem lost_member_moves_epoch:
  assumes "gcall regs ids g ops ans g' ops'" and "g_root g = Some r"
    and "gr_state r = READY \<or> (\<exists>i \<in> set ids. \<exists>h. g_lanes g i = Some h \<and> lh_bootstrap_epoch h = gr_epoch r)"
    and "lost (g_participants g) (g_participants g') k w"
  shows "case ans of
      Some (e, st) \<Rightarrow> e = gr_epoch r + 1 \<and> (\<forall>i\<in>set ids. g_lanes g' i = None) \<and> g_ops g' = []
        \<and> (\<forall>i\<in>set (g_ops g). \<forall>o1. ops' i = Some o1 \<longrightarrow> op_terminal o1)
    | None \<Rightarrow> (\<exists>a out. join_group_lua regs a g ops = (out, g', ops') \<and> (\<forall>e st. out \<noteq> JOIN_OK e st))"
proof (cases ans)
  case None
  from assms(1) show ?thesis unfolding None by (cases rule: gcall.cases) (simp, blast)
next
  case (Some x)
  have "needs_epoch_bump r (g_lanes g) ids (gr_epoch r)"
    using assms(3) by (force simp: needs_epoch_bump_def any_lane_bootstrapped_def list_ex_iff)
  then show ?thesis
    using gcall_fences [OF assms(1) _ assms(2) _ assms(4)] by (cases x) (simp add: fenced_def Some)
qed

definition demo_replaced :: Group where
  "demo_replaced = (demo_group FORMING False)\<lparr>
     g_root := Some (demo_root FORMING\<lparr>gr_epoch := 2\<rparr>),
     g_participants := [(''t0'', PRec ''w2'' TRAINER 0 2), (''g0'', PRec ''w1'' GENERATOR 0 1)]\<rparr>"

lemma demo_replace:
  "join_group_lua demo_regs (demo_args ''t0'' ''w2'' TRAINER 0) (demo_group READY True) ops =
     (JOIN_OK 2 FORMING, demo_replaced, ops)"
  by (simp add: demo_defs demo_group_def demo_replaced_def join_group_lua_def join_existing_def join_admit_def Let_def
      registration_matches_def evaluate_readiness_def needs_epoch_bump_def check_existing_def hm_insert_def hm_get_def
      hm_values_def clear_plan_source_def del_lanes_def abort_stale_ops_def fun_eq_iff)

theorem lost_member_moves_epoch_witness:
  "(2::nat) = gr_epoch (demo_root READY) + 1 \<and> g_lanes demo_replaced 0 = None"
proof -
  have "gcall demo_regs [0] (demo_group READY True) (\<lambda>_. None) (Some (2, FORMING)) demo_replaced (\<lambda>_. None)"
    by (rule gcall.joined [OF _ _ _ demo_replace]) simp_all
  moreover have "lost (g_participants (demo_group READY True)) (g_participants demo_replaced) ''t0'' ''w0''"
    by (simp add: lost_def demo_group_def demo_replaced_def hm_get_def)
  ultimately show ?thesis
    using lost_member_moves_epoch [of demo_regs "[0]" "demo_group READY True" "\<lambda>_. None" "Some (2, FORMING)" demo_replaced
        "\<lambda>_. None" "demo_root READY" "''t0''" "''w0''"]
    by (simp add: demo_group_def needs_epoch_bump_def demo_root_def)
qed

text \<open>
  No step of the system takes a group back to an earlier epoch while its root exists.
\<close>

theorem epochs_never_go_back:
  assumes "cstep s s'" and "g_root (cs_group s gid) = Some r" and "g_root (cs_group s' gid) = Some r'"
  shows "gr_epoch r \<le> gr_epoch r'"
  using assms by (rule cstep_epoch)

theorem epochs_never_go_back_witness:
  "gr_epoch (demo_root READY) \<le> gr_epoch (demo_root FORMING\<lparr>gr_epoch := 2\<rparr>)"
proof -
  let ?s = "demo_sys READY True" and ?a = "demo_args ''t0'' ''w2'' TRAINER 0"
  have "cstep ?s (?s\<lparr>cs_group := (cs_group ?s)(ja_group_id ?a := demo_replaced), cs_op := \<lambda>_. None\<rparr>)"
    by (rule cstep.join [where out = "JOIN_OK 2 FORMING"])
      (simp_all add: demo_replace demo_sys_def csys_init_def)
  from epochs_never_go_back [OF this, of "''g''" "demo_root READY" "demo_root FORMING\<lparr>gr_epoch := 2\<rparr>"]
  show ?thesis by (simp add: demo_sys_def demo_group_def demo_args_def demo_replaced_def)
qed

text \<open>
  C28. In every reachable state, two operations that are not finished never share a group and an
  epoch: the lane communicators of one epoch carry at most one transfer.
\<close>

theorem one_open_operation_per_epoch:
  assumes "creachable s" and "cs_op s i = Some o1" and "cs_op s j = Some o2"
    and "\<not> op_terminal o1" and "\<not> op_terminal o2"
    and "op_group_id o1 = op_group_id o2" and "op_epoch o1 = op_epoch o2"
  shows "i = j"
  by (rule ops_invU [OF creachable_ops_inv [OF assms(1)] assms(2-7)])

definition demo_create :: "string \<Rightarrow> CreateArgs" where
  "demo_create oid = \<lparr>xa_operation_id = oid, xa_group_id = ''g'', xa_version_id = ''v'', xa_model_name = ''m'',
     xa_idempotency_key = ''k'', xa_idem_store_key = ''mk'', xa_created_at = 0, xa_expected_epoch = 1\<rparr>"

definition demo_op :: Op where
  "demo_op = \<lparr>op_group_id = ''g'', op_epoch = 1, op_version_id = ''v'', op_model_name = ''m'',
     op_idempotency_key = ''k'', op_state = PENDING, op_failure_message = [], op_created_at = 0\<rparr>"

lemma demo_created:
  "fst (create_transfer_lua (demo_create ''op'') (demo_sys READY True)) = CREATED"
  "cs_op (snd (create_transfer_lua (demo_create ''op'') (demo_sys READY True))) ''op'' = Some demo_op"
  by (simp_all add: create_transfer_lua_def demo_create_def demo_sys_def demo_group_def demo_root_def new_root_def
      demo_args_def csys_init_def demo_op_def)

theorem one_open_operation_per_epoch_witness:
  "(''op'' :: string) = ''op'' \<and> \<not> op_terminal demo_op"
proof -
  let ?s = "snd (create_transfer_lua (demo_create ''op'') (demo_sys READY True))"
  have "creachable ?s" by (rule creachable.step [OF demo_reachable(2) cstep.create]) (rule surjective_pairing)
  moreover have "\<not> op_terminal demo_op" by (simp add: demo_op_def op_terminal_def)
  ultimately show ?thesis
    using one_open_operation_per_epoch [OF _ demo_created(2) demo_created(2)] by blast
qed

text \<open>
  C29. A finished operation is final: whatever step the system takes, an operation that is
  COMPLETE, FAILED or ABORTED keeps its whole record, unless the step deletes it.
\<close>

theorem finished_operation_is_final:
  assumes "cstep s s'" and "cs_op s i = Some o1" and "op_terminal o1"
  shows "cs_op s' i = Some o1 \<or> cs_op s' i = None"
  using assms by (rule cstep_terminal)

definition demo_done :: CSys where
  "demo_done = (demo_sys READY True)\<lparr>cs_op := [''op'' \<mapsto> demo_op\<lparr>op_state := COMPLETE\<rparr>]\<rparr>"

theorem finished_operation_is_final_witness:
  "cs_op (snd (report_transfer_lua [0] ''op'' ''g'' 1 ''w0'' False ''late'' demo_done)) ''op''
     = Some (demo_op\<lparr>op_state := COMPLETE\<rparr>)"
proof -
  let ?r = "report_transfer_lua [0] ''op'' ''g'' 1 ''w0'' False ''late'' demo_done"
  have "cstep demo_done (snd ?r)" by (rule cstep.report [of _ _ _ _ _ _ _ _ "fst ?r"]) (rule surjective_pairing)
  then have "cs_op (snd ?r) ''op'' = Some (demo_op\<lparr>op_state := COMPLETE\<rparr>) \<or> cs_op (snd ?r) ''op'' = None"
    using finished_operation_is_final [of demo_done "snd ?r" "''op''" "demo_op\<lparr>op_state := COMPLETE\<rparr>"]
    by (simp add: demo_done_def op_terminal_def)
  moreover have "snd ?r = demo_done"
    by (simp add: report_transfer_lua_def demo_done_def demo_op_def op_terminal_def)
  ultimately show ?thesis by (simp add: demo_done_def)
qed

text \<open>
  A report changes an unfinished operation only when the group is READY at the operation's
  epoch and all admitted workers, the reporter among them, acknowledged that epoch; it then
  records the reporter, and the operation becomes FAILED exactly on a failed report, which moves
  the epoch and drops every lane bootstrap, and COMPLETE exactly when the reporters seen so far
  are as many as the group expects.
\<close>

theorem report_decides_transfer:
  assumes "report_transfer_lua ids oid gid e w ok msg s = (out, s')" and "s' \<noteq> s"
  shows "\<exists>o1 r o2 r'. cs_op s oid = Some o1 \<and> \<not> op_terminal o1 \<and> op_epoch o1 = e \<and> op_group_id o1 = gid
     \<and> g_root (cs_group s gid) = Some r \<and> gr_state r = READY \<and> gr_epoch r = e
     \<and> report_admitted (cs_regs s) e w (hm_values (g_participants (cs_group s gid))) False = Some True
     \<and> cs_op s' oid = Some o2 \<and> g_root (cs_group s' gid) = Some r' \<and> out = REP_OK (op_state o2)
     \<and> cs_reported s' oid = List.insert w (cs_reported s oid)
     \<and> (op_state o2 = FAILED \<longleftrightarrow> \<not> ok)
     \<and> (op_state o2 = COMPLETE \<longleftrightarrow> ok \<and> length (cs_reported s' oid) = gr_expected_total r)
     \<and> (if ok then r' = r \<and> g_lanes (cs_group s' gid) = g_lanes (cs_group s gid)
        else gr_epoch r' = e + 1 \<and> (\<forall>i\<in>set ids. g_lanes (cs_group s' gid) i = None))"
proof -
  from assms obtain o1 r where acc: "cs_op s oid = Some o1" "\<not> op_terminal o1" "op_group_id o1 = gid"
    "op_epoch o1 = e" "g_root (cs_group s gid) = Some r" "gr_epoch r = e" "gr_state r = READY"
    "report_admitted (cs_regs s) e w (hm_values (g_participants (cs_group s gid))) False = Some True"
    by (rule report_accepted)
  note run = assms(1) [unfolded report_outcome [OF acc] Let_def]
  show ?thesis
    by (rule exI [of _ o1], rule exI [of _ r], rule exI [of _ "the (cs_op s' oid)"],
        rule exI [of _ "the (g_root (cs_group s' gid))"], insert run acc)
      (cases ok; auto simp: del_lanes_def split: if_splits)
qed

definition demo_run :: CSys where
  "demo_run = (demo_sys READY True)\<lparr>cs_op := [''op'' \<mapsto> demo_op], cs_reported := (\<lambda>_. [])(''op'' := [''w1''])\<rparr>"

theorem report_decides_transfer_witness:
  "\<exists>s'. report_transfer_lua [0] ''op'' ''g'' 1 ''w0'' True [] demo_run = (REP_OK COMPLETE, s')
     \<and> length (cs_reported s' ''op'') = 2"
proof -
  let ?r = "report_transfer_lua [0] ''op'' ''g'' 1 ''w0'' True [] demo_run"
  have out: "fst ?r = REP_OK COMPLETE" and rep: "cs_reported (snd ?r) ''op'' = [''w0'', ''w1'']"
    by (simp_all add: report_transfer_lua_def Let_def demo_run_def demo_op_def op_terminal_def demo_sys_def
        demo_group_def demo_root_def new_root_def demo_args_def demo_regs_def hm_values_def)
  then have "snd ?r \<noteq> demo_run" by (auto simp: demo_run_def)
  from report_decides_transfer [OF surjective_pairing this] out rep show ?thesis
    by (metis One_nat_def Suc_1 length_Cons list.size(3) prod.collapse)
qed

text \<open>
  Opening a transfer is idempotent: once an invocation created one, every later invocation
  with the same reservation key, under whatever generated operation id and for whatever epoch,
  answers with that operation and changes nothing, as long as the operation and the reservation
  are there.
\<close>

theorem create_transfer_idempotent:
  assumes "create_transfer_lua a s = (CREATED, s')"
    and "xa_idem_store_key b = xa_idem_store_key a"
    and "cs_idem s'' (xa_idem_store_key a) = cs_idem s' (xa_idem_store_key a)"
    and "cs_op s'' (xa_operation_id a) \<noteq> None"
  shows "create_transfer_lua b s'' = (EXISTING (xa_operation_id a), s'')"
proof -
  have "cs_idem s' (xa_idem_store_key a) = Some (xa_operation_id a)"
    using assms(1) by (auto simp: create_transfer_lua_def Let_def split: option.splits if_splits)
  then show ?thesis using assms(2-4) by (simp add: create_transfer_lua_def Let_def)
qed

theorem create_transfer_idempotent_witness:
  "fst (create_transfer_lua (demo_create ''op2'') (snd (create_transfer_lua (demo_create ''op'') (demo_sys READY True))))
     = EXISTING ''op''"
proof -
  let ?r = "create_transfer_lua (demo_create ''op'') (demo_sys READY True)"
  have c: "?r = (CREATED, snd ?r)" using demo_created(1) by (metis prod.collapse)
  have k: "xa_idem_store_key (demo_create i) = ''mk''" "xa_operation_id (demo_create i) = i" for i
    by (simp_all add: demo_create_def)
  from create_transfer_idempotent [OF c, of "demo_create ''op2''" "snd ?r"] demo_created(2)
  show ?thesis by (simp add: k)
qed

text \<open>
  Lane bootstraps are write-once per epoch and written by the leader only: an accepted
  publication names the group's current epoch, comes from the worker admitted at that epoch to
  the leader slot, and if the lane already had a bootstrap of that epoch, it is the same one.
  Every other publication is refused and leaves the group as it was.
\<close>

theorem first_bootstrap_wins:
  "(case publish_bootstrap_lua regs ids lane ep w nid leader g of
      (PUB_OK e st, g') \<Rightarrow>
        (\<exists>r role idx. g_root g = Some r \<and> gr_epoch r = ep \<and> e = ep
           \<and> hm_get (g_participants g) leader = Some (PRec w role idx ep)
           \<and> registration_matches regs w role (gr_model_name r)
           \<and> g_lanes g' lane = Some \<lparr>lh_nccl_unique_id = nid, lh_bootstrap_epoch = ep, lh_published_by = w\<rparr>
           \<and> (\<forall>i h. g_lanes g i = Some h \<and> lh_bootstrap_epoch h = ep \<longrightarrow> g_lanes g' i = Some h))
    | (_, g') \<Rightarrow> g' = g)"
  (is "case ?run of (PUB_OK e st, g') \<Rightarrow> ?ok e g' | (_, g') \<Rightarrow> g' = g")
proof (cases "\<exists>e st g'. ?run = (PUB_OK e st, g')")
  case True
  then obtain e st g' where run: "?run = (PUB_OK e st, g')" by blast
  have keep: "g_lanes g' i = Some h" if "g_lanes g i = Some h" "lh_bootstrap_epoch h = ep" for i h
    using run that by (auto simp: publish_bootstrap_lua_def Let_def split: option.splits if_splits)
  from run show ?thesis
  proof (cases rule: publish_ok_cases)
    case (1 r) then show ?thesis using keep run by auto
  qed
next
  case False
  then show ?thesis
    by (auto simp: publish_bootstrap_lua_def Let_def split: option.splits if_splits prod.splits PublishOut.splits)
qed

theorem first_bootstrap_wins_witness:
  "g_lanes (demo_group READY True) 0 = Some \<lparr>lh_nccl_unique_id = ''ab'', lh_bootstrap_epoch = 1, lh_published_by = ''w0''\<rparr>"
  using first_bootstrap_wins [where regs = demo_regs and ids = "[0]" and lane = 0 and ep = 1 and w = "''w0''" and nid = "''ab''"
      and leader = "''t0''" and g = "demo_group FORMING False"]
  by (auto simp: demo_publish [simplified])

subsection \<open>A refused join drops the pending fence\<close>

text \<open>
  The join script removes expired members before it looks at the slot being joined, and moves
  the epoch only at its end; its refusals return in between. The group below is READY at epoch 1
  with trainer \<open>w0\<close> and generator \<open>w1\<close>. The registration of \<open>w0\<close> has lapsed and \<open>w1\<close> sends a
  join with a wrong ordinal.
\<close>

definition lapsed_regs :: registry where
  "lapsed_regs = demo_regs(''w0'' := None)"

definition torn_group :: "GState \<Rightarrow> Group" where
  "torn_group st = (demo_group st True)\<lparr>
     g_participants := [(''g0'', PRec ''w1'' GENERATOR 0 1)], g_digests := [(''g0'', ''d'')]\<rparr>"

lemmas demo_eval = demo_defs lapsed_regs_def torn_group_def demo_group_def join_group_lua_def join_existing_def
  join_admit_def Let_def registration_matches_def evaluate_readiness_def needs_epoch_bump_def
  any_lane_bootstrapped_def check_existing_def hm_insert_def hm_get_def hm_values_def hm_remove_def
  clear_plan_source_def del_lanes_def abort_stale_ops_def refresh_group_lua_def

lemma torn_after_refusal:
  "join_group_lua lapsed_regs (demo_args ''g0'' ''w1'' GENERATOR 1) (demo_group READY True) ops =
     (CONFLICTING_ASSIGNMENT, torn_group READY, ops)"
  by (simp add: demo_eval)

text \<open>
  After such a refused join the group is still READY at epoch 1 although a member is gone,
  and when the replacement \<open>w2\<close> joins the free slot it is answered READY at epoch 1 with the
  bootstrap that \<open>w0\<close> published; without the refused join the same call answers FORMING at
  epoch 2 with the bootstrap removed.
\<close>

theorem refused_join_drops_fence:
  "fst (join_group_lua lapsed_regs (demo_args ''g0'' ''w1'' GENERATOR 1) (demo_group READY True) ops) = CONFLICTING_ASSIGNMENT
   \<and> (let g = fst (snd (join_group_lua lapsed_regs (demo_args ''g0'' ''w1'' GENERATOR 1) (demo_group READY True) ops));
          replaced = join_group_lua lapsed_regs (demo_args ''t0'' ''w2'' TRAINER 0) g ops;
          direct = join_group_lua lapsed_regs (demo_args ''t0'' ''w2'' TRAINER 0) (demo_group READY True) ops
      in map_option gr_state (g_root g) = Some READY \<and> hm_get (g_participants g) ''t0'' = None
         \<and> fst replaced = JOIN_OK 1 READY
         \<and> map_option lh_published_by (g_lanes (fst (snd replaced)) 0) = Some ''w0''
         \<and> fst direct = JOIN_OK 2 FORMING \<and> g_lanes (fst (snd direct)) 0 = None)"
  unfolding torn_after_refusal by (simp add: demo_eval)

end
