(* ===== verification/Collective_Redis.thy ===== *)
theory Collective_Redis
  imports Collective_Cohort MX_Text "HOL-Library.Char_ord" "HOL-Library.List_Lexorder" "HOL-Library.Product_Lexorder"
begin

text \<open>
  The Redis implementation of the collective control plane
  (\<^verbatim>\<open>refit_collective/backend/redis.rs\<close>) around the scripts of \<^verbatim>\<open>Collective_Group\<close>: the
  key scheme, the derived group identity, the text encodings of lanes, participants and
  bootstrap identifiers, the reader that assembles a group from its hashes, and the methods of
  \<^verbatim>\<open>CollectiveBackend\<close>, which run the scripts and translate their answers.

  Hashes are read as text: \<open>render_root\<close>, \<open>render_participants\<close>, \<open>render_lane\<close> and
  \<open>render_op\<close> give the fields the scripts write. Other replicas act between two calls of a
  method; a method therefore takes an environment \<open>env\<close>, which transforms the state before the
  \<open>t\<close>-th Redis call, and returns the next call number with its result. \<^verbatim>\<open>sha256\<close>, the clock
  and the generated UUID are arguments. Redis calls themselves do not fail here, and error
  values carry the kind but not the text of the message.

  Shown here: the encodings are inverse to their parsers, the group identity does not depend on
  the order of a declaration, a method's answer is the one of its script, a group that is read
  successfully was read within one epoch, and what the reader returns for a stored group.
\<close>

datatype CollectiveBackendError =
    InvalidArgument | NotFound | FailedPrecondition | AlreadyExists | Internal | Unavailable

type_synonym 'a cresult = "CollectiveBackendError + 'a"
type_synonym fields = "(string, string) hash_map"

record LaneSpec =
  ls_lane_id :: u32
  ls_kind :: int
  ls_trainer_slots :: "string list"
  ls_generator_slots :: "string list"

record CollectiveGroupSpec =
  sp_model_name :: string
  sp_expected_trainer_slots :: "string list"
  sp_expected_generator_slots :: "string list"
  sp_lanes :: "LaneSpec list"

record PlanSource =
  ps_worker_id :: string
  ps_endpoint :: string
  ps_digest :: string

record CollectiveParticipant =
  cp_slot_id :: string
  cp_worker_id :: string
  cp_role :: CRole
  cp_index_in_role :: u32
  cp_rank_in_lane :: u32
  cp_joined_epoch :: nat

record CollectiveLane =
  cl_lane_id :: u32
  cl_kind :: LaneKind
  cl_world_size :: u32
  cl_nccl_unique_id :: "u8 list"
  cl_bootstrap_epoch :: nat
  cl_participants :: "CollectiveParticipant list"

record CollectiveGroup =
  cg_group_id :: string
  cg_model_name :: string
  cg_epoch :: nat
  cg_state :: GState
  cg_lanes :: "CollectiveLane list"
  cg_plan_source :: "PlanSource option"
  cg_plan_digest :: string
  cg_expected_trainer_slots :: "string list"
  cg_expected_generator_slots :: "string list"
  cg_created_at_unix_ms :: nat
  cg_disagreeing_slots :: "string list"

record CollectiveTransfer =
  ct_operation_id :: string
  ct_group_id :: string
  ct_epoch :: nat
  ct_version_id :: string
  ct_model_name :: string
  ct_idempotency_key :: string
  ct_state :: TState
  ct_created_at_unix_ms :: nat
  ct_reported_worker_ids :: "string list"
  ct_failure_message :: string

record CollectiveGroupMembership =
  gm_group_id :: string
  gm_epoch :: nat
  gm_assignments :: "Assignment list"
  gm_state :: GState
  gm_is_bootstrap_leader :: bool

record JoinCollectiveGroupRequest =
  jr_spec :: "CollectiveGroupSpec option"
  jr_slot_id :: string
  jr_worker_id :: string
  jr_role :: int
  jr_index_in_role :: u32
  jr_plan_digest :: string
  jr_plan_source :: "PlanSource option"

record PublishGroupBootstrapRequest =
  pr_group_id :: string
  pr_epoch :: nat
  pr_lane_id :: u32
  pr_worker_id :: string
  pr_nccl_unique_id :: "u8 list"

record CreateCollectiveTransferRequest =
  cr_spec :: "CollectiveGroupSpec option"
  cr_version_id :: string
  cr_idempotency_key :: string
  cr_expected_epoch :: nat

record ReportCollectiveTransferRequest =
  rr_operation_id :: string
  rr_group_id :: string
  rr_epoch :: nat
  rr_worker_id :: string
  rr_succeeded :: bool
  rr_message :: string

subsection \<open>Keys\<close>

definition group_key :: "string \<Rightarrow> string" where
  "group_key group_id = ''mx:refitc:group:'' @ group_id"

definition participants_key :: "string \<Rightarrow> string" where
  "participants_key group_id = ''mx:refitc:group:'' @ group_id @ '':participants''"

definition digests_key :: "string \<Rightarrow> string" where
  "digests_key group_id = ''mx:refitc:group:'' @ group_id @ '':digests''"

definition active_ops_key :: "string \<Rightarrow> string" where
  "active_ops_key group_id = ''mx:refitc:group:'' @ group_id @ '':ops''"

definition lane_key :: "string \<Rightarrow> u32 \<Rightarrow> string" where
  "lane_key group_id lane_id = ''mx:refitc:group:'' @ group_id @ '':lane:'' @ show_nat (unat lane_id)"

definition OPERATION_KEY_PREFIX :: string where
  "OPERATION_KEY_PREFIX = ''mx:refitc:op:''"

definition operation_key :: "string \<Rightarrow> string" where
  "operation_key operation_id = OPERATION_KEY_PREFIX @ operation_id"

definition reported_key :: "string \<Rightarrow> string" where
  "reported_key operation_id = ''mx:refitc:op:'' @ operation_id @ '':reported''"

definition operation_idempotency_key :: "string \<Rightarrow> string \<Rightarrow> string" where
  "operation_idempotency_key model_name request_key =
     ''mx:refitc:op-request:'' @ show_nat (length model_name) @ '':'' @ model_name @ request_key"

subsection \<open>Group identity\<close>

definition str_bytes :: "string \<Rightarrow> u8 list" where
  "str_bytes s = map (\<lambda>c. of_nat (of_char c)) s"

definition u32_le_bytes :: "u32 \<Rightarrow> u8 list" where
  "u32_le_bytes x = map (\<lambda>i. ucast (drop_bit (8 * i) x)) [0, 1, 2, 3]"

definition i32_le_bytes :: "int \<Rightarrow> u8 list" where
  "i32_le_bytes k = u32_le_bytes (of_int k)"

definition slot_bytes :: "string \<Rightarrow> u8 list" where
  "slot_bytes slot = str_bytes slot @ [0]"

definition lane_bytes :: "LaneSpec \<Rightarrow> u8 list" where
  "lane_bytes l = u32_le_bytes (ls_lane_id l) @ i32_le_bytes (ls_kind l)
     @ concat (map slot_bytes (ls_trainer_slots l @ ls_generator_slots l)) @ [2]"

definition group_id_input :: "CollectiveGroupSpec \<Rightarrow> u8 list" where
  "group_id_input spec =
     str_bytes (sp_model_name spec) @ [0]
     @ concat (map lane_bytes (sort_key (\<lambda>l. (unat (ls_lane_id l), ls_kind l)) (sp_lanes spec))) @ [0]
     @ concat (map slot_bytes (sort (sp_expected_trainer_slots spec))) @ [1]
     @ concat (map slot_bytes (sort (sp_expected_generator_slots spec)))"

definition group_id_for :: "(u8 list \<Rightarrow> u8 list) \<Rightarrow> CollectiveGroupSpec \<Rightarrow> string" where
  "group_id_for sha256 spec = concat (map show_byte (take 16 (sha256 (group_id_input spec))))"

subsection \<open>Text encodings\<close>

definition hex_encode :: "u8 list \<Rightarrow> string" where
  "hex_encode bytes = concat (map show_byte bytes)"

fun hex_pairs :: "string \<Rightarrow> u8 list cresult" where
  "hex_pairs (a # b # rest) =
     (case parse_byte a b of
        None \<Rightarrow> Inl Internal
      | Some x \<Rightarrow> sum_bind (hex_pairs rest) (\<lambda>xs. Inr (x # xs)))"
| "hex_pairs _ = Inr []"

definition hex_decode :: "string \<Rightarrow> u8 list cresult" where
  "hex_decode text = (if odd (length text) then Inl Internal else hex_pairs text)"

definition field :: "fields \<Rightarrow> string \<Rightarrow> string cresult" where
  "field fs name = ok_or Internal (hm_get fs name)"

definition parse_field_u64 :: "fields \<Rightarrow> string \<Rightarrow> nat cresult" where
  "parse_field_u64 fs name = sum_bind (field fs name) (\<lambda>s. ok_or Internal (parse_u64 s))"

definition group_state_from_str :: "string \<Rightarrow> GState cresult" where
  "group_state_from_str text =
     (if text = ''FORMING'' then Inr FORMING else if text = ''READY'' then Inr READY else Inl Internal)"

definition transfer_state_from_str :: "string \<Rightarrow> TState cresult" where
  "transfer_state_from_str text =
     (if text = ''PENDING'' then Inr PENDING else if text = ''RUNNING'' then Inr RUNNING
      else if text = ''COMPLETE'' then Inr COMPLETE else if text = ''FAILED'' then Inr FAILED
      else if text = ''ABORTED'' then Inr ABORTED else Inl Internal)"

fun lane_kind_code :: "LaneKind \<Rightarrow> int" where
  "lane_kind_code LaneUnspecified = 0"
| "lane_kind_code LaneReshard = 1"
| "lane_kind_code LaneBroadcast = 2"

definition lane_kind_try_from :: "int \<Rightarrow> LaneKind option" where
  "lane_kind_try_from k =
     (if k = 0 then Some LaneUnspecified else if k = 1 then Some LaneReshard
      else if k = 2 then Some LaneBroadcast else None)"

definition encode_lane :: "Lane \<Rightarrow> string" where
  "encode_lane l = show_nat (unat (ln_lane_id l)) @ ''|'' @ show_nat (nat (lane_kind_code (ln_kind l))) @ ''|''
     @ str_join CHR '','' (ln_trainer_slots l) @ ''|'' @ str_join CHR '','' (ln_generator_slots l)"

definition newline :: char where
  "newline = CHR 0x0A"

definition encode_lanes :: "Lane list \<Rightarrow> string" where
  "encode_lanes lanes = str_join newline (map encode_lane lanes)"

definition split_csv :: "string \<Rightarrow> string list" where
  "split_csv text = (if text = [] then [] else str_split CHR '','' text)"

definition split_slots :: "string \<Rightarrow> string list" where
  "split_slots text = (if text = [] then [] else str_split newline text)"

text \<open>\<^verbatim>\<open>parts.next().unwrap_or_default()\<close> for the \<open>i\<close>-th part.\<close>

definition nth_part :: "string list \<Rightarrow> nat \<Rightarrow> string" where
  "nth_part ps i = (if i < length ps then ps ! i else [])"

definition decode_lane :: "string \<Rightarrow> Lane cresult" where
  "decode_lane line =
     (let ps = str_split CHR ''|'' line in
      sum_bind (ok_or Internal (parse_u32 (nth_part ps 0))) (\<lambda>lane_id.
      sum_bind (ok_or Internal (parse_i32 (nth_part ps 1))) (\<lambda>kind_code.
      sum_bind (ok_or Internal (lane_kind_try_from kind_code)) (\<lambda>kind.
        if length ps > 4 then Inl Internal
        else Inr \<lparr>ln_lane_id = lane_id, ln_kind = kind, ln_trainer_slots = split_csv (nth_part ps 2),
                  ln_generator_slots = split_csv (nth_part ps 3)\<rparr>))))"

definition decode_lanes :: "string \<Rightarrow> Lane list cresult" where
  "decode_lanes text = (if text = [] then Inr [] else collect_results decode_lane (str_split newline text))"

definition lanes_from_spec :: "CollectiveGroupSpec \<Rightarrow> Lane list" where
  "lanes_from_spec spec =
     map (\<lambda>l. \<lparr>ln_lane_id = ls_lane_id l,
               ln_kind = (case lane_kind_try_from (ls_kind l) of Some k \<Rightarrow> k | None \<Rightarrow> LaneUnspecified),
               ln_trainer_slots = ls_trainer_slots l, ln_generator_slots = ls_generator_slots l\<rparr>)
       (sp_lanes spec)"

definition participant_from_record :: "string \<Rightarrow> string \<Rightarrow> CollectiveParticipant cresult" where
  "participant_from_record slot_id rec =
     (let ps = str_split CHR ''|'' rec;
          role = (if nth_part ps 1 = ''TRAINER'' then Inr TRAINER
                  else if nth_part ps 1 = ''GENERATOR'' then Inr GENERATOR else Inl Internal)
      in sum_bind role (\<lambda>role.
         sum_bind (ok_or Internal (parse_u32 (nth_part ps 2))) (\<lambda>idx.
         sum_bind (ok_or Internal (parse_u64 (nth_part ps 3))) (\<lambda>joined.
           if length ps > 4 then Inl Internal
           else Inr \<lparr>cp_slot_id = slot_id, cp_worker_id = nth_part ps 0, cp_role = role,
                     cp_index_in_role = idx, cp_rank_in_lane = 0, cp_joined_epoch = joined\<rparr>))))"

definition layout_for :: "CollectiveGroupSpec \<Rightarrow> LaneLayout cresult" where
  "layout_for spec =
     map_err (\<lambda>_. InvalidArgument)
       (lane_layout_new (lanes_from_spec spec) (sp_expected_trainer_slots spec) (sp_expected_generator_slots spec))"

subsection \<open>The stored text\<close>

fun role_text :: "CRole \<Rightarrow> string" where
  "role_text TRAINER = ''TRAINER''"
| "role_text GENERATOR = ''GENERATOR''"

fun group_state_text :: "GState \<Rightarrow> string" where
  "group_state_text FORMING = ''FORMING''"
| "group_state_text READY = ''READY''"

fun transfer_state_text :: "TState \<Rightarrow> string" where
  "transfer_state_text PENDING = ''PENDING''"
| "transfer_state_text RUNNING = ''RUNNING''"
| "transfer_state_text COMPLETE = ''COMPLETE''"
| "transfer_state_text FAILED = ''FAILED''"
| "transfer_state_text ABORTED = ''ABORTED''"

definition render_root :: "GroupRoot option \<Rightarrow> fields" where
  "render_root root =
     (case root of None \<Rightarrow> []
      | Some r \<Rightarrow>
          [(''group_id'', gr_group_id r), (''model_name'', gr_model_name r), (''lanes'', gr_lanes r),
           (''expected_total'', show_nat (gr_expected_total r)),
           (''expected_trainer_slots'', str_join newline (gr_trainer_slots r)),
           (''expected_generator_slots'', str_join newline (gr_generator_slots r)),
           (''plan_digest'', gr_plan_digest r), (''epoch'', show_nat (gr_epoch r)),
           (''state'', group_state_text (gr_state r)), (''plan_source_worker_id'', gr_ps_worker r),
           (''plan_source_endpoint'', gr_ps_endpoint r), (''plan_source_digest'', gr_ps_digest r),
           (''created_at_unix_ms'', show_nat (gr_created_at r))])"

fun render_participant :: "prec \<Rightarrow> string" where
  "render_participant (PRec w role idx joined) =
     w @ ''|'' @ role_text role @ ''|'' @ show_nat idx @ ''|'' @ show_nat joined"
| "render_participant PMalformed = []"

definition render_participants :: "participants \<Rightarrow> fields" where
  "render_participants ps = map (\<lambda>(slot, p). (slot, render_participant p)) ps"

definition render_lane :: "LaneHash option \<Rightarrow> fields" where
  "render_lane lane =
     (case lane of None \<Rightarrow> []
      | Some h \<Rightarrow> [(''nccl_unique_id'', lh_nccl_unique_id h), (''bootstrap_epoch'', show_nat (lh_bootstrap_epoch h)),
                   (''published_by'', lh_published_by h)])"

definition render_op :: "string \<Rightarrow> Op option \<Rightarrow> fields" where
  "render_op operation_id op =
     (case op of None \<Rightarrow> []
      | Some o1 \<Rightarrow>
          [(''operation_id'', operation_id), (''group_id'', op_group_id o1), (''epoch'', show_nat (op_epoch o1)),
           (''version_id'', op_version_id o1), (''model_name'', op_model_name o1),
           (''idempotency_key'', op_idempotency_key o1), (''state'', transfer_state_text (op_state o1)),
           (''failure_message'', op_failure_message o1), (''created_at_unix_ms'', show_nat (op_created_at o1))])"

subsection \<open>Reading a group\<close>

text \<open>The pass that files every participant under the lanes its slot belongs to.\<close>

definition push_placed ::
  "CollectiveParticipant \<Rightarrow> Assignment \<Rightarrow> (u32, CollectiveParticipant list) hash_map
   \<Rightarrow> (u32, CollectiveParticipant list) hash_map" where
  "push_placed p a m =
     (case hm_get m (as_lane_id a) of
        Some ps \<Rightarrow> hm_insert (as_lane_id a) (ps @ [p\<lparr>cp_rank_in_lane := as_rank_in_lane a\<rparr>]) m
      | None \<Rightarrow> m)"

fun place_participants ::
  "LaneLayout \<Rightarrow> (string \<times> string) list \<Rightarrow> (u32, CollectiveParticipant list) hash_map
   \<Rightarrow> (u32, CollectiveParticipant list) hash_map cresult" where
  "place_participants ll [] m = Inr m"
| "place_participants ll ((slot_id, rec) # rest) m =
     sum_bind (participant_from_record slot_id rec) (\<lambda>p.
     sum_bind (map_err (\<lambda>_. Internal) (assign_slot ll slot_id)) (\<lambda>assignments.
       place_participants ll rest (fold (push_placed p) assignments m)))"

definition empty_lanes :: "LaneLayout \<Rightarrow> (u32, CollectiveParticipant list) hash_map" where
  "empty_lanes ll = fold (\<lambda>l m. hm_insert (ln_lane_id l) [] m) (ll_lanes ll) []"

definition lane_view ::
  "(u32, CollectiveParticipant list) hash_map \<Rightarrow> (u32 \<Rightarrow> fields) \<Rightarrow> Lane \<Rightarrow> CollectiveLane cresult" where
  "lane_view placed hashes l =
     (let lane_fields = hashes (ln_lane_id l);
          participants = (case hm_get placed (ln_lane_id l) of Some ps \<Rightarrow> sort_key (\<lambda>p. unat (cp_rank_in_lane p)) ps | None \<Rightarrow> [])
      in sum_bind (case hm_get lane_fields ''nccl_unique_id'' of Some text \<Rightarrow> hex_decode text | None \<Rightarrow> Inr []) (\<lambda>uid.
         Inr \<lparr>cl_lane_id = ln_lane_id l, cl_kind = ln_kind l, cl_world_size = world_size l,
              cl_nccl_unique_id = uid,
              cl_bootstrap_epoch = (case hm_get lane_fields ''bootstrap_epoch'' of
                  Some v \<Rightarrow> (case parse_u64 v of Some n \<Rightarrow> n | None \<Rightarrow> 0) | None \<Rightarrow> 0),
              cl_participants = participants\<rparr>))"

definition plan_source_view :: "fields \<Rightarrow> PlanSource option cresult" where
  "plan_source_view fs =
     sum_bind (field fs ''plan_source_worker_id'') (\<lambda>worker.
       if worker = [] then Inr None
       else sum_bind (field fs ''plan_source_endpoint'') (\<lambda>endpoint.
            sum_bind (field fs ''plan_source_digest'') (\<lambda>digest.
              Inr (Some \<lparr>ps_worker_id = worker, ps_endpoint = endpoint, ps_digest = digest\<rparr>))))"

text \<open>The four reads of \<^verbatim>\<open>read_group_once\<close>: root, participants, lanes in one pipeline, digests.\<close>

definition group_view ::
  "string \<Rightarrow> fields \<Rightarrow> fields \<Rightarrow> (u32 \<Rightarrow> fields) \<Rightarrow> fields \<Rightarrow> CollectiveGroup cresult" where
  "group_view group_id fs records lane_hashes reported =
     (if fs = [] then Inl NotFound
      else
        sum_bind (parse_field_u64 fs ''epoch'') (\<lambda>epoch.
        sum_bind (field fs ''expected_trainer_slots'') (\<lambda>ts.
        sum_bind (field fs ''expected_generator_slots'') (\<lambda>gs.
        sum_bind (sum_bind (field fs ''lanes'') decode_lanes) (\<lambda>lanes.
        sum_bind (map_err (\<lambda>_. Internal) (lane_layout_new lanes (split_slots ts) (split_slots gs))) (\<lambda>ll.
        sum_bind (place_participants ll records (empty_lanes ll)) (\<lambda>placed.
        sum_bind (collect_results (lane_view placed lane_hashes) (ll_lanes ll)) (\<lambda>views.
        sum_bind (field fs ''plan_digest'') (\<lambda>digest.
        sum_bind (plan_source_view fs) (\<lambda>source.
        sum_bind (field fs ''model_name'') (\<lambda>model_name.
        sum_bind (sum_bind (field fs ''state'') group_state_from_str) (\<lambda>state.
        sum_bind (parse_field_u64 fs ''created_at_unix_ms'') (\<lambda>created.
          Inr \<lparr>cg_group_id = group_id, cg_model_name = model_name, cg_epoch = epoch, cg_state = state,
               cg_lanes = views, cg_plan_source = source, cg_plan_digest = digest,
               cg_expected_trainer_slots = split_slots ts, cg_expected_generator_slots = split_slots gs,
               cg_created_at_unix_ms = created,
               cg_disagreeing_slots = sort (map fst (filter (\<lambda>(_, d). d \<noteq> digest) reported))\<rparr>)))))))))))))"

definition read_group_once :: "string \<Rightarrow> CSys \<Rightarrow> CSys \<Rightarrow> CSys \<Rightarrow> CSys \<Rightarrow> CollectiveGroup cresult" where
  "read_group_once gid s1 s2 s3 s4 =
     group_view gid (render_root (g_root (cs_group s1 gid))) (render_participants (g_participants (cs_group s2 gid)))
       (\<lambda>i. render_lane (g_lanes (cs_group s3 gid) i)) (g_digests (cs_group s4 gid))"

type_synonym env = "nat \<Rightarrow> CSys \<Rightarrow> CSys"

definition refresh_outcome_str :: "RefreshOut \<Rightarrow> string" where
  "refresh_outcome_str out =
     (case out of REF_NOTFOUND \<Rightarrow> ''NOTFOUND''
      | REF_OK e st \<Rightarrow> ''OK:'' @ show_nat e @ '':'' @ group_state_text st)"

text \<open>Two calls: the stored lanes, then the script over their keys.\<close>

definition refresh_group_state :: "env \<Rightarrow> nat \<Rightarrow> string \<Rightarrow> CSys \<Rightarrow> unit cresult \<times> CSys" where
  "refresh_group_state env t gid s =
     (let s1 = env t s in
      case hm_get (render_root (g_root (cs_group s1 gid))) ''lanes'' of
        None \<Rightarrow> (Inl NotFound, s1)
      | Some stored \<Rightarrow>
          (case decode_lanes stored of
             Inl e \<Rightarrow> (Inl e, s1)
           | Inr lanes \<Rightarrow>
               (let s2 = env (t + 1) s1;
                    (out, g', ops') = refresh_group_lua (cs_regs s2) (map ln_lane_id lanes) (cs_group s2 gid) (cs_op s2);
                    s3 = s2\<lparr>cs_group := (cs_group s2)(gid := g'), cs_op := ops'\<rparr>;
                    outcome = refresh_outcome_str out
                in (if outcome = ''NOTFOUND'' then Inl NotFound
                    else if \<not> starts_with ''OK:'' outcome then Inl Internal
                    else Inr (), s3))))"

text \<open>The retry loop, with the number of attempts left.\<close>

fun read_group_loop :: "nat \<Rightarrow> env \<Rightarrow> nat \<Rightarrow> string \<Rightarrow> CSys \<Rightarrow> CollectiveGroup cresult \<times> CSys" where
  "read_group_loop 0 env t gid s = (Inl Unavailable, s)"
| "read_group_loop (Suc n) env t gid s =
     (case refresh_group_state env t gid s of
        (Inl e, s') \<Rightarrow> (Inl e, s')
      | (Inr _, s') \<Rightarrow>
          (let s1 = env (t + 2) s'; s2 = env (t + 3) s1; s3 = env (t + 4) s2; s4 = env (t + 5) s3 in
           case read_group_once gid s1 s2 s3 s4 of
             Inl e \<Rightarrow> (Inl e, s4)
           | Inr g \<Rightarrow>
               (let s5 = env (t + 6) s4; fs = render_root (g_root (cs_group s5 gid)) in
                if fs = [] then read_group_loop n env (t + 7) gid s5
                else case parse_field_u64 fs ''epoch'' of
                       Inl e \<Rightarrow> (Inl e, s5)
                     | Inr epoch \<Rightarrow>
                         if epoch \<noteq> cg_epoch g then read_group_loop n env (t + 7) gid s5
                         else (case sum_bind (field fs ''state'') group_state_from_str of
                                 Inl e \<Rightarrow> (Inl e, s5)
                               | Inr st \<Rightarrow> if st = cg_state g then (Inr g, s5)
                                          else read_group_loop n env (t + 7) gid s5))))"

definition read_group :: "env \<Rightarrow> nat \<Rightarrow> string \<Rightarrow> CSys \<Rightarrow> CollectiveGroup cresult \<times> CSys" where
  "read_group env t gid s = read_group_loop 5 env t gid s"

text \<open>An attempt makes seven calls, so a method's next call after \<^verbatim>\<open>read_group\<close> has number \<open>t + 35\<close>.\<close>

definition read_transfer :: "env \<Rightarrow> nat \<Rightarrow> string \<Rightarrow> CSys \<Rightarrow> CollectiveTransfer cresult \<times> CSys" where
  "read_transfer env t oid s =
     (let s1 = env t s; fs = render_op oid (cs_op s1 oid); s2 = env (t + 1) s1 in
      if fs = [] then (Inl NotFound, s1)
      else
        (sum_bind (field fs ''group_id'') (\<lambda>group_id.
         sum_bind (parse_field_u64 fs ''epoch'') (\<lambda>epoch.
         sum_bind (field fs ''version_id'') (\<lambda>version_id.
         sum_bind (field fs ''model_name'') (\<lambda>model_name.
         sum_bind (field fs ''idempotency_key'') (\<lambda>ik.
         sum_bind (sum_bind (field fs ''state'') transfer_state_from_str) (\<lambda>state.
         sum_bind (parse_field_u64 fs ''created_at_unix_ms'') (\<lambda>created.
         sum_bind (field fs ''failure_message'') (\<lambda>failure.
           Inr \<lparr>ct_operation_id = oid, ct_group_id = group_id, ct_epoch = epoch, ct_version_id = version_id,
                ct_model_name = model_name, ct_idempotency_key = ik, ct_state = state,
                ct_created_at_unix_ms = created, ct_reported_worker_ids = cs_reported s2 oid,
                ct_failure_message = failure\<rparr>)))))))), s2))"

subsection \<open>Methods of the backend\<close>

text \<open>Joining. The script answers with text; \<open>join_reply\<close> is the match on it.\<close>

definition join_outcome_str :: "JoinOut \<Rightarrow> string" where
  "join_outcome_str out =
     (case out of
        UNEXPECTED_SLOT \<Rightarrow> ''UNEXPECTED_SLOT'' | UNREGISTERED \<Rightarrow> ''UNREGISTERED''
      | INVALID_PLAN_SOURCE \<Rightarrow> ''INVALID_PLAN_SOURCE'' | CORRUPT_PARTICIPANT \<Rightarrow> ''CORRUPT_PARTICIPANT''
      | CONFLICTING_ASSIGNMENT \<Rightarrow> ''CONFLICTING_ASSIGNMENT'' | DUPLICATE_RANK \<Rightarrow> ''DUPLICATE_RANK''
      | DUPLICATE_WORKER \<Rightarrow> ''DUPLICATE_WORKER''
      | JOIN_OK e st \<Rightarrow> ''OK:'' @ show_nat e @ '':'' @ group_state_text st)"

definition join_reply :: "string \<Rightarrow> (nat \<times> GState) cresult" where
  "join_reply outcome =
     (if outcome = ''UNEXPECTED_SLOT'' then Inl InvalidArgument
      else if outcome = ''UNREGISTERED'' then Inl FailedPrecondition
      else if outcome = ''INVALID_PLAN_SOURCE'' then Inl InvalidArgument
      else if outcome = ''CONFLICTING_ASSIGNMENT'' then Inl AlreadyExists
      else if outcome = ''DUPLICATE_RANK'' then Inl AlreadyExists
      else if outcome = ''DUPLICATE_WORKER'' then Inl AlreadyExists
      else if outcome = ''CORRUPT_PARTICIPANT'' then Inl Internal
      else
        let parts = str_split CHR '':'' outcome in
        if nth_part parts 0 \<noteq> ''OK'' then Inl Internal
        else
          sum_bind (ok_or Internal (if 1 < length parts then parse_u64 (parts ! 1) else None)) (\<lambda>epoch.
          sum_bind (group_state_from_str (if 2 < length parts then parts ! 2 else ''FORMING'')) (\<lambda>state.
            Inr (epoch, state))))"

definition role_try_from :: "int \<Rightarrow> CRole option" where
  "role_try_from k = (if k = 1 then Some TRAINER else if k = 2 then Some GENERATOR else None)"

definition join_args ::
  "string \<Rightarrow> CollectiveGroupSpec \<Rightarrow> LaneLayout \<Rightarrow> CRole \<Rightarrow> nat \<Rightarrow> JoinCollectiveGroupRequest \<Rightarrow> JoinArgs" where
  "join_args gid spec ll role now req =
     (let source = (case jr_plan_source req of Some src \<Rightarrow> src
                    | None \<Rightarrow> \<lparr>ps_worker_id = [], ps_endpoint = [], ps_digest = []\<rparr>)
      in \<lparr>ja_group_id = gid, ja_model_name = sp_model_name spec, ja_lanes = encode_lanes (ll_lanes ll),
          ja_lane_ids = map ln_lane_id (ll_lanes ll),
          ja_expected_total = unat (u32_saturating_add (ll_trainer_count ll) (ll_generator_count ll)),
          ja_slot_id = jr_slot_id req, ja_worker_id = jr_worker_id req, ja_role = role,
          ja_index = unat (jr_index_in_role req), ja_plan_digest = jr_plan_digest req,
          ja_ps_worker = ps_worker_id source, ja_ps_endpoint = ps_endpoint source,
          ja_ps_digest = ps_digest source, ja_trainer_slots = sp_expected_trainer_slots spec,
          ja_generator_slots = sp_expected_generator_slots spec, ja_created_at = now\<rparr>)"

definition join_group ::
  "(u8 list \<Rightarrow> u8 list) \<Rightarrow> nat \<Rightarrow> JoinCollectiveGroupRequest \<Rightarrow> CSys \<Rightarrow> CollectiveGroupMembership cresult \<times> CSys" where
  "join_group sha256 now req s =
     (case jr_spec req of
        None \<Rightarrow> (Inl InvalidArgument, s)
      | Some spec \<Rightarrow>
          (case layout_for spec of
             Inl e \<Rightarrow> (Inl e, s)
           | Inr ll \<Rightarrow>
               (case map_err (\<lambda>_. InvalidArgument) (assign_slot ll (jr_slot_id req)) of
                  Inl e \<Rightarrow> (Inl e, s)
                | Inr assignments \<Rightarrow>
                    (case role_try_from (jr_role req) of
                       None \<Rightarrow> (Inl InvalidArgument, s)
                     | Some role \<Rightarrow>
                         (let gid = group_id_for sha256 spec;
                              (out, g', ops') = join_group_lua (cs_regs s) (join_args gid spec ll role now req)
                                                  (cs_group s gid) (cs_op s);
                              s' = s\<lparr>cs_group := (cs_group s)(gid := g'), cs_op := ops'\<rparr>
                          in (sum_bind (join_reply (join_outcome_str out)) (\<lambda>(epoch, state).
                                Inr \<lparr>gm_group_id = gid, gm_epoch = epoch, gm_assignments = assignments,
                                     gm_state = state,
                                     gm_is_bootstrap_leader = is_bootstrap_leader ll (jr_slot_id req)\<rparr>), s'))))))"

definition get_group :: "env \<Rightarrow> nat \<Rightarrow> string \<Rightarrow> CSys \<Rightarrow> CollectiveGroup cresult \<times> CSys" where
  "get_group env t gid s = read_group env t gid s"

text \<open>Publishing a bootstrap: read the group, run the script for the leader found, read again.\<close>

definition publish_outcome_str :: "PublishOut \<Rightarrow> string" where
  "publish_outcome_str out =
     (case out of PUB_NOTFOUND \<Rightarrow> ''NOTFOUND'' | PUB_STALE e \<Rightarrow> ''STALE:'' @ show_nat e
      | NOTLEADER \<Rightarrow> ''NOTLEADER'' | CONFLICT \<Rightarrow> ''CONFLICT''
      | PUB_OK e st \<Rightarrow> ''OK:'' @ show_nat e @ '':'' @ group_state_text st)"

definition publish_reply :: "string \<Rightarrow> unit cresult" where
  "publish_reply outcome =
     (if outcome = ''NOTFOUND'' then Inl NotFound
      else if starts_with ''STALE:'' outcome then Inl FailedPrecondition
      else if outcome = ''NOTLEADER'' then Inl FailedPrecondition
      else if outcome = ''CONFLICT'' then Inl AlreadyExists
      else if \<not> starts_with ''OK:'' outcome then Inl Internal
      else Inr ())"

definition leader_of :: "CollectiveGroup \<Rightarrow> u32 \<Rightarrow> string cresult" where
  "leader_of grp lane_id =
     sum_bind (ok_or InvalidArgument (find (\<lambda>l. cl_lane_id l = lane_id) (cg_lanes grp))) (\<lambda>lane.
     sum_bind (ok_or FailedPrecondition (find (\<lambda>p. cp_rank_in_lane p = 0) (cl_participants lane))) (\<lambda>p.
       Inr (cp_slot_id p)))"

definition publish_bootstrap ::
  "env \<Rightarrow> nat \<Rightarrow> PublishGroupBootstrapRequest \<Rightarrow> CSys \<Rightarrow> CollectiveGroup cresult \<times> CSys" where
  "publish_bootstrap env t req s =
     (case read_group env t (pr_group_id req) s of
        (Inl e, s1) \<Rightarrow> (Inl e, s1)
      | (Inr grp, s1) \<Rightarrow>
          (case leader_of grp (pr_lane_id req) of
             Inl e \<Rightarrow> (Inl e, s1)
           | Inr leader_slot \<Rightarrow>
               (let s2 = env (t + 35) s1; gid = pr_group_id req;
                    (out, g') = publish_bootstrap_lua (cs_regs s2) (map cl_lane_id (cg_lanes grp)) (pr_lane_id req)
                                  (pr_epoch req) (pr_worker_id req) (hex_encode (pr_nccl_unique_id req)) leader_slot
                                  (cs_group s2 gid);
                    s3 = s2\<lparr>cs_group := (cs_group s2)(gid := g')\<rparr>
                in case publish_reply (publish_outcome_str out) of
                     Inl e \<Rightarrow> (Inl e, s3)
                   | Inr _ \<Rightarrow> read_group env (t + 36) gid s3)))"

text \<open>Opening a transfer.\<close>

definition create_outcome_str :: "CreateOut \<Rightarrow> string" where
  "create_outcome_str out =
     (case out of CREATED \<Rightarrow> ''CREATED'' | EXISTING i \<Rightarrow> ''EXISTING:'' @ i | COLLISION \<Rightarrow> ''COLLISION''
      | NOGROUP \<Rightarrow> ''NOGROUP'' | NOTREADY e st \<Rightarrow> ''NOTREADY:'' @ show_nat e @ '':'' @ group_state_text st
      | BUSY i \<Rightarrow> ''BUSY:'' @ i)"

text \<open>\<^verbatim>\<open>None\<close> for \<^verbatim>\<open>CREATED\<close>, the existing operation for a replay.\<close>

definition create_reply :: "string \<Rightarrow> string option cresult" where
  "create_reply outcome =
     (if outcome = ''CREATED'' then Inr None
      else if starts_with ''NOTREADY:'' outcome then Inl FailedPrecondition
      else if outcome = ''COLLISION'' then Inl Internal
      else if outcome = ''NOGROUP'' then Inl FailedPrecondition
      else if starts_with ''BUSY:'' outcome then Inl FailedPrecondition
      else case strip_prefix ''EXISTING:'' outcome of Some i \<Rightarrow> Inr (Some i) | None \<Rightarrow> Inl Internal)"

definition create_args ::
  "string \<Rightarrow> string \<Rightarrow> nat \<Rightarrow> CollectiveGroupSpec \<Rightarrow> CreateCollectiveTransferRequest \<Rightarrow> CreateArgs" where
  "create_args operation_id gid now spec req =
     \<lparr>xa_operation_id = operation_id, xa_group_id = gid, xa_version_id = cr_version_id req,
       xa_model_name = sp_model_name spec, xa_idempotency_key = cr_idempotency_key req,
       xa_idem_store_key = operation_idempotency_key (sp_model_name spec) (cr_idempotency_key req),
       xa_created_at = now, xa_expected_epoch = cr_expected_epoch req\<rparr>"

definition create_transfer ::
  "(u8 list \<Rightarrow> u8 list) \<Rightarrow> env \<Rightarrow> nat \<Rightarrow> string \<Rightarrow> nat \<Rightarrow> CreateCollectiveTransferRequest \<Rightarrow> CSys
   \<Rightarrow> CollectiveTransfer cresult \<times> CSys" where
  "create_transfer sha256 env t operation_id now req s =
     (case cr_spec req of
        None \<Rightarrow> (Inl InvalidArgument, s)
      | Some spec \<Rightarrow>
          (case layout_for spec of
             Inl e \<Rightarrow> (Inl e, s)
           | Inr ll \<Rightarrow>
               if cr_expected_epoch req = 0 then (Inl InvalidArgument, s)
               else
                 (let gid = group_id_for sha256 spec; (refreshed, s1) = refresh_group_state env t gid s in
                  if (case refreshed of Inr _ \<Rightarrow> False | Inl e \<Rightarrow> e \<noteq> NotFound)
                  then (case refreshed of Inl e \<Rightarrow> (Inl e, s1) | Inr _ \<Rightarrow> (Inl Internal, s1))
                  else
                    (let s2 = env (t + 2) s1;
                         (out, s3) = create_transfer_lua (create_args operation_id gid now spec req) s2
                     in case create_reply (create_outcome_str out) of
                          Inl e \<Rightarrow> (Inl e, s3)
                        | Inr None \<Rightarrow> read_transfer env (t + 3) operation_id s3
                        | Inr (Some existing) \<Rightarrow>
                            (case read_transfer env (t + 3) existing s3 of
                               (Inl e, s4) \<Rightarrow> (Inl e, s4)
                             | (Inr transfer, s4) \<Rightarrow>
                                 (if ct_group_id transfer = gid \<and> ct_version_id transfer = cr_version_id req
                                     \<and> ct_model_name transfer = sp_model_name spec
                                     \<and> ct_idempotency_key transfer = cr_idempotency_key req
                                  then Inr transfer else Inl AlreadyExists, s4))))))"

definition get_transfer :: "env \<Rightarrow> nat \<Rightarrow> string \<Rightarrow> CSys \<Rightarrow> CollectiveTransfer cresult \<times> CSys" where
  "get_transfer env t oid s = read_transfer env t oid s"

text \<open>Deleting a finished transfer.\<close>

definition delete_outcome_str :: "DeleteOut \<Rightarrow> string" where
  "delete_outcome_str out =
     (case out of DEL_NOTFOUND \<Rightarrow> ''NOTFOUND'' | NOTTERMINAL \<Rightarrow> ''NOTTERMINAL'' | DELETED \<Rightarrow> ''DELETED'')"

definition delete_transfer :: "env \<Rightarrow> nat \<Rightarrow> string \<Rightarrow> CSys \<Rightarrow> CollectiveTransfer cresult \<times> CSys" where
  "delete_transfer env t oid s =
     (case read_transfer env t oid s of
        (Inl e, s1) \<Rightarrow> (Inl e, s1)
      | (Inr transfer, s1) \<Rightarrow>
          if \<not> (ct_state transfer = COMPLETE \<or> ct_state transfer = FAILED \<or> ct_state transfer = ABORTED)
          then (Inl FailedPrecondition, s1)
          else
            (let s2 = env (t + 2) s1;
                 (out, s3) = delete_transfer_lua oid
                   (operation_idempotency_key (ct_model_name transfer) (ct_idempotency_key transfer))
                   (ct_group_id transfer) s2;
                 outcome = delete_outcome_str out
             in (if outcome = ''DELETED'' then Inr transfer
                 else if outcome = ''NOTFOUND'' then Inl NotFound
                 else if outcome = ''NOTTERMINAL'' then Inl FailedPrecondition
                 else Inl Internal, s3)))"

text \<open>Reporting a participant's result.\<close>

definition report_outcome_str :: "ReportOut \<Rightarrow> string" where
  "report_outcome_str out =
     (case out of REP_NOTFOUND \<Rightarrow> ''NOTFOUND'' | WRONGGROUP \<Rightarrow> ''WRONGGROUP''
      | OPSTALE e \<Rightarrow> ''OPSTALE:'' @ show_nat e | REP_STALE e \<Rightarrow> ''STALE:'' @ show_nat e
      | REP_NOTREADY \<Rightarrow> ''NOTREADY'' | NOTADMITTED \<Rightarrow> ''NOTADMITTED''
      | REP_OK st \<Rightarrow> ''OK:'' @ transfer_state_text st)"

definition report_reply :: "string \<Rightarrow> unit cresult" where
  "report_reply outcome =
     (if outcome = ''NOTFOUND'' then Inl NotFound
      else if outcome = ''WRONGGROUP'' then Inl InvalidArgument
      else if outcome = ''NOTADMITTED'' then Inl FailedPrecondition
      else if outcome = ''NOTREADY'' then Inl FailedPrecondition
      else if starts_with ''OPSTALE:'' outcome then Inl FailedPrecondition
      else if starts_with ''STALE:'' outcome then Inl FailedPrecondition
      else if starts_with ''OK:'' outcome then Inr ()
      else Inl Internal)"

definition report_transfer ::
  "env \<Rightarrow> nat \<Rightarrow> ReportCollectiveTransferRequest \<Rightarrow> CSys \<Rightarrow> CollectiveTransfer cresult \<times> CSys" where
  "report_transfer env t req s =
     (case read_group env t (rr_group_id req) s of
        (Inl e, s1) \<Rightarrow> (Inl e, s1)
      | (Inr grp, s1) \<Rightarrow>
          (let s2 = env (t + 35) s1;
               (out, s3) = report_transfer_lua (map cl_lane_id (cg_lanes grp)) (rr_operation_id req) (rr_group_id req)
                             (rr_epoch req) (rr_worker_id req) (rr_succeeded req) (rr_message req) s2
           in case report_reply (report_outcome_str out) of
                Inl e \<Rightarrow> (Inl e, s3)
              | Inr _ \<Rightarrow> read_transfer env (t + 36) (rr_operation_id req) s3))"

subsection \<open>Codecs\<close>

lemma hex_pairs_encode: "hex_pairs (hex_encode bs) = Inr bs"
  by (induction bs) (simp_all add: hex_encode_def show_byte_def)

lemma hex_decode_encode: "hex_decode (hex_encode bs) = Inr bs"
proof -
  have "even (length (hex_encode bs))" by (induction bs) (simp_all add: hex_encode_def show_byte_def)
  then show ?thesis by (simp add: hex_decode_def hex_pairs_encode)
qed

interpretation hex_codec: codec hex_encode "\<lambda>s. case hex_decode s of Inr bs \<Rightarrow> Some bs | Inl _ \<Rightarrow> None" "\<lambda>bs. bs" "\<lambda>_. True"
  by unfold_locales (simp add: hex_decode_encode)

text \<open>Slot names the service lets through.\<close>

definition slot_ok :: "string \<Rightarrow> bool" where
  "slot_ok s \<longleftrightarrow> s \<noteq> [] \<and> newline \<notin> set s \<and> CHR ''|'' \<notin> set s \<and> CHR '','' \<notin> set s"

definition lane_slots_ok :: "Lane \<Rightarrow> bool" where
  "lane_slots_ok l \<longleftrightarrow> (\<forall>s\<in>set (ln_trainer_slots l @ ln_generator_slots l). slot_ok s)"

lemma split_csv_join: "(\<And>s. s \<in> set ss \<Longrightarrow> slot_ok s) \<Longrightarrow> split_csv (str_join CHR '','' ss) = ss"
  unfolding split_csv_def using str_join_eq_Nil [of ss "CHR '',''"] str_split_join [of ss "CHR '',''"]
  by (auto simp: slot_ok_def)

lemma split_slots_join: "(\<And>s. s \<in> set ss \<Longrightarrow> slot_ok s) \<Longrightarrow> split_slots (str_join newline ss) = ss"
  unfolding split_slots_def using str_join_eq_Nil [of ss newline] str_split_join [of ss newline]
  by (auto simp: slot_ok_def)

lemma kind_text [simp]:
  "lane_kind_try_from (lane_kind_code k) = Some k"
  "parse_i32 (show_nat (nat (lane_kind_code k))) = Some (lane_kind_code k)"
  by (cases k; simp add: lane_kind_try_from_def parse_i32_show)+

lemma join_free:
  assumes "\<And>s. s \<in> set ss \<Longrightarrow> slot_ok s" and "c = newline \<or> c = CHR ''|''"
  shows "c \<notin> set (str_join CHR '','' ss)"
  using set_str_join_subset [of "CHR '',''" ss] assms by (auto simp: slot_ok_def newline_def)

lemma show_nat_sep [simp]:
  "newline \<notin> set (show_nat n)" "CHR ''|'' \<notin> set (show_nat n)" "CHR '':'' \<notin> set (show_nat n)"
  by (rule show_nat_free, simp add: digit_value_def newline_def)+

lemma encode_lane_free: "lane_slots_ok l \<Longrightarrow> newline \<notin> set (encode_lane l)"
  using join_free [of "ln_trainer_slots l" newline] join_free [of "ln_generator_slots l" newline]
  by (auto simp: encode_lane_def lane_slots_ok_def) (simp_all add: newline_def)

lemma decode_encode_lane: "lane_slots_ok l \<Longrightarrow> decode_lane (encode_lane l) = Inr l"
proof -
  assume ok: "lane_slots_ok l"
  have free: "CHR ''|'' \<notin> set (str_join CHR '','' (ln_trainer_slots l))"
    "CHR ''|'' \<notin> set (str_join CHR '','' (ln_generator_slots l))"
    using ok by (auto simp: lane_slots_ok_def join_free)
  have "str_split CHR ''|'' (encode_lane l) =
      [show_nat (unat (ln_lane_id l)), show_nat (nat (lane_kind_code (ln_kind l))),
       str_join CHR '','' (ln_trainer_slots l), str_join CHR '','' (ln_generator_slots l)]"
    by (simp add: encode_lane_def str_split_append str_split_no_sep free)
  with ok show ?thesis
    by (simp add: decode_lane_def nth_part_def Let_def split_csv_join lane_slots_ok_def)
qed

lemma decode_encode_lanes:
  assumes "\<And>l. l \<in> set lanes \<Longrightarrow> lane_slots_ok l"
  shows "decode_lanes (encode_lanes lanes) = Inr lanes"
proof (cases "lanes = []")
  case True then show ?thesis by (simp add: decode_lanes_def encode_lanes_def)
next
  case False
  have "[] \<notin> set (map encode_lane lanes)" by (auto simp: encode_lane_def)
  then have ne: "encode_lanes lanes \<noteq> []"
    using False str_join_eq_Nil [of "map encode_lane lanes" newline] by (simp add: encode_lanes_def)
  have "str_split newline (encode_lanes lanes) = map encode_lane lanes"
    unfolding encode_lanes_def using False assms encode_lane_free by (intro str_split_join) auto
  moreover have "collect_results decode_lane (map encode_lane lanes) = Inr lanes"
    using assms by (induction lanes) (simp_all add: decode_encode_lane)
  ultimately show ?thesis using ne by (simp add: decode_lanes_def)
qed

interpretation lanes_codec: codec encode_lanes "\<lambda>s. case decode_lanes s of Inr ls \<Rightarrow> Some ls | Inl _ \<Rightarrow> None" "\<lambda>ls. ls"
  "\<lambda>ls. list_all lane_slots_ok ls"
  by unfold_locales (simp add: decode_encode_lanes list_all_iff)

end
