(* ===== verification/Collective_Reads.thy ===== *)
theory Collective_Reads
  imports Collective_Redis "HOL-Library.Multiset"
begin

text \<open>
  What the methods of \<^verbatim>\<open>RedisCollectiveBackend\<close> promise: their answers are the ones of the
  scripts, identifiers are stable and collision free where the code relies on it, a group that
  is read was read within one epoch, and the lanes of a read group list the admitted members in
  rank order.
\<close>

subsection \<open>Answers of the scripts\<close>

lemma group_state_codec [simp]: "group_state_from_str (group_state_text st) = Inr st"
  by (cases st) (simp_all add: group_state_from_str_def)

lemma transfer_state_codec [simp]: "transfer_state_from_str (transfer_state_text st) = Inr st"
  by (cases st) (simp_all add: transfer_state_from_str_def)

lemma group_state_text_free [simp]: "CHR '':'' \<notin> set (group_state_text st)"
  by (cases st) simp_all

lemma ok_split: "str_split CHR '':'' (''OK:'' @ show_nat e @ '':'' @ group_state_text st) =
    [''OK'', show_nat e, group_state_text st]"
  using str_split_append [of "CHR '':''" "''OK''" "show_nat e @ '':'' @ group_state_text st"]
  by (simp add: str_split_append str_split_no_sep)

definition join_error :: "JoinOut \<Rightarrow> CollectiveBackendError" where
  "join_error out =
     (case out of UNEXPECTED_SLOT \<Rightarrow> InvalidArgument | INVALID_PLAN_SOURCE \<Rightarrow> InvalidArgument
      | UNREGISTERED \<Rightarrow> FailedPrecondition | CORRUPT_PARTICIPANT \<Rightarrow> Internal | _ \<Rightarrow> AlreadyExists)"

lemma join_reply_outcome:
  "join_reply (join_outcome_str out) =
     (case out of JOIN_OK e st \<Rightarrow> if e \<le> u64_max then Inr (e, st) else Inl Internal
      | _ \<Rightarrow> Inl (join_error out))"
proof (cases out)
  case (JOIN_OK e st)
  then show ?thesis
    using ok_split [of e st] by (simp add: parse_u64_show_nat join_outcome_str_def join_reply_def nth_part_def Let_def)
qed (simp_all add: join_outcome_str_def join_reply_def join_error_def)

lemma starts_with_append [simp]: "starts_with p (p @ s)"
  by (simp add: starts_with_def)

lemma publish_reply_outcome:
  "publish_reply (publish_outcome_str out) =
     (case out of PUB_OK e st \<Rightarrow> Inr () | PUB_NOTFOUND \<Rightarrow> Inl NotFound | CONFLICT \<Rightarrow> Inl AlreadyExists
      | _ \<Rightarrow> Inl FailedPrecondition)"
  by (cases out) (simp_all add: publish_outcome_str_def publish_reply_def starts_with_def)

lemma create_reply_outcome:
  "create_reply (create_outcome_str out) =
     (case out of CREATED \<Rightarrow> Inr None | EXISTING i \<Rightarrow> Inr (Some i) | COLLISION \<Rightarrow> Inl Internal
      | _ \<Rightarrow> Inl FailedPrecondition)"
  by (cases out) (simp_all add: create_outcome_str_def create_reply_def starts_with_def)

lemma report_reply_outcome:
  "report_reply (report_outcome_str out) =
     (case out of REP_OK st \<Rightarrow> Inr () | REP_NOTFOUND \<Rightarrow> Inl NotFound | WRONGGROUP \<Rightarrow> Inl InvalidArgument
      | _ \<Rightarrow> Inl FailedPrecondition)"
  by (cases out) (simp_all add: report_outcome_str_def report_reply_def starts_with_def)

lemma refresh_outcome_text:
  "refresh_outcome_str out = ''NOTFOUND'' \<longleftrightarrow> out = REF_NOTFOUND"
  "starts_with ''OK:'' (refresh_outcome_str out) \<longleftrightarrow> out \<noteq> REF_NOTFOUND"
  by (cases out; simp add: refresh_outcome_str_def starts_with_def)+

subsection \<open>Identifiers\<close>

lemma idempotency_key_inj:
  assumes "operation_idempotency_key m k = operation_idempotency_key m' k'"
  shows "m = m' \<and> k = k'"
proof -
  have eq: "show_nat (length m) @ CHR '':'' # (m @ k) = show_nat (length m') @ CHR '':'' # (m' @ k')"
    using assms by (simp add: operation_idempotency_key_def)
  have split: "split_once CHR '':'' (show_nat (length m) @ CHR '':'' # (m @ k)) = Some (show_nat (length m), m @ k)" for m k
    by (rule split_once_append) simp
  have "Some (show_nat (length m), m @ k) = Some (show_nat (length m'), m' @ k')"
    using split [of m k] split [of m' k'] by (simp only: eq)
  then have "show_nat (length m) = show_nat (length m')" "m @ k = m' @ k'" by simp_all
  moreover from this(1) have "length m = length m'" by (metis digits_value_show option.inject)
  ultimately show ?thesis by simp
qed

lemma sort_key_perm:
  assumes "mset xs = mset ys" and "inj_on f (set xs)"
  shows "sort_key f xs = sort_key f ys"
  by (rule sort_key_inj_key_eq) (use assms in simp_all)

lemma group_id_input_order:
  assumes "sp_model_name a = sp_model_name b"
    and "mset (sp_expected_trainer_slots a) = mset (sp_expected_trainer_slots b)"
    and "mset (sp_expected_generator_slots a) = mset (sp_expected_generator_slots b)"
    and "mset (sp_lanes a) = mset (sp_lanes b)" and "distinct (map ls_lane_id (sp_lanes a))"
  shows "group_id_input a = group_id_input b"
proof -
  let ?f = "\<lambda>l. (unat (ls_lane_id l), ls_kind l)"
  have "inj_on ls_lane_id (set (sp_lanes a))" using assms(5) by (simp add: distinct_map)
  then have "inj_on ?f (set (sp_lanes a))" by (auto simp: inj_on_def dest: unsigned_word_eqI)
  from sort_key_perm [OF assms(4) this] have "sort_key ?f (sp_lanes a) = sort_key ?f (sp_lanes b)" .
  moreover have "sort (sp_expected_trainer_slots a) = sort (sp_expected_trainer_slots b)"
    by (rule properties_for_sort) (simp_all add: assms(2))
  moreover have "sort (sp_expected_generator_slots a) = sort (sp_expected_generator_slots b)"
    by (rule properties_for_sort) (simp_all add: assms(3))
  ultimately show ?thesis using assms(1) by (simp add: group_id_input_def)
qed

subsection \<open>Reading the root\<close>

lemma render_root_None [simp]: "render_root None = []"
  by (simp add: render_root_def)

lemma render_root_nonempty [simp]: "render_root (Some r) \<noteq> []"
  by (simp add: render_root_def)

lemma root_fields:
  "field (render_root (Some r)) ''epoch'' = Inr (show_nat (gr_epoch r))"
  "field (render_root (Some r)) ''state'' = Inr (group_state_text (gr_state r))"
  "field (render_root (Some r)) ''lanes'' = Inr (gr_lanes r)"
  "field (render_root (Some r)) ''model_name'' = Inr (gr_model_name r)"
  "field (render_root (Some r)) ''plan_digest'' = Inr (gr_plan_digest r)"
  "field (render_root (Some r)) ''expected_trainer_slots'' = Inr (str_join newline (gr_trainer_slots r))"
  "field (render_root (Some r)) ''expected_generator_slots'' = Inr (str_join newline (gr_generator_slots r))"
  "field (render_root (Some r)) ''plan_source_worker_id'' = Inr (gr_ps_worker r)"
  "field (render_root (Some r)) ''plan_source_endpoint'' = Inr (gr_ps_endpoint r)"
  "field (render_root (Some r)) ''plan_source_digest'' = Inr (gr_ps_digest r)"
  "field (render_root (Some r)) ''created_at_unix_ms'' = Inr (show_nat (gr_created_at r))"
  by (simp_all add: field_def render_root_def hm_get_def)

lemma parse_u64_Some: "parse_u64 (show_nat n) = Some m \<Longrightarrow> m = n"
  by (simp add: parse_u64_show_nat split: if_splits)

lemma group_view_root:
  assumes "group_view gid (render_root root) recs hs rep = Inr g"
  shows "\<exists>r. root = Some r \<and> cg_epoch g = gr_epoch r \<and> cg_state g = gr_state r"
proof (cases root)
  case (Some r)
  with assms show ?thesis
    by (auto simp: group_view_def sum_bind_Inr_iff root_fields parse_field_u64_def ok_or_Inr_iff dest: parse_u64_Some)
qed (use assms in \<open>simp add: group_view_def\<close>)

subsection \<open>Reading within one epoch\<close>

text \<open>
  The states the calls of a reader see. An attempt refreshes the group (calls \<open>u\<close> and \<open>u + 1\<close>) and
  then makes five reads, numbered from zero: root, participants, lanes, digests, and the root
  again. Attempt \<open>k\<close> of a reader that starts with call number \<open>t\<close> starts with \<open>t + 7 * k\<close>, from the
  state its predecessor left.
\<close>

primrec read_state :: "env \<Rightarrow> nat \<Rightarrow> string \<Rightarrow> CSys \<Rightarrow> nat \<Rightarrow> CSys" where
  "read_state env u gid s 0 = env (u + 2) (snd (refresh_group_state env u gid s))"
| "read_state env u gid s (Suc i) = env (u + i + 3) (read_state env u gid s i)"

primrec attempt_state :: "env \<Rightarrow> nat \<Rightarrow> string \<Rightarrow> CSys \<Rightarrow> nat \<Rightarrow> CSys" where
  "attempt_state env t gid s 0 = s"
| "attempt_state env t gid s (Suc k) = read_state env (t + 7 * k) gid (attempt_state env t gid s k) 4"

text \<open>What read \<open>i\<close> of attempt \<open>k\<close> sees.\<close>

definition seen_by :: "env \<Rightarrow> nat \<Rightarrow> string \<Rightarrow> CSys \<Rightarrow> nat \<Rightarrow> nat \<Rightarrow> CSys" where
  "seen_by env t gid s k i = read_state env (t + 7 * k) gid (attempt_state env t gid s k) i"

lemma attempt_shift:
  "attempt_state env (t + 7) gid (read_state env t gid s 4) k = attempt_state env t gid s (Suc k)"
  by (induction k) (simp_all add: algebra_simps)

lemma seen_by_shift: "seen_by env (t + 7) gid (read_state env t gid s 4) k i = seen_by env t gid s (Suc k) i"
  using attempt_shift [of env t gid s k] unfolding seen_by_def by (simp add: algebra_simps)

lemma read_states:
  "read_state env t gid s (Suc 0) = env (t + 3) (read_state env t gid s 0)"
  "read_state env t gid s 2 = env (t + 4) (read_state env t gid s (Suc 0))"
  "read_state env t gid s 3 = env (t + 5) (read_state env t gid s 2)"
  "read_state env t gid s 4 = env (t + 6) (read_state env t gid s 3)"
  by (simp_all add: eval_nat_numeral)

lemma read_group_loop_Inr:
  assumes "read_group_loop n env t gid s = (Inr g, s')"
  shows "\<exists>k<n. let see = seen_by env t gid s k in
     read_group_once gid (see 0) (see 1) (see 2) (see 3) = Inr g \<and> s' = see 4
     \<and> (\<exists>r. g_root (cs_group s' gid) = Some r \<and> gr_epoch r = cg_epoch g \<and> gr_state r = cg_state g)"
  using assms
proof (induction n arbitrary: t s)
  case (Suc n)
  obtain x s0 where ref: "refresh_group_state env t gid s = (x, s0)" by fastforce
  with Suc.prems obtain y where x: "x = Inr y" by (cases x) auto
  let ?r = "read_state env t gid s"
  have s1: "env (t + 2) s0 = ?r 0" by (simp add: ref)
  note calls = Suc.prems [unfolded read_group_loop.simps ref prod.case x sum.case Let_def s1 read_states [symmetric]]
  obtain g0 where once: "read_group_once gid (?r 0) (?r (Suc 0)) (?r 2) (?r 3) = Inr g0"
    using calls by (cases "read_group_once gid (?r 0) (?r (Suc 0)) (?r 2) (?r 3)") (auto simp del: read_state.simps)
  note step = calls [unfolded once sum.case]
  show ?case
  proof (cases "(g0, ?r 4) = (g, s') \<and>
      (\<exists>r. g_root (cs_group (?r 4) gid) = Some r \<and> gr_epoch r = cg_epoch g0 \<and> gr_state r = cg_state g0)")
    case True
    then show ?thesis
      using once by (intro exI [of _ 0]) (auto simp: Let_def seen_by_def simp del: read_state.simps)
  next
    case False
    with step have "read_group_loop n env (t + 7) gid (?r 4) = (Inr g, s')"
      by (cases "g_root (cs_group (?r 4) gid)")
        (auto simp: root_fields parse_field_u64_def parse_u64_show_nat simp del: read_state.simps split: if_splits)
    from Suc.IH [OF this] show ?thesis unfolding seen_by_shift Let_def by blast
  qed
qed simp

text \<open>An environment in which the group's root stays and its epoch does not go back.\<close>

definition steady :: "string \<Rightarrow> env \<Rightarrow> bool" where
  "steady gid env \<longleftrightarrow> (\<forall>t s r. g_root (cs_group s gid) = Some r \<longrightarrow>
     (\<exists>r'. g_root (cs_group (env t s) gid) = Some r' \<and> gr_epoch r \<le> gr_epoch r'))"

lemma steadyD:
  "steady gid env \<Longrightarrow> g_root (cs_group s gid) = Some r \<Longrightarrow>
   \<exists>r'. g_root (cs_group (env t s) gid) = Some r' \<and> gr_epoch r \<le> gr_epoch r'"
  by (simp add: steady_def)

lemma read_once_epoch:
  assumes "steady gid env" and "read_group_once gid s1 s2 s3 s4 = Inr g"
    and "s2 = env u s1" "s3 = env (u + 1) s2" "s4 = env (u + 2) s3" "s5 = env (u + 3) s4"
    and "g_root (cs_group s5 gid) = Some r5" "gr_epoch r5 = cg_epoch g"
    and "x \<in> {s1, s2, s3, s4, s5}"
  shows "\<exists>r. g_root (cs_group x gid) = Some r \<and> gr_epoch r = cg_epoch g"
proof -
  from group_view_root [OF assms(2) [unfolded read_group_once_def]] obtain r1 where
    r1: "g_root (cs_group s1 gid) = Some r1" "cg_epoch g = gr_epoch r1" by auto
  from steadyD [OF assms(1) r1(1), of u] assms(3) obtain r2 where
    r2: "g_root (cs_group s2 gid) = Some r2" "gr_epoch r1 \<le> gr_epoch r2" by auto
  from steadyD [OF assms(1) r2(1), of "u + 1"] assms(4) obtain r3 where
    r3: "g_root (cs_group s3 gid) = Some r3" "gr_epoch r2 \<le> gr_epoch r3" by auto
  from steadyD [OF assms(1) r3(1), of "u + 2"] assms(5) obtain r4 where
    r4: "g_root (cs_group s4 gid) = Some r4" "gr_epoch r3 \<le> gr_epoch r4" by auto
  from steadyD [OF assms(1) r4(1), of "u + 3"] assms(6,7) have "gr_epoch r4 \<le> gr_epoch r5" by auto
  with r1 r2 r3 r4 assms(7-9) show ?thesis by auto
qed

subsection \<open>Members in rank order\<close>

lemma participant_record:
  assumes "CHR ''|'' \<notin> set w" "idx \<le> u32_max" "joined \<le> u64_max"
  shows "participant_from_record slot (render_participant (PRec w role idx joined)) =
    Inr \<lparr>cp_slot_id = slot, cp_worker_id = w, cp_role = role, cp_index_in_role = of_nat idx,
         cp_rank_in_lane = 0, cp_joined_epoch = joined\<rparr>"
proof -
  have role: "CHR ''|'' \<notin> set (role_text role)" by (cases role) simp_all
  have "str_split CHR ''|'' (render_participant (PRec w role idx joined)) =
      [w, role_text role, show_nat idx, show_nat joined]"
    using assms(1) role by (simp add: str_split_append str_split_no_sep)
  moreover have "parse_u32 (show_nat idx) = Some (of_nat idx)"
    using assms(2) by (simp add: parse_u32_def parse_uint_show)
  ultimately show ?thesis using assms(3)
    by (cases role) (simp_all add: participant_from_record_def nth_part_def Let_def parse_u64_show numeral_eq_Suc
        del: render_participant.simps)
qed

text \<open>What a stored record is read as, and what the pass over all records files under a lane.\<close>

fun participant_of :: "string \<Rightarrow> prec \<Rightarrow> CollectiveParticipant" where
  "participant_of slot (PRec w role idx joined) =
     \<lparr>cp_slot_id = slot, cp_worker_id = w, cp_role = role, cp_index_in_role = of_nat idx,
      cp_rank_in_lane = 0, cp_joined_epoch = joined\<rparr>"
| "participant_of slot PMalformed = undefined"

fun prec_readable :: "prec \<Rightarrow> bool" where
  "prec_readable (PRec w role idx joined) \<longleftrightarrow> CHR ''|'' \<notin> set w \<and> idx \<le> u32_max \<and> joined \<le> u64_max"
| "prec_readable PMalformed \<longleftrightarrow> False"

definition placed_at :: "Lane \<Rightarrow> string \<times> prec \<Rightarrow> CollectiveParticipant list" where
  "placed_at l x =
     (case lane_assignment (fst x) l of
        Some a \<Rightarrow> [(participant_of (fst x) (snd x))\<lparr>cp_rank_in_lane := as_rank_in_lane a\<rparr>]
      | None \<Rightarrow> [])"

lemma readable_record:
  "prec_readable v \<Longrightarrow> participant_from_record k (render_participant v) = Inr (participant_of k v)"
  by (cases v) (simp_all add: participant_record del: render_participant.simps)

lemma lane_assignment_id: "lane_assignment s l = Some a \<Longrightarrow> as_lane_id a = ln_lane_id l"
  by (auto simp: lane_assignment_def)

lemma get_push_placed:
  "hm_get (push_placed p a m) i =
     (if i = as_lane_id a then map_option (\<lambda>ps. ps @ [p\<lparr>cp_rank_in_lane := as_rank_in_lane a\<rparr>]) (hm_get m i)
      else hm_get m i)"
  by (auto simp: push_placed_def hm_simps split: option.splits)

lemma fold_push_other:
  "(\<And>a. a \<in> set as \<Longrightarrow> as_lane_id a \<noteq> i) \<Longrightarrow> hm_get (fold (push_placed p) as m) i = hm_get m i"
  by (induction as arbitrary: m) (auto simp: get_push_placed)

lemma fold_push_lane:
  assumes "distinct (map ln_lane_id lanes)" "l \<in> set lanes" "hm_get m (ln_lane_id l) = Some ps"
  shows "hm_get (fold (push_placed p) (slot_assignments s lanes) m) (ln_lane_id l) =
    Some (ps @ (case lane_assignment s l of Some a \<Rightarrow> [p\<lparr>cp_rank_in_lane := as_rank_in_lane a\<rparr>] | None \<Rightarrow> []))"
  using assms
proof (induction lanes arbitrary: m)
  case (Cons k lanes)
  let ?a = "lane_assignment s k"
  have rest: "hm_get (fold (push_placed p) (slot_assignments s lanes) m') (ln_lane_id k) = hm_get m' (ln_lane_id k)" for m'
    using Cons.prems(1) by (intro fold_push_other) (auto simp: in_slot_assignments dest!: lane_assignment_id)
  show ?case
  proof (cases "l = k")
    case True
    with Cons.prems(3) show ?thesis
      by (auto simp: slot_assignments_Cons rest get_push_placed split: option.splits dest: lane_assignment_id)
  next
    case False
    with Cons.prems have mem: "l \<in> set lanes" "distinct (map ln_lane_id lanes)" by simp_all
    then have "ln_lane_id l \<in> ln_lane_id ` set lanes" by simp
    with Cons.prems(1) have l: "ln_lane_id l \<noteq> ln_lane_id k" by auto
    have "hm_get (case ?a of Some a \<Rightarrow> push_placed p a m | None \<Rightarrow> m) (ln_lane_id l) = Some ps"
      using Cons.prems(3) l
      by (auto simp: get_push_placed split: option.splits dest: lane_assignment_id)
    from Cons.IH [OF mem(2,1) this] show ?thesis
      by (auto simp: slot_assignments_Cons split: option.splits)
  qed
qed simp

lemma place_participants_lane:
  assumes "distinct (map ln_lane_id lanes)" "l \<in> set lanes"
    and "\<And>s. s \<in> fst ` set recs \<Longrightarrow> assign_slot ll s = Inr (slot_assignments s lanes)"
    and "\<And>k v. (k, v) \<in> set recs \<Longrightarrow> prec_readable v"
    and "hm_get m (ln_lane_id l) = Some ps"
  shows "\<exists>m'. place_participants ll (render_participants recs) m = Inr m'
    \<and> hm_get m' (ln_lane_id l) = Some (ps @ concat (map (placed_at l) recs))"
  using assms(3-5)
proof (induction recs arbitrary: m ps)
  case (Cons x recs)
  obtain k v where x: "x = (k, v)" by (cases x)
  have v: "prec_readable v" and k: "assign_slot ll k = Inr (slot_assignments k lanes)" using Cons.prems by (auto simp: x)
  have "hm_get (fold (push_placed (participant_of k v)) (slot_assignments k lanes) m) (ln_lane_id l) = Some (ps @ placed_at l x)"
    using fold_push_lane [OF assms(1,2) Cons.prems(3), of "participant_of k v" k] by (simp add: placed_at_def x split: option.splits)
  then have "\<exists>m'. place_participants ll (render_participants recs)
        (fold (push_placed (participant_of k v)) (slot_assignments k lanes) m) = Inr m'
      \<and> hm_get m' (ln_lane_id l) = Some ((ps @ placed_at l x) @ concat (map (placed_at l) recs))"
    by (rule Cons.IH [rotated 2]) (use Cons.prems(1,2) in auto)
  then show ?case
    by (simp add: render_participants_def x readable_record [OF v] k del: render_participant.simps)
qed (simp add: render_participants_def)

lemma fold_insert_empty:
  "hm_get (fold (\<lambda>l m. hm_insert (ln_lane_id l) [] m) ls m) i =
     (if i \<in> ln_lane_id ` set ls then Some [] else hm_get m i)"
  by (induction ls arbitrary: m) (auto simp: hm_simps)

lemma empty_lanes_get: "l \<in> set (ll_lanes ll) \<Longrightarrow> hm_get (empty_lanes ll) (ln_lane_id l) = Some []"
  by (simp add: empty_lanes_def fold_insert_empty)

definition member_at :: "participants \<Rightarrow> Lane \<Rightarrow> string \<Rightarrow> CollectiveParticipant" where
  "member_at ps l s = (participant_of s (the (hm_get ps s)))\<lparr>cp_rank_in_lane := as_rank_in_lane (the (lane_assignment s l))\<rparr>"

definition admitted_slots :: "participants \<Rightarrow> Lane \<Rightarrow> string list" where
  "admitted_slots ps l = filter (\<lambda>s. hm_get ps s \<noteq> None) (slots_in_rank_order l)"

lemma placed_concat:
  assumes "hm_ok ps"
  shows "concat (map (placed_at l) ps) =
    map (member_at ps l) (map fst (filter (\<lambda>x. fst x \<in> set (slots_in_rank_order l)) ps))"
proof -
  have "concat (map (placed_at l) qs) =
      map (member_at ps l) (map fst (filter (\<lambda>x. fst x \<in> set (slots_in_rank_order l)) qs))"
    if "set qs \<subseteq> set ps" for qs
    using that
  proof (induction qs)
    case (Cons x qs)
    have "hm_get ps (fst x) = Some (snd x)" using Cons.prems assms by (auto intro: hm_in_get)
    then have "placed_at l x = (if fst x \<in> set (slots_in_rank_order l) then [member_at ps l (fst x)] else [])"
      by (auto simp: placed_at_def member_at_def lane_assignment_def split: option.splits)
    with Cons show ?case by simp
  qed simp
  then show ?thesis by simp
qed

lemma rank_of_nth:
  assumes "distinct (slots_in_rank_order l)" "length (slots_in_rank_order l) \<le> u32_max" "i < length (slots_in_rank_order l)"
  shows "unat (as_rank_in_lane (the (lane_assignment (slots_in_rank_order l ! i) l))) = i"
  using assms by (simp add: lane_assignment_def pos_of_nth unat_u32_sat)

lemma member_sel [simp]:
  "cp_rank_in_lane (member_at ps l s) = as_rank_in_lane (the (lane_assignment s l))"
  "prec_readable (the (hm_get ps s)) \<Longrightarrow> cp_slot_id (member_at ps l s) = s"
  by (simp_all add: member_at_def) (cases "the (hm_get ps s)"; simp)

lemma sorted_filter_ranks:
  assumes "distinct (slots_in_rank_order l)" "length (slots_in_rank_order l) \<le> u32_max"
  shows "sorted (map (\<lambda>s. unat (as_rank_in_lane (the (lane_assignment s l)))) (slots_in_rank_order l))"
  using rank_of_nth [OF assms] by (simp add: sorted_iff_nth_mono)

lemma rank_inj:
  assumes "distinct (slots_in_rank_order l)" "length (slots_in_rank_order l) \<le> u32_max"
  shows "inj_on (\<lambda>s. unat (as_rank_in_lane (the (lane_assignment s l)))) (set (slots_in_rank_order l))"
  using rank_of_nth [OF assms] by (intro inj_onI) (metis in_set_conv_nth)

lemma sorted_members:
  assumes "hm_ok ps" "distinct (slots_in_rank_order l)" "length (slots_in_rank_order l) \<le> u32_max"
  shows "sort_key (\<lambda>p. unat (cp_rank_in_lane p)) (concat (map (placed_at l) ps)) = map (member_at ps l) (admitted_slots ps l)"
proof -
  let ?r = "\<lambda>s. unat (as_rank_in_lane (the (lane_assignment s l)))" and ?S = "slots_in_rank_order l"
  let ?xs = "map fst (filter (\<lambda>x. fst x \<in> set ?S) ps)" and ?ys = "admitted_slots ps l"
  have dx: "distinct ?xs" using assms(1) by (simp add: hm_ok_def distinct_map_filter)
  have dy: "distinct ?ys" using assms(2) by (simp add: admitted_slots_def)
  have "set ?xs = set ?ys"
    using assms(1) by (force simp: admitted_slots_def dest: hm_get_in intro: hm_in_get)
  with dx dy have m: "mset ?xs = mset ?ys" by (blast dest: set_eq_iff_mset_eq_distinct)
  have "set (map (member_at ps l) ?xs) = member_at ps l ` set ?ys" using m by (metis mset_eq_setD list.set_map)
  moreover have "inj_on ?r (set ?ys)"
    by (rule inj_on_subset [OF rank_inj [OF assms(2,3)]]) (auto simp: admitted_slots_def)
  ultimately have inj: "inj_on (\<lambda>p. unat (cp_rank_in_lane p)) (set (map (member_at ps l) ?xs))"
    by (auto simp: inj_on_def)
  have "sorted (map ?r ?ys)"
    unfolding admitted_slots_def by (rule sorted_filter [OF sorted_filter_ranks [OF assms(2,3)]])
  then have "sorted (map (\<lambda>p. unat (cp_rank_in_lane p)) (map (member_at ps l) ?ys))" by (simp add: comp_def)
  moreover have "mset (map (member_at ps l) ?xs) = mset (map (member_at ps l) ?ys)" using m by (metis mset_map)
  ultimately show ?thesis
    unfolding placed_concat [OF assms(1)] by (intro sort_key_inj_key_eq [OF _ inj])
qed

text \<open>The hashes of a group as the service stores them: delimiter-free names, numbers that fit.\<close>

definition readable_group :: "Lane list \<Rightarrow> Group \<Rightarrow> bool" where
  "readable_group lanes g \<longleftrightarrow> (\<exists>r. g_root g = Some r \<and> gr_lanes r = encode_lanes lanes
     \<and> list_all lane_slots_ok lanes \<and> list_all slot_ok (gr_trainer_slots r @ gr_generator_slots r)
     \<and> declaration_wf lanes (gr_trainer_slots r) (gr_generator_slots r)
     \<and> gr_epoch r \<le> u64_max \<and> gr_created_at r \<le> u64_max
     \<and> hm_ok (g_participants g)
     \<and> (\<forall>k v. hm_get (g_participants g) k = Some v \<longrightarrow>
          prec_readable v \<and> k \<in> set (gr_trainer_slots r @ gr_generator_slots r))
     \<and> (\<forall>l\<in>set lanes. length (slots_in_rank_order l) \<le> u32_max
          \<and> (\<forall>h. g_lanes g (ln_lane_id l) = Some h \<longrightarrow>
               (\<exists>bs. lh_nccl_unique_id h = hex_encode bs) \<and> lh_bootstrap_epoch h \<le> u64_max)))"

definition lane_bytes_of :: "LaneHash option \<Rightarrow> u8 list" where
  "lane_bytes_of h = (case h of None \<Rightarrow> [] | Some x \<Rightarrow> (case hex_decode (lh_nccl_unique_id x) of Inr bs \<Rightarrow> bs | Inl _ \<Rightarrow> []))"

definition lane_result :: "Group \<Rightarrow> Lane \<Rightarrow> CollectiveLane" where
  "lane_result g l =
     \<lparr>cl_lane_id = ln_lane_id l, cl_kind = ln_kind l, cl_world_size = world_size l,
       cl_nccl_unique_id = lane_bytes_of (g_lanes g (ln_lane_id l)),
       cl_bootstrap_epoch = (case g_lanes g (ln_lane_id l) of None \<Rightarrow> 0 | Some h \<Rightarrow> lh_bootstrap_epoch h),
       cl_participants = map (member_at (g_participants g) l) (admitted_slots (g_participants g) l)\<rparr>"

lemma lane_view_result:
  assumes "hm_get placed (ln_lane_id l) = Some (concat (map (placed_at l) (g_participants g)))"
    and "hm_ok (g_participants g)" "distinct (slots_in_rank_order l)" "length (slots_in_rank_order l) \<le> u32_max"
    and "\<And>h. g_lanes g (ln_lane_id l) = Some h \<Longrightarrow>
           (\<exists>bs. lh_nccl_unique_id h = hex_encode bs) \<and> lh_bootstrap_epoch h \<le> u64_max"
  shows "lane_view placed (\<lambda>i. render_lane (g_lanes g i)) l = Inr (lane_result g l)"
proof (cases "g_lanes g (ln_lane_id l)")
  case None
  then show ?thesis
    using assms(1) sorted_members [OF assms(2-4)]
    by (simp add: lane_view_def lane_result_def render_lane_def lane_bytes_of_def)
next
  case (Some h)
  with assms(5) obtain bs where "lh_nccl_unique_id h = hex_encode bs" "lh_bootstrap_epoch h \<le> u64_max" by blast
  with Some show ?thesis
    using assms(1) sorted_members [OF assms(2-4)]
    by (simp add: lane_view_def lane_result_def render_lane_def lane_bytes_of_def hm_get_def hex_decode_encode parse_u64_show)
qed

lemma read_group_once_result:
  assumes "readable_group lanes (cs_group s gid)" and "g_root (cs_group s gid) = Some r"
  shows "read_group_once gid s s s s =
    Inr \<lparr>cg_group_id = gid, cg_model_name = gr_model_name r, cg_epoch = gr_epoch r, cg_state = gr_state r,
      cg_lanes = map (lane_result (cs_group s gid)) lanes,
      cg_plan_source = (if gr_ps_worker r = [] then None
        else Some \<lparr>ps_worker_id = gr_ps_worker r, ps_endpoint = gr_ps_endpoint r, ps_digest = gr_ps_digest r\<rparr>),
      cg_plan_digest = gr_plan_digest r, cg_expected_trainer_slots = gr_trainer_slots r,
      cg_expected_generator_slots = gr_generator_slots r, cg_created_at_unix_ms = gr_created_at r,
      cg_disagreeing_slots = sort (map fst (filter (\<lambda>(_, d). d \<noteq> gr_plan_digest r) (g_digests (cs_group s gid))))\<rparr>"
proof -
  let ?g = "cs_group s gid"
  note rd = assms(1) [unfolded readable_group_def assms(2), simplified]
  from rd obtain ll where ll: "lane_layout_new lanes (gr_trainer_slots r) (gr_generator_slots r) = Inr ll"
    using layout_accepted_iff by blast
  have lanes: "ll_lanes ll = lanes" by (rule layout_lanes [OF ll])
  have wf: "distinct (map ln_lane_id lanes)" using layout_declaration_wf [OF ll] by (simp add: declaration_wf_def lanes_wf_def)
  have dec: "decode_lanes (encode_lanes lanes) = Inr lanes" using rd by (simp add: decode_encode_lanes list_all_iff)
  have slots: "split_slots (str_join newline (gr_trainer_slots r)) = gr_trainer_slots r"
    "split_slots (str_join newline (gr_generator_slots r)) = gr_generator_slots r"
    using rd by (simp_all add: split_slots_join list_all_iff)
  have asg: "assign_slot ll k = Inr (slot_assignments k lanes)" if "k \<in> fst ` set (g_participants ?g)" for k
  proof -
    from that obtain v where "hm_get (g_participants ?g) k = Some v" using rd by (auto dest: hm_in_get)
    with rd have "k \<in> set (gr_trainer_slots r) \<union> set (gr_generator_slots r)" by auto
    then have "slot_assignments k lanes \<noteq> []"
      using layout_declaration_wf [OF ll] by (auto simp: slot_assignments_empty declaration_wf_def)
    then show ?thesis using layout_by_slot [OF ll, of k] by (simp add: assign_slot_def)
  qed
  have readable: "prec_readable v" if "(k, v) \<in> set (g_participants ?g)" for k v
    using rd hm_in_get [OF _ that] by blast
  have place: "\<exists>m. place_participants ll (render_participants (g_participants ?g)) (empty_lanes ll) = Inr m
      \<and> hm_get m (ln_lane_id l) = Some (concat (map (placed_at l) (g_participants ?g)))" if "l \<in> set lanes" for l
    using place_participants_lane [OF wf that, of "g_participants ?g" ll "empty_lanes ll" "[]", OF asg readable]
      empty_lanes_get [of l ll] that lanes
    by simp
  obtain l0 where "l0 \<in> set lanes" using layout_declaration_wf [OF ll] by (auto simp: declaration_wf_def neq_Nil_conv)
  with place obtain m where m: "place_participants ll (render_participants (g_participants ?g)) (empty_lanes ll) = Inr m" by blast
  have view: "lane_view m (\<lambda>i. render_lane (g_lanes ?g i)) l = Inr (lane_result ?g l)" if "l \<in> set lanes" for l
    using place [OF that] m rd that layout_lane_wf [OF ll that]
    by (intro lane_view_result) (auto simp: lane_wf_def)
  have views: "collect_results (lane_view m (\<lambda>i. render_lane (g_lanes ?g i))) lanes = Inr (map (lane_result ?g) lanes)"
    by (rule collect_results_all) (rule view)
  show ?thesis
    using rd by (simp add: read_group_once_def group_view_def assms(2) root_fields parse_field_u64_def parse_u64_show
        slots dec ll m lanes views plan_source_view_def)
qed

subsection \<open>Properties\<close>

text \<open>
  The declared lanes survive their text form: whatever lanes with delimiter-free slot names a
  group declares, decoding the stored text gives the same lanes, so two declarations with
  different lanes never share a text.
\<close>

theorem lanes_text_roundtrip:
  assumes "list_all lane_slots_ok lanes"
  shows "decode_lanes (encode_lanes lanes) = Inr lanes
    \<and> (\<forall>other. list_all lane_slots_ok other \<and> encode_lanes other = encode_lanes lanes \<longrightarrow> other = lanes)"
  using assms lanes_codec.encode_view_inj decode_encode_lanes by (auto simp: list_all_iff)

theorem lanes_text_roundtrip_witness:
  "decode_lanes (encode_lanes example_lanes) = Inr example_lanes"
proof -
  have "list_all lane_slots_ok example_lanes"
    by (simp add: example_lanes_def lane_slots_ok_def slot_ok_def newline_def)
  from lanes_text_roundtrip [OF this] show ?thesis by simp
qed

text \<open>
  Bootstrap identifiers survive hex encoding: decoding the stored text of any byte string
  gives that byte string.
\<close>

theorem bootstrap_id_roundtrip: "hex_decode (hex_encode bytes) = Inr bytes"
  by (rule hex_decode_encode)

text \<open>
  Participants that declare the same membership find the same group: the identity of a group
  does not depend on the order in which its slots and lanes are listed.
\<close>

theorem group_id_ignores_order:
  assumes "sp_model_name a = sp_model_name b"
    and "mset (sp_expected_trainer_slots a) = mset (sp_expected_trainer_slots b)"
    and "mset (sp_expected_generator_slots a) = mset (sp_expected_generator_slots b)"
    and "mset (sp_lanes a) = mset (sp_lanes b)" and "distinct (map ls_lane_id (sp_lanes a))"
  shows "group_id_for sha256 a = group_id_for sha256 b"
  using group_id_input_order [OF assms] by (simp add: group_id_for_def)

definition demo_spec :: "bool \<Rightarrow> CollectiveGroupSpec" where
  "demo_spec flip =
     (let a = \<lparr>ls_lane_id = 0, ls_kind = 1, ls_trainer_slots = [''t0''], ls_generator_slots = [''g0'']\<rparr>;
          b = \<lparr>ls_lane_id = 1, ls_kind = 2, ls_trainer_slots = [''t1''], ls_generator_slots = [''g0'']\<rparr>
      in \<lparr>sp_model_name = ''m'',
          sp_expected_trainer_slots = (if flip then [''t1'', ''t0''] else [''t0'', ''t1'']),
          sp_expected_generator_slots = [''g0''], sp_lanes = (if flip then [b, a] else [a, b])\<rparr>)"

theorem group_id_ignores_order_witness:
  "group_id_for (\<lambda>bytes. bytes) (demo_spec True) = group_id_for (\<lambda>bytes. bytes) (demo_spec False)"
  by (rule group_id_ignores_order) (simp_all add: demo_spec_def Let_def add_mset_commute)

text \<open>
  Reservation keys are collision free: two requests share a reservation only if they name the
  same model and the same idempotency key, whatever characters either contains.
\<close>

theorem reservation_keys_injective:
  "operation_idempotency_key m k = operation_idempotency_key m' k' \<longleftrightarrow> m = m' \<and> k = k'"
  using idempotency_key_inj by blast

text \<open>
  C12. A group that is read successfully was read within one epoch, although its hashes are read
  one by one with other replicas acting in between. Provided they neither remove the root nor
  take its epoch back, the answer is what one of the at most five attempts put together from its
  four reads; at each of these reads, and at the second reading of the root that ends the attempt,
  the group was at the epoch the answer carries; and at the first and the last reading the root
  had the state the answer carries.
\<close>

theorem read_group_within_one_epoch:
  assumes "steady gid env" and "read_group env t gid s = (Inr g, s')"
  shows "\<exists>k<5. let see = seen_by env t gid s k in
    read_group_once gid (see 0) (see 1) (see 2) (see 3) = Inr g \<and> s' = see 4
    \<and> (\<forall>i\<le>4. \<exists>r. g_root (cs_group (see i) gid) = Some r \<and> gr_epoch r = cg_epoch g)
    \<and> (\<forall>i\<in>{0, 4}. \<exists>r. g_root (cs_group (see i) gid) = Some r \<and> gr_state r = cg_state g)"
proof -
  from read_group_loop_Inr [OF assms(2) [unfolded read_group_def]] obtain k where k: "k < 5"
    and once: "read_group_once gid (seen_by env t gid s k 0) (seen_by env t gid s k 1) (seen_by env t gid s k 2)
      (seen_by env t gid s k 3) = Inr g" and s': "s' = seen_by env t gid s k 4"
    and last: "\<exists>r. g_root (cs_group s' gid) = Some r \<and> gr_epoch r = cg_epoch g \<and> gr_state r = cg_state g"
    by (auto simp: Let_def)
  let ?s = "\<lambda>i. seen_by env t gid s k i" let ?u = "t + 7 * k + 3"
  have step: "?s 1 = env ?u (?s 0)" "?s 2 = env (?u + 1) (?s 1)" "?s 3 = env (?u + 2) (?s 2)" "s' = env (?u + 3) (?s 3)"
    unfolding s' seen_by_def by (simp_all add: eval_nat_numeral)
  from last obtain r5 where r5: "g_root (cs_group s' gid) = Some r5" "gr_epoch r5 = cg_epoch g" "gr_state r5 = cg_state g"
    by blast
  have ep: "\<exists>r. g_root (cs_group (?s i) gid) = Some r \<and> gr_epoch r = cg_epoch g" if "i \<le> 4" for i
  proof -
    have "i \<in> {0, 1, 2, 3, 4}" using that by auto
    then show ?thesis by (intro read_once_epoch [OF assms(1) once step r5(1,2)]) (auto simp: s')
  qed
  from group_view_root [OF once [unfolded read_group_once_def]] obtain r1 where
    "g_root (cs_group (?s 0) gid) = Some r1" "cg_state g = gr_state r1" by auto
  with r5 have "\<forall>i\<in>{0, 4}. \<exists>r. g_root (cs_group (?s i) gid) = Some r \<and> gr_state r = cg_state g" by (auto simp: s')
  with ep once k s' show ?thesis by (auto simp: Let_def)
qed

definition demo_lane :: Lane where
  "demo_lane = \<lparr>ln_lane_id = 0, ln_kind = LaneReshard, ln_trainer_slots = [''t0''], ln_generator_slots = [''g0'']\<rparr>"

lemma demo_lane_sel [simp]:
  "ln_lane_id demo_lane = 0" "ln_kind demo_lane = LaneReshard" "ln_trainer_slots demo_lane = [''t0'']"
  "ln_generator_slots demo_lane = [''g0'']"
  by (simp_all add: demo_lane_def)

lemma demo_sys_sel [simp]:
  "cs_group (demo_sys st b) ''g'' = demo_group st b" "g_root (demo_group st b) = Some (demo_root st)"
  "gr_lanes (demo_root st) = ''0|1|t0|g0''" "cs_regs (demo_sys st b) = demo_regs"
  by (simp_all add: demo_sys_def csys_init_def demo_group_def demo_root_def new_root_def demo_args_def)

lemma demo_text: "encode_lanes [demo_lane] = ''0|1|t0|g0''" "hex_encode [0xab] = ''ab''"
  by code_simp+

lemma demo_readable: "readable_group [demo_lane] (demo_group READY True)"
proof -
  have wf: "declaration_wf [demo_lane] [''t0''] [''g0'']"
    by (simp add: declaration_wf_def lanes_wf_def lane_wf_def slots_in_rank_order_def)
  show ?thesis
    unfolding readable_group_def
    by (rule exI [of _ "demo_root READY"])
      (auto simp: demo_group_def demo_root_def new_root_def demo_args_def demo_text(1) wf hm_ok_def hm_get_def
        lane_slots_ok_def slot_ok_def newline_def slots_in_rank_order_def u32_max_def u64_max_def
        intro: demo_text(2) [symmetric] split: if_splits)
qed

lemma demo_refresh:
  "refresh_group_state (\<lambda>_ s. s) t ''g'' (demo_sys READY True) = (Inr (), demo_sys READY True)"
proof -
  have "decode_lanes ''0|1|t0|g0'' = Inr [demo_lane]"
    using decode_encode_lanes [of "[demo_lane]"] unfolding demo_text
    by (simp add: lane_slots_ok_def slot_ok_def newline_def)
  moreover have "refresh_group_lua demo_regs [0] (demo_group READY True) ops = (REF_OK 1 READY, demo_group READY True, ops)" for ops
    by (simp add: demo_eval)
  moreover have "(demo_sys READY True)\<lparr>cs_group := (cs_group (demo_sys READY True))(''g'' := demo_group READY True),
      cs_op := cs_op (demo_sys READY True)\<rparr> = demo_sys READY True"
    by (simp add: demo_sys_def)
  moreover have "hm_get (render_root (Some (demo_root READY))) ''lanes'' = Some ''0|1|t0|g0''"
    by (simp add: render_root_def hm_get_def)
  ultimately show ?thesis
    by (simp add: refresh_group_state_def Let_def refresh_outcome_str_def starts_with_def)
qed

lemma read_group_undisturbed:
  assumes "refresh_group_state (\<lambda>_ s. s) t gid s = (Inr (), s)" and "readable_group lanes (cs_group s gid)"
  shows "\<exists>g. read_group (\<lambda>_ s. s) t gid s = (Inr g, s)"
proof -
  from assms(2) obtain r where r: "g_root (cs_group s gid) = Some r" "gr_epoch r \<le> u64_max"
    by (auto simp: readable_group_def)
  have "read_group_loop (Suc 4) (\<lambda>_ s. s) t gid s = (read_group_once gid s s s s, s)"
    unfolding read_group_once_result [OF assms(2) r(1)]
    by (simp only: read_group_loop.simps assms(1) Let_def sum.case prod.case read_group_once_result [OF assms(2) r(1)])
      (simp add: r root_fields parse_field_u64_def parse_u64_show)
  then show ?thesis
    unfolding read_group_def read_group_once_result [OF assms(2) r(1)] by (simp add: eval_nat_numeral)
qed

theorem read_group_within_one_epoch_witness:
  "\<exists>g. read_group (\<lambda>_ s. s) 0 ''g'' (demo_sys READY True) = (Inr g, demo_sys READY True) \<and> cg_epoch g = 1"
proof -
  let ?s = "demo_sys READY True"
  obtain g where g: "read_group (\<lambda>_ s. s) 0 ''g'' ?s = (Inr g, ?s)"
    using read_group_undisturbed [OF demo_refresh, of "[demo_lane]"] demo_readable by auto
  have "steady ''g'' (\<lambda>_ s. s)" by (simp add: steady_def)
  from read_group_within_one_epoch [OF this g] obtain k where
    "?s = seen_by (\<lambda>_ s. s) 0 ''g'' ?s k 4"
    "\<exists>r. g_root (cs_group (seen_by (\<lambda>_ s. s) 0 ''g'' ?s k 4) ''g'') = Some r \<and> gr_epoch r = cg_epoch g"
    unfolding Let_def by blast
  then have "\<exists>r. g_root (cs_group ?s ''g'') = Some r \<and> gr_epoch r = cg_epoch g" by metis
  with g show ?thesis by (auto simp: demo_root_def new_root_def)
qed

text \<open>
  On a stored group nobody touches, the reader returns what is stored: epoch, state, digest
  and declaration of the root, and for every declared lane its bootstrap and exactly the admitted
  members of the lane, in the order of their ranks.
\<close>

theorem read_group_once_returns_stored:
  assumes "readable_group lanes (cs_group s gid)" and "g_root (cs_group s gid) = Some r"
  shows "\<exists>g. read_group_once gid s s s s = Inr g \<and> cg_epoch g = gr_epoch r \<and> cg_state g = gr_state r
    \<and> cg_plan_digest g = gr_plan_digest r
    \<and> cg_expected_trainer_slots g = gr_trainer_slots r \<and> cg_expected_generator_slots g = gr_generator_slots r
    \<and> map cl_lane_id (cg_lanes g) = map ln_lane_id lanes
    \<and> (\<forall>i < length lanes.
         map cp_slot_id (cl_participants (cg_lanes g ! i))
           = filter (\<lambda>slot. hm_get (g_participants (cs_group s gid)) slot \<noteq> None) (slots_in_rank_order (lanes ! i))
         \<and> (\<forall>h. g_lanes (cs_group s gid) (ln_lane_id (lanes ! i)) = Some h \<longrightarrow>
              hex_encode (cl_nccl_unique_id (cg_lanes g ! i)) = lh_nccl_unique_id h
              \<and> cl_bootstrap_epoch (cg_lanes g ! i) = lh_bootstrap_epoch h))"
proof -
  let ?ps = "g_participants (cs_group s gid)"
  note rd = assms(1) [unfolded readable_group_def assms(2), simplified]
  have "map cp_slot_id (map (member_at ?ps l) (admitted_slots ?ps l)) = admitted_slots ?ps l" for l
    unfolding map_map by (rule map_idI) (use rd in \<open>auto simp: admitted_slots_def\<close>)
  moreover have "hex_encode (lane_bytes_of (Some h)) = lh_nccl_unique_id h"
    if "g_lanes (cs_group s gid) (ln_lane_id l) = Some h" "l \<in> set lanes" for l h
    using rd that by (fastforce simp: lane_bytes_of_def hex_decode_encode)
  ultimately show ?thesis
    unfolding read_group_once_result [OF assms]
    by (auto simp: lane_result_def admitted_slots_def comp_def)
qed

theorem read_group_once_returns_stored_witness:
  "\<exists>g. read_group_once ''g'' (demo_sys READY True) (demo_sys READY True) (demo_sys READY True) (demo_sys READY True) = Inr g
     \<and> map cp_slot_id (cl_participants (cg_lanes g ! 0)) = [''t0'', ''g0''] \<and> cl_bootstrap_epoch (cg_lanes g ! 0) = 1"
proof -
  let ?s = "demo_sys READY True"
  from read_group_once_returns_stored [of "[demo_lane]" ?s "''g''" "demo_root READY"] demo_readable
  obtain g where "read_group_once ''g'' ?s ?s ?s ?s = Inr g"
    "map cp_slot_id (cl_participants (cg_lanes g ! 0))
       = filter (\<lambda>slot. hm_get (g_participants (demo_group READY True)) slot \<noteq> None) (slots_in_rank_order demo_lane)"
    "\<And>h. g_lanes (demo_group READY True) (ln_lane_id demo_lane) = Some h \<Longrightarrow> cl_bootstrap_epoch (cg_lanes g ! 0) = lh_bootstrap_epoch h"
    by auto
  then show ?thesis by (simp add: demo_group_def slots_in_rank_order_def hm_get_def)
qed

text \<open>
  \<^verbatim>\<open>join_group\<close> answers what its script decided: a request whose declaration is accepted and
  whose slot is on a lane yields the membership with the script's epoch and state and the slot's
  assignments when the script admits the worker at an epoch that fits 64 bits, and the error of
  the refusal otherwise; the stored state is the one the script left.
\<close>

theorem join_group_answers_script:
  assumes "jr_spec req = Some spec" and "layout_for spec = Inr ll"
    and "assign_slot ll (jr_slot_id req) = Inr assignments" and "role_try_from (jr_role req) = Some role"
    and "join_group_lua (cs_regs s) (join_args (group_id_for sha256 spec) spec ll role now req)
           (cs_group s (group_id_for sha256 spec)) (cs_op s) = (out, g', ops')"
  shows "join_group sha256 now req s =
    (case out of
       JOIN_OK e st \<Rightarrow>
         if e \<le> u64_max
         then Inr \<lparr>gm_group_id = group_id_for sha256 spec, gm_epoch = e, gm_assignments = assignments, gm_state = st,
                   gm_is_bootstrap_leader = is_bootstrap_leader ll (jr_slot_id req)\<rparr>
         else Inl Internal
     | _ \<Rightarrow> Inl (join_error out),
     s\<lparr>cs_group := (cs_group s)(group_id_for sha256 spec := g'), cs_op := ops'\<rparr>)"
  using assms by (simp add: join_group_def join_reply_outcome Let_def split: JoinOut.split)

definition demo_join_request :: JoinCollectiveGroupRequest where
  "demo_join_request = \<lparr>jr_spec = Some (demo_spec False), jr_slot_id = ''g0'', jr_worker_id = ''w9'', jr_role = 2,
     jr_index_in_role = 0, jr_plan_digest = ''d'', jr_plan_source = None\<rparr>"

lemma demo_join_request_spec [simp]: "jr_spec demo_join_request = Some (demo_spec False)"
  by (simp add: demo_join_request_def)

theorem join_group_answers_script_witness:
  "fst (join_group (\<lambda>bs. bs) 0 demo_join_request csys_init) = Inl FailedPrecondition"
proof -
  let ?spec = "demo_spec False" and ?req = demo_join_request and ?sha = "\<lambda>bs :: u8 list. bs"
  have "declaration_wf (lanes_from_spec ?spec) [''t0'', ''t1''] [''g0'']"
    by (simp add: declaration_wf_def lanes_wf_def lane_wf_def lanes_from_spec_def demo_spec_def Let_def
        lane_kind_try_from_def slots_in_rank_order_def)
  then obtain ll where ll: "lane_layout_new (lanes_from_spec ?spec) [''t0'', ''t1''] [''g0''] = Inr ll"
    using layout_accepted_iff by blast
  have lf: "layout_for ?spec = Inr ll" using ll by (simp add: layout_for_def demo_spec_def Let_def)
  have "slot_assignments ''g0'' (lanes_from_spec ?spec) \<noteq> []"
    by (simp add: slot_assignments_empty lanes_from_spec_def demo_spec_def Let_def slots_in_rank_order_def)
  then obtain as where as: "assign_slot ll ''g0'' = Inr as"
    using layout_by_slot [OF ll, of "''g0''"] by (simp add: assign_slot_def)
  let ?gid = "group_id_for ?sha ?spec"
  have "join_group_lua (cs_regs csys_init) (join_args ?gid ?spec ll GENERATOR 0 ?req) (cs_group csys_init ?gid) (cs_op csys_init)
      = (UNREGISTERED, empty_group, \<lambda>_. None)"
    by (simp add: join_group_lua_def csys_init_def join_args_def demo_join_request_def demo_spec_def Let_def
        registration_matches_def)
  from join_group_answers_script [OF _ lf _ _ this, of as] as show ?thesis
    by (simp add: demo_join_request_def role_try_from_def join_error_def)
qed

end
