(* ===== verification/Collective_Service.thy ===== *)
theory Collective_Service
  imports Collective_Reads
begin

text \<open>
  The gRPC service of the collective control plane
  (\<^verbatim>\<open>refit_collective/service.rs\<close>): the validation of requests, the mapping of backend
  errors to status codes and the seven handlers over the methods of \<^verbatim>\<open>Collective_Redis\<close>.

  Shown here: which declarations are accepted, that a refused request leaves the stored state as
  it was, and that a join the service lets through is a step of the system of
  \<^verbatim>\<open>Collective_Group\<close>: its arguments are well formed and its plan source is one the script
  accepts, so that the invariants of that system hold for what the service does.
\<close>

datatype StatusCode =
    StatusInvalidArgument | StatusNotFound | StatusFailedPrecondition | StatusAlreadyExists
  | StatusInternal | StatusUnavailable

type_synonym 'a sresult = "StatusCode + 'a"

definition NCCL_UNIQUE_ID_BYTES :: nat where
  "NCCL_UNIQUE_ID_BYTES = 128"

definition required :: "string \<Rightarrow> unit sresult" where
  "required value = (if trim value = [] then Inl StatusInvalidArgument else Inr ())"

definition SLOT_DELIMITERS :: "char list" where
  "SLOT_DELIMITERS = [CHR 0x00, newline, CHR 0x0D, CHR ''|'', CHR '','']"

definition delimiter_free :: "string \<Rightarrow> char list \<Rightarrow> unit sresult" where
  "delimiter_free value delimiters =
     (case find (\<lambda>d. d \<in> set value) delimiters of
        Some _ \<Rightarrow> Inl StatusInvalidArgument | None \<Rightarrow> Inr ())"

fun backend_status :: "CollectiveBackendError \<Rightarrow> StatusCode" where
  "backend_status InvalidArgument = StatusInvalidArgument"
| "backend_status NotFound = StatusNotFound"
| "backend_status FailedPrecondition = StatusFailedPrecondition"
| "backend_status AlreadyExists = StatusAlreadyExists"
| "backend_status Internal = StatusInternal"
| "backend_status Unavailable = StatusUnavailable"

fun adjacent_equal :: "'a list \<Rightarrow> bool" where
  "adjacent_equal (x # y # zs) = (x = y \<or> adjacent_equal (y # zs))"
| "adjacent_equal _ = False"

definition has_duplicates :: "string list \<Rightarrow> bool" where
  "has_duplicates slots = adjacent_equal (sort slots)"

fun check_slots :: "string list \<Rightarrow> unit sresult" where
  "check_slots [] = Inr ()"
| "check_slots (slot # rest) =
     sum_bind (required slot) (\<lambda>_. sum_bind (delimiter_free slot SLOT_DELIMITERS) (\<lambda>_. check_slots rest))"

definition validate_spec :: "CollectiveGroupSpec option \<Rightarrow> CollectiveGroupSpec sresult" where
  "validate_spec spec =
     sum_bind (ok_or StatusInvalidArgument spec) (\<lambda>spec.
     sum_bind (required (sp_model_name spec)) (\<lambda>_.
     sum_bind (delimiter_free (sp_model_name spec) [CHR 0x00]) (\<lambda>_.
       if sp_expected_trainer_slots spec = [] then Inl StatusInvalidArgument
       else if sp_expected_generator_slots spec = [] then Inl StatusInvalidArgument
       else if sp_lanes spec = [] then Inl StatusInvalidArgument
       else if has_duplicates (sp_expected_trainer_slots spec) then Inl StatusInvalidArgument
       else if has_duplicates (sp_expected_generator_slots spec) then Inl StatusInvalidArgument
       else
         sum_bind (check_slots (sp_expected_trainer_slots spec)) (\<lambda>_.
         sum_bind (check_slots (sp_expected_generator_slots spec)) (\<lambda>_.
           if list_ex (\<lambda>slot. slot \<in> set (sp_expected_generator_slots spec)) (sp_expected_trainer_slots spec)
           then Inl StatusInvalidArgument
           else Inr spec)))))"

subsection \<open>Handlers\<close>

text \<open>Run a backend method once the checks have passed; a failed check leaves the state alone.\<close>

definition guarded :: "unit sresult \<Rightarrow> (CSys \<Rightarrow> 'a cresult \<times> CSys) \<Rightarrow> CSys \<Rightarrow> 'a sresult \<times> CSys" where
  "guarded checks method s =
     (case checks of
        Inl e \<Rightarrow> (Inl e, s)
      | Inr _ \<Rightarrow> (case method s of (x, s') \<Rightarrow> (map_err backend_status x, s')))"

definition ensure :: "bool \<Rightarrow> unit sresult" where
  "ensure b = (if b then Inr () else Inl StatusInvalidArgument)"

definition check_create :: "CreateCollectiveTransferRequest \<Rightarrow> unit sresult" where
  "check_create req =
     sum_bind (validate_spec (cr_spec req)) (\<lambda>_.
     sum_bind (required (cr_version_id req)) (\<lambda>_.
     sum_bind (required (cr_idempotency_key req)) (\<lambda>_.
       ensure (cr_expected_epoch req \<noteq> 0))))"

definition create_collective_transfer ::
  "(u8 list \<Rightarrow> u8 list) \<Rightarrow> env \<Rightarrow> nat \<Rightarrow> string \<Rightarrow> nat \<Rightarrow> CreateCollectiveTransferRequest \<Rightarrow> CSys
   \<Rightarrow> CollectiveTransfer sresult \<times> CSys" where
  "create_collective_transfer sha256 env t operation_id now req =
     guarded (check_create req) (create_transfer sha256 env t operation_id now req)"

definition get_collective_transfer :: "env \<Rightarrow> nat \<Rightarrow> string \<Rightarrow> CSys \<Rightarrow> CollectiveTransfer sresult \<times> CSys" where
  "get_collective_transfer env t operation_id = guarded (required operation_id) (get_transfer env t operation_id)"

definition delete_collective_transfer :: "env \<Rightarrow> nat \<Rightarrow> string \<Rightarrow> CSys \<Rightarrow> CollectiveTransfer sresult \<times> CSys" where
  "delete_collective_transfer env t operation_id = guarded (required operation_id) (delete_transfer env t operation_id)"

definition check_plan_source :: "JoinCollectiveGroupRequest \<Rightarrow> CRole \<Rightarrow> unit sresult" where
  "check_plan_source req role =
     (case jr_plan_source req of
        None \<Rightarrow> Inr ()
      | Some source \<Rightarrow>
          sum_bind (required (ps_worker_id source)) (\<lambda>_.
          sum_bind (required (ps_endpoint source)) (\<lambda>_.
          sum_bind (required (ps_digest source)) (\<lambda>_.
          sum_bind (ensure (ps_digest source = jr_plan_digest req)) (\<lambda>_.
          sum_bind (ensure (ps_worker_id source = jr_worker_id req)) (\<lambda>_.
            ensure (role = TRAINER \<and> jr_index_in_role req = 0)))))))"

definition check_join :: "JoinCollectiveGroupRequest \<Rightarrow> unit sresult" where
  "check_join req =
     sum_bind (validate_spec (jr_spec req)) (\<lambda>_.
     sum_bind (required (jr_slot_id req)) (\<lambda>_.
     sum_bind (required (jr_worker_id req)) (\<lambda>_.
     sum_bind (required (jr_plan_digest req)) (\<lambda>_.
     sum_bind (delimiter_free (jr_slot_id req) SLOT_DELIMITERS) (\<lambda>_.
     sum_bind (delimiter_free (jr_worker_id req) [CHR 0x00, CHR ''|'']) (\<lambda>_.
     sum_bind (ok_or StatusInvalidArgument (role_try_from (jr_role req))) (\<lambda>role.
       check_plan_source req role)))))))"

definition join_collective_group ::
  "(u8 list \<Rightarrow> u8 list) \<Rightarrow> nat \<Rightarrow> JoinCollectiveGroupRequest \<Rightarrow> CSys \<Rightarrow> CollectiveGroupMembership sresult \<times> CSys" where
  "join_collective_group sha256 now req = guarded (check_join req) (join_group sha256 now req)"

definition get_collective_group :: "env \<Rightarrow> nat \<Rightarrow> string \<Rightarrow> CSys \<Rightarrow> CollectiveGroup sresult \<times> CSys" where
  "get_collective_group env t group_id = guarded (required group_id) (get_group env t group_id)"

definition check_publish :: "PublishGroupBootstrapRequest \<Rightarrow> unit sresult" where
  "check_publish req =
     sum_bind (required (pr_group_id req)) (\<lambda>_.
     sum_bind (required (pr_worker_id req)) (\<lambda>_.
     sum_bind (ensure (pr_epoch req \<noteq> 0)) (\<lambda>_.
       ensure (length (pr_nccl_unique_id req) = NCCL_UNIQUE_ID_BYTES))))"

definition publish_group_bootstrap ::
  "env \<Rightarrow> nat \<Rightarrow> PublishGroupBootstrapRequest \<Rightarrow> CSys \<Rightarrow> CollectiveGroup sresult \<times> CSys" where
  "publish_group_bootstrap env t req = guarded (check_publish req) (publish_bootstrap env t req)"

definition check_report :: "ReportCollectiveTransferRequest \<Rightarrow> unit sresult" where
  "check_report req =
     sum_bind (required (rr_operation_id req)) (\<lambda>_.
     sum_bind (required (rr_group_id req)) (\<lambda>_.
     sum_bind (required (rr_worker_id req)) (\<lambda>_.
     sum_bind (ensure (rr_epoch req \<noteq> 0)) (\<lambda>_.
       ensure (rr_succeeded req \<or> trim (rr_message req) \<noteq> [])))))"

definition report_collective_transfer ::
  "env \<Rightarrow> nat \<Rightarrow> ReportCollectiveTransferRequest \<Rightarrow> CSys \<Rightarrow> CollectiveTransfer sresult \<times> CSys" where
  "report_collective_transfer env t req = guarded (check_report req) (report_transfer env t req)"

subsection \<open>Validation\<close>

lemma required_Inr: "required v = Inr u \<longleftrightarrow> trim v \<noteq> []"
  by (simp add: required_def)

lemma required_nonempty: "required v = Inr u \<Longrightarrow> v \<noteq> []"
  by (auto simp: required_def trim_def split: if_splits)

lemma delimiter_free_Inr: "delimiter_free v ds = Inr u \<longleftrightarrow> (\<forall>d\<in>set ds. d \<notin> set v)"
  by (auto simp: delimiter_free_def find_None_iff find_Some_iff split: option.splits)

lemma ensure_Inr [simp]: "ensure b = Inr u \<longleftrightarrow> b"
  by (simp add: ensure_def)

lemma adjacent_equal_sorted: "sorted xs \<Longrightarrow> adjacent_equal xs \<longleftrightarrow> \<not> distinct (xs :: string list)"
proof (induction xs rule: adjacent_equal.induct)
  case (1 x y zs)
  then show ?case by (auto simp: order.antisym)
qed auto

lemma has_duplicates_iff: "has_duplicates slots \<longleftrightarrow> \<not> distinct slots"
  by (simp add: has_duplicates_def adjacent_equal_sorted)

definition slot_valid :: "string \<Rightarrow> bool" where
  "slot_valid s \<longleftrightarrow> trim s \<noteq> [] \<and> (\<forall>d\<in>set SLOT_DELIMITERS. d \<notin> set s)"

lemma check_slots_Inr: "check_slots ss = Inr u \<longleftrightarrow> (\<forall>s\<in>set ss. slot_valid s)"
  by (induction ss) (auto simp: sum_bind_Inr_iff required_Inr delimiter_free_Inr slot_valid_def)

lemma slot_valid_ok: "slot_valid s \<Longrightarrow> slot_ok s"
  by (auto simp: slot_valid_def slot_ok_def SLOT_DELIMITERS_def trim_def)

definition spec_valid :: "CollectiveGroupSpec \<Rightarrow> bool" where
  "spec_valid spec \<longleftrightarrow> trim (sp_model_name spec) \<noteq> [] \<and> CHR 0x00 \<notin> set (sp_model_name spec)
     \<and> sp_expected_trainer_slots spec \<noteq> [] \<and> sp_expected_generator_slots spec \<noteq> [] \<and> sp_lanes spec \<noteq> []
     \<and> distinct (sp_expected_trainer_slots spec @ sp_expected_generator_slots spec)
     \<and> (\<forall>s\<in>set (sp_expected_trainer_slots spec @ sp_expected_generator_slots spec). slot_valid s)"

lemma validate_spec_Inr: "validate_spec spec = Inr x \<longleftrightarrow> spec = Some x \<and> spec_valid x"
  by (cases spec)
    (auto simp: validate_spec_def sum_bind_Inr_iff ok_or_Inr_iff required_Inr delimiter_free_Inr check_slots_Inr
      has_duplicates_iff spec_valid_def list_ex_iff)

subsection \<open>Joins the service lets through\<close>

lemma check_join_Inr:
  assumes "check_join req = Inr u"
  obtains spec role where "jr_spec req = Some spec" "spec_valid spec" "role_try_from (jr_role req) = Some role"
    "check_plan_source req role = Inr u" "slot_valid (jr_slot_id req)" "CHR ''|'' \<notin> set (jr_worker_id req)"
    "jr_worker_id req \<noteq> []"
  using assms required_nonempty [of "jr_worker_id req"]
  by (auto simp: check_join_def sum_bind_Inr_iff validate_spec_Inr ok_or_Inr_iff required_Inr delimiter_free_Inr slot_valid_def)

lemma join_args_sel [simp]:
  "ja_group_id (join_args gid spec ll role now req) = gid"
  "ja_trainer_slots (join_args gid spec ll role now req) = sp_expected_trainer_slots spec"
  "ja_generator_slots (join_args gid spec ll role now req) = sp_expected_generator_slots spec"
  "ja_model_name (join_args gid spec ll role now req) = sp_model_name spec"
  "ja_expected_total (join_args gid spec ll role now req) = unat (u32_saturating_add (ll_trainer_count ll) (ll_generator_count ll))"
  "ja_role (join_args gid spec ll role now req) = role"
  "ja_worker_id (join_args gid spec ll role now req) = jr_worker_id req"
  "ja_slot_id (join_args gid spec ll role now req) = jr_slot_id req"
  "ja_index (join_args gid spec ll role now req) = unat (jr_index_in_role req)"
  by (simp_all add: join_args_def Let_def)

lemma layout_for_counts:
  assumes "layout_for spec = Inr ll"
    and "length (sp_expected_trainer_slots spec) + length (sp_expected_generator_slots spec) \<le> u32_max"
  shows "unat (u32_saturating_add (ll_trainer_count ll) (ll_generator_count ll)) =
    length (sp_expected_trainer_slots spec) + length (sp_expected_generator_slots spec)"
proof -
  from assms(1) have "lane_layout_new (lanes_from_spec spec) (sp_expected_trainer_slots spec) (sp_expected_generator_slots spec) = Inr ll"
    by (simp add: layout_for_def map_err_Inr_iff)
  then show ?thesis
    by (elim lane_layout_new_Inr) (use assms(2) in \<open>simp add: unat_u32_saturating_add unat_u32_sat\<close>)
qed

definition agrees_with_root :: "CollectiveGroupSpec \<Rightarrow> Group \<Rightarrow> bool" where
  "agrees_with_root spec g \<longleftrightarrow> (\<forall>r. g_root g = Some r \<longrightarrow>
     gr_model_name r = sp_model_name spec
     \<and> gr_expected_total r = length (sp_expected_trainer_slots spec) + length (sp_expected_generator_slots spec)
     \<and> set (gr_trainer_slots r) = set (sp_expected_trainer_slots spec)
     \<and> set (gr_generator_slots r) = set (sp_expected_generator_slots spec))"

lemma join_group_state:
  assumes "join_group sha256 now req s = (res, s')" "jr_spec req = Some spec"
  obtains (refused) "s' = s"
  | (ran) ll role out g' ops' where "layout_for spec = Inr ll" "role_try_from (jr_role req) = Some role"
      "join_group_lua (cs_regs s) (join_args (group_id_for sha256 spec) spec ll role now req)
         (cs_group s (group_id_for sha256 spec)) (cs_op s) = (out, g', ops')"
      "s' = s\<lparr>cs_group := (cs_group s)(group_id_for sha256 spec := g'), cs_op := ops'\<rparr>"
      "\<exists>as. assign_slot ll (jr_slot_id req) = Inr as"
proof (cases "\<exists>ll role. layout_for spec = Inr ll \<and> role_try_from (jr_role req) = Some role
    \<and> (\<exists>as. assign_slot ll (jr_slot_id req) = Inr as)")
  case False
  then have "s' = s"
    using assms by (auto simp: join_group_def map_err_def split: sum.splits option.splits)
  then show ?thesis by (rule refused)
next
  case True
  then obtain ll role as where ll: "layout_for spec = Inr ll" "role_try_from (jr_role req) = Some role"
    and as: "assign_slot ll (jr_slot_id req) = Inr as" by blast
  let ?gid = "group_id_for sha256 spec"
  obtain out g' ops' where run: "join_group_lua (cs_regs s) (join_args ?gid spec ll role now req)
      (cs_group s ?gid) (cs_op s) = (out, g', ops')" by (metis prod_cases3)
  have "snd (join_group sha256 now req s) = s\<lparr>cs_group := (cs_group s)(?gid := g'), cs_op := ops'\<rparr>"
    by (simp add: join_group_def Let_def assms(2) ll as run)
  with assms(1) have "s' = s\<lparr>cs_group := (cs_group s)(?gid := g'), cs_op := ops'\<rparr>" by simp
  with as show ?thesis by (intro ran [OF ll run]) auto
qed

text \<open>
  \<^verbatim>\<open>validate_spec\<close> accepts exactly the declarations with a non-blank model name without a NUL,
  at least one trainer slot, generator slot and lane, pairwise distinct slots over both roles, and
  slot names that are non-blank and free of the delimiters the stored records split on.
\<close>

theorem validate_spec_accepts_iff:
  "validate_spec (Some spec) = Inr spec \<longleftrightarrow>
     trim (sp_model_name spec) \<noteq> [] \<and> CHR 0x00 \<notin> set (sp_model_name spec)
     \<and> sp_expected_trainer_slots spec \<noteq> [] \<and> sp_expected_generator_slots spec \<noteq> [] \<and> sp_lanes spec \<noteq> []
     \<and> distinct (sp_expected_trainer_slots spec @ sp_expected_generator_slots spec)
     \<and> list_all (\<lambda>s. trim s \<noteq> [] \<and> set s \<inter> set SLOT_DELIMITERS = {})
         (sp_expected_trainer_slots spec @ sp_expected_generator_slots spec)"
  unfolding validate_spec_Inr spec_valid_def slot_valid_def list_all_iff by auto

text \<open>
  A join through the service is a step of the modelled system or changes nothing. The group
  identity is derived from the declaration, so a group found under it is assumed to have been
  created for the same membership; everything else the step relation asks of a join, distinct
  slots and a total that is their number, follows from the service's own checks.
\<close>

theorem service_join_is_step:
  assumes "join_collective_group sha256 now req s = (res, s')" and "jr_spec req = Some spec"
    and "length (sp_expected_trainer_slots spec) + length (sp_expected_generator_slots spec) \<le> u32_max"
    and "agrees_with_root spec (cs_group s (group_id_for sha256 spec))"
  shows "s' = s \<or> cstep s s'"
proof (cases "check_join req")
  case (Inl e)
  with assms(1) show ?thesis by (simp add: join_collective_group_def guarded_def)
next
  case (Inr u)
  from check_join_Inr [OF Inr] assms(2) have valid: "spec_valid spec" by auto
  from assms(1) Inr obtain res' where "join_group sha256 now req s = (res', s')"
    by (auto simp: join_collective_group_def guarded_def split: prod.splits)
  then show ?thesis using assms(2)
  proof (cases rule: join_group_state)
    case (ran ll role out g' ops')
    let ?a = "join_args (group_id_for sha256 spec) spec ll role now req"
    have total: "ja_expected_total ?a = length (sp_expected_trainer_slots spec) + length (sp_expected_generator_slots spec)"
      using layout_for_counts [OF ran(1) assms(3)] by simp
    then have "args_wf ?a" using valid by (simp add: args_wf_def spec_valid_def)
    moreover have "same_declaration ?a (cs_group s (ja_group_id ?a))"
      using assms(4) total by (auto simp: same_declaration_def agrees_with_root_def split: option.splits)
    ultimately show ?thesis using cstep.join [of ?a s out g' ops'] ran(3,4) by simp
  qed simp
qed

theorem service_join_is_step_witness:
  "snd (join_collective_group (\<lambda>bs. bs) 0 demo_join_request csys_init) = csys_init
   \<or> cstep csys_init (snd (join_collective_group (\<lambda>bs. bs) 0 demo_join_request csys_init))"
proof -
  let ?r = "join_collective_group (\<lambda>bs. bs) 0 demo_join_request csys_init"
  have root: "agrees_with_root (demo_spec False) (cs_group csys_init (group_id_for (\<lambda>bs. bs) (demo_spec False)))"
    by (simp add: agrees_with_root_def csys_init_def empty_group_def)
  have small: "length (sp_expected_trainer_slots (demo_spec False)) + length (sp_expected_generator_slots (demo_spec False)) \<le> u32_max"
    by (simp add: demo_spec_def Let_def u32_max_def)
  show ?thesis
    by (rule service_join_is_step [where res = "fst ?r", OF _ demo_join_request_spec small root]) simp
qed

text \<open>
  The service's checks on a plan source are the script's: a request that passes them is never
  refused by the script as an invalid plan source.
\<close>

theorem service_checks_plan_source:
  assumes "check_join req = Inr u" and "role_try_from (jr_role req) = Some role"
  shows "fst (join_group_lua regs (join_args gid spec ll role now req) g ops) \<noteq> INVALID_PLAN_SOURCE"
proof -
  let ?a = "join_args gid spec ll role now req"
  have src: "ja_ps_worker ?a = [] \<or> (role = TRAINER \<and> ja_index ?a = 0 \<and> ja_ps_worker ?a = ja_worker_id ?a)"
  proof (cases "jr_plan_source req")
    case None then show ?thesis by (simp add: join_args_def)
  next
    case (Some source)
    from check_join_Inr [OF assms(1)] assms(2) have "check_plan_source req role = Inr u" by auto
    with Some show ?thesis by (auto simp: check_plan_source_def sum_bind_Inr_iff join_args_def)
  qed
  have adm: "fst (join_admit regs a r ch h os) \<noteq> INVALID_PLAN_SOURCE" for a r ch h os
    by (simp add: join_admit_def Let_def)
  have dup: "check_duplicates a ps \<noteq> Some INVALID_PLAN_SOURCE" for a ps
    by (induction a ps rule: check_duplicates.induct) (auto split: prec.splits)
  have ex: "check_existing a b r ps \<noteq> Inl INVALID_PLAN_SOURCE" for a b r ps
    by (auto simp: check_existing_def split: option.splits prec.splits)
  have "fst (join_existing regs a r g ops) \<noteq> INVALID_PLAN_SOURCE" for a r
    using adm dup ex by (auto simp: join_existing_def Let_def split: prod.splits sum.splits option.splits)
  with src adm show ?thesis by (auto simp: join_group_lua_def Let_def split: option.splits)
qed

theorem service_checks_plan_source_witness:
  "fst (join_group_lua demo_regs (join_args [] (demo_spec False)
       \<lparr>ll_lanes = [], ll_by_slot = [], ll_trainer_count = 2, ll_generator_count = 1\<rparr> GENERATOR 0 demo_join_request) empty_group (\<lambda>_. None))
     \<noteq> INVALID_PLAN_SOURCE"
proof (rule service_checks_plan_source)
  show "check_join demo_join_request = Inr ()"
    unfolding check_join_def sum_bind_Inr_iff validate_spec_Inr ok_or_Inr_iff required_Inr delimiter_free_Inr
    by (auto simp: demo_join_request_def demo_spec_def Let_def spec_valid_def slot_valid_def SLOT_DELIMITERS_def newline_def
        trim_def is_whitespace_def role_try_from_def check_plan_source_def)
  show "role_try_from (jr_role demo_join_request) = Some GENERATOR"
    by (simp add: demo_join_request_def role_try_from_def)
qed

end
