(* ===== verification/P2p_Records.thy ===== *)
theory P2p_Records
  imports MX_Text "HOL-Library.Char_ord" "HOL-Library.List_Lexorder" "HOL-Library.Multiset"
begin

text \<open>
  Records of the peer-to-peer metadata service: the conversions between the gRPC messages and
  the stored records and the default filter of \<^verbatim>\<open>MetadataBackend\<close>
  (\<^verbatim>\<open>p2p/backend.rs\<close>), and the content-addressed source identity
  (\<^verbatim>\<open>p2p/source_identity.rs\<close>).

  The JSON printer of \<^verbatim>\<open>serde_json\<close> and SHA-256 are arguments. A float is the bit pattern
  it is stored as; lower-casing is the one of ASCII.

  Shown here: stored records survive the message format, a record read back with its backend
  type is the one written, the filtered listing is the newest matching prefix, and the canonical
  payload of an identity depends on its fields up to case only, not on the order of its
  parameters.
\<close>

type_synonym f32 = "32 word"
type_synonym params = "(string, string) hash_map"

subsection \<open>p2p/backend.rs\<close>

datatype BackendMetadataRecord = Nixl "u8 list" | TransferEngine string | NoBackend

definition from_flat :: "u8 list \<Rightarrow> string option \<Rightarrow> string option \<Rightarrow> BackendMetadataRecord" where
  "from_flat nixl_metadata session_id backend_type =
     (if backend_type = Some ''transfer_engine''
      then TransferEngine (case session_id of Some sid \<Rightarrow> sid | None \<Rightarrow> [])
      else if backend_type = Some ''nixl'' then Nixl nixl_metadata
      else if backend_type = Some ''none'' then NoBackend
      else case session_id of
             Some sid \<Rightarrow> if sid \<noteq> [] then TransferEngine sid
                        else if nixl_metadata \<noteq> [] then Nixl nixl_metadata else NoBackend
           | None \<Rightarrow> if nixl_metadata \<noteq> [] then Nixl nixl_metadata else NoBackend)"

fun backend_type_str :: "BackendMetadataRecord \<Rightarrow> string" where
  "backend_type_str (Nixl _) = ''nixl''"
| "backend_type_str (TransferEngine _) = ''transfer_engine''"
| "backend_type_str NoBackend = ''none''"

record TensorRecord =
  tr_name :: string
  tr_addr :: u64
  tr_size :: u64
  tr_device_id :: u32
  tr_dtype :: string

record TensorDescriptor =
  td_name :: string
  td_addr :: u64
  td_size :: u64
  td_device_id :: u32
  td_dtype :: string

record ArtifactSourceMetadataRecord =
  ar_artifact_id :: string
  ar_total_size :: u64
  ar_file_count :: u32
  ar_chunk_count :: u32
  ar_node_rank :: u32

record ArtifactSourceMetadata =
  am_artifact_id :: string
  am_total_size :: u64
  am_file_count :: u32
  am_chunk_count :: u32
  am_node_rank :: u32

datatype BackendMetadata = NixlMetadata "u8 list" | TransferEngineSessionId string
datatype SourcePayload = TensorSource "TensorDescriptor list" | ArtifactSource ArtifactSourceMetadata

record WorkerRecord =
  wr_worker_rank :: u32
  wr_backend_metadata :: BackendMetadataRecord
  wr_tensors :: "TensorRecord list"
  wr_status :: int
  wr_updated_at :: int
  wr_metadata_endpoint :: string
  wr_agent_name :: string
  wr_worker_grpc_endpoint :: string
  wr_accelerator :: string
  wr_source_load :: "f32 option"
  wr_topology :: params
  wr_artifact_source :: "ArtifactSourceMetadataRecord option"

record WorkerMetadata =
  wm_worker_rank :: u32
  wm_backend_metadata :: "BackendMetadata option"
  wm_tensors :: "TensorDescriptor list"
  wm_status :: int
  wm_updated_at :: int
  wm_metadata_endpoint :: string
  wm_agent_name :: string
  wm_worker_grpc_endpoint :: string
  wm_accelerator :: string
  wm_topology :: params
  wm_source_payload :: "SourcePayload option"

definition tensor_record_from :: "TensorDescriptor \<Rightarrow> TensorRecord" where
  "tensor_record_from d = \<lparr>tr_name = td_name d, tr_addr = td_addr d, tr_size = td_size d,
     tr_device_id = td_device_id d, tr_dtype = td_dtype d\<rparr>"

definition tensor_descriptor_from :: "TensorRecord \<Rightarrow> TensorDescriptor" where
  "tensor_descriptor_from r = \<lparr>td_name = tr_name r, td_addr = tr_addr r, td_size = tr_size r,
     td_device_id = tr_device_id r, td_dtype = tr_dtype r\<rparr>"

definition artifact_record_from :: "ArtifactSourceMetadata \<Rightarrow> ArtifactSourceMetadataRecord" where
  "artifact_record_from m = \<lparr>ar_artifact_id = am_artifact_id m, ar_total_size = am_total_size m,
     ar_file_count = am_file_count m, ar_chunk_count = am_chunk_count m, ar_node_rank = am_node_rank m\<rparr>"

definition artifact_metadata_from :: "ArtifactSourceMetadataRecord \<Rightarrow> ArtifactSourceMetadata" where
  "artifact_metadata_from r = \<lparr>am_artifact_id = ar_artifact_id r, am_total_size = ar_total_size r,
     am_file_count = ar_file_count r, am_chunk_count = ar_chunk_count r, am_node_rank = ar_node_rank r\<rparr>"

definition worker_record_from :: "WorkerMetadata \<Rightarrow> WorkerRecord" where
  "worker_record_from meta =
     (let (tensors, artifact_source) =
            (case wm_source_payload meta of
               Some (TensorSource ts) \<Rightarrow> (ts, None)
             | Some (ArtifactSource a) \<Rightarrow> ([], Some (artifact_record_from a))
             | None \<Rightarrow> (wm_tensors meta, None))
      in \<lparr>wr_worker_rank = wm_worker_rank meta,
          wr_backend_metadata =
            (case wm_backend_metadata meta of
               Some (NixlMetadata d) \<Rightarrow> Nixl d | Some (TransferEngineSessionId sid) \<Rightarrow> TransferEngine sid
             | None \<Rightarrow> NoBackend),
          wr_tensors = map tensor_record_from tensors, wr_status = wm_status meta,
          wr_updated_at = wm_updated_at meta, wr_metadata_endpoint = wm_metadata_endpoint meta,
          wr_agent_name = wm_agent_name meta, wr_worker_grpc_endpoint = wm_worker_grpc_endpoint meta,
          wr_accelerator = wm_accelerator meta, wr_source_load = None, wr_topology = wm_topology meta,
          wr_artifact_source = artifact_source\<rparr>)"

definition worker_metadata_from :: "WorkerRecord \<Rightarrow> WorkerMetadata" where
  "worker_metadata_from r =
     (let tensors = map tensor_descriptor_from (wr_tensors r);
          (legacy_tensors, source_payload) =
            (case wr_artifact_source r of
               Some a \<Rightarrow> ([], ArtifactSource (artifact_metadata_from a))
             | None \<Rightarrow> (tensors, TensorSource tensors))
      in \<lparr>wm_worker_rank = wr_worker_rank r,
          wm_backend_metadata =
            (case wr_backend_metadata r of
               Nixl d \<Rightarrow> Some (NixlMetadata d) | TransferEngine sid \<Rightarrow> Some (TransferEngineSessionId sid)
             | NoBackend \<Rightarrow> None),
          wm_tensors = legacy_tensors, wm_status = wr_status r, wm_updated_at = wr_updated_at r,
          wm_metadata_endpoint = wr_metadata_endpoint r, wm_agent_name = wr_agent_name r,
          wm_worker_grpc_endpoint = wr_worker_grpc_endpoint r, wm_accelerator = wr_accelerator r,
          wm_topology = wr_topology r, wm_source_payload = Some source_payload\<rparr>)"

definition parse_training_step :: "params \<Rightarrow> nat option" where
  "parse_training_step extra =
     (case (case hm_get extra ''training_step'' of Some v \<Rightarrow> Some v | None \<Rightarrow> hm_get extra ''version'') of
        Some v \<Rightarrow> parse_u64 v | None \<Rightarrow> None)"

definition parse_layout_signature :: "params \<Rightarrow> string option" where
  "parse_layout_signature extra =
     (case hm_get extra ''layout_signature'' of Some v \<Rightarrow> if v \<noteq> [] then Some v else None | None \<Rightarrow> None)"

record SourceInstanceInfo =
  ii_source_id :: string
  ii_worker_id :: string
  ii_model_name :: string
  ii_worker_rank :: u32
  ii_status :: int
  ii_updated_at :: int
  ii_accelerator :: string
  ii_source_load :: "f32 option"
  ii_topology :: params
  ii_training_step :: "nat option"
  ii_layout_signature :: "string option"
  ii_owner_namespace :: "string option"

text \<open>The default \<^verbatim>\<open>list_workers_filtered\<close>, over the answer of \<^verbatim>\<open>list_workers\<close>.\<close>

definition is_none_or :: "('a \<Rightarrow> bool) \<Rightarrow> 'a option \<Rightarrow> bool" where
  "is_none_or p x = (case x of None \<Rightarrow> True | Some a \<Rightarrow> p a)"

definition keep_worker ::
  "string option \<Rightarrow> u32 option \<Rightarrow> nat option \<Rightarrow> int option \<Rightarrow> SourceInstanceInfo \<Rightarrow> bool" where
  "keep_worker model rank min_step min_updated w =
     (is_none_or (\<lambda>m. ii_model_name w = m) model
      \<and> is_none_or (\<lambda>r. ii_worker_rank w = r) rank
      \<and> is_none_or (\<lambda>step. case ii_training_step w of Some v \<Rightarrow> step \<le> v | None \<Rightarrow> False) min_step
      \<and> is_none_or (\<lambda>t. t \<le> ii_updated_at w) min_updated)"

definition list_workers_filtered ::
  "SourceInstanceInfo list \<Rightarrow> string option \<Rightarrow> u32 option \<Rightarrow> nat option \<Rightarrow> int option \<Rightarrow> nat option
   \<Rightarrow> SourceInstanceInfo list" where
  "list_workers_filtered listed model rank min_step min_updated limit =
     (let kept = sort_key (\<lambda>w. - ii_updated_at w) (filter (keep_worker model rank min_step min_updated) listed)
      in case limit of
           Some n \<Rightarrow> if n > 0 then take n kept else kept
         | None \<Rightarrow> kept)"

subsection \<open>p2p/source\_identity.rs\<close>

record SourceIdentity =
  si_mx_version :: string
  si_mx_source_type :: int
  si_model_name :: string
  si_backend_framework :: int
  si_tensor_parallel_size :: u32
  si_pipeline_parallel_size :: u32
  si_expert_parallel_size :: u32
  si_dtype :: string
  si_quantization :: string
  si_extra_parameters :: params
  si_revision :: string
  si_backend_framework_version :: string
  si_torch_version :: string
  si_cuda_version :: string
  si_triton_version :: string
  si_gpu_arch :: string
  si_compile_config_digest :: string

datatype json = JNum int | JStr string | JMap "(string, string) btree_map"

type_synonym json_object = "(string, json) btree_map"

definition validate_identity :: "SourceIdentity \<Rightarrow> string + unit" where
  "validate_identity i = (if si_model_name i = [] then Inl ''identity.model_name is required'' else Inr ())"

definition sorted_extra :: "params \<Rightarrow> (string, string) btree_map" where
  "sorted_extra extra =
     fold (\<lambda>(k, v) m. bt_or_insert (to_lowercase k) (to_lowercase v) m) (sort_key fst extra) []"

definition insert_non_empty_lowercase :: "string \<Rightarrow> string \<Rightarrow> json_object \<Rightarrow> json_object" where
  "insert_non_empty_lowercase key value obj =
     (if value \<noteq> [] then bt_insert key (JStr (to_lowercase value)) obj else obj)"

definition base_payload :: "SourceIdentity \<Rightarrow> json_object" where
  "base_payload i =
     fold (\<lambda>(k, v). bt_insert k v)
       [(''mx_version'', JStr (to_lowercase (si_mx_version i))), (''mx_source_type'', JNum (si_mx_source_type i)),
        (''model_name'', JStr (to_lowercase (si_model_name i))), (''backend_framework'', JNum (si_backend_framework i)),
        (''tensor_parallel_size'', JNum (uint (si_tensor_parallel_size i))),
        (''pipeline_parallel_size'', JNum (uint (si_pipeline_parallel_size i))),
        (''expert_parallel_size'', JNum (uint (si_expert_parallel_size i))),
        (''dtype'', JStr (to_lowercase (si_dtype i))), (''quantization'', JStr (to_lowercase (si_quantization i))),
        (''extra_parameters'', JMap (sorted_extra (si_extra_parameters i))),
        (''revision'', JStr (to_lowercase (si_revision i)))] []"

definition canonical_payload :: "SourceIdentity \<Rightarrow> json_object" where
  "canonical_payload i =
     insert_non_empty_lowercase ''compile_config_digest'' (si_compile_config_digest i)
     (insert_non_empty_lowercase ''gpu_arch'' (si_gpu_arch i)
     (insert_non_empty_lowercase ''triton_version'' (si_triton_version i)
     (insert_non_empty_lowercase ''cuda_version'' (si_cuda_version i)
     (insert_non_empty_lowercase ''torch_version'' (si_torch_version i)
     (insert_non_empty_lowercase ''backend_framework_version'' (si_backend_framework_version i)
       (base_payload i))))))"

definition canonical_json :: "(json_object \<Rightarrow> string) \<Rightarrow> SourceIdentity \<Rightarrow> string" where
  "canonical_json to_json i = to_json (canonical_payload i)"

definition compute_mx_source_id :: "(string \<Rightarrow> string) \<Rightarrow> (json_object \<Rightarrow> string) \<Rightarrow> SourceIdentity \<Rightarrow> string" where
  "compute_mx_source_id sha256_hex to_json i = take 16 (sha256_hex (canonical_json to_json i))"

subsection \<open>Conversions\<close>

lemma tensor_roundtrip [simp]: "tensor_record_from (tensor_descriptor_from r) = r"
  by (simp add: tensor_record_from_def tensor_descriptor_from_def)

lemma artifact_roundtrip [simp]: "artifact_record_from (artifact_metadata_from r) = r"
  by (simp add: artifact_record_from_def artifact_metadata_from_def)

lemma from_flat_type:
  "from_flat nixl session (Some (backend_type_str b)) =
     (case b of Nixl _ \<Rightarrow> Nixl nixl | TransferEngine _ \<Rightarrow> TransferEngine (case session of Some s \<Rightarrow> s | None \<Rightarrow> [])
      | NoBackend \<Rightarrow> NoBackend)"
  by (cases b) (simp_all add: from_flat_def)

text \<open>
  A stored worker record survives the message format: converting it to the gRPC message and
  back gives the record, with the load it does not carry cleared, as long as an artifact source
  stores no tensors of its own.
\<close>

theorem worker_record_roundtrip:
  assumes "wr_artifact_source r \<noteq> None \<longrightarrow> wr_tensors r = []"
  shows "worker_record_from (worker_metadata_from r) = r\<lparr>wr_source_load := None\<rparr>"
proof -
  have "map (tensor_record_from \<circ> tensor_descriptor_from) ts = ts" for ts by (rule map_idI) simp
  with assms show ?thesis
    by (cases r)
      (auto simp: worker_record_from_def worker_metadata_from_def Let_def
        split: option.splits BackendMetadataRecord.splits)
qed

definition demo_worker :: WorkerRecord where
  "demo_worker = \<lparr>wr_worker_rank = 3, wr_backend_metadata = TransferEngine ''h:1'',
     wr_tensors = [\<lparr>tr_name = ''w'', tr_addr = 16, tr_size = 4, tr_device_id = 0, tr_dtype = ''bf16''\<rparr>],
     wr_status = 2, wr_updated_at = 7, wr_metadata_endpoint = [], wr_agent_name = ''a'', wr_worker_grpc_endpoint = [],
     wr_accelerator = ''cuda'', wr_source_load = Some 1, wr_topology = [], wr_artifact_source = None\<rparr>"

theorem worker_record_roundtrip_witness:
  "worker_record_from (worker_metadata_from demo_worker) = demo_worker\<lparr>wr_source_load := None\<rparr>"
  by (rule worker_record_roundtrip) (simp add: demo_worker_def)

subsection \<open>The filtered listing\<close>

text \<open>
  The filtered listing returns only workers that pass every given predicate, newest first; it
  returns all of them when no positive limit is given, and otherwise the first of that order, so
  that a worker left out by the limit is never newer than one returned.
\<close>

theorem filtered_listing_newest_first:
  "\<exists>rest. mset (list_workers_filtered listed model rank min_step min_updated limit @ rest)
       = mset (filter (keep_worker model rank min_step min_updated) listed)
     \<and> sorted (map (\<lambda>w. - ii_updated_at w) (list_workers_filtered listed model rank min_step min_updated limit @ rest))
     \<and> length (list_workers_filtered listed model rank min_step min_updated limit)
         = (case limit of
              Some n \<Rightarrow> if n > 0 then min n (length (filter (keep_worker model rank min_step min_updated) listed))
                        else length (filter (keep_worker model rank min_step min_updated) listed)
            | None \<Rightarrow> length (filter (keep_worker model rank min_step min_updated) listed))"
proof -
  let ?kept = "sort_key (\<lambda>w. - ii_updated_at w) (filter (keep_worker model rank min_step min_updated) listed)"
  obtain n where n: "list_workers_filtered listed model rank min_step min_updated limit = take n ?kept"
    "n = (case limit of Some m \<Rightarrow> if m > 0 then m else length ?kept | None \<Rightarrow> length ?kept)"
    by (auto simp: list_workers_filtered_def Let_def split: option.splits)
  show ?thesis
    by (rule exI [of _ "drop n ?kept"]) (auto simp: n(1) n(2) min_def split: option.splits)
qed

subsection \<open>Canonical identities\<close>

lemma get_insert_non_empty:
  "bt_get (insert_non_empty_lowercase key value obj) k =
     (if k = key \<and> value \<noteq> [] then Some (JStr (to_lowercase value)) else bt_get obj k)"
  by (simp add: insert_non_empty_lowercase_def bt_get_insert)

lemma base_payload_eq:
  "base_payload i =
     [(''backend_framework'', JNum (si_backend_framework i)), (''dtype'', JStr (to_lowercase (si_dtype i))),
      (''expert_parallel_size'', JNum (uint (si_expert_parallel_size i))),
      (''extra_parameters'', JMap (sorted_extra (si_extra_parameters i))),
      (''model_name'', JStr (to_lowercase (si_model_name i))), (''mx_source_type'', JNum (si_mx_source_type i)),
      (''mx_version'', JStr (to_lowercase (si_mx_version i))),
      (''pipeline_parallel_size'', JNum (uint (si_pipeline_parallel_size i))),
      (''quantization'', JStr (to_lowercase (si_quantization i))), (''revision'', JStr (to_lowercase (si_revision i))),
      (''tensor_parallel_size'', JNum (uint (si_tensor_parallel_size i)))]"
  by (simp add: base_payload_def)

text \<open>Equality of identities up to what the canonical form forgets.\<close>

definition same_identity :: "SourceIdentity \<Rightarrow> SourceIdentity \<Rightarrow> bool" where
  "same_identity a b \<longleftrightarrow>
     to_lowercase (si_mx_version a) = to_lowercase (si_mx_version b) \<and> si_mx_source_type a = si_mx_source_type b
     \<and> to_lowercase (si_model_name a) = to_lowercase (si_model_name b) \<and> si_backend_framework a = si_backend_framework b
     \<and> si_tensor_parallel_size a = si_tensor_parallel_size b \<and> si_pipeline_parallel_size a = si_pipeline_parallel_size b
     \<and> si_expert_parallel_size a = si_expert_parallel_size b
     \<and> to_lowercase (si_dtype a) = to_lowercase (si_dtype b)
     \<and> to_lowercase (si_quantization a) = to_lowercase (si_quantization b)
     \<and> sorted_extra (si_extra_parameters a) = sorted_extra (si_extra_parameters b)
     \<and> to_lowercase (si_revision a) = to_lowercase (si_revision b)
     \<and> to_lowercase (si_backend_framework_version a) = to_lowercase (si_backend_framework_version b)
     \<and> to_lowercase (si_torch_version a) = to_lowercase (si_torch_version b)
     \<and> to_lowercase (si_cuda_version a) = to_lowercase (si_cuda_version b)
     \<and> to_lowercase (si_triton_version a) = to_lowercase (si_triton_version b)
     \<and> to_lowercase (si_gpu_arch a) = to_lowercase (si_gpu_arch b)
     \<and> to_lowercase (si_compile_config_digest a) = to_lowercase (si_compile_config_digest b)"

lemma insert_non_empty_cong:
  "to_lowercase a = to_lowercase b \<Longrightarrow> insert_non_empty_lowercase k a m = insert_non_empty_lowercase k b m"
  by (auto simp: insert_non_empty_lowercase_def) (metis to_lowercase_eq_Nil)+

lemma payload_same: "same_identity a b \<Longrightarrow> canonical_payload a = canonical_payload b"
proof -
  assume same: "same_identity a b"
  then have "base_payload a = base_payload b" by (simp add: same_identity_def base_payload_def)
  with same show ?thesis
    by (simp add: canonical_payload_def same_identity_def
        insert_non_empty_cong [of "si_backend_framework_version a" "si_backend_framework_version b"]
        insert_non_empty_cong [of "si_torch_version a" "si_torch_version b"]
        insert_non_empty_cong [of "si_cuda_version a" "si_cuda_version b"]
        insert_non_empty_cong [of "si_triton_version a" "si_triton_version b"]
        insert_non_empty_cong [of "si_gpu_arch a" "si_gpu_arch b"]
        insert_non_empty_cong [of "si_compile_config_digest a" "si_compile_config_digest b"])
qed

lemma optional_field:
  assumes "(if x \<noteq> [] then Some (JStr (to_lowercase x)) else None) = (if y \<noteq> [] then Some (JStr (to_lowercase y)) else None)"
  shows "to_lowercase x = to_lowercase y"
  using assms by (auto split: if_splits)

lemma payload_field:
  "bt_get (canonical_payload i) k =
     (if k = ''compile_config_digest'' then if si_compile_config_digest i \<noteq> [] then Some (JStr (to_lowercase (si_compile_config_digest i))) else None
      else if k = ''gpu_arch'' then if si_gpu_arch i \<noteq> [] then Some (JStr (to_lowercase (si_gpu_arch i))) else None
      else if k = ''triton_version'' then if si_triton_version i \<noteq> [] then Some (JStr (to_lowercase (si_triton_version i))) else None
      else if k = ''cuda_version'' then if si_cuda_version i \<noteq> [] then Some (JStr (to_lowercase (si_cuda_version i))) else None
      else if k = ''torch_version'' then if si_torch_version i \<noteq> [] then Some (JStr (to_lowercase (si_torch_version i))) else None
      else if k = ''backend_framework_version'' then
        if si_backend_framework_version i \<noteq> [] then Some (JStr (to_lowercase (si_backend_framework_version i))) else None
      else bt_get (base_payload i) k)"
  unfolding canonical_payload_def get_insert_non_empty by (simp add: base_payload_eq bt_get_def)

lemma payload_inj:
  assumes "canonical_payload a = canonical_payload b"
  shows "same_identity a b"
proof -
  have k: "bt_get (canonical_payload a) k = bt_get (canonical_payload b) k" for k using assms by simp
  have opt: "to_lowercase (si_compile_config_digest a) = to_lowercase (si_compile_config_digest b)"
    "to_lowercase (si_gpu_arch a) = to_lowercase (si_gpu_arch b)"
    "to_lowercase (si_triton_version a) = to_lowercase (si_triton_version b)"
    "to_lowercase (si_cuda_version a) = to_lowercase (si_cuda_version b)"
    "to_lowercase (si_torch_version a) = to_lowercase (si_torch_version b)"
    "to_lowercase (si_backend_framework_version a) = to_lowercase (si_backend_framework_version b)"
    by (rule optional_field, use k [of "''compile_config_digest''"] k [of "''gpu_arch''"] k [of "''triton_version''"]
        k [of "''cuda_version''"] k [of "''torch_version''"] k [of "''backend_framework_version''"] in \<open>simp add: payload_field\<close>)+
  have "bt_get (base_payload a) k = bt_get (base_payload b) k"
    if "k \<notin> {''compile_config_digest'', ''gpu_arch'', ''triton_version'', ''cuda_version'', ''torch_version'', ''backend_framework_version''}" for k
    using k [of k] that by (simp add: payload_field)
  note base = this [of "''mx_version''"] this [of "''mx_source_type''"] this [of "''model_name''"] this [of "''backend_framework''"]
    this [of "''tensor_parallel_size''"] this [of "''pipeline_parallel_size''"] this [of "''expert_parallel_size''"]
    this [of "''dtype''"] this [of "''quantization''"] this [of "''extra_parameters''"] this [of "''revision''"]
  show ?thesis
    unfolding same_identity_def using opt base by (simp add: base_payload_eq bt_get_def word_uint_eq_iff)
qed

lemma sorted_extra_perm:
  assumes "mset e = mset e'" "hm_ok e"
  shows "sorted_extra e = sorted_extra e'"
proof -
  have "inj_on fst (set e)" using assms(2) by (simp add: hm_ok_def distinct_map)
  then have "sort_key fst e = sort_key fst e'"
    by (intro sort_key_inj_key_eq) (use assms(1) in simp_all)
  then show ?thesis by (simp add: sorted_extra_def)
qed

text \<open>
  Source ids are content addresses: two identities have the same canonical payload exactly
  when all their fields agree up to case, optional fields counting as absent when empty; such
  identities get the same source id, and the id does not depend on the order in which the hash
  map of extra parameters is traversed.
\<close>

theorem canonical_identity:
  "(canonical_payload a = canonical_payload b \<longleftrightarrow> same_identity a b)
    \<and> (same_identity a b \<longrightarrow> compute_mx_source_id sha256_hex to_json a = compute_mx_source_id sha256_hex to_json b)
    \<and> (mset e = mset (si_extra_parameters a) \<and> hm_ok e \<longrightarrow>
         compute_mx_source_id sha256_hex to_json (a\<lparr>si_extra_parameters := e\<rparr>) = compute_mx_source_id sha256_hex to_json a)"
proof -
  have iff: "canonical_payload a = canonical_payload b \<longleftrightarrow> same_identity a b"
    using payload_same payload_inj by blast
  have "canonical_payload (a\<lparr>si_extra_parameters := e\<rparr>) = canonical_payload a"
    if "mset e = mset (si_extra_parameters a)" "hm_ok e"
    using payload_same [of "a\<lparr>si_extra_parameters := e\<rparr>" a] sorted_extra_perm [OF that]
    by (simp add: same_identity_def)
  with iff show ?thesis unfolding compute_mx_source_id_def canonical_json_def by metis
qed

definition demo_identity :: "string \<Rightarrow> params \<Rightarrow> SourceIdentity" where
  "demo_identity name extra = \<lparr>si_mx_version = ''1.0'', si_mx_source_type = 1, si_model_name = name,
     si_backend_framework = 1, si_tensor_parallel_size = 8, si_pipeline_parallel_size = 1, si_expert_parallel_size = 0,
     si_dtype = ''BF16'', si_quantization = [], si_extra_parameters = extra, si_revision = [],
     si_backend_framework_version = [], si_torch_version = [], si_cuda_version = [], si_triton_version = [],
     si_gpu_arch = [], si_compile_config_digest = []\<rparr>"

theorem canonical_identity_witness:
  "canonical_payload (demo_identity ''Org/M'' [(''a'', ''1'')]) = canonical_payload (demo_identity ''org/m'' [(''a'', ''1'')])"
proof -
  have "to_lowercase ''Org/M'' = to_lowercase ''org/m''" by code_simp
  then have "same_identity (demo_identity ''Org/M'' [(''a'', ''1'')]) (demo_identity ''org/m'' [(''a'', ''1'')])"
    by (simp add: same_identity_def demo_identity_def)
  then show ?thesis
    using canonical_identity [of "demo_identity ''Org/M'' [(''a'', ''1'')]" "demo_identity ''org/m'' [(''a'', ''1'')]"] by blast
qed

end
