(* ===== verification/P2p_Store.thy ===== *)
theory P2p_Store
  imports P2p_Records
begin

text \<open>
  The store of peer-to-peer metadata: the in-memory backend
  (\<^verbatim>\<open>p2p/backend/memory.rs\<close>), the state manager in front of a backend
  (\<^verbatim>\<open>p2p/state.rs\<close>) and the reaper that marks and removes sources without a heartbeat
  (\<^verbatim>\<open>p2p/reaper.rs\<close>).

  The reaper works against \<^verbatim>\<open>dyn MetadataBackend\<close>; the locale \<open>metadata_backend\<close> states what
  it relies on, the pass is specified once there, and the in-memory backend interprets it.
  Each call holds the backend's mutex, so it is one transition.
\<close>

subsection \<open>p2p/backend/memory.rs\<close>

definition STATUS_INITIALIZING :: int where "STATUS_INITIALIZING = 1"
definition STATUS_READY :: int where "STATUS_READY = 2"
definition STATUS_STALE :: int where "STATUS_STALE = 3"

record WorkerEntry =
  we_ranks :: "(u32, WorkerRecord) btree_map"
  we_index_rank :: u32
  we_owner_namespace :: "string option"

record SourceEntry =
  se_model_name :: string
  se_extra_parameters :: params
  se_identity :: "SourceIdentity option"
  se_workers :: "(string, WorkerEntry) hash_map"

type_synonym p2p_store = "(string, SourceEntry) hash_map"

record ModelMetadataRecord =
  mm_source_id :: string
  mm_worker_id :: string
  mm_model_name :: string
  mm_workers :: "WorkerRecord list"
  mm_published_at :: int
  mm_owner_namespace :: "string option"
  mm_identity :: "SourceIdentity option"

definition p2p_new :: p2p_store where
  "p2p_new = []"

definition default_source :: SourceEntry where
  "default_source = \<lparr>se_model_name = [], se_extra_parameters = [], se_identity = None, se_workers = []\<rparr>"

definition default_entry :: WorkerEntry where
  "default_entry = \<lparr>we_ranks = [], we_index_rank = 0, we_owner_namespace = None\<rparr>"

definition or_default :: "'a \<Rightarrow> 'a option \<Rightarrow> 'a" where
  "or_default d x = (case x of Some a \<Rightarrow> a | None \<Rightarrow> d)"

definition p2p_publish_metadata ::
  "(SourceIdentity \<Rightarrow> string) \<Rightarrow> SourceIdentity \<Rightarrow> string \<Rightarrow> WorkerMetadata \<Rightarrow> string option \<Rightarrow> p2p_store \<Rightarrow> p2p_store" where
  "p2p_publish_metadata source_id_of identity worker_id worker owner_namespace sources =
     (let source_id = source_id_of identity;
          rec = worker_record_from worker;
          rank = wr_worker_rank rec;
          source = or_default default_source (hm_get sources source_id);
          entry = or_default default_entry (hm_get (se_workers source) worker_id);
          entry' = entry\<lparr>we_ranks := bt_insert rank rec (we_ranks entry), we_index_rank := rank,
                         we_owner_namespace := owner_namespace\<rparr>
      in hm_insert source_id
           (source\<lparr>se_model_name := si_model_name identity, se_extra_parameters := si_extra_parameters identity,
                   se_identity := Some identity, se_workers := hm_insert worker_id entry' (se_workers source)\<rparr>) sources)"

definition p2p_get_metadata :: "string \<Rightarrow> string \<Rightarrow> p2p_store \<Rightarrow> ModelMetadataRecord option" where
  "p2p_get_metadata source_id worker_id sources =
     (case hm_get sources source_id of
        None \<Rightarrow> None
      | Some source \<Rightarrow>
          (case hm_get (se_workers source) worker_id of
             None \<Rightarrow> None
           | Some entry \<Rightarrow>
               if we_ranks entry = [] then None
               else Some \<lparr>mm_source_id = source_id, mm_worker_id = worker_id, mm_model_name = se_model_name source,
                          mm_workers = bt_values (we_ranks entry), mm_published_at = 0,
                          mm_owner_namespace = we_owner_namespace entry, mm_identity = se_identity source\<rparr>))"

definition reported_rank :: "WorkerEntry \<Rightarrow> WorkerRecord option" where
  "reported_rank entry =
     (case bt_get (we_ranks entry) (we_index_rank entry) of
        Some r \<Rightarrow> Some r
      | None \<Rightarrow> (case bt_values (we_ranks entry) of r # _ \<Rightarrow> Some r | [] \<Rightarrow> None))"

definition instance_info :: "string \<Rightarrow> SourceEntry \<Rightarrow> string \<Rightarrow> WorkerEntry \<Rightarrow> SourceInstanceInfo" where
  "instance_info sid source worker_id entry =
     \<lparr>ii_source_id = sid, ii_worker_id = worker_id, ii_model_name = se_model_name source,
       ii_worker_rank = we_index_rank entry,
       ii_status = (case reported_rank entry of Some r \<Rightarrow> wr_status r | None \<Rightarrow> 0),
       ii_updated_at = (case reported_rank entry of Some r \<Rightarrow> wr_updated_at r | None \<Rightarrow> 0),
       ii_accelerator = (case reported_rank entry of Some r \<Rightarrow> wr_accelerator r | None \<Rightarrow> []),
       ii_source_load = (case reported_rank entry of Some r \<Rightarrow> wr_source_load r | None \<Rightarrow> None),
       ii_topology = (case reported_rank entry of Some r \<Rightarrow> wr_topology r | None \<Rightarrow> []),
       ii_training_step = parse_training_step (se_extra_parameters source),
       ii_layout_signature = parse_layout_signature (se_extra_parameters source),
       ii_owner_namespace = we_owner_namespace entry\<rparr>"

definition worker_listed :: "int option \<Rightarrow> WorkerEntry \<Rightarrow> bool" where
  "worker_listed status_filter entry =
     (case status_filter of
        Some st \<Rightarrow> list_ex (\<lambda>r. wr_status r = st) (bt_values (we_ranks entry)) | None \<Rightarrow> True)"

definition p2p_list_workers :: "string option \<Rightarrow> int option \<Rightarrow> p2p_store \<Rightarrow> SourceInstanceInfo list" where
  "p2p_list_workers source_id status_filter sources =
     concat (map (\<lambda>(sid, source).
       if (case source_id of Some f \<Rightarrow> sid \<noteq> f | None \<Rightarrow> False) then []
       else map (\<lambda>(worker_id, entry). instance_info sid source worker_id entry)
              (filter (\<lambda>(worker_id, entry). worker_listed status_filter entry) (se_workers source))) sources)"

definition p2p_remove_metadata :: "string \<Rightarrow> p2p_store \<Rightarrow> p2p_store" where
  "p2p_remove_metadata source_id sources = hm_remove source_id sources"

definition p2p_remove_worker :: "string \<Rightarrow> string \<Rightarrow> p2p_store \<Rightarrow> p2p_store" where
  "p2p_remove_worker source_id worker_id sources =
     (case hm_get sources source_id of
        None \<Rightarrow> sources
      | Some source \<Rightarrow>
          (let workers = hm_remove worker_id (se_workers source) in
           if workers = [] then hm_remove source_id sources
           else hm_insert source_id (source\<lparr>se_workers := workers\<rparr>) sources))"

definition p2p_list_sources :: "p2p_store \<Rightarrow> (string \<times> string) list" where
  "p2p_list_sources sources = map (\<lambda>(sid, source). (sid, se_model_name source)) sources"

definition p2p_update_status ::
  "string \<Rightarrow> string \<Rightarrow> u32 \<Rightarrow> int \<Rightarrow> int \<Rightarrow> f32 option \<Rightarrow> p2p_store \<Rightarrow> string + p2p_store" where
  "p2p_update_status source_id worker_id worker_rank status updated_at source_load sources =
     (case hm_get sources source_id of
        None \<Rightarrow> Inl ''update_status: rank not found''
      | Some source \<Rightarrow>
          (case hm_get (se_workers source) worker_id of
             None \<Rightarrow> Inl ''update_status: rank not found''
           | Some entry \<Rightarrow>
               (case bt_get (we_ranks entry) worker_rank of
                  None \<Rightarrow> Inl ''update_status: rank not found''
                | Some r \<Rightarrow>
                    (let r' = r\<lparr>wr_status := status, wr_updated_at := updated_at, wr_source_load := source_load\<rparr>;
                         entry' = entry\<lparr>we_ranks := bt_insert worker_rank r' (we_ranks entry)\<rparr>
                     in Inr (hm_insert source_id
                          (source\<lparr>se_workers := hm_insert worker_id entry' (se_workers source)\<rparr>) sources)))))"

subsection \<open>p2p/reaper.rs\<close>

text \<open>\<^verbatim>\<open>i64::saturating_sub\<close> and \<^verbatim>\<open>u64::saturating_mul\<close>\<close>

definition i64_saturating_sub :: "int \<Rightarrow> int \<Rightarrow> int" where
  "i64_saturating_sub a b = max (- 9223372036854775808) (min 9223372036854775807 (a - b))"

definition u64_saturating_mul :: "nat \<Rightarrow> nat \<Rightarrow> nat" where
  "u64_saturating_mul a b = min (a * b) u64_max"

definition age_ms :: "int \<Rightarrow> SourceInstanceInfo \<Rightarrow> nat" where
  "age_ms now w = nat (max 0 (i64_saturating_sub now (ii_updated_at w)))"

definition is_active :: "SourceInstanceInfo \<Rightarrow> bool" where
  "is_active w = (ii_status w = STATUS_READY \<or> ii_status w = STATUS_INITIALIZING)"

text \<open>
  One worker of the pass: \<open>update\<close> and \<open>remove\<close> are the calls on the state manager, whose
  errors are logged and skipped; \<open>clock\<close> is the time the update is stamped with.
\<close>

definition reap_worker ::
  "(string \<Rightarrow> string \<Rightarrow> u32 \<Rightarrow> int \<Rightarrow> int \<Rightarrow> f32 option \<Rightarrow> 's \<Rightarrow> string + 's) \<Rightarrow> (string \<Rightarrow> string \<Rightarrow> 's \<Rightarrow> 's)
   \<Rightarrow> (SourceInstanceInfo \<Rightarrow> int) \<Rightarrow> int \<Rightarrow> nat \<Rightarrow> nat \<Rightarrow> SourceInstanceInfo \<Rightarrow> 's \<Rightarrow> 's" where
  "reap_worker update remove clock now heartbeat_timeout_ms gc_timeout_ms w s =
     (if is_active w \<and> age_ms now w > heartbeat_timeout_ms
      then (case update (ii_source_id w) (ii_worker_id w) (ii_worker_rank w) STATUS_STALE (clock w) None s of
              Inr s' \<Rightarrow> s' | Inl _ \<Rightarrow> s)
      else if ii_status w = STATUS_STALE \<and> age_ms now w > gc_timeout_ms
      then remove (ii_source_id w) (ii_worker_id w) s
      else s)"

definition reap_once ::
  "(string \<Rightarrow> string \<Rightarrow> u32 \<Rightarrow> int \<Rightarrow> int \<Rightarrow> f32 option \<Rightarrow> 's \<Rightarrow> string + 's) \<Rightarrow> (string \<Rightarrow> string \<Rightarrow> 's \<Rightarrow> 's)
   \<Rightarrow> (SourceInstanceInfo \<Rightarrow> int) \<Rightarrow> int \<Rightarrow> nat \<Rightarrow> nat \<Rightarrow> SourceInstanceInfo list \<Rightarrow> 's \<Rightarrow> 's" where
  "reap_once update remove clock now heartbeat_timeout_ms gc_timeout_ms workers s =
     fold (reap_worker update remove clock now heartbeat_timeout_ms gc_timeout_ms) workers s"

subsection \<open>p2p/state.rs\<close>

text \<open>
  The manager connects on first use and keeps the connected backend; \<open>build\<close> is the factory.
  \<open>run_backend\<close> is the common shape of its methods.
\<close>

record 'c P2pStateManager =
  sm_backend :: "p2p_store option"
  sm_config :: "'c option"

definition with_config :: "'c \<Rightarrow> 'c P2pStateManager" where
  "with_config config = \<lparr>sm_backend = None, sm_config = Some config\<rparr>"

definition state_connect :: "('c \<Rightarrow> string + p2p_store) \<Rightarrow> 'c P2pStateManager \<Rightarrow> (string + 'c) \<times> 'c P2pStateManager" where
  "state_connect build m =
     (case sm_config m of
        None \<Rightarrow> (Inl ''MX_METADATA_BACKEND is not set or invalid. Set it to 'redis' or 'kubernetes'.'', m)
      | Some c \<Rightarrow> (case build c of Inl e \<Rightarrow> (Inl e, m) | Inr b \<Rightarrow> (Inr c, m\<lparr>sm_backend := Some b\<rparr>)))"

definition get_backend :: "('c \<Rightarrow> string + p2p_store) \<Rightarrow> 'c P2pStateManager \<Rightarrow> (string + p2p_store) \<times> 'c P2pStateManager" where
  "get_backend build m =
     (case sm_backend m of
        Some b \<Rightarrow> (Inr b, m)
      | None \<Rightarrow>
          (case sm_config m of
             None \<Rightarrow> (Inl ''MX_METADATA_BACKEND is not set or invalid. Set it to 'redis' or 'kubernetes'.'', m)
           | Some c \<Rightarrow> (case build c of Inl e \<Rightarrow> (Inl e, m) | Inr b \<Rightarrow> (Inr b, m\<lparr>sm_backend := Some b\<rparr>))))"

definition run_backend ::
  "('c \<Rightarrow> string + p2p_store) \<Rightarrow> (p2p_store \<Rightarrow> string + ('a \<times> p2p_store)) \<Rightarrow> 'c P2pStateManager
   \<Rightarrow> (string + 'a) \<times> 'c P2pStateManager" where
  "run_backend build op m =
     (case get_backend build m of
        (Inl e, m') \<Rightarrow> (Inl e, m')
      | (Inr s, m') \<Rightarrow> (case op s of Inl e \<Rightarrow> (Inl e, m') | Inr (a, s') \<Rightarrow> (Inr a, m'\<lparr>sm_backend := Some s'\<rparr>)))"

definition state_publish_metadata where
  "state_publish_metadata build source_id_of identity worker_id worker owner =
     run_backend build (\<lambda>s. Inr ((), p2p_publish_metadata source_id_of identity worker_id worker owner s))"

definition state_get_metadata where
  "state_get_metadata build source_id worker_id = run_backend build (\<lambda>s. Inr (p2p_get_metadata source_id worker_id s, s))"

definition state_list_workers where
  "state_list_workers build source_id status_filter = run_backend build (\<lambda>s. Inr (p2p_list_workers source_id status_filter s, s))"

definition state_list_workers_filtered where
  "state_list_workers_filtered build source_id status_filter model rank min_step min_updated limit =
     run_backend build (\<lambda>s.
       Inr (list_workers_filtered (p2p_list_workers source_id status_filter s) model rank min_step min_updated limit, s))"

definition state_remove_metadata where
  "state_remove_metadata build source_id = run_backend build (\<lambda>s. Inr ((), p2p_remove_metadata source_id s))"

definition state_remove_worker where
  "state_remove_worker build source_id worker_id = run_backend build (\<lambda>s. Inr ((), p2p_remove_worker source_id worker_id s))"

definition state_list_sources where
  "state_list_sources build = run_backend build (\<lambda>s. Inr (p2p_list_sources s, s))"

definition state_update_worker_status where
  "state_update_worker_status build now source_id worker_id worker_rank status source_load =
     run_backend build (\<lambda>s.
       map_err id (sum_bind (p2p_update_status source_id worker_id worker_rank status now source_load s) (\<lambda>s'. Inr ((), s'))))"

text \<open>What a pass should do to a single worker.\<close>

definition reap_result ::
  "(SourceInstanceInfo \<Rightarrow> int) \<Rightarrow> int \<Rightarrow> nat \<Rightarrow> nat \<Rightarrow> SourceInstanceInfo \<Rightarrow> SourceInstanceInfo option" where
  "reap_result clock now hb gc w =
     (if is_active w \<and> age_ms now w > hb
      then Some (w\<lparr>ii_status := STATUS_STALE, ii_updated_at := clock w, ii_source_load := None\<rparr>)
      else if ii_status w = STATUS_STALE \<and> age_ms now w > gc then None else Some w)"

locale metadata_backend =
  fixes look :: "'s \<Rightarrow> string \<Rightarrow> string \<Rightarrow> SourceInstanceInfo option"
    and listing :: "'s \<Rightarrow> SourceInstanceInfo list"
    and update :: "string \<Rightarrow> string \<Rightarrow> u32 \<Rightarrow> int \<Rightarrow> int \<Rightarrow> f32 option \<Rightarrow> 's \<Rightarrow> string + 's"
    and remove :: "string \<Rightarrow> string \<Rightarrow> 's \<Rightarrow> 's"
    and admits :: "int \<Rightarrow> SourceInstanceInfo \<Rightarrow> bool"
    and ok :: "'s \<Rightarrow> bool"
  assumes listing_look: "ok s \<Longrightarrow> w \<in> set (listing s) \<longleftrightarrow> look s (ii_source_id w) (ii_worker_id w) = Some w"
    and listing_keys: "ok s \<Longrightarrow> distinct (map (\<lambda>w. (ii_source_id w, ii_worker_id w)) (listing s))"
    and look_keys: "ok s \<Longrightarrow> look s a b = Some w \<Longrightarrow> ii_source_id w = a \<and> ii_worker_id w = b"
    and update_reported: "ok s \<Longrightarrow> look s a b = Some w \<Longrightarrow> admits t w \<Longrightarrow> 0 \<le> st \<Longrightarrow> st \<le> 3 \<Longrightarrow>
      \<exists>s'. update a b (ii_worker_rank w) st t None s = Inr s' \<and> ok s'
        \<and> (\<forall>c d. look s' c d = (if c = a \<and> d = b
             then Some (w\<lparr>ii_status := st, ii_updated_at := t, ii_source_load := None\<rparr>) else look s c d))"
    and remove_ok: "ok s \<Longrightarrow> look s a b = Some w \<Longrightarrow> ok (remove a b s)"
    and look_remove: "ok s \<Longrightarrow> look s a b = Some w \<Longrightarrow> look (remove a b s) c d = (if c = a \<and> d = b then None else look s c d)"
begin

lemma reap_worker_step:
  assumes "ok s" and "look s a b = Some w" and "is_active w \<Longrightarrow> age_ms now w > hb \<Longrightarrow> admits (clock w) w"
  shows "ok (reap_worker update remove clock now hb gc w s)"
    and "look (reap_worker update remove clock now hb gc w s) c d =
      (if c = a \<and> d = b then reap_result clock now hb gc w else look s c d)"
proof -
  have k: "ii_source_id w = a" "ii_worker_id w = b" using look_keys [OF assms(1,2)] by auto
  have "ok (reap_worker update remove clock now hb gc w s) \<and> look (reap_worker update remove clock now hb gc w s) c d =
      (if c = a \<and> d = b then reap_result clock now hb gc w else look s c d)"
  proof (cases "is_active w \<and> age_ms now w > hb")
    case True
    then obtain s' where "update a b (ii_worker_rank w) STATUS_STALE (clock w) None s = Inr s'" "ok s'"
      "\<And>c d. look s' c d = (if c = a \<and> d = b
         then Some (w\<lparr>ii_status := STATUS_STALE, ii_updated_at := clock w, ii_source_load := None\<rparr>) else look s c d)"
      using update_reported [OF assms(1,2), of "clock w" STATUS_STALE] assms(3) by (auto simp: STATUS_STALE_def)
    with True show ?thesis by (simp add: reap_worker_def reap_result_def k)
  next
    case False
    then show ?thesis
      using remove_ok [OF assms(1,2)] look_remove [OF assms(1,2)] assms(1,2) by (auto simp: reap_worker_def reap_result_def k)
  qed
  then show "ok (reap_worker update remove clock now hb gc w s)"
    and "look (reap_worker update remove clock now hb gc w s) c d =
      (if c = a \<and> d = b then reap_result clock now hb gc w else look s c d)" by simp_all
qed

lemma reap_fold:
  assumes "ok s" and "distinct (map (\<lambda>w. (ii_source_id w, ii_worker_id w)) ws)"
    and "\<And>w. w \<in> set ws \<Longrightarrow> look s (ii_source_id w) (ii_worker_id w) = Some w"
    and "\<And>w. w \<in> set ws \<Longrightarrow> is_active w \<Longrightarrow> age_ms now w > hb \<Longrightarrow> admits (clock w) w"
  shows "ok (fold (reap_worker update remove clock now hb gc) ws s)
    \<and> look (fold (reap_worker update remove clock now hb gc) ws s) a b =
      (if (a, b) \<in> (\<lambda>w. (ii_source_id w, ii_worker_id w)) ` set ws
       then (case look s a b of Some w \<Rightarrow> reap_result clock now hb gc w | None \<Rightarrow> None) else look s a b)"
  using assms
proof (induction ws arbitrary: s)
  case (Cons w ws)
  let ?k = "\<lambda>w. (ii_source_id w, ii_worker_id w)" and ?s = "reap_worker update remove clock now hb gc w s"
  have w: "look s (ii_source_id w) (ii_worker_id w) = Some w" using Cons.prems(3) by simp
  have admitted: "is_active w \<Longrightarrow> age_ms now w > hb \<Longrightarrow> admits (clock w) w" by (rule Cons.prems(4)) simp
  note step = reap_worker_step [where now = now and hb = hb and clock = clock, OF Cons.prems(1) w admitted]
  have fresh: "?k w \<notin> ?k ` set ws" using Cons.prems(2) by simp
  have "look ?s (ii_source_id v) (ii_worker_id v) = Some v" if "v \<in> set ws" for v
  proof -
    from that have "?k v \<in> ?k ` set ws" by (rule imageI)
    with fresh have "?k v \<noteq> ?k w" by metis
    with Cons.prems(3) [of v] that show ?thesis by (auto simp: step(2))
  qed
  from Cons.IH [OF step(1) _ this] Cons.prems(2,4) have
    IH: "ok (fold (reap_worker update remove clock now hb gc) ws ?s)
      \<and> look (fold (reap_worker update remove clock now hb gc) ws ?s) a b =
      (if (a, b) \<in> ?k ` set ws then (case look ?s a b of Some w \<Rightarrow> reap_result clock now hb gc w | None \<Rightarrow> None)
       else look ?s a b)" by simp
  with fresh w show ?case by (cases "(a, b) = ?k w") (auto simp: step(2))
qed simp

lemma reap_exact:
  assumes "ok s" and "\<And>w. is_active w \<Longrightarrow> age_ms now w > hb \<Longrightarrow> admits (clock w) w"
  shows "ok (reap_once update remove clock now hb gc (listing s) s)"
    and "look (reap_once update remove clock now hb gc (listing s) s) a b =
      (case look s a b of Some w \<Rightarrow> reap_result clock now hb gc w | None \<Rightarrow> None)"
proof -
  have look: "look s (ii_source_id w) (ii_worker_id w) = Some w" if "w \<in> set (listing s)" for w
    using listing_look [OF assms(1)] that by simp
  note f = reap_fold [where now = now and hb = hb and clock = clock, OF assms(1) listing_keys [OF assms(1)] look assms(2), of gc]
  show "ok (reap_once update remove clock now hb gc (listing s) s)" using f by (simp add: reap_once_def)
  have "(a, b) \<in> (\<lambda>w. (ii_source_id w, ii_worker_id w)) ` set (listing s)" if "look s a b = Some w" for w
    using that look_keys [OF assms(1) that] listing_look [OF assms(1), of w] by (auto intro: rev_image_eqI)
  then show "look (reap_once update remove clock now hb gc (listing s) s) a b =
      (case look s a b of Some w \<Rightarrow> reap_result clock now hb gc w | None \<Rightarrow> None)"
    using f by (auto simp: reap_once_def split: option.splits)
qed

end

subsection \<open>The in-memory backend keeps the contract\<close>

definition p2p_look :: "p2p_store \<Rightarrow> string \<Rightarrow> string \<Rightarrow> SourceInstanceInfo option" where
  "p2p_look s a b =
     (case hm_get s a of None \<Rightarrow> None
      | Some source \<Rightarrow> map_option (instance_info a source b) (hm_get (se_workers source) b))"

definition entry_ok :: "WorkerEntry \<Rightarrow> bool" where
  "entry_ok e \<longleftrightarrow> bt_ok (we_ranks e) \<and> bt_get (we_ranks e) (we_index_rank e) \<noteq> None
     \<and> (\<forall>k r. bt_get (we_ranks e) k = Some r \<longrightarrow> wr_worker_rank r = k)"

definition source_ok :: "SourceEntry \<Rightarrow> bool" where
  "source_ok src \<longleftrightarrow> hm_ok (se_workers src) \<and> (\<forall>b e. hm_get (se_workers src) b = Some e \<longrightarrow> entry_ok e)"

definition p2p_ok :: "p2p_store \<Rightarrow> bool" where
  "p2p_ok s \<longleftrightarrow> hm_ok s \<and> (\<forall>a src. hm_get s a = Some src \<longrightarrow> source_ok src)"

lemma hm_mem_iff: "hm_ok m \<Longrightarrow> (k, v) \<in> set m \<longleftrightarrow> hm_get m k = Some v"
  by (auto simp: hm_ok_def hm_get_def dest: map_of_SomeD)

lemma reported_rank_ok: "entry_ok e \<Longrightarrow> reported_rank e = bt_get (we_ranks e) (we_index_rank e)"
  by (auto simp: reported_rank_def entry_ok_def split: option.splits)

lemma instance_info_sel [simp]:
  "ii_source_id (instance_info a src b e) = a" "ii_worker_id (instance_info a src b e) = b"
  "ii_worker_rank (instance_info a src b e) = we_index_rank e"
  by (simp_all add: instance_info_def)

lemma instance_info_workers [simp]: "instance_info a (src\<lparr>se_workers := ws\<rparr>) d = instance_info a src d"
  by (rule ext) (simp add: instance_info_def)

lemma list_workers_all:
  "p2p_list_workers None None s =
     concat (map (\<lambda>(sid, source). map (\<lambda>(b, e). instance_info sid source b e) (se_workers source)) s)"
  by (simp add: p2p_list_workers_def worker_listed_def case_prod_unfold)

lemma listing_mem:
  assumes "p2p_ok s"
  shows "w \<in> set (p2p_list_workers None None s) \<longleftrightarrow> p2p_look s (ii_source_id w) (ii_worker_id w) = Some w"
proof
  assume "w \<in> set (p2p_list_workers None None s)"
  then obtain a src b e where m: "(a, src) \<in> set s" "(b, e) \<in> set (se_workers src)" "w = instance_info a src b e"
    by (auto simp: list_workers_all)
  then have "hm_get s a = Some src" using assms by (simp add: p2p_ok_def hm_mem_iff)
  moreover from this assms have "source_ok src" by (simp add: p2p_ok_def)
  then have "hm_get (se_workers src) b = Some e" using m(2) by (simp add: source_ok_def hm_mem_iff)
  ultimately show "p2p_look s (ii_source_id w) (ii_worker_id w) = Some w" by (simp add: p2p_look_def m(3))
next
  assume "p2p_look s (ii_source_id w) (ii_worker_id w) = Some w"
  then obtain src e where m: "hm_get s (ii_source_id w) = Some src" "hm_get (se_workers src) (ii_worker_id w) = Some e"
    "w = instance_info (ii_source_id w) src (ii_worker_id w) e"
    by (auto simp: p2p_look_def split: option.splits)
  then have "(ii_source_id w, src) \<in> set s" "(ii_worker_id w, e) \<in> set (se_workers src)"
    by (auto simp: hm_get_def dest: map_of_SomeD)
  with m(3) show "w \<in> set (p2p_list_workers None None s)" by (force simp: list_workers_all)
qed

lemma listing_distinct:
  assumes "p2p_ok s"
  shows "distinct (map (\<lambda>w. (ii_source_id w, ii_worker_id w)) (p2p_list_workers None None s))"
proof -
  have "distinct (map (\<lambda>w. (ii_source_id w, ii_worker_id w))
      (concat (map (\<lambda>(sid, source). map (\<lambda>(b, e). instance_info sid source b e) (se_workers source)) m)))"
    if "distinct (map fst m)" "\<And>a src. (a, src) \<in> set m \<Longrightarrow> hm_ok (se_workers src)" for m
    using that
  proof (induction m)
    case (Cons x m)
    obtain a src where x: "x = (a, src)" by (cases x)
    have "distinct (map fst (se_workers src))" using Cons.prems(2) [of a src] by (simp add: x hm_ok_def)
    then have "distinct (map (\<lambda>(b, e). (a, b)) (se_workers src))"
      by (force simp: distinct_map inj_on_def)
    then have "distinct (map (\<lambda>w. (ii_source_id w, ii_worker_id w)) (map (\<lambda>(b, e). instance_info a src b e) (se_workers src)))"
      by (simp add: comp_def case_prod_unfold)
    moreover have "a \<notin> fst ` set m" using Cons.prems(1) by (simp add: x)
    then have "\<And>y. (a, y) \<notin> set m" by force
    ultimately show ?case using Cons by (auto simp: x)
  qed simp
  moreover have "hm_ok (se_workers src)" if "(a, src) \<in> set s" for a src
    using that assms by (auto simp: p2p_ok_def source_ok_def hm_mem_iff)
  ultimately show ?thesis using assms unfolding list_workers_all by (auto simp: p2p_ok_def hm_ok_def)
qed

lemma p2p_look_insert:
  "p2p_look (hm_insert a src s) c d =
     (if c = a then map_option (instance_info a src d) (hm_get (se_workers src) d) else p2p_look s c d)"
  by (simp add: p2p_look_def hm_simps)

lemma p2p_ok_insert: "p2p_ok s \<Longrightarrow> source_ok src \<Longrightarrow> p2p_ok (hm_insert a src s)"
  by (auto simp: p2p_ok_def hm_simps)

lemma update_memory:
  assumes "p2p_ok s" and "p2p_look s a b = Some w"
  shows "\<exists>s'. p2p_update_status a b (ii_worker_rank w) st t l s = Inr s' \<and> p2p_ok s'
    \<and> (\<forall>c d. p2p_look s' c d = (if c = a \<and> d = b
         then Some (w\<lparr>ii_status := st, ii_updated_at := t, ii_source_load := l\<rparr>) else p2p_look s c d))"
proof -
  from assms(2) obtain src e where m: "hm_get s a = Some src" "hm_get (se_workers src) b = Some e"
    and w: "w = instance_info a src b e" by (auto simp: p2p_look_def split: option.splits)
  from assms(1) m(1) have src: "source_ok src" by (simp add: p2p_ok_def)
  with m(2) have e: "entry_ok e" by (simp add: source_ok_def)
  then obtain r where r: "bt_get (we_ranks e) (we_index_rank e) = Some r" by (auto simp: entry_ok_def)
  let ?r = "r\<lparr>wr_status := st, wr_updated_at := t, wr_source_load := l\<rparr>"
  let ?e = "e\<lparr>we_ranks := bt_insert (we_index_rank e) ?r (we_ranks e)\<rparr>"
  let ?src = "src\<lparr>se_workers := hm_insert b ?e (se_workers src)\<rparr>"
  have run: "p2p_update_status a b (ii_worker_rank w) st t l s = Inr (hm_insert a ?src s)"
    by (simp add: p2p_update_status_def m w r Let_def)
  have e': "entry_ok ?e" using e r by (auto simp: entry_ok_def bt_ok_insert bt_get_insert)
  then have "source_ok ?src" using src by (auto simp: source_ok_def hm_simps)
  then have ok: "p2p_ok (hm_insert a ?src s)" by (rule p2p_ok_insert [OF assms(1)])
  have "instance_info a ?src b ?e = w\<lparr>ii_status := st, ii_updated_at := t, ii_source_load := l\<rparr>"
    by (simp add: w instance_info_def reported_rank_ok [OF e] reported_rank_ok [OF e'] r bt_get_insert)
  then have "p2p_look (hm_insert a ?src s) c d = (if c = a \<and> d = b
      then Some (w\<lparr>ii_status := st, ii_updated_at := t, ii_source_load := l\<rparr>) else p2p_look s c d)" for c d
    by (auto simp: p2p_look_insert hm_simps) (simp add: p2p_look_def m(1))
  with run ok show ?thesis by blast
qed

lemma remove_memory:
  assumes "p2p_ok s"
  shows "p2p_ok (p2p_remove_worker a b s)"
    and "p2p_look (p2p_remove_worker a b s) c d = (if c = a \<and> d = b then None else p2p_look s c d)"
proof -
  have "p2p_ok (p2p_remove_worker a b s)
    \<and> p2p_look (p2p_remove_worker a b s) c d = (if c = a \<and> d = b then None else p2p_look s c d)"
  proof (cases "hm_get s a")
    case None then show ?thesis using assms by (simp add: p2p_remove_worker_def p2p_look_def)
  next
    case (Some src)
    let ?ws = "hm_remove b (se_workers src)" let ?src = "src\<lparr>se_workers := ?ws\<rparr>"
    have src: "source_ok src" using assms Some by (simp add: p2p_ok_def)
    then have "source_ok ?src" by (auto simp: source_ok_def hm_simps split: if_splits)
    moreover have "p2p_ok (hm_remove a s)" using assms by (auto simp: p2p_ok_def hm_simps split: if_splits)
    moreover have "p2p_look s a x = None" if "?ws = []" "x \<noteq> b" for x
    proof -
      have "hm_get ?ws x = None" using that(1) by simp
      then show ?thesis using that(2) by (simp add: p2p_look_def Some hm_simps)
    qed
    moreover have "p2p_look (hm_insert a ?src s) c d = (if c = a \<and> d = b then None else p2p_look s c d)"
      by (auto simp: p2p_look_insert hm_simps) (simp add: p2p_look_def Some)
    ultimately show ?thesis
      using assms by (auto simp: p2p_remove_worker_def Some Let_def p2p_ok_insert p2p_look_def hm_simps)
  qed
  then show "p2p_ok (p2p_remove_worker a b s)"
    and "p2p_look (p2p_remove_worker a b s) c d = (if c = a \<and> d = b then None else p2p_look s c d)" by simp_all
qed

interpretation memory: metadata_backend p2p_look "p2p_list_workers None None" p2p_update_status p2p_remove_worker
  "\<lambda>_ _. True" p2p_ok
proof (unfold_locales, goal_cases)
  case (1 s w) then show ?case by (rule listing_mem)
next
  case (2 s) then show ?case by (rule listing_distinct)
next
  case (3 s a b w) then show ?case by (auto simp: p2p_look_def split: option.splits)
next
  case (4 s a b w t st) then show ?case by (intro update_memory)
next
  case (5 s a b w) then show ?case by (intro remove_memory)
next
  case (6 s a b w c d) then show ?case by (intro remove_memory)
qed

subsection \<open>Properties\<close>

text \<open>
  One pass of the reaper over the in-memory store does to every listed worker exactly what it
  should: an initializing or ready worker whose last heartbeat is older than the heartbeat timeout
  becomes stale, stamped with the current time and without a load; a stale one older than the
  garbage-collection timeout disappears; every other worker stays as it is.
\<close>

theorem reaper_pass_exact:
  assumes "p2p_ok s"
  shows "p2p_look (reap_once p2p_update_status p2p_remove_worker clock now hb gc (p2p_list_workers None None s) s) a b =
    (case p2p_look s a b of
       None \<Rightarrow> None
     | Some w \<Rightarrow>
         if (ii_status w = STATUS_READY \<or> ii_status w = STATUS_INITIALIZING) \<and> age_ms now w > hb
         then Some (w\<lparr>ii_status := STATUS_STALE, ii_updated_at := clock w, ii_source_load := None\<rparr>)
         else if ii_status w = STATUS_STALE \<and> age_ms now w > gc then None else Some w)"
  using memory.reap_exact(2) [OF assms TrueI, of clock now hb gc a b]
  by (simp add: reap_result_def is_active_def split: option.split)

lemma p2p_ok_new: "p2p_ok p2p_new"
  by (simp add: p2p_ok_def p2p_new_def)

lemma publish_entry:
  assumes "p2p_ok s" and "r = worker_record_from worker"
  obtains src ent src' where "p2p_publish_metadata f i wid worker owner s = hm_insert (f i) src' s"
    "src = or_default default_source (hm_get s (f i))" "ent = or_default default_entry (hm_get (se_workers src) wid)"
    "source_ok src'" "se_model_name src' = si_model_name i" "se_identity src' = Some i"
    "hm_get (se_workers src') wid = Some (ent\<lparr>we_ranks := bt_insert (wr_worker_rank r) r (we_ranks ent),
       we_index_rank := wr_worker_rank r, we_owner_namespace := owner\<rparr>)"
    "\<And>b. b \<noteq> wid \<Longrightarrow> hm_get (se_workers src') b = hm_get (se_workers src) b"
    "bt_ok (we_ranks ent)" "\<And>k x. bt_get (we_ranks ent) k = Some x \<Longrightarrow> wr_worker_rank x = k"
proof -
  define src where "src = or_default default_source (hm_get s (f i))"
  define ent where "ent = or_default default_entry (hm_get (se_workers src) wid)"
  have src: "source_ok src"
    using assms(1) by (auto simp: src_def or_default_def p2p_ok_def default_source_def source_ok_def split: option.splits)
  then have ent: "bt_ok (we_ranks ent)" "\<And>k x. bt_get (we_ranks ent) k = Some x \<Longrightarrow> wr_worker_rank x = k"
    by (auto simp: ent_def or_default_def default_entry_def source_ok_def entry_ok_def bt_ok_def split: option.splits)
  let ?e = "ent\<lparr>we_ranks := bt_insert (wr_worker_rank r) r (we_ranks ent), we_index_rank := wr_worker_rank r, we_owner_namespace := owner\<rparr>"
  let ?src = "src\<lparr>se_model_name := si_model_name i, se_extra_parameters := si_extra_parameters i, se_identity := Some i,
      se_workers := hm_insert wid ?e (se_workers src)\<rparr>"
  have "entry_ok ?e" using ent by (auto simp: entry_ok_def bt_ok_insert bt_get_insert)
  then have "source_ok ?src" using src by (auto simp: source_ok_def hm_simps)
  then show ?thesis
    by (intro that [of ?src src ent]) (use ent in \<open>simp_all add: p2p_publish_metadata_def Let_def src_def ent_def assms(2) hm_simps\<close>)
qed

text \<open>
  What is published can be fetched: after a publication the worker's metadata is found under
  the source id of its identity, with the identity, the model name and the owner given, with the
  published record as the only one of its rank, records in ascending rank order and the other
  ranks kept; every other worker's records are what they were, and the store stays well formed.
\<close>

theorem published_metadata_is_found:
  assumes "p2p_ok s"
  shows "\<exists>m. p2p_ok (p2p_publish_metadata f i wid worker owner s)
    \<and> p2p_get_metadata (f i) wid (p2p_publish_metadata f i wid worker owner s) = Some m
    \<and> mm_model_name m = si_model_name i \<and> mm_identity m = Some i \<and> mm_owner_namespace m = owner
    \<and> (\<forall>r. wr_worker_rank r = wm_worker_rank worker \<longrightarrow> (r \<in> set (mm_workers m) \<longleftrightarrow> r = worker_record_from worker))
    \<and> sorted_wrt (<) (map wr_worker_rank (mm_workers m))
    \<and> (\<forall>r. wr_worker_rank r \<noteq> wm_worker_rank worker \<longrightarrow>
         (r \<in> set (mm_workers m) \<longleftrightarrow> (\<exists>old. p2p_get_metadata (f i) wid s = Some old \<and> r \<in> set (mm_workers old))))
    \<and> (\<forall>a b. (a, b) \<noteq> (f i, wid) \<longrightarrow>
         map_option mm_workers (p2p_get_metadata a b (p2p_publish_metadata f i wid worker owner s))
           = map_option mm_workers (p2p_get_metadata a b s))"
proof -
  let ?r = "worker_record_from worker"
  have rank: "wr_worker_rank ?r = wm_worker_rank worker" by (simp add: worker_record_from_def Let_def case_prod_unfold)
  obtain src ent src' where
    run: "p2p_publish_metadata f i wid worker owner s = hm_insert (f i) src' s"
    and src: "src = or_default default_source (hm_get s (f i))" "ent = or_default default_entry (hm_get (se_workers src) wid)"
    and ok: "source_ok src'" and names: "se_model_name src' = si_model_name i" "se_identity src' = Some i"
    and new: "hm_get (se_workers src') wid = Some (ent\<lparr>we_ranks := bt_insert (wr_worker_rank ?r) ?r (we_ranks ent),
       we_index_rank := wr_worker_rank ?r, we_owner_namespace := owner\<rparr>)"
    and other: "\<And>b. b \<noteq> wid \<Longrightarrow> hm_get (se_workers src') b = hm_get (se_workers src) b"
    and ent: "bt_ok (we_ranks ent)" "\<And>k x. bt_get (we_ranks ent) k = Some x \<Longrightarrow> wr_worker_rank x = k"
    by (rule publish_entry [OF assms refl, where f = f and i = i and wid = wid and worker = worker and owner = owner]) (rule that, assumption+)
  let ?s = "hm_insert (f i) src' s" let ?ranks = "bt_insert (wr_worker_rank ?r) ?r (we_ranks ent)"
  have bt: "bt_ok ?ranks" by (rule bt_ok_insert [OF ent(1)])
  have key: "wr_worker_rank x = k" if "bt_get ?ranks k = Some x" for k x
    using that ent(2) by (auto simp: bt_get_insert split: if_splits)
  have ne: "?ranks \<noteq> []" using bt_get_insert [of "wr_worker_rank ?r" ?r "we_ranks ent" "wr_worker_rank ?r"] by force
  have old: "bt_get (we_ranks ent) k = Some x \<longleftrightarrow>
      (\<exists>o1. p2p_get_metadata (f i) wid s = Some o1 \<and> x \<in> set (mm_workers o1)) \<and> wr_worker_rank x = k" for k x
    using ent src by (auto simp: p2p_get_metadata_def or_default_def default_source_def default_entry_def bt_values_get
        split: option.splits if_splits)
  define m where "m = \<lparr>mm_source_id = f i, mm_worker_id = wid, mm_model_name = si_model_name i, mm_workers = bt_values ?ranks,
      mm_published_at = 0, mm_owner_namespace = owner, mm_identity = Some i\<rparr>"
  have get: "p2p_get_metadata (f i) wid ?s = Some m"
    by (simp add: p2p_get_metadata_def hm_simps new names ne m_def)
  have keys: "map fst ?ranks = map wr_worker_rank (bt_values ?ranks)"
  proof -
    have "fst x = wr_worker_rank (snd x)" if "x \<in> set ?ranks" for x
    proof -
      have "distinct (map fst ?ranks)" using bt by (simp add: bt_ok_def strict_sorted_iff)
      with that have "bt_get ?ranks (fst x) = Some (snd x)" by (simp add: bt_get_def)
      from key [OF this] show ?thesis by simp
    qed
    then show ?thesis by (simp add: bt_values_def)
  qed
  have frame: "map_option mm_workers (p2p_get_metadata a b ?s) = map_option mm_workers (p2p_get_metadata a b s)"
    if "(a, b) \<noteq> (f i, wid)" for a b
    using that other src(1)
    by (auto simp: p2p_get_metadata_def hm_simps or_default_def default_source_def split: option.splits)
  have mem: "x \<in> set (mm_workers m) \<longleftrightarrow> bt_get ?ranks (wr_worker_rank x) = Some x" for x
    using bt_values_get [OF bt, of x] key by (auto simp: m_def)
  show ?thesis
    unfolding run
    by (rule exI [of _ m]) (use assms ok get frame keys bt old mem rank in
      \<open>auto simp: p2p_ok_insert bt_get_insert m_def bt_ok_def\<close>)
qed

lemma p2p_publish_ok: "p2p_ok s \<Longrightarrow> p2p_ok (p2p_publish_metadata f i wid worker owner s)"
  by (rule publish_entry [OF _ refl, where s = s and f = f and i = i and wid = wid and worker = worker and owner = owner])
    (simp_all add: p2p_ok_insert)

definition demo_store :: p2p_store where
  "demo_store = p2p_publish_metadata (\<lambda>_. ''id'') (demo_identity ''M'' []) ''w'' (worker_metadata_from demo_worker) None p2p_new"

theorem published_metadata_is_found_witness:
  "\<exists>m. p2p_get_metadata ''id'' ''w'' demo_store = Some m \<and> mm_model_name m = ''M''"
  using published_metadata_is_found [OF p2p_ok_new, of "\<lambda>_. ''id''" "demo_identity ''M'' []" "''w''"
      "worker_metadata_from demo_worker" None]
  by (auto simp: demo_store_def demo_identity_def)

theorem reaper_pass_exact_witness:
  "map_option ii_status (p2p_look
     (reap_once p2p_update_status p2p_remove_worker (\<lambda>_. 100000) 100000 90 3600000 (p2p_list_workers None None demo_store) demo_store)
     ''id'' ''w'') = Some STATUS_STALE"
proof -
  have ok: "p2p_ok demo_store" unfolding demo_store_def by (rule p2p_publish_ok [OF p2p_ok_new])
  obtain w where "p2p_look demo_store ''id'' ''w'' = Some w" "ii_status w = STATUS_READY" "ii_updated_at w = 7"
    by (simp add: demo_store_def p2p_publish_metadata_def p2p_new_def Let_def or_default_def p2p_look_def hm_simps
        instance_info_def reported_rank_def bt_get_def worker_metadata_from_def worker_record_from_def demo_worker_def
        default_source_def default_entry_def STATUS_READY_def)
  with reaper_pass_exact [OF ok, of "\<lambda>_. 100000" 100000 90 3600000 "''id''" "''w''"] show ?thesis
    by (simp add: age_ms_def i64_saturating_sub_def)
qed

text \<open>
  A connected state manager is transparent: it never rebuilds its backend, and a status update
  through it is the backend's own, stamped with the current time; a manager whose factory fails
  stays unconnected and reports the failure, so that the next call tries again.
\<close>

theorem state_manager_transparent:
  "(sm_backend m = Some s \<longrightarrow>
      state_update_worker_status build now a b rank st load m =
        (case p2p_update_status a b rank st now load s of
           Inl e \<Rightarrow> (Inl e, m) | Inr s' \<Rightarrow> (Inr (), m\<lparr>sm_backend := Some s'\<rparr>)))
   \<and> (sm_backend m = None \<and> sm_config m = Some c \<and> build c = Inl e \<longrightarrow>
      state_update_worker_status build now a b rank st load m = (Inl e, m))"
  by (auto simp: state_update_worker_status_def run_backend_def get_backend_def split: sum.splits)

end
