(* ===== verification/Download_Manifest.thy ===== *)
theory Download_Manifest
  imports Entry_Key MX_Text "HOL-Library.List_Lexorder" "HOL-Library.Char_ord"
    "HOL-Library.Product_Lexorder"
begin

text \<open>
  The record of the files a finished download left in the cache
  (\<^verbatim>\<open>modelexpress_server/src/cache/manifest.rs\<close>).

  A volume is a map from paths to files, directories and symbolic links; a link is followed at
  most forty times, as the kernel does. \<open>io\<close> says on which paths the operating system lets an
  operation through, so that every failing call of the source is a branch here. SHA-256, the
  JSON printer and parser, and the fresh UUID of the staging file are parameters.

  Shown here: a manifest that was written is the one read back and no other entry's manifest
  changes; a snapshot is accepted exactly when every recorded file is there with its size; and
  the clean-up removes exactly the recorded files that are not.
\<close>

subsection \<open>Volumes\<close>

datatype fnode = FFile string | FDir | FLink string

type_synonym volume = "string \<Rightarrow> fnode option"

definition MAX_LINKS :: nat where "MAX_LINKS = 40"

text \<open>\<^verbatim>\<open>fs::metadata\<close> follows symbolic links.\<close>

fun fs_stat :: "nat \<Rightarrow> volume \<Rightarrow> string \<Rightarrow> fnode option" where
  "fs_stat n fs p =
     (case fs p of
        Some (FLink t) \<Rightarrow> (case n of 0 \<Rightarrow> None | Suc m \<Rightarrow> fs_stat m fs t)
      | x \<Rightarrow> x)"

declare fs_stat.simps [simp del]

text \<open>\<^verbatim>\<open>fs::remove_file\<close> removes a link, not its target, and refuses a directory.\<close>

datatype removal = Removed | NotFound | RemovalFailed

definition remove_file :: "(string \<Rightarrow> bool) \<Rightarrow> string \<Rightarrow> volume \<Rightarrow> removal \<times> volume" where
  "remove_file io p fs =
     (case fs p of
        None \<Rightarrow> (NotFound, fs)
      | Some FDir \<Rightarrow> (RemovalFailed, fs)
      | Some _ \<Rightarrow> if io p then (Removed, fs(p := None)) else (RemovalFailed, fs))"

text \<open>\<^verbatim>\<open>Path::cmp\<close> compares component by component.\<close>

definition path_components :: "string \<Rightarrow> (nat \<times> string) list" where
  "path_components p =
     (if starts_with ''/'' p then [(0, [])]
      else if hd (str_split (CHR ''/'') p) = ''.'' then [(1, [])] else [])
     @ map (\<lambda>c. if c = ''..'' then (2, []) else (3, c))
         (filter (\<lambda>c. c \<noteq> [] \<and> c \<noteq> ''.'') (str_split (CHR ''/'') p))"

subsection \<open>Manifests\<close>

record ManifestFile =
  mf_path :: string
  mf_size :: nat

record DownloadManifest =
  dm_entry_key :: string
  dm_files :: "ManifestFile list"

definition MANIFEST_DIR :: string where
  "MANIFEST_DIR = ''.modelexpress/downloads''"

definition manifest_path :: "(string \<Rightarrow> string + string) \<Rightarrow> string \<Rightarrow> string \<Rightarrow> string + string" where
  "manifest_path sha256_hex cache_root entry_key =
     sum_bind (sha256_hex entry_key) (\<lambda>digest.
       Inr (path_join (path_join cache_root MANIFEST_DIR) (digest @ ''.json'')))"

definition manifest_new :: "string \<Rightarrow> (string \<times> nat) list \<Rightarrow> DownloadManifest" where
  "manifest_new entry_key files =
     \<lparr>dm_entry_key = entry_key,
      dm_files = sort_key (\<lambda>f. path_components (mf_path f))
        (map (\<lambda>(path, size). \<lparr>mf_path = path, mf_size = size\<rparr>) files)\<rparr>"

definition manifest_write ::
  "(string \<Rightarrow> string + string) \<Rightarrow> (DownloadManifest \<Rightarrow> string + string) \<Rightarrow> (string \<Rightarrow> bool) \<Rightarrow> string
   \<Rightarrow> DownloadManifest \<Rightarrow> string \<Rightarrow> volume \<Rightarrow> (string + unit) \<times> volume" where
  "manifest_write sha256_hex to_json io uuid m cache_root fs =
     (if dm_files m = []
      then (Inl (''download of '' @ dm_entry_key m @ '' left no files in the cache''), fs)
      else
        let dir = path_join cache_root MANIFEST_DIR in
        if \<not> io dir then (Inl (''failed to create '' @ dir), fs)
        else
          let fs1 = (if fs dir = None then fs(dir \<mapsto> FDir) else fs) in
          (case manifest_path sha256_hex cache_root (dm_entry_key m) of
             Inl e \<Rightarrow> (Inl e, fs1)
           | Inr path \<Rightarrow>
               (case to_json m of
                  Inl e \<Rightarrow> (Inl (''failed to serialize download manifest: '' @ e), fs1)
                | Inr body \<Rightarrow>
                    let staging = path_join dir (''.'' @ uuid @ ''.tmp'') in
                    if \<not> io staging then (Inl (''failed to write '' @ path), fs1)
                    else if \<not> io path \<or> fs1 path = Some FDir
                    then (Inl (''failed to write '' @ path), fs1(staging := None))
                    else (Inr (), fs1(staging := None, path \<mapsto> FFile body)))))"

definition manifest_read ::
  "(string \<Rightarrow> string + string) \<Rightarrow> (string \<Rightarrow> DownloadManifest option) \<Rightarrow> (string \<Rightarrow> bool)
   \<Rightarrow> string \<Rightarrow> string \<Rightarrow> volume \<Rightarrow> DownloadManifest option" where
  "manifest_read sha256_hex from_json io cache_root entry_key fs =
     (case manifest_path sha256_hex cache_root entry_key of
        Inl _ \<Rightarrow> None
      | Inr path \<Rightarrow>
          (case fs_stat MAX_LINKS fs path of
             Some (FFile body) \<Rightarrow>
               if \<not> io path then None
               else (case from_json body of
                       Some manifest \<Rightarrow>
                         if dm_entry_key manifest = entry_key then Some manifest else None
                     | None \<Rightarrow> None)
           | _ \<Rightarrow> None))"

definition file_satisfied :: "volume \<Rightarrow> string \<Rightarrow> ManifestFile \<Rightarrow> bool" where
  "file_satisfied fs snapshot_dir f =
     (case fs_stat MAX_LINKS fs (path_join snapshot_dir (mf_path f)) of
        Some (FFile body) \<Rightarrow> length body = mf_size f
      | _ \<Rightarrow> False)"

definition unsatisfied :: "volume \<Rightarrow> DownloadManifest \<Rightarrow> string \<Rightarrow> ManifestFile list" where
  "unsatisfied fs m snapshot_dir = filter (\<lambda>f. \<not> file_satisfied fs snapshot_dir f) (dm_files m)"

definition is_satisfied_by :: "volume \<Rightarrow> DownloadManifest \<Rightarrow> string \<Rightarrow> bool" where
  "is_satisfied_by fs m snapshot_dir = (unsatisfied fs m snapshot_dir = [])"

text \<open>The iterator is lazy: a file is examined after the ones before it were removed.\<close>

fun remove_unsatisfied_files ::
  "(string \<Rightarrow> bool) \<Rightarrow> string \<Rightarrow> ManifestFile list \<Rightarrow> volume \<Rightarrow> volume" where
  "remove_unsatisfied_files io snapshot_dir [] fs = fs"
| "remove_unsatisfied_files io snapshot_dir (f # files) fs =
     remove_unsatisfied_files io snapshot_dir files
       (if file_satisfied fs snapshot_dir f then fs
        else snd (remove_file io (path_join snapshot_dir (mf_path f)) fs))"

definition remove_unsatisfied ::
  "(string \<Rightarrow> bool) \<Rightarrow> DownloadManifest \<Rightarrow> string \<Rightarrow> volume \<Rightarrow> volume" where
  "remove_unsatisfied io m snapshot_dir fs = remove_unsatisfied_files io snapshot_dir (dm_files m) fs"

definition manifest_remove ::
  "(string \<Rightarrow> string + string) \<Rightarrow> (string \<Rightarrow> bool) \<Rightarrow> string \<Rightarrow> string \<Rightarrow> volume
   \<Rightarrow> (string + unit) \<times> volume" where
  "manifest_remove sha256_hex io cache_root entry_key fs =
     (case manifest_path sha256_hex cache_root entry_key of
        Inl e \<Rightarrow> (Inl e, fs)
      | Inr path \<Rightarrow>
          (case remove_file io path fs of
             (RemovalFailed, fs') \<Rightarrow> (Inl (''failed to remove '' @ path), fs')
           | (_, fs') \<Rightarrow> (Inr (), fs')))"

subsection \<open>Lemmas\<close>

lemma stat_file: "fs p = Some (FFile b) \<Longrightarrow> fs_stat n fs p = Some (FFile b)"
  by (simp add: fs_stat.simps)

lemma manifest_path_Inr:
  "manifest_path sha dir k = Inr p \<longleftrightarrow>
     (\<exists>d. sha k = Inr d \<and> p = path_join (path_join dir MANIFEST_DIR) (d @ ''.json''))"
  by (auto simp: manifest_path_def sum_bind_Inr_iff)

lemma path_join_file:
  assumes "\<not> starts_with ''/'' a"
  shows "\<exists>pre. path_join root a = pre @ a \<and> (\<forall>b. \<not> starts_with ''/'' b \<longrightarrow> path_join root b = pre @ b)"
  using assms by (auto simp: path_join_def)

lemma path_join_inj:
  "\<not> starts_with ''/'' a \<Longrightarrow> \<not> starts_with ''/'' b \<Longrightarrow> path_join root a = path_join root b \<longleftrightarrow> a = b"
  by (auto simp: path_join_def)

lemma join_longer: "\<not> starts_with ''/'' a \<Longrightarrow> a \<noteq> [] \<Longrightarrow> path_join root a \<noteq> root"
  by (simp add: path_join_def)

lemma satisfied_iff:
  "is_satisfied_by fs m dir \<longleftrightarrow> (\<forall>f \<in> set (dm_files m). file_satisfied fs dir f)"
  by (simp add: is_satisfied_by_def unsatisfied_def filter_empty_conv)

lemma remove_file_at:
  "snd (remove_file io p fs) q =
     (if q = p \<and> io p \<and> fs p \<noteq> Some FDir then None else fs q)"
  by (auto simp: remove_file_def split: option.splits fnode.splits)


subsection \<open>The clean-up\<close>

definition recorded :: "string \<Rightarrow> ManifestFile list \<Rightarrow> string set" where
  "recorded dir files = (\<lambda>f. path_join dir (mf_path f)) ` set files"

definition no_link_into :: "volume \<Rightarrow> string set \<Rightarrow> bool" where
  "no_link_into fs R \<longleftrightarrow> (\<forall>q t. fs q = Some (FLink t) \<longrightarrow> t \<notin> R)"

text \<open>A volume from which some recorded paths are gone.\<close>

definition thinned :: "volume \<Rightarrow> string set \<Rightarrow> volume \<Rightarrow> bool" where
  "thinned fs R cur \<longleftrightarrow> (\<forall>p. cur p = fs p \<or> (p \<in> R \<and> cur p = None))"

lemma no_link_into_mono: "no_link_into fs R \<Longrightarrow> S \<subseteq> R \<Longrightarrow> no_link_into fs S"
  by (auto simp: no_link_into_def)

lemma stat_agree:
  assumes "no_link_into fs W" and "\<And>q. q \<notin> W \<Longrightarrow> cur q = fs q" and "p \<notin> W"
  shows "fs_stat n cur p = fs_stat n fs p"
  using assms(3)
proof (induction n arbitrary: p)
  case 0
  then show ?case using assms(2) by (simp add: fs_stat.simps [of 0] split: option.splits fnode.splits)
next
  case (Suc n)
  show ?case
  proof (cases "\<exists>t. fs p = Some (FLink t)")
    case True
    then obtain t where t: "fs p = Some (FLink t)" by blast
    then have "t \<notin> W" using assms(1) by (auto simp: no_link_into_def)
    then show ?thesis using Suc t assms(2) by (simp add: fs_stat.simps [of "Suc n"])
  next
    case False
    then show ?thesis using Suc.prems assms(2)
      by (auto simp: fs_stat.simps [of "Suc n"] split: option.splits fnode.splits)
  qed
qed

lemma stat_thinned:
  assumes "thinned fs R cur" and "no_link_into fs R" and "cur p = fs p"
  shows "fs_stat n cur p = fs_stat n fs p"
proof (rule stat_agree [where W = "{q. cur q \<noteq> fs q}"])
  have "{q. cur q \<noteq> fs q} \<subseteq> R" using assms(1) by (auto simp: thinned_def)
  then show "no_link_into fs {q. cur q \<noteq> fs q}" by (rule no_link_into_mono [OF assms(2)])
qed (use assms in auto)

lemma satisfied_thinned:
  assumes "thinned fs R cur" and "no_link_into fs R" and "cur (path_join dir (mf_path f)) = fs (path_join dir (mf_path f))"
  shows "file_satisfied cur dir f = file_satisfied fs dir f"
  using stat_thinned [OF assms] by (simp add: file_satisfied_def)

lemma satisfied_present: "file_satisfied fs dir f \<Longrightarrow> fs (path_join dir (mf_path f)) \<noteq> None"
  by (cases "fs (path_join dir (mf_path f))") (auto simp: file_satisfied_def fs_stat.simps)

lemma thinned_remove:
  "thinned fs R cur \<Longrightarrow> p \<in> R \<Longrightarrow> thinned fs R (snd (remove_file io p cur))"
  by (simp add: thinned_def remove_file_at)

lemma remove_unsatisfied_files_at:
  assumes "no_link_into fs R" and "recorded dir files \<subseteq> R" and "thinned fs R cur"
  shows "remove_unsatisfied_files io dir files cur q =
    (if \<exists>f \<in> set files. path_join dir (mf_path f) = q \<and> \<not> file_satisfied fs dir f
          \<and> io q \<and> fs q \<noteq> Some FDir
     then None else cur q)"
  using assms(2,3)
proof (induction files arbitrary: cur)
  case (Cons f files)
  let ?p = "path_join dir (mf_path f)"
  let ?cur = "if file_satisfied cur dir f then cur else snd (remove_file io ?p cur)"
  have R: "?p \<in> R" "recorded dir files \<subseteq> R" using Cons.prems(1) by (auto simp: recorded_def)
  have "thinned fs R ?cur" using thinned_remove [OF Cons.prems(2) R(1)] Cons.prems(2) by simp
  note IH = Cons.IH [OF R(2) this]
  have "cur ?p = fs ?p \<or> cur ?p = None" using Cons.prems(2) by (auto simp: thinned_def)
  moreover have "cur ?p = fs ?p \<Longrightarrow> file_satisfied cur dir f = file_satisfied fs dir f"
    by (rule satisfied_thinned [OF Cons.prems(2) assms(1)])
  moreover have "cur ?p = None \<Longrightarrow> \<not> file_satisfied cur dir f" using satisfied_present by blast
  ultimately have "?cur q = (if ?p = q \<and> \<not> file_satisfied fs dir f \<and> io q \<and> fs q \<noteq> Some FDir then None else cur q)"
    by (auto simp: remove_file_at)
  then show ?case by (auto simp: IH)
qed simp

subsection \<open>Writing\<close>

definition hex_digest :: "(string \<Rightarrow> string) \<Rightarrow> bool" where
  "hex_digest h \<longleftrightarrow> (\<forall>k. set (h k) \<subseteq> set ''0123456789abcdef'')"

definition manifest_file :: "(string \<Rightarrow> string) \<Rightarrow> string \<Rightarrow> string \<Rightarrow> string" where
  "manifest_file h root k = path_join (path_join root MANIFEST_DIR) (h k @ ''.json'')"

lemma hex_relative: "hex_digest h \<Longrightarrow> \<not> starts_with ''/'' (h k @ ''.json'')"
  by (cases "h k") (force simp: hex_digest_def starts_with_def dest: spec [of _ k])+

lemma manifest_file_inj:
  "hex_digest h \<Longrightarrow> manifest_file h root k = manifest_file h root k' \<longleftrightarrow> h k = h k'"
  by (simp add: manifest_file_def path_join_inj hex_relative)

lemma starts_with_join: "\<not> starts_with ''/'' a \<Longrightarrow> starts_with root (path_join root a)"
  by (simp add: path_join_def starts_with_iff)

lemma staging_relative: "\<not> starts_with ''/'' (''.'' @ u)"
  by (simp add: starts_with_def)

lemma staging_no_manifest:
  assumes "hex_digest h"
  shows "path_join (path_join root MANIFEST_DIR) (''.'' @ u @ ''.tmp'') \<noteq> manifest_file h root k"
proof -
  have "last (''.'' @ u @ ''.tmp'') \<noteq> last (h k @ ''.json'')" by simp
  then have "''.'' @ u @ ''.tmp'' \<noteq> h k @ ''.json''" by metis
  then show ?thesis
    unfolding manifest_file_def
    by (subst path_join_inj) (use assms hex_relative staging_relative in auto)
qed

lemma manifest_no_dir: "hex_digest h \<Longrightarrow> manifest_file h root k \<noteq> path_join root MANIFEST_DIR"
  by (simp add: manifest_file_def join_longer hex_relative)

text \<open>What a successful write leaves in the volume.\<close>

lemma manifest_write_ok:
  assumes "manifest_write (\<lambda>k. Inr (h k)) to_json io uuid m root fs = (Inr (), fs')"
  obtains body where "to_json m = Inr body" and "io (manifest_file h root (dm_entry_key m))"
    and "fs' (manifest_file h root (dm_entry_key m)) = Some (FFile body)"
    and "\<And>q. q \<noteq> manifest_file h root (dm_entry_key m) \<Longrightarrow>
           q \<noteq> path_join (path_join root MANIFEST_DIR) (''.'' @ uuid @ ''.tmp'') \<Longrightarrow>
           q \<noteq> path_join root MANIFEST_DIR \<Longrightarrow> fs' q = fs q"
proof -
  from assms obtain body where body: "to_json m = Inr body"
    by (auto simp: manifest_write_def Let_def split: if_splits sum.splits)
  show thesis
    by (rule that [OF body]; use assms body in \<open>auto simp: manifest_write_def manifest_path_def manifest_file_def Let_def split: if_splits sum.splits\<close>)
qed

lemma manifest_read_digest:
  "manifest_read (\<lambda>k. Inr (h k)) from_json io root k fs =
     (case fs_stat MAX_LINKS fs (manifest_file h root k) of
        Some (FFile body) \<Rightarrow>
          if \<not> io (manifest_file h root k) then None
          else Option.bind (from_json body) (\<lambda>m. if dm_entry_key m = k then Some m else None)
      | _ \<Rightarrow> None)"
  by (simp add: manifest_read_def manifest_path_def manifest_file_def
      split: option.splits fnode.splits)

subsection \<open>Properties\<close>

text \<open>
  A manifest that was written is read back for its entry, and the manifest of every entry with
  another digest reads exactly as before. The digest is a hexadecimal text, the JSON parser
  inverts the printer on this manifest, and no symbolic link leads into the manifest directory.
\<close>

theorem manifest_write_read:
  assumes "manifest_write (\<lambda>k. Inr (h k)) to_json io uuid m root fs = (Inr (), fs')"
    and "hex_digest h" and "\<And>body. to_json m = Inr body \<Longrightarrow> from_json body = Some m"
    and "no_link_into fs {p. starts_with (path_join root MANIFEST_DIR) p}"
  shows "manifest_read (\<lambda>k. Inr (h k)) from_json io root (dm_entry_key m) fs' = Some m
    \<and> (h k \<noteq> h (dm_entry_key m) \<longrightarrow>
         manifest_read (\<lambda>k. Inr (h k)) from_json io root k fs'
           = manifest_read (\<lambda>k. Inr (h k)) from_json io root k fs)"
proof -
  let ?d = "path_join root MANIFEST_DIR"
  let ?s = "path_join ?d (''.'' @ uuid @ ''.tmp'')"
  let ?p = "manifest_file h root (dm_entry_key m)"
  from assms(1) obtain body where w: "to_json m = Inr body" "io ?p" "fs' ?p = Some (FFile body)"
    "\<And>q. q \<noteq> ?p \<Longrightarrow> q \<noteq> ?s \<Longrightarrow> q \<noteq> ?d \<Longrightarrow> fs' q = fs q"
    by (rule manifest_write_ok) (rule that, assumption+)
  have "starts_with ?d ?d" by (simp add: starts_with_def)
  then have "{?p, ?s, ?d} \<subseteq> {p. starts_with ?d p}"
    using starts_with_join [OF staging_relative [of "uuid @ ''.tmp''"]]
      starts_with_join [OF hex_relative [OF assms(2)]]
    by (simp add: manifest_file_def)
  then have nl: "no_link_into fs {?p, ?s, ?d}" by (rule no_link_into_mono [OF assms(4)])
  have "fs_stat MAX_LINKS fs' (manifest_file h root k) = fs_stat MAX_LINKS fs (manifest_file h root k)"
    if "h k \<noteq> h (dm_entry_key m)"
    by (rule stat_agree [OF nl])
       (use w(4) that manifest_file_inj [OF assms(2)] staging_no_manifest [OF assms(2), of root uuid, symmetric]
          manifest_no_dir [OF assms(2)] in auto)
  then show ?thesis
    using w assms(3) by (simp add: manifest_read_digest stat_file)
qed

text \<open>
  Cleaning up after an incomplete download removes exactly the recorded files that are missing
  their recorded size, as far as the operating system lets it: intact files, unrecorded files and
  the targets of removed links stay, and what remains of the manifest is satisfied or not
  removable. No link of the volume leads to a recorded path (snapshots link into the blob store).
\<close>

theorem remove_unsatisfied_exact:
  assumes "no_link_into fs (recorded dir (dm_files m))"
  shows "remove_unsatisfied io m dir fs q =
      (if \<exists>f \<in> set (unsatisfied fs m dir). path_join dir (mf_path f) = q \<and> io q \<and> fs q \<noteq> Some FDir
       then None else fs q)
    \<and> (is_satisfied_by fs m dir \<longrightarrow> remove_unsatisfied io m dir fs q = fs q)"
  using remove_unsatisfied_files_at [OF assms subset_refl, of fs io q]
  by (auto simp: remove_unsatisfied_def unsatisfied_def thinned_def satisfied_iff)

definition demo_volume :: volume where
  "demo_volume = [''/s/a'' \<mapsto> FFile ''ok'', ''/s/w'' \<mapsto> FLink ''/b/1'', ''/b/1'' \<mapsto> FFile ''tr'']"

definition demo_manifest :: DownloadManifest where
  "demo_manifest = manifest_new ''m'' [(''w'', 7), (''a'', 2)]"

lemma demo_manifest_files:
  "dm_files demo_manifest = [\<lparr>mf_path = ''a'', mf_size = 2\<rparr>, \<lparr>mf_path = ''w'', mf_size = 7\<rparr>]"
  by code_simp

lemma demo_paths: "path_join ''/s'' ''a'' = ''/s/a''" "path_join ''/s'' ''w'' = ''/s/w''"
  by code_simp+

lemma demo_volume_links: "demo_volume q = Some (FLink t) \<longleftrightarrow> q = ''/s/w'' \<and> t = ''/b/1''"
  by (auto simp: demo_volume_def)

theorem remove_unsatisfied_exact_witness:
  "remove_unsatisfied (\<lambda>_. True) demo_manifest ''/s'' demo_volume ''/s/w'' = None
   \<and> remove_unsatisfied (\<lambda>_. True) demo_manifest ''/s'' demo_volume ''/s/a'' = Some (FFile ''ok'')
   \<and> remove_unsatisfied (\<lambda>_. True) demo_manifest ''/s'' demo_volume ''/b/1'' = Some (FFile ''tr'')"
proof -
  have "no_link_into demo_volume (recorded ''/s'' (dm_files demo_manifest))"
    by (simp add: no_link_into_def demo_volume_links recorded_def demo_manifest_files demo_paths)
  moreover have "unsatisfied demo_volume demo_manifest ''/s'' = [\<lparr>mf_path = ''w'', mf_size = 7\<rparr>]"
    by (simp add: unsatisfied_def demo_manifest_files file_satisfied_def demo_paths demo_volume_def
        fs_stat.simps MAX_LINKS_def)
  ultimately show ?thesis
    using remove_unsatisfied_exact [of demo_volume "''/s''" demo_manifest "\<lambda>_. True"]
    by (simp add: demo_paths) (simp add: demo_volume_def)
qed

theorem manifest_write_read_witness:
  "manifest_read (\<lambda>k. Inr ''ab'') (\<lambda>_. Some demo_manifest) (\<lambda>_. True) ''/c'' ''m''
     (snd (manifest_write (\<lambda>k. Inr ''ab'') (\<lambda>_. Inr ''{}'') (\<lambda>_. True) ''u'' demo_manifest ''/c'' demo_volume))
   = Some demo_manifest"
proof -
  have key: "dm_entry_key demo_manifest = ''m''" by (simp add: demo_manifest_def manifest_new_def)
  obtain fs' where w: "manifest_write (\<lambda>k. Inr ''ab'') (\<lambda>_. Inr ''{}'') (\<lambda>_. True) ''u'' demo_manifest ''/c'' demo_volume
      = (Inr (), fs')"
    by (simp add: manifest_write_def demo_manifest_files manifest_path_def path_join_def
        MANIFEST_DIR_def starts_with_def demo_volume_def Let_def)
  have "no_link_into demo_volume {p. starts_with (path_join ''/c'' MANIFEST_DIR) p}"
    by (simp add: no_link_into_def demo_volume_links path_join_def starts_with_def MANIFEST_DIR_def)
  then show ?thesis
    using manifest_write_read [OF w, where from_json = "\<lambda>_. Some demo_manifest"]
    by (simp add: w key hex_digest_def)
qed

end
