(* ===== verification/Provider_Rules.thy ===== *)
theory Provider_Rules
  imports Download_Manifest "HOL-Library.Sublist"
begin

text \<open>
  The rules every model provider shares (\<^verbatim>\<open>modelexpress_common/src/providers.rs\<close>): which
  revisions a request may pin, and which files of a repository are downloaded.

  Shown here: a revision that passes the check can be part of a registry key, and as a path it
  stays below the directory it is joined to.
\<close>

subsection \<open>Revisions\<close>

text \<open>\<^verbatim>\<open>s.contains(p)\<close> and \<^verbatim>\<open>s.ends_with(p)\<close> for a string pattern\<close>

definition str_contains :: "string \<Rightarrow> string \<Rightarrow> bool" where
  "str_contains p s = list_ex (starts_with p) (suffixes s)"

definition ends_with :: "string \<Rightarrow> string \<Rightarrow> bool" where
  "ends_with p s = starts_with (rev p) (rev s)"

definition is_ascii_control :: "char \<Rightarrow> bool" where
  "is_ascii_control c = (let n = of_char c :: nat in n < 32 \<or> n = 127)"

definition forbidden_in_revision :: "char \<Rightarrow> bool" where
  "forbidden_in_revision c = (is_ascii_control c \<or> c \<in> set '' ~^:?*['' \<or> c = CHR 0x5C)"

definition revision_component_ok :: "string \<Rightarrow> bool" where
  "revision_component_ok component =
     (component \<noteq> [] \<and> \<not> starts_with ''.'' component \<and> \<not> ends_with ''.lock'' component)"

definition validate_revision :: "string \<Rightarrow> string + unit" where
  "validate_revision revision =
     (let valid =
        revision \<noteq> ''@'' \<and> \<not> ends_with ''.'' revision \<and> \<not> str_contains ''..'' revision
        \<and> \<not> str_contains [CHR ''@'', CHR 0x7B] revision \<and> \<not> list_ex forbidden_in_revision revision
        \<and> list_all revision_component_ok (str_split (CHR ''/'') revision)
      in if valid then Inr () else Inl (''Invalid revision '' @ revision))"

definition reject_unsupported_revision :: "string \<Rightarrow> string option \<Rightarrow> string + unit" where
  "reject_unsupported_revision provider_name revision =
     (case revision of
        Some r \<Rightarrow> Inl (''Provider '' @ provider_name @ '' does not support pinned revisions (requested ''
                     @ r @ '')'')
      | None \<Rightarrow> Inr ())"

subsection \<open>File classes\<close>

text \<open>\<^verbatim>\<open>Path::file_name\<close> and \<^verbatim>\<open>Path::extension\<close>\<close>

definition file_name :: "string \<Rightarrow> string option" where
  "file_name p =
     (case rev (path_components p) of
        (k, c) # _ \<Rightarrow> if k = 3 then Some c else None
      | [] \<Rightarrow> None)"

definition extension :: "string \<Rightarrow> string option" where
  "extension p =
     Option.bind (file_name p) (\<lambda>name.
       case split_once (CHR ''.'') (rev name) of
         None \<Rightarrow> None
       | Some (after, before) \<Rightarrow> if before = [] then None else Some (rev after))"

definition DEFAULT_IGNORED :: "string list" where "DEFAULT_IGNORED = [''README.md'']"

definition is_ignored :: "string \<Rightarrow> bool" where
  "is_ignored filename =
     (let name = (case file_name filename of Some n \<Rightarrow> n | None \<Rightarrow> filename)
      in starts_with ''.'' name \<or> name \<in> set DEFAULT_IGNORED)"

definition IMAGE_EXTENSIONS :: "string list" where
  "IMAGE_EXTENSIONS = [''png'', ''jpg'', ''jpeg'', ''gif'', ''webp'', ''svg'', ''ico'', ''bmp'', ''tiff'', ''tif'']"

definition is_image :: "string \<Rightarrow> bool" where
  "is_image path =
     is_some_and (\<lambda>ext. list_ex (\<lambda>e. to_lowercase ext = to_lowercase e) IMAGE_EXTENSIONS) (extension path)"

definition is_weight_file :: "string \<Rightarrow> bool" where
  "is_weight_file filename =
     (ends_with ''.bin'' filename \<or> ends_with ''.safetensors'' filename \<or> ends_with ''.h5'' filename
      \<or> ends_with ''.msgpack'' filename \<or> ends_with ''.ckpt.index'' filename
      \<or> ends_with ''.iop'' filename \<or> ends_with ''.gas'' filename)"

subsection \<open>Lemmas\<close>

lemma validate_revision_Inr:
  assumes "validate_revision r = Inr ()"
  shows "list_all revision_component_ok (str_split (CHR ''/'') r)" and "list_all (\<lambda>c. \<not> forbidden_in_revision c) r"
  using assms by (auto simp: validate_revision_def Let_def list_ex_iff list_all_iff split: if_splits)

lemma component_kind:
  "revision_component_ok c \<Longrightarrow> c \<noteq> [] \<and> c \<noteq> ''.'' \<and> c \<noteq> ''..''"
  by (auto simp: revision_component_ok_def starts_with_def)

lemma absolute_first: "starts_with ''/'' r \<Longrightarrow> [] \<in> set (str_split (CHR ''/'') r)"
  by (auto simp: starts_with_iff)

lemma revision_components:
  assumes "validate_revision r = Inr ()"
  shows "path_components r = map (\<lambda>c. (3, c)) (str_split (CHR ''/'') r)"
proof -
  have ok: "\<And>c. c \<in> set (str_split (CHR ''/'') r) \<Longrightarrow> c \<noteq> [] \<and> c \<noteq> ''.'' \<and> c \<noteq> ''..''"
    using validate_revision_Inr(1) [OF assms] component_kind by (auto simp: list_all_iff)
  have "\<not> starts_with ''/'' r" using ok absolute_first by blast
  moreover have "hd (str_split (CHR ''/'') r) \<noteq> ''.''" using ok [of "hd (str_split (CHR ''/'') r)"] by simp
  moreover have "filter (\<lambda>c. c \<noteq> [] \<and> c \<noteq> ''.'') (str_split (CHR ''/'') r) = str_split (CHR ''/'') r"
    using ok by (simp add: filter_id_conv)
  ultimately show ?thesis using ok by (simp add: path_components_def)
qed

text \<open>
  A revision that passes the check is safe to store and to use as a path: every registry key
  that carries it is well formed, so the key parses back from its text; and as a relative path it
  consists of ordinary components only, so that joining it to a directory gives a path below
  that directory.
\<close>

theorem validated_revision_is_safe:
  assumes "validate_revision r = Inr ()" and "key_ok (k\<lparr>ek_revision := None\<rparr>)"
  shows "key_ok (k\<lparr>ek_revision := Some r\<rparr>)
    \<and> parse_key (key_to_string (k\<lparr>ek_revision := Some r\<rparr>)) = k\<lparr>ek_revision := Some r\<rparr>
    \<and> (\<forall>(kind, c) \<in> set (path_components r). kind = 3 \<and> c \<noteq> ''..'' \<and> c \<noteq> [])
    \<and> (\<exists>below. below \<noteq> [] \<and> path_join dir r = path_join dir [] @ below)"
proof -
  have comps: "\<And>c. c \<in> set (str_split (CHR ''/'') r) \<Longrightarrow> c \<noteq> [] \<and> c \<noteq> ''.'' \<and> c \<noteq> ''..''"
    using validate_revision_Inr(1) [OF assms(1)] component_kind by (auto simp: list_all_iff)
  have ne: "r \<noteq> []" using comps by force
  have "CHR '':'' \<notin> set r"
    using validate_revision_Inr(2) [OF assms(1)] by (auto simp: list_all_iff forbidden_in_revision_def)
  then have ok: "key_ok (k\<lparr>ek_revision := Some r\<rparr>)" using assms(2) ne by (simp add: key_ok_def)
  have "\<not> starts_with ''/'' r" using comps absolute_first by blast
  then have "path_join dir r = path_join dir [] @ r"
    by (simp add: path_join_def starts_with_def)
  then show ?thesis
    using ok parse_to_string [OF ok] revision_components [OF assms(1)] comps ne by auto
qed

theorem validated_revision_is_safe_witness:
  "parse_key (key_to_string (entry_key_new ''org/model'' (Some ''refs/pr/1'') False))
     = entry_key_new ''org/model'' (Some ''refs/pr/1'') False
   \<and> validate_revision ''../escape'' = Inl ''Invalid revision ../escape''"
proof -
  have "validate_revision ''refs/pr/1'' = Inr ()" by code_simp
  moreover have "key_ok (entry_key_new ''org/model'' None False\<lparr>ek_revision := None\<rparr>)" by code_simp
  moreover have "validate_revision ''../escape'' = Inl ''Invalid revision ../escape''" by code_simp
  ultimately show ?thesis
    using validated_revision_is_safe [of "''refs/pr/1''" "entry_key_new ''org/model'' None False"]
    by (simp add: entry_key_new_def)
qed

end
