(* ===== verification/Provider_Names.thy ===== *)
theory Provider_Names
  imports Provider_Rules Registry_Backend
begin

text \<open>
  Model names and the directories they are cached in, for each provider
  (\<^verbatim>\<open>modelexpress_common/src/providers/\<close>: \<^verbatim>\<open>gcs/model_name.rs\<close>,
  \<^verbatim>\<open>gcs/model_dir.rs\<close>, \<^verbatim>\<open>s3.rs\<close>, \<^verbatim>\<open>ngc.rs\<close>, \<^verbatim>\<open>huggingface.rs\<close>, and the
  dispatch of \<^verbatim>\<open>download.rs\<close>).

  Shown here: canonical names are stable, a GCS directory determines its model and lies below the
  cache, and where the NGC and S3 name checks let a name through that leaves its own directory.
\<close>

subsection \<open>Google Cloud Storage\<close>

definition GCS_ROOT :: string where "GCS_ROOT = ''gcs''"

definition bucket_parse :: "string \<Rightarrow> string + string" where
  "bucket_parse raw =
     (let trimmed = trim raw in
      if trimmed = [] then Inl ''bucket name must not be empty''
      else
        let without_scheme = (case strip_prefix ''gs://'' trimmed of Some r \<Rightarrow> r | None \<Rightarrow> trimmed);
            without_trailing = trim_end_matches (CHR ''/'') without_scheme in
        if without_trailing = [] then Inl ''trimmed bucket name must not be empty''
        else if CHR ''/'' \<in> set without_trailing
        then Inl ''bucket name must contain only the bucket name (no object path)''
        else (case path_components without_trailing of
                [(k, c)] \<Rightarrow> if k = 3 then Inr without_trailing
                            else Inl ''bucket name must be a single normal path segment''
              | _ \<Rightarrow> Inl ''bucket name must be a single normal path segment''))"

record GcsModelName =
  gm_bucket :: string
  gm_object_prefix :: string

definition is_ascii_alphabetic :: "char \<Rightarrow> bool" where
  "is_ascii_alphabetic c = (let n = of_char c :: nat in (65 \<le> n \<and> n \<le> 90) \<or> (97 \<le> n \<and> n \<le> 122))"

definition gcs_segment_error :: "string \<Rightarrow> string option" where
  "gcs_segment_error component =
     (let has_windows_drive_prefix =
        (case component of a # b # _ \<Rightarrow> is_ascii_alphabetic a \<and> b = CHR '':'' | _ \<Rightarrow> False) in
      if component = [] then Some ''GCS model path must not contain empty path segments''
      else if component = ''.'' \<or> component = ''..''
      then Some ''GCS model path must not contain '.' or '..' segments''
      else if CHR 0x5C \<in> set component \<or> has_windows_drive_prefix
      then Some ''GCS model path must contain only portable path segments''
      else None)"

definition gcs_new :: "string \<Rightarrow> string \<Rightarrow> string + GcsModelName" where
  "gcs_new bucket object_prefix =
     (let normalized = trim_end_matches (CHR ''/'') object_prefix in
      if normalized = [] then Inl ''GCS model path must not be empty''
      else
        sum_bind (collect_results
            (\<lambda>c. case gcs_segment_error c of Some e \<Rightarrow> Inl e | None \<Rightarrow> Inr c)
            (str_split (CHR ''/'') normalized))
          (\<lambda>components.
             if components = [] then Inl ''GCS model path must not be empty''
             else Inr \<lparr>gm_bucket = bucket, gm_object_prefix = str_join (CHR ''/'') components\<rparr>))"

definition gcs_parse :: "string \<Rightarrow> string + GcsModelName" where
  "gcs_parse model_name =
     (if model_name = [] then Inl ''Model name must not be empty''
      else case strip_prefix ''gs://'' model_name of
             None \<Rightarrow> Inl ''GCS model name must be a full gs://<bucket>/<path> URL''
           | Some full_url \<Rightarrow>
               (case split_once (CHR ''/'') full_url of
                  None \<Rightarrow> Inl ''GCS model URL must include bucket and object path''
                | Some (bucket_raw, object_prefix) \<Rightarrow>
                    if object_prefix = [] then Inl ''GCS model URL must include a non-empty object path''
                    else sum_bind (bucket_parse bucket_raw) (\<lambda>bucket. gcs_new bucket object_prefix)))"

definition gcs_to_string :: "GcsModelName \<Rightarrow> string" where
  "gcs_to_string m = ''gs://'' @ gm_bucket m @ ''/'' @ gm_object_prefix m"

definition gcs_bucket_dir :: "string \<Rightarrow> GcsModelName \<Rightarrow> string" where
  "gcs_bucket_dir cache_root m = path_join (path_join cache_root GCS_ROOT) (gm_bucket m)"

definition gcs_model_dir :: "string \<Rightarrow> GcsModelName \<Rightarrow> string" where
  "gcs_model_dir cache_root m =
     foldl path_join (gcs_bucket_dir cache_root m) (str_split (CHR ''/'') (gm_object_prefix m))"

text \<open>\<^verbatim>\<open>Path::strip_prefix\<close> on components, and \<^verbatim>\<open>ModelDir::model_name\<close>\<close>

fun strip_components :: "(nat \<times> string) list \<Rightarrow> (nat \<times> string) list \<Rightarrow> (nat \<times> string) list option" where
  "strip_components [] cs = Some cs"
| "strip_components (p # ps) [] = None"
| "strip_components (p # ps) (c # cs) = (if p = c then strip_components ps cs else None)"

definition gcs_dir_model_name :: "string \<Rightarrow> string \<Rightarrow> string + GcsModelName" where
  "gcs_dir_model_name cache_root model_dir =
     (case strip_components (path_components (path_join cache_root GCS_ROOT)) (path_components model_dir) of
        None \<Rightarrow> Inl ''GCS model directory is outside cache directory''
      | Some [] \<Rightarrow> Inl ''GCS model directory is missing bucket and object path''
      | Some ((k, bucket_name) # components) \<Rightarrow>
          if k \<noteq> 3 then Inl ''GCS model directory has invalid bucket component''
          else
            sum_bind (bucket_parse bucket_name) (\<lambda>bucket.
            sum_bind (collect_results
                (\<lambda>(k, c). if k = 3 then Inr c else Inl ''GCS model directory has invalid object path component'')
                components) (\<lambda>object_prefix_components.
              if object_prefix_components = [] then Inl ''GCS model directory is missing object path''
              else gcs_new bucket (str_join (CHR ''/'') object_prefix_components))))"

subsection \<open>S3\<close>

definition S3_ROOT :: string where "S3_ROOT = ''s3''"

definition trim_start :: "string \<Rightarrow> string" where
  "trim_start s = dropWhile is_whitespace s"

record S3ModelName =
  s3_bucket :: string
  s3_object_prefix :: string

definition s3_segment_error :: "string \<Rightarrow> string option" where
  "s3_segment_error component =
     (if component = [] then Some ''S3 model path must not contain empty path segments''
      else if component = ''.'' \<or> component = ''..''
      then Some ''S3 model path must not contain '.' or '..' segments''
      else None)"

definition s3_new :: "string \<Rightarrow> string \<Rightarrow> string + S3ModelName" where
  "s3_new bucket object_prefix =
     (let object_prefix = trim_end_matches (CHR ''/'') object_prefix in
      if object_prefix = [] then Inl ''S3 model path must not be empty''
      else
        sum_bind (collect_results
            (\<lambda>c. case s3_segment_error c of Some e \<Rightarrow> Inl e | None \<Rightarrow> Inr c)
            (str_split (CHR ''/'') object_prefix))
          (\<lambda>_. Inr \<lparr>s3_bucket = bucket, s3_object_prefix = object_prefix\<rparr>))"

definition s3_parse :: "string \<Rightarrow> string + S3ModelName" where
  "s3_parse model_name =
     (let model_name = trim_start model_name in
      if length model_name < 5 \<or> to_lowercase (take 5 model_name) \<noteq> ''s3://''
      then Inl ''S3 model name must be a full s3://<bucket>/<path> URL''
      else (case split_once (CHR ''/'') (drop 5 model_name) of
              None \<Rightarrow> Inl ''S3 model URL must include bucket and object path''
            | Some (bucket, object_prefix) \<Rightarrow>
                if bucket = [] \<or> CHR ''/'' \<in> set bucket then Inl ''S3 model URL must include a valid bucket''
                else s3_new bucket object_prefix))"

definition s3_to_string :: "S3ModelName \<Rightarrow> string" where
  "s3_to_string m = ''s3://'' @ s3_bucket m @ ''/'' @ s3_object_prefix m"

definition s3_model_dir :: "string \<Rightarrow> S3ModelName \<Rightarrow> string" where
  "s3_model_dir cache_root m =
     foldl path_join (path_join (path_join cache_root S3_ROOT) (s3_bucket m))
       (str_split (CHR ''/'') (s3_object_prefix m))"

subsection \<open>NGC\<close>

record NgcArtifactId =
  ng_org :: string
  ng_team :: "string option"
  ng_artifact_type :: string
  ng_name :: string
  ng_version :: string

definition ngc_parse_model_name :: "string \<Rightarrow> string + NgcArtifactId" where
  "ngc_parse_model_name model_name =
     (let trimmed = trim model_name;
          name = (case strip_prefix ''ngc://'' trimmed of Some r \<Rightarrow> r | None \<Rightarrow> trimmed);
          parts = str_split (CHR ''/'') name in
      if list_ex (\<lambda>s. s = ''.'' \<or> s = ''..'') parts
      then Inl (''NGC model name segments must not be '.' or '..'; got '' @ name)
      else case parts of
             [a, b, c] \<Rightarrow>
               (case split_once (CHR '':'') c of
                  Some (n, v) \<Rightarrow> Inr \<lparr>ng_org = a, ng_team = Some b, ng_artifact_type = ''models'', ng_name = n, ng_version = v\<rparr>
                | None \<Rightarrow> Inr \<lparr>ng_org = a, ng_team = None, ng_artifact_type = ''models'', ng_name = b, ng_version = c\<rparr>)
           | [a, b, c, d] \<Rightarrow>
               Inr \<lparr>ng_org = a, ng_team = Some b, ng_artifact_type = ''models'', ng_name = c, ng_version = d\<rparr>
           | [a, b, c, d, e] \<Rightarrow>
               Inr \<lparr>ng_org = a, ng_team = Some b, ng_artifact_type = c, ng_name = d, ng_version = e\<rparr>
           | _ \<Rightarrow> Inl (''NGC model name must be 'org/name/version', 'org/team/name/version', or 'org/team/type/name/version'; got '' @ name))"

definition ngc_model_dir :: "string \<Rightarrow> NgcArtifactId \<Rightarrow> string" where
  "ngc_model_dir cache_root artifact =
     (let path = path_join (path_join cache_root ''ngc'') (ng_org artifact);
          path = (case ng_team artifact of Some team \<Rightarrow> path_join path team | None \<Rightarrow> path)
      in path_join (path_join (path_join path (ng_artifact_type artifact)) (ng_name artifact)) (ng_version artifact))"

subsection \<open>Hugging Face\<close>

text \<open>\<^verbatim>\<open>s.replace('/', "--")\<close> and \<^verbatim>\<open>s.replace("--", "/")\<close>\<close>

definition replace_char :: "char \<Rightarrow> string \<Rightarrow> string \<Rightarrow> string" where
  "replace_char c r s = concat (map (\<lambda>x. if x = c then r else [x]) s)"

fun dashes_to_slash :: "string \<Rightarrow> string" where
  "dashes_to_slash (a # b # s) =
     (if a = CHR ''-'' \<and> b = CHR ''-'' then CHR ''/'' # dashes_to_slash s else a # dashes_to_slash (b # s))"
| "dashes_to_slash s = s"

definition repo_root :: "string \<Rightarrow> string \<Rightarrow> string" where
  "repo_root cache_root model_name = path_join cache_root (''models--'' @ replace_char (CHR ''/'') ''--'' model_name)"

definition snapshots_dir :: "string \<Rightarrow> string \<Rightarrow> string" where
  "snapshots_dir cache_root model_name = path_join (repo_root cache_root model_name) ''snapshots''"

definition refs_dir :: "string \<Rightarrow> string \<Rightarrow> string" where
  "refs_dir cache_root model_name = path_join (repo_root cache_root model_name) ''refs''"

definition folder_name_to_model_id :: "string \<Rightarrow> string" where
  "folder_name_to_model_id folder_name =
     (case strip_prefix ''models--'' folder_name of
        Some stripped \<Rightarrow> dashes_to_slash stripped
      | None \<Rightarrow> folder_name)"

subsection \<open>Dispatch\<close>

definition canonical_model_name :: "string \<Rightarrow> ModelProvider \<Rightarrow> string + string" where
  "canonical_model_name model_name provider =
     (case provider of
        HuggingFace \<Rightarrow> Inr model_name
      | Ngc \<Rightarrow> Inr model_name
      | Gcs \<Rightarrow> map_sum id gcs_to_string (gcs_parse model_name)
      | S3 \<Rightarrow> map_sum id s3_to_string (s3_parse model_name))"

subsection \<open>Components of joined paths\<close>

lemma split_append_sep: "str_split sep (a @ sep # b) = str_split sep a @ str_split sep b"
proof (induction a)
  case (Cons x a)
  then show ?case by (cases "str_split sep a") auto
qed simp

text \<open>What one more segment adds to the components of a path.\<close>

definition seg_comps :: "string \<Rightarrow> (nat \<times> string) list" where
  "seg_comps c = (if c = [] \<or> c = ''.'' then [] else if c = ''..'' then [(2, [])] else [(3, c)])"

lemma comps_of_split:
  "map (\<lambda>c. if c = ''..'' then (2, []) else (3, c)) (filter (\<lambda>c. c \<noteq> [] \<and> c \<noteq> ''.'') cs)
     = concat (map seg_comps cs)"
  by (induction cs) (auto simp: seg_comps_def)

lemma path_components_alt:
  "path_components p =
     (if starts_with ''/'' p then [(0, [])]
      else if hd (str_split (CHR ''/'') p) = ''.'' then [(1, [])] else [])
     @ concat (map seg_comps (str_split (CHR ''/'') p))"
  by (simp add: path_components_def comps_of_split)

lemma join_relative:
  assumes "root \<noteq> []" and "\<not> starts_with ''/'' p"
  shows "path_components (path_join root p) = path_components root @ concat (map seg_comps (str_split (CHR ''/'') p))"
proof -
  have add: "path_components (r @ CHR ''/'' # p) = path_components (r @ ''/'') @ concat (map seg_comps (str_split (CHR ''/'') p))" for r
  proof -
    have "starts_with ''/'' (r @ CHR ''/'' # p) = starts_with ''/'' (r @ ''/'')" by (cases r) (simp_all add: starts_with_def)
    then show ?thesis
      using split_append_sep [of "CHR ''/''" r "[]"]
      by (simp add: path_components_alt split_append_sep seg_comps_def)
  qed
  have slash: "path_components (root @ ''/'') = path_components root"
    using assms(1) split_append_sep [of "CHR ''/''" root "[]"]
    by (simp add: path_components_alt seg_comps_def starts_with_iff append_eq_Cons_conv Cons_eq_append_conv)
  show ?thesis
  proof (cases "last root = CHR ''/''")
    case True
    then obtain r where "root = r @ ''/''" using assms(1) by (metis append_butlast_last_id)
    then show ?thesis using add [of r] assms(2) by (simp add: path_join_def)
  next
    case False
    then show ?thesis using add [of root] slash assms by (simp add: path_join_def)
  qed
qed

lemma join_components:
  assumes "root \<noteq> []" and "CHR ''/'' \<notin> set c"
  shows "path_components (path_join root c) = path_components root @ seg_comps c"
proof -
  have "\<not> starts_with ''/'' c" using assms(2) by (cases c) (auto simp: starts_with_iff)
  from join_relative [OF assms(1) this] show ?thesis using assms(2) by (simp add: str_split_no_sep)
qed

lemma join_nonempty: "root \<noteq> [] \<Longrightarrow> CHR ''/'' \<notin> set c \<Longrightarrow> path_join root c \<noteq> []"
  by (auto simp: path_join_def starts_with_def)

lemma joins_components:
  assumes "root \<noteq> []" and "list_all (\<lambda>c. CHR ''/'' \<notin> set c) cs"
  shows "path_components (foldl path_join root cs) = path_components root @ concat (map seg_comps cs)
    \<and> foldl path_join root cs \<noteq> []"
  using assms
proof (induction cs arbitrary: root)
  case (Cons c cs)
  then show ?case using join_components [of root c] join_nonempty [of root c] by simp
qed simp


definition normal :: "string \<Rightarrow> bool" where
  "normal c \<longleftrightarrow> c \<noteq> [] \<and> c \<noteq> ''.'' \<and> c \<noteq> ''..''"

lemma normal_comps: "list_all normal cs \<Longrightarrow> concat (map seg_comps cs) = map (Pair 3) cs"
  by (induction cs) (auto simp: seg_comps_def normal_def)

lemma join_normal: "root \<noteq> [] \<Longrightarrow> normal c \<Longrightarrow> CHR ''/'' \<notin> set c \<Longrightarrow>
    path_components (path_join root c) = path_components root @ [(3, c)]"
  by (simp add: join_components seg_comps_def normal_def)

lemma split_no_sep_mem: "c \<in> set (str_split sep s) \<Longrightarrow> sep \<notin> set c"
proof (induction s arbitrary: c)
  case (Cons x s)
  then show ?case by (cases "str_split sep s") (auto split: if_splits)
qed simp

lemma split_free: "list_all (\<lambda>c. sep \<notin> set c) (str_split sep s)"
  using split_no_sep_mem by (auto simp: list_all_iff)

lemma join_split: "str_join sep (str_split sep s) = s"
proof (induction s)
  case (Cons x s)
  obtain p ps where sp: "str_split sep s = p # ps" using str_split_nonempty [of sep s] by (cases "str_split sep s") auto
  show ?case
  proof (cases "x = sep")
    case True then show ?thesis using Cons sp by simp
  next
    case False then show ?thesis using Cons sp by (cases ps) auto
  qed
qed simp

lemma collect_checks:
  "collect_results (\<lambda>c. case err c of Some e \<Rightarrow> Inl e | None \<Rightarrow> Inr c) xs = Inr ys
     \<longleftrightarrow> ys = xs \<and> list_all (\<lambda>c. err c = None) xs"
proof (induction xs arbitrary: ys)
  case (Cons x xs)
  then show ?case
    by (cases "err x"; cases "collect_results (\<lambda>c. case err c of Some e \<Rightarrow> Inl e | None \<Rightarrow> Inr c) xs") auto
qed auto

lemma trim_end_last: "trim_end_matches c s = s \<longleftrightarrow> s = [] \<or> last s \<noteq> c"
proof (cases s rule: rev_cases)
  case (snoc t x)
  have "length (dropWhile (\<lambda>y. y = c) (rev t)) \<le> length t" using length_dropWhile_le [of _ "rev t"] by simp
  then have "rev (dropWhile (\<lambda>y. y = c) (rev t)) \<noteq> t @ [c]"
    by (auto dest: arg_cong [where f = length])
  then show ?thesis using snoc by (auto simp: trim_end_matches_def)
qed (simp add: trim_end_matches_def)

lemma split_snoc: "x \<noteq> sep \<Longrightarrow> str_split sep (t @ [x]) = butlast (str_split sep t) @ [last (str_split sep t) @ [x]]"
proof (induction t)
  case (Cons y t)
  then show ?case by (cases "str_split sep t") auto
qed simp

lemma split_last: "last (str_split sep s) = [] \<longleftrightarrow> s = [] \<or> last s = sep"
proof (cases s rule: rev_cases)
  case (snoc t x)
  then show ?thesis using split_snoc [of x sep t] split_append_sep [of sep t "[]"]
    by (cases "x = sep") auto
qed simp

text \<open>A checked object path is not changed by trimming it again.\<close>

lemma checked_prefix_stable:
  assumes "list_all (\<lambda>c. err c = None) (str_split (CHR ''/'') p)" and "err [] \<noteq> None"
  shows "trim_end_matches (CHR ''/'') p = p" and "p \<noteq> []"
proof -
  have "last (str_split (CHR ''/'') p) \<noteq> []"
    using assms last_in_set [OF str_split_nonempty [of "CHR ''/''" p]] unfolding list_all_iff by fastforce
  then show "trim_end_matches (CHR ''/'') p = p" and "p \<noteq> []" by (auto simp: split_last trim_end_last)
qed

lemma gcs_new_Inr:
  "gcs_new b p = Inr m \<longleftrightarrow>
     m = \<lparr>gm_bucket = b, gm_object_prefix = trim_end_matches (CHR ''/'') p\<rparr>
     \<and> list_all (\<lambda>c. gcs_segment_error c = None) (str_split (CHR ''/'') (trim_end_matches (CHR ''/'') p))"
  using checked_prefix_stable(2) [of gcs_segment_error "trim_end_matches (CHR ''/'') p"]
  by (auto simp: gcs_new_def Let_def sum_bind_Inr_iff collect_checks join_split gcs_segment_error_def)

lemma s3_new_Inr:
  "s3_new b p = Inr m \<longleftrightarrow>
     m = \<lparr>s3_bucket = b, s3_object_prefix = trim_end_matches (CHR ''/'') p\<rparr>
     \<and> list_all (\<lambda>c. s3_segment_error c = None) (str_split (CHR ''/'') (trim_end_matches (CHR ''/'') p))"
  using checked_prefix_stable(2) [of s3_segment_error "trim_end_matches (CHR ''/'') p"]
  by (auto simp: s3_new_def Let_def sum_bind_Inr_iff collect_checks s3_segment_error_def)


lemma set_trim: "set (trim s) \<subseteq> set s"
  unfolding trim_def by (auto dest!: set_dropWhileD)

lemma trim_stable: "s \<noteq> [] \<Longrightarrow> \<not> is_whitespace (hd s) \<Longrightarrow> \<not> is_whitespace (last s) \<Longrightarrow> trim s = s"
proof -
  assume "s \<noteq> []" and h: "\<not> is_whitespace (hd s)" and l: "\<not> is_whitespace (last s)"
  then have "dropWhile is_whitespace s = s" by (cases s) auto
  moreover have "dropWhile is_whitespace (rev s) = rev s"
    using \<open>s \<noteq> []\<close> l by (cases "rev s") (auto simp: hd_rev [symmetric] simp del: rev_is_Nil_conv)
  ultimately show ?thesis by (simp add: trim_def)
qed

lemma trim_idem: "trim (trim s) = trim s"
proof (cases "trim s = []")
  case False
  let ?a = "dropWhile is_whitespace s"
  let ?b = "dropWhile is_whitespace (rev ?a)"
  have ts: "trim s = rev ?b" by (simp add: trim_def)
  then have "?b \<noteq> []" using False by simp
  then have "\<not> is_whitespace (last (trim s))" using hd_dropWhile [of is_whitespace "rev ?a"] by (simp add: ts last_rev)
  moreover have "?a \<noteq> []" using \<open>?b \<noteq> []\<close> by (auto simp del: dropWhile_eq_Nil_conv)
  then have "\<not> is_whitespace (hd ?a)" by (rule hd_dropWhile)
  moreover have "hd (trim s) = hd ?a"
  proof -
    obtain w where "rev ?a = w @ ?b" by (metis takeWhile_dropWhile_id)
    then have "rev (rev ?a) = rev (w @ ?b)" by simp
    then have "?a = rev ?b @ rev w" by simp
    then have "hd ?a = hd (rev ?b @ rev w)" by simp
    then show ?thesis using \<open>?b \<noteq> []\<close> unfolding ts by (simp del: dropWhile_eq_Nil_conv)
  qed
  ultimately show ?thesis using trim_stable [OF False] by simp
next
  case True
  then show ?thesis unfolding True by (simp add: trim_def)
qed

lemma bucket_plain:
  assumes "CHR ''/'' \<notin> set raw"
  shows "bucket_parse raw = Inr b \<longleftrightarrow> b = trim raw \<and> normal b"
proof -
  have ns: "CHR ''/'' \<notin> set (trim raw)" using assms set_trim by blast
  then have "strip_prefix ''gs://'' (trim raw) = None"
    by (auto simp: strip_prefix_Some_iff not_Some_eq [symmetric] simp del: not_Some_eq)
  moreover have "trim_end_matches (CHR ''/'') (trim raw) = trim raw"
    using ns last_in_set [of "trim raw"] unfolding trim_end_last by metis
  moreover have "path_components (trim raw) = (if trim raw = ''.'' then [(1, [])] else []) @ seg_comps (trim raw)"
    using ns by (cases "trim raw") (auto simp: path_components_alt str_split_no_sep starts_with_def)
  ultimately show ?thesis using ns
    by (auto simp: bucket_parse_def Let_def normal_def seg_comps_def)
qed

lemma gcs_parse_Inr:
  assumes "gcs_parse n = Inr m"
  shows "bucket_parse (gm_bucket m) = Inr (gm_bucket m)" and "normal (gm_bucket m)" and "CHR ''/'' \<notin> set (gm_bucket m)"
    and "list_all (\<lambda>c. gcs_segment_error c = None) (str_split (CHR ''/'') (gm_object_prefix m))"
proof -
  obtain url raw p b where "split_once (CHR ''/'') url = Some (raw, p)" and b: "bucket_parse raw = Inr b" and m: "gcs_new b p = Inr m"
    using assms by (auto simp: gcs_parse_def sum_bind_Inr_iff split: if_splits option.splits)
  then have raw: "CHR ''/'' \<notin> set raw" by (simp add: split_once_some)
  then have bt: "b = trim raw" "normal b" using b by (auto simp: bucket_plain)
  have mb: "gm_bucket m = b" using m by (simp add: gcs_new_Inr)
  show ns: "CHR ''/'' \<notin> set (gm_bucket m)" using raw set_trim [of raw] bt mb by auto
  show "normal (gm_bucket m)" using bt mb by simp
  show "bucket_parse (gm_bucket m) = Inr (gm_bucket m)" using ns bt mb by (simp add: bucket_plain trim_idem)
  show "list_all (\<lambda>c. gcs_segment_error c = None) (str_split (CHR ''/'') (gm_object_prefix m))"
    using m by (auto simp: gcs_new_Inr)
qed

lemma gcs_new_stable:
  assumes "list_all (\<lambda>c. gcs_segment_error c = None) (str_split (CHR ''/'') (gm_object_prefix m))"
  shows "gcs_new (gm_bucket m) (gm_object_prefix m) = Inr m" and "gm_object_prefix m \<noteq> []"
  using checked_prefix_stable [OF assms] assms by (simp_all add: gcs_new_Inr gcs_segment_error_def)

lemma gcs_to_string_parse:
  assumes "gcs_parse n = Inr m"
  shows "gcs_parse (gcs_to_string m) = Inr m"
proof -
  note wf = gcs_parse_Inr [OF assms]
  have "strip_prefix ''gs://'' (gcs_to_string m) = Some (gm_bucket m @ CHR ''/'' # gm_object_prefix m)"
    by (simp add: gcs_to_string_def)
  then show ?thesis
    using wf(1) gcs_new_stable [OF wf(4)] split_once_append [OF wf(3)]
    by (simp add: gcs_parse_def) (simp add: gcs_to_string_def)
qed

lemma s3_parse_Inr:
  assumes "s3_parse n = Inr m"
  shows "s3_bucket m \<noteq> []" and "CHR ''/'' \<notin> set (s3_bucket m)"
    and "list_all (\<lambda>c. s3_segment_error c = None) (str_split (CHR ''/'') (s3_object_prefix m))"
  using assms by (auto simp: s3_parse_def Let_def s3_new_Inr split: if_splits option.splits)

lemma s3_to_string_parse:
  assumes "s3_bucket m \<noteq> []" and "CHR ''/'' \<notin> set (s3_bucket m)"
    and "list_all (\<lambda>c. s3_segment_error c = None) (str_split (CHR ''/'') (s3_object_prefix m))"
  shows "s3_parse (s3_to_string m) = Inr m"
proof -
  have "s3_new (s3_bucket m) (s3_object_prefix m) = Inr m"
    using checked_prefix_stable [OF assms(3)] assms(3) by (simp add: s3_new_Inr s3_segment_error_def)
  moreover have "trim_start (s3_to_string m) = s3_to_string m" by (simp add: trim_start_def s3_to_string_def is_whitespace_def)
  moreover have "to_lowercase (take 5 (s3_to_string m)) = ''s3://''" by (simp add: s3_to_string_def to_lowercase_def)
  moreover have "drop 5 (s3_to_string m) = s3_bucket m @ CHR ''/'' # s3_object_prefix m" by (simp add: s3_to_string_def)
  moreover have "\<not> length (s3_to_string m) < 5" by (simp add: s3_to_string_def)
  ultimately show ?thesis using assms(1,2) split_once_append [OF assms(2)] by (simp add: s3_parse_def)
qed


subsection \<open>Properties\<close>

text \<open>
  Canonical names are stable: the canonical form of a model name is its own canonical form, and for
  the bucket stores the canonical name denotes the same bucket and object path, so that every
  spelling of a model shares one registry entry and one cache directory.
\<close>

theorem canonical_name_stable:
  assumes "canonical_model_name n p = Inr c"
  shows "canonical_model_name c p = Inr c
    \<and> (p = Gcs \<longrightarrow> gcs_parse c = gcs_parse n) \<and> (p = S3 \<longrightarrow> s3_parse c = s3_parse n)"
proof (cases p)
  case Gcs
  then obtain m where "gcs_parse n = Inr m" "c = gcs_to_string m"
    using assms by (auto simp: canonical_model_name_def split: sum.splits) (cases "gcs_parse n"; auto)
  then show ?thesis using gcs_to_string_parse by (simp add: canonical_model_name_def Gcs)
next
  case S3
  then obtain m where m: "s3_parse n = Inr m" "c = s3_to_string m"
    using assms by (auto simp: canonical_model_name_def split: sum.splits) (cases "s3_parse n"; auto)
  then show ?thesis using s3_to_string_parse [OF s3_parse_Inr [OF m(1)]] by (simp add: canonical_model_name_def S3)
qed (use assms in \<open>simp_all add: canonical_model_name_def\<close>)

theorem canonical_name_stable_witness:
  "canonical_model_name ''gs://b/org/m'' Gcs = Inr ''gs://b/org/m'' \<and> gcs_parse ''gs://b/org/m'' = gcs_parse ''gs://b/org/m/''"
proof -
  have "canonical_model_name ''gs://b/org/m/'' Gcs = Inr ''gs://b/org/m''" by code_simp
  from canonical_name_stable [OF this] show ?thesis by simp
qed

lemma gcs_segments_normal:
  "list_all (\<lambda>c. gcs_segment_error c = None) cs \<Longrightarrow> list_all normal cs"
  by (auto simp: list_all_iff gcs_segment_error_def normal_def Let_def split: if_splits)

lemma strip_components_append: "strip_components a (a @ b) = Some b"
  by (induction a) auto

text \<open>
  The directory of a GCS model lies below the cache, one ordinary component for the store, the bucket
  and each segment of the object path, and it determines the model: reading the name back from the
  directory gives the model, so no two models share a directory.
\<close>

theorem gcs_dir_roundtrip:
  assumes "gcs_parse n = Inr m" and "root \<noteq> []"
  shows "path_components (gcs_model_dir root m) =
      path_components root @ map (Pair 3) (GCS_ROOT # gm_bucket m # str_split (CHR ''/'') (gm_object_prefix m))
    \<and> gcs_dir_model_name root (gcs_model_dir root m) = Inr m"
proof -
  note wf = gcs_parse_Inr [OF assms(1)]
  let ?segs = "str_split (CHR ''/'') (gm_object_prefix m)"
  have g: "normal GCS_ROOT" "CHR ''/'' \<notin> set GCS_ROOT" by (simp_all add: GCS_ROOT_def normal_def)
  have root: "path_components (path_join root GCS_ROOT) = path_components root @ [(3, GCS_ROOT)]"
    "path_join root GCS_ROOT \<noteq> []"
    using join_normal [OF assms(2) g] join_nonempty [OF assms(2) g(2)] by auto
  have bucket: "path_components (gcs_bucket_dir root m) = path_components (path_join root GCS_ROOT) @ [(3, gm_bucket m)]"
    "gcs_bucket_dir root m \<noteq> []"
    using join_normal [OF root(2) wf(2,3)] join_nonempty [OF root(2) wf(3)] by (auto simp: gcs_bucket_dir_def)
  have dir: "path_components (gcs_model_dir root m)
      = path_components (path_join root GCS_ROOT) @ (3, gm_bucket m) # map (Pair 3) ?segs"
    using joins_components [OF bucket(2), of ?segs] split_free normal_comps [OF gcs_segments_normal [OF wf(4)]]
    by (simp add: gcs_model_dir_def bucket(1))
  have "collect_results (\<lambda>(k, c). if k = 3 then Inr c else Inl e) (map (Pair (3::nat)) xs) = Inr xs" for e :: string and xs :: "string list"
    by (induction xs) auto
  then have "gcs_dir_model_name root (gcs_model_dir root m) = Inr m"
    using wf(1) gcs_new_stable(1) [OF wf(4)]
    by (simp add: gcs_dir_model_name_def dir strip_components_append join_split)
  then show ?thesis using dir root(1) by simp
qed

theorem gcs_dir_roundtrip_witness:
  "gcs_dir_model_name ''/c'' (gcs_model_dir ''/c'' \<lparr>gm_bucket = ''b'', gm_object_prefix = ''org/m''\<rparr>)
     = Inr \<lparr>gm_bucket = ''b'', gm_object_prefix = ''org/m''\<rparr>"
proof -
  have "gcs_parse ''gs://b/org/m'' = Inr \<lparr>gm_bucket = ''b'', gm_object_prefix = ''org/m''\<rparr>" by code_simp
  from gcs_dir_roundtrip [OF this, of "''/c''"] show ?thesis by simp
qed

text \<open>Where a path leads when no link is in the way.\<close>

definition lexical :: "(nat \<times> string) list \<Rightarrow> string list" where
  "lexical cs = foldl (\<lambda>acc (k, c). if k = 3 then acc @ [c] else if k = 2 then butlast acc
     else if k = 0 then [] else acc) [] cs"

lemma lexical_snoc:
  "lexical (cs @ [(3, c)]) = lexical cs @ [c]" "lexical (cs @ [(2, c)]) = butlast (lexical cs)"
  by (simp_all add: lexical_def)

definition ngc_segment :: "string \<Rightarrow> bool" where
  "ngc_segment c \<longleftrightarrow> normal c \<and> CHR ''/'' \<notin> set c \<and> CHR '':'' \<notin> set c \<and> list_all (\<lambda>x. \<not> is_whitespace x) c"

text \<open>
  The check of NGC names does not cover the form with a colon: the name and the version are split
  after the check, so that \<^verbatim>\<open>org/team/name:..\<close> is accepted, and the directory it is
  cached in, which clearing the model deletes, is the one of all models of the team.
\<close>

theorem ngc_colon_bypasses_check:
  assumes "ngc_segment org" and "ngc_segment team" and "ngc_segment name" and "root \<noteq> []"
  shows "\<exists>artifact. ngc_parse_model_name (org @ ''/'' @ team @ ''/'' @ name @ '':..'') = Inr artifact
    \<and> lexical (path_components (ngc_model_dir root artifact))
        = lexical (path_components root) @ [''ngc'', org, team, ''models'']"
proof -
  let ?n = "org @ ''/'' @ team @ ''/'' @ name @ '':..''"
  let ?id = "\<lparr>ng_org = org, ng_team = Some team, ng_artifact_type = ''models'', ng_name = name, ng_version = ''..''\<rparr>"
  have seg: "normal c" "CHR ''/'' \<notin> set c" "CHR '':'' \<notin> set c" if "c \<in> {org, team, name}" for c
    using assms(1-3) that by (auto simp: ngc_segment_def)
  have "hd ?n = hd org" "\<not> is_whitespace (hd org)"
    using assms(1) hd_in_set [of org] by (auto simp: ngc_segment_def normal_def list_all_iff)
  then have trim: "trim ?n = ?n" by (intro trim_stable) (simp_all add: is_whitespace_def)
  have split: "str_split (CHR ''/'') ?n = [org, team, name @ '':..'']"
    using seg by (simp add: str_split_append str_split_no_sep)
  have "split_once (CHR ''/'') ?n = Some (org, team @ ''/'' @ name @ '':..'')"
    using seg split_once_append [of "CHR ''/''" org] by simp
  moreover have "split_once (CHR ''/'') (''ngc://'' @ r) = Some (''ngc:'', ''/'' @ r)" for r by simp
  ultimately have "strip_prefix ''ngc://'' ?n = None"
    using seg(3) [of org] by (cases "strip_prefix ''ngc://'' ?n") (force simp: strip_prefix_Some_iff)+
  then have "ngc_parse_model_name ?n = Inr ?id"
    using split seg split_once_append [of "CHR '':''" name "''..''"]
    unfolding ngc_parse_model_name_def trim by (simp add: normal_def append_eq_Cons_conv)
  moreover have "path_components (ngc_model_dir root ?id)
      = path_components root @ [(3, ''ngc''), (3, org), (3, team), (3, ''models''), (3, name), (2, [])]"
    using joins_components [OF assms(4), of "[''ngc'', org, team, ''models'', name, ''..'']"] seg
    by (simp add: ngc_model_dir_def seg_comps_def normal_def)
  ultimately show ?thesis
    by (intro exI [of _ ?id]) (simp add: lexical_def butlast_append)
qed

theorem ngc_colon_bypasses_check_witness:
  "\<exists>artifact. ngc_parse_model_name ''nim/nvidia/m:..'' = Inr artifact
     \<and> lexical (path_components (ngc_model_dir ''/c'' artifact)) = [''c'', ''ngc'', ''nim'', ''nvidia'', ''models'']"
proof -
  have "lexical (path_components ''/c'') = [''c'']" by code_simp
  then show ?thesis
    using ngc_colon_bypasses_check [of "''nim''" "''nvidia''" "''m''" "''/c''"]
    by (simp add: ngc_segment_def normal_def is_whitespace_def)
qed

text \<open>
  The check of S3 names covers the object path but not the bucket: a bucket of two dots is accepted,
  and the directory of the model is then the one its object path names directly below the cache, where
  the other providers keep their models.
\<close>

theorem s3_bucket_leaves_store:
  assumes "list_all (\<lambda>c. s3_segment_error c = None) (str_split (CHR ''/'') p)" and "root \<noteq> []"
  shows "\<exists>m. s3_parse (''s3://../'' @ p) = Inr m
    \<and> lexical (path_components (s3_model_dir root m)) = lexical (path_components root) @ str_split (CHR ''/'') p"
proof -
  let ?m = "\<lparr>s3_bucket = ''..'', s3_object_prefix = p\<rparr>"
  let ?segs = "str_split (CHR ''/'') p"
  have parse: "s3_parse (s3_to_string ?m) = Inr ?m" using s3_to_string_parse [of ?m] assms(1) by simp
  have "list_all normal ?segs"
    using assms(1) by (auto simp: list_all_iff s3_segment_error_def normal_def split: if_splits)
  moreover have "path_components (s3_model_dir root ?m) = path_components root @ (3, S3_ROOT) # (2, []) # map (Pair 3) ?segs"
    using joins_components [OF assms(2), of "S3_ROOT # ''..'' # ?segs"] split_free
      normal_comps [OF \<open>list_all normal ?segs\<close>]
    by (simp add: s3_model_dir_def S3_ROOT_def seg_comps_def)
  moreover have "lexical (xs @ (3, a) # (2, []) # map (Pair 3) cs) = lexical xs @ cs" for xs a cs
  proof -
    have "foldl (\<lambda>acc (k, c). if k = (3::nat) then acc @ [c] else if k = 2 then butlast acc
        else if k = 0 then [] else acc) acc (map (Pair 3) cs) = acc @ cs" for acc :: "string list"
      by (induction cs arbitrary: acc) auto
    then show ?thesis by (simp add: lexical_def)
  qed
  ultimately show ?thesis using parse by (intro exI [of _ ?m]) (simp add: s3_to_string_def)
qed

theorem s3_bucket_leaves_store_witness:
  "\<exists>m. s3_parse ''s3://../models--org--m'' = Inr m
     \<and> lexical (path_components (s3_model_dir ''/c'' m)) = [''c'', ''models--org--m'']"
proof -
  have "lexical (path_components ''/c'') = [''c'']" by code_simp
  then show ?thesis
    using s3_bucket_leaves_store [of "''models--org--m''" "''/c''"] by (simp add: s3_segment_error_def)
qed


text \<open>Neither two dashes in a row nor a dash before a slash, which the Hub forbids in a name.\<close>

fun hub_name :: "string \<Rightarrow> bool" where
  "hub_name (a # b # s) = (\<not> (a = CHR ''-'' \<and> (b = CHR ''-'' \<or> b = CHR ''/'')) \<and> hub_name (b # s))"
| "hub_name s = True"

text \<open>
  The folder of a Hugging Face repository names its model: for names the Hub allows, listing the
  cache gives back the name under which the folder was made, so no two models share a folder.
\<close>

theorem hf_folder_roundtrip:
  assumes "hub_name n"
  shows "folder_name_to_model_id (''models--'' @ replace_char (CHR ''/'') ''--'' n) = n"
proof -
  have "dashes_to_slash (replace_char (CHR ''/'') ''--'' n) = n"
    using assms
  proof (induction n rule: hub_name.induct)
    case (1 a b s)
    then show ?case by (cases "a = CHR ''/''"; cases "a = CHR ''-''"; cases "b = CHR ''/''"; cases s)
       (auto simp: replace_char_def)
  qed (auto simp: replace_char_def)
  then show ?thesis by (simp add: folder_name_to_model_id_def)
qed

theorem hf_folder_roundtrip_witness:
  "folder_name_to_model_id (''models--'' @ replace_char (CHR ''/'') ''--'' ''org/my-model'') = ''org/my-model''"
  by (rule hf_folder_roundtrip) simp

end
