(* ===== verification/Hf_Cache.thy ===== *)
theory Hf_Cache
  imports Provider_Names
begin

text \<open>
  The Hugging Face provider (\<^verbatim>\<open>modelexpress_common/src/providers/huggingface.rs\<close>): how a requested
  revision is resolved against the cache, which files a download fetches, and how a revision
  is deleted.

  A repository directory holds references (by their path below \<^verbatim>\<open>refs/\<close>), the tree below
  \<^verbatim>\<open>snapshots/\<close>, whose entries are links into the blob store, and the blobs. A cache maps
  repository directories to repositories. Directory listings come in the order the operating
  system gives; \<open>io\<close> says which calls it lets through. The Hub and the \<^verbatim>\<open>hf_hub\<close> client are
  parameters.

  Shown here: a pinned revision is served from its own snapshot or not at all; a download fetches
  every eligible file from one commit; deleting a revision leaves the other revisions and their
  blobs in place when snapshots are flat, and what happens when they are not.
\<close>

subsection \<open>Repositories\<close>

datatype snap_node = SLink string | SFile | SSub "(string \<times> snap_node) list"

type_synonym snap_tree = "(string \<times> snap_node) list"

record HfRepo =
  hr_refs :: "(string \<times> string) list"
  hr_snapshots :: "snap_tree option"
  hr_blobs :: "string list option"
  hr_created :: "(string \<times> nat) list"
  hr_modified :: "(string \<times> nat) list"

type_synonym hf_cache = "string \<Rightarrow> HfRepo option"

datatype hf_op =
    ReadSnapshots | ReadSnapshot string | RemoveSnapshot string | ReadRefs | RemoveRef string
  | ReadBlobs | RemoveBlob string | RemoveRepo

text \<open>The node at a path below a directory, and the directory without it.\<close>

fun tree_get :: "snap_tree \<Rightarrow> string list \<Rightarrow> snap_node option" where
  "tree_get t [] = None"
| "tree_get t [c] = map_of t c"
| "tree_get t (c # cs) = (case map_of t c of Some (SSub sub) \<Rightarrow> tree_get sub cs | _ \<Rightarrow> None)"

fun tree_del :: "snap_tree \<Rightarrow> string list \<Rightarrow> snap_tree" where
  "tree_del t [] = t"
| "tree_del t [c] = filter (\<lambda>(n, _). n \<noteq> c) t"
| "tree_del t (c # cs) =
     map (\<lambda>(n, x). (n, if n = c then (case x of SSub sub \<Rightarrow> SSub (tree_del sub cs) | _ \<Rightarrow> x) else x)) t"

definition snap_at :: "HfRepo option \<Rightarrow> string \<Rightarrow> snap_node option" where
  "snap_at repo commit =
     Option.bind repo (\<lambda>r. Option.bind (hr_snapshots r) (\<lambda>t. tree_get t (str_split (CHR ''/'') commit)))"

definition blob_exists :: "HfRepo \<Rightarrow> string \<Rightarrow> bool" where
  "blob_exists r b = (case hr_blobs r of Some bs \<Rightarrow> b \<in> set bs | None \<Rightarrow> False)"

definition snap_is_dir :: "HfRepo option \<Rightarrow> string \<Rightarrow> bool" where
  "snap_is_dir repo commit = (case snap_at repo commit of Some (SSub _) \<Rightarrow> True | _ \<Rightarrow> False)"

definition snap_exists :: "HfRepo option \<Rightarrow> string \<Rightarrow> bool" where
  "snap_exists repo commit =
     (case snap_at repo commit of
        None \<Rightarrow> False
      | Some (SLink b) \<Rightarrow> is_some_and (\<lambda>r. blob_exists r b) repo
      | Some _ \<Rightarrow> True)"

subsection \<open>Resolving against the cache\<close>

definition read_ref :: "HfRepo option \<Rightarrow> string \<Rightarrow> string + string option" where
  "read_ref repo revision =
     sum_bind (validate_revision revision) (\<lambda>_.
       case Option.bind repo (\<lambda>r. map_of (hr_refs r) revision) of
         None \<Rightarrow> Inr None
       | Some content \<Rightarrow>
           let commit = trim content in
           if commit = [] then Inr None
           else sum_bind (validate_revision commit) (\<lambda>_. Inr (Some commit)))"

definition local_commit_for_revision :: "HfRepo option \<Rightarrow> string \<Rightarrow> string + string" where
  "local_commit_for_revision repo revision =
     sum_bind (read_ref repo revision) (\<lambda>r. Inr (case r of Some commit \<Rightarrow> commit | None \<Rightarrow> revision))"

definition snapshot_time :: "HfRepo \<Rightarrow> string \<Rightarrow> nat" where
  "snapshot_time r commit =
     (case map_of (hr_created r) commit of
        Some t \<Rightarrow> t
      | None \<Rightarrow> (case map_of (hr_modified r) commit of Some t \<Rightarrow> t | None \<Rightarrow> 0))"

text \<open>The name of the latest snapshot; its path is that name below \<open>snapshots_dir\<close>.\<close>

definition latest_local_snapshot :: "(hf_op \<Rightarrow> bool) \<Rightarrow> HfRepo option \<Rightarrow> string + string" where
  "latest_local_snapshot io repo =
     (case repo of
        None \<Rightarrow> Inl ''Model snapshots not found in cache''
      | Some r \<Rightarrow>
          (case hr_snapshots r of
             None \<Rightarrow> Inl ''Model snapshots not found in cache''
           | Some t \<Rightarrow>
               if \<not> io ReadSnapshots then Inl ''read_dir failed''
               else if t = [] then Inl ''Model snapshots is empty''
               else Inr (hd (rev (sort_key (snapshot_time r) (map fst t))))))"

definition resolve_model_path_hf ::
  "(hf_op \<Rightarrow> bool) \<Rightarrow> hf_cache \<Rightarrow> string \<Rightarrow> string \<Rightarrow> string option \<Rightarrow> string + string" where
  "resolve_model_path_hf io cache root model_name revision =
     (case revision of
        Some r \<Rightarrow> sum_bind (validate_revision r) (\<lambda>_. Inr (path_join (snapshots_dir root model_name) r))
      | None \<Rightarrow>
          sum_bind (latest_local_snapshot io (cache (repo_root root model_name))) (\<lambda>c.
            Inr (path_join (snapshots_dir root model_name) c)))"

definition resolve_revision_offline ::
  "(hf_op \<Rightarrow> bool) \<Rightarrow> hf_cache \<Rightarrow> string \<Rightarrow> string \<Rightarrow> string option \<Rightarrow> string + string" where
  "resolve_revision_offline io cache root model_name revision =
     (let repo = cache (repo_root root model_name) in
      case revision of
        Some r \<Rightarrow>
          sum_bind (local_commit_for_revision repo r) (\<lambda>commit.
            if snap_is_dir repo commit then Inr commit
            else Inl (''Revision '' @ r @ '' of model '' @ model_name @ '' is not present in the cache''))
      | None \<Rightarrow>
          sum_bind (latest_local_snapshot io repo) (\<lambda>c.
            ok_or (''Cached snapshot path for '' @ model_name @ '' has no revision component'')
              (file_name (path_join (snapshots_dir root model_name) c))))"

text \<open>\<open>hub\<close> is what the Hub answers for a revision: an error or the commit and the file names.\<close>

type_synonym hub = "string \<Rightarrow> string \<Rightarrow> string + string \<times> string list"

definition DEFAULT_HF_REVISION :: string where "DEFAULT_HF_REVISION = ''main''"

definition hf_resolve_revision ::
  "(hf_op \<Rightarrow> bool) \<Rightarrow> bool \<Rightarrow> hub \<Rightarrow> hf_cache \<Rightarrow> string \<Rightarrow> string \<Rightarrow> string option \<Rightarrow> string + string option" where
  "hf_resolve_revision io offline hub cache root model_name revision =
     (if offline then map_sum id Some (resolve_revision_offline io cache root model_name revision)
      else sum_bind (hub model_name (case revision of Some r \<Rightarrow> r | None \<Rightarrow> DEFAULT_HF_REVISION))
             (\<lambda>(sha, _). Inr (Some sha)))"

definition hf_get_model_path ::
  "(hf_op \<Rightarrow> bool) \<Rightarrow> bool \<Rightarrow> hub \<Rightarrow> hf_cache \<Rightarrow> string \<Rightarrow> string \<Rightarrow> string + string" where
  "hf_get_model_path io offline hub cache root model_name =
     sum_bind (resolve_model_path_hf io cache root model_name None) (\<lambda>latest_local.
       if offline then Inr latest_local
       else sum_bind (hub model_name DEFAULT_HF_REVISION) (\<lambda>(sha, _).
              sum_bind (resolve_model_path_hf io cache root model_name (Some sha)) (\<lambda>latest_remote.
                if snap_exists (cache (repo_root root model_name)) sha then Inr latest_remote
                else Inr latest_local)))"

definition hf_get_model_path_revision ::
  "(hf_op \<Rightarrow> bool) \<Rightarrow> bool \<Rightarrow> hub \<Rightarrow> hf_cache \<Rightarrow> string \<Rightarrow> string \<Rightarrow> string option \<Rightarrow> string + string" where
  "hf_get_model_path_revision io offline hub cache root model_name revision =
     (case revision of
        None \<Rightarrow> hf_get_model_path io offline hub cache root model_name
      | Some r \<Rightarrow>
          sum_bind (resolve_revision_offline io cache root model_name (Some r)) (\<lambda>commit.
            Inr (path_join (snapshots_dir root model_name) commit)))"

subsection \<open>Downloading\<close>

definition is_subdirectory_file :: "string \<Rightarrow> bool" where
  "is_subdirectory_file filename = (length (path_components filename) > 1)"

datatype get_outcome = Got | MissingContentRange | EmptyFile416 | GetFailed

text \<open>
  The loop over the files: \<open>get\<close> is what the \<^verbatim>\<open>hf_hub\<close> client does with a file of the commit,
  \<open>full_body\<close> whether the fallback succeeds. The result has the files fetched so far.
\<close>

fun download_loop ::
  "(string \<Rightarrow> get_outcome) \<Rightarrow> (string \<Rightarrow> bool) \<Rightarrow> bool \<Rightarrow> string list \<Rightarrow> (string + unit) \<times> string list" where
  "download_loop get full_body ignore_weights [] = (Inr (), [])"
| "download_loop get full_body ignore_weights (f # siblings) =
     (if is_subdirectory_file f \<or> is_ignored f \<or> is_image f \<or> ignore_weights \<and> is_weight_file f
      then download_loop get full_body ignore_weights siblings
      else case get f of
             Got \<Rightarrow> apsnd (Cons f) (download_loop get full_body ignore_weights siblings)
           | MissingContentRange \<Rightarrow>
               if full_body f then apsnd (Cons f) (download_loop get full_body ignore_weights siblings)
               else (Inl (''Failed to download file '' @ f), [])
           | EmptyFile416 \<Rightarrow> download_loop get full_body ignore_weights siblings
           | GetFailed \<Rightarrow> (Inl (''Failed to download file '' @ f), []))"

text \<open>
  \<open>create_ref\<close> is \<^verbatim>\<open>CacheRepo::create_ref\<close>: it writes a reference of a repository. The result is
  the outcome, the files fetched with the commit they are fetched from, and the cache.
\<close>

definition create_revision_ref ::
  "(string \<Rightarrow> string \<Rightarrow> HfRepo option \<Rightarrow> HfRepo option option) \<Rightarrow> string \<Rightarrow> string \<Rightarrow> string \<Rightarrow> string
   \<Rightarrow> hf_cache \<Rightarrow> (string + unit) \<times> hf_cache" where
  "create_revision_ref create_ref root model_name revision commit cache =
     (case sum_bind (validate_revision revision) (\<lambda>_. validate_revision commit) of
        Inl e \<Rightarrow> (Inl e, cache)
      | Inr _ \<Rightarrow>
          (case create_ref revision commit (cache (repo_root root model_name)) of
             None \<Rightarrow> (Inl (''Failed to create Hugging Face cache ref for '' @ model_name @ ''@'' @ revision), cache)
           | Some repo \<Rightarrow> (Inr (), cache(repo_root root model_name := repo))))"

definition download_at_revision ::
  "(hf_op \<Rightarrow> bool) \<Rightarrow> bool \<Rightarrow> hub \<Rightarrow> (string \<Rightarrow> string \<Rightarrow> get_outcome) \<Rightarrow> (string \<Rightarrow> string \<Rightarrow> bool)
   \<Rightarrow> (string \<Rightarrow> string \<Rightarrow> HfRepo option \<Rightarrow> HfRepo option option) \<Rightarrow> string \<Rightarrow> string \<Rightarrow> bool \<Rightarrow> string option
   \<Rightarrow> hf_cache \<Rightarrow> (string + string \<times> string option) \<times> (string \<times> string) list \<times> hf_cache" where
  "download_at_revision io offline hub get full_body create_ref root model_name ignore_weights revision cache =
     (if offline
      then (case resolve_revision_offline io cache root model_name revision of
              Inl e \<Rightarrow> (Inl e, [], cache)
            | Inr resolved \<Rightarrow>
                (Inr (path_join (snapshots_dir root model_name) resolved, Some resolved), [], cache))
      else
        let requested = (case revision of Some r \<Rightarrow> r | None \<Rightarrow> DEFAULT_HF_REVISION) in
        case hub model_name requested of
          Inl e \<Rightarrow> (Inl (''Failed to fetch model '' @ model_name @ '': '' @ e), [], cache)
        | Inr (sha, siblings) \<Rightarrow>
            if siblings = [] then (Inl (''Model '' @ model_name @ '' exists but contains no downloadable files.''), [], cache)
            else
              (case download_loop (get sha) (full_body sha) ignore_weights siblings of
                 (Inl e, fetched) \<Rightarrow> (Inl e, map (Pair sha) fetched, cache)
               | (Inr _, fetched) \<Rightarrow>
                   if fetched = [] then (Inl (''No valid files found for model '' @ model_name), [], cache)
                   else (case create_revision_ref create_ref root model_name requested sha cache of
                           (Inl e, cache') \<Rightarrow> (Inl e, map (Pair sha) fetched, cache')
                         | (Inr _, cache') \<Rightarrow>
                             (Inr (path_join (snapshots_dir root model_name) sha, Some sha),
                              map (Pair sha) fetched, cache'))))"

definition record_local_revision ::
  "(string \<Rightarrow> string \<Rightarrow> HfRepo option \<Rightarrow> HfRepo option option) \<Rightarrow> string \<Rightarrow> string \<Rightarrow> string option \<Rightarrow> string
   \<Rightarrow> hf_cache \<Rightarrow> (string + unit) \<times> hf_cache" where
  "record_local_revision create_ref root model_name requested commit cache =
     create_revision_ref create_ref root model_name
       (case requested of Some r \<Rightarrow> r | None \<Rightarrow> DEFAULT_HF_REVISION) commit cache"

subsection \<open>Deleting\<close>

definition clear_model_hf :: "(hf_op \<Rightarrow> bool) \<Rightarrow> string \<Rightarrow> string \<Rightarrow> hf_cache \<Rightarrow> (string + unit) \<times> hf_cache" where
  "clear_model_hf io root model_name cache =
     (let path = repo_root root model_name in
      if cache path = None then (Inr (), cache)
      else if io RemoveRepo then (Inr (), cache(path := None))
      else (Inl (''Failed to remove model: '' @ path), cache))"

definition unreadable_snapshot :: "(hf_op \<Rightarrow> bool) \<Rightarrow> snap_tree \<Rightarrow> bool" where
  "unreadable_snapshot io snapshots =
     list_ex (\<lambda>(c, x). case x of SSub _ \<Rightarrow> \<not> io (ReadSnapshot c) | _ \<Rightarrow> True) snapshots"

definition direct_links :: "snap_tree \<Rightarrow> string list" where
  "direct_links snapshots =
     concat (map (\<lambda>(c, x). case x of
         SSub entries \<Rightarrow> concat (map (\<lambda>(n, y). case y of SLink b \<Rightarrow> [b] | _ \<Rightarrow> []) entries)
       | _ \<Rightarrow> []) snapshots)"

definition reclaim_unreferenced_blobs :: "(hf_op \<Rightarrow> bool) \<Rightarrow> HfRepo \<Rightarrow> HfRepo" where
  "reclaim_unreferenced_blobs io r =
     (case (hr_blobs r, hr_snapshots r) of
        (Some blobs, Some snapshots) \<Rightarrow>
          if \<not> io ReadBlobs \<or> \<not> io ReadSnapshots \<or> unreadable_snapshot io snapshots then r
          else r\<lparr>hr_blobs := Some (filter (\<lambda>b. b \<in> set (direct_links snapshots) \<or> \<not> io (RemoveBlob b)) blobs)\<rparr>
      | _ \<Rightarrow> r)"

text \<open>References that name the removed commit, among the files directly below \<^verbatim>\<open>refs/\<close>\<close>

definition drop_refs :: "(hf_op \<Rightarrow> bool) \<Rightarrow> string \<Rightarrow> HfRepo \<Rightarrow> HfRepo" where
  "drop_refs io commit r =
     (if \<not> io ReadRefs then r
      else r\<lparr>hr_refs := filter (\<lambda>(n, target).
               CHR ''/'' \<in> set n \<or> trim target \<noteq> commit \<or> \<not> io (RemoveRef n)) (hr_refs r)\<rparr>)"

definition drop_snapshot :: "(hf_op \<Rightarrow> bool) \<Rightarrow> string \<Rightarrow> HfRepo \<Rightarrow> string + HfRepo" where
  "drop_snapshot io commit r =
     (if \<not> snap_exists (Some r) commit then Inr r
      else if \<not> io (RemoveSnapshot commit) \<or> snap_at (Some r) commit = Some SFile
      then Inl (''Failed to remove snapshot '' @ commit)
      else Inr (r\<lparr>hr_snapshots := map_option (\<lambda>t. tree_del t (str_split (CHR ''/'') commit)) (hr_snapshots r)\<rparr>))"

definition hf_delete_model_revision ::
  "(hf_op \<Rightarrow> bool) \<Rightarrow> string \<Rightarrow> string \<Rightarrow> string option \<Rightarrow> hf_cache \<Rightarrow> (string + unit) \<times> hf_cache" where
  "hf_delete_model_revision io root model_name revision cache =
     (let path = repo_root root model_name in
      case revision of
        None \<Rightarrow> clear_model_hf io root model_name cache
      | Some rv \<Rightarrow>
          (case local_commit_for_revision (cache path) rv of
             Inl e \<Rightarrow> (Inl e, cache)
           | Inr commit \<Rightarrow>
               (case cache path of
                  None \<Rightarrow> (Inr (), cache)
                | Some r \<Rightarrow>
                    (case drop_snapshot io commit r of
                       Inl e \<Rightarrow> (Inl e, cache)
                     | Inr r1 \<Rightarrow>
                         let r2 = drop_refs io commit r1 in
                         if hr_snapshots r2 = Some [] \<and> io ReadSnapshots
                         then if io RemoveRepo then (Inr (), cache(path := None))
                              else (Inl (''Failed to remove empty repository '' @ path), cache(path := Some r2))
                         else (Inr (), cache(path := Some (reclaim_unreferenced_blobs io r2)))))))"


subsection \<open>Resolution\<close>

definition commit_named :: "HfRepo \<Rightarrow> string \<Rightarrow> string" where
  "commit_named r revision =
     (case map_of (hr_refs r) revision of
        Some content \<Rightarrow> if trim content = [] then revision else trim content
      | None \<Rightarrow> revision)"

lemma local_commit_Inr:
  "local_commit_for_revision (Some r) revision = Inr commit \<Longrightarrow>
     commit = commit_named r revision \<and> validate_revision commit = Inr ()"
  by (auto simp: local_commit_for_revision_def read_ref_def commit_named_def sum_bind_Inr_iff Let_def
      split: option.splits if_splits)

lemma hf_path_of_revision:
  assumes "hf_get_model_path_revision io offline hub cache root name (Some rv) = Inr path"
  shows "\<exists>r. cache (repo_root root name) = Some r
    \<and> snap_is_dir (Some r) (commit_named r rv) \<and> path = path_join (snapshots_dir root name) (commit_named r rv)
    \<and> validate_revision (commit_named r rv) = Inr ()"
proof -
  obtain commit where c: "local_commit_for_revision (cache (repo_root root name)) rv = Inr commit"
    "snap_is_dir (cache (repo_root root name)) commit" "path = path_join (snapshots_dir root name) commit"
    using assms by (auto simp: hf_get_model_path_revision_def resolve_revision_offline_def Let_def
        sum_bind_Inr_iff split: if_splits)
  then obtain r where "cache (repo_root root name) = Some r"
    by (cases "cache (repo_root root name)") (auto simp: snap_is_dir_def snap_at_def)
  with c show ?thesis using local_commit_Inr by force
qed

subsection \<open>Downloads\<close>

definition eligible :: "bool \<Rightarrow> string \<Rightarrow> bool" where
  "eligible ignore_weights f \<longleftrightarrow> \<not> is_subdirectory_file f \<and> \<not> is_ignored f \<and> \<not> is_image f
     \<and> \<not> (ignore_weights \<and> is_weight_file f)"

lemma download_loop_ok:
  "download_loop get full_body iw fs = (Inr (), fetched) \<Longrightarrow>
     fetched = filter (\<lambda>f. eligible iw f \<and> get f \<noteq> EmptyFile416) fs
     \<and> (\<forall>f \<in> set fetched. get f = Got \<or> get f = MissingContentRange \<and> full_body f)"
proof (induction fs arbitrary: fetched)
  case (Cons f fs)
  then show ?case
    by (cases "download_loop get full_body iw fs")
       (auto simp: eligible_def split: if_splits get_outcome.splits)
qed simp

text \<open>
  A download is complete and of one commit: when it succeeds, the Hub resolved the request to
  a commit, every file of that commit that is eligible (at the top level, not ignored, not an image, not a
  weight when weights are left out) and not empty was fetched from exactly that commit, and the
  commit is what the download reports.
\<close>

theorem hf_download_exact:
  assumes "download_at_revision io False hub get full_body create_ref root name iw rv cache
    = (Inr (path, resolved), fetched, cache')"
  shows "\<exists>sha files. hub name (case rv of Some r \<Rightarrow> r | None \<Rightarrow> DEFAULT_HF_REVISION) = Inr (sha, files)
    \<and> resolved = Some sha \<and> path = path_join (snapshots_dir root name) sha \<and> fetched \<noteq> []
    \<and> fetched = map (Pair sha) (filter (\<lambda>f. eligible iw f \<and> get sha f \<noteq> EmptyFile416) files)"
  using assms
  by (auto simp: download_at_revision_def Let_def dest!: download_loop_ok
      split: if_splits sum.splits prod.splits)

subsection \<open>Deletions\<close>

lemma split_commit: "CHR ''/'' \<notin> set c \<Longrightarrow> str_split (CHR ''/'') c = [c]"
  by (rule str_split_no_sep)

lemma map_of_filter_other: "c \<noteq> d \<Longrightarrow> map_of (filter (\<lambda>(n, _). n \<noteq> c) t) d = map_of t d"
  by (induction t) auto

text \<open>What deleting one snapshot does to the repository, whichever calls fail.\<close>

lemma drop_snapshot_Inr:
  assumes "drop_snapshot io commit r = Inr r1" and "CHR ''/'' \<notin> set commit"
  shows "hr_refs r1 = hr_refs r" and "hr_blobs r1 = hr_blobs r"
    and "c \<noteq> commit \<Longrightarrow> CHR ''/'' \<notin> set c \<Longrightarrow> snap_at (Some r1) c = snap_at (Some r) c"
  using assms
  by (auto simp: drop_snapshot_def snap_at_def split_commit map_of_filter_other split: if_splits)
     (cases "hr_snapshots r"; auto simp: map_of_filter_other)

lemma reclaim_keeps:
  "hr_refs (reclaim_unreferenced_blobs io r) = hr_refs r"
  "hr_snapshots (reclaim_unreferenced_blobs io r) = hr_snapshots r"
  by (auto simp: reclaim_unreferenced_blobs_def Let_def split: option.splits)

lemma reclaim_blob:
  assumes "blob_exists r b" and "snap_at (Some r) c = Some (SSub entries)" and "CHR ''/'' \<notin> set c"
    and "(n, SLink b) \<in> set entries"
  shows "blob_exists (reclaim_unreferenced_blobs io r) b"
proof -
  obtain t where t: "hr_snapshots r = Some t" "map_of t c = Some (SSub entries)"
    using assms(2,3) by (auto simp: snap_at_def split_commit bind_eq_Some_conv)
  have "b \<in> set (direct_links t)"
    using map_of_SomeD [OF t(2)] assms(4) by (force simp: direct_links_def)
  then show ?thesis using assms(1) t(1)
    by (auto simp: reclaim_unreferenced_blobs_def blob_exists_def Let_def split: option.splits)
qed


text \<open>
  Deleting a revision spares the others. Whether or not the deletion succeeds and whichever calls of the
  operating system fail, every other snapshot is still there, every blob one of its own entries
  links to is still there, and every reference that does not name the deleted commit is too.
\<close>

theorem hf_delete_spares_others:
  assumes "hf_delete_model_revision io root name (Some rv) cache = (res, cache')"
    and "cache (repo_root root name) = Some r" and "CHR ''/'' \<notin> set (commit_named r rv)"
    and "other \<noteq> commit_named r rv" and "CHR ''/'' \<notin> set other"
    and "snap_at (Some r) other = Some (SSub entries)"
  shows "\<exists>r'. cache' (repo_root root name) = Some r' \<and> snap_at (Some r') other = Some (SSub entries)
    \<and> (\<forall>n b. (n, SLink b) \<in> set entries \<longrightarrow> blob_exists r b \<longrightarrow> blob_exists r' b)
    \<and> (\<forall>(n, target) \<in> set (hr_refs r). trim target \<noteq> commit_named r rv \<longrightarrow> (n, target) \<in> set (hr_refs r'))"
proof (cases "local_commit_for_revision (Some r) rv")
  case (Inl e)
  then have "cache' = cache" using assms(1,2) by (simp add: hf_delete_model_revision_def Let_def)
  then show ?thesis using assms(2,6) by auto
next
  case (Inr commit)
  then have commit: "commit = commit_named r rv" using local_commit_Inr by blast
  show ?thesis
  proof (cases "drop_snapshot io commit r")
    case (Inl e)
    then have "cache' = cache" using assms(1,2) Inr by (simp add: hf_delete_model_revision_def Let_def)
    then show ?thesis using assms(2,6) by auto
  next
    case (Inr r1)
    note drop = drop_snapshot_Inr [OF Inr, unfolded commit, OF assms(3)]
    let ?r2 = "drop_refs io commit r1"
    have r2: "snap_at (Some ?r2) other = Some (SSub entries)" "hr_blobs ?r2 = hr_blobs r"
      "\<And>n target. (n, target) \<in> set (hr_refs r) \<Longrightarrow> trim target \<noteq> commit \<Longrightarrow> (n, target) \<in> set (hr_refs ?r2)"
      using drop assms(4-6) by (auto simp: drop_refs_def snap_at_def)
    then have "hr_snapshots ?r2 \<noteq> Some []" using assms(5) by (auto simp: snap_at_def split_commit)
    then have c': "cache' = cache(repo_root root name := Some (reclaim_unreferenced_blobs io ?r2))"
      using assms(1,2) Inr \<open>local_commit_for_revision (Some r) rv = Inr commit\<close>
      by (auto simp: hf_delete_model_revision_def Let_def)
    have "blob_exists (reclaim_unreferenced_blobs io ?r2) b" if "(n, SLink b) \<in> set entries" "blob_exists r b" for n b
      by (rule reclaim_blob [OF _ r2(1) assms(5) that(1)]) (use that(2) r2(2) in \<open>simp add: blob_exists_def\<close>)
    then show ?thesis using c' r2 commit by (auto simp: reclaim_keeps snap_at_def)
  qed
qed

text \<open>
  Only the direct entries of a snapshot protect its blobs. When a surviving snapshot links to a blob from
  a sub-directory and nothing links to it from a snapshot's top level, deleting another revision
  removes the blob, and the link is left dangling.
\<close>

theorem hf_delete_breaks_nested_links:
  assumes "cache (repo_root root name) = Some r" and "\<And>op. io op"
    and "local_commit_for_revision (Some r) rv = Inr commit" and "CHR ''/'' \<notin> set commit"
    and "snap_exists (Some r) commit" and "snap_at (Some r) commit \<noteq> Some SFile"
    and "hr_snapshots r = Some t" and "\<And>c x. (c, x) \<in> set t \<Longrightarrow> \<exists>entries. x = SSub entries"
    and "map_of t other = Some (SSub entries)" and "other \<noteq> commit" and "CHR ''/'' \<notin> set other"
    and "map_of entries n = Some (SSub sub)" and "map_of sub m = Some (SLink b)" and "CHR ''/'' \<notin> set n" and "CHR ''/'' \<notin> set m"
    and "\<And>c es f. (c, SSub es) \<in> set t \<Longrightarrow> c \<noteq> commit \<Longrightarrow> (f, SLink b) \<notin> set es"
  shows "\<exists>r'. hf_delete_model_revision io root name (Some rv) cache = (Inr (), cache(repo_root root name := Some r'))
    \<and> snap_at (Some r') (other @ ''/'' @ n @ ''/'' @ m) = Some (SLink b) \<and> \<not> blob_exists r' b"
proof -
  let ?t = "filter (\<lambda>(c, _). c \<noteq> commit) t"
  let ?r1 = "r\<lparr>hr_snapshots := Some ?t\<rparr>"
  let ?r2 = "drop_refs io commit ?r1"
  have r1: "drop_snapshot io commit r = Inr ?r1"
    using assms(2,4-7) by (simp add: drop_snapshot_def split_commit)
  have r2: "hr_snapshots ?r2 = Some ?t" "hr_blobs ?r2 = hr_blobs r" by (simp_all add: drop_refs_def)
  have mo: "map_of ?t other = Some (SSub entries)" using map_of_filter_other [of commit other t] assms(9,10) by simp
  then have ne: "?t \<noteq> []" by auto
  have "hf_delete_model_revision io root name (Some rv) cache
      = (Inr (), cache(repo_root root name := Some (reclaim_unreferenced_blobs io ?r2)))"
    using assms(1-3) r1 r2(1) ne by (simp add: hf_delete_model_revision_def Let_def)
  moreover have "snap_at (Some (reclaim_unreferenced_blobs io ?r2)) (other @ ''/'' @ n @ ''/'' @ m) = Some (SLink b)"
    using mo assms(11-15) r2(1) by (simp add: snap_at_def reclaim_keeps str_split_append split_commit)
  moreover have "\<not> blob_exists (reclaim_unreferenced_blobs io ?r2) b"
  proof -
    have "b \<notin> set (direct_links ?t)"
      using assms(16) by (fastforce simp: direct_links_def split: snap_node.splits)
    moreover have "\<not> unreadable_snapshot io ?t"
      using assms(2) by (auto simp: unreadable_snapshot_def list_ex_iff dest!: assms(8))
    ultimately show ?thesis
      using assms(2) r2 by (auto simp: reclaim_unreferenced_blobs_def blob_exists_def split: option.splits)
  qed
  ultimately show ?thesis by blast
qed


subsection \<open>Concrete runs\<close>

definition demo_repo :: HfRepo where
  "demo_repo = \<lparr>hr_refs = [(''main'', ''c2''), (''v1'', ''c1'')],
     hr_snapshots = Some [(''c1'', SSub [(''a'', SLink ''b1'')]),
       (''c2'', SSub [(''a'', SLink ''b2''), (''sub'', SSub [(''w'', SLink ''b3'')])])],
     hr_blobs = Some [''b1'', ''b2'', ''b3''], hr_created = [], hr_modified = []\<rparr>"

definition demo_hf :: hf_cache where
  "demo_hf = [repo_root ''/c'' ''org/m'' \<mapsto> demo_repo]"

definition demo_hub :: hub where
  "demo_hub name rv = Inr (''c3'', [''config.json'', ''README.md'', ''w.safetensors'', ''sub/x.json'', ''e.txt''])"

lemma demo_hf_repo: "demo_hf (repo_root ''/c'' ''org/m'') = Some demo_repo"
  by (simp add: demo_hf_def)

theorem hf_download_exact_witness:
  "\<exists>sha files. demo_hub ''org/m'' DEFAULT_HF_REVISION = Inr (sha, files)
     \<and> [(''c3'', ''config.json''), (''c3'', ''e.txt'')]
         = map (Pair sha) (filter (\<lambda>f. eligible True f \<and> Got \<noteq> EmptyFile416) files)"
proof -
  have "fst (download_at_revision (\<lambda>_. True) False demo_hub (\<lambda>_ _. Got) (\<lambda>_ _. True)
      (\<lambda>_ _ r. Some r) ''/c'' ''org/m'' True None demo_hf) = Inr (''/c/models--org--m/snapshots/c3'', Some ''c3'')"
    and "fst (snd (download_at_revision (\<lambda>_. True) False demo_hub (\<lambda>_ _. Got) (\<lambda>_ _. True)
      (\<lambda>_ _ r. Some r) ''/c'' ''org/m'' True None demo_hf)) = [(''c3'', ''config.json''), (''c3'', ''e.txt'')]"
    by code_simp+
  then obtain cache' where "download_at_revision (\<lambda>_. True) False demo_hub (\<lambda>_ _. Got)
      (\<lambda>_ _. True) (\<lambda>_ _ r. Some r) ''/c'' ''org/m'' True None demo_hf
      = (Inr (''/c/models--org--m/snapshots/c3'', Some ''c3''), [(''c3'', ''config.json''), (''c3'', ''e.txt'')], cache')"
    by (metis prod.collapse)
  from hf_download_exact [OF this] show ?thesis unfolding option.case by (elim exE conjE) (intro exI conjI)
qed

theorem hf_delete_spares_others_witness:
  "\<exists>r'. snd (hf_delete_model_revision (\<lambda>_. True) ''/c'' ''org/m'' (Some ''v1'') demo_hf) (repo_root ''/c'' ''org/m'') = Some r'
     \<and> snap_is_dir (Some r') ''c2'' \<and> blob_exists r' ''b2''"
proof -
  have "commit_named demo_repo ''v1'' = ''c1''" by code_simp
  moreover have "snap_at (Some demo_repo) ''c2'' = Some (SSub [(''a'', SLink ''b2''), (''sub'', SSub [(''w'', SLink ''b3'')])])"
    by code_simp
  moreover have "blob_exists demo_repo ''b2''" by code_simp
  moreover obtain res cache' where
    d: "hf_delete_model_revision (\<lambda>_. True) ''/c'' ''org/m'' (Some ''v1'') demo_hf = (res, cache')" by fastforce
  ultimately show ?thesis
    using hf_delete_spares_others [OF d demo_hf_repo, of "''c2''"] by (auto simp: snap_is_dir_def)
qed

theorem hf_delete_breaks_nested_links_witness:
  "\<exists>r'. snd (hf_delete_model_revision (\<lambda>_. True) ''/c'' ''org/m'' (Some ''v1'') demo_hf) (repo_root ''/c'' ''org/m'') = Some r'
     \<and> snap_at (Some r') ''c2/sub/w'' = Some (SLink ''b3'') \<and> \<not> blob_exists r' ''b3''"
proof -
  have "local_commit_for_revision (Some demo_repo) ''v1'' = Inr ''c1''" by code_simp
  moreover have "snap_exists (Some demo_repo) ''c1''" by code_simp
  moreover have "snap_at (Some demo_repo) ''c1'' \<noteq> Some SFile" by (simp add: snap_at_def demo_repo_def)
  ultimately have "\<exists>r'. hf_delete_model_revision (\<lambda>_. True) ''/c'' ''org/m'' (Some ''v1'') demo_hf
      = (Inr (), demo_hf(repo_root ''/c'' ''org/m'' := Some r'))
    \<and> snap_at (Some r') (''c2'' @ ''/'' @ ''sub'' @ ''/'' @ ''w'') = Some (SLink ''b3'') \<and> \<not> blob_exists r' ''b3''"
    by (intro hf_delete_breaks_nested_links [where r = demo_repo and commit = "''c1''"]) (auto simp: demo_hf_repo demo_repo_def)
  then show ?thesis by auto
qed

end
