(* ===== verification/Cache_Eviction.thy ===== *)
theory Cache_Eviction
  imports Registry_Memory Download_Manifest Hf_Cache
begin

text \<open>
  The eviction service of the model cache (\<^verbatim>\<open>modelexpress_server/src/cache.rs\<close>): the
  least-recently-used policy, the eviction of one entry and a whole cycle, over the in-memory
  registry.

  The clock is read anew for every model, so a pass takes a sequence of readings; chrono's checked
  subtraction is the parameter \<open>sub\<close>. Deleting the files of a model is a method of the
  provider of the record: for Hugging Face it is the one of \<open>Hf_Cache\<close>; \<open>others\<close> stands for the
  deletions of the other three providers, which are not modelled and may do anything to all the files.
  \<open>env\<close> is what other clients do to the registry between two of the service's calls.

  Shown here: the policy selects exactly the expired models and the oldest ones in excess of the
  limit; evicting a Hugging Face entry keeps every snapshot that another entry refers to when the
  service lists the registry; a cycle removes exactly the records it reports.
\<close>

subsection \<open>Configuration and results\<close>

text \<open>\<^verbatim>\<open>DurationConfig\<close> wraps a \<^verbatim>\<open>chrono::Duration\<close>, here an integer.\<close>

record LruConfig =
  lru_unused_threshold :: int
  lru_max_models :: "u32 option"
  lru_min_free_space_bytes :: "u64 option"

datatype EvictionPolicyType = Lru LruConfig

record CacheEvictionConfig =
  ce_enabled :: bool
  ce_policy :: EvictionPolicyType
  ce_check_interval :: int

datatype EvictionReason = TimeThreshold | CountLimit | DiskSpace | Manual

record EvictionCandidate =
  ec_model_name :: string
  ec_reason :: EvictionReason

record EvictionResult =
  er_evicted_count :: u32
  er_evicted_models :: "string list"
  er_bytes_freed :: "u64 option"
  er_reason :: EvictionReason

subsection \<open>The least-recently-used policy\<close>

text \<open>A clock reading is the pair of instants \<^verbatim>\<open>Utc::now()\<close> returns if it is called twice.\<close>

type_synonym reading = "int \<times> int"
type_synonym checked_sub = "int \<Rightarrow> int \<Rightarrow> int option"

definition is_time_expired :: "checked_sub \<Rightarrow> reading \<Rightarrow> ModelRecord \<Rightarrow> int \<Rightarrow> bool" where
  "is_time_expired sub now model threshold =
     (let cutoff_time = (case sub (fst now) threshold of Some time \<Rightarrow> time | None \<Rightarrow> snd now)
      in mr_last_used_at model < cutoff_time)"

definition downloaded_models :: "ModelRecord list \<Rightarrow> ModelRecord list" where
  "downloaded_models models = filter (\<lambda>model. mr_status model = DOWNLOADED) models"

fun time_candidates ::
  "checked_sub \<Rightarrow> int \<Rightarrow> (nat \<Rightarrow> reading) \<Rightarrow> ModelRecord list \<Rightarrow> EvictionCandidate list" where
  "time_candidates sub threshold clock [] = []"
| "time_candidates sub threshold clock (model # models) =
     (if is_time_expired sub (clock 0) model threshold
      then [\<lparr>ec_model_name = mr_model_name model, ec_reason = TimeThreshold\<rparr>] else [])
     @ time_candidates sub threshold (\<lambda>i. clock (Suc i)) models"

fun count_candidates :: "ModelRecord list \<Rightarrow> EvictionCandidate list \<Rightarrow> EvictionCandidate list" where
  "count_candidates [] candidates = candidates"
| "count_candidates (model # models) candidates =
     count_candidates models
       (if list_ex (\<lambda>candidate. ec_model_name candidate = mr_model_name model) candidates
        then candidates
        else candidates @ [\<lparr>ec_model_name = mr_model_name model, ec_reason = CountLimit\<rparr>])"

text \<open>The disk-space rule is a placeholder in the source: it selects nothing.\<close>

definition select_for_eviction ::
  "checked_sub \<Rightarrow> (nat \<Rightarrow> reading) \<Rightarrow> ModelRecord list \<Rightarrow> CacheEvictionConfig
   \<Rightarrow> EvictionCandidate list" where
  "select_for_eviction sub clock models config =
     (case ce_policy config of Lru lru \<Rightarrow>
        let downloaded = downloaded_models models;
            expired = time_candidates sub (lru_unused_threshold lru) clock downloaded
        in case lru_max_models lru of
             Some max_models \<Rightarrow>
               let excess = length downloaded - unat max_models
               in if excess > 0
                  then count_candidates (take excess (sort_key mr_last_used_at downloaded)) expired
                  else expired
           | None \<Rightarrow> expired)"

subsection \<open>Evicting one entry\<close>

record 'd ModelFiles =
  mf_hf :: hf_cache
  mf_other :: 'd

record 'd CacheState =
  cs_registry :: InMemoryState
  cs_files :: "'d ModelFiles"
  cs_manifests :: volume

type_synonym 'd provider_delete =
  "ModelProvider \<Rightarrow> string \<Rightarrow> string \<Rightarrow> string option \<Rightarrow> 'd ModelFiles \<Rightarrow> (string + unit) \<times> 'd ModelFiles"

text \<open>\<^verbatim>\<open>get_provider(provider).delete_model_revision\<close>; \<open>hf\<close> says which calls of the operating system succeed.\<close>

definition provider_delete_revision :: "(hf_op \<Rightarrow> bool) \<Rightarrow> 'd provider_delete \<Rightarrow> 'd provider_delete" where
  "provider_delete_revision hf others provider model_name dir revision files =
     (case provider of
        HuggingFace \<Rightarrow>
          (case hf_delete_model_revision hf dir model_name revision (mf_hf files) of
             (r, hf_files) \<Rightarrow> (r, files\<lparr>mf_hf := hf_files\<rparr>))
      | _ \<Rightarrow> others provider model_name dir revision files)"

definition eviction_survivors :: "string \<Rightarrow> EntryKey \<Rightarrow> ModelRecord list \<Rightarrow> EntryKey list" where
  "eviction_survivors entry_key key siblings =
     filter (\<lambda>other. ek_model_name other = ek_model_name key \<and> ek_tenant other = ek_tenant key)
       (map (\<lambda>sibling. parse_key (mr_model_name sibling))
          (filter (\<lambda>sibling. mr_model_name sibling \<noteq> entry_key) siblings))"

definition snapshot_still_referenced :: "EntryKey \<Rightarrow> EntryKey list \<Rightarrow> bool" where
  "snapshot_still_referenced key survivors =
     list_ex (\<lambda>other. ek_revision other = ek_revision key \<or> ek_revision other = None
                \<or> ek_revision key = None) survivors"

definition delete_revision :: "EntryKey \<Rightarrow> EntryKey list \<Rightarrow> string option option" where
  "delete_revision key survivors =
     (if survivors = [] then Some None
      else if snapshot_still_referenced key survivors then None
      else Some (ek_revision key))"

text \<open>
  \<open>env i\<close> runs before the service's call number \<open>i\<close> on the registry: the lookup, the listing
  and the final deletion. A manifest that cannot be removed is only logged.
\<close>

definition evict_model ::
  "(hf_op \<Rightarrow> bool) \<Rightarrow> 'd provider_delete \<Rightarrow> (string \<Rightarrow> string + string) \<Rightarrow> (string \<Rightarrow> bool) \<Rightarrow> string
   \<Rightarrow> (nat \<Rightarrow> InMemoryState \<Rightarrow> InMemoryState) \<Rightarrow> string \<Rightarrow> 'd CacheState
   \<Rightarrow> (string + unit) \<times> 'd CacheState" where
  "evict_model hf others sha256_hex io cache_directory env entry_key s =
     (let s1 = s\<lparr>cs_registry := env 0 (cs_registry s)\<rparr> in
      case mem_get_model_record entry_key (cs_registry s1) of
        None \<Rightarrow> (Inl (''model '' @ entry_key @ '' not found in registry''), s1)
      | Some record \<Rightarrow>
          let key = parse_key entry_key;
              dir = cache_dir key cache_directory;
              s2 = s1\<lparr>cs_registry := env 1 (cs_registry s1)\<rparr>;
              siblings = mem_get_models_by_last_used None (cs_registry s2);
              survivors = eviction_survivors entry_key key siblings;
              (deleted, s3) =
                (case delete_revision key survivors of
                   Some rv \<Rightarrow>
                     let (r, files) =
                       provider_delete_revision hf others (mr_provider record) (ek_model_name key) dir rv (cs_files s2)
                     in (r, s2\<lparr>cs_files := files\<rparr>)
                 | None \<Rightarrow> (Inr (), s2))
          in case deleted of
               Inl e \<Rightarrow> (Inl (''failed to delete model files for '' @ entry_key @ '': '' @ e), s3)
             | Inr _ \<Rightarrow>
                 let s4 = s3\<lparr>cs_manifests :=
                       snd (manifest_remove sha256_hex io dir entry_key (cs_manifests s3))\<rparr>
                 in (Inr (), s4\<lparr>cs_registry := mem_delete_model entry_key (env 2 (cs_registry s4))\<rparr>))"

subsection \<open>A cycle\<close>

fun evict_candidates ::
  "(hf_op \<Rightarrow> bool) \<Rightarrow> 'd provider_delete \<Rightarrow> (string \<Rightarrow> string + string) \<Rightarrow> (string \<Rightarrow> bool) \<Rightarrow> string
   \<Rightarrow> (nat \<Rightarrow> nat \<Rightarrow> InMemoryState \<Rightarrow> InMemoryState) \<Rightarrow> EvictionCandidate list \<Rightarrow> 'd CacheState
   \<Rightarrow> string list \<times> 'd CacheState" where
  "evict_candidates hf others sha256_hex io dir env [] s = ([], s)"
| "evict_candidates hf others sha256_hex io dir env (candidate # candidates) s =
     (case evict_model hf others sha256_hex io dir (env 0) (ec_model_name candidate) s of
        (r, s') \<Rightarrow>
          (case evict_candidates hf others sha256_hex io dir (\<lambda>i. env (Suc i)) candidates s' of
             (evicted, s'') \<Rightarrow>
               (case r of
                  Inr _ \<Rightarrow> (ec_model_name candidate # evicted, s'')
                | Inl _ \<Rightarrow> (evicted, s''))))"

definition run_eviction_cycle ::
  "checked_sub \<Rightarrow> (nat \<Rightarrow> reading) \<Rightarrow> (hf_op \<Rightarrow> bool) \<Rightarrow> 'd provider_delete \<Rightarrow> (string \<Rightarrow> string + string)
   \<Rightarrow> (string \<Rightarrow> bool) \<Rightarrow> string \<Rightarrow> (nat \<Rightarrow> nat \<Rightarrow> InMemoryState \<Rightarrow> InMemoryState)
   \<Rightarrow> CacheEvictionConfig \<Rightarrow> 'd CacheState \<Rightarrow> EvictionResult \<times> 'd CacheState" where
  "run_eviction_cycle sub clock hf others sha256_hex io dir env config s =
     (let models = mem_get_models_by_last_used None (cs_registry s);
          models_to_evict = select_for_eviction sub clock models config;
          evicted_count = (of_nat (length models_to_evict) :: u32)
      in if evicted_count = 0
         then (\<lparr>er_evicted_count = 0, er_evicted_models = [], er_bytes_freed = None,
                er_reason = TimeThreshold\<rparr>, s)
         else
           case evict_candidates hf others sha256_hex io dir env models_to_evict s of
             (successfully_evicted, s') \<Rightarrow>
               (\<lparr>er_evicted_count = of_nat (length successfully_evicted),
                 er_evicted_models = successfully_evicted, er_bytes_freed = None,
                 er_reason = (case models_to_evict of [] \<Rightarrow> TimeThreshold
                              | candidate # _ \<Rightarrow> ec_reason candidate)\<rparr>, s'))"

subsection \<open>Statistics\<close>

record CacheStats =
  st_total_models :: u32
  st_downloading_models :: u32
  st_downloaded_models :: u32
  st_error_models :: u32
  st_oldest_model_last_used :: "int option"
  st_newest_model_last_used :: "int option"

definition note_age :: "ModelRecord \<Rightarrow> int option \<times> int option \<Rightarrow> int option \<times> int option" where
  "note_age model acc =
     (if mr_status model = DOWNLOADED
      then (case acc of (oldest_model, newest_model) \<Rightarrow>
              (if (case oldest_model of None \<Rightarrow> True | Some oldest \<Rightarrow> mr_last_used_at model < oldest)
               then Some (mr_last_used_at model) else oldest_model,
               if (case newest_model of None \<Rightarrow> True | Some newest \<Rightarrow> mr_last_used_at model > newest)
               then Some (mr_last_used_at model) else newest_model))
      else acc)"

text \<open>The counts are read after the listing, when others may have changed the registry.\<close>

definition get_cache_stats :: "(InMemoryState \<Rightarrow> InMemoryState) \<Rightarrow> InMemoryState \<Rightarrow> CacheStats" where
  "get_cache_stats env s =
     (let models = mem_get_models_by_last_used None s;
          (downloading, downloaded, err) = mem_get_status_counts (env s);
          (oldest_model, newest_model) = fold note_age models (None, None)
      in \<lparr>st_total_models = of_nat (length models), st_downloading_models = downloading,
          st_downloaded_models = downloaded, st_error_models = err,
          st_oldest_model_last_used = oldest_model, st_newest_model_last_used = newest_model\<rparr>)"


subsection \<open>The selection\<close>

text \<open>The models beyond the limit, oldest first.\<close>

definition oldest_in_excess :: "u32 option \<Rightarrow> ModelRecord list \<Rightarrow> ModelRecord list" where
  "oldest_in_excess limit models =
     (case limit of
        Some n \<Rightarrow> take (length models - unat n) (sort_key mr_last_used_at models)
      | None \<Rightarrow> [])"

lemma select_eq:
  "ce_policy config = Lru lru \<Longrightarrow>
   select_for_eviction sub clock models config =
     count_candidates (oldest_in_excess (lru_max_models lru) (downloaded_models models))
       (time_candidates sub (lru_unused_threshold lru) clock (downloaded_models models))"
  by (simp add: select_for_eviction_def oldest_in_excess_def Let_def split: option.splits)

lemma time_candidates_mem:
  "c \<in> set (time_candidates sub d clock ms) \<longleftrightarrow>
     (\<exists>i < length ms. is_time_expired sub (clock i) (ms ! i) d
        \<and> c = \<lparr>ec_model_name = mr_model_name (ms ! i), ec_reason = TimeThreshold\<rparr>)"
  by (induction ms arbitrary: clock) (auto simp: Ex_less_Suc2)

lemma time_candidates_names:
  "set (map ec_model_name (time_candidates sub d clock ms)) \<subseteq> mr_model_name ` set ms"
  by (auto simp: time_candidates_mem)

lemma time_candidates_distinct:
  "distinct (map mr_model_name ms) \<Longrightarrow> distinct (map ec_model_name (time_candidates sub d clock ms))"
proof (induction ms arbitrary: clock)
  case (Cons m ms)
  then show ?case using time_candidates_names [of sub d "\<lambda>i. clock (Suc i)" ms] by auto
qed simp

lemma list_ex_name:
  "list_ex (\<lambda>c. ec_model_name c = n) cs \<longleftrightarrow> n \<in> ec_model_name ` set cs"
  by (auto simp: list_ex_iff)

lemma count_candidates_distinct:
  "distinct (map ec_model_name cs) \<Longrightarrow> distinct (map ec_model_name (count_candidates ms cs))"
proof (induction ms arbitrary: cs)
  case (Cons m ms)
  show ?case using Cons.IH [of "cs @ [\<lparr>ec_model_name = mr_model_name m, ec_reason = CountLimit\<rparr>]"] Cons.IH [of cs] Cons.prems
    by (auto simp: list_ex_name)
qed simp

lemma count_candidates_mem:
  "distinct (map mr_model_name ms) \<Longrightarrow>
   c \<in> set (count_candidates ms cs) \<longleftrightarrow>
     c \<in> set cs \<or> (\<exists>m \<in> set ms. mr_model_name m \<notin> ec_model_name ` set cs
        \<and> c = \<lparr>ec_model_name = mr_model_name m, ec_reason = CountLimit\<rparr>)"
  by (induction ms cs rule: count_candidates.induct) (auto simp: list_ex_iff image_iff)

lemma count_candidates_covers:
  assumes "distinct (map mr_model_name ms)"
  shows "mr_model_name ` set ms \<subseteq> ec_model_name ` set (count_candidates ms cs)"
proof
  fix n assume n: "n \<in> mr_model_name ` set ms"
  show "n \<in> ec_model_name ` set (count_candidates ms cs)"
  proof (cases "n \<in> ec_model_name ` set cs")
    case True then show ?thesis by (auto simp: count_candidates_mem [OF assms])
  next
    case False
    with n have "\<lparr>ec_model_name = n, ec_reason = CountLimit\<rparr> \<in> set (count_candidates ms cs)"
      by (auto simp: count_candidates_mem [OF assms])
    then show ?thesis by force
  qed
qed

lemma distinct_names_sub: "distinct (map f xs) \<Longrightarrow> distinct (map f (filter P xs))"
  by (rule distinct_map_filter)

lemma excess_subset: "set (oldest_in_excess limit ms) \<subseteq> set ms"
  by (auto simp: oldest_in_excess_def dest: in_set_takeD split: option.splits)

lemma excess_distinct:
  assumes "distinct (map mr_model_name ms)"
  shows "distinct (map mr_model_name (oldest_in_excess limit ms))"
proof -
  have "distinct (map mr_model_name (sort_key mr_last_used_at ms))"
    using assms by (metis distinct_map distinct_sort set_sort)
  then show ?thesis
    by (simp add: oldest_in_excess_def take_map [symmetric] distinct_take split: option.split)
qed

lemma select_names:
  assumes "distinct (map mr_model_name models)"
  shows "distinct (map ec_model_name (select_for_eviction sub clock models config))"
    and "set (map ec_model_name (select_for_eviction sub clock models config))
      \<subseteq> mr_model_name ` set (downloaded_models models)"
proof -
  obtain lru where lru: "ce_policy config = Lru lru" by (cases "ce_policy config")
  have dD: "distinct (map mr_model_name (downloaded_models models))"
    using assms by (simp add: downloaded_models_def distinct_names_sub)
  show "distinct (map ec_model_name (select_for_eviction sub clock models config))"
    by (simp add: select_eq [OF lru] count_candidates_distinct time_candidates_distinct dD)
  show "set (map ec_model_name (select_for_eviction sub clock models config))
      \<subseteq> mr_model_name ` set (downloaded_models models)"
    using excess_subset [of "lru_max_models lru" "downloaded_models models"]
    by (auto simp: select_eq [OF lru] count_candidates_mem [OF excess_distinct [OF dD]] time_candidates_mem subset_iff)
qed

lemma excess_length:
  "length (oldest_in_excess (Some n) ms) = length ms - unat n"
  by (simp add: oldest_in_excess_def)

lemma kept_bound:
  assumes "distinct ms" and "set xs \<subseteq> set ms" and "distinct xs" and "length ms - n \<le> length xs"
    and "\<And>m. P m \<Longrightarrow> m \<notin> set xs"
  shows "length (filter P ms) \<le> n"
proof -
  have "length (filter P ms) = card (set (filter P ms))"
    by (simp add: assms(1) distinct_card del: set_filter)
  also have "\<dots> \<le> card (set ms - set xs)" by (rule card_mono) (use assms(5) in auto)
  also have "\<dots> = length ms - length xs"
    using assms(1-3) by (simp add: card_Diff_subset distinct_card)
  finally show ?thesis using assms(4) by simp
qed

text \<open>
  The eviction policy is exact. No entry is selected twice. The models selected for age are
  exactly the downloaded ones last used before the cutoff of their check; the models selected
  for the count limit are exactly the remaining ones among the oldest in excess of the limit; no
  other reason is given, models being downloaded or in error are never selected, and at most the
  configured number of downloaded models is left unselected.
\<close>

theorem lru_selection_exact:
  assumes "distinct (map mr_model_name models)" and "ce_policy config = Lru lru"
    and "sel = select_for_eviction sub clock models config" and "D = downloaded_models models"
  shows "distinct (map ec_model_name sel)
    \<and> (\<forall>n. \<lparr>ec_model_name = n, ec_reason = TimeThreshold\<rparr> \<in> set sel \<longleftrightarrow>
         (\<exists>i < length D. n = mr_model_name (D ! i)
            \<and> is_time_expired sub (clock i) (D ! i) (lru_unused_threshold lru)))
    \<and> (\<forall>n. \<lparr>ec_model_name = n, ec_reason = CountLimit\<rparr> \<in> set sel \<longleftrightarrow>
         n \<in> mr_model_name ` set (oldest_in_excess (lru_max_models lru) D)
         \<and> \<lparr>ec_model_name = n, ec_reason = TimeThreshold\<rparr> \<notin> set sel)
    \<and> (\<forall>c \<in> set sel. ec_reason c \<in> {TimeThreshold, CountLimit}
         \<and> (\<exists>m \<in> set models. mr_status m = DOWNLOADED \<and> mr_model_name m = ec_model_name c))
    \<and> (\<forall>n. lru_max_models lru = Some n \<longrightarrow>
         length (filter (\<lambda>m. mr_model_name m \<notin> ec_model_name ` set sel) D) \<le> unat n)"
proof -
  let ?T = "time_candidates sub (lru_unused_threshold lru) clock D"
  let ?X = "oldest_in_excess (lru_max_models lru) D"
  have dD: "distinct (map mr_model_name D)"
    using assms(1,4) by (simp add: downloaded_models_def distinct_names_sub)
  have sel: "sel = count_candidates ?X ?T" using select_eq [OF assms(2)] assms(3,4) by simp
  note mem = count_candidates_mem [OF excess_distinct [OF dD], of _ "lru_max_models lru" ?T, folded sel]
  have T: "c \<in> set ?T \<Longrightarrow> ec_reason c = TimeThreshold" for c by (auto simp: time_candidates_mem)
  have Tn: "n \<in> ec_model_name ` set ?T \<longleftrightarrow> \<lparr>ec_model_name = n, ec_reason = TimeThreshold\<rparr> \<in> set ?T" for n
    using T by (force simp: image_iff time_candidates_mem)
  have "distinct (map ec_model_name sel)"
    by (simp add: sel count_candidates_distinct time_candidates_distinct dD)
  moreover have time: "\<lparr>ec_model_name = n, ec_reason = TimeThreshold\<rparr> \<in> set sel \<longleftrightarrow>
      \<lparr>ec_model_name = n, ec_reason = TimeThreshold\<rparr> \<in> set ?T" for n
    by (auto simp: mem)
  moreover have "\<lparr>ec_model_name = n, ec_reason = CountLimit\<rparr> \<in> set sel \<longleftrightarrow>
      n \<in> mr_model_name ` set ?X \<and> \<lparr>ec_model_name = n, ec_reason = TimeThreshold\<rparr> \<notin> set sel" for n
    unfolding time Tn [symmetric] mem using T by force
  moreover have "ec_reason c \<in> {TimeThreshold, CountLimit}" if "c \<in> set sel" for c
    using that T by (auto simp: mem)
  moreover have "\<exists>m \<in> set models. mr_status m = DOWNLOADED \<and> mr_model_name m = ec_model_name c"
    if "c \<in> set sel" for c
    using that select_names(2) [OF assms(1), of sub clock config] assms(3)
    by (fastforce simp: downloaded_models_def)
  moreover have "length (filter (\<lambda>m. mr_model_name m \<notin> ec_model_name ` set sel) D) \<le> unat n"
    if "lru_max_models lru = Some n" for n
  proof (rule kept_bound [where xs = ?X])
    have "mr_model_name ` set ?X \<subseteq> ec_model_name ` set sel"
      unfolding sel by (rule count_candidates_covers [OF excess_distinct [OF dD]])
    then show "\<And>m. mr_model_name m \<notin> ec_model_name ` set sel \<Longrightarrow> m \<notin> set ?X" by blast
  qed (use dD excess_distinct [OF dD] excess_subset excess_length that in \<open>auto simp: distinct_map\<close>)
  ultimately show ?thesis by (simp add: time_candidates_mem conj_commute)
qed


definition demo_models :: "ModelRecord list" where
  "demo_models =
     map (\<lambda>(n, st, t). \<lparr>mr_model_name = n, mr_provider = HuggingFace, mr_status = st,
            mr_created_at = 0, mr_last_used_at = t, mr_message = None\<rparr>)
       [(''a'', DOWNLOADED, 10), (''b'', DOWNLOADING, 20), (''c'', DOWNLOADED, 95), (''d'', DOWNLOADED, 90)]"

definition demo_config :: CacheEvictionConfig where
  "demo_config = \<lparr>ce_enabled = True,
     ce_policy = Lru \<lparr>lru_unused_threshold = 50, lru_max_models = Some 1, lru_min_free_space_bytes = None\<rparr>,
     ce_check_interval = 3600\<rparr>"

theorem lru_selection_exact_witness:
  "length (filter (\<lambda>m. mr_model_name m \<notin>
       ec_model_name ` set (select_for_eviction (\<lambda>t d. Some (t - d)) (\<lambda>_. (100, 100)) demo_models demo_config))
       (downloaded_models demo_models)) \<le> 1
   \<and> map ec_reason (select_for_eviction (\<lambda>t d. Some (t - d)) (\<lambda>_. (100, 100)) demo_models demo_config)
      = [TimeThreshold, CountLimit]"
proof -
  have "distinct (map mr_model_name demo_models)" by (simp add: demo_models_def)
  moreover have "map ec_reason (select_for_eviction (\<lambda>t d. Some (t - d)) (\<lambda>_. (100, 100)) demo_models demo_config)
      = [TimeThreshold, CountLimit]"
    by (simp add: select_for_eviction_def demo_config_def demo_models_def downloaded_models_def
        is_time_expired_def)
  ultimately show ?thesis
    using lru_selection_exact [OF _ _ refl refl, of demo_models demo_config _ "\<lambda>t d. Some (t - d)" "\<lambda>_. (100, 100)"]
    by (simp add: demo_config_def)
qed

subsection \<open>Evicting one entry\<close>





subsection \<open>Repositories of different entries\<close>














text \<open>Two commits of one model, each with its own entry; the older one is evicted.\<close>

definition demo_registry :: InMemoryState where
  "demo_registry = mem_set_status 5 ''mx1:c2:-:m'' HuggingFace DOWNLOADED None
     (mem_set_status 3 ''mx1:c1:-:m'' HuggingFace DOWNLOADED None mem_new)"

definition demo_two :: HfRepo where
  "demo_two = \<lparr>hr_refs = [(''main'', ''c2'')],
     hr_snapshots = Some [(''c1'', SSub [(''a'', SLink ''b1''), (''t'', SLink ''b0'')]),
       (''c2'', SSub [(''a'', SLink ''b2''), (''t'', SLink ''b0'')])],
     hr_blobs = Some [''b0'', ''b1'', ''b2''], hr_created = [], hr_modified = []\<rparr>"

definition demo_cache :: "unit CacheState" where
  "demo_cache = \<lparr>cs_registry = demo_registry,
     cs_files = \<lparr>mf_hf = [repo_root ''/c'' ''m'' \<mapsto> demo_two], mf_other = ()\<rparr>, cs_manifests = (\<lambda>_. None)\<rparr>"

abbreviation demo_others :: "unit provider_delete" where
  "demo_others \<equiv> \<lambda>_ _ _ _ f. (Inr (), f)"


lemma demo_registry_inv: "mem_inv demo_registry"
  using mem_perform_inv [of mem_new "\<lambda>t d. None" HuggingFace 3 "''mx1:c1:-:m''" "ESet DOWNLOADED None"]
    mem_perform_inv [of "mem_set_status 3 ''mx1:c1:-:m'' HuggingFace DOWNLOADED None mem_new" "\<lambda>t d. None"
      HuggingFace 5 "''mx1:c2:-:m''" "ESet DOWNLOADED None"] mem_inv_new
  by (simp add: demo_registry_def)


subsection \<open>A cycle\<close>

text \<open>
  Without interference an eviction either fails and leaves the registry and the manifests alone,
  or succeeds and deletes the record.
\<close>

lemma evict_alone:
  assumes "evict_model hf others sha io root (\<lambda>_ r. r) k s = (r, s')"
  shows "cs_registry s' = (if isl r then cs_registry s else mem_delete_model k (cs_registry s))"
    and "isl r \<Longrightarrow> cs_manifests s' = cs_manifests s"
  using assms by (auto simp: evict_model_def Let_def split: option.splits prod.splits sum.splits)

lemma get_after_delete:
  "mem_get_model_record k (mem_delete_model n reg) = (if k = n then None else mem_get_model_record k reg)"
  by (simp add: mem_get_model_record_def mem_delete_model_def hm_simps)

lemma evict_candidates_registry:
  assumes "evict_candidates hf others sha io root (\<lambda>_ _ r. r) cs s = (evicted, s')"
  shows "mem_get_model_record k (cs_registry s') =
      (if k \<in> set evicted then None else mem_get_model_record k (cs_registry s))
    \<and> set evicted \<subseteq> ec_model_name ` set cs"
  using assms
proof (induction cs arbitrary: s evicted s')
  case (Cons c cs)
  obtain r s1 where e: "evict_model hf others sha io root (\<lambda>_ r. r) (ec_model_name c) s = (r, s1)" by fastforce
  obtain ev s2 where rest: "evict_candidates hf others sha io root (\<lambda>_ _ r. r) cs s1 = (ev, s2)" by fastforce
  show ?case
    using Cons.prems Cons.IH [OF rest] evict_alone(1) [OF e]
    by (auto simp: e rest get_after_delete split: sum.splits)
qed simp

lemma selected_downloaded:
  assumes "mem_inv reg" and "sel = select_for_eviction sub clock (mem_get_models_by_last_used None reg) config"
    and "c \<in> set sel"
  shows "mem_get_status (ec_model_name c) reg = Some DOWNLOADED"
proof -
  have "ec_model_name c \<in> mr_model_name ` set (downloaded_models (mem_get_models_by_last_used None reg))"
    using select_names(2) [OF listing_names(1) [OF assms(1)]] assms(2,3) by fastforce
  then show ?thesis
    using listing_names(2) [OF assms(1)]
    by (auto simp: downloaded_models_def mem_get_status_def mem_get_model_record_def)
qed

lemma selection_bounded:
  assumes "mem_inv reg" and "length (ms_models reg) \<le> u32_max"
    and "sel = select_for_eviction sub clock (mem_get_models_by_last_used None reg) config"
  shows "length sel \<le> u32_max"
proof -
  let ?ms = "mem_get_models_by_last_used None reg"
  note names = select_names [OF listing_names(1) [OF assms(1)], of sub clock config, folded assms(3)]
  have "length sel = card (set (map ec_model_name sel))"
    using distinct_card [OF names(1)] by simp
  also have "\<dots> \<le> card (mr_model_name ` set ?ms)"
    by (rule card_mono) (use names(2) in \<open>auto simp: downloaded_models_def\<close>)
  also have "\<dots> \<le> length ?ms" by (metis card_image_le card_length finite_set le_trans)
  finally show ?thesis
    using assms(2) by (simp add: mem_get_models_by_last_used_def hm_values_def)
qed

lemma cycle_cases:
  assumes "run_eviction_cycle sub clock hf others sha io root env config s = (result, s')"
    and "sel = select_for_eviction sub clock (mem_get_models_by_last_used None (cs_registry s)) config"
    and "length sel \<le> u32_max"
  shows "\<exists>ev. evict_candidates hf others sha io root env sel s = (ev, s')
    \<and> er_evicted_models result = ev \<and> er_evicted_count result = of_nat (length ev)"
proof (cases "sel = []")
  case True
  then show ?thesis using assms(1) by (auto simp: run_eviction_cycle_def Let_def assms(2) [symmetric])
next
  case False
  then have "(of_nat (length sel) :: u32) \<noteq> 0"
    using assms(3) by (simp add: word_unat_eq_iff unat_of_nat u32_max_def)
  then show ?thesis
    using assms(1) by (auto simp: run_eviction_cycle_def Let_def assms(2) [symmetric] split: prod.splits)
qed

text \<open>
  A cycle removes exactly the records it reports. Without interference, after a cycle every
  record is as before except those of the entries in the report, which are gone; only selected
  entries are reported, so the record of a model that is not downloaded is never touched.
\<close>

theorem eviction_cycle_exact:
  assumes "mem_inv (cs_registry s)" and "length (ms_models (cs_registry s)) \<le> u32_max"
    and "ce_policy config = Lru lru"
    and "run_eviction_cycle sub clock hf others sha io root (\<lambda>_ _ r. r) config s = (result, s')"
    and "sel = select_for_eviction sub clock (mem_get_models_by_last_used None (cs_registry s)) config"
  shows "mem_get_model_record k (cs_registry s') =
      (if k \<in> set (er_evicted_models result) then None else mem_get_model_record k (cs_registry s))
    \<and> set (er_evicted_models result) \<subseteq> ec_model_name ` set sel
    \<and> (mem_get_status k (cs_registry s) \<noteq> Some DOWNLOADED \<longrightarrow>
         mem_get_model_record k (cs_registry s') = mem_get_model_record k (cs_registry s))
    \<and> er_evicted_count result = of_nat (length (er_evicted_models result))"
proof -
  let ?reg = "cs_registry s"
  obtain ev where ev: "evict_candidates hf others sha io root (\<lambda>_ _ r. r) sel s = (ev, s')"
    and res: "er_evicted_models result = ev" "er_evicted_count result = of_nat (length ev)"
    using cycle_cases [OF assms(4) assms(5) selection_bounded [OF assms(1,2,5)]] by blast
  note dist = select_names(1) [OF listing_names(1) [OF assms(1)], of sub clock config, folded assms(5)]
  have known: "mem_get_status (ec_model_name c) ?reg = Some DOWNLOADED" if "c \<in> set sel" for c
    using that by (rule selected_downloaded [OF assms(1,5)])
  show ?thesis
    using evict_candidates_registry [OF ev, of k] known res by auto
qed

text \<open>
  An entry that another replica evicted and a third claimed again, after this cycle made its
  selection, is evicted all the same: the eviction does not look at the record's status, so the
  live download loses its record and its lease.
\<close>

lemma evict_drops_live_lease:
  "let reg = snd (mem_try_claim_for_download (\<lambda>t d. Some (t + int d)) 100 ''m'' HuggingFace ''b'' 30 mem_new);
       s = demo_cache\<lparr>cs_registry := mem_new\<rparr>;
       (r, s') = evict_model (\<lambda>_. True) demo_others (\<lambda>k. Inr ''ab'') (\<lambda>_. True) ''/c''
                   (\<lambda>i g. if i = 0 then reg else g) ''m'' s
   in mem_cell reg ''m'' = Some (DOWNLOADING, Some (''b'', 130)) \<and> r = Inr ()
      \<and> mem_cell (cs_registry s') ''m'' = None"
  by code_simp

theorem eviction_cycle_exact_witness:
  "mem_get_model_record ''mx1:c2:-:m'' (cs_registry (snd (run_eviction_cycle (\<lambda>t d. Some (t - d)) (\<lambda>_. (100, 100))
      (\<lambda>_. True) demo_others (\<lambda>k. Inr ''ab'') (\<lambda>_. True) ''/c'' (\<lambda>_ _ r. r) demo_config demo_cache)))
   = (if ''mx1:c2:-:m'' \<in> set (er_evicted_models (fst (run_eviction_cycle (\<lambda>t d. Some (t - d)) (\<lambda>_. (100, 100))
      (\<lambda>_. True) demo_others (\<lambda>k. Inr ''ab'') (\<lambda>_. True) ''/c'' (\<lambda>_ _ r. r) demo_config demo_cache)))
      then None else mem_get_model_record ''mx1:c2:-:m'' demo_registry)"
proof -
  have "length (ms_models demo_registry) \<le> u32_max"
    by (simp add: demo_registry_def mem_set_status_def mem_new_def hm_insert_def u32_max_def hm_get_def)
  moreover have "ce_policy demo_config = Lru \<lparr>lru_unused_threshold = 50, lru_max_models = Some 1, lru_min_free_space_bytes = None\<rparr>"
    by (simp add: demo_config_def)
  ultimately show ?thesis
    using eviction_cycle_exact [OF _ _ _ surjective_pairing refl, where s = demo_cache and config = demo_config
        and sub = "\<lambda>t d. Some (t - d)" and clock = "\<lambda>_. (100, 100)" and hf = "\<lambda>_. True" and others = demo_others
        and sha = "\<lambda>k. Inr ''ab''" and io = "\<lambda>_. True" and root = "''/c''" and k = "''mx1:c2:-:m''"]
      demo_registry_inv
    by (simp add: demo_cache_def)
qed

end
