(* ===== verification/Caller_Auth.thy ===== *)
theory Caller_Auth
  imports Entry_Key MX_Text
begin

text \<open>
  Authentication of callers (\<^verbatim>\<open>modelexpress_server/src/auth.rs\<close>, \<^verbatim>\<open>auth/token.rs\<close>,
  \<^verbatim>\<open>auth/layer.rs\<close>), the security section of \<^verbatim>\<open>config.rs\<close> and the tenant scope the
  model and peer-to-peer services derive from the verified caller.

  The Kubernetes API server is a parameter: its answer to a TokenReview at each instant. The two
  caches of the source are third-party caches with a time to live and a bound on their size: an
  entry is visible from its insertion until its time to live is over, and may be dropped earlier
  at any moment. Requests and drops make up a step relation.

  Shown here: a caller is let through only with a service account the allowlist admits, verified
  by a review of that token no older than the time to live; every refusal has its cause; the
  printed form of an allowlist entry parses back; tenants come from verified namespaces.
\<close>

subsection \<open>config.rs\<close>

datatype AuthMode = Off | Enforce

datatype ServiceAccountMatch = Any | Named string

fun match_admits :: "ServiceAccountMatch \<Rightarrow> string \<Rightarrow> bool" where
  "match_admits Any service_account = True"
| "match_admits (Named name) service_account = (name = service_account)"

fun match_display :: "ServiceAccountMatch \<Rightarrow> string" where
  "match_display Any = ''*''"
| "match_display (Named name) = name"

definition match_try_from :: "string \<Rightarrow> string + ServiceAccountMatch" where
  "match_try_from value =
     (if value = ''*'' then Inr Any
      else if is_dns1123_subdomain value then Inr (Named value)
      else Inl (''service account '' @ value @ '' must be '*' or a DNS-1123 subdomain''))"

record ServiceAccountRef =
  sa_namespace :: string
  sa_service_account :: ServiceAccountMatch

definition ref_new :: "string \<Rightarrow> string \<Rightarrow> string + ServiceAccountRef" where
  "ref_new namespace service_account =
     (if \<not> is_dns1123_label namespace
      then Inl (''namespace '' @ namespace @ '' must be a DNS-1123 label'')
      else sum_bind (match_try_from service_account) (\<lambda>m.
             Inr \<lparr>sa_namespace = namespace, sa_service_account = m\<rparr>))"

definition ref_admits :: "ServiceAccountRef \<Rightarrow> string \<Rightarrow> string \<Rightarrow> bool" where
  "ref_admits r namespace service_account =
     (sa_namespace r = namespace \<and> match_admits (sa_service_account r) service_account)"

definition ref_display :: "ServiceAccountRef \<Rightarrow> string" where
  "ref_display r = sa_namespace r @ '':'' @ match_display (sa_service_account r)"

definition ref_from_str :: "string \<Rightarrow> string + ServiceAccountRef" where
  "ref_from_str s =
     (case split_once (CHR '':'') s of
        None \<Rightarrow> Inl (''expected '<namespace>:<serviceaccount>', got '' @ s)
      | Some (namespace, service_account) \<Rightarrow>
          map_err (\<lambda>e. ''invalid allowlist entry '' @ s @ '': '' @ e)
            (ref_new (trim namespace) (trim service_account)))"

definition comma_list_from_str :: "(string \<Rightarrow> 'e + 'a) \<Rightarrow> string \<Rightarrow> 'e + 'a list" where
  "comma_list_from_str from_str s =
     collect_results from_str
       (filter (\<lambda>p. p \<noteq> []) (map trim (str_split (CHR '','') s)))"

record SecurityConfig =
  sc_mode :: "AuthMode option"
  sc_token_audiences :: "string list"
  sc_allowed_service_accounts :: "ServiceAccountRef list"
  sc_cache_ttl_secs :: nat
  sc_tenant_isolation :: "AuthMode option"

definition resolve_mode :: "SecurityConfig \<Rightarrow> AuthMode" where
  "resolve_mode c = (case sc_mode c of Some m \<Rightarrow> m | None \<Rightarrow> Off)"

definition resolve_tenant_isolation :: "SecurityConfig \<Rightarrow> AuthMode" where
  "resolve_tenant_isolation c = (case sc_tenant_isolation c of Some m \<Rightarrow> m | None \<Rightarrow> Off)"

datatype config_error = NoAudience | EmptyAllowlist | IsolationNeedsAuth

definition validate_resolved :: "SecurityConfig \<Rightarrow> AuthMode \<Rightarrow> config_error + unit" where
  "validate_resolved c mode =
     (if mode = Enforce \<and> sc_token_audiences c = [] then Inl NoAudience
      else if mode = Enforce \<and> sc_allowed_service_accounts c = [] then Inl EmptyAllowlist
      else if resolve_tenant_isolation c = Enforce \<and> mode \<noteq> Enforce then Inl IsolationNeedsAuth
      else Inr ())"

subsection \<open>auth/token.rs\<close>

definition EXTRA_POD_NAME :: string where "EXTRA_POD_NAME = ''authentication.kubernetes.io/pod-name''"
definition EXTRA_POD_UID :: string where "EXTRA_POD_UID = ''authentication.kubernetes.io/pod-uid''"

record CallerIdentity =
  ci_namespace :: string
  ci_service_account :: string
  ci_pod_name :: "string option"
  ci_pod_uid :: "string option"

text \<open>The Kubernetes types the source reads.\<close>

record UserInfo =
  ui_username :: "string option"
  ui_extra :: "(string, string list) hash_map option"

record TokenReviewStatus =
  tr_authenticated :: "bool option"
  tr_error :: "string option"
  tr_audiences :: "string list option"
  tr_user :: "UserInfo option"

record TokenReviewSpec =
  trs_token :: "string option"
  trs_audiences :: "string list option"

text \<open>\<^verbatim>\<open>api.create\<close>: a transport error, or the review with its status if it has one.\<close>

type_synonym token_review_api = "TokenReviewSpec \<Rightarrow> string + TokenReviewStatus option"

datatype TokenError =
    Api string
  | NoStatus
  | NotAuthenticated "string option"
  | NoUser
  | NotServiceAccount
  | AudienceMismatch "string list" "string list option"

fun is_token_rejection :: "TokenError \<Rightarrow> bool" where
  "is_token_rejection (NotAuthenticated _) = True"
| "is_token_rejection NotServiceAccount = True"
| "is_token_rejection (AudienceMismatch _ _) = True"
| "is_token_rejection _ = False"

text \<open>
  A header map lists names and values. \<^verbatim>\<open>HeaderValue::to_str\<close> accepts visible ASCII and tabs.
\<close>

type_synonym header_map = "(string \<times> string) list"

definition header_to_str :: "string \<Rightarrow> string option" where
  "header_to_str v =
     (if list_all (\<lambda>c. (let n = of_char c :: nat in (32 \<le> n \<and> n < 127) \<or> n = 9)) v then Some v else None)"

definition eq_ignore_ascii_case :: "string \<Rightarrow> string \<Rightarrow> bool" where
  "eq_ignore_ascii_case a b = (to_lowercase a = to_lowercase b)"

definition extract_bearer :: "header_map \<Rightarrow> string option" where
  "extract_bearer headers =
     Option.bind (map_of headers ''authorization'') (\<lambda>v.
     Option.bind (header_to_str v) (\<lambda>value.
       if length value < 7 then None
       else if \<not> eq_ignore_ascii_case (take 7 value) ''bearer '' then None
       else let raw = drop 7 value in if raw = [] then None else Some raw))"

definition SA_PREFIX :: string where "SA_PREFIX = ''system:serviceaccount:''"

definition parse_sa_username :: "string \<Rightarrow> (string \<times> string) option" where
  "parse_sa_username username =
     Option.bind (strip_prefix SA_PREFIX username) (\<lambda>rest.
     Option.bind (split_once (CHR '':'') rest) (\<lambda>(namespace, service_account).
       if namespace = [] \<or> service_account = [] then None else Some (namespace, service_account)))"

definition extra_first :: "UserInfo \<Rightarrow> string \<Rightarrow> string option" where
  "extra_first user key =
     Option.bind (ui_extra user) (\<lambda>m. Option.bind (hm_get m key) first_opt)"

definition caller_from_userinfo :: "UserInfo \<Rightarrow> CallerIdentity option" where
  "caller_from_userinfo user =
     Option.bind (ui_username user) (\<lambda>username.
     Option.bind (parse_sa_username username) (\<lambda>(namespace, service_account).
       Some \<lparr>ci_namespace = namespace, ci_service_account = service_account,
             ci_pod_name = extra_first user EXTRA_POD_NAME,
             ci_pod_uid = extra_first user EXTRA_POD_UID\<rparr>))"

definition has_overlap :: "string list \<Rightarrow> string list \<Rightarrow> bool" where
  "has_overlap audiences status_audiences =
     list_ex (\<lambda>req. list_ex (\<lambda>stat. req = stat) status_audiences) audiences"

definition review_token ::
  "token_review_api \<Rightarrow> string \<Rightarrow> string list \<Rightarrow> TokenError + CallerIdentity" where
  "review_token api token audiences =
     sum_bind (map_err Api (api \<lparr>trs_token = Some token,
         trs_audiences = (if audiences = [] then None else Some audiences)\<rparr>)) (\<lambda>reviewed.
     sum_bind (ok_or NoStatus reviewed) (\<lambda>status.
       if tr_authenticated status \<noteq> Some True then Inl (NotAuthenticated (tr_error status))
       else if audiences \<noteq> []
           \<and> \<not> has_overlap audiences (case tr_audiences status of Some a \<Rightarrow> a | None \<Rightarrow> [])
       then Inl (AudienceMismatch audiences (tr_audiences status))
       else sum_bind (ok_or NoUser (tr_user status)) (\<lambda>user.
              ok_or NotServiceAccount (caller_from_userinfo user))))"

subsection \<open>auth.rs\<close>

datatype Denial = Unauthenticated | PermissionDenied string | Unavailable

text \<open>An entry of a cache carries the instant of its insertion.\<close>

record AuthState =
  au_audiences :: "string list"
  au_allowlist :: "ServiceAccountRef list"
  au_ttl :: int
  au_token_cache :: "(string, CallerIdentity \<times> int) hash_map"
  au_negative_cache :: "(string, int) hash_map"

definition auth_new :: "SecurityConfig \<Rightarrow> AuthState" where
  "auth_new config =
     \<lparr>au_audiences = sc_token_audiences config, au_allowlist = sc_allowed_service_accounts config,
      au_ttl = int (sc_cache_ttl_secs config), au_token_cache = [], au_negative_cache = []\<rparr>"

definition fresh :: "AuthState \<Rightarrow> int \<Rightarrow> int \<Rightarrow> bool" where
  "fresh a now inserted \<longleftrightarrow> now < inserted + au_ttl a"

definition negative_get :: "AuthState \<Rightarrow> int \<Rightarrow> string \<Rightarrow> bool" where
  "negative_get a now key =
     (case hm_get (au_negative_cache a) key of Some t \<Rightarrow> fresh a now t | None \<Rightarrow> False)"

definition token_get :: "AuthState \<Rightarrow> int \<Rightarrow> string \<Rightarrow> CallerIdentity option" where
  "token_get a now key =
     (case hm_get (au_token_cache a) key of
        Some (identity, t) \<Rightarrow> if fresh a now t then Some identity else None
      | None \<Rightarrow> None)"

text \<open>\<^verbatim>\<open>try_get_with\<close> runs the review on a miss and stores its result if it is one.\<close>

definition token_try_get_with ::
  "token_review_api \<Rightarrow> int \<Rightarrow> string \<Rightarrow> AuthState \<Rightarrow> (TokenError + CallerIdentity) \<times> AuthState" where
  "token_try_get_with api now key a =
     (case token_get a now key of
        Some identity \<Rightarrow> (Inr identity, a)
      | None \<Rightarrow>
          (case review_token api key (au_audiences a) of
             Inr identity \<Rightarrow>
               (Inr identity, a\<lparr>au_token_cache := hm_insert key (identity, now) (au_token_cache a)\<rparr>)
           | Inl e \<Rightarrow> (Inl e, a)))"

definition allowed :: "AuthState \<Rightarrow> CallerIdentity \<Rightarrow> bool" where
  "allowed a identity =
     list_ex (\<lambda>r. ref_admits r (ci_namespace identity) (ci_service_account identity)) (au_allowlist a)"

definition verify ::
  "token_review_api \<Rightarrow> int \<Rightarrow> header_map \<Rightarrow> AuthState \<Rightarrow> (Denial + CallerIdentity) \<times> AuthState" where
  "verify api now headers a =
     (case extract_bearer headers of
        None \<Rightarrow> (Inl Unauthenticated, a)
      | Some key \<Rightarrow>
          if negative_get a now key then (Inl Unauthenticated, a)
          else
            (case token_try_get_with api now key a of
               (Inl e, a') \<Rightarrow>
                 if is_token_rejection e
                 then (Inl Unauthenticated,
                       a'\<lparr>au_negative_cache := hm_insert key now (au_negative_cache a')\<rparr>)
                 else (Inl Unavailable, a')
             | (Inr identity, a') \<Rightarrow>
                 if \<not> allowed a' identity
                 then (Inl (PermissionDenied (''service account '' @ ci_namespace identity @ '':''
                         @ ci_service_account identity @ '' is not in the allowlist'')), a')
                 else (Inr identity, a')))"

subsection \<open>auth/layer.rs and the scope of a request\<close>

datatype auth_status = AuthUnauthenticated | AuthPermissionDenied string | AuthUnavailable

fun into_status :: "Denial \<Rightarrow> auth_status" where
  "into_status Unauthenticated = AuthUnauthenticated"
| "into_status (PermissionDenied message) = AuthPermissionDenied message"
| "into_status Unavailable = AuthUnavailable"

record 'b auth_request =
  rq_headers :: header_map
  rq_caller :: "CallerIdentity option"
  rq_body :: 'b

text \<open>The layer calls the wrapped service only for a verified caller, and records who it is.\<close>

definition auth_call ::
  "token_review_api \<Rightarrow> int \<Rightarrow> ('b auth_request \<Rightarrow> auth_status + 'r) \<Rightarrow> 'b auth_request \<Rightarrow> AuthState
   \<Rightarrow> (auth_status + 'r) \<times> AuthState" where
  "auth_call api now inner req a =
     (case verify api now (rq_headers req) a of
        (Inr caller, a') \<Rightarrow> (inner (req\<lparr>rq_caller := Some caller\<rparr>), a')
      | (Inl denial, a') \<Rightarrow> (Inl (into_status denial), a'))"

text \<open>\<^verbatim>\<open>ModelServiceImpl::scope\<close> and \<^verbatim>\<open>P2pServiceImpl::scope_namespace\<close>\<close>

definition scope :: "bool \<Rightarrow> 'b auth_request \<Rightarrow> auth_status + Tenant option" where
  "scope tenant_isolation req =
     (if \<not> tenant_isolation then Inr None
      else case rq_caller req of
             None \<Rightarrow> Inl AuthUnauthenticated
           | Some caller \<Rightarrow>
               ok_or (AuthPermissionDenied ''caller namespace is not a valid namespace'')
                 (map_option Some (tenant_new (ci_namespace caller))))"

definition scope_namespace :: "bool \<Rightarrow> 'b auth_request \<Rightarrow> auth_status + string option" where
  "scope_namespace tenant_isolation req =
     (if \<not> tenant_isolation then Inr None
      else case rq_caller req of
             Some caller \<Rightarrow> Inr (Some (ci_namespace caller))
           | None \<Rightarrow> Inl AuthUnauthenticated)"

definition owner_in_scope :: "string option \<Rightarrow> string option \<Rightarrow> bool" where
  "owner_in_scope sc owner = (case sc of None \<Rightarrow> True | Some namespace \<Rightarrow> owner = Some namespace)"


subsection \<open>Allowlist entries\<close>

definition ref_valid :: "ServiceAccountRef \<Rightarrow> bool" where
  "ref_valid r \<longleftrightarrow> is_dns1123_label (sa_namespace r)
     \<and> (case sa_service_account r of Any \<Rightarrow> True | Named n \<Rightarrow> is_dns1123_subdomain n)"

lemma trim_id: "(\<And>c. c \<in> set s \<Longrightarrow> \<not> is_whitespace c) \<Longrightarrow> trim s = s"
proof -
  have dw: "dropWhile is_whitespace xs = xs" if "\<And>c. c \<in> set xs \<Longrightarrow> \<not> is_whitespace c" for xs
    using that by (cases xs) auto
  assume "\<And>c. c \<in> set s \<Longrightarrow> \<not> is_whitespace c"
  then show ?thesis unfolding trim_def by (subst (2) dw; simp?) (subst dw; simp)
qed

lemma label_char_plain:
  "matches_dns1123_label s \<Longrightarrow> c \<in> set s \<Longrightarrow> \<not> is_whitespace c \<and> c \<noteq> CHR '','' \<and> c \<noteq> CHR ''*''"
  by (auto simp: matches_dns1123_label_def list_all_iff is_ascii_lowercase_def is_ascii_digit_def
      is_whitespace_def Let_def)

lemma set_str_split: "c \<in> set s \<Longrightarrow> c = sep \<or> (\<exists>p \<in> set (str_split sep s). c \<in> set p)"
  by (induction s) (auto split: list.splits if_splits)

lemma subdomain_char_plain:
  assumes "is_dns1123_subdomain s" and "c \<in> set s"
  shows "\<not> is_whitespace c \<and> c \<noteq> CHR '','' \<and> c \<noteq> CHR ''*''"
  using set_str_split [OF assms(2), of "CHR ''.''"] assms(1) label_char_plain
  by (auto simp: is_dns1123_subdomain_def list_all_iff is_whitespace_def)

lemma match_roundtrip:
  "(case m of Any \<Rightarrow> True | Named n \<Rightarrow> is_dns1123_subdomain n) \<Longrightarrow> match_try_from (match_display m) = Inr m"
  using subdomain_char_plain [of "''*''" "CHR ''*''"]
  by (cases m) (auto simp: match_try_from_def)

lemma match_display_plain:
  "(case m of Any \<Rightarrow> True | Named n \<Rightarrow> is_dns1123_subdomain n) \<Longrightarrow> c \<in> set (match_display m) \<Longrightarrow>
     \<not> is_whitespace c \<and> c \<noteq> CHR '',''"
  using subdomain_char_plain [of _ c] by (cases m) (auto simp: is_whitespace_def)

lemma ref_char_plain: "ref_valid r \<Longrightarrow> c \<in> set (ref_display r) \<Longrightarrow> \<not> is_whitespace c \<and> c \<noteq> CHR '',''"
  using label_char_plain [of "sa_namespace r" c] match_display_plain [of "sa_service_account r" c]
  by (auto simp: ref_valid_def ref_display_def is_dns1123_label_def is_whitespace_def)

lemma ref_roundtrip: "ref_valid r \<Longrightarrow> ref_from_str (ref_display r) = Inr r"
proof -
  assume v: "ref_valid r"
  have "trim (sa_namespace r) = sa_namespace r" "trim (match_display (sa_service_account r)) = match_display (sa_service_account r)"
    using ref_char_plain [OF v] by (auto simp: ref_display_def intro!: trim_id)
  moreover have "split_once (CHR '':'') (ref_display r) = Some (sa_namespace r, match_display (sa_service_account r))"
    using label_no_colon [of "sa_namespace r"] v by (simp add: ref_display_def ref_valid_def split_once_append)
  ultimately show ?thesis
    using v by (simp add: ref_from_str_def ref_new_def ref_valid_def match_roundtrip)
qed

interpretation allowlist_entry: codec ref_display "\<lambda>s. case ref_from_str s of Inr r \<Rightarrow> Some r | Inl _ \<Rightarrow> None" id ref_valid
  by unfold_locales (simp add: ref_roundtrip)

text \<open>
  The allowlist survives its text form: joining the printed entries with commas and parsing the
  text, as the command line and the environment do, gives the same entries; distinct entries
  print differently, so no entry can be mistaken for a wider one.
\<close>

theorem allowlist_text_roundtrip:
  assumes "list_all ref_valid rs" and "rs \<noteq> []"
  shows "comma_list_from_str ref_from_str (str_join (CHR '','') (map ref_display rs)) = Inr rs
    \<and> (distinct rs \<longrightarrow> distinct (map ref_display rs))"
proof -
  have "str_split (CHR '','') (str_join (CHR '','') (map ref_display rs)) = map ref_display rs"
    using assms ref_char_plain by (intro str_split_join) (auto simp: list_all_iff)
  moreover have "map trim (map ref_display rs) = map ref_display rs"
    using assms(1) ref_char_plain by (auto simp: list_all_iff intro!: trim_id)
  moreover have "filter (\<lambda>p. p \<noteq> []) (map ref_display rs) = map ref_display rs"
    by (simp add: filter_id_conv ref_display_def)
  moreover have "collect_results ref_from_str (map ref_display rs) = Inr rs"
    using assms(1) ref_roundtrip
    by (auto simp: collect_results_Inr_iff list_all2_conv_all_nth list_all_iff)
  ultimately have "comma_list_from_str ref_from_str (str_join (CHR '','') (map ref_display rs)) = Inr rs"
    by (simp only: comma_list_from_str_def)
  then show ?thesis
    using allowlist_entry.distinct_views_distinct_codes [of rs] assms(1) by (simp add: list_all_iff)
qed

theorem allowlist_text_roundtrip_witness:
  "comma_list_from_str ref_from_str ''ml:*,prod:trainer''
     = Inr [\<lparr>sa_namespace = ''ml'', sa_service_account = Any\<rparr>,
            \<lparr>sa_namespace = ''prod'', sa_service_account = Named ''trainer''\<rparr>]"
proof -
  let ?rs = "[\<lparr>sa_namespace = ''ml'', sa_service_account = Any\<rparr>,
              \<lparr>sa_namespace = ''prod'', sa_service_account = Named ''trainer''\<rparr>]"
  have "list_all ref_valid ?rs" by code_simp
  moreover have "str_join (CHR '','') (map ref_display ?rs) = ''ml:*,prod:trainer''" by code_simp
  ultimately show ?thesis using allowlist_text_roundtrip [of ?rs] by simp
qed


subsection \<open>Reviews\<close>

lemma parse_sa_username_iff:
  "parse_sa_username u = Some (ns, sa) \<longleftrightarrow>
     u = SA_PREFIX @ ns @ '':'' @ sa \<and> ns \<noteq> [] \<and> sa \<noteq> [] \<and> CHR '':'' \<notin> set ns"
  by (auto simp: parse_sa_username_def bind_eq_Some_conv strip_prefix_Some_iff split_once_some
      split: if_splits)

lemma caller_from_userinfo_iff:
  "caller_from_userinfo user = Some caller \<longleftrightarrow>
     (\<exists>u. ui_username user = Some u \<and> parse_sa_username u = Some (ci_namespace caller, ci_service_account caller))
     \<and> ci_pod_name caller = extra_first user EXTRA_POD_NAME
     \<and> ci_pod_uid caller = extra_first user EXTRA_POD_UID"
  by (cases caller) (auto simp: caller_from_userinfo_def bind_eq_Some_conv)

lemma has_overlap_iff:
  "has_overlap xs (case got of Some a \<Rightarrow> a | None \<Rightarrow> []) \<longleftrightarrow> (\<exists>a. got = Some a \<and> set xs \<inter> set a \<noteq> {})"
  by (cases got) (auto simp: has_overlap_def list_ex_iff)

lemma caller_exact:
  "caller_from_userinfo user = Some caller \<longleftrightarrow>
     ui_username user = Some (SA_PREFIX @ ci_namespace caller @ '':'' @ ci_service_account caller)
     \<and> ci_namespace caller \<noteq> [] \<and> ci_service_account caller \<noteq> [] \<and> CHR '':'' \<notin> set (ci_namespace caller)
     \<and> ci_pod_name caller = extra_first user EXTRA_POD_NAME
     \<and> ci_pod_uid caller = extra_first user EXTRA_POD_UID"
  by (auto simp: caller_from_userinfo_iff parse_sa_username_iff)

text \<open>
  A token is accepted exactly when the API server reports it authenticated, for one of the
  requested audiences if any were requested, as a user whose name is
  \<^verbatim>\<open>system:serviceaccount:<namespace>:<name>\<close> with both parts present; the caller's namespace and
  account are those parts.
\<close>

theorem review_accepts_iff:
  "review_token api token audiences = Inr caller \<longleftrightarrow>
     (\<exists>status user. api \<lparr>trs_token = Some token,
           trs_audiences = (if audiences = [] then None else Some audiences)\<rparr> = Inr (Some status)
        \<and> tr_authenticated status = Some True
        \<and> (audiences = [] \<or> (\<exists>got. tr_audiences status = Some got \<and> set audiences \<inter> set got \<noteq> {}))
        \<and> tr_user status = Some user
        \<and> ui_username user = Some (SA_PREFIX @ ci_namespace caller @ '':'' @ ci_service_account caller)
        \<and> ci_namespace caller \<noteq> [] \<and> ci_service_account caller \<noteq> [] \<and> CHR '':'' \<notin> set (ci_namespace caller)
        \<and> ci_pod_name caller = extra_first user EXTRA_POD_NAME
        \<and> ci_pod_uid caller = extra_first user EXTRA_POD_UID)"
  unfolding review_token_def sum_bind_Inr_iff map_err_Inr_iff ok_or_Inr_iff has_overlap_iff caller_exact [symmetric]
  by (auto simp: sum_bind_Inr_iff ok_or_Inr_iff split: if_splits)

subsection \<open>The caches over time\<close>

text \<open>
  The state at an instant: requests are verified against what the API server answers then, and
  the caches may drop an entry at any moment.
\<close>

inductive auth_reach :: "(int \<Rightarrow> token_review_api) \<Rightarrow> SecurityConfig \<Rightarrow> int \<Rightarrow> AuthState \<Rightarrow> bool"
  for api config where
  start: "auth_reach api config t (auth_new config)"
| request: "auth_reach api config t a \<Longrightarrow> t \<le> t' \<Longrightarrow>
    auth_reach api config t' (snd (verify (api t') t' headers a))"
| forget_token: "auth_reach api config t a \<Longrightarrow>
    auth_reach api config t (a\<lparr>au_token_cache := hm_remove k (au_token_cache a)\<rparr>)"
| forget_rejection: "auth_reach api config t a \<Longrightarrow>
    auth_reach api config t (a\<lparr>au_negative_cache := hm_remove k (au_negative_cache a)\<rparr>)"

definition auth_inv :: "(int \<Rightarrow> token_review_api) \<Rightarrow> SecurityConfig \<Rightarrow> int \<Rightarrow> AuthState \<Rightarrow> bool" where
  "auth_inv api config t a \<longleftrightarrow>
     au_audiences a = sc_token_audiences config \<and> au_allowlist a = sc_allowed_service_accounts config
     \<and> au_ttl a = int (sc_cache_ttl_secs config)
     \<and> (\<forall>k identity t0. hm_get (au_token_cache a) k = Some (identity, t0) \<longrightarrow>
          t0 \<le> t \<and> review_token (api t0) k (sc_token_audiences config) = Inr identity)
     \<and> (\<forall>k t0. hm_get (au_negative_cache a) k = Some t0 \<longrightarrow>
          t0 \<le> t \<and> (\<exists>e. review_token (api t0) k (sc_token_audiences config) = Inl e \<and> is_token_rejection e))"

lemma auth_inv_mono: "auth_inv api config t a \<Longrightarrow> t \<le> t' \<Longrightarrow> auth_inv api config t' a"
  unfolding auth_inv_def by (meson order_trans)

lemma auth_inv_token:
  "auth_inv api config t a \<Longrightarrow> review_token (api t) k (sc_token_audiences config) = Inr identity \<Longrightarrow>
   auth_inv api config t (a\<lparr>au_token_cache := hm_insert k (identity, t) (au_token_cache a)\<rparr>)"
  by (simp add: auth_inv_def hm_simps)

lemma auth_inv_rejection:
  "auth_inv api config t a \<Longrightarrow> review_token (api t) k (sc_token_audiences config) = Inl e \<Longrightarrow>
   is_token_rejection e \<Longrightarrow>
   auth_inv api config t (a\<lparr>au_negative_cache := hm_insert k t (au_negative_cache a)\<rparr>)"
  by (simp add: auth_inv_def hm_simps)

lemma auth_inv_config:
  assumes "auth_inv api config t a"
  shows "au_audiences a = sc_token_audiences config"
    and "au_allowlist a = sc_allowed_service_accounts config"
    and "au_ttl a = int (sc_cache_ttl_secs config)"
  using assms by (simp_all add: auth_inv_def)

text \<open>A review of the token that the configured time to live still covers.\<close>

definition recent_review ::
  "(int \<Rightarrow> token_review_api) \<Rightarrow> SecurityConfig \<Rightarrow> int \<Rightarrow> string \<Rightarrow> TokenError + CallerIdentity \<Rightarrow> bool" where
  "recent_review api config now token outcome \<longleftrightarrow>
     (\<exists>t0. t0 \<le> now \<and> (t0 = now \<or> now < t0 + int (sc_cache_ttl_secs config))
        \<and> review_token (api t0) token (sc_token_audiences config) = outcome)"

lemma review_now: "review_token (api now) k (sc_token_audiences config) = x \<Longrightarrow> recent_review api config now k x"
  by (auto simp: recent_review_def)

lemma token_get_recent:
  assumes "auth_inv api config now a" and "token_get a now k = Some identity"
  shows "recent_review api config now k (Inr identity)"
proof -
  from assms(2) obtain t0 where "hm_get (au_token_cache a) k = Some (identity, t0)" "fresh a now t0"
    by (auto simp: token_get_def split: option.splits if_splits)
  then show ?thesis
    using assms(1) by (auto simp: recent_review_def auth_inv_def fresh_def intro!: exI [of _ t0])
qed

lemma negative_recent:
  assumes "auth_inv api config now a" and "negative_get a now k"
  shows "\<exists>e. recent_review api config now k (Inl e) \<and> is_token_rejection e"
proof -
  from assms(2) obtain t0 where t0: "hm_get (au_negative_cache a) k = Some t0" "fresh a now t0"
    by (auto simp: negative_get_def split: option.splits)
  with assms(1) obtain e where "t0 \<le> now" "review_token (api t0) k (sc_token_audiences config) = Inl e" "is_token_rejection e"
    unfolding auth_inv_def by blast
  moreover have "now < t0 + int (sc_cache_ttl_secs config)"
    using t0(2) auth_inv_config(3) [OF assms(1)] by (simp add: fresh_def)
  ultimately show ?thesis unfolding recent_review_def by blast
qed

lemma try_get_with_cases:
  assumes "auth_inv api config now a" and "token_try_get_with (api now) now k a = (outcome, a')"
  shows "auth_inv api config now a'" and "recent_review api config now k outcome"
    and "isl outcome \<Longrightarrow> review_token (api now) k (sc_token_audiences config) = outcome"
proof -
  note conf = auth_inv_config(1) [OF assms(1)]
  show "auth_inv api config now a'"
    using assms auth_inv_token [OF assms(1), of k] conf
    by (auto simp: token_try_get_with_def split: option.splits sum.splits)
  show "recent_review api config now k outcome"
    using assms token_get_recent [OF assms(1), of k] review_now [of api now k config] conf
    by (auto simp: token_try_get_with_def split: option.splits sum.splits)
  show "isl outcome \<Longrightarrow> review_token (api now) k (sc_token_audiences config) = outcome"
    using assms conf by (auto simp: token_try_get_with_def split: option.splits sum.splits)
qed

lemma verify_inv:
  assumes "auth_inv api config t a" and "t \<le> t'"
  shows "auth_inv api config t' (snd (verify (api t') t' headers a))"
proof -
  note inv = auth_inv_mono [OF assms]
  show ?thesis
    using inv try_get_with_cases [OF inv] auth_inv_rejection
    by (fastforce simp: verify_def split: option.splits sum.splits prod.splits)
qed

lemma auth_reach_inv: "auth_reach api config t a \<Longrightarrow> auth_inv api config t a"
proof (induction rule: auth_reach.induct)
  case (start t)
  then show ?case by (simp add: auth_inv_def auth_new_def)
next
  case (request t a t' headers)
  then show ?case by (blast intro: verify_inv)
next
  case (forget_token t a k)
  then show ?case by (auto simp: auth_inv_def hm_simps split: if_splits)
next
  case (forget_rejection t a k)
  then show ?case by (auto simp: auth_inv_def hm_simps split: if_splits)
qed

lemma verify_accepts:
  assumes "auth_inv api config now a" and "verify (api now) now headers a = (Inr caller, a')"
  shows "\<exists>token. extract_bearer headers = Some token \<and> recent_review api config now token (Inr caller)
    \<and> (\<exists>r \<in> set (sc_allowed_service_accounts config).
         ref_admits r (ci_namespace caller) (ci_service_account caller))"
proof -
  from assms(2) obtain token where token: "extract_bearer headers = Some token"
    and get: "token_try_get_with (api now) now token a = (Inr caller, a')" and "allowed a' caller"
    by (auto simp: verify_def split: option.splits prod.splits sum.splits if_splits)
  then show ?thesis
    using try_get_with_cases [OF assms(1) get] auth_inv_config(2) [of api config now a']
    by (auto simp: allowed_def list_ex_iff)
qed

lemma auth_call_forwarded:
  assumes "fst (auth_call api now inner req a) = Inr x"
  obtains caller a' where "verify api now (rq_headers req) a = (Inr caller, a')"
    and "inner (req\<lparr>rq_caller := Some caller\<rparr>) = Inr x"
  using assms by (auto simp: auth_call_def split: prod.splits sum.splits)

text \<open>
  C24. What the verification decides, and why. A caller is let through only if the bearer token of
  the request was accepted by a review at most the time to live ago, as a service account some
  allowlist entry admits. It is refused as unauthenticated only if it sent no token or such a
  review rejected the token, as unavailable only if the API server just failed, and as not
  permitted only if no allowlist entry admits the reviewed account.
\<close>

theorem verify_decision:
  assumes "auth_reach api config t a" and "t \<le> now"
  shows "case fst (verify (api now) now headers a) of
      Inr caller \<Rightarrow>
        (\<exists>token. extract_bearer headers = Some token \<and> recent_review api config now token (Inr caller)
           \<and> (\<exists>r \<in> set (sc_allowed_service_accounts config).
                ref_admits r (ci_namespace caller) (ci_service_account caller)))
    | Inl Unauthenticated \<Rightarrow>
        (\<forall>token. extract_bearer headers = Some token \<longrightarrow>
           (\<exists>e. recent_review api config now token (Inl e) \<and> is_token_rejection e))
    | Inl Unavailable \<Rightarrow>
        (\<exists>token e. extract_bearer headers = Some token \<and> \<not> is_token_rejection e
           \<and> review_token (api now) token (sc_token_audiences config) = Inl e)
    | Inl (PermissionDenied _) \<Rightarrow>
        (\<exists>token caller. extract_bearer headers = Some token \<and> recent_review api config now token (Inr caller)
           \<and> \<not> (\<exists>r \<in> set (sc_allowed_service_accounts config).
                ref_admits r (ci_namespace caller) (ci_service_account caller)))"
proof (cases "extract_bearer headers")
  case None
  then show ?thesis by (simp add: verify_def)
next
  case (Some token)
  note inv = auth_inv_mono [OF auth_reach_inv [OF assms(1)] assms(2)]
  obtain outcome a' where out: "token_try_get_with (api now) now token a = (outcome, a')" by fastforce
  note cases = try_get_with_cases [OF inv out]
  show ?thesis
  proof (cases "negative_get a now token")
    case True
    then show ?thesis using negative_recent [OF inv True] by (simp add: verify_def Some)
  next
    case False
    then show ?thesis
      using cases(2,3) auth_inv_config(2) [OF cases(1)]
      by (cases outcome) (auto simp: verify_def Some out allowed_def list_ex_iff)
  qed
qed

text \<open>
  C39. With tenant isolation on, the partition a model request is confined to is the verified
  namespace of its caller: behind the authentication layer the scope of a request is a tenant
  only if a recent review of the request's token named that namespace, the allowlist has an entry
  for it, and it is a DNS label; whatever caller the request claimed before the layer is ignored,
  and the peer-to-peer service scopes the request to the same namespace.
\<close>

theorem tenant_is_verified_namespace:
  assumes "auth_reach api config t a" and "t \<le> now"
    and "fst (auth_call (api now) now (scope True) req a) = Inr (Some tenant)"
  shows "\<exists>token caller. extract_bearer (rq_headers req) = Some token
    \<and> recent_review api config now token (Inr caller) \<and> ci_namespace caller = tenant_as_str tenant
    \<and> (\<exists>r \<in> set (sc_allowed_service_accounts config). sa_namespace r = tenant_as_str tenant)
    \<and> is_dns1123_label (tenant_as_str tenant)
    \<and> fst (auth_call (api now) now (scope_namespace True) req a) = Inr (Some (tenant_as_str tenant))"
proof -
  note inv = auth_inv_mono [OF auth_reach_inv [OF assms(1)] assms(2)]
  from assms(3) obtain caller a' where v: "verify (api now) now (rq_headers req) a = (Inr caller, a')"
    and sc: "scope True (req\<lparr>rq_caller := Some caller\<rparr>) = Inr (Some tenant)"
    by (rule auth_call_forwarded)
  have "ci_namespace caller = tenant_as_str tenant" "is_dns1123_label (tenant_as_str tenant)"
    using sc by (auto simp: scope_def ok_or_Inr_iff tenant_new_def split: if_splits)
  moreover have "fst (auth_call (api now) now (scope_namespace True) req a) = Inr (Some (ci_namespace caller))"
    by (simp add: auth_call_def v scope_namespace_def)
  ultimately show ?thesis
    using verify_accepts [OF inv v] by (auto simp: ref_admits_def)
qed

definition demo_security :: SecurityConfig where
  "demo_security = \<lparr>sc_mode = Some Enforce, sc_token_audiences = [''mx''],
     sc_allowed_service_accounts = [\<lparr>sa_namespace = ''ml'', sa_service_account = Any\<rparr>],
     sc_cache_ttl_secs = 60, sc_tenant_isolation = Some Enforce\<rparr>"

definition demo_api :: "int \<Rightarrow> token_review_api" where
  "demo_api t spec = Inr (Some \<lparr>tr_authenticated = Some (trs_token spec = Some ''tok''), tr_error = None,
     tr_audiences = Some [''mx''],
     tr_user = Some \<lparr>ui_username = Some ''system:serviceaccount:ml:job'', ui_extra = None\<rparr>\<rparr>)"

definition demo_request :: "unit auth_request" where
  "demo_request = \<lparr>rq_headers = [(''authorization'', ''Bearer tok'')], rq_caller = None, rq_body = ()\<rparr>"

theorem tenant_is_verified_namespace_witness:
  "\<exists>token caller. extract_bearer (rq_headers demo_request) = Some token
    \<and> recent_review demo_api demo_security 5 token (Inr caller) \<and> ci_namespace caller = ''ml''"
proof -
  have "fst (auth_call (demo_api 5) 5 (scope True) demo_request (auth_new demo_security)) = Inr (Some (Tenant ''ml''))"
    by code_simp
  then show ?thesis
    using tenant_is_verified_namespace [OF auth_reach.start, of 0 5 demo_api demo_request demo_security] by fastforce
qed

theorem verify_decision_witness:
  "fst (verify (demo_api 5) 5 (rq_headers demo_request) (auth_new demo_security)) = Inr \<lparr>ci_namespace = ''ml'',
      ci_service_account = ''job'', ci_pod_name = None, ci_pod_uid = None\<rparr>
   \<and> (\<exists>token. extract_bearer (rq_headers demo_request) = Some token
        \<and> recent_review demo_api demo_security 5 token (Inr \<lparr>ci_namespace = ''ml'',
             ci_service_account = ''job'', ci_pod_name = None, ci_pod_uid = None\<rparr>))"
proof -
  have "fst (verify (demo_api 5) 5 (rq_headers demo_request) (auth_new demo_security)) = Inr \<lparr>ci_namespace = ''ml'',
      ci_service_account = ''job'', ci_pod_name = None, ci_pod_uid = None\<rparr>"
    by code_simp
  then show ?thesis
    using verify_decision [OF auth_reach.start, where t = 0 and now = 5 and api = demo_api
        and headers = "rq_headers demo_request" and config = demo_security]
    by auto
qed

end
