(* ===== verification/File_Stream.thy ===== *)
theory File_Stream
  imports Provider_Rules
begin

text \<open>
  Listing and streaming the files of a cached model (\<^verbatim>\<open>services.rs\<close>:
  \<^verbatim>\<open>collect_model_files\<close>, \<^verbatim>\<open>ensure_selected_files_exist\<close> and the task
  \<^verbatim>\<open>stream_model_files\<close> spawns).

  A directory is the list of its entries in the order the operating system returns them, each
  what \<^verbatim>\<open>is_file\<close> and \<^verbatim>\<open>is_dir\<close> report after following links. While a file is streamed,
  \<open>open_file\<close> gives what opening it yields and \<open>reads\<close> how much each read call returns, so that short
  reads and failing calls are covered.

  Shown here: which files are collected, that the loop over a file's bytes ends, and that the
  stream carries every file completely and in order.
\<close>

subsection \<open>Collecting files\<close>

datatype dirtree = TFile nat | TDir "(string \<times> dirtree) list" | TOther

type_synonym dir_entries = "(string \<times> dirtree) list"

text \<open>\<^verbatim>\<open>ModelFileSelector\<close> is its list of paths. Paths are equal when their components are.\<close>

definition path_eq :: "string \<Rightarrow> string \<Rightarrow> bool" where
  "path_eq p q = (path_components p = path_components q)"

definition is_safe :: "string \<Rightarrow> bool" where
  "is_safe relative = list_all (\<lambda>(kind, c). kind \<noteq> 0 \<and> kind \<noteq> 2) (path_components relative)"

definition selects :: "string list option \<Rightarrow> string \<Rightarrow> bool" where
  "selects file_selector relative =
     (case file_selector of None \<Rightarrow> True | Some paths \<Rightarrow> list_ex (\<lambda>p. path_eq p relative) paths)"

definition below :: "string \<Rightarrow> string \<Rightarrow> string" where
  "below relative name = (if relative = [] then name else relative @ ''/'' @ name)"

fun collect_model_files ::
  "string \<Rightarrow> string list option \<Rightarrow> bool \<Rightarrow> dir_entries \<Rightarrow> (string \<times> nat) list" where
  "collect_model_files relative file_selector ignore_weights [] = []"
| "collect_model_files relative file_selector ignore_weights ((name, TFile sz) # entries) =
     (let p = below relative name in
      (if \<not> is_safe p then []
       else if ignore_weights \<and> is_weight_file p then []
       else if selects file_selector p then [(p, sz)]
       else []))
     @ collect_model_files relative file_selector ignore_weights entries"
| "collect_model_files relative file_selector ignore_weights ((name, TDir sub) # entries) =
     collect_model_files (below relative name) file_selector ignore_weights sub
     @ collect_model_files relative file_selector ignore_weights entries"
| "collect_model_files relative file_selector ignore_weights ((name, TOther) # entries) =
     collect_model_files relative file_selector ignore_weights entries"

definition ensure_selected_files_exist :: "(string \<times> nat) list \<Rightarrow> string list option \<Rightarrow> string + unit" where
  "ensure_selected_files_exist files file_selector =
     (case file_selector of
        None \<Rightarrow> Inr ()
      | Some paths \<Rightarrow>
          (case find (\<lambda>p. \<not> list_ex (\<lambda>(path, _). path_eq p path) files) paths of
             Some missing_path \<Rightarrow> Inl (''Selected file not found in model directory: '' @ missing_path)
           | None \<Rightarrow> Inr ()))"

subsection \<open>Streaming files\<close>

record FileChunk =
  fc_relative_path :: string
  fc_data :: string
  fc_offset :: nat
  fc_total_size :: nat
  fc_is_last_chunk :: bool
  fc_is_last_file :: bool
  fc_commit_hash :: "string option"

datatype stream_error = OpenFailed string | ReadFailed string

text \<open>
  One file: \<open>reads i\<close> is the result of the read call number \<open>i\<close>, an error or the number of bytes the
  system is willing to return; a read into a buffer that is not empty returns at least one byte
  before the end. \<open>commit\<close> is the hash as long as no chunk was sent. The flag tells whether the task
  goes on.
\<close>

definition bytes_read :: "nat \<Rightarrow> nat \<Rightarrow> string \<Rightarrow> nat" where
  "bytes_read chunk_size k data = max 1 (min k (min chunk_size (length data)))"

function stream_file ::
  "nat \<Rightarrow> (nat \<Rightarrow> nat option) \<Rightarrow> nat \<Rightarrow> string \<Rightarrow> nat \<Rightarrow> bool \<Rightarrow> string option \<Rightarrow> nat \<Rightarrow> string
   \<Rightarrow> (stream_error + FileChunk) list \<times> bool \<times> string option" where
  "stream_file chunk_size reads i path total_size is_last_file commit offset data =
     (if data = [] then ([], True, commit)
      else case reads i of
             None \<Rightarrow> ([Inl (ReadFailed path)], False, commit)
           | Some k \<Rightarrow>
               let n = bytes_read chunk_size k data;
                   offset' = usize_saturating_add offset n;
                   is_last_chunk = offset' \<ge> total_size;
                   chunk = \<lparr>fc_relative_path = path, fc_data = take n data, fc_offset = offset,
                     fc_total_size = total_size, fc_is_last_chunk = is_last_chunk,
                     fc_is_last_file = (is_last_file \<and> is_last_chunk), fc_commit_hash = commit\<rparr>;
                   (chunks, go_on, commit') =
                     stream_file chunk_size reads (Suc i) path total_size is_last_file None offset' (drop n data)
               in (Inr chunk # chunks, go_on, commit'))"
  by pat_completeness auto
termination
  by (relation "measure (\<lambda>(_, _, _, _, _, _, _, _, data). length data)") (auto simp: bytes_read_def)

declare stream_file.simps [simp del]

text \<open>\<open>reads\<close> is indexed by the file and the call.\<close>

fun stream_files ::
  "nat \<Rightarrow> (string \<Rightarrow> string option) \<Rightarrow> (string \<Rightarrow> nat \<Rightarrow> nat option) \<Rightarrow> string option
   \<Rightarrow> (string \<times> nat) list \<Rightarrow> (stream_error + FileChunk) list" where
  "stream_files chunk_size open_file reads commit [] = []"
| "stream_files chunk_size open_file reads commit ((path, total_size) # files) =
     (case open_file path of
        None \<Rightarrow> [Inl (OpenFailed path)]
      | Some data \<Rightarrow>
          if total_size = 0
          then Inr \<lparr>fc_relative_path = path, fc_data = [], fc_offset = 0, fc_total_size = 0,
                    fc_is_last_chunk = True, fc_is_last_file = (files = []),
                    fc_commit_hash = commit\<rparr>
               # stream_files chunk_size open_file reads None files
          else (case stream_file chunk_size (reads path) 0 path total_size (files = []) commit 0 data of
                  (chunks, go_on, commit') \<Rightarrow>
                    chunks @ (if go_on then stream_files chunk_size open_file reads commit' files else [])))"

subsection \<open>What is collected\<close>

text \<open>Whether a tree has a file at a relative path, given by its components.\<close>

fun tree_file :: "dir_entries \<Rightarrow> string list \<Rightarrow> nat \<Rightarrow> bool" where
  "tree_file [] comps n = False"
| "tree_file ((name, TFile sz) # es) comps n = (comps = [name] \<and> n = sz \<or> tree_file es comps n)"
| "tree_file ((name, TDir sub) # es) comps n =
     ((case comps of c # cs \<Rightarrow> c = name \<and> tree_file sub cs n | [] \<Rightarrow> False) \<or> tree_file es comps n)"
| "tree_file ((name, TOther) # es) comps n = tree_file es comps n"

definition entry_name_ok :: "string \<Rightarrow> bool" where
  "entry_name_ok name \<longleftrightarrow> name \<noteq> [] \<and> name \<noteq> ''.'' \<and> name \<noteq> ''..'' \<and> CHR ''/'' \<notin> set name"

fun names_ok :: "dir_entries \<Rightarrow> bool" where
  "names_ok [] = True"
| "names_ok ((name, TDir sub) # es) = (entry_name_ok name \<and> names_ok sub \<and> names_ok es)"
| "names_ok ((name, _) # es) = (entry_name_ok name \<and> names_ok es)"

definition join_comps :: "string list \<Rightarrow> string" where
  "join_comps cs = str_join (CHR ''/'') cs"

lemma join_comps_snoc: "cs \<noteq> [] \<Longrightarrow> join_comps (cs @ [c]) = join_comps cs @ ''/'' @ c"
  unfolding join_comps_def
proof (induction cs)
  case (Cons a cs)
  then show ?case by (cases cs) auto
qed simp

lemma join_comps_nonempty: "cs \<noteq> [] \<Longrightarrow> list_all entry_name_ok cs \<Longrightarrow> join_comps cs \<noteq> []"
  unfolding join_comps_def
  by (subst str_join_eq_Nil) (auto simp: list_all_iff entry_name_ok_def)

lemma below_comps: "list_all entry_name_ok cs \<Longrightarrow> below (join_comps cs) c = join_comps (cs @ [c])"
proof (cases "cs = []")
  case True then show ?thesis by (simp add: below_def join_comps_def)
next
  case False
  assume "list_all entry_name_ok cs"
  then show ?thesis using False by (simp add: below_def join_comps_snoc join_comps_nonempty)
qed

lemma split_join_comps: "cs \<noteq> [] \<Longrightarrow> list_all entry_name_ok cs \<Longrightarrow> str_split (CHR ''/'') (join_comps cs) = cs"
  unfolding join_comps_def by (rule str_split_join) (auto simp: list_all_iff entry_name_ok_def)

lemma path_components_join:
  assumes "cs \<noteq> []" and "list_all entry_name_ok cs"
  shows "path_components (join_comps cs) = map (\<lambda>c. (3, c)) cs"
proof -
  have ok: "\<And>c. c \<in> set cs \<Longrightarrow> c \<noteq> [] \<and> c \<noteq> ''.'' \<and> c \<noteq> ''..''"
    using assms(2) by (auto simp: list_all_iff entry_name_ok_def)
  note split = split_join_comps [OF assms]
  have "\<not> starts_with ''/'' (join_comps cs)" using absolute_first [of "join_comps cs"] ok split by auto
  moreover have "hd cs \<noteq> ''.''" using ok [of "hd cs"] assms(1) by simp
  moreover have "filter (\<lambda>c. c \<noteq> [] \<and> c \<noteq> ''.'') cs = cs" using ok by (simp add: filter_id_conv)
  ultimately show ?thesis using ok by (simp add: path_components_def split)
qed

lemma is_safe_join: "cs \<noteq> [] \<Longrightarrow> list_all entry_name_ok cs \<Longrightarrow> is_safe (join_comps cs)"
  by (simp add: is_safe_def path_components_join list_all_iff)

lemma tree_file_nonempty: "tree_file es cs n \<Longrightarrow> cs \<noteq> []"
  by (induction es cs n rule: tree_file.induct) auto

lemma tree_file_names: "names_ok es \<Longrightarrow> tree_file es cs n \<Longrightarrow> list_all entry_name_ok cs"
  by (induction es cs n rule: tree_file.induct) (auto split: list.splits)

lemma collected_iff:
  assumes "names_ok es" and "list_all entry_name_ok cs"
  shows "(p, n) \<in> set (collect_model_files (join_comps cs) sel iw es) \<longleftrightarrow>
    (\<exists>ds. tree_file es ds n \<and> p = join_comps (cs @ ds) \<and> \<not> (iw \<and> is_weight_file p) \<and> selects sel p)"
  using assms
proof (induction es arbitrary: cs rule: names_ok.induct [case_names empty directory regular other])
  case empty
  then show ?case by simp
next
  case (directory name sub es)
  have "(p, n) \<in> set (collect_model_files (below (join_comps cs) name) sel iw sub) \<longleftrightarrow>
      (\<exists>ds. tree_file sub ds n \<and> p = join_comps (cs @ name # ds) \<and> \<not> (iw \<and> is_weight_file p) \<and> selects sel p)"
    using directory below_comps [of cs name] by simp
  moreover have "(case ds of c # cs' \<Rightarrow> c = name \<and> tree_file sub cs' n | [] \<Rightarrow> False)
      \<longleftrightarrow> (\<exists>cs'. ds = name # cs' \<and> tree_file sub cs' n)" for ds
    by (cases ds) auto
  ultimately show ?case using directory by (auto simp: conj_disj_distribR ex_disj_distrib)
next
  case (regular name sz es)
  then have "is_safe (join_comps (cs @ [name]))" by (simp add: is_safe_join)
  then show ?case using regular below_comps [of cs name] by (auto simp: Let_def)
next
  case (other name es)
  then show ?case by simp
qed

text \<open>
  Which files are listed and streamed: exactly the files of the snapshot's directory tree, at
  any depth and with their sizes, that are selected (all of them without a selector) and are not
  weights when weights are left out.
\<close>

theorem collected_files_exact:
  assumes "names_ok es"
  shows "(p, n) \<in> set (collect_model_files [] sel iw es) \<longleftrightarrow>
    (\<exists>cs. tree_file es cs n \<and> p = join_comps cs \<and> \<not> (iw \<and> is_weight_file p)
       \<and> (\<forall>paths. sel = Some paths \<longrightarrow> (\<exists>q \<in> set paths. path_components q = map (\<lambda>c. (3, c)) cs)))"
proof -
  have "selects sel (join_comps cs) \<longleftrightarrow>
      (\<forall>paths. sel = Some paths \<longrightarrow> (\<exists>q \<in> set paths. path_components q = map (\<lambda>c. (3, c)) cs))"
    if "tree_file es cs n" for cs
    using path_components_join [OF tree_file_nonempty [OF that] tree_file_names [OF assms that]]
    by (auto simp: selects_def path_eq_def list_ex_iff split: option.splits)
  then show ?thesis
    using collected_iff [OF assms, of "[]" p n sel iw] by (auto simp: join_comps_def)
qed


theorem collected_files_exact_witness:
  "(''sub/config.json'', 2) \<in> set (collect_model_files [] None True
      [(''model.safetensors'', TFile 9), (''sub'', TDir [(''config.json'', TFile 2)])])
   \<and> (''model.safetensors'', 9) \<notin> set (collect_model_files [] None True
      [(''model.safetensors'', TFile 9), (''sub'', TDir [(''config.json'', TFile 2)])])"
proof -
  let ?t = "[(''model.safetensors'', TFile 9), (''sub'', TDir [(''config.json'', TFile 2)])]"
  have ok: "names_ok ?t" by (simp add: entry_name_ok_def)
  have "tree_file ?t [''sub'', ''config.json''] 2" by simp
  moreover have "join_comps [''sub'', ''config.json''] = ''sub/config.json''" by (simp add: join_comps_def)
  moreover have "\<not> is_weight_file ''sub/config.json''" "is_weight_file ''model.safetensors''" by code_simp+
  ultimately show ?thesis
    unfolding collected_files_exact [OF ok]
    by (intro conjI exI [of _ "[''sub'', ''config.json'']"]) (simp_all add: del: tree_file.simps)
qed

subsection \<open>The stream\<close>

text \<open>
  A receiver that takes nothing on trust: it appends each chunk at the offset it states, and
  accepts a file only when its last chunk makes up the stated size.
\<close>

fun receive :: "string \<Rightarrow> FileChunk list \<Rightarrow> (string \<times> string) list option" where
  "receive acc [] = (if acc = [] then Some [] else None)"
| "receive acc (c # cs) =
     (if fc_offset c \<noteq> length acc then None
      else let d = acc @ fc_data c in
        if \<not> fc_is_last_chunk c then receive d cs
        else if length d \<noteq> fc_total_size c then None
        else map_option (Cons (fc_relative_path c, d)) (receive [] cs))"

text \<open>Chunks of which the first carries the commit and the last alone ends the stream.\<close>

definition framed :: "string option \<Rightarrow> bool \<Rightarrow> FileChunk list \<Rightarrow> bool" where
  "framed commit is_last cs \<longleftrightarrow> cs \<noteq> [] \<and> fc_commit_hash (hd cs) = commit
     \<and> (\<forall>c \<in> set (tl cs). fc_commit_hash c = None)
     \<and> fc_is_last_file (last cs) = is_last \<and> (\<forall>c \<in> set (butlast cs). \<not> fc_is_last_file c)"

lemma framed_single: "fc_commit_hash c = commit \<Longrightarrow> fc_is_last_file c = l \<Longrightarrow> framed commit l [c]"
  by (simp add: framed_def)

lemma framed_append:
  assumes "framed commit False cs" and "framed None l ds"
  shows "framed commit l (cs @ ds)"
proof -
  have "\<forall>c \<in> set ds. fc_commit_hash c = None"
    using assms(2) by (cases ds) (auto simp: framed_def)
  moreover have "\<forall>c \<in> set cs. \<not> fc_is_last_file c"
    using assms(1) by (cases cs rule: rev_cases) (auto simp: framed_def)
  ultimately show ?thesis using assms by (auto simp: framed_def butlast_append)
qed

lemma framed_Cons:
  "fc_commit_hash c = commit \<Longrightarrow> \<not> fc_is_last_file c \<Longrightarrow> framed None l ds \<Longrightarrow> framed commit l (c # ds)"
  using framed_append [of commit "[c]" l ds] by (simp add: framed_def)

lemma stream_file_whole:
  assumes "data \<noteq> []" and "\<And>i. reads i \<noteq> None" and "length acc + length data = tot" and "tot \<le> u64_max"
  shows "\<exists>cs. stream_file chunk_size reads i path tot is_last commit (length acc) data = (map Inr cs, True, None)
    \<and> framed commit is_last cs
    \<and> (\<forall>rest. receive acc (cs @ rest) = map_option (Cons (path, acc @ data)) (receive [] rest))"
  using assms(1,3)
proof (induction "length data" arbitrary: data acc commit i rule: less_induct)
  case less
  obtain k where k: "reads i = Some k" using assms(2) by fastforce
  define n where "n = bytes_read chunk_size k data"
  have n: "0 < n" "n \<le> length data" using less.prems(1) by (auto simp: n_def bytes_read_def Suc_le_eq)
  have off: "usize_saturating_add (length acc) n = length (acc @ take n data)"
    using n less.prems(2) assms(4) by (simp add: usize_saturating_add_def)
  note step = stream_file.simps [of chunk_size reads i path tot is_last commit "length acc" data]
  show ?case
  proof (cases "drop n data = []")
    case True
    then have all: "n = length data" using n by simp
    let ?c = "\<lparr>fc_relative_path = path, fc_data = data, fc_offset = length acc, fc_total_size = tot,
      fc_is_last_chunk = True, fc_is_last_file = is_last, fc_commit_hash = commit\<rparr>"
    have "usize_saturating_add (length acc) (length data) = tot" using off all less.prems(2) by simp
    then show ?thesis
      using less.prems by (intro exI [of _ "[?c]"])
        (simp add: step k n_def [symmetric] Let_def all stream_file.simps [of _ _ "Suc i"] framed_single)
  next
    case False
    have "length (drop n data) < length data" using n by simp
    moreover have "length (acc @ take n data) + length (drop n data) = tot" using less.prems(2) n by simp
    ultimately obtain cs where cs:
      "stream_file chunk_size reads (Suc i) path tot is_last None (length (acc @ take n data)) (drop n data) = (map Inr cs, True, None)"
      "framed None is_last cs"
      "\<forall>rest. receive (acc @ take n data) (cs @ rest) = map_option (Cons (path, (acc @ take n data) @ drop n data)) (receive [] rest)"
      using less.hyps [of "drop n data" "acc @ take n data" "Suc i" None] False by blast
    let ?c = "\<lparr>fc_relative_path = path, fc_data = take n data, fc_offset = length acc, fc_total_size = tot,
      fc_is_last_chunk = False, fc_is_last_file = False, fc_commit_hash = commit\<rparr>"
    have "\<not> length (acc @ take n data) \<ge> tot" using False less.prems(2) n by simp
    then have "stream_file chunk_size reads i path tot is_last commit (length acc) data = (map Inr (?c # cs), True, None)"
      using less.prems(1) cs(1) by (simp add: step k n_def [symmetric] Let_def off)
    moreover have "framed commit is_last (?c # cs)" by (rule framed_Cons) (use cs(2) in simp_all)
    moreover have "receive acc ((?c # cs) @ rest) = map_option (Cons (path, acc @ data)) (receive [] rest)" for rest
      using cs(3) by (simp add: Let_def)
    ultimately show ?thesis by blast
  qed
qed

text \<open>
  The stream is complete. If the files can still be opened with the sizes they had when they
  were listed, and no read fails, then whatever the chunk size and however short the reads, the
  stream carries no error and a strict receiver reassembles exactly the listed files, in order and
  byte by byte; the commit comes with the first chunk only, and only the very last chunk says
  that it ends the last file.
\<close>

theorem stream_is_complete:
  assumes "files \<noteq> []" and "\<And>p i. reads p i \<noteq> None"
    and "list_all (\<lambda>(p, n). n \<le> u64_max \<and> map_option length (open_file p) = Some n) files"
  shows "\<exists>cs. stream_files chunk_size open_file reads commit files = map Inr cs
    \<and> framed commit True cs
    \<and> receive [] cs = Some (map (\<lambda>(p, n). (p, the (open_file p))) files)"
  using assms(1,3)
proof (induction files arbitrary: commit)
  case (Cons f files)
  obtain p n where f: "f = (p, n)" by fastforce
  with Cons.prems obtain data where data: "open_file p = Some data" "length data = n" "n \<le> u64_max" by auto
  have "\<exists>cs. stream_files chunk_size open_file reads commit (f # files)
      = map Inr cs @ stream_files chunk_size open_file reads None files
      \<and> framed commit (files = []) cs
      \<and> (\<forall>rest. receive [] (cs @ rest) = map_option (Cons (p, data)) (receive [] rest))"
  proof (cases "n = 0")
    case True
    let ?c = "\<lparr>fc_relative_path = p, fc_data = [], fc_offset = 0, fc_total_size = 0, fc_is_last_chunk = True,
      fc_is_last_file = (files = []), fc_commit_hash = commit\<rparr>"
    show ?thesis using True data by (intro exI [of _ "[?c]"]) (simp add: f framed_single)
  next
    case False
    then have "data \<noteq> []" using data by auto
    then obtain cs where "stream_file chunk_size (reads p) 0 p n (files = []) commit 0 data = (map Inr cs, True, None)"
      "framed commit (files = []) cs"
      "\<forall>rest. receive [] (cs @ rest) = map_option (Cons (p, data)) (receive [] rest)"
      using stream_file_whole [of data "reads p" "[]" n chunk_size 0 p "files = []" commit] assms(2) data by auto
    then show ?thesis using False data by (intro exI [of _ cs]) (simp add: f)
  qed
  then obtain cs where cs: "stream_files chunk_size open_file reads commit (f # files)
      = map Inr cs @ stream_files chunk_size open_file reads None files"
    "framed commit (files = []) cs"
    "\<And>rest. receive [] (cs @ rest) = map_option (Cons (p, data)) (receive [] rest)" by blast
  show ?case
  proof (cases "files = []")
    case True
    then show ?thesis using cs(1,2) cs(3) [of "[]"] data by (intro exI [of _ cs]) (simp add: f)
  next
    case False
    then obtain ds where "stream_files chunk_size open_file reads None files = map Inr ds" "framed None True ds"
      "receive [] ds = Some (map (\<lambda>(p, n). (p, the (open_file p))) files)"
      using Cons.IH [of None] Cons.prems(2) by auto
    then show ?thesis
      using cs False data framed_append [of commit cs True ds]
      by (intro exI [of _ "cs @ ds"]) (simp add: f)
  qed
qed simp

end
