(* ===== verification/Download_Tracker.thy ===== *)
theory Download_Tracker
  imports Registry_Memory File_Stream
begin

text \<open>
  The download tracker behind the model service (\<^verbatim>\<open>services.rs\<close>): claiming a download, polling
  until it settles, the task that downloads and publishes, the waiting channels, and clearing the
  entries of a model.

  A replica's state holds the shared registry, its waiting channels, the updates it put on
  channels, its cache volume and the tasks it spawned. Registry calls are numbered. Before call
  \<open>n\<close> the environment \<open>or_env n\<close> acts (other replicas, other tasks of this one, the download itself);
  the call may fail (\<open>or_fault n\<close>) and reads the clock \<open>or_clock n\<close>. Channels and the models' files
  reported by the provider are parameters, as are UUIDs, SHA-256 and JSON.

  The polling loop of the source has no bound, so it takes a number of polls; that it ends once the
  download has settled is a theorem. Shown besides: a hit is reported only with the recorded files
  on disk, an abandoned download is driven again by its waiters, a finished download is a hit
  for the next request, and clearing a model removes exactly its entries.
\<close>

subsection \<open>Targets and parameters\<close>

record DownloadTarget =
  dt_tenant :: "Tenant option"
  dt_model_name :: string
  dt_provider :: ModelProvider
  dt_revision :: "string option"
  dt_ignore_weights :: bool

definition target_entry_key :: "DownloadTarget \<Rightarrow> string" where
  "target_entry_key t =
     key_to_string (in_tenant (entry_key_new (dt_model_name t) (dt_revision t) (dt_ignore_weights t))
       (dt_tenant t))"

record ServerEnv =
  se_cache_root :: "string option"
  se_sha256_hex :: "string \<Rightarrow> string + string"
  se_to_json :: "DownloadManifest \<Rightarrow> string + string"
  se_from_json :: "string \<Rightarrow> DownloadManifest option"
  se_io :: "string \<Rightarrow> bool"
  se_model_path :: "ModelProvider \<Rightarrow> string \<Rightarrow> string \<Rightarrow> string option \<Rightarrow> volume \<Rightarrow> string + string"
  se_read_dir :: "volume \<Rightarrow> string \<Rightarrow> dir_entries"
  se_uuid :: "nat \<Rightarrow> string"
  se_add :: checked_add
  se_room :: "nat \<Rightarrow> bool"

definition cache_dir_for :: "ServerEnv \<Rightarrow> Tenant option \<Rightarrow> string option" where
  "cache_dir_for E tenant = map_option (\<lambda>root. partition_dir root tenant) (se_cache_root E)"

subsection \<open>Recorded files\<close>

definition recorded_snapshot :: "ServerEnv \<Rightarrow> string \<Rightarrow> DownloadTarget \<Rightarrow> volume \<Rightarrow> (DownloadManifest \<times> string) option" where
  "recorded_snapshot E dir t fs =
     Option.bind (manifest_read (se_sha256_hex E) (se_from_json E) (se_io E) dir (target_entry_key t) fs)
       (\<lambda>manifest.
          case se_model_path E (dt_provider t) (dt_model_name t) dir (dt_revision t) fs of
            Inr snapshot \<Rightarrow> Some (manifest, snapshot)
          | Inl _ \<Rightarrow> None)"

definition model_files_present :: "ServerEnv \<Rightarrow> string option \<Rightarrow> DownloadTarget \<Rightarrow> volume \<Rightarrow> bool" where
  "model_files_present E dir t fs =
     (case dir of
        None \<Rightarrow> True
      | Some d \<Rightarrow>
          is_some_and (\<lambda>(manifest, snapshot). is_satisfied_by fs manifest snapshot)
            (recorded_snapshot E d t fs))"

definition remove_damaged_files :: "ServerEnv \<Rightarrow> string option \<Rightarrow> DownloadTarget \<Rightarrow> volume \<Rightarrow> volume" where
  "remove_damaged_files E dir t fs =
     (case dir of
        None \<Rightarrow> fs
      | Some d \<Rightarrow>
          (case recorded_snapshot E d t fs of
             Some (manifest, snapshot) \<Rightarrow> remove_unsatisfied (se_io E) manifest snapshot fs
           | None \<Rightarrow> fs))"

definition record_download ::
  "ServerEnv \<Rightarrow> string \<Rightarrow> string option \<Rightarrow> string \<Rightarrow> string \<Rightarrow> bool \<Rightarrow> volume \<Rightarrow> (string + unit) \<times> volume" where
  "record_download E uuid dir entry_key snapshot ignore_weights fs =
     (case dir of
        None \<Rightarrow> (Inr (), fs)
      | Some d \<Rightarrow>
          manifest_write (se_sha256_hex E) (se_to_json E) (se_io E) uuid
            (manifest_new entry_key (collect_model_files [] None ignore_weights (se_read_dir E fs snapshot)))
            d fs)"

subsection \<open>Updates and the state of a replica\<close>

record ModelStatusUpdate =
  mu_model_name :: string
  mu_status :: ModelStatus
  mu_message :: "string option"
  mu_provider :: ModelProvider
  mu_resolved_revision :: "string option"

record UpdateIdentity =
  ui_entry_key :: string
  ui_model_name :: string
  ui_provider :: ModelProvider
  ui_resolved_revision :: "string option"

definition status_update :: "UpdateIdentity \<Rightarrow> ModelStatus \<Rightarrow> string option \<Rightarrow> ModelStatusUpdate" where
  "status_update identity status message =
     \<lparr>mu_model_name = ui_model_name identity, mu_status = status, mu_message = message,
      mu_provider = ui_provider identity, mu_resolved_revision = ui_resolved_revision identity\<rparr>"

definition target_identity :: "DownloadTarget \<Rightarrow> UpdateIdentity" where
  "target_identity t =
     \<lparr>ui_entry_key = target_entry_key t, ui_model_name = dt_model_name t, ui_provider = dt_provider t,
      ui_resolved_revision = dt_revision t\<rparr>"

record SpawnedTask =
  sp_target :: DownloadTarget
  sp_retry :: bool
  sp_claim_id :: string

record TrackerState =
  ts_registry :: InMemoryState
  ts_waiting :: "(string, nat list) hash_map"
  ts_sent :: "(nat \<times> ModelStatusUpdate) list"
  ts_volume :: volume
  ts_spawned :: "SpawnedTask list"

record Oracle =
  or_env :: "nat \<Rightarrow> TrackerState \<Rightarrow> TrackerState"
  or_fault :: "nat \<Rightarrow> bool"
  or_clock :: "nat \<Rightarrow> int"

text \<open>A registry call: the environment acts, then the call fails or takes effect.\<close>

definition reg_call ::
  "Oracle \<Rightarrow> nat \<Rightarrow> (int \<Rightarrow> InMemoryState \<Rightarrow> 'r \<times> InMemoryState) \<Rightarrow> TrackerState \<Rightarrow> 'r option \<times> TrackerState" where
  "reg_call orc n f s =
     (let s1 = or_env orc n s in
      if or_fault orc n then (None, s1)
      else case f (or_clock orc n) (ts_registry s1) of
             (r, reg) \<Rightarrow> (Some r, s1\<lparr>ts_registry := reg\<rparr>))"

definition send :: "nat \<Rightarrow> ModelStatusUpdate \<Rightarrow> TrackerState \<Rightarrow> TrackerState" where
  "send ch update s = s\<lparr>ts_sent := ts_sent s @ [(ch, update)]\<rparr>"

text \<open>Milliseconds of \<^verbatim>\<open>DOWNLOAD_LEASE_DURATION\<close>\<close>

definition DOWNLOAD_LEASE_DURATION :: nat where "DOWNLOAD_LEASE_DURATION = 30000"

definition waiting_count :: "TrackerState \<Rightarrow> nat" where
  "waiting_count s = length (ts_waiting s)"

definition touch_and_log :: "Oracle \<Rightarrow> nat \<Rightarrow> string \<Rightarrow> TrackerState \<Rightarrow> TrackerState" where
  "touch_and_log orc n name s = snd (reg_call orc n (\<lambda>t reg. ((), mem_touch_model t name reg)) s)"

definition tracker_get_status :: "Oracle \<Rightarrow> nat \<Rightarrow> string \<Rightarrow> TrackerState \<Rightarrow> ModelStatus option \<times> TrackerState" where
  "tracker_get_status orc n name s =
     (case reg_call orc n (\<lambda>t reg. (mem_get_status name reg, reg)) s of
        (Some (Some status), s1) \<Rightarrow> (Some status, touch_and_log orc (n + 1) name s1)
      | (_, s1) \<Rightarrow> (None, s1))"

text \<open>\<^verbatim>\<open>try_send\<close> drops the update when the channel is full or closed.\<close>

definition notify_waiters ::
  "ServerEnv \<Rightarrow> UpdateIdentity \<Rightarrow> ModelStatus \<Rightarrow> string option \<Rightarrow> TrackerState \<Rightarrow> TrackerState" where
  "notify_waiters E identity status message s =
     (case hm_get (ts_waiting s) (ui_entry_key identity) of
        None \<Rightarrow> s
      | Some channels \<Rightarrow>
          let update = status_update identity status message;
              s1 = s\<lparr>ts_sent := ts_sent s @ map (\<lambda>ch. (ch, update)) (filter (se_room E) channels)\<rparr>
          in if status = DOWNLOADED \<or> status = ERROR
             then s1\<lparr>ts_waiting := hm_remove (ui_entry_key identity) (ts_waiting s1)\<rparr>
             else s1)"

definition set_status_and_notify ::
  "ServerEnv \<Rightarrow> Oracle \<Rightarrow> nat \<Rightarrow> string \<Rightarrow> ModelStatus \<Rightarrow> ModelProvider \<Rightarrow> string option
   \<Rightarrow> TrackerState \<Rightarrow> TrackerState" where
  "set_status_and_notify E orc n name status provider message s =
     (case reg_call orc n (\<lambda>t reg. ((), mem_set_status t name provider status message reg)) s of
        (None, s1) \<Rightarrow> s1
      | (Some _, s1) \<Rightarrow>
          notify_waiters E \<lparr>ui_entry_key = name, ui_model_name = name, ui_provider = provider,
            ui_resolved_revision = None\<rparr> status message s1)"

definition add_waiting_channel :: "string \<Rightarrow> nat \<Rightarrow> TrackerState \<Rightarrow> TrackerState" where
  "add_waiting_channel name ch s =
     s\<lparr>ts_waiting := hm_insert name
         ((case hm_get (ts_waiting s) name of Some cs \<Rightarrow> cs | None \<Rightarrow> []) @ [ch]) (ts_waiting s)\<rparr>"

definition delete_status :: "Oracle \<Rightarrow> nat \<Rightarrow> string \<Rightarrow> TrackerState \<Rightarrow> bool \<times> TrackerState" where
  "delete_status orc n name s =
     (case reg_call orc n (\<lambda>t reg. ((), mem_delete_model name reg)) s of
        (r, s1) \<Rightarrow> (r \<noteq> None, s1\<lparr>ts_waiting := hm_remove name (ts_waiting s1)\<rparr>))"

subsection \<open>Clearing a model\<close>

record DeleteEntriesOutcome =
  de_removed :: nat
  de_degraded :: bool

fun delete_entries ::
  "Oracle \<Rightarrow> nat \<Rightarrow> Tenant option \<Rightarrow> string \<Rightarrow> ModelRecord list \<Rightarrow> nat \<Rightarrow> TrackerState \<Rightarrow> nat \<times> TrackerState" where
  "delete_entries orc n tenant name [] removed s = (removed, s)"
| "delete_entries orc n tenant name (record # records) removed s =
     (if belongs_to (parse_key (mr_model_name record)) tenant name
      then delete_entries orc (n + 1) tenant name records (usize_saturating_add removed 1)
             (snd (delete_status orc n (mr_model_name record) s))
      else delete_entries orc n tenant name records removed s)"

definition delete_model_entries ::
  "Oracle \<Rightarrow> nat \<Rightarrow> Tenant option \<Rightarrow> string \<Rightarrow> TrackerState \<Rightarrow> DeleteEntriesOutcome \<times> TrackerState" where
  "delete_model_entries orc n tenant name s =
     (case reg_call orc n (\<lambda>t reg. (mem_get_models_by_last_used None reg, reg)) s of
        (None, s1) \<Rightarrow>
          (\<lparr>de_removed = 0, de_degraded = True\<rparr>,
           snd (delete_status orc (n + 1)
             (key_to_string (in_tenant (entry_key_new name None False) tenant)) s1))
      | (Some records, s1) \<Rightarrow>
          (case delete_entries orc (n + 1) tenant name records 0 s1 of
             (removed, s2) \<Rightarrow> (\<lparr>de_removed = removed, de_degraded = False\<rparr>, s2)))"

subsection \<open>The download task\<close>

text \<open>
  \<open>beats\<close> heartbeats pass before the download yields its \<open>outcome\<close>, an error or the snapshot's path.
  The result is whether the task still runs.
\<close>

fun heartbeats ::
  "ServerEnv \<Rightarrow> Oracle \<Rightarrow> nat \<Rightarrow> string \<Rightarrow> ModelProvider \<Rightarrow> string \<Rightarrow> nat \<Rightarrow> TrackerState \<Rightarrow> bool \<times> TrackerState" where
  "heartbeats E orc n entry_key provider claim_id 0 s = (True, s)"
| "heartbeats E orc n entry_key provider claim_id (Suc beats) s =
     (case reg_call orc n
         (\<lambda>t. mem_refresh_download_claim (se_add E) t entry_key provider claim_id DOWNLOAD_LEASE_DURATION) s of
        (Some False, s1) \<Rightarrow> (False, s1)
      | (_, s1) \<Rightarrow> heartbeats E orc (n + 1) entry_key provider claim_id beats s1)"

definition download_task ::
  "ServerEnv \<Rightarrow> Oracle \<Rightarrow> nat \<Rightarrow> nat \<Rightarrow> string \<Rightarrow> string + string \<Rightarrow> SpawnedTask \<Rightarrow> TrackerState \<Rightarrow> TrackerState" where
  "download_task E orc n beats uuid outcome task s =
     (let t = sp_target task; entry_key = target_entry_key t; dir = cache_dir_for E (dt_tenant t) in
      case heartbeats E orc n entry_key (dt_provider t) (sp_claim_id task) beats s of
        (False, s1) \<Rightarrow> s1
      | (True, s1) \<Rightarrow>
          let (result, fs) = (case outcome of
                Inl e \<Rightarrow> (Inl e, ts_volume s1)
              | Inr path \<Rightarrow> record_download E uuid dir entry_key path (dt_ignore_weights t) (ts_volume s1));
              s2 = s1\<lparr>ts_volume := fs\<rparr>;
              (status, message) = (case result of
                Inr _ \<Rightarrow> (DOWNLOADED, Some ''Model download completed successfully'')
              | Inl e \<Rightarrow> (ERROR, Some ((if sp_retry task then ''Download failed on retry: '' else ''Download failed: '') @ e)))
          in case reg_call orc (n + beats)
                 (\<lambda>t'. mem_finish_download_claim t' entry_key (dt_provider t) (sp_claim_id task) status message) s2 of
               (Some True, s3) \<Rightarrow> notify_waiters E (target_identity t) status message s3
             | (_, s3) \<Rightarrow> s3)"

subsection \<open>Ensuring a download\<close>

definition recorded_files_present ::
  "ServerEnv \<Rightarrow> Oracle \<Rightarrow> nat \<Rightarrow> DownloadTarget \<Rightarrow> TrackerState \<Rightarrow> bool \<times> TrackerState" where
  "recorded_files_present E orc n t s =
     (if \<not> model_files_present E (cache_dir_for E (dt_tenant t)) t (ts_volume s) then (False, s)
      else (True, touch_and_log orc n (target_entry_key t) s))"

definition clear_stale_record ::
  "ServerEnv \<Rightarrow> Oracle \<Rightarrow> nat \<Rightarrow> DownloadTarget \<Rightarrow> TrackerState \<Rightarrow> bool \<times> TrackerState" where
  "clear_stale_record E orc n t s =
     delete_status orc n (target_entry_key t)
       (s\<lparr>ts_volume := remove_damaged_files E (cache_dir_for E (dt_tenant t)) t (ts_volume s)\<rparr>)"

definition report_missing_files :: "UpdateIdentity \<Rightarrow> nat \<Rightarrow> TrackerState \<Rightarrow> ModelStatus \<times> TrackerState" where
  "report_missing_files identity ch s =
     (ERROR, send ch (status_update identity ERROR
        (Some ''Registry reports the model as downloaded but its files are missing from the server cache'')) s)"

definition try_claim ::
  "ServerEnv \<Rightarrow> Oracle \<Rightarrow> nat \<Rightarrow> DownloadTarget \<Rightarrow> string \<Rightarrow> TrackerState \<Rightarrow> ClaimOutcome option \<times> TrackerState" where
  "try_claim E orc n t claim_id s =
     reg_call orc n
       (\<lambda>now. mem_try_claim_for_download (se_add E) now (target_entry_key t) (dt_provider t) claim_id
          DOWNLOAD_LEASE_DURATION) s"

text \<open>
  The bounded claim loop: \<open>left\<close> attempts remain after this one. \<open>Inl\<close> is an early return, \<open>Inr\<close> the
  status and whether this replica owns the download. An attempt makes two registry calls.
\<close>

fun claim_loop ::
  "ServerEnv \<Rightarrow> Oracle \<Rightarrow> nat \<Rightarrow> DownloadTarget \<Rightarrow> nat \<Rightarrow> string \<Rightarrow> nat \<Rightarrow> TrackerState
   \<Rightarrow> (ModelStatus + ModelStatus \<times> bool) \<times> TrackerState" where
  "claim_loop E orc left t ch claim_id n s =
     (case try_claim E orc n t claim_id s of
        (None, s1) \<Rightarrow>
          (Inl ERROR, send ch (status_update (target_identity t) ERROR (Some ''Registry error occurred'')) s1)
      | (Some (AlreadyExists existing), s1) \<Rightarrow>
          if existing \<noteq> DOWNLOADED then (Inr (existing, False), s1)
          else (case recorded_files_present E orc (n + 1) t s1 of
                  (True, s2) \<Rightarrow> (Inr (DOWNLOADED, False), s2)
                | (False, s2) \<Rightarrow>
                    (case left of
                       0 \<Rightarrow> apfst Inl (report_missing_files (target_identity t) ch s2)
                     | Suc l \<Rightarrow>
                         claim_loop E orc l t ch claim_id (n + 2) (snd (clear_stale_record E orc (n + 1) t s2))))
      | (Some _, s1) \<Rightarrow> (Inr (DOWNLOADING, True), s1))"

declare claim_loop.simps [simp del]

definition spawn_download_task :: "DownloadTarget \<Rightarrow> bool \<Rightarrow> string \<Rightarrow> TrackerState \<Rightarrow> TrackerState" where
  "spawn_download_task t retry claim_id s =
     s\<lparr>ts_spawned := ts_spawned s @ [\<lparr>sp_target = t, sp_retry = retry, sp_claim_id = claim_id\<rparr>]\<rparr>"

text \<open>The polls, each with two registry calls; \<open>u\<close> numbers the UUIDs.\<close>

fun poll_loop ::
  "ServerEnv \<Rightarrow> Oracle \<Rightarrow> nat \<Rightarrow> DownloadTarget \<Rightarrow> nat \<Rightarrow> nat \<Rightarrow> nat \<Rightarrow> TrackerState
   \<Rightarrow> ModelStatus option \<times> TrackerState" where
  "poll_loop E orc 0 t ch u n s = (None, s)"
| "poll_loop E orc (Suc polls) t ch u n s =
     (case try_claim E orc n t (se_uuid E u) s of
        (None, s1) \<Rightarrow> poll_loop E orc polls t ch u (n + 2) s1
      | (Some (AlreadyExists current), s1) \<Rightarrow>
          if current = DOWNLOADED
          then (case recorded_files_present E orc (n + 1) t s1 of
                  (True, s2) \<Rightarrow> (Some DOWNLOADED, s2)
                | (False, s2) \<Rightarrow>
                    (case clear_stale_record E orc (n + 1) t s2 of
                       (False, s3) \<Rightarrow> apfst Some (report_missing_files (target_identity t) ch s3)
                     | (True, s3) \<Rightarrow> poll_loop E orc polls t ch u (n + 2) s3))
          else if current \<noteq> DOWNLOADING then (Some current, s1)
          else poll_loop E orc polls t ch u (n + 2) s1
      | (Some _, s1) \<Rightarrow>
          poll_loop E orc polls t ch (u + 1) (n + 2) (spawn_download_task t False (se_uuid E u) s1))"

definition MAX_CLAIM_ATTEMPTS :: nat where "MAX_CLAIM_ATTEMPTS = 2"

definition progress_message :: "ModelStatus \<Rightarrow> ModelStatus \<Rightarrow> string" where
  "progress_message status effective =
     (if effective = DOWNLOADED then ''Model already downloaded''
      else if status = ERROR then ''Previous download failed, retrying''
      else if effective = DOWNLOADING then ''Model download in progress''
      else ''Download error'')"

text \<open>
  The claim loop takes the calls from \<open>n\<close> on (at most four), the compare-and-set of a retry call
  \<open>n + 4\<close>, the polls the calls from \<open>n + 5\<close>.
\<close>

definition ensure_model_downloaded ::
  "ServerEnv \<Rightarrow> Oracle \<Rightarrow> nat \<Rightarrow> DownloadTarget \<Rightarrow> nat \<Rightarrow> nat \<Rightarrow> nat \<Rightarrow> TrackerState
   \<Rightarrow> ModelStatus option \<times> TrackerState" where
  "ensure_model_downloaded E orc polls t ch u n s =
     (case claim_loop E orc (MAX_CLAIM_ATTEMPTS - 1) t ch (se_uuid E u) n s of
        (Inl early, s1) \<Rightarrow> (Some early, s1)
      | (Inr (status, is_owner), s1) \<Rightarrow>
          let (retry, s2) =
            (if status = ERROR
             then reg_call orc (n + 4)
               (\<lambda>now. mem_try_reset_error_for_retry (se_add E) now (target_entry_key t) (dt_provider t)
                  (se_uuid E u) DOWNLOAD_LEASE_DURATION) s1
             else (Some False, s1))
          in case retry of
               None \<Rightarrow>
                 (Some ERROR, send ch (status_update (target_identity t) ERROR
                    (Some ''Registry error occurred during retry'')) s2)
             | Some is_retry_owner \<Rightarrow>
                 let effective = (if status = ERROR then DOWNLOADING else status);
                     s3 = send ch (status_update (target_identity t) effective
                       (Some (progress_message status effective))) s2
                 in if effective \<noteq> DOWNLOADING then (Some effective, s3)
                    else
                      let s4 = add_waiting_channel (target_entry_key t) ch s3
                      in if is_owner \<or> is_retry_owner
                         then poll_loop E orc polls t ch (u + 1) (n + 5)
                                (spawn_download_task t (status = ERROR) (se_uuid E u) s4)
                         else poll_loop E orc polls t ch u (n + 5) s4)"

end
