(* ===== verification/Tracker_Proofs.thy ===== *)
theory Tracker_Proofs
  imports Download_Tracker
begin

text \<open>
  What the download tracker promises: honest hits, progress of waiters, the life of a download from
  its task to the next request, and the clearing of a model. The definitions are in
  \<^verbatim>\<open>Download_Tracker\<close>.
\<close>

subsection \<open>Claims\<close>

lemma reg_call_ok:
  "\<not> or_fault orc n \<Longrightarrow> reg_call orc n f s =
     (Some (fst (f (or_clock orc n) (ts_registry (or_env orc n s)))),
      (or_env orc n s)\<lparr>ts_registry := snd (f (or_clock orc n) (ts_registry (or_env orc n s)))\<rparr>)"
  by (simp add: reg_call_def Let_def split: prod.splits)

lemma reg_call_fault: "or_fault orc n \<Longrightarrow> reg_call orc n f s = (None, or_env orc n s)"
  by (simp add: reg_call_def)

lemma claim_exists:
  "mem_try_claim_for_download add now k p c d reg = (AlreadyExists st, reg') \<longleftrightarrow>
     reg' = reg \<and> (\<exists>l. mem_cell reg k = Some (st, l) \<and> \<not> (st = DOWNLOADING \<and> lease_expired now l))"
  by (auto simp: mem_try_claim_for_download_def mem_cell_def lease_expired_def Let_def
      split: option.splits if_splits)

lemma cell_status: "mem_cell reg k = Some (st, l) \<Longrightarrow> mem_get_status k reg = Some st"
  by (auto simp: mem_cell_def mem_get_status_def)

lemma try_claim_exists:
  assumes "try_claim E orc n t c s = (Some (AlreadyExists st), s1)"
  shows "s1 = or_env orc n s" and "mem_get_status (target_entry_key t) (ts_registry s1) = Some st"
proof -
  have nf: "\<not> or_fault orc n" using assms by (auto simp: try_claim_def reg_call_def)
  let ?reg = "ts_registry (or_env orc n s)"
  have "mem_try_claim_for_download (se_add E) (or_clock orc n) (target_entry_key t) (dt_provider t) c
      DOWNLOAD_LEASE_DURATION ?reg = (AlreadyExists st, ts_registry s1)"
    using assms by (auto simp: try_claim_def reg_call_ok [OF nf] prod_eq_iff)
  then have "ts_registry s1 = ?reg \<and> (\<exists>l. mem_cell ?reg (target_entry_key t) = Some (st, l))"
    unfolding claim_exists by blast
  moreover from this show "s1 = or_env orc n s"
    using assms by (auto simp: try_claim_def reg_call_ok [OF nf])
  ultimately show "mem_get_status (target_entry_key t) (ts_registry s1) = Some st"
    using cell_status by auto
qed

lemma try_claim_settled:
  assumes "\<not> or_fault orc n" and "mem_get_status (target_entry_key t) (ts_registry (or_env orc n s)) = Some st"
    and "st \<noteq> DOWNLOADING"
  shows "try_claim E orc n t c s = (Some (AlreadyExists st), or_env orc n s)"
  using assms
  by (auto simp: try_claim_def reg_call_ok mem_try_claim_for_download_def mem_get_status_def Let_def)

subsection \<open>Hits\<close>

text \<open>
  The replica saw the record as downloaded, had the recorded files on disk at that moment, and did
  nothing afterwards but touch the record and tell its client.
\<close>

definition honest_hit :: "ServerEnv \<Rightarrow> Oracle \<Rightarrow> DownloadTarget \<Rightarrow> TrackerState \<Rightarrow> bool" where
  "honest_hit E orc t s' \<longleftrightarrow>
     (\<exists>s1 m updates. mem_get_status (target_entry_key t) (ts_registry s1) = Some DOWNLOADED
        \<and> model_files_present E (cache_dir_for E (dt_tenant t)) t (ts_volume s1)
        \<and> s' = (touch_and_log orc m (target_entry_key t) s1)\<lparr>ts_sent := updates\<rparr>)"

lemma present_hit:
  assumes "recorded_files_present E orc m t s1 = (True, s2)"
    and "mem_get_status (target_entry_key t) (ts_registry s1) = Some DOWNLOADED"
  shows "honest_hit E orc t s2"
proof -
  have "model_files_present E (cache_dir_for E (dt_tenant t)) t (ts_volume s1)"
    and s2: "s2 = touch_and_log orc m (target_entry_key t) s1"
    using assms(1) by (auto simp: recorded_files_present_def split: if_splits)
  moreover have "s2 = (touch_and_log orc m (target_entry_key t) s1)\<lparr>ts_sent := ts_sent s2\<rparr>" by (simp add: s2)
  ultimately show ?thesis using assms(2) unfolding honest_hit_def by blast
qed

lemma honest_hit_send: "honest_hit E orc t s \<Longrightarrow> honest_hit E orc t (send ch u s)"
proof -
  assume "honest_hit E orc t s"
  then obtain s1 m updates where "mem_get_status (target_entry_key t) (ts_registry s1) = Some DOWNLOADED"
    "model_files_present E (cache_dir_for E (dt_tenant t)) t (ts_volume s1)"
    and s: "s = (touch_and_log orc m (target_entry_key t) s1)\<lparr>ts_sent := updates\<rparr>"
    unfolding honest_hit_def by blast
  moreover have "send ch u s = (touch_and_log orc m (target_entry_key t) s1)\<lparr>ts_sent := updates @ [(ch, u)]\<rparr>"
    by (simp add: send_def s)
  ultimately show ?thesis unfolding honest_hit_def by blast
qed

lemma claim_loop_hit:
  "claim_loop E orc left t ch c n s = (Inr (DOWNLOADED, own), s') \<Longrightarrow> honest_hit E orc t s'"
proof (induction E orc left t ch c n s rule: claim_loop.induct)
  case (1 E orc left t ch c n s)
  show ?case
    using "1.prems" "1.IH" present_hit try_claim_exists(2)
    by (subst (asm) claim_loop.simps)
       (force split: prod.splits option.splits ClaimOutcome.splits if_splits bool.splits nat.splits
          simp: report_missing_files_def)
qed

lemma poll_loop_hit:
  "poll_loop E orc polls t ch u n s = (Some DOWNLOADED, s') \<Longrightarrow> honest_hit E orc t s'"
proof (induction polls arbitrary: u n s)
  case (Suc polls)
  then show ?case
    using present_hit try_claim_exists(2)
    by (force split: prod.splits option.splits ClaimOutcome.splits if_splits bool.splits
        simp: report_missing_files_def)
qed simp


lemma claim_loop_early: "claim_loop E orc left t ch c n s = (Inl st, s') \<Longrightarrow> st = ERROR"
proof (induction E orc left t ch c n s rule: claim_loop.induct)
  case (1 E orc left t ch c n s)
  show ?case
    using "1.prems" "1.IH"
    by (subst (asm) claim_loop.simps)
       (force split: prod.splits option.splits ClaimOutcome.splits if_splits bool.splits nat.splits
          simp: report_missing_files_def)
qed

lemma ensure_hit:
  assumes "ensure_model_downloaded E orc polls t ch u n s = (Some DOWNLOADED, s')"
  shows "honest_hit E orc t s'"
proof -
  obtain r s1 where loop: "claim_loop E orc (MAX_CLAIM_ATTEMPTS - 1) t ch (se_uuid E u) n s = (r, s1)" by fastforce
  show ?thesis
  proof (cases r)
    case (Inl early)
    then have "early = ERROR" using claim_loop_early loop by blast
    then show ?thesis using assms loop Inl unfolding ensure_model_downloaded_def by fastforce
  next
    case (Inr so)
    obtain status own where so: "so = (status, own)" by fastforce
    show ?thesis
    proof (cases "status = DOWNLOADED")
      case True
      then have "honest_hit E orc t s1" using loop Inr so by (auto intro: claim_loop_hit)
      then show ?thesis using assms loop Inr so True honest_hit_send
        by (auto simp: ensure_model_downloaded_def Let_def)
    next
      case False
      then have "status = ERROR \<or> status = DOWNLOADING" by (cases status) auto
      then show ?thesis using assms loop Inr so poll_loop_hit
        by (auto simp: ensure_model_downloaded_def Let_def split: prod.splits option.splits if_splits)
    qed
  qed
qed

text \<open>
  C5. A request is answered with success only on an honest hit: whatever other replicas, other tasks
  and failing registry calls do, if the tracker reports a model as downloaded, then it found the
  record downloaded and, at that moment, every file recorded for that entry in its own cache
  with the recorded size (or the server has no cache directory to check).
\<close>

theorem downloaded_answer_is_honest:
  assumes "ensure_model_downloaded E orc polls t ch u n s = (Some DOWNLOADED, s')"
  shows "\<exists>s1 m updates. mem_get_status (target_entry_key t) (ts_registry s1) = Some DOWNLOADED
    \<and> (\<forall>root. se_cache_root E = Some root \<longrightarrow>
         (\<exists>manifest snapshot.
            manifest_read (se_sha256_hex E) (se_from_json E) (se_io E) (partition_dir root (dt_tenant t))
              (target_entry_key t) (ts_volume s1) = Some manifest
            \<and> se_model_path E (dt_provider t) (dt_model_name t) (partition_dir root (dt_tenant t))
                (dt_revision t) (ts_volume s1) = Inr snapshot
            \<and> (\<forall>f \<in> set (dm_files manifest). file_satisfied (ts_volume s1) snapshot f)))
    \<and> s' = (touch_and_log orc m (target_entry_key t) s1)\<lparr>ts_sent := updates\<rparr>"
proof -
  from ensure_hit [OF assms] obtain s1 m updates where hit: "mem_get_status (target_entry_key t) (ts_registry s1) = Some DOWNLOADED"
    "model_files_present E (cache_dir_for E (dt_tenant t)) t (ts_volume s1)"
    "s' = (touch_and_log orc m (target_entry_key t) s1)\<lparr>ts_sent := updates\<rparr>"
    unfolding honest_hit_def by blast
  have "\<exists>manifest snapshot.
      manifest_read (se_sha256_hex E) (se_from_json E) (se_io E) (partition_dir root (dt_tenant t))
        (target_entry_key t) (ts_volume s1) = Some manifest
      \<and> se_model_path E (dt_provider t) (dt_model_name t) (partition_dir root (dt_tenant t))
          (dt_revision t) (ts_volume s1) = Inr snapshot
      \<and> (\<forall>f \<in> set (dm_files manifest). file_satisfied (ts_volume s1) snapshot f)"
    if "se_cache_root E = Some root" for root
    using hit(2) that
    by (cases "se_model_path E (dt_provider t) (dt_model_name t) (partition_dir root (dt_tenant t))
          (dt_revision t) (ts_volume s1)")
       (auto simp: model_files_present_def cache_dir_for_def recorded_snapshot_def is_some_and_def
        satisfied_iff bind_eq_Some_conv split: option.splits)
  with hit show ?thesis by blast
qed

subsection \<open>Progress\<close>

text \<open>The download is over with status \<open>st\<close>: it failed, or it is recorded and its files are there.\<close>

definition settled :: "ServerEnv \<Rightarrow> DownloadTarget \<Rightarrow> ModelStatus \<Rightarrow> TrackerState \<Rightarrow> bool" where
  "settled E t st s \<longleftrightarrow> mem_get_status (target_entry_key t) (ts_registry s) = Some st \<and> st \<noteq> DOWNLOADING
     \<and> (st = DOWNLOADED \<longrightarrow> model_files_present E (cache_dir_for E (dt_tenant t)) t (ts_volume s))"

text \<open>
  C19. A waiter does not hang and returns the outcome. Once the registry has settled the download as
  failed, or as downloaded with its files in place, and nothing that other tasks do changes that, the
  wait ends with exactly that status as soon as one poll reaches the registry, however many polls
  failed before.
\<close>

theorem waiter_returns_once_settled:
  assumes "settled E t st s" and "\<And>i s. settled E t st s \<Longrightarrow> settled E t st (or_env orc i s)"
    and "j < polls" and "\<not> or_fault orc (n + 2 * j)"
  shows "fst (poll_loop E orc polls t ch u n s) = Some st"
  using assms(1,3,4)
proof (induction polls arbitrary: j n s)
  case (Suc polls)
  let ?s1 = "or_env orc n s"
  have st: "settled E t st ?s1" using assms(2) Suc.prems(1) .
  show ?case
  proof (cases "or_fault orc n")
    case True
    then obtain i where "j = Suc i" using Suc.prems(3) by (cases j) auto
    then have "fst (poll_loop E orc polls t ch u (n + 2) ?s1) = Some st"
      using Suc.IH [OF st, of i "n + 2"] Suc.prems(2,3) by (simp add: algebra_simps)
    then show ?thesis by (simp add: try_claim_def reg_call_fault [OF True])
  next
    case False
    then show ?thesis using st try_claim_settled [OF False, of t s st E "se_uuid E u"]
      by (auto simp: settled_def recorded_files_present_def)
  qed
qed simp

text \<open>
  An abandoned download is driven again. If a poll reaches the registry and finds the entry gone or
  its lease expired, the waiter takes the lease under its own fresh claim and spawns the download,
  then goes on waiting under the next claim identifier.
\<close>

theorem waiter_redrives_abandoned:
  assumes "\<not> or_fault orc n" and "mem_inv (ts_registry (or_env orc n s))"
    and "mem_cell (ts_registry (or_env orc n s)) (target_entry_key t) = None
      \<or> (\<exists>l. mem_cell (ts_registry (or_env orc n s)) (target_entry_key t) = Some (DOWNLOADING, l)
             \<and> lease_expired (or_clock orc n) l)"
  shows "\<exists>s1. poll_loop E orc (Suc polls) t ch u n s = poll_loop E orc polls t ch (u + 1) (n + 2) s1
    \<and> ts_spawned s1 = ts_spawned (or_env orc n s) @ [\<lparr>sp_target = t, sp_retry = False, sp_claim_id = se_uuid E u\<rparr>]
    \<and> mem_cell (ts_registry s1) (target_entry_key t) =
        Some (DOWNLOADING, Some (se_uuid E u, lease_deadline (se_add E) (or_clock orc n) DOWNLOAD_LEASE_DURATION))"
proof -
  let ?reg = "ts_registry (or_env orc n s)"
  obtain out reg' where claim: "mem_try_claim_for_download (se_add E) (or_clock orc n) (target_entry_key t)
      (dt_provider t) (se_uuid E u) DOWNLOAD_LEASE_DURATION ?reg = (out, reg')" by fastforce
  have own: "out = Claimed \<or> out = TookOver"
    and cell: "mem_cell reg' (target_entry_key t) =
      Some (DOWNLOADING, Some (se_uuid E u, lease_deadline (se_add E) (or_clock orc n) DOWNLOAD_LEASE_DURATION))"
    using mem.takeover [OF assms(2) TrueI assms(3), of "se_add E" "dt_provider t" "se_uuid E u" DOWNLOAD_LEASE_DURATION]
      claim by (cases out; simp)+
  let ?s1 = "spawn_download_task t False (se_uuid E u) ((or_env orc n s)\<lparr>ts_registry := reg'\<rparr>)"
  have "poll_loop E orc (Suc polls) t ch u n s = poll_loop E orc polls t ch (u + 1) (n + 2) ?s1"
    using own by (auto simp: try_claim_def reg_call_ok [OF assms(1)] claim)
  then show ?thesis using cell by (intro exI [of _ ?s1]) (simp add: spawn_download_task_def)
qed

subsection \<open>The clearing of a model\<close>

lemma delete_entries_quiet:
  assumes "or_env orc = (\<lambda>_ s. s)" and "\<And>i. \<not> or_fault orc i"
    and "delete_entries orc n tenant name rs c s = (c', s')" and "c + length rs \<le> u64_max"
  shows "mem_get_model_record k (ts_registry s') =
      (if \<exists>r \<in> set rs. mr_model_name r = k \<and> belongs_to (parse_key k) tenant name then None
       else mem_get_model_record k (ts_registry s))
    \<and> c' = c + length (filter (\<lambda>r. belongs_to (parse_key (mr_model_name r)) tenant name) rs)"
  using assms(3,4)
proof (induction rs arbitrary: n c s)
  case (Cons r rs)
  have del: "mem_get_model_record k (ts_registry (snd (delete_status orc n (mr_model_name r) s)))
      = (if k = mr_model_name r then None else mem_get_model_record k (ts_registry s))"
    by (simp add: delete_status_def reg_call_ok [OF assms(2)] assms(1) mem_get_model_record_def
        mem_delete_model_def hm_simps)
  show ?case
  proof (cases "belongs_to (parse_key (mr_model_name r)) tenant name")
    case True
    moreover have "usize_saturating_add c 1 = c + 1" using Cons.prems(2) by (simp add: usize_saturating_add_def)
    ultimately show ?thesis using Cons.prems Cons.IH [of "n + 1" "c + 1"] del by auto
  next
    case False
    then show ?thesis using Cons.prems Cons.IH [of n c s] by auto
  qed
qed simp


text \<open>
  Clearing a model forgets that model and nothing else: on a reachable registry, with no failing
  call and nobody acting in between, exactly the entries of this model in this tenant's partition
  are gone, whatever revision or weight mode they cover, and the reported number is theirs.
\<close>

theorem clear_is_exact:
  assumes "or_env orc = (\<lambda>_ s. s)" and "\<And>i. \<not> or_fault orc i" and "mem_inv (ts_registry s)"
    and "length (ms_models (ts_registry s)) \<le> u64_max"
    and "delete_model_entries orc n tenant name s = (out, s')"
  shows "mem_get_model_record k (ts_registry s') =
      (if belongs_to (parse_key k) tenant name then None else mem_get_model_record k (ts_registry s))
    \<and> de_removed out = card {k. mem_get_model_record k (ts_registry s) \<noteq> None \<and> belongs_to (parse_key k) tenant name}
    \<and> \<not> de_degraded out"
proof -
  let ?reg = "ts_registry s" and ?rs = "mem_get_models_by_last_used None (ts_registry s)"
  let ?own = "\<lambda>r. belongs_to (parse_key (mr_model_name r)) tenant name"
  obtain c s2 where del: "delete_entries orc (n + 1) tenant name ?rs 0 s = (c, s2)" by fastforce
  have out: "out = \<lparr>de_removed = c, de_degraded = False\<rparr>" "s' = s2"
    using assms(5) del by (simp_all add: delete_model_entries_def reg_call_ok [OF assms(2)] assms(1))
  have "length ?rs \<le> u64_max" using assms(4) by (simp add: mem_get_models_by_last_used_def hm_values_def)
  then have ex: "mem_get_model_record k (ts_registry s2) =
      (if \<exists>r \<in> set ?rs. mr_model_name r = k \<and> belongs_to (parse_key k) tenant name then None
       else mem_get_model_record k ?reg)" and c: "c = length (filter ?own ?rs)"
    using delete_entries_quiet [OF assms(1,2) del] by auto
  note names = listing_names [OF assms(3)]
  have rec: "k' \<in> mr_model_name ` set ?rs \<longleftrightarrow> mem_get_model_record k' ?reg \<noteq> None" for k'
    by (rule listing_keys [OF assms(3)])
  have "{k. mem_get_model_record k ?reg \<noteq> None \<and> belongs_to (parse_key k) tenant name}
      = mr_model_name ` set (filter ?own ?rs)"
    unfolding set_filter by (simp only: rec [symmetric]) blast
  moreover have "card (mr_model_name ` set (filter ?own ?rs)) = c"
    using names(1) c distinct_card [of "map mr_model_name (filter ?own ?rs)"] by (simp add: distinct_map_filter)
  ultimately show ?thesis using ex out rec [of k] by auto
qed

lemma delete_entries_faulty:
  assumes "or_env orc = (\<lambda>_ s. s)" and "\<And>i. n \<le> i \<Longrightarrow> or_fault orc i" and "c + length rs \<le> u64_max"
  shows "fst (delete_entries orc n tenant name rs c s)
      = c + length (filter (\<lambda>r. belongs_to (parse_key (mr_model_name r)) tenant name) rs)
    \<and> ts_registry (snd (delete_entries orc n tenant name rs c s)) = ts_registry s"
  using assms(2,3)
proof (induction rs arbitrary: n c s)
  case (Cons r rs)
  have "usize_saturating_add c 1 = c + 1" using Cons.prems(2) by (simp add: usize_saturating_add_def)
  then show ?case
    using Cons.IH [of "n + 1" "c + 1"] Cons.IH [of n c s] Cons.prems
    by (auto simp: delete_status_def reg_call_fault assms(1))
qed simp

text \<open>
  A delete that the registry refuses is counted all the same: when every call after the listing
  fails, no record is gone, yet the outcome reports every entry of the model as removed and is
  not marked as degraded.
\<close>

theorem failed_deletes_are_counted:
  assumes "or_env orc = (\<lambda>_ s. s)" and "\<not> or_fault orc n" and "\<And>i. n < i \<Longrightarrow> or_fault orc i"
    and "length (ms_models (ts_registry s)) \<le> u64_max"
  shows "ts_registry (snd (delete_model_entries orc n tenant name s)) = ts_registry s
    \<and> fst (delete_model_entries orc n tenant name s) =
        \<lparr>de_removed = length (filter (\<lambda>r. belongs_to (parse_key (mr_model_name r)) tenant name)
            (mem_get_models_by_last_used None (ts_registry s))), de_degraded = False\<rparr>"
proof -
  let ?rs = "mem_get_models_by_last_used None (ts_registry s)"
  have "length ?rs \<le> u64_max" using assms(4) by (simp add: mem_get_models_by_last_used_def hm_values_def)
  then show ?thesis
    using delete_entries_faulty [OF assms(1), of "n + 1" 0 ?rs tenant name s] assms(3)
    by (auto simp: delete_model_entries_def reg_call_ok [OF assms(2)] assms(1) split: prod.splits)
qed


subsection \<open>From a download to the next hit\<close>

lemma perform_finish:
  assumes "mem_inv reg" and "lease_owned_by c (mem_cell reg k)"
  shows "\<exists>reg'. mem_finish_download_claim now k p c st m reg = (True, reg')
    \<and> mem_cell reg' k = Some (st, None) \<and> mem_inv reg'"
  using mem_perform_reply [OF assms(1), of undefined p now k "EFinish c st m"]
    mem_perform_cell [OF assms(1), of undefined p now k "EFinish c st m" k]
    mem_perform_inv [OF assms(1), of undefined p now k "EFinish c st m"] assms(2)
  by (cases "mem_finish_download_claim now k p c st m reg") simp

lemma perform_refresh:
  assumes "mem_inv reg" and "lease_owned_by c (mem_cell reg k)"
  shows "\<exists>reg'. mem_refresh_download_claim add now k p c d reg = (True, reg')
    \<and> lease_owned_by c (mem_cell reg' k) \<and> mem_inv reg'"
  using mem_perform_reply [OF assms(1), of add p now k "ERefresh c d"]
    mem_perform_cell [OF assms(1), of add p now k "ERefresh c d" k]
    mem_perform_inv [OF assms(1), of add p now k "ERefresh c d"] assms(2)
  by (cases "mem_refresh_download_claim add now k p c d reg") (simp, simp add: lease_owned_by_def)

lemma heartbeats_quiet:
  assumes "or_env orc = (\<lambda>_ s. s)" and "\<And>i. \<not> or_fault orc i"
    and "mem_inv (ts_registry s)" and "lease_owned_by c (mem_cell (ts_registry s) k)"
  shows "\<exists>reg'. heartbeats E orc n k p c beats s = (True, s\<lparr>ts_registry := reg'\<rparr>)
    \<and> mem_inv reg' \<and> lease_owned_by c (mem_cell reg' k)"
  using assms(3,4)
proof (induction beats arbitrary: n s)
  case 0
  then show ?case by (intro exI [of _ "ts_registry s"]) simp
next
  case (Suc beats)
  obtain reg1 where r: "mem_refresh_download_claim (se_add E) (or_clock orc n) k p c DOWNLOAD_LEASE_DURATION (ts_registry s)
      = (True, reg1)" "lease_owned_by c (mem_cell reg1 k)" "mem_inv reg1"
    using perform_refresh [OF Suc.prems] by blast
  show ?case using Suc.IH [of "s\<lparr>ts_registry := reg1\<rparr>" "n + 1"] r
    by (auto simp: reg_call_ok [OF assms(2)] assms(1))
qed


text \<open>A request that finds its model downloaded and present is answered at once.\<close>

lemma ensure_settled_hit:
  assumes "or_env orc = (\<lambda>_ s. s)" and "\<And>i. \<not> or_fault orc i"
    and "mem_get_status (target_entry_key t) (ts_registry s) = Some DOWNLOADED"
    and "model_files_present E (cache_dir_for E (dt_tenant t)) t (ts_volume s)"
  shows "\<exists>s'. ensure_model_downloaded E orc polls t ch u n s = (Some DOWNLOADED, s')
    \<and> ts_spawned s' = ts_spawned s \<and> ts_volume s' = ts_volume s
    \<and> ts_sent s' = ts_sent s @ [(ch, status_update (target_identity t) DOWNLOADED (Some ''Model already downloaded''))]"
proof -
  have "try_claim E orc n t c s = (Some (AlreadyExists DOWNLOADED), s)" for c
    using try_claim_settled [of orc n t s DOWNLOADED E c] assms by simp
  then have "claim_loop E orc l t ch c n s =
      (Inr (DOWNLOADED, False), touch_and_log orc (n + 1) (target_entry_key t) s)" for l c
    by (simp add: claim_loop.simps recorded_files_present_def assms(4))
  then show ?thesis
    by (simp add: ensure_model_downloaded_def touch_and_log_def reg_call_ok [OF assms(2)] assms(1)
        send_def progress_message_def Let_def)
qed

text \<open>
  The volume and the provider agree on a finished download: the directory listing of the snapshot
  is what the file system reports, outside the manifest directory, and the provider finds
  the snapshot again whatever manifests say.
\<close>

definition download_on_disk :: "ServerEnv \<Rightarrow> string \<Rightarrow> DownloadTarget \<Rightarrow> string \<Rightarrow> volume \<Rightarrow> bool" where
  "download_on_disk E dir t snapshot fs \<longleftrightarrow>
     no_link_into fs {p. starts_with (path_join dir MANIFEST_DIR) p}
     \<and> (\<forall>(p, n) \<in> set (collect_model_files [] None (dt_ignore_weights t) (se_read_dir E fs snapshot)).
          file_satisfied fs snapshot \<lparr>mf_path = p, mf_size = n\<rparr>
          \<and> \<not> starts_with (path_join dir MANIFEST_DIR) (path_join snapshot p))
     \<and> (\<forall>fs'. (\<forall>q. \<not> starts_with (path_join dir MANIFEST_DIR) q \<longrightarrow> fs' q = fs q) \<longrightarrow>
          se_model_path E (dt_provider t) (dt_model_name t) dir (dt_revision t) fs' = Inr snapshot)"

lemma manifest_write_local:
  assumes "manifest_write (\<lambda>k. Inr (h k)) to_json io uuid m root fs = (Inr (), fs')" and "hex_digest h"
    and "\<not> starts_with (path_join root MANIFEST_DIR) q"
  shows "fs' q = fs q"
proof -
  let ?d = "path_join root MANIFEST_DIR"
  have "starts_with ?d ?d" by (simp add: starts_with_def)
  then have "q \<noteq> ?d" "q \<noteq> path_join ?d (''.'' @ uuid @ ''.tmp'')" "q \<noteq> manifest_file h root (dm_entry_key m)"
    using assms(3) starts_with_join [OF staging_relative [of "uuid @ ''.tmp''"], of ?d]
      starts_with_join [OF hex_relative [OF assms(2)], of ?d]
    by (auto simp: manifest_file_def)
  then show ?thesis using manifest_write_ok [OF assms(1)] by metis
qed

lemma recorded_download_present:
  assumes "record_download E uuid (Some dir) (target_entry_key t) snapshot (dt_ignore_weights t) fs = (Inr (), fs')"
    and "se_sha256_hex E = (\<lambda>k. Inr (h k))" and "hex_digest h"
    and "\<And>m body. se_to_json E m = Inr body \<Longrightarrow> se_from_json E body = Some m"
    and "download_on_disk E dir t snapshot fs"
  shows "model_files_present E (Some dir) t fs'"
proof -
  let ?files = "collect_model_files [] None (dt_ignore_weights t) (se_read_dir E fs snapshot)"
  let ?m = "manifest_new (target_entry_key t) ?files"
  let ?W = "{p. starts_with (path_join dir MANIFEST_DIR) p}"
  have nl: "no_link_into fs ?W" using assms(5) by (simp add: download_on_disk_def)
  have w: "manifest_write (\<lambda>k. Inr (h k)) (se_to_json E) (se_io E) uuid ?m dir fs = (Inr (), fs')"
    using assms(1,2) by (simp add: record_download_def)
  note local = manifest_write_local [OF w assms(3)]
  have "manifest_read (\<lambda>k. Inr (h k)) (se_from_json E) (se_io E) dir (target_entry_key t) fs' = Some ?m"
    using manifest_write_read [OF w assms(3) assms(4) nl] by (simp add: manifest_new_def)
  moreover have "se_model_path E (dt_provider t) (dt_model_name t) dir (dt_revision t) fs' = Inr snapshot"
    using assms(5) local by (auto simp: download_on_disk_def)
  moreover have "file_satisfied fs' snapshot f" if f: "f \<in> set (dm_files ?m)" for f
  proof -
    obtain p n where "f = \<lparr>mf_path = p, mf_size = n\<rparr>" "(p, n) \<in> set ?files"
      using f by (auto simp: manifest_new_def)
    then have "file_satisfied fs snapshot f" "path_join snapshot (mf_path f) \<notin> ?W"
      using assms(5) by (auto simp: download_on_disk_def)
    then show ?thesis using stat_agree [OF nl, of fs'] local by (simp add: file_satisfied_def)
  qed
  ultimately show ?thesis
    by (simp add: model_files_present_def recorded_snapshot_def assms(2) is_some_and_def satisfied_iff)
qed


lemma notify_final:
  assumes "status = DOWNLOADED \<or> status = ERROR"
  shows "hm_get (ts_waiting (notify_waiters E identity status message s)) (ui_entry_key identity) = None"
    and "hm_get (ts_waiting s) (ui_entry_key identity) = Some channels \<Longrightarrow>
      ts_sent (notify_waiters E identity status message s) =
        ts_sent s @ map (\<lambda>ch. (ch, status_update identity status message)) (filter (se_room E) channels)"
    and "ts_registry (notify_waiters E identity status message s) = ts_registry s"
    and "ts_volume (notify_waiters E identity status message s) = ts_volume s"
    and "ts_spawned (notify_waiters E identity status message s) = ts_spawned s"
  using assms by (auto simp: notify_waiters_def Let_def hm_simps split: option.splits)

text \<open>
  C18. A download that finishes is served. When the task still owns its lease and nobody interferes, it
  records the entry as downloaded, tells every waiting channel that has room and forgets them; from
  then on a request for the same target is answered at once and spawns no download.
\<close>

theorem finished_download_is_hit:
  assumes "or_env orc = (\<lambda>_ s. s)" and "\<And>i. \<not> or_fault orc i" and "mem_inv (ts_registry s)"
    and "t = sp_target task" and "lease_owned_by (sp_claim_id task) (mem_cell (ts_registry s) (target_entry_key t))"
    and "cache_dir_for E (dt_tenant t) = Some dir" and "download_on_disk E dir t snapshot (ts_volume s)"
    and "se_sha256_hex E = (\<lambda>k. Inr (h k))" and "hex_digest h"
    and "\<And>m body. se_to_json E m = Inr body \<Longrightarrow> se_from_json E body = Some m"
    and "fst (record_download E uuid (Some dir) (target_entry_key t) snapshot (dt_ignore_weights t) (ts_volume s)) = Inr ()"
    and "s' = download_task E orc n beats uuid (Inr snapshot) task s"
  shows "mem_get_status (target_entry_key t) (ts_registry s') = Some DOWNLOADED
    \<and> hm_get (ts_waiting s') (target_entry_key t) = None
    \<and> (\<forall>chs. hm_get (ts_waiting s) (target_entry_key t) = Some chs \<longrightarrow>
         ts_sent s' = ts_sent s @ map (\<lambda>ch. (ch, status_update (target_identity t) DOWNLOADED
           (Some ''Model download completed successfully''))) (filter (se_room E) chs))
    \<and> (\<exists>s''. ensure_model_downloaded E orc polls t ch u n' s' = (Some DOWNLOADED, s'')
         \<and> ts_spawned s'' = ts_spawned s)"
proof -
  let ?k = "target_entry_key t" and ?msg = "Some ''Model download completed successfully''"
  obtain reg1 where hb: "heartbeats E orc n ?k (dt_provider t) (sp_claim_id task) beats s = (True, s\<lparr>ts_registry := reg1\<rparr>)"
    and reg1: "mem_inv reg1" "lease_owned_by (sp_claim_id task) (mem_cell reg1 ?k)"
    using heartbeats_quiet [OF assms(1-3,5)] by blast
  obtain fs' where rd: "record_download E uuid (Some dir) ?k snapshot (dt_ignore_weights t) (ts_volume s) = (Inr (), fs')"
    using assms(11) by (metis prod.collapse)
  obtain reg2 where fin: "mem_finish_download_claim (or_clock orc (n + beats)) ?k (dt_provider t) (sp_claim_id task)
      DOWNLOADED ?msg reg1 = (True, reg2)" and reg2: "mem_cell reg2 ?k = Some (DOWNLOADED, None)"
    using perform_finish [OF reg1] by blast
  let ?s3 = "s\<lparr>ts_volume := fs', ts_registry := reg2\<rparr>"
  have s': "s' = notify_waiters E (target_identity t) DOWNLOADED ?msg ?s3"
    using hb rd fin assms(4,6) by (simp add: assms(12) download_task_def Let_def reg_call_ok [OF assms(2)] assms(1))
  have id: "ui_entry_key (target_identity t) = ?k" by (simp add: target_identity_def)
  have st: "mem_get_status ?k (ts_registry s') = Some DOWNLOADED"
    using cell_status [OF reg2] by (simp add: s' notify_final(3))
  have "model_files_present E (cache_dir_for E (dt_tenant t)) t (ts_volume s')"
    using recorded_download_present [OF rd assms(8-10,7)] by (simp add: assms(6) s' notify_final(4))
  from ensure_settled_hit [OF assms(1,2) st this] obtain s'' where
    "ensure_model_downloaded E orc polls t ch u n' s' = (Some DOWNLOADED, s'')" "ts_spawned s'' = ts_spawned s'"
    by blast
  then show ?thesis
    using st notify_final(1) [of DOWNLOADED E "target_identity t" ?msg ?s3]
      notify_final(2) [of DOWNLOADED ?s3 "target_identity t" _ E ?msg]
    by (auto simp: s' id notify_final(5))
qed

lemma heartbeats_lost:
  assumes "or_env orc = (\<lambda>_ s. s)" and "mem_inv (ts_registry s)" and "\<not> lease_owned_by c (mem_cell (ts_registry s) k)"
  shows "heartbeats E orc n k p c beats s = ((\<forall>i < beats. or_fault orc (n + i)), s)"
proof (induction beats arbitrary: n)
  case (Suc beats)
  have "mem_refresh_download_claim (se_add E) now k p c d (ts_registry s) = (False, ts_registry s)" for now d
    using assms(2,3) mem_perform_reply [OF assms(2), of "se_add E" p now k "ERefresh c d"]
    by (auto simp: mem_op_defs Let_def split: option.splits if_splits)
  then have "heartbeats E orc n k p c (Suc beats) s =
      (if or_fault orc n then heartbeats E orc (n + 1) k p c beats s else (False, s))"
    by (simp add: reg_call_def assms(1))
  then show ?case using Suc.IH [of "n + 1"] by (auto simp: less_Suc_eq_0_disj)
qed simp

text \<open>
  A task that lost its lease publishes nothing. Whatever it downloaded and whichever of its registry
  calls fail, the registry, the waiting channels and the sent updates stay as they were; and when
  a heartbeat got through before the end, it did not write a manifest either.
\<close>

theorem lost_lease_publishes_nothing:
  assumes "or_env orc = (\<lambda>_ s. s)" and "mem_inv (ts_registry s)"
    and "\<not> lease_owned_by (sp_claim_id task) (mem_cell (ts_registry s) (target_entry_key (sp_target task)))"
  shows "\<exists>fs'. download_task E orc n beats uuid outcome task s = s\<lparr>ts_volume := fs'\<rparr>
    \<and> ((\<exists>i < beats. \<not> or_fault orc (n + i)) \<longrightarrow> fs' = ts_volume s)"
proof -
  let ?t = "sp_target task"
  have lost: "mem_finish_download_claim now (target_entry_key ?t) p (sp_claim_id task) st m (ts_registry s)
      = (False, ts_registry s)" for now p st m
    using assms(2,3) mem_perform_reply [OF assms(2), of undefined p now "target_entry_key ?t" "EFinish (sp_claim_id task) st m"]
    by (auto simp: mem_op_defs Let_def split: option.splits if_splits)
  have "reg_call orc i (\<lambda>now. mem_finish_download_claim now (target_entry_key ?t) p (sp_claim_id task) st m)
      (s\<lparr>ts_volume := fs\<rparr>) = (if or_fault orc i then None else Some False, s\<lparr>ts_volume := fs\<rparr>)" for i p st m fs
    by (simp add: reg_call_def assms(1) lost)
  then show ?thesis
    using heartbeats_lost [OF assms(1-3), of E n "dt_provider ?t" beats]
    by (cases "\<forall>i < beats. or_fault orc (n + i)")
       (auto simp: download_task_def Let_def intro: exI [of _ "ts_volume s"] split: prod.splits)
qed


subsection \<open>Concrete runs\<close>

definition calm :: "(nat \<Rightarrow> bool) \<Rightarrow> Oracle" where
  "calm fault = \<lparr>or_env = (\<lambda>_ s. s), or_fault = fault, or_clock = (\<lambda>_. 10)\<rparr>"

lemma calm_sel [simp]: "or_env (calm fault) = (\<lambda>_ s. s)" "or_fault (calm fault) = fault"
  by (simp_all add: calm_def)

definition run_target :: DownloadTarget where
  "run_target = \<lparr>dt_tenant = None, dt_model_name = ''m'', dt_provider = HuggingFace, dt_revision = None,
     dt_ignore_weights = False\<rparr>"

definition run_manifest :: DownloadManifest where
  "run_manifest = \<lparr>dm_entry_key = ''m'', dm_files = [\<lparr>mf_path = ''a'', mf_size = 2\<rparr>]\<rparr>"

definition run_env :: ServerEnv where
  "run_env = \<lparr>se_cache_root = Some ''/c'', se_sha256_hex = (\<lambda>k. Inr ''ab''),
     se_to_json = (\<lambda>m. if m = run_manifest then Inr ''{}'' else Inl ''unused''),
     se_from_json = (\<lambda>_. Some run_manifest), se_io = (\<lambda>_. True),
     se_model_path = (\<lambda>_ _ _ _ _. Inr ''/s''), se_read_dir = (\<lambda>_ _. [(''a'', TFile 2)]),
     se_uuid = (\<lambda>u. if u = 0 then ''c0'' else ''c1''), se_add = (\<lambda>t d. Some (t + int d)), se_room = (\<lambda>_. True)\<rparr>"

definition run_task :: SpawnedTask where
  "run_task = \<lparr>sp_target = run_target, sp_retry = False, sp_claim_id = ''c0''\<rparr>"

definition run_registry :: InMemoryState where
  "run_registry = snd (mem_try_claim_for_download (\<lambda>t d. Some (t + int d)) 5 ''m'' HuggingFace ''c0'' 30 mem_new)"

definition run_state :: TrackerState where
  "run_state = \<lparr>ts_registry = run_registry, ts_waiting = [(''m'', [7])], ts_sent = [],
     ts_volume = [''/s/a'' \<mapsto> FFile ''ok''], ts_spawned = []\<rparr>"

definition run_done :: TrackerState where
  "run_done = download_task run_env (calm (\<lambda>_. False)) 0 1 ''u'' (Inr ''/s'') run_task run_state"

lemma run_key: "target_entry_key run_target = ''m''"
  by code_simp

lemma run_registry_inv: "mem_inv run_registry"
  using mem_perform_inv [OF mem_inv_new, of "\<lambda>t d. Some (t + int d)" HuggingFace 5 "''m''" "EClaim ''c0'' 30"]
  by (simp add: run_registry_def)

lemma run_registry_size: "length (ms_models run_registry) \<le> u64_max"
proof -
  have "length (ms_models run_registry) = 1" by code_simp
  then show ?thesis by (simp add: u64_max_def)
qed

lemma run_owner: "lease_owned_by ''c0'' (mem_cell run_registry ''m'')" "\<not> lease_owned_by ''c1'' (mem_cell run_registry ''m'')"
  by code_simp+

lemma run_done_settled: "settled run_env run_target DOWNLOADED run_done"
proof -
  have "mem_get_status (target_entry_key run_target) (ts_registry run_done) = Some DOWNLOADED" by code_simp
  moreover have "model_files_present run_env (cache_dir_for run_env (dt_tenant run_target)) run_target (ts_volume run_done)"
    by code_simp
  ultimately show ?thesis by (simp add: settled_def)
qed


theorem downloaded_answer_is_honest_witness:
  "\<exists>s1 :: TrackerState. mem_get_status ''m'' (ts_registry s1) = Some DOWNLOADED
     \<and> (\<exists>manifest. manifest_read (\<lambda>k. Inr ''ab'') (\<lambda>_. Some run_manifest) (\<lambda>_. True) ''/c'' ''m'' (ts_volume s1)
          = Some manifest \<and> (\<forall>f \<in> set (dm_files manifest). file_satisfied (ts_volume s1) ''/s'' f))"
proof -
  have "fst (ensure_model_downloaded run_env (calm (\<lambda>_. False)) 0 run_target 3 0 5 run_done) = Some DOWNLOADED"
    by code_simp
  then obtain s' where "ensure_model_downloaded run_env (calm (\<lambda>_. False)) 0 run_target 3 0 5 run_done = (Some DOWNLOADED, s')"
    by (metis prod.collapse)
  note honest = downloaded_answer_is_honest [OF this, unfolded run_key]
  have "se_cache_root run_env = Some ''/c''" by (simp add: run_env_def)
  with honest show ?thesis by (fastforce simp: run_env_def run_target_def partition_dir_def)
qed

theorem waiter_returns_once_settled_witness:
  "fst (poll_loop run_env (calm (\<lambda>i. i < 2)) 2 run_target 3 0 0 run_done) = Some DOWNLOADED"
  by (rule waiter_returns_once_settled [where j = 1]) (simp_all add: run_done_settled)

theorem waiter_redrives_abandoned_witness:
  "\<exists>s1. poll_loop run_env (calm (\<lambda>_. False)) 1 run_target 3 0 0 (run_state\<lparr>ts_registry := mem_new\<rparr>)
      = poll_loop run_env (calm (\<lambda>_. False)) 0 run_target 3 1 2 s1
    \<and> ts_spawned s1 = [\<lparr>sp_target = run_target, sp_retry = False, sp_claim_id = ''c0''\<rparr>]"
proof -
  have "mem_cell mem_new k = None" for k by (simp add: mem_cell_def mem_new_def hm_get_def)
  then show ?thesis
    using waiter_redrives_abandoned [of "calm (\<lambda>_. False)" 0 "run_state\<lparr>ts_registry := mem_new\<rparr>" run_target run_env 0 3 0]
    by (auto simp: mem_inv_new run_state_def run_env_def)
qed

theorem clear_is_exact_witness:
  "mem_get_model_record ''m'' (ts_registry (snd (delete_model_entries (calm (\<lambda>_. False)) 0 None ''m'' run_state))) = None
   \<and> de_removed (fst (delete_model_entries (calm (\<lambda>_. False)) 0 None ''m'' run_state))
       = card {k. mem_get_model_record k run_registry \<noteq> None \<and> belongs_to (parse_key k) None ''m''}"
proof -
  have "belongs_to (parse_key ''m'') None ''m''" by code_simp
  then show ?thesis
    using run_registry_size clear_is_exact [of "calm (\<lambda>_. False)" run_state 0 None "''m''", OF _ _ _ _ surjective_pairing]
      run_registry_inv
    by (simp add: run_state_def)
qed

theorem failed_deletes_are_counted_witness:
  "ts_registry (snd (delete_model_entries (calm (\<lambda>i. 0 < i)) 0 None ''m'' run_state)) = run_registry
   \<and> de_removed (fst (delete_model_entries (calm (\<lambda>i. 0 < i)) 0 None ''m'' run_state)) = 1"
proof -
  have "length (filter (\<lambda>r. belongs_to (parse_key (mr_model_name r)) None ''m'')
      (mem_get_models_by_last_used None run_registry)) = 1" by code_simp
  then show ?thesis
    using run_registry_size failed_deletes_are_counted [of "calm (\<lambda>i. 0 < i)" 0 run_state None "''m''"]
    by (simp add: run_state_def)
qed

lemma run_on_disk: "download_on_disk run_env ''/c'' run_target ''/s'' (ts_volume run_state)"
proof -
  have "collect_model_files [] None False [(''a'', TFile 2)] = [(''a'', 2)]" by code_simp
  moreover have "file_satisfied [''/s/a'' \<mapsto> FFile ''ok''] ''/s'' \<lparr>mf_path = ''a'', mf_size = 2\<rparr>" by code_simp
  moreover have "\<not> starts_with (path_join ''/c'' MANIFEST_DIR) (path_join ''/s'' ''a'')" by code_simp
  ultimately show ?thesis
    by (simp add: download_on_disk_def run_env_def run_state_def run_target_def no_link_into_def)
qed

theorem finished_download_is_hit_witness:
  "mem_get_status ''m'' (ts_registry run_done) = Some DOWNLOADED
   \<and> map fst (ts_sent run_done) = [7]
   \<and> (\<exists>s''. ensure_model_downloaded run_env (calm (\<lambda>_. False)) 0 run_target 3 0 5 run_done = (Some DOWNLOADED, s'')
        \<and> ts_spawned s'' = [])"
proof -
  have rd: "fst (record_download run_env ''u'' (Some ''/c'') (target_entry_key run_target) ''/s'' (dt_ignore_weights run_target)
      (ts_volume run_state)) = Inr ()" by code_simp
  have env: "cache_dir_for run_env (dt_tenant run_target) = Some ''/c''" "se_sha256_hex run_env = (\<lambda>k. Inr ''ab'')"
    "se_room run_env = (\<lambda>_. True)" "se_to_json run_env m = Inr body \<Longrightarrow> se_from_json run_env body = Some m"
    "hm_get (ts_waiting run_state) ''m'' = Some [7]" "ts_sent run_state = []" "ts_spawned run_state = []"
    "ts_registry run_state = run_registry" for m body
    by (simp_all add: run_state_def hm_get_def cache_dir_for_def run_env_def run_target_def partition_dir_def split: if_splits)
  show ?thesis
    using finished_download_is_hit [where orc = "calm (\<lambda>_. False)" and s = run_state and task = run_task and E = run_env
        and snapshot = "''/s''" and uuid = "''u''" and beats = 1 and n = 0 and polls = 0 and ch = 3 and u = 0 and n' = 5,
        OF _ _ _ refl _ _ _ _ _ _ _ refl, of "''/c''" "\<lambda>k. ''ab''"]
      rd env run_on_disk run_registry_inv run_owner
    by (simp add: run_task_def run_key run_done_def hex_digest_def comp_def)
qed

theorem lost_lease_publishes_nothing_witness:
  "download_task run_env (calm (\<lambda>_. False)) 0 1 ''u'' (Inr ''/s'') (run_task\<lparr>sp_claim_id := ''c1''\<rparr>) run_state = run_state"
  using lost_lease_publishes_nothing [of "calm (\<lambda>_. False)" run_state "run_task\<lparr>sp_claim_id := ''c1''\<rparr>" run_env 0 1 "''u''" "Inr ''/s''"]
    run_registry_inv run_owner(2)
  by (auto simp: run_task_def run_key run_state_def)

end
