(* ===== verification/Model_Service.thy ===== *)
theory Model_Service
  imports Tracker_Proofs Hf_Cache Caller_Auth
begin

text \<open>
  The gRPC handlers of the model service, the API service and the health service
  (\<^verbatim>\<open>services.rs\<close>), with the conversions between the wire's enumerations and the model's
  (\<^verbatim>\<open>modelexpress_common/src/lib.rs\<close>).

  A handler checks the caller's scope, the provider, the model name and the revision, then works in
  the caller's partition of the cache through the tracker. The provider trait's methods that reach
  the network are parameters. Handlers that stream return the stream's content; the channel the
  updates go to is a number.

  Shown here: a handler touches the caller's partition only, a pinned revision is served as such
  or refused, and the list of files announces what the stream sends.
\<close>

subsection \<open>Status codes and enumerations\<close>

datatype grpc_status =
    InvalidArgument string
  | NotFoundStatus string
  | InternalStatus string
  | ScopeStatus auth_status

datatype RpcOutcome = OutcomeOk | OutcomeInvalidArgument | OutcomeNotFound | OutcomeBackendError
  | OutcomeUnauthenticated | OutcomeCancelled | OutcomeError

text \<open>\<^verbatim>\<open>GrpcModelProvider::try_from\<close> and the conversions of \<^verbatim>\<open>lib.rs\<close>\<close>

definition provider_try_from :: "int \<Rightarrow> ModelProvider option" where
  "provider_try_from v =
     (if v = 0 then Some HuggingFace else if v = 1 then Some Ngc else if v = 2 then Some Gcs
      else if v = 3 then Some S3 else None)"

fun provider_to_wire :: "ModelProvider \<Rightarrow> int" where
  "provider_to_wire HuggingFace = 0"
| "provider_to_wire Ngc = 1"
| "provider_to_wire Gcs = 2"
| "provider_to_wire S3 = 3"

definition status_try_from :: "int \<Rightarrow> ModelStatus option" where
  "status_try_from v =
     (if v = 0 then Some DOWNLOADING else if v = 1 then Some DOWNLOADED else if v = 2 then Some ERROR else None)"

fun status_to_wire :: "ModelStatus \<Rightarrow> int" where
  "status_to_wire DOWNLOADING = 0"
| "status_to_wire DOWNLOADED = 1"
| "status_to_wire ERROR = 2"

text \<open>\<^verbatim>\<open>ModelStatusUpdate\<close> on the wire and \<^verbatim>\<open>ModelStatusResponse::from\<close>\<close>

record WireUpdate =
  wu_model_name :: string
  wu_status :: int
  wu_message :: "string option"
  wu_provider :: int
  wu_resolved_revision :: "string option"

definition to_wire :: "ModelStatusUpdate \<Rightarrow> WireUpdate" where
  "to_wire u =
     \<lparr>wu_model_name = mu_model_name u, wu_status = status_to_wire (mu_status u), wu_message = mu_message u,
      wu_provider = provider_to_wire (mu_provider u), wu_resolved_revision = mu_resolved_revision u\<rparr>"

record ModelStatusResponse =
  msr_model_name :: string
  msr_status :: ModelStatus
  msr_provider :: ModelProvider

definition response_from_update :: "WireUpdate \<Rightarrow> ModelStatusResponse" where
  "response_from_update u =
     \<lparr>msr_model_name = wu_model_name u,
      msr_status = (case status_try_from (wu_status u) of Some s \<Rightarrow> s | None \<Rightarrow> ERROR),
      msr_provider = (case provider_try_from (wu_provider u) of Some p \<Rightarrow> p | None \<Rightarrow> HuggingFace)\<rparr>"

definition update_from_response :: "ModelStatusResponse \<Rightarrow> WireUpdate" where
  "update_from_response r =
     \<lparr>wu_model_name = msr_model_name r, wu_status = status_to_wire (msr_status r), wu_message = None,
      wu_provider = provider_to_wire (msr_provider r), wu_resolved_revision = None\<rparr>"

subsection \<open>Requests\<close>

record ModelDownloadRequest =
  md_model_name :: string
  md_provider :: int
  md_ignore_weights :: bool
  md_revision :: "string option"

record ModelFilesRequest =
  mf_model_name :: string
  mf_provider :: int
  mf_chunk_size :: nat
  mf_ignore_weights :: bool
  mf_file_selector :: "string list option"
  mf_revision :: "string option"

record DeleteModelRequest =
  dr_model_name :: string
  dr_provider :: int

subsection \<open>The service\<close>

datatype resolve_result = Resolved "string option" | ResolveFailed string | ResolveTimedOut

text \<open>
  \<open>sv_resolve\<close> is \<^verbatim>\<open>resolve_revision\<close> of the provider under the timeout; \<open>sv_expected_path\<close> is
  \<^verbatim>\<open>resolve_model_path\<close> of the provider's cache; \<open>sv_open\<close> and \<open>sv_reads\<close> are what the
  streaming task finds when it opens and reads a file.
\<close>

record ServiceEnv = ServerEnv +
  sv_tenant_isolation :: bool
  sv_resolve :: "ModelProvider \<Rightarrow> string \<Rightarrow> string option \<Rightarrow> string option \<Rightarrow> resolve_result"
  sv_expected_path :: "ModelProvider \<Rightarrow> string \<Rightarrow> string \<Rightarrow> string option \<Rightarrow> volume \<Rightarrow> string + string"
  sv_open :: "string \<Rightarrow> string option"
  sv_reads :: "string \<Rightarrow> nat \<Rightarrow> nat option"

abbreviation server :: "ServiceEnv \<Rightarrow> ServerEnv" where
  "server S \<equiv> ServerEnv.truncate S"

definition supports_revisions :: "ModelProvider \<Rightarrow> bool" where
  "supports_revisions p = (p = HuggingFace)"

fun provider_name :: "ModelProvider \<Rightarrow> string" where
  "provider_name HuggingFace = ''Hugging Face''"
| "provider_name Ngc = ''NGC''"
| "provider_name Gcs = ''GCS''"
| "provider_name S3 = ''S3''"

definition requested_revision :: "string option \<Rightarrow> grpc_status + string option" where
  "requested_revision revision =
     (case revision of
        None \<Rightarrow> Inr None
      | Some r \<Rightarrow> sum_bind (map_err InvalidArgument (validate_revision r)) (\<lambda>_. Inr (Some r)))"

definition requested_provider :: "int \<Rightarrow> grpc_status + ModelProvider" where
  "requested_provider v = ok_or (InvalidArgument ''Invalid provider value'') (provider_try_from v)"

definition cached_snapshot ::
  "ServiceEnv \<Rightarrow> ModelProvider \<Rightarrow> string \<Rightarrow> string \<Rightarrow> string option \<Rightarrow> volume
   \<Rightarrow> grpc_status + string \<times> string option" where
  "cached_snapshot S provider model_name dir revision fs =
     sum_bind (map_err (\<lambda>e. NotFoundStatus (''Model not found: '' @ e))
         (se_model_path S provider model_name dir revision fs)) (\<lambda>model_path.
       let commit_hash = (if provider = HuggingFace then file_name model_path else None) in
       if provider = HuggingFace \<and> commit_hash = None
       then Inl (InternalStatus ''Resolved Hugging Face model path did not contain a revision'')
       else sum_bind (map_err (\<lambda>e. InternalStatus (''Failed to resolve expected cache layout: '' @ e))
                (sv_expected_path S provider dir model_name commit_hash fs)) (\<lambda>expected.
              if \<not> path_eq model_path expected
              then Inl (InternalStatus ''Resolved model path does not match expected cache layout'')
              else Inr (model_path, commit_hash)))"

definition resolve_target_revision ::
  "ServiceEnv \<Rightarrow> string \<Rightarrow> ModelProvider \<Rightarrow> string option \<Rightarrow> string option \<Rightarrow> volume
   \<Rightarrow> grpc_status + string option" where
  "resolve_target_revision S model_name provider dir requested fs =
     (if requested \<noteq> None \<and> \<not> supports_revisions provider
      then Inl (InvalidArgument (''Provider '' @ provider_name provider @ '' does not support pinned revisions''))
      else
        let failed = (\<lambda>e. NotFoundStatus (''Failed to resolve revision for model '' @ model_name @ '': '' @ e)) in
        case sv_resolve S provider model_name dir requested of
          Resolved resolved \<Rightarrow> Inr resolved
        | other \<Rightarrow>
            let e = (case other of ResolveFailed e \<Rightarrow> e | _ \<Rightarrow> ''timed out after 30s'') in
            if requested \<noteq> None then Inl (failed e)
            else (case se_model_path S provider model_name (case dir of Some d \<Rightarrow> d | None \<Rightarrow> []) None fs of
                    Inl _ \<Rightarrow> Inl (failed e)
                  | Inr path \<Rightarrow>
                      (case file_name path of Some cached \<Rightarrow> Inr (Some cached) | None \<Rightarrow> Inl (failed e))))"

subsection \<open>Handlers of the model service\<close>

text \<open>The checks all handlers start with: scope, provider and canonical name\<close>

definition admit ::
  "ServiceEnv \<Rightarrow> 'b auth_request \<Rightarrow> int \<Rightarrow> string \<Rightarrow> grpc_status + Tenant option \<times> ModelProvider \<times> string" where
  "admit S req provider_value raw_name =
     sum_bind (map_err ScopeStatus (scope (sv_tenant_isolation S) req)) (\<lambda>tenant.
     sum_bind (requested_provider provider_value) (\<lambda>provider.
     sum_bind (map_err InvalidArgument (canonical_model_name raw_name provider)) (\<lambda>model_name.
       Inr (tenant, provider, model_name))))"

definition download_target ::
  "ServiceEnv \<Rightarrow> ModelDownloadRequest auth_request \<Rightarrow> volume \<Rightarrow> grpc_status + DownloadTarget" where
  "download_target S req fs =
     (let request = rq_body req in
      sum_bind (admit S req (md_provider request) (md_model_name request)) (\<lambda>(tenant, provider, model_name).
      sum_bind (requested_revision (md_revision request)) (\<lambda>requested.
      sum_bind (resolve_target_revision S model_name provider (cache_dir_for (server S) tenant) requested fs) (\<lambda>revision.
        Inr \<lparr>dt_tenant = tenant, dt_model_name = model_name, dt_provider = provider, dt_revision = revision,
             dt_ignore_weights = md_ignore_weights request\<rparr>))))"

definition final_message :: "ModelStatus \<Rightarrow> string" where
  "final_message s =
     (case s of DOWNLOADED \<Rightarrow> ''Model download completed successfully'' | ERROR \<Rightarrow> ''Model download failed''
      | DOWNLOADING \<Rightarrow> ''Download still in progress'')"

text \<open>
  The handler answers with the stream of channel \<open>ch\<close>; the task it spawns runs the tracker and then
  sends the final update.
\<close>

definition ensure_stream_task ::
  "ServiceEnv \<Rightarrow> Oracle \<Rightarrow> nat \<Rightarrow> DownloadTarget \<Rightarrow> nat \<Rightarrow> nat \<Rightarrow> nat \<Rightarrow> TrackerState \<Rightarrow> ModelStatus option \<times> TrackerState" where
  "ensure_stream_task S orc polls t ch u n s =
     (case ensure_model_downloaded (server S) orc polls t ch u n s of
        (None, s') \<Rightarrow> (None, s')
      | (Some final, s') \<Rightarrow>
          (Some final,
           send ch \<lparr>mu_model_name = dt_model_name t, mu_status = final, mu_message = Some (final_message final),
             mu_provider = dt_provider t, mu_resolved_revision = dt_revision t\<rparr> s'))"

definition ensure_model_downloaded_rpc ::
  "ServiceEnv \<Rightarrow> Oracle \<Rightarrow> nat \<Rightarrow> ModelDownloadRequest auth_request \<Rightarrow> nat \<Rightarrow> nat \<Rightarrow> nat \<Rightarrow> TrackerState
   \<Rightarrow> grpc_status + ModelStatus option \<times> TrackerState" where
  "ensure_model_downloaded_rpc S orc polls req ch u n s =
     sum_bind (download_target S req (ts_volume s)) (\<lambda>t. Inr (ensure_stream_task S orc polls t ch u n s))"

definition DEFAULT_TRANSFER_CHUNK_SIZE :: nat where "DEFAULT_TRANSFER_CHUNK_SIZE = 32768"

text \<open>What listing and streaming share: the snapshot, its commit and the selected files\<close>

definition requested_files ::
  "ServiceEnv \<Rightarrow> ModelFilesRequest auth_request \<Rightarrow> volume
   \<Rightarrow> grpc_status + string \<times> string \<times> string option \<times> (string \<times> nat) list" where
  "requested_files S req fs =
     (let request = rq_body req in
      sum_bind (admit S req (mf_provider request) (mf_model_name request)) (\<lambda>(tenant, provider, model_name).
      sum_bind (requested_revision (mf_revision request)) (\<lambda>revision.
      sum_bind (ok_or (InternalStatus ''Server cache directory not configured'') (cache_dir_for (server S) tenant)) (\<lambda>dir.
      sum_bind (cached_snapshot S provider model_name dir revision fs) (\<lambda>(model_path, commit_hash).
        let files = collect_model_files [] (mf_file_selector request) (mf_ignore_weights request) (se_read_dir S fs model_path) in
        sum_bind (map_err NotFoundStatus (ensure_selected_files_exist files (mf_file_selector request))) (\<lambda>_.
          Inr (model_name, model_path, commit_hash, files)))))))"

definition stream_model_files_rpc ::
  "ServiceEnv \<Rightarrow> ModelFilesRequest auth_request \<Rightarrow> volume \<Rightarrow> grpc_status + (stream_error + FileChunk) list" where
  "stream_model_files_rpc S req fs =
     (let request = rq_body req;
          chunk_size = (if mf_chunk_size request = 0 then DEFAULT_TRANSFER_CHUNK_SIZE else mf_chunk_size request) in
      sum_bind (requested_files S req fs) (\<lambda>(_, model_path, commit_hash, files).
        if files = [] then Inl (NotFoundStatus ''No files found in model directory'')
        else Inr (stream_files chunk_size (\<lambda>p. sv_open S (path_join model_path p))
                    (\<lambda>p. sv_reads S (path_join model_path p)) commit_hash files)))"

record ModelFileList =
  ml_model_name :: string
  ml_files :: "(string \<times> nat) list"
  ml_total_size :: nat

text \<open>The sum of the sizes wraps at the width of the integer.\<close>

definition list_model_files_rpc ::
  "ServiceEnv \<Rightarrow> ModelFilesRequest auth_request \<Rightarrow> volume \<Rightarrow> grpc_status + ModelFileList" where
  "list_model_files_rpc S req fs =
     sum_bind (requested_files S req fs) (\<lambda>(model_name, _, _, files).
       Inr \<lparr>ml_model_name = model_name, ml_files = files,
            ml_total_size = sum_list (map snd files) mod 2 ^ 64\<rparr>)"

definition delete_model_rpc ::
  "ServiceEnv \<Rightarrow> Oracle \<Rightarrow> nat \<Rightarrow> DeleteModelRequest auth_request \<Rightarrow> TrackerState
   \<Rightarrow> grpc_status + (nat \<times> RpcOutcome) \<times> TrackerState" where
  "delete_model_rpc S orc n req s =
     (let request = rq_body req in
      sum_bind (admit S req (dr_provider request) (dr_model_name request)) (\<lambda>(tenant, _, model_name).
        case delete_model_entries orc n tenant model_name s of
          (outcome, s') \<Rightarrow>
            Inr ((de_removed outcome, if de_degraded outcome then OutcomeBackendError else OutcomeOk), s')))"

subsection \<open>The API and health services\<close>

record ApiResponse =
  ar_success :: bool
  ar_data :: "string option"
  ar_error :: "string option"

definition send_request :: "string \<Rightarrow> ApiResponse \<times> RpcOutcome" where
  "send_request action =
     (if action = ''ping''
      then (\<lparr>ar_success = True, ar_data = Some ([CHR 0x7B, CHR 0x22] @ ''message'' @ [CHR 0x22] @ '':'' @ [CHR 0x22] @ ''pong'' @ [CHR 0x22, CHR 0x7D]),
             ar_error = None\<rparr>, OutcomeOk)
      else (\<lparr>ar_success = False, ar_data = None, ar_error = Some (''Unknown action: '' @ action)\<rparr>, OutcomeInvalidArgument))"

record HealthResponse =
  hs_version :: string
  hs_status :: string
  hs_uptime :: nat

text \<open>The start time is set by the first call; a clock that went back counts as no time.\<close>

definition get_health :: "string \<Rightarrow> int \<Rightarrow> int option \<Rightarrow> HealthResponse \<times> int option" where
  "get_health version now start =
     (let s = (case start of Some t \<Rightarrow> t | None \<Rightarrow> now)
      in (\<lparr>hs_version = version, hs_status = ''ok'', hs_uptime = nat (now - s)\<rparr>, Some s))"


subsection \<open>What a request changes in the registry\<close>

definition only_key :: "string \<Rightarrow> TrackerState \<Rightarrow> TrackerState \<Rightarrow> bool" where
  "only_key k s s' \<longleftrightarrow>
     (\<forall>k'. k' \<noteq> k \<longrightarrow> mem_get_model_record k' (ts_registry s') = mem_get_model_record k' (ts_registry s))"

lemma only_key_refl [simp]: "only_key k s s"
  by (simp add: only_key_def)

lemma only_key_trans: "only_key k s s1 \<Longrightarrow> only_key k s1 s2 \<Longrightarrow> only_key k s s2"
  by (simp add: only_key_def)

lemma only_key_same: "ts_registry s' = ts_registry s \<Longrightarrow> only_key k s s'"
  by (simp add: only_key_def)

lemma mem_ops_only_key:
  assumes "k' \<noteq> k"
  shows "mem_get_model_record k' (snd (mem_try_claim_for_download add now k p c d reg)) = mem_get_model_record k' reg"
    and "mem_get_model_record k' (snd (mem_try_reset_error_for_retry add now k p c d reg)) = mem_get_model_record k' reg"
    and "mem_get_model_record k' (mem_touch_model now k reg) = mem_get_model_record k' reg"
    and "mem_get_model_record k' (mem_delete_model k reg) = mem_get_model_record k' reg"
  using assms
  by (auto simp: mem_get_model_record_def mem_op_defs Let_def hm_simps split: option.splits)

lemma reg_call_only_key:
  assumes "or_env orc = (\<lambda>_ s. s)"
    and "\<And>now reg k'. k' \<noteq> k \<Longrightarrow> mem_get_model_record k' (snd (f now reg)) = mem_get_model_record k' reg"
  shows "only_key k s (snd (reg_call orc n f s))"
  using assms by (auto simp: reg_call_def only_key_def Let_def split: prod.splits) (metis snd_conv)

lemma steps_only_key:
  assumes "or_env orc = (\<lambda>_ s. s)"
  shows "only_key (target_entry_key t) s (snd (try_claim E orc n t c s))"
    and "only_key k s (touch_and_log orc n k s)"
    and "only_key k s (snd (delete_status orc n k s))"
    and "only_key (target_entry_key t) s (snd (recorded_files_present E orc n t s))"
    and "only_key (target_entry_key t) s (snd (clear_stale_record E orc n t s))"
proof -
  show claim: "only_key (target_entry_key t) s (snd (try_claim E orc n t c s))"
    unfolding try_claim_def by (rule reg_call_only_key [OF assms]) (simp add: mem_ops_only_key)
  show touch: "only_key k s (touch_and_log orc n k s)" for k
    unfolding touch_and_log_def by (rule reg_call_only_key [OF assms]) (simp add: mem_ops_only_key)
  have del: "only_key k s (snd (delete_status orc n k s))" for k s
    using reg_call_only_key [OF assms, of k "\<lambda>t reg. ((), mem_delete_model k reg)" s n]
    by (auto simp: delete_status_def mem_ops_only_key only_key_def split: prod.splits)
  then show "only_key k s (snd (delete_status orc n k s))" .
  show "only_key (target_entry_key t) s (snd (recorded_files_present E orc n t s))"
    using touch by (simp add: recorded_files_present_def)
  show "only_key (target_entry_key t) s (snd (clear_stale_record E orc n t s))"
    using del [of "target_entry_key t" "s\<lparr>ts_volume := fs\<rparr>" for fs]
    by (simp add: clear_stale_record_def only_key_def)
qed


lemma claim_loop_only_key:
  assumes "or_env orc = (\<lambda>_ s. s)" and "claim_loop E orc left t ch c n s = (r, s')"
  shows "only_key (target_entry_key t) s s'"
  using assms(2)
proof (induction left arbitrary: n s)
  case (0 n s)
  note step = steps_only_key [OF assms(1)]
  obtain r1 s1 where c: "try_claim E orc n t c s = (r1, s1)" by fastforce
  obtain b s2 where p: "recorded_files_present E orc (n + 1) t s1 = (b, s2)" by fastforce
  have "only_key (target_entry_key t) s s1" "only_key (target_entry_key t) s1 s2"
    using step(1) [of t s E n c] step(4) [of t s1 E "n + 1"] c p by simp_all
  then show ?case
    using 0 c p by (subst (asm) claim_loop.simps)
      (auto simp: report_missing_files_def send_def only_key_def split: option.splits ClaimOutcome.splits if_splits bool.splits)
next
  case (Suc left n s)
  note step = steps_only_key [OF assms(1)]
  obtain r1 s1 where c: "try_claim E orc n t c s = (r1, s1)" by fastforce
  obtain b s2 where p: "recorded_files_present E orc (n + 1) t s1 = (b, s2)" by fastforce
  obtain d s3 where q: "clear_stale_record E orc (n + 1) t s2 = (d, s3)" by fastforce
  have steps: "only_key (target_entry_key t) s s1" "only_key (target_entry_key t) s1 s2" "only_key (target_entry_key t) s2 s3"
    using step(1) [of t s E n c] step(4) [of t s1 E "n + 1"] step(5) [of t s2 E "n + 1"] c p q by simp_all
  show ?case
  proof (cases "r1 = Some (AlreadyExists DOWNLOADED) \<and> \<not> b")
    case True
    then have "claim_loop E orc left t ch c (n + 2) s3 = (r, s')"
      using Suc.prems c p q by (subst (asm) claim_loop.simps) simp
    from Suc.IH [OF this] steps show ?thesis by (metis only_key_trans)
  next
    case False
    then show ?thesis
      using Suc.prems c p steps by (subst (asm) claim_loop.simps)
        (auto simp: send_def only_key_def split: option.splits ClaimOutcome.splits if_splits bool.splits)
  qed
qed

lemma poll_loop_only_key:
  assumes "or_env orc = (\<lambda>_ s. s)" and "poll_loop E orc polls t ch u n s = (r, s')"
  shows "only_key (target_entry_key t) s s'"
  using assms(2)
proof (induction polls arbitrary: u n s)
  case (Suc polls)
  note step = steps_only_key [OF assms(1)]
  obtain r1 s1 where c: "try_claim E orc n t (se_uuid E u) s = (r1, s1)" by fastforce
  obtain b s2 where p: "recorded_files_present E orc (n + 1) t s1 = (b, s2)" by fastforce
  obtain d s3 where q: "clear_stale_record E orc (n + 1) t s2 = (d, s3)" by fastforce
  have s1: "only_key (target_entry_key t) s s1" and s2: "only_key (target_entry_key t) s s2"
    and s3: "only_key (target_entry_key t) s s3"
    using step(1) [of t s E n "se_uuid E u"] step(4) [of t s1 E "n + 1"] step(5) [of t s2 E "n + 1"] c p q
    by (simp_all add: only_key_def)
  have onward: "only_key (target_entry_key t) s s'"
    if "poll_loop E orc polls t ch u' n' s'' = (r, s')" "only_key (target_entry_key t) s s''" for u' n' s''
    using Suc.IH [OF that(1)] that(2) by (metis only_key_trans)
  have sp: "only_key (target_entry_key t) s (spawn_download_task t x y s1)" for x y
    using s1 by (simp add: spawn_download_task_def only_key_def)
  show ?case
    using Suc.prems c p q s1 s2 s3 onward [OF _ sp] onward [OF _ s1] onward [OF _ s3]
    by (auto simp: report_missing_files_def send_def only_key_def split: option.splits ClaimOutcome.splits if_splits bool.splits)
qed simp

lemma ensure_only_key:
  assumes "or_env orc = (\<lambda>_ s. s)" and "ensure_model_downloaded E orc polls t ch u n s = (r, s')"
  shows "only_key (target_entry_key t) s s'"
proof -
  let ?k = "target_entry_key t"
  obtain r1 s1 where c: "claim_loop E orc (MAX_CLAIM_ATTEMPTS - 1) t ch (se_uuid E u) n s = (r1, s1)" by fastforce
  have s1: "only_key ?k s s1" by (rule claim_loop_only_key [OF assms(1) c])
  obtain w s2 where q: "reg_call orc (n + 4) (\<lambda>now. mem_try_reset_error_for_retry (se_add E) now ?k (dt_provider t)
      (se_uuid E u) DOWNLOAD_LEASE_DURATION) s1 = (w, s2)" by fastforce
  have "only_key ?k s1 s2"
    using reg_call_only_key [OF assms(1), of ?k "\<lambda>now. mem_try_reset_error_for_retry (se_add E) now ?k (dt_provider t)
      (se_uuid E u) DOWNLOAD_LEASE_DURATION" s1 "n + 4"] mem_ops_only_key(2) q by auto
  then have s2: "only_key ?k s s2" using s1 only_key_trans by blast
  have onward: "only_key ?k s s'" if "poll_loop E orc polls t ch u' n' s'' = (r, s')" "ts_registry s'' = ts_registry s3"
      "only_key ?k s s3" for u' n' s'' s3
    using poll_loop_only_key [OF assms(1) that(1)] that(2,3) by (simp add: only_key_def)
  note io = send_def add_waiting_channel_def spawn_download_task_def
  show ?thesis
  proof (cases r1)
    case (Inl e)
    then show ?thesis using assms(2) c s1 by (simp add: ensure_model_downloaded_def)
  next
    case (Inr so)
    obtain st own where so: "so = (st, own)" by fastforce
    show ?thesis
    proof (cases "st = ERROR")
      case True
      then show ?thesis
        using assms(2) c Inr so q s2 onward [OF _ _ s2]
        by (cases w) (auto simp: ensure_model_downloaded_def Let_def io only_key_def split: if_splits)
    next
      case False
      then show ?thesis
        using assms(2) c Inr so s1 onward [OF _ _ s1]
        by (auto simp: ensure_model_downloaded_def Let_def io only_key_def split: if_splits)
    qed
  qed
qed


lemma admit_Inr:
  "admit S req v raw = Inr (tenant, provider, name) \<longleftrightarrow>
     scope (sv_tenant_isolation S) req = Inr tenant \<and> provider_try_from v = Some provider
     \<and> canonical_model_name raw provider = Inr name"
  by (auto simp: admit_def sum_bind_Inr_iff map_err_Inr_iff requested_provider_def ok_or_Inr_iff)

lemma scope_isolated:
  assumes "scope True req = Inr tenant" and "rq_caller req = Some caller"
  shows "tenant = Some (Tenant (ci_namespace caller))" and "is_dns1123_label (ci_namespace caller)"
  using assms by (auto simp: scope_def ok_or_Inr_iff tenant_new_def split: if_splits)

lemma delete_entries_keeps:
  assumes "or_env orc = (\<lambda>_ s. s)" and "\<not> belongs_to (parse_key k) tenant name"
  shows "mem_get_model_record k (ts_registry (snd (delete_entries orc n tenant name rs c s)))
    = mem_get_model_record k (ts_registry s)"
proof (induction rs arbitrary: n c s)
  case (Cons r rs)
  have "mem_get_model_record k (ts_registry (snd (delete_status orc n (mr_model_name r) s))) = mem_get_model_record k (ts_registry s)"
    if "belongs_to (parse_key (mr_model_name r)) tenant name"
    using steps_only_key(3) [OF assms(1), of "mr_model_name r" s n] assms(2) that
    by (cases "k = mr_model_name r") (simp_all add: only_key_def)
  then show ?case using Cons by simp
qed simp

text \<open>
  C4. Tenants do not reach each other's entries. With isolation on, neither a download request nor
  a delete request of a caller changes the record of any entry outside the caller's namespace,
  whatever model name and revision it asks for, whatever the provider answers and whichever
  registry calls fail.
\<close>

theorem requests_stay_in_tenant:
  assumes "sv_tenant_isolation S" and "or_env orc = (\<lambda>_ s. s)"
    and "rq_caller req = Some caller" and "rq_caller req' = Some caller"
    and "ek_tenant (parse_key k) \<noteq> Some (Tenant (ci_namespace caller))"
  shows "(ensure_model_downloaded_rpc S orc polls req ch u n s = Inr (st, s') \<longrightarrow>
      mem_get_model_record k (ts_registry s') = mem_get_model_record k (ts_registry s))
    \<and> (delete_model_rpc S orc n req' s = Inr (out, s') \<longrightarrow>
      mem_get_model_record k (ts_registry s') = mem_get_model_record k (ts_registry s))"
proof (intro conjI impI)
  assume "ensure_model_downloaded_rpc S orc polls req ch u n s = Inr (st, s')"
  then obtain t where t: "download_target S req (ts_volume s) = Inr t" "ensure_stream_task S orc polls t ch u n s = (st, s')"
    by (auto simp: ensure_model_downloaded_rpc_def sum_bind_Inr_iff)
  then have sc: "scope True req = Inr (dt_tenant t)"
    using assms(1) by (auto simp: download_target_def Let_def sum_bind_Inr_iff admit_Inr)
  note tn = scope_isolated [OF sc assms(3)]
  then have "ek_tenant (parse_key (target_entry_key t)) = Some (Tenant (ci_namespace caller))"
    using tenant_of_key [of "in_tenant (entry_key_new (dt_model_name t) (dt_revision t) (dt_ignore_weights t)) (dt_tenant t)"
      "Tenant (ci_namespace caller)"]
    by (simp add: target_entry_key_def in_tenant_def)
  then have "k \<noteq> target_entry_key t" using assms(5) by auto
  moreover obtain r s1 where "ensure_model_downloaded (server S) orc polls t ch u n s = (r, s1)"
    "ts_registry s' = ts_registry s1"
    using t(2) by (auto simp: ensure_stream_task_def send_def split: prod.splits option.splits)
  ultimately show "mem_get_model_record k (ts_registry s') = mem_get_model_record k (ts_registry s)"
    using ensure_only_key [OF assms(2)] by (auto simp: only_key_def)
next
  assume "delete_model_rpc S orc n req' s = Inr (out, s')"
  then obtain tenant provider name where ad: "admit S req' (dr_provider (rq_body req')) (dr_model_name (rq_body req')) = Inr (tenant, provider, name)"
    and out: "(case delete_model_entries orc n tenant name s of (outcome, s') \<Rightarrow>
      Inr ((de_removed outcome, if de_degraded outcome then OutcomeBackendError else OutcomeOk), s')) = (Inr (out, s') :: grpc_status + _)"
    unfolding delete_model_rpc_def Let_def sum_bind_Inr_iff by auto
  obtain o' s'' where "delete_model_entries orc n tenant name s = (o', s'')" by fastforce
  with out have d: "delete_model_entries orc n tenant name s = (o', s')" by simp
  have sc: "scope True req' = Inr tenant" using ad assms(1) by (simp add: admit_Inr)
  note tn = scope_isolated [OF sc assms(4)]
  let ?fb = "key_to_string (in_tenant (entry_key_new name None False) tenant)"
  have "ek_tenant (parse_key ?fb) = Some (Tenant (ci_namespace caller))"
    using tenant_of_key [of "in_tenant (entry_key_new name None False) tenant" "Tenant (ci_namespace caller)"] tn
    by (simp add: in_tenant_def)
  then have "k \<noteq> ?fb" using assms(5) by auto
  moreover have "\<not> belongs_to (parse_key k) tenant name" using assms(5) tn by (simp add: belongs_to_def)
  note keeps = delete_entries_keeps [OF assms(2) this]
  ultimately show "mem_get_model_record k (ts_registry s') = mem_get_model_record k (ts_registry s)"
    using d steps_only_key(3) [OF assms(2), of ?fb s "n + 1"]
      keeps [of "n + 1" "mem_get_models_by_last_used None (ts_registry s)" 0 s]
    by (cases "or_fault orc n"; cases "delete_entries orc (Suc n) tenant name (mem_get_models_by_last_used None (ts_registry s)) 0 s")
       (simp_all add: delete_model_entries_def reg_call_ok reg_call_fault only_key_def assms(2))
qed


subsection \<open>Serving a pinned revision\<close>

lemma file_name_normal:
  "cs \<noteq> [] \<Longrightarrow> path_components p = xs @ map (Pair 3) cs \<Longrightarrow> file_name p = Some (last cs)"
  by (cases cs rule: rev_cases) (simp_all add: file_name_def)

lemma valid_revision_join:
  assumes "root \<noteq> []" and "validate_revision c = Inr ()"
  shows "path_components (path_join root c) = path_components root @ map (Pair 3) (str_split (CHR ''/'') c)"
proof -
  have ok: "list_all normal (str_split (CHR ''/'') c)"
    using validate_revision_Inr(1) [OF assms(2)] component_kind by (auto simp: list_all_iff normal_def)
  then have "[] \<notin> set (str_split (CHR ''/'') c)" by (auto simp: list_all_iff normal_def)
  then have "\<not> starts_with ''/'' c" using absolute_first by blast
  from join_relative [OF assms(1) this] show ?thesis by (simp add: normal_comps [OF ok])
qed

text \<open>
  C25. Files of a pinned revision are files of that revision. When a request that pins a revision of
  a Hugging Face model is served, whether by listing or by streaming, the snapshot lies in the
  caller's partition, it is the directory of the commit the revision names there, and that
  commit is the one reported with the stream. \<open>view\<close> shows the repositories of a volume.
\<close>

theorem pinned_files_are_of_that_commit:
  assumes "requested_files S req fs = Inr (name, path, commit, files)"
    and "mf_provider (rq_body req) = 0" and "mf_revision (rq_body req) = Some rv"
    and "\<And>n d r fs. se_model_path S HuggingFace n d r fs = hf_get_model_path_revision io offline hub (view fs) d n r"
    and "\<And>n d r fs. sv_expected_path S HuggingFace d n r fs = resolve_model_path_hf io (view fs) d n r"
  shows "\<exists>tenant dir r. scope (sv_tenant_isolation S) req = Inr tenant \<and> cache_dir_for (server S) tenant = Some dir
    \<and> view fs (repo_root dir name) = Some r \<and> snap_is_dir (Some r) (commit_named r rv)
    \<and> commit = Some (commit_named r rv) \<and> path = path_join (snapshots_dir dir name) (commit_named r rv)"
proof -
  obtain tenant dir where ad: "scope (sv_tenant_isolation S) req = Inr tenant" "cache_dir_for (server S) tenant = Some dir"
    and cs: "cached_snapshot S HuggingFace name dir (Some rv) fs = Inr (path, commit)"
    using assms(1-3)
    by (auto simp: requested_files_def Let_def sum_bind_Inr_iff admit_Inr requested_revision_def ok_or_Inr_iff
        provider_try_from_def)
  from cs have mp: "hf_get_model_path_revision io offline hub (view fs) dir name (Some rv) = Inr path"
    and fn: "commit = file_name path" and some: "commit \<noteq> None"
    and ex: "\<exists>e. resolve_model_path_hf io (view fs) dir name commit = Inr e \<and> path_eq path e"
    by (auto simp: cached_snapshot_def sum_bind_Inr_iff map_err_Inr_iff assms(4,5) Let_def split: if_splits)
  then obtain c where c: "commit = Some c" by auto
  obtain r where r: "view fs (repo_root dir name) = Some r" "snap_is_dir (Some r) (commit_named r rv)"
    "path = path_join (snapshots_dir dir name) (commit_named r rv)" "validate_revision (commit_named r rv) = Inr ()"
    using hf_path_of_revision [OF mp] by blast
  let ?k = "commit_named r rv" and ?d = "snapshots_dir dir name"
  have d: "?d \<noteq> []" by (simp add: snapshots_dir_def path_join_def)
  have pk: "path_components path = path_components ?d @ map (Pair 3) (str_split (CHR ''/'') ?k)"
    using valid_revision_join [OF d r(4)] r(3) by simp
  then have "c = last (str_split (CHR ''/'') ?k)" using fn c file_name_normal [OF str_split_nonempty pk] by simp
  then have free: "CHR ''/'' \<notin> set c" using split_no_sep_mem [OF last_in_set [OF str_split_nonempty]] by metis
  from ex c have vc: "validate_revision c = Inr ()" and eq: "path_components path = path_components (path_join ?d c)"
    by (auto simp: resolve_model_path_hf_def sum_bind_Inr_iff path_eq_def)
  have "map (Pair (3::nat)) (str_split (CHR ''/'') ?k) = map (Pair 3) (str_split (CHR ''/'') c)"
    using eq pk valid_revision_join [OF d vc] by simp
  then have "str_split (CHR ''/'') ?k = str_split (CHR ''/'') c" by (simp add: map_eq_conv inj_map_eq_map inj_def)
  then have "?k = c" by (metis join_split)
  then show ?thesis using ad r c by auto
qed


text \<open>
  A download of a pinned revision is a download of that revision or nothing. A request that pins
  a revision becomes a download target only when the revision is well formed, the provider has
  revisions, and resolving exactly that revision succeeded; the target carries what it resolved to.
  In every other case the request fails before anything is claimed.
\<close>

theorem pinned_download_is_resolved:
  assumes "md_revision (rq_body req) = Some rv"
  shows "download_target S req fs = Inr t \<longleftrightarrow>
    (\<exists>tenant name. admit S req (md_provider (rq_body req)) (md_model_name (rq_body req)) = Inr (tenant, HuggingFace, name)
       \<and> validate_revision rv = Inr ()
       \<and> (\<exists>commit. sv_resolve S HuggingFace name (cache_dir_for (server S) tenant) (Some rv) = Resolved commit
           \<and> t = \<lparr>dt_tenant = tenant, dt_model_name = name, dt_provider = HuggingFace, dt_revision = commit,
                  dt_ignore_weights = md_ignore_weights (rq_body req)\<rparr>))"
proof -
  have "resolve_target_revision S name p dir (Some rv) fs = Inr c \<longleftrightarrow>
      p = HuggingFace \<and> sv_resolve S HuggingFace name dir (Some rv) = Resolved c" for name p dir c
    by (auto simp: resolve_target_revision_def supports_revisions_def Let_def split: resolve_result.splits)
  then show ?thesis
    using assms
    by (auto simp: download_target_def Let_def sum_bind_Inr_iff requested_revision_def map_err_Inr_iff)
qed

text \<open>
  The list announces the stream. When a list of files is answered and is not empty, the stream of the
  same request is answered as well; and if the listed files can be read, a strict receiver of the
  stream gets exactly the listed files, in the listed order, with their listed sizes and the bytes on
  disk, for every chunk size and however short the reads are.
\<close>

theorem listed_files_are_streamed:
  assumes "list_model_files_rpc S req fs = Inr l" and "requested_files S req fs = Inr (name, path, commit, files)"
    and "files \<noteq> []" and "\<And>p i. sv_reads S p i \<noteq> None"
    and "\<And>p n. (p, n) \<in> set files \<Longrightarrow> n \<le> u64_max \<and> map_option length (sv_open S (path_join path p)) = Some n"
  shows "ml_files l = files \<and> (\<exists>cs. stream_model_files_rpc S req fs = Inr (map Inr cs) \<and> framed commit True cs
    \<and> receive [] cs = Some (map (\<lambda>(p, n). (p, the (sv_open S (path_join path p)))) (ml_files l)))"
proof -
  have l: "ml_files l = files" using assms(1,2) by (auto simp: list_model_files_rpc_def)
  let ?open = "\<lambda>p. sv_open S (path_join path p)" and ?reads = "\<lambda>p. sv_reads S (path_join path p)"
  have "list_all (\<lambda>(p, n). n \<le> u64_max \<and> map_option length (?open p) = Some n) files"
    using assms(5) by (auto simp: list_all_iff)
  from stream_is_complete [of files ?reads ?open, OF assms(3) _ this] show ?thesis
    using assms(2-4) l by (auto simp: stream_model_files_rpc_def Let_def)
qed

subsection \<open>Concrete requests\<close>

definition demo_service :: ServiceEnv where
  "demo_service =
     \<lparr>se_cache_root = Some ''/c'', se_sha256_hex = (\<lambda>k. Inr ''ab''), se_to_json = (\<lambda>m. Inl ''unused''),
      se_from_json = (\<lambda>_. None), se_io = (\<lambda>_. True),
      se_model_path = (\<lambda>p n d r fs. if p = HuggingFace
        then hf_get_model_path_revision (\<lambda>_. True) True demo_hub demo_hf d n r else Inl ''unused''),
      se_read_dir = (\<lambda>_ _. [(''a'', TFile 5)]), se_uuid = (\<lambda>u. ''c0''), se_add = (\<lambda>t d. Some (t + int d)),
      se_room = (\<lambda>_. True), sv_tenant_isolation = False,
      sv_resolve = (\<lambda>p n d r. Resolved (Some ''c1'')),
      sv_expected_path = (\<lambda>p d n r fs. if p = HuggingFace
        then resolve_model_path_hf (\<lambda>_. True) demo_hf d n r else Inl ''unused''),
      sv_open = (\<lambda>_. Some ''hello''), sv_reads = (\<lambda>_ _. Some 2)\<rparr>"

definition demo_files_request :: "ModelFilesRequest auth_request" where
  "demo_files_request =
     \<lparr>rq_headers = [], rq_caller = None,
      rq_body = \<lparr>mf_model_name = ''org/m'', mf_provider = 0, mf_chunk_size = 0, mf_ignore_weights = False,
        mf_file_selector = None, mf_revision = Some ''v1''\<rparr>\<rparr>"

definition demo_download_request :: "ModelDownloadRequest auth_request" where
  "demo_download_request =
     \<lparr>rq_headers = [], rq_caller = Some \<lparr>ci_namespace = ''ml'', ci_service_account = ''sa'', ci_pod_name = None, ci_pod_uid = None\<rparr>,
      rq_body = \<lparr>md_model_name = ''org/m'', md_provider = 0, md_ignore_weights = False, md_revision = Some ''v1''\<rparr>\<rparr>"

lemma demo_requested:
  "requested_files demo_service demo_files_request Map.empty
     = Inr (''org/m'', ''/c/models--org--m/snapshots/c1'', Some ''c1'', [(''a'', 5)])"
  by code_simp

theorem pinned_files_are_of_that_commit_witness:
  "\<exists>dir r. demo_hf (repo_root dir ''org/m'') = Some r \<and> Some ''c1'' = Some (commit_named r ''v1'')"
  using pinned_files_are_of_that_commit [OF demo_requested, where rv = "''v1''" and view = "\<lambda>_. demo_hf" and io = "\<lambda>_. True"
      and offline = True and hub = demo_hub]
  by (auto simp: demo_files_request_def demo_service_def)

theorem pinned_download_is_resolved_witness:
  "download_target demo_service demo_download_request Map.empty =
     Inr \<lparr>dt_tenant = None, dt_model_name = ''org/m'', dt_provider = HuggingFace, dt_revision = Some ''c1'', dt_ignore_weights = False\<rparr>"
proof -
  have "admit demo_service demo_download_request 0 ''org/m'' = Inr (None, HuggingFace, ''org/m'')" by code_simp
  moreover have "validate_revision ''v1'' = Inr ()" by code_simp
  ultimately show ?thesis
    by (subst pinned_download_is_resolved [of _ "''v1''"]) (auto simp: demo_download_request_def demo_service_def)
qed

theorem listed_files_are_streamed_witness:
  "\<exists>cs. stream_model_files_rpc demo_service demo_files_request Map.empty = Inr (map Inr cs)
     \<and> receive [] cs = Some [(''a'', ''hello'')]"
proof -
  have l: "list_model_files_rpc demo_service demo_files_request Map.empty
      = Inr \<lparr>ml_model_name = ''org/m'', ml_files = [(''a'', 5)], ml_total_size = 5\<rparr>"
    by (simp add: list_model_files_rpc_def demo_requested)
  show ?thesis
    using listed_files_are_streamed [OF l demo_requested] by (auto simp: demo_service_def u64_max_def)
qed

theorem requests_stay_in_tenant_witness:
  "\<exists>out s'. ensure_model_downloaded_rpc (demo_service\<lparr>sv_tenant_isolation := True\<rparr>) (calm (\<lambda>_. False)) 0 demo_download_request 3 0 0 run_state
      = Inr (out, s') \<and> mem_get_model_record ''m'' (ts_registry s') = mem_get_model_record ''m'' run_registry"
proof -
  let ?S = "demo_service\<lparr>sv_tenant_isolation := True\<rparr>"
  have "isl (ensure_model_downloaded_rpc ?S (calm (\<lambda>_. False)) 0 demo_download_request 3 0 0 run_state) = False"
    by code_simp
  then obtain out s' where e: "ensure_model_downloaded_rpc ?S (calm (\<lambda>_. False)) 0 demo_download_request 3 0 0 run_state = Inr (out, s')"
    by (cases "ensure_model_downloaded_rpc ?S (calm (\<lambda>_. False)) 0 demo_download_request 3 0 0 run_state") auto
  have "ek_tenant (parse_key ''m'') = None" by code_simp
  then show ?thesis
    using requests_stay_in_tenant [of ?S "calm (\<lambda>_. False)" demo_download_request _
        "\<lparr>rq_headers = [], rq_caller = rq_caller demo_download_request, rq_body = undefined\<rparr>" "''m''"] e
    by (auto simp: demo_download_request_def run_state_def)
qed

end
