(* ===== verification/P2p_Service.thy ===== *)
theory P2p_Service
  imports P2p_Store Caller_Auth
begin

text \<open>
  The handlers of the peer-to-peer metadata service (\<^verbatim>\<open>p2p/service.rs\<close>) over the state
  manager and the in-memory backend of \<open>P2p_Store\<close>, with the namespace of the verified caller as
  the scope of every operation.

  A handler fails in band: it answers with a body that reports the failure and a tag
  (\<^verbatim>\<open>RpcOutcome\<close>) that the metrics layer reads. The source id of an identity is an argument
  because its digest may fail. A handler that asks the backend for the owner before it writes
  gives other calls a chance to run in between; \<open>between\<close> is their effect.

  Shown here: the answer of a listing is the same with the limit pushed to the backend or not;
  a caller's answers depend on its own namespace's workers and the labels of their sources only;
  writes leave the records of every worker alone that is another namespace's at the check, and may
  take over one that is registered between the check and the write; a stored load is always a
  number between zero and one.
\<close>

subsection \<open>Requests and responses\<close>

datatype RpcOutcome = OutcomeOk | OutcomeInvalidArgument | OutcomeNotFound | OutcomeBackendError
  | OutcomeUnauthenticated | OutcomeCancelled | OutcomeError

type_synonym 'a tagged_response = "auth_status + ('a \<times> RpcOutcome)"

definition tagged :: "'a \<Rightarrow> RpcOutcome \<Rightarrow> 'a tagged_response" where
  "tagged body outcome = Inr (body, outcome)"

record PublishMetadataRequest =
  pq_identity :: "SourceIdentity option"
  pq_worker :: "WorkerMetadata option"
  pq_worker_id :: string

record PublishMetadataResponse =
  pr_success :: bool
  pr_message :: string
  pr_mx_source_id :: string
  pr_worker_id :: string

record ListSourcesRequest =
  lq_identity :: "SourceIdentity option"
  lq_status_filter :: "int option"
  lq_limit :: "u32 option"
  lq_model_name_filter :: "string option"
  lq_worker_rank_filter :: "u32 option"
  lq_min_training_step :: "nat option"
  lq_min_updated_at :: "int option"

record SourceInstanceRef =
  ir_mx_source_id :: string
  ir_worker_id :: string
  ir_model_name :: string
  ir_worker_rank :: u32
  ir_accelerator :: string
  ir_updated_at :: int
  ir_training_step :: "nat option"
  ir_layout_signature :: "string option"
  ir_source_load :: "f32 option"
  ir_topology :: params

record GetMetadataRequest =
  gq_mx_source_id :: string
  gq_worker_id :: string

record GetMetadataResponse =
  gr_found :: bool
  gr_worker :: "WorkerMetadata option"
  gr_mx_source_id :: string
  gr_worker_id :: string
  gr_identity :: "SourceIdentity option"

record UpdateStatusRequest =
  uq_mx_source_id :: string
  uq_worker_id :: string
  uq_worker_rank :: u32
  uq_status :: int
  uq_source_load :: "f32 option"

record UpdateStatusResponse =
  ur_success :: bool
  ur_message :: string

text \<open>\<^verbatim>\<open>SourceStatus::try_from\<close>: the values the protocol declares.\<close>

definition source_status_try_from :: "int \<Rightarrow> int option" where
  "source_status_try_from v = (if 0 \<le> v \<and> v \<le> STATUS_STALE then Some v else None)"

text \<open>
  A single-precision float as its bits: it is finite unless its exponent is all ones.
  \<^verbatim>\<open>clamp(0.0, 1.0)\<close> sends negative numbers and minus infinity to zero, numbers above one
  and infinity to one, and keeps the rest: what lies between, negative zero (which is not less
  than zero) and every NaN (which compares with nothing).
\<close>

definition f32_is_finite :: "f32 \<Rightarrow> bool" where
  "f32_is_finite v = (unat v mod 0x80000000 < 0x7F800000)"

definition f32_clamp_unit :: "f32 \<Rightarrow> f32" where
  "f32_clamp_unit v =
     (if 0x80000000 < unat v \<and> unat v \<le> 0xFF800000 then 0
      else if 0x3F800000 < unat v \<and> unat v \<le> 0x7F800000 then 0x3F800000
      else v)"

text \<open>A load that is not finite is no reading; any other is clamped.\<close>

definition accepted_load :: "f32 option \<Rightarrow> f32 option" where
  "accepted_load load =
     (case load of Some v \<Rightarrow> if f32_is_finite v then Some (f32_clamp_unit v) else None | None \<Rightarrow> None)"

subsection \<open>Helpers of the service\<close>

definition ready_source_is_fresh :: "SourceInstanceInfo \<Rightarrow> int \<Rightarrow> nat \<Rightarrow> bool" where
  "ready_source_is_fresh info now_ms heartbeat_timeout_ms =
     (if ii_updated_at info \<le> 0 then False
      else nat (max 0 (i64_saturating_sub now_ms (ii_updated_at info))) \<le> heartbeat_timeout_ms)"

definition legacy_worker_tensor_count :: "WorkerMetadata \<Rightarrow> nat" where
  "legacy_worker_tensor_count worker = length (wm_tensors worker)"

definition worker_tensor_count :: "WorkerMetadata \<Rightarrow> nat" where
  "worker_tensor_count worker =
     (case wm_source_payload worker of
        Some (TensorSource tensors) \<Rightarrow> length tensors
      | Some (ArtifactSource _) \<Rightarrow> 0
      | None \<Rightarrow> legacy_worker_tensor_count worker)"

definition publish_failed :: "string \<Rightarrow> RpcOutcome \<Rightarrow> PublishMetadataResponse tagged_response" where
  "publish_failed message outcome =
     tagged \<lparr>pr_success = False, pr_message = message, pr_mx_source_id = [], pr_worker_id = []\<rparr> outcome"

definition metadata_absent :: "string \<Rightarrow> string \<Rightarrow> RpcOutcome \<Rightarrow> GetMetadataResponse tagged_response" where
  "metadata_absent source_id worker_id outcome =
     tagged \<lparr>gr_found = False, gr_worker = None, gr_mx_source_id = source_id, gr_worker_id = worker_id,
              gr_identity = None\<rparr> outcome"

definition update_answer :: "bool \<Rightarrow> string \<Rightarrow> RpcOutcome \<Rightarrow> UpdateStatusResponse tagged_response" where
  "update_answer success message outcome = tagged \<lparr>ur_success = success, ur_message = message\<rparr> outcome"

definition instance_ref :: "SourceInstanceInfo \<Rightarrow> SourceInstanceRef" where
  "instance_ref info =
     \<lparr>ir_mx_source_id = ii_source_id info, ir_worker_id = ii_worker_id info, ir_model_name = ii_model_name info,
       ir_worker_rank = ii_worker_rank info, ir_accelerator = ii_accelerator info, ir_updated_at = ii_updated_at info,
       ir_training_step = ii_training_step info, ir_layout_signature = ii_layout_signature info,
       ir_source_load = ii_source_load info, ir_topology = ii_topology info\<rparr>"

text \<open>The backend computes the id of the identity again, from the same identity.\<close>

definition backend_id :: "(SourceIdentity \<Rightarrow> string + string) \<Rightarrow> SourceIdentity \<Rightarrow> string" where
  "backend_id source_id_of identity = (case source_id_of identity of Inr source_id \<Rightarrow> source_id | Inl _ \<Rightarrow> [])"

subsection \<open>Handlers\<close>

definition publish_write ::
  "('c \<Rightarrow> string + p2p_store) \<Rightarrow> (SourceIdentity \<Rightarrow> string + string) \<Rightarrow> SourceIdentity \<Rightarrow> string \<Rightarrow> string
   \<Rightarrow> WorkerMetadata \<Rightarrow> string option \<Rightarrow> 'c P2pStateManager
   \<Rightarrow> PublishMetadataResponse tagged_response \<times> 'c P2pStateManager" where
  "publish_write build source_id_of identity source_id worker_id worker owner_namespace m =
     (case state_publish_metadata build (backend_id source_id_of) identity worker_id worker owner_namespace m of
        (Inr _, m') \<Rightarrow>
          (tagged \<lparr>pr_success = True,
             pr_message = ''Published metadata for ''  @ [CHR 0x27] @ si_model_name identity @ [CHR 0x27]
               @ '' (source_id='' @ source_id @ '', worker_id='' @ worker_id @ '', worker_rank=''
               @ show_nat (unat (wm_worker_rank worker)) @ '', '' @ show_nat (worker_tensor_count worker) @ '' tensors)'',
             pr_mx_source_id = source_id, pr_worker_id = worker_id\<rparr> OutcomeOk, m')
      | (Inl e, m') \<Rightarrow> (publish_failed (''Failed to publish metadata: '' @ e) OutcomeBackendError, m'))"

definition publish_metadata ::
  "bool \<Rightarrow> ('c \<Rightarrow> string + p2p_store) \<Rightarrow> (SourceIdentity \<Rightarrow> string + string)
   \<Rightarrow> ('c P2pStateManager \<Rightarrow> 'c P2pStateManager) \<Rightarrow> PublishMetadataRequest auth_request \<Rightarrow> 'c P2pStateManager
   \<Rightarrow> PublishMetadataResponse tagged_response \<times> 'c P2pStateManager" where
  "publish_metadata tenant_isolation build source_id_of between request m =
     (case scope_namespace tenant_isolation request of
        Inl status \<Rightarrow> (Inl status, m)
      | Inr owner_namespace \<Rightarrow>
     (case pq_identity (rq_body request) of
        None \<Rightarrow> (publish_failed ''identity is required'' OutcomeInvalidArgument, m)
      | Some identity \<Rightarrow>
     (case validate_identity identity of
        Inl e \<Rightarrow> (publish_failed e OutcomeInvalidArgument, m)
      | Inr _ \<Rightarrow>
     if pq_worker_id (rq_body request) = []
     then (publish_failed ''worker_id is required'' OutcomeInvalidArgument, m)
     else
     (case pq_worker (rq_body request) of
        None \<Rightarrow> (publish_failed ''worker is required'' OutcomeInvalidArgument, m)
      | Some worker \<Rightarrow>
     (case source_id_of identity of
        Inl e \<Rightarrow> (publish_failed (''Failed to compute source id: '' @ e) OutcomeError, m)
      | Inr source_id \<Rightarrow>
     (let worker_id = pq_worker_id (rq_body request) in
      if owner_namespace \<noteq> None
      then (case state_get_metadata build source_id worker_id m of
              (Inl e, m') \<Rightarrow> (publish_failed (''Failed to publish metadata: '' @ e) OutcomeBackendError, m')
            | (Inr (Some rec), m') \<Rightarrow>
                if \<not> owner_in_scope owner_namespace (mm_owner_namespace rec)
                then (publish_failed ''worker_id is registered in another namespace'' OutcomeInvalidArgument, m')
                else publish_write build source_id_of identity source_id worker_id worker owner_namespace (between m')
            | (Inr None, m') \<Rightarrow>
                publish_write build source_id_of identity source_id worker_id worker owner_namespace (between m'))
      else publish_write build source_id_of identity source_id worker_id worker owner_namespace m))))))"

definition list_sources ::
  "bool \<Rightarrow> ('c \<Rightarrow> string + p2p_store) \<Rightarrow> (SourceIdentity \<Rightarrow> string + string) \<Rightarrow> int \<Rightarrow> nat
   \<Rightarrow> ListSourcesRequest auth_request \<Rightarrow> 'c P2pStateManager
   \<Rightarrow> SourceInstanceRef list tagged_response \<times> 'c P2pStateManager" where
  "list_sources tenant_isolation build source_id_of now_ms heartbeat_timeout_secs request m =
     (case scope_namespace tenant_isolation request of
        Inl status \<Rightarrow> (Inl status, m)
      | Inr sc \<Rightarrow>
     (let req = rq_body request;
          wanted = (case lq_identity req of
                      Some i \<Rightarrow> if si_model_name i \<noteq> [] then Some (source_id_of i) else None
                    | None \<Rightarrow> None)
      in case wanted of
           Some (Inl e) \<Rightarrow> (tagged [] OutcomeError, m)
         | _ \<Rightarrow>
     (let source_id_filter = (case wanted of Some (Inr source_id) \<Rightarrow> Some source_id | _ \<Rightarrow> None);
          status_filter = Option.bind (lq_status_filter req) source_status_try_from;
          limit = map_option unat (lq_limit req);
          backend_limit = (if sc \<noteq> None then None else limit)
      in case state_list_workers_filtered build source_id_filter status_filter (lq_model_name_filter req)
                (lq_worker_rank_filter req) (lq_min_training_step req) (lq_min_updated_at req) backend_limit m of
           (Inl e, m') \<Rightarrow> (tagged [] OutcomeBackendError, m')
         | (Inr workers, m') \<Rightarrow>
             (let heartbeat_timeout_ms = u64_saturating_mul heartbeat_timeout_secs 1000;
                  workers' = (if status_filter = Some STATUS_READY
                              then filter (\<lambda>info. ready_source_is_fresh info now_ms heartbeat_timeout_ms) workers
                              else workers);
                  n = (case limit of Some v \<Rightarrow> if v > 0 then v else u64_max | None \<Rightarrow> u64_max)
              in (tagged (map instance_ref (take n (filter (\<lambda>info. owner_in_scope sc (ii_owner_namespace info)) workers')))
                    OutcomeOk, m')))))"

definition get_metadata ::
  "bool \<Rightarrow> ('c \<Rightarrow> string + p2p_store) \<Rightarrow> GetMetadataRequest auth_request \<Rightarrow> 'c P2pStateManager
   \<Rightarrow> GetMetadataResponse tagged_response \<times> 'c P2pStateManager" where
  "get_metadata tenant_isolation build request m =
     (case scope_namespace tenant_isolation request of
        Inl status \<Rightarrow> (Inl status, m)
      | Inr sc \<Rightarrow>
     (let source_id = gq_mx_source_id (rq_body request); worker_id = gq_worker_id (rq_body request) in
      if source_id = [] \<or> worker_id = [] then (metadata_absent [] [] OutcomeInvalidArgument, m)
      else
        (case state_get_metadata build source_id worker_id m of
           (Inr (Some rec), m') \<Rightarrow>
             if \<not> owner_in_scope sc (mm_owner_namespace rec)
             then (metadata_absent source_id worker_id OutcomeNotFound, m')
             else
               (let worker = (case mm_workers rec of w # _ \<Rightarrow> Some (worker_metadata_from w) | [] \<Rightarrow> None);
                    found = (worker \<noteq> None)
                in (tagged \<lparr>gr_found = found, gr_worker = worker, gr_mx_source_id = source_id,
                            gr_worker_id = worker_id, gr_identity = mm_identity rec\<rparr>
                     (if found then OutcomeOk else OutcomeNotFound), m'))
         | (Inr None, m') \<Rightarrow> (metadata_absent source_id worker_id OutcomeNotFound, m')
         | (Inl e, m') \<Rightarrow> (metadata_absent [] [] OutcomeBackendError, m'))))"

definition update_write ::
  "('c \<Rightarrow> string + p2p_store) \<Rightarrow> int \<Rightarrow> UpdateStatusRequest \<Rightarrow> int \<Rightarrow> f32 option \<Rightarrow> 'c P2pStateManager
   \<Rightarrow> UpdateStatusResponse tagged_response \<times> 'c P2pStateManager" where
  "update_write build now req status source_load m =
     (case state_update_worker_status build now (uq_mx_source_id req) (uq_worker_id req) (uq_worker_rank req)
             status source_load m of
        (Inr _, m') \<Rightarrow>
          (update_answer True (''Updated status for source '' @ [CHR 0x27] @ uq_mx_source_id req @ [CHR 0x27]
             @ '' worker_id '' @ [CHR 0x27] @ uq_worker_id req @ [CHR 0x27]
             @ '' rank '' @ show_nat (unat (uq_worker_rank req))) OutcomeOk, m')
      | (Inl e, m') \<Rightarrow> (update_answer False (''Failed to update status: '' @ e) OutcomeBackendError, m'))"

definition update_status ::
  "bool \<Rightarrow> ('c \<Rightarrow> string + p2p_store) \<Rightarrow> int \<Rightarrow> ('c P2pStateManager \<Rightarrow> 'c P2pStateManager)
   \<Rightarrow> UpdateStatusRequest auth_request \<Rightarrow> 'c P2pStateManager
   \<Rightarrow> UpdateStatusResponse tagged_response \<times> 'c P2pStateManager" where
  "update_status tenant_isolation build now between request m =
     (case scope_namespace tenant_isolation request of
        Inl status \<Rightarrow> (Inl status, m)
      | Inr sc \<Rightarrow>
     (let req = rq_body request in
      if uq_mx_source_id req = [] then (update_answer False ''mx_source_id is required'' OutcomeInvalidArgument, m)
      else if uq_worker_id req = [] then (update_answer False ''worker_id is required'' OutcomeInvalidArgument, m)
      else
        (case source_status_try_from (uq_status req) of
           None \<Rightarrow> (update_answer False (''invalid status value: '' @ show_int (uq_status req)) OutcomeInvalidArgument, m)
         | Some status \<Rightarrow>
             (let source_load = accepted_load (uq_source_load req)
              in if sc \<noteq> None
                 then (case state_get_metadata build (uq_mx_source_id req) (uq_worker_id req) m of
                         (Inl e, m') \<Rightarrow> (update_answer False (''Failed to update status: '' @ e) OutcomeBackendError, m')
                       | (Inr found, m') \<Rightarrow>
                           if (case found of Some rec \<Rightarrow> owner_in_scope sc (mm_owner_namespace rec) | None \<Rightarrow> False)
                           then update_write build now req status source_load (between m')
                           else (update_answer False ''worker not found'' OutcomeNotFound, m'))
                 else update_write build now req status source_load m))))"

subsection \<open>Listings\<close>

text \<open>What a listing should answer: of the workers that match, newest first, the first in scope.\<close>

definition listing_spec ::
  "string option \<Rightarrow> (SourceIdentity \<Rightarrow> string + string) \<Rightarrow> int \<Rightarrow> nat \<Rightarrow> ListSourcesRequest \<Rightarrow> p2p_store
   \<Rightarrow> SourceInstanceInfo list" where
  "listing_spec sc source_id_of now_ms heartbeat_timeout_secs req s =
     (let source_id_filter = (case lq_identity req of
            Some i \<Rightarrow> if si_model_name i \<noteq> [] then Some (backend_id source_id_of i) else None | None \<Rightarrow> None);
          status_filter = Option.bind (lq_status_filter req) source_status_try_from;
          live = (\<lambda>w. status_filter = Some STATUS_READY \<longrightarrow>
                    ready_source_is_fresh w now_ms (u64_saturating_mul heartbeat_timeout_secs 1000))
      in take (case lq_limit req of Some v \<Rightarrow> if v > 0 then unat v else u64_max | None \<Rightarrow> u64_max)
           (filter (\<lambda>w. owner_in_scope sc (ii_owner_namespace w) \<and> live w)
             (sort_key (\<lambda>w. - ii_updated_at w)
               (filter (keep_worker (lq_model_name_filter req) (lq_worker_rank_filter req)
                   (lq_min_training_step req) (lq_min_updated_at req))
                 (p2p_list_workers source_id_filter status_filter s)))))"

lemma fresh_mono:
  "ready_source_is_fresh a now hb \<Longrightarrow> ii_updated_at a \<le> ii_updated_at b \<Longrightarrow> ready_source_is_fresh b now hb"
  by (auto simp: ready_source_is_fresh_def i64_saturating_sub_def split: if_splits)

lemma filter_take_sorted:
  assumes "sorted (map f xs)" and "\<And>a b. p a \<Longrightarrow> f b \<le> f a \<Longrightarrow> p b"
  shows "filter p (take n xs) = take n (filter p xs)"
  using assms(1)
proof (induction xs arbitrary: n)
  case (Cons x xs)
  show ?case
  proof (cases "p x")
    case True
    then show ?thesis using Cons by (cases n) auto
  next
    case False
    then have "\<not> p y" if "y \<in> set xs" for y
      using Cons.prems assms(2) [of y x] that by auto
    then have none: "filter p (x # xs) = []" using False by (auto simp: filter_empty_conv)
    then have "filter p (take n (x # xs)) = []"
      using set_take_subset [of n "x # xs"] unfolding filter_empty_conv by blast
    with none show ?thesis by simp
  qed
qed simp

lemma fresh_prefix:
  "filter (\<lambda>w. ready_source_is_fresh w now hb) (take n (sort_key (\<lambda>w. - ii_updated_at w) xs))
     = take n (filter (\<lambda>w. ready_source_is_fresh w now hb) (sort_key (\<lambda>w. - ii_updated_at w) xs))"
proof (rule filter_take_sorted)
  show "sorted (map (\<lambda>w. - ii_updated_at w) (sort_key (\<lambda>w. - ii_updated_at w) xs))" by simp
qed (rule fresh_mono, assumption, simp)

lemma u32_positive: "0 < (v :: u32) \<longleftrightarrow> 0 < unat v"
  by (simp add: word_less_nat_alt)

lemma list_sources_connected:
  assumes "scope_namespace isolated request = Inr sc" and "sm_backend m = Some s"
    and "\<And>i e. lq_identity (rq_body request) = Some i \<Longrightarrow> si_model_name i \<noteq> [] \<Longrightarrow> source_id_of i \<noteq> Inl e"
  shows "list_sources isolated build source_id_of now hb request m =
    (Inr (map instance_ref (listing_spec sc source_id_of now hb (rq_body request) s), OutcomeOk), m)"
proof -
  let ?req = "rq_body request"
  define wanted where "wanted = (case lq_identity ?req of
      Some i \<Rightarrow> if si_model_name i \<noteq> [] then Some (source_id_of i) else None | None \<Rightarrow> None)"
  define f where "f = (case lq_identity ?req of
      Some i \<Rightarrow> if si_model_name i \<noteq> [] then Some (backend_id source_id_of i) else None | None \<Rightarrow> None)"
  have w: "wanted = map_option Inr f"
    using assms(3) by (auto simp: wanted_def f_def backend_id_def split: option.splits sum.splits)
  define st where "st = Option.bind (lq_status_filter ?req) source_status_try_from"
  define kept where "kept = sort_key (\<lambda>w. - ii_updated_at w)
      (filter (keep_worker (lq_model_name_filter ?req) (lq_worker_rank_filter ?req) (lq_min_training_step ?req)
        (lq_min_updated_at ?req)) (p2p_list_workers f st s))"
  define lim where "lim = map_option unat (lq_limit ?req)"
  define n where "n = (case lim of Some v \<Rightarrow> if v > 0 then v else u64_max | None \<Rightarrow> u64_max)"
  define live where "live = (\<lambda>w. st = Some STATUS_READY \<longrightarrow> ready_source_is_fresh w now (u64_saturating_mul hb 1000))"
  have n': "(case lq_limit ?req of Some v \<Rightarrow> if v > 0 then unat v else u64_max | None \<Rightarrow> u64_max) = n"
    by (auto simp: n_def lim_def u32_positive split: option.splits)
  have spec: "listing_spec sc source_id_of now hb ?req s
      = take n (filter (\<lambda>w. owner_in_scope sc (ii_owner_namespace w)) (filter live kept))"
    unfolding listing_spec_def Let_def n' f_def [symmetric] st_def [symmetric] kept_def [symmetric] live_def
    by (simp add: conj_commute)
  let ?reply = "list_workers_filtered (p2p_list_workers f st s) (lq_model_name_filter ?req) (lq_worker_rank_filter ?req)
      (lq_min_training_step ?req) (lq_min_updated_at ?req) (if sc \<noteq> None then None else lim)"
  have reply: "?reply = (if sc \<noteq> None then kept else case lim of Some v \<Rightarrow> if v > 0 then take v kept else kept | None \<Rightarrow> kept)"
    by (auto simp: list_workers_filtered_def kept_def split: option.splits)
  have live_back: "(if st = Some STATUS_READY then filter (\<lambda>w. ready_source_is_fresh w now (u64_saturating_mul hb 1000)) xs else xs)
      = filter live xs" for xs by (simp add: live_def)
  have take_live: "filter live (take v kept) = take v (filter live kept)" for v
    unfolding live_def kept_def using fresh_prefix by (cases "st = Some STATUS_READY") auto
  have answer: "take n (filter (\<lambda>w. owner_in_scope sc (ii_owner_namespace w)) (filter live ?reply))
      = take n (filter (\<lambda>w. owner_in_scope sc (ii_owner_namespace w)) (filter live kept))"
    unfolding reply by (cases sc; cases lim) (auto simp: owner_in_scope_def take_live n_def)
  have run: "state_list_workers_filtered build f st (lq_model_name_filter ?req) (lq_worker_rank_filter ?req)
      (lq_min_training_step ?req) (lq_min_updated_at ?req) (if sc \<noteq> None then None else lim) m = (Inr ?reply, m)"
    using assms(2) by (simp add: state_list_workers_filtered_def run_backend_def get_backend_def)
  have wf: "(case wanted of Some (Inr source_id) \<Rightarrow> Some source_id | _ \<Rightarrow> None) = f"
    by (simp add: w split: option.splits)
  show ?thesis
    unfolding list_sources_def assms(1) sum.case Let_def wanted_def [symmetric] wf st_def [symmetric] lim_def [symmetric]
      n_def [symmetric] run prod.case live_back answer spec tagged_def
    by (simp add: w split: option.splits)
qed

text \<open>
  Listing is exact in every mode: with a reachable backend, the answer is the matching workers
  in the caller's scope, newest first and, for a listing of ready sources, with a heartbeat within
  the timeout, cut off after the requested number. Pushing the limit down to the backend when
  there is no scope loses nothing, because the fresh workers are a prefix of the order the backend
  cuts; with a scope the limit counts the caller's own workers only.
\<close>

theorem listing_limit_exact:
  assumes "scope_namespace isolated request = Inr sc" and "sm_backend m = Some s"
    and "\<forall>i. lq_identity (rq_body request) = Some i \<longrightarrow> isl (source_id_of i) \<longrightarrow> si_model_name i = []"
  shows "list_sources isolated build source_id_of now hb request m =
    (Inr (map instance_ref (listing_spec sc source_id_of now hb (rq_body request) s), OutcomeOk), m)"
  by (rule list_sources_connected [OF assms(1,2)]) (use assms(3) in auto)

subsection \<open>What a namespace can see\<close>

text \<open>The store as a namespace sees it: its own workers, and the sources that have one.\<close>

definition p2p_view :: "string \<Rightarrow> p2p_store \<Rightarrow> p2p_store" where
  "p2p_view ns s =
     filter (\<lambda>(sid, source). se_workers source \<noteq> [])
       (map (\<lambda>(sid, source). (sid, source\<lparr>se_workers :=
          filter (\<lambda>(b, e). we_owner_namespace e = Some ns) (se_workers source)\<rparr>)) s)"

lemma instance_owner [simp]: "ii_owner_namespace (instance_info a src b e) = we_owner_namespace e"
  by (simp add: instance_info_def)

lemma source_listing_view:
  "filter (\<lambda>w. ii_owner_namespace w = Some ns)
     (map (\<lambda>(b, e). instance_info sid src b e) (filter (\<lambda>(b, e). worker_listed st e) ws))
   = map (\<lambda>(b, e). instance_info sid (src\<lparr>se_workers := ws'\<rparr>) b e)
       (filter (\<lambda>(b, e). worker_listed st e) (filter (\<lambda>(b, e). we_owner_namespace e = Some ns) ws))"
  by (induction ws) auto

lemma list_workers_view:
  "filter (\<lambda>w. ii_owner_namespace w = Some ns) (p2p_list_workers sid st s) = p2p_list_workers sid st (p2p_view ns s)"
proof (induction s)
  case (Cons x s)
  obtain a src where x: "x = (a, src)" by (cases x)
  let ?own = "filter (\<lambda>(b, e). we_owner_namespace e = Some ns) (se_workers src)"
  have step: "p2p_list_workers sid st (y # t) = p2p_list_workers sid st [y] @ p2p_list_workers sid st t" for y t
    by (simp add: p2p_list_workers_def)
  have view: "p2p_view ns (x # s) = p2p_view ns [x] @ p2p_view ns s" by (simp add: p2p_view_def)
  have app: "p2p_list_workers sid st (u @ t) = p2p_list_workers sid st u @ p2p_list_workers sid st t" for u t
    by (simp add: p2p_list_workers_def)
  have "filter (\<lambda>w. ii_owner_namespace w = Some ns) (p2p_list_workers sid st [x]) = p2p_list_workers sid st (p2p_view ns [x])"
    using source_listing_view [of ns a src st "se_workers src" ?own]
    by (auto simp: x p2p_list_workers_def p2p_view_def simp del: filter_filter split: option.splits)
  then show ?case unfolding step [of x s] view app filter_append Cons.IH by simp
qed (simp add: p2p_list_workers_def p2p_view_def)

lemma listing_view:
  "listing_spec (Some ns) source_id_of now hb req s = listing_spec (Some ns) source_id_of now hb req (p2p_view ns s)"
proof -
  have own: "filter (\<lambda>w. owner_in_scope (Some ns) (ii_owner_namespace w) \<and> l w) (sort_key k (filter p xs))
      = filter l (sort_key k (filter p (filter (\<lambda>w. ii_owner_namespace w = Some ns) xs)))"
    for l p xs and k :: "SourceInstanceInfo \<Rightarrow> int"
    by (simp add: owner_in_scope_def filter_sort conj_ac)
  show ?thesis unfolding listing_spec_def Let_def own list_workers_view
    by (simp add: list_workers_view [symmetric] filter_sort conj_ac)
qed

lemma view_get:
  assumes "p2p_ok s"
  shows "p2p_get_metadata a b (p2p_view ns s) =
    (case p2p_get_metadata a b s of
       Some rec \<Rightarrow> if mm_owner_namespace rec = Some ns then Some rec else None | None \<Rightarrow> None)"
proof -
  let ?own = "\<lambda>src. filter (\<lambda>(b, e). we_owner_namespace e = Some ns) (se_workers src)"
  have flt: "hm_get (filter (\<lambda>(k, v). p v) m) k = (case hm_get m k of Some v \<Rightarrow> if p v then Some v else None | None \<Rightarrow> None)"
    if "hm_ok m" for m k and p :: "'x \<Rightarrow> bool"
    using that by (induction m) (auto simp: hm_get_def hm_ok_def map_of_eq_None_iff [symmetric] split: option.splits)
  have mp: "hm_get (map (\<lambda>(k, v). (k, g v)) m) k = map_option g (hm_get m k)" for m k and g :: "'x \<Rightarrow> 'y"
    by (simp add: hm_get_def map_of_map)
  have "hm_get (p2p_view ns s) a =
      (case hm_get s a of Some src \<Rightarrow> if ?own src \<noteq> [] then Some (src\<lparr>se_workers := ?own src\<rparr>) else None | None \<Rightarrow> None)"
  proof -
    have "hm_ok (map (\<lambda>(sid, src). (sid, src\<lparr>se_workers := ?own src\<rparr>)) s)"
      using assms by (simp add: p2p_ok_def hm_ok_def case_prod_unfold comp_def)
    then show ?thesis unfolding p2p_view_def by (subst flt) (auto simp: mp split: option.splits)
  qed
  moreover have "hm_get (?own src) b =
      (case hm_get (se_workers src) b of Some e \<Rightarrow> if we_owner_namespace e = Some ns then Some e else None | None \<Rightarrow> None)"
    if "hm_get s a = Some src" for src
    using assms that by (subst flt) (simp_all add: p2p_ok_def source_ok_def)
  moreover have "hm_get [] b = None" by simp
  ultimately show ?thesis
    unfolding p2p_get_metadata_def by (auto split: option.splits if_splits)
qed

lemma get_metadata_connected:
  assumes "sm_backend m = Some s"
  shows "state_get_metadata build a b m = (Inr (p2p_get_metadata a b s), m)"
  using assms by (simp add: state_get_metadata_def run_backend_def get_backend_def)

text \<open>
  C10. With tenant isolation a caller's reads depend on nothing but the workers its own namespace
  owns and the labels (model name, parameters, identity) of the sources those workers are under:
  two stores that agree on these give it the same answers to every listing and every lookup,
  whatever workers other namespaces stored, and a reader learns nothing of a foreign worker, not
  even that it exists. The labels of a source are shared by all who publish under its id
  (\<open>publish_relabels_source\<close>).
\<close>

theorem reads_are_isolated:
  assumes "p2p_ok s" "p2p_ok t" and view: "p2p_view ns s = p2p_view ns t"
    and "sm_backend m = Some s" "sm_backend m' = Some t"
    and "rq_caller lreq = Some caller" "rq_caller greq = Some caller" "ci_namespace caller = ns"
  shows "fst (list_sources True build source_id_of now hb lreq m) = fst (list_sources True build source_id_of now hb lreq m')
    \<and> fst (get_metadata True build greq m) = fst (get_metadata True build greq m')"
proof
  have sc: "scope_namespace True lreq = Inr (Some ns)" "scope_namespace True greq = Inr (Some ns)"
    using assms(6-8) by (simp_all add: scope_namespace_def)
  show "fst (list_sources True build source_id_of now hb lreq m) = fst (list_sources True build source_id_of now hb lreq m')"
  proof (cases "\<exists>i e. lq_identity (rq_body lreq) = Some i \<and> si_model_name i \<noteq> [] \<and> source_id_of i = Inl e")
    case True
    then show ?thesis by (auto simp: list_sources_def sc)
  next
    case False
    then have ids: "\<And>i e. lq_identity (rq_body lreq) = Some i \<Longrightarrow> si_model_name i \<noteq> [] \<Longrightarrow> source_id_of i \<noteq> Inl e" by blast
    have "listing_spec (Some ns) source_id_of now hb (rq_body lreq) s = listing_spec (Some ns) source_id_of now hb (rq_body lreq) t"
      by (subst (1 2) listing_view) (simp add: view)
    then show ?thesis
      using list_sources_connected [OF sc(1) assms(4) ids] list_sources_connected [OF sc(1) assms(5) ids] by simp
  qed
  let ?a = "gq_mx_source_id (rq_body greq)" and ?b = "gq_worker_id (rq_body greq)"
  have "(case p2p_get_metadata ?a ?b s of Some rec \<Rightarrow> if mm_owner_namespace rec = Some ns then Some rec else None | None \<Rightarrow> None)
      = (case p2p_get_metadata ?a ?b t of Some rec \<Rightarrow> if mm_owner_namespace rec = Some ns then Some rec else None | None \<Rightarrow> None)"
    using view_get [OF assms(1), of ?a ?b ns] view_get [OF assms(2), of ?a ?b ns] view by simp
  then show "fst (get_metadata True build greq m) = fst (get_metadata True build greq m')"
    by (auto simp: get_metadata_def sc Let_def get_metadata_connected [OF assms(4)] get_metadata_connected [OF assms(5)]
        owner_in_scope_def split: option.splits if_splits)
qed

subsection \<open>Writes stay in the caller's namespace\<close>


lemma get_publish_same:
  "\<exists>rec. p2p_get_metadata (f i) wid (p2p_publish_metadata f i wid worker owner s) = Some rec
    \<and> mm_owner_namespace rec = owner \<and> mm_identity rec = Some i"
proof -
  have "bt_insert k v t \<noteq> []" for k :: u32 and v :: WorkerRecord and t
    using bt_get_insert [of k v t k] by force
  then show ?thesis by (simp add: p2p_get_metadata_def p2p_publish_metadata_def Let_def hm_simps)
qed


lemma publish_write_connected:
  assumes "sm_backend m = Some s"
  shows "sm_backend (snd (publish_write build f i sid wid worker owner m))
    = Some (p2p_publish_metadata (backend_id f) i wid worker owner s)"
  using assms by (simp add: publish_write_def state_publish_metadata_def run_backend_def get_backend_def)

lemma update_write_connected:
  assumes "sm_backend m = Some s"
  shows "sm_backend (snd (update_write build now req st load m)) = Some
    (case p2p_update_status (uq_mx_source_id req) (uq_worker_id req) (uq_worker_rank req) st now load s of
       Inr s' \<Rightarrow> s' | Inl _ \<Rightarrow> s)"
proof (cases "p2p_update_status (uq_mx_source_id req) (uq_worker_id req) (uq_worker_rank req) st now load s")
  case (Inl e)
  with assms show ?thesis
    by (simp add: update_write_def state_update_worker_status_def run_backend_def get_backend_def map_err_def sum_bind_def)
next
  case (Inr s')
  with assms show ?thesis
    by (simp add: update_write_def state_update_worker_status_def run_backend_def get_backend_def map_err_def sum_bind_def)
qed






lemma publish_race:
  assumes "sm_backend m = Some s" "rq_caller request = Some caller"
    and "rq_body request = \<lparr>pq_identity = Some i, pq_worker = Some worker, pq_worker_id = wid\<rparr>"
    and "si_model_name i \<noteq> []" "wid \<noteq> []" "f i = Inr sid" "p2p_get_metadata sid wid s = None"
    and "f j = Inr sid" "other \<noteq> ci_namespace caller"
    and "between = (\<lambda>x. x\<lparr>sm_backend := Some (p2p_publish_metadata (backend_id f) j wid worker2 (Some other) s)\<rparr>)"
  shows "\<exists>rec. Option.bind (sm_backend (between m)) (p2p_get_metadata sid wid) = Some rec \<and> mm_owner_namespace rec = Some other"
    and "\<exists>body s' rec. publish_metadata True build f between request m
        = (Inr (body, OutcomeOk), between m\<lparr>sm_backend := Some s'\<rparr>) \<and> pr_success body
      \<and> p2p_get_metadata sid wid s' = Some rec \<and> mm_owner_namespace rec = Some (ci_namespace caller)"
proof -
  let ?s = "p2p_publish_metadata (backend_id f) j wid worker2 (Some other) s"
  have sid: "backend_id f i = sid" "backend_id f j = sid" using assms(6,8) by (simp_all add: backend_id_def)
  show "\<exists>rec. Option.bind (sm_backend (between m)) (p2p_get_metadata sid wid) = Some rec \<and> mm_owner_namespace rec = Some other"
    using get_publish_same [of "backend_id f" j wid worker2 "Some other" s] by (auto simp: assms(10) sid)
  obtain rec where "p2p_get_metadata sid wid (p2p_publish_metadata (backend_id f) i wid worker (Some (ci_namespace caller)) ?s) = Some rec"
    "mm_owner_namespace rec = Some (ci_namespace caller)"
    using get_publish_same [of "backend_id f" i wid worker "Some (ci_namespace caller)" ?s] by (auto simp: sid)
  moreover have "scope_namespace True request = Inr (Some (ci_namespace caller))"
    using assms(2) by (simp add: scope_namespace_def)
  ultimately show "\<exists>body s' rec. publish_metadata True build f between request m
        = (Inr (body, OutcomeOk), between m\<lparr>sm_backend := Some s'\<rparr>) \<and> pr_success body
      \<and> p2p_get_metadata sid wid s' = Some rec \<and> mm_owner_namespace rec = Some (ci_namespace caller)"
    using assms(3-7) get_metadata_connected [OF assms(1)]
    by (simp add: publish_metadata_def validate_identity_def assms(10) publish_write_def state_publish_metadata_def
        run_backend_def get_backend_def tagged_def) blast
qed

text \<open>
  The owner check and the write are two calls: if another namespace registers the worker id
  between them, the publication still succeeds and the worker changes hands, so that the other
  namespace no longer sees what it had just published.
\<close>

theorem publish_check_is_not_atomic:
  assumes "sm_backend m = Some s" "rq_caller request = Some caller"
    and "rq_body request = \<lparr>pq_identity = Some i, pq_worker = Some worker, pq_worker_id = wid\<rparr>"
    and "si_model_name i \<noteq> []" "wid \<noteq> []" "f i = Inr sid" "p2p_get_metadata sid wid s = None"
    and "f j = Inr sid" "other \<noteq> ci_namespace caller"
    and "between = (\<lambda>x. x\<lparr>sm_backend := Some (p2p_publish_metadata (backend_id f) j wid worker2 (Some other) s)\<rparr>)"
  shows "(\<exists>rec. Option.bind (sm_backend (between m)) (p2p_get_metadata sid wid) = Some rec \<and> mm_owner_namespace rec = Some other)
    \<and> (\<exists>body s' rec. publish_metadata True build f between request m
        = (Inr (body, OutcomeOk), between m\<lparr>sm_backend := Some s'\<rparr>) \<and> pr_success body
      \<and> p2p_get_metadata sid wid s' = Some rec \<and> mm_owner_namespace rec = Some (ci_namespace caller))"
  using publish_race [OF assms] by blast

text \<open>
  A source's name and identity are stored once for all its workers, whoever owns them: a
  publication in one namespace gives every worker already registered under the same source id,
  also one of another namespace, the publisher's identity and model name, and so the training
  step parsed from it, although source ids ignore the case of all of them.
\<close>

theorem publish_relabels_source:
  assumes "p2p_look s (f i) b = Some w" and "b \<noteq> wid"
  shows "p2p_look (p2p_publish_metadata f i wid worker owner s) (f i) b
    = Some (w\<lparr>ii_model_name := si_model_name i, ii_training_step := parse_training_step (si_extra_parameters i),
             ii_layout_signature := parse_layout_signature (si_extra_parameters i)\<rparr>)"
  using assms
  by (auto simp: p2p_look_def p2p_publish_metadata_def Let_def hm_simps or_default_def instance_info_def split: option.splits)

subsection \<open>Loads\<close>

text \<open>A load in the unit interval: the bits of a float from zero to one, or of negative zero.\<close>

definition unit_load :: "f32 option \<Rightarrow> bool" where
  "unit_load load \<longleftrightarrow> (case load of None \<Rightarrow> True | Some v \<Rightarrow> unat v \<le> 0x3F800000 \<or> unat v = 0x80000000)"

definition loads_ok :: "p2p_store \<Rightarrow> bool" where
  "loads_ok s \<longleftrightarrow> (\<forall>a src b e k r. hm_get s a = Some src \<longrightarrow> hm_get (se_workers src) b = Some e
     \<longrightarrow> bt_get (we_ranks e) k = Some r \<longrightarrow> unit_load (wr_source_load r))"

lemma accepted_load_unit: "unit_load (accepted_load load)"
proof -
  have "unat v mod 0x80000000 = (if unat v < 0x80000000 then unat v else unat v - 0x80000000)" for v :: f32
  proof -
    have "unat v < 0x100000000" using unsigned_less [of v, where ?'a = nat] by simp
    then show ?thesis by (simp add: mod_if)
  qed
  then show ?thesis
    by (auto simp: accepted_load_def unit_load_def f32_clamp_unit_def f32_is_finite_def
        split: option.splits if_splits)
qed

text \<open>
  What a server does to its store: a request of either writing handler, isolated or not, where
  other requests may bring the store to any reachable state between the owner check and the
  write; a removal; a pass of the reaper.
\<close>

inductive p2p_reach :: "p2p_store \<Rightarrow> bool" where
  reach_new: "p2p_reach p2p_new"
| reach_publish: "p2p_reach s \<Longrightarrow> p2p_reach t \<Longrightarrow> sm_backend (m :: unit P2pStateManager) = Some s \<Longrightarrow> sm_backend (between m) = Some t \<Longrightarrow>
    sm_backend (snd (publish_metadata isolated build f between preq m)) = Some s' \<Longrightarrow> p2p_reach s'"
| reach_update: "p2p_reach s \<Longrightarrow> p2p_reach t \<Longrightarrow> sm_backend (m :: unit P2pStateManager) = Some s \<Longrightarrow> sm_backend (between m) = Some t \<Longrightarrow>
    sm_backend (snd (update_status isolated build now between ureq m)) = Some s' \<Longrightarrow> p2p_reach s'"
| reach_remove: "p2p_reach s \<Longrightarrow> p2p_reach (p2p_remove_metadata a s)"
| reach_reap: "p2p_reach s \<Longrightarrow>
    p2p_reach (reap_once p2p_update_status p2p_remove_worker clock now hb gc (p2p_list_workers None None s) s)"

text \<open>A publication writes one worker into the store it finds, or nothing; so does a status update.\<close>

lemma p2p_publish_effect:
  assumes "sm_backend m = Some s" "sm_backend (between m) = Some t" and "P s" "P t"
    and "\<And>i wid worker owner x. P x \<Longrightarrow> P (p2p_publish_metadata (backend_id f) i wid worker owner x)"
  shows "\<exists>s'. sm_backend (snd (publish_metadata isolated build f between preq m)) = Some s' \<and> P s'"
  using assms
  by (auto simp: publish_metadata_def Let_def get_metadata_connected [OF assms(1)] publish_write_connected
      split: option.splits sum.splits)

lemma p2p_update_effect:
  assumes "sm_backend m = Some s" "sm_backend (between m) = Some t" and "P s" "P t"
    and "\<And>a b rank st load x x'. P x \<Longrightarrow> p2p_update_status a b rank st now (accepted_load load) x = Inr x' \<Longrightarrow> P x'"
  shows "\<exists>s'. sm_backend (snd (update_status isolated build now between ureq m)) = Some s' \<and> P s'"
proof -
  have w: "\<exists>s'. sm_backend (snd (update_write build now req st (accepted_load l) m')) = Some s' \<and> P s'"
    if "sm_backend m' = Some x" "P x" for m' x st l req
    using assms(5) that unfolding update_write_connected [OF that(1)] by (auto split: sum.splits)
  show ?thesis
    using w [OF assms(1,3)] w [OF assms(2,4)] assms(1,3)
    by (auto simp: update_status_def Let_def get_metadata_connected [OF assms(1)] split: option.splits sum.splits)
qed

lemma loads_publish:
  assumes "loads_ok s"
  shows "loads_ok (p2p_publish_metadata f i wid worker owner s)"
proof -
  have new: "wr_source_load (worker_record_from worker) = None"
    by (simp add: worker_record_from_def Let_def case_prod_unfold)
  have none: "bt_get [] k = None" "unit_load None" for k :: u32 by (simp_all add: bt_get_def unit_load_def)
  show ?thesis
    using assms unfolding loads_ok_def p2p_publish_metadata_def Let_def
    by (auto simp: hm_simps or_default_def default_source_def default_entry_def bt_get_insert new none
        split: option.splits if_splits)
qed

lemma loads_update:
  assumes "loads_ok s" "unit_load l" "p2p_update_status a b rank st t l s = Inr s'"
  shows "loads_ok s'"
proof -
  from assms(3) obtain src e r where src: "hm_get s a = Some src" "hm_get (se_workers src) b = Some e"
    "bt_get (we_ranks e) rank = Some r"
    and s': "s' = hm_insert a (src\<lparr>se_workers := hm_insert b (e\<lparr>we_ranks := bt_insert rank
        (r\<lparr>wr_status := st, wr_updated_at := t, wr_source_load := l\<rparr>) (we_ranks e)\<rparr>) (se_workers src)\<rparr>) s"
    by (auto simp: p2p_update_status_def Let_def split: option.splits)
  show ?thesis
    using assms(1,2) src unfolding loads_ok_def s' by (auto simp: hm_simps bt_get_insert split: if_splits)
qed

lemma loads_remove: "loads_ok s \<Longrightarrow> loads_ok (p2p_remove_worker a b s)" "loads_ok s \<Longrightarrow> loads_ok (p2p_remove_metadata a s)"
proof -
  assume ok: "loads_ok s"
  show "loads_ok (p2p_remove_metadata a s)"
    using ok by (auto simp: loads_ok_def p2p_remove_metadata_def hm_simps split: if_splits)
  show "loads_ok (p2p_remove_worker a b s)"
  proof (cases "hm_get s a")
    case (Some src)
    have "loads_ok (hm_insert a (src\<lparr>se_workers := hm_remove b (se_workers src)\<rparr>) s)" "loads_ok (hm_remove a s)"
      using ok Some unfolding loads_ok_def by (auto simp: hm_simps split: if_splits)
    then show ?thesis by (simp add: p2p_remove_worker_def Some Let_def)
  qed (use ok in \<open>simp add: p2p_remove_worker_def\<close>)
qed

lemma loads_reap_worker: "loads_ok s \<Longrightarrow> loads_ok (reap_worker p2p_update_status p2p_remove_worker clock now hb gc w s)"
  using loads_update [of s None "ii_source_id w" "ii_worker_id w" "ii_worker_rank w" STATUS_STALE "clock w"]
  by (auto simp: reap_worker_def loads_remove unit_load_def split: sum.splits)

lemma loads_reap: "loads_ok s \<Longrightarrow> loads_ok (reap_once p2p_update_status p2p_remove_worker clock now hb gc ws s)"
  unfolding reap_once_def by (induction ws arbitrary: s) (simp_all add: loads_reap_worker)

lemma p2p_ok_update:
  assumes "p2p_ok s" "p2p_update_status a b rank st t l s = Inr s'"
  shows "p2p_ok s'"
proof -
  from assms(2) obtain src e r where m: "hm_get s a = Some src" "hm_get (se_workers src) b = Some e"
    "bt_get (we_ranks e) rank = Some r"
    and s': "s' = hm_insert a (src\<lparr>se_workers := hm_insert b (e\<lparr>we_ranks := bt_insert rank
        (r\<lparr>wr_status := st, wr_updated_at := t, wr_source_load := l\<rparr>) (we_ranks e)\<rparr>) (se_workers src)\<rparr>) s"
    by (auto simp: p2p_update_status_def Let_def split: option.splits)
  have src: "source_ok src" using assms(1) m(1) by (simp add: p2p_ok_def)
  then have "entry_ok e" using m(2) by (simp add: source_ok_def)
  then have "entry_ok (e\<lparr>we_ranks := bt_insert rank (r\<lparr>wr_status := st, wr_updated_at := t, wr_source_load := l\<rparr>) (we_ranks e)\<rparr>)"
    using m(3) by (auto simp: entry_ok_def bt_ok_insert bt_get_insert)
  then show ?thesis unfolding s' by (intro p2p_ok_insert [OF assms(1)]) (use src in \<open>auto simp: source_ok_def hm_simps\<close>)
qed

lemma p2p_ok_remove_metadata: "p2p_ok s \<Longrightarrow> p2p_ok (p2p_remove_metadata a s)"
  by (auto simp: p2p_ok_def p2p_remove_metadata_def hm_simps split: if_splits)

definition store_typed :: "p2p_store \<Rightarrow> bool" where
  "store_typed s \<longleftrightarrow> p2p_ok s \<and> loads_ok s"

lemma typed_publish: "store_typed s \<Longrightarrow> store_typed (p2p_publish_metadata f i wid worker owner s)"
  by (simp add: store_typed_def p2p_publish_ok loads_publish)

lemma typed_update:
  "store_typed s \<Longrightarrow> p2p_update_status a b rank st t (accepted_load l) s = Inr s' \<Longrightarrow> store_typed s'"
  using p2p_ok_update loads_update [OF _ accepted_load_unit] unfolding store_typed_def by blast

text \<open>
  C36. The store stays well typed whatever requests the handlers serve, in whatever order and
  with whatever happening between the owner check and the write of each, and whatever is removed
  or reaped: every worker has a record at the rank its listing reports, every record sits under
  its own rank, and every stored load is a number from zero to one, although the load of a
  heartbeat is an arbitrary float of the caller, also an infinity or not a number.
\<close>

theorem reachable_store_well_typed:
  assumes "p2p_reach s"
  shows "p2p_ok s \<and> loads_ok s"
proof -
  from assms have "store_typed s"
  proof (induction rule: p2p_reach.induct)
    case reach_new
    show ?case using p2p_ok_new by (simp add: store_typed_def loads_ok_def p2p_new_def)
  next
    case (reach_publish s t m between isolated build f preq s')
    have "\<exists>s'. sm_backend (snd (publish_metadata isolated build f between preq m)) = Some s' \<and> store_typed s'"
      by (rule p2p_publish_effect [where P = store_typed and between = between, OF reach_publish.hyps(3,4) reach_publish.IH]) (rule typed_publish)
    then show ?case using reach_publish.hyps(5) by simp
  next
    case (reach_update s t m between isolated build now ureq s')
    have "\<exists>s'. sm_backend (snd (update_status isolated build now between ureq m)) = Some s' \<and> store_typed s'"
      by (rule p2p_update_effect [where P = store_typed and between = between, OF reach_update.hyps(3,4) reach_update.IH]) (rule typed_update)
    then show ?case using reach_update.hyps(5) by simp
  next
    case (reach_remove s a)
    then show ?case by (simp add: store_typed_def loads_remove p2p_ok_remove_metadata)
  next
    case (reach_reap s clock now hb gc)
    then show ?case by (simp add: store_typed_def loads_reap memory.reap_exact(1) [OF _ TrueI])
  qed
  then show ?thesis by (simp add: store_typed_def)
qed

subsection \<open>Witnesses\<close>

definition demo_caller :: "string \<Rightarrow> CallerIdentity" where
  "demo_caller ns = \<lparr>ci_namespace = ns, ci_service_account = ''sa'', ci_pod_name = None, ci_pod_uid = None\<rparr>"

definition demo_request :: "string \<Rightarrow> 'b \<Rightarrow> 'b auth_request" where
  "demo_request ns body = \<lparr>rq_headers = [], rq_caller = Some (demo_caller ns), rq_body = body\<rparr>"

definition demo_pub :: PublishMetadataRequest where
  "demo_pub = \<lparr>pq_identity = Some (demo_identity ''M'' []), pq_worker = Some (worker_metadata_from demo_worker), pq_worker_id = ''w''\<rparr>"

definition demo_list :: ListSourcesRequest where
  "demo_list = \<lparr>lq_identity = None, lq_status_filter = None, lq_limit = Some 1, lq_model_name_filter = None,
     lq_worker_rank_filter = None, lq_min_training_step = None, lq_min_updated_at = None\<rparr>"

definition demo_manager :: "p2p_store \<Rightarrow> unit P2pStateManager" where
  "demo_manager s = \<lparr>sm_backend = Some s, sm_config = Some ()\<rparr>"

definition demo_upd :: UpdateStatusRequest where
  "demo_upd = \<lparr>uq_mx_source_id = ''id'', uq_worker_id = ''w'', uq_worker_rank = 3, uq_status = 2, uq_source_load = None\<rparr>"

lemmas demo_defs = demo_request_def demo_caller_def demo_manager_def demo_pub_def demo_list_def demo_upd_def

theorem listing_limit_exact_witness:
  "list_sources True (\<lambda>_. Inl []) (\<lambda>_. Inr ''id'') 0 90 (demo_request ''a'' demo_list) (demo_manager demo_store) =
     (Inr (map instance_ref (listing_spec (Some ''a'') (\<lambda>_. Inr ''id'') 0 90 demo_list demo_store), OutcomeOk), demo_manager demo_store)"
  using listing_limit_exact [of True "demo_request ''a'' demo_list" "Some ''a''" "demo_manager demo_store" demo_store
      "\<lambda>_. Inr ''id''" "\<lambda>_. Inl []" 0 90]
  by (simp add: demo_defs scope_namespace_def)

lemma demo_store_ok: "p2p_ok demo_store"
  unfolding demo_store_def by (rule p2p_publish_ok [OF p2p_ok_new])

lemma demo_store_record: "\<exists>rec. p2p_get_metadata ''id'' ''w'' demo_store = Some rec \<and> mm_owner_namespace rec = None"
  unfolding demo_store_def
  using get_publish_same [of "\<lambda>_. ''id''" "demo_identity ''M'' []" "''w''" "worker_metadata_from demo_worker" None p2p_new] by auto

lemma demo_store_view: "p2p_view ns demo_store = p2p_view ns p2p_new"
  by (simp add: demo_store_def p2p_publish_metadata_def Let_def or_default_def default_source_def default_entry_def
      p2p_new_def hm_insert_def hm_remove_def hm_get_def p2p_view_def)

theorem reads_are_isolated_witness:
  "p2p_get_metadata ''id'' ''w'' demo_store \<noteq> None
   \<and> fst (list_sources True (\<lambda>_. Inl []) (\<lambda>_. Inr ''id'') 0 90 (demo_request ''a'' demo_list) (demo_manager demo_store))
       = fst (list_sources True (\<lambda>_. Inl []) (\<lambda>_. Inr ''id'') 0 90 (demo_request ''a'' demo_list) (demo_manager p2p_new))
   \<and> fst (get_metadata True (\<lambda>_. Inl []) (demo_request ''a'' \<lparr>gq_mx_source_id = ''id'', gq_worker_id = ''w''\<rparr>) (demo_manager demo_store))
       = fst (get_metadata True (\<lambda>_. Inl []) (demo_request ''a'' \<lparr>gq_mx_source_id = ''id'', gq_worker_id = ''w''\<rparr>) (demo_manager p2p_new))"
  using reads_are_isolated [OF demo_store_ok p2p_ok_new demo_store_view, of "demo_manager demo_store" "demo_manager p2p_new"
      "demo_request ''a'' demo_list" "demo_caller ''a''" "demo_request ''a'' \<lparr>gq_mx_source_id = ''id'', gq_worker_id = ''w''\<rparr>" "''a''"
      "\<lambda>_. Inl []" "\<lambda>_. Inr ''id''" 0 90] demo_store_record
  by (auto simp: demo_defs)


theorem publish_check_is_not_atomic_witness:
  "\<exists>body m'. publish_metadata True (\<lambda>_. Inl []) (\<lambda>_. Inr ''id'')
      (\<lambda>x. x\<lparr>sm_backend := Some (p2p_publish_metadata (backend_id (\<lambda>_. Inr ''id'')) (demo_identity ''M'' []) ''w''
         (worker_metadata_from demo_worker) (Some ''b'') p2p_new)\<rparr>) (demo_request ''a'' demo_pub) (demo_manager p2p_new)
      = (Inr (body, OutcomeOk), m') \<and> pr_success body"
  using publish_check_is_not_atomic [of "demo_manager p2p_new" p2p_new "demo_request ''a'' demo_pub" "demo_caller ''a''"
      "demo_identity ''M'' []" "worker_metadata_from demo_worker" "''w''" "\<lambda>_. Inr ''id''" "''id''" "demo_identity ''M'' []" "''b''"
      _ "worker_metadata_from demo_worker" "\<lambda>_. Inl []"]
  by (fastforce simp: demo_defs demo_identity_def p2p_get_metadata_def p2p_new_def)

theorem publish_relabels_source_witness:
  "map_option ii_model_name (p2p_look (p2p_publish_metadata (\<lambda>_. ''id'') (demo_identity ''m'' []) ''v''
      (worker_metadata_from demo_worker) (Some ''b'') demo_store) ''id'' ''w'') = Some ''m''"
proof -
  obtain w where "p2p_look demo_store ''id'' ''w'' = Some w"
    by (simp add: demo_store_def p2p_publish_metadata_def p2p_new_def Let_def or_default_def p2p_look_def hm_simps)
  from publish_relabels_source [where f = "\<lambda>_. ''id''" and i = "demo_identity ''m'' []", OF this, of "''v''"
      "worker_metadata_from demo_worker" "Some ''b''"]
  show ?thesis by (simp add: demo_identity_def)
qed

text \<open>A publication, then a heartbeat whose load is not a number, served one after the other.\<close>

definition demo_nan :: UpdateStatusRequest where
  "demo_nan = demo_upd\<lparr>uq_source_load := Some 0x7FC00000\<rparr>"

definition demo_published :: p2p_store where
  "demo_published = the (sm_backend (snd (publish_metadata True (\<lambda>_. Inl []) (\<lambda>_. Inr ''id'') (\<lambda>x. x)
     (demo_request ''a'' demo_pub) (demo_manager p2p_new))))"

definition demo_heard :: p2p_store where
  "demo_heard = the (sm_backend (snd (update_status True (\<lambda>_. Inl []) 5 (\<lambda>x. x) (demo_request ''a'' demo_nan)
     (demo_manager demo_published))))"

theorem reachable_store_well_typed_witness: "p2p_ok demo_heard \<and> loads_ok demo_heard"
proof (rule reachable_store_well_typed)
  have m: "sm_backend (demo_manager s) = Some s" for s by (simp add: demo_manager_def)
  have pub: "\<exists>s'. sm_backend (snd (publish_metadata True (\<lambda>_. Inl []) (\<lambda>_. Inr ''id'') (\<lambda>x. x) (demo_request ''a'' demo_pub)
      (demo_manager p2p_new))) = Some s'"
    using p2p_publish_effect [where P = "\<lambda>_. True" and between = "\<lambda>x. x", OF m m] by blast
  have upd: "\<exists>s'. sm_backend (snd (update_status True (\<lambda>_. Inl []) 5 (\<lambda>x. x) (demo_request ''a'' demo_nan)
      (demo_manager demo_published))) = Some s'"
    using p2p_update_effect [where P = "\<lambda>_. True" and between = "\<lambda>x. x", OF m m] by blast
  have "p2p_reach demo_published"
    by (rule reach_publish [where between = "\<lambda>x. x", OF reach_new reach_new m m])
      (use pub in \<open>auto simp: demo_published_def\<close>)
  then show "p2p_reach demo_heard"
    by (rule reach_update [where between = "\<lambda>x. x", OF _ _ m m])
      (use \<open>p2p_reach demo_published\<close> upd in \<open>auto simp: demo_heard_def\<close>)
qed

end
