(* ===== verification/P2p_Redis.thy ===== *)
theory P2p_Redis
  imports P2p_Service
begin

text \<open>
  The Redis backend of the peer-to-peer store (\<^verbatim>\<open>p2p/backend/redis.rs\<close>): its key scheme, the
  rows it keeps in the hash of a source and in the hash of each worker, the two Lua scripts and
  all trait methods.

  The database maps keys to hashes; a hash without fields does not exist, as in Redis. A stored
  text is the value \<^verbatim>\<open>serde_json\<close> printed, told apart by what it was printed from; text that is not a
  JSON object, such as the decimal rank of legacy rows, is plain. A number that is not finite is
  printed as null. Numbers of the scripts are exact, which holds for the doubles of Lua up to
  two to the 53, far above any time in milliseconds. The keys that \<^verbatim>\<open>SCAN\<close> yields are an
  argument. Connection failures are outside the model. The commands of a publication and the two
  reads and the script of a status update are separate calls, between which other clients may act;
  the methods named as in the trait are these calls uninterrupted. A listing and a removal of a
  whole source are uninterrupted too.

  The properties are in \<open>P2p_Redis_Rows\<close>.
\<close>

subsection \<open>Stored values\<close>

record SourceAttributesJson =
  sa_model_name :: string
  sa_mx_version :: string
  sa_mx_source_type :: int
  sa_backend_framework :: int
  sa_tensor_parallel_size :: u32
  sa_pipeline_parallel_size :: u32
  sa_expert_parallel_size :: u32
  sa_dtype :: string
  sa_quantization :: string
  sa_extra_parameters :: params
  sa_revision :: string
  sa_backend_framework_version :: string
  sa_torch_version :: string
  sa_cuda_version :: string
  sa_triton_version :: string
  sa_gpu_arch :: string
  sa_compile_config_digest :: string

definition default_attributes :: SourceAttributesJson where
  "default_attributes = \<lparr>sa_model_name = [], sa_mx_version = [], sa_mx_source_type = 0, sa_backend_framework = 0,
     sa_tensor_parallel_size = 0, sa_pipeline_parallel_size = 0, sa_expert_parallel_size = 0, sa_dtype = [],
     sa_quantization = [], sa_extra_parameters = [], sa_revision = [], sa_backend_framework_version = [],
     sa_torch_version = [], sa_cuda_version = [], sa_triton_version = [], sa_gpu_arch = [], sa_compile_config_digest = []\<rparr>"

definition attributes_from :: "SourceIdentity \<Rightarrow> SourceAttributesJson" where
  "attributes_from i =
     \<lparr>sa_model_name = si_model_name i, sa_mx_version = si_mx_version i, sa_mx_source_type = si_mx_source_type i,
       sa_backend_framework = si_backend_framework i, sa_tensor_parallel_size = si_tensor_parallel_size i,
       sa_pipeline_parallel_size = si_pipeline_parallel_size i, sa_expert_parallel_size = si_expert_parallel_size i,
       sa_dtype = si_dtype i, sa_quantization = si_quantization i, sa_extra_parameters = si_extra_parameters i,
       sa_revision = si_revision i, sa_backend_framework_version = si_backend_framework_version i,
       sa_torch_version = si_torch_version i, sa_cuda_version = si_cuda_version i, sa_triton_version = si_triton_version i,
       sa_gpu_arch = si_gpu_arch i, sa_compile_config_digest = si_compile_config_digest i\<rparr>"

definition to_source_identity :: "SourceAttributesJson \<Rightarrow> SourceIdentity" where
  "to_source_identity a =
     \<lparr>si_mx_version = sa_mx_version a, si_mx_source_type = sa_mx_source_type a, si_model_name = sa_model_name a,
       si_backend_framework = sa_backend_framework a, si_tensor_parallel_size = sa_tensor_parallel_size a,
       si_pipeline_parallel_size = sa_pipeline_parallel_size a, si_expert_parallel_size = sa_expert_parallel_size a,
       si_dtype = sa_dtype a, si_quantization = sa_quantization a, si_extra_parameters = sa_extra_parameters a,
       si_revision = sa_revision a, si_backend_framework_version = sa_backend_framework_version a,
       si_torch_version = sa_torch_version a, si_cuda_version = sa_cuda_version a, si_triton_version = sa_triton_version a,
       si_gpu_arch = sa_gpu_arch a, si_compile_config_digest = sa_compile_config_digest a\<rparr>"

record TensorRecordJson =
  tj_name :: string
  tj_addr :: u64
  tj_size :: u64
  tj_device_id :: u32
  tj_dtype :: string

record ArtifactSourceMetadataJson =
  aj_artifact_id :: string
  aj_total_size :: u64
  aj_file_count :: u32
  aj_chunk_count :: u32
  aj_node_rank :: u32

record WorkerRecordJson =
  wj_worker_rank :: u32
  wj_backend_type :: "string option"
  wj_nixl_metadata :: "u8 list"
  wj_transfer_engine_session_id :: "string option"
  wj_tensors :: "TensorRecordJson list"
  wj_status :: int
  wj_updated_at :: int
  wj_metadata_endpoint :: string
  wj_agent_name :: string
  wj_worker_grpc_endpoint :: string
  wj_accelerator :: string
  wj_source_load :: "f32 option"
  wj_topology :: params
  wj_artifact_source :: "ArtifactSourceMetadataJson option"
  wj_owner_namespace :: "string option"

record WorkerSummaryJson =
  sy_worker_rank :: u32
  sy_status :: int
  sy_updated_at :: int
  sy_accelerator :: string
  sy_source_load :: "f32 option"
  sy_topology :: params
  sy_owner_namespace :: "string option"

text \<open>A number of a tensor is printed as a string; readers also take what other writers print.\<close>

datatype json_scalar = JUnsigned nat | JSigned int | JFloat int | JString string

definition serialize_u64_as_string :: "u64 \<Rightarrow> json_scalar" where
  "serialize_u64_as_string v = JString (show_nat (unat v))"

definition deserialize_u64_from_any :: "json_scalar \<Rightarrow> u64 option" where
  "deserialize_u64_from_any j =
     (case j of
        JUnsigned v \<Rightarrow> Some (of_nat v)
      | JSigned v \<Rightarrow> if v < 0 then None else Some (of_int v)
      | JFloat v \<Rightarrow> Some (of_nat (min (nat v) u64_max))
      | JString t \<Rightarrow> map_option of_nat (parse_u64 t))"

definition tensor_json_from :: "TensorRecord \<Rightarrow> TensorRecordJson" where
  "tensor_json_from r = \<lparr>tj_name = tr_name r, tj_addr = tr_addr r, tj_size = tr_size r,
     tj_device_id = tr_device_id r, tj_dtype = tr_dtype r\<rparr>"

definition tensor_from_json :: "TensorRecordJson \<Rightarrow> TensorRecord" where
  "tensor_from_json j = \<lparr>tr_name = tj_name j, tr_addr = tj_addr j, tr_size = tj_size j,
     tr_device_id = tj_device_id j, tr_dtype = tj_dtype j\<rparr>"

definition artifact_json_from :: "ArtifactSourceMetadataRecord \<Rightarrow> ArtifactSourceMetadataJson" where
  "artifact_json_from r = \<lparr>aj_artifact_id = ar_artifact_id r, aj_total_size = ar_total_size r,
     aj_file_count = ar_file_count r, aj_chunk_count = ar_chunk_count r, aj_node_rank = ar_node_rank r\<rparr>"

definition artifact_from_json :: "ArtifactSourceMetadataJson \<Rightarrow> ArtifactSourceMetadataRecord" where
  "artifact_from_json j = \<lparr>ar_artifact_id = aj_artifact_id j, ar_total_size = aj_total_size j,
     ar_file_count = aj_file_count j, ar_chunk_count = aj_chunk_count j, ar_node_rank = aj_node_rank j\<rparr>"

definition from_worker_record :: "WorkerRecord \<Rightarrow> WorkerRecordJson" where
  "from_worker_record r =
     (let (nixl_metadata, session) =
            (case wr_backend_metadata r of Nixl d \<Rightarrow> (d, None) | TransferEngine sid \<Rightarrow> ([], Some sid) | NoBackend \<Rightarrow> ([], None))
      in \<lparr>wj_worker_rank = wr_worker_rank r, wj_backend_type = Some (backend_type_str (wr_backend_metadata r)),
          wj_nixl_metadata = nixl_metadata, wj_transfer_engine_session_id = session,
          wj_tensors = map tensor_json_from (wr_tensors r), wj_status = wr_status r, wj_updated_at = wr_updated_at r,
          wj_metadata_endpoint = wr_metadata_endpoint r, wj_agent_name = wr_agent_name r,
          wj_worker_grpc_endpoint = wr_worker_grpc_endpoint r, wj_accelerator = wr_accelerator r,
          wj_source_load = wr_source_load r, wj_topology = wr_topology r,
          wj_artifact_source = map_option artifact_json_from (wr_artifact_source r), wj_owner_namespace = None\<rparr>)"

definition worker_from_json :: "WorkerRecordJson \<Rightarrow> WorkerRecord" where
  "worker_from_json j =
     \<lparr>wr_worker_rank = wj_worker_rank j,
       wr_backend_metadata = from_flat (wj_nixl_metadata j) (wj_transfer_engine_session_id j) (wj_backend_type j),
       wr_tensors = map tensor_from_json (wj_tensors j), wr_status = wj_status j, wr_updated_at = wj_updated_at j,
       wr_metadata_endpoint = wj_metadata_endpoint j, wr_agent_name = wj_agent_name j,
       wr_worker_grpc_endpoint = wj_worker_grpc_endpoint j, wr_accelerator = wj_accelerator j,
       wr_source_load = wj_source_load j, wr_topology = wj_topology j,
       wr_artifact_source = map_option artifact_from_json (wj_artifact_source j)\<rparr>"

subsection \<open>Texts, hashes and keys\<close>

datatype json_text = RecordText WorkerRecordJson | SummaryText WorkerSummaryJson
  | AttributesText SourceAttributesJson | PlainText string

definition json_load :: "f32 option \<Rightarrow> f32 option" where
  "json_load load = (case load of Some v \<Rightarrow> if f32_is_finite v then Some v else None | None \<Rightarrow> None)"

definition write_record :: "WorkerRecordJson \<Rightarrow> json_text" where
  "write_record j = RecordText (j\<lparr>wj_source_load := json_load (wj_source_load j)\<rparr>)"

definition write_summary :: "WorkerSummaryJson \<Rightarrow> json_text" where
  "write_summary j = SummaryText (j\<lparr>sy_source_load := json_load (sy_source_load j)\<rparr>)"

text \<open>Parsing as a struct ignores unknown fields and wants every field that has no default.\<close>

fun parse_record :: "json_text \<Rightarrow> WorkerRecordJson option" where
  "parse_record (RecordText j) = Some j"
| "parse_record _ = None"

fun parse_summary :: "json_text \<Rightarrow> WorkerSummaryJson option" where
  "parse_summary (SummaryText j) = Some j"
| "parse_summary (RecordText j) = Some \<lparr>sy_worker_rank = wj_worker_rank j, sy_status = wj_status j,
     sy_updated_at = wj_updated_at j, sy_accelerator = wj_accelerator j, sy_source_load = wj_source_load j,
     sy_topology = wj_topology j, sy_owner_namespace = wj_owner_namespace j\<rparr>"
| "parse_summary _ = None"

fun parse_attributes :: "json_text \<Rightarrow> SourceAttributesJson option" where
  "parse_attributes (AttributesText j) = Some j"
| "parse_attributes _ = None"

fun parse_rank :: "json_text \<Rightarrow> u32 option" where
  "parse_rank (PlainText t) = parse_u32 t"
| "parse_rank _ = None"

type_synonym redis_hash = "(string, json_text) hash_map"
type_synonym p2p_db = "(string, redis_hash) hash_map"

definition hash_at :: "p2p_db \<Rightarrow> string \<Rightarrow> redis_hash" where
  "hash_at db k = or_default [] (hm_get db k)"

definition set_hash :: "string \<Rightarrow> redis_hash \<Rightarrow> p2p_db \<Rightarrow> p2p_db" where
  "set_hash k h db = (if h = [] then hm_remove k db else hm_insert k h db)"

definition redis_hset :: "string \<Rightarrow> string \<Rightarrow> json_text \<Rightarrow> p2p_db \<Rightarrow> p2p_db" where
  "redis_hset k f v db = set_hash k (hm_insert f v (hash_at db k)) db"

definition redis_hdel :: "string \<Rightarrow> string \<Rightarrow> p2p_db \<Rightarrow> p2p_db" where
  "redis_hdel k f db = set_hash k (hm_remove f (hash_at db k)) db"

definition redis_del :: "string \<Rightarrow> p2p_db \<Rightarrow> p2p_db" where
  "redis_del k db = hm_remove k db"

definition SOURCE_PREFIX :: string where "SOURCE_PREFIX = ''mx:source:''"
definition ATTRIBUTES_FIELD :: string where "ATTRIBUTES_FIELD = ''__attributes__''"
definition STATUS_FIELD_PREFIX :: string where "STATUS_FIELD_PREFIX = ''status:''"

text \<open>The pattern is the prefix followed by one question mark for each of sixteen characters.\<close>

definition matches_source_pattern :: "string \<Rightarrow> bool" where
  "matches_source_pattern k = (starts_with SOURCE_PREFIX k \<and> length k = length SOURCE_PREFIX + 16)"

definition source_key :: "string \<Rightarrow> string" where
  "source_key source_id = SOURCE_PREFIX @ source_id"

definition worker_key :: "string \<Rightarrow> string \<Rightarrow> string" where
  "worker_key source_id worker_id = SOURCE_PREFIX @ source_id @ '':'' @ worker_id"

definition rank_field :: "u32 \<Rightarrow> string" where
  "rank_field worker_rank = show_nat (unat worker_rank)"

definition status_field :: "u32 \<Rightarrow> string" where
  "status_field worker_rank = STATUS_FIELD_PREFIX @ show_nat (unat worker_rank)"

text \<open>A scan runs through cursors until the server answers zero; each answer carries a batch.\<close>

definition scan_keys :: "string list list \<Rightarrow> string list" where
  "scan_keys batches = concat batches"

definition key_source_id :: "string \<Rightarrow> string" where
  "key_source_id k = drop (length SOURCE_PREFIX) k"

subsection \<open>The Lua scripts\<close>

definition remove_worker_lua :: "string \<Rightarrow> string \<Rightarrow> string \<Rightarrow> string \<Rightarrow> p2p_db \<Rightarrow> nat \<times> p2p_db" where
  "remove_worker_lua wkey skey worker_id attributes db =
     (let db1 = redis_hdel skey worker_id (redis_del wkey db);
          remaining = length (hash_at db1 skey)
      in if remaining = 0 \<or> remaining = 1 \<and> hm_get (hash_at db1 skey) attributes \<noteq> None
         then (remaining, redis_del skey db1) else (remaining, db1))"

text \<open>
  \<^verbatim>\<open>tonumber\<close> of a text, and what a decoded table holds under \<^verbatim>\<open>updated_at\<close> and
  \<^verbatim>\<open>worker_rank\<close>.
\<close>

fun lua_number :: "json_text \<Rightarrow> nat option" where
  "lua_number (PlainText t) = (if t = [] then None else digits_value 0 t)"
| "lua_number _ = None"

fun lua_updated_at :: "json_text \<Rightarrow> int option" where
  "lua_updated_at (SummaryText j) = Some (sy_updated_at j)"
| "lua_updated_at (RecordText j) = Some (wj_updated_at j)"
| "lua_updated_at _ = None"

fun lua_worker_rank :: "json_text \<Rightarrow> nat option" where
  "lua_worker_rank (SummaryText j) = Some (unat (sy_worker_rank j))"
| "lua_worker_rank (RecordText j) = Some (unat (wj_worker_rank j))"
| "lua_worker_rank _ = None"

definition lua_newer :: "int \<Rightarrow> json_text option \<Rightarrow> bool" where
  "lua_newer incoming current =
     (case Option.bind current lua_updated_at of Some t \<Rightarrow> t > incoming | None \<Rightarrow> False)"

definition update_source_summary :: "u32 \<Rightarrow> int \<Rightarrow> json_text option \<Rightarrow> bool" where
  "update_source_summary rank incoming row =
     (case row of
        None \<Rightarrow> True
      | Some t \<Rightarrow>
          (case lua_number t of
             Some n \<Rightarrow> n = unat rank
           | None \<Rightarrow> lua_worker_rank t = Some (unat rank) \<and> \<not> lua_newer incoming row))"

definition update_status_if_fresh_lua ::
  "string \<Rightarrow> string \<Rightarrow> u32 \<Rightarrow> string \<Rightarrow> json_text \<Rightarrow> int \<Rightarrow> p2p_db \<Rightarrow> int \<times> p2p_db" where
  "update_status_if_fresh_lua wkey skey rank worker_id summary incoming db =
     (if hm_get (hash_at db wkey) (rank_field rank) = None then (- 1, db)
      else if lua_newer incoming (hm_get (hash_at db wkey) (status_field rank)) then (0, db)
      else (let row = hm_get (hash_at db skey) worker_id;
                db1 = redis_hset wkey (status_field rank) summary db
            in (1, if update_source_summary rank incoming row then redis_hset skey worker_id summary db1 else db1)))"

subsection \<open>Helpers\<close>

definition source_identity_from_attributes :: "json_text option \<Rightarrow> string \<times> SourceIdentity option" where
  "source_identity_from_attributes attr_json =
     (let attrs = Option.bind attr_json parse_attributes
      in (case attrs of Some a \<Rightarrow> sa_model_name a | None \<Rightarrow> [], map_option to_source_identity attrs))"

definition update_status_if_fresh ::
  "string \<Rightarrow> string \<Rightarrow> string \<Rightarrow> u32 \<Rightarrow> json_text \<Rightarrow> int \<Rightarrow> p2p_db \<Rightarrow> string + bool \<times> p2p_db" where
  "update_status_if_fresh wkey skey worker_id worker_rank summary updated_at db =
     (let (result, db') = update_status_if_fresh_lua wkey skey worker_rank worker_id summary updated_at db
      in if result = - 1 then Inl (''worker rank '' @ show_nat (unat worker_rank) @ '' not found in '' @ wkey)
         else if result = 0 then Inr (False, db')
         else if result = 1 then Inr (True, db')
         else Inl ''unexpected status update result'')"

definition overlay_status :: "redis_hash \<Rightarrow> u32 \<Rightarrow> int \<Rightarrow> int \<Rightarrow> f32 option \<Rightarrow> int \<times> int \<times> f32 option" where
  "overlay_status flds worker_rank record_status record_updated_at record_source_load =
     (case Option.bind (hm_get flds (status_field worker_rank)) parse_summary of
        Some summary \<Rightarrow>
          if record_updated_at \<le> sy_updated_at summary
          then (sy_status summary, sy_updated_at summary, sy_source_load summary)
          else (record_status, record_updated_at, record_source_load)
      | None \<Rightarrow> (record_status, record_updated_at, record_source_load))"

definition overlaid :: "redis_hash \<Rightarrow> u32 \<Rightarrow> WorkerRecordJson \<Rightarrow> int \<times> int \<times> f32 option" where
  "overlaid flds rank j = overlay_status flds rank (wj_status j) (wj_updated_at j) (wj_source_load j)"

definition worker_records_match_status :: "redis_hash \<Rightarrow> int \<Rightarrow> bool" where
  "worker_records_match_status flds required_status =
     list_ex (\<lambda>(field, value).
       if starts_with STATUS_FIELD_PREFIX field then False
       else (case parse_record value of
               Some rec \<Rightarrow> fst (overlaid flds (wj_worker_rank rec) rec) = required_status
             | None \<Rightarrow> False)) flds"

text \<open>What both listings take from the hash of a worker for the rank they report.\<close>

definition rank_view ::
  "redis_hash \<Rightarrow> u32 \<Rightarrow> int \<times> int \<times> string \<times> f32 option \<times> params \<times> string option" where
  "rank_view flds worker_rank =
     (case Option.bind (hm_get flds (rank_field worker_rank)) parse_record of
        Some j \<Rightarrow> (case overlaid flds worker_rank j of (status, updated_at, source_load) \<Rightarrow>
                    (status, updated_at, wj_accelerator j, source_load, wj_topology j, wj_owner_namespace j))
      | None \<Rightarrow> (0, 0, [], None, [], None))"

definition detailed_info ::
  "string \<Rightarrow> string \<Rightarrow> u32 \<Rightarrow> SourceAttributesJson \<Rightarrow> redis_hash \<Rightarrow> SourceInstanceInfo" where
  "detailed_info sid worker_id worker_rank attributes flds =
     (case rank_view flds worker_rank of (status, updated_at, accelerator, source_load, topology, owner) \<Rightarrow>
       \<lparr>ii_source_id = sid, ii_worker_id = worker_id, ii_model_name = sa_model_name attributes,
         ii_worker_rank = worker_rank, ii_status = status, ii_updated_at = updated_at, ii_accelerator = accelerator,
         ii_source_load = source_load, ii_topology = topology,
         ii_training_step = parse_training_step (sa_extra_parameters attributes),
         ii_layout_signature = parse_layout_signature (sa_extra_parameters attributes), ii_owner_namespace = owner\<rparr>)"

definition summary_info ::
  "string \<Rightarrow> string \<Rightarrow> SourceAttributesJson \<Rightarrow> WorkerSummaryJson \<Rightarrow> SourceInstanceInfo" where
  "summary_info sid worker_id attributes summary =
     \<lparr>ii_source_id = sid, ii_worker_id = worker_id, ii_model_name = sa_model_name attributes,
       ii_worker_rank = sy_worker_rank summary, ii_status = sy_status summary, ii_updated_at = sy_updated_at summary,
       ii_accelerator = sy_accelerator summary, ii_source_load = sy_source_load summary, ii_topology = sy_topology summary,
       ii_training_step = parse_training_step (sa_extra_parameters attributes),
       ii_layout_signature = parse_layout_signature (sa_extra_parameters attributes),
       ii_owner_namespace = sy_owner_namespace summary\<rparr>"

definition hash_attributes :: "redis_hash \<Rightarrow> SourceAttributesJson" where
  "hash_attributes instance_map =
     or_default default_attributes (Option.bind (hm_get instance_map ATTRIBUTES_FIELD) parse_attributes)"

definition worker_rows :: "redis_hash \<Rightarrow> (string \<times> json_text) list" where
  "worker_rows instance_map = filter (\<lambda>(k, v). k \<noteq> ATTRIBUTES_FIELD) instance_map"

definition listed_rank :: "json_text \<Rightarrow> u32" where
  "listed_rank row =
     (case parse_rank row of
        Some r \<Rightarrow> r
      | None \<Rightarrow> (case parse_summary row of Some summary \<Rightarrow> sy_worker_rank summary | None \<Rightarrow> 0))"

subsection \<open>The trait methods\<close>

definition published_summary :: "WorkerRecord \<Rightarrow> string option \<Rightarrow> WorkerSummaryJson" where
  "published_summary r owner_namespace =
     \<lparr>sy_worker_rank = wr_worker_rank r, sy_status = wr_status r, sy_updated_at = wr_updated_at r,
       sy_accelerator = wr_accelerator r, sy_source_load = wr_source_load r, sy_topology = wr_topology r,
       sy_owner_namespace = owner_namespace\<rparr>"

text \<open>
  The commands of the pipeline a publication sends. The pipeline is not a transaction: Redis may
  run commands of other clients between them, which \<open>pipelined\<close> puts there. A publication by
  itself is the pipeline with nothing in between.
\<close>

definition publish_commands ::
  "string \<Rightarrow> SourceIdentity \<Rightarrow> string \<Rightarrow> WorkerMetadata \<Rightarrow> string option \<Rightarrow> (p2p_db \<Rightarrow> p2p_db) list" where
  "publish_commands source_id identity worker_id worker owner_namespace =
     (let wkey = worker_key source_id worker_id;
          skey = source_key source_id;
          r = worker_record_from worker;
          attr = AttributesText (attributes_from identity);
          value = write_record ((from_worker_record r)\<lparr>wj_owner_namespace := owner_namespace\<rparr>);
          summary = write_summary (published_summary r owner_namespace)
      in [redis_hset wkey (rank_field (wr_worker_rank r)) value,
          redis_hset wkey (status_field (wr_worker_rank r)) summary,
          redis_hset skey ATTRIBUTES_FIELD attr,
          redis_hset skey worker_id summary])"

fun pipelined :: "(nat \<Rightarrow> p2p_db \<Rightarrow> p2p_db) \<Rightarrow> (p2p_db \<Rightarrow> p2p_db) list \<Rightarrow> p2p_db \<Rightarrow> p2p_db" where
  "pipelined between [] db = db"
| "pipelined between (command # rest) db = pipelined between rest (command (between (length rest) db))"

definition redis_publish_metadata ::
  "(SourceIdentity \<Rightarrow> string) \<Rightarrow> SourceIdentity \<Rightarrow> string \<Rightarrow> WorkerMetadata \<Rightarrow> string option \<Rightarrow> p2p_db \<Rightarrow> p2p_db" where
  "redis_publish_metadata source_id_of identity worker_id worker owner_namespace =
     pipelined (\<lambda>_ db. db) (publish_commands (source_id_of identity) identity worker_id worker owner_namespace)"

text \<open>The loop over the fields of a worker's hash, in the order the map yields them.\<close>

fun collect_ranks ::
  "redis_hash \<Rightarrow> (string \<times> json_text) list \<Rightarrow> string option \<Rightarrow> WorkerRecord list
   \<Rightarrow> string + string option \<times> WorkerRecord list" where
  "collect_ranks flds [] owner workers = Inr (owner, workers)"
| "collect_ranks flds ((field, value) # rest) owner workers =
     (if starts_with STATUS_FIELD_PREFIX field then collect_ranks flds rest owner workers
      else (case parse_record value of
              None \<Rightarrow> Inl ''invalid worker record''
            | Some j \<Rightarrow>
                (let w = worker_from_json j;
                     (status, updated_at, source_load) =
                       overlay_status flds (wr_worker_rank w) (wr_status w) (wr_updated_at w) (wr_source_load w)
                 in collect_ranks flds rest
                      (case owner of Some o1 \<Rightarrow> Some o1 | None \<Rightarrow> wj_owner_namespace j)
                      (workers @ [w\<lparr>wr_status := status, wr_updated_at := updated_at, wr_source_load := source_load\<rparr>]))))"

definition redis_get_metadata :: "string \<Rightarrow> string \<Rightarrow> p2p_db \<Rightarrow> string + ModelMetadataRecord option" where
  "redis_get_metadata source_id worker_id db =
     (let flds = hash_at db (worker_key source_id worker_id) in
      if flds = [] then Inr None
      else
        (let (model_name, identity) =
               source_identity_from_attributes (hm_get (hash_at db (source_key source_id)) ATTRIBUTES_FIELD)
         in case collect_ranks flds flds None [] of
              Inl e \<Rightarrow> Inl e
            | Inr (owner, workers) \<Rightarrow>
                Inr (Some \<lparr>mm_source_id = source_id, mm_worker_id = worker_id, mm_model_name = model_name,
                            mm_workers = sort_key wr_worker_rank workers, mm_published_at = 0,
                            mm_owner_namespace = owner, mm_identity = identity\<rparr>)))"

definition listed_sources :: "string option \<Rightarrow> string list \<Rightarrow> string list" where
  "listed_sources source_id scanned =
     (case source_id of Some sid \<Rightarrow> [sid] | None \<Rightarrow> map key_source_id scanned)"

definition redis_list_source :: "p2p_db \<Rightarrow> int option \<Rightarrow> string \<Rightarrow> SourceInstanceInfo list" where
  "redis_list_source db status_filter sid =
     (let instance_map = hash_at db (source_key sid);
          attributes = hash_attributes instance_map
      in List.map_filter (\<lambda>(iid, row).
           let worker_rank = listed_rank row;
               flds = hash_at db (worker_key sid iid)
           in if flds = [] then None
              else if \<not> is_none_or (worker_records_match_status flds) status_filter then None
              else Some (detailed_info sid iid worker_rank attributes flds)) (worker_rows instance_map))"

definition redis_list_workers :: "string list \<Rightarrow> string option \<Rightarrow> int option \<Rightarrow> p2p_db \<Rightarrow> SourceInstanceInfo list" where
  "redis_list_workers scanned source_id status_filter db =
     concat (map (redis_list_source db status_filter) (listed_sources source_id scanned))"

text \<open>A row of the pipelined listing: read from its summary, or looked up in a second phase.\<close>

datatype row_choice = RowSkipped | RowFast SourceInstanceInfo | RowDetailed u32

definition choose_row ::
  "int option \<Rightarrow> u32 option \<Rightarrow> int option \<Rightarrow> string \<Rightarrow> SourceAttributesJson \<Rightarrow> string \<times> json_text \<Rightarrow> row_choice" where
  "choose_row status_filter worker_rank_filter min_updated_at sid attributes entry =
     (let (worker_id, rank_text) = entry;
          summary = parse_summary rank_text;
          worker_rank = (case summary of
            Some s \<Rightarrow> sy_worker_rank s | None \<Rightarrow> or_default 0 (parse_rank rank_text))
      in if \<not> is_none_or (\<lambda>r. r = worker_rank) worker_rank_filter then RowSkipped
         else case summary of
                Some s \<Rightarrow>
                  if status_filter \<noteq> None then RowDetailed worker_rank
                  else if \<not> is_none_or (\<lambda>t. t \<le> sy_updated_at s) min_updated_at then RowSkipped
                  else RowFast (summary_info sid worker_id attributes s)
              | None \<Rightarrow> RowDetailed worker_rank)"

definition source_wanted :: "string option \<Rightarrow> nat option \<Rightarrow> SourceAttributesJson \<Rightarrow> bool" where
  "source_wanted model_name_filter min_training_step attributes =
     (is_none_or (\<lambda>m. sa_model_name attributes = m) model_name_filter
      \<and> is_none_or (\<lambda>step. case parse_training_step (sa_extra_parameters attributes) of
          Some v \<Rightarrow> step \<le> v | None \<Rightarrow> False) min_training_step)"

definition fast_rows ::
  "p2p_db \<Rightarrow> int option \<Rightarrow> string option \<Rightarrow> u32 option \<Rightarrow> nat option \<Rightarrow> int option \<Rightarrow> string \<Rightarrow> SourceInstanceInfo list" where
  "fast_rows db status_filter model rank min_step min_updated sid =
     (let instance_map = hash_at db (source_key sid);
          attributes = hash_attributes instance_map
      in if \<not> source_wanted model min_step attributes then []
         else List.map_filter (\<lambda>entry.
                case choose_row status_filter rank min_updated sid attributes entry of
                  RowFast info \<Rightarrow> Some info | _ \<Rightarrow> None) (worker_rows instance_map))"

definition detailed_rows ::
  "p2p_db \<Rightarrow> int option \<Rightarrow> string option \<Rightarrow> u32 option \<Rightarrow> nat option \<Rightarrow> int option \<Rightarrow> string
   \<Rightarrow> (string \<times> string \<times> u32 \<times> SourceAttributesJson) list" where
  "detailed_rows db status_filter model rank min_step min_updated sid =
     (let instance_map = hash_at db (source_key sid);
          attributes = hash_attributes instance_map
      in if \<not> source_wanted model min_step attributes then []
         else List.map_filter (\<lambda>entry.
                case choose_row status_filter rank min_updated sid attributes entry of
                  RowDetailed worker_rank \<Rightarrow> Some (sid, fst entry, worker_rank, attributes) | _ \<Rightarrow> None)
                (worker_rows instance_map))"

definition detailed_result ::
  "p2p_db \<Rightarrow> int option \<Rightarrow> int option \<Rightarrow> string \<times> string \<times> u32 \<times> SourceAttributesJson \<Rightarrow> SourceInstanceInfo option" where
  "detailed_result db status_filter min_updated_at row =
     (case row of (sid, worker_id, worker_rank, attributes) \<Rightarrow>
       (let flds = hash_at db (worker_key sid worker_id);
            info = detailed_info sid worker_id worker_rank attributes flds
        in if flds = [] then None
           else if \<not> is_none_or (worker_records_match_status flds) status_filter then None
           else if \<not> is_none_or (\<lambda>t. t \<le> ii_updated_at info) min_updated_at then None
           else Some info))"

definition redis_list_workers_filtered ::
  "string list \<Rightarrow> string option \<Rightarrow> int option \<Rightarrow> string option \<Rightarrow> u32 option \<Rightarrow> nat option \<Rightarrow> int option \<Rightarrow> nat option
   \<Rightarrow> p2p_db \<Rightarrow> SourceInstanceInfo list" where
  "redis_list_workers_filtered scanned source_id status_filter model rank min_step min_updated limit db =
     (let source_ids = listed_sources source_id scanned;
          fast = concat (map (fast_rows db status_filter model rank min_step min_updated) source_ids);
          detailed_selected = concat (map (detailed_rows db status_filter model rank min_step min_updated) source_ids);
          result = fast @ List.map_filter (detailed_result db status_filter min_updated) detailed_selected;
          sorted_result = sort_key (\<lambda>w. - ii_updated_at w) result
      in case limit of Some n \<Rightarrow> if n > 0 then take n sorted_result else sorted_result | None \<Rightarrow> sorted_result)"

definition redis_remove_metadata :: "string \<Rightarrow> p2p_db \<Rightarrow> p2p_db" where
  "redis_remove_metadata source_id db =
     redis_del (source_key source_id)
       (fold (\<lambda>(iid, row). redis_del (worker_key source_id iid)) (worker_rows (hash_at db (source_key source_id))) db)"

definition redis_remove_worker :: "string \<Rightarrow> string \<Rightarrow> p2p_db \<Rightarrow> p2p_db" where
  "redis_remove_worker source_id worker_id db =
     snd (remove_worker_lua (worker_key source_id worker_id) (source_key source_id) worker_id ATTRIBUTES_FIELD db)"

definition redis_list_sources :: "string list \<Rightarrow> p2p_db \<Rightarrow> (string \<times> string) list" where
  "redis_list_sources scanned db =
     List.map_filter (\<lambda>key.
       case hm_get (hash_at db key) ATTRIBUTES_FIELD of
         Some json \<Rightarrow> Some (key_source_id key, case parse_attributes json of Some a \<Rightarrow> sa_model_name a | None \<Rightarrow> [])
       | None \<Rightarrow> None) scanned"

text \<open>
  An update reads the status row of its rank, reads the record of the rank when there is no such
  row, and then runs the script. Each of the three is a round trip of its own, so the databases
  they meet are three arguments.
\<close>

definition carried ::
  "redis_hash \<Rightarrow> redis_hash \<Rightarrow> u32 \<Rightarrow> string \<Rightarrow> string + string \<times> params \<times> string option" where
  "carried flds later_flds worker_rank missing =
     (case Option.bind (hm_get flds (status_field worker_rank)) parse_summary of
        Some summary \<Rightarrow> Inr (sy_accelerator summary, sy_topology summary, sy_owner_namespace summary)
      | None \<Rightarrow>
          (case hm_get later_flds (rank_field worker_rank) of
             None \<Rightarrow> Inl missing
           | Some json_str \<Rightarrow>
               (case parse_record json_str of
                  Some j \<Rightarrow> Inr (wj_accelerator j, wj_topology j, wj_owner_namespace j)
                | None \<Rightarrow> Inl ''invalid worker record'')))"

definition redis_update_calls ::
  "string \<Rightarrow> string \<Rightarrow> u32 \<Rightarrow> int \<Rightarrow> int \<Rightarrow> f32 option \<Rightarrow> p2p_db \<Rightarrow> p2p_db \<Rightarrow> p2p_db \<Rightarrow> string + p2p_db" where
  "redis_update_calls source_id worker_id worker_rank status updated_at source_load at_status at_record at_script =
     (let key = worker_key source_id worker_id in
      case carried (hash_at at_status key) (hash_at at_record key) worker_rank
             (''update_status: rank '' @ show_nat (unat worker_rank) @ '' not found in source '' @ source_id
              @ '' worker '' @ worker_id) of
        Inl e \<Rightarrow> Inl e
      | Inr (accelerator, topology, owner_namespace) \<Rightarrow>
          (let summary = write_summary \<lparr>sy_worker_rank = worker_rank, sy_status = status, sy_updated_at = updated_at,
                 sy_accelerator = accelerator, sy_source_load = source_load, sy_topology = topology,
                 sy_owner_namespace = owner_namespace\<rparr>
           in case update_status_if_fresh key (source_key source_id) worker_id worker_rank summary updated_at at_script of
                Inl e \<Rightarrow> Inl e
              | Inr (updated, db') \<Rightarrow> Inr db'))"

text \<open>An update that nothing interrupts.\<close>

definition redis_update_status ::
  "string \<Rightarrow> string \<Rightarrow> u32 \<Rightarrow> int \<Rightarrow> int \<Rightarrow> f32 option \<Rightarrow> p2p_db \<Rightarrow> string + p2p_db" where
  "redis_update_status source_id worker_id worker_rank status updated_at source_load db =
     redis_update_calls source_id worker_id worker_rank status updated_at source_load db db db"

text \<open>The address logged on connection, with what follows the last colon before the host masked.\<close>

definition rsplit_once :: "char \<Rightarrow> string \<Rightarrow> (string \<times> string) option" where
  "rsplit_once c s =
     (case split_once c (rev s) of Some (b, a) \<Rightarrow> Some (rev a, rev b) | None \<Rightarrow> None)"

definition safe_url :: "string \<Rightarrow> string" where
  "safe_url url =
     (case rsplit_once CHR 0x40 url of
        None \<Rightarrow> url
      | Some (before, host) \<Rightarrow>
          (case rsplit_once CHR '':'' before of
             Some (user, password) \<Rightarrow> user @ '':***'' @ [CHR 0x40] @ host
           | None \<Rightarrow> url))"

end
