(* ===== verification/P2p_Redis_Rows.thy ===== *)
theory P2p_Redis_Rows
  imports P2p_Redis
begin

text \<open>
  Properties of the Redis backend of the peer-to-peer store (\<open>P2p_Redis\<close>).

  The rows of a database that calls with well-formed ids produce are consistent: the row of a worker in the hash of its source
  is the status row of the rank it names, and describes the record of that rank. From this it
  follows that the pipelined listing from summaries answers what the plain one does, that what
  is published is found, that heartbeats converge, and that the backend keeps the contract
  \<open>metadata_backend\<close> of the reaper. An update that is interrupted between its calls acts as one at
  the moment of its script, as long as publications do not change a worker's accelerator,
  topology and owner; when they do, or when a publication itself is interrupted, the two listings
  may part. Ids with a colon or the reserved name of the attributes row
  break other workers' rows, and a password with a colon is logged in part.
\<close>

subsection \<open>Keys and fields\<close>

lemma json_load_None [simp]: "json_load None = None"
  by (simp add: json_load_def)

lemma hash_set_hash [simp]: "hash_at (set_hash k h db) k' = (if k' = k then h else hash_at db k')"
  by (simp add: hash_at_def set_hash_def hm_simps or_default_def)

lemma hash_hset: "hash_at (redis_hset k f v db) k' = (if k' = k then hm_insert f v (hash_at db k) else hash_at db k')"
  and hash_hdel: "hash_at (redis_hdel k f db) k' = (if k' = k then hm_remove f (hash_at db k) else hash_at db k')"
  and hash_del: "hash_at (redis_del k db) k' = (if k' = k then [] else hash_at db k')"
  by (simp_all add: redis_hset_def redis_hdel_def redis_del_def) (simp add: hash_at_def hm_simps or_default_def)

lemma rank_field_inj [simp]: "rank_field a = rank_field b \<longleftrightarrow> a = b"
  by (simp add: rank_field_def show_nat_inj word_unat_eq_iff)

lemma status_field_inj [simp]: "status_field a = status_field b \<longleftrightarrow> a = b"
  by (simp add: status_field_def show_nat_inj word_unat_eq_iff)

lemma rank_not_status [simp]: "\<not> starts_with STATUS_FIELD_PREFIX (rank_field r)" "rank_field r \<noteq> status_field q"
  "starts_with STATUS_FIELD_PREFIX (status_field q)"
proof -
  have "CHR '':'' \<notin> set (rank_field r)"
    unfolding rank_field_def by (rule show_nat_free) (simp add: digit_value_def)
  moreover have "CHR '':'' \<in> set (STATUS_FIELD_PREFIX @ t)" for t by (simp add: STATUS_FIELD_PREFIX_def)
  ultimately show "\<not> starts_with STATUS_FIELD_PREFIX (rank_field r)" "rank_field r \<noteq> status_field q"
    by (metis starts_with_iff, metis status_field_def)
  show "starts_with STATUS_FIELD_PREFIX (status_field q)" by (auto simp: status_field_def starts_with_iff)
qed

lemma status_not_rank [simp]: "status_field q \<noteq> rank_field r"
  by (rule not_sym) (rule rank_not_status(2))

lemma source_key_inj [simp]: "source_key a = source_key b \<longleftrightarrow> a = b"
  by (simp add: source_key_def)

lemma worker_key_inj: "length a = length c \<Longrightarrow> worker_key a b = worker_key c d \<longleftrightarrow> a = c \<and> b = d"
  by (auto simp: worker_key_def)

lemma source_not_worker [simp]:
  "length a = length c \<Longrightarrow> source_key a \<noteq> worker_key c d" "length a = length c \<Longrightarrow> worker_key c d \<noteq> source_key a"
  by (auto simp: source_key_def worker_key_def dest: arg_cong [of _ _ length])

lemma pattern_iff: "matches_source_pattern k \<longleftrightarrow> (\<exists>sid. k = source_key sid \<and> length sid = 16)"
  by (auto simp: matches_source_pattern_def starts_with_iff source_key_def)

lemma key_source_id_key [simp]: "key_source_id (source_key sid) = sid"
  by (simp add: key_source_id_def source_key_def)

lemma u64_scalar_roundtrip: "deserialize_u64_from_any (serialize_u64_as_string v) = Some v"
proof -
  have "unat v \<le> u64_max" using unsigned_less [of v, where ?'a = nat] by (simp add: u64_max_def)
  then show ?thesis by (simp add: deserialize_u64_from_any_def serialize_u64_as_string_def parse_u64_def parse_uint_show_nat)
qed

lemma redis_publish_plain:
  "redis_publish_metadata f i wid worker owner db =
     (let r = worker_record_from worker; summary = write_summary (published_summary r owner)
      in redis_hset (source_key (f i)) wid summary
           (redis_hset (source_key (f i)) ATTRIBUTES_FIELD (AttributesText (attributes_from i))
             (redis_hset (worker_key (f i) wid) (status_field (wr_worker_rank r)) summary
               (redis_hset (worker_key (f i) wid) (rank_field (wr_worker_rank r))
                 (write_record ((from_worker_record r)\<lparr>wj_owner_namespace := owner\<rparr>)) db))))"
  by (simp add: redis_publish_metadata_def publish_commands_def Let_def)

subsection \<open>Consistent databases\<close>

text \<open>The status row of a rank describes the record of the rank and is at least as recent.\<close>

definition describes :: "WorkerSummaryJson \<Rightarrow> WorkerRecordJson \<Rightarrow> bool" where
  "describes s j \<longleftrightarrow> sy_worker_rank s = wj_worker_rank j \<and> sy_accelerator s = wj_accelerator j
     \<and> sy_topology s = wj_topology j \<and> sy_owner_namespace s = wj_owner_namespace j \<and> wj_updated_at j \<le> sy_updated_at s"

definition worker_hash_ok :: "redis_hash \<Rightarrow> json_text \<Rightarrow> bool" where
  "worker_hash_ok flds row \<longleftrightarrow> hm_ok flds
     \<and> (\<forall>f v. hm_get flds f = Some v \<longrightarrow> \<not> starts_with STATUS_FIELD_PREFIX f \<longrightarrow>
          (\<exists>j s. v = RecordText j \<and> f = rank_field (wj_worker_rank j)
             \<and> hm_get flds (status_field (wj_worker_rank j)) = Some (SummaryText s) \<and> describes s j))
     \<and> (\<exists>s. row = SummaryText s \<and> hm_get flds (rank_field (sy_worker_rank s)) \<noteq> None
          \<and> hm_get flds (status_field (sy_worker_rank s)) = Some row)"

definition source_hash_ok :: "p2p_db \<Rightarrow> string \<Rightarrow> bool" where
  "source_hash_ok db sid \<longleftrightarrow>
     (let rows = hash_at db (source_key sid) in
      hm_ok rows
      \<and> (rows \<noteq> [] \<longrightarrow> (\<exists>a. hm_get rows ATTRIBUTES_FIELD = Some (AttributesText a)))
      \<and> (\<forall>b row. b \<noteq> ATTRIBUTES_FIELD \<longrightarrow> hm_get rows b = Some row \<longrightarrow> worker_hash_ok (hash_at db (worker_key sid b)) row)
      \<and> (\<forall>b. hash_at db (worker_key sid b) \<noteq> [] \<longrightarrow> b \<noteq> ATTRIBUTES_FIELD \<and> hm_get rows b \<noteq> None))"

definition db_ok :: "p2p_db \<Rightarrow> bool" where
  "db_ok db \<longleftrightarrow> hm_ok db \<and> (\<forall>k. hm_get db k \<noteq> Some []) \<and> (\<forall>sid. length sid = 16 \<longrightarrow> source_hash_ok db sid)"

lemma rank_record:
  assumes "worker_hash_ok flds row" and "hm_get flds (rank_field r) \<noteq> None"
  obtains j s where "hm_get flds (rank_field r) = Some (RecordText j)" "wj_worker_rank j = r"
    "hm_get flds (status_field r) = Some (SummaryText s)" "describes s j"
proof -
  from assms(2) obtain v where v: "hm_get flds (rank_field r) = Some v" by blast
  from assms(1) v rank_not_status(1) [of r] obtain j s where "v = RecordText j" "rank_field r = rank_field (wj_worker_rank j)"
    "hm_get flds (status_field (wj_worker_rank j)) = Some (SummaryText s)" "describes s j"
    unfolding worker_hash_ok_def by blast
  with v show ?thesis by (intro that [of j s]) simp_all
qed

lemma overlaid_summary:
  "hm_get flds (status_field r) = Some (SummaryText s) \<Longrightarrow> describes s j \<Longrightarrow>
     overlaid flds r j = (sy_status s, sy_updated_at s, sy_source_load s)"
  by (simp add: overlaid_def overlay_status_def describes_def)

lemma detailed_is_summary:
  assumes "worker_hash_ok flds (SummaryText s)"
  shows "detailed_info sid b (sy_worker_rank s) attributes flds = summary_info sid b attributes s"
proof -
  have here: "hm_get flds (rank_field (sy_worker_rank s)) \<noteq> None"
    and st: "hm_get flds (status_field (sy_worker_rank s)) = Some (SummaryText s)"
    using assms by (auto simp: worker_hash_ok_def)
  from rank_record [OF assms here] obtain j where j: "hm_get flds (rank_field (sy_worker_rank s)) = Some (RecordText j)"
    "describes s j" using st by auto
  then show ?thesis
    by (simp add: detailed_info_def rank_view_def overlaid_summary [OF st j(2)] summary_info_def)
      (simp add: describes_def)
qed

subsection \<open>The listings agree\<close>

lemma filter_map_filter:
  "filter p (List.map_filter f xs) = List.map_filter (\<lambda>x. case f x of Some y \<Rightarrow> if p y then Some y else None | None \<Rightarrow> None) xs"
  by (induction xs) (auto split: option.splits)

lemma map_filter_map_filter2: "List.map_filter g (List.map_filter f xs) = List.map_filter (\<lambda>x. Option.bind (f x) g) xs"
  by (induction xs) (auto split: option.splits)

lemma map_filter_concat: "List.map_filter f (concat xss) = concat (map (List.map_filter f) xss)"
proof (induction xss)
  case (Cons xs xss)
  have "List.map_filter f (xs @ ys) = List.map_filter f xs @ List.map_filter f ys" for ys
    by (induction xs) (auto split: option.splits)
  with Cons show ?case by simp
qed simp

lemma map_filter_eqI: "(\<And>x. x \<in> set xs \<Longrightarrow> f x = g x) \<Longrightarrow> List.map_filter f xs = List.map_filter g xs"
  by (induction xs) (auto split: option.splits)

lemma row_is_summary:
  assumes "source_hash_ok db sid" and "(b, row) \<in> set (worker_rows (hash_at db (source_key sid)))"
  obtains s where "row = SummaryText s" "worker_hash_ok (hash_at db (worker_key sid b)) (SummaryText s)"
    "hash_at db (worker_key sid b) \<noteq> []"
proof -
  have "hm_get (hash_at db (source_key sid)) b = Some row" "b \<noteq> ATTRIBUTES_FIELD"
    using assms by (auto simp: worker_rows_def source_hash_ok_def hm_mem_iff Let_def)
  then have ok: "worker_hash_ok (hash_at db (worker_key sid b)) row"
    using assms(1) by (simp add: source_hash_ok_def Let_def)
  then obtain s where "row = SummaryText s" "hm_get (hash_at db (worker_key sid b)) (rank_field (sy_worker_rank s)) \<noteq> None"
    by (auto simp: worker_hash_ok_def)
  with ok show ?thesis by (intro that [of s]) auto
qed

text \<open>One row of the plain listing, with the filters of the other applied to it.\<close>

definition plain_row ::
  "p2p_db \<Rightarrow> int option \<Rightarrow> string \<Rightarrow> SourceAttributesJson \<Rightarrow> string \<times> json_text \<Rightarrow> SourceInstanceInfo option" where
  "plain_row db status_filter sid attributes = (\<lambda>(iid, row).
     let worker_rank = listed_rank row; flds = hash_at db (worker_key sid iid)
     in if flds = [] then None
        else if \<not> is_none_or (worker_records_match_status flds) status_filter then None
        else Some (detailed_info sid iid worker_rank attributes flds))"

lemma list_source_plain:
  "redis_list_source db st sid =
     List.map_filter (plain_row db st sid (hash_attributes (hash_at db (source_key sid)))) (worker_rows (hash_at db (source_key sid)))"
  by (simp add: redis_list_source_def plain_row_def Let_def)

lemma keep_summary:
  "keep_worker model rank min_step min_updated (summary_info sid b attributes s) \<longleftrightarrow>
     source_wanted model min_step attributes \<and> is_none_or (\<lambda>r. r = sy_worker_rank s) rank
     \<and> is_none_or (\<lambda>t. t \<le> sy_updated_at s) min_updated"
  by (auto simp: keep_worker_def source_wanted_def summary_info_def is_none_or_def split: option.splits)

lemma summary_updated [simp]: "ii_updated_at (summary_info sid b attributes s) = sy_updated_at s"
  by (simp add: summary_info_def)

lemma choose_summary:
  "choose_row st rank min_updated sid attributes (b, SummaryText s) =
     (if \<not> is_none_or (\<lambda>r. r = sy_worker_rank s) rank then RowSkipped
      else if st \<noteq> None then RowDetailed (sy_worker_rank s)
      else if \<not> is_none_or (\<lambda>t. t \<le> sy_updated_at s) min_updated then RowSkipped
      else RowFast (summary_info sid b attributes s))"
  by (simp add: choose_row_def)

lemma plain_summary:
  assumes "worker_hash_ok (hash_at db (worker_key sid b)) (SummaryText s)" "hash_at db (worker_key sid b) \<noteq> []"
  shows "plain_row db st sid attributes (b, SummaryText s) =
    (if is_none_or (worker_records_match_status (hash_at db (worker_key sid b))) st
     then Some (summary_info sid b attributes s) else None)"
  using assms by (simp add: plain_row_def listed_rank_def detailed_is_summary)

lemma concat_nothing [simp]: "concat (map (\<lambda>x. []) xs) = []"
  by (induction xs) simp_all

lemma map_filter_none: "(\<And>x. x \<in> set xs \<Longrightarrow> f x = None) \<Longrightarrow> List.map_filter f xs = []"
  by (induction xs) (auto split: option.splits)

lemma rows_agree:
  assumes "source_hash_ok db sid"
  shows "st = None \<Longrightarrow> detailed_rows db st model rank min_step min_updated sid = []"
    and "st \<noteq> None \<Longrightarrow> fast_rows db st model rank min_step min_updated sid = []"
    and "st = None \<Longrightarrow> fast_rows db st model rank min_step min_updated sid
      = filter (keep_worker model rank min_step min_updated) (redis_list_source db st sid)"
    and "st \<noteq> None \<Longrightarrow>
      List.map_filter (detailed_result db st min_updated) (detailed_rows db st model rank min_step min_updated sid)
      = filter (keep_worker model rank min_step min_updated) (redis_list_source db st sid)"
proof -
  let ?rows = "worker_rows (hash_at db (source_key sid))" and ?at = "hash_attributes (hash_at db (source_key sid))"
  let ?slow = "detailed_rows db st model rank min_step min_updated sid"
  let ?fast = "fast_rows db st model rank min_step min_updated sid"
  let ?plain = "filter (keep_worker model rank min_step min_updated) (redis_list_source db st sid)"
  note row = row_is_summary [OF assms]
  have plain: "?plain = List.map_filter (\<lambda>x. case plain_row db st sid ?at x of
      Some y \<Rightarrow> if keep_worker model rank min_step min_updated y then Some y else None | None \<Rightarrow> None) ?rows"
    unfolding list_source_plain filter_map_filter by simp
  have unwanted: "?plain = []" if "\<not> source_wanted model min_step ?at"
    unfolding plain using that by (intro map_filter_none) (auto elim!: row simp: plain_summary keep_summary)
  show "?slow = []" if "st = None"
    unfolding detailed_rows_def Let_def using that by (auto intro!: map_filter_none elim!: row simp: choose_summary)
  show "?fast = []" if "st \<noteq> None"
    unfolding fast_rows_def Let_def using that by (auto intro!: map_filter_none elim!: row simp: choose_summary)
  show "?fast = ?plain" if "st = None"
  proof (cases "source_wanted model min_step ?at")
    case False
    then show ?thesis unfolding unwanted [OF False] by (simp add: fast_rows_def Let_def)
  next
    case True
    then show ?thesis
      unfolding plain fast_rows_def Let_def
      by (auto intro!: map_filter_eqI elim!: row simp: that is_none_or_def [of _ None] plain_summary choose_summary keep_summary)
  qed
  show "List.map_filter (detailed_result db st min_updated) ?slow = ?plain" if "st \<noteq> None"
  proof (cases "source_wanted model min_step ?at")
    case False
    then show ?thesis unfolding unwanted [OF False] by (simp add: detailed_rows_def Let_def)
  next
    case True
    have "Option.bind (case choose_row st rank min_updated sid ?at x of
            RowDetailed r \<Rightarrow> Some (sid, fst x, r, ?at) | _ \<Rightarrow> None) (detailed_result db st min_updated)
        = (case plain_row db st sid ?at x of
            Some y \<Rightarrow> if keep_worker model rank min_step min_updated y then Some y else None | None \<Rightarrow> None)"
      if x: "x \<in> set ?rows" for x
    proof -
      obtain b t where bt: "x = (b, t)" by (cases x)
      from x [unfolded bt] show ?thesis
        by (rule row) (use True \<open>st \<noteq> None\<close> in
          \<open>simp add: bt plain_summary choose_summary keep_summary detailed_result_def detailed_is_summary Let_def\<close>)
    qed
    then show ?thesis
      unfolding plain detailed_rows_def Let_def using True by (simp add: map_filter_map_filter2 cong: map_filter_eqI)
  qed
qed

definition sources_ok :: "p2p_db \<Rightarrow> string option \<Rightarrow> string list \<Rightarrow> bool" where
  "sources_ok db source_id scanned \<longleftrightarrow> (\<forall>sid \<in> set (listed_sources source_id scanned). source_hash_ok db sid)"

lemma filtered_is_plain:
  assumes "sources_ok db source_id scanned"
  shows "redis_list_workers_filtered scanned source_id st model rank min_step min_updated limit db
    = list_workers_filtered (redis_list_workers scanned source_id st db) model rank min_step min_updated limit"
proof -
  let ?ids = "listed_sources source_id scanned"
  have "concat (map (fast_rows db st model rank min_step min_updated) ?ids)
      @ List.map_filter (detailed_result db st min_updated) (concat (map (detailed_rows db st model rank min_step min_updated) ?ids))
      = filter (keep_worker model rank min_step min_updated) (redis_list_workers scanned source_id st db)"
  proof (cases st)
    case None
    have "detailed_rows db st model rank min_step min_updated sid = []"
      "fast_rows db st model rank min_step min_updated sid = filter (keep_worker model rank min_step min_updated) (redis_list_source db st sid)"
      if "sid \<in> set ?ids" for sid
      using assms that rows_agree(1,3) [OF _ None] by (auto simp: sources_ok_def)
    then show ?thesis
      by (simp add: redis_list_workers_def filter_concat map_filter_concat comp_def cong: map_cong)
  next
    case (Some q)
    then have st: "st \<noteq> None" by simp
    have "fast_rows db st model rank min_step min_updated sid = []"
      "List.map_filter (detailed_result db st min_updated) (detailed_rows db st model rank min_step min_updated sid)
         = filter (keep_worker model rank min_step min_updated) (redis_list_source db st sid)"
      if "sid \<in> set ?ids" for sid
      using assms that rows_agree(2,4) [OF _ st] by (auto simp: sources_ok_def)
    then show ?thesis
      by (simp add: redis_list_workers_def filter_concat map_filter_concat comp_def cong: map_cong)
  qed
  then show ?thesis
    unfolding redis_list_workers_filtered_def list_workers_filtered_def Let_def by (simp only:)
qed

subsection \<open>Every operation keeps the rows consistent\<close>

lemma worker_hash_publish:
  assumes "flds = [] \<or> worker_hash_ok flds row" and "describes s j" "wj_worker_rank j = r"
  shows "worker_hash_ok (hm_insert (status_field r) (SummaryText s) (hm_insert (rank_field r) (RecordText j) flds)) (SummaryText s)"
proof -
  let ?h = "hm_insert (status_field r) (SummaryText s) (hm_insert (rank_field r) (RecordText j) flds)"
  have rank: "sy_worker_rank s = r" using assms(2,3) by (simp add: describes_def)
  have ok: "hm_ok flds" using assms(1) by (auto simp: worker_hash_ok_def)
  have "\<exists>j s. v = RecordText j \<and> f = rank_field (wj_worker_rank j)
      \<and> hm_get ?h (status_field (wj_worker_rank j)) = Some (SummaryText s) \<and> describes s j"
    if "hm_get ?h f = Some v" "\<not> starts_with STATUS_FIELD_PREFIX f" for f v
  proof (cases "f = rank_field r")
    case True
    with that assms(2,3) show ?thesis by (auto simp: hm_simps)
  next
    case False
    with that have old: "hm_get flds f = Some v" by (auto simp: hm_simps split: if_splits)
    with assms(1) have "worker_hash_ok flds row" by auto
    with old that(2) obtain j' s' where "v = RecordText j'" "f = rank_field (wj_worker_rank j')"
      "hm_get flds (status_field (wj_worker_rank j')) = Some (SummaryText s')" "describes s' j'"
      unfolding worker_hash_ok_def by blast
    with False show ?thesis by (auto simp: hm_simps)
  qed
  then show ?thesis unfolding worker_hash_ok_def using ok by (simp add: hm_simps rank)
qed

lemma worker_hash_update:
  assumes "worker_hash_ok flds row" "hm_get flds (rank_field r) = Some (RecordText j)" "describes s j"
    and "row' = (if lua_worker_rank row = Some (unat r) then SummaryText s else row)"
  shows "worker_hash_ok (hm_insert (status_field r) (SummaryText s) flds) row'"
proof -
  let ?h = "hm_insert (status_field r) (SummaryText s) flds"
  have r: "wj_worker_rank j = r" using rank_record [OF assms(1), of r] assms(2) by auto
  then have rs: "sy_worker_rank s = r" using assms(3) by (simp add: describes_def)
  have "\<exists>j s. v = RecordText j \<and> f = rank_field (wj_worker_rank j)
      \<and> hm_get ?h (status_field (wj_worker_rank j)) = Some (SummaryText s) \<and> describes s j"
    if "hm_get ?h f = Some v" "\<not> starts_with STATUS_FIELD_PREFIX f" for f v
  proof -
    have old: "hm_get flds f = Some v" using that by (auto simp: hm_simps split: if_splits)
    with assms(1) that(2) obtain j' s' where "v = RecordText j'" "f = rank_field (wj_worker_rank j')"
      "hm_get flds (status_field (wj_worker_rank j')) = Some (SummaryText s')" "describes s' j'"
      unfolding worker_hash_ok_def by blast
    with old assms(2,3) r show ?thesis by (cases "wj_worker_rank j' = r") (auto simp: hm_simps)
  qed
  moreover obtain s0 where s0: "row = SummaryText s0" "hm_get flds (rank_field (sy_worker_rank s0)) \<noteq> None"
    "hm_get flds (status_field (sy_worker_rank s0)) = Some row" using assms(1) by (auto simp: worker_hash_ok_def)
  then have "\<exists>s. row' = SummaryText s \<and> hm_get ?h (rank_field (sy_worker_rank s)) \<noteq> None
      \<and> hm_get ?h (status_field (sy_worker_rank s)) = Some row'"
    using assms(2,4) rs by (cases "sy_worker_rank s0 = r") (auto simp: hm_simps word_unat_eq_iff [of "sy_worker_rank s0" r, symmetric])
  ultimately show ?thesis using assms(1) unfolding worker_hash_ok_def by (auto simp: hm_simps)
qed

lemma db_keys: "db_ok db \<Longrightarrow> hm_ok (set_hash k h db) \<and> (\<forall>k'. hm_get (set_hash k h db) k' \<noteq> Some [])"
  by (auto simp: db_ok_def set_hash_def hm_simps split: if_splits)

lemma set_hash_keeps:
  assumes "hm_ok db" "\<forall>k. hm_get db k \<noteq> Some []"
  shows "hm_ok (set_hash k h db)" "\<forall>k'. hm_get (set_hash k h db) k' \<noteq> Some []"
  using assms by (auto simp: set_hash_def hm_simps split: if_splits)

lemma redis_del_keeps:
  assumes "hm_ok db" "\<forall>k. hm_get db k \<noteq> Some []"
  shows "hm_ok (redis_del k db)" "\<forall>k'. hm_get (redis_del k db) k' \<noteq> Some []"
  using assms by (auto simp: redis_del_def hm_simps)

lemma source_hash_frame:
  assumes "source_hash_ok db sid" and "hash_at db' (source_key sid) = hash_at db (source_key sid)"
    and "\<And>b. hash_at db' (worker_key sid b) = hash_at db (worker_key sid b)"
  shows "source_hash_ok db' sid"
  using assms unfolding source_hash_ok_def by simp

text \<open>Changing a worker and its row to a consistent pair.\<close>

lemma source_hash_set:
  assumes "source_hash_ok db sid" "b \<noteq> ATTRIBUTES_FIELD" "worker_hash_ok flds row"
    and "hash_at db' (source_key sid) = hm_insert b row rows" "hash_at db' (worker_key sid b) = flds"
    and "rows = hash_at db (source_key sid) \<or> (\<exists>a. rows = hm_insert ATTRIBUTES_FIELD (AttributesText a) (hash_at db (source_key sid)))"
    and "\<exists>a. hm_get rows ATTRIBUTES_FIELD = Some (AttributesText a)"
    and "\<And>c. c \<noteq> b \<Longrightarrow> hash_at db' (worker_key sid c) = hash_at db (worker_key sid c)"
  shows "source_hash_ok db' sid"
proof -
  have rows: "hm_ok rows" "\<And>c. c \<noteq> ATTRIBUTES_FIELD \<Longrightarrow> hm_get rows c = hm_get (hash_at db (source_key sid)) c"
    using assms(1,6) by (auto simp: source_hash_ok_def Let_def hm_simps)
  have ok: "\<And>c row. c \<noteq> ATTRIBUTES_FIELD \<Longrightarrow> hm_get (hash_at db (source_key sid)) c = Some row
      \<Longrightarrow> worker_hash_ok (hash_at db (worker_key sid c)) row"
    "\<And>c. hash_at db (worker_key sid c) \<noteq> [] \<Longrightarrow> c \<noteq> ATTRIBUTES_FIELD \<and> hm_get (hash_at db (source_key sid)) c \<noteq> None"
    using assms(1) by (auto simp: source_hash_ok_def Let_def)
  show ?thesis
    unfolding source_hash_ok_def Let_def assms(4)
  proof (intro conjI allI impI)
    show "hm_ok (hm_insert b row rows)" using rows(1) by (simp add: hm_simps)
    show "\<exists>a. hm_get (hm_insert b row rows) ATTRIBUTES_FIELD = Some (AttributesText a)"
      using assms(2,7) by (simp add: hm_simps)
  next
    fix c r assume "c \<noteq> ATTRIBUTES_FIELD" "hm_get (hm_insert b row rows) c = Some r"
    then show "worker_hash_ok (hash_at db' (worker_key sid c)) r"
      using ok(1) [of c] assms(3,5,8) rows(2) by (cases "c = b") (auto simp: hm_simps)
  next
    fix c assume "hash_at db' (worker_key sid c) \<noteq> []"
    then have "c = b \<or> c \<noteq> ATTRIBUTES_FIELD \<and> hm_get (hash_at db (source_key sid)) c \<noteq> None"
      using ok(2) [of c] assms(8) [of c] by auto
    then show "c \<noteq> ATTRIBUTES_FIELD" "hm_get (hm_insert b row rows) c \<noteq> None"
      using assms(2) rows(2) by (auto simp: hm_simps)
  qed
qed

lemma published_describes:
  "describes (published_summary r owner\<lparr>sy_source_load := l\<rparr>) ((from_worker_record r)\<lparr>wj_owner_namespace := owner, wj_source_load := l'\<rparr>)"
  by (simp add: describes_def published_summary_def from_worker_record_def Let_def case_prod_unfold)

lemma publish_hashes:
  assumes "length (f i) = 16" "db' = redis_publish_metadata f i wid worker owner db"
    and "r = worker_record_from worker" "s = published_summary r owner\<lparr>sy_source_load := json_load (wr_source_load r)\<rparr>"
    and "j = (from_worker_record r)\<lparr>wj_owner_namespace := owner, wj_source_load := json_load (wr_source_load r)\<rparr>"
  shows "hash_at db' (source_key (f i)) = hm_insert wid (SummaryText s)
      (hm_insert ATTRIBUTES_FIELD (AttributesText (attributes_from i)) (hash_at db (source_key (f i))))"
    and "hash_at db' (worker_key (f i) wid) = hm_insert (status_field (wr_worker_rank r)) (SummaryText s)
      (hm_insert (rank_field (wr_worker_rank r)) (RecordText j) (hash_at db (worker_key (f i) wid)))"
    and "k \<noteq> source_key (f i) \<Longrightarrow> k \<noteq> worker_key (f i) wid \<Longrightarrow> hash_at db' k = hash_at db k"
proof -
  have l: "wj_source_load (from_worker_record r) = wr_source_load r" "sy_source_load (published_summary r owner) = wr_source_load r"
    by (simp_all add: from_worker_record_def published_summary_def Let_def case_prod_unfold)
  have j: "write_record ((from_worker_record r)\<lparr>wj_owner_namespace := owner\<rparr>) = RecordText j"
    by (simp add: write_record_def assms(5) l)
  have s: "write_summary (published_summary r owner) = SummaryText s" by (simp add: write_summary_def assms(4) l)
  show "hash_at db' (source_key (f i)) = hm_insert wid (SummaryText s)
      (hm_insert ATTRIBUTES_FIELD (AttributesText (attributes_from i)) (hash_at db (source_key (f i))))"
    "hash_at db' (worker_key (f i) wid) = hm_insert (status_field (wr_worker_rank r)) (SummaryText s)
      (hm_insert (rank_field (wr_worker_rank r)) (RecordText j) (hash_at db (worker_key (f i) wid)))"
    "k \<noteq> source_key (f i) \<Longrightarrow> k \<noteq> worker_key (f i) wid \<Longrightarrow> hash_at db' k = hash_at db k"
    by (simp_all add: assms(2) redis_publish_plain Let_def assms(3) [symmetric] j s hash_hset)
qed

lemma redis_hset_keeps:
  assumes "hm_ok db" "\<forall>k. hm_get db k \<noteq> Some []"
  shows "hm_ok (redis_hset k f v db)" "\<forall>k'. hm_get (redis_hset k f v db) k' \<noteq> Some []"
  unfolding redis_hset_def by (rule set_hash_keeps [OF assms])+

lemma redis_publish_ok:
  assumes "db_ok db" "length (f i) = 16" "wid \<noteq> ATTRIBUTES_FIELD"
  shows "db_ok (redis_publish_metadata f i wid worker owner db)"
proof -
  let ?db = "redis_publish_metadata f i wid worker owner db" and ?r = "worker_record_from worker"
  note h = publish_hashes [where f = f and i = i and wid = wid and worker = worker and owner = owner and db = db,
    OF assms(2) refl refl refl refl]
  have "source_hash_ok ?db sid" if "length sid = 16" for sid
  proof (cases "sid = f i")
    case True
    have here: "source_hash_ok db (f i)" using assms(1,2) by (simp add: db_ok_def)
    then have old: "hash_at db (worker_key (f i) wid) = [] \<or> (\<exists>row. worker_hash_ok (hash_at db (worker_key (f i) wid)) row)"
      using assms(3) unfolding source_hash_ok_def Let_def by (metis option.exhaust)
    have rank: "wj_worker_rank ((from_worker_record ?r)\<lparr>wj_owner_namespace := owner, wj_source_load := l\<rparr>) = wr_worker_rank ?r" for l
      by (simp add: from_worker_record_def Let_def case_prod_unfold)
    from old obtain row where old': "hash_at db (worker_key (f i) wid) = [] \<or> worker_hash_ok (hash_at db (worker_key (f i) wid)) row" by blast
    have frame: "hash_at ?db (worker_key (f i) c) = hash_at db (worker_key (f i) c)" if "c \<noteq> wid" for c
      using that assms(2) by (intro h(3)) (simp_all add: worker_key_inj)
    show ?thesis unfolding True
      by (rule source_hash_set [OF here assms(3) worker_hash_publish [OF old' published_describes rank] h(1,2) _ _ frame])
        (auto simp: hm_simps)
  next
    case False
    show ?thesis
      by (rule source_hash_frame [of db]) (use assms(1) that False in \<open>auto simp: db_ok_def h(3) worker_key_inj assms(2)\<close>)
  qed
  moreover have "hm_ok ?db" "\<forall>k. hm_get ?db k \<noteq> Some []"
    unfolding redis_publish_plain Let_def
    by (intro redis_hset_keeps; use assms(1) in \<open>simp add: db_ok_def\<close>)+
  ultimately show ?thesis unfolding db_ok_def by blast
qed

text \<open>What a heartbeat does to a consistent database.\<close>

lemma redis_update_cases:
  assumes "db_ok db" "length a = 16" "hm_get (hash_at db (source_key a)) b = Some row" "b \<noteq> ATTRIBUTES_FIELD"
    and "hm_get (hash_at db (worker_key a b)) (rank_field r) \<noteq> None"
  obtains j s0 s where "hm_get (hash_at db (worker_key a b)) (rank_field r) = Some (RecordText j)"
    "hm_get (hash_at db (worker_key a b)) (status_field r) = Some (SummaryText s0)" "describes s0 j" "wj_worker_rank j = r"
    "s = s0\<lparr>sy_status := st, sy_updated_at := t, sy_source_load := json_load l\<rparr>"
    "t < sy_updated_at s0 \<Longrightarrow> redis_update_status a b r st t l db = Inr db"
    "sy_updated_at s0 \<le> t \<Longrightarrow>
       redis_update_status a b r st t l db = Inr
         (if lua_worker_rank row = Some (unat r)
          then redis_hset (source_key a) b (SummaryText s) (redis_hset (worker_key a b) (status_field r) (SummaryText s) db)
          else redis_hset (worker_key a b) (status_field r) (SummaryText s) db)"
proof -
  have ok: "worker_hash_ok (hash_at db (worker_key a b)) row"
    using assms(1-4) by (simp add: db_ok_def source_hash_ok_def Let_def)
  from rank_record [OF ok assms(5)] obtain j s0 where
    j: "hm_get (hash_at db (worker_key a b)) (rank_field r) = Some (RecordText j)" "wj_worker_rank j = r"
    "hm_get (hash_at db (worker_key a b)) (status_field r) = Some (SummaryText s0)" "describes s0 j" by blast
  obtain s1 where s1: "row = SummaryText s1"
    "hm_get (hash_at db (worker_key a b)) (status_field (sy_worker_rank s1)) = Some (SummaryText s1)"
    using ok by (auto simp: worker_hash_ok_def)
  have same: "sy_updated_at s1 = sy_updated_at s0" if "sy_worker_rank s1 = r" using that s1(2) j(3) by simp
  have r0: "sy_worker_rank s0 = r" using j(2,4) by (simp add: describes_def)
  have rank: "unat (sy_worker_rank s1) = unat r \<longleftrightarrow> sy_worker_rank s1 = r" by (simp add: word_unat_eq_iff)
  define s where "s = s0\<lparr>sy_status := st, sy_updated_at := t, sy_source_load := json_load l\<rparr>"
  show ?thesis
  proof (rule that [OF j(1,3,4,2) s_def])
    assume "t < sy_updated_at s0"
    then show "redis_update_status a b r st t l db = Inr db"
      by (simp add: redis_update_status_def redis_update_calls_def Let_def carried_def j update_status_if_fresh_def update_status_if_fresh_lua_def lua_newer_def)
  next
    assume "sy_updated_at s0 \<le> t"
    moreover have "write_summary \<lparr>sy_worker_rank = r, sy_status = st, sy_updated_at = t, sy_accelerator = sy_accelerator s0,
        sy_source_load = l, sy_topology = sy_topology s0, sy_owner_namespace = sy_owner_namespace s0\<rparr> = SummaryText s"
      using r0 by (cases s0) (simp add: write_summary_def s_def)
    ultimately show "redis_update_status a b r st t l db = Inr
         (if lua_worker_rank row = Some (unat r)
          then redis_hset (source_key a) b (SummaryText s) (redis_hset (worker_key a b) (status_field r) (SummaryText s) db)
          else redis_hset (worker_key a b) (status_field r) (SummaryText s) db)"
      using same by (auto simp: redis_update_status_def redis_update_calls_def Let_def carried_def j update_status_if_fresh_def
          update_status_if_fresh_lua_def lua_newer_def assms(3) update_source_summary_def s1(1) rank)
  qed
qed

lemma redis_update_ok:
  assumes "db_ok db" "length a = 16" "hm_get (hash_at db (source_key a)) b = Some row" "b \<noteq> ATTRIBUTES_FIELD"
    and rec: "hm_get (hash_at db (worker_key a b)) (rank_field r) = Some (RecordText j)" and d: "describes s j"
    and db': "db' = (if lua_worker_rank row = Some (unat r)
          then redis_hset (source_key a) b (SummaryText s) (redis_hset (worker_key a b) (status_field r) (SummaryText s) db)
          else redis_hset (worker_key a b) (status_field r) (SummaryText s) db)"
  shows "db_ok db'"
proof -
  have ok: "worker_hash_ok (hash_at db (worker_key a b)) row" and here: "source_hash_ok db a"
    using assms(1-4) by (simp_all add: db_ok_def source_hash_ok_def Let_def)
  let ?row = "if lua_worker_rank row = Some (unat r) then SummaryText s else row"
  have w: "hash_at db' (worker_key a b) = hm_insert (status_field r) (SummaryText s) (hash_at db (worker_key a b))"
    by (simp add: db' hash_hset)
  have frame: "hash_at db' k = hash_at db k" if "k \<noteq> source_key a" "k \<noteq> worker_key a b" for k
    using that by (simp add: db' hash_hset)
  have "source_hash_ok db' sid" if "length sid = 16" for sid
  proof (cases "sid = a")
    case True
    have attr: "\<exists>x. hm_get (hash_at db (source_key a)) ATTRIBUTES_FIELD = Some (AttributesText x)"
      using here assms(3) by (fastforce simp: source_hash_ok_def Let_def)
    have rows: "hm_get (hash_at db' (source_key a)) c = hm_get (hm_insert b ?row (hash_at db (source_key a))) c" for c
      using assms(3) by (simp add: db' hash_hset hm_simps)
    have rows_ok: "hm_ok (hash_at db' (source_key a))"
      using here by (simp add: db' hash_hset source_hash_ok_def Let_def hm_simps)
    note new = worker_hash_update [OF ok rec d refl]
    show ?thesis
      unfolding True source_hash_ok_def Let_def
    proof (intro conjI allI impI)
      show "hm_ok (hash_at db' (source_key a))" by (rule rows_ok)
      show "\<exists>x. hm_get (hash_at db' (source_key a)) ATTRIBUTES_FIELD = Some (AttributesText x)"
        using attr assms(4) by (simp add: rows hm_simps)
    next
      fix c rw assume "c \<noteq> ATTRIBUTES_FIELD" "hm_get (hash_at db' (source_key a)) c = Some rw"
      then show "worker_hash_ok (hash_at db' (worker_key a c)) rw"
        using new here by (cases "c = b") (auto simp: rows hm_simps w frame worker_key_inj source_hash_ok_def Let_def)
    next
      fix c assume "hash_at db' (worker_key a c) \<noteq> []"
      then have "c = b \<or> hash_at db (worker_key a c) \<noteq> []" by (cases "c = b") (auto simp: frame worker_key_inj)
      then show "c \<noteq> ATTRIBUTES_FIELD" "hm_get (hash_at db' (source_key a)) c \<noteq> None"
        using here assms(4) by (auto simp: rows hm_simps source_hash_ok_def Let_def)
    qed
  next
    case False
    show ?thesis
      by (rule source_hash_frame [of db]) (use assms(1,2) that False in \<open>auto simp: db_ok_def frame worker_key_inj\<close>)
  qed
  moreover have "hm_ok db'" "\<forall>k. hm_get db' k \<noteq> Some []"
    using assms(1) redis_hset_keeps by (auto simp: db' db_ok_def)
  ultimately show ?thesis unfolding db_ok_def by blast
qed

lemma only_key: "length m \<le> 1 \<Longrightarrow> hm_get m k \<noteq> None \<Longrightarrow> hm_get m c \<noteq> None \<Longrightarrow> c = k"
  by (cases m) (auto simp: hm_get_def split: if_splits)

lemma remove_hashes:
  assumes "db' = redis_remove_worker a b db" "length a = 16"
  shows "hash_at db' (worker_key a b) = []"
    and "k \<noteq> source_key a \<Longrightarrow> k \<noteq> worker_key a b \<Longrightarrow> hash_at db' k = hash_at db k"
    and "hash_at db' (source_key a) = hm_remove b (hash_at db (source_key a))
      \<or> hash_at db' (source_key a) = [] \<and> length (hm_remove b (hash_at db (source_key a))) \<le> 1
        \<and> (\<forall>c. hm_get (hm_remove b (hash_at db (source_key a))) c \<noteq> None \<longrightarrow> c = ATTRIBUTES_FIELD)"
proof -
  let ?rows = "hm_remove b (hash_at db (source_key a))"
  have empty: "hm_get m c \<noteq> None \<longrightarrow> c = ATTRIBUTES_FIELD"
    if "length m = 0 \<or> length m = 1 \<and> hm_get m ATTRIBUTES_FIELD \<noteq> None" for m :: redis_hash and c
    using that only_key [of m ATTRIBUTES_FIELD c] by auto
  show "hash_at db' (worker_key a b) = []"
    and "k \<noteq> source_key a \<Longrightarrow> k \<noteq> worker_key a b \<Longrightarrow> hash_at db' k = hash_at db k"
    using assms(2) by (auto simp: assms(1) redis_remove_worker_def remove_worker_lua_def Let_def hash_del hash_hdel)
  show "hash_at db' (source_key a) = ?rows \<or> hash_at db' (source_key a) = [] \<and> length ?rows \<le> 1
      \<and> (\<forall>c. hm_get ?rows c \<noteq> None \<longrightarrow> c = ATTRIBUTES_FIELD)"
    using empty [of ?rows]
    by (auto simp: assms(1) redis_remove_worker_def remove_worker_lua_def Let_def hash_del hash_hdel)
qed

lemma redis_remove_ok:
  assumes "db_ok db" "length a = 16" "b \<noteq> ATTRIBUTES_FIELD"
  shows "db_ok (redis_remove_worker a b db)"
proof -
  let ?db = "redis_remove_worker a b db"
  note h = remove_hashes [where a = a and b = b and db = db, OF refl assms(2)]
  have here: "source_hash_ok db a" using assms(1,2) by (simp add: db_ok_def)
  have "source_hash_ok ?db sid" if "length sid = 16" for sid
  proof (cases "sid = a")
    case True
    have workers: "hash_at ?db (worker_key a c) = (if c = b then [] else hash_at db (worker_key a c))" for c
      using h(1) h(2) [of "worker_key a c"] by (auto simp: worker_key_inj)
    have row: "hm_get (hash_at db (source_key a)) c \<noteq> None" "c \<noteq> ATTRIBUTES_FIELD" if "hash_at ?db (worker_key a c) \<noteq> []" "c \<noteq> b" for c
      using here that by (auto simp: workers source_hash_ok_def Let_def)
    from h(3) show ?thesis
    proof (elim disjE conjE)
      assume rows: "hash_at ?db (source_key a) = hm_remove b (hash_at db (source_key a))"
      have "hash_at db (source_key a) \<noteq> []" if "hm_remove b (hash_at db (source_key a)) \<noteq> []"
        using that by (auto simp: hm_remove_def)
      then show ?thesis
        unfolding True source_hash_ok_def Let_def rows using here assms(3) row
        by (auto simp: hm_simps workers source_hash_ok_def Let_def split: if_splits)
    next
      assume rows: "hash_at ?db (source_key a) = []"
        "\<forall>c. hm_get (hm_remove b (hash_at db (source_key a))) c \<noteq> None \<longrightarrow> c = ATTRIBUTES_FIELD"
      have "hash_at ?db (worker_key a c) = []" for c
        using rows(2) row [of c] by (cases "c = b") (auto simp: workers hm_simps split: if_splits)
      then show ?thesis unfolding True source_hash_ok_def Let_def rows(1) by simp
    qed
  next
    case False
    show ?thesis
      by (rule source_hash_frame [of db]) (use assms(1,2) that False in \<open>auto simp: db_ok_def h(2) worker_key_inj\<close>)
  qed
  moreover have "hm_ok ?db" "\<forall>k. hm_get ?db k \<noteq> Some []"
    using assms(1) redis_del_keeps set_hash_keeps
    by (auto simp: redis_remove_worker_def remove_worker_lua_def Let_def db_ok_def redis_hdel_def)
  ultimately show ?thesis unfolding db_ok_def by blast
qed

lemma db_ok_new: "db_ok []"
  by (simp add: db_ok_def source_hash_ok_def hash_at_def or_default_def)

subsection \<open>The contract of the reaper\<close>

definition redis_look :: "p2p_db \<Rightarrow> string \<Rightarrow> string \<Rightarrow> SourceInstanceInfo option" where
  "redis_look db a b =
     (if length a = 16 \<and> b \<noteq> ATTRIBUTES_FIELD
      then (case hm_get (hash_at db (source_key a)) b of
              Some (SummaryText s) \<Rightarrow> Some (summary_info a b (hash_attributes (hash_at db (source_key a))) s)
            | _ \<Rightarrow> None)
      else None)"

definition full_scan :: "p2p_db \<Rightarrow> string list" where
  "full_scan db = filter matches_source_pattern (map fst db)"

lemma source_listing:
  assumes "source_hash_ok db sid"
  shows "redis_list_source db None sid = List.map_filter
    (\<lambda>(b, row). case row of SummaryText s \<Rightarrow> Some (summary_info sid b (hash_attributes (hash_at db (source_key sid))) s) | _ \<Rightarrow> None)
    (worker_rows (hash_at db (source_key sid)))"
  unfolding list_source_plain
  by (rule map_filter_eqI) (auto elim!: row_is_summary [OF assms] simp: plain_summary is_none_or_def)

lemma set_map_filter: "set (List.map_filter f xs) = {y. \<exists>x \<in> set xs. f x = Some y}"
  by (induction xs) (auto split: option.splits)

lemma summary_info_sel [simp]:
  "ii_source_id (summary_info sid b attributes s) = sid" "ii_worker_id (summary_info sid b attributes s) = b"
  by (simp_all add: summary_info_def)

lemma source_listing_mem:
  assumes "source_hash_ok db a" "length a = 16"
  shows "w \<in> set (redis_list_source db None a) \<longleftrightarrow> ii_source_id w = a \<and> redis_look db a (ii_worker_id w) = Some w"
proof -
  let ?rows = "hash_at db (source_key a)"
  have ok: "hm_ok ?rows" using assms(1) by (simp add: source_hash_ok_def Let_def)
  have rows: "(b, row) \<in> set (worker_rows ?rows) \<longleftrightarrow> hm_get ?rows b = Some row \<and> b \<noteq> ATTRIBUTES_FIELD" for b row
    using ok by (auto simp: worker_rows_def hm_mem_iff)
  have "w \<in> set (redis_list_source db None a) \<longleftrightarrow>
      (\<exists>b s. (b, SummaryText s) \<in> set (worker_rows ?rows) \<and> w = summary_info a b (hash_attributes ?rows) s)"
  proof -
    have "(case x of (b, row) \<Rightarrow> (case row of SummaryText s \<Rightarrow> Some (summary_info a b (hash_attributes ?rows) s) | _ \<Rightarrow> None)) = Some w
        \<longleftrightarrow> (\<exists>b s. x = (b, SummaryText s) \<and> w = summary_info a b (hash_attributes ?rows) s)" for x
      by (cases x) (auto split: json_text.splits)
    then show ?thesis unfolding source_listing [OF assms(1)] set_map_filter mem_Collect_eq by (simp only:) auto
  qed
  also have "\<dots> \<longleftrightarrow> ii_source_id w = a \<and> redis_look db a (ii_worker_id w) = Some w"
  proof
    assume "\<exists>b s. (b, SummaryText s) \<in> set (worker_rows ?rows) \<and> w = summary_info a b (hash_attributes ?rows) s"
    then show "ii_source_id w = a \<and> redis_look db a (ii_worker_id w) = Some w"
      using assms(2) by (auto simp: rows redis_look_def)
  next
    assume w: "ii_source_id w = a \<and> redis_look db a (ii_worker_id w) = Some w"
    then obtain s where "hm_get ?rows (ii_worker_id w) = Some (SummaryText s)" "ii_worker_id w \<noteq> ATTRIBUTES_FIELD"
      "w = summary_info a (ii_worker_id w) (hash_attributes ?rows) s"
      by (auto simp: redis_look_def split: if_splits option.splits json_text.splits)
    then show "\<exists>b s. (b, SummaryText s) \<in> set (worker_rows ?rows) \<and> w = summary_info a b (hash_attributes ?rows) s"
      using rows by blast
  qed
  finally show ?thesis .
qed

lemma scanned_sources:
  assumes "db_ok db"
  shows "a \<in> set (listed_sources None (full_scan db)) \<longleftrightarrow> length a = 16 \<and> hash_at db (source_key a) \<noteq> []"
    and "distinct (listed_sources None (full_scan db))"
proof -
  have ok: "hm_ok db" "\<And>k. hm_get db k \<noteq> Some []" using assms by (auto simp: db_ok_def)
  have "k \<in> fst ` set db \<longleftrightarrow> hm_get db k \<noteq> None" for k
    using ok(1) by (force simp: hm_get_def map_of_eq_None_iff)
  then have "k \<in> fst ` set db \<longleftrightarrow> hash_at db k \<noteq> []" for k
    using ok(2) [of k] by (auto simp: hash_at_def or_default_def split: option.splits)
  then show "a \<in> set (listed_sources None (full_scan db)) \<longleftrightarrow> length a = 16 \<and> hash_at db (source_key a) \<noteq> []"
  proof -
    assume keys: "\<And>k. k \<in> fst ` set db \<longleftrightarrow> hash_at db k \<noteq> []"
    have "a \<in> set (listed_sources None (full_scan db)) \<longleftrightarrow> (\<exists>k. k \<in> fst ` set db \<and> matches_source_pattern k \<and> a = key_source_id k)"
      by (auto simp: listed_sources_def full_scan_def)
    then show ?thesis unfolding keys pattern_iff by auto
  qed
  have "distinct (full_scan db)" using ok(1) by (simp add: full_scan_def hm_ok_def)
  moreover have "inj_on key_source_id (set (full_scan db))" by (auto simp: inj_on_def full_scan_def pattern_iff)
  ultimately show "distinct (listed_sources None (full_scan db))" by (simp add: listed_sources_def distinct_map)
qed

lemma redis_listing_mem:
  assumes "db_ok db"
  shows "w \<in> set (redis_list_workers (full_scan db) None None db) \<longleftrightarrow> redis_look db (ii_source_id w) (ii_worker_id w) = Some w"
proof -
  have "source_hash_ok db a" if "length a = 16" for a using assms that by (simp add: db_ok_def)
  then have "w \<in> set (redis_list_workers (full_scan db) None None db)
      \<longleftrightarrow> (\<exists>a. length a = 16 \<and> hash_at db (source_key a) \<noteq> [] \<and> ii_source_id w = a \<and> redis_look db a (ii_worker_id w) = Some w)"
    by (auto simp: redis_list_workers_def scanned_sources(1) [OF assms] source_listing_mem)
  then show ?thesis by (auto simp: redis_look_def split: if_splits option.splits)
qed

lemma map_map_filter:
  "(\<And>x. x \<in> set xs \<Longrightarrow> \<exists>y. f x = Some y \<and> k y = g x) \<Longrightarrow> map k (List.map_filter f xs) = map g xs"
  by (induction xs) (fastforce split: option.splits)+

lemma distinct_tagged:
  assumes "distinct as" "\<And>a. a \<in> set as \<Longrightarrow> distinct (map fst (rows a))"
  shows "distinct (concat (map (\<lambda>a. map (\<lambda>(b, r). (a, b)) (rows a)) as))"
  using assms
proof (induction as)
  case (Cons a as)
  have "distinct (map (\<lambda>(b, r). (a, b)) (rows a))"
    using Cons.prems(2) [of a] by (force simp: distinct_map inj_on_def)
  with Cons show ?case by auto
qed simp

lemma redis_listing_distinct:
  assumes "db_ok db"
  shows "distinct (map (\<lambda>w. (ii_source_id w, ii_worker_id w)) (redis_list_workers (full_scan db) None None db))"
proof -
  let ?k = "\<lambda>w. (ii_source_id w, ii_worker_id w)" and ?rows = "\<lambda>a. worker_rows (hash_at db (source_key a))"
  let ?ids = "listed_sources None (full_scan db)"
  have src: "source_hash_ok db a" if "a \<in> set ?ids" for a
    using assms that scanned_sources(1) [OF assms] by (simp add: db_ok_def)
  have one: "map ?k (redis_list_source db None a) = map (\<lambda>(b, r). (a, b)) (?rows a)" if "a \<in> set ?ids" for a
    unfolding source_listing [OF src [OF that]]
    by (rule map_map_filter) (auto elim!: row_is_summary [OF src [OF that]])
  have "map ?k (redis_list_workers (full_scan db) None None db) = concat (map (\<lambda>a. map (\<lambda>(b, r). (a, b)) (?rows a)) ?ids)"
    using one by (simp add: redis_list_workers_def map_concat comp_def cong: map_cong)
  moreover have "distinct (map fst (?rows a))" if "a \<in> set ?ids" for a
    using src [OF that] by (auto simp: source_hash_ok_def Let_def hm_ok_def worker_rows_def intro: distinct_map_filter)
  ultimately show ?thesis using distinct_tagged [OF scanned_sources(2) [OF assms], of ?rows] by simp
qed

lemma redis_look_cong:
  "hm_get (hash_at db' (source_key c)) d = hm_get (hash_at db (source_key c)) d \<Longrightarrow>
   hash_attributes (hash_at db' (source_key c)) = hash_attributes (hash_at db (source_key c)) \<Longrightarrow>
   redis_look db' c d = redis_look db c d"
  unfolding redis_look_def by (simp only:)

lemma redis_look_update:
  assumes "db_ok db" "redis_look db a b = Some w" "ii_updated_at w \<le> t"
  shows "\<exists>db'. redis_update_status a b (ii_worker_rank w) st t l db = Inr db' \<and> db_ok db'
    \<and> (\<forall>c d. redis_look db' c d = (if c = a \<and> d = b
         then Some (w\<lparr>ii_status := st, ii_updated_at := t, ii_source_load := json_load l\<rparr>) else redis_look db c d))"
proof -
  from assms(2) obtain s where a: "length a = 16" "b \<noteq> ATTRIBUTES_FIELD"
    and row: "hm_get (hash_at db (source_key a)) b = Some (SummaryText s)"
    and w: "w = summary_info a b (hash_attributes (hash_at db (source_key a))) s"
    by (auto simp: redis_look_def split: if_splits option.splits json_text.splits)
  let ?r = "sy_worker_rank s" and ?s = "s\<lparr>sy_status := st, sy_updated_at := t, sy_source_load := json_load l\<rparr>"
  have ok: "worker_hash_ok (hash_at db (worker_key a b)) (SummaryText s)"
    using assms(1) a row by (simp add: db_ok_def source_hash_ok_def Let_def)
  then have rec: "hm_get (hash_at db (worker_key a b)) (rank_field ?r) \<noteq> None"
    and st: "hm_get (hash_at db (worker_key a b)) (status_field ?r) = Some (SummaryText s)" by (auto simp: worker_hash_ok_def)
  have rank: "ii_worker_rank w = ?r" by (simp add: w summary_info_def)
  obtain j s0 s' where j: "hm_get (hash_at db (worker_key a b)) (rank_field ?r) = Some (RecordText j)"
    "hm_get (hash_at db (worker_key a b)) (status_field ?r) = Some (SummaryText s0)" "describes s0 j"
    and s': "s' = s0\<lparr>sy_status := st, sy_updated_at := t, sy_source_load := json_load l\<rparr>"
    and run: "sy_updated_at s0 \<le> t \<Longrightarrow>
       redis_update_status a b ?r st t l db = Inr
         (if lua_worker_rank (SummaryText s) = Some (unat ?r)
          then redis_hset (source_key a) b (SummaryText s') (redis_hset (worker_key a b) (status_field ?r) (SummaryText s') db)
          else redis_hset (worker_key a b) (status_field ?r) (SummaryText s') db)"
    by (rule redis_update_cases [where st = st and t = t and l = l, OF assms(1) a(1) row a(2) rec]) blast
  have [simp]: "s0 = s" using j(2) st by simp
  have [simp]: "s' = ?s" by (simp add: s')
  have t: "sy_updated_at s \<le> t" using assms(3) by (simp add: w)
  let ?db = "redis_hset (source_key a) b (SummaryText ?s) (redis_hset (worker_key a b) (status_field ?r) (SummaryText ?s) db)"
  have "redis_update_status a b ?r st t l db = Inr ?db" using run t by simp
  moreover have "db_ok ?db"
    by (rule redis_update_ok [OF assms(1) a(1) row a(2) j(1), of ?s]) (use j(3) t in \<open>auto simp: describes_def\<close>)
  moreover have "redis_look ?db c d = (if c = a \<and> d = b
      then Some (w\<lparr>ii_status := st, ii_updated_at := t, ii_source_load := json_load l\<rparr>) else redis_look db c d)" for c d
  proof (cases "length c = 16")
    case True
    have attr: "hash_attributes (hm_insert b v m) = hash_attributes m" for v m
      using a(2) by (simp add: hash_attributes_def hm_simps)
    have src: "hash_at ?db (source_key c) = (if c = a then hm_insert b (SummaryText ?s) (hash_at db (source_key a)) else hash_at db (source_key c))"
      using True a(1) by (simp add: hash_hset)
    show ?thesis
    proof (cases "c = a \<and> d = b")
      case True
      then show ?thesis using a src by (simp add: redis_look_def hm_simps attr w) (simp add: summary_info_def)
    next
      case False
      then have "redis_look ?db c d = redis_look db c d"
        by (intro redis_look_cong) (auto simp: src hm_simps attr)
      with False show ?thesis by auto
    qed
  next
    case False
    then show ?thesis using a by (auto simp: redis_look_def)
  qed
  ultimately show ?thesis unfolding rank by blast
qed

lemma redis_look_remove:
  assumes "length a = 16 \<and> b \<noteq> ATTRIBUTES_FIELD"
  shows "redis_look (redis_remove_worker a b db) c d = (if c = a \<and> d = b then None else redis_look db c d)"
proof -
  note h = remove_hashes [where a = a and b = b and db = db, OF refl conjunct1 [OF assms]]
  let ?rows = "hash_at db (source_key a)"
  have attr: "hash_attributes (hm_remove b ?rows) = hash_attributes ?rows"
  proof -
    have "ATTRIBUTES_FIELD \<noteq> b" using assms by auto
    then show ?thesis by (simp add: hash_attributes_def hm_simps)
  qed
  have "redis_look (redis_remove_worker a b db) a d = (if d = b then None else redis_look db a d)"
  proof (cases "d = ATTRIBUTES_FIELD")
    case True then show ?thesis by (simp add: redis_look_def)
  next
    case False
    from h(3) show ?thesis
    proof (elim disjE conjE)
      assume rows: "hash_at (redis_remove_worker a b db) (source_key a) = hm_remove b ?rows"
      show ?thesis
      proof (cases "d = b")
        case True then show ?thesis by (simp add: redis_look_def rows hm_simps)
      next
        case False
        then have "redis_look (redis_remove_worker a b db) a d = redis_look db a d"
          by (intro redis_look_cong) (simp_all add: rows hm_simps attr)
        with False show ?thesis by simp
      qed
    next
      assume rows: "hash_at (redis_remove_worker a b db) (source_key a) = []"
        "\<forall>c. hm_get (hm_remove b ?rows) c \<noteq> None \<longrightarrow> c = ATTRIBUTES_FIELD"
      have "d \<noteq> b \<Longrightarrow> hm_get ?rows d = None"
        using spec [OF rows(2), of d] False by (simp add: hm_simps)
      then show ?thesis by (simp add: redis_look_def rows(1))
    qed
  qed
  moreover have "redis_look (redis_remove_worker a b db) c d = redis_look db c d" if "c \<noteq> a"
  proof (cases "length c = 16")
    case True
    then have "hash_at (redis_remove_worker a b db) (source_key c) = hash_at db (source_key c)"
      using that assms by (intro h(2)) simp_all
    then show ?thesis by (intro redis_look_cong) simp_all
  qed (simp add: redis_look_def)
  ultimately show ?thesis by (cases "c = a") auto
qed

lemma redis_look_key: "redis_look db a b = Some w \<Longrightarrow> ii_source_id w = a \<and> ii_worker_id w = b \<and> length a = 16 \<and> b \<noteq> ATTRIBUTES_FIELD"
  by (auto simp: redis_look_def split: if_splits option.splits json_text.splits)

interpretation redis: metadata_backend redis_look "\<lambda>db. redis_list_workers (full_scan db) None None db" redis_update_status
  redis_remove_worker "\<lambda>t w. ii_updated_at w \<le> t" db_ok
proof (unfold_locales, goal_cases)
  case (1 s w) then show ?case by (rule redis_listing_mem)
next
  case (2 s) then show ?case by (rule redis_listing_distinct)
next
  case (3 s a b w) then show ?case using redis_look_key by blast
next
  case (4 s a b w t st) then show ?case using redis_look_update [of s a b w t st None, unfolded json_load_None] by blast
next
  case (5 s a b w) then show ?case using redis_look_key redis_remove_ok by blast
next
  case (6 s a b w c d) then show ?case using redis_look_key redis_look_remove by blast
qed

lemma listed_worker:
  assumes "db_ok db" "length a = 16" "hash_at db (worker_key a b) \<noteq> []"
  shows "b \<noteq> ATTRIBUTES_FIELD" "hm_get (hash_at db (source_key a)) b \<noteq> None"
  using assms by (auto simp: db_ok_def source_hash_ok_def Let_def)

lemma redis_update_effect:
  assumes "db_ok db" "length a = 16" "redis_update_status a b r st t l db = Inr db'"
  obtains "db' = db"
  | row j s0 s where "hm_get (hash_at db (source_key a)) b = Some row" "b \<noteq> ATTRIBUTES_FIELD"
    "hm_get (hash_at db (worker_key a b)) (rank_field r) = Some (RecordText j)"
    "hm_get (hash_at db (worker_key a b)) (status_field r) = Some (SummaryText s0)" "describes s j"
    "s = s0\<lparr>sy_status := st, sy_updated_at := t, sy_source_load := json_load l\<rparr>"
    "db' = (if lua_worker_rank row = Some (unat r)
       then redis_hset (source_key a) b (SummaryText s) (redis_hset (worker_key a b) (status_field r) (SummaryText s) db)
       else redis_hset (worker_key a b) (status_field r) (SummaryText s) db)"
proof -
  have here: "hm_get (hash_at db (worker_key a b)) (rank_field r) \<noteq> None"
    using assms(3) by (auto simp: redis_update_status_def redis_update_calls_def Let_def update_status_if_fresh_def
        update_status_if_fresh_lua_def split: sum.splits if_splits)
  then have "hash_at db (worker_key a b) \<noteq> []" by auto
  then obtain row where row: "hm_get (hash_at db (source_key a)) b = Some row" and b: "b \<noteq> ATTRIBUTES_FIELD"
    using listed_worker [OF assms(1,2)] by blast
  show ?thesis
  proof (rule redis_update_cases [OF assms(1,2) row b here])
    fix j and s0 s :: WorkerSummaryJson
    assume j: "hm_get (hash_at db (worker_key a b)) (rank_field r) = Some (RecordText j)"
      "hm_get (hash_at db (worker_key a b)) (status_field r) = Some (SummaryText s0)" "describes s0 j"
      and s: "s = s0\<lparr>sy_status := st, sy_updated_at := t, sy_source_load := json_load l\<rparr>"
      and old: "t < sy_updated_at s0 \<Longrightarrow> redis_update_status a b r st t l db = Inr db"
      and new: "sy_updated_at s0 \<le> t \<Longrightarrow> redis_update_status a b r st t l db = Inr
         (if lua_worker_rank row = Some (unat r)
          then redis_hset (source_key a) b (SummaryText s) (redis_hset (worker_key a b) (status_field r) (SummaryText s) db)
          else redis_hset (worker_key a b) (status_field r) (SummaryText s) db)"
    show ?thesis
    proof (cases "t < sy_updated_at s0")
      case True
      then show ?thesis using that(1) old assms(3) by simp
    next
      case False
      then have d: "describes s j" using j(3) by (auto simp: describes_def s)
      show ?thesis by (rule that(2) [OF row b j(1,2) d s]) (use new False assms(3) in simp)
    qed
  qed
qed

lemma redis_update_any:
  assumes "db_ok db" "length a = 16" "redis_update_status a b r st t l db = Inr db'"
  shows "db_ok db'"
  by (rule redis_update_effect [OF assms]) (use assms(1) in simp, rule redis_update_ok [OF assms(1,2)])

lemma remove_source_hashes:
  assumes "db' = redis_remove_metadata a db"
  shows "hash_at db' (source_key a) = []"
    and "(b, row) \<in> set (worker_rows (hash_at db (source_key a))) \<Longrightarrow> hash_at db' (worker_key a b) = []"
    and "k \<noteq> source_key a \<Longrightarrow> (\<And>b. k \<noteq> worker_key a b) \<Longrightarrow> hash_at db' k = hash_at db k"
    and "hash_at db (worker_key a b) = [] \<Longrightarrow> hash_at db' (worker_key a b) = []"
    and remove_source_kept: "length c = length a \<Longrightarrow> hash_at db' (worker_key c d) = hash_at db (worker_key c d) \<or> hash_at db' (worker_key c d) = []"
proof -
  have del: "hash_at (fold (\<lambda>(b, row). redis_del (worker_key a b)) rows d) k
      = (if \<exists>(b, row) \<in> set rows. k = worker_key a b then [] else hash_at d k)" for rows d k
    by (induction rows arbitrary: d) (auto simp: hash_del split: prod.splits)
  show "hash_at db' (source_key a) = []"
    and "(b, row) \<in> set (worker_rows (hash_at db (source_key a))) \<Longrightarrow> hash_at db' (worker_key a b) = []"
    and "k \<noteq> source_key a \<Longrightarrow> (\<And>b. k \<noteq> worker_key a b) \<Longrightarrow> hash_at db' k = hash_at db k"
    and "hash_at db (worker_key a b) = [] \<Longrightarrow> hash_at db' (worker_key a b) = []"
    and "length c = length a \<Longrightarrow> hash_at db' (worker_key c d) = hash_at db (worker_key c d) \<or> hash_at db' (worker_key c d) = []"
    by (auto simp: assms redis_remove_metadata_def hash_del del)
qed

lemma redis_remove_metadata_ok:
  assumes "db_ok db" "length a = 16"
  shows "db_ok (redis_remove_metadata a db)"
proof -
  let ?db = "redis_remove_metadata a db"
  note h = remove_source_hashes [where a = a and db = db, OF refl]
  have "source_hash_ok ?db sid" if "length sid = 16" for sid
  proof (cases "sid = a")
    case True
    have here: "source_hash_ok db a" using assms by (simp add: db_ok_def)
    have "hash_at ?db (worker_key a b) = []" for b
    proof (cases "hash_at db (worker_key a b) = []")
      case False
      then obtain row where "hm_get (hash_at db (source_key a)) b = Some row" "b \<noteq> ATTRIBUTES_FIELD"
        using here unfolding source_hash_ok_def Let_def by blast
      then have "(b, row) \<in> set (worker_rows (hash_at db (source_key a)))"
        by (auto simp: worker_rows_def hm_get_def dest: map_of_SomeD)
      then show ?thesis by (rule h(2))
    qed (rule h(4))
    then show ?thesis unfolding True source_hash_ok_def Let_def h(1) by simp
  next
    case False
    show ?thesis
      by (rule source_hash_frame [of db]) (use assms that False in \<open>auto simp: db_ok_def h(3) worker_key_inj\<close>)
  qed
  moreover have "hm_ok (fold (\<lambda>(b, row). redis_del (worker_key a b)) rows d)
      \<and> (\<forall>k. hm_get (fold (\<lambda>(b, row). redis_del (worker_key a b)) rows d) k \<noteq> Some [])"
    if "hm_ok d" "\<forall>k. hm_get d k \<noteq> Some []" for rows :: "(string \<times> json_text) list" and d
    using that by (induction rows arbitrary: d) (auto simp: redis_del_keeps)
  ultimately show ?thesis using assms(1) unfolding db_ok_def redis_remove_metadata_def by (auto simp: redis_del_keeps)
qed

text \<open>
  The databases a server with well-formed ids produces: source ids are the sixteen characters the
  server computes, and no worker is called as the attributes row.
\<close>

inductive redis_reach :: "p2p_db \<Rightarrow> bool" where
  redis_new: "redis_reach []"
| redis_publish: "redis_reach db \<Longrightarrow> length (f i) = 16 \<Longrightarrow> wid \<noteq> ATTRIBUTES_FIELD \<Longrightarrow>
    redis_reach (redis_publish_metadata f i wid worker owner db)"
| redis_heartbeat: "redis_reach db \<Longrightarrow> length a = 16 \<Longrightarrow> redis_update_status a b r st t l db = Inr db' \<Longrightarrow> redis_reach db'"
| redis_remove_source: "redis_reach db \<Longrightarrow> length a = 16 \<Longrightarrow> redis_reach (redis_remove_metadata a db)"
| redis_remove: "redis_reach db \<Longrightarrow> length a = 16 \<Longrightarrow> b \<noteq> ATTRIBUTES_FIELD \<Longrightarrow> redis_reach (redis_remove_worker a b db)"

lemma redis_reach_ok: "redis_reach db \<Longrightarrow> db_ok db"
proof (induction rule: redis_reach.induct)
  case (redis_heartbeat db a b r st t l db')
  then show ?case using redis_update_any by blast
qed (simp_all add: db_ok_new redis_publish_ok redis_remove_ok redis_remove_metadata_ok)

subsection \<open>Interrupted updates\<close>

text \<open>
  Of a worker's rank the accelerator, the topology and the owner are static: every publication
  gives the same ones. The rows of a database agree with them, whichever update last wrote a row.
\<close>

definition static_rows :: "(string \<Rightarrow> string \<Rightarrow> u32 \<Rightarrow> string \<times> params \<times> string option) \<Rightarrow> p2p_db \<Rightarrow> bool" where
  "static_rows P db \<longleftrightarrow> (\<forall>a b r. length a = 16 \<longrightarrow>
     (\<forall>v s. hm_get (hash_at db (worker_key a b)) (status_field r) = Some v \<longrightarrow> parse_summary v = Some s \<longrightarrow>
        (sy_accelerator s, sy_topology s, sy_owner_namespace s) = P a b r)
     \<and> (\<forall>j. hm_get (hash_at db (worker_key a b)) (rank_field r) = Some (RecordText j) \<longrightarrow>
        (wj_accelerator j, wj_topology j, wj_owner_namespace j) = P a b r))"

lemma static_frame:
  assumes "static_rows P db"
    and "\<And>a b. length a = 16 \<Longrightarrow> hash_at db' (worker_key a b) = hash_at db (worker_key a b) \<or> hash_at db' (worker_key a b) = []"
  shows "static_rows P db'"
  unfolding static_rows_def
proof (intro allI impI)
  fix a b r assume a: "length (a :: string) = 16"
  from assms(2) [OF a, of b] show "(\<forall>v s. hm_get (hash_at db' (worker_key a b)) (status_field r) = Some v \<longrightarrow> parse_summary v = Some s \<longrightarrow>
        (sy_accelerator s, sy_topology s, sy_owner_namespace s) = P a b r)
     \<and> (\<forall>j. hm_get (hash_at db' (worker_key a b)) (rank_field r) = Some (RecordText j) \<longrightarrow>
        (wj_accelerator j, wj_topology j, wj_owner_namespace j) = P a b r)"
    using assms(1) a by (auto simp: static_rows_def)
qed

lemma static_status:
  assumes "static_rows P db" "length a = 16" "P a b r = (sy_accelerator s, sy_topology s, sy_owner_namespace s)"
    and "hash_at db' (worker_key a b) = hm_insert (status_field r) (SummaryText s) (hash_at db (worker_key a b))"
    and "\<And>k. k \<noteq> source_key a \<Longrightarrow> k \<noteq> worker_key a b \<Longrightarrow> hash_at db' k = hash_at db k"
  shows "static_rows P db'"
  unfolding static_rows_def
proof (intro allI impI)
  fix c d q assume c: "length (c :: string) = 16"
  show "(\<forall>v s. hm_get (hash_at db' (worker_key c d)) (status_field q) = Some v \<longrightarrow> parse_summary v = Some s \<longrightarrow>
        (sy_accelerator s, sy_topology s, sy_owner_namespace s) = P c d q)
     \<and> (\<forall>j. hm_get (hash_at db' (worker_key c d)) (rank_field q) = Some (RecordText j) \<longrightarrow>
        (wj_accelerator j, wj_topology j, wj_owner_namespace j) = P c d q)"
  proof (cases "c = a \<and> d = b")
    case True
    then show ?thesis using assms(1-3) by (auto simp: assms(4) hm_simps static_rows_def)
  next
    case False
    then have "hash_at db' (worker_key c d) = hash_at db (worker_key c d)"
      using assms(2,5) c by (simp add: worker_key_inj)
    then show ?thesis using assms(1) c by (simp add: static_rows_def)
  qed
qed

lemma static_update:
  assumes "db_ok db" "static_rows P db" "length a = 16" "redis_update_status a b r st t l db = Inr db'"
  shows "static_rows P db'"
proof (rule redis_update_effect [OF assms(1,3,4)])
  assume "db' = db"
  then show ?thesis using assms(2) by simp
next
  fix row and j and s0 s :: WorkerSummaryJson
  assume "hm_get (hash_at db (worker_key a b)) (status_field r) = Some (SummaryText s0)"
    and s: "s = s0\<lparr>sy_status := st, sy_updated_at := t, sy_source_load := json_load l\<rparr>"
    and db': "db' = (if lua_worker_rank row = Some (unat r)
          then redis_hset (source_key a) b (SummaryText s) (redis_hset (worker_key a b) (status_field r) (SummaryText s) db)
          else redis_hset (worker_key a b) (status_field r) (SummaryText s) db)"
  then have "P a b r = (sy_accelerator s, sy_topology s, sy_owner_namespace s)"
    using assms(2,3) by (auto simp: static_rows_def)
  then show ?thesis by (rule static_status [OF assms(2,3)]) (auto simp: db' hash_hset)
qed

lemma static_publish:
  assumes "static_rows P db" "length (f i) = 16" "r = worker_record_from worker"
    and "P (f i) wid (wr_worker_rank r) = (wr_accelerator r, wr_topology r, owner)"
  shows "static_rows P (redis_publish_metadata f i wid worker owner db)"
proof -
  let ?db' = "redis_publish_metadata f i wid worker owner db"
  let ?j = "(from_worker_record r)\<lparr>wj_owner_namespace := owner, wj_source_load := json_load (wr_source_load r)\<rparr>"
  let ?db1 = "redis_hset (worker_key (f i) wid) (rank_field (wr_worker_rank r)) (RecordText ?j) db"
  have j: "(wj_accelerator ?j, wj_topology ?j, wj_owner_namespace ?j) = (wr_accelerator r, wr_topology r, owner)"
    by (simp add: from_worker_record_def Let_def case_prod_unfold)
  note h = publish_hashes [where f = f, OF assms(2) refl assms(3) refl refl]
  have "static_rows P ?db1"
    unfolding static_rows_def
  proof (intro allI impI)
    fix c d q assume c: "length (c :: string) = 16"
    then show "(\<forall>v s. hm_get (hash_at ?db1 (worker_key c d)) (status_field q) = Some v \<longrightarrow> parse_summary v = Some s \<longrightarrow>
        (sy_accelerator s, sy_topology s, sy_owner_namespace s) = P c d q)
     \<and> (\<forall>j. hm_get (hash_at ?db1 (worker_key c d)) (rank_field q) = Some (RecordText j) \<longrightarrow>
        (wj_accelerator j, wj_topology j, wj_owner_namespace j) = P c d q)"
      using assms(1,2,4) j by (auto simp: hash_hset hm_simps worker_key_inj static_rows_def simp del: prod.inject split: if_splits)
  qed
  then show ?thesis
    by (rule static_status [where db = ?db1, OF _ assms(2)])
      (auto simp: assms(4) published_summary_def h hash_hset)
qed

text \<open>
  Where the rows are static, an update acts as if all its calls were made at the moment of its
  script, whatever other clients did between its calls.
\<close>

lemma interrupted_update:
  assumes "static_rows P db0" "db_ok db0" "static_rows P db1" "db_ok db1" "static_rows P db" "db_ok db" "length a = 16"
    and "redis_update_calls a b r st t l db0 db1 db = Inr db'"
  shows "redis_update_status a b r st t l db = Inr db'"
proof -
  have rec: "parse_record v = Some j \<longleftrightarrow> v = RecordText j" for v j by (cases v) simp_all
  have read: "x = P a b r" if c: "carried (hash_at d (worker_key a b)) (hash_at e (worker_key a b)) r m = Inr x"
    and rows: "static_rows P d" "static_rows P e" for x d e m
  proof (cases "Option.bind (hm_get (hash_at d (worker_key a b)) (status_field r)) parse_summary")
    case (Some s)
    then obtain v where "hm_get (hash_at d (worker_key a b)) (status_field r) = Some v" "parse_summary v = Some s"
      by (auto simp: bind_eq_Some_conv)
    then show ?thesis using c rows(1) assms(7) Some by (simp add: carried_def static_rows_def)
  next
    case None
    then obtain j where "hm_get (hash_at e (worker_key a b)) (rank_field r) = Some (RecordText j)"
      "x = (wj_accelerator j, wj_topology j, wj_owner_namespace j)"
      using c by (auto simp: carried_def rec split: option.splits)
    then show ?thesis using rows(2) assms(7) by (simp add: static_rows_def)
  qed
  have here: "hm_get (hash_at db (worker_key a b)) (rank_field r) \<noteq> None"
    using assms(8) by (auto simp: redis_update_calls_def Let_def update_status_if_fresh_def update_status_if_fresh_lua_def
        split: sum.splits if_splits)
  obtain row where "hm_get (hash_at db (source_key a)) b = Some row" "b \<noteq> ATTRIBUTES_FIELD"
    using listed_worker [OF assms(6,7), of b] here by force
  then obtain j where j: "hm_get (hash_at db (worker_key a b)) (rank_field r) = Some (RecordText j)"
    by (rule redis_update_cases [OF assms(6,7) _ _ here])
  then have "\<exists>x. carried (hash_at db (worker_key a b)) (hash_at db (worker_key a b)) r m = Inr x" for m
    by (simp add: carried_def split: option.split)
  then have "carried (hash_at db (worker_key a b)) (hash_at db (worker_key a b)) r m = Inr (P a b r)" for m
    using read assms(5) by metis
  then show ?thesis
    using assms(8) read [OF _ assms(1,3)]
    by (auto simp: redis_update_status_def redis_update_calls_def Let_def split: sum.splits)
qed

text \<open>
  Runs in which updates are interrupted: an update reads and writes in any three databases of the
  run, so anything may have happened between its calls.
\<close>

inductive redis_runs :: "(string \<Rightarrow> string \<Rightarrow> u32 \<Rightarrow> string \<times> params \<times> string option) \<Rightarrow> p2p_db \<Rightarrow> bool" for P where
  runs_new: "redis_runs P []"
| runs_publish: "redis_runs P db \<Longrightarrow> length (f i) = 16 \<Longrightarrow> wid \<noteq> ATTRIBUTES_FIELD \<Longrightarrow> r = worker_record_from worker \<Longrightarrow>
    P (f i) wid (wr_worker_rank r) = (wr_accelerator r, wr_topology r, owner) \<Longrightarrow>
    redis_runs P (redis_publish_metadata f i wid worker owner db)"
| runs_heartbeat: "redis_runs P db0 \<Longrightarrow> redis_runs P db1 \<Longrightarrow> redis_runs P db \<Longrightarrow> length a = 16 \<Longrightarrow>
    redis_update_calls a b r st t l db0 db1 db = Inr db' \<Longrightarrow> redis_runs P db'"
| runs_remove_source: "redis_runs P db \<Longrightarrow> length a = 16 \<Longrightarrow> redis_runs P (redis_remove_metadata a db)"
| runs_remove: "redis_runs P db \<Longrightarrow> length a = 16 \<Longrightarrow> b \<noteq> ATTRIBUTES_FIELD \<Longrightarrow> redis_runs P (redis_remove_worker a b db)"

lemma redis_runs_reach: "redis_runs P db \<Longrightarrow> redis_reach db \<and> static_rows P db"
proof (induction rule: redis_runs.induct)
  case runs_new
  then show ?case by (simp add: redis_new static_rows_def hash_at_def or_default_def)
next
  case (runs_publish db f i wid r worker owner)
  then show ?case using redis_publish static_publish by blast
next
  case (runs_heartbeat db0 db1 db a b r st t l db')
  then have "redis_update_status a b r st t l db = Inr db'" using interrupted_update redis_reach_ok by blast
  with runs_heartbeat show ?case using redis_heartbeat static_update redis_reach_ok by blast
next
  case (runs_remove_source db a)
  have "static_rows P (redis_remove_metadata a db)"
    by (rule static_frame [of P db]) (use runs_remove_source remove_source_kept in auto)
  then show ?case using runs_remove_source redis_remove_source by blast
next
  case (runs_remove db a b)
  have "hash_at (redis_remove_worker a b db) (worker_key c d) = hash_at db (worker_key c d)
      \<or> hash_at (redis_remove_worker a b db) (worker_key c d) = []" if "length c = 16" for c d
    using remove_hashes(1,2) [where db = db and b = b, OF refl runs_remove(2)] that runs_remove(2)
    by (cases "worker_key c d = worker_key a b") auto
  then have "static_rows P (redis_remove_worker a b db)" using static_frame runs_remove by blast
  then show ?case using runs_remove redis_remove by blast
qed

subsection \<open>Properties\<close>

lemma filtered_is_plain_reach:
  assumes "redis_reach db" and "list_all matches_source_pattern scanned"
    and "case source_id of Some sid \<Rightarrow> length sid = 16 | None \<Rightarrow> True"
  shows "redis_list_workers_filtered scanned source_id st model rank min_step min_updated limit db
    = list_workers_filtered (redis_list_workers scanned source_id st db) model rank min_step min_updated limit"
proof (rule filtered_is_plain)
  have "length sid = 16" if "sid \<in> set (listed_sources source_id scanned)" for sid
    using assms(2,3) that by (auto simp: listed_sources_def list_all_iff pattern_iff split: option.splits)
  then show "sources_ok db source_id scanned"
    using redis_reach_ok [OF assms(1)] by (simp add: sources_ok_def db_ok_def)
qed

text \<open>
  C20. The pipelined listing answers what the plain one would. After any publications, removals and
  heartbeats, the latter with anything of the same kind happening between their two reads and
  their script, filtering the summaries of the source hashes, with a second round trip only for
  the rows that need one, gives exactly the workers, in the same order, of listing every worker
  from its own hash and applying the default filter, for every filter and limit. The calls name
  sources by the sixteen characters the server computes (\<open>colon_id_breaks_other_worker\<close> shows what another
  name does), no worker is called as the attributes row, the accelerator, topology and owner of a
  worker's rank never change (\<open>restated_update_splits_listings\<close>), and the commands of one
  publication run together (\<open>interrupted_publication_splits_listings\<close>).
\<close>

theorem redis_fast_listing_exact:
  assumes "redis_runs P db" and "list_all matches_source_pattern scanned"
    and "case source_id of Some sid \<Rightarrow> length sid = 16 | None \<Rightarrow> True"
  shows "redis_list_workers_filtered scanned source_id st model rank min_step min_updated limit db
    = list_workers_filtered (redis_list_workers scanned source_id st db) model rank min_step min_updated limit"
  by (rule filtered_is_plain_reach [OF conjunct1 [OF redis_runs_reach [OF assms(1)]] assms(2,3)])

text \<open>
  C31. Heartbeats converge whatever their order of arrival: two updates of a listed worker with
  different times, delivered in either order, leave it with the status, time and load of the later
  one, and the earlier one delivered late changes nothing.
\<close>

theorem redis_heartbeats_converge:
  assumes "redis_reach db" "redis_look db a b = Some w" "ii_updated_at w \<le> t" "t < t'" "r = ii_worker_rank w"
  shows "\<exists>db1 db2 db3. redis_update_status a b r st t l db = Inr db1 \<and> redis_update_status a b r st' t' l' db1 = Inr db2
    \<and> redis_update_status a b r st' t' l' db = Inr db3 \<and> redis_update_status a b r st t l db3 = Inr db3
    \<and> (\<forall>c d. redis_look db2 c d = redis_look db3 c d)
    \<and> redis_look db2 a b = Some (w\<lparr>ii_status := st', ii_updated_at := t', ii_source_load := json_load l'\<rparr>)"
proof -
  have ok: "db_ok db" by (rule redis_reach_ok [OF assms(1)])
  let ?w = "\<lambda>st t l. w\<lparr>ii_status := st, ii_updated_at := t, ii_source_load := json_load l\<rparr>"
  obtain db1 where 1: "redis_update_status a b r st t l db = Inr db1" "db_ok db1"
    "\<And>c d. redis_look db1 c d = (if c = a \<and> d = b then Some (?w st t l) else redis_look db c d)"
    using redis_look_update [OF ok assms(2,3)] assms(5) by blast
  have "redis_look db1 a b = Some (?w st t l)" by (simp add: 1(3))
  from redis_look_update [OF 1(2) this, of t' st' l'] assms(4,5) obtain db2 where
    2: "redis_update_status a b r st' t' l' db1 = Inr db2"
    "\<And>c d. redis_look db2 c d = (if c = a \<and> d = b then Some (?w st' t' l') else redis_look db1 c d)" by auto
  obtain db3 where 3: "redis_update_status a b r st' t' l' db = Inr db3" "db_ok db3"
    "\<And>c d. redis_look db3 c d = (if c = a \<and> d = b then Some (?w st' t' l') else redis_look db c d)"
    using redis_look_update [OF ok assms(2), of t' st' l'] assms(3-5) by auto
  have late: "redis_look db3 a b = Some (?w st' t' l')" by (simp add: 3(3))
  then obtain s where s: "length a = 16" "b \<noteq> ATTRIBUTES_FIELD" "hm_get (hash_at db3 (source_key a)) b = Some (SummaryText s)"
    "?w st' t' l' = summary_info a b (hash_attributes (hash_at db3 (source_key a))) s"
    by (auto simp: redis_look_def split: if_splits option.splits json_text.splits)
  have "sy_worker_rank s = r" "sy_updated_at s = t'"
    using arg_cong [OF s(4), of ii_worker_rank] arg_cong [OF s(4), of ii_updated_at] assms(5) by (simp_all add: summary_info_def)
  moreover have wok: "worker_hash_ok (hash_at db3 (worker_key a b)) (SummaryText s)"
    using 3(2) s by (simp add: db_ok_def source_hash_ok_def Let_def)
  ultimately have here: "hm_get (hash_at db3 (worker_key a b)) (rank_field r) \<noteq> None"
    and st: "hm_get (hash_at db3 (worker_key a b)) (status_field r) = Some (SummaryText s)" by (auto simp: worker_hash_ok_def)
  have "redis_update_status a b r st t l db3 = Inr db3"
    by (rule redis_update_cases [where st = st and t = t and l = l, OF 3(2) s(1,3,2) here])
      (use st assms(4) \<open>sy_updated_at s = t'\<close> in auto)
  moreover have "redis_look db2 c d = redis_look db3 c d" for c d by (simp add: 1(3) 2(2) 3(3))
  moreover have "redis_look db2 a b = Some (?w st' t' l')" by (simp add: 2(2))
  ultimately show ?thesis using 1(1) 2(1) 3(1) by blast
qed

text \<open>
  A pass of the reaper over the Redis store does to every listed worker exactly what it does
  over the in-memory one, provided the updates are stamped no earlier than the pass began: the
  freshness check of the script lets through every update the reaper makes.
\<close>

theorem redis_reaper_pass_exact:
  assumes "redis_reach db" and "\<forall>w. now \<le> clock w"
  shows "redis_look (reap_once redis_update_status redis_remove_worker clock now hb gc
      (redis_list_workers (full_scan db) None None db) db) a b =
    (case redis_look db a b of
       None \<Rightarrow> None
     | Some w \<Rightarrow>
         if (ii_status w = STATUS_READY \<or> ii_status w = STATUS_INITIALIZING) \<and> age_ms now w > hb
         then Some (w\<lparr>ii_status := STATUS_STALE, ii_updated_at := clock w, ii_source_load := None\<rparr>)
         else if ii_status w = STATUS_STALE \<and> age_ms now w > gc then None else Some w)"
proof -
  have "ii_updated_at w \<le> clock w" if "age_ms now w > hb" for w
  proof -
    have "ii_updated_at w < now" using that by (auto simp: age_ms_def i64_saturating_sub_def)
    with assms(2) [rule_format, of w] show ?thesis by simp
  qed
  from redis.reap_exact(2) [where now = now and hb = hb and clock = clock and gc = gc and a = a and b = b,
      OF redis_reach_ok [OF assms(1)] this] show ?thesis
    by (simp add: reap_result_def is_active_def split: option.split)
qed

subsection \<open>What is published is found\<close>

lemma attributes_roundtrip [simp]: "to_source_identity (attributes_from i) = i"
  by (simp add: to_source_identity_def attributes_from_def)

lemma sa_sel [simp]: "sa_model_name (attributes_from i) = si_model_name i"
  by (simp add: attributes_from_def)

lemma worker_json_roundtrip:
  "worker_from_json ((from_worker_record r)\<lparr>wj_owner_namespace := owner, wj_source_load := l\<rparr>) = r\<lparr>wr_source_load := l\<rparr>"
proof -
  have "map (tensor_from_json \<circ> tensor_json_from) ts = ts" for ts
    by (rule map_idI) (simp add: tensor_from_json_def tensor_json_from_def)
  moreover have "map_option (artifact_from_json \<circ> artifact_json_from) x = x" for x
    by (cases x) (simp_all add: artifact_from_json_def artifact_json_from_def)
  ultimately show ?thesis
    by (cases r) (auto simp: worker_from_json_def from_worker_record_def option.map_comp from_flat_def
        split: BackendMetadataRecord.splits)
qed

text \<open>The record of a rank as readers see it, with its status row laid over it.\<close>

definition seen_record :: "redis_hash \<Rightarrow> WorkerRecordJson \<Rightarrow> WorkerRecord" where
  "seen_record flds j =
     (case overlaid flds (wj_worker_rank j) j of (status, updated_at, source_load) \<Rightarrow>
       (worker_from_json j)\<lparr>wr_status := status, wr_updated_at := updated_at, wr_source_load := source_load\<rparr>)"

definition record_entries :: "(string \<times> json_text) list \<Rightarrow> WorkerRecordJson list" where
  "record_entries es = List.map_filter (\<lambda>(f, v). if starts_with STATUS_FIELD_PREFIX f then None else parse_record v) es"

lemma collect_step:
  "collect_ranks flds ((f, RecordText j) # rest) owner workers =
     (if starts_with STATUS_FIELD_PREFIX f then collect_ranks flds rest owner workers
      else collect_ranks flds rest (case owner of Some o1 \<Rightarrow> Some o1 | None \<Rightarrow> wj_owner_namespace j)
             (workers @ [seen_record flds j]))"
  by (simp add: seen_record_def overlaid_def worker_from_json_def split: prod.splits)

definition first_owner :: "string option \<Rightarrow> WorkerRecordJson list \<Rightarrow> string option" where
  "first_owner owner js = fold (\<lambda>j o1. case o1 of Some x \<Rightarrow> Some x | None \<Rightarrow> wj_owner_namespace j) js owner"

lemma first_owner_common:
  assumes "\<And>j. j \<in> set js \<Longrightarrow> wj_owner_namespace j = ns" "js \<noteq> []"
  shows "first_owner None js = ns"
proof -
  have "first_owner ns ks = ns" if "\<And>j. j \<in> set ks \<Longrightarrow> wj_owner_namespace j = ns" for ks
    using that by (induction ks) (auto simp: first_owner_def split: option.splits)
  with assms show ?thesis by (cases js) (auto simp: first_owner_def)
qed

lemma collect_all:
  assumes "\<And>f v. (f, v) \<in> set es \<Longrightarrow> \<not> starts_with STATUS_FIELD_PREFIX f \<Longrightarrow> \<exists>j. v = RecordText j"
  shows "collect_ranks flds es owner workers
    = Inr (first_owner owner (record_entries es), workers @ map (seen_record flds) (record_entries es))"
  using assms
proof (induction es arbitrary: owner workers)
  case (Cons e es)
  obtain f v where e: "e = (f, v)" by (cases e)
  have IH: "collect_ranks flds es owner workers
    = Inr (first_owner owner (record_entries es), workers @ map (seen_record flds) (record_entries es))" for owner workers
    using Cons by (meson list.set_intros(2))
  show ?case
  proof (cases "starts_with STATUS_FIELD_PREFIX f")
    case True
    then have "record_entries (e # es) = record_entries es" by (simp add: record_entries_def e)
    then show ?thesis using True by (simp add: e IH)
  next
    case False
    then obtain j where v: "v = RecordText j" using Cons.prems [of f v] e by auto
    have "record_entries (e # es) = j # record_entries es" using False by (simp add: record_entries_def e v)
    then show ?thesis using False by (simp add: e v collect_step IH first_owner_def del: collect_ranks.simps)
  qed
qed (simp add: record_entries_def first_owner_def)

lemma record_entries_mem:
  assumes "worker_hash_ok flds row"
  shows "j \<in> set (record_entries flds) \<longleftrightarrow> hm_get flds (rank_field (wj_worker_rank j)) = Some (RecordText j)"
proof -
  have ok: "hm_ok flds" using assms by (simp add: worker_hash_ok_def)
  have "j \<in> set (record_entries flds) \<longleftrightarrow> (\<exists>f. hm_get flds f = Some (RecordText j) \<and> \<not> starts_with STATUS_FIELD_PREFIX f)"
  proof -
    have "parse_record v = Some j \<longleftrightarrow> v = RecordText j" for v by (cases v) auto
    moreover have "hm_get flds f = Some v \<longleftrightarrow> (f, v) \<in> set flds" for f v using hm_mem_iff [OF ok] by simp
    ultimately have "(case x of (f, v) \<Rightarrow> if starts_with STATUS_FIELD_PREFIX f then None else parse_record v) = Some j
        \<longleftrightarrow> (\<exists>f. x = (f, RecordText j) \<and> \<not> starts_with STATUS_FIELD_PREFIX f)" for x
      by (cases x) auto
    then show ?thesis
      unfolding record_entries_def set_map_filter mem_Collect_eq using hm_mem_iff [OF ok] by (simp only:) auto
  qed
  also have "\<dots> \<longleftrightarrow> hm_get flds (rank_field (wj_worker_rank j)) = Some (RecordText j)"
    using assms rank_not_status(1) unfolding worker_hash_ok_def by fastforce
  finally show ?thesis .
qed

lemma seen_rank [simp]: "wr_worker_rank (seen_record flds j) = wj_worker_rank j"
  by (simp add: seen_record_def worker_from_json_def split: prod.splits)

lemma get_of_ok:
  assumes "worker_hash_ok (hash_at db (worker_key a b)) row" "hm_get (hash_at db (source_key a)) ATTRIBUTES_FIELD = Some (AttributesText at)"
  obtains m where "redis_get_metadata a b db = Inr (Some m)" "mm_model_name m = sa_model_name at"
    "mm_identity m = Some (to_source_identity at)"
    "mm_workers m = sort_key wr_worker_rank (map (seen_record (hash_at db (worker_key a b))) (record_entries (hash_at db (worker_key a b))))"
    "\<And>ns. (\<And>j. j \<in> set (record_entries (hash_at db (worker_key a b))) \<Longrightarrow> wj_owner_namespace j = ns) \<Longrightarrow> mm_owner_namespace m = ns"
proof -
  let ?f = "hash_at db (worker_key a b)"
  have recs: "\<exists>j. v = RecordText j" if "(f, v) \<in> set ?f" "\<not> starts_with STATUS_FIELD_PREFIX f" for f v
    using assms(1) that unfolding worker_hash_ok_def by (metis hm_mem_iff)
  have run: "collect_ranks ?f ?f None [] = Inr (first_owner None (record_entries ?f), map (seen_record ?f) (record_entries ?f))"
    using collect_all [where es = ?f and flds = ?f and owner = None and workers = "[]"] recs by simp
  obtain s where "row = SummaryText s" "hm_get ?f (rank_field (sy_worker_rank s)) \<noteq> None"
    using assms(1) unfolding worker_hash_ok_def by blast
  with rank_record [OF assms(1)] obtain j where "hm_get ?f (rank_field (wj_worker_rank j)) = Some (RecordText j)" by metis
  then have ne: "?f \<noteq> []" "record_entries ?f \<noteq> []" using record_entries_mem [OF assms(1), of j] by (auto simp: record_entries_def)
  show ?thesis
    by (rule that [of "\<lparr>mm_source_id = a, mm_worker_id = b, mm_model_name = sa_model_name at,
        mm_workers = sort_key wr_worker_rank (map (seen_record ?f) (record_entries ?f)), mm_published_at = 0,
        mm_owner_namespace = first_owner None (record_entries ?f), mm_identity = Some (to_source_identity at)\<rparr>"])
      (use ne in \<open>auto simp: redis_get_metadata_def Let_def run source_identity_from_attributes_def assms(2) intro: first_owner_common\<close>)
qed

text \<open>
  What is published in Redis is found: after a publication the worker's metadata is read
  back with the identity and the model name of the publication, with the published record as the
  only one of its rank and the ranks in order, and the listing reports the published rank, status
  and owner; a worker that was not there before belongs to its publisher. Every other worker of
  every source keeps its entry, but for the attributes of a shared source.
\<close>

theorem redis_published_is_found:
  assumes "redis_reach db" "length (f i) = 16" "wid \<noteq> ATTRIBUTES_FIELD"
    and "db' = redis_publish_metadata f i wid worker owner db" "r = worker_record_from worker"
  shows "\<exists>m w. redis_get_metadata (f i) wid db' = Inr (Some m)
    \<and> mm_model_name m = si_model_name i \<and> mm_identity m = Some i
    \<and> (\<forall>x. wr_worker_rank x = wr_worker_rank r \<longrightarrow> (x \<in> set (mm_workers m) \<longleftrightarrow> x = r))
    \<and> sorted (map wr_worker_rank (mm_workers m))
    \<and> (redis_get_metadata (f i) wid db = Inr None \<longrightarrow> mm_owner_namespace m = owner \<and> mm_workers m = [r])
    \<and> redis_look db' (f i) wid = Some w \<and> ii_worker_rank w = wr_worker_rank r \<and> ii_status w = wr_status r
    \<and> ii_updated_at w = wr_updated_at r \<and> ii_owner_namespace w = owner
    \<and> (\<forall>c d. c \<noteq> f i \<longrightarrow> redis_look db' c d = redis_look db c d)"
proof -
  define s where "s = published_summary r owner\<lparr>sy_source_load := json_load (wr_source_load r)\<rparr>"
  define j where "j = (from_worker_record r)\<lparr>wj_owner_namespace := owner, wj_source_load := json_load (wr_source_load r)\<rparr>"
  note h = publish_hashes [where f = f and i = i and wid = wid and worker = worker and owner = owner and db = db,
      OF assms(2,4,5) s_def j_def]
  let ?h = "hash_at db' (worker_key (f i) wid)" and ?rows = "hash_at db' (source_key (f i))"
  have ok: "db_ok db'" unfolding assms(4) by (rule redis_publish_ok [where f = f, OF redis_reach_ok [OF assms(1)] assms(2,3)])
  have row: "hm_get ?rows wid = Some (SummaryText s)" "hm_get ?rows ATTRIBUTES_FIELD = Some (AttributesText (attributes_from i))"
    using assms(3) by (simp_all add: h(1) hm_simps)
  have wok: "worker_hash_ok ?h (SummaryText s)"
    using ok assms(2,3) row(1) by (simp add: db_ok_def source_hash_ok_def Let_def)
  have load: "wr_source_load r = None" by (simp add: assms(5) worker_record_from_def Let_def case_prod_unfold)
  have jr: "wj_worker_rank j = wr_worker_rank r" by (simp add: j_def from_worker_record_def Let_def case_prod_unfold)
  have js: "hm_get ?h (rank_field (wr_worker_rank r)) = Some (RecordText j)"
    "hm_get ?h (status_field (wr_worker_rank r)) = Some (SummaryText s)" by (simp_all add: h(2) hm_simps)
  have "describes s j" unfolding s_def j_def by (rule published_describes)
  then have seen: "seen_record ?h j = r"
    using js(2) load by (simp add: seen_record_def overlaid_summary jr)
      (simp add: j_def worker_json_roundtrip s_def published_summary_def)
  have "redis_get_metadata (f i) wid db = Inr None \<Longrightarrow> hash_at db (worker_key (f i) wid) = []"
    by (auto simp: redis_get_metadata_def Let_def split: if_splits prod.splits sum.splits)
  moreover have "record_entries (hm_insert (status_field q) x (hm_insert (rank_field q) (RecordText y) [])) = [y]" for q x y
    by (simp add: record_entries_def hm_insert_def hm_remove_def)
  ultimately have fresh: "record_entries ?h = [j]" if "redis_get_metadata (f i) wid db = Inr None"
    using that by (simp add: h(2))
  obtain m where m: "redis_get_metadata (f i) wid db' = Inr (Some m)" "mm_model_name m = si_model_name i" "mm_identity m = Some i"
    "mm_workers m = sort_key wr_worker_rank (map (seen_record ?h) (record_entries ?h))"
    "\<And>ns. (\<And>j. j \<in> set (record_entries ?h) \<Longrightarrow> wj_owner_namespace j = ns) \<Longrightarrow> mm_owner_namespace m = ns"
    using get_of_ok [OF wok row(2)] by (metis attributes_roundtrip sa_sel)
  have mem: "x \<in> set (mm_workers m) \<longleftrightarrow> x = r" if "wr_worker_rank x = wr_worker_rank r" for x
  proof -
    have "y = j" if "y \<in> set (record_entries ?h)" "wj_worker_rank y = wr_worker_rank r" for y
      using that js(1) by (simp add: record_entries_mem [OF wok])
    moreover have "j \<in> set (record_entries ?h)" using js(1) by (simp add: record_entries_mem [OF wok] jr)
    ultimately show ?thesis using that seen by (force simp: m(4))
  qed
  let ?w = "summary_info (f i) wid (hash_attributes ?rows) s"
  have "redis_look db' (f i) wid = Some ?w" using assms(2,3) row(1) by (simp add: redis_look_def)
  moreover have "redis_look db' c d = redis_look db c d" if "c \<noteq> f i" for c d
  proof (cases "length c = 16")
    case True
    then have "hash_at db' (source_key c) = hash_at db (source_key c)" using that assms(2) by (intro h(3)) simp_all
    then show ?thesis by (intro redis_look_cong) simp_all
  qed (simp add: redis_look_def)
  moreover have "mm_owner_namespace m = owner \<and> mm_workers m = [r]" if "redis_get_metadata (f i) wid db = Inr None"
    using m(5) [of owner] fresh [OF that] seen by (simp add: m(4) j_def)
  moreover have "ii_worker_rank ?w = wr_worker_rank r" "ii_status ?w = wr_status r" "ii_updated_at ?w = wr_updated_at r"
    "ii_owner_namespace ?w = owner" by (simp_all add: summary_info_def s_def published_summary_def)
  ultimately show ?thesis using m(1-3) mem by (intro exI [of _ m] exI [of _ ?w]) (simp add: m(4))
qed

subsection \<open>Interrupted calls that split the listings\<close>

lemma split_rows:
  assumes "hm_ok (hash_at db (source_key a))" "hm_get (hash_at db (source_key a)) b = Some (SummaryText s)" "b \<noteq> ATTRIBUTES_FIELD"
    and "at = hash_attributes (hash_at db (source_key a))"
  shows "summary_info a b at s \<in> set (fast_rows db None None None None None a)"
    and "x \<in> set (redis_list_source db None a) \<Longrightarrow> ii_worker_id x = b \<Longrightarrow>
      x = detailed_info a b (sy_worker_rank s) at (hash_at db (worker_key a b))"
proof -
  have mem: "(b, row) \<in> set (worker_rows (hash_at db (source_key a))) \<longleftrightarrow> row = SummaryText s" for row
    using assms(1-3) by (auto simp: worker_rows_def hm_mem_iff)
  then have "(b, SummaryText s) \<in> set (worker_rows (hash_at db (source_key a)))" by simp
  then show "summary_info a b at s \<in> set (fast_rows db None None None None None a)"
    by (force simp: fast_rows_def Let_def set_map_filter source_wanted_def is_none_or_def choose_row_def assms(4))
  have id: "ii_worker_id (detailed_info a c q at flds) = c" for c q flds by (simp add: detailed_info_def split: prod.split)
  assume "x \<in> set (redis_list_source db None a)" "ii_worker_id x = b"
  then obtain row where "(b, row) \<in> set (worker_rows (hash_at db (source_key a)))"
    "x = detailed_info a b (listed_rank row) at (hash_at db (worker_key a b))"
    unfolding list_source_plain set_map_filter plain_row_def Let_def
    by (auto simp: assms(4) [symmetric] is_none_or_def id split: if_splits)
  then show "x = detailed_info a b (sy_worker_rank s) at (hash_at db (worker_key a b))" by (simp add: mem listed_rank_def)
qed

lemma fresh_script:
  assumes "hm_get (hash_at db wkey) (rank_field r) \<noteq> None" "hm_get (hash_at db wkey) (status_field r) = Some (SummaryText s0)"
    and "sy_updated_at s0 \<le> t"
  shows "update_status_if_fresh wkey skey b r summary t db =
    Inr (True, if update_source_summary r t (hm_get (hash_at db skey) b)
      then redis_hset skey b summary (redis_hset wkey (status_field r) summary db) else redis_hset wkey (status_field r) summary db)"
  using assms by (auto simp: update_status_if_fresh_def update_status_if_fresh_lua_def Let_def lua_newer_def)

text \<open>
  A heartbeat carries on what it read before a new publication of its worker: the pipelined
  listing then gives the accelerator and topology of before, the plain listing those just published.
\<close>

theorem restated_update_splits_listings:
  assumes "redis_reach db" "redis_look db (f i) b = Some w" "rec = worker_record_from worker" "wr_worker_rank rec = ii_worker_rank w"
    and "wr_updated_at rec \<le> t" "db1 = redis_publish_metadata f i b worker owner db"
  shows "\<exists>db' x. redis_update_calls (f i) b (ii_worker_rank w) st t l db db db1 = Inr db'
    \<and> x \<in> set (fast_rows db' None None None None None (f i)) \<and> ii_worker_id x = b
    \<and> ii_accelerator x = ii_accelerator w \<and> ii_topology x = ii_topology w
    \<and> (\<forall>y. y \<in> set (redis_list_source db' None (f i)) \<longrightarrow> ii_worker_id y = b \<longrightarrow>
         ii_accelerator y = wr_accelerator rec \<and> ii_topology y = wr_topology rec)"
proof -
  from assms(2) obtain s where a: "length (f i) = 16" "b \<noteq> ATTRIBUTES_FIELD"
    and row: "hm_get (hash_at db (source_key (f i))) b = Some (SummaryText s)"
    and w: "w = summary_info (f i) b (hash_attributes (hash_at db (source_key (f i)))) s"
    by (auto simp: redis_look_def split: if_splits option.splits json_text.splits)
  let ?r = "sy_worker_rank s" and ?k = "worker_key (f i) b" and ?sk = "source_key (f i)"
  have r: "ii_worker_rank w = ?r" "ii_accelerator w = sy_accelerator s" "ii_topology w = sy_topology s"
    by (simp_all add: w summary_info_def)
  have ok: "db_ok db" by (rule redis_reach_ok [OF assms(1)])
  then have "worker_hash_ok (hash_at db ?k) (SummaryText s)" using a row by (simp add: db_ok_def source_hash_ok_def Let_def)
  then have st: "hm_get (hash_at db ?k) (status_field ?r) = Some (SummaryText s)" by (auto simp: worker_hash_ok_def)
  define s1 where "s1 = published_summary rec owner\<lparr>sy_source_load := json_load (wr_source_load rec)\<rparr>"
  define j where "j = (from_worker_record rec)\<lparr>wj_owner_namespace := owner, wj_source_load := json_load (wr_source_load rec)\<rparr>"
  note h = publish_hashes [where f = f, OF a(1) assms(6,3) s1_def j_def]
  have s1: "sy_updated_at s1 \<le> t" "sy_worker_rank s1 = ?r"
    using assms(4,5) r by (simp_all add: s1_def published_summary_def)
  have j: "wj_accelerator j = wr_accelerator rec" "wj_topology j = wr_topology rec"
    by (simp_all add: j_def from_worker_record_def Let_def case_prod_unfold)
  have at1: "hm_get (hash_at db1 ?k) (rank_field ?r) = Some (RecordText j)"
    "hm_get (hash_at db1 ?k) (status_field ?r) = Some (SummaryText s1)" "hm_get (hash_at db1 ?sk) b = Some (SummaryText s1)"
    using a(2) assms(4) r(1) by (simp_all add: h(1,2) hm_simps)
  have "update_source_summary ?r t (hm_get (hash_at db1 ?sk) b)"
    using s1 by (simp add: at1(3) update_source_summary_def lua_newer_def)
  define s2 where "s2 = s\<lparr>sy_status := st, sy_updated_at := t, sy_source_load := json_load l\<rparr>"
  let ?db' = "redis_hset ?sk b (SummaryText s2) (redis_hset ?k (status_field ?r) (SummaryText s2) db1)"
  have sum: "write_summary \<lparr>sy_worker_rank = ?r, sy_status = st, sy_updated_at = t, sy_accelerator = sy_accelerator s,
      sy_source_load = l, sy_topology = sy_topology s, sy_owner_namespace = sy_owner_namespace s\<rparr> = SummaryText s2"
    by (cases s) (simp add: write_summary_def s2_def)
  have run: "redis_update_calls (f i) b ?r st t l db db db1 = Inr ?db'"
    using fresh_script [where wkey = ?k and db = db1 and r = ?r, OF _ at1(2) s1(1)] at1(1)
      \<open>update_source_summary ?r t (hm_get (hash_at db1 ?sk) b)\<close>
    by (simp add: redis_update_calls_def carried_def st Let_def sum)
  have "db_ok db1" unfolding assms(6) by (rule redis_publish_ok [where f = f, OF ok a])
  then have "hm_ok (hash_at ?db' ?sk)" using a(1) by (simp add: hash_hset hm_simps db_ok_def source_hash_ok_def Let_def)
  moreover have "hm_get (hash_at ?db' ?sk) b = Some (SummaryText s2)" by (simp add: hash_hset hm_simps)
  ultimately have rows: "summary_info (f i) b (hash_attributes (hash_at ?db' ?sk)) s2 \<in> set (fast_rows ?db' None None None None None (f i))"
    "y \<in> set (redis_list_source ?db' None (f i)) \<Longrightarrow> ii_worker_id y = b \<Longrightarrow>
       y = detailed_info (f i) b (sy_worker_rank s2) (hash_attributes (hash_at ?db' ?sk)) (hash_at ?db' ?k)" for y
    using split_rows [OF _ _ a(2) refl] by blast+
  have rec: "hm_get (hash_at ?db' ?k) (rank_field (sy_worker_rank s2)) = Some (RecordText j)"
    using a(1) at1(1) by (simp add: hash_hset hm_simps s2_def)
  have "ii_accelerator y = wr_accelerator rec \<and> ii_topology y = wr_topology rec"
    if "y \<in> set (redis_list_source ?db' None (f i))" "ii_worker_id y = b" for y
    using rows(2) [OF that] rec j by (simp add: detailed_info_def rank_view_def split: prod.splits)
  then show ?thesis
    using run rows(1) by (intro exI [of _ ?db'] exI) (auto simp: r summary_info_def s2_def)
qed

text \<open>
  The commands of a publication may be split by a heartbeat of the worker's earlier life: its
  newer status reaches the worker's own hash, and the last command of the publication then writes
  the published summary over it in the source hash. The listings disagree on the status.
\<close>

theorem interrupted_publication_splits_listings:
  assumes "hm_ok (hash_at db (source_key sid))" "length sid = 16" "wid \<noteq> ATTRIBUTES_FIELD"
    and "rec = worker_record_from worker" "r = wr_worker_rank rec" "wr_updated_at rec \<le> t"
    and "heartbeat = (\<lambda>d. case redis_update_status sid wid r st t l d of Inr d' \<Rightarrow> d' | Inl _ \<Rightarrow> d)"
    and "db' = pipelined (\<lambda>n. if n = 0 then heartbeat else (\<lambda>d. d)) (publish_commands sid i wid worker owner) db"
  shows "(\<exists>x \<in> set (fast_rows db' None None None None None sid).
      ii_worker_id x = wid \<and> ii_status x = wr_status rec \<and> ii_updated_at x = wr_updated_at rec)
    \<and> (\<forall>y. y \<in> set (redis_list_source db' None sid) \<longrightarrow> ii_worker_id y = wid \<longrightarrow> ii_status y = st \<and> ii_updated_at y = t)"
proof -
  define s where "s = published_summary rec owner\<lparr>sy_source_load := json_load (wr_source_load rec)\<rparr>"
  define j where "j = (from_worker_record rec)\<lparr>wj_owner_namespace := owner, wj_source_load := json_load (wr_source_load rec)\<rparr>"
  define s2 where "s2 = s\<lparr>sy_status := st, sy_updated_at := t, sy_source_load := json_load l\<rparr>"
  let ?k = "worker_key sid wid" and ?sk = "source_key sid"
  let ?db3 = "redis_hset ?sk ATTRIBUTES_FIELD (AttributesText (attributes_from i))
    (redis_hset ?k (status_field r) (SummaryText s) (redis_hset ?k (rank_field r) (RecordText j) db))"
  let ?beat = "redis_hset ?k (status_field r) (SummaryText s2) ?db3"
  have l: "wj_source_load (from_worker_record rec) = wr_source_load rec" "sy_source_load (published_summary rec owner) = wr_source_load rec"
    by (simp_all add: from_worker_record_def published_summary_def Let_def case_prod_unfold)
  have printed: "write_record ((from_worker_record rec)\<lparr>wj_owner_namespace := owner\<rparr>) = RecordText j"
    "write_summary (published_summary rec owner) = SummaryText s"
    by (simp_all add: write_record_def write_summary_def s_def j_def l)
  have db': "db' = redis_hset ?sk wid (SummaryText s) (heartbeat ?db3)"
    by (simp add: assms(8) publish_commands_def Let_def assms(4,5) [symmetric] printed)
  have s: "sy_updated_at s = wr_updated_at rec" "sy_worker_rank s = r" "sy_status s = wr_status rec"
    by (simp_all add: s_def published_summary_def assms(5))
  have j: "wj_updated_at j = wr_updated_at rec" by (simp add: j_def from_worker_record_def Let_def case_prod_unfold)
  have at3: "hm_get (hash_at ?db3 ?k) (rank_field r) = Some (RecordText j)"
    "hm_get (hash_at ?db3 ?k) (status_field r) = Some (SummaryText s)"
    using assms(2) by (simp_all add: hash_hset hm_simps)
  have sum: "write_summary \<lparr>sy_worker_rank = r, sy_status = st, sy_updated_at = t, sy_accelerator = sy_accelerator s,
      sy_source_load = l, sy_topology = sy_topology s, sy_owner_namespace = sy_owner_namespace s\<rparr> = SummaryText s2"
    using s(2) by (cases s) (simp add: write_summary_def s2_def)
  have beat: "heartbeat ?db3 = (if update_source_summary r t (hm_get (hash_at ?db3 ?sk) wid)
      then redis_hset ?sk wid (SummaryText s2) ?beat else ?beat)"
    using fresh_script [where wkey = ?k and db = ?db3 and r = r and t = t, OF _ at3(2)] at3(1) assms(6)
    by (simp add: assms(7) redis_update_status_def redis_update_calls_def carried_def at3(2) Let_def sum s(1))
  have "hm_ok (hash_at db' ?sk)" "hm_get (hash_at db' ?sk) wid = Some (SummaryText s)"
    using assms(1,2) by (simp_all add: db' beat hash_hset hm_simps)
  note rows = split_rows [OF this assms(3) refl]
  have "hm_get (hash_at db' ?k) (rank_field r) = Some (RecordText j)" "hm_get (hash_at db' ?k) (status_field r) = Some (SummaryText s2)"
    using assms(2) by (simp_all add: db' beat hash_hset hm_simps)
  then have "ii_status y = st \<and> ii_updated_at y = t" if "y \<in> set (redis_list_source db' None sid)" "ii_worker_id y = wid" for y
    using rows(2) [OF that] assms(6) by (simp add: detailed_info_def rank_view_def overlaid_def overlay_status_def s s2_def j)
  then show ?thesis using rows(1) by (intro conjI bexI [OF _ rows(1)]) (auto simp: s summary_info_def)
qed

subsection \<open>Ids that break other rows\<close>

lemma collect_fails:
  assumes "(f, v) \<in> set es" "\<not> starts_with STATUS_FIELD_PREFIX f" "parse_record v = None"
  shows "\<exists>e. collect_ranks flds es owner workers = Inl e"
  using assms(1)
proof (induction es arbitrary: owner workers)
  case (Cons x es)
  obtain g u where x: "x = (g, u)" by (cases x)
  show ?case
  proof (cases "(g, u) = (f, v)")
    case True
    then show ?thesis using assms(2,3) by (simp add: x)
  next
    case False
    then have IH: "\<exists>e. collect_ranks flds es owner workers = Inl e" for owner workers using Cons by (auto simp: x)
    show ?thesis
    proof (cases u)
      case (RecordText j)
      then show ?thesis using IH by (simp add: x collect_step del: collect_ranks.simps)
    qed (use IH in \<open>simp_all add: x\<close>)
  qed
qed simp

lemma aliased_key: "worker_key (a @ CHR '':'' # x) y = worker_key a (x @ CHR '':'' # y)" "source_key (a @ CHR '':'' # x) = worker_key a x"
  by (simp_all add: worker_key_def source_key_def)

text \<open>
  A source id with a colon reaches into other workers' rows: whoever registered the worker
  \<open>x:y\<close> passes the owner check for the source id extended by \<open>:x\<close> and the worker \<open>y\<close>, because
  both name the same hash, and a heartbeat under that name writes a status row into the hash of
  the worker \<open>x\<close>, whoever owns it; from then on the metadata of \<open>x\<close> cannot be read any more.
\<close>

theorem colon_id_breaks_other_worker:
  assumes "redis_reach db" "redis_look db a (x @ '':'' @ y) = Some w" "ii_updated_at w \<le> t"
    and "redis_get_metadata a x db = Inr (Some victim)"
    and "\<not> starts_with STATUS_FIELD_PREFIX y" "hm_get (hash_at db (worker_key a x)) y = None"
  shows "\<exists>db' e. redis_update_status (a @ '':'' @ x) y (ii_worker_rank w) st t l db = Inr db'
    \<and> redis_get_metadata a x db' = Inl e
    \<and> (\<exists>m m'. redis_get_metadata (a @ '':'' @ x) y db = Inr (Some m) \<and> redis_get_metadata a (x @ '':'' @ y) db = Inr (Some m')
        \<and> mm_owner_namespace m = mm_owner_namespace m')"
proof -
  let ?b = "x @ '':'' @ y"
  have ok: "db_ok db" by (rule redis_reach_ok [OF assms(1)])
  from assms(2) obtain s where a: "length a = 16" "?b \<noteq> ATTRIBUTES_FIELD" "hm_get (hash_at db (source_key a)) ?b = Some (SummaryText s)"
    and w: "w = summary_info a ?b (hash_attributes (hash_at db (source_key a))) s"
    by (auto simp: redis_look_def split: if_splits option.splits json_text.splits)
  let ?f = "hash_at db (worker_key a ?b)" and ?r = "ii_worker_rank w"
  have src: "source_hash_ok db a" using ok a(1) by (simp add: db_ok_def)
  then have wok: "worker_hash_ok ?f (SummaryText s)" using a by (simp add: source_hash_ok_def Let_def)
  have r: "?r = sy_worker_rank s" by (simp add: w summary_info_def)
  have here: "hm_get ?f (rank_field ?r) \<noteq> None" "hm_get ?f (status_field ?r) = Some (SummaryText s)"
    using wok by (auto simp: worker_hash_ok_def r)
  have t: "sy_updated_at s \<le> t" using assms(3) by (simp add: w)
  define sum where "sum = write_summary \<lparr>sy_worker_rank = ?r, sy_status = st, sy_updated_at = t,
      sy_accelerator = sy_accelerator s, sy_source_load = l, sy_topology = sy_topology s, sy_owner_namespace = sy_owner_namespace s\<rparr>"
  let ?db = "redis_hset (worker_key a x) y sum (redis_hset (worker_key a ?b) (status_field ?r) sum db)"
  have run: "redis_update_status (a @ '':'' @ x) y ?r st t l db = Inr ?db"
    using here t assms(6)
    by (simp add: redis_update_status_def redis_update_calls_def aliased_key Let_def carried_def sum_def [symmetric] update_status_if_fresh_def
        update_status_if_fresh_lua_def lua_newer_def update_source_summary_def)
  have vic: "hash_at ?db (worker_key a x) = hm_insert y sum (hash_at db (worker_key a x))"
    by (simp add: hash_hset worker_key_inj)
  have got: "hm_get (hash_at ?db (worker_key a x)) y = Some sum" unfolding vic by (simp add: hm_simps)
  then have "(y, sum) \<in> set (hash_at ?db (worker_key a x))" by (auto simp: hm_get_def dest: map_of_SomeD)
  moreover have "parse_record sum = None" by (simp add: sum_def write_summary_def)
  ultimately have "\<exists>e. collect_ranks (hash_at ?db (worker_key a x)) (hash_at ?db (worker_key a x)) None [] = Inl e"
    using collect_fails assms(5) by blast
  moreover have "hash_at ?db (worker_key a x) \<noteq> []" using got by force
  ultimately have "\<exists>e. redis_get_metadata a x ?db = Inl e"
    by (auto simp: redis_get_metadata_def Let_def split: prod.splits)
  moreover have "\<exists>m m'. redis_get_metadata (a @ '':'' @ x) y db = Inr (Some m) \<and> redis_get_metadata a ?b db = Inr (Some m')
        \<and> mm_owner_namespace m = mm_owner_namespace m'"
  proof -
    have "\<exists>j. v = RecordText j" if "(f, v) \<in> set ?f" "\<not> starts_with STATUS_FIELD_PREFIX f" for f v
      using wok that unfolding worker_hash_ok_def by (metis hm_mem_iff)
    from collect_all [where es = ?f and flds = ?f and owner = None and workers = "[]"] this
    have "collect_ranks ?f ?f None [] = Inr (first_owner None (record_entries ?f), map (seen_record ?f) (record_entries ?f))" by simp
    moreover have "?f \<noteq> []" using here by auto
    ultimately show ?thesis by (auto simp: redis_get_metadata_def Let_def aliased_key split: prod.splits)
  qed
  ultimately show ?thesis using run by blast
qed

lemma detailed_name: "ii_model_name (detailed_info sid b r attributes flds) = sa_model_name attributes"
  by (simp add: detailed_info_def split: prod.splits)

text \<open>
  A worker named as the attributes row erases its source: publishing under the reserved
  name overwrites the identity just written, so that every worker of the source, whoever owns it,
  is listed without a model name and read without an identity.
\<close>

theorem attributes_id_erases_source:
  assumes "db' = redis_publish_metadata f i ATTRIBUTES_FIELD worker owner db" "length (f i) = 16"
  shows "(\<forall>w \<in> set (redis_list_source db' st (f i)). ii_model_name w = [])
    \<and> (\<forall>b m. redis_get_metadata (f i) b db' = Inr (Some m) \<longrightarrow> mm_model_name m = [] \<and> mm_identity m = None)"
proof -
  define s where "s = published_summary (worker_record_from worker) owner
      \<lparr>sy_source_load := json_load (wr_source_load (worker_record_from worker))\<rparr>"
  have attr: "hm_get (hash_at db' (source_key (f i))) ATTRIBUTES_FIELD = Some (SummaryText s)"
    using publish_hashes(1) [where f = f and i = i and wid = ATTRIBUTES_FIELD and worker = worker and owner = owner and db = db,
      OF assms(2,1) refl s_def refl] by (simp add: hm_simps)
  then have "hash_attributes (hash_at db' (source_key (f i))) = default_attributes"
    by (simp add: hash_attributes_def or_default_def)
  then have "\<forall>w \<in> set (redis_list_source db' st (f i)). ii_model_name w = []"
    unfolding list_source_plain set_map_filter
    by (auto simp: plain_row_def Let_def detailed_name default_attributes_def split: if_splits)
  moreover have "mm_model_name m = [] \<and> mm_identity m = None" if "redis_get_metadata (f i) b db' = Inr (Some m)" for b m
    using that by (auto simp: redis_get_metadata_def Let_def source_identity_from_attributes_def attr split: if_splits sum.splits)
  ultimately show ?thesis by blast
qed

text \<open>
  What is logged of an address: a password without colons is masked whole, and what precedes
  the last colon of a password is logged.
\<close>

theorem url_mask_exact:
  assumes "CHR 0x40 \<notin> set host" "CHR '':'' \<notin> set secret"
  shows "safe_url (user @ '':'' @ secret @ [CHR 0x40] @ host) = user @ '':***'' @ [CHR 0x40] @ host"
proof -
  have r: "rsplit_once c (u @ [c] @ v) = Some (u, v)" if "c \<notin> set v" for c u v
    using that split_once_append [of c "rev v" "rev u"] by (simp add: rsplit_once_def)
  have "rsplit_once CHR 0x40 (user @ '':'' @ secret @ [CHR 0x40] @ host) = Some (user @ '':'' @ secret, host)"
    using r [of "CHR 0x40" host "user @ '':'' @ secret"] assms(1) by simp
  moreover have "rsplit_once CHR '':'' (user @ '':'' @ secret) = Some (user, secret)"
    using r [of "CHR '':''" secret user] assms(2) by simp
  ultimately show ?thesis by (simp add: safe_url_def)
qed

subsection \<open>Witnesses\<close>

definition demo_sid :: string where "demo_sid = ''0123456789abcdef''"

definition demo_db :: p2p_db where
  "demo_db = redis_publish_metadata (\<lambda>_. demo_sid) (demo_identity ''M'' []) ''w'' (worker_metadata_from demo_worker) (Some ''a'') []"

lemma demo_sid_length: "length demo_sid = 16"
  by (simp add: demo_sid_def)

lemma demo_names: "''w'' \<noteq> ATTRIBUTES_FIELD" "''w:v'' \<noteq> ATTRIBUTES_FIELD" "\<not> starts_with STATUS_FIELD_PREFIX ''v''"
  by (simp_all add: ATTRIBUTES_FIELD_def STATUS_FIELD_PREFIX_def starts_with_def)

lemma demo_db_runs:
  "redis_runs (\<lambda>_ _ _. (wr_accelerator (worker_record_from (worker_metadata_from demo_worker)),
     wr_topology (worker_record_from (worker_metadata_from demo_worker)), Some ''a'')) demo_db"
  unfolding demo_db_def by (rule runs_publish [OF runs_new]) (simp_all add: demo_sid_length demo_names)

lemma demo_db_reach: "redis_reach demo_db"
  unfolding demo_db_def by (rule redis_publish [OF redis_new]) (simp_all add: demo_sid_length demo_names)

theorem redis_published_is_found_witness:
  "\<exists>m. redis_get_metadata demo_sid ''w'' demo_db = Inr (Some m) \<and> mm_model_name m = ''M'' \<and> mm_owner_namespace m = Some ''a''"
proof -
  have "redis_get_metadata demo_sid ''w'' [] = Inr None" by (simp add: redis_get_metadata_def hash_at_def or_default_def)
  moreover have "si_model_name (demo_identity ''M'' []) = ''M''" by (simp add: demo_identity_def)
  ultimately show ?thesis
    using redis_published_is_found [where f = "\<lambda>_. demo_sid", OF redis_new demo_sid_length demo_names(1) demo_db_def refl]
    by metis
qed

lemma demo_db_look: "\<exists>w. redis_look demo_db demo_sid ''w'' = Some w \<and> ii_updated_at w = 7 \<and> ii_status w = 2"
proof -
  have "wr_updated_at (worker_record_from (worker_metadata_from demo_worker)) = 7"
    "wr_status (worker_record_from (worker_metadata_from demo_worker)) = 2"
    by (simp_all add: worker_record_from_def worker_metadata_from_def demo_worker_def Let_def)
  then show ?thesis
    using publish_hashes(1) [where f = "\<lambda>_. demo_sid", OF demo_sid_length demo_db_def refl refl refl] demo_sid_length demo_names(1)
    by (simp add: redis_look_def hm_simps summary_info_def published_summary_def)
qed

theorem redis_fast_listing_exact_witness:
  "redis_list_workers_filtered [source_key demo_sid] None (Some 2) None None None None (Some 1) demo_db
     = list_workers_filtered (redis_list_workers [source_key demo_sid] None (Some 2) demo_db) None None None None (Some 1)"
  using redis_fast_listing_exact [OF demo_db_runs, of "[source_key demo_sid]" None "Some 2" None None None None "Some 1"]
  by (auto simp: pattern_iff demo_sid_length)

theorem redis_heartbeats_converge_witness:
  "\<exists>db2 db3. redis_look db2 demo_sid ''w'' = redis_look db3 demo_sid ''w'' \<and> redis_look db3 demo_sid ''w'' \<noteq> None"
proof -
  obtain w where w: "redis_look demo_db demo_sid ''w'' = Some w" "ii_updated_at w \<le> 8" using demo_db_look by force
  from redis_heartbeats_converge [OF demo_db_reach w, of 9 "ii_worker_rank w" 2 None 3 None] show ?thesis by auto
qed

theorem redis_reaper_pass_exact_witness:
  "map_option ii_status (redis_look (reap_once redis_update_status redis_remove_worker (\<lambda>_. 100000) 100000 90 3600000
     (redis_list_workers (full_scan demo_db) None None demo_db) demo_db) demo_sid ''w'') = Some STATUS_STALE"
proof -
  obtain w where "redis_look demo_db demo_sid ''w'' = Some w" "ii_updated_at w = 7" "ii_status w = STATUS_READY"
    using demo_db_look by (auto simp: STATUS_READY_def)
  with redis_reaper_pass_exact [OF demo_db_reach, of 100000 "\<lambda>_. 100000" 90 3600000 demo_sid "''w''"] show ?thesis
    by (simp add: age_ms_def i64_saturating_sub_def)
qed

definition demo_shared :: p2p_db where
  "demo_shared = redis_publish_metadata (\<lambda>_. demo_sid) (demo_identity ''M'' []) ''w:v'' (worker_metadata_from demo_worker) (Some ''b'') demo_db"

lemma demo_shared_reach: "redis_reach demo_shared"
  unfolding demo_shared_def by (rule redis_publish [OF demo_db_reach]) (simp_all add: demo_sid_length demo_names)

theorem colon_id_breaks_other_worker_witness:
  "\<exists>m r db' e. redis_get_metadata demo_sid ''w'' demo_shared = Inr (Some m)
     \<and> redis_update_status (demo_sid @ '':'' @ ''w'') ''v'' r 2 9 None demo_shared = Inr db'
     \<and> redis_get_metadata demo_sid ''w'' db' = Inl e"
proof -
  let ?r = "worker_record_from (worker_metadata_from demo_worker)"
  note h = publish_hashes [where f = "\<lambda>_. demo_sid", OF demo_sid_length demo_shared_def refl refl refl]
  note g = publish_hashes [where f = "\<lambda>_. demo_sid", OF demo_sid_length demo_db_def refl refl refl]
  have u: "wr_updated_at ?r = 7" by (simp add: worker_record_from_def worker_metadata_from_def demo_worker_def Let_def)
  obtain w where w: "redis_look demo_shared demo_sid (''w'' @ '':'' @ ''v'') = Some w" "ii_updated_at w \<le> 9"
    using h(1) demo_sid_length demo_names(2) u by (simp add: redis_look_def hm_simps summary_info_def published_summary_def)
  have flds: "hash_at demo_shared (worker_key demo_sid ''w'') = hash_at demo_db (worker_key demo_sid ''w'')"
    by (rule h(3)) (simp_all add: demo_sid_length worker_key_inj)
  have nov: "hm_get (hash_at demo_shared (worker_key demo_sid ''w'')) ''v'' = None"
  proof -
    have "''v'' \<noteq> rank_field q" for q
    proof -
      have "CHR ''v'' \<notin> set (rank_field q)"
        unfolding rank_field_def by (rule show_nat_free) (simp add: digit_value_def)
      then show ?thesis by (metis list.set_intros(1))
    qed
    moreover have "''v'' \<noteq> status_field q" for q using demo_names(3) rank_not_status(3) [of q] by auto
    ultimately show ?thesis unfolding flds g(2) by (simp add: hm_simps hash_at_def or_default_def)
  qed
  have "db_ok demo_shared" by (rule redis_reach_ok [OF demo_shared_reach])
  then have src: "source_hash_ok demo_shared demo_sid" using demo_sid_length by (simp add: db_ok_def)
  have row: "hm_get (hash_at demo_shared (source_key demo_sid)) ''w'' \<noteq> None"
    using demo_names(1) by (simp add: h(1) g(1) hm_simps)
  obtain m where m: "redis_get_metadata demo_sid ''w'' demo_shared = Inr (Some m)"
  proof -
    from row obtain rw where rw: "hm_get (hash_at demo_shared (source_key demo_sid)) ''w'' = Some rw" by blast
    then have "worker_hash_ok (hash_at demo_shared (worker_key demo_sid ''w'')) rw"
      using src demo_names(1) by (simp add: source_hash_ok_def Let_def)
    moreover have "\<exists>at. hm_get (hash_at demo_shared (source_key demo_sid)) ATTRIBUTES_FIELD = Some (AttributesText at)"
      using demo_names(2) by (simp add: h(1) hm_simps)
    ultimately show ?thesis using get_of_ok that by metis
  qed
  from colon_id_breaks_other_worker [OF demo_shared_reach w m demo_names(3) nov, of 2 None] m show ?thesis by blast
qed

theorem attributes_id_erases_source_witness:
  "ii_model_name ` set (redis_list_source (redis_publish_metadata (\<lambda>_. demo_sid) (demo_identity ''M'' []) ''__attributes__''
      (worker_metadata_from demo_worker) (Some ''b'') demo_db) None demo_sid) \<subseteq> {[]}"
  using attributes_id_erases_source [where f = "\<lambda>_. demo_sid" and i = "demo_identity ''M'' []" and worker = "worker_metadata_from demo_worker"
      and owner = "Some ''b''" and db = demo_db and st = None, OF refl demo_sid_length]
  unfolding ATTRIBUTES_FIELD_def by blast

theorem url_mask_exact_witness:
  "safe_url (''redis://:pa'' @ '':'' @ ''ss'' @ [CHR 0x40] @ ''h'') = ''redis://:pa'' @ '':***'' @ [CHR 0x40] @ ''h''"
  by (rule url_mask_exact) simp_all

end
