(* ===== verification/Refit_Scripts.thy ===== *)
theory Refit_Scripts
  imports MX_Text
begin

text \<open>
  The state machine of the weight refit control plane: the Lua scripts under
  \<^verbatim>\<open>refit/backend/redis/scripts\<close>, each one atomic transaction, over typed views of the hashes,
  sets and sorted sets they read and write.

  A trainer mesh names the workers that together hold a model, each with the logical shard it serves
  and its endpoint. A weight version is published shard by shard by the workers of its mesh and becomes
  READY with the last one; generators hold leases on it while they read. Worker registrations and lease
  hashes carry the instant at which Redis drops them: a key counts as present before that instant.
  Every script takes the time of the Redis server as \<open>now\<close>, in milliseconds; the sums of an instant
  and a lifetime and the generations stay below \<open>2 ^ 53\<close>, where the numbers of Lua are exact. A shard is
  stored as the text of its message. Answers are the strings the scripts return.

  The step relation \<open>rstep\<close> lets every replica run every script, with the arguments the Rust code passes,
  while time goes on.
\<close>

subsection \<open>Stored values\<close>

abbreviation (input) STATE_STAGING :: int where "STATE_STAGING \<equiv> 1"
abbreviation (input) STATE_READY :: int where "STATE_READY \<equiv> 2"
abbreviation (input) STATE_RELEASING :: int where "STATE_RELEASING \<equiv> 3"
abbreviation (input) ROLE_TRAINER :: int where "ROLE_TRAINER \<equiv> 1"
abbreviation (input) ROLE_GENERATOR :: int where "ROLE_GENERATOR \<equiv> 2"

record TrainerTensorsMetadata =
  tm_logical_shard_id :: string
  tm_metadata_endpoint :: string

type_synonym mesh_workers = "(string, TrainerTensorsMetadata) hash_map"

record MeshHash =
  mh_mesh_id :: string
  mh_model_name :: string
  mh_generation :: nat
  mh_logical_shards :: "string list"
  mh_workers :: mesh_workers
  mh_initial_workers :: mesh_workers
  mh_stable_metadata :: "(string, string) hash_map"

record VersionHash =
  vh_uid :: string
  vh_model_name :: string
  vh_idempotency_key :: string
  vh_payload_format :: int
  vh_base_version_id :: string
  vh_s3_uri :: string
  vh_initial_state :: int
  vh_layout_signature :: string
  vh_state :: int
  vh_created_at :: nat
  vh_trainer_mesh_id :: string
  vh_trainer_mesh_generation :: nat
  vh_version_number :: string

record WorkerHash =
  wh_worker_id :: string
  wh_role :: int
  wh_model_name :: string
  wh_refit_endpoint :: string
  wh_expires_at :: nat

record LeaseRecord =
  le_lease_id :: string
  le_version_id :: string
  le_worker_id :: string
  le_expires_at :: nat

record RStore =
  rs_meshes :: "string \<Rightarrow> MeshHash option"
  rs_mesh_versions :: "string \<Rightarrow> string list"
  rs_mesh_requests :: "string \<Rightarrow> string option"
  rs_versions :: "string \<Rightarrow> VersionHash option"
  rs_version_requests :: "string \<Rightarrow> string option"
  rs_workers :: "string \<Rightarrow> WorkerHash option"
  rs_shards :: "string \<Rightarrow> (string, string) hash_map"
  rs_endpoints :: "string \<Rightarrow> (string, string) hash_map"
  rs_lease_hashes :: "string \<Rightarrow> LeaseRecord option"
  rs_leases :: "string \<Rightarrow> (string, nat) hash_map"

definition refit_init :: RStore where
  "refit_init = \<lparr>rs_meshes = (\<lambda>_. None), rs_mesh_versions = (\<lambda>_. []), rs_mesh_requests = (\<lambda>_. None),
     rs_versions = (\<lambda>_. None), rs_version_requests = (\<lambda>_. None), rs_workers = (\<lambda>_. None),
     rs_shards = (\<lambda>_. []), rs_endpoints = (\<lambda>_. []), rs_lease_hashes = (\<lambda>_. None), rs_leases = (\<lambda>_. [])\<rparr>"

text \<open>A registration and a lease hash are seen until they expire.\<close>

definition worker_at :: "nat \<Rightarrow> RStore \<Rightarrow> string \<Rightarrow> WorkerHash option" where
  "worker_at now s w = (case rs_workers s w of
     Some r \<Rightarrow> if now < wh_expires_at r then Some r else None | None \<Rightarrow> None)"

definition lease_at :: "nat \<Rightarrow> RStore \<Rightarrow> string \<Rightarrow> LeaseRecord option" where
  "lease_at now s k = (case rs_lease_hashes s k of
     Some l \<Rightarrow> if now < le_expires_at l then Some l else None | None \<Rightarrow> None)"

text \<open>\<^verbatim>\<open>publication_key\<close> of the Rust code, and the same expression in the scripts.\<close>

definition publication_key :: "string \<Rightarrow> string \<Rightarrow> string" where
  "publication_key worker_id logical_shard_id =
     show_nat (length worker_id) @ '':'' @ worker_id @ logical_shard_id"

text \<open>\<^verbatim>\<open>ZREMRANGEBYSCORE leases -inf now\<close>\<close>

definition trim_leases :: "nat \<Rightarrow> string \<Rightarrow> RStore \<Rightarrow> RStore" where
  "trim_leases now v s =
     s\<lparr>rs_leases := (rs_leases s)(v := filter (\<lambda>(l, score). now < score) (rs_leases s v))\<rparr>"

definition sadd :: "string \<Rightarrow> string list \<Rightarrow> string list" where
  "sadd x xs = (if x \<in> set xs then xs else xs @ [x])"

subsection \<open>register\_worker.lua\<close>

definition register_worker_lua ::
  "nat \<Rightarrow> string \<Rightarrow> int \<Rightarrow> string \<Rightarrow> nat \<Rightarrow> string \<Rightarrow> RStore \<Rightarrow> string \<times> RStore" where
  "register_worker_lua now worker_id role model_name ttl endpoint s =
     (let same = (case worker_at now s worker_id of
            Some r \<Rightarrow> wh_role r = role \<and> wh_model_name r = model_name \<and> wh_refit_endpoint r = endpoint
          | None \<Rightarrow> True);
          expires_at = now + ttl
      in if \<not> same then (''CONFLICT'', s)
         else (''OK:'' @ show_nat expires_at,
               s\<lparr>rs_workers := (rs_workers s)(worker_id \<mapsto>
                   \<lparr>wh_worker_id = worker_id, wh_role = role, wh_model_name = model_name,
                     wh_refit_endpoint = endpoint, wh_expires_at = expires_at\<rparr>)\<rparr>))"

subsection \<open>create\_trainer\_mesh.lua\<close>

text \<open>The loop over the registrations of the selected workers, shared with the update script.\<close>

fun check_mesh_workers ::
  "nat \<Rightarrow> string \<Rightarrow> int \<Rightarrow> mesh_workers \<Rightarrow> RStore \<Rightarrow> string list \<Rightarrow> string option" where
  "check_mesh_workers now model role workers s [] = None"
| "check_mesh_workers now model role workers s (w # ws) =
     (case worker_at now s w of
        None \<Rightarrow> Some ''WORKER_NOT_FOUND''
      | Some r \<Rightarrow>
          if wh_model_name r \<noteq> model \<or> wh_role r \<noteq> role then Some ''WORKER_MISMATCH''
          else (case hm_get workers (wh_worker_id r) of
                  None \<Rightarrow> Some ''WORKER_MISMATCH''
                | Some metadata \<Rightarrow>
                    if wh_refit_endpoint r \<noteq> tm_metadata_endpoint metadata then Some ''WORKER_MISMATCH''
                    else check_mesh_workers now model role workers s ws))"

definition create_trainer_mesh_lua ::
  "nat \<Rightarrow> string \<Rightarrow> string \<Rightarrow> string \<Rightarrow> string list \<Rightarrow> mesh_workers \<Rightarrow> string list \<Rightarrow> RStore
   \<Rightarrow> string \<times> RStore" where
  "create_trainer_mesh_lua now mesh_id request model logical_shards workers worker_ids s =
     (case rs_mesh_requests s request of
        Some existing \<Rightarrow> (''EXISTING:'' @ existing, s)
      | None \<Rightarrow>
          if rs_meshes s mesh_id \<noteq> None then (''COLLISION'', s)
          else (case check_mesh_workers now model ROLE_TRAINER workers s worker_ids of
                  Some refusal \<Rightarrow> (refusal, s)
                | None \<Rightarrow>
                    (''CREATED'',
                     s\<lparr>rs_meshes := (rs_meshes s)(mesh_id \<mapsto>
                         \<lparr>mh_mesh_id = mesh_id, mh_model_name = model, mh_generation = 1,
                           mh_logical_shards = logical_shards, mh_workers = workers,
                           mh_initial_workers = workers, mh_stable_metadata = []\<rparr>),
                       rs_mesh_requests := (rs_mesh_requests s)(request \<mapsto> mesh_id)\<rparr>)))"

subsection \<open>update\_trainer\_mesh.lua\<close>

definition logical_shards_of :: "mesh_workers \<Rightarrow> string list" where
  "logical_shards_of workers = map (tm_logical_shard_id \<circ> snd) workers"

definition mesh_unchanged :: "mesh_workers \<Rightarrow> mesh_workers \<Rightarrow> bool" where
  "mesh_unchanged old replacement =
     (list_all (\<lambda>(w, metadata). case hm_get replacement w of
         None \<Rightarrow> False
       | Some m \<Rightarrow> tm_logical_shard_id m = tm_logical_shard_id metadata
                   \<and> tm_metadata_endpoint m = tm_metadata_endpoint metadata) old
      \<and> list_all (\<lambda>(w, metadata). hm_get old w \<noteq> None) replacement)"

definition coverage_differs :: "mesh_workers \<Rightarrow> mesh_workers \<Rightarrow> bool" where
  "coverage_differs old replacement =
     (list_ex (\<lambda>shard. shard \<notin> set (logical_shards_of old)) (logical_shards_of replacement)
      \<or> list_ex (\<lambda>shard. shard \<notin> set (logical_shards_of replacement)) (logical_shards_of old))"

text \<open>Entries whose binding is new, and entries that no longer serve their shard.\<close>

definition changed_workers :: "mesh_workers \<Rightarrow> mesh_workers \<Rightarrow> mesh_workers" where
  "changed_workers old replacement =
     filter (\<lambda>(w, metadata). case hm_get old w of
         None \<Rightarrow> True
       | Some p \<Rightarrow> tm_logical_shard_id p \<noteq> tm_logical_shard_id metadata
                   \<or> tm_metadata_endpoint p \<noteq> tm_metadata_endpoint metadata) replacement"

definition removed_workers :: "mesh_workers \<Rightarrow> mesh_workers \<Rightarrow> mesh_workers" where
  "removed_workers old replacement =
     filter (\<lambda>(w, metadata). case hm_get replacement w of
         None \<Rightarrow> True
       | Some c \<Rightarrow> tm_logical_shard_id c \<noteq> tm_logical_shard_id metadata) old"

definition retired_keys :: "mesh_workers \<Rightarrow> mesh_workers \<Rightarrow> string \<Rightarrow> RStore \<Rightarrow> string list" where
  "retired_keys removed changed v s =
     filter (\<lambda>key. hm_get (rs_shards s v) key \<noteq> None)
       (map (\<lambda>(w, metadata). publication_key w (tm_logical_shard_id metadata)) removed)
     @ map (\<lambda>(w, metadata). publication_key w (tm_logical_shard_id metadata))
         (filter (\<lambda>(w, metadata).
            let key = publication_key w (tm_logical_shard_id metadata)
            in hm_get (rs_shards s v) key \<noteq> None
               \<and> hm_get (rs_endpoints s v) key \<noteq> Some (tm_metadata_endpoint metadata)) changed)"

text \<open>The loop over the linked versions: nothing when one of them is leased.\<close>

fun collect_retired ::
  "nat \<Rightarrow> mesh_workers \<Rightarrow> mesh_workers \<Rightarrow> string list \<Rightarrow> RStore \<Rightarrow> (string \<times> string) list option \<times> RStore" where
  "collect_retired now removed changed [] s = (Some [], s)"
| "collect_retired now removed changed (v # vs) s =
     (let s1 = trim_leases now v s
      in if rs_leases s1 v \<noteq> [] then (None, s1)
         else (case collect_retired now removed changed vs s1 of
                 (None, s2) \<Rightarrow> (None, s2)
               | (Some retired, s2) \<Rightarrow>
                   (Some (map (\<lambda>key. (v, key)) (retired_keys removed changed v s1) @ retired), s2)))"

definition hdel_publication :: "string \<times> string \<Rightarrow> RStore \<Rightarrow> RStore" where
  "hdel_publication p s =
     s\<lparr>rs_shards := (rs_shards s)(fst p := hm_remove (snd p) (rs_shards s (fst p))),
       rs_endpoints := (rs_endpoints s)(fst p := hm_remove (snd p) (rs_endpoints s (fst p)))\<rparr>"

definition update_trainer_mesh_lua ::
  "nat \<Rightarrow> string \<Rightarrow> nat \<Rightarrow> mesh_workers \<Rightarrow> string \<Rightarrow> string list \<Rightarrow> RStore \<Rightarrow> string \<times> RStore" where
  "update_trainer_mesh_lua now mesh_id expected_generation replacement model worker_ids s =
     (case rs_meshes s mesh_id of
        None \<Rightarrow> (''NOT_FOUND'', s)
      | Some h \<Rightarrow>
          (let old = mh_workers h
           in if coverage_differs old replacement then (''COVERAGE_MISMATCH'', s)
              else if mh_generation h \<noteq> expected_generation then (''GENERATION_MISMATCH'', s)
              else (case check_mesh_workers now model ROLE_TRAINER replacement s worker_ids of
                      Some refusal \<Rightarrow> (refusal, s)
                    | None \<Rightarrow>
                        if mesh_unchanged old replacement then (''UNCHANGED'', s)
                        else (case collect_retired now (removed_workers old replacement)
                                     (changed_workers old replacement) (rs_mesh_versions s mesh_id) s of
                                (None, s1) \<Rightarrow> (''VERSION_LEASED'', s1)
                              | (Some retired, s1) \<Rightarrow>
                                  (let s2 = fold hdel_publication retired s1
                                   in (''UPDATED'',
                                       s2\<lparr>rs_meshes := (rs_meshes s2)(mesh_id \<mapsto>
                                           h\<lparr>mh_workers := replacement,
                                             mh_generation := expected_generation + 1,
                                             mh_stable_metadata := []\<rparr>)\<rparr>))))))"

subsection \<open>delete\_trainer\_mesh.lua\<close>

fun mesh_in_use :: "nat \<Rightarrow> string list \<Rightarrow> RStore \<Rightarrow> bool \<times> RStore" where
  "mesh_in_use now [] s = (False, s)"
| "mesh_in_use now (v # vs) s =
     (let s1 = trim_leases now v s
      in if map_option vh_state (rs_versions s1 v) \<noteq> Some STATE_RELEASING
            \<or> rs_shards s1 v \<noteq> [] \<or> rs_leases s1 v \<noteq> []
         then (True, s1)
         else mesh_in_use now vs s1)"

definition delete_trainer_mesh_lua :: "nat \<Rightarrow> string \<Rightarrow> RStore \<Rightarrow> string \<times> RStore" where
  "delete_trainer_mesh_lua now mesh_id s =
     (if rs_meshes s mesh_id = None then (''NOT_FOUND'', s)
      else (case mesh_in_use now (rs_mesh_versions s mesh_id) s of
              (True, s1) \<Rightarrow> (''IN_USE'', s1)
            | (False, s1) \<Rightarrow>
                (''DELETED'', s1\<lparr>rs_meshes := (rs_meshes s1)(mesh_id := None),
                                rs_mesh_versions := (rs_mesh_versions s1)(mesh_id := [])\<rparr>)))"

subsection \<open>create\_weight\_version.lua\<close>

record VersionArgs =
  va_uid :: string
  va_request :: string
  va_model_name :: string
  va_idempotency_key :: string
  va_payload_format :: int
  va_base_version_id :: string
  va_s3_uri :: string
  va_state :: int
  va_created_at :: nat
  va_trainer_mesh_id :: string
  va_version_number :: string

definition create_weight_version_lua :: "VersionArgs \<Rightarrow> RStore \<Rightarrow> string \<times> RStore" where
  "create_weight_version_lua a s =
     (case rs_version_requests s (va_request a) of
        Some existing \<Rightarrow> (''EXISTING:'' @ existing, s)
      | None \<Rightarrow>
          if rs_versions s (va_uid a) \<noteq> None then (''COLLISION'', s)
          else
            (let mesh = rs_meshes s (va_trainer_mesh_id a);
                 store = (\<lambda>generation.
                   s\<lparr>rs_versions := (rs_versions s)(va_uid a \<mapsto>
                       \<lparr>vh_uid = va_uid a, vh_model_name = va_model_name a,
                         vh_idempotency_key = va_idempotency_key a,
                         vh_payload_format = va_payload_format a,
                         vh_base_version_id = va_base_version_id a, vh_s3_uri = va_s3_uri a,
                         vh_initial_state = va_state a, vh_layout_signature = [],
                         vh_state = va_state a, vh_created_at = va_created_at a,
                         vh_trainer_mesh_id = va_trainer_mesh_id a,
                         vh_trainer_mesh_generation = generation,
                         vh_version_number = va_version_number a\<rparr>),
                     rs_mesh_versions :=
                       (if va_trainer_mesh_id a = [] then rs_mesh_versions s
                        else (rs_mesh_versions s)(va_trainer_mesh_id a :=
                                sadd (va_uid a) (rs_mesh_versions s (va_trainer_mesh_id a)))),
                     rs_version_requests := (rs_version_requests s)(va_request a \<mapsto> va_uid a)\<rparr>)
             in if va_trainer_mesh_id a = [] then (''CREATED'', store 0)
                else (case mesh of
                        None \<Rightarrow> (''MESH_NOT_FOUND'', s)
                      | Some h \<Rightarrow>
                          if mh_model_name h \<noteq> va_model_name a then (''MESH_MODEL_MISMATCH'', s)
                          else if mh_generation h = 0 then (''MESH_GENERATION_MISSING'', s)
                          else (''CREATED'', store (mh_generation h)))))"

subsection \<open>create\_weight\_version\_shard.lua\<close>

text \<open>A worker of the mesh counts for its shard when its publication, endpoint and registration agree.\<close>

definition publication_live :: "nat \<Rightarrow> string \<Rightarrow> string \<Rightarrow> RStore \<Rightarrow> string \<times> TrainerTensorsMetadata \<Rightarrow> bool" where
  "publication_live now model v s entry =
     (case entry of (w, metadata) \<Rightarrow>
        (let key = publication_key w (tm_logical_shard_id metadata)
         in hm_get (rs_shards s v) key \<noteq> None
            \<and> hm_get (rs_endpoints s v) key = Some (tm_metadata_endpoint metadata)
            \<and> (case worker_at now s w of
                 None \<Rightarrow> False
               | Some r \<Rightarrow> wh_refit_endpoint r = tm_metadata_endpoint metadata
                           \<and> wh_model_name r = model \<and> wh_role r = ROLE_TRAINER)))"

fun count_covered ::
  "(string \<times> TrainerTensorsMetadata \<Rightarrow> bool) \<Rightarrow> mesh_workers \<Rightarrow> string list \<Rightarrow> nat \<Rightarrow> nat" where
  "count_covered live [] present covered = covered"
| "count_covered live (entry # rest) present covered =
     (if live entry \<and> tm_logical_shard_id (snd entry) \<notin> set present
      then count_covered live rest (tm_logical_shard_id (snd entry) # present) (covered + 1)
      else count_covered live rest present covered)"

definition publish_shard ::
  "nat \<Rightarrow> string \<Rightarrow> string \<Rightarrow> string \<Rightarrow> string \<Rightarrow> string \<Rightarrow> string \<Rightarrow> string \<Rightarrow> VersionHash \<Rightarrow> MeshHash \<Rightarrow> RStore
   \<Rightarrow> string \<times> RStore" where
  "publish_shard now v mesh_id key encoded model endpoint digest version h s =
     (let s1 = s\<lparr>rs_meshes := (rs_meshes s)(mesh_id \<mapsto>
                    h\<lparr>mh_stable_metadata := hm_insert key digest (mh_stable_metadata h)\<rparr>),
                 rs_shards := (rs_shards s)(v := hm_insert key encoded (rs_shards s v)),
                 rs_endpoints := (rs_endpoints s)(v := hm_insert key endpoint (rs_endpoints s v))\<rparr>;
          covered = count_covered (publication_live now model v s1) (mh_workers h) [] 0
      in if covered = length (mh_logical_shards h)
         then (''OK:'' @ show_nat (nat STATE_READY),
               s1\<lparr>rs_versions := (rs_versions s1)(v \<mapsto> version\<lparr>vh_state := STATE_READY\<rparr>)\<rparr>)
         else (''OK:'' @ show_nat (nat (vh_state version)), s1))"

definition create_weight_version_shard_lua ::
  "nat \<Rightarrow> string \<Rightarrow> string \<Rightarrow> string \<Rightarrow> string \<Rightarrow> string \<Rightarrow> string \<Rightarrow> string \<Rightarrow> string \<Rightarrow> RStore \<Rightarrow> string \<times> RStore" where
  "create_weight_version_shard_lua now v mesh_id encoded model logical_shard_id worker_id endpoint digest s =
     (case rs_versions s v of
        None \<Rightarrow> (''VERSION_NOT_FOUND'', s)
      | Some version \<Rightarrow>
     (case worker_at now s worker_id of
        None \<Rightarrow> (''WORKER_NOT_FOUND'', s)
      | Some r \<Rightarrow>
     if wh_model_name r \<noteq> model then (''MODEL_MISMATCH'', s)
     else if vh_state version \<noteq> STATE_STAGING \<and> vh_state version \<noteq> STATE_READY
     then (''VERSION_NOT_WRITABLE'', s)
     else if vh_s3_uri version \<noteq> [] then (''VERSION_NOT_WRITABLE'', s)
     else
     (case rs_meshes s mesh_id of
        None \<Rightarrow> (''MESH_NOT_FOUND'', s)
      | Some h \<Rightarrow>
     if vh_trainer_mesh_generation version = 0 then (''MESH_GENERATION_MISSING'', s)
     else if vh_trainer_mesh_generation version \<noteq> mh_generation h then (''MESH_GENERATION_MISMATCH'', s)
     else if wh_role r \<noteq> ROLE_TRAINER then (''WORKER_NOT_TRAINER'', s)
     else
     (case hm_get (mh_workers h) worker_id of
        None \<Rightarrow> (''WORKER_NOT_IN_MESH'', s)
      | Some metadata \<Rightarrow>
     if tm_logical_shard_id metadata \<noteq> logical_shard_id then (''WORKER_NOT_IN_MESH'', s)
     else if tm_metadata_endpoint metadata \<noteq> endpoint \<or> wh_refit_endpoint r \<noteq> endpoint
     then (''WORKER_ENDPOINT_MISMATCH'', s)
     else
     (let key = publication_key worker_id logical_shard_id;
          existing = hm_get (rs_shards s v) key;
          pinned = hm_get (mh_stable_metadata h) key
      in if existing \<noteq> None \<and> existing \<noteq> Some encoded then (''SHARD_CONFLICT'', s)
         else if pinned \<noteq> None \<and> pinned \<noteq> Some digest then (''STABLE_METADATA_MISMATCH'', s)
         else publish_shard now v mesh_id key encoded model endpoint digest version h s)))))"

subsection \<open>update\_weight\_version\_state.lua\<close>

definition update_weight_version_state_lua :: "string \<Rightarrow> int \<Rightarrow> RStore \<Rightarrow> string \<times> RStore" where
  "update_weight_version_state_lua v target s =
     (case rs_versions s v of
        None \<Rightarrow> (''VERSION_NOT_FOUND'', s)
      | Some version \<Rightarrow>
          (let current = vh_state version;
               s3_ready = (current = STATE_STAGING \<and> target = STATE_READY \<and> vh_s3_uri version \<noteq> []);
               releasing = ((current = STATE_STAGING \<or> current = STATE_READY) \<and> target = STATE_RELEASING)
           in if current = target then (''OK'', s)
              else if \<not> s3_ready \<and> \<not> releasing then (''INVALID_TRANSITION'', s)
              else (''OK'', s\<lparr>rs_versions := (rs_versions s)(v \<mapsto> version\<lparr>vh_state := target\<rparr>)\<rparr>)))"

subsection \<open>delete\_weight\_version\_shard.lua\<close>

definition delete_weight_version_shard_lua ::
  "nat \<Rightarrow> string \<Rightarrow> string \<Rightarrow> string \<Rightarrow> string \<Rightarrow> RStore \<Rightarrow> string \<times> RStore" where
  "delete_weight_version_shard_lua now v worker_id key encoded s =
     (if rs_versions s v = None then (''VERSION_NOT_FOUND'', s)
      else if worker_at now s worker_id = None then (''WORKER_NOT_FOUND'', s)
      else (case hm_get (rs_shards s v) key of
              None \<Rightarrow> (''SHARD_NOT_FOUND'', s)
            | Some current \<Rightarrow>
                if current \<noteq> encoded then (''SHARD_CONFLICT'', s)
                else (let s1 = trim_leases now v s
                      in if rs_leases s1 v \<noteq> [] then (''VERSION_LEASED'', s1)
                         else (''DELETED'', hdel_publication (v, key) s1))))"

subsection \<open>register\_version\_lease.lua\<close>

definition register_version_lease_lua ::
  "nat \<Rightarrow> string \<Rightarrow> string \<Rightarrow> string \<Rightarrow> string \<Rightarrow> nat \<Rightarrow> RStore \<Rightarrow> string \<times> RStore" where
  "register_version_lease_lua now key lease_id v worker_id ttl s =
     (case rs_versions s v of
        None \<Rightarrow> (''VERSION_NOT_FOUND'', s)
      | Some version \<Rightarrow>
     (case worker_at now s worker_id of
        None \<Rightarrow> (''WORKER_NOT_FOUND'', s)
      | Some r \<Rightarrow>
     if wh_role r \<noteq> ROLE_GENERATOR then (''WORKER_NOT_GENERATOR'', s)
     else if wh_model_name r \<noteq> vh_model_name version then (''MODEL_MISMATCH'', s)
     else
     (let state = vh_state version;
          granted = (let expires_at = now + ttl
            in (''OK:'' @ show_nat expires_at,
                s\<lparr>rs_lease_hashes := (rs_lease_hashes s)(key \<mapsto>
                    \<lparr>le_lease_id = lease_id, le_version_id = v, le_worker_id = worker_id,
                      le_expires_at = expires_at\<rparr>),
                  rs_leases := (rs_leases s)(v := hm_insert lease_id expires_at (rs_leases s v))\<rparr>))
      in case lease_at now s key of
           Some l \<Rightarrow>
             if \<not> (le_lease_id l = lease_id \<and> le_version_id l = v \<and> le_worker_id l = worker_id)
             then (''LEASE_CONFLICT'', s)
             else if state \<noteq> STATE_READY \<and> state \<noteq> STATE_RELEASING then (''VERSION_NOT_LEASEABLE'', s)
             else granted
         | None \<Rightarrow> if state \<noteq> STATE_READY then (''VERSION_NOT_LEASEABLE'', s) else granted)))"

subsection \<open>delete\_version\_lease.lua\<close>

definition zrem :: "string \<Rightarrow> string \<Rightarrow> RStore \<Rightarrow> RStore" where
  "zrem v l s = s\<lparr>rs_leases := (rs_leases s)(v := hm_remove l (rs_leases s v))\<rparr>"

definition delete_version_lease_lua ::
  "nat \<Rightarrow> string \<Rightarrow> string \<Rightarrow> string \<Rightarrow> string \<Rightarrow> RStore \<Rightarrow> string \<times> RStore" where
  "delete_version_lease_lua now key lease_id v worker_id s =
     (case lease_at now s key of
        None \<Rightarrow> (''NOT_FOUND'', zrem v lease_id s)
      | Some l \<Rightarrow>
          if \<not> (le_lease_id l = lease_id \<and> le_version_id l = v \<and> le_worker_id l = worker_id)
          then (''LEASE_CONFLICT'', s)
          else (''DELETED'', zrem v lease_id (s\<lparr>rs_lease_hashes := (rs_lease_hashes s)(key := None)\<rparr>)))"

end
