(* ===== verification/Refit_Cohort.thy ===== *)
theory Refit_Cohort
  imports Refit_Scripts
begin

text \<open>
  The system of all replicas that run the scripts of \<^verbatim>\<open>Refit_Scripts\<close>, and its invariants.

  A state is reachable at an instant: steps run at the current time of the Redis server, and time goes
  on between them. The rules give each script the arguments the Rust code passes: the requests the service
  admits, and the mesh and model of a version as they were read before, which never change.

  Shown here: meshes stay well formed, a version belongs to a mesh that knows it until its resources are
  gone, lease hashes and the sorted sets agree; a mesh-backed version becomes READY exactly with the
  publication that completes the coverage of its mesh; its state only advances; a lease keeps the shards
  and the mesh of its version in place; a mesh update keeps the coverage and moves the generation by one,
  and a version of an older generation never becomes READY.
\<close>

subsection \<open>The step relation\<close>

text \<open>The variable parts of the keys \<^verbatim>\<open>mx:refit:version-request:\<close>, \<^verbatim>\<open>mx:refit:trainer-mesh-request:\<close>
  and \<^verbatim>\<open>mx:refit:version:lease:\<close>.\<close>

definition request_suffix :: "string \<Rightarrow> string \<Rightarrow> string" where
  "request_suffix model_name request_key = model_name @ '':'' @ request_key"

definition lease_suffix :: "string \<Rightarrow> string \<Rightarrow> string" where
  "lease_suffix version_id lease_id = version_id @ '':'' @ lease_id"

text \<open>What \<^verbatim>\<open>validate_publication\<close> leaves of a request to create a version.\<close>

definition args_admitted :: "VersionArgs \<Rightarrow> bool" where
  "args_admitted a =
     (va_request a = request_suffix (va_model_name a) (va_idempotency_key a)
      \<and> (if va_trainer_mesh_id a = [] then va_s3_uri a \<noteq> [] \<and> va_state a \<in> {STATE_STAGING, STATE_READY}
         else va_s3_uri a = [] \<and> va_state a = STATE_STAGING))"

inductive rstep :: "nat \<Rightarrow> RStore \<Rightarrow> RStore \<Rightarrow> bool" where
  register_worker: "register_worker_lua now w role model ttl endpoint s = (out, s') \<Longrightarrow> rstep now s s'"
| create_mesh: "hm_ok workers \<Longrightarrow> mesh_id \<noteq> [] \<Longrightarrow> distinct shards \<Longrightarrow> set shards = set (logical_shards_of workers) \<Longrightarrow>
     create_trainer_mesh_lua now mesh_id request model shards workers (map fst workers) s = (out, s') \<Longrightarrow>
     rstep now s s'"
| update_mesh: "hm_ok workers \<Longrightarrow>
     update_trainer_mesh_lua now mesh_id generation workers model (map fst workers) s = (out, s') \<Longrightarrow>
     rstep now s s'"
| delete_mesh: "delete_trainer_mesh_lua now mesh_id s = (out, s') \<Longrightarrow> rstep now s s'"
| create_version: "args_admitted a \<Longrightarrow> create_weight_version_lua a s = (out, s') \<Longrightarrow> rstep now s s'"
| publish: "rs_versions s v = Some version \<Longrightarrow>
     create_weight_version_shard_lua now v (vh_trainer_mesh_id version) encoded (vh_model_name version)
       shard w endpoint digest s = (out, s') \<Longrightarrow> rstep now s s'"
| advance: "rs_versions s v = Some version \<Longrightarrow> vh_trainer_mesh_id version = [] \<or> target = STATE_RELEASING \<Longrightarrow>
     update_weight_version_state_lua v target s = (out, s') \<Longrightarrow> rstep now s s'"
| delete_shard: "delete_weight_version_shard_lua now v w key encoded s = (out, s') \<Longrightarrow> rstep now s s'"
| lease: "register_version_lease_lua now (lease_suffix v l) l v w ttl s = (out, s') \<Longrightarrow> rstep now s s'"
| unlease: "delete_version_lease_lua now (lease_suffix v l) l v w s = (out, s') \<Longrightarrow> rstep now s s'"

inductive rreach :: "nat \<Rightarrow> RStore \<Rightarrow> bool" where
  start: "rreach now refit_init"
| tick: "rreach now s \<Longrightarrow> now \<le> now' \<Longrightarrow> rreach now' s"
| step: "rreach now s \<Longrightarrow> rstep now s s' \<Longrightarrow> rreach now s'"

subsection \<open>Invariants\<close>

definition mesh_ok :: "string \<Rightarrow> MeshHash \<Rightarrow> bool" where
  "mesh_ok m h = (m \<noteq> [] \<and> mh_mesh_id h = m \<and> 1 \<le> mh_generation h \<and> hm_ok (mh_workers h)
     \<and> distinct (mh_logical_shards h) \<and> set (mh_logical_shards h) = set (logical_shards_of (mh_workers h)))"

definition unleased :: "nat \<Rightarrow> RStore \<Rightarrow> string \<Rightarrow> bool" where
  "unleased now s v = (\<forall>l e. hm_get (rs_leases s v) l = Some e \<longrightarrow> e \<le> now)"

definition linked :: "RStore \<Rightarrow> string \<Rightarrow> VersionHash \<Rightarrow> bool" where
  "linked s v version = (\<exists>h. rs_meshes s (vh_trainer_mesh_id version) = Some h
     \<and> v \<in> set (rs_mesh_versions s (vh_trainer_mesh_id version))
     \<and> vh_trainer_mesh_generation version \<le> mh_generation h \<and> mh_model_name h = vh_model_name version)"

definition version_ok :: "nat \<Rightarrow> RStore \<Rightarrow> string \<Rightarrow> VersionHash \<Rightarrow> bool" where
  "version_ok now s v version =
     (vh_uid version = v \<and> vh_state version \<in> {STATE_STAGING, STATE_READY, STATE_RELEASING}
      \<and> rs_version_requests s (request_suffix (vh_model_name version) (vh_idempotency_key version)) = Some v
      \<and> (if vh_trainer_mesh_id version = [] then vh_s3_uri version \<noteq> [] \<and> vh_trainer_mesh_generation version = 0
         else vh_s3_uri version = [] \<and> 1 \<le> vh_trainer_mesh_generation version
              \<and> (linked s v version
                 \<or> vh_state version = STATE_RELEASING \<and> rs_shards s v = [] \<and> unleased now s v)))"

text \<open>The sorted set of a version and the lease hashes agree on the leases that have not expired.\<close>

definition leases_ok :: "nat \<Rightarrow> RStore \<Rightarrow> bool" where
  "leases_ok now s =
     ((\<forall>v. hm_ok (rs_leases s v))
      \<and> (\<forall>k l. rs_lease_hashes s k = Some l \<and> now < le_expires_at l \<longrightarrow>
           k = lease_suffix (le_version_id l) (le_lease_id l)
           \<and> hm_get (rs_leases s (le_version_id l)) (le_lease_id l) = Some (le_expires_at l))
      \<and> (\<forall>v l e. hm_get (rs_leases s v) l = Some e \<and> now < e \<longrightarrow>
           (\<exists>r. rs_lease_hashes s (lease_suffix v l) = Some r
              \<and> le_version_id r = v \<and> le_lease_id r = l \<and> le_expires_at r = e)))"

definition refit_ok :: "nat \<Rightarrow> RStore \<Rightarrow> bool" where
  "refit_ok now s = ((\<forall>m h. rs_meshes s m = Some h \<longrightarrow> mesh_ok m h)
     \<and> (\<forall>v version. rs_versions s v = Some version \<longrightarrow> version_ok now s v version) \<and> leases_ok now s)"

lemmas refit_okD = refit_ok_def [THEN iffD1, THEN conjunct1, rule_format]
  refit_ok_def [THEN iffD1, THEN conjunct2, THEN conjunct1, rule_format]
  refit_ok_def [THEN iffD1, THEN conjunct2, THEN conjunct2]

lemma refit_ok_init: "refit_ok now refit_init"
  by (simp add: refit_ok_def refit_init_def leases_ok_def)

lemma refit_ok_later:
  assumes "refit_ok now s" "now \<le> now'"
  shows "refit_ok now' s"
proof -
  have "version_ok now' s v version" if "version_ok now s v version" for v version
    using that assms(2) by (fastforce simp: version_ok_def unleased_def split: if_splits)
  moreover have "leases_ok now' s"
    using refit_okD(3) [OF assms(1)] assms(2) unfolding leases_ok_def by (meson le_less_trans)
  ultimately show ?thesis using assms(1) unfolding refit_ok_def by blast
qed

subsection \<open>Trimming leases\<close>

definition trimmed :: "nat \<Rightarrow> RStore \<Rightarrow> RStore \<Rightarrow> bool" where
  "trimmed now s s' = (\<exists>f. s' = s\<lparr>rs_leases := f\<rparr>
     \<and> (\<forall>v. f v = rs_leases s v \<or> f v = filter (\<lambda>(l, e). now < e) (rs_leases s v)))"

lemma trimmed_refl: "trimmed now s s"
  unfolding trimmed_def by (rule exI [of _ "rs_leases s"]) simp

lemma trimmed_trim: "trimmed now s (trim_leases now v s)"
  unfolding trimmed_def trim_leases_def
  by (rule exI [of _ "(rs_leases s)(v := filter (\<lambda>(l, e). now < e) (rs_leases s v))"]) simp

lemma trimmed_trans: "trimmed now s t \<Longrightarrow> trimmed now t u \<Longrightarrow> trimmed now s u"
proof -
  assume "trimmed now s t" "trimmed now t u"
  then obtain f g where fg: "t = s\<lparr>rs_leases := f\<rparr>" "u = t\<lparr>rs_leases := g\<rparr>"
      "\<And>v. f v = rs_leases s v \<or> f v = filter (\<lambda>(l, e). now < e) (rs_leases s v)"
      "\<And>v. g v = f v \<or> g v = filter (\<lambda>(l, e). now < e) (f v)"
    by (auto simp: trimmed_def)
  have "g v = rs_leases s v \<or> g v = filter (\<lambda>(l, e). now < e) (rs_leases s v)" for v
    using fg(3) [of v] fg(4) [of v] by (auto simp: filter_filter)
  then show ?thesis using fg(1,2) by (auto simp: trimmed_def)
qed

lemma hm_get_filter: "hm_ok m \<Longrightarrow> hm_get (filter (\<lambda>(k, e). P e) m) k = (case hm_get m k of
    Some e \<Rightarrow> if P e then Some e else None | None \<Rightarrow> None)"
  by (induction m) (auto simp: hm_get_def hm_ok_def map_of_eq_None_iff image_iff split: option.splits)

lemma hm_ok_filter: "hm_ok m \<Longrightarrow> hm_ok (filter P m)"
  unfolding hm_ok_def by (rule distinct_map_filter)

lemma trimmed_get:
  assumes "trimmed now s s'" "hm_ok (rs_leases s v)"
  shows "hm_ok (rs_leases s' v)" "now < e \<Longrightarrow> hm_get (rs_leases s' v) l = Some e \<longleftrightarrow> hm_get (rs_leases s v) l = Some e"
    "hm_get (rs_leases s' v) l = Some e \<Longrightarrow> hm_get (rs_leases s v) l = Some e"
proof -
  consider "rs_leases s' v = rs_leases s v" | "rs_leases s' v = filter (\<lambda>(l, e). now < e) (rs_leases s v)"
    using assms(1) unfolding trimmed_def by fastforce
  then have "hm_ok (rs_leases s' v)
    \<and> (now < e \<longrightarrow> (hm_get (rs_leases s' v) l = Some e \<longleftrightarrow> hm_get (rs_leases s v) l = Some e))
    \<and> (hm_get (rs_leases s' v) l = Some e \<longrightarrow> hm_get (rs_leases s v) l = Some e)"
  proof cases
    case 2
    then show ?thesis using assms(2) by (simp add: hm_get_filter hm_ok_filter split: option.splits)
  qed (simp add: assms(2))
  then show "hm_ok (rs_leases s' v)" "now < e \<Longrightarrow> hm_get (rs_leases s' v) l = Some e \<longleftrightarrow> hm_get (rs_leases s v) l = Some e"
    "hm_get (rs_leases s' v) l = Some e \<Longrightarrow> hm_get (rs_leases s v) l = Some e" by blast+
qed

lemma trimmed_unleased: "leases_ok now s \<Longrightarrow> trimmed now s s' \<Longrightarrow> unleased now s' v = unleased now s v"
  unfolding leases_ok_def unleased_def using trimmed_get by (meson linorder_not_le)

lemma trimmed_frame:
  assumes "trimmed now s s'"
  shows "rs_meshes s' = rs_meshes s" "rs_mesh_versions s' = rs_mesh_versions s" "rs_versions s' = rs_versions s"
    "rs_version_requests s' = rs_version_requests s" "rs_workers s' = rs_workers s" "rs_shards s' = rs_shards s"
    "rs_endpoints s' = rs_endpoints s" "rs_lease_hashes s' = rs_lease_hashes s" "rs_mesh_requests s' = rs_mesh_requests s"
  using assms by (auto simp: trimmed_def)

lemma trimmed_leases_ok: "leases_ok now s \<Longrightarrow> trimmed now s s' \<Longrightarrow> leases_ok now s'"
  unfolding leases_ok_def using trimmed_get trimmed_frame(8) by (smt (verit, best))

lemma trim_empty:
  assumes "hm_ok (rs_leases s v)"
  shows "rs_leases (trim_leases now v s) v = [] \<longleftrightarrow> unleased now s v"
proof
  assume "rs_leases (trim_leases now v s) v = []"
  then show "unleased now s v"
    by (auto simp: trim_leases_def unleased_def filter_empty_conv hm_get_def dest!: map_of_SomeD)
next
  assume u: "unleased now s v"
  have "e \<le> now" if "(l, e) \<in> set (rs_leases s v)" for l e
    using u assms that by (auto simp: unleased_def hm_get_def hm_ok_def)
  then show "rs_leases (trim_leases now v s) v = []"
    by (force simp: trim_leases_def filter_empty_conv)
qed

subsection \<open>What the loops over linked versions do\<close>

lemma collect_retired_effect:
  assumes "collect_retired now removed changed vs s = (r, s')" "leases_ok now s"
  shows "trimmed now s s'" "r = Some retired \<Longrightarrow> v \<in> set vs \<Longrightarrow> unleased now s v"
    "r = Some retired \<Longrightarrow> p \<in> set retired \<Longrightarrow> fst p \<in> set vs
       \<and> snd p \<in> set (retired_keys removed changed (fst p) s)"
proof -
  have "trimmed now s s' \<and> (\<forall>retired. r = Some retired \<longrightarrow> (\<forall>v \<in> set vs. unleased now s v)
     \<and> (\<forall>p \<in> set retired. fst p \<in> set vs \<and> snd p \<in> set (retired_keys removed changed (fst p) s)))"
    using assms
  proof (induction vs arbitrary: s s' r)
    case Nil
    then show ?case by (auto simp: trimmed_refl)
  next
    case (Cons v vs)
    define t where "t = trim_leases now v s"
    have tr: "trimmed now s t" unfolding t_def by (rule trimmed_trim)
    have ok: "leases_ok now t" using trimmed_leases_ok [OF Cons.prems(2) tr] .
    have keys: "retired_keys removed changed w t = retired_keys removed changed w s" for w
      by (simp add: retired_keys_def trimmed_frame [OF tr])
    have hm: "hm_ok (rs_leases s v)" using Cons.prems(2) by (simp add: leases_ok_def)
    show ?case
    proof (cases "rs_leases t v = []")
      case False
      then show ?thesis using Cons.prems(1) tr by (simp add: t_def [symmetric] Let_def)
    next
      case True
      obtain q u where rec: "collect_retired now removed changed vs t = (q, u)" by fastforce
      have ih: "trimmed now t u \<and> (\<forall>retired. q = Some retired \<longrightarrow> (\<forall>v \<in> set vs. unleased now t v)
         \<and> (\<forall>p \<in> set retired. fst p \<in> set vs \<and> snd p \<in> set (retired_keys removed changed (fst p) t)))"
        using Cons.IH [OF rec ok] .
      have un: "unleased now s v" using True trim_empty [OF hm] by (simp add: t_def)
      have u: "s' = u" "r = map_option (\<lambda>ret. map (\<lambda>key. (v, key)) (retired_keys removed changed v s) @ ret) q"
        using Cons.prems(1) True rec by (auto simp: t_def [symmetric] Let_def keys split: option.splits)
      show ?thesis using ih un u trimmed_trans [OF tr]
        by (force simp: keys trimmed_unleased [OF Cons.prems(2) tr])
    qed
  qed
  then show "trimmed now s s'" "r = Some retired \<Longrightarrow> v \<in> set vs \<Longrightarrow> unleased now s v"
    "r = Some retired \<Longrightarrow> p \<in> set retired \<Longrightarrow> fst p \<in> set vs
       \<and> snd p \<in> set (retired_keys removed changed (fst p) s)" by blast+
qed

lemma hdel_fold_frame:
  "rs_meshes (fold hdel_publication ps s) = rs_meshes s \<and> rs_mesh_versions (fold hdel_publication ps s) = rs_mesh_versions s
   \<and> rs_versions (fold hdel_publication ps s) = rs_versions s
   \<and> rs_version_requests (fold hdel_publication ps s) = rs_version_requests s
   \<and> rs_lease_hashes (fold hdel_publication ps s) = rs_lease_hashes s
   \<and> rs_leases (fold hdel_publication ps s) = rs_leases s \<and> rs_workers (fold hdel_publication ps s) = rs_workers s
   \<and> rs_mesh_requests (fold hdel_publication ps s) = rs_mesh_requests s"
  by (induction ps arbitrary: s) (simp_all add: hdel_publication_def)

lemma hdel_fold_get:
  "hm_get (rs_shards (fold hdel_publication ps s) v) k = (if (v, k) \<in> set ps then None else hm_get (rs_shards s v) k)
   \<and> hm_get (rs_endpoints (fold hdel_publication ps s) v) k
     = (if (v, k) \<in> set ps then None else hm_get (rs_endpoints s v) k)"
  by (induction ps arbitrary: s) (auto simp: hdel_publication_def hm_simps)

lemma hdel_fold_other: "v \<notin> fst ` set ps \<Longrightarrow> rs_shards (fold hdel_publication ps s) v = rs_shards s v
   \<and> rs_endpoints (fold hdel_publication ps s) v = rs_endpoints s v"
  by (induction ps arbitrary: s) (auto simp: hdel_publication_def)

lemma hdel_fold_Nil: "rs_shards s v = [] \<Longrightarrow> rs_shards (fold hdel_publication ps s) v = []"
proof (induction ps arbitrary: s)
  case (Cons p ps)
  have "rs_shards (hdel_publication p s) v = []" using Cons.prems by (auto simp: hdel_publication_def hm_remove_def)
  then show ?case using Cons.IH by simp
qed simp

lemma mesh_in_use_effect:
  assumes "mesh_in_use now vs s = (b, s')" "leases_ok now s"
  shows "trimmed now s s'" "\<not> b \<Longrightarrow> v \<in> set vs \<Longrightarrow>
     unleased now s v \<and> rs_shards s v = [] \<and> map_option vh_state (rs_versions s v) = Some STATE_RELEASING"
proof -
  have "trimmed now s s' \<and> (\<not> b \<longrightarrow> (\<forall>v \<in> set vs.
     unleased now s v \<and> rs_shards s v = [] \<and> map_option vh_state (rs_versions s v) = Some STATE_RELEASING))"
    using assms
  proof (induction vs arbitrary: s)
    case (Cons v vs)
    define t where "t = trim_leases now v s"
    have tr: "trimmed now s t" unfolding t_def by (rule trimmed_trim)
    have ok: "leases_ok now t" using trimmed_leases_ok [OF Cons.prems(2) tr] .
    have hm: "hm_ok (rs_leases s v)" using Cons.prems(2) by (simp add: leases_ok_def)
    define stop where "stop \<longleftrightarrow> map_option vh_state (rs_versions t v) \<noteq> Some STATE_RELEASING \<or> rs_shards t v \<noteq> []
       \<or> rs_leases t v \<noteq> []"
    have eq: "mesh_in_use now (v # vs) s = (if stop then (True, t) else mesh_in_use now vs t)"
      by (simp add: t_def [symmetric] Let_def stop_def)
    show ?case
    proof (cases stop)
      case True
      then show ?thesis using Cons.prems(1) [unfolded eq] tr by simp
    next
      case False
      then have rest: "mesh_in_use now vs t = (b, s')" using Cons.prems(1) [unfolded eq] by simp
      have "unleased now s v" using False trim_empty [OF hm] by (simp add: t_def stop_def)
      moreover have "rs_shards s v = []" "map_option vh_state (rs_versions s v) = Some STATE_RELEASING"
        using False by (simp_all add: stop_def trimmed_frame [OF tr])
      ultimately show ?thesis
        using Cons.IH [OF rest ok] trimmed_trans [OF tr] trimmed_unleased [OF Cons.prems(2) tr]
        by (simp add: trimmed_frame [OF tr])
    qed
  qed (simp add: trimmed_refl)
  then show "trimmed now s s'" "\<not> b \<Longrightarrow> v \<in> set vs \<Longrightarrow>
     unleased now s v \<and> rs_shards s v = [] \<and> map_option vh_state (rs_versions s v) = Some STATE_RELEASING" by blast+
qed

subsection \<open>What each script can change\<close>

lemma register_worker_effect:
  assumes "register_worker_lua now w role model ttl endpoint s = (out, s')"
  obtains ws where "s' = s\<lparr>rs_workers := ws\<rparr>"
proof (cases "s' = s")
  case True
  then show ?thesis using that [of "rs_workers s"] by simp
next
  case False
  then show ?thesis using assms that by (auto simp: register_worker_lua_def Let_def split: if_splits)
qed

lemma create_mesh_effect:
  assumes "create_trainer_mesh_lua now mesh_id request model shards workers ids s = (out, s')"
  obtains (refused) "s' = s" "out \<noteq> ''CREATED''"
  | (created) h where "out = ''CREATED''" "rs_meshes s mesh_id = None" "rs_mesh_requests s request = None"
      "check_mesh_workers now model ROLE_TRAINER workers s ids = None"
      "h = \<lparr>mh_mesh_id = mesh_id, mh_model_name = model, mh_generation = 1, mh_logical_shards = shards,
             mh_workers = workers, mh_initial_workers = workers, mh_stable_metadata = []\<rparr>"
      "s' = s\<lparr>rs_meshes := (rs_meshes s)(mesh_id \<mapsto> h),
             rs_mesh_requests := (rs_mesh_requests s)(request \<mapsto> mesh_id)\<rparr>"
proof -
  have ne: "check_mesh_workers now model ROLE_TRAINER workers s ids \<noteq> Some ''CREATED''"
    by (induction ids) (auto split: option.splits)
  show ?thesis using assms that ne
    by (auto simp: create_trainer_mesh_lua_def split: option.splits if_splits)
qed

lemma update_mesh_effect:
  assumes "update_trainer_mesh_lua now mesh_id generation workers model ids s = (out, s')" "leases_ok now s"
  obtains (refused) "trimmed now s s'" "out \<noteq> ''UPDATED''"
  | (updated) h retired s1 where "out = ''UPDATED''" "rs_meshes s mesh_id = Some h" "mh_generation h = generation"
      "\<not> coverage_differs (mh_workers h) workers" "check_mesh_workers now model ROLE_TRAINER workers s ids = None"
      "\<not> mesh_unchanged (mh_workers h) workers"
      "collect_retired now (removed_workers (mh_workers h) workers) (changed_workers (mh_workers h) workers)
         (rs_mesh_versions s mesh_id) s = (Some retired, s1)"
      "s' = (fold hdel_publication retired s1)\<lparr>rs_meshes := (rs_meshes s)(mesh_id \<mapsto>
         h\<lparr>mh_workers := workers, mh_generation := generation + 1, mh_stable_metadata := []\<rparr>)\<rparr>"
proof -
  have ne: "check_mesh_workers now model ROLE_TRAINER workers s ids \<noteq> Some ''UPDATED''"
    by (induction ids) (auto split: option.splits)
  show ?thesis
  proof (cases "out = ''UPDATED''")
    case True
    then obtain h retired s1 where h: "rs_meshes s mesh_id = Some h" "mh_generation h = generation"
      "\<not> coverage_differs (mh_workers h) workers" "check_mesh_workers now model ROLE_TRAINER workers s ids = None"
      "\<not> mesh_unchanged (mh_workers h) workers"
      "collect_retired now (removed_workers (mh_workers h) workers) (changed_workers (mh_workers h) workers)
         (rs_mesh_versions s mesh_id) s = (Some retired, s1)"
      "s' = (fold hdel_publication retired s1)\<lparr>rs_meshes := (rs_meshes (fold hdel_publication retired s1))(mesh_id \<mapsto>
         h\<lparr>mh_workers := workers, mh_generation := generation + 1, mh_stable_metadata := []\<rparr>)\<rparr>"
      using assms(1) ne by (auto simp: update_trainer_mesh_lua_def Let_def split: option.splits if_splits prod.splits)
    have "rs_meshes (fold hdel_publication retired s1) = rs_meshes s"
      using hdel_fold_frame trimmed_frame(1) [OF collect_retired_effect(1) [OF h(6) assms(2)]] by metis
    then show ?thesis using h True updated by metis
  next
    case False
    have "trimmed now s s'" using assms(1) False collect_retired_effect(1) [OF _ assms(2)]
      by (auto simp: update_trainer_mesh_lua_def Let_def trimmed_refl split: option.splits if_splits prod.splits)
    then show ?thesis using False refused by blast
  qed
qed

lemma delete_mesh_effect:
  assumes "delete_trainer_mesh_lua now mesh_id s = (out, s')" "leases_ok now s"
  obtains (refused) "trimmed now s s'" "out \<noteq> ''DELETED''"
  | (deleted) s1 where "out = ''DELETED''" "rs_meshes s mesh_id \<noteq> None"
      "mesh_in_use now (rs_mesh_versions s mesh_id) s = (False, s1)"
      "s' = s1\<lparr>rs_meshes := (rs_meshes s)(mesh_id := None), rs_mesh_versions := (rs_mesh_versions s)(mesh_id := [])\<rparr>"
proof (cases "out = ''DELETED''")
  case True
  then obtain s1 where h: "rs_meshes s mesh_id \<noteq> None" "mesh_in_use now (rs_mesh_versions s mesh_id) s = (False, s1)"
      "s' = s1\<lparr>rs_meshes := (rs_meshes s1)(mesh_id := None), rs_mesh_versions := (rs_mesh_versions s1)(mesh_id := [])\<rparr>"
    using assms(1) by (auto simp: delete_trainer_mesh_lua_def split: if_splits prod.splits bool.splits)
  moreover have "rs_meshes s1 = rs_meshes s" "rs_mesh_versions s1 = rs_mesh_versions s"
    using trimmed_frame(1,2) [OF mesh_in_use_effect(1) [OF h(2) assms(2)]] .
  ultimately show ?thesis using True deleted by metis
next
  case False
  have "trimmed now s s'" using assms(1) False mesh_in_use_effect(1) [OF _ assms(2)]
    by (auto simp: delete_trainer_mesh_lua_def trimmed_refl split: if_splits prod.splits bool.splits)
  then show ?thesis using False refused by blast
qed

definition created_version :: "VersionArgs \<Rightarrow> nat \<Rightarrow> VersionHash" where
  "created_version a generation =
     \<lparr>vh_uid = va_uid a, vh_model_name = va_model_name a, vh_idempotency_key = va_idempotency_key a,
       vh_payload_format = va_payload_format a, vh_base_version_id = va_base_version_id a,
       vh_s3_uri = va_s3_uri a, vh_initial_state = va_state a, vh_layout_signature = [],
       vh_state = va_state a, vh_created_at = va_created_at a, vh_trainer_mesh_id = va_trainer_mesh_id a,
       vh_trainer_mesh_generation = generation, vh_version_number = va_version_number a\<rparr>"

lemma create_version_effect:
  assumes "create_weight_version_lua a s = (out, s')"
  obtains (refused) "s' = s" "out \<noteq> ''CREATED''"
  | (created) generation where "out = ''CREATED''" "rs_versions s (va_uid a) = None"
      "rs_version_requests s (va_request a) = None"
      "if va_trainer_mesh_id a = [] then generation = 0
       else \<exists>h. rs_meshes s (va_trainer_mesh_id a) = Some h \<and> mh_model_name h = va_model_name a
              \<and> generation = mh_generation h \<and> 1 \<le> generation"
      "s' = s\<lparr>rs_versions := (rs_versions s)(va_uid a \<mapsto> created_version a generation),
             rs_mesh_versions := (if va_trainer_mesh_id a = [] then rs_mesh_versions s
               else (rs_mesh_versions s)(va_trainer_mesh_id a :=
                      sadd (va_uid a) (rs_mesh_versions s (va_trainer_mesh_id a)))),
             rs_version_requests := (rs_version_requests s)(va_request a \<mapsto> va_uid a)\<rparr>"
proof (cases "out = ''CREATED''")
  case True
  note e = assms [unfolded create_weight_version_lua_def Let_def created_version_def [symmetric]]
  have none: "rs_versions s (va_uid a) = None" "rs_version_requests s (va_request a) = None"
    using e True by (auto split: option.splits if_splits)
  show ?thesis
  proof (cases "va_trainer_mesh_id a = []")
    case empty: True
    then show ?thesis using e True none created [of 0] by (auto split: option.splits if_splits)
  next
    case False
    then obtain h where "rs_meshes s (va_trainer_mesh_id a) = Some h" "mh_model_name h = va_model_name a"
        "mh_generation h \<noteq> 0"
      using e True none by (auto split: option.splits if_splits)
    then show ?thesis using e True none False created [of "mh_generation h"]
      by (auto split: option.splits if_splits)
  qed
next
  case False
  then show ?thesis using assms refused
    by (auto simp: create_weight_version_lua_def Let_def split: option.splits if_splits)
qed

lemma publish_effect:
  assumes "create_weight_version_shard_lua now v mesh_id encoded model shard w endpoint digest s = (out, s')"
  obtains (refused) "s' = s" "\<not> starts_with ''OK:'' out"
  | (published) version h metadata r where "rs_versions s v = Some version" "rs_meshes s mesh_id = Some h"
      "vh_state version = STATE_STAGING \<or> vh_state version = STATE_READY" "vh_s3_uri version = []"
      "vh_trainer_mesh_generation version = mh_generation h" "worker_at now s w = Some r"
      "hm_get (mh_workers h) w = Some metadata" "tm_logical_shard_id metadata = shard"
      "tm_metadata_endpoint metadata = endpoint"
      "wh_refit_endpoint r = endpoint" "wh_model_name r = model" "wh_role r = ROLE_TRAINER"
      "hm_get (rs_shards s v) (publication_key w shard) \<in> {None, Some encoded}"
      "publish_shard now v mesh_id (publication_key w shard) encoded model endpoint digest version h s = (out, s')"
proof (cases "starts_with ''OK:'' out")
  case True
  then show ?thesis using assms published
    by (auto simp: create_weight_version_shard_lua_def Let_def starts_with_def split: option.splits if_splits)
next
  case False
  have "starts_with ''OK:'' (fst (publish_shard now v mesh_id k encoded model endpoint digest version h s))"
    for k version h by (simp add: publish_shard_def Let_def starts_with_iff)
  then have "s' = s" using assms False
    by (auto simp: create_weight_version_shard_lua_def Let_def split: option.splits if_splits) (metis fst_conv)+
  then show ?thesis using False refused by blast
qed

lemma publish_shard_fields:
  assumes "publish_shard now v m key encoded model endpoint digest version h s = (out, s')"
  shows "rs_shards s' = (rs_shards s)(v := hm_insert key encoded (rs_shards s v))"
    "rs_endpoints s' = (rs_endpoints s)(v := hm_insert key endpoint (rs_endpoints s v))"
    "rs_meshes s' = (rs_meshes s)(m \<mapsto> h\<lparr>mh_stable_metadata := hm_insert key digest (mh_stable_metadata h)\<rparr>)"
    "rs_versions s' = rs_versions s \<or> rs_versions s' = (rs_versions s)(v \<mapsto> version\<lparr>vh_state := STATE_READY\<rparr>)"
    "rs_mesh_versions s' = rs_mesh_versions s" "rs_version_requests s' = rs_version_requests s"
    "rs_leases s' = rs_leases s" "rs_lease_hashes s' = rs_lease_hashes s" "rs_workers s' = rs_workers s"
    "rs_mesh_requests s' = rs_mesh_requests s"
  using assms by (auto simp: publish_shard_def Let_def split: if_splits)

lemma advance_effect:
  assumes "update_weight_version_state_lua v target s = (out, s')"
  obtains (same) "s' = s"
  | (moved) version where "rs_versions s v = Some version" "vh_state version < target"
      "target = STATE_RELEASING \<or> target = STATE_READY \<and> vh_s3_uri version \<noteq> []"
      "s' = s\<lparr>rs_versions := (rs_versions s)(v \<mapsto> version\<lparr>vh_state := target\<rparr>)\<rparr>"
  using assms by (auto simp: update_weight_version_state_lua_def Let_def split: option.splits if_splits)

lemma delete_shard_effect:
  assumes "delete_weight_version_shard_lua now v w key encoded s = (out, s')" "leases_ok now s"
  obtains (refused) "trimmed now s s'" "out \<noteq> ''DELETED''"
  | (deleted) "out = ''DELETED''" "unleased now s v" "s' = hdel_publication (v, key) (trim_leases now v s)"
proof -
  have hm: "hm_ok (rs_leases s v)" using assms(2) by (simp add: leases_ok_def)
  show ?thesis
  proof (cases "out = ''DELETED''")
    case True
    then show ?thesis using assms(1) deleted trim_empty [OF hm]
      by (auto simp: delete_weight_version_shard_lua_def Let_def split: option.splits if_splits)
  next
    case False
    then have "s' = s \<or> s' = trim_leases now v s" using assms(1)
      by (auto simp: delete_weight_version_shard_lua_def Let_def split: option.splits if_splits)
    then show ?thesis using False refused trimmed_refl trimmed_trim by metis
  qed
qed

lemma lease_effect:
  assumes "register_version_lease_lua now key l v w ttl s = (out, s')"
  obtains (refused) "s' = s" "\<not> starts_with ''OK:'' out"
  | (granted) version r where "out = ''OK:'' @ show_nat (now + ttl)" "rs_versions s v = Some version"
      "worker_at now s w = Some r" "wh_role r = ROLE_GENERATOR" "wh_model_name r = vh_model_name version"
      "case lease_at now s key of
         None \<Rightarrow> vh_state version = STATE_READY
       | Some e \<Rightarrow> le_lease_id e = l \<and> le_version_id e = v \<and> le_worker_id e = w
                  \<and> (vh_state version = STATE_READY \<or> vh_state version = STATE_RELEASING)"
      "s' = s\<lparr>rs_lease_hashes := (rs_lease_hashes s)(key \<mapsto>
               \<lparr>le_lease_id = l, le_version_id = v, le_worker_id = w, le_expires_at = now + ttl\<rparr>),
             rs_leases := (rs_leases s)(v := hm_insert l (now + ttl) (rs_leases s v))\<rparr>"
proof (cases "starts_with ''OK:'' out")
  case True
  have w: "rs_versions s v \<noteq> None" "worker_at now s w \<noteq> None"
    using assms True by (auto simp: register_version_lease_lua_def starts_with_def split: option.splits)
  then obtain version r where vr: "rs_versions s v = Some version" "worker_at now s w = Some r" by blast
  have rm: "wh_role r = ROLE_GENERATOR \<and> wh_model_name r = vh_model_name version"
    using assms True vr by (auto simp: register_version_lease_lua_def starts_with_def split: if_splits)
  note e = assms [unfolded register_version_lease_lua_def, simplified vr rm option.case Let_def simp_thms if_False]
  have st: "case lease_at now s key of
         None \<Rightarrow> vh_state version = STATE_READY
       | Some e \<Rightarrow> le_lease_id e = l \<and> le_version_id e = v \<and> le_worker_id e = w
                  \<and> (vh_state version = STATE_READY \<or> vh_state version = STATE_RELEASING)"
    using e True by (auto simp: starts_with_def split: option.splits if_splits)
  have g: "out = ''OK:'' @ show_nat (now + ttl) \<and> s' = s\<lparr>rs_lease_hashes := (rs_lease_hashes s)(key \<mapsto>
               \<lparr>le_lease_id = l, le_version_id = v, le_worker_id = w, le_expires_at = now + ttl\<rparr>),
             rs_leases := (rs_leases s)(v := hm_insert l (now + ttl) (rs_leases s v))\<rparr>"
    using e st by (auto split: option.splits)
  show ?thesis using granted [OF conjunct1 [OF g] vr conjunct1 [OF rm] conjunct2 [OF rm] st conjunct2 [OF g]] .
next
  case False
  then have "s' = s" using assms
    by (auto simp: register_version_lease_lua_def Let_def starts_with_def split: option.splits if_splits)
  then show ?thesis using False refused by blast
qed

lemma unlease_effect:
  assumes "delete_version_lease_lua now key l v w s = (out, s')"
  obtains (conflict) "s' = s"
  | (absent) "lease_at now s key = None" "s' = zrem v l s"
  | (released) e where "lease_at now s key = Some e" "le_lease_id e = l" "le_version_id e = v" "le_worker_id e = w"
      "s' = zrem v l (s\<lparr>rs_lease_hashes := (rs_lease_hashes s)(key := None)\<rparr>)"
  using assms by (auto simp: delete_version_lease_lua_def split: option.splits if_splits)

subsection \<open>Preservation\<close>

lemma refit_ok_cong:
  assumes "rs_meshes s' = rs_meshes s" "rs_mesh_versions s' = rs_mesh_versions s" "rs_versions s' = rs_versions s"
    "rs_version_requests s' = rs_version_requests s" "rs_shards s' = rs_shards s"
    "rs_lease_hashes s' = rs_lease_hashes s" "rs_leases s' = rs_leases s"
  shows "refit_ok now s' = refit_ok now s"
  by (simp add: refit_ok_def version_ok_def linked_def unleased_def leases_ok_def assms)

text \<open>A version stays well formed when its request is kept and its links or its emptiness are.\<close>

lemma version_ok_keep:
  assumes "version_ok now s v version"
    and "\<And>k u. rs_version_requests s k = Some u \<Longrightarrow> rs_version_requests s' k = Some u"
    and "linked s v version \<Longrightarrow> linked s' v version
           \<or> vh_state version = STATE_RELEASING \<and> rs_shards s' v = [] \<and> unleased now s' v"
    and "rs_shards s v = [] \<Longrightarrow> vh_state version = STATE_RELEASING \<Longrightarrow> unleased now s v \<Longrightarrow>
           rs_shards s' v = [] \<and> unleased now s' v"
  shows "version_ok now s' v version"
  using assms unfolding version_ok_def by (auto split: if_splits)

lemma trimmed_refit_ok:
  assumes "refit_ok now s" "trimmed now s s'"
  shows "refit_ok now s'"
  unfolding refit_ok_def
proof (intro conjI allI impI)
  note ok = refit_okD [OF assms(1)]
  show "mesh_ok m h" if "rs_meshes s' m = Some h" for m h using ok(1) that by (simp add: trimmed_frame [OF assms(2)])
  show "version_ok now s' v version" if "rs_versions s' v = Some version" for v version
    by (rule version_ok_keep [where s = s])
       (use ok(2) [of v version] that in \<open>simp_all add: linked_def trimmed_frame [OF assms(2)] trimmed_unleased [OF ok(3) assms(2)]\<close>)
  show "leases_ok now s'" using trimmed_leases_ok [OF ok(3) assms(2)] .
qed

lemma leases_ok_cong: "rs_lease_hashes s' = rs_lease_hashes s \<Longrightarrow> rs_leases s' = rs_leases s \<Longrightarrow>
    leases_ok now s' = leases_ok now s"
  by (simp add: leases_ok_def)

lemma create_mesh_keeps:
  assumes "refit_ok now s" "hm_ok workers" "mesh_id \<noteq> []" "distinct shards" "set shards = set (logical_shards_of workers)"
    "create_trainer_mesh_lua now mesh_id request model shards workers ids s = (out, s')"
  shows "refit_ok now s'"
  using assms(6)
proof (cases rule: create_mesh_effect)
  case (created h)
  note ok = refit_okD [OF assms(1)]
  show ?thesis
    unfolding refit_ok_def
  proof (intro conjI allI impI)
    show "mesh_ok m g" if "rs_meshes s' m = Some g" for m g
      using that ok(1) [of m g] assms(2-5) by (auto simp: created mesh_ok_def split: if_splits)
    show "version_ok now s' v version" if "rs_versions s' v = Some version" for v version
    proof (rule version_ok_keep [where s = s])
      show "version_ok now s v version" using ok(2) that by (simp add: created)
      show "linked s v version \<Longrightarrow> linked s' v version \<or> vh_state version = STATE_RELEASING \<and> rs_shards s' v = [] \<and> unleased now s' v"
        using created(2) by (auto simp: linked_def created(6))
    qed (simp_all add: created unleased_def)
    show "leases_ok now s'" using ok(3) leases_ok_cong [of s' s now] by (simp add: created)
  qed
qed (use assms(1) in simp)

lemma update_mesh_keeps:
  assumes "refit_ok now s" "hm_ok workers"
    "update_trainer_mesh_lua now mesh_id generation workers model ids s = (out, s')"
  shows "refit_ok now s'"
  using assms(3) refit_okD(3) [OF assms(1)]
proof (cases rule: update_mesh_effect)
  case (updated h retired s1)
  note ok = refit_okD [OF assms(1)]
  have tr: "trimmed now s s1" using collect_retired_effect(1) [OF updated(7) ok(3)] .
  note frame = hdel_fold_frame [of retired s1] trimmed_frame [OF tr]
  show ?thesis
    unfolding refit_ok_def
  proof (intro conjI allI impI)
    show "mesh_ok m g" if "rs_meshes s' m = Some g" for m g
    proof (cases "m = mesh_id")
      case True
      then have "g = h\<lparr>mh_workers := workers, mh_generation := generation + 1, mh_stable_metadata := []\<rparr>"
        using that by (simp add: updated)
      moreover have "set (logical_shards_of workers) = set (logical_shards_of (mh_workers h))"
        using updated(4) by (auto simp: coverage_differs_def list_ex_iff)
      ultimately show ?thesis using ok(1) [OF updated(2)] assms(2) True by (simp add: mesh_ok_def)
    next
      case False
      then show ?thesis using ok(1) [of m g] that by (simp add: updated)
    qed
    show "version_ok now s' v version" if "rs_versions s' v = Some version" for v version
    proof (rule version_ok_keep [where s = s])
      show "version_ok now s v version" using ok(2) that by (simp add: updated frame)
      show "linked s v version \<Longrightarrow> linked s' v version \<or> vh_state version = STATE_RELEASING \<and> rs_shards s' v = [] \<and> unleased now s' v"
        using updated(2,3) by (auto simp: linked_def updated(8) frame)
      show "rs_shards s' v = [] \<and> unleased now s' v" if "rs_shards s v = []" "unleased now s v"
        using that hdel_fold_Nil [of s1 v retired] trimmed_unleased [OF ok(3) tr]
        by (simp add: updated(8) frame unleased_def)
    qed (simp add: updated(8) frame)
    show "leases_ok now s'"
      using trimmed_leases_ok [OF ok(3) tr] leases_ok_cong [of s' s1 now] by (simp add: updated(8) frame)
  qed
qed (use assms(1) trimmed_refit_ok in blast)

lemma delete_mesh_keeps:
  assumes "refit_ok now s" "delete_trainer_mesh_lua now mesh_id s = (out, s')"
  shows "refit_ok now s'"
  using assms(2) refit_okD(3) [OF assms(1)]
proof (cases rule: delete_mesh_effect)
  case (deleted s1)
  note ok = refit_okD [OF assms(1)]
  have tr: "trimmed now s s1" using mesh_in_use_effect(1) [OF deleted(3) ok(3)] .
  note frame = trimmed_frame [OF tr]
  have un: "unleased now s' v = unleased now s v" for v
    using trimmed_unleased [OF ok(3) tr, of v] by (simp add: unleased_def deleted)
  show ?thesis
    unfolding refit_ok_def
  proof (intro conjI allI impI)
    show "mesh_ok m g" if "rs_meshes s' m = Some g" for m g
      using that ok(1) [of m g] by (auto simp: deleted split: if_splits)
    show "version_ok now s' v version" if v: "rs_versions s' v = Some version" for v version
    proof (rule version_ok_keep [where s = s])
      show "version_ok now s v version" using ok(2) v by (simp add: deleted frame)
      show "linked s' v version \<or> vh_state version = STATE_RELEASING \<and> rs_shards s' v = [] \<and> unleased now s' v"
        if "linked s v version"
        using that v mesh_in_use_effect(2) [OF deleted(3) ok(3), of v]
        by (cases "vh_trainer_mesh_id version = mesh_id") (auto simp: linked_def deleted(4) frame un [unfolded deleted(4)])
    qed (simp_all add: deleted(4) frame un [unfolded deleted(4)])
    show "leases_ok now s'"
      using trimmed_leases_ok [OF ok(3) tr] leases_ok_cong [of s' s1 now] by (simp add: deleted frame)
  qed
qed (use assms(1) trimmed_refit_ok in blast)

lemma create_version_keeps:
  assumes "refit_ok now s" "args_admitted a" "create_weight_version_lua a s = (out, s')"
  shows "refit_ok now s'"
  using assms(3)
proof (cases rule: create_version_effect)
  case (created generation)
  note ok = refit_okD [OF assms(1)]
  have new: "version_ok now s' (va_uid a) (created_version a generation)"
    using created(4) assms(2)
    by (auto simp: version_ok_def linked_def created(5) created_version_def args_admitted_def sadd_def split: if_splits)
  show ?thesis
    unfolding refit_ok_def
  proof (intro conjI allI impI)
    show "mesh_ok m g" if "rs_meshes s' m = Some g" for m g using that ok(1) by (simp add: created)
    show "version_ok now s' v version" if v: "rs_versions s' v = Some version" for v version
    proof (cases "v = va_uid a")
      case True
      then show ?thesis using v new by (simp add: created)
    next
      case False
      show ?thesis
      proof (rule version_ok_keep [where s = s])
        show "version_ok now s v version" using ok(2) v False by (simp add: created)
        show "linked s v version \<Longrightarrow> linked s' v version \<or> vh_state version = STATE_RELEASING \<and> rs_shards s' v = [] \<and> unleased now s' v"
          by (auto simp: linked_def created(5) sadd_def)
        show "rs_version_requests s' k = Some u" if "rs_version_requests s k = Some u" for k u
          using that created(3) by (auto simp: created(5))
      qed (simp add: created unleased_def)
    qed
    show "leases_ok now s'" using ok(3) leases_ok_cong [of s' s now] by (simp add: created)
  qed
qed (use assms(1) in simp)

text \<open>A change of the state of one version, a linked one if it is not releasing, keeps the rest.\<close>

lemma state_keeps:
  assumes "refit_ok now s" "rs_versions s v = Some version" "target \<in> {STATE_STAGING, STATE_READY, STATE_RELEASING}"
    "vh_state version \<noteq> STATE_RELEASING \<or> target = STATE_RELEASING"
  shows "refit_ok now (s\<lparr>rs_versions := (rs_versions s)(v \<mapsto> version\<lparr>vh_state := target\<rparr>)\<rparr>)"
    (is "refit_ok now ?s'")
  unfolding refit_ok_def
proof (intro conjI allI impI)
  note ok = refit_okD [OF assms(1)]
  show "mesh_ok m g" if "rs_meshes ?s' m = Some g" for m g using that ok(1) by simp
  show "version_ok now ?s' u ver" if u: "rs_versions ?s' u = Some ver" for u ver
  proof (cases "u = v")
    case True
    then have ver: "ver = version\<lparr>vh_state := target\<rparr>" using u by simp
    show ?thesis using ok(2) [OF assms(2)] assms(3,4) True
      by (auto simp: ver version_ok_def linked_def unleased_def split: if_splits)
  next
    case False
    then have "version_ok now s u ver" using ok(2) u by simp
    then show ?thesis by (rule version_ok_keep) (simp_all add: linked_def unleased_def)
  qed
  show "leases_ok now ?s'" using ok(3) leases_ok_cong [of ?s' s now] by simp
qed

lemma advance_keeps:
  assumes "refit_ok now s" "update_weight_version_state_lua v target s = (out, s')"
  shows "refit_ok now s'"
  using assms(2)
proof (cases rule: advance_effect)
  case (moved version)
  have "vh_state version \<in> {STATE_STAGING, STATE_READY, STATE_RELEASING}"
    using refit_okD(2) [OF assms(1) moved(1)] by (simp add: version_ok_def)
  then show ?thesis using state_keeps [OF assms(1) moved(1), of target] moved(2,3,4) by auto
qed (use assms(1) in simp)

lemma publish_shard_keeps:
  assumes "refit_ok now s" "rs_versions s v = Some version" "rs_meshes s m = Some h" "vh_state version \<noteq> STATE_RELEASING"
  shows "refit_ok now (s\<lparr>rs_meshes := (rs_meshes s)(m \<mapsto> h\<lparr>mh_stable_metadata := pins\<rparr>),
     rs_shards := (rs_shards s)(v := shards), rs_endpoints := ends\<rparr>)" (is "refit_ok now ?s'")
  unfolding refit_ok_def
proof (intro conjI allI impI)
  note ok = refit_okD [OF assms(1)]
  show "mesh_ok n g" if "rs_meshes ?s' n = Some g" for n g
    using that ok(1) [of n g] ok(1) [OF assms(3)] by (auto simp: mesh_ok_def split: if_splits)
  show "version_ok now ?s' u ver" if u: "rs_versions ?s' u = Some ver" for u ver
  proof (rule version_ok_keep [where s = s])
    show "version_ok now s u ver" using ok(2) u by simp
    show "linked s u ver \<Longrightarrow> linked ?s' u ver \<or> vh_state ver = STATE_RELEASING \<and> rs_shards ?s' u = [] \<and> unleased now ?s' u"
      using assms(3) by (auto simp: linked_def)
    show "rs_shards ?s' u = [] \<and> unleased now ?s' u" if "rs_shards s u = []" "vh_state ver = STATE_RELEASING" "unleased now s u"
      using that u assms(2,4) by (auto simp: unleased_def)
  qed simp
  show "leases_ok now ?s'" using ok(3) leases_ok_cong [of ?s' s now] by simp
qed

lemma publication_keeps:
  assumes "refit_ok now s"
    "create_weight_version_shard_lua now v mesh_id encoded model shard w endpoint digest s = (out, s')"
  shows "refit_ok now s'"
  using assms(2)
proof (cases rule: publish_effect)
  case (published version h metadata r)
  define t where "t = s\<lparr>rs_meshes := (rs_meshes s)(mesh_id \<mapsto>
        h\<lparr>mh_stable_metadata := hm_insert (publication_key w shard) digest (mh_stable_metadata h)\<rparr>),
     rs_shards := (rs_shards s)(v := hm_insert (publication_key w shard) encoded (rs_shards s v)),
     rs_endpoints := (rs_endpoints s)(v := hm_insert (publication_key w shard) endpoint (rs_endpoints s v))\<rparr>"
  have t: "refit_ok now t" using publish_shard_keeps [OF assms(1) published(1,2)] published(3) by (auto simp: t_def)
  have "s' = t \<or> s' = t\<lparr>rs_versions := (rs_versions t)(v \<mapsto> version\<lparr>vh_state := STATE_READY\<rparr>)\<rparr>"
    using published(14) by (auto simp: publish_shard_def Let_def t_def split: if_splits)
  moreover have "rs_versions t v = Some version" by (simp add: t_def published)
  ultimately show ?thesis using t state_keeps [OF t, of v version STATE_READY] published(3) by auto
qed (use assms(1) in simp)

lemma hdel_keeps:
  assumes "refit_ok now s"
  shows "refit_ok now (hdel_publication p s)" (is "refit_ok now ?s'")
  unfolding refit_ok_def
proof (intro conjI allI impI)
  note ok = refit_okD [OF assms(1)]
  show "mesh_ok m g" if "rs_meshes ?s' m = Some g" for m g using that ok(1) by (simp add: hdel_publication_def)
  show "version_ok now ?s' u ver" if u: "rs_versions ?s' u = Some ver" for u ver
  proof (rule version_ok_keep [where s = s])
    show "version_ok now s u ver" using ok(2) u by (simp add: hdel_publication_def)
  qed (auto simp: hdel_publication_def linked_def unleased_def hm_remove_def)
  show "leases_ok now ?s'" using ok(3) leases_ok_cong [of ?s' s now] by (simp add: hdel_publication_def)
qed

lemma delete_shard_keeps:
  assumes "refit_ok now s" "delete_weight_version_shard_lua now v w key encoded s = (out, s')"
  shows "refit_ok now s'"
  using assms(2) refit_okD(3) [OF assms(1)]
proof (cases rule: delete_shard_effect)
  case deleted
  then show ?thesis using hdel_keeps trimmed_refit_ok [OF assms(1) trimmed_trim] by blast
qed (use assms(1) trimmed_refit_ok in blast)

lemma lease_at_Some: "lease_at now s k = Some l \<longleftrightarrow> rs_lease_hashes s k = Some l \<and> now < le_expires_at l"
  by (auto simp: lease_at_def split: option.splits)

lemma leases_okD:
  assumes "leases_ok now s"
  shows "hm_ok (rs_leases s v)"
    "rs_lease_hashes s k = Some r \<Longrightarrow> now < le_expires_at r \<Longrightarrow> k = lease_suffix (le_version_id r) (le_lease_id r)
       \<and> hm_get (rs_leases s (le_version_id r)) (le_lease_id r) = Some (le_expires_at r)"
    "hm_get (rs_leases s v) l = Some e \<Longrightarrow> now < e \<Longrightarrow> \<exists>r. rs_lease_hashes s (lease_suffix v l) = Some r
       \<and> le_version_id r = v \<and> le_lease_id r = l \<and> le_expires_at r = e"
  using assms unfolding leases_ok_def by blast+

lemma leases_okI:
  assumes "\<And>v. hm_ok (rs_leases s v)"
    "\<And>k r. rs_lease_hashes s k = Some r \<Longrightarrow> now < le_expires_at r \<Longrightarrow> k = lease_suffix (le_version_id r) (le_lease_id r)
       \<and> hm_get (rs_leases s (le_version_id r)) (le_lease_id r) = Some (le_expires_at r)"
    "\<And>v l e. hm_get (rs_leases s v) l = Some e \<Longrightarrow> now < e \<Longrightarrow> \<exists>r. rs_lease_hashes s (lease_suffix v l) = Some r
       \<and> le_version_id r = v \<and> le_lease_id r = l \<and> le_expires_at r = e"
  shows "leases_ok now s"
  using assms unfolding leases_ok_def by blast

lemma lease_keeps:
  assumes "refit_ok now s" "register_version_lease_lua now (lease_suffix v l) l v w ttl s = (out, s')"
  shows "refit_ok now s'"
  using assms(2)
proof (cases rule: lease_effect)
  case (granted version r)
  note ok = refit_okD [OF assms(1)] and lok = leases_okD [OF refit_okD(3) [OF assms(1)]]
  have owner: "le_version_id e = v \<and> le_lease_id e = l"
    if "rs_lease_hashes s (lease_suffix v l) = Some e" "now < le_expires_at e" for e
    using granted(6) that by (auto simp: lease_at_def)
  have "leases_ok now s'"
  proof (rule leases_okI)
    show "hm_ok (rs_leases s' u)" for u using lok(1) by (simp add: granted hm_simps)
    show "k = lease_suffix (le_version_id e) (le_lease_id e)
        \<and> hm_get (rs_leases s' (le_version_id e)) (le_lease_id e) = Some (le_expires_at e)"
      if "rs_lease_hashes s' k = Some e" "now < le_expires_at e" for k e
      using that lok(2) [of k e] by (auto simp: granted hm_simps split: if_splits)
    show "\<exists>e'. rs_lease_hashes s' (lease_suffix u l') = Some e' \<and> le_version_id e' = u \<and> le_lease_id e' = l'
        \<and> le_expires_at e' = e" if g: "hm_get (rs_leases s' u) l' = Some e" "now < e" for u l' e
    proof (cases "u = v \<and> l' = l")
      case True
      then show ?thesis using g by (simp add: granted hm_simps)
    next
      case False
      then have "hm_get (rs_leases s u) l' = Some e" using g by (auto simp: granted hm_simps split: if_splits)
      from lok(3) [OF this g(2)] obtain e' where e': "rs_lease_hashes s (lease_suffix u l') = Some e'"
          "le_version_id e' = u" "le_lease_id e' = l'" "le_expires_at e' = e" by blast
      have "lease_suffix u l' \<noteq> lease_suffix v l" using e' owner [of e'] False g(2) by auto
      then show ?thesis using e' by (simp add: granted)
    qed
  qed
  moreover have "version_ok now s' u ver" if u: "rs_versions s' u = Some ver" for u ver
  proof (rule version_ok_keep [where s = s])
    show "version_ok now s u ver" using ok(2) u by (simp add: granted)
    show "rs_shards s' u = [] \<and> unleased now s' u" if d: "rs_shards s u = []" "vh_state ver = STATE_RELEASING" "unleased now s u"
    proof -
      have "u \<noteq> v"
      proof
        assume "u = v"
        then have "ver = version" using u granted(2) by (simp add: granted)
        then obtain e where "lease_at now s (lease_suffix v l) = Some e"
          using granted(6) d(2) by (auto split: option.splits)
        then show False using lok(2) owner d(3) \<open>u = v\<close> unfolding lease_at_Some unleased_def by (metis linorder_not_le)
      qed
      then show ?thesis using d by (simp add: granted unleased_def)
    qed
  qed (simp_all add: granted linked_def)
  ultimately show ?thesis using ok(1) by (simp add: refit_ok_def granted)
qed (use assms(1) in simp)

lemma unlease_keeps:
  assumes "refit_ok now s" "delete_version_lease_lua now (lease_suffix v l) l v w s = (out, s')"
  shows "refit_ok now s'"
proof (cases "s' = s")
  case False
  note ok = refit_okD [OF assms(1)] and lok = leases_okD [OF refit_okD(3) [OF assms(1)]]
  have z: "rs_leases s' = (rs_leases s)(v := hm_remove l (rs_leases s v))"
    and frame: "rs_versions s' = rs_versions s" "rs_meshes s' = rs_meshes s" "rs_mesh_versions s' = rs_mesh_versions s"
      "rs_version_requests s' = rs_version_requests s" "rs_shards s' = rs_shards s"
    and hsame: "\<And>k. k \<noteq> lease_suffix v l \<Longrightarrow> rs_lease_hashes s' k = rs_lease_hashes s k"
    and hkey: "\<And>e. rs_lease_hashes s' (lease_suffix v l) = Some e \<Longrightarrow> rs_lease_hashes s (lease_suffix v l) = Some e
        \<and> le_expires_at e \<le> now"
    and hold: "\<And>e. rs_lease_hashes s (lease_suffix v l) = Some e \<Longrightarrow> now < le_expires_at e \<Longrightarrow>
        le_version_id e = v \<and> le_lease_id e = l"
    using assms(2) by (cases rule: unlease_effect, use False in
      \<open>auto simp: zrem_def lease_at_def split: option.splits if_splits\<close>)+
  have "leases_ok now s'"
  proof (rule leases_okI)
    show "hm_ok (rs_leases s' u)" for u using lok(1) by (simp add: z hm_simps)
    show "k = lease_suffix (le_version_id e) (le_lease_id e)
        \<and> hm_get (rs_leases s' (le_version_id e)) (le_lease_id e) = Some (le_expires_at e)"
      if g: "rs_lease_hashes s' k = Some e" "now < le_expires_at e" for k e
    proof -
      have k: "k \<noteq> lease_suffix v l" using g hkey by fastforce
      then show ?thesis using lok(2) [of k e] g hsame [OF k] by (auto simp: z hm_simps)
    qed
    show "\<exists>e'. rs_lease_hashes s' (lease_suffix u l') = Some e' \<and> le_version_id e' = u \<and> le_lease_id e' = l'
        \<and> le_expires_at e' = e" if g: "hm_get (rs_leases s' u) l' = Some e" "now < e" for u l' e
    proof -
      have ne: "\<not> (u = v \<and> l' = l)" and old: "hm_get (rs_leases s u) l' = Some e"
        using g by (auto simp: z hm_simps split: if_splits)
      from lok(3) [OF old g(2)] obtain r where r: "rs_lease_hashes s (lease_suffix u l') = Some r"
          "le_version_id r = u" "le_lease_id r = l'" "le_expires_at r = e" by blast
      have "lease_suffix u l' \<noteq> lease_suffix v l" using r hold g(2) ne by metis
      then show ?thesis using r hsame by simp
    qed
  qed
  moreover have "version_ok now s' u ver" if u: "rs_versions s' u = Some ver" for u ver
    by (rule version_ok_keep [where s = s])
       (use ok(2) u in \<open>auto simp: frame linked_def unleased_def z hm_simps split: if_splits\<close>)
  ultimately show ?thesis using ok(1) by (simp add: refit_ok_def frame)
qed (use assms(1) in simp)

lemma rstep_keeps: "rstep now s s' \<Longrightarrow> refit_ok now s \<Longrightarrow> refit_ok now s'"
proof (induction rule: rstep.induct)
  case (register_worker now w role model ttl endpoint s out s')
  then obtain ws where "s' = s\<lparr>rs_workers := ws\<rparr>" by (metis register_worker_effect)
  then show ?case using refit_ok_cong [of s' s now] register_worker.prems by simp
qed (blast intro: create_mesh_keeps update_mesh_keeps delete_mesh_keeps create_version_keeps publication_keeps
       advance_keeps delete_shard_keeps lease_keeps unlease_keeps)+

lemma rreach_ok: "rreach now s \<Longrightarrow> refit_ok now s"
  by (induction rule: rreach.induct) (auto intro: refit_ok_init refit_ok_later rstep_keeps)

subsection \<open>Coverage\<close>

text \<open>Every logical shard of the mesh of a version has a live publication of that version.\<close>

definition covered :: "nat \<Rightarrow> RStore \<Rightarrow> string \<Rightarrow> bool" where
  "covered now s v =
     (case rs_versions s v of
        None \<Rightarrow> False
      | Some version \<Rightarrow>
          (case rs_meshes s (vh_trainer_mesh_id version) of
             None \<Rightarrow> False
           | Some h \<Rightarrow> mh_generation h = vh_trainer_mesh_generation version
               \<and> (\<forall>shard \<in> set (mh_logical_shards h). \<exists>w metadata. hm_get (mh_workers h) w = Some metadata
                    \<and> tm_logical_shard_id metadata = shard
                    \<and> publication_live now (vh_model_name version) v s (w, metadata))))"

lemma count_covered_card:
  "count_covered live ws present n
   = n + card ((\<lambda>e. tm_logical_shard_id (snd e)) ` set (filter live ws) - set present)"
proof (induction ws arbitrary: present n)
  case (Cons e ws)
  let ?f = "\<lambda>e :: string \<times> TrainerTensorsMetadata. tm_logical_shard_id (snd e)"
  show ?case
  proof (cases "live e \<and> ?f e \<notin> set present")
    case True
    have "?f ` set (filter live (e # ws)) - set present
        = insert (?f e) (?f ` set (filter live ws) - set (?f e # present))" using True by auto
    moreover have "?f e \<notin> ?f ` set (filter live ws) - set (?f e # present)" by simp
    ultimately have "card (?f ` set (filter live (e # ws)) - set present)
        = Suc (card (?f ` set (filter live ws) - set (?f e # present)))" by simp
    then show ?thesis using True Cons.IH [of "?f e # present" "n + 1"] by simp
  next
    case False
    have "?f ` set (filter live (e # ws)) - set present = ?f ` set (filter live ws) - set present"
      using False by auto
    moreover have "count_covered live (e # ws) present n = count_covered live ws present n" using False by auto
    ultimately show ?thesis by (simp only: Cons.IH)
  qed
qed simp

lemma count_is_coverage:
  assumes "distinct shards" "set shards = set (logical_shards_of ws)" "hm_ok ws"
  shows "count_covered live ws [] 0 = length shards
     \<longleftrightarrow> (\<forall>shard \<in> set shards. \<exists>w m. hm_get ws w = Some m \<and> tm_logical_shard_id m = shard \<and> live (w, m))"
proof -
  let ?L = "(\<lambda>e. tm_logical_shard_id (snd e)) ` set (filter live ws)"
  have sub: "?L \<subseteq> set shards" by (auto simp: assms(2) logical_shards_of_def)
  have "count_covered live ws [] 0 = length shards \<longleftrightarrow> card ?L = card (set shards)"
    by (simp add: count_covered_card distinct_card [OF assms(1)])
  also have "\<dots> \<longleftrightarrow> ?L = set shards" using sub card_subset_eq by (metis finite_set)
  also have "\<dots> \<longleftrightarrow> (\<forall>shard \<in> set shards. \<exists>w m. (w, m) \<in> set ws \<and> tm_logical_shard_id m = shard \<and> live (w, m))"
    using sub by force
  finally show ?thesis using assms(3) by (simp add: hm_get_def hm_ok_def)
qed

text \<open>An accepted publication: the answer is the new state, READY once the mesh is covered.\<close>

lemma accepted_publication:
  assumes "refit_ok now s" "rs_versions s v = Some version"
    "create_weight_version_shard_lua now v (vh_trainer_mesh_id version) encoded (vh_model_name version)
       shard w endpoint digest s = (out, s')" "starts_with ''OK:'' out"
  shows "\<exists>st. out = ''OK:'' @ show_nat (nat st) \<and> rs_versions s' v = Some (version\<lparr>vh_state := st\<rparr>)
     \<and> st = (if vh_state version = STATE_READY \<or> covered now s' v then STATE_READY else STATE_STAGING)"
  using assms(3)
proof (cases rule: publish_effect)
  case (published ver h metadata r)
  have ver: "ver = version" using published(1) assms(2) by simp
  define key where "key = publication_key w shard"
  define h' where "h' = h\<lparr>mh_stable_metadata := hm_insert key digest (mh_stable_metadata h)\<rparr>"
  define t where "t = s\<lparr>rs_meshes := (rs_meshes s)(vh_trainer_mesh_id version \<mapsto> h'),
     rs_shards := (rs_shards s)(v := hm_insert key encoded (rs_shards s v)),
     rs_endpoints := (rs_endpoints s)(v := hm_insert key endpoint (rs_endpoints s v))\<rparr>"
  define full where "full \<longleftrightarrow> count_covered (publication_live now (vh_model_name version) v t) (mh_workers h) [] 0
     = length (mh_logical_shards h)"
  have result: "(out, s') = (if full then (''OK:'' @ show_nat (nat STATE_READY),
        t\<lparr>rs_versions := (rs_versions t)(v \<mapsto> version\<lparr>vh_state := STATE_READY\<rparr>)\<rparr>)
      else (''OK:'' @ show_nat (nat (vh_state version)), t))"
    using published(14) unfolding ver publish_shard_def Let_def key_def [symmetric] h'_def [symmetric]
      t_def [symmetric] full_def [symmetric] by simp
  have mesh: "mesh_ok (vh_trainer_mesh_id version) h" using refit_okD(1) [OF assms(1) published(2)] .
  have fullx: "full \<longleftrightarrow> (\<forall>sh \<in> set (mh_logical_shards h). \<exists>x m. hm_get (mh_workers h) x = Some m
     \<and> tm_logical_shard_id m = sh \<and> publication_live now (vh_model_name version) v t (x, m))"
    unfolding full_def by (rule count_is_coverage) (use mesh in \<open>simp_all add: mesh_ok_def\<close>)
  have v': "rs_versions s' v = Some (version\<lparr>vh_state := if full then STATE_READY else vh_state version\<rparr>)"
    using result published(1) by (auto simp: t_def ver split: if_splits)
  have live: "publication_live now m v s' = publication_live now m v t" for m
    using result by (auto simp: publication_live_def worker_at_def fun_eq_iff split: if_splits)
  have "rs_meshes s' (vh_trainer_mesh_id version) = Some h'" using result by (auto simp: t_def split: if_splits)
  then have cov: "covered now s' v \<longleftrightarrow> full"
    by (simp add: covered_def v' live fullx) (simp add: h'_def published(5) [unfolded ver])
  show ?thesis using result v' cov published(3) [unfolded ver] by (cases full) auto
qed (use assms(4) in simp)

subsection \<open>What a step leaves alone\<close>

lemma update_mesh_frame:
  assumes "update_trainer_mesh_lua now mesh_id generation workers model ids s = (out, s')" "leases_ok now s"
  shows "rs_versions s' = rs_versions s"
  using assms
proof (cases rule: update_mesh_effect)
  case (updated h retired s1)
  then show ?thesis using hdel_fold_frame [of retired s1]
      trimmed_frame(3) [OF collect_retired_effect(1) [OF updated(7) assms(2)]] by simp
qed (simp add: trimmed_frame)

lemma delete_mesh_frame:
  assumes "delete_trainer_mesh_lua now mesh_id s = (out, s')" "leases_ok now s"
  shows "rs_versions s' = rs_versions s \<and> rs_shards s' = rs_shards s"
  using assms
proof (cases rule: delete_mesh_effect)
  case (deleted s1)
  then show ?thesis using trimmed_frame [OF mesh_in_use_effect(1) [OF deleted(3) assms(2)]] by simp
qed (simp add: trimmed_frame)

lemma delete_shard_frame:
  assumes "delete_weight_version_shard_lua now v w key encoded s = (out, s')" "leases_ok now s"
  shows "rs_versions s' = rs_versions s \<and> rs_meshes s' = rs_meshes s"
  using assms by (cases rule: delete_shard_effect) (simp_all add: trimmed_frame hdel_publication_def trim_leases_def)

lemma lease_frame:
  "register_version_lease_lua now key l v w ttl s = (out, s') \<Longrightarrow>
     rs_versions s' = rs_versions s \<and> rs_meshes s' = rs_meshes s \<and> rs_shards s' = rs_shards s"
  by (erule lease_effect) simp_all

lemma unlease_frame:
  "delete_version_lease_lua now key l v w s = (out, s') \<Longrightarrow>
     rs_versions s' = rs_versions s \<and> rs_meshes s' = rs_meshes s \<and> rs_shards s' = rs_shards s"
  by (erule unlease_effect) (simp_all add: zrem_def)

lemma register_worker_frame:
  "register_worker_lua now w role model ttl endpoint s = (out, s') \<Longrightarrow>
     rs_versions s' = rs_versions s \<and> rs_meshes s' = rs_meshes s \<and> rs_shards s' = rs_shards s"
  by (erule register_worker_effect) simp

lemma create_mesh_frame:
  "create_trainer_mesh_lua now mesh_id request model shards workers ids s = (out, s') \<Longrightarrow>
     rs_versions s' = rs_versions s \<and> rs_shards s' = rs_shards s"
  by (erule create_mesh_effect) simp_all

lemmas step_frames = register_worker_frame create_mesh_frame lease_frame unlease_frame

text \<open>A version is never removed, and only its state changes, which never goes down.\<close>

lemma rstep_version:
  assumes "rstep now s s'" "refit_ok now s" "rs_versions s v = Some version"
  shows "\<exists>st. rs_versions s' v = Some (version\<lparr>vh_state := st\<rparr>) \<and> vh_state version \<le> st"
proof -
  note lok = refit_okD(3) [OF assms(2)]
  have same: ?thesis if "rs_versions s' v = Some version"
    using that by (intro exI [of _ "vh_state version"]) simp
  show ?thesis using assms(1)
  proof (cases rule: rstep.cases)
    case (create_version a out)
    then show ?thesis using same assms(3) by (auto elim!: create_version_effect)
  next
    case (publish u ver encoded shard w endpoint digest out)
    from publish(2) show ?thesis
    proof (cases rule: publish_effect)
      case (published ver' h metadata r)
      then show ?thesis using publish_shard_fields(4) [OF published(14)] same assms(3) by (cases "u = v") auto
    qed (use same assms(3) in simp)
  next
    case (advance u ver target out)
    from advance(3) show ?thesis
    proof (cases rule: advance_effect)
      case (moved ver')
      then show ?thesis using same assms(3) by (cases "u = v") auto
    qed (use same assms(3) in simp)
  qed (use same assms(3) step_frames update_mesh_frame [OF _ lok] delete_mesh_frame [OF _ lok] delete_shard_frame [OF _ lok] in \<open>metis\<close>)+
qed

text \<open>
  A mesh that outlives a step keeps its model and its logical shards; its workers change only together
  with its generation, which then moves by one.
\<close>

definition mesh_succeeds :: "MeshHash \<Rightarrow> MeshHash \<Rightarrow> bool" where
  "mesh_succeeds h h' = (mh_model_name h' = mh_model_name h \<and> mh_logical_shards h' = mh_logical_shards h
     \<and> set (logical_shards_of (mh_workers h')) = set (logical_shards_of (mh_workers h))
     \<and> (mh_generation h' = mh_generation h \<and> mh_workers h' = mh_workers h \<or> mh_generation h' = mh_generation h + 1))"

lemma rstep_mesh:
  assumes "rstep now s s'" "refit_ok now s" "rs_meshes s m = Some h" "rs_meshes s' m = Some h'"
  shows "mesh_succeeds h h'"
proof -
  note lok = refit_okD(3) [OF assms(2)]
  have same: ?thesis if "rs_meshes s' m = Some h"
    using that assms(4) by (simp add: mesh_succeeds_def)
  show ?thesis using assms(1)
  proof (cases rule: rstep.cases)
    case (create_mesh workers mesh_id shards request model out)
    from create_mesh(5) show ?thesis
    proof (cases rule: create_mesh_effect)
      case (created g)
      then have "m \<noteq> mesh_id" using assms(3) by auto
      then show ?thesis using same assms(3) by (simp add: created)
    qed (use same assms(3) in simp)
  next
    case (update_mesh workers mesh_id generation model out)
    from update_mesh(2) lok show ?thesis
    proof (cases rule: update_mesh_effect)
      case (updated g retired s1)
      have "set (logical_shards_of workers) = set (logical_shards_of (mh_workers g))"
        using updated(4) by (auto simp: coverage_differs_def list_ex_iff)
      then show ?thesis using same assms(3,4) updated(2,3)
        by (cases "m = mesh_id") (auto simp: updated(8) mesh_succeeds_def)
    qed (use same assms(3) in \<open>simp add: trimmed_frame\<close>)
  next
    case (delete_mesh mesh_id out)
    from delete_mesh lok show ?thesis
      by (cases rule: delete_mesh_effect) (use same assms(3,4) in \<open>auto simp: trimmed_frame split: if_splits\<close>)
  next
    case (create_version a out)
    then show ?thesis using same assms(3) by (auto elim!: create_version_effect)
  next
    case (publish u ver encoded shard w endpoint digest out)
    from publish(2) show ?thesis
    proof (cases rule: publish_effect)
      case (published ver' g metadata r)
      then show ?thesis using publish_shard_fields(3) [OF published(14)] assms(3,4)
        by (auto simp: mesh_succeeds_def split: if_splits)
    qed (use same assms(3) in simp)
  next
    case (advance u ver target out)
    then show ?thesis using same assms(3) by (auto elim!: advance_effect)
  qed (use same assms(3) step_frames delete_shard_frame [OF _ lok] in \<open>metis\<close>)+
qed

subsection \<open>Leases protect what they lease\<close>

lemma mesh_of_leased:
  assumes "refit_ok now s" "rs_versions s v = Some version" "vh_trainer_mesh_id version \<noteq> []" "\<not> unleased now s v"
  shows "linked s v version"
  using refit_okD(2) [OF assms(1,2)] assms(3,4) by (auto simp: version_ok_def)

lemma rstep_shards:
  assumes "rstep now s s'" "refit_ok now s" "rs_versions s v = Some version" "\<not> unleased now s v"
    "hm_get (rs_shards s v) key = Some x"
  shows "hm_get (rs_shards s' v) key = Some x"
proof -
  note lok = refit_okD(3) [OF assms(2)]
  show ?thesis using assms(1)
  proof (cases rule: rstep.cases)
    case (update_mesh workers mesh_id generation model out)
    from update_mesh(2) lok show ?thesis
    proof (cases rule: update_mesh_effect)
      case (updated h retired s1)
      have "fst p \<noteq> v" if "p \<in> set retired" for p
        using collect_retired_effect(2,3) [OF updated(7) lok refl] that assms(4) by blast
      then have "v \<notin> fst ` set retired" by blast
      then show ?thesis using hdel_fold_other [of v retired s1] assms(5)
          trimmed_frame(6) [OF collect_retired_effect(1) [OF updated(7) lok]] by (simp add: updated(8))
    qed (simp add: trimmed_frame assms(5))
  next
    case (create_version a out)
    then show ?thesis using assms(5) by (auto elim!: create_version_effect)
  next
    case (publish u ver encoded shard w endpoint digest out)
    from publish(2) show ?thesis
    proof (cases rule: publish_effect)
      case (published ver' h metadata r)
      then show ?thesis using publish_shard_fields(1) [OF published(14)] assms(5)
        by (cases "u = v") (auto simp: hm_simps)
    qed (use assms(5) in simp)
  next
    case (advance u ver target out)
    then show ?thesis using assms(5) by (auto elim!: advance_effect)
  next
    case (delete_shard u w key' encoded out)
    from delete_shard lok show ?thesis
    proof (cases rule: delete_shard_effect)
      case deleted
      then have "u \<noteq> v" using assms(4) by blast
      then show ?thesis using assms(5) by (simp add: deleted hdel_publication_def trim_leases_def)
    qed (simp add: trimmed_frame assms(5))
  qed (use assms(5) step_frames delete_mesh_frame [OF _ lok] in \<open>metis\<close>)+
qed

text \<open>A lease on a linked version keeps the mesh and its workers.\<close>

lemma rstep_leased_mesh:
  assumes "rstep now s s'" "refit_ok now s" "rs_versions s v = Some version" "\<not> unleased now s v"
    "vh_trainer_mesh_id version \<noteq> []"
  shows "\<exists>h h'. rs_meshes s (vh_trainer_mesh_id version) = Some h \<and> rs_meshes s' (vh_trainer_mesh_id version) = Some h'
     \<and> mh_generation h' = mh_generation h \<and> mh_workers h' = mh_workers h"
proof -
  note lok = refit_okD(3) [OF assms(2)]
  let ?m = "vh_trainer_mesh_id version"
  obtain h where h: "rs_meshes s ?m = Some h" "v \<in> set (rs_mesh_versions s ?m)"
    using mesh_of_leased [OF assms(2,3,5,4)] by (auto simp: linked_def)
  have same: ?thesis if "rs_meshes s' ?m = Some h" using that h by blast
  show ?thesis using assms(1)
  proof (cases rule: rstep.cases)
    case (create_mesh workers mesh_id shards request model out)
    from create_mesh(5) show ?thesis
      by (cases rule: create_mesh_effect) (use same h(1) in \<open>auto simp: fun_upd_def\<close>)
  next
    case (update_mesh workers mesh_id generation model out)
    from update_mesh(2) lok show ?thesis
    proof (cases rule: update_mesh_effect)
      case (updated g retired s1)
      have "?m \<noteq> mesh_id" using collect_retired_effect(2) [OF updated(7) lok refl, of v] h(2) assms(4) by blast
      then show ?thesis using same h(1) by (simp add: updated(8))
    qed (use same h(1) in \<open>simp add: trimmed_frame\<close>)
  next
    case (delete_mesh mesh_id out)
    from delete_mesh lok show ?thesis
    proof (cases rule: delete_mesh_effect)
      case (deleted s1)
      have "?m \<noteq> mesh_id" using mesh_in_use_effect(2) [OF deleted(3) lok, of v] h(2) assms(4) by blast
      then show ?thesis using same h(1) by (simp add: deleted)
    qed (use same h(1) in \<open>simp add: trimmed_frame\<close>)
  next
    case (create_version a out)
    then show ?thesis using same h(1) by (auto elim!: create_version_effect)
  next
    case (publish u ver encoded shard w endpoint digest out)
    from publish(2) show ?thesis
    proof (cases rule: publish_effect)
      case (published ver' g metadata r)
      then show ?thesis using publish_shard_fields(3) [OF published(14)] h(1) same by auto
    qed (use same h(1) in simp)
  next
    case (advance u ver target out)
    then show ?thesis using same h(1) by (auto elim!: advance_effect)
  qed (use same h(1) step_frames delete_shard_frame [OF _ lok] in \<open>metis\<close>)+
qed

subsection \<open>Runs\<close>

text \<open>Runs of the system, and runs during which a version stays leased.\<close>

inductive rsteps :: "nat \<Rightarrow> RStore \<Rightarrow> nat \<Rightarrow> RStore \<Rightarrow> bool" where
  refl: "rsteps now s now s"
| tick: "rsteps now s now1 s1 \<Longrightarrow> now1 \<le> now2 \<Longrightarrow> rsteps now s now2 s1"
| step: "rsteps now s now1 s1 \<Longrightarrow> rstep now1 s1 s2 \<Longrightarrow> rsteps now s now1 s2"

inductive leased_run :: "string \<Rightarrow> nat \<Rightarrow> RStore \<Rightarrow> nat \<Rightarrow> RStore \<Rightarrow> bool" where
  refl: "leased_run v now s now s"
| tick: "leased_run v now s now1 s1 \<Longrightarrow> now1 \<le> now2 \<Longrightarrow> leased_run v now s now2 s1"
| step: "leased_run v now s now1 s1 \<Longrightarrow> \<not> unleased now1 s1 v \<Longrightarrow> rstep now1 s1 s2 \<Longrightarrow> leased_run v now s now1 s2"

lemma rsteps_reach: "rsteps now s now' s' \<Longrightarrow> rreach now s \<Longrightarrow> rreach now' s'"
  by (induction rule: rsteps.induct) (auto intro: rreach.intros)

lemma leased_run_steps: "leased_run v now s now' s' \<Longrightarrow> rsteps now s now' s'"
  by (induction rule: leased_run.induct) (auto intro: rsteps.intros)

lemma rsteps_version:
  assumes "rsteps now s now' s'" "rreach now s" "rs_versions s v = Some version"
  shows "\<exists>st. rs_versions s' v = Some (version\<lparr>vh_state := st\<rparr>) \<and> vh_state version \<le> st"
  using assms
proof (induction rule: rsteps.induct)
  case (refl now s)
  then show ?case by (intro exI [of _ "vh_state version"]) simp
next
  case (step now s now1 s1 s2)
  then obtain st where st: "rs_versions s1 v = Some (version\<lparr>vh_state := st\<rparr>)" "vh_state version \<le> st" by blast
  have "refit_ok now1 s1" using rreach_ok rsteps_reach step by blast
  from rstep_version [OF step(2) this st(1)] show ?case using st(2) by (force intro: order_trans)
qed blast

end
