(* ===== verification/Refit_Redis.thy ===== *)
theory Refit_Redis
  imports Refit_Cohort "HOL-Library.Char_ord" "HOL-Library.List_Lexorder" "HOL-Library.Product_Lexorder"
begin

text \<open>
  The Redis implementation of the refit control plane (\<^verbatim>\<open>refit/backend/redis.rs\<close>) around the scripts of
  \<^verbatim>\<open>Refit_Scripts\<close>: the key scheme, the conversion of stored hashes into messages, and the methods of
  \<^verbatim>\<open>RefitBackend\<close>, which run the scripts and translate their answers.

  Other replicas act between two calls of a method: a method takes an environment, which transforms the state
  before the call of each number and gives the time of the Redis server at that call, and returns its result
  with the state it leaves. The commands of a pipeline are calls of their own, as it is not a transaction. The
  hash of a version is read as text; the JSON of a mesh and the wire form of a shard are left to their
  libraries, the first as the value itself, the second as the arguments \<open>enc\<close> and \<open>dec\<close>. SHA-256, the clock of
  the server process and the generated UUIDs are arguments. Redis calls do not fail here, and error values carry
  the kind but not the text of the message.
\<close>

datatype RefitBackendError =
    InvalidArgument | NotFound | FailedPrecondition | AlreadyExists | ResourceExhausted | Internal | Unavailable

type_synonym 'a rresult = "RefitBackendError + 'a"
type_synonym hash_fields = "(string, string) hash_map"

record RefitEnv =
  re_act :: "nat \<Rightarrow> RStore \<Rightarrow> RStore"
  re_now :: "nat \<Rightarrow> nat"

subsection \<open>Messages\<close>

record ObjectStorageSource =
  os_uri :: string
  os_storage_type :: int

record WeightVersion =
  wv_uid :: string
  wv_model_name :: string
  wv_idempotency_key :: string
  wv_payload_format :: int
  wv_base_version_id :: "string option"
  wv_layout_signature :: string
  wv_state :: int
  wv_created_at_unix_ms :: nat
  wv_object_storage :: "ObjectStorageSource option"
  wv_trainer_mesh_id :: "string option"
  wv_trainer_mesh_generation :: nat
  wv_version_number :: "int option"

record CreateWeightVersionRequest =
  cq_model_name :: string
  cq_idempotency_key :: string
  cq_payload_format :: int
  cq_base_version_id :: "string option"
  cq_object_storage :: "ObjectStorageSource option"
  cq_state :: int
  cq_uid :: "string option"
  cq_trainer_mesh_id :: "string option"
  cq_version_number :: "int option"

record TrainerMesh =
  tr_mesh_id :: string
  tr_model_name :: string
  tr_generation :: nat
  tr_workers :: mesh_workers

record CreateTrainerMeshRequest =
  mq_model_name :: string
  mq_idempotency_key :: string
  mq_workers :: mesh_workers

record WorkerRegistration =
  wr_worker_id :: string
  wr_role :: int
  wr_model_name :: string
  wr_expires_at_unix_ms :: nat
  wr_refit_endpoint :: string

record WeightVersionShard =
  ws_version_id :: string
  ws_logical_shard_id :: string
  ws_worker_id :: string
  ws_stable_metadata_digest :: string
  ws_metadata_endpoint :: string
  ws_version_metadata_digest :: string

record DeleteWeightVersionShardRequest =
  dq_version_id :: string
  dq_logical_shard_id :: string
  dq_worker_id :: string

subsection \<open>Keys\<close>

definition mesh_key :: "string \<Rightarrow> string" where
  "mesh_key mesh_id = ''mx:refit:trainer-mesh:metadata:'' @ mesh_id"

definition mesh_versions_key :: "string \<Rightarrow> string" where
  "mesh_versions_key mesh_id = ''mx:refit:trainer-mesh:versions:'' @ mesh_id"

definition mesh_idempotency_key :: "string \<Rightarrow> string \<Rightarrow> string" where
  "mesh_idempotency_key model_name request_key =
     ''mx:refit:trainer-mesh-request:'' @ request_suffix model_name request_key"

definition version_key :: "string \<Rightarrow> string" where
  "version_key version_id = ''mx:refit:version:metadata:'' @ version_id"

definition shards_key :: "string \<Rightarrow> string" where
  "shards_key version_id = ''mx:refit:version:shards:'' @ version_id"

definition publication_endpoints_key :: "string \<Rightarrow> string" where
  "publication_endpoints_key version_id = ''mx:refit:version:publication-endpoints:'' @ version_id"

definition refit_worker_key :: "string \<Rightarrow> string" where
  "refit_worker_key worker_id = ''mx:refit:worker:'' @ worker_id"

definition leases_key :: "string \<Rightarrow> string" where
  "leases_key version_id = ''mx:refit:version:leases:'' @ version_id"

definition lease_key :: "string \<Rightarrow> string \<Rightarrow> string" where
  "lease_key version_id lease_id = ''mx:refit:version:lease:'' @ lease_suffix version_id lease_id"

definition idempotency_key :: "string \<Rightarrow> string \<Rightarrow> string" where
  "idempotency_key model_name request_key = ''mx:refit:version-request:'' @ request_suffix model_name request_key"

text \<open>The first four bytes of the digest of version and worker, in hexadecimal.\<close>

definition lease_id_of :: "(string \<Rightarrow> u8 list option) \<Rightarrow> string \<Rightarrow> string \<Rightarrow> string rresult" where
  "lease_id_of sha256 version_id worker_id =
     sum_bind (ok_or Internal (sha256 (version_id @ [CHR 0x00] @ worker_id)))
       (\<lambda>digest. Inr (concat (map show_byte (take 4 digest))))"

subsection \<open>Stored hashes\<close>

text \<open>The fields the creation script writes, and what the other scripts leave of them.\<close>

definition render_version :: "VersionHash option \<Rightarrow> hash_fields" where
  "render_version stored =
     (case stored of
        None \<Rightarrow> []
      | Some h \<Rightarrow>
          [(''uid'', vh_uid h), (''model_name'', vh_model_name h), (''idempotency_key'', vh_idempotency_key h),
           (''payload_format'', show_int (vh_payload_format h)), (''base_version_id'', vh_base_version_id h),
           (''s3_uri'', vh_s3_uri h), (''initial_state'', show_int (vh_initial_state h)),
           (''layout_signature'', vh_layout_signature h), (''state'', show_int (vh_state h)),
           (''created_at_unix_ms'', show_nat (vh_created_at h)), (''trainer_mesh_id'', vh_trainer_mesh_id h),
           (''trainer_mesh_generation'', show_nat (vh_trainer_mesh_generation h)),
           (''version_number'', vh_version_number h)])"

definition hash_field :: "hash_fields \<Rightarrow> string \<Rightarrow> string rresult" where
  "hash_field flds name = ok_or Internal (hm_get flds name)"

definition parse_hash_field :: "(string \<Rightarrow> 'a option) \<Rightarrow> hash_fields \<Rightarrow> string \<Rightarrow> 'a rresult" where
  "parse_hash_field parse flds name = sum_bind (hash_field flds name) (\<lambda>v. ok_or Internal (parse v))"

text \<open>\<^verbatim>\<open>fields.get(name).filter(|v| !v.is_empty())\<close>\<close>

definition nonempty_field :: "hash_fields \<Rightarrow> string \<Rightarrow> string option" where
  "nonempty_field flds name =
     (case hm_get flds name of Some v \<Rightarrow> if v = [] then None else Some v | None \<Rightarrow> None)"

definition version_from_hash :: "hash_fields \<Rightarrow> WeightVersion rresult" where
  "version_from_hash flds =
     sum_bind (hash_field flds ''uid'') (\<lambda>uid.
     sum_bind (hash_field flds ''model_name'') (\<lambda>model_name.
     sum_bind (hash_field flds ''idempotency_key'') (\<lambda>idempotency_key.
     sum_bind (parse_hash_field parse_i32 flds ''payload_format'') (\<lambda>payload_format.
     sum_bind (hash_field flds ''base_version_id'') (\<lambda>base.
     sum_bind (hash_field flds ''layout_signature'') (\<lambda>layout_signature.
     sum_bind (parse_hash_field parse_i32 flds ''state'') (\<lambda>state.
     sum_bind (parse_hash_field parse_u64 flds ''created_at_unix_ms'') (\<lambda>created_at.
     sum_bind (parse_hash_field parse_u64 flds ''trainer_mesh_generation'') (\<lambda>generation.
     sum_bind (case nonempty_field flds ''version_number'' of
                 None \<Rightarrow> Inr None
               | Some number \<Rightarrow> sum_bind (ok_or Internal (parse_i64 number)) (\<lambda>n. Inr (Some n))) (\<lambda>version_number.
     Inr \<lparr>wv_uid = uid, wv_model_name = model_name, wv_idempotency_key = idempotency_key,
           wv_payload_format = payload_format,
           wv_base_version_id = (if base = [] then None else Some base),
           wv_layout_signature = layout_signature, wv_state = state, wv_created_at_unix_ms = created_at,
           wv_object_storage = map_option (\<lambda>uri. \<lparr>os_uri = uri, os_storage_type = 1\<rparr>) (nonempty_field flds ''s3_uri''),
           wv_trainer_mesh_id = nonempty_field flds ''trainer_mesh_id'',
           wv_trainer_mesh_generation = generation, wv_version_number = version_number\<rparr>))))))))))"

definition mesh_from_hash :: "MeshHash \<Rightarrow> TrainerMesh" where
  "mesh_from_hash h = \<lparr>tr_mesh_id = mh_mesh_id h, tr_model_name = mh_model_name h, tr_generation = mh_generation h,
     tr_workers = mh_workers h\<rparr>"

text \<open>Equality of two hash maps, whatever their order.\<close>

definition hm_equal :: "('k, 'v) hash_map \<Rightarrow> ('k, 'v) hash_map \<Rightarrow> bool" where
  "hm_equal a b = (length a = length b \<and> list_all (\<lambda>(k, v). hm_get b k = Some v) a)"

subsection \<open>Reading versions and meshes\<close>

definition get_version_fields :: "RefitEnv \<Rightarrow> nat \<Rightarrow> string \<Rightarrow> RStore \<Rightarrow> hash_fields rresult \<times> RStore" where
  "get_version_fields env t uid s =
     (let s1 = re_act env t s; flds = render_version (rs_versions s1 uid)
      in if flds = [] then (Inl NotFound, s1) else (Inr flds, s1))"

definition get_weight_version :: "RefitEnv \<Rightarrow> nat \<Rightarrow> string \<Rightarrow> RStore \<Rightarrow> WeightVersion rresult \<times> RStore" where
  "get_weight_version env t uid s =
     (case get_version_fields env t uid s of
        (Inl e, s1) \<Rightarrow> (Inl e, s1)
      | (Inr flds, s1) \<Rightarrow> (version_from_hash flds, s1))"

definition transition_weight_version_state ::
  "RefitEnv \<Rightarrow> nat \<Rightarrow> string \<Rightarrow> int \<Rightarrow> RStore \<Rightarrow> WeightVersion rresult \<times> RStore" where
  "transition_weight_version_state env t uid state s =
     (case update_weight_version_state_lua uid state (re_act env t s) of
        (result, s1) \<Rightarrow>
          if result = ''OK'' then get_weight_version env (t + 1) uid s1
          else if result = ''VERSION_NOT_FOUND'' then (Inl NotFound, s1)
          else if result = ''INVALID_TRANSITION'' then (Inl FailedPrecondition, s1)
          else (Inl Internal, s1))"

definition get_trainer_mesh :: "RefitEnv \<Rightarrow> nat \<Rightarrow> string \<Rightarrow> RStore \<Rightarrow> TrainerMesh rresult \<times> RStore" where
  "get_trainer_mesh env t mesh_id s =
     (let s1 = re_act env t s
      in case rs_meshes s1 mesh_id of
           None \<Rightarrow> (Inl NotFound, s1)
         | Some h \<Rightarrow> (Inr (mesh_from_hash h), s1))"

text \<open>The registrations of a list of workers, one read after another.\<close>

fun read_registrations ::
  "RefitEnv \<Rightarrow> nat \<Rightarrow> string list \<Rightarrow> RStore \<Rightarrow> WorkerHash option list \<times> RStore" where
  "read_registrations env t [] s = ([], s)"
| "read_registrations env t (w # ws) s =
     (let s1 = re_act env t s; r = worker_at (re_now env t) s1 w;
          (rs, s2) = read_registrations env (t + 1) ws s1
      in (r # rs, s2))"

definition registration_fits ::
  "string \<Rightarrow> (string \<times> TrainerTensorsMetadata) \<times> WorkerHash option \<Rightarrow> bool" where
  "registration_fits model_name entry =
     (case entry of ((w, metadata), registration) \<Rightarrow>
        (case registration of
           None \<Rightarrow> False
         | Some r \<Rightarrow> wh_worker_id r = w \<and> wh_model_name r = model_name \<and> wh_role r = ROLE_TRAINER
                     \<and> wh_refit_endpoint r = tm_metadata_endpoint metadata))"

definition validate_trainer_mesh_workers ::
  "RefitEnv \<Rightarrow> nat \<Rightarrow> string \<Rightarrow> mesh_workers \<Rightarrow> RStore \<Rightarrow> unit rresult \<times> RStore" where
  "validate_trainer_mesh_workers env t model_name workers s =
     (case read_registrations env t (map fst workers) s of
        (registrations, s1) \<Rightarrow>
          (if list_all (registration_fits model_name) (zip workers registrations)
           then Inr () else Inl FailedPrecondition, s1))"

subsection \<open>Meshes\<close>

definition find_trainer_mesh_for_request ::
  "RefitEnv \<Rightarrow> nat \<Rightarrow> CreateTrainerMeshRequest \<Rightarrow> RStore \<Rightarrow> TrainerMesh option rresult \<times> RStore" where
  "find_trainer_mesh_for_request env t request s =
     (let s1 = re_act env t s
      in case rs_mesh_requests s1 (request_suffix (mq_model_name request) (mq_idempotency_key request)) of
           None \<Rightarrow> (Inr None, s1)
         | Some existing_id \<Rightarrow>
             (let s2 = re_act env (t + 1) s1
              in case rs_meshes s2 existing_id of
                   None \<Rightarrow> (Inl AlreadyExists, s2)
                 | Some h \<Rightarrow>
                     if mh_model_name h \<noteq> mq_model_name request
                        \<or> \<not> hm_equal (mh_initial_workers h) (mq_workers request)
                     then (Inl AlreadyExists, s2)
                     else (Inr (Some (mesh_from_hash h)), s2)))"

fun create_mesh_attempts ::
  "RefitEnv \<Rightarrow> (nat \<Rightarrow> string) \<Rightarrow> CreateTrainerMeshRequest \<Rightarrow> nat \<Rightarrow> nat \<Rightarrow> RStore \<Rightarrow> TrainerMesh rresult \<times> RStore" where
  "create_mesh_attempts env uuid request 0 t s = (Inl ResourceExhausted, s)"
| "create_mesh_attempts env uuid request (Suc n) t s =
     (let mesh_id = take 8 (uuid t); workers = mq_workers request
      in case create_trainer_mesh_lua (re_now env t) mesh_id
                (request_suffix (mq_model_name request) (mq_idempotency_key request)) (mq_model_name request)
                (sort (remdups (logical_shards_of workers))) workers (map fst workers) (re_act env t s) of
           (result, s1) \<Rightarrow>
             if result = ''CREATED'' then get_trainer_mesh env (t + 1) mesh_id s1
             else if starts_with ''EXISTING:'' result
             then (case find_trainer_mesh_for_request env (t + 1) request s1 of
                     (Inl e, s2) \<Rightarrow> (Inl e, s2)
                   | (Inr None, s2) \<Rightarrow> (Inl Internal, s2)
                   | (Inr (Some mesh), s2) \<Rightarrow> (Inr mesh, s2))
             else if result = ''WORKER_NOT_FOUND'' \<or> result = ''WORKER_MISMATCH''
             then (Inl FailedPrecondition, s1)
             else if result \<noteq> ''COLLISION'' then (Inl Internal, s1)
             else create_mesh_attempts env uuid request n (t + 1) s1)"

definition create_trainer_mesh ::
  "RefitEnv \<Rightarrow> (nat \<Rightarrow> string) \<Rightarrow> nat \<Rightarrow> CreateTrainerMeshRequest \<Rightarrow> RStore \<Rightarrow> TrainerMesh rresult \<times> RStore" where
  "create_trainer_mesh env uuid t request s = create_mesh_attempts env uuid request 5 t s"

definition update_trainer_mesh ::
  "RefitEnv \<Rightarrow> nat \<Rightarrow> string \<Rightarrow> nat \<Rightarrow> mesh_workers \<Rightarrow> RStore \<Rightarrow> TrainerMesh rresult \<times> RStore" where
  "update_trainer_mesh env t mesh_id expected_generation workers s =
     (case get_trainer_mesh env t mesh_id s of
        (Inl e, s1) \<Rightarrow> (Inl e, s1)
      | (Inr current, s1) \<Rightarrow>
          if tr_generation current \<noteq> expected_generation then (Inl FailedPrecondition, s1)
          else
            (case update_trainer_mesh_lua (re_now env (t + 1)) mesh_id expected_generation workers
                    (tr_model_name current) (map fst workers) (re_act env (t + 1) s1) of
               (result, s2) \<Rightarrow>
                 if result = ''UPDATED'' \<or> result = ''UNCHANGED'' then get_trainer_mesh env (t + 2) mesh_id s2
                 else if result = ''COVERAGE_MISMATCH'' then (Inl InvalidArgument, s2)
                 else if result = ''NOT_FOUND'' then (Inl NotFound, s2)
                 else if result = ''GENERATION_MISMATCH'' then (Inl FailedPrecondition, s2)
                 else if result = ''WORKER_NOT_FOUND'' \<or> result = ''WORKER_MISMATCH''
                 then (Inl FailedPrecondition, s2)
                 else if result = ''VERSION_LEASED'' then (Inl FailedPrecondition, s2)
                 else (Inl Internal, s2)))"

definition delete_trainer_mesh :: "RefitEnv \<Rightarrow> nat \<Rightarrow> string \<Rightarrow> RStore \<Rightarrow> unit rresult \<times> RStore" where
  "delete_trainer_mesh env t mesh_id s =
     (case delete_trainer_mesh_lua (re_now env t) mesh_id (re_act env t s) of
        (result, s1) \<Rightarrow>
          (if result = ''DELETED'' then Inr ()
           else if result = ''NOT_FOUND'' then Inl NotFound
           else if result = ''IN_USE'' then Inl FailedPrecondition
           else Inl Internal, s1))"

definition register_worker ::
  "RefitEnv \<Rightarrow> nat \<Rightarrow> WorkerRegistration \<Rightarrow> u32 \<Rightarrow> RStore \<Rightarrow> WorkerRegistration rresult \<times> RStore" where
  "register_worker env t worker ttl_seconds s =
     (case register_worker_lua (re_now env t) (wr_worker_id worker) (wr_role worker) (wr_model_name worker)
             (min (unat ttl_seconds * 1000) u64_max) (wr_refit_endpoint worker) (re_act env t s) of
        (result, s1) \<Rightarrow>
          if result = ''CONFLICT'' then (Inl AlreadyExists, s1)
          else (case strip_prefix ''OK:'' result of
                  None \<Rightarrow> (Inl Internal, s1)
                | Some text1 \<Rightarrow>
                    (case parse_u64 text1 of
                       None \<Rightarrow> (Inl Internal, s1)
                     | Some expires_at \<Rightarrow> (Inr (worker\<lparr>wr_expires_at_unix_ms := expires_at\<rparr>), s1))))"

subsection \<open>Versions\<close>

definition version_args :: "CreateWeightVersionRequest \<Rightarrow> string \<Rightarrow> nat \<Rightarrow> VersionArgs" where
  "version_args request uid now_unix_ms =
     (let or_empty = (\<lambda>v. case v of Some x \<Rightarrow> x | None \<Rightarrow> [])
      in \<lparr>va_uid = uid,
           va_request = request_suffix (cq_model_name request) (cq_idempotency_key request),
           va_model_name = cq_model_name request, va_idempotency_key = cq_idempotency_key request,
           va_payload_format = cq_payload_format request,
           va_base_version_id = or_empty (cq_base_version_id request),
           va_s3_uri = (case cq_object_storage request of Some source \<Rightarrow> os_uri source | None \<Rightarrow> []),
           va_state = cq_state request, va_created_at = now_unix_ms,
           va_trainer_mesh_id = or_empty (cq_trainer_mesh_id request),
           va_version_number = (case cq_version_number request of Some n \<Rightarrow> show_int n | None \<Rightarrow> [])\<rparr>)"

text \<open>\<open>clock\<close> is the wall clock of the server process at each call, or nothing when it does not fit.\<close>

definition create_version_once ::
  "RefitEnv \<Rightarrow> (nat \<Rightarrow> nat option) \<Rightarrow> nat \<Rightarrow> CreateWeightVersionRequest \<Rightarrow> string \<Rightarrow> RStore \<Rightarrow> string rresult \<times> RStore" where
  "create_version_once env clock t request uid s =
     (case clock t of
        None \<Rightarrow> (Inl Internal, s)
      | Some now_unix_ms \<Rightarrow>
          (case create_weight_version_lua (version_args request uid now_unix_ms) (re_act env t s) of
             (result, s1) \<Rightarrow> (Inr result, s1)))"

text \<open>Whether the version an idempotency key already names is the one the request asks for.\<close>

definition initial_state_of :: "hash_fields \<Rightarrow> int rresult" where
  "initial_state_of flds =
     (case hm_get flds ''initial_state'' of
        None \<Rightarrow> Inr STATE_STAGING
      | Some value \<Rightarrow> ok_or Internal (parse_i32 value))"

definition same_request :: "WeightVersion \<Rightarrow> int \<Rightarrow> CreateWeightVersionRequest \<Rightarrow> bool" where
  "same_request existing initial_state request =
     (wv_model_name existing = cq_model_name request
      \<and> wv_payload_format existing = cq_payload_format request
      \<and> wv_base_version_id existing = cq_base_version_id request
      \<and> wv_object_storage existing = cq_object_storage request
      \<and> wv_trainer_mesh_id existing = cq_trainer_mesh_id request
      \<and> wv_version_number existing = cq_version_number request
      \<and> initial_state = cq_state request)"

definition existing_version ::
  "RefitEnv \<Rightarrow> nat \<Rightarrow> CreateWeightVersionRequest \<Rightarrow> string \<Rightarrow> RStore \<Rightarrow> WeightVersion rresult \<times> RStore" where
  "existing_version env t request existing_uid s =
     (if (case cq_uid request of Some uid \<Rightarrow> uid \<noteq> existing_uid | None \<Rightarrow> False)
      then (Inl AlreadyExists, s)
      else
        (case get_version_fields env t existing_uid s of
           (Inl e, s1) \<Rightarrow> (Inl e, s1)
         | (Inr flds, s1) \<Rightarrow>
             (sum_bind (initial_state_of flds) (\<lambda>initial_state.
              sum_bind (version_from_hash flds) (\<lambda>existing.
              if same_request existing initial_state request then Inr existing else Inl AlreadyExists)), s1)))"

fun create_version_attempts ::
  "RefitEnv \<Rightarrow> (nat \<Rightarrow> string) \<Rightarrow> (nat \<Rightarrow> nat option) \<Rightarrow> CreateWeightVersionRequest \<Rightarrow> nat \<Rightarrow> nat \<Rightarrow> RStore
   \<Rightarrow> WeightVersion rresult \<times> RStore" where
  "create_version_attempts env uuid clock request 0 t s = (Inl ResourceExhausted, s)"
| "create_version_attempts env uuid clock request (Suc n) t s =
     (let uid = (case cq_uid request of Some uid \<Rightarrow> uid | None \<Rightarrow> take 8 (uuid t))
      in case create_version_once env clock t request uid s of
           (Inl e, s1) \<Rightarrow> (Inl e, s1)
         | (Inr result, s1) \<Rightarrow>
             if result = ''CREATED'' then get_weight_version env (t + 1) uid s1
             else (case strip_prefix ''EXISTING:'' result of
                     Some existing_uid \<Rightarrow> existing_version env (t + 1) request existing_uid s1
                   | None \<Rightarrow>
                       if result = ''COLLISION'' \<and> cq_uid request \<noteq> None then (Inl AlreadyExists, s1)
                       else if result = ''MESH_NOT_FOUND'' then (Inl NotFound, s1)
                       else if result = ''MESH_MODEL_MISMATCH'' then (Inl FailedPrecondition, s1)
                       else if result = ''MESH_GENERATION_MISSING'' then (Inl FailedPrecondition, s1)
                       else if result \<noteq> ''COLLISION'' then (Inl Internal, s1)
                       else create_version_attempts env uuid clock request n (t + 1) s1))"

definition create_weight_version ::
  "RefitEnv \<Rightarrow> (nat \<Rightarrow> string) \<Rightarrow> (nat \<Rightarrow> nat option) \<Rightarrow> nat \<Rightarrow> CreateWeightVersionRequest \<Rightarrow> RStore
   \<Rightarrow> WeightVersion rresult \<times> RStore" where
  "create_weight_version env uuid clock t request s =
     create_version_attempts env uuid clock request (if cq_uid request \<noteq> None then 1 else 5) t s"

fun read_versions :: "RefitEnv \<Rightarrow> nat \<Rightarrow> string list \<Rightarrow> RStore \<Rightarrow> hash_fields list \<times> RStore" where
  "read_versions env t [] s = ([], s)"
| "read_versions env t (uid # uids) s =
     (let s1 = re_act env t s; (records, s2) = read_versions env (t + 1) uids s1
      in (render_version (rs_versions s1 uid) # records, s2))"

fun collect_versions ::
  "string \<Rightarrow> string option \<Rightarrow> hash_fields list \<Rightarrow> (string, WeightVersion) hash_map \<Rightarrow> (string, WeightVersion) hash_map rresult" where
  "collect_versions model_name mesh [] versions = Inr versions"
| "collect_versions model_name mesh (flds # rest) versions =
     (if flds = [] then collect_versions model_name mesh rest versions
      else sum_bind (version_from_hash flds) (\<lambda>version.
        collect_versions model_name mesh rest
          (if wv_model_name version = model_name
              \<and> (case mesh of None \<Rightarrow> True | Some mesh_id \<Rightarrow> wv_trainer_mesh_id version = Some mesh_id)
           then hm_insert (wv_uid version) version versions else versions)))"

text \<open>\<open>scan\<close> stands for the ids of the keys the SCAN loop yields, in several pages and perhaps repeated.\<close>

definition list_weight_versions ::
  "RefitEnv \<Rightarrow> (nat \<Rightarrow> RStore \<Rightarrow> string list) \<Rightarrow> nat \<Rightarrow> string \<Rightarrow> string option \<Rightarrow> RStore \<Rightarrow> WeightVersion list rresult \<times> RStore" where
  "list_weight_versions env scan t model_name trainer_mesh_id s =
     (let s1 = re_act env t s;
          uids = (case trainer_mesh_id of Some mesh_id \<Rightarrow> rs_mesh_versions s1 mesh_id | None \<Rightarrow> scan t s1)
      in if uids = [] then (Inr [], s1)
         else (case read_versions env (t + 1) uids s1 of
                 (records, s2) \<Rightarrow>
                   (sum_bind (collect_versions model_name trainer_mesh_id records []) (\<lambda>versions.
                      Inr (rev (sort_key (\<lambda>v. (wv_created_at_unix_ms v, wv_uid v)) (hm_values versions)))), s2)))"

definition delete_weight_version :: "RefitEnv \<Rightarrow> nat \<Rightarrow> string \<Rightarrow> RStore \<Rightarrow> WeightVersion rresult \<times> RStore" where
  "delete_weight_version env t uid s = transition_weight_version_state env t uid STATE_RELEASING s"

definition update_weight_version_state ::
  "RefitEnv \<Rightarrow> nat \<Rightarrow> string \<Rightarrow> int \<Rightarrow> RStore \<Rightarrow> WeightVersion rresult \<times> RStore" where
  "update_weight_version_state env t uid state s =
     (case get_weight_version env t uid s of
        (Inl e, s1) \<Rightarrow> (Inl e, s1)
      | (Inr version, s1) \<Rightarrow>
          if wv_trainer_mesh_id version \<noteq> None then (Inl FailedPrecondition, s1)
          else transition_weight_version_state env (t + 1) uid state s1)"

subsection \<open>Shards\<close>

definition publication_refusal :: "string \<Rightarrow> RefitBackendError option" where
  "publication_refusal result =
     (if result = ''VERSION_NOT_FOUND'' then Some NotFound
      else if result = ''WORKER_NOT_FOUND'' then Some FailedPrecondition
      else if result = ''MODEL_MISMATCH'' then Some FailedPrecondition
      else if result = ''MESH_NOT_FOUND'' then Some FailedPrecondition
      else if result = ''MESH_GENERATION_MISSING'' \<or> result = ''MESH_GENERATION_MISMATCH'' then Some FailedPrecondition
      else if result = ''WORKER_NOT_TRAINER'' \<or> result = ''WORKER_NOT_IN_MESH'' \<or> result = ''WORKER_ENDPOINT_MISMATCH''
      then Some FailedPrecondition
      else if result = ''STABLE_METADATA_MISMATCH'' then Some FailedPrecondition
      else if result = ''VERSION_NOT_WRITABLE'' then Some FailedPrecondition
      else if result = ''SHARD_CONFLICT'' then Some AlreadyExists
      else None)"

definition weight_version_state_try_from :: "int \<Rightarrow> int option" where
  "weight_version_state_try_from i = (if i \<in> {0, 1, 2, 3} then Some i else None)"

definition create_weight_version_shard ::
  "RefitEnv \<Rightarrow> (WeightVersionShard \<Rightarrow> string) \<Rightarrow> nat \<Rightarrow> WeightVersionShard \<Rightarrow> RStore
   \<Rightarrow> (WeightVersionShard \<times> WeightVersion) rresult \<times> RStore" where
  "create_weight_version_shard env enc t shard s =
     (case get_weight_version env t (ws_version_id shard) s of
        (Inl e, s1) \<Rightarrow> (Inl e, s1)
      | (Inr version, s1) \<Rightarrow>
          (case create_weight_version_shard_lua (re_now env (t + 1)) (ws_version_id shard)
                  (case wv_trainer_mesh_id version of Some mesh_id \<Rightarrow> mesh_id | None \<Rightarrow> []) (enc shard)
                  (wv_model_name version) (ws_logical_shard_id shard) (ws_worker_id shard)
                  (ws_metadata_endpoint shard) (ws_stable_metadata_digest shard) (re_act env (t + 1) s1) of
             (result, s2) \<Rightarrow>
               (case publication_refusal result of
                  Some e \<Rightarrow> (Inl e, s2)
                | None \<Rightarrow>
                    (sum_bind (ok_or Internal (strip_prefix ''OK:'' result)) (\<lambda>text1.
                     sum_bind (ok_or Internal (parse_i32 text1)) (\<lambda>state.
                     sum_bind (ok_or Internal (weight_version_state_try_from state)) (\<lambda>_.
                     Inr (shard, version\<lparr>wv_state := state\<rparr>)))), s2))))"

fun read_endpoints :: "RefitEnv \<Rightarrow> nat \<Rightarrow> WeightVersionShard list \<Rightarrow> RStore \<Rightarrow> string option list \<times> RStore" where
  "read_endpoints env t [] s = ([], s)"
| "read_endpoints env t (shard # shards) s =
     (let s1 = re_act env t s; (rest, s2) = read_endpoints env (t + 1) shards s1
      in (map_option wh_refit_endpoint (worker_at (re_now env t) s1 (ws_worker_id shard)) # rest, s2))"

definition member_shard :: "mesh_workers \<Rightarrow> WeightVersionShard \<Rightarrow> bool" where
  "member_shard workers shard =
     (case hm_get workers (ws_worker_id shard) of
        None \<Rightarrow> False
      | Some metadata \<Rightarrow> tm_logical_shard_id metadata = ws_logical_shard_id shard
                         \<and> tm_metadata_endpoint metadata = ws_metadata_endpoint shard)"

definition registered_shard :: "mesh_workers \<Rightarrow> WeightVersionShard \<times> string option \<Rightarrow> bool" where
  "registered_shard workers entry =
     (case hm_get workers (ws_worker_id (fst entry)) of
        None \<Rightarrow> False
      | Some metadata \<Rightarrow> snd entry = Some (tm_metadata_endpoint metadata))"

definition sort_shards :: "WeightVersionShard list \<Rightarrow> WeightVersionShard list" where
  "sort_shards shards = sort_key (\<lambda>shard. (ws_logical_shard_id shard, ws_worker_id shard)) shards"

definition list_weight_version_shards ::
  "RefitEnv \<Rightarrow> (string \<Rightarrow> WeightVersionShard option) \<Rightarrow> nat \<Rightarrow> string \<Rightarrow> RStore \<Rightarrow> WeightVersionShard list rresult \<times> RStore" where
  "list_weight_version_shards env dec t version_id s =
     (case get_weight_version env t version_id s of
        (Inl e, s1) \<Rightarrow> (Inl e, s1)
      | (Inr version, s1) \<Rightarrow>
          (let s2 = re_act env (t + 1) s1
           in case collect_results (\<lambda>bytes. ok_or Internal (dec bytes)) (hm_values (rs_shards s2 version_id)) of
                Inl e \<Rightarrow> (Inl e, s2)
              | Inr shards \<Rightarrow>
                  (case wv_trainer_mesh_id version of
                     None \<Rightarrow> (Inr (sort_shards shards), s2)
                   | Some mesh_id \<Rightarrow>
                       (case get_trainer_mesh env (t + 2) mesh_id s2 of
                          (Inl e, s3) \<Rightarrow> (Inl e, s3)
                        | (Inr mesh, s3) \<Rightarrow>
                            (let members = filter (member_shard (tr_workers mesh)) shards
                             in case read_endpoints env (t + 3) members s3 of
                                  (endpoints, s4) \<Rightarrow>
                                    (Inr (sort_shards (map fst
                                       (filter (registered_shard (tr_workers mesh)) (zip members endpoints)))), s4))))))"

definition delete_weight_version_shard ::
  "RefitEnv \<Rightarrow> (string \<Rightarrow> WeightVersionShard option) \<Rightarrow> nat \<Rightarrow> DeleteWeightVersionShardRequest \<Rightarrow> RStore \<Rightarrow> bool rresult \<times> RStore" where
  "delete_weight_version_shard env dec t request s =
     (let key = publication_key (dq_worker_id request) (dq_logical_shard_id request); s1 = re_act env t s
      in case hm_get (rs_shards s1 (dq_version_id request)) key of
           None \<Rightarrow> (Inl NotFound, s1)
         | Some encoded \<Rightarrow>
             (case dec encoded of
                None \<Rightarrow> (Inl Internal, s1)
              | Some shard \<Rightarrow>
                  if ws_worker_id shard \<noteq> dq_worker_id request then (Inl FailedPrecondition, s1)
                  else
                    (case delete_weight_version_shard_lua (re_now env (t + 1)) (dq_version_id request)
                            (dq_worker_id request) key encoded (re_act env (t + 1) s1) of
                       (result, s2) \<Rightarrow>
                         (if result = ''DELETED'' then Inr True
                          else if result = ''VERSION_NOT_FOUND'' then Inl NotFound
                          else if result = ''WORKER_NOT_FOUND'' then Inl FailedPrecondition
                          else if result = ''SHARD_NOT_FOUND'' then Inl NotFound
                          else if result = ''SHARD_CONFLICT'' then Inl FailedPrecondition
                          else if result = ''VERSION_LEASED'' then Inl FailedPrecondition
                          else Inl Internal, s2))))"

subsection \<open>Leases\<close>

definition get_lease :: "RefitEnv \<Rightarrow> nat \<Rightarrow> string \<Rightarrow> string \<Rightarrow> RStore \<Rightarrow> LeaseRecord rresult \<times> RStore" where
  "get_lease env t version_id lease_id s =
     (let s1 = re_act env t s
      in (ok_or NotFound (lease_at (re_now env t) s1 (lease_suffix version_id lease_id)), s1))"

definition register_version_lease ::
  "RefitEnv \<Rightarrow> (string \<Rightarrow> u8 list option) \<Rightarrow> nat \<Rightarrow> string \<Rightarrow> string \<Rightarrow> u32 \<Rightarrow> RStore \<Rightarrow> LeaseRecord rresult \<times> RStore" where
  "register_version_lease env sha256 t version_id worker_id ttl_seconds s =
     (case get_weight_version env t version_id s of
        (Inl e, s1) \<Rightarrow> (Inl e, s1)
      | (Inr _, s1) \<Rightarrow>
     (case lease_id_of sha256 version_id worker_id of
        Inl e \<Rightarrow> (Inl e, s1)
      | Inr lease_id \<Rightarrow>
          (case register_version_lease_lua (re_now env (t + 1)) (lease_suffix version_id lease_id) lease_id version_id
                  worker_id (min (unat ttl_seconds * 1000) u64_max) (re_act env (t + 1) s1) of
             (result, s2) \<Rightarrow>
               if starts_with ''OK:'' result then get_lease env (t + 2) version_id lease_id s2
               else (Inl (if result = ''VERSION_NOT_FOUND'' then NotFound
                          else if result = ''VERSION_NOT_LEASEABLE'' then FailedPrecondition
                          else if result = ''WORKER_NOT_FOUND'' then FailedPrecondition
                          else if result = ''WORKER_NOT_GENERATOR'' then FailedPrecondition
                          else if result = ''MODEL_MISMATCH'' then FailedPrecondition
                          else if result = ''LEASE_CONFLICT'' then AlreadyExists
                          else Internal), s2))))"

definition delete_version_lease ::
  "RefitEnv \<Rightarrow> nat \<Rightarrow> string \<Rightarrow> string \<Rightarrow> string \<Rightarrow> RStore \<Rightarrow> bool rresult \<times> RStore" where
  "delete_version_lease env t version_id lease_id worker_id s =
     (case delete_version_lease_lua (re_now env t) (lease_suffix version_id lease_id) lease_id version_id worker_id
             (re_act env t s) of
        (result, s1) \<Rightarrow>
          (if result = ''DELETED'' then Inr True
           else if result = ''NOT_FOUND'' then Inr False
           else if result = ''LEASE_CONFLICT'' then Inl FailedPrecondition
           else Inl Internal, s1))"

end
