(* ===== verification/Refit_Service.thy ===== *)
theory Refit_Service
  imports Refit_Redis
begin

text \<open>
  The gRPC service of the refit control plane (\<^verbatim>\<open>refit/service.rs\<close>) and the check of tensor bindings
  (\<^verbatim>\<open>refit/coverage.rs\<close>): request validation, the mapping of backend errors to status codes and the
  handlers, over the Redis backend of \<^verbatim>\<open>Refit_Redis\<close>.

  What lies outside the server is collected in \<open>RefitDeps\<close>: the other replicas and the time of the Redis server
  (\<open>rd_env\<close>), generated UUIDs, the process clock, SHA-256, the wire form of shards, the pages of a SCAN, the
  trainer that answers for a binding, and the order in which concurrent checks finish. A status carries the code
  and not the text.
\<close>

datatype RefitStatus =
    StInvalidArgument | StNotFound | StFailedPrecondition | StAlreadyExists | StResourceExhausted | StInternal
  | StUnavailable | StRemote int

type_synonym 'a rpc_result = "RefitStatus + 'a"

subsection \<open>coverage.rs\<close>

record BoxCoverage =
  bc_shard_offset :: "u64 list"
  bc_shape :: "u64 list"

record TensorCoverage =
  tc_name :: string
  tc_dtype :: string
  tc_elsize :: u64
  tc_full_shape :: "u64 list"
  tc_shards :: "BoxCoverage list"

type_synonym BoundManifest = "TensorCoverage list"

text \<open>\<^verbatim>\<open>checked_mul\<close> and \<^verbatim>\<open>checked_add\<close> on \<^verbatim>\<open>u64\<close>\<close>

definition u64_checked_mul :: "u64 \<Rightarrow> u64 \<Rightarrow> u64 option" where
  "u64_checked_mul a b = (if unat a * unat b \<le> u64_max then Some (a * b) else None)"

definition u64_checked_add :: "u64 \<Rightarrow> u64 \<Rightarrow> u64 option" where
  "u64_checked_add a b = (if unat a + unat b \<le> u64_max then Some (a + b) else None)"

fun volume_from :: "u64 \<Rightarrow> u64 list \<Rightarrow> u64 rpc_result" where
  "volume_from v [] = Inr v"
| "volume_from v (extent # rest) =
     (if extent = 0 then Inl StInvalidArgument
      else sum_bind (ok_or StInvalidArgument (u64_checked_mul v extent)) (\<lambda>v'. volume_from v' rest))"

definition tensor_volume :: "u64 list \<Rightarrow> u64 rpc_result" where
  "tensor_volume shape = volume_from 1 shape"

fun add_boxes :: "u64 \<Rightarrow> BoxCoverage list \<Rightarrow> u64 \<Rightarrow> u64 rpc_result" where
  "add_boxes elsize [] total_bytes = Inr total_bytes"
| "add_boxes elsize (coverage # rest) total_bytes =
     sum_bind (tensor_volume (bc_shape coverage)) (\<lambda>v.
     sum_bind (ok_or StInvalidArgument (u64_checked_mul v elsize)) (\<lambda>bytes.
     sum_bind (ok_or StInvalidArgument (u64_checked_add total_bytes bytes)) (\<lambda>sum.
     add_boxes elsize rest sum)))"

fun add_tensors :: "BoundManifest \<Rightarrow> u64 \<Rightarrow> u64 rpc_result" where
  "add_tensors [] total_bytes = Inr total_bytes"
| "add_tensors (tensor # rest) total_bytes =
     sum_bind (add_boxes (tc_elsize tensor) (tc_shards tensor) total_bytes) (\<lambda>sum. add_tensors rest sum)"

definition sort_tensors :: "BoundManifest \<Rightarrow> BoundManifest" where
  "sort_tensors tensors =
     map (\<lambda>tensor. tensor\<lparr>tc_shards :=
            sort_key (\<lambda>b. (map unat (bc_shard_offset b), map unat (bc_shape b))) (tc_shards tensor)\<rparr>)
       (sort_key tc_name tensors)"

text \<open>
  The trainer behind an endpoint: whether the address is one, whether it accepts a connection, and its answer
  to a request for a digest, the stored metadata with its digest or a status of its own. With it go the digest
  and the JSON parser and printer.
\<close>

record BindingNet =
  bn_endpoint_ok :: "string \<Rightarrow> bool"
  bn_connects :: "string \<Rightarrow> bool"
  bn_metadata :: "string \<Rightarrow> string \<Rightarrow> int + (string \<times> string)"
  bn_sha256_hex :: "string \<Rightarrow> string option"
  bn_parse :: "string \<Rightarrow> BoundManifest option"
  bn_print :: "BoundManifest \<Rightarrow> string option"

definition validate_binding :: "BindingNet \<Rightarrow> TrainerTensorsMetadata \<Rightarrow> unit rpc_result" where
  "validate_binding net metadata =
     (let endpoint = ''http://'' @ tm_metadata_endpoint metadata; logical = tm_logical_shard_id metadata
      in if \<not> bn_endpoint_ok net endpoint then Inl StInvalidArgument
         else if \<not> bn_connects net endpoint then Inl StUnavailable
         else sum_bind (map_err StRemote (bn_metadata net endpoint logical)) (\<lambda>(bytes, answered).
              sum_bind (ok_or StInternal (bn_sha256_hex net bytes)) (\<lambda>digest.
              if answered \<noteq> logical \<or> digest \<noteq> logical then Inl StInvalidArgument
              else sum_bind (ok_or StInvalidArgument (bn_parse net bytes)) (\<lambda>manifest.
                   let tensors = sort_tensors manifest
                   in sum_bind (add_tensors tensors 0) (\<lambda>_.
                      sum_bind (ok_or StInvalidArgument (bn_print net tensors)) (\<lambda>canonical.
                      sum_bind (ok_or StInternal (bn_sha256_hex net canonical)) (\<lambda>coverage_digest.
                      if coverage_digest \<noteq> logical then Inl StInvalidArgument else Inr ())))))))"

subsection \<open>Validation\<close>

definition refit_required :: "string \<Rightarrow> unit rpc_result" where
  "refit_required value = (if trim value = [] then Inl StInvalidArgument else Inr ())"

definition validate_ttl :: "u32 \<Rightarrow> unit rpc_result" where
  "validate_ttl ttl_seconds = (if ttl_seconds = 0 then Inl StInvalidArgument else Inr ())"

fun check_members :: "mesh_workers \<Rightarrow> unit rpc_result" where
  "check_members [] = Inr ()"
| "check_members ((worker_id, metadata) # rest) =
     sum_bind (refit_required worker_id) (\<lambda>_.
     sum_bind (refit_required (tm_logical_shard_id metadata)) (\<lambda>_.
     sum_bind (refit_required (tm_metadata_endpoint metadata)) (\<lambda>_. check_members rest)))"

definition validate_mesh_members :: "mesh_workers \<Rightarrow> unit rpc_result" where
  "validate_mesh_members workers = (if workers = [] then Inl StInvalidArgument else check_members workers)"

text \<open>The checks run concurrently; the first failure to finish is returned.\<close>

definition validate_mesh_bindings ::
  "(TrainerTensorsMetadata \<Rightarrow> unit rpc_result) \<Rightarrow> (mesh_workers \<Rightarrow> mesh_workers) \<Rightarrow> mesh_workers \<Rightarrow> unit rpc_result" where
  "validate_mesh_bindings check finished workers =
     sum_bind (collect_results (\<lambda>(w, metadata). check metadata) (finished workers)) (\<lambda>_. Inr ())"

definition validate_s3_uri :: "string \<Rightarrow> unit rpc_result" where
  "validate_s3_uri uri =
     (if CHR ''?'' \<in> set uri \<or> CHR ''#'' \<in> set uri then Inl StInvalidArgument
      else (case strip_prefix ''s3://'' uri of
              None \<Rightarrow> Inl StInvalidArgument
            | Some location \<Rightarrow>
                (case split_once (CHR ''/'') location of
                   None \<Rightarrow> Inl StInvalidArgument
                 | Some (bucket, key) \<Rightarrow>
                     if trim bucket = [] \<or> trim key = [] \<or> starts_with ''/'' key then Inl StInvalidArgument
                     else Inr ())))"

datatype WeightPayloadFormat = FormatUnspecified | FullTensor | XorDelta | FullHfCheckpoint

definition payload_format_of :: "int \<Rightarrow> WeightPayloadFormat" where
  "payload_format_of i = (if i = 1 then FullTensor else if i = 2 then XorDelta else if i = 3 then FullHfCheckpoint
     else FormatUnspecified)"

definition validate_payload_format :: "CreateWeightVersionRequest \<Rightarrow> WeightPayloadFormat rpc_result" where
  "validate_payload_format request =
     (let payload_format = payload_format_of (cq_payload_format request);
          based = (cq_base_version_id request \<noteq> None);
          not_s3 = (case cq_object_storage request of None \<Rightarrow> True | Some source \<Rightarrow> os_storage_type source \<noteq> 1)
      in case payload_format of
           FullTensor \<Rightarrow> if based then Inl StInvalidArgument else Inr payload_format
         | XorDelta \<Rightarrow> if \<not> based then Inl StInvalidArgument else Inr payload_format
         | FullHfCheckpoint \<Rightarrow>
             if based then Inl StInvalidArgument else if not_s3 then Inl StInvalidArgument else Inr payload_format
         | FormatUnspecified \<Rightarrow> Inl StInvalidArgument)"

definition refit_required_opt :: "string option \<Rightarrow> unit rpc_result" where
  "refit_required_opt v = (case v of None \<Rightarrow> Inr () | Some x \<Rightarrow> refit_required x)"

definition validate_publication :: "CreateWeightVersionRequest \<Rightarrow> unit rpc_result" where
  "validate_publication request =
     sum_bind (refit_required_opt (cq_uid request)) (\<lambda>_.
     sum_bind (refit_required_opt (cq_trainer_mesh_id request)) (\<lambda>_.
     (case cq_object_storage request of
        Some source \<Rightarrow>
          if os_storage_type source \<noteq> 1 then Inl StInvalidArgument
          else sum_bind (refit_required (os_uri source)) (\<lambda>_.
               sum_bind (validate_s3_uri (os_uri source)) (\<lambda>_.
               if cq_trainer_mesh_id request \<noteq> None then Inl StInvalidArgument
               else if cq_state request \<noteq> STATE_STAGING \<and> cq_state request \<noteq> STATE_READY
               then Inl StInvalidArgument else Inr ()))
      | None \<Rightarrow>
          if cq_state request \<noteq> STATE_STAGING then Inl StInvalidArgument
          else if cq_trainer_mesh_id request = None then Inl StInvalidArgument
          else Inr ())))"

fun refit_status :: "RefitBackendError \<Rightarrow> RefitStatus" where
  "refit_status InvalidArgument = StInvalidArgument"
| "refit_status NotFound = StNotFound"
| "refit_status FailedPrecondition = StFailedPrecondition"
| "refit_status AlreadyExists = StAlreadyExists"
| "refit_status ResourceExhausted = StResourceExhausted"
| "refit_status Internal = StInternal"
| "refit_status Unavailable = StUnavailable"

subsection \<open>Handlers\<close>

record RefitDeps =
  rd_env :: RefitEnv
  rd_uuid :: "nat \<Rightarrow> string"
  rd_clock :: "nat \<Rightarrow> nat option"
  rd_sha256 :: "string \<Rightarrow> u8 list option"
  rd_enc :: "WeightVersionShard \<Rightarrow> string"
  rd_dec :: "string \<Rightarrow> WeightVersionShard option"
  rd_scan :: "nat \<Rightarrow> RStore \<Rightarrow> string list"
  rd_net :: BindingNet
  rd_finished :: "mesh_workers \<Rightarrow> mesh_workers"

type_synonym 'a handler = "nat \<Rightarrow> RStore \<Rightarrow> 'a rpc_result \<times> RStore"

text \<open>\<^verbatim>\<open>self.backend.method(..).await.map_err(backend_status)\<close>, and a check before the rest of a handler.\<close>

definition backend_call :: "'a rresult \<times> RStore \<Rightarrow> 'a rpc_result \<times> RStore" where
  "backend_call r = (map_err refit_status (fst r), snd r)"

definition checked :: "unit rpc_result \<Rightarrow> (RStore \<Rightarrow> 'a rpc_result \<times> RStore) \<Rightarrow> RStore \<Rightarrow> 'a rpc_result \<times> RStore" where
  "checked c rest s = (case c of Inl e \<Rightarrow> (Inl e, s) | Inr _ \<Rightarrow> rest s)"

definition create_trainer_mesh_rpc :: "RefitDeps \<Rightarrow> CreateTrainerMeshRequest \<Rightarrow> TrainerMesh handler" where
  "create_trainer_mesh_rpc d request t =
     checked (refit_required (mq_model_name request)) (checked (refit_required (mq_idempotency_key request))
     (checked (validate_mesh_members (mq_workers request)) (\<lambda>s.
       (case backend_call (find_trainer_mesh_for_request (rd_env d) t request s) of
          (Inl e, s1) \<Rightarrow> (Inl e, s1)
        | (Inr (Some mesh), s1) \<Rightarrow> (Inr mesh, s1)
        | (Inr None, s1) \<Rightarrow>
       (case backend_call (validate_trainer_mesh_workers (rd_env d) (t + 2) (mq_model_name request)
               (mq_workers request) s1) of
          (Inl e, s2) \<Rightarrow> (Inl e, s2)
        | (Inr _, s2) \<Rightarrow>
            checked (validate_mesh_bindings (validate_binding (rd_net d)) (rd_finished d) (mq_workers request)) (\<lambda>s2.
              backend_call (create_trainer_mesh (rd_env d) (rd_uuid d) (t + 2 + length (mq_workers request)) request s2)) s2)))))"

definition get_trainer_mesh_rpc :: "RefitDeps \<Rightarrow> string \<Rightarrow> TrainerMesh handler" where
  "get_trainer_mesh_rpc d mesh_id t =
     checked (refit_required mesh_id) (\<lambda>s. backend_call (get_trainer_mesh (rd_env d) t mesh_id s))"

definition update_trainer_mesh_rpc :: "RefitDeps \<Rightarrow> string \<Rightarrow> nat \<Rightarrow> mesh_workers \<Rightarrow> TrainerMesh handler" where
  "update_trainer_mesh_rpc d mesh_id expected_generation workers t =
     checked (refit_required mesh_id) (checked (validate_mesh_members workers) (\<lambda>s.
       (case backend_call (get_trainer_mesh (rd_env d) t mesh_id s) of
          (Inl e, s1) \<Rightarrow> (Inl e, s1)
        | (Inr current, s1) \<Rightarrow>
       if tr_generation current \<noteq> expected_generation then (Inl StFailedPrecondition, s1)
       else
       (case backend_call (validate_trainer_mesh_workers (rd_env d) (t + 1) (tr_model_name current) workers s1) of
          (Inl e, s2) \<Rightarrow> (Inl e, s2)
        | (Inr _, s2) \<Rightarrow>
            checked (validate_mesh_bindings (validate_binding (rd_net d)) (rd_finished d)
                       (filter (\<lambda>(w, metadata). hm_get (tr_workers current) w \<noteq> Some metadata) workers)) (\<lambda>s2.
              backend_call (update_trainer_mesh (rd_env d) (t + 1 + length workers) mesh_id expected_generation workers s2)) s2))))"

definition delete_trainer_mesh_rpc :: "RefitDeps \<Rightarrow> string \<Rightarrow> unit handler" where
  "delete_trainer_mesh_rpc d mesh_id t =
     checked (refit_required mesh_id) (\<lambda>s. backend_call (delete_trainer_mesh (rd_env d) t mesh_id s))"

definition register_worker_rpc :: "RefitDeps \<Rightarrow> WorkerRegistration option \<Rightarrow> u32 \<Rightarrow> WorkerRegistration handler" where
  "register_worker_rpc d worker ttl_seconds t s =
     (case worker of
        None \<Rightarrow> (Inl StInvalidArgument, s)
      | Some worker \<Rightarrow>
          checked (refit_required (wr_worker_id worker)) (checked (refit_required (wr_model_name worker))
          (checked (if wr_role worker \<noteq> 1 \<and> wr_role worker \<noteq> 2 then Inl StInvalidArgument else Inr ())
          (checked (validate_ttl ttl_seconds) (\<lambda>s.
            backend_call (register_worker (rd_env d) t worker ttl_seconds s))))) s)"

definition create_weight_version_rpc :: "RefitDeps \<Rightarrow> CreateWeightVersionRequest \<Rightarrow> WeightVersion handler" where
  "create_weight_version_rpc d request t =
     checked (refit_required (cq_model_name request)) (checked (refit_required (cq_idempotency_key request)) (\<lambda>s.
       (case validate_payload_format request of
          Inl e \<Rightarrow> (Inl e, s)
        | Inr payload_format \<Rightarrow>
            checked (validate_publication request) (\<lambda>s.
              (case (cq_base_version_id request, payload_format) of
                 (Some base_version_id, XorDelta) \<Rightarrow>
                   (case backend_call (get_weight_version (rd_env d) t base_version_id s) of
                      (Inl e, s1) \<Rightarrow> (Inl e, s1)
                    | (Inr base, s1) \<Rightarrow>
                        if wv_model_name base \<noteq> cq_model_name request \<or> wv_state base \<noteq> STATE_READY
                        then (Inl StFailedPrecondition, s1)
                        else backend_call (create_weight_version (rd_env d) (rd_uuid d) (rd_clock d) (t + 1) request s1))
               | _ \<Rightarrow> backend_call (create_weight_version (rd_env d) (rd_uuid d) (rd_clock d) (t + 1) request s))) s)))"

definition get_weight_version_rpc :: "RefitDeps \<Rightarrow> string \<Rightarrow> WeightVersion handler" where
  "get_weight_version_rpc d uid t =
     checked (refit_required uid) (\<lambda>s. backend_call (get_weight_version (rd_env d) t uid s))"

definition update_weight_version_state_rpc :: "RefitDeps \<Rightarrow> string \<Rightarrow> int \<Rightarrow> WeightVersion handler" where
  "update_weight_version_state_rpc d uid state t =
     checked (refit_required uid)
     (checked (if weight_version_state_try_from state \<in> {None, Some 0} then Inl StInvalidArgument else Inr ()) (\<lambda>s.
       backend_call (update_weight_version_state (rd_env d) t uid state s)))"

definition delete_weight_version_rpc :: "RefitDeps \<Rightarrow> string \<Rightarrow> WeightVersion handler" where
  "delete_weight_version_rpc d uid t =
     checked (refit_required uid) (\<lambda>s. backend_call (delete_weight_version (rd_env d) t uid s))"

definition list_weight_versions_rpc :: "RefitDeps \<Rightarrow> string \<Rightarrow> string option \<Rightarrow> WeightVersion list handler" where
  "list_weight_versions_rpc d model_name trainer_mesh_id t =
     checked (refit_required model_name) (checked (refit_required_opt trainer_mesh_id) (\<lambda>s.
       backend_call (list_weight_versions (rd_env d) (rd_scan d) t model_name trainer_mesh_id s)))"

definition create_weight_version_shard_rpc ::
  "RefitDeps \<Rightarrow> WeightVersionShard option \<Rightarrow> (WeightVersionShard \<times> WeightVersion) handler" where
  "create_weight_version_shard_rpc d shard t s =
     (case shard of
        None \<Rightarrow> (Inl StInvalidArgument, s)
      | Some shard \<Rightarrow>
          checked (refit_required (ws_version_id shard)) (checked (refit_required (ws_logical_shard_id shard))
          (checked (refit_required (ws_worker_id shard)) (checked (refit_required (ws_stable_metadata_digest shard))
          (checked (refit_required (ws_metadata_endpoint shard)) (\<lambda>s.
            backend_call (create_weight_version_shard (rd_env d) (rd_enc d) t shard s)))))) s)"

definition list_weight_version_shards_rpc :: "RefitDeps \<Rightarrow> string \<Rightarrow> WeightVersionShard list handler" where
  "list_weight_version_shards_rpc d version_id t =
     checked (refit_required version_id) (\<lambda>s. backend_call (list_weight_version_shards (rd_env d) (rd_dec d) t version_id s))"

definition delete_weight_version_shard_rpc :: "RefitDeps \<Rightarrow> DeleteWeightVersionShardRequest \<Rightarrow> bool handler" where
  "delete_weight_version_shard_rpc d request t =
     checked (refit_required (dq_version_id request)) (checked (refit_required (dq_logical_shard_id request))
     (checked (refit_required (dq_worker_id request)) (\<lambda>s.
       backend_call (delete_weight_version_shard (rd_env d) (rd_dec d) t request s))))"

definition register_version_lease_rpc :: "RefitDeps \<Rightarrow> string \<Rightarrow> string \<Rightarrow> u32 \<Rightarrow> LeaseRecord handler" where
  "register_version_lease_rpc d version_id worker_id ttl_seconds t =
     checked (refit_required version_id) (checked (refit_required worker_id) (checked (validate_ttl ttl_seconds) (\<lambda>s.
       backend_call (register_version_lease (rd_env d) (rd_sha256 d) t version_id worker_id ttl_seconds s))))"

definition delete_version_lease_rpc :: "RefitDeps \<Rightarrow> string \<Rightarrow> string \<Rightarrow> string \<Rightarrow> bool handler" where
  "delete_version_lease_rpc d version_id lease_id worker_id t =
     checked (refit_required version_id) (checked (refit_required lease_id) (checked (refit_required worker_id) (\<lambda>s.
       backend_call (delete_version_lease (rd_env d) t version_id lease_id worker_id s))))"

end
