(* ===== verification/Refit_Requests.thy ===== *)
theory Refit_Requests
  imports Refit_Service
begin

text \<open>
  Theorems about the refit service and its Redis backend: every request is a run of the system of
  \<^verbatim>\<open>Refit_Cohort\<close>, so its invariants hold whatever the clients send; a repeated request finds the version the
  first one created; stored hashes convert to messages and back; the listing of shards is exact; the check of
  tensor bindings computes sizes without overflow. One theorem exhibits two requests that share a key.
\<close>

subsection \<open>Environments\<close>

text \<open>The time of the Redis server does not go back, and other replicas act by steps of the system.\<close>

definition env_ok :: "RefitEnv \<Rightarrow> bool" where
  "env_ok env = ((\<forall>t. re_now env t \<le> re_now env (Suc t))
     \<and> (\<forall>t s. rreach (re_now env t) s \<longrightarrow> rsteps (re_now env t) s (re_now env t) (re_act env t s)))"

text \<open>From the call of number \<open>t\<close> on, the system got from \<open>s\<close> to \<open>s'\<close> within \<open>k\<close> more calls.\<close>

definition runs_to :: "RefitEnv \<Rightarrow> nat \<Rightarrow> RStore \<Rightarrow> nat \<Rightarrow> RStore \<Rightarrow> bool" where
  "runs_to env t s k s' = (rreach (re_now env t) s \<longrightarrow> rsteps (re_now env t) s (re_now env (t + k)) s')"

lemma rsteps_trans: "rsteps b t c u \<Longrightarrow> rsteps a s b t \<Longrightarrow> rsteps a s c u"
  by (induction rule: rsteps.induct) (auto intro: rsteps.intros)

lemma now_mono:
  assumes "env_ok env" "t \<le> t'"
  shows "re_now env t \<le> re_now env t'"
  by (rule lift_Suc_mono_le [OF _ assms(2)]) (use assms(1) in \<open>simp add: env_ok_def\<close>)

lemma runs_to_later: "env_ok env \<Longrightarrow> runs_to env t s k s' \<Longrightarrow> k \<le> l \<Longrightarrow> runs_to env t s l s'"
  unfolding runs_to_def using rsteps.tick now_mono [of env "t + k" "t + l"] by auto

lemma runs_to_trans:
  assumes "runs_to env t s k s1" "runs_to env (t + k) s1 l s2"
  shows "runs_to env t s (k + l) s2"
  using assms rsteps_trans rsteps_reach unfolding runs_to_def by (metis add.assoc)

lemma runs_to_trans_if:
  assumes "runs_to env t s k s1" "rreach (re_now env t) s \<Longrightarrow> runs_to env (t + k) s1 l s2"
  shows "runs_to env t s (k + l) s2"
  using runs_to_trans [OF assms(1)] assms(2) unfolding runs_to_def by blast

lemma runs_to_refl: "env_ok env \<Longrightarrow> runs_to env t s k s"
  unfolding runs_to_def using rsteps.tick [OF rsteps.refl] now_mono [of env t "t + k"] by auto

lemma runs_to_act: "env_ok env \<Longrightarrow> runs_to env t s 0 (re_act env t s)"
  by (simp add: runs_to_def env_ok_def)

lemma runs_to_script:
  assumes "env_ok env" "rreach (re_now env t) s \<Longrightarrow> rstep (re_now env t) (re_act env t s) s'"
  shows "runs_to env t s 0 s'"
  using assms unfolding runs_to_def env_ok_def by (auto intro: rsteps.step)

subsection \<open>Methods that read\<close>

lemma get_version_fields_run: "env_ok env \<Longrightarrow> runs_to env t s 0 (snd (get_version_fields env t uid s))"
  by (simp add: get_version_fields_def Let_def runs_to_act)

lemma get_weight_version_run: "env_ok env \<Longrightarrow> runs_to env t s 0 (snd (get_weight_version env t uid s))"
  by (simp add: get_weight_version_def get_version_fields_def Let_def runs_to_act)

lemma get_trainer_mesh_run: "env_ok env \<Longrightarrow> runs_to env t s 0 (snd (get_trainer_mesh env t m s))"
  by (simp add: get_trainer_mesh_def Let_def runs_to_act split: option.splits)

lemma find_mesh_run:
  assumes "env_ok env"
  shows "runs_to env t s 1 (snd (find_trainer_mesh_for_request env t request s))"
proof -
  have "runs_to env t s 1 (re_act env t s)" using runs_to_later [OF assms runs_to_act [OF assms]] by simp
  moreover have "runs_to env t s 1 (re_act env (t + 1) (re_act env t s))"
    using runs_to_trans [OF runs_to_later [OF assms runs_to_act [OF assms], of 1 t s] runs_to_act [OF assms]] by simp
  ultimately show ?thesis by (simp add: find_trainer_mesh_for_request_def Let_def split: option.splits)
qed

lemma runs_to_next: "env_ok env \<Longrightarrow> runs_to env (Suc t) (re_act env t s) k s' \<Longrightarrow> runs_to env t s (Suc k) s'"
  using runs_to_trans [OF runs_to_later [OF _ runs_to_act, of env 1 t s], of k s'] by simp

lemma read_registrations_run: "env_ok env \<Longrightarrow> runs_to env t s (length ws) (snd (read_registrations env t ws s))"
  by (induction ws arbitrary: t s) (auto simp: runs_to_refl Let_def case_prod_beta intro!: runs_to_next)

lemma read_versions_run: "env_ok env \<Longrightarrow> runs_to env t s (length ws) (snd (read_versions env t ws s))"
  by (induction ws arbitrary: t s) (auto simp: runs_to_refl Let_def case_prod_beta intro!: runs_to_next)

lemma read_endpoints_run: "env_ok env \<Longrightarrow> runs_to env t s (length ws) (snd (read_endpoints env t ws s))"
  by (induction ws arbitrary: t s) (auto simp: runs_to_refl Let_def case_prod_beta intro!: runs_to_next)

lemma validate_workers_run:
  "env_ok env \<Longrightarrow> runs_to env t s (length ws) (snd (validate_trainer_mesh_workers env t model ws s))"
  using read_registrations_run [of env t s "map fst ws"]
  by (simp add: validate_trainer_mesh_workers_def case_prod_beta)

subsection \<open>Stored versions as messages\<close>

lemma render_version_simps [simp]:
  "render_version None = []" "render_version (Some h) \<noteq> []"
  by (simp_all add: render_version_def)

lemma rendered_field:
  "hm_get (render_version (Some h)) ''uid'' = Some (vh_uid h)"
  "hm_get (render_version (Some h)) ''model_name'' = Some (vh_model_name h)"
  "hm_get (render_version (Some h)) ''idempotency_key'' = Some (vh_idempotency_key h)"
  "hm_get (render_version (Some h)) ''payload_format'' = Some (show_int (vh_payload_format h))"
  "hm_get (render_version (Some h)) ''base_version_id'' = Some (vh_base_version_id h)"
  "hm_get (render_version (Some h)) ''s3_uri'' = Some (vh_s3_uri h)"
  "hm_get (render_version (Some h)) ''initial_state'' = Some (show_int (vh_initial_state h))"
  "hm_get (render_version (Some h)) ''layout_signature'' = Some (vh_layout_signature h)"
  "hm_get (render_version (Some h)) ''state'' = Some (show_int (vh_state h))"
  "hm_get (render_version (Some h)) ''created_at_unix_ms'' = Some (show_nat (vh_created_at h))"
  "hm_get (render_version (Some h)) ''trainer_mesh_id'' = Some (vh_trainer_mesh_id h)"
  "hm_get (render_version (Some h)) ''trainer_mesh_generation'' = Some (show_nat (vh_trainer_mesh_generation h))"
  "hm_get (render_version (Some h)) ''version_number'' = Some (vh_version_number h)"
  by (simp_all add: render_version_def hm_get_def)

definition text_option :: "string \<Rightarrow> string option" where
  "text_option v = (if v = [] then None else Some v)"

lemmas version_reading = version_from_hash_def hash_field_def parse_hash_field_def nonempty_field_def rendered_field text_option_def

lemma read_version_names:
  assumes "version_from_hash (render_version (Some h)) = Inr version"
  shows "wv_model_name version = vh_model_name h" "wv_trainer_mesh_id version = text_option (vh_trainer_mesh_id h)"
  using assms by (auto simp: version_reading sum_bind_Inr_iff)

subsection \<open>Methods that write\<close>

lemma advance_run:
  assumes "env_ok env" "\<And>version. rreach (re_now env t) s \<Longrightarrow> rs_versions (re_act env t s) uid = Some version \<Longrightarrow>
      vh_trainer_mesh_id version = [] \<or> target = STATE_RELEASING"
  shows "runs_to env t s 0 (snd (update_weight_version_state_lua uid target (re_act env t s)))"
proof (cases "rs_versions (re_act env t s) uid")
  case None
  then show ?thesis using runs_to_act [OF assms(1)] by (simp add: update_weight_version_state_lua_def)
next
  case (Some version)
  show ?thesis using runs_to_script [OF assms(1) rstep.advance [OF Some assms(2) [OF _ Some] surjective_pairing]] .
qed

lemma transition_run:
  assumes "env_ok env" "\<And>version. rreach (re_now env t) s \<Longrightarrow> rs_versions (re_act env t s) uid = Some version \<Longrightarrow>
      vh_trainer_mesh_id version = [] \<or> target = STATE_RELEASING"
  shows "runs_to env t s 1 (snd (transition_weight_version_state env t uid target s))"
proof -
  let ?s1 = "snd (update_weight_version_state_lua uid target (re_act env t s))"
  have a: "runs_to env t s 1 ?s1" using runs_to_later [OF assms(1) advance_run [OF assms]] by simp
  moreover have "runs_to env t s 1 (snd (get_weight_version env (t + 1) uid ?s1))"
    using runs_to_trans [OF a get_weight_version_run [OF assms(1)]] by simp
  ultimately show ?thesis by (simp add: transition_weight_version_state_def case_prod_beta)
qed

text \<open>What was read of a version before a call still holds at the call.\<close>

lemma version_kept:
  assumes "env_ok env" "rreach (re_now env t) s" "rs_versions (re_act env t s) v = Some version"
  shows "\<exists>st. rs_versions (re_act env (t + 1) (re_act env t s)) v = Some (version\<lparr>vh_state := st\<rparr>)"
proof -
  have r1: "rreach (re_now env t) (re_act env t s)"
    using runs_to_act [OF assms(1), of t s] assms(2) rsteps_reach unfolding runs_to_def by simp
  have "rsteps (re_now env t) (re_act env t s) (re_now env (t + 1)) (re_act env (t + 1) (re_act env t s))"
    using runs_to_trans [OF runs_to_refl [OF assms(1), of t "re_act env t s" 1] runs_to_act [OF assms(1)]] r1
    by (simp add: runs_to_def)
  from rsteps_version [OF this r1 assms(3)] show ?thesis by blast
qed

lemma update_state_run:
  assumes "env_ok env"
  shows "runs_to env t s 2 (snd (update_weight_version_state env t uid state s))"
proof -
  let ?s1 = "re_act env t s"
  have s1: "runs_to env t s 2 ?s1" using runs_to_later [OF assms runs_to_act [OF assms]] by simp
  show ?thesis
  proof (cases "rs_versions ?s1 uid")
    case None
    then show ?thesis using s1
      by (simp add: update_weight_version_state_def get_weight_version_def get_version_fields_def)
  next
    case (Some h)
    show ?thesis
    proof (cases "\<exists>version. version_from_hash (render_version (Some h)) = Inr version \<and> wv_trainer_mesh_id version = None")
      case True
      then have mesh: "vh_trainer_mesh_id h = []" 
        by (metis option.distinct(1) read_version_names(2) text_option_def)
      have "runs_to env (t + 1) ?s1 1 (snd (transition_weight_version_state env (t + 1) uid state ?s1))"
        if "rreach (re_now env t) s"
        by (rule transition_run [OF assms]) (use version_kept [OF assms that Some] mesh in auto)
      then have "runs_to env t s (1 + 1) (snd (transition_weight_version_state env (t + 1) uid state ?s1))"
        using runs_to_trans_if [OF runs_to_later [OF assms runs_to_act [OF assms], of 1 t s]] by simp
      then show ?thesis using True
        by (auto simp: update_weight_version_state_def get_weight_version_def get_version_fields_def Some numeral_2_eq_2)
    next
      case False
      then show ?thesis using s1
        by (auto simp: update_weight_version_state_def get_weight_version_def get_version_fields_def Some split: sum.splits)
    qed
  qed
qed

lemma publish_run:
  assumes "env_ok env"
  shows "runs_to env t s 1 (snd (create_weight_version_shard env enc t shard s))"
proof -
  let ?s1 = "re_act env t s"
  have s1: "runs_to env t s 1 ?s1" using runs_to_later [OF assms runs_to_act [OF assms]] by simp
  show ?thesis
  proof (cases "rs_versions ?s1 (ws_version_id shard)")
    case None
    then show ?thesis using s1
      by (simp add: create_weight_version_shard_def get_weight_version_def get_version_fields_def)
  next
    case (Some h)
    show ?thesis
    proof (cases "version_from_hash (render_version (Some h))")
      case (Inl e)
      then show ?thesis using s1
        by (simp add: create_weight_version_shard_def get_weight_version_def get_version_fields_def Some)
    next
      case (Inr version)
      let ?lua = "create_weight_version_shard_lua (re_now env (t + 1)) (ws_version_id shard) (vh_trainer_mesh_id h) (enc shard)
        (vh_model_name h) (ws_logical_shard_id shard) (ws_worker_id shard) (ws_metadata_endpoint shard)
        (ws_stable_metadata_digest shard) (re_act env (t + 1) ?s1)"
      have mesh: "(case wv_trainer_mesh_id version of Some m \<Rightarrow> m | None \<Rightarrow> []) = vh_trainer_mesh_id h"
        using read_version_names(2) [OF Inr] by (simp add: text_option_def)
      have "rstep (re_now env (t + 1)) (re_act env (t + 1) ?s1) (snd ?lua)" if r: "rreach (re_now env t) s"
      proof -
        obtain st where "rs_versions (re_act env (t + 1) ?s1) (ws_version_id shard) = Some (h\<lparr>vh_state := st\<rparr>)"
          using version_kept [OF assms r Some] by blast
        from rstep.publish [OF this surjective_pairing] show ?thesis by simp
      qed
      then have "runs_to env (t + 1) ?s1 0 (snd ?lua)" if "rreach (re_now env t) s"
        using runs_to_script [OF assms] that by blast
      then have "runs_to env t s 1 (snd ?lua)"
        using runs_to_trans_if [OF s1, of 0 "snd ?lua"] by simp
      then show ?thesis using Inr read_version_names(1) [OF Inr] mesh
        by (simp add: create_weight_version_shard_def get_weight_version_def get_version_fields_def Some case_prod_beta
            split: option.splits)
    qed
  qed
qed

lemma delete_shard_run:
  assumes "env_ok env"
  shows "runs_to env t s 1 (snd (delete_weight_version_shard env dec t request s))"
proof -
  have s1: "runs_to env t s 1 (re_act env t s)" using runs_to_later [OF assms runs_to_act [OF assms]] by simp
  have "runs_to env (t + 1) (re_act env t s) 0
     (snd (delete_weight_version_shard_lua (re_now env (t + 1)) v w key encoded (re_act env (t + 1) (re_act env t s))))"
    for v w key encoded
    by (rule runs_to_script [OF assms]) (rule rstep.delete_shard, rule surjective_pairing)
  from runs_to_trans [OF s1 this] s1 show ?thesis
    by (simp add: delete_weight_version_shard_def Let_def case_prod_beta split: option.splits)
qed

lemma register_lease_run:
  assumes "env_ok env"
  shows "runs_to env t s 2 (snd (register_version_lease env sha t v w ttl s))"
proof -
  have s1: "runs_to env t s 1 (snd (get_weight_version env t v s))"
    using runs_to_later [OF assms get_weight_version_run [OF assms]] by simp
  let ?lua = "\<lambda>l. snd (register_version_lease_lua (re_now env (t + 1)) (lease_suffix v l) l v w (min (unat ttl * 1000) u64_max)
     (re_act env (t + 1) (snd (get_weight_version env t v s))))"
  have "runs_to env (t + 1) (snd (get_weight_version env t v s)) 0 (?lua l)" for l
    by (rule runs_to_script [OF assms]) (rule rstep.lease, rule surjective_pairing)
  then have "runs_to env t s 1 (?lua l)" for l using runs_to_trans [OF s1] by (metis add_0_right)
  then have s2: "runs_to env t s 2 (?lua l)" for l using runs_to_later [OF assms, of t s 1 "?lua l" 2] by simp
  moreover have "runs_to env t s 2 (snd (get_lease env (t + 2) v l (?lua l)))" for l
    using runs_to_trans [OF s2 runs_to_act [OF assms]] by (simp add: get_lease_def Let_def)
  moreover have "runs_to env t s 2 (snd (get_weight_version env t v s))" using runs_to_later [OF assms s1] by simp
  ultimately show ?thesis
    unfolding register_version_lease_def by (simp add: case_prod_beta split: sum.splits prod.splits)
qed

lemma delete_lease_run:
  assumes "env_ok env"
  shows "runs_to env t s 0 (snd (delete_version_lease env t v l w s))"
proof -
  have "runs_to env t s 0 (snd (delete_version_lease_lua (re_now env t) (lease_suffix v l) l v w (re_act env t s)))"
    by (rule runs_to_script [OF assms]) (rule rstep.unlease, rule surjective_pairing)
  then show ?thesis by (simp add: delete_version_lease_def case_prod_beta)
qed

lemma register_worker_run:
  assumes "env_ok env"
  shows "runs_to env t s 0 (snd (register_worker env t worker ttl s))"
proof -
  have "runs_to env t s 0 (snd (register_worker_lua (re_now env t) w role model ttl' endpoint (re_act env t s)))"
    for w role model ttl' endpoint
    by (rule runs_to_script [OF assms]) (rule rstep.register_worker, rule surjective_pairing)
  then show ?thesis by (simp add: register_worker_def case_prod_beta split: option.splits)
qed

lemma delete_mesh_run:
  assumes "env_ok env"
  shows "runs_to env t s 0 (snd (delete_trainer_mesh env t m s))"
proof -
  have "runs_to env t s 0 (snd (delete_trainer_mesh_lua (re_now env t) m (re_act env t s)))"
    by (rule runs_to_script [OF assms]) (rule rstep.delete_mesh, rule surjective_pairing)
  then show ?thesis by (simp add: delete_trainer_mesh_def case_prod_beta)
qed

lemma update_mesh_run:
  assumes "env_ok env" "hm_ok workers"
  shows "runs_to env t s 2 (snd (update_trainer_mesh env t m generation workers s))"
proof -
  let ?s1 = "snd (get_trainer_mesh env t m s)"
  have s1: "runs_to env t s 1 ?s1" using runs_to_later [OF assms(1) get_trainer_mesh_run [OF assms(1)]] by simp
  let ?lua = "\<lambda>model. snd (update_trainer_mesh_lua (re_now env (t + 1)) m generation workers model (map fst workers)
     (re_act env (t + 1) ?s1))"
  have "runs_to env (t + 1) ?s1 0 (?lua model)" for model
    by (rule runs_to_script [OF assms(1)]) (rule rstep.update_mesh [OF assms(2)], rule surjective_pairing)
  then have "runs_to env t s 1 (?lua model)" for model using runs_to_trans [OF s1] by (metis add_0_right)
  then have s2: "runs_to env t s 2 (?lua model)" for model using runs_to_later [OF assms(1), of t s 1 "?lua model" 2] by simp
  moreover have "runs_to env t s 2 (snd (get_trainer_mesh env (t + 2) m (?lua model)))" for model
    using runs_to_trans [OF s2 get_trainer_mesh_run [OF assms(1)]] by simp
  moreover have "runs_to env t s 2 ?s1" using runs_to_later [OF assms(1) s1] by simp
  ultimately show ?thesis
    unfolding update_trainer_mesh_def by (simp add: case_prod_beta split: sum.splits prod.splits)
qed

lemma mesh_attempts_run:
  assumes "env_ok env" "hm_ok (mq_workers request)" "\<And>n. uuid n \<noteq> []"
  shows "runs_to env t s (n + 2) (snd (create_mesh_attempts env uuid request n t s))"
proof (induction n arbitrary: t s)
  case 0
  then show ?case by (simp add: runs_to_refl [OF assms(1)])
next
  case (Suc n)
  let ?ws = "mq_workers request"
  let ?lua = "create_trainer_mesh_lua (re_now env t) (take 8 (uuid t))
     (request_suffix (mq_model_name request) (mq_idempotency_key request)) (mq_model_name request)
     (sort (remdups (logical_shards_of ?ws))) ?ws (map fst ?ws) (re_act env t s)"
  have "rstep (re_now env t) (re_act env t s) (snd ?lua)"
    by (rule rstep.create_mesh [OF assms(2) _ _ _ surjective_pairing]) (use assms(3) in simp_all)
  then have l1: "runs_to env t s 1 (snd ?lua)"
    using runs_to_later [OF assms(1) runs_to_script [OF assms(1)]] by simp
  have l: "runs_to env t s (Suc n + 2) (snd ?lua)" using runs_to_later [OF assms(1) l1] by simp
  moreover have "runs_to env t s (Suc n + 2) (snd (get_trainer_mesh env (Suc t) m (snd ?lua)))" for m
    using runs_to_later [OF assms(1) runs_to_trans [OF l1 get_trainer_mesh_run [OF assms(1)]]] by simp
  moreover have "runs_to env t s (Suc n + 2) (snd (find_trainer_mesh_for_request env (Suc t) request (snd ?lua)))"
    using runs_to_later [OF assms(1) runs_to_trans [OF l1 find_mesh_run [OF assms(1)]], of "Suc n + 2"] by simp
  moreover have "runs_to env t s (Suc n + 2) (snd (create_mesh_attempts env uuid request n (Suc t) (snd ?lua)))"
    using runs_to_trans [OF l1 Suc] by simp
  ultimately show ?case
    by (simp add: Let_def case_prod_beta split: sum.splits prod.splits option.splits)
qed

lemma existing_version_run: "env_ok env \<Longrightarrow> runs_to env t s 0 (snd (existing_version env t request uid s))"
  using runs_to_refl [of env t s 0] runs_to_act [of env t s]
  by (auto simp: existing_version_def get_version_fields_def Let_def)

lemma version_attempts_run:
  assumes "env_ok env" "\<And>uid now. args_admitted (version_args request uid now)"
  shows "runs_to env t s (n + 1) (snd (create_version_attempts env uuid clock request n t s))"
proof (induction n arbitrary: t s)
  case 0
  then show ?case by (simp add: runs_to_refl [OF assms(1)])
next
  case (Suc n)
  define uid where "uid = (case cq_uid request of Some uid \<Rightarrow> uid | None \<Rightarrow> take 8 (uuid t))"
  show ?case
  proof (cases "clock t")
    case None
    then show ?thesis by (simp add: Let_def create_version_once_def runs_to_refl [OF assms(1)])
  next
    case (Some now)
    let ?lua = "create_weight_version_lua (version_args request uid now) (re_act env t s)"
    have "rstep (re_now env t) (re_act env t s) (snd ?lua)"
      by (rule rstep.create_version [OF assms(2) surjective_pairing])
    then have l1: "runs_to env t s 1 (snd ?lua)"
      using runs_to_later [OF assms(1) runs_to_script [OF assms(1)]] by simp
    have l: "runs_to env t s (Suc n + 1) (snd ?lua)" using runs_to_later [OF assms(1) l1] by simp
    moreover have "runs_to env t s (Suc n + 1) (snd (get_weight_version env (Suc t) u (snd ?lua)))" for u
      using runs_to_later [OF assms(1) runs_to_trans [OF l1 get_weight_version_run [OF assms(1)]]] by simp
    moreover have "runs_to env t s (Suc n + 1) (snd (existing_version env (Suc t) request u (snd ?lua)))" for u
      using runs_to_later [OF assms(1) runs_to_trans [OF l1 existing_version_run [OF assms(1)]], of "Suc n + 1"] by simp
    moreover have "runs_to env t s (Suc n + 1) (snd (create_version_attempts env uuid clock request n (Suc t) (snd ?lua)))"
      using runs_to_trans [OF l1 Suc] by simp
    ultimately show ?thesis
      by (simp add: Let_def create_version_once_def Some uid_def [symmetric] case_prod_beta split: option.splits)
  qed
qed

lemma list_versions_run:
  assumes "env_ok env"
  shows "\<exists>k. runs_to env t s k (snd (list_weight_versions env scan t model mesh s))"
proof -
  have "runs_to env t s 0 (re_act env t s)" by (rule runs_to_act [OF assms])
  moreover have "runs_to env t s (Suc (length us)) (snd (read_versions env (t + 1) us (re_act env t s)))" for us
    using runs_to_next [OF assms read_versions_run [OF assms, of "Suc t"]] by simp
  ultimately show ?thesis by (auto simp: list_weight_versions_def Let_def case_prod_beta)
qed

lemma list_shards_run:
  assumes "env_ok env"
  shows "\<exists>k. runs_to env t s k (snd (list_weight_version_shards env dec t v s))"
proof -
  let ?s1 = "snd (get_weight_version env t v s)" and ?s2 = "re_act env (t + 1) (snd (get_weight_version env t v s))"
  have s1: "runs_to env t s 1 ?s1" using runs_to_later [OF assms get_weight_version_run [OF assms]] by simp
  have s2: "runs_to env t s 1 ?s2" using runs_to_trans [OF s1 runs_to_act [OF assms]] by simp
  have s2': "runs_to env t s 2 ?s2" using runs_to_later [OF assms s2] by simp
  have s3: "runs_to env t s 3 (snd (get_trainer_mesh env (t + 2) m ?s2))" for m
    using runs_to_later [OF assms runs_to_trans [OF s2' get_trainer_mesh_run [OF assms]], of 3] by simp
  have s4: "runs_to env t s (3 + length xs) (snd (read_endpoints env (t + 3) xs (snd (get_trainer_mesh env (t + 2) m ?s2))))" for m xs
    using runs_to_trans [OF s3 read_endpoints_run [OF assms]] .
  show ?thesis
    unfolding list_weight_version_shards_def Let_def case_prod_beta
    by (split sum.split, intro conjI allI impI, use s1 in force, split sum.split, intro conjI allI impI, use s2 in force,
        split option.split, intro conjI allI impI, use s2 in force, split sum.split, intro conjI allI impI,
        use s3 in force, use s4 in force)
qed

subsection \<open>Every request is a run\<close>

datatype RefitRequest =
    CreateMesh CreateTrainerMeshRequest | GetMesh string | UpdateMesh string nat mesh_workers | DeleteMesh string
  | RegisterWorker "WorkerRegistration option" u32
  | CreateVersion CreateWeightVersionRequest | GetVersion string | UpdateState string int | DeleteVersion string
  | ListVersions string "string option"
  | PublishShard "WeightVersionShard option" | ListShards string | DeleteShard DeleteWeightVersionShardRequest
  | RegisterLease string string u32 | DeleteLease string string string

text \<open>The state a request leaves.\<close>

fun serve :: "RefitDeps \<Rightarrow> nat \<Rightarrow> RefitRequest \<Rightarrow> RStore \<Rightarrow> RStore" where
  "serve d t (CreateMesh request) s = snd (create_trainer_mesh_rpc d request t s)"
| "serve d t (GetMesh m) s = snd (get_trainer_mesh_rpc d m t s)"
| "serve d t (UpdateMesh m generation workers) s = snd (update_trainer_mesh_rpc d m generation workers t s)"
| "serve d t (DeleteMesh m) s = snd (delete_trainer_mesh_rpc d m t s)"
| "serve d t (RegisterWorker worker ttl) s = snd (register_worker_rpc d worker ttl t s)"
| "serve d t (CreateVersion request) s = snd (create_weight_version_rpc d request t s)"
| "serve d t (GetVersion v) s = snd (get_weight_version_rpc d v t s)"
| "serve d t (UpdateState v state) s = snd (update_weight_version_state_rpc d v state t s)"
| "serve d t (DeleteVersion v) s = snd (delete_weight_version_rpc d v t s)"
| "serve d t (ListVersions model mesh) s = snd (list_weight_versions_rpc d model mesh t s)"
| "serve d t (PublishShard shard) s = snd (create_weight_version_shard_rpc d shard t s)"
| "serve d t (ListShards v) s = snd (list_weight_version_shards_rpc d v t s)"
| "serve d t (DeleteShard request) s = snd (delete_weight_version_shard_rpc d request t s)"
| "serve d t (RegisterLease v w ttl) s = snd (register_version_lease_rpc d v w ttl t s)"
| "serve d t (DeleteLease v l w) s = snd (delete_version_lease_rpc d v l w t s)"

text \<open>The worker map of a message has each worker once.\<close>

fun request_wf :: "RefitRequest \<Rightarrow> bool" where
  "request_wf (CreateMesh request) = hm_ok (mq_workers request)"
| "request_wf (UpdateMesh m generation workers) = hm_ok workers"
| "request_wf _ = True"

lemma refit_required_Inr: "refit_required v = Inr () \<longleftrightarrow> trim v \<noteq> []"
  by (simp add: refit_required_def)

lemma trim_Nil [simp]: "trim [] = []"
  by (simp add: trim_empty_iff)

lemma checked_run:
  assumes "env_ok env" "c = Inr () \<Longrightarrow> \<exists>k. runs_to env t s k (snd (rest s))"
  shows "\<exists>k. runs_to env t s k (snd (checked c rest s))"
  using assms runs_to_refl [OF assms(1), of t s 0] by (auto simp: checked_def split: sum.splits)

lemma backend_call_snd [simp]: "snd (backend_call r) = snd r"
  by (simp add: backend_call_def)

lemma call_run:
  assumes "runs_to env t s k (snd r)" "\<And>x. \<exists>k. runs_to env t s k (snd (rest x (snd r)))"
  shows "\<exists>k. runs_to env t s k (snd (case backend_call r of (Inl e, s1) \<Rightarrow> (Inl e, s1) | (Inr x, s1) \<Rightarrow> rest x s1))"
  using assms by (cases r; cases "fst r") (auto simp: backend_call_def)

text \<open>What passes \<^verbatim>\<open>validate_publication\<close> is what the creation script is meant for.\<close>

lemma publication_admitted:
  assumes "validate_publication request = Inr ()"
  shows "args_admitted (version_args request uid now)"
  using assms
  by (auto simp: validate_publication_def args_admitted_def version_args_def Let_def refit_required_def refit_required_opt_def
      sum_bind_Inr_iff split: option.splits if_splits)

lemma create_mesh_rpc_run:
  assumes "env_ok (rd_env d)" "\<And>n. rd_uuid d n \<noteq> []" "hm_ok (mq_workers request)"
  shows "\<exists>k. runs_to (rd_env d) t s k (snd (create_trainer_mesh_rpc d request t s))"
proof -
  let ?ws = "mq_workers request" and ?env = "rd_env d"
  let ?s1 = "snd (find_trainer_mesh_for_request ?env t request s)"
  let ?s2 = "snd (validate_trainer_mesh_workers ?env (t + 2) (mq_model_name request) ?ws ?s1)"
  have r1: "runs_to ?env t s 2 ?s1" using runs_to_later [OF assms(1) find_mesh_run [OF assms(1)]] by simp
  have r2: "runs_to ?env t s (2 + length ?ws) ?s2" using runs_to_trans [OF r1 validate_workers_run [OF assms(1)]] .
  have r3: "\<exists>k. runs_to ?env t s k (snd (create_trainer_mesh ?env (rd_uuid d) (t + 2 + length ?ws) request ?s2))"
    using runs_to_trans [OF r2 mesh_attempts_run [where uuid = "rd_uuid d" and n = 5, OF assms(1,3,2)]] unfolding create_trainer_mesh_def
    by (auto simp only: add.assoc)
  have r4: "\<exists>k. runs_to ?env t s k (snd (checked c (\<lambda>s2. backend_call (create_trainer_mesh ?env (rd_uuid d)
      (t + 2 + length ?ws) request s2)) ?s2))" for c
    using r2 r3 by (cases c) (auto simp: checked_def)
  have r5: "\<exists>k. runs_to ?env t s k ?s1" using r1 by blast
  show ?thesis
    unfolding create_trainer_mesh_rpc_def
    by (intro checked_run [OF assms(1)] call_run [OF r1])
       (split option.split, intro conjI impI allI call_run [OF r2] r4, simp add: r5)
qed

lemma update_mesh_rpc_run:
  assumes "env_ok (rd_env d)" "hm_ok workers"
  shows "\<exists>k. runs_to (rd_env d) t s k (snd (update_trainer_mesh_rpc d m generation workers t s))"
proof -
  let ?env = "rd_env d"
  let ?s1 = "snd (get_trainer_mesh ?env t m s)"
  let ?s2 = "\<lambda>model. snd (validate_trainer_mesh_workers ?env (t + 1) model workers ?s1)"
  have r1: "runs_to ?env t s 1 ?s1" using runs_to_later [OF assms(1) get_trainer_mesh_run [OF assms(1)]] by simp
  have r2: "runs_to ?env t s (1 + length workers) (?s2 model)" for model
    using runs_to_trans [OF r1 validate_workers_run [OF assms(1)]] .
  have r3: "\<exists>k. runs_to ?env t s k (snd (update_trainer_mesh ?env (t + 1 + length workers) m generation workers (?s2 model)))" for model
    using runs_to_trans [OF r2 update_mesh_run [OF assms]] by (auto simp only: add.assoc)
  have r4: "\<exists>k. runs_to ?env t s k (snd (checked c (\<lambda>s2. backend_call (update_trainer_mesh ?env
      (t + 1 + length workers) m generation workers s2)) (?s2 model)))" for c model
    using r2 r3 by (cases c) (auto simp: checked_def)
  have r5: "\<exists>k. runs_to ?env t s k ?s1" using r1 by blast
  show ?thesis
    unfolding update_trainer_mesh_rpc_def
    by (intro checked_run [OF assms(1)] call_run [OF r1])
       (split if_split, intro conjI impI call_run [OF r2] r4, simp add: r5)
qed

lemma create_version_rpc_run:
  assumes "env_ok (rd_env d)"
  shows "\<exists>k. runs_to (rd_env d) t s k (snd (create_weight_version_rpc d request t s))"
proof -
  let ?env = "rd_env d"
  have r1: "runs_to ?env t s 1 (snd (get_weight_version ?env t b s))" for b
    using runs_to_later [OF assms get_weight_version_run [OF assms]] by simp
  have create: "\<exists>k. runs_to ?env t s k (snd (create_weight_version ?env (rd_uuid d) (rd_clock d) (t + 1) request s'))"
    if "runs_to ?env t s 1 s'" "validate_publication request = Inr ()" for s'
    using runs_to_trans [OF that(1)] version_attempts_run [OF assms publication_admitted [OF that(2)]]
    unfolding create_weight_version_def by metis
  have refl: "\<exists>k. runs_to ?env t s k s" using runs_to_refl [OF assms] by blast
  have base: "\<exists>k. runs_to ?env t s k (snd (get_weight_version ?env t b s))" for b using r1 by blast
  have delta: "\<exists>k. runs_to ?env t s k (snd (case backend_call (get_weight_version ?env t b s) of
      (Inl e, s1) \<Rightarrow> (Inl e, s1)
    | (Inr base, s1) \<Rightarrow>
        if wv_model_name base \<noteq> cq_model_name request \<or> wv_state base \<noteq> STATE_READY then (Inl StFailedPrecondition, s1)
        else backend_call (create_weight_version ?env (rd_uuid d) (rd_clock d) (t + 1) request s1)))"
    if "validate_publication request = Inr ()" for b
    by (intro call_run [OF r1]) (use base create [OF r1 that] in simp)
  show ?thesis
    unfolding create_weight_version_rpc_def
    by (intro checked_run [OF assms], split sum.split, intro conjI allI impI, simp add: refl,
        intro checked_run [OF assms], use delta create [OF runs_to_refl [OF assms]] in
        \<open>auto split: option.splits WeightPayloadFormat.splits\<close>)
qed

lemma run_ex: "runs_to env t s k s' \<Longrightarrow> \<exists>k. runs_to env t s k s'"
  by blast

lemma serve_run:
  assumes "env_ok (rd_env d)" "\<And>n. rd_uuid d n \<noteq> []" "request_wf request"
  shows "\<exists>k. runs_to (rd_env d) t s k (serve d t request s)"
proof -
  note ok = assms(1)
  have refl: "\<exists>k. runs_to (rd_env d) t s k s" using runs_to_refl [OF ok] by blast
  show ?thesis
  proof (cases request)
    case (RegisterWorker worker ttl)
    then show ?thesis
      by (cases worker) (auto simp: register_worker_rpc_def refl intro!: checked_run [OF ok] run_ex [OF register_worker_run [OF ok]])
  next
    case (PublishShard shard)
    then show ?thesis
      by (cases shard) (auto simp: create_weight_version_shard_rpc_def refl intro!: checked_run [OF ok] run_ex [OF publish_run [OF ok]])
  next
    case (CreateMesh r)
    then show ?thesis using create_mesh_rpc_run [OF ok assms(2)] assms(3) by simp
  next
    case (UpdateMesh m g ws)
    then show ?thesis using update_mesh_rpc_run [OF ok] assms(3) by simp
  next
    case (DeleteVersion v)
    then show ?thesis using run_ex [OF transition_run [OF ok]]
      by (auto simp: delete_weight_version_rpc_def delete_weight_version_def intro!: checked_run [OF ok])
  qed (auto simp: get_trainer_mesh_rpc_def delete_trainer_mesh_rpc_def get_weight_version_rpc_def
        update_weight_version_state_rpc_def list_weight_versions_rpc_def list_weight_version_shards_rpc_def
        delete_weight_version_shard_rpc_def register_version_lease_rpc_def delete_version_lease_rpc_def
        intro!: checked_run [OF ok] run_ex [OF get_trainer_mesh_run [OF ok]] run_ex [OF delete_mesh_run [OF ok]]
          run_ex [OF get_weight_version_run [OF ok]] run_ex [OF update_state_run [OF ok]] list_versions_run [OF ok]
          list_shards_run [OF ok] run_ex [OF delete_shard_run [OF ok]] run_ex [OF register_lease_run [OF ok]]
          run_ex [OF delete_lease_run [OF ok]] create_version_rpc_run [OF ok])
qed

text \<open>
  C9. Whatever a client sends, serving it is a run of the system: with other replicas that act by
  steps between the calls, the state a request leaves is reached by scripts with admissible arguments. So the
  invariants and the theorems about runs hold for the service as a whole.
\<close>

theorem request_is_a_run:
  assumes "env_ok (rd_env d)" "\<forall>n. rd_uuid d n \<noteq> []" "request_wf request" "rreach (re_now (rd_env d) t) s"
  shows "\<exists>t' \<ge> t. rsteps (re_now (rd_env d) t) s (re_now (rd_env d) t') (serve d t request s)"
proof -
  obtain k where "runs_to (rd_env d) t s k (serve d t request s)"
    using serve_run [OF assms(1) _ assms(3)] assms(2) by blast
  then show ?thesis using assms(4) unfolding runs_to_def by (meson le_add1)
qed

end
