(* ===== verification/Refit_Lifecycle.thy ===== *)
theory Refit_Lifecycle
  imports Refit_Cohort
begin

text \<open>
  What the control plane for weight versions promises, over the reachable states of
  \<^verbatim>\<open>Refit_Cohort\<close>: when a version becomes READY, what a lease protects, how versions and meshes
  evolve, and that a request creates one version. The demonstration at the end registers two workers,
  forms a mesh, publishes and leases a version.
\<close>

subsection \<open>Publication\<close>

lemma mesh_version_not_ready_by_state:
  assumes "rstep now s s'" "refit_ok now s" "rs_versions s v = Some version" "vh_trainer_mesh_id version \<noteq> []"
    "vh_state version \<noteq> STATE_READY" "rs_versions s' v = Some version'" "vh_state version' = STATE_READY"
  obtains encoded shard w endpoint digest out where "starts_with ''OK:'' out"
    "create_weight_version_shard_lua now v (vh_trainer_mesh_id version) encoded (vh_model_name version)
       shard w endpoint digest s = (out, s')"
proof -
  note lok = refit_okD(3) [OF assms(2)]
  have changed: "rs_versions s' v \<noteq> rs_versions s v" using assms(3,5,6,7) by auto
  show ?thesis using assms(1)
  proof (cases rule: rstep.cases)
    case (create_version a out)
    from create_version(2) have False
      by (cases rule: create_version_effect) (use changed assms(3) in \<open>auto split: if_splits\<close>)
    then show ?thesis ..
  next
    case (publish u ver encoded shard w endpoint digest out)
    from publish(2) show ?thesis
    proof (cases rule: publish_effect)
      case (published ver' h metadata r)
      have "u = v" using publish_shard_fields(4) [OF published(14)] changed by (auto split: if_splits)
      moreover have "starts_with ''OK:'' out" using published(14)
        by (auto simp: publish_shard_def Let_def starts_with_iff split: if_splits)
      ultimately show ?thesis using that publish assms(3) by auto
    qed (use changed in simp)
  next
    case (advance u ver target out)
    have False using advance(3)
    proof (cases rule: advance_effect)
      case (moved ver')
      have "u = v" using moved(4) changed by (auto split: if_splits)
      then show False using moved advance(1,2) assms(3,4,6,7) by auto
    qed (use changed in simp)
    then show ?thesis ..
  qed (use changed step_frames update_mesh_frame [OF _ lok] delete_mesh_frame [OF _ lok] delete_shard_frame [OF _ lok] in \<open>metis\<close>)+
qed

lemma ready_covered:
  assumes "refit_ok now s" "rstep now s s'" "rs_versions s v = Some version" "vh_trainer_mesh_id version \<noteq> []"
    "vh_state version \<noteq> STATE_READY" "map_option vh_state (rs_versions s' v) = Some STATE_READY"
  shows "covered now s' v"
proof -
  obtain version' where v': "rs_versions s' v = Some version'" "vh_state version' = STATE_READY"
    using assms(6) by auto
  obtain encoded shard w endpoint digest out where p: "starts_with ''OK:'' out"
    "create_weight_version_shard_lua now v (vh_trainer_mesh_id version) encoded (vh_model_name version)
       shard w endpoint digest s = (out, s')"
    using mesh_version_not_ready_by_state [OF assms(2,1,3-5) v'] .
  from accepted_publication [OF assms(1,3) p(2,1)] show ?thesis
    using assms(5,6) by (auto split: if_splits)
qed

text \<open>
  C7. A version backed by a trainer mesh becomes READY only when its mesh is covered: whichever
  script makes it so, at that moment the mesh exists at the generation of the version, and every
  logical shard has a publication of a member whose registration is live, a trainer of the same model,
  and at the endpoint the mesh records.
\<close>

theorem ready_version_is_covered:
  assumes "rreach now s" "rstep now s s'" "rs_versions s v = Some version" "vh_trainer_mesh_id version \<noteq> []"
    and "vh_state version \<noteq> STATE_READY" "map_option vh_state (rs_versions s' v) = Some STATE_READY"
  shows "covered now s' v"
  using ready_covered [OF rreach_ok [OF assms(1)] assms(2-6)] .

text \<open>
  An accepted publication answers the state the version then has, and that state is READY
  exactly when the version was READY before or the publication completes the coverage of the mesh; the
  other fields of the version stay.
\<close>

theorem publication_completes_version:
  assumes "rreach now s" "rs_versions s v = Some version"
    and "create_weight_version_shard_lua now v (vh_trainer_mesh_id version) encoded (vh_model_name version)
           shard w endpoint digest s = (out, s')" "starts_with ''OK:'' out"
  shows "\<exists>st. out = ''OK:'' @ show_nat (nat st) \<and> rs_versions s' v = Some (version\<lparr>vh_state := st\<rparr>)
     \<and> st = (if vh_state version = STATE_READY \<or> covered now s' v then STATE_READY else STATE_STAGING)"
  using accepted_publication [OF rreach_ok [OF assms(1)] assms(2-4)] .

subsection \<open>Leases\<close>

text \<open>
  C8. While a version is leased, whatever the other replicas do, its published shards stay where
  they are, byte for byte, and its mesh keeps its generation and its workers.
\<close>

theorem leased_version_is_protected:
  assumes "rreach now s" "leased_run v now s now' s'" "rs_versions s v = Some version"
    and "hm_get (rs_shards s v) key = Some x" "\<not> unleased now s v"
  shows "hm_get (rs_shards s' v) key = Some x
    \<and> (vh_trainer_mesh_id version \<noteq> [] \<longrightarrow>
        (\<exists>h h'. rs_meshes s (vh_trainer_mesh_id version) = Some h \<and> rs_meshes s' (vh_trainer_mesh_id version) = Some h'
           \<and> mh_generation h' = mh_generation h \<and> mh_workers h' = mh_workers h))"
  using assms(2,1,3-5)
proof (induction rule: leased_run.induct)
  case (refl v now s)
  then show ?case using mesh_of_leased [OF rreach_ok [OF refl(1)] refl(2) _ refl(4)] by (auto simp: linked_def)
next
  case (step v now s now1 s1 s2)
  note run = leased_run_steps [OF step.hyps(1)]
  note ok = rreach_ok [OF rsteps_reach [OF run step.prems(1)]]
  obtain st where st: "rs_versions s1 v = Some (version\<lparr>vh_state := st\<rparr>)"
    using rsteps_version [OF run step.prems(1,2)] by blast
  show ?case using step.IH [OF step.prems] rstep_shards [OF step.hyps(3) ok st step.hyps(2)]
      rstep_leased_mesh [OF step.hyps(3) ok st step.hyps(2)] by fastforce
qed blast

subsection \<open>Versions and meshes over time\<close>

text \<open>
  C33. A version is never removed or rewritten: over every run its fields stay as they were created,
  but for the state, which only moves from STAGING over READY to RELEASING.
\<close>

theorem version_only_advances:
  assumes "rreach now s" "rsteps now s now' s'" "rs_versions s v = Some version"
  shows "\<exists>st. rs_versions s' v = Some (version\<lparr>vh_state := st\<rparr>) \<and> vh_state version \<le> st \<and> st \<in> {1, 2, 3}"
proof -
  obtain st where st: "rs_versions s' v = Some (version\<lparr>vh_state := st\<rparr>)" "vh_state version \<le> st"
    using rsteps_version [OF assms(2,1,3)] by blast
  have "st \<in> {1, 2, 3}"
    using refit_okD(2) [OF rreach_ok [OF rsteps_reach [OF assms(2,1)]] st(1)] by (simp add: version_ok_def)
  then show ?thesis using st by blast
qed

text \<open>
  A step that leaves a mesh in place keeps its model and the set of shards its workers serve,
  and it changes the workers only by moving the generation on by one.
\<close>

theorem mesh_update_keeps_coverage:
  assumes "rreach now s" "rstep now s s'" "rs_meshes s m = Some h" "rs_meshes s' m = Some h'"
  shows "mesh_succeeds h h' \<and> set (mh_logical_shards h') = set (logical_shards_of (mh_workers h'))"
  using rstep_mesh [OF assms(2) rreach_ok [OF assms(1)] assms(3,4)]
    refit_okD(1) [OF rreach_ok [OF rreach.step [OF assms(1,2)]] assms(4)]
  by (simp add: mesh_ok_def)

lemma outdated_kept:
  assumes "rstep now s s'" "rreach now s" "rs_versions s v = Some version" "vh_trainer_mesh_id version \<noteq> []"
    "vh_state version = STATE_STAGING" "rs_meshes s (vh_trainer_mesh_id version) = Some h"
    "vh_trainer_mesh_generation version < mh_generation h"
    "rs_versions s' v = Some (version\<lparr>vh_state := st\<rparr>)" "st \<noteq> STATE_RELEASING"
  shows "st = STATE_STAGING \<and> (\<exists>h'. rs_meshes s' (vh_trainer_mesh_id version) = Some h'
     \<and> vh_trainer_mesh_generation version < mh_generation h')"
proof -
  note ok = rreach_ok [OF assms(2)] and ok' = rreach_ok [OF rreach.step [OF assms(2,1)]]
  have vok: "version_ok now s' v (version\<lparr>vh_state := st\<rparr>)" using refit_okD(2) [OF ok' assms(8)] .
  then obtain h' where h': "rs_meshes s' (vh_trainer_mesh_id version) = Some h'"
    using assms(4,9) by (auto simp: version_ok_def linked_def)
  have gen: "mh_generation h \<le> mh_generation h'" using rstep_mesh [OF assms(1) ok assms(6) h'] by (auto simp: mesh_succeeds_def)
  have "st \<noteq> STATE_READY"
  proof
    assume r: "st = STATE_READY"
    then have "covered now s' v"
      using ready_covered [OF ok assms(1,3,4)] assms(5,8) by simp
    then show False using gen assms(7) h' by (simp add: covered_def assms(8))
  qed
  then show ?thesis using vok assms(9) h' gen assms(7) by (auto simp: version_ok_def)
qed

text \<open>
  C26. A version that is still staging when its mesh has moved to a newer generation never becomes
  READY: whatever happens later, it stays in STAGING until it is released.
\<close>

theorem outdated_version_never_ready:
  assumes "rsteps now s now' s'" "rreach now s" "rs_versions s v = Some version" "vh_trainer_mesh_id version \<noteq> []"
    and "vh_state version = STATE_STAGING" "rs_meshes s (vh_trainer_mesh_id version) = Some h"
    and "vh_trainer_mesh_generation version < mh_generation h"
  shows "map_option vh_state (rs_versions s' v) \<in> {Some STATE_STAGING, Some STATE_RELEASING}"
proof -
  have "\<exists>st. rs_versions s' v = Some (version\<lparr>vh_state := st\<rparr>) \<and> (st = STATE_RELEASING \<or> st = STATE_STAGING
     \<and> (\<exists>h'. rs_meshes s' (vh_trainer_mesh_id version) = Some h' \<and> vh_trainer_mesh_generation version < mh_generation h'))"
    using assms
  proof (induction rule: rsteps.induct)
    case (refl now s)
    then show ?case by (intro exI [of _ "vh_state version"]) auto
  next
    case (step now s now1 s1 s2)
    note reach = rsteps_reach [OF step.hyps(1) step.prems(1)]
    obtain st where st: "rs_versions s1 v = Some (version\<lparr>vh_state := st\<rparr>)" "st = STATE_RELEASING \<or> st = STATE_STAGING
       \<and> (\<exists>h'. rs_meshes s1 (vh_trainer_mesh_id version) = Some h' \<and> vh_trainer_mesh_generation version < mh_generation h')"
      using step.IH [OF step.prems] by blast
    obtain st2 where st2: "rs_versions s2 v = Some (version\<lparr>vh_state := st2\<rparr>)" "st \<le> st2"
      using rstep_version [OF step.hyps(2) rreach_ok [OF reach] st(1)] by auto
    have range: "st2 \<in> {STATE_STAGING, STATE_READY, STATE_RELEASING}"
      using refit_okD(2) [OF rreach_ok [OF rreach.step [OF reach step.hyps(2)]] st2(1)] by (simp add: version_ok_def)
    show ?case
    proof (cases "st2 = STATE_RELEASING")
      case False
      then have staging: "st = STATE_STAGING" using st(2) st2(2) range by auto
      then obtain h' where h': "rs_meshes s1 (vh_trainer_mesh_id version) = Some h'"
          "vh_trainer_mesh_generation version < mh_generation h'" using st(2) by auto
      from outdated_kept [OF step.hyps(2) reach st(1), of h' st2] show ?thesis
        using step.prems(3) staging h' st2(1) False by auto
    qed (use st2(1) in blast)
  qed blast
  then show ?thesis by auto
qed

text \<open>
  One request, one version: two stored versions of the same model that were created under the
  same idempotency key are the same version.
\<close>

theorem one_version_per_request:
  assumes "rreach now s" "rs_versions s u = Some a" "rs_versions s v = Some b"
    and "vh_model_name a = vh_model_name b" "vh_idempotency_key a = vh_idempotency_key b"
  shows "u = v"
  using refit_okD(2) [OF rreach_ok [OF assms(1)] assms(2)] refit_okD(2) [OF rreach_ok [OF assms(1)] assms(3)] assms(4,5)
  by (simp add: version_ok_def)

subsection \<open>A demonstration\<close>

definition demo_members :: mesh_workers where
  "demo_members = [(''w'', \<lparr>tm_logical_shard_id = ''l'', tm_metadata_endpoint = ''e''\<rparr>)]"

definition refit_demo_args :: "string \<Rightarrow> VersionArgs" where
  "refit_demo_args uid = \<lparr>va_uid = uid, va_request = request_suffix ''M'' uid, va_model_name = ''M'', va_idempotency_key = uid,
     va_payload_format = 1, va_base_version_id = [], va_s3_uri = [], va_state = STATE_STAGING, va_created_at = 0,
     va_trainer_mesh_id = ''m'', va_version_number = []\<rparr>"

definition demo_staged :: RStore where
  "demo_staged = snd (create_weight_version_lua (refit_demo_args ''v'')
     (snd (create_trainer_mesh_lua 0 ''m'' ''M:k'' ''M'' [''l''] demo_members (map fst demo_members)
     (snd (register_worker_lua 0 ''g'' ROLE_GENERATOR ''M'' 100 [] (snd (register_worker_lua 0 ''w'' ROLE_TRAINER ''M'' 100 ''e'' refit_init)))))))"

definition demo_ready :: RStore where
  "demo_ready = snd (create_weight_version_shard_lua 3 ''v'' ''m'' ''b'' ''M'' ''l'' ''w'' ''e'' ''d'' demo_staged)"

definition demo_leased :: RStore where
  "demo_leased = snd (register_version_lease_lua 4 (lease_suffix ''v'' ''c'') ''c'' ''v'' ''g'' 50 demo_ready)"

lemma demo_staged_reach: "rreach 0 demo_staged"
proof -
  have "rreach 0 (snd (register_worker_lua 0 ''g'' ROLE_GENERATOR ''M'' 100 [] (snd (register_worker_lua 0 ''w'' ROLE_TRAINER ''M'' 100 ''e'' refit_init))))"
    by (rule rreach.step [OF rreach.step [OF rreach.start]]) (rule rstep.register_worker, rule surjective_pairing)+
  then have "rreach 0 (snd (create_trainer_mesh_lua 0 ''m'' ''M:k'' ''M'' [''l''] demo_members (map fst demo_members)
     (snd (register_worker_lua 0 ''g'' ROLE_GENERATOR ''M'' 100 [] (snd (register_worker_lua 0 ''w'' ROLE_TRAINER ''M'' 100 ''e'' refit_init))))))"
    by (rule rreach.step)
       (rule rstep.create_mesh [OF _ _ _ _ surjective_pairing],
        simp_all add: demo_members_def logical_shards_of_def hm_ok_def)
  then show ?thesis unfolding demo_staged_def
    by (rule rreach.step) (rule rstep.create_version [OF _ surjective_pairing], simp add: args_admitted_def refit_demo_args_def)
qed

lemmas refit_demo_defs = demo_staged_def demo_ready_def demo_leased_def demo_members_def refit_demo_args_def
  create_weight_version_lua_def create_trainer_mesh_lua_def register_worker_lua_def refit_init_def Let_def worker_at_def
  hm_get_def

definition demo_version :: VersionHash where
  "demo_version = created_version (refit_demo_args ''v'') 1"

definition demo_mesh :: MeshHash where
  "demo_mesh = \<lparr>mh_mesh_id = ''m'', mh_model_name = ''M'', mh_generation = 1, mh_logical_shards = [''l''],
     mh_workers = demo_members, mh_initial_workers = demo_members, mh_stable_metadata = []\<rparr>"

lemma demo_staged_sel: "rs_versions demo_staged ''v'' = Some demo_version" "rs_meshes demo_staged ''m'' = Some demo_mesh"
    "rs_shards demo_staged ''v'' = []" "rs_endpoints demo_staged ''v'' = []"
    "rs_workers demo_staged ''w'' = Some \<lparr>wh_worker_id = ''w'', wh_role = 1, wh_model_name = ''M'', wh_refit_endpoint = ''e'', wh_expires_at = 100\<rparr>"
    "rs_workers demo_staged ''g'' = Some \<lparr>wh_worker_id = ''g'', wh_role = 2, wh_model_name = ''M'', wh_refit_endpoint = [], wh_expires_at = 100\<rparr>"
    "rs_lease_hashes demo_staged k = None"
  by (simp_all add: refit_demo_defs demo_version_def demo_mesh_def created_version_def)

lemma demo_published:
  "create_weight_version_shard_lua 3 ''v'' ''m'' ''b'' ''M'' ''l'' ''w'' ''e'' ''d'' demo_staged
   = (''OK:'' @ show_nat 2, demo_ready)"
  "rs_versions demo_ready ''v'' = Some (demo_version\<lparr>vh_state := STATE_READY\<rparr>)"
  "hm_get (rs_shards demo_ready ''v'') (publication_key ''w'' ''l'') = Some ''b''"
  "rs_workers demo_ready = rs_workers demo_staged" "rs_lease_hashes demo_ready = rs_lease_hashes demo_staged"
  "rs_meshes demo_ready ''m'' = Some (demo_mesh\<lparr>mh_stable_metadata := [(publication_key ''w'' ''l'', ''d'')]\<rparr>)"
proof -
  let ?d = "create_weight_version_shard_lua 3 ''v'' ''m'' ''b'' ''M'' ''l'' ''w'' ''e'' ''d'' demo_staged"
  have e: "?d = publish_shard 3 ''v'' ''m'' (publication_key ''w'' ''l'') ''b'' ''M'' ''e'' ''d'' demo_version demo_mesh demo_staged"
    by (simp add: create_weight_version_shard_lua_def demo_staged_sel worker_at_def demo_version_def created_version_def
        refit_demo_args_def demo_mesh_def demo_members_def hm_get_def Let_def)
  have r: "demo_ready = snd (publish_shard 3 ''v'' ''m'' (publication_key ''w'' ''l'') ''b'' ''M'' ''e'' ''d'' demo_version demo_mesh demo_staged)"
    by (simp only: demo_ready_def e)
  note eval = e publish_shard_def Let_def demo_mesh_def demo_members_def publication_live_def hm_simps
    worker_at_def demo_staged_sel hm_get_def [of "[]"] demo_version_def
  show "?d = (''OK:'' @ show_nat 2, demo_ready)" "rs_versions demo_ready ''v'' = Some (demo_version\<lparr>vh_state := STATE_READY\<rparr>)"
    "hm_get (rs_shards demo_ready ''v'') (publication_key ''w'' ''l'') = Some ''b''"
    "rs_workers demo_ready = rs_workers demo_staged" "rs_lease_hashes demo_ready = rs_lease_hashes demo_staged"
    "rs_meshes demo_ready ''m'' = Some (demo_mesh\<lparr>mh_stable_metadata := [(publication_key ''w'' ''l'', ''d'')]\<rparr>)"
    by (simp_all add: r) (simp_all add: eval, simp add: hm_insert_def)
qed

lemma demo_shards: "rs_shards demo_ready ''v'' = [(publication_key ''w'' ''l'', ''b'')]"
proof -
  from demo_published(1) show ?thesis
  proof (cases rule: publish_effect)
    case (published ver h metadata r)
    then show ?thesis using publish_shard_fields(1) [OF published(14)] by (simp add: demo_staged_sel hm_insert_def)
  qed (simp add: starts_with_def)
qed

lemma demo_ids: "vh_trainer_mesh_id demo_version = ''m''" "vh_model_name demo_version = ''M''" "vh_state demo_version = STATE_STAGING"
    "vh_trainer_mesh_generation demo_version = 1"
  by (simp_all add: demo_version_def created_version_def refit_demo_args_def)

lemma demo_publish_step: "rstep 3 demo_staged demo_ready"
  using rstep.publish [OF demo_staged_sel(1)] demo_published(1) demo_ids by metis

lemma demo_reach: "rreach 3 demo_staged" "rreach 3 demo_ready"
  using rreach.tick [OF demo_staged_reach] rreach.step [OF _ demo_publish_step] by auto

lemma demo_lease:
  "register_version_lease_lua 4 (lease_suffix ''v'' ''c'') ''c'' ''v'' ''g'' 50 demo_ready = (''OK:'' @ show_nat 54, demo_leased)"
  "rs_versions demo_leased ''v'' = Some (demo_version\<lparr>vh_state := STATE_READY\<rparr>)"
  "hm_get (rs_shards demo_leased ''v'') (publication_key ''w'' ''l'') = Some ''b''"
  "\<not> unleased 4 demo_leased ''v''"
  by (simp_all add: demo_leased_def register_version_lease_lua_def demo_published demo_staged_sel worker_at_def
      lease_at_def demo_ids Let_def unleased_def hm_simps exI [of _ "''c''"])

lemma demo_leased_reach: "rreach 4 demo_leased"
  by (rule rreach.step [OF rreach.tick [OF demo_reach(2)] rstep.lease [OF demo_lease(1)]]) simp

theorem ready_version_is_covered_witness: "covered 3 demo_ready ''v''"
  by (rule ready_version_is_covered [OF demo_reach(1) demo_publish_step demo_staged_sel(1)])
     (simp_all add: demo_ids demo_published)

theorem publication_completes_version_witness:
  "\<exists>st. ''OK:'' @ show_nat 2 = ''OK:'' @ show_nat (nat st) \<and> rs_versions demo_ready ''v'' = Some (demo_version\<lparr>vh_state := st\<rparr>)
     \<and> st = (if vh_state demo_version = STATE_READY \<or> covered 3 demo_ready ''v'' then STATE_READY else STATE_STAGING)"
  using publication_completes_version [OF demo_reach(1) demo_staged_sel(1) demo_published(1) [folded demo_ids(1,2)]]
  by (simp add: starts_with_def)

theorem leased_version_is_protected_witness:
  "hm_get (rs_shards (snd (delete_weight_version_shard_lua 4 ''v'' ''w'' (publication_key ''w'' ''l'') ''b'' demo_leased)) ''v'')
     (publication_key ''w'' ''l'') = Some ''b''"
proof -
  have "leased_run ''v'' 4 demo_leased 4
      (snd (delete_weight_version_shard_lua 4 ''v'' ''w'' (publication_key ''w'' ''l'') ''b'' demo_leased))"
    by (rule leased_run.step [OF leased_run.refl demo_lease(4)]) (rule rstep.delete_shard, rule surjective_pairing)
  from leased_version_is_protected [OF demo_leased_reach this demo_lease(2,3,4)] show ?thesis by blast
qed

theorem version_only_advances_witness:
  "\<exists>st. rs_versions demo_ready ''v'' = Some (demo_version\<lparr>vh_state := st\<rparr>) \<and> vh_state demo_version \<le> st \<and> st \<in> {1, 2, 3}"
  by (rule version_only_advances [OF demo_reach(1) rsteps.step [OF rsteps.refl demo_publish_step] demo_staged_sel(1)])

text \<open>The mesh takes in a second worker while a version of the first generation is staging.\<close>

definition demo_grown :: mesh_workers where
  "demo_grown = demo_members @ [(''x'', \<lparr>tm_logical_shard_id = ''l'', tm_metadata_endpoint = ''f''\<rparr>)]"

definition demo_joined :: RStore where
  "demo_joined = snd (register_worker_lua 3 ''x'' ROLE_TRAINER ''M'' 100 ''f'' demo_staged)"

definition demo_moved :: RStore where
  "demo_moved = snd (update_trainer_mesh_lua 3 ''m'' 1 demo_grown ''M'' (map fst demo_grown) demo_joined)"

lemma demo_joined_sel: "rs_versions demo_joined = rs_versions demo_staged" "rs_meshes demo_joined = rs_meshes demo_staged"
    "rs_leases demo_joined ''v'' = []" "rs_mesh_versions demo_joined ''m'' = [''v'']" "rs_shards demo_joined ''v'' = []"
    "worker_at 3 demo_joined ''w'' = worker_at 3 demo_staged ''w''"
    "worker_at 3 demo_joined ''x'' = Some \<lparr>wh_worker_id = ''x'', wh_role = 1, wh_model_name = ''M'', wh_refit_endpoint = ''f'', wh_expires_at = 103\<rparr>"
  by (simp_all add: demo_joined_def refit_demo_defs sadd_def)

lemma demo_moved_sel: "rs_versions demo_moved ''v'' = Some demo_version"
    "rs_meshes demo_moved ''m'' = Some (demo_mesh\<lparr>mh_workers := demo_grown, mh_generation := 2\<rparr>)"
proof -
  have e: "update_trainer_mesh_lua 3 ''m'' 1 demo_grown ''M'' (map fst demo_grown) demo_joined = (''UPDATED'', demo_moved)"
    "demo_moved = demo_joined\<lparr>rs_leases := (rs_leases demo_joined)(''v'' := []),
       rs_meshes := (rs_meshes demo_staged)(''m'' \<mapsto> demo_mesh\<lparr>mh_workers := demo_grown, mh_generation := 2, mh_stable_metadata := []\<rparr>)\<rparr>"
    by (simp_all add: demo_moved_def update_trainer_mesh_lua_def demo_joined_sel demo_staged_sel demo_mesh_def demo_grown_def
        demo_members_def coverage_differs_def logical_shards_of_def mesh_unchanged_def hm_get_def worker_at_def [of 3 demo_staged]
        removed_workers_def changed_workers_def retired_keys_def trim_leases_def Let_def numeral_2_eq_2)
  show "rs_versions demo_moved ''v'' = Some demo_version"
    "rs_meshes demo_moved ''m'' = Some (demo_mesh\<lparr>mh_workers := demo_grown, mh_generation := 2\<rparr>)"
    by (simp_all add: e(2) demo_joined_sel demo_staged_sel) (simp add: demo_mesh_def)
qed

lemma demo_moved_step: "rreach 3 demo_joined" "rstep 3 demo_joined demo_moved"
proof -
  show "rreach 3 demo_joined" unfolding demo_joined_def
    by (rule rreach.step [OF demo_reach(1)]) (rule rstep.register_worker, rule surjective_pairing)
  show "rstep 3 demo_joined demo_moved" unfolding demo_moved_def
    by (rule rstep.update_mesh [OF _ surjective_pairing]) (simp add: demo_grown_def demo_members_def hm_ok_def)
qed

theorem mesh_update_keeps_coverage_witness:
  "mesh_succeeds demo_mesh (demo_mesh\<lparr>mh_workers := demo_grown, mh_generation := 2\<rparr>)"
  using mesh_update_keeps_coverage [OF demo_moved_step, of "''m''"] by (simp add: demo_joined_sel demo_staged_sel demo_moved_sel)

theorem outdated_version_never_ready_witness:
  "map_option vh_state (rs_versions (snd (create_weight_version_shard_lua 3 ''v'' ''m'' ''b'' ''M'' ''l'' ''w'' ''e'' ''d'' demo_moved)) ''v'')
   \<in> {Some STATE_STAGING, Some STATE_RELEASING}"
proof -
  have "rstep 3 demo_moved (snd (create_weight_version_shard_lua 3 ''v'' ''m'' ''b'' ''M'' ''l'' ''w'' ''e'' ''d'' demo_moved))"
    using rstep.publish [OF demo_moved_sel(1)] demo_ids surjective_pairing by metis
  from outdated_version_never_ready [OF rsteps.step [OF rsteps.refl this] rreach.step [OF demo_moved_step] demo_moved_sel(1) _ _
      demo_moved_sel(2) [folded demo_ids(1)]] show ?thesis by (simp add: demo_ids)
qed

end
