(* ===== verification/Refit_Answers.thy ===== *)
theory Refit_Answers
  imports Refit_Requests Refit_Lifecycle "HOL-Library.Multiset"
begin

text \<open>
  What the refit service answers: the sizes it computes for a tensor binding, the messages it reads from stored
  hashes, the answer to a repeated request, the shards it lists, and the keys it uses. These theorems look at a
  single request while no other replica acts (\<open>quiet\<close>).
\<close>

definition quiet :: "nat \<Rightarrow> RefitEnv" where
  "quiet now = \<lparr>re_act = (\<lambda>t s. s), re_now = (\<lambda>t. now)\<rparr>"

lemma quiet_sel [simp]: "re_act (quiet now) t s = s" "re_now (quiet now) t = now"
  by (simp_all add: quiet_def)

lemma quiet_env_ok: "env_ok (quiet now)"
  by (simp add: env_ok_def rsteps.refl)

subsection \<open>Sizes of bindings\<close>

lemma u64_bound: "n \<le> u64_max \<longleftrightarrow> n < 2 ^ 64"
  unfolding u64_max_def by simp linarith

lemma u64_ex: "(\<exists>c :: u64. unat c = n \<and> P (unat c)) \<longleftrightarrow> n \<le> u64_max \<and> P n"
proof
  assume "\<exists>c :: u64. unat c = n \<and> P (unat c)"
  then obtain c :: u64 where "unat c = n" "P n" by auto
  then show "n \<le> u64_max \<and> P n" using unsigned_less [of c, where ?'a = nat] by (simp add: u64_bound)
next
  assume "n \<le> u64_max \<and> P n"
  then show "\<exists>c :: u64. unat c = n \<and> P (unat c)"
    by (intro exI [of _ "of_nat n"]) (simp add: unat_of_nat u64_bound)
qed

lemma checked_mul_Some: "u64_checked_mul a b = Some c \<longleftrightarrow> unat a * unat b \<le> u64_max \<and> unat c = unat a * unat b"
  using unat_mult_lem [of a b] by (auto simp: u64_checked_mul_def u64_bound) (metis word_unat_eq_iff)

lemma checked_add_Some: "u64_checked_add a b = Some c \<longleftrightarrow> unat a + unat b \<le> u64_max \<and> unat c = unat a + unat b"
  using unat_add_lem [of a b] by (auto simp: u64_checked_add_def u64_bound) (metis word_unat_eq_iff)

lemma checked_mul_ex: "(\<exists>c. u64_checked_mul a b = Some c \<and> P (unat c)) \<longleftrightarrow> unat a * unat b \<le> u64_max \<and> P (unat a * unat b)"
  using u64_ex [of "unat a * unat b" P] by (auto simp: checked_mul_Some)

lemma checked_add_ex: "(\<exists>c. u64_checked_add a b = Some c \<and> P (unat c)) \<longleftrightarrow> unat a + unat b \<le> u64_max \<and> P (unat a + unat b)"
  using u64_ex [of "unat a + unat b" P] by (auto simp: checked_add_Some)

lemma positive_prod: "0 \<notin> set (shape :: u64 list) \<Longrightarrow> 1 \<le> prod_list (map unat shape)"
proof (induction shape)
  case (Cons e shape)
  then have "0 < unat e" by (simp add: unat_gt_0)
  then show ?case using Cons by (simp add: Suc_le_eq)
qed simp

lemma volume_from_exact: "volume_from v shape = Inr r
   \<longleftrightarrow> 0 \<notin> set shape \<and> unat v * prod_list (map unat shape) \<le> u64_max \<and> unat r = unat v * prod_list (map unat shape)"
proof (induction shape arbitrary: v)
  case Nil
  then show ?case using unsigned_less [of v, where ?'a = nat] by (auto simp: word_unat_eq_iff u64_bound)
next
  case (Cons e shape)
  define Q where "Q n \<longleftrightarrow> 0 \<notin> set shape \<and> n * prod_list (map unat shape) \<le> u64_max
     \<and> unat r = n * prod_list (map unat shape)" for n
  have "volume_from v (e # shape) = Inr r \<longleftrightarrow> e \<noteq> 0 \<and> (\<exists>c. u64_checked_mul v e = Some c \<and> Q (unat c))"
    by (auto simp: sum_bind_Inr_iff ok_or_Inr_iff Cons.IH Q_def)
  also have "\<dots> \<longleftrightarrow> e \<noteq> 0 \<and> unat v * unat e \<le> u64_max \<and> Q (unat v * unat e)" by (simp only: checked_mul_ex)
  also have "\<dots> \<longleftrightarrow> e \<noteq> 0 \<and> Q (unat v * unat e)"
    using positive_prod [of shape] by (auto simp: Q_def intro: order_trans [rotated])
  finally show ?case by (auto simp: Q_def mult.assoc)
qed

lemma volume_exact: "tensor_volume shape = Inr v
   \<longleftrightarrow> 0 \<notin> set shape \<and> prod_list (map unat shape) \<le> u64_max \<and> unat v = prod_list (map unat shape)"
  by (simp add: tensor_volume_def volume_from_exact)

definition box_bytes :: "u64 \<Rightarrow> BoxCoverage \<Rightarrow> nat" where
  "box_bytes elsize b = prod_list (map unat (bc_shape b)) * unat elsize"

definition box_ok :: "BoxCoverage \<Rightarrow> bool" where
  "box_ok b = (0 \<notin> set (bc_shape b) \<and> prod_list (map unat (bc_shape b)) \<le> u64_max)"

text \<open>The number of bytes a manifest describes, as a number without bound.\<close>

definition manifest_bytes :: "BoundManifest \<Rightarrow> nat" where
  "manifest_bytes tensors = sum_list (map (\<lambda>tensor. sum_list (map (box_bytes (tc_elsize tensor)) (tc_shards tensor))) tensors)"

lemma add_boxes_exact: "add_boxes elsize boxes total_bytes = Inr r
   \<longleftrightarrow> (\<forall>b \<in> set boxes. box_ok b) \<and> unat total_bytes + sum_list (map (box_bytes elsize) boxes) \<le> u64_max
      \<and> unat r = unat total_bytes + sum_list (map (box_bytes elsize) boxes)"
proof (induction boxes arbitrary: total_bytes)
  case Nil
  then show ?case using unsigned_less [of total_bytes, where ?'a = nat] by (auto simp: word_unat_eq_iff u64_bound)
next
  case (Cons b boxes)
  let ?vol = "prod_list (map unat (bc_shape b))" and ?rest = "sum_list (map (box_bytes elsize) boxes)"
  define Q where "Q n \<longleftrightarrow> (\<forall>b \<in> set boxes. box_ok b) \<and> n + ?rest \<le> u64_max \<and> unat r = n + ?rest" for n
  define A where "A n \<longleftrightarrow> unat total_bytes + n \<le> u64_max \<and> Q (unat total_bytes + n)" for n
  have "add_boxes elsize (b # boxes) total_bytes = Inr r \<longleftrightarrow> (\<exists>v. tensor_volume (bc_shape b) = Inr v
      \<and> (\<exists>bytes. u64_checked_mul v elsize = Some bytes \<and> (\<exists>sum. u64_checked_add total_bytes bytes = Some sum \<and> Q (unat sum))))"
    by (auto simp: sum_bind_Inr_iff ok_or_Inr_iff Cons.IH Q_def)
  also have "\<dots> \<longleftrightarrow> (\<exists>v. tensor_volume (bc_shape b) = Inr v \<and> unat v * unat elsize \<le> u64_max \<and> A (unat v * unat elsize))"
    by (simp only: checked_add_ex A_def [symmetric] checked_mul_ex)
  also have "\<dots> \<longleftrightarrow> 0 \<notin> set (bc_shape b) \<and> ?vol \<le> u64_max \<and> box_bytes elsize b \<le> u64_max \<and> A (box_bytes elsize b)"
    using u64_ex [of ?vol "\<lambda>n. n * unat elsize \<le> u64_max \<and> A (n * unat elsize)"]
    by (auto simp: volume_exact box_bytes_def)
  finally show ?case by (auto simp: A_def Q_def box_ok_def add.assoc)
qed

lemma add_tensors_exact: "add_tensors tensors total_bytes = Inr r
   \<longleftrightarrow> (\<forall>x \<in> set tensors. \<forall>b \<in> set (tc_shards x). box_ok b) \<and> unat total_bytes + manifest_bytes tensors \<le> u64_max
      \<and> unat r = unat total_bytes + manifest_bytes tensors"
proof (induction tensors arbitrary: total_bytes)
  case Nil
  then show ?case using unsigned_less [of total_bytes, where ?'a = nat]
    by (auto simp: word_unat_eq_iff u64_bound manifest_bytes_def)
next
  case (Cons x tensors)
  let ?n = "unat total_bytes + sum_list (map (box_bytes (tc_elsize x)) (tc_shards x))"
  define Q where "Q n \<longleftrightarrow> (\<forall>x \<in> set tensors. \<forall>b \<in> set (tc_shards x). box_ok b) \<and> n + manifest_bytes tensors \<le> u64_max
     \<and> unat r = n + manifest_bytes tensors" for n
  have "add_tensors (x # tensors) total_bytes = Inr r \<longleftrightarrow> (\<forall>b \<in> set (tc_shards x). box_ok b)
      \<and> (\<exists>sum :: u64. unat sum = ?n \<and> ?n \<le> u64_max \<and> Q (unat sum))"
    by (auto simp: sum_bind_Inr_iff add_boxes_exact Cons.IH Q_def)
  also have "\<dots> \<longleftrightarrow> (\<forall>b \<in> set (tc_shards x). box_ok b) \<and> ?n \<le> u64_max \<and> Q ?n" using u64_ex [of ?n Q] by auto
  finally show ?case by (auto simp: Q_def manifest_bytes_def add.assoc)
qed

lemma manifest_bytes_sorted: "manifest_bytes (sort_tensors tensors) = manifest_bytes tensors"
proof -
  have m: "sum_list (map f (sort_key k xs)) = sum_list (map f xs)" for f :: "'x \<Rightarrow> nat" and k :: "'x \<Rightarrow> 'y::linorder" and xs
    by (metis mset_map mset_sort sum_mset_sum_list)
  show ?thesis by (simp add: manifest_bytes_def sort_tensors_def comp_def m)
qed

text \<open>
  C34. A tensor binding is accepted exactly when the trainer answers with metadata of the promised
  digest, every box has positive extents and a volume within 64 bits, the bytes of all boxes together fit in 64 bits,
  and the canonical form of the manifest has the promised digest as well. No intermediate sum or product wraps around.
\<close>

theorem binding_accepted_iff:
  "validate_binding net metadata = Inr ()
   \<longleftrightarrow> (let endpoint = ''http://'' @ tm_metadata_endpoint metadata; logical = tm_logical_shard_id metadata
       in bn_endpoint_ok net endpoint \<and> bn_connects net endpoint
          \<and> (\<exists>bytes manifest canonical. bn_metadata net endpoint logical = Inr (bytes, logical)
               \<and> bn_sha256_hex net bytes = Some logical \<and> bn_parse net bytes = Some manifest
               \<and> list_all (\<lambda>x. list_all box_ok (tc_shards x)) manifest \<and> manifest_bytes manifest \<le> u64_max
               \<and> bn_print net (sort_tensors manifest) = Some canonical \<and> bn_sha256_hex net canonical = Some logical))"
proof -
  have size: "(\<exists>r. add_tensors (sort_tensors m) 0 = Inr r)
      \<longleftrightarrow> list_all (\<lambda>x. list_all box_ok (tc_shards x)) m \<and> manifest_bytes m \<le> u64_max" for m
  proof -
    have "(\<forall>x \<in> set (sort_tensors m). \<forall>b \<in> set (tc_shards x). box_ok b) \<longleftrightarrow> list_all (\<lambda>x. list_all box_ok (tc_shards x)) m"
      by (simp add: sort_tensors_def list_all_iff)
    then show ?thesis using u64_ex [of "manifest_bytes m" "\<lambda>_. True"]
      by (auto simp: add_tensors_exact manifest_bytes_sorted)
  qed
  show ?thesis
    by (auto simp: validate_binding_def Let_def sum_bind_Inr_iff ok_or_Inr_iff map_err_Inr_iff
        split: if_splits prod.splits) (use size in blast)+
qed

subsection \<open>Stored versions\<close>

text \<open>The message a stored version stands for.\<close>

definition version_message :: "VersionHash \<Rightarrow> int option \<Rightarrow> WeightVersion" where
  "version_message h number =
     \<lparr>wv_uid = vh_uid h, wv_model_name = vh_model_name h, wv_idempotency_key = vh_idempotency_key h,
       wv_payload_format = vh_payload_format h, wv_base_version_id = text_option (vh_base_version_id h),
       wv_layout_signature = vh_layout_signature h, wv_state = vh_state h, wv_created_at_unix_ms = vh_created_at h,
       wv_object_storage = map_option (\<lambda>uri. \<lparr>os_uri = uri, os_storage_type = 1\<rparr>) (text_option (vh_s3_uri h)),
       wv_trainer_mesh_id = text_option (vh_trainer_mesh_id h),
       wv_trainer_mesh_generation = vh_trainer_mesh_generation h, wv_version_number = number\<rparr>"

definition fits_i32 :: "int \<Rightarrow> bool" where
  "fits_i32 i = (- 2147483648 \<le> i \<and> i \<le> 2147483647)"

definition fits_i64 :: "int \<Rightarrow> bool" where
  "fits_i64 i = (- 9223372036854775808 \<le> i \<and> i \<le> 9223372036854775807)"

definition stored_number :: "VersionHash \<Rightarrow> int option \<Rightarrow> bool" where
  "stored_number h number = (case number of None \<Rightarrow> vh_version_number h = []
     | Some n \<Rightarrow> vh_version_number h = show_int n \<and> fits_i64 n)"

definition stored_fits :: "VersionHash \<Rightarrow> bool" where
  "stored_fits h = (fits_i32 (vh_payload_format h) \<and> fits_i32 (vh_state h) \<and> fits_i32 (vh_initial_state h)
     \<and> vh_created_at h \<le> u64_max \<and> vh_trainer_mesh_generation h \<le> u64_max)"

lemma read_version:
  assumes "stored_fits h" "stored_number h number"
  shows "version_from_hash (render_version (Some h)) = Inr (version_message h number)"
proof -
  have i: "parse_i32 (show_int i) = Some i" if "fits_i32 i" for i
    using that i32_codec.decode_encode by (simp add: fits_i32_def)
  have n: "(case nonempty_field (render_version (Some h)) ''version_number'' of None \<Rightarrow> Inr None
      | Some number \<Rightarrow> sum_bind (ok_or Internal (parse_i64 number)) (\<lambda>n. Inr (Some n))) = Inr number"
    using assms(2) i64_codec.decode_encode
    by (auto simp: stored_number_def nonempty_field_def rendered_field fits_i64_def split: option.splits)
  show ?thesis using assms(1)
    unfolding version_from_hash_def n
    by (simp add: stored_fits_def i parse_u64_show hash_field_def parse_hash_field_def nonempty_field_def rendered_field
        version_message_def text_option_def)
qed

text \<open>
  A version is read as it was created: the message built from the hash of a stored version has
  its fields, with empty texts as absent options and the number of the request, and the state it has reached.
\<close>

theorem created_version_is_read:
  assumes "create_weight_version_lua (version_args request uid now_ms) s = (''CREATED'', s')"
    and "fits_i32 (cq_payload_format request)" "fits_i32 (cq_state request)" "now_ms \<le> u64_max"
    and "case cq_version_number request of Some n \<Rightarrow> fits_i64 n | None \<Rightarrow> True"
    and "case rs_meshes s (va_trainer_mesh_id (version_args request uid now_ms)) of Some h \<Rightarrow> mh_generation h \<le> u64_max | None \<Rightarrow> True"
    and "case cq_object_storage request of Some source \<Rightarrow> os_storage_type source = 1 \<and> os_uri source \<noteq> [] | None \<Rightarrow> True"
    and "cq_base_version_id request \<noteq> Some []" "cq_trainer_mesh_id request \<noteq> Some []"
  shows "\<exists>version. get_weight_version (quiet now) t uid s' = (Inr version, s')
     \<and> wv_uid version = uid \<and> wv_model_name version = cq_model_name request
     \<and> wv_idempotency_key version = cq_idempotency_key request \<and> same_request version (cq_state request) request
     \<and> wv_state version = cq_state request"
  using assms(1)
proof (cases rule: create_version_effect)
  case (created generation)
  define h where "h = created_version (version_args request uid now_ms) generation"
  have gen: "generation \<le> u64_max" using created(4) assms(6) by (auto split: if_splits)
  have fits: "stored_fits h" using assms(2-4) gen
    by (simp add: h_def stored_fits_def created_version_def version_args_def Let_def)
  have num: "stored_number h (cq_version_number request)" using assms(5)
    by (auto simp: h_def stored_number_def created_version_def version_args_def Let_def split: option.splits)
  have stored: "rs_versions s' uid = Some h"
    by (simp add: created(5) h_def version_args_def Let_def)
  have text1: "text_option (case x of Some y \<Rightarrow> y | None \<Rightarrow> []) = x" if "x \<noteq> Some []" for x
    using that by (auto simp: text_option_def split: option.splits)
  have storage: "map_option (\<lambda>uri. \<lparr>os_uri = uri, os_storage_type = 1\<rparr>)
      (text_option (case cq_object_storage request of Some source \<Rightarrow> os_uri source | None \<Rightarrow> [])) = cq_object_storage request"
    using assms(7) by (auto simp: text_option_def split: option.splits)
  have "get_weight_version (quiet now) t uid s' = (Inr (version_message h (cq_version_number request)), s')"
    by (simp add: get_weight_version_def get_version_fields_def stored read_version [OF fits num])
  moreover have "same_request (version_message h (cq_version_number request)) (cq_state request) request"
    using text1 [OF assms(8)] text1 [OF assms(9)] storage
    by (simp add: same_request_def version_message_def h_def created_version_def version_args_def Let_def)
  ultimately show ?thesis
    by (intro exI [of _ "version_message h (cq_version_number request)"])
       (simp add: version_message_def h_def created_version_def version_args_def Let_def)
qed simp

subsection \<open>Repeated requests\<close>

lemma create_existing:
  assumes "rs_version_requests s (request_suffix (cq_model_name request) (cq_idempotency_key request)) = Some v"
    and "rs_versions s v = Some h" "stored_fits h" "stored_number h number" "clock t \<noteq> None"
  shows "create_weight_version (quiet now) uuid clock t request s
     = (if cq_uid request \<in> {None, Some v} \<and> same_request (version_message h number) (vh_initial_state h) request
        then Inr (version_message h number) else Inl AlreadyExists, s)"
proof -
  obtain c where c: "clock t = Some c" using assms(5) by blast
  have lua: "create_weight_version_lua (version_args request uid c) s = (''EXISTING:'' @ v, s)" for uid
    using assms(1) by (simp add: create_weight_version_lua_def version_args_def Let_def)
  have init: "initial_state_of (render_version (Some h)) = Inr (vh_initial_state h)"
    using assms(3) i32_codec.decode_encode by (simp add: initial_state_of_def rendered_field stored_fits_def fits_i32_def)
  have existing: "existing_version (quiet now) (Suc t) request v s
     = (if cq_uid request \<in> {None, Some v} \<and> same_request (version_message h number) (vh_initial_state h) request
        then Inr (version_message h number) else Inl AlreadyExists, s)"
    by (auto simp: existing_version_def get_version_fields_def assms(2) init read_version [OF assms(3,4)] split: option.splits)
  have one: "create_version_attempts (quiet now) uuid clock request (Suc n) t s = existing_version (quiet now) (Suc t) request v s" for n
    by (simp add: create_version_once_def c lua)
  have "(if cq_uid request \<noteq> None then 1 else 5) = Suc (if cq_uid request \<noteq> None then 0 else 4)" by simp
  then show ?thesis unfolding create_weight_version_def existing [symmetric] by (simp only: one)
qed

text \<open>
  C32. A repeated request creates nothing: once a version of a model was created under an idempotency
  key, every later request with that model and key leaves the store as it is and is answered with that version, in
  the state it has reached, if it agrees with it in uid (where it gives one), format, base, storage, mesh, number and
  initial state, and is refused as a conflict otherwise.
\<close>

theorem repeated_request_creates_nothing:
  assumes "rreach now s" "rs_versions s v = Some h" "vh_model_name h = cq_model_name request"
    and "vh_idempotency_key h = cq_idempotency_key request" "stored_fits h" "stored_number h number" "clock t \<noteq> None"
  shows "create_weight_version (quiet now) uuid clock t request s
     = (if cq_uid request \<in> {None, Some v}
          \<and> wv_payload_format (version_message h number) = cq_payload_format request
          \<and> wv_base_version_id (version_message h number) = cq_base_version_id request
          \<and> wv_object_storage (version_message h number) = cq_object_storage request
          \<and> wv_trainer_mesh_id (version_message h number) = cq_trainer_mesh_id request
          \<and> wv_version_number (version_message h number) = cq_version_number request
          \<and> vh_initial_state h = cq_state request
        then Inr (version_message h number) else Inl AlreadyExists, s)"
proof -
  have "wv_model_name (version_message h number) = cq_model_name request" using assms(3) by (simp add: version_message_def)
  then show ?thesis
    using create_existing [where clock = clock and t = t, OF _ assms(2,5-7)] refit_okD(2) [OF rreach_ok [OF assms(1)] assms(2)] assms(3,4)
    by (simp add: version_ok_def same_request_def)
qed

text \<open>
  Model name and idempotency key are joined with a colon that either may contain: a request whose
  model and key read the same when joined is refused as a conflict, although no version of its model was ever created
  under its key.
\<close>

theorem joined_request_key_collides:
  assumes "rreach now s" "rs_versions s v = Some h" "vh_model_name h = model @ '':'' @ x"
    and "cq_model_name request = model" "cq_idempotency_key request = x @ '':'' @ vh_idempotency_key h"
    and "stored_fits h" "stored_number h number" "clock t \<noteq> None"
  shows "create_weight_version (quiet now) uuid clock t request s = (Inl AlreadyExists, s)
     \<and> (\<nexists>u g. rs_versions s u = Some g \<and> vh_model_name g = model \<and> vh_idempotency_key g = cq_idempotency_key request)"
proof -
  have key: "rs_version_requests s (request_suffix (cq_model_name request) (cq_idempotency_key request)) = Some v"
    using refit_okD(2) [OF rreach_ok [OF assms(1)] assms(2)] assms(3-5) by (simp add: version_ok_def request_suffix_def)
  have "\<not> same_request (version_message h number) (vh_initial_state h) request"
    using assms(3,4) by (simp add: same_request_def version_message_def)
  moreover have "u = v" if "rs_versions s u = Some g" "vh_model_name g = model" "vh_idempotency_key g = cq_idempotency_key request" for u g
    using refit_okD(2) [OF rreach_ok [OF assms(1)] that(1)] that(2,3) key assms(4) by (simp add: version_ok_def)
  moreover have "vh_model_name h \<noteq> model" using assms(3) by simp
  ultimately show ?thesis using create_existing [where clock = clock and t = t, OF key assms(2,6-8)] assms(2) by auto
qed

subsection \<open>Listing shards\<close>

lemma quiet_endpoints: "read_endpoints (quiet now) t shards s
   = (map (\<lambda>shard. map_option wh_refit_endpoint (worker_at now s (ws_worker_id shard))) shards, s)"
  by (induction shards arbitrary: t) simp_all

text \<open>A published shard counts as available when the mesh binds its worker to it and the worker is registered there.\<close>

definition available :: "nat \<Rightarrow> RStore \<Rightarrow> mesh_workers \<Rightarrow> WeightVersionShard \<Rightarrow> bool" where
  "available now s workers shard =
     (hm_get workers (ws_worker_id shard)
        = Some \<lparr>tm_logical_shard_id = ws_logical_shard_id shard, tm_metadata_endpoint = ws_metadata_endpoint shard\<rparr>
      \<and> map_option wh_refit_endpoint (worker_at now s (ws_worker_id shard)) = Some (ws_metadata_endpoint shard))"

lemma member_registered:
  "member_shard ws x \<and> registered_shard ws (x, map_option wh_refit_endpoint (worker_at now s (ws_worker_id x)))
   \<longleftrightarrow> available now s ws x"
  by (cases "hm_get ws (ws_worker_id x)")
     (auto simp: member_shard_def registered_shard_def available_def intro: TrainerTensorsMetadata.equality)

text \<open>
  The shards listed for a mesh-backed version are exactly its available publications, in order of
  shard and worker: those the current mesh binds to their worker at their endpoint and whose worker has a live
  registration at that endpoint.
\<close>

theorem listed_shards_exact:
  assumes "rs_versions s v = Some h" "stored_fits h" "stored_number h number" "vh_trainer_mesh_id h = m" "m \<noteq> []"
    and "rs_meshes s m = Some mesh" "map dec (hm_values (rs_shards s v)) = map Some published"
  shows "\<exists>listed. list_weight_version_shards (quiet now) dec t v s = (Inr listed, s)
     \<and> listed = sort_shards (filter (available now s (mh_workers mesh)) published)"
proof -
  have dec: "collect_results (\<lambda>bytes. ok_or Internal (dec bytes)) bs = Inr ps" if "map dec bs = map Some ps" for bs ps
    using that by (induction bs arbitrary: ps) auto
  have z: "map fst (filter (registered_shard ws) (zip xs (map f xs))) = filter (\<lambda>x. registered_shard ws (x, f x)) xs" for ws xs f
    by (induction xs) auto
  have mesh: "wv_trainer_mesh_id (version_message h number) = Some m"
    using assms(4,5) by (simp add: version_message_def text_option_def)
  show ?thesis
    by (simp add: list_weight_version_shards_def get_weight_version_def get_version_fields_def assms(1)
        read_version [OF assms(2,3)] dec [OF assms(7)] mesh get_trainer_mesh_def assms(6) quiet_endpoints z
        mesh_from_hash_def filter_filter member_registered conj_commute)
qed

subsection \<open>Keys\<close>

text \<open>
  The store of \<^verbatim>\<open>Refit_Scripts\<close> keeps the families of keys apart and indexes each by the rest of the key. This
  is faithful: no two families share a key, whatever the ids, and within a family the rest determines the key.
\<close>

datatype RefitKey =
    KMesh string | KMeshVersions string | KMeshRequest string string | KVersion string | KShards string
  | KEndpoints string | KWorker string | KLeases string | KLease string string | KRequest string string

fun key_text :: "RefitKey \<Rightarrow> string" where
  "key_text (KMesh m) = mesh_key m"
| "key_text (KMeshVersions m) = mesh_versions_key m"
| "key_text (KMeshRequest model k) = mesh_idempotency_key model k"
| "key_text (KVersion v) = version_key v"
| "key_text (KShards v) = shards_key v"
| "key_text (KEndpoints v) = publication_endpoints_key v"
| "key_text (KWorker w) = refit_worker_key w"
| "key_text (KLeases v) = leases_key v"
| "key_text (KLease v l) = lease_key v l"
| "key_text (KRequest model k) = idempotency_key model k"

text \<open>A key up to the ambiguity of the colons in the two joined families.\<close>

fun key_index :: "RefitKey \<Rightarrow> nat \<times> string" where
  "key_index (KMesh m) = (0, m)"
| "key_index (KMeshVersions m) = (1, m)"
| "key_index (KMeshRequest model k) = (2, request_suffix model k)"
| "key_index (KVersion v) = (3, v)"
| "key_index (KShards v) = (4, v)"
| "key_index (KEndpoints v) = (5, v)"
| "key_index (KWorker w) = (6, w)"
| "key_index (KLeases v) = (7, v)"
| "key_index (KLease v l) = (8, lease_suffix v l)"
| "key_index (KRequest model k) = (9, request_suffix model k)"

lemma refit_keys_faithful: "key_text a = key_text b \<longleftrightarrow> key_index a = key_index b"
  by (cases a; cases b)
     (simp_all add: mesh_key_def mesh_versions_key_def mesh_idempotency_key_def version_key_def shards_key_def
      publication_endpoints_key_def refit_worker_key_def leases_key_def lease_key_def idempotency_key_def)

subsection \<open>Witnesses\<close>

definition refit_demo_request :: "string \<Rightarrow> int option \<Rightarrow> CreateWeightVersionRequest" where
  "refit_demo_request key number = \<lparr>cq_model_name = ''M'', cq_idempotency_key = key, cq_payload_format = 1,
     cq_base_version_id = None, cq_object_storage = None, cq_state = STATE_STAGING, cq_uid = None,
     cq_trainer_mesh_id = Some ''m'', cq_version_number = number\<rparr>"

definition demo_shard :: WeightVersionShard where
  "demo_shard = \<lparr>ws_version_id = ''v'', ws_logical_shard_id = ''l'', ws_worker_id = ''w'', ws_stable_metadata_digest = ''d'',
     ws_metadata_endpoint = ''e'', ws_version_metadata_digest = ''x''\<rparr>"

definition demo_deps :: RefitDeps where
  "demo_deps = \<lparr>rd_env = quiet 3, rd_uuid = (\<lambda>_. ''0123456789''), rd_clock = (\<lambda>_. Some 0), rd_sha256 = (\<lambda>_. None),
     rd_enc = (\<lambda>_. ''b''), rd_dec = (\<lambda>_. Some demo_shard), rd_scan = (\<lambda>_ _. []),
     rd_net = \<lparr>bn_endpoint_ok = (\<lambda>_. False), bn_connects = (\<lambda>_. False), bn_metadata = (\<lambda>_ _. Inl 0),
       bn_sha256_hex = (\<lambda>_. None), bn_parse = (\<lambda>_. None), bn_print = (\<lambda>_. None)\<rparr>, rd_finished = (\<lambda>ws. ws)\<rparr>"

theorem request_is_a_run_witness:
  "\<exists>t'. rsteps 3 demo_staged (re_now (rd_env demo_deps) t') (serve demo_deps 0 (PublishShard (Some demo_shard)) demo_staged)"
  using request_is_a_run [of demo_deps "PublishShard (Some demo_shard)" 0 demo_staged] demo_reach(1)
  by (auto simp: demo_deps_def quiet_env_ok)

lemma demo_ready_fits: "stored_fits (demo_version\<lparr>vh_state := STATE_READY\<rparr>)" "stored_number (demo_version\<lparr>vh_state := STATE_READY\<rparr>) None"
  by (simp_all add: stored_fits_def stored_number_def fits_i32_def u64_max_def demo_version_def created_version_def refit_demo_args_def)

theorem created_version_is_read_witness:
  "\<exists>version. get_weight_version (quiet 3) 0 ''u'' (snd (create_weight_version_lua (version_args (refit_demo_request ''k'' (Some (- 3))) ''u'' 5) demo_staged))
      = (Inr version, snd (create_weight_version_lua (version_args (refit_demo_request ''k'' (Some (- 3))) ''u'' 5) demo_staged))
     \<and> wv_uid version = ''u'' \<and> wv_model_name version = ''M'' \<and> wv_idempotency_key version = ''k''
     \<and> same_request version 1 (refit_demo_request ''k'' (Some (- 3))) \<and> wv_state version = 1"
proof -
  have staged: "rs_version_requests demo_staged ''M:k'' = None" "rs_versions demo_staged ''u'' = None"
    by (simp_all add: refit_demo_defs request_suffix_def)
  have args: "va_request (version_args (refit_demo_request ''k'' (Some (- 3))) ''u'' 5) = ''M:k''" "va_uid (version_args (refit_demo_request ''k'' (Some (- 3))) ''u'' 5) = ''u''"
      "va_trainer_mesh_id (version_args (refit_demo_request ''k'' (Some (- 3))) ''u'' 5) = ''m''" "va_model_name (version_args (refit_demo_request ''k'' (Some (- 3))) ''u'' 5) = ''M''"
    by (simp_all add: version_args_def refit_demo_request_def request_suffix_def)
  have "fst (create_weight_version_lua (version_args (refit_demo_request ''k'' (Some (- 3))) ''u'' 5) demo_staged) = ''CREATED''"
    by (simp add: create_weight_version_lua_def args staged demo_staged_sel Let_def demo_mesh_def)
  then have c: "create_weight_version_lua (version_args (refit_demo_request ''k'' (Some (- 3))) ''u'' 5) demo_staged
      = (''CREATED'', snd (create_weight_version_lua (version_args (refit_demo_request ''k'' (Some (- 3))) ''u'' 5) demo_staged))"
    by (metis surjective_pairing)
  have sel: "cq_model_name (refit_demo_request ''k'' n) = ''M''" "cq_idempotency_key (refit_demo_request ''k'' n) = ''k''" "cq_state (refit_demo_request ''k'' n) = 1" for n
    by (simp_all add: refit_demo_request_def)
  show ?thesis
    by (rule created_version_is_read [OF c, unfolded sel])
       (simp_all add: refit_demo_request_def fits_i32_def fits_i64_def u64_max_def args [unfolded refit_demo_request_def] demo_staged_sel demo_mesh_def)
qed

theorem repeated_request_creates_nothing_witness:
  "create_weight_version (quiet 3) (\<lambda>_. ''z'') (\<lambda>_. Some 9) 0 (refit_demo_request ''v'' None) demo_ready
   = (Inr (version_message (demo_version\<lparr>vh_state := STATE_READY\<rparr>) None), demo_ready)"
  using repeated_request_creates_nothing [where clock = "\<lambda>_. Some 9" and t = 0 and request = "refit_demo_request ''v'' None" and uuid = "\<lambda>_. ''z''",
      OF demo_reach(2) demo_published(2) _ _ demo_ready_fits]
  by (simp add: refit_demo_request_def demo_version_def created_version_def refit_demo_args_def same_request_def version_message_def text_option_def)

definition demo_s3_args :: VersionArgs where
  "demo_s3_args = \<lparr>va_uid = ''v'', va_request = request_suffix ''a:b'' ''c'', va_model_name = ''a:b'', va_idempotency_key = ''c'',
     va_payload_format = 1, va_base_version_id = [], va_s3_uri = ''s3://x/y'', va_state = STATE_READY, va_created_at = 0,
     va_trainer_mesh_id = [], va_version_number = []\<rparr>"

definition demo_joined_key :: RStore where
  "demo_joined_key = snd (create_weight_version_lua demo_s3_args refit_init)"

lemma demo_joined_key: "rreach 3 demo_joined_key" "rs_versions demo_joined_key ''v'' = Some (created_version demo_s3_args 0)"
proof -
  show "rreach 3 demo_joined_key" unfolding demo_joined_key_def
    by (rule rreach.step [OF rreach.start rstep.create_version [OF _ surjective_pairing]])
       (simp add: args_admitted_def demo_s3_args_def)
  show "rs_versions demo_joined_key ''v'' = Some (created_version demo_s3_args 0)"
    by (simp add: demo_joined_key_def create_weight_version_lua_def refit_init_def demo_s3_args_def created_version_def Let_def)
qed

theorem joined_request_key_collides_witness:
  "create_weight_version (quiet 3) (\<lambda>_. ''z'') (\<lambda>_. Some 9) 0
     ((refit_demo_request ''b:c'' None)\<lparr>cq_model_name := ''a''\<rparr>) demo_joined_key = (Inl AlreadyExists, demo_joined_key)"
  using joined_request_key_collides [where clock = "\<lambda>_. Some 9" and t = 0 and request = "(refit_demo_request ''b:c'' None)\<lparr>cq_model_name := ''a''\<rparr>"
      and uuid = "\<lambda>_. ''z''" and model = "''a''" and x = "''b''" and number = None, OF demo_joined_key]
  by (simp add: refit_demo_request_def created_version_def demo_s3_args_def stored_fits_def stored_number_def fits_i32_def u64_max_def)

theorem listed_shards_exact_witness:
  "list_weight_version_shards (quiet 3) (\<lambda>_. Some demo_shard) 0 ''v'' demo_ready = (Inr [demo_shard], demo_ready)"
proof -
  have pub: "map (\<lambda>_. Some demo_shard) (hm_values (rs_shards demo_ready ''v'')) = map Some [demo_shard]"
    by (simp add: demo_shards hm_values_def)
  have m: "vh_trainer_mesh_id (demo_version\<lparr>vh_state := STATE_READY\<rparr>) = ''m''" by (simp add: demo_ids)
  have "available 3 demo_ready demo_members demo_shard"
    by (simp add: available_def demo_shard_def demo_members_def hm_get_def worker_at_def demo_published demo_staged_sel)
  then show ?thesis
    using listed_shards_exact [where dec = "\<lambda>_. Some demo_shard" and t = 0 and now = 3, OF demo_published(2) demo_ready_fits m _ demo_published(6) pub]
    by (simp add: demo_mesh_def sort_shards_def)
qed

end
