(* ===== verification/Call_Trees.thy ===== *)
theory Call_Trees
  imports Main
begin

text \<open>
  Methods that make several calls to a shared service, with others acting in between. A method is
  a tree of calls whose branches are the replies. \<open>run\<close> interleaves the calls of any number of
  sessions (a replica and a number) on one world, with events of the environment; \<open>follows\<close> says
  that the calls of one session are a complete run of a program, \<open>started\<close> that they are the
  beginning of one. \<open>pwp\<close> is a weakest precondition over the tree: a condition on every
  call and on every result, given the calls made so far. \<open>exec\<close> runs a program with nobody else
  acting.
\<close>

datatype ('q, 'r, 'a) prog = Return 'a | Call 'q "'r \<Rightarrow> ('q, 'r, 'a) prog"

primrec pbind :: "('q, 'r, 'a) prog \<Rightarrow> ('a \<Rightarrow> ('q, 'r, 'b) prog) \<Rightarrow> ('q, 'r, 'b) prog" where
  "pbind (Return a) f = f a"
| "pbind (Call q k) f = Call q (\<lambda>a. pbind (k a) f)"

text \<open>The operator \<^verbatim>\<open>?\<close> on the result of a program, and on a value.\<close>

definition ptry :: "('q, 'r, 'e + 'a) prog \<Rightarrow> ('a \<Rightarrow> ('q, 'r, 'e + 'b) prog) \<Rightarrow> ('q, 'r, 'e + 'b) prog" where
  "ptry p f = pbind p (\<lambda>x. case x of Inl e \<Rightarrow> Return (Inl e) | Inr a \<Rightarrow> f a)"

definition plift :: "'e + 'a \<Rightarrow> ('a \<Rightarrow> ('q, 'r, 'e + 'b) prog) \<Rightarrow> ('q, 'r, 'e + 'b) prog" where
  "plift x f = (case x of Inl e \<Rightarrow> Return (Inl e) | Inr a \<Rightarrow> f a)"

subsection \<open>Conditions over a call tree\<close>

type_synonym ('q, 'r) trace = "('q \<times> 'r) list"

text \<open>
  The trace \<open>h\<close> is the calls made so far, the latest first; \<open>R\<close> is what every reply satisfies.
\<close>

primrec pwp :: "('q \<Rightarrow> 'r \<Rightarrow> bool) \<Rightarrow> (('q, 'r) trace \<Rightarrow> 'q \<Rightarrow> bool) \<Rightarrow> (('q, 'r) trace \<Rightarrow> 'a \<Rightarrow> bool) \<Rightarrow>
    ('q, 'r, 'a) prog \<Rightarrow> ('q, 'r) trace \<Rightarrow> bool" where
  "pwp R P Q (Return a) = (\<lambda>h. Q h a)"
| "pwp R P Q (Call q k) = (\<lambda>h. P h q \<and> (\<forall>a. R q a \<longrightarrow> pwp R P Q (k a) ((q, a) # h)))"

primrec follows :: "('q, 'r, 'a) prog \<Rightarrow> ('q, 'r) trace \<Rightarrow> 'a option" where
  "follows (Return a) = (\<lambda>tr. if tr = [] then Some a else None)"
| "follows (Call q k) = (\<lambda>tr. case tr of [] \<Rightarrow> None
     | (q', a) # rest \<Rightarrow> if q' = q then follows (k a) rest else None)"

primrec started :: "('q, 'r, 'a) prog \<Rightarrow> ('q, 'r) trace \<Rightarrow> bool" where
  "started (Return a) = (\<lambda>tr. tr = [])"
| "started (Call q k) = (\<lambda>tr. case tr of [] \<Rightarrow> True
     | (q', a) # rest \<Rightarrow> q' = q \<and> started (k a) rest)"

lemma pwp_pbind [simp]: "pwp R P Q (pbind p f) h = pwp R P (\<lambda>h a. pwp R P Q (f a) h) p h"
  by (induction p arbitrary: h) auto

lemma pwp_ptry [simp]:
  "pwp R P Q (ptry p f) h = pwp R P (\<lambda>h x. case x of Inl e \<Rightarrow> Q h (Inl e) | Inr a \<Rightarrow> pwp R P Q (f a) h) p h"
  unfolding ptry_def pwp_pbind
  by (rule arg_cong [where f = "\<lambda>S. pwp R P S p h"]) (auto simp: fun_eq_iff split: sum.splits)

lemma pwp_plift [simp]:
  "pwp R P Q (plift x f) h = (case x of Inl e \<Rightarrow> Q h (Inl e) | Inr a \<Rightarrow> pwp R P Q (f a) h)"
  by (auto simp: plift_def split: sum.splits)

lemma pwp_mono:
  assumes "pwp R P Q p h" and "\<And>h a. Q h a \<Longrightarrow> Q' h a"
  shows "pwp R P Q' p h"
  using assms by (induction p arbitrary: h) auto

lemma pwp_follows:
  assumes "pwp R P Q p h" and "follows p tr = Some a" and "\<And>q a. (q, a) \<in> set tr \<Longrightarrow> R q a"
  shows "Q (rev tr @ h) a"
  using assms
proof (induction p arbitrary: h tr)
  case (Call q k)
  then obtain b rest where tr: "tr = (q, b) # rest" and f: "follows (k b) rest = Some a"
    by (auto split: list.splits if_splits)
  show ?case using Call.IH [OF rangeI _ f, of "(q, b) # h"] Call.prems(1,3) by (simp add: tr)
qed (auto split: if_splits)

lemma pwp_started:
  assumes "pwp R P Q p h" and "started p (tr1 @ (q, a) # tr2)"
    and "\<And>q a. (q, a) \<in> set tr1 \<Longrightarrow> R q a"
  shows "P (rev tr1 @ h) q"
  using assms
proof (induction p arbitrary: h tr1)
  case (Call q' k)
  show ?case
  proof (cases tr1)
    case Nil
    then show ?thesis using Call.prems by simp
  next
    case (Cons x rest)
    obtain q'' b where x: "x = (q'', b)" by fastforce
    then have q: "q'' = q'" and s: "started (k b) (rest @ (q, a) # tr2)"
      using Call.prems(2) by (auto simp: Cons)
    show ?thesis using Call.IH [OF rangeI _ s, of "(q', b) # h"] Call.prems(1,3)
      by (simp add: Cons x q)
  qed
qed simp

lemma follows_started: "follows p tr = Some a \<Longrightarrow> started p tr"
  by (induction p arbitrary: tr) (auto split: list.splits if_splits)

subsection \<open>Interleaved runs\<close>

datatype ('q, 'r, 'e) event = Act "nat \<times> nat" 'q 'r | Env 'e

inductive run :: "(nat \<Rightarrow> 'q \<Rightarrow> 'w \<Rightarrow> 'r \<Rightarrow> 'w \<Rightarrow> bool) \<Rightarrow> ('e \<Rightarrow> 'w \<Rightarrow> 'w) \<Rightarrow>
    'w \<Rightarrow> ('q, 'r, 'e) event list \<Rightarrow> 'w \<Rightarrow> bool"
  for step and env where
  run_Nil: "run step env w [] w"
| run_Act: "step (fst p) q w a w' \<Longrightarrow> run step env w' es w'' \<Longrightarrow> run step env w (Act p q a # es) w''"
| run_Env: "run step env (env e w) es w'' \<Longrightarrow> run step env w (Env e # es) w''"

inductive_simps run_Nil_iff [simp]: "run step env w [] w'"
inductive_simps run_Act_iff: "run step env w (Act p q a # es) w'"
inductive_simps run_Env_iff: "run step env w (Env e # es) w'"

lemmas run_iffs = run_Act_iff run_Env_iff

definition session :: "nat \<times> nat \<Rightarrow> ('q, 'r, 'e) event list \<Rightarrow> ('q, 'r) trace" where
  "session p es = List.map_filter
     (\<lambda>e. case e of Act p' q a \<Rightarrow> if p' = p then Some (q, a) else None | Env _ \<Rightarrow> None) es"

lemma session_simps [simp]:
  "session p [] = []"
  "session p (Act p' q a # es) = (if p' = p then (q, a) # session p es else session p es)"
  "session p (Env x # es) = session p es"
  by (simp_all add: session_def map_filter_simps)

lemma session_append [simp]: "session p (es @ es') = session p es @ session p es'"
  by (simp add: session_def map_filter_def)

lemma run_append: "run step env w (es @ es') w'' \<longleftrightarrow> (\<exists>w'. run step env w es w' \<and> run step env w' es' w'')"
proof (induction es arbitrary: w)
  case (Cons e es)
  then show ?case by (cases e) (auto simp: run_iffs)
qed simp

lemma run_replies:
  assumes "run step env w es w'" and "\<And>r q w a w'. step r q w a w' \<Longrightarrow> R q a" and "(q, a) \<in> set (session p es)"
  shows "R q a"
  using assms by (induction rule: run.induct) (auto split: if_splits)

lemma session_ConsE:
  assumes "session p es = (q, a) # tr"
  obtains es1 es2 where "es = es1 @ Act p q a # es2" "session p es1 = []" "session p es2 = tr"
  using assms
proof (induction es arbitrary: thesis)
  case (Cons e es)
  show ?case
  proof (cases "\<exists>p' q' a'. e = Act p' q' a' \<and> p' = p")
    case True
    then show ?thesis using Cons.prems(1) [of "[]" es] Cons.prems(2) by auto
  next
    case False
    then have s: "session p [e] = []" "session p (e # es) = session p es" by (cases e; simp)+
    then obtain es1 es2 where "es = es1 @ Act p q a # es2" "session p es1 = []" "session p es2 = tr"
      using Cons.IH Cons.prems(2) by metis
    then show ?thesis using Cons.prems(1) [of "e # es1" es2] s(1) session_append [of p "[e]" es1] by auto
  qed
qed simp

lemma session_split:
  assumes "session p es = tr1 @ (q, a) # tr2"
  obtains es1 es2 where "es = es1 @ Act p q a # es2" "session p es1 = tr1" "session p es2 = tr2"
  using assms
proof (induction tr1 arbitrary: es thesis)
  case Nil
  then show ?case by (auto elim: session_ConsE)
next
  case (Cons x tr1)
  obtain q' a' where x: "x = (q', a')" by fastforce
  obtain es0 es' where es: "es = es0 @ Act p q' a' # es'" "session p es0 = []"
      "session p es' = tr1 @ (q, a) # tr2"
    using Cons.prems(2) x by (auto elim: session_ConsE)
  obtain es1 es2 where "es' = es1 @ Act p q a # es2" "session p es1 = tr1" "session p es2 = tr2"
    using Cons.IH [OF _ es(3)] by blast
  then show ?case using Cons.prems(1) [of "es0 @ Act p q' a' # es1" es2] es(1,2) by (simp add: x)
qed

subsection \<open>A session alone\<close>

text \<open>\<open>ans\<close> answers one call of the session.\<close>

primrec exec :: "('q \<Rightarrow> 'w \<Rightarrow> 'r \<times> 'w) \<Rightarrow> ('q, 'r, 'a) prog \<Rightarrow> 'w \<Rightarrow> 'a \<times> 'w" where
  "exec ans (Return a) = (\<lambda>w. (a, w))"
| "exec ans (Call q k) = (\<lambda>w. exec ans (k (fst (ans q w))) (snd (ans q w)))"

primrec exec_events :: "('q \<Rightarrow> 'w \<Rightarrow> 'r \<times> 'w) \<Rightarrow> nat \<times> nat \<Rightarrow> ('q, 'r, 'a) prog \<Rightarrow> 'w \<Rightarrow> ('q, 'r, 'e) event list" where
  "exec_events ans p (Return a) = (\<lambda>w. [])"
| "exec_events ans p (Call q k) = (\<lambda>w. Act p q (fst (ans q w)) # exec_events ans p (k (fst (ans q w))) (snd (ans q w)))"

lemma exec_run:
  assumes "\<And>q w. step (fst p) q w (fst (ans q w)) (snd (ans q w))"
  shows "run step env w (exec_events ans p pr w) (snd (exec ans pr w))"
  by (induction pr arbitrary: w) (auto simp: run_Act_iff intro: assms)

lemma exec_follows: "follows pr (session p (exec_events ans p pr w)) = Some (fst (exec ans pr w))"
  by (induction pr arbitrary: w) auto

lemma exec_other_session: "p' \<noteq> p \<Longrightarrow> session p' (exec_events ans p pr w) = []"
  by (induction pr arbitrary: w) auto

lemma exec_events_session: "Act p' q a \<in> set (exec_events ans p pr w) \<Longrightarrow> p' = p"
  by (induction pr arbitrary: w) auto

lemma exec_pbind: "exec ans (pbind p f) w = (let (a, w') = exec ans p w in exec ans (f a) w')"
  by (induction p arbitrary: w) auto

lemma exec_ptry:
  "exec ans (ptry p f) w =
     (case exec ans p w of (Inl e, w') \<Rightarrow> (Inl e, w') | (Inr a, w') \<Rightarrow> exec ans (f a) w')"
  by (auto simp: ptry_def exec_pbind split: prod.splits sum.splits)

lemma exec_plift [simp]:
  "exec ans (plift x f) w = (case x of Inl e \<Rightarrow> (Inl e, w) | Inr a \<Rightarrow> exec ans (f a) w)"
  by (auto simp: plift_def split: sum.splits)

subsection \<open>Bounded programs\<close>

text \<open>A program that makes at most \<open>n\<close> calls, whatever the replies.\<close>

primrec calls_within :: "('q, 'r, 'a) prog \<Rightarrow> nat \<Rightarrow> bool" where
  "calls_within (Return a) = (\<lambda>n. True)"
| "calls_within (Call q k) = (\<lambda>n. 0 < n \<and> (\<forall>a. calls_within (k a) (n - 1)))"

lemma calls_within_mono: "calls_within p m \<Longrightarrow> m \<le> n \<Longrightarrow> calls_within p n"
  by (induction p arbitrary: m n) (auto, meson diff_le_mono rangeI)

lemma calls_within_Call: "(\<And>a. calls_within (k a) n) \<Longrightarrow> calls_within (Call q k) (Suc n)"
  by simp

lemma calls_within_pbind:
  assumes "calls_within p m" and "\<And>a. calls_within (f a) n"
  shows "calls_within (pbind p f) (m + n)"
  using assms(1)
proof (induction p arbitrary: m)
  case (Return a)
  then show ?case using calls_within_mono [OF assms(2)] by simp
next
  case (Call q k)
  have "calls_within (pbind (k a) f) (m - 1 + n)" for a using Call.IH [of "k a" "m - 1"] Call.prems by simp
  then show ?case using Call.prems by (auto simp: Nat.add_diff_assoc2)
qed

lemma calls_within_ptry:
  assumes "calls_within p m" and "\<And>a. calls_within (f a) n"
  shows "calls_within (ptry p f) (m + n)"
  unfolding ptry_def by (rule calls_within_pbind [OF assms(1)]) (use assms(2) in \<open>auto split: sum.splits\<close>)

lemma calls_within_plift: "(\<And>a. calls_within (f a) n) \<Longrightarrow> calls_within (plift x f) n"
  by (auto simp: plift_def split: sum.splits)

lemma started_within: "calls_within p n \<Longrightarrow> started p tr \<Longrightarrow> length tr \<le> n"
proof (induction p arbitrary: n tr)
  case (Call q k)
  show ?case
  proof (cases tr)
    case (Cons x rest)
    then obtain b where "started (k b) rest" using Call.prems(2) by (cases x) auto
    then have "length rest \<le> n - 1" using Call.IH [of "k b"] Call.prems(1) by simp
    then show ?thesis using Cons Call.prems(1) by auto
  qed simp
qed simp

text \<open>Against any replies, counted: the number of calls made before the answer.\<close>

definition calls_made :: "(nat \<Rightarrow> 'q \<Rightarrow> 'r) \<Rightarrow> ('q, 'r, 'a) prog \<Rightarrow> nat" where
  "calls_made reply p = snd (exec (\<lambda>q i. (reply i q, Suc i)) p 0)"

lemma calls_made_within: "calls_within p n \<Longrightarrow> calls_made reply p \<le> n"
proof -
  have "snd (exec (\<lambda>q i. (reply i q, Suc i)) p i) \<le> i + n" if "calls_within p n" for i
    using that
  proof (induction p arbitrary: n i)
    case (Call q k)
    have "snd (exec (\<lambda>q i. (reply i q, Suc i)) (k (reply i q)) (Suc i)) \<le> Suc i + (n - 1)"
      by (rule Call.IH [OF rangeI]) (use Call.prems in simp)
    then show ?case using Call.prems by auto
  qed simp
  from this [of 0] show "calls_within p n \<Longrightarrow> calls_made reply p \<le> n" by (simp add: calls_made_def)
qed

end
