(* ===== verification/Registry_Kube.thy ===== *)
theory Registry_Kube
  imports Call_Trees Entry_Key MX_Text Registry_Backend
begin

text \<open>
  The Kubernetes registry backend (\<^verbatim>\<open>registry/backend/kubernetes.rs\<close>,
  \<^verbatim>\<open>registry/k8s_types.rs\<close>): one \<^verbatim>\<open>ModelCacheEntry\<close> custom resource per
  provider and model, its state in the status subresource.

  A method makes several API requests, and other replicas act between any two of them. So a
  method is a program: a tree of calls (requests to the API server, readings of the wall clock
  and of the monotonic clock, accesses to the replica's mutex-protected lease observations)
  whose branches are the replies. \<open>kserve\<close> is the effect of one call on the shared world and
  \<open>krun\<close> interleaves the calls of any number of sessions. What the API server is documented to
  do is written there: names are unique (409), a missing object is 404, a JSON patch
  applies all of its operations or none (422), a name that is not a DNS-1123 subdomain is
  refused (422), a status written without a phase gets the default of the resource definition, every change gives an object a new resource
  version, and any request may be refused, or take effect and lose its reply.

  A stored status is the JSON object of the status subresource: an absent field, a null and a
  string are told apart, because \<^verbatim>\<open>replace\<close> fails on an absent field only. Texts
  are code points; \<^verbatim>\<open>chrono\<close>'s printer, parser and checked addition and SHA-256 are
  fields of \<open>KubeEnv\<close>.
\<close>

subsection \<open>The resource\<close>

record ModelCacheEntrySpec =
  mcs_model_name :: string
  mcs_provider :: string

record ModelCacheEntryStatus =
  mst_phase :: string
  mst_created_at :: "string option"
  mst_last_used_at :: "string option"
  mst_message :: "string option"
  mst_claim_id :: "string option"
  mst_lease_expires_at :: "string option"

definition default_status :: ModelCacheEntryStatus where
  "default_status = \<lparr>mst_phase = [], mst_created_at = None, mst_last_used_at = None,
     mst_message = None, mst_claim_id = None, mst_lease_expires_at = None\<rparr>"

record ModelCacheEntry =
  mce_name :: "string option"
  mce_resource_version :: "string option"
  mce_spec :: ModelCacheEntrySpec
  mce_status :: "ModelCacheEntryStatus option"

definition phase_DOWNLOADING :: string where "phase_DOWNLOADING = ''Downloading''"
definition phase_DOWNLOADED :: string where "phase_DOWNLOADED = ''Downloaded''"
definition phase_ERROR :: string where "phase_ERROR = ''Error''"

lemmas phase_defs = phase_DOWNLOADING_def phase_DOWNLOADED_def phase_ERROR_def

definition PhaseSchema :: "string list" where
  "PhaseSchema = [[], ''Downloading'', ''Downloaded'', ''Error'']"

definition ProviderSchema :: "string list" where
  "ProviderSchema = [''HuggingFace'', ''Ngc'', ''Gcs'', ''S3'']"

datatype cr_field = FPhase | FCreatedAt | FLastUsedAt | FMessage | FClaimId | FLeaseExpiresAt

instantiation cr_field :: enum
begin

definition enum_cr_field :: "cr_field list" where
  "enum_cr_field = [FPhase, FCreatedAt, FLastUsedAt, FMessage, FClaimId, FLeaseExpiresAt]"

definition enum_all_cr_field :: "(cr_field \<Rightarrow> bool) \<Rightarrow> bool" where
  "enum_all_cr_field P = (P FPhase \<and> P FCreatedAt \<and> P FLastUsedAt \<and> P FMessage \<and> P FClaimId \<and> P FLeaseExpiresAt)"

definition enum_ex_cr_field :: "(cr_field \<Rightarrow> bool) \<Rightarrow> bool" where
  "enum_ex_cr_field P = (P FPhase \<or> P FCreatedAt \<or> P FLastUsedAt \<or> P FMessage \<or> P FClaimId \<or> P FLeaseExpiresAt)"

instance
proof
  have univ: "UNIV = {FPhase, FCreatedAt, FLastUsedAt, FMessage, FClaimId, FLeaseExpiresAt}"
    by (auto intro: cr_field.exhaust)
  show "UNIV = set (enum_class.enum :: cr_field list)"
    by (simp add: univ enum_cr_field_def)
  show "distinct (enum_class.enum :: cr_field list)"
    by (simp add: enum_cr_field_def)
  show "enum_class.enum_all P = Ball UNIV P" for P :: "cr_field \<Rightarrow> bool"
    by (simp add: univ enum_all_cr_field_def)
  show "enum_class.enum_ex P = Bex UNIV P" for P :: "cr_field \<Rightarrow> bool"
    by (simp add: univ enum_ex_cr_field_def)
qed

end

text \<open>A JSON object of the status: field to null (\<open>None\<close>) or text.\<close>

type_synonym status_doc = "cr_field \<rightharpoonup> string option"

definition doc_text :: "status_doc \<Rightarrow> cr_field \<Rightarrow> string option" where
  "doc_text d f = Option.bind (d f) id"

definition read_status :: "status_doc \<Rightarrow> ModelCacheEntryStatus" where
  "read_status d = \<lparr>mst_phase = (case doc_text d FPhase of Some p \<Rightarrow> p | None \<Rightarrow> []),
     mst_created_at = doc_text d FCreatedAt, mst_last_used_at = doc_text d FLastUsedAt,
     mst_message = doc_text d FMessage, mst_claim_id = doc_text d FClaimId,
     mst_lease_expires_at = doc_text d FLeaseExpiresAt\<rparr>"

subsection \<open>The world: API server and replica-local observations\<close>

record LeaseFingerprint =
  lf_claim_id :: "string option"
  lf_lease_expires_at :: "string option"

record LeaseObservation =
  lo_fingerprint :: LeaseFingerprint
  lo_observed_at :: nat

type_synonym observations = "(string, LeaseObservation) hash_map"

definition lease_observation_expired ::
  "observations \<Rightarrow> string \<Rightarrow> LeaseFingerprint \<Rightarrow> nat \<Rightarrow> nat \<Rightarrow> bool \<times> observations" where
  "lease_observation_expired obs cr_name fp now lease_duration =
     (case hm_get obs cr_name of
        Some ob \<Rightarrow>
          if lo_fingerprint ob = fp then (lease_duration \<le> now - lo_observed_at ob, obs)
          else (lease_duration = 0,
                hm_insert cr_name \<lparr>lo_fingerprint = fp, lo_observed_at = now\<rparr> obs)
      | None \<Rightarrow> (lease_duration = 0,
                 hm_insert cr_name \<lparr>lo_fingerprint = fp, lo_observed_at = now\<rparr> obs))"

record stored_entry =
  st_spec :: ModelCacheEntrySpec
  st_status :: "status_doc option"
  st_version :: string

record kworld =
  kw_entries :: "(string, stored_entry) hash_map"
  kw_revision :: nat
  kw_instant :: "nat \<Rightarrow> nat"
  kw_obs :: "nat \<Rightarrow> observations"

datatype patch_op =
    TestVersion string
  | TestField cr_field string
  | AddStatus status_doc
  | AddField cr_field "string option"
  | ReplaceField cr_field "string option"

datatype kube_error = ApiErr nat | TransportErr

datatype kube_call =
    KGet string
  | KCreate string ModelCacheEntrySpec
  | KDelete string
  | KMerge string "(cr_field \<times> string option) list"
  | KJson string "patch_op list"
  | KList "nat option"
  | KUtcNow
  | KInstant
  | KObserve string LeaseFingerprint nat nat
  | KClear string

datatype kube_reply =
    REntry ModelCacheEntry
  | REntries "ModelCacheEntry list"
  | RTime int
  | RInstant nat
  | RExpired bool
  | RDone
  | RErr kube_error

definition entry_of :: "string \<Rightarrow> stored_entry \<Rightarrow> ModelCacheEntry" where
  "entry_of n e = \<lparr>mce_name = Some n, mce_resource_version = Some (st_version e),
     mce_spec = st_spec e, mce_status = map_option read_status (st_status e)\<rparr>"

text \<open>
  The schema of the resource definition. The API server prunes a null of the phase (the field is
  not nullable) and gives an absent phase its default, the empty string; then a phase or provider
  outside the enumeration is refused.
\<close>

definition cr_status_default :: "status_doc \<Rightarrow> status_doc" where
  "cr_status_default d = (case d FPhase of Some (Some p) \<Rightarrow> d | _ \<Rightarrow> d(FPhase \<mapsto> Some []))"

definition cr_status_valid :: "status_doc \<Rightarrow> bool" where
  "cr_status_valid d = (case d FPhase of Some (Some p) \<Rightarrow> p \<in> set PhaseSchema | _ \<Rightarrow> False)"

definition cr_spec_valid :: "ModelCacheEntrySpec \<Rightarrow> bool" where
  "cr_spec_valid sp = (mcs_provider sp \<in> set ProviderSchema)"

text \<open>RFC 6902 on the version and status of an entry: one failing operation fails the patch.\<close>

fun apply_op :: "string \<Rightarrow> patch_op \<Rightarrow> status_doc option \<Rightarrow> status_doc option option" where
  "apply_op v (TestVersion x) st = (if x = v then Some st else None)"
| "apply_op v (TestField f x) st =
     (case st of None \<Rightarrow> None | Some d \<Rightarrow> if d f = Some (Some x) then Some st else None)"
| "apply_op v (AddStatus d) st = Some (Some d)"
| "apply_op v (AddField f x) st = map_option (\<lambda>d. Some (d(f \<mapsto> x))) st"
| "apply_op v (ReplaceField f x) st =
     (case st of None \<Rightarrow> None | Some d \<Rightarrow> if d f = None then None else Some (Some (d(f \<mapsto> x))))"

fun apply_ops :: "string \<Rightarrow> patch_op list \<Rightarrow> status_doc option \<Rightarrow> status_doc option option" where
  "apply_ops v [] st = Some st"
| "apply_ops v (p # ps) st = Option.bind (apply_op v p st) (apply_ops v ps)"

text \<open>RFC 7386: a null removes the field, a value sets it.\<close>

fun apply_merge :: "(cr_field \<times> string option) list \<Rightarrow> status_doc \<Rightarrow> status_doc" where
  "apply_merge [] d = d"
| "apply_merge ((f, v) # m) d = apply_merge m (case v of None \<Rightarrow> d(f := None) | Some x \<Rightarrow> d(f \<mapsto> Some x))"

definition store_entry :: "string \<Rightarrow> ModelCacheEntrySpec \<Rightarrow> status_doc option \<Rightarrow> kworld \<Rightarrow> kworld" where
  "store_entry n sp st w = w\<lparr>
     kw_entries := hm_insert n \<lparr>st_spec = sp, st_status = st, st_version = show_nat (kw_revision w)\<rparr> (kw_entries w),
     kw_revision := Suc (kw_revision w)\<rparr>"

definition store_status :: "string \<Rightarrow> stored_entry \<Rightarrow> status_doc option \<Rightarrow> kworld \<Rightarrow> kube_reply \<times> kworld" where
  "store_status n e st w =
     (let st' = map_option cr_status_default st in
      if \<not> (case st' of None \<Rightarrow> True | Some d \<Rightarrow> cr_status_valid d) then (RErr (ApiErr 422), w)
      else if st' = st_status e then (RDone, w)
      else (RDone, store_entry n (st_spec e) st' w))"

fun kserve :: "nat \<Rightarrow> kube_call \<Rightarrow> kworld \<Rightarrow> kube_reply \<times> kworld" where
  "kserve r (KGet n) w =
     (case hm_get (kw_entries w) n of
        None \<Rightarrow> (RErr (ApiErr 404), w) | Some e \<Rightarrow> (REntry (entry_of n e), w))"
| "kserve r (KCreate n sp) w =
     (if \<not> is_dns1123_subdomain n \<or> \<not> cr_spec_valid sp then (RErr (ApiErr 422), w)
      else case hm_get (kw_entries w) n of
        Some _ \<Rightarrow> (RErr (ApiErr 409), w)
      | None \<Rightarrow> (REntry \<lparr>mce_name = Some n, mce_resource_version = Some (show_nat (kw_revision w)),
                         mce_spec = sp, mce_status = None\<rparr>, store_entry n sp None w))"
| "kserve r (KDelete n) w =
     (case hm_get (kw_entries w) n of
        None \<Rightarrow> (RErr (ApiErr 404), w)
      | Some _ \<Rightarrow> (RDone, w\<lparr>kw_entries := hm_remove n (kw_entries w), kw_revision := Suc (kw_revision w)\<rparr>))"
| "kserve r (KMerge n m) w =
     (case hm_get (kw_entries w) n of
        None \<Rightarrow> (RErr (ApiErr 404), w)
      | Some e \<Rightarrow> store_status n e
          (Some (apply_merge m (case st_status e of None \<Rightarrow> Map.empty | Some d \<Rightarrow> d))) w)"
| "kserve r (KJson n ops) w =
     (case hm_get (kw_entries w) n of
        None \<Rightarrow> (RErr (ApiErr 404), w)
      | Some e \<Rightarrow> (case apply_ops (st_version e) ops (st_status e) of
            None \<Rightarrow> (RErr (ApiErr 422), w)
          | Some st \<Rightarrow> store_status n e st w))"
| "kserve r (KList limit) w =
     (REntries ((case limit of None \<Rightarrow> (\<lambda>xs. xs) | Some k \<Rightarrow> take k)
        (map (\<lambda>(n, e). entry_of n e) (kw_entries w))), w)"
| "kserve r KUtcNow w = (RTime 0, w)"
| "kserve r KInstant w = (RInstant (kw_instant w r), w)"
| "kserve r (KObserve n fp now d) w =
     (let (b, obs) = lease_observation_expired (kw_obs w r) n fp now d
      in (RExpired b, w\<lparr>kw_obs := (kw_obs w)(r := obs)\<rparr>))"
| "kserve r (KClear n) w = (RDone, w\<lparr>kw_obs := (kw_obs w)(r := hm_remove n (kw_obs w r))\<rparr>)"

fun api_call :: "kube_call \<Rightarrow> bool" where
  "api_call KUtcNow = False"
| "api_call KInstant = False"
| "api_call (KObserve n fp t d) = False"
| "api_call (KClear n) = False"
| "api_call _ = True"

text \<open>
  One call of a replica: as served, or refused (anything but \<^verbatim>\<open>404\<close>, which reports absence),
  or carried out with its reply lost. The wall clock may read anything.
\<close>

inductive kstep :: "nat \<Rightarrow> kube_call \<Rightarrow> kworld \<Rightarrow> kube_reply \<Rightarrow> kworld \<Rightarrow> bool" where
  Served: "q \<noteq> KUtcNow \<Longrightarrow> kserve r q w = (a, w') \<Longrightarrow> kstep r q w a w'"
| Clock: "kstep r KUtcNow w (RTime t) w"
| Refused: "api_call q \<Longrightarrow> e \<noteq> ApiErr 404 \<Longrightarrow> kstep r q w (RErr e) w"
| Lost: "api_call q \<Longrightarrow> kserve r q w = (a, w') \<Longrightarrow> kstep r q w (RErr TransportErr) w'"

subsection \<open>Programs\<close>

type_synonym 'a kprog = "(kube_call, kube_reply, 'a) prog"

datatype kube_registry_error =
    KDigest
  | KApi kube_error
  | KUnknownProvider string
  | KInvalidTime string string
  | KNoName
  | KNoVersion
  | KDisappeared

text \<open>The typed views of a reply.\<close>

fun as_entry :: "kube_reply \<Rightarrow> kube_error + ModelCacheEntry" where
  "as_entry (REntry e) = Inr e"
| "as_entry (RErr e) = Inl e"
| "as_entry _ = Inl TransportErr"

fun as_entries :: "kube_reply \<Rightarrow> kube_error + ModelCacheEntry list" where
  "as_entries (REntries es) = Inr es"
| "as_entries (RErr e) = Inl e"
| "as_entries _ = Inl TransportErr"

fun as_done :: "kube_reply \<Rightarrow> kube_error + unit" where
  "as_done RDone = Inr ()"
| "as_done (RErr e) = Inl e"
| "as_done _ = Inl TransportErr"

fun as_time :: "kube_reply \<Rightarrow> int" where
  "as_time (RTime t) = t" | "as_time _ = 0"

fun as_instant :: "kube_reply \<Rightarrow> nat" where
  "as_instant (RInstant t) = t" | "as_instant _ = 0"

fun as_expired :: "kube_reply \<Rightarrow> bool" where
  "as_expired (RExpired b) = b" | "as_expired _ = False"

definition utc_now :: "(int \<Rightarrow> 'a kprog) \<Rightarrow> 'a kprog" where
  "utc_now k = Call KUtcNow (\<lambda>a. k (as_time a))"

definition clear_lease_observation :: "string \<Rightarrow> 'a kprog \<Rightarrow> 'a kprog" where
  "clear_lease_observation n k = Call (KClear n) (\<lambda>_. k)"

subsection \<open>Names\<close>

record KubeEnv =
  ke_sha256 :: "string \<Rightarrow> u8 list option"
  ke_fmt :: "int \<Rightarrow> string"
  ke_parse :: "string \<Rightarrow> int option"
  ke_checked_add :: "int \<Rightarrow> nat \<Rightarrow> int option"

definition sha256_hex :: "KubeEnv \<Rightarrow> string \<Rightarrow> kube_registry_error + string" where
  "sha256_hex env s = (case ke_sha256 env s of
      None \<Rightarrow> Inl KDigest | Some bytes \<Rightarrow> Inr (concat (map show_byte bytes)))"

definition hex_sha256 :: "KubeEnv \<Rightarrow> string \<Rightarrow> kube_registry_error + string" where
  "hex_sha256 env s = sha256_hex env s"

definition CR_NAME_PREFIX :: string where "CR_NAME_PREFIX = ''mx-cache-''"

definition KUBE_ALL_PROVIDERS :: "ModelProvider list" where
  "KUBE_ALL_PROVIDERS = [HuggingFace, Ngc, Gcs, S3]"

definition K8S_NAME_MAX :: nat where "K8S_NAME_MAX = 253"

definition NAME_BUDGET :: nat where "NAME_BUDGET = K8S_NAME_MAX - length CR_NAME_PREFIX"

definition HASH_SUFFIX_LEN :: nat where "HASH_SUFFIX_LEN = 12"

definition to_ascii_lowercase :: "char \<Rightarrow> char" where
  "to_ascii_lowercase c = (if is_ascii_uppercase c then char_of ((of_char c :: nat) + 32) else c)"

definition sanitize_char :: "char \<Rightarrow> string" where
  "sanitize_char c =
     (if c = CHR ''/'' then ''--''
      else if is_ascii_alphanumeric c then [to_ascii_lowercase c]
      else if c = CHR ''-'' \<or> c = CHR ''.'' then [c]
      else ''-'')"

definition name_edge :: "char \<Rightarrow> bool" where
  "name_edge c = (c = CHR ''-'' \<or> c = CHR ''.'')"

definition trim_matches :: "(char \<Rightarrow> bool) \<Rightarrow> string \<Rightarrow> string" where
  "trim_matches P s = rev (dropWhile P (rev (dropWhile P s)))"

definition sanitize_registry_name :: "KubeEnv \<Rightarrow> string \<Rightarrow> kube_registry_error + string" where
  "sanitize_registry_name env model_name =
     (let trimmed = trim_matches name_edge (concat (map sanitize_char model_name)) in
      sum_bind (hex_sha256 env model_name) (\<lambda>hash.
        let hash_suffix = take HASH_SUFFIX_LEN hash in
        if trimmed = [] then Inr hash_suffix
        else let max_prefix = NAME_BUDGET - (HASH_SUFFIX_LEN + 1);
                 prefix_len = min (length trimmed) max_prefix
             in Inr (take prefix_len trimmed @ ''-'' @ hash_suffix)))"

fun kube_provider_str :: "ModelProvider \<Rightarrow> string" where
  "kube_provider_str HuggingFace = ''HuggingFace''"
| "kube_provider_str Ngc = ''Ngc''"
| "kube_provider_str Gcs = ''Gcs''"
| "kube_provider_str S3 = ''S3''"

definition kube_provider_from_str :: "string \<Rightarrow> kube_registry_error + ModelProvider" where
  "kube_provider_from_str s =
     (if s = ''HuggingFace'' then Inr HuggingFace
      else if s = ''Ngc'' then Inr Ngc
      else if s = ''Gcs'' then Inr Gcs
      else if s = ''S3'' then Inr S3
      else Inl (KUnknownProvider s))"

definition cr_name_for :: "KubeEnv \<Rightarrow> ModelProvider \<Rightarrow> string \<Rightarrow> kube_registry_error + string" where
  "cr_name_for env provider model_name =
     sum_bind (sanitize_registry_name env (kube_provider_str provider @ ''/'' @ model_name))
       (\<lambda>n. Inr (CR_NAME_PREFIX @ n))"

definition legacy_cr_name_for :: "KubeEnv \<Rightarrow> string \<Rightarrow> kube_registry_error + string" where
  "legacy_cr_name_for env model_name =
     sum_bind (sanitize_registry_name env model_name) (\<lambda>n. Inr (CR_NAME_PREFIX @ n))"

definition candidate_cr_names :: "KubeEnv \<Rightarrow> string \<Rightarrow> kube_registry_error + string list" where
  "candidate_cr_names env model_name =
     sum_bind (collect_results (\<lambda>p. cr_name_for env p model_name) KUBE_ALL_PROVIDERS) (\<lambda>names.
     sum_bind (legacy_cr_name_for env model_name) (\<lambda>legacy. Inr (names @ [legacy])))"

subsection \<open>Statuses and records\<close>

definition status_from_phase :: "string \<Rightarrow> ModelStatus" where
  "status_from_phase p =
     (if p = phase_DOWNLOADING then DOWNLOADING
      else if p = phase_DOWNLOADED then DOWNLOADED
      else if p = phase_ERROR then ERROR
      else if p = [] then DOWNLOADING
      else ERROR)"

fun phase_from_status :: "ModelStatus \<Rightarrow> string" where
  "phase_from_status DOWNLOADING = phase_DOWNLOADING"
| "phase_from_status DOWNLOADED = phase_DOWNLOADED"
| "phase_from_status ERROR = phase_ERROR"

definition kube_parse_rfc3339 :: "KubeEnv \<Rightarrow> string \<Rightarrow> string \<Rightarrow> kube_registry_error + int" where
  "kube_parse_rfc3339 env s fld =
     (case ke_parse env s of Some t \<Rightarrow> Inr t | None \<Rightarrow> Inl (KInvalidTime fld s))"

definition kube_lease_deadline :: "KubeEnv \<Rightarrow> nat \<Rightarrow> (int \<Rightarrow> 'a kprog) \<Rightarrow> 'a kprog" where
  "kube_lease_deadline env d k =
     utc_now (\<lambda>now. k (case ke_checked_add env now d of Some t \<Rightarrow> t | None \<Rightarrow> now))"

definition status_or_default :: "ModelCacheEntry \<Rightarrow> ModelCacheEntryStatus" where
  "status_or_default cr = (case mce_status cr of Some st \<Rightarrow> st | None \<Rightarrow> default_status)"

definition record_from_cr_at :: "KubeEnv \<Rightarrow> int \<Rightarrow> ModelCacheEntry \<Rightarrow> kube_registry_error + ModelRecord" where
  "record_from_cr_at env now cr =
     (let status = status_or_default cr in
      sum_bind (kube_provider_from_str (mcs_provider (mce_spec cr))) (\<lambda>provider.
      sum_bind (case mst_created_at status of
          Some s \<Rightarrow> kube_parse_rfc3339 env s ''createdAt'' | None \<Rightarrow> Inr now) (\<lambda>created.
      sum_bind (case mst_last_used_at status of
          Some s \<Rightarrow> kube_parse_rfc3339 env s ''lastUsedAt'' | None \<Rightarrow> Inr now) (\<lambda>used.
      Inr \<lparr>mr_model_name = mcs_model_name (mce_spec cr), mr_provider = provider,
           mr_status = status_from_phase (mst_phase status), mr_created_at = created,
           mr_last_used_at = used, mr_message = mst_message status\<rparr>))))"

definition record_from_cr :: "KubeEnv \<Rightarrow> ModelCacheEntry \<Rightarrow> (kube_registry_error + ModelRecord) kprog" where
  "record_from_cr env cr =
     plift (kube_provider_from_str (mcs_provider (mce_spec cr))) (\<lambda>_.
     utc_now (\<lambda>now. Return (record_from_cr_at env now cr)))"

definition lease_has_expired :: "string \<Rightarrow> ModelCacheEntryStatus \<Rightarrow> nat \<Rightarrow> (bool \<Rightarrow> 'a kprog) \<Rightarrow> 'a kprog" where
  "lease_has_expired cr_name status d k =
     (let fp = \<lparr>lf_claim_id = mst_claim_id status, lf_lease_expires_at = mst_lease_expires_at status\<rparr> in
      Call KInstant (\<lambda>now. Call (KObserve cr_name fp (as_instant now) d) (\<lambda>b. k (as_expired b))))"

subsection \<open>Requests\<close>

record StatusPatch =
  sp_phase :: "string option"
  sp_last_used_at :: "string option"
  sp_created_at :: "string option"
  sp_message :: "string option option"
  sp_claim_id :: "string option option"
  sp_lease_expires_at :: "string option option"

definition no_patch :: StatusPatch where
  "no_patch = \<lparr>sp_phase = None, sp_last_used_at = None, sp_created_at = None, sp_message = None,
     sp_claim_id = None, sp_lease_expires_at = None\<rparr>"

definition merge_field :: "cr_field \<Rightarrow> 'a option \<Rightarrow> ('a \<Rightarrow> string option) \<Rightarrow> (cr_field \<times> string option) list" where
  "merge_field f v g = (case v of None \<Rightarrow> [] | Some x \<Rightarrow> [(f, g x)])"

definition status_patch_doc :: "StatusPatch \<Rightarrow> (cr_field \<times> string option) list" where
  "status_patch_doc u =
     merge_field FPhase (sp_phase u) Some @ merge_field FLastUsedAt (sp_last_used_at u) Some
     @ merge_field FCreatedAt (sp_created_at u) Some @ merge_field FMessage (sp_message u) id
     @ merge_field FClaimId (sp_claim_id u) id @ merge_field FLeaseExpiresAt (sp_lease_expires_at u) id"

definition patch_status :: "string \<Rightarrow> StatusPatch \<Rightarrow> (kube_registry_error + unit) kprog" where
  "patch_status cr_name u =
     (let m = status_patch_doc u in
      if m = [] then Return (Inr ())
      else Call (KMerge cr_name m) (\<lambda>a. Return (map_err KApi (as_done a))))"

definition get_cr :: "string \<Rightarrow> (kube_registry_error + ModelCacheEntry option) kprog" where
  "get_cr cr_name = Call (KGet cr_name) (\<lambda>a. Return (case as_entry a of
       Inr cr \<Rightarrow> Inr (Some cr)
     | Inl e \<Rightarrow> if e = ApiErr 404 then Inr None else Inl (KApi e)))"

subsection \<open>The backend's methods\<close>

definition kube_connect :: "(kube_registry_error + unit) kprog" where
  "kube_connect = Call (KList (Some 1)) (\<lambda>a. Return (case as_entries a of
     Inl e \<Rightarrow> Inl (KApi e) | Inr _ \<Rightarrow> Inr ()))"

fun first_existing :: "string list \<Rightarrow> (kube_registry_error + ModelCacheEntry option) kprog" where
  "first_existing [] = Return (Inr None)"
| "first_existing (n # ns) = ptry (get_cr n) (\<lambda>x. case x of
       Some cr \<Rightarrow> Return (Inr (Some cr)) | None \<Rightarrow> first_existing ns)"

definition find_existing_cr :: "KubeEnv \<Rightarrow> string \<Rightarrow> (kube_registry_error + ModelCacheEntry option) kprog" where
  "find_existing_cr env model_name = plift (candidate_cr_names env model_name) first_existing"

definition kube_get_status :: "KubeEnv \<Rightarrow> string \<Rightarrow> (kube_registry_error + ModelStatus option) kprog" where
  "kube_get_status env model_name = ptry (find_existing_cr env model_name) (\<lambda>x. Return (Inr
     (map_option (\<lambda>cr. status_from_phase (mst_phase (status_or_default cr))) x)))"

definition kube_get_model_record :: "KubeEnv \<Rightarrow> string \<Rightarrow> (kube_registry_error + ModelRecord option) kprog" where
  "kube_get_model_record env model_name = ptry (find_existing_cr env model_name) (\<lambda>x. case x of
       None \<Rightarrow> Return (Inr None)
     | Some cr \<Rightarrow> ptry (record_from_cr env cr) (\<lambda>r. Return (Inr (Some r))))"

text \<open>Creating an entry, where a name conflict is a branch of its own.\<close>

definition create_cr :: "string \<Rightarrow> ModelCacheEntrySpec \<Rightarrow>
    (ModelCacheEntry \<Rightarrow> (kube_registry_error + 'a) kprog) \<Rightarrow> (kube_registry_error + 'a) kprog \<Rightarrow>
    (kube_registry_error + 'a) kprog" where
  "create_cr n sp created conflict = Call (KCreate n sp) (\<lambda>a. case as_entry a of
       Inr cr \<Rightarrow> created cr
     | Inl e \<Rightarrow> if e = ApiErr 409 then conflict else Return (Inl (KApi e)))"

definition kube_set_status :: "KubeEnv \<Rightarrow> string \<Rightarrow> ModelProvider \<Rightarrow> ModelStatus \<Rightarrow> string option \<Rightarrow>
    (kube_registry_error + unit) kprog" where
  "kube_set_status env model_name provider status message =
     plift (cr_name_for env provider model_name) (\<lambda>cr_name.
     utc_now (\<lambda>t. let now = ke_fmt env t in
     ptry (get_cr cr_name) (\<lambda>existing.
     let needs_created_at =
           (Option.bind (Option.bind existing mce_status) mst_created_at = None);
         patch = patch_status cr_name \<lparr>sp_phase = Some (phase_from_status status),
           sp_last_used_at = Some now,
           sp_created_at = (if needs_created_at then Some now else None),
           sp_message = Some message,
           sp_claim_id = (if status = DOWNLOADING then None else Some None),
           sp_lease_expires_at = (if status = DOWNLOADING then None else Some None)\<rparr>
     in case existing of
          Some _ \<Rightarrow> patch
        | None \<Rightarrow> create_cr cr_name
            \<lparr>mcs_model_name = model_name, mcs_provider = kube_provider_str provider\<rparr>
            (\<lambda>_. patch) patch)))"

definition kube_touch_model :: "KubeEnv \<Rightarrow> string \<Rightarrow> (kube_registry_error + unit) kprog" where
  "kube_touch_model env model_name = ptry (find_existing_cr env model_name) (\<lambda>x. case x of
       None \<Rightarrow> Return (Inr ())
     | Some cr \<Rightarrow> (case mce_name cr of
           None \<Rightarrow> Return (Inr ())
         | Some cr_name \<Rightarrow> utc_now (\<lambda>t.
             patch_status cr_name (no_patch\<lparr>sp_last_used_at := Some (ke_fmt env t)\<rparr>))))"

fun delete_each :: "string list \<Rightarrow> (kube_registry_error + unit) kprog" where
  "delete_each [] = Return (Inr ())"
| "delete_each (n # ns) = Call (KDelete n) (\<lambda>a. case as_done a of
       Inl e \<Rightarrow> if e = ApiErr 404 then clear_lease_observation n (delete_each ns)
                else Return (Inl (KApi e))
     | Inr _ \<Rightarrow> clear_lease_observation n (delete_each ns))"

definition kube_delete_model :: "KubeEnv \<Rightarrow> string \<Rightarrow> (kube_registry_error + unit) kprog" where
  "kube_delete_model env model_name = plift (candidate_cr_names env model_name) delete_each"

fun records_of :: "KubeEnv \<Rightarrow> ModelCacheEntry list \<Rightarrow> (kube_registry_error + ModelRecord list) kprog" where
  "records_of env [] = Return (Inr [])"
| "records_of env (cr # crs) = pbind (record_from_cr env cr) (\<lambda>x.
     ptry (records_of env crs) (\<lambda>rs. Return (Inr (case x of Inr r \<Rightarrow> r # rs | Inl _ \<Rightarrow> rs))))"

definition kube_get_models_by_last_used :: "KubeEnv \<Rightarrow> u32 option \<Rightarrow> (kube_registry_error + ModelRecord list) kprog" where
  "kube_get_models_by_last_used env limit = Call (KList None) (\<lambda>a.
     plift (map_err KApi (as_entries a)) (\<lambda>crs.
     ptry (records_of env crs) (\<lambda>records.
       let sorted_records = sort_key mr_last_used_at records in
       Return (Inr (case limit of None \<Rightarrow> sorted_records | Some n \<Rightarrow> take (unat n) sorted_records)))))"

fun kube_count_status :: "ModelStatus \<Rightarrow> u32 \<times> u32 \<times> u32 \<Rightarrow> u32 \<times> u32 \<times> u32" where
  "kube_count_status DOWNLOADING (d, o', e) = (u32_saturating_add d 1, o', e)"
| "kube_count_status DOWNLOADED (d, o', e) = (d, u32_saturating_add o' 1, e)"
| "kube_count_status ERROR (d, o', e) = (d, o', u32_saturating_add e 1)"

definition kube_get_status_counts :: "(kube_registry_error + u32 \<times> u32 \<times> u32) kprog" where
  "kube_get_status_counts = Call (KList None) (\<lambda>a. plift (map_err KApi (as_entries a)) (\<lambda>crs.
     Return (Inr (fold (\<lambda>cr. kube_count_status (status_from_phase (mst_phase (status_or_default cr)))) crs (0, 0, 0)))))"

subsection \<open>Claims\<close>

definition claim_doc :: "string \<Rightarrow> string \<Rightarrow> string \<Rightarrow> status_doc" where
  "claim_doc claim_id now lease_expires_at = [FPhase \<mapsto> Some phase_DOWNLOADING,
     FCreatedAt \<mapsto> Some now, FLastUsedAt \<mapsto> Some now, FMessage \<mapsto> Some ''Starting download...'',
     FClaimId \<mapsto> Some claim_id, FLeaseExpiresAt \<mapsto> Some lease_expires_at]"

definition claim_ops :: "bool \<Rightarrow> string \<Rightarrow> string \<Rightarrow> string \<Rightarrow> string \<Rightarrow> patch_op list" where
  "claim_ops status_missing resource_version claim_id now lease_expires_at =
     TestVersion resource_version #
     (if status_missing then [AddStatus (claim_doc claim_id now lease_expires_at)]
      else [TestField FPhase phase_DOWNLOADING, AddField FClaimId (Some claim_id),
            AddField FLeaseExpiresAt (Some lease_expires_at),
            AddField FMessage (Some ''Taking over expired download lease...''),
            AddField FLastUsedAt (Some now)])"

definition current_status :: "string \<Rightarrow> (kube_registry_error + ModelStatus) kprog" where
  "current_status cr_name = ptry (get_cr cr_name) (\<lambda>x. Return (Inr
     (case Option.bind x mce_status of
        None \<Rightarrow> DOWNLOADING | Some st \<Rightarrow> status_from_phase (mst_phase st))))"

definition take_claim :: "KubeEnv \<Rightarrow> string \<Rightarrow> string \<Rightarrow> bool \<Rightarrow> string \<Rightarrow> nat \<Rightarrow> bool \<Rightarrow>
    (kube_registry_error + ClaimOutcome) kprog" where
  "take_claim env cr_name resource_version status_missing claim_id d is_fresh_claim =
     utc_now (\<lambda>t. kube_lease_deadline env d (\<lambda>dl.
     Call (KJson cr_name
            (claim_ops status_missing resource_version claim_id (ke_fmt env t) (ke_fmt env dl))) (\<lambda>a.
       case as_done a of
         Inr _ \<Rightarrow> clear_lease_observation cr_name
                  (Return (Inr (if is_fresh_claim then Claimed else TookOver)))
       | Inl e \<Rightarrow> if e = ApiErr 409 \<or> e = ApiErr 422
                  then ptry (current_status cr_name) (\<lambda>st. Return (Inr (AlreadyExists st)))
                  else Return (Inl (KApi e)))))"

definition try_claim_existing :: "KubeEnv \<Rightarrow> ModelCacheEntry \<Rightarrow> string \<Rightarrow> nat \<Rightarrow> bool \<Rightarrow>
    (kube_registry_error + ClaimOutcome) kprog" where
  "try_claim_existing env cr claim_id d claim_uninitialized =
     (let status_missing = (mce_status cr = None);
          status = status_or_default cr;
          current = status_from_phase (mst_phase status)
      in if current \<noteq> DOWNLOADING then
           (case mce_name cr of
              Some cr_name \<Rightarrow> clear_lease_observation cr_name (Return (Inr (AlreadyExists current)))
            | None \<Rightarrow> Return (Inr (AlreadyExists current)))
         else plift (ok_or KNoName (mce_name cr)) (\<lambda>cr_name.
           plift (ok_or KNoVersion (mce_resource_version cr)) (\<lambda>resource_version.
           let is_fresh_claim = (status_missing \<and> claim_uninitialized);
               claim = take_claim env cr_name resource_version status_missing claim_id d is_fresh_claim
           in if is_fresh_claim then claim
              else lease_has_expired cr_name status d (\<lambda>expired.
                if expired then claim else Return (Inr (AlreadyExists DOWNLOADING))))))"

definition legacy_patch :: "ModelCacheEntryStatus \<Rightarrow> StatusPatch" where
  "legacy_patch st = \<lparr>sp_phase = Some (phase_from_status (status_from_phase (mst_phase st))),
     sp_last_used_at = mst_last_used_at st, sp_created_at = mst_created_at st,
     sp_message = Some (mst_message st), sp_claim_id = Some (mst_claim_id st),
     sp_lease_expires_at = Some (mst_lease_expires_at st)\<rparr>"

definition finish_adoption :: "string \<Rightarrow> string \<Rightarrow> (kube_registry_error + ClaimOutcome option) kprog" where
  "finish_adoption legacy_name scoped_name =
     Call (KDelete legacy_name) (\<lambda>_. ptry (get_cr scoped_name) (\<lambda>x.
       Return (Inr (Some (AlreadyExists (status_from_phase (mst_phase
         (case Option.bind x mce_status of Some st \<Rightarrow> st | None \<Rightarrow> default_status))))))))"

definition adopt_legacy_cr :: "KubeEnv \<Rightarrow> string \<Rightarrow> ModelProvider \<Rightarrow> string \<Rightarrow>
    (kube_registry_error + ClaimOutcome option) kprog" where
  "adopt_legacy_cr env model_name provider scoped_name =
     plift (legacy_cr_name_for env model_name) (\<lambda>legacy_name.
     ptry (get_cr legacy_name) (\<lambda>x. case x of
       None \<Rightarrow> Return (Inr None)
     | Some legacy_cr \<Rightarrow> plift (kube_provider_from_str (mcs_provider (mce_spec legacy_cr))) (\<lambda>p.
         if p \<noteq> provider then Return (Inr None)
         else create_cr scoped_name
                \<lparr>mcs_model_name = mcs_model_name (mce_spec legacy_cr),
                 mcs_provider = mcs_provider (mce_spec legacy_cr)\<rparr>
                (\<lambda>_. ptry (patch_status scoped_name (legacy_patch (status_or_default legacy_cr)))
                        (\<lambda>_. finish_adoption legacy_name scoped_name))
                (finish_adoption legacy_name scoped_name))))"

definition claim_new :: "KubeEnv \<Rightarrow> string \<Rightarrow> ModelProvider \<Rightarrow> string \<Rightarrow> string \<Rightarrow> nat \<Rightarrow>
    (kube_registry_error + ClaimOutcome) kprog" where
  "claim_new env model_name provider cr_name claim_id d =
     create_cr cr_name \<lparr>mcs_model_name = model_name, mcs_provider = kube_provider_str provider\<rparr>
       (\<lambda>created. try_claim_existing env created claim_id d True)
       (ptry (get_cr cr_name) (\<lambda>x. case x of
           None \<Rightarrow> Return (Inl KDisappeared)
         | Some existing \<Rightarrow> try_claim_existing env existing claim_id d False))"

definition kube_try_claim_for_download :: "KubeEnv \<Rightarrow> string \<Rightarrow> ModelProvider \<Rightarrow> string \<Rightarrow> nat \<Rightarrow>
    (kube_registry_error + ClaimOutcome) kprog" where
  "kube_try_claim_for_download env model_name provider claim_id d =
     plift (cr_name_for env provider model_name) (\<lambda>cr_name.
     ptry (get_cr cr_name) (\<lambda>x. case x of
       Some cr \<Rightarrow> try_claim_existing env cr claim_id d False
     | None \<Rightarrow> ptry (adopt_legacy_cr env model_name provider cr_name) (\<lambda>outcome. case outcome of
           Some oc \<Rightarrow> Return (Inr oc)
         | None \<Rightarrow> claim_new env model_name provider cr_name claim_id d)))"

definition kube_try_reset_error_for_retry :: "KubeEnv \<Rightarrow> string \<Rightarrow> ModelProvider \<Rightarrow> string \<Rightarrow> nat \<Rightarrow>
    (kube_registry_error + bool) kprog" where
  "kube_try_reset_error_for_retry env model_name provider claim_id d =
     plift (cr_name_for env provider model_name) (\<lambda>cr_name.
     ptry (get_cr cr_name) (\<lambda>x. case x of
       None \<Rightarrow> Return (Inr False)
     | Some existing \<Rightarrow>
         if mst_phase (status_or_default existing) \<noteq> phase_ERROR then Return (Inr False)
         else utc_now (\<lambda>t. kube_lease_deadline env d (\<lambda>dl.
           Call (KJson cr_name
             [TestField FPhase phase_ERROR, ReplaceField FPhase (Some phase_DOWNLOADING),
              ReplaceField FMessage (Some ''Retrying download...''),
              ReplaceField FLastUsedAt (Some (ke_fmt env t)),
              AddField FClaimId (Some claim_id), AddField FLeaseExpiresAt (Some (ke_fmt env dl))]) (\<lambda>a.
           case as_done a of
             Inr _ \<Rightarrow> clear_lease_observation cr_name (Return (Inr True))
           | Inl e \<Rightarrow> if e = ApiErr 422 \<or> e = ApiErr 409 then Return (Inr False)
                      else Return (Inl (KApi e)))))))"

definition lost_ownership :: "kube_error \<Rightarrow> bool" where
  "lost_ownership e = (e = ApiErr 404 \<or> e = ApiErr 409 \<or> e = ApiErr 422)"

definition kube_refresh_download_claim :: "KubeEnv \<Rightarrow> string \<Rightarrow> ModelProvider \<Rightarrow> string \<Rightarrow> nat \<Rightarrow>
    (kube_registry_error + bool) kprog" where
  "kube_refresh_download_claim env model_name provider claim_id d =
     plift (cr_name_for env provider model_name) (\<lambda>cr_name.
     utc_now (\<lambda>t. kube_lease_deadline env d (\<lambda>dl.
     Call (KJson cr_name
       [TestField FPhase phase_DOWNLOADING, TestField FClaimId claim_id,
        AddField FLeaseExpiresAt (Some (ke_fmt env dl)), AddField FLastUsedAt (Some (ke_fmt env t))]) (\<lambda>a.
     case as_done a of
       Inr _ \<Rightarrow> Return (Inr True)
     | Inl e \<Rightarrow> if lost_ownership e then Return (Inr False) else Return (Inl (KApi e))))))"

definition kube_finish_download_claim :: "KubeEnv \<Rightarrow> string \<Rightarrow> ModelProvider \<Rightarrow> string \<Rightarrow> ModelStatus \<Rightarrow>
    string option \<Rightarrow> (kube_registry_error + bool) kprog" where
  "kube_finish_download_claim env model_name provider claim_id status message =
     plift (cr_name_for env provider model_name) (\<lambda>cr_name.
     utc_now (\<lambda>t.
     Call (KJson cr_name
       [TestField FPhase phase_DOWNLOADING, TestField FClaimId claim_id,
        ReplaceField FPhase (Some (phase_from_status status)), AddField FMessage message,
        AddField FLastUsedAt (Some (ke_fmt env t)), AddField FClaimId None,
        AddField FLeaseExpiresAt None]) (\<lambda>a.
     case as_done a of
       Inr _ \<Rightarrow> clear_lease_observation cr_name (Return (Inr True))
     | Inl e \<Rightarrow> if lost_ownership e then Return (Inr False) else Return (Inl (KApi e)))))"

end
