(* ===== verification/Kube_Programs.thy ===== *)
theory Kube_Programs
  imports Registry_Kube
begin

text \<open>
  Reasoning about the programs of the Kubernetes registry backend. \<open>pwp\<close> is a weakest
  precondition over the call tree: a condition on every call a program makes and on every result
  it returns, given the calls made so far. \<open>krun\<close> interleaves the calls of all sessions of all
  replicas on one world, with time passing and replicas restarting in between; \<open>follows\<close> says
  that the calls of one session are a complete run of a program. The lemmas on
  resource versions, clocks and observations along a run are what the claim theorems use.
\<close>

type_synonym call_trace = "(kube_call, kube_reply) trace"

subsection \<open>Conditions over a call tree\<close>

text \<open>
  What every reply of the server satisfies: an entry is the one asked for, and a created entry
  has no status yet.
\<close>

definition reply_ok :: "kube_call \<Rightarrow> kube_reply \<Rightarrow> bool" where
  "reply_ok q a = (\<forall>cr. a = REntry cr \<longrightarrow>
     (\<forall>n. q = KGet n \<longrightarrow> mce_name cr = Some n)
     \<and> (\<forall>n sp. q = KCreate n sp \<longrightarrow> mce_name cr = Some n \<and> mce_status cr = None))"

text \<open>The trace \<open>h\<close> is the calls made so far, the latest first.\<close>

abbreviation kwp :: "(call_trace \<Rightarrow> kube_call \<Rightarrow> bool) \<Rightarrow> (call_trace \<Rightarrow> 'a \<Rightarrow> bool) \<Rightarrow> 'a kprog \<Rightarrow> call_trace \<Rightarrow> bool" where
  "kwp \<equiv> pwp reply_ok"

lemma reply_ok_local [simp]:
  "reply_ok KUtcNow a" "reply_ok KInstant a" "reply_ok (KObserve n fp t d) a" "reply_ok (KClear n) a"
  "reply_ok (KJson n ops) a" "reply_ok (KMerge n m) a" "reply_ok (KDelete n) a" "reply_ok (KList l) a"
  by (simp_all add: reply_ok_def)

lemma kstep_reply_ok: "kstep r q w a w' \<Longrightarrow> reply_ok q a"
  by (auto elim!: kstep.cases simp: reply_ok_def entry_of_def split: option.splits if_splits)

lemma pwp_utc_now [simp]:
  "kwp P Q (utc_now k) h = (P h KUtcNow \<and> (\<forall>a. kwp P Q (k (as_time a)) ((KUtcNow, a) # h)))"
  by (simp add: utc_now_def)

lemma pwp_kube_lease_deadline [simp]:
  "kwp P Q (kube_lease_deadline env d k) h = (P h KUtcNow \<and> (\<forall>a. kwp P Q
     (k (case ke_checked_add env (as_time a) d of Some t \<Rightarrow> t | None \<Rightarrow> as_time a)) ((KUtcNow, a) # h)))"
  by (simp add: kube_lease_deadline_def)

lemma pwp_clear [simp]:
  "kwp P Q (clear_lease_observation n k) h = (P h (KClear n) \<and> (\<forall>a. kwp P Q k ((KClear n, a) # h)))"
  by (simp add: clear_lease_observation_def)

lemma pwp_get_cr:
  "kwp P Q (get_cr n) h = (P h (KGet n) \<and> (\<forall>a. reply_ok (KGet n) a \<longrightarrow> Q ((KGet n, a) # h) (case as_entry a of
       Inr cr \<Rightarrow> Inr (Some cr)
     | Inl e \<Rightarrow> if e = ApiErr 404 then Inr None else Inl (KApi e))))"
  by (simp add: get_cr_def)

lemma as_entry_Inr_iff: "as_entry a = Inr cr \<longleftrightarrow> a = REntry cr"
  by (cases a) auto

lemma as_done_Inr_iff: "as_done a = Inr u \<longleftrightarrow> a = RDone"
  by (cases a) auto

subsection \<open>Interleaved runs\<close>

text \<open>Between calls time passes on a replica's clock, or a replica restarts and forgets.\<close>

datatype kube_env = Tick nat nat | Restart nat

primrec kenv :: "kube_env \<Rightarrow> kworld \<Rightarrow> kworld" where
  "kenv (Tick r d) w = w\<lparr>kw_instant := (kw_instant w)(r := kw_instant w r + d)\<rparr>"
| "kenv (Restart r) w = w\<lparr>kw_obs := (kw_obs w)(r := [])\<rparr>"

lemma kenv_keeps [simp]:
  "kw_entries (kenv e w) = kw_entries w" "kw_revision (kenv e w) = kw_revision w"
  "kw_instant w r \<le> kw_instant (kenv e w) r"
  by (cases e; simp)+

type_synonym kevent = "(kube_call, kube_reply, kube_env) event"

abbreviation krun :: "kworld \<Rightarrow> kevent list \<Rightarrow> kworld \<Rightarrow> bool" where
  "krun \<equiv> run kstep kenv"

lemma krun_reply_ok: "krun w es w' \<Longrightarrow> (q, a) \<in> set (session p es) \<Longrightarrow> reply_ok q a"
  using run_replies [of kstep kenv w es w' reply_ok] kstep_reply_ok by metis

subsection \<open>What a step keeps\<close>

lemma store_status_cases:
  obtains (Refused) "store_status n e st w = (RErr (ApiErr 422), w)"
  | (Same) "store_status n e st w = (RDone, w)" "st_status e = map_option cr_status_default st"
  | (Stored) "store_status n e st w = (RDone, store_entry n (st_spec e) (map_option cr_status_default st) w)"
proof -
  let ?st = "map_option cr_status_default st"
  let ?ok = "case ?st of None \<Rightarrow> True | Some d \<Rightarrow> cr_status_valid d"
  have eq: "store_status n e st w = (if \<not> ?ok then (RErr (ApiErr 422), w)
      else if ?st = st_status e then (RDone, w) else (RDone, store_entry n (st_spec e) ?st w))"
    by (simp only: store_status_def Let_def)
  show ?thesis
  proof (cases ?ok)
    case False
    then show ?thesis by (intro that(1)) (simp only: eq if_True simp_thms)
  next
    case ok: True
    show ?thesis
    proof (cases "?st = st_status e")
      case True
      have "store_status n e st w = (RDone, w)" by (simp only: eq ok True [symmetric] if_True if_False simp_thms)
      then show ?thesis using that(2) True [symmetric] by blast
    next
      case False
      then show ?thesis by (intro that(3)) (simp only: eq ok if_True if_False simp_thms)
    qed
  qed
qed

text \<open>The default of the schema touches the phase alone, and only where there is none.\<close>

lemma cr_status_default_keeps [simp]:
  "f \<noteq> FPhase \<Longrightarrow> cr_status_default d f = d f"
  "d FPhase = Some (Some p) \<Longrightarrow> cr_status_default d = d"
  by (auto simp: cr_status_default_def split: option.splits)

definition entry_at :: "kworld \<Rightarrow> string \<Rightarrow> stored_entry option" where
  "entry_at w n = hm_get (kw_entries w) n"

lemma entry_at_store_entry:
  "entry_at (store_entry n sp st w) m =
     (if m = n then Some \<lparr>st_spec = sp, st_status = st, st_version = show_nat (kw_revision w)\<rparr>
      else entry_at w m)"
  by (simp add: store_entry_def entry_at_def hm_simps)

lemma store_entry_keeps [simp]:
  "kw_revision (store_entry n sp st w) = Suc (kw_revision w)"
  "kw_instant (store_entry n sp st w) = kw_instant w"
  "kw_obs (store_entry n sp st w) = kw_obs w"
  by (simp_all add: store_entry_def)

text \<open>A call changes an entry at most to absent or to one with a version never used before.\<close>

definition renewed :: "nat \<Rightarrow> stored_entry option \<Rightarrow> stored_entry option \<Rightarrow> bool" where
  "renewed k x y = (y = x \<or> y = None \<or> (\<exists>e j. y = Some e \<and> k \<le> j \<and> st_version e = show_nat j))"

lemma kserve_renews:
  assumes "kserve r q w = (a, w')"
  shows "kw_revision w \<le> kw_revision w' \<and> renewed (kw_revision w) (entry_at w n) (entry_at w' n)"
proof -
  have st: "kw_revision w \<le> kw_revision (snd (store_status m e st w))
      \<and> renewed (kw_revision w) (entry_at w n) (entry_at (snd (store_status m e st w)) n)" for m e st
    by (rule store_status_cases [of m e st w]) (auto simp: renewed_def entry_at_store_entry)
  show ?thesis
  proof (cases q)
    case (KCreate m sp)
    then show ?thesis using assms by (auto simp: renewed_def entry_at_store_entry split: if_splits option.splits)
  next
    case (KDelete m)
    then show ?thesis using assms
      by (auto simp: renewed_def entry_at_def hm_simps split: option.splits)
  next
    case (KMerge m d)
    then show ?thesis using assms st
      by (auto simp: renewed_def split: option.splits) (metis snd_conv)+
  next
    case (KJson m ops)
    then show ?thesis using assms st
      by (auto simp: renewed_def split: option.splits) (metis snd_conv)+
  qed (use assms in \<open>auto simp: renewed_def entry_at_def Let_def split: option.splits prod.splits\<close>)
qed

lemma kstep_effect: "kstep r q w a w' \<Longrightarrow> w' = w \<or> w' = snd (kserve r q w)"
  by (auto elim!: kstep.cases)

lemma renewed_refl [simp]: "renewed k x x"
  by (simp add: renewed_def)

lemma renewed_trans: "renewed k x y \<Longrightarrow> renewed k' y z \<Longrightarrow> k \<le> k' \<Longrightarrow> renewed k x z"
  unfolding renewed_def by (metis order_trans option.distinct(1) option.inject)

lemma kstep_renews:
  assumes "kstep r q w a w'"
  shows "kw_revision w \<le> kw_revision w' \<and> renewed (kw_revision w) (entry_at w n) (entry_at w' n)"
  using kstep_effect [OF assms] kserve_renews [of r q w "fst (kserve r q w)" "snd (kserve r q w)" n] by auto

lemma krun_renews:
  assumes "krun w es w'"
  shows "kw_revision w \<le> kw_revision w' \<and> renewed (kw_revision w) (entry_at w n) (entry_at w' n)"
  using assms
proof induction
  case (run_Act p q w a w' es w'')
  then show ?case using kstep_renews [OF run_Act.hyps(1), of n] by (meson order_trans renewed_trans)
qed (simp_all add: entry_at_def)

definition versions_ok :: "kworld \<Rightarrow> bool" where
  "versions_ok w = (\<forall>n e. entry_at w n = Some e \<longrightarrow> (\<exists>j<kw_revision w. st_version e = show_nat j))"

text \<open>One resource version stands for one content, as long as the run lasts.\<close>

lemma same_version_same_entry:
  assumes "krun w es w'" and "versions_ok w"
    and "entry_at w n = Some e" and "entry_at w' n = Some e'" and "st_version e' = st_version e"
  shows "e' = e"
proof (rule ccontr)
  assume "e' \<noteq> e"
  then obtain j where "kw_revision w \<le> j" "st_version e' = show_nat j"
    using krun_renews [OF assms(1), of n] assms(3,4) by (auto simp: renewed_def)
  moreover obtain i where "i < kw_revision w" "st_version e = show_nat i"
    using assms(2,3) by (auto simp: versions_ok_def)
  ultimately show False using assms(5) show_nat_inj [of i j] by auto
qed

text \<open>The same version at two moments of a run: the entry stood as it was at every moment between.\<close>

lemma same_version_untouched:
  assumes "krun w es v" and "krun v es' w'" and "versions_ok w"
    and "entry_at w n = Some e" and "entry_at w' n = Some e'" and "st_version e' = st_version e"
  shows "entry_at v n = Some e"
proof -
  obtain i where i: "i < kw_revision w" "st_version e = show_nat i"
    using assms(3,4) by (auto simp: versions_ok_def)
  have "\<not> (kw_revision w \<le> j \<and> st_version e = show_nat j)" for j
    using i show_nat_inj [of i j] by auto
  moreover have "entry_at w' n = Some e"
    using same_version_same_entry [of w "es @ es'" w' n e e'] assms by (auto simp: run_append)
  moreover have "renewed (kw_revision w) (entry_at v n) (entry_at w' n)"
    using krun_renews [OF assms(2), of n] krun_renews [OF assms(1), of n]
    unfolding renewed_def by (meson order_trans)
  ultimately show ?thesis by (auto simp: renewed_def)
qed

lemma kserve_versions: "versions_ok w \<Longrightarrow> versions_ok (snd (kserve r q w))"
proof -
  assume ok: "versions_ok w"
  have new: "versions_ok (store_entry m sp st w)" for m sp st
    using ok by (auto simp: versions_ok_def entry_at_store_entry less_Suc_eq)
  have st: "versions_ok (snd (store_status m e st w))" for m e st
    by (rule store_status_cases [of m e st w]) (use ok new in auto)
  have del: "versions_ok (w\<lparr>kw_entries := hm_remove m (kw_entries w), kw_revision := Suc (kw_revision w)\<rparr>)" for m
    using ok unfolding versions_ok_def entry_at_def by (auto simp: hm_simps) (metis less_Suc_eq)
  have obs: "versions_ok (w\<lparr>kw_obs := x\<rparr>)" for x
    using ok by (simp add: versions_ok_def entry_at_def)
  show ?thesis
    by (cases q) (use ok new st del obs in \<open>auto simp: Let_def case_prod_beta split: option.splits\<close>)
qed

lemma kstep_versions: "kstep r q w a w' \<Longrightarrow> versions_ok w \<Longrightarrow> versions_ok w'"
  using kstep_effect kserve_versions by metis

lemma kenv_versions [simp]: "versions_ok (kenv e w) = versions_ok w"
  by (simp add: versions_ok_def entry_at_def)

lemma krun_versions: "krun w es w' \<Longrightarrow> versions_ok w \<Longrightarrow> versions_ok w'"
  by (induction rule: run.induct) (auto simp: kstep_versions)

lemma kserve_instant [simp]: "kw_instant (snd (kserve r q w)) = kw_instant w"
proof -
  have "kw_instant (snd (store_status m e st w)) = kw_instant w" for m e st
    by (rule store_status_cases [of m e st w]) auto
  then show ?thesis by (cases q) (auto simp: Let_def split: option.splits prod.splits)
qed

lemma kstep_instant: "kstep r q w a w' \<Longrightarrow> kw_instant w' = kw_instant w"
  using kstep_effect kserve_instant by metis

lemma krun_instant: "krun w es w' \<Longrightarrow> kw_instant w r \<le> kw_instant w' r"
  by (induction rule: run.induct) (auto dest!: kstep_instant intro: order_trans [OF kenv_keeps(3)])

subsection \<open>What a reply tells\<close>

lemma kstep_get:
  assumes "kstep r (KGet n) w (REntry cr) w'"
  obtains e where "w' = w" "entry_at w n = Some e" "cr = entry_of n e"
  using assms by (auto elim!: kstep.cases simp: entry_at_def split: option.splits)

lemma kstep_create:
  assumes "kstep r (KCreate n sp) w (REntry cr) w'"
  obtains "entry_at w n = None" "w' = store_entry n sp None w"
    "cr = entry_of n \<lparr>st_spec = sp, st_status = None, st_version = show_nat (kw_revision w)\<rparr>"
  using assms by (auto elim!: kstep.cases simp: entry_at_def entry_of_def split: option.splits if_splits)

lemma kstep_instant_reply:
  assumes "kstep r KInstant w a w'"
  shows "w' = w" and "a = RInstant (kw_instant w r)"
  using assms by (auto elim!: kstep.cases)

lemma kstep_observe:
  assumes "kstep r (KObserve n fp t d) w a w'"
  shows "a = RExpired (fst (lease_observation_expired (kw_obs w r) n fp t d))"
    and "w' = w\<lparr>kw_obs := (kw_obs w)(r := snd (lease_observation_expired (kw_obs w r) n fp t d))\<rparr>"
  using assms by (auto elim!: kstep.cases simp: Let_def case_prod_beta)

lemma kstep_json_done:
  assumes "kstep r (KJson n ops) w RDone w'"
  obtains e st where "entry_at w n = Some e" "apply_ops (st_version e) ops (st_status e) = Some st"
    "store_status n e st w = (RDone, w')"
  using assms by (auto elim!: kstep.cases simp: entry_at_def split: option.splits)

lemma store_status_done_entry:
  assumes "store_status n e st w = (RDone, w')" and "entry_at w n = Some e"
  obtains e' where "entry_at w' n = Some e'" "st_status e' = map_option cr_status_default st"
    "st_spec e' = st_spec e"
  by (rule store_status_cases [of n e st w]) (use assms that in \<open>auto simp: entry_at_store_entry\<close>)

text \<open>A refused status write leaves every entry as it was.\<close>

lemma kstep_json_refused:
  assumes "kstep r (KJson n ops) w (RErr e) w'" and "e \<noteq> TransportErr"
  shows "w' = w"
  using assms
  by (auto elim!: kstep.cases simp: store_status_def Let_def split: option.splits if_splits)

subsection \<open>A session alone\<close>

text \<open>A program run with nobody else acting, the wall clock standing at \<open>t\<close>, and its events.\<close>

definition answer :: "nat \<Rightarrow> int \<Rightarrow> kube_call \<Rightarrow> kworld \<Rightarrow> kube_reply \<times> kworld" where
  "answer r t q w = (if q = KUtcNow then (RTime t, w) else kserve r q w)"

abbreviation kexec :: "nat \<Rightarrow> int \<Rightarrow> 'a kprog \<Rightarrow> kworld \<Rightarrow> 'a \<times> kworld" where
  "kexec r t \<equiv> exec (answer r t)"

abbreviation kevents :: "nat \<times> nat \<Rightarrow> int \<Rightarrow> 'a kprog \<Rightarrow> kworld \<Rightarrow> kevent list" where
  "kevents p t \<equiv> exec_events (answer (fst p) t) p"

lemma answer_kstep: "kstep r q w (fst (answer r t q w)) (snd (answer r t q w))"
  by (auto simp: answer_def intro: kstep.intros)

lemma exec_krun: "krun w (kevents p t pr w) (snd (kexec (fst p) t pr w))"
  by (rule exec_run) (rule answer_kstep)

lemma kexec_follows: "follows pr (session p (kevents p t pr w)) = Some (fst (kexec (fst p) t pr w))"
  by (rule exec_follows)

lemma exec_get_cr:
  "kexec r t (get_cr n) w = (Inr (map_option (entry_of n) (entry_at w n)), w)"
  by (auto simp: get_cr_def answer_def entry_at_def split: option.splits)

lemma exec_utc_now [simp]: "kexec r t (utc_now k) w = kexec r t (k t) w"
  by (simp add: utc_now_def answer_def)

lemma exec_kube_lease_deadline [simp]:
  "kexec r t (kube_lease_deadline env d k) w =
     kexec r t (k (case ke_checked_add env t d of Some x \<Rightarrow> x | None \<Rightarrow> t)) w"
  by (simp add: kube_lease_deadline_def)

lemma exec_clear [simp]:
  "kexec r t (clear_lease_observation n k) w =
     kexec r t k (w\<lparr>kw_obs := (kw_obs w)(r := hm_remove n (kw_obs w r))\<rparr>)"
  by (simp add: clear_lease_observation_def answer_def)

end
