(* ===== verification/Kube_Claims.thy ===== *)
theory Kube_Claims
  imports Kube_Programs
begin

text \<open>
  Download claims on the Kubernetes backend, under every interleaving of every replica's calls.
  The first part gives each method a condition over its call tree (which calls lead to which
  result); the second reads these conditions along a run.
\<close>

subsection \<open>The shape of a winning claim\<close>

definition fingerprint_of :: "ModelCacheEntry \<Rightarrow> LeaseFingerprint" where
  "fingerprint_of cr = \<lparr>lf_claim_id = mst_claim_id (status_or_default cr),
     lf_lease_expires_at = mst_lease_expires_at (status_or_default cr)\<rparr>"

definition reads_name :: "string \<Rightarrow> kube_call \<Rightarrow> bool" where
  "reads_name n q = (q = KGet n \<or> (\<exists>sp. q = KCreate n sp))"

text \<open>A fingerprint is only recorded right after the entry was read and the clock taken.\<close>

definition honest :: "call_trace \<Rightarrow> kube_call \<Rightarrow> bool" where
  "honest h q = (\<forall>n fp t d. q = KObserve n fp t d \<longrightarrow> (\<exists>a m q0 cr h'.
     h = (KInstant, a) # (q0, REntry cr) # h' \<and> reads_name m q0 \<and> mce_name cr = Some n
     \<and> fp = fingerprint_of cr \<and> t = as_instant a))"

lemma honest_simps [simp]:
  "honest h (KGet n)" "honest h (KCreate n sp)" "honest h (KDelete n)" "honest h (KMerge n m)"
  "honest h (KJson n ops)" "honest h (KList l)" "honest h KUtcNow" "honest h KInstant" "honest h (KClear n)"
  by (simp_all add: honest_def)

definition no_patch_done :: "call_trace \<Rightarrow> bool" where
  "no_patch_done h = (\<forall>n ops. (KJson n ops, RDone) \<notin> set h)"

lemma no_patch_done_Nil [simp]: "no_patch_done []"
  by (simp add: no_patch_done_def)

lemma no_patch_done_Cons:
  "no_patch_done ((q, a) # h) \<longleftrightarrow> \<not> (a = RDone \<and> (\<exists>n ops. q = KJson n ops)) \<and> no_patch_done h"
  by (auto simp: no_patch_done_def)

definition won_fresh :: "string \<Rightarrow> string \<Rightarrow> call_trace \<Rightarrow> bool" where
  "won_fresh n c h = (\<exists>u v t1 t2 x1 x2 sp cr h'.
     h = (KClear n, u) # (KJson n (claim_ops True v c t1 t2), RDone) # (KUtcNow, x1) # (KUtcNow, x2)
           # (KCreate n sp, REntry cr) # h'
     \<and> mce_resource_version cr = Some v \<and> mce_status cr = None)"

definition won_over :: "string \<Rightarrow> string \<Rightarrow> nat \<Rightarrow> call_trace \<Rightarrow> bool" where
  "won_over n c d h = (\<exists>u v t1 t2 x1 x2 b a q0 cr h'.
     h = (KClear n, u) # (KJson n (claim_ops (mce_status cr = None) v c t1 t2), RDone)
           # (KUtcNow, x1) # (KUtcNow, x2) # (KObserve n (fingerprint_of cr) (as_instant a) d, b)
           # (KInstant, a) # (q0, REntry cr) # h'
     \<and> as_expired b \<and> reads_name n q0 \<and> mce_resource_version cr = Some v
     \<and> status_from_phase (mst_phase (status_or_default cr)) = DOWNLOADING)"

definition claim_post :: "string \<Rightarrow> string \<Rightarrow> nat \<Rightarrow> call_trace \<Rightarrow> 'e + ClaimOutcome \<Rightarrow> bool" where
  "claim_post n c d h x = (case x of
      Inr Claimed \<Rightarrow> won_fresh n c h
    | Inr TookOver \<Rightarrow> won_over n c d h
    | Inr (AlreadyExists st) \<Rightarrow> no_patch_done h
    | Inl e \<Rightarrow> True)"

lemma claim_post_simps [simp]:
  "claim_post n c d h (Inr Claimed) = won_fresh n c h"
  "claim_post n c d h (Inr TookOver) = won_over n c d h"
  "claim_post n c d h (Inr (AlreadyExists st)) = no_patch_done h"
  "claim_post n c d h (Inl e)"
  by (simp_all add: claim_post_def)

lemma pwp_current_status:
  assumes "no_patch_done h"
  shows "kwp honest (\<lambda>h x. case x of Inl e \<Rightarrow> True | Inr st \<Rightarrow> no_patch_done h) (current_status n) h"
  using assms unfolding current_status_def by (auto simp: pwp_get_cr no_patch_done_Cons split: sum.splits)

lemma pwp_take_claim:
  assumes won: "\<And>t1 t2 x1 x2 u. Q ((KClear n, u) # (KJson n (claim_ops m v c t1 t2), RDone) # (KUtcNow, x1) # (KUtcNow, x2) # h)
      (Inr (if f then Claimed else TookOver))"
    and lost: "\<And>h st. no_patch_done h \<Longrightarrow> Q h (Inr (AlreadyExists st))"
    and err: "\<And>h e. Q h (Inl e)"
    and "no_patch_done h"
  shows "kwp honest Q (take_claim env n v m c d f) h"
proof -
  have "kwp honest (\<lambda>h x. case x of Inl e \<Rightarrow> Q h (Inl e) | Inr st \<Rightarrow> Q h (Inr (AlreadyExists st)))
      (current_status n) ((KJson n ops, a) # (KUtcNow, x1) # (KUtcNow, x2) # h)" if "as_done a = Inl e" for ops a x1 x2 e
    by (rule pwp_mono [OF pwp_current_status]) (use assms that in \<open>auto simp: no_patch_done_Cons split: sum.splits\<close>)
  then show ?thesis
    unfolding take_claim_def
    using won by (cases f) (auto simp: err as_done_Inr_iff split: sum.splits)
qed

lemma pwp_try_claim_existing:
  assumes "no_patch_done h" and "reads_name n q0" and "mce_name cr = Some n"
    and "b \<Longrightarrow> mce_status cr = None \<and> (\<exists>sp. q0 = KCreate n sp)"
  shows "kwp honest (claim_post n c d) (try_claim_existing env cr c d b) ((q0, REntry cr) # h)"
proof -
  have clean: "no_patch_done ((q0, REntry cr) # h)" using assms(1) by (simp add: no_patch_done_Cons)
  have fresh: "kwp honest (claim_post n c d) (take_claim env n v (mce_status cr = None) c d True) ((q0, REntry cr) # h)"
    if "mce_resource_version cr = Some v" b for v
    by (rule pwp_take_claim) (use assms(4) clean that in \<open>auto simp: won_fresh_def\<close>)
  have over: "kwp honest (claim_post n c d) (take_claim env n v (mce_status cr = None) c d False)
      ((KObserve n (fingerprint_of cr) (as_instant a) d, e) # (KInstant, a) # (q0, REntry cr) # h)"
    if "mce_resource_version cr = Some v" "as_expired e"
      "status_from_phase (mst_phase (status_or_default cr)) = DOWNLOADING" for v a e
    by (rule pwp_take_claim) (use assms(2) clean that in \<open>auto simp: won_over_def no_patch_done_Cons\<close>)
  show ?thesis
    using assms(2,3,4) clean fresh over
    by (auto simp: try_claim_existing_def Let_def no_patch_done_Cons ok_or_def lease_has_expired_def honest_def
        fingerprint_of_def [symmetric] split: option.splits)
qed

lemma pwp_create_cr:
  assumes "P h (KCreate n sp)"
    and "\<And>cr. mce_name cr = Some n \<Longrightarrow> mce_status cr = None \<Longrightarrow>
      kwp P Q (created cr) ((KCreate n sp, REntry cr) # h)"
    and "\<And>a. as_entry a = Inl (ApiErr 409) \<Longrightarrow> kwp P Q conflict ((KCreate n sp, a) # h)"
    and "\<And>a e. Q ((KCreate n sp, a) # h) (Inl e)"
  shows "kwp P Q (create_cr n sp created conflict) h"
  using assms by (auto simp: create_cr_def as_entry_Inr_iff reply_ok_def split: sum.splits)

definition adopt_post :: "call_trace \<Rightarrow> 'e + ClaimOutcome option \<Rightarrow> bool" where
  "adopt_post h x = (case x of
      Inl e \<Rightarrow> True
    | Inr None \<Rightarrow> no_patch_done h
    | Inr (Some oc) \<Rightarrow> (\<exists>st. oc = AlreadyExists st) \<and> no_patch_done h)"

lemma pwp_finish_adoption: "no_patch_done h \<Longrightarrow> kwp honest adopt_post (finish_adoption l n) h"
  unfolding finish_adoption_def
  by (auto simp: pwp_get_cr adopt_post_def no_patch_done_Cons split: sum.splits)

lemma pwp_patch_status:
  assumes "\<And>a x. Q ((KMerge n (status_patch_doc u), a) # h) x" and "P h (KMerge n (status_patch_doc u))"
    and "status_patch_doc u = [] \<Longrightarrow> Q h (Inr ())"
  shows "kwp P Q (patch_status n u) h"
  using assms by (simp add: patch_status_def Let_def)

lemma pwp_adopt_legacy:
  assumes "no_patch_done h"
  shows "kwp honest adopt_post (adopt_legacy_cr env name p n) h"
proof -
  have fin: "kwp honest adopt_post (finish_adoption l n) h'" if "no_patch_done h'" for l h'
    using that by (rule pwp_finish_adoption)
  have mig: "kwp honest adopt_post (ptry (patch_status n u) (\<lambda>_. finish_adoption l n)) h'"
    if "no_patch_done h'" for u l h'
    unfolding pwp_ptry
    by (rule pwp_patch_status) (use that fin in \<open>auto simp: adopt_post_def no_patch_done_Cons split: sum.splits\<close>)
  have new: "kwp honest adopt_post (create_cr n sp (\<lambda>_. ptry (patch_status n u) (\<lambda>_. finish_adoption l n))
      (finish_adoption l n)) h'" if "no_patch_done h'" for sp u l h'
    by (rule pwp_create_cr) (use that fin mig in \<open>auto simp: no_patch_done_Cons adopt_post_def\<close>)
  show ?thesis
    using assms new unfolding adopt_legacy_cr_def
    by (auto simp: pwp_get_cr no_patch_done_Cons adopt_post_def as_entry_Inr_iff split: sum.splits)
qed

lemma pwp_claim_new:
  assumes "no_patch_done h"
  shows "kwp honest (claim_post n c d) (claim_new env name p n c d) h"
  unfolding claim_new_def
proof (rule pwp_create_cr)
  fix cr :: ModelCacheEntry
  assume "mce_name cr = Some n" "mce_status cr = None"
  then show "kwp honest (claim_post n c d) (try_claim_existing env cr c d True)
      ((KCreate n \<lparr>mcs_model_name = name, mcs_provider = kube_provider_str p\<rparr>, REntry cr) # h)"
    by (intro pwp_try_claim_existing) (use assms in \<open>auto simp: reads_name_def\<close>)
next
  fix a
  have "kwp honest (claim_post n c d) (try_claim_existing env cr c d False) ((KGet n, REntry cr) # h')"
    if "mce_name cr = Some n" "no_patch_done h'" for cr h'
    using that by (intro pwp_try_claim_existing) (auto simp: reads_name_def)
  then show "kwp honest (claim_post n c d) (ptry (get_cr n) (\<lambda>x. case x of
           None \<Rightarrow> Return (Inl KDisappeared)
         | Some existing \<Rightarrow> try_claim_existing env existing c d False))
      ((KCreate n \<lparr>mcs_model_name = name, mcs_provider = kube_provider_str p\<rparr>, a) # h)"
    using assms by (auto simp: pwp_get_cr no_patch_done_Cons as_entry_Inr_iff reply_ok_def split: sum.splits)
qed (auto simp: assms)

lemma pwp_claim:
  assumes "cr_name_for env p name = Inr n"
  shows "kwp honest (claim_post n c d) (kube_try_claim_for_download env name p c d) []"
proof -
  have old: "kwp honest (claim_post n c d) (try_claim_existing env cr c d False) [(KGet n, REntry cr)]"
    if "mce_name cr = Some n" for cr
    using that by (intro pwp_try_claim_existing) (auto simp: reads_name_def)
  have new: "kwp honest (\<lambda>h x. case x of Inl e \<Rightarrow> claim_post n c d h (Inl e) | Inr oc \<Rightarrow>
        kwp honest (claim_post n c d) (case oc of None \<Rightarrow> claim_new env name p n c d | Some y \<Rightarrow> Return (Inr y)) h)
      (adopt_legacy_cr env name p n) [(KGet n, a)]" if "as_entry a = Inl (ApiErr 404)" for a
  proof (rule pwp_mono [OF pwp_adopt_legacy])
    show "no_patch_done [(KGet n, a)]" by (simp add: no_patch_done_Cons)
    show "case x of Inl e \<Rightarrow> claim_post n c d h (Inl e) | Inr oc \<Rightarrow>
        kwp honest (claim_post n c d) (case oc of None \<Rightarrow> claim_new env name p n c d | Some y \<Rightarrow> Return (Inr y)) h"
      if "adopt_post h x" for h x
      using that pwp_claim_new by (auto simp: adopt_post_def split: sum.splits option.splits)
  qed
  show ?thesis
    using assms old new unfolding kube_try_claim_for_download_def
    by (auto simp: pwp_get_cr as_entry_Inr_iff reply_ok_def split: sum.splits)
qed

subsection \<open>Reads and observations along a run\<close>








subsection \<open>Taking a download over\<close>

text \<open>The claim that holds an entry: its phase is Downloading and it carries the claim's id.\<close>

definition owner_at :: "kworld \<Rightarrow> string \<Rightarrow> string option" where
  "owner_at w n = (case Option.bind (entry_at w n) st_status of
      None \<Rightarrow> None
    | Some d \<Rightarrow> if d FPhase = Some (Some phase_DOWNLOADING) then doc_text d FClaimId else None)"















subsection \<open>Reclaiming an abandoned download\<close>

text \<open>Entries a claim can take over: no status yet, or phase Downloading.\<close>

definition claimable :: "stored_entry \<Rightarrow> bool" where
  "claimable e = (case st_status e of None \<Rightarrow> True | Some d \<Rightarrow> d FPhase = Some (Some phase_DOWNLOADING))"

lemma claimable_status:
  "claimable e \<Longrightarrow> status_from_phase (mst_phase (status_or_default (entry_of n e))) = DOWNLOADING"
  by (auto simp: claimable_def status_or_default_def entry_of_def default_status_def status_from_phase_def
      read_status_def doc_text_def phase_defs split: option.splits)

lemma claim_ops_claimable:
  assumes "claimable e"
  obtains d where "apply_ops (st_version e) (claim_ops (st_status e = None) (st_version e) c t1 t2) (st_status e) = Some (Some d)"
    "cr_status_valid d" "d FPhase = Some (Some phase_DOWNLOADING)" "d FClaimId = Some (Some c)"
  using assms
  by (cases "st_status e")
    (auto simp: claimable_def claim_ops_def claim_doc_def cr_status_valid_def PhaseSchema_def phase_defs)

lemma exec_try_claim_existing:
  assumes "claimable e" and "entry_at w n = Some e"
  shows "kexec r t (try_claim_existing env (entry_of n e) c d False) w =
    (let fp = fingerprint_of (entry_of n e);
         x = lease_observation_expired (kw_obs w r) n fp (kw_instant w r) d;
         w' = w\<lparr>kw_obs := (kw_obs w)(r := snd x)\<rparr>
     in if fst x then kexec r t (take_claim env n (st_version e) (st_status e = None) c d False) w'
        else (Inr (AlreadyExists DOWNLOADING), w'))"
  using claimable_status [OF assms(1), of n]
  by (simp add: try_claim_existing_def Let_def lease_has_expired_def answer_def case_prod_beta
      fingerprint_of_def entry_of_def)

lemma exec_take_claim:
  assumes "claimable e" and "entry_at w n = Some e"
  shows "fst (kexec r t (take_claim env n (st_version e) (st_status e = None) c d f) w)
      = Inr (if f then Claimed else TookOver)
    \<and> owner_at (snd (kexec r t (take_claim env n (st_version e) (st_status e = None) c d f) w)) n = Some c"
proof -
  let ?ops = "claim_ops (st_status e = None) (st_version e) c (ke_fmt env t)
    (ke_fmt env (case ke_checked_add env t d of Some x \<Rightarrow> x | None \<Rightarrow> t))"
  obtain x where x: "apply_ops (st_version e) ?ops (st_status e) = Some (Some x)" "cr_status_valid x"
      "x FPhase = Some (Some phase_DOWNLOADING)" "x FClaimId = Some (Some c)"
    using assms(1) by (rule claim_ops_claimable)
  obtain w' where w': "store_status n e (Some x) w = (RDone, w')"
    by (rule store_status_cases [of n e "Some x" w]) (use x(2,3) that in \<open>auto simp: store_status_def Let_def split: if_splits\<close>)
  then obtain e' where "entry_at w' n = Some e'" "st_status e' = Some x"
    using store_status_done_entry [OF w' assms(2)] x(3) by auto
  moreover have "kserve r (KJson n ?ops) w = (RDone, w')" using assms(2) x(1) w' by (simp add: entry_at_def)
  ultimately show ?thesis
    using x(3,4) by (simp add: take_claim_def answer_def owner_at_def entry_at_def doc_text_def)
qed

lemma exec_claim_existing:
  assumes "cr_name_for env p name = Inr n" and "entry_at w n = Some e"
  shows "kexec r t (kube_try_claim_for_download env name p c d) w
    = kexec r t (try_claim_existing env (entry_of n e) c d False) w"
  using assms by (simp add: kube_try_claim_for_download_def exec_ptry exec_get_cr)

definition tick :: "nat \<Rightarrow> nat \<Rightarrow> kworld \<Rightarrow> kworld" where
  "tick r d w = w\<lparr>kw_instant := (kw_instant w)(r := kw_instant w r + d)\<rparr>"

text \<open>
  C15. A download whose owner is gone is always reclaimed: a replica that polls it once, and again
  after the lease duration with nothing written in between, becomes its owner on the second
  poll, whether the owner died holding a lease or between creating the entry and claiming it.
\<close>

theorem abandoned_download_is_reclaimed:
  assumes "cr_name_for env p name = Inr n" and "entry_at w n = Some e" and "claimable e"
    and "hm_get (kw_obs w r) n = None" and "0 < d"
  shows "let (o1, w1) = kexec r t (kube_try_claim_for_download env name p c d) w;
             (o2, w2) = kexec r t' (kube_try_claim_for_download env name p c' d) (tick r d w1)
         in o1 = Inr (AlreadyExists DOWNLOADING) \<and> o2 = Inr TookOver \<and> owner_at w2 n = Some c'"
proof -
  let ?fp = "fingerprint_of (entry_of n e)"
  let ?obs = "hm_insert n \<lparr>lo_fingerprint = ?fp, lo_observed_at = kw_instant w r\<rparr> (kw_obs w r)"
  let ?w1 = "w\<lparr>kw_obs := (kw_obs w)(r := ?obs)\<rparr>"
  have 1: "kexec r t (kube_try_claim_for_download env name p c d) w = (Inr (AlreadyExists DOWNLOADING), ?w1)"
    using assms by (simp add: exec_claim_existing exec_try_claim_existing lease_observation_expired_def Let_def)
  let ?w2 = "tick r d ?w1"
  have e: "entry_at ?w2 n = Some e" using assms(2) by (simp add: entry_at_def tick_def)
  have x: "lease_observation_expired (kw_obs ?w2 r) n ?fp (kw_instant ?w2 r) d = (True, ?obs)"
    by (simp add: lease_observation_expired_def tick_def hm_simps)
  have e': "entry_at (?w2\<lparr>kw_obs := (kw_obs ?w2)(r := ?obs)\<rparr>) n = Some e"
    using assms(2) by (simp add: entry_at_def tick_def)
  have 2: "kexec r t' (kube_try_claim_for_download env name p c' d) ?w2
      = kexec r t' (take_claim env n (st_version e) (st_status e = None) c' d False)
          (?w2\<lparr>kw_obs := (kw_obs ?w2)(r := ?obs)\<rparr>)"
    by (simp only: exec_claim_existing [OF assms(1) e] exec_try_claim_existing [OF assms(3) e] x
        Let_def fst_conv snd_conv if_True)
  show ?thesis
    using exec_take_claim [OF assms(3) e', of r t' env c' d False] by (simp add: 1 2 case_prod_beta)
qed

subsection \<open>One fresh claim per entry\<close>

definition creates :: "string \<Rightarrow> kevent \<Rightarrow> bool" where
  "creates n e = (\<exists>p sp cr. e = Act p (KCreate n sp) (REntry cr))"

definition deletes :: "string \<Rightarrow> kevent \<Rightarrow> bool" where
  "deletes n e = (\<exists>p a. e = Act p (KDelete n) a)"

lemma kstep_keeps_entry:
  assumes "kstep r q w a w'" and "q \<noteq> KDelete n" and "entry_at w n \<noteq> None"
  shows "entry_at w' n \<noteq> None"
proof -
  have st: "entry_at (snd (store_status m e st w)) n \<noteq> None" for m e st
    by (rule store_status_cases [of m e st w]) (use assms(3) in \<open>auto simp: entry_at_store_entry\<close>)
  have "entry_at (snd (kserve r q w)) n \<noteq> None"
  proof (cases q)
    case (KCreate m sp)
    then show ?thesis using assms(3) by (auto simp: entry_at_store_entry split: option.splits)
  next
    case (KDelete m)
    then show ?thesis using assms(2,3) by (auto simp: entry_at_def hm_simps split: option.splits)
  next
    case (KMerge m u)
    then show ?thesis using assms(3) st by (auto split: option.splits)
  next
    case (KJson m ops)
    then show ?thesis using assms(3) st by (auto split: option.splits)
  qed (use assms(3) in \<open>auto simp: entry_at_def Let_def split: option.splits prod.splits\<close>)
  then show ?thesis using kstep_effect [OF assms(1)] assms(3) by auto
qed

lemma one_create:
  assumes "krun w es w'" and "list_all (\<lambda>e. \<not> deletes n e) es"
  shows "length (filter (creates n) es) \<le> (if entry_at w n = None then 1 else 0)"
  using assms
proof induction
  case (run_Act p q w a w' es w'')
  have IH: "length (filter (creates n) es) \<le> (if entry_at w' n = None then 1 else 0)"
    using run_Act by simp
  show ?case
  proof (cases "creates n (Act p q a)")
    case True
    then obtain sp cr where "q = KCreate n sp" "a = REntry cr" by (auto simp: creates_def)
    then have "entry_at w n = None" "entry_at w' n \<noteq> None"
      using run_Act.hyps(1) by (auto elim!: kstep_create simp: entry_at_store_entry)
    then show ?thesis using IH by auto
  next
    case False
    have "q \<noteq> KDelete n" using run_Act.prems by (cases p) (auto simp: deletes_def)
    then have "entry_at w n \<noteq> None \<Longrightarrow> entry_at w' n \<noteq> None"
      using kstep_keeps_entry [OF run_Act.hyps(1)] by blast
    then show ?thesis using IH False by (auto split: if_splits)
  qed
qed (auto simp: entry_at_def creates_def)

lemma claimed_created:
  assumes "krun w0 es w" and "cr_name_for env p name = Inr n"
    and "follows (kube_try_claim_for_download env name p c d) (session s es) = Some (Inr Claimed)"
  shows "\<exists>sp cr. Act s (KCreate n sp) (REntry cr) \<in> set es"
proof -
  have "won_fresh n c (rev (session s es))"
    using pwp_follows [OF pwp_claim [OF assms(2)] assms(3) krun_reply_ok [OF assms(1), where p = s]] by simp
  then obtain sp cr where "(KCreate n sp, REntry cr) \<in> set (session s es)"
    unfolding won_fresh_def by (metis list.set_intros set_rev)
  then obtain tr1 tr2 where "session s es = tr1 @ (KCreate n sp, REntry cr) # tr2" by (meson split_list)
  then obtain es1 es2 where "es = es1 @ Act s (KCreate n sp) (REntry cr) # es2" by (metis session_split)
  then show ?thesis by auto
qed

lemma two_in_short_list: "x \<in> set xs \<Longrightarrow> y \<in> set xs \<Longrightarrow> length xs \<le> 1 \<Longrightarrow> x = y"
  by (cases xs) auto

text \<open>
  C13. However the calls of all replicas interleave, at most one claim of an entry is answered
  Claimed for as long as the entry is not deleted: two first downloads of one model never run.
\<close>

theorem fresh_claim_is_unique:
  assumes "krun w0 es w" and "list_all (\<lambda>e. \<not> deletes n e) es"
    and "cr_name_for env p name = Inr n" and "cr_name_for env p' name' = Inr n"
    and "follows (kube_try_claim_for_download env name p c d) (session s es) = Some (Inr Claimed)"
    and "follows (kube_try_claim_for_download env name' p' c' d') (session s' es) = Some (Inr Claimed)"
  shows "s = s'"
proof -
  obtain sp cr sp' cr' where "Act s (KCreate n sp) (REntry cr) \<in> set (filter (creates n) es)"
      "Act s' (KCreate n sp') (REntry cr') \<in> set (filter (creates n) es)"
    using claimed_created [OF assms(1,3,5)] claimed_created [OF assms(1,4,6)] by (auto simp: creates_def)
  moreover have "length (filter (creates n) es) \<le> 1" using one_create [OF assms(1,2)] by (auto split: if_splits)
  ultimately show ?thesis using two_in_short_list by fastforce
qed

subsection \<open>Fencing\<close>

definition cr_status_at :: "kworld \<Rightarrow> string \<Rightarrow> ModelStatus option" where
  "cr_status_at w n = map_option (\<lambda>e. status_from_phase (mst_phase (status_or_default (entry_of n e)))) (entry_at w n)"

text \<open>A write a worker makes under its claim: the call, and how its reply decides the answer.\<close>

definition fenced_post :: "string \<Rightarrow> patch_op list set \<Rightarrow> call_trace \<Rightarrow> 'e + bool \<Rightarrow> bool" where
  "fenced_post n opss h x = (\<forall>b. x = Inr b \<longrightarrow> (\<exists>h1 ops a h2. h = h1 @ (KJson n ops, a) # h2 \<and> ops \<in> opss
     \<and> list_all (\<lambda>(q, _). \<not> api_call q) (h1 @ h2) \<and> (if b then a = RDone else (\<exists>e. a = RErr e \<and> e \<noteq> TransportErr))))"

definition owner_tests :: "string \<Rightarrow> patch_op list set \<Rightarrow> bool" where
  "owner_tests c opss = (\<forall>ops\<in>opss. \<exists>rest. ops = TestField FPhase phase_DOWNLOADING # TestField FClaimId c # rest)"

lemma as_done_Inl_ApiErr: "as_done a = Inl e \<Longrightarrow> e \<noteq> TransportErr \<Longrightarrow> a = RErr e"
  by (cases a) auto

lemma fenced_post_reply:
  assumes "ops \<in> opss" and "list_all (\<lambda>(q, _). \<not> api_call q) h"
  shows "fenced_post n opss ((KClear n, u) # (KJson n ops, RDone) # h) (Inr True)"
    and "fenced_post n opss ((KJson n ops, RDone) # h) (Inr True)"
    and "as_done a = Inl e \<Longrightarrow> lost_ownership e \<Longrightarrow> fenced_post n opss ((KJson n ops, a) # h) (Inr False)"
proof -
  show "fenced_post n opss ((KClear n, u) # (KJson n ops, RDone) # h) (Inr True)"
    unfolding fenced_post_def
    by (intro allI impI exI [of _ "[(KClear n, u)]"] exI [of _ ops] exI [of _ RDone] exI [of _ h]) (use assms in simp)
  show "fenced_post n opss ((KJson n ops, RDone) # h) (Inr True)"
    unfolding fenced_post_def
    by (intro allI impI exI [of _ "[]"] exI [of _ ops] exI [of _ RDone] exI [of _ h]) (use assms in simp)
  show "fenced_post n opss ((KJson n ops, a) # h) (Inr False)" if "as_done a = Inl e" "lost_ownership e"
    unfolding fenced_post_def
    by (intro allI impI exI [of _ "[]"] exI [of _ ops] exI [of _ a] exI [of _ h])
      (use assms that as_done_Inl_ApiErr [OF that(1)] in \<open>auto simp: lost_ownership_def\<close>)
qed

definition finish_ops :: "string \<Rightarrow> ModelStatus \<Rightarrow> patch_op list set" where
  "finish_ops c st = {[TestField FPhase phase_DOWNLOADING, TestField FClaimId c,
     ReplaceField FPhase (Some (phase_from_status st)), AddField FMessage m, AddField FLastUsedAt (Some t),
     AddField FClaimId None, AddField FLeaseExpiresAt None] | m t. True}"

definition refresh_ops :: "string \<Rightarrow> patch_op list set" where
  "refresh_ops c = {[TestField FPhase phase_DOWNLOADING, TestField FClaimId c,
     AddField FLeaseExpiresAt (Some dl), AddField FLastUsedAt (Some t)] | dl t. True}"

lemma finish_ops_mem:
  "[TestField FPhase phase_DOWNLOADING, TestField FClaimId c, ReplaceField FPhase (Some (phase_from_status st)),
    AddField FMessage m, AddField FLastUsedAt (Some t), AddField FClaimId None, AddField FLeaseExpiresAt None]
   \<in> finish_ops c st"
  by (auto simp: finish_ops_def)

lemma refresh_ops_mem:
  "[TestField FPhase phase_DOWNLOADING, TestField FClaimId c, AddField FLeaseExpiresAt (Some dl),
    AddField FLastUsedAt (Some t)] \<in> refresh_ops c"
  by (auto simp: refresh_ops_def)

lemma pwp_finish:
  assumes "cr_name_for env p name = Inr n"
  shows "kwp (\<lambda>_ _. True) (fenced_post n (finish_ops c st)) (kube_finish_download_claim env name p c st m) []"
proof -
  note rep = fenced_post_reply [OF finish_ops_mem]
  show ?thesis using assms unfolding kube_finish_download_claim_def
    by (auto simp: as_done_Inr_iff fenced_post_def [of _ _ _ "Inl _"] intro!: rep(1) rep(3)
        split: sum.splits)
qed

lemma pwp_refresh:
  assumes "cr_name_for env p name = Inr n"
  shows "kwp (\<lambda>_ _. True) (fenced_post n (refresh_ops c)) (kube_refresh_download_claim env name p c d) []"
proof -
  note rep = fenced_post_reply [OF refresh_ops_mem]
  show ?thesis using assms unfolding kube_refresh_download_claim_def
    by (auto simp: as_done_Inr_iff fenced_post_def [of _ _ _ "Inl _"] intro!: rep(2) rep(3)
        split: sum.splits)
qed

lemma owner_tested:
  assumes "apply_ops v ops st = Some st'" and "ops = TestField FPhase phase_DOWNLOADING # TestField FClaimId c # rest"
  obtains d where "st = Some d" "d FPhase = Some (Some phase_DOWNLOADING)" "d FClaimId = Some (Some c)"
    "apply_ops v rest st = Some st'"
  using assms by (auto split: option.splits if_splits Option.bind_splits)

text \<open>The moment of a fenced write: it went through for the owner, or changed nothing.\<close>

lemma fenced_write:
  fixes pr :: "(kube_registry_error + bool) kprog"
  assumes run: "krun w0 es w" and wp: "kwp P (fenced_post n opss) pr []"
    and res: "follows pr (session s es) = Some (Inr b)" and tests: "owner_tests c opss"
  obtains es1 ops a es2 w1 w2 where "es = es1 @ Act s (KJson n ops) a # es2" "krun w0 es1 w1"
    "kstep (fst s) (KJson n ops) w1 a w2" "krun w2 es2 w" "ops \<in> opss"
    "list_all (\<lambda>(q, _). \<not> api_call q) (session s es1 @ session s es2)" "b \<Longrightarrow> a = RDone \<and> owner_at w1 n = Some c" "\<not> b \<Longrightarrow> w2 = w1"
proof -
  have "fenced_post n opss (rev (session s es)) (Inr b :: kube_registry_error + bool)"
    using pwp_follows [OF wp res krun_reply_ok [OF run, where p = s]] by simp
  then obtain h1 ops a h2 where h: "rev (session s es) = h1 @ (KJson n ops, a) # h2" "ops \<in> opss"
      "list_all (\<lambda>(q, _). \<not> api_call q) (h1 @ h2)" "if b then a = RDone else (\<exists>e. a = RErr e \<and> e \<noteq> TransportErr)"
    unfolding fenced_post_def by blast
  have "session s es = rev h2 @ (KJson n ops, a) # rev h1" using arg_cong [OF h(1), of rev] by simp
  then obtain es1 es2 where es: "es = es1 @ Act s (KJson n ops) a # es2" "session s es1 = rev h2" "session s es2 = rev h1"
    by (metis session_split)
  obtain w1 w2 where w: "krun w0 es1 w1" "kstep (fst s) (KJson n ops) w1 a w2" "krun w2 es2 w"
    using run unfolding es(1) run_append run_Act_iff by auto
  have only: "list_all (\<lambda>(q, _). \<not> api_call q) (session s es1 @ session s es2)"
    using h(3) by (auto simp: es(2,3) list_all_iff)
  obtain rest where rest: "ops = TestField FPhase phase_DOWNLOADING # TestField FClaimId c # rest"
    using tests h(2) by (auto simp: owner_tests_def)
  have own: "owner_at w1 n = Some c" if "b"
  proof -
    have "a = RDone" using that h(4) by simp
    then obtain e st where e: "entry_at w1 n = Some e" "apply_ops (st_version e) ops (st_status e) = Some st"
      using w(2) kstep_json_done by metis
    obtain d where "st_status e = Some d" "d FPhase = Some (Some phase_DOWNLOADING)" "d FClaimId = Some (Some c)"
      using owner_tested [OF e(2) rest] by metis
    then show ?thesis using e(1) by (simp add: owner_at_def doc_text_def)
  qed
  have "w2 = w1" if "\<not> b" using h(4) w(2) that kstep_json_refused by auto
  then show ?thesis using that [OF es(1) w h(2) only] h(4) own by auto
qed

text \<open>
  C14. A worker settles a download only while it owns it. A finish that is answered makes exactly one
  request, its conditional write; when the answer is true, that write went through and at that
  moment the entry was Downloading under the worker's own claim and is left with the status
  reported; when the answer is false, that write changed nothing. A worker that was taken over can
  therefore never overwrite the result of its successor, and false is never the answer of a write
  that took effect.
\<close>

theorem finish_is_fenced:
  assumes "krun w0 es w" and "cr_name_for env p name = Inr n"
    and "follows (kube_finish_download_claim env name p c st m) (session s es) = Some (Inr b)"
  shows "\<exists>before ops a after wp wq. es = before @ Act s (KJson n ops) a # after \<and> krun w0 before wp
    \<and> kstep (fst s) (KJson n ops) wp a wq \<and> krun wq after w
    \<and> list_all (\<lambda>(q, _). \<not> api_call q) (session s before @ session s after)
    \<and> (if b then a = RDone \<and> owner_at wp n = Some c \<and> cr_status_at wq n = Some st else wq = wp)"
proof -
  have "owner_tests c (finish_ops c st)" by (auto simp: owner_tests_def finish_ops_def)
  then obtain es1 ops a es2 w1 w2 where f: "es = es1 @ Act s (KJson n ops) a # es2" "krun w0 es1 w1"
    "kstep (fst s) (KJson n ops) w1 a w2" "krun w2 es2 w" "ops \<in> finish_ops c st"
    "list_all (\<lambda>(q, _). \<not> api_call q) (session s es1 @ session s es2)"
    "b \<Longrightarrow> a = RDone \<and> owner_at w1 n = Some c" "\<not> b \<Longrightarrow> w2 = w1"
    using fenced_write [OF assms(1) pwp_finish [OF assms(2)] assms(3)] by metis
  have "cr_status_at w2 n = Some st" if b
  proof -
    have "kstep (fst s) (KJson n ops) w1 RDone w2" using f(3,7) that by simp
    then obtain e d where e: "entry_at w1 n = Some e" "apply_ops (st_version e) ops (st_status e) = Some d"
        "store_status n e d w1 = (RDone, w2)"
      using kstep_json_done by metis
    obtain e' where e': "entry_at w2 n = Some e'" "st_status e' = map_option cr_status_default d"
      using store_status_done_entry [OF e(3,1)] by metis
    obtain x where "d = Some x" "x FPhase = Some (Some (phase_from_status st))"
      using e(2) f(5) by (auto simp: finish_ops_def split: option.splits if_splits Option.bind_splits)
    then show ?thesis using e'
      by (cases st) (auto simp: cr_status_at_def status_or_default_def entry_of_def read_status_def doc_text_def
          status_from_phase_def phase_defs)
  qed
  then have "if b then a = RDone \<and> owner_at w1 n = Some c \<and> cr_status_at w2 n = Some st else w2 = w1"
    using f(7,8) by auto
  then show ?thesis using f(1-4,6) by blast
qed

subsection \<open>Concrete runs\<close>

definition demo_kube :: KubeEnv where
  "demo_kube = \<lparr>ke_sha256 = (\<lambda>s. Some (replicate 32 0)), ke_fmt = show_int, ke_parse = parse_i64,
     ke_checked_add = (\<lambda>t d. Some (t + int d))\<rparr>"

definition demo_cr :: string where "demo_cr = ''mx-cache-huggingface--m-000000000000''"

definition empty_world :: kworld where
  "empty_world = \<lparr>kw_entries = [], kw_revision = 0, kw_instant = (\<lambda>_. 0), kw_obs = (\<lambda>_. [])\<rparr>"

lemma demo_cr_name: "cr_name_for demo_kube HuggingFace ''m'' = Inr demo_cr"
  by code_simp

definition demo_claim :: "string \<Rightarrow> (kube_registry_error + ClaimOutcome) kprog" where
  "demo_claim c = kube_try_claim_for_download demo_kube ''m'' HuggingFace c 30"

text \<open>Replica 2 claims the model and dies; replica 3 polls, and polls again thirty later.\<close>

definition demo_owned :: kworld where
  "demo_owned = snd (kexec 2 5 (demo_claim ''a'') empty_world)"

definition demo_first :: "kevent list" where
  "demo_first = kevents (3, 4) 5 (demo_claim ''b'') demo_owned"

definition demo_polled :: kworld where
  "demo_polled = tick 3 30 (snd (kexec 3 5 (demo_claim ''b'') demo_owned))"



lemma demo_outcomes:
  "fst (kexec 2 5 (demo_claim ''a'') empty_world) = Inr Claimed"
  "fst (kexec 3 5 (demo_claim ''b'') demo_owned) = Inr (AlreadyExists DOWNLOADING)"
  "fst (kexec 3 6 (demo_claim ''c'') demo_polled) = Inr TookOver"
  by (code_simp, code_simp, code_simp)








lemma demo_entry: "entry_at demo_owned demo_cr = Some (the (entry_at demo_owned demo_cr))"
  "claimable (the (entry_at demo_owned demo_cr))" "hm_get (kw_obs demo_owned 3) demo_cr = None"
  by (code_simp, code_simp, code_simp)

theorem abandoned_download_is_reclaimed_witness:
  "let (o1, w1) = kexec 3 5 (kube_try_claim_for_download demo_kube ''m'' HuggingFace ''b'' 30) demo_owned;
       (o2, w2) = kexec 3 6 (kube_try_claim_for_download demo_kube ''m'' HuggingFace ''c'' 30) (tick 3 30 w1)
   in o1 = Inr (AlreadyExists DOWNLOADING) \<and> o2 = Inr TookOver \<and> owner_at w2 demo_cr = Some ''c''"
  by (rule abandoned_download_is_reclaimed [OF demo_cr_name demo_entry]) simp

definition demo_race :: "kevent list" where
  "demo_race = kevents (2, 2) 5 (demo_claim ''a'') empty_world @ demo_first"

lemma demo_race_run: "krun empty_world demo_race (snd (kexec 3 5 (demo_claim ''b'') demo_owned))"
  using exec_krun [of empty_world "(2, 2)" 5 "demo_claim ''a''"] exec_krun [of demo_owned "(3, 4)" 5 "demo_claim ''b''"]
  unfolding demo_race_def run_append demo_first_def demo_owned_def by (metis fst_conv)

lemma demo_race_first: "follows (demo_claim ''a'') (session (2, 2) demo_race) = Some (Inr Claimed)"
  using kexec_follows [of "demo_claim ''a''" "(2, 2)" 5 empty_world]
  by (simp add: demo_race_def demo_first_def exec_other_session demo_outcomes)

lemma demo_race_keeps: "list_all (\<lambda>e. \<not> deletes demo_cr e) demo_race"
proof -
  have "list_all (\<lambda>e. case e of Act p (KDelete n) a \<Rightarrow> False | _ \<Rightarrow> True) demo_race" by code_simp
  then show ?thesis by (rule list.pred_mono_strong) (auto simp: deletes_def split: event.splits kube_call.splits)
qed

theorem fresh_claim_is_unique_witness:
  "follows (demo_claim ''a'') (session (2, 2) demo_race) = Some (Inr Claimed)
   \<and> follows (demo_claim ''b'') (session (3, 4) demo_race) \<noteq> Some (Inr Claimed)"
  using fresh_claim_is_unique [OF demo_race_run demo_race_keeps demo_cr_name demo_cr_name,
      of "''a''" 30 "(2, 2)" "''b''" 30 "(3, 4)"]
    demo_race_first by (auto simp: demo_claim_def)

definition demo_finish :: "(kube_registry_error + bool) kprog" where
  "demo_finish = kube_finish_download_claim demo_kube ''m'' HuggingFace ''a'' DOWNLOADED None"

theorem finish_is_fenced_witness:
  "\<exists>before ops a after wp wq. kevents (2, 3) 7 demo_finish demo_owned = before @ Act (2, 3) (KJson demo_cr ops) a # after
    \<and> krun demo_owned before wp \<and> kstep 2 (KJson demo_cr ops) wp a wq
    \<and> krun wq after (snd (kexec 2 7 demo_finish demo_owned))
    \<and> list_all (\<lambda>(q, _). \<not> api_call q) (session (2, 3) before @ session (2, 3) after)
    \<and> a = RDone \<and> owner_at wp demo_cr = Some ''a'' \<and> cr_status_at wq demo_cr = Some DOWNLOADED"
proof -
  have "fst (kexec 2 7 demo_finish demo_owned) = Inr True" by code_simp
  then have "follows demo_finish (session (2, 3) (kevents (2, 3) 7 demo_finish demo_owned)) = Some (Inr True)"
    using kexec_follows [of demo_finish "(2, 3)" 7 demo_owned] by simp
  then show ?thesis
    using finish_is_fenced [OF exec_krun [of demo_owned "(2, 3)" 7 demo_finish] demo_cr_name,
        of "''a''" DOWNLOADED None "(2, 3)" True]
    unfolding demo_finish_def by simp
qed

end
