(* ===== verification/Kube_Names.thy ===== *)
theory Kube_Names
  imports Kube_Claims
begin

text \<open>
  The names of the custom resources. The transform is lossy, so every name ends in twelve hex
  digits of the SHA-256 of the original text. Shown: names have at most 253 characters of the
  allowed alphabet, two entries share a name only if the twelve digits collide, and which
  model names the API server refuses all the same. The last part is the entry that a touch before
  its first claim leaves unclaimable.
\<close>

subsection \<open>The shape of a name\<close>

definition short_hash :: "KubeEnv \<Rightarrow> string \<Rightarrow> string" where
  "short_hash env s = (case hex_sha256 env s of Inl e \<Rightarrow> [] | Inr h \<Rightarrow> take HASH_SUFFIX_LEN h)"

text \<open>What is documented of SHA-256: a digest has 32 bytes.\<close>

definition digest_32 :: "KubeEnv \<Rightarrow> bool" where
  "digest_32 env = (\<forall>s bytes. ke_sha256 env s = Some bytes \<longrightarrow> length bytes = 32)"

definition name_char :: "char \<Rightarrow> bool" where
  "name_char c = (is_ascii_lowercase c \<or> is_ascii_digit c \<or> c = CHR ''-'' \<or> c = CHR ''.'')"

definition label_edge :: "char \<Rightarrow> bool" where
  "label_edge c = (is_ascii_lowercase c \<or> is_ascii_digit c)"

lemma hex_digit_edge: "d < 16 \<Longrightarrow> label_edge (hex_digit d)"
  by (auto simp: label_edge_def hex_digit_def is_ascii_lowercase_def is_ascii_digit_def)

lemma show_byte_edges: "length (show_byte b) = 2 \<and> list_all label_edge (show_byte b)"
proof -
  have "unat b < 256" using unsigned_less [of b, where ?'a = nat] by simp
  then have "unat b div 16 < 16" by (simp add: less_mult_imp_div_less)
  then show ?thesis by (auto simp: show_byte_def hex_digit_edge)
qed

lemma hex_text:
  "length (concat (map show_byte bs)) = 2 * length bs \<and> list_all label_edge (concat (map show_byte bs))"
  by (induction bs) (use show_byte_edges in auto)

lemma short_hash_shape:
  assumes "digest_32 env" and "hex_sha256 env s = Inr h"
  shows "length (short_hash env s) = 12 \<and> list_all label_edge (short_hash env s)"
proof -
  obtain bs where bs: "ke_sha256 env s = Some bs" "h = concat (map show_byte bs)"
    using assms(2) by (auto simp: hex_sha256_def sha256_hex_def split: option.splits)
  then have "length bs = 32" using assms(1) by (auto simp: digest_32_def)
  moreover have "list_all label_edge (take 12 h)"
    using hex_text [of bs] unfolding bs(2) list_all_iff by (metis in_set_takeD)
  ultimately show ?thesis using assms(2) hex_text [of bs] bs(2)
    by (simp add: short_hash_def HASH_SUFFIX_LEN_def)
qed

lemma lowercase_char: "is_ascii_alphanumeric c \<Longrightarrow> label_edge (to_ascii_lowercase c)"
  by (auto simp: label_edge_def to_ascii_lowercase_def is_ascii_alphanumeric_def is_ascii_uppercase_def
      is_ascii_lowercase_def is_ascii_digit_def of_char_of)

lemma sanitize_chars: "list_all name_char (sanitize_char c)"
  using lowercase_char [of c] by (auto simp: sanitize_char_def name_char_def label_edge_def)

lemma set_trim_matches: "set (trim_matches P s) \<subseteq> set s"
  unfolding trim_matches_def by (metis set_dropWhileD set_rev subsetI)

definition readable :: "string \<Rightarrow> string" where
  "readable s = trim_matches name_edge (concat (map sanitize_char s))"

lemma readable_chars: "list_all name_char (readable s)"
proof -
  have "list_all name_char (concat (map sanitize_char s))"
    by (induction s) (use sanitize_chars in auto)
  then show ?thesis unfolding readable_def list_all_iff by (metis set_trim_matches subsetD)
qed

text \<open>A provider name stays at the front of the readable part, so that part is never empty.\<close>

lemma trim_matches_Cons: "\<not> P a \<Longrightarrow> trim_matches P (a # s) = a # rev (dropWhile P (rev s))"
  by (auto simp: trim_matches_def dropWhile_append)

lemma label_edge_inner: "label_edge c \<Longrightarrow> \<not> name_edge c"
  by (auto simp: label_edge_def name_edge_def is_ascii_lowercase_def is_ascii_digit_def)

lemma provider_str_front: "\<exists>c s. kube_provider_str p = c # s \<and> is_ascii_alphanumeric c"
  by (cases p) (auto simp: is_ascii_alphanumeric_def is_ascii_uppercase_def)

lemma readable_scoped:
  obtains a s where "readable (kube_provider_str p @ ''/'' @ name) = a # s" "label_edge a"
proof -
  obtain c t where c: "kube_provider_str p = c # t" "is_ascii_alphanumeric c" using provider_str_front by blast
  have "sanitize_char c = [to_ascii_lowercase c]" using c(2)
    by (auto simp: sanitize_char_def is_ascii_alphanumeric_def is_ascii_uppercase_def is_ascii_lowercase_def is_ascii_digit_def)
  then show ?thesis
    using that [OF _ lowercase_char [OF c(2)]] trim_matches_Cons [of name_edge, OF label_edge_inner [OF lowercase_char [OF c(2)]]]
    by (simp add: readable_def c(1))
qed

lemma sanitize_form:
  "sanitize_registry_name env x = sum_bind (hex_sha256 env x) (\<lambda>hash.
     Inr (if readable x = [] then take HASH_SUFFIX_LEN hash
          else take 231 (readable x) @ ''-'' @ take HASH_SUFFIX_LEN hash))"
proof -
  have "NAME_BUDGET - (HASH_SUFFIX_LEN + 1) = 231"
    by (simp add: NAME_BUDGET_def HASH_SUFFIX_LEN_def K8S_NAME_MAX_def CR_NAME_PREFIX_def)
  moreover have "take (min (length y) 231) y = take 231 y" for y :: string by (simp add: min_def)
  ultimately show ?thesis
    unfolding sanitize_registry_name_def Let_def readable_def [symmetric]
    by (cases "hex_sha256 env x") simp_all
qed

lemma cr_name_form:
  assumes "cr_name_for env p name = Inr n"
  obtains a s h where "n = ''mx-cache-'' @ take 231 (a # s) @ ''-'' @ short_hash env (kube_provider_str p @ ''/'' @ name)"
    "readable (kube_provider_str p @ ''/'' @ name) = a # s" "label_edge a"
    "hex_sha256 env (kube_provider_str p @ ''/'' @ name) = Inr h"
proof -
  let ?x = "kube_provider_str p @ ''/'' @ name"
  obtain a s where r: "readable ?x = a # s" "label_edge a" by (rule readable_scoped)
  obtain h where h: "hex_sha256 env ?x = Inr h"
    using assms by (cases "hex_sha256 env ?x") (auto simp: cr_name_for_def sanitize_form)
  have "n = ''mx-cache-'' @ take 231 (a # s) @ ''-'' @ short_hash env ?x"
    using assms unfolding cr_name_for_def sanitize_form h short_hash_def r(1) CR_NAME_PREFIX_def by simp
  then show ?thesis using that r h by blast
qed

text \<open>
  C30. Every resource name fits the name limit of the API server, is written in its alphabet,
  and begins and ends with a letter or digit, whatever the model is called and however long.
\<close>

theorem cr_name_bounds:
  assumes "digest_32 env" and "cr_name_for env p name = Inr n"
  shows "length n \<le> K8S_NAME_MAX \<and> list_all name_char n \<and> label_edge (hd n) \<and> label_edge (last n)"
proof -
  let ?x = "kube_provider_str p @ ''/'' @ name"
  obtain a s h where n: "n = ''mx-cache-'' @ take 231 (a # s) @ ''-'' @ short_hash env ?x" and r: "readable ?x = a # s"
      and h: "hex_sha256 env ?x = Inr h"
    using assms(2) by (rule cr_name_form)
  have sh: "length (short_hash env ?x) = 12" "list_all label_edge (short_hash env ?x)"
    using short_hash_shape [OF assms(1) h] by simp_all
  then have "last n = last (short_hash env ?x)" "last n \<in> set (short_hash env ?x)" by (auto simp: n)
  then have "label_edge (last n)" using sh(2) by (auto simp: list_all_iff)
  moreover have "list_all name_char (take 231 (a # s))"
    using readable_chars [of ?x] unfolding r list_all_iff by (metis in_set_takeD)
  moreover have "list_all name_char (short_hash env ?x)"
    using sh(2) by (auto simp: list_all_iff label_edge_def name_char_def)
  moreover have "list_all name_char ''mx-cache-''" by code_simp
  moreover have "label_edge (hd n)" by (simp add: n label_edge_def is_ascii_lowercase_def)
  moreover have "length n \<le> 253" using sh(1) by (simp add: n)
  ultimately show ?thesis by (simp add: n K8S_NAME_MAX_def name_char_def)
qed

definition demo_bounds_name :: string where
  "demo_bounds_name = ''mx-cache-huggingface--org--model-v1.0-000000000000''"

lemma demo_digest: "digest_32 demo_kube"
  by (simp add: digest_32_def demo_kube_def)

theorem cr_name_bounds_witness:
  "length demo_bounds_name \<le> K8S_NAME_MAX \<and> list_all name_char demo_bounds_name
   \<and> label_edge (hd demo_bounds_name) \<and> label_edge (last demo_bounds_name)"
proof (rule cr_name_bounds [OF demo_digest])
  show "cr_name_for demo_kube HuggingFace ''Org/Model_v1.0'' = Inr demo_bounds_name" by code_simp
qed

subsection \<open>Names tell entries apart\<close>

lemma provider_slash: "CHR ''/'' \<notin> set (kube_provider_str p)"
  by (cases p) auto

lemma scoped_text_inj:
  assumes "kube_provider_str p @ ''/'' @ a = kube_provider_str q @ ''/'' @ b"
  shows "p = q \<and> a = b"
proof -
  have "split_once (CHR ''/'') (kube_provider_str p @ CHR ''/'' # a) = split_once (CHR ''/'') (kube_provider_str q @ CHR ''/'' # b)"
    using assms by simp
  then have "kube_provider_str p = kube_provider_str q" "a = b"
    by (simp_all add: split_once_append provider_slash)
  then show ?thesis by (cases p; cases q; simp)
qed

lemma name_ends_in_hash:
  assumes "digest_32 env" and "cr_name_for env p name = Inr n"
  shows "drop (length n - 12) n = short_hash env (kube_provider_str p @ ''/'' @ name)"
proof -
  obtain a s h where n: "n = ''mx-cache-'' @ take 231 (a # s) @ ''-'' @ short_hash env (kube_provider_str p @ ''/'' @ name)"
      and h: "hex_sha256 env (kube_provider_str p @ ''/'' @ name) = Inr h"
    using assms(2) by (rule cr_name_form)
  have "length (short_hash env (kube_provider_str p @ ''/'' @ name)) = 12"
    using short_hash_shape [OF assms(1) h] by simp
  moreover have "drop (length (u @ v) - length v) (u @ v) = v" for u v :: string by simp
  ultimately show ?thesis unfolding n by (metis append.assoc)
qed

text \<open>
  Two entries that differ in provider or in name never share a resource, unless the first
  twelve hex digits of their SHA-256 collide: folding the case of letters, replacing characters
  and cutting long names never make two downloads one.
\<close>

theorem cr_names_tell_entries_apart:
  assumes "digest_32 env" and "cr_name_for env p a = Inr n" and "cr_name_for env q b = Inr n"
    and "short_hash env (kube_provider_str p @ ''/'' @ a) = short_hash env (kube_provider_str q @ ''/'' @ b)
      \<Longrightarrow> kube_provider_str p @ ''/'' @ a = kube_provider_str q @ ''/'' @ b"
  shows "p = q \<and> a = b"
  using name_ends_in_hash [OF assms(1,2)] name_ends_in_hash [OF assms(1,3)] assms(4) scoped_text_inj by metis

definition demo_suffix_kube :: KubeEnv where
  "demo_suffix_kube = demo_kube\<lparr>ke_sha256 := (\<lambda>s. Some (take 32 (map (\<lambda>c. of_nat (of_char c)) (rev s) @ replicate 32 0)))\<rparr>"

theorem cr_names_tell_entries_apart_witness:
  "cr_name_for demo_suffix_kube HuggingFace ''google/T5'' \<noteq> cr_name_for demo_suffix_kube HuggingFace ''google/t5''"
proof
  assume eq: "cr_name_for demo_suffix_kube HuggingFace ''google/T5'' = cr_name_for demo_suffix_kube HuggingFace ''google/t5''"
  have 32: "digest_32 demo_suffix_kube" by (auto simp: digest_32_def demo_suffix_kube_def demo_kube_def min_def)
  have n: "cr_name_for demo_suffix_kube HuggingFace ''google/T5'' = Inr ''mx-cache-huggingface--google--t5-35542f656c67''"
    by code_simp
  have h: "short_hash demo_suffix_kube (kube_provider_str HuggingFace @ ''/'' @ ''google/T5'')
      \<noteq> short_hash demo_suffix_kube (kube_provider_str HuggingFace @ ''/'' @ ''google/t5'')" by code_simp
  show False
    using cr_names_tell_entries_apart [OF 32 n n [unfolded eq]] h by auto
qed

lemma matches_label:
  assumes "s \<noteq> []" and "list_all name_char s" and "CHR ''.'' \<notin> set s" and "label_edge (hd s)" and "label_edge (last s)"
  shows "matches_dns1123_label s"
proof -
  have "list_all (\<lambda>b. is_ascii_lowercase b \<or> is_ascii_digit b \<or> b = CHR ''-'') s"
    using assms(2,3) by (auto simp: list_all_iff name_char_def)
  moreover have "first_opt s = Some (hd s)" "last_opt s = Some (last s)"
    using assms(1) by (auto simp: first_opt_def last_opt_def last_rev hd_rev [symmetric] split: list.splits)
  ultimately show ?thesis using assms(4,5)
    by (auto simp: matches_dns1123_label_def is_some_and_def label_edge_def is_ascii_alphanumeric_def)
qed

lemma dot_from_dot: "CHR ''.'' \<in> set (sanitize_char c) \<Longrightarrow> c = CHR ''.''"
proof -
  have "\<not> label_edge (CHR ''.'')" by (simp add: label_edge_def is_ascii_lowercase_def is_ascii_digit_def)
  then show "CHR ''.'' \<in> set (sanitize_char c) \<Longrightarrow> c = CHR ''.''"
    using lowercase_char [of c] by (auto simp: sanitize_char_def split: if_splits)
qed

text \<open>A model name without a dot always gives a name the API server accepts.\<close>

lemma dotless_name_is_accepted:
  assumes "digest_32 env" and "cr_name_for env p name = Inr n" and "CHR ''.'' \<notin> set name"
    and shape: "length n \<le> 253 \<and> list_all name_char n \<and> label_edge (hd n) \<and> label_edge (last n)"
  shows "is_dns1123_subdomain n"
proof -
  let ?x = "kube_provider_str p @ ''/'' @ name"
  obtain a s h where n: "n = ''mx-cache-'' @ take 231 (a # s) @ ''-'' @ short_hash env ?x" and r: "readable ?x = a # s"
      and h: "hex_sha256 env ?x = Inr h"
    using assms(2) by (rule cr_name_form)
  have "CHR ''.'' \<notin> set ?x" using assms(3) by (cases p) auto
  then have "CHR ''.'' \<notin> set (readable ?x)"
    using set_trim_matches [of name_edge "concat (map sanitize_char ?x)"] dot_from_dot
    unfolding readable_def by fastforce
  then have "CHR ''.'' \<notin> set (take 231 (a # s))" unfolding r by (meson in_set_takeD)
  moreover have "CHR ''.'' \<notin> set (short_hash env ?x)"
    using short_hash_shape [OF assms(1) h] by (auto simp: list_all_iff label_edge_def is_ascii_lowercase_def is_ascii_digit_def)
  ultimately have dot: "CHR ''.'' \<notin> set n" by (simp add: n)
  have "matches_dns1123_label n" using shape dot by (intro matches_label) (auto simp: n)
  then show ?thesis using shape dot by (simp add: is_dns1123_subdomain_def str_split_no_sep)
qed

text \<open>
  A dot next to a dash or underscore survives sanitizing, and the name is then no DNS-1123
  subdomain: the API server refuses to create the entry, so that the model can never be claimed.
\<close>

theorem dotted_name_is_refused:
  "cr_name_for demo_kube HuggingFace ''org/llama-.5b'' = Inr ''mx-cache-huggingface--org--llama-.5b-000000000000''
   \<and> \<not> is_dns1123_subdomain ''mx-cache-huggingface--org--llama-.5b-000000000000''
   \<and> fst (kexec 2 5 (kube_try_claim_for_download demo_kube ''org/llama-.5b'' HuggingFace ''a'' 30) empty_world)
     = Inl (KApi (ApiErr 422))"
  by (intro conjI) (code_simp+)

subsection \<open>An entry touched before it is claimed\<close>

text \<open>An entry whose status has the empty phase: read as Downloading, but never claimable.\<close>

definition blank_phase :: "kworld \<Rightarrow> string \<Rightarrow> bool" where
  "blank_phase w n = (case Option.bind (entry_at w n) st_status of
      None \<Rightarrow> False | Some d \<Rightarrow> d FPhase = Some (Some []))"

lemma blank_phase_claim:
  assumes "cr_name_for env p name = Inr n" and "blank_phase w n"
  shows "fst (kexec r t (kube_try_claim_for_download env name p c d) w) = Inr (AlreadyExists DOWNLOADING)
    \<and> kw_entries (snd (kexec r t (kube_try_claim_for_download env name p c d) w)) = kw_entries w"
proof -
  obtain e doc where e: "entry_at w n = Some e" "st_status e = Some doc" "doc FPhase = Some (Some [])"
    using assms(2) by (auto simp: blank_phase_def split: option.splits Option.bind_splits)
  have dl: "mst_phase (status_or_default (entry_of n e)) = []"
    using e(2,3) by (simp add: status_or_default_def entry_of_def read_status_def doc_text_def)
  have reject: "apply_ops v (claim_ops False v' c t1 t2) (Some doc) = None" for v v' t1 t2
    using e(3) by (simp add: claim_ops_def phase_DOWNLOADING_def)
  have g: "hm_get (kw_entries w) n = Some e" using e(1) by (simp add: entry_at_def)
  have s: "status_from_phase [] = DOWNLOADING" by code_simp
  have fin: "fst (kexec r t (take_claim env n v False c d False) (w\<lparr>kw_obs := x\<rparr>)) = Inr (AlreadyExists DOWNLOADING)
      \<and> kw_entries (snd (kexec r t (take_claim env n v False c d False) (w\<lparr>kw_obs := x\<rparr>))) = kw_entries w" for v x
    using g e(2) reject dl s
    by (simp add: take_claim_def answer_def current_status_def exec_ptry exec_get_cr entry_at_def
        entry_of_def status_or_default_def)
  show ?thesis
    using fin dl s e(2)
    by (simp add: exec_claim_existing [OF assms(1) e(1)] try_claim_existing_def Let_def lease_has_expired_def
        answer_def case_prod_beta entry_of_def)
qed

lemma exec_first_existing:
  "kexec r t (first_existing ns) w =
     (Inr (map_option (\<lambda>n. entry_of n (the (entry_at w n))) (List.find (\<lambda>n. entry_at w n \<noteq> None) ns)), w)"
  by (induction ns) (auto simp: exec_ptry exec_get_cr)

text \<open>
  C40. \<^verbatim>\<open>touch_model\<close> on an entry that another replica has created but not yet claimed (the
  first that exists among the candidate names of the model, of any provider) gives it a status with
  a timestamp and, by the schema's default, the empty phase. While nothing else writes the entry,
  every claim of every replica at any time is told the model is being downloaded and changes
  nothing, however long ago the entry was made: nobody downloads it.
\<close>

theorem touch_before_claim_strands_entry:
  assumes "cr_name_for env p name = Inr n" and "candidate_cr_names env name = Inr ns"
    and "List.find (\<lambda>m. entry_at w m \<noteq> None) ns = Some n"
    and "entry_at w n = Some e" and "st_status e = None"
  shows "let w1 = snd (kexec r t (kube_touch_model env name) w) in
    blank_phase w1 n \<and> (\<forall>w2 r' t' c d. kw_entries w2 = kw_entries w1 \<longrightarrow>
      fst (kexec r' t' (kube_try_claim_for_download env name p c d) w2) = Inr (AlreadyExists DOWNLOADING)
      \<and> kw_entries (snd (kexec r' t' (kube_try_claim_for_download env name p c d) w2)) = kw_entries w1)"
proof -
  let ?d = "[FLastUsedAt \<mapsto> Some (ke_fmt env t), FPhase \<mapsto> Some []]"
  have d: "cr_status_default [FLastUsedAt \<mapsto> Some (ke_fmt env t)] = ?d"
    by (simp add: cr_status_default_def)
  have v: "cr_status_valid ?d" by (simp add: cr_status_valid_def PhaseSchema_def)
  have "kexec r t (kube_touch_model env name) w = (Inr (), store_entry n (st_spec e) (Some ?d) w)"
    using assms(2-5) d v
    by (simp add: kube_touch_model_def find_existing_cr_def exec_ptry exec_first_existing answer_def patch_status_def
        status_patch_doc_def merge_field_def no_patch_def entry_of_def entry_at_def store_status_def)
  moreover have "blank_phase (store_entry n (st_spec e) (Some ?d) w) n"
    by (simp add: blank_phase_def entry_at_store_entry)
  moreover have "blank_phase w2 n" if "kw_entries w2 = kw_entries w1" "blank_phase w1 n" for w1 w2
    using that by (simp add: blank_phase_def entry_at_def)
  ultimately show ?thesis using blank_phase_claim [OF assms(1)] by (auto simp: Let_def)
qed

definition demo_created :: kworld where
  "demo_created = snd (kserve 2 (KCreate demo_cr \<lparr>mcs_model_name = ''m'', mcs_provider = ''HuggingFace''\<rparr>) empty_world)"

theorem touch_before_claim_strands_entry_witness:
  "blank_phase (snd (kexec 3 5 (kube_touch_model demo_kube ''m'') demo_created)) demo_cr"
proof -
  let ?ns = "[demo_cr, ''mx-cache-ngc--m-000000000000'', ''mx-cache-gcs--m-000000000000'',
         ''mx-cache-s3--m-000000000000'', ''mx-cache-m-000000000000'']"
  have n: "candidate_cr_names demo_kube ''m'' = Inr ?ns" by code_simp
  have e: "entry_at demo_created demo_cr = Some \<lparr>st_spec = \<lparr>mcs_model_name = ''m'', mcs_provider = ''HuggingFace''\<rparr>,
      st_status = None, st_version = ''0''\<rparr>" by code_simp
  have f: "List.find (\<lambda>m. entry_at demo_created m \<noteq> None) ?ns = Some demo_cr" by (simp add: e)
  show ?thesis using touch_before_claim_strands_entry [OF demo_cr_name n f e] by (auto simp: Let_def)
qed

end
