(* ===== verification/P2p_Kube.thy ===== *)
theory P2p_Kube
  imports Call_Trees Entry_Key P2p_Store
begin

text \<open>
  The Kubernetes backend of the peer-to-peer store (\<^verbatim>\<open>p2p/backend/kubernetes.rs\<close>,
  \<^verbatim>\<open>p2p/k8s_types.rs\<close>): one \<^verbatim>\<open>ModelMetadata\<close> custom resource per worker and a config map
  with its tensors.

  Methods are call trees over the API server. A status is written by a JSON merge patch that carries the
  resource version it was computed from, which the server refuses with 409 when the object has
  moved on; a merge patch replaces scalars and lists and merges objects key by key, which shows
  in the topology map. Every \<^verbatim>\<open>WorkerStatus\<close> field is serialized, a \<^verbatim>\<open>None\<close> as null, so that the
  other fields are replaced. \<^verbatim>\<open>chrono\<close>, \<^verbatim>\<open>base64\<close>, the JSON printer of tensor lists and the source id
  are fields of \<open>PKubeEnv\<close>. The pauses between attempts have no effect on the state.
\<close>

subsection \<open>p2p/k8s\_types.rs\<close>

record OwnerReference =
  or_api_version :: string
  or_kind :: string
  or_name :: string
  or_uid :: string
  or_controller :: bool
  or_block_owner_deletion :: bool

record Condition =
  cn_type :: string
  cn_status :: string
  cn_reason :: "string option"
  cn_message :: "string option"
  cn_last_transition_time :: "string option"

record ArtifactSourceStatus =
  as_artifact_id :: string
  as_total_size :: int
  as_file_count :: u32
  as_chunk_count :: u32
  as_node_rank :: u32

record WorkerStatus =
  ws_worker_rank :: int
  ws_backend_type :: "string option"
  ws_nixl_metadata :: string
  ws_transfer_engine_session_id :: "string option"
  ws_tensor_count :: int
  ws_tensor_config_map :: "string option"
  ws_status :: string
  ws_updated_at :: "string option"
  ws_metadata_endpoint :: string
  ws_agent_name :: string
  ws_worker_grpc_endpoint :: string
  ws_accelerator :: string
  ws_source_load :: "f32 option"
  ws_topology :: params
  ws_artifact_source :: "ArtifactSourceStatus option"

record ModelMetadataStatus =
  ms_worker :: "WorkerStatus option"
  ms_conditions :: "Condition list"
  ms_observed_generation :: int
  ms_published_at :: "string option"

definition default_metadata_status :: ModelMetadataStatus where
  "default_metadata_status = \<lparr>ms_worker = None, ms_conditions = [], ms_observed_generation = 0, ms_published_at = None\<rparr>"

record ModelMetadataSpec =
  mp_model_name :: string
  mp_source_type :: string

record ModelMetadata =
  md_name :: "string option"
  md_labels :: params
  md_owner_references :: "OwnerReference list option"
  md_uid :: "string option"
  md_resource_version :: "string option"
  md_generation :: "int option"
  md_spec :: ModelMetadataSpec
  md_status :: "ModelMetadataStatus option"

definition source_type_name_from_proto :: "int \<Rightarrow> string" where
  "source_type_name_from_proto t =
     (if t = 0 then ''weights'' else if t = 1 then ''lora'' else if t = 2 then ''cuda_graph''
      else if t = 3 then ''torch_compile_cache'' else if t = 4 then ''triton_cache''
      else if t = 5 then ''deep_gemm_cache'' else if t = 6 then ''tilelang_cache''
      else if t = 7 then ''cute_dsl_cache'' else if t = 8 then ''flashinfer_cache''
      else if t = 9 then ''tvm_ffi_cache'' else ''unknown'')"

definition status_name_from_proto :: "int \<Rightarrow> string" where
  "status_name_from_proto st =
     (if st = 0 then ''Unknown'' else if st = 1 then ''Initializing'' else if st = 2 then ''Ready''
      else if st = 3 then ''Stale'' else ''Unknown'')"

definition status_proto_from_name :: "string \<Rightarrow> int" where
  "status_proto_from_name n =
     (if n = ''Initializing'' then 1 else if n = ''Ready'' then 2 else if n = ''Stale'' then 3 else 0)"

fun set_condition_in :: "string \<Rightarrow> string \<Rightarrow> string \<Rightarrow> string \<Rightarrow> string \<Rightarrow> Condition list \<Rightarrow> Condition list" where
  "set_condition_in now ty st reason message [] =
     [\<lparr>cn_type = ty, cn_status = st, cn_reason = Some reason, cn_message = Some message,
       cn_last_transition_time = Some now\<rparr>]"
| "set_condition_in now ty st reason message (c # cs) =
     (if cn_type c = ty
      then c\<lparr>cn_last_transition_time := (if cn_status c \<noteq> st then Some now else cn_last_transition_time c),
             cn_status := st, cn_reason := Some reason, cn_message := Some message\<rparr> # cs
      else c # set_condition_in now ty st reason message cs)"

definition set_condition :: "string \<Rightarrow> string \<Rightarrow> string \<Rightarrow> string \<Rightarrow> string \<Rightarrow> ModelMetadataStatus \<Rightarrow> ModelMetadataStatus" where
  "set_condition now ty st reason message ms =
     ms\<lparr>ms_conditions := set_condition_in now ty st reason message (ms_conditions ms)\<rparr>"

definition update_ready_condition :: "string \<Rightarrow> int \<Rightarrow> ModelMetadataStatus \<Rightarrow> ModelMetadataStatus" where
  "update_ready_condition now worker_proto_status ms =
     (if worker_proto_status = 2
      then set_condition now ''Ready'' ''True'' ''WorkerReady'' ''Worker is ready'' ms
      else set_condition now ''Ready'' ''False'' (''Worker'' @ status_name_from_proto worker_proto_status)
             ''Worker is not ready'' ms)"

record TensorDescriptorJson =
  tj_name :: string
  tj_addr :: string
  tj_size :: string
  tj_device_id :: u32
  tj_dtype :: string

definition sanitize_model_name :: "string \<Rightarrow> string" where
  "sanitize_model_name model_name =
     (let kept = filter (\<lambda>c. is_ascii_alphanumeric c \<or> c = CHR ''-'' \<or> c = CHR ''.'')
            (map (\<lambda>c. if c = CHR ''/'' \<or> c = CHR ''_'' then CHR ''-'' else c) (to_lowercase model_name))
      in trim_end_matches (CHR ''-'') (trim_start_matches (CHR ''-'') kept))"

subsection \<open>The API server\<close>

record ConfigMap =
  cm_name :: string
  cm_labels :: params
  cm_owner_references :: "OwnerReference list option"
  cm_data :: params

record pworld =
  pw_crs :: "(string, ModelMetadata) hash_map"
  pw_cms :: "(string, ConfigMap) hash_map"
  pw_revision :: nat

datatype p_error = PApiErr nat | PTransport

record StatusWrite =
  sw_resource_version :: string
  sw_worker :: WorkerStatus
  sw_published_at :: "string option"
  sw_conditions :: "Condition list"
  sw_observed_generation :: int

datatype p_call =
    PGet string
  | PCreate string params "OwnerReference list option" ModelMetadataSpec
  | PLabel string string string
  | POwners string "OwnerReference list"
  | PStatus string StatusWrite
  | PList "string option"
  | PDelete string
  | CmCreate ConfigMap
  | CmPatch ConfigMap
  | CmGet string
  | CmList string
  | CmDelete string
  | PUtcNow

datatype p_reply =
    PEntry ModelMetadata
  | PEntries "ModelMetadata list"
  | PConfig ConfigMap
  | PConfigs "ConfigMap list"
  | PTime int
  | PDone
  | PErr p_error

definition SOURCE_ID_LABEL :: string where "SOURCE_ID_LABEL = ''modelexpress.nvidia.com/mx-source-id''"
definition WORKER_ID_LABEL :: string where "WORKER_ID_LABEL = ''modelexpress.nvidia.com/mx-worker-id''"
definition OWNER_NAMESPACE_LABEL :: string where "OWNER_NAMESPACE_LABEL = ''modelexpress.nvidia.com/owner-namespace''"

definition put_cr :: "string \<Rightarrow> ModelMetadata \<Rightarrow> pworld \<Rightarrow> pworld" where
  "put_cr n cr w = w\<lparr>
     pw_crs := hm_insert n (cr\<lparr>md_name := Some n, md_resource_version := Some (show_nat (pw_revision w))\<rparr>) (pw_crs w),
     pw_revision := Suc (pw_revision w)\<rparr>"

text \<open>The merge of a worker object into a stored one: keys of the topology map accumulate.\<close>

fun merge_params :: "params \<Rightarrow> params \<Rightarrow> params" where
  "merge_params [] old = old"
| "merge_params ((k, v) # new) old = hm_insert k v (merge_params new old)"

definition merge_worker :: "WorkerStatus option \<Rightarrow> WorkerStatus \<Rightarrow> WorkerStatus" where
  "merge_worker old new = (case old of
      None \<Rightarrow> new
    | Some o' \<Rightarrow> new\<lparr>ws_topology := merge_params (ws_topology new) (ws_topology o')\<rparr>)"

definition merge_metadata_status :: "StatusWrite \<Rightarrow> ModelMetadataStatus option \<Rightarrow> ModelMetadataStatus" where
  "merge_metadata_status sw old = \<lparr>ms_worker = Some (merge_worker (Option.bind old ms_worker) (sw_worker sw)),
     ms_conditions = sw_conditions sw, ms_observed_generation = sw_observed_generation sw,
     ms_published_at = (case sw_published_at sw of Some t \<Rightarrow> Some t | None \<Rightarrow> Option.bind old ms_published_at)\<rparr>"

fun pserve :: "p_call \<Rightarrow> pworld \<Rightarrow> p_reply \<times> pworld" where
  "pserve (PGet n) w = (case hm_get (pw_crs w) n of None \<Rightarrow> (PErr (PApiErr 404), w) | Some cr \<Rightarrow> (PEntry cr, w))"
| "pserve (PCreate n labels owners spec) w =
     (case hm_get (pw_crs w) n of
        Some _ \<Rightarrow> (PErr (PApiErr 409), w)
      | None \<Rightarrow> (PDone, put_cr n \<lparr>md_name = Some n, md_labels = labels, md_owner_references = owners,
          md_uid = Some (show_nat (pw_revision w)), md_resource_version = None, md_generation = Some 1,
          md_spec = spec, md_status = None\<rparr> w))"
| "pserve (PLabel n k v) w =
     (case hm_get (pw_crs w) n of
        None \<Rightarrow> (PErr (PApiErr 404), w)
      | Some cr \<Rightarrow> (PDone, put_cr n (cr\<lparr>md_labels := hm_insert k v (md_labels cr)\<rparr>) w))"
| "pserve (POwners n refs) w =
     (case hm_get (pw_crs w) n of
        None \<Rightarrow> (PErr (PApiErr 404), w)
      | Some cr \<Rightarrow> (PDone, put_cr n (cr\<lparr>md_owner_references := Some refs\<rparr>) w))"
| "pserve (PStatus n sw) w =
     (case hm_get (pw_crs w) n of
        None \<Rightarrow> (PErr (PApiErr 404), w)
      | Some cr \<Rightarrow>
          if sw_resource_version sw \<noteq> [] \<and> md_resource_version cr \<noteq> Some (sw_resource_version sw)
          then (PErr (PApiErr 409), w)
          else (PDone, put_cr n (cr\<lparr>md_status := Some (merge_metadata_status sw (md_status cr))\<rparr>) w))"
| "pserve (PList sel) w =
     (PEntries (filter (\<lambda>cr. case sel of None \<Rightarrow> True | Some sid \<Rightarrow> hm_get (md_labels cr) SOURCE_ID_LABEL = Some sid)
        (hm_values (pw_crs w))), w)"
| "pserve (PDelete n) w =
     (case hm_get (pw_crs w) n of
        None \<Rightarrow> (PErr (PApiErr 404), w)
      | Some _ \<Rightarrow> (PDone, w\<lparr>pw_crs := hm_remove n (pw_crs w), pw_revision := Suc (pw_revision w)\<rparr>))"
| "pserve (CmCreate cm) w =
     (case hm_get (pw_cms w) (cm_name cm) of
        Some _ \<Rightarrow> (PErr (PApiErr 409), w)
      | None \<Rightarrow> (PDone, w\<lparr>pw_cms := hm_insert (cm_name cm) cm (pw_cms w)\<rparr>))"
| "pserve (CmPatch cm) w =
     (case hm_get (pw_cms w) (cm_name cm) of
        None \<Rightarrow> (PErr (PApiErr 404), w)
      | Some old \<Rightarrow> (PDone, w\<lparr>pw_cms := hm_insert (cm_name cm)
          (old\<lparr>cm_labels := merge_params (cm_labels cm) (cm_labels old),
               cm_owner_references := (case cm_owner_references cm of Some r \<Rightarrow> Some r | None \<Rightarrow> cm_owner_references old),
               cm_data := merge_params (cm_data cm) (cm_data old)\<rparr>) (pw_cms w)\<rparr>))"
| "pserve (CmGet n) w = (case hm_get (pw_cms w) n of None \<Rightarrow> (PErr (PApiErr 404), w) | Some cm \<Rightarrow> (PConfig cm, w))"
| "pserve (CmList sid) w =
     (PConfigs (filter (\<lambda>cm. hm_get (cm_labels cm) SOURCE_ID_LABEL = Some sid) (hm_values (pw_cms w))), w)"
| "pserve (CmDelete n) w =
     (case hm_get (pw_cms w) n of
        None \<Rightarrow> (PErr (PApiErr 404), w) | Some _ \<Rightarrow> (PDone, w\<lparr>pw_cms := hm_remove n (pw_cms w)\<rparr>))"
| "pserve PUtcNow w = (PTime 0, w)"

text \<open>As served, or refused, or carried out with the reply lost.\<close>

inductive pstep :: "nat \<Rightarrow> p_call \<Rightarrow> pworld \<Rightarrow> p_reply \<Rightarrow> pworld \<Rightarrow> bool" where
  PServed: "q \<noteq> PUtcNow \<Longrightarrow> pserve q w = (a, w') \<Longrightarrow> pstep r q w a w'"
| PClock: "pstep r PUtcNow w (PTime t) w"
| PRefused: "q \<noteq> PUtcNow \<Longrightarrow> e \<noteq> PApiErr 404 \<Longrightarrow> pstep r q w (PErr e) w"
| PLost: "q \<noteq> PUtcNow \<Longrightarrow> pserve q w = (a, w') \<Longrightarrow> pstep r q w (PErr PTransport) w'"

subsection \<open>Replies and conversions\<close>

type_synonym 'a pprog = "(p_call, p_reply, 'a) prog"

datatype p2pk_error =
    PKApi p_error
  | PKDigest
  | PKForeignOwner string
  | PKRetries
  | PKNoStatus
  | PKNoWorker
  | PKNoTensors
  | PKJson
  | PKTensor string string
  | PKBase64
  | PKRange

record PKubeEnv =
  pe_namespace :: string
  pe_source_id :: "SourceIdentity \<Rightarrow> string option"
  pe_fmt :: "int \<Rightarrow> string"
  pe_fmt_millis :: "int \<Rightarrow> string option"
  pe_millis :: "string \<Rightarrow> int option"
  pe_seconds :: "string \<Rightarrow> int option"
  pe_b64 :: "u8 list \<Rightarrow> string"
  pe_unb64 :: "string \<Rightarrow> u8 list option"
  pe_print :: "TensorDescriptorJson list \<Rightarrow> string"
  pe_parse :: "string \<Rightarrow> TensorDescriptorJson list option"

fun p_entry :: "p_reply \<Rightarrow> p_error + ModelMetadata" where
  "p_entry (PEntry cr) = Inr cr" | "p_entry (PErr e) = Inl e" | "p_entry _ = Inl PTransport"

fun p_entries :: "p_reply \<Rightarrow> p_error + ModelMetadata list" where
  "p_entries (PEntries crs) = Inr crs" | "p_entries (PErr e) = Inl e" | "p_entries _ = Inl PTransport"

fun p_config :: "p_reply \<Rightarrow> p_error + ConfigMap" where
  "p_config (PConfig cm) = Inr cm" | "p_config (PErr e) = Inl e" | "p_config _ = Inl PTransport"

fun p_configs :: "p_reply \<Rightarrow> p_error + ConfigMap list" where
  "p_configs (PConfigs cms) = Inr cms" | "p_configs (PErr e) = Inl e" | "p_configs _ = Inl PTransport"

fun p_done :: "p_reply \<Rightarrow> p_error + unit" where
  "p_done PDone = Inr ()" | "p_done (PErr e) = Inl e" | "p_done _ = Inl PTransport"

fun p_time :: "p_reply \<Rightarrow> int" where
  "p_time (PTime t) = t" | "p_time _ = 0"

definition p_now :: "(int \<Rightarrow> 'a pprog) \<Rightarrow> 'a pprog" where
  "p_now k = Call PUtcNow (\<lambda>a. k (p_time a))"

definition api_get :: "string \<Rightarrow> (p2pk_error + ModelMetadata) pprog" where
  "api_get n = Call (PGet n) (\<lambda>a. Return (map_err PKApi (p_entry a)))"

definition api_get_opt :: "string \<Rightarrow> (p2pk_error + ModelMetadata option) pprog" where
  "api_get_opt n = Call (PGet n) (\<lambda>a. Return (case p_entry a of
       Inr cr \<Rightarrow> Inr (Some cr)
     | Inl e \<Rightarrow> if e = PApiErr 404 then Inr None else Inl (PKApi e)))"

definition artifact_to_status :: "ArtifactSourceMetadataRecord \<Rightarrow> p2pk_error + ArtifactSourceStatus" where
  "artifact_to_status r =
     (if unat (ar_total_size r) \<le> 9223372036854775807
      then Inr \<lparr>as_artifact_id = ar_artifact_id r, as_total_size = uint (ar_total_size r),
                as_file_count = ar_file_count r, as_chunk_count = ar_chunk_count r, as_node_rank = ar_node_rank r\<rparr>
      else Inl PKRange)"

definition artifact_from_status :: "ArtifactSourceStatus \<Rightarrow> p2pk_error + ArtifactSourceMetadataRecord" where
  "artifact_from_status s =
     (if 0 \<le> as_total_size s
      then Inr \<lparr>ar_artifact_id = as_artifact_id s, ar_total_size = word_of_int (as_total_size s),
                ar_file_count = as_file_count s, ar_chunk_count = as_chunk_count s, ar_node_rank = as_node_rank s\<rparr>
      else Inl PKRange)"

definition transpose :: "('a \<Rightarrow> 'e + 'b) \<Rightarrow> 'a option \<Rightarrow> 'e + 'b option" where
  "transpose f x = (case x of None \<Rightarrow> Inr None | Some a \<Rightarrow> sum_bind (f a) (\<lambda>b. Inr (Some b)))"

definition owner_namespace_of :: "ModelMetadata \<Rightarrow> string option" where
  "owner_namespace_of cr = hm_get (md_labels cr) OWNER_NAMESPACE_LABEL"

definition pod_owner_references :: "string \<Rightarrow> string \<Rightarrow> string \<Rightarrow> string \<Rightarrow> OwnerReference list option" where
  "pod_owner_references pod_name pod_uid pod_namespace metadata_namespace =
     (if pod_name = [] \<or> pod_uid = [] \<or> pod_namespace = [] \<or> pod_namespace \<noteq> metadata_namespace then None
      else Some [\<lparr>or_api_version = ''v1'', or_kind = ''Pod'', or_name = pod_name, or_uid = pod_uid,
                  or_controller = False, or_block_owner_deletion = False\<rparr>])"

definition p2p_cr_name :: "string \<Rightarrow> string \<Rightarrow> string" where
  "p2p_cr_name source_id worker_id = ''mx-source-'' @ source_id @ ''-'' @ worker_id"

definition tensor_to_json :: "TensorRecord \<Rightarrow> TensorDescriptorJson" where
  "tensor_to_json t = \<lparr>tj_name = tr_name t, tj_addr = show_nat (unat (tr_addr t)),
     tj_size = show_nat (unat (tr_size t)), tj_device_id = tr_device_id t, tj_dtype = tr_dtype t\<rparr>"

definition kube_tensor_from_json :: "TensorDescriptorJson \<Rightarrow> p2pk_error + TensorRecord" where
  "kube_tensor_from_json t =
     sum_bind (ok_or (PKTensor (tj_addr t) (tj_name t)) (parse_u64 (tj_addr t))) (\<lambda>addr.
     sum_bind (ok_or (PKTensor (tj_size t) (tj_name t)) (parse_u64 (tj_size t))) (\<lambda>sz.
     Inr \<lparr>tr_name = tj_name t, tr_addr = of_nat addr, tr_size = of_nat sz, tr_device_id = tj_device_id t,
          tr_dtype = tj_dtype t\<rparr>))"

definition tensor_cm_name :: "string \<Rightarrow> string \<Rightarrow> u32 \<Rightarrow> string" where
  "tensor_cm_name source_id worker_id worker_rank =
     p2p_cr_name source_id worker_id @ ''-tensors-worker-'' @ show_nat (unat worker_rank)"

definition tensor_config_map ::
  "PKubeEnv \<Rightarrow> string \<Rightarrow> string \<Rightarrow> u32 \<Rightarrow> TensorRecord list \<Rightarrow> string option \<Rightarrow> string option \<Rightarrow> ConfigMap" where
  "tensor_config_map env source_id worker_id worker_rank tensors owner_name owner_uid =
     \<lparr>cm_name = tensor_cm_name source_id worker_id worker_rank,
      cm_labels = [(SOURCE_ID_LABEL, source_id), (''modelexpress.nvidia.com/worker'', show_nat (unat worker_rank))],
      cm_owner_references = (case (owner_name, owner_uid) of
         (Some n, Some uid) \<Rightarrow> Some [\<lparr>or_api_version = ''modelexpress.nvidia.com/v1alpha1'',
            or_kind = ''ModelMetadata'', or_name = n, or_uid = uid, or_controller = True,
            or_block_owner_deletion = True\<rparr>]
       | _ \<Rightarrow> None),
      cm_data = [(''tensors.json'', pe_print env (map tensor_to_json tensors))]\<rparr>"

definition upsert_tensor_configmap ::
  "PKubeEnv \<Rightarrow> string \<Rightarrow> string \<Rightarrow> u32 \<Rightarrow> TensorRecord list \<Rightarrow> string option \<Rightarrow> string option
   \<Rightarrow> (p2pk_error + string) pprog" where
  "upsert_tensor_configmap env source_id worker_id worker_rank tensors owner_name owner_uid =
     (let cm = tensor_config_map env source_id worker_id worker_rank tensors owner_name owner_uid
      in Call (CmCreate cm) (\<lambda>a. case p_done a of
           Inr _ \<Rightarrow> Return (Inr (cm_name cm))
         | Inl e \<Rightarrow> if e = PApiErr 409
             then Call (CmPatch cm) (\<lambda>b. case p_done b of
                Inr _ \<Rightarrow> Return (Inr (cm_name cm)) | Inl e' \<Rightarrow> Return (Inl (PKApi e')))
             else Return (Inl (PKApi e))))"

definition read_tensor_configmap :: "PKubeEnv \<Rightarrow> string \<Rightarrow> (p2pk_error + TensorRecord list) pprog" where
  "read_tensor_configmap env n = Call (CmGet n) (\<lambda>a. Return (
     sum_bind (map_err PKApi (p_config a)) (\<lambda>cm.
     sum_bind (ok_or PKNoTensors (hm_get (cm_data cm) ''tensors.json'')) (\<lambda>txt.
     sum_bind (ok_or PKJson (pe_parse env txt)) (\<lambda>descs. collect_results kube_tensor_from_json descs)))))"

subsection \<open>The backend's methods\<close>

definition kp_connect :: "(p2pk_error + unit) pprog" where
  "kp_connect = Call (PList None) (\<lambda>a. Return (case p_entries a of Inl e \<Rightarrow> Inl (PKApi e) | Inr _ \<Rightarrow> Inr ()))"

definition worker_status_for :: "PKubeEnv \<Rightarrow> string \<Rightarrow> string \<Rightarrow> WorkerRecord \<Rightarrow> p2pk_error + WorkerStatus" where
  "worker_status_for env now cm r =
     sum_bind (transpose artifact_to_status (wr_artifact_source r)) (\<lambda>artifact.
     Inr \<lparr>ws_worker_rank = sint (wr_worker_rank r),
          ws_backend_type = Some (backend_type_str (wr_backend_metadata r)),
          ws_nixl_metadata = (case wr_backend_metadata r of Nixl d \<Rightarrow> pe_b64 env d | _ \<Rightarrow> []),
          ws_transfer_engine_session_id = (case wr_backend_metadata r of TransferEngine sid \<Rightarrow> Some sid | _ \<Rightarrow> None),
          ws_tensor_count = sint (of_nat (length (wr_tensors r)) :: 32 word),
          ws_tensor_config_map = Some cm,
          ws_status = status_name_from_proto (wr_status r),
          ws_updated_at = Some now, ws_metadata_endpoint = wr_metadata_endpoint r,
          ws_agent_name = wr_agent_name r, ws_worker_grpc_endpoint = wr_worker_grpc_endpoint r,
          ws_accelerator = wr_accelerator r, ws_source_load = wr_source_load r,
          ws_topology = wr_topology r, ws_artifact_source = artifact\<rparr>)"

text \<open>The status loop: read, compute, write under the version read, at most \<open>n\<close> times.\<close>

fun write_published :: "PKubeEnv \<Rightarrow> nat \<Rightarrow> string \<Rightarrow> string \<Rightarrow> int \<Rightarrow> WorkerStatus \<Rightarrow> (p2pk_error + unit) pprog" where
  "write_published env 0 cr_name now st worker = Return (Inl PKRetries)"
| "write_published env (Suc n) cr_name now st worker =
     ptry (api_get cr_name) (\<lambda>current.
     p_now (\<lambda>t.
     let crd_status = update_ready_condition (pe_fmt env t) st
           (case md_status current of Some s \<Rightarrow> s | None \<Rightarrow> default_metadata_status);
         sw = \<lparr>sw_resource_version = (case md_resource_version current of Some v \<Rightarrow> v | None \<Rightarrow> []),
               sw_worker = worker, sw_published_at = Some now, sw_conditions = ms_conditions crd_status,
               sw_observed_generation = (case md_generation current of Some g \<Rightarrow> g | None \<Rightarrow> 0)\<rparr>
     in Call (PStatus cr_name sw) (\<lambda>a. case p_done a of
          Inr _ \<Rightarrow> Return (Inr ())
        | Inl e \<Rightarrow> if e = PApiErr 409 then write_published env n cr_name now st worker
                   else Return (Inl (PKApi e)))))"

definition MAX_RETRIES :: nat where "MAX_RETRIES = 5"

definition ensure_cr :: "string \<Rightarrow> params \<Rightarrow> OwnerReference list option \<Rightarrow> ModelMetadataSpec \<Rightarrow> (p2pk_error + unit) pprog" where
  "ensure_cr cr_name labels owners spec =
     ptry (api_get_opt cr_name) (\<lambda>existing. case existing of
       Some _ \<Rightarrow> Return (Inr ())
     | None \<Rightarrow> Call (PCreate cr_name labels owners spec) (\<lambda>a. case p_done a of
           Inr _ \<Rightarrow> Return (Inr ())
         | Inl e \<Rightarrow> if e = PApiErr 409 then Return (Inr ()) else Return (Inl (PKApi e))))"

definition check_owner :: "string \<Rightarrow> string option \<Rightarrow> ModelMetadata \<Rightarrow> (p2pk_error + unit) pprog" where
  "check_owner cr_name owner_namespace cr = (case owner_namespace of
      None \<Rightarrow> Return (Inr ())
    | Some owner \<Rightarrow> (case owner_namespace_of cr of
          Some existing \<Rightarrow> if existing = owner then Return (Inr ()) else Return (Inl (PKForeignOwner existing))
        | None \<Rightarrow> Call (PLabel cr_name OWNER_NAMESPACE_LABEL owner) (\<lambda>a. Return (map_err PKApi (p_done a)))))"

definition refresh_pod_owner :: "string \<Rightarrow> OwnerReference list option \<Rightarrow> ModelMetadata \<Rightarrow> (p2pk_error + unit) pprog" where
  "refresh_pod_owner cr_name refs cr = (case refs of
      None \<Rightarrow> Return (Inr ())
    | Some rs \<Rightarrow> if md_owner_references cr \<noteq> Some rs
                 then Call (POwners cr_name rs) (\<lambda>a. Return (map_err PKApi (p_done a)))
                 else Return (Inr ()))"

definition publish_labels :: "string \<Rightarrow> string \<Rightarrow> string option \<Rightarrow> params" where
  "publish_labels sid wid ow = [(SOURCE_ID_LABEL, sid), (WORKER_ID_LABEL, wid)]
     @ (case ow of Some o' \<Rightarrow> [(OWNER_NAMESPACE_LABEL, o')] | None \<Rightarrow> [])"

definition kp_publish_metadata ::
  "PKubeEnv \<Rightarrow> SourceIdentity \<Rightarrow> string \<Rightarrow> WorkerMetadata \<Rightarrow> string \<Rightarrow> string \<Rightarrow> string \<Rightarrow> string option
   \<Rightarrow> (p2pk_error + unit) pprog" where
  "kp_publish_metadata env identity worker_id worker pod_name pod_uid pod_namespace owner_namespace =
     plift (ok_or PKDigest (pe_source_id env identity)) (\<lambda>source_id.
     let cr_name = p2p_cr_name source_id worker_id;
         r = worker_record_from worker;
         owners = pod_owner_references pod_name pod_uid pod_namespace (pe_namespace env);
         labels = publish_labels source_id worker_id owner_namespace
     in p_now (\<lambda>t. let now = pe_fmt env t in
        ptry (ensure_cr cr_name labels owners \<lparr>mp_model_name = si_model_name identity,
                mp_source_type = source_type_name_from_proto (si_mx_source_type identity)\<rparr>) (\<lambda>_.
        ptry (api_get cr_name) (\<lambda>cr.
        ptry (check_owner cr_name owner_namespace cr) (\<lambda>_.
        ptry (refresh_pod_owner cr_name owners cr) (\<lambda>_.
        ptry (upsert_tensor_configmap env source_id worker_id (wr_worker_rank r) (wr_tensors r) (md_name cr) (md_uid cr)) (\<lambda>cm.
        plift (worker_status_for env now cm r) (\<lambda>ws.
        write_published env MAX_RETRIES cr_name now (wr_status r) ws))))))))"

definition worker_of_status :: "PKubeEnv \<Rightarrow> WorkerStatus \<Rightarrow> BackendMetadataRecord \<Rightarrow> TensorRecord list \<Rightarrow> p2pk_error + WorkerRecord" where
  "worker_of_status env ws bm tensors =
     sum_bind (transpose artifact_from_status (ws_artifact_source ws)) (\<lambda>artifact.
     Inr \<lparr>wr_worker_rank = word_of_int (ws_worker_rank ws), wr_backend_metadata = bm, wr_tensors = tensors,
          wr_status = status_proto_from_name (ws_status ws),
          wr_updated_at = or_default 0 (Option.bind (ws_updated_at ws) (pe_millis env)),
          wr_metadata_endpoint = ws_metadata_endpoint ws, wr_agent_name = ws_agent_name ws,
          wr_worker_grpc_endpoint = ws_worker_grpc_endpoint ws, wr_accelerator = ws_accelerator ws,
          wr_source_load = ws_source_load ws, wr_topology = ws_topology ws, wr_artifact_source = artifact\<rparr>)"

definition read_worker :: "PKubeEnv \<Rightarrow> WorkerStatus \<Rightarrow> (p2pk_error + WorkerRecord) pprog" where
  "read_worker env ws =
     plift (if ws_nixl_metadata ws \<noteq> [] then ok_or PKBase64 (pe_unb64 env (ws_nixl_metadata ws)) else Inr []) (\<lambda>nixl.
     let bm = from_flat nixl (ws_transfer_engine_session_id ws) (ws_backend_type ws) in
     case ws_tensor_config_map ws of
       None \<Rightarrow> Return (worker_of_status env ws bm [])
     | Some cm \<Rightarrow> pbind (read_tensor_configmap env cm) (\<lambda>x.
         Return (worker_of_status env ws bm (case x of Inr ts \<Rightarrow> ts | Inl _ \<Rightarrow> []))))"

definition metadata_record :: "PKubeEnv \<Rightarrow> string \<Rightarrow> string \<Rightarrow> ModelMetadata \<Rightarrow> ModelMetadataStatus \<Rightarrow> WorkerRecord list \<Rightarrow> ModelMetadataRecord" where
  "metadata_record env source_id worker_id cr status workers =
     \<lparr>mm_source_id = source_id, mm_worker_id = worker_id, mm_model_name = mp_model_name (md_spec cr), mm_workers = workers,
      mm_published_at = or_default 0 (Option.bind (ms_published_at status) (pe_seconds env)),
      mm_owner_namespace = owner_namespace_of cr, mm_identity = None\<rparr>"

definition kp_get_metadata :: "PKubeEnv \<Rightarrow> string \<Rightarrow> string \<Rightarrow> (p2pk_error + ModelMetadataRecord option) pprog" where
  "kp_get_metadata env source_id worker_id =
     ptry (api_get_opt (p2p_cr_name source_id worker_id)) (\<lambda>x. case x of
       None \<Rightarrow> Return (Inr None)
     | Some cr \<Rightarrow> (case md_status cr of
         None \<Rightarrow> Return (Inr None)
       | Some status \<Rightarrow> (case ms_worker status of
             None \<Rightarrow> Return (Inr (Some (metadata_record env source_id worker_id cr status [])))
           | Some ws \<Rightarrow> ptry (read_worker env ws) (\<lambda>r.
               Return (Inr (Some (metadata_record env source_id worker_id cr status [r])))))))"

definition cr_worker :: "ModelMetadata \<Rightarrow> WorkerStatus option" where
  "cr_worker cr = Option.bind (md_status cr) ms_worker"

definition kp_listed :: "int option \<Rightarrow> ModelMetadata \<Rightarrow> bool" where
  "kp_listed status_filter cr = (case status_filter of
      None \<Rightarrow> True
    | Some st \<Rightarrow> (case cr_worker cr of Some ws \<Rightarrow> ws_status ws = status_name_from_proto st | None \<Rightarrow> False))"

definition kp_info :: "PKubeEnv \<Rightarrow> ModelMetadata \<Rightarrow> SourceInstanceInfo" where
  "kp_info env cr =
     \<lparr>ii_source_id = or_default [] (hm_get (md_labels cr) SOURCE_ID_LABEL),
      ii_worker_id = or_default [] (hm_get (md_labels cr) WORKER_ID_LABEL),
      ii_model_name = mp_model_name (md_spec cr),
      ii_worker_rank = (case cr_worker cr of Some ws \<Rightarrow> word_of_int (ws_worker_rank ws) | None \<Rightarrow> 0),
      ii_status = (case cr_worker cr of Some ws \<Rightarrow> status_proto_from_name (ws_status ws) | None \<Rightarrow> 0),
      ii_updated_at = (case cr_worker cr of
         Some ws \<Rightarrow> or_default 0 (Option.bind (ws_updated_at ws) (pe_millis env)) | None \<Rightarrow> 0),
      ii_accelerator = (case cr_worker cr of Some ws \<Rightarrow> ws_accelerator ws | None \<Rightarrow> []),
      ii_source_load = Option.bind (cr_worker cr) ws_source_load,
      ii_topology = (case cr_worker cr of Some ws \<Rightarrow> ws_topology ws | None \<Rightarrow> []),
      ii_training_step = None, ii_layout_signature = None, ii_owner_namespace = owner_namespace_of cr\<rparr>"

definition kp_list_workers :: "PKubeEnv \<Rightarrow> string option \<Rightarrow> int option \<Rightarrow> (p2pk_error + SourceInstanceInfo list) pprog" where
  "kp_list_workers env source_id status_filter =
     Call (PList source_id) (\<lambda>a. Return (map_err PKApi (sum_bind (p_entries a) (\<lambda>crs.
       Inr (map (kp_info env) (filter (kp_listed status_filter) crs))))))"

fun delete_crs :: "ModelMetadata list \<Rightarrow> (p2pk_error + unit) pprog" where
  "delete_crs [] = Return (Inr ())"
| "delete_crs (cr # crs) = (case md_name cr of
      None \<Rightarrow> delete_crs crs
    | Some n \<Rightarrow> Call (PDelete n) (\<lambda>a. case p_done a of
          Inr _ \<Rightarrow> delete_crs crs
        | Inl e \<Rightarrow> if e = PApiErr 404 then delete_crs crs else Return (Inl (PKApi e))))"

fun delete_cms :: "ConfigMap list \<Rightarrow> (p2pk_error + unit) pprog" where
  "delete_cms [] = Return (Inr ())"
| "delete_cms (cm # cms) = Call (CmDelete (cm_name cm)) (\<lambda>_. delete_cms cms)"

definition kp_remove_metadata :: "string \<Rightarrow> (p2pk_error + unit) pprog" where
  "kp_remove_metadata source_id = Call (PList (Some source_id)) (\<lambda>a.
     plift (map_err PKApi (p_entries a)) (\<lambda>crs.
     ptry (delete_crs crs) (\<lambda>_.
     Call (CmList source_id) (\<lambda>b. plift (map_err PKApi (p_configs b)) delete_cms))))"

definition kp_remove_worker :: "string \<Rightarrow> string \<Rightarrow> (p2pk_error + unit) pprog" where
  "kp_remove_worker source_id worker_id = Call (PDelete (p2p_cr_name source_id worker_id)) (\<lambda>a. Return (
     case p_done a of Inr _ \<Rightarrow> Inr () | Inl e \<Rightarrow> if e = PApiErr 404 then Inr () else Inl (PKApi e)))"

definition source_models :: "ModelMetadata list \<Rightarrow> (string, string) btree_map" where
  "source_models crs = fold (\<lambda>cr seen. case hm_get (md_labels cr) SOURCE_ID_LABEL of
      Some sid \<Rightarrow> bt_or_insert sid (mp_model_name (md_spec cr)) seen | None \<Rightarrow> seen) crs []"

definition kp_list_sources :: "(p2pk_error + (string \<times> string) list) pprog" where
  "kp_list_sources = Call (PList None) (\<lambda>a. Return (map_err PKApi (sum_bind (p_entries a) (\<lambda>crs. Inr (source_models crs)))))"

fun write_status :: "PKubeEnv \<Rightarrow> nat \<Rightarrow> string \<Rightarrow> int \<Rightarrow> string \<Rightarrow> f32 option \<Rightarrow> (p2pk_error + unit) pprog" where
  "write_status env 0 cr_name st updated source_load = Return (Inl PKRetries)"
| "write_status env (Suc n) cr_name st updated source_load =
     ptry (api_get cr_name) (\<lambda>current.
     plift (ok_or PKNoStatus (md_status current)) (\<lambda>crd_status.
     plift (ok_or PKNoWorker (ms_worker crd_status)) (\<lambda>worker.
     p_now (\<lambda>t.
     let sw = \<lparr>sw_resource_version = (case md_resource_version current of Some v \<Rightarrow> v | None \<Rightarrow> []),
               sw_worker = worker\<lparr>ws_status := status_name_from_proto st, ws_updated_at := Some updated,
                                   ws_source_load := source_load\<rparr>,
               sw_published_at = None,
               sw_conditions = ms_conditions (update_ready_condition (pe_fmt env t) st crd_status),
               sw_observed_generation = (case md_generation current of Some g \<Rightarrow> g | None \<Rightarrow> 0)\<rparr>
     in Call (PStatus cr_name sw) (\<lambda>a. case p_done a of
          Inr _ \<Rightarrow> Return (Inr ())
        | Inl e \<Rightarrow> if e = PApiErr 409 then write_status env n cr_name st updated source_load
                   else Return (Inl (PKApi e)))))))"

definition kp_update_status :: "PKubeEnv \<Rightarrow> string \<Rightarrow> string \<Rightarrow> int \<Rightarrow> int \<Rightarrow> f32 option \<Rightarrow> (p2pk_error + unit) pprog" where
  "kp_update_status env source_id worker_id st updated_at source_load =
     (let cr_name = p2p_cr_name source_id worker_id in
      case pe_fmt_millis env updated_at of
        Some s \<Rightarrow> write_status env MAX_RETRIES cr_name st s source_load
      | None \<Rightarrow> p_now (\<lambda>t. write_status env MAX_RETRIES cr_name st (pe_fmt env t) source_load))"

end
