(* ===== verification/P2p_Kube_Proofs.thy ===== *)
theory P2p_Kube_Proofs
  imports P2p_Kube
begin

text \<open>
  The Kubernetes backend of the peer-to-peer store, proved: its methods end after a fixed number of
  requests, status updates are atomic under interference, what is published is found, and
  the backend meets the contract \<open>metadata_backend\<close> that the reaper relies on.
\<close>

subsection \<open>Bounded retries\<close>

lemma calls_within_p_now: "(\<And>t. calls_within (k t) n) \<Longrightarrow> calls_within (p_now k) (Suc n)"
  unfolding p_now_def by (rule calls_within_Call)

lemma write_published_within: "calls_within (write_published env n cr now st ws) (3 * n)"
proof (induction n)
  case (Suc n)
  have "calls_within (Call (PStatus cr sw) (\<lambda>a. case p_done a of
          Inr _ \<Rightarrow> Return (Inr ())
        | Inl e \<Rightarrow> if e = PApiErr 409 then write_published env n cr now st ws
                   else Return (Inl (PKApi e)))) (Suc (3 * n))" for sw
    by (rule calls_within_Call) (use Suc in \<open>auto split: sum.splits\<close>)
  then have "calls_within (write_published env (Suc n) cr now st ws) (1 + Suc (Suc (3 * n)))"
    unfolding write_published.simps Let_def
    by (intro calls_within_ptry calls_within_p_now) (simp_all add: api_get_def)
  then show ?case by (rule calls_within_mono) simp
qed simp

lemma ensure_cr_within: "calls_within (ensure_cr n l ow sp) 2"
proof -
  have "calls_within (ensure_cr n l ow sp) (1 + 1)"
    unfolding ensure_cr_def by (rule calls_within_ptry) (auto simp: api_get_opt_def split: option.splits sum.splits)
  then show ?thesis by (simp only: one_add_one)
qed

lemma upsert_within: "calls_within (upsert_tensor_configmap env a b r ts on ou) 2"
  by (auto simp: upsert_tensor_configmap_def Let_def split: sum.splits)

lemma publish_within: "calls_within (kp_publish_metadata env i w m pn pu pns ow) 23"
proof -
  have tail: "calls_within (plift (worker_status_for env now cm r) (write_published env MAX_RETRIES cr now st)) 15"
    for now cm r cr st
    using write_published_within [of env 5] by (intro calls_within_plift) (simp add: MAX_RETRIES_def)
  have owner: "calls_within (check_owner n ow cr) 1" for n cr
    by (auto simp: check_owner_def split: option.splits)
  have pod: "calls_within (refresh_pod_owner n refs cr) 1" for n refs cr
    by (auto simp: refresh_pod_owner_def split: option.splits)
  have get: "calls_within (api_get n) 1" for n by (simp add: api_get_def)
  have "calls_within (kp_publish_metadata env i w m pn pu pns ow) (Suc (2 + (1 + (1 + (1 + (2 + 15))))))"
    unfolding kp_publish_metadata_def Let_def
    by (intro calls_within_plift calls_within_p_now calls_within_ptry ensure_cr_within upsert_within owner pod get tail)
  then show ?thesis by simp
qed

text \<open>
  C21. Publishing ends: whatever the server answers and however often other writers get in
  between, a publication makes at most 23 requests and clock readings, and then has its answer.
\<close>

theorem publish_ends: "calls_made reply (kp_publish_metadata env i w m pn pu pns ow) \<le> 23"
  by (rule calls_made_within [OF publish_within])

subsection \<open>Status updates are atomic\<close>

abbreviation prun :: "pworld \<Rightarrow> (p_call, p_reply, unit) event list \<Rightarrow> pworld \<Rightarrow> bool" where
  "prun \<equiv> run pstep (\<lambda>_ w. w)"

definition cr_at :: "pworld \<Rightarrow> string \<Rightarrow> ModelMetadata option" where
  "cr_at w n = hm_get (pw_crs w) n"

definition p_versions_ok :: "pworld \<Rightarrow> bool" where
  "p_versions_ok w = (\<forall>n cr. cr_at w n = Some cr \<longrightarrow> (\<exists>j<pw_revision w. md_resource_version cr = Some (show_nat j)))"

lemma cr_at_put: "cr_at (put_cr n cr w) m =
    (if m = n then Some (cr\<lparr>md_name := Some n, md_resource_version := Some (show_nat (pw_revision w))\<rparr>) else cr_at w m)"
  by (simp add: put_cr_def cr_at_def hm_simps)

lemma put_cr_revision [simp]: "pw_revision (put_cr n cr w) = Suc (pw_revision w)"
  by (simp add: put_cr_def)

text \<open>A call changes an object at most to absent or to one with a version never used before.\<close>

definition p_renewed :: "nat \<Rightarrow> ModelMetadata option \<Rightarrow> ModelMetadata option \<Rightarrow> bool" where
  "p_renewed k x y = (y = x \<or> y = None \<or> (\<exists>cr j. y = Some cr \<and> k \<le> j \<and> md_resource_version cr = Some (show_nat j)))"

lemma pserve_renews:
  "pw_revision w \<le> pw_revision (snd (pserve q w)) \<and> p_renewed (pw_revision w) (cr_at w n) (cr_at (snd (pserve q w)) n)"
proof -
  have put: "p_renewed (pw_revision w) (cr_at w n) (cr_at (put_cr m cr w) n)" for m cr
    by (auto simp: p_renewed_def cr_at_put)
  have del: "p_renewed (pw_revision w) (cr_at w n) (cr_at (w\<lparr>pw_crs := hm_remove m (pw_crs w), pw_revision := k\<rparr>) n)" for m k
    by (auto simp: p_renewed_def cr_at_def hm_simps)
  have cm: "cr_at (w\<lparr>pw_cms := x\<rparr>) n = cr_at w n" for x by (simp add: cr_at_def)
  have same: "p_renewed (pw_revision w) (cr_at w n) (cr_at w n)" by (simp add: p_renewed_def)
  show ?thesis by (cases q) (auto simp: put del cm same split: option.splits)
qed

lemma pserve_versions:
  assumes "p_versions_ok w"
  shows "p_versions_ok (snd (pserve q w))"
proof -
  have put: "p_versions_ok (put_cr n cr w)" for n cr
    using assms by (auto simp: p_versions_ok_def cr_at_put less_Suc_eq)
  have del: "p_versions_ok (w\<lparr>pw_crs := hm_remove n (pw_crs w), pw_revision := Suc (pw_revision w)\<rparr>)" for n
    using assms unfolding p_versions_ok_def cr_at_def by (auto simp: hm_simps) (metis less_Suc_eq)
  have cm: "p_versions_ok (w\<lparr>pw_cms := x\<rparr>)" for x
    using assms by (simp add: p_versions_ok_def cr_at_def)
  show ?thesis by (cases q) (use assms put del cm in \<open>auto split: option.splits\<close>)
qed

lemma pstep_effect: "pstep r q w a w' \<Longrightarrow> w' = w \<or> w' = snd (pserve q w)"
  by (auto elim!: pstep.cases)

lemma prun_renews:
  assumes "prun w es w'"
  shows "pw_revision w \<le> pw_revision w' \<and> p_renewed (pw_revision w) (cr_at w n) (cr_at w' n)"
  using assms
proof induction
  case (run_Act p q w a w' es w'')
  have "pw_revision w \<le> pw_revision w' \<and> p_renewed (pw_revision w) (cr_at w n) (cr_at w' n)"
    using pstep_effect [OF run_Act.hyps(1)] pserve_renews [of w q n] by (auto simp: p_renewed_def)
  then show ?case using run_Act.IH unfolding p_renewed_def by (metis order_trans option.distinct(1) option.inject)
qed (simp_all add: p_renewed_def)

lemma prun_versions: "prun w es w' \<Longrightarrow> p_versions_ok w \<Longrightarrow> p_versions_ok w'"
  by (induction rule: run.induct) (auto dest!: pstep_effect simp: pserve_versions)

lemma same_version_same_cr:
  assumes "prun w es w'" and "p_versions_ok w" and "cr_at w n = Some cr" and "cr_at w' n = Some cr'"
    and "md_resource_version cr' = md_resource_version cr"
  shows "cr' = cr"
proof (rule ccontr)
  assume "cr' \<noteq> cr"
  then obtain j where "pw_revision w \<le> j" "md_resource_version cr' = Some (show_nat j)"
    using prun_renews [OF assms(1), of n] assms(3,4) by (auto simp: p_renewed_def)
  moreover obtain i where "i < pw_revision w" "md_resource_version cr = Some (show_nat i)"
    using assms(2,3) by (auto simp: p_versions_ok_def)
  ultimately show False using assms(5) show_nat_inj [of i j] by auto
qed

definition kp_update_write :: "int \<Rightarrow> string \<Rightarrow> f32 option \<Rightarrow> ModelMetadata \<Rightarrow> StatusWrite \<Rightarrow> bool" where
  "kp_update_write st updated load cr sw = (\<exists>ws. cr_worker cr = Some ws
     \<and> sw_resource_version sw = or_default [] (md_resource_version cr)
     \<and> sw_worker sw = ws\<lparr>ws_status := status_name_from_proto st, ws_updated_at := Some updated, ws_source_load := load\<rparr>
     \<and> sw_published_at sw = None)"

definition updated_post :: "string \<Rightarrow> int \<Rightarrow> string \<Rightarrow> f32 option \<Rightarrow> (p_call, p_reply) trace \<Rightarrow> 'e + unit \<Rightarrow> bool" where
  "updated_post n st updated load h x = (\<forall>u. x = Inr u \<longrightarrow> (\<exists>sw t cr h'.
     h = (PStatus n sw, PDone) # (PUtcNow, t) # (PGet n, PEntry cr) # h' \<and> kp_update_write st updated load cr sw))"

lemma p_done_Inr: "p_done a = Inr u \<longleftrightarrow> a = PDone"
  by (cases a) auto

lemma p_entry_Inr: "p_entry a = Inr cr \<longleftrightarrow> a = PEntry cr"
  by (cases a) auto

lemma update_writeI:
  "cr_worker cr = Some ws \<Longrightarrow> kp_update_write st updated load cr
     \<lparr>sw_resource_version = (case md_resource_version cr of Some v \<Rightarrow> v | None \<Rightarrow> []),
      sw_worker = ws\<lparr>ws_status := status_name_from_proto st, ws_updated_at := Some updated, ws_source_load := load\<rparr>,
      sw_published_at = None, sw_conditions = c, sw_observed_generation = g\<rparr>"
  by (simp add: kp_update_write_def or_default_def)

lemma updated_post_Inl [simp]: "updated_post n st updated load h (Inl e)"
  by (simp add: updated_post_def)

lemma updated_post_done:
  "kp_update_write st updated load cr sw \<Longrightarrow>
   updated_post n st updated load ((PStatus n sw, PDone) # (PUtcNow, t) # (PGet n, PEntry cr) # h) (Inr u)"
  by (simp add: updated_post_def)

lemma pwp_write_status:
  "pwp (\<lambda>_ _. True) (\<lambda>_ _. True) (updated_post n st updated load) (write_status env k n st updated load) h"
proof (induction k arbitrary: h)
  case (Suc k)
  have worker: "cr_worker cr = Some ws" if "md_status cr = Some s" "ms_worker s = Some ws" for cr s ws
    using that by (simp add: cr_worker_def)
  show ?case
    unfolding write_status.simps api_get_def p_now_def Let_def
    by (auto simp: p_done_Inr p_entry_Inr map_err_Inr_iff ok_or_Inr_iff Suc
        intro!: updated_post_done update_writeI worker split: sum.splits)
qed simp

lemma pstep_get:
  assumes "pstep r (PGet n) w (PEntry cr) w'"
  shows "w' = w" and "cr_at w n = Some cr"
  using assms by (auto elim!: pstep.cases simp: cr_at_def split: option.splits)

lemma pstep_status_done:
  assumes "pstep r (PStatus n sw) w PDone w'"
  obtains cr where "cr_at w n = Some cr"
    "sw_resource_version sw = [] \<or> md_resource_version cr = Some (sw_resource_version sw)"
    "w' = put_cr n (cr\<lparr>md_status := Some (merge_metadata_status sw (md_status cr))\<rparr>) w"
  using assms by (auto elim!: pstep.cases simp: cr_at_def split: option.splits if_splits)

text \<open>Same keys, same values: what a caller of the map can see.\<close>

definition same_params :: "params \<Rightarrow> params \<Rightarrow> bool" where
  "same_params a b = (\<forall>k. hm_get a k = hm_get b k)"

text \<open>The points of the run a successful update rests on: its last read and its write.\<close>

lemma update_points:
  assumes run: "prun w0 es w" and ok: "p_versions_ok w0"
    and res: "follows (write_status env k n st updated load) (session s es) = Some (Inr ())"
  obtains before sw after wp wq cr where "es = before @ Act s (PStatus n sw) PDone # after"
    "prun w0 before wp" "pstep (fst s) (PStatus n sw) wp PDone wq" "prun wq after w"
    "cr_at wp n = Some cr" "kp_update_write st updated load cr sw"
    "wq = put_cr n (cr\<lparr>md_status := Some (merge_metadata_status sw (md_status cr))\<rparr>) wp"
proof -
  have "updated_post n st updated load (rev (session s es)) (Inr () :: p2pk_error + unit)"
    using pwp_follows [OF pwp_write_status [where h = "[]"] res] by simp
  then obtain sw t cr h' where h: "rev (session s es) = (PStatus n sw, PDone) # (PUtcNow, t) # (PGet n, PEntry cr) # h'"
      and u: "kp_update_write st updated load cr sw"
    unfolding updated_post_def by blast
  have tr: "session s es = rev h' @ (PGet n, PEntry cr) # (PUtcNow, t) # (PStatus n sw, PDone) # []"
    using arg_cong [OF h, of rev] by simp
  obtain A B where A: "es = A @ Act s (PGet n) (PEntry cr) # B" "session s B = [(PUtcNow, t)] @ (PStatus n sw, PDone) # []"
    using session_split [OF tr] by (metis append_Cons append_Nil)
  obtain C D where C: "B = C @ Act s (PStatus n sw) PDone # D" using session_split [OF A(2)] by metis
  obtain wr wr' wp wq where w: "prun w0 A wr" "pstep (fst s) (PGet n) wr (PEntry cr) wr'" "prun wr' C wp"
      "pstep (fst s) (PStatus n sw) wp PDone wq" "prun wq D w"
    using run unfolding A(1) C run_append run_Act_iff by auto
  have r: "wr' = wr" "cr_at wr n = Some cr" using pstep_get [OF w(2)] by auto
  have okr: "p_versions_ok wr" using prun_versions [OF w(1) ok] .
  then obtain j where j: "md_resource_version cr = Some (show_nat j)" using r(2) by (auto simp: p_versions_ok_def)
  obtain cr' where c: "cr_at wp n = Some cr'"
      "sw_resource_version sw = [] \<or> md_resource_version cr' = Some (sw_resource_version sw)"
      "wq = put_cr n (cr'\<lparr>md_status := Some (merge_metadata_status sw (md_status cr'))\<rparr>) wp"
    using w(4) by (rule pstep_status_done)
  have "sw_resource_version sw = show_nat j" using u j by (auto simp: kp_update_write_def or_default_def)
  then have "cr' = cr"
    using same_version_same_cr [OF w(3) _ _ c(1)] okr r c(2) j by auto
  then show ?thesis
    using that [of "A @ Act s (PGet n) (PEntry cr) # C" sw D wp wq cr] w A(1) C c u r
    by (auto simp: run_append run_Act_iff)
qed

lemma hm_get_merge_params:
  "hm_get (merge_params new old) k = (case hm_get new k of Some v \<Rightarrow> Some v | None \<Rightarrow> hm_get old k)"
proof (induction new old rule: merge_params.induct)
  case (2 j v new old)
  have "hm_get ((j, v) # new) k = (if k = j then Some v else hm_get new k)" by (simp add: hm_get_def)
  then show ?case using 2 by (simp add: hm_simps)
qed simp

text \<open>
  C16. A status update changes only what it says, on the object as it stands: when an update is
  answered Ok, whatever other replicas wrote before, between and after, at the moment of its
  write the worker keeps every other field it had at that very moment, its topology as a map
  included, and has the new status, time and load. No concurrent publication is lost.
\<close>

theorem status_update_is_atomic:
  assumes "prun w0 es w" and "p_versions_ok w0" and "pe_fmt_millis env t = Some updated"
    and "follows (kp_update_status env sid wid st t load) (session s es) = Some (Inr ())"
  shows "\<exists>before q after wp wq cr cr' ws ws'. es = before @ Act s q PDone # after \<and> prun w0 before wp
    \<and> pstep (fst s) q wp PDone wq \<and> prun wq after w
    \<and> cr_at wp (p2p_cr_name sid wid) = Some cr \<and> cr_worker cr = Some ws
    \<and> cr_at wq (p2p_cr_name sid wid) = Some cr' \<and> cr_worker cr' = Some ws'
    \<and> ws' = ws\<lparr>ws_status := status_name_from_proto st, ws_updated_at := Some updated, ws_source_load := load,
                ws_topology := ws_topology ws'\<rparr>
    \<and> same_params (ws_topology ws') (ws_topology ws)"
proof -
  have "follows (write_status env MAX_RETRIES (p2p_cr_name sid wid) st updated load) (session s es) = Some (Inr ())"
    using assms(3,4) by (simp add: kp_update_status_def Let_def)
  then obtain before sw after wp wq cr where p: "es = before @ Act s (PStatus (p2p_cr_name sid wid) sw) PDone # after"
    "prun w0 before wp" "pstep (fst s) (PStatus (p2p_cr_name sid wid) sw) wp PDone wq" "prun wq after w"
    "cr_at wp (p2p_cr_name sid wid) = Some cr" "kp_update_write st updated load cr sw"
    "wq = put_cr (p2p_cr_name sid wid) (cr\<lparr>md_status := Some (merge_metadata_status sw (md_status cr))\<rparr>) wp"
    by (rule update_points [OF assms(1,2)])
  obtain ws where ws: "cr_worker cr = Some ws"
      "sw_worker sw = ws\<lparr>ws_status := status_name_from_proto st, ws_updated_at := Some updated, ws_source_load := load\<rparr>"
    using p(6) by (auto simp: kp_update_write_def)
  let ?cr = "cr\<lparr>md_status := Some (merge_metadata_status sw (md_status cr)), md_name := Some (p2p_cr_name sid wid),
    md_resource_version := Some (show_nat (pw_revision wp))\<rparr>"
  let ?ws = "merge_worker (Some ws) (sw_worker sw)"
  have "cr_at wq (p2p_cr_name sid wid) = Some ?cr" by (simp add: p(7) cr_at_put)
  moreover have "cr_worker ?cr = Some ?ws" using ws(1) by (simp add: cr_worker_def merge_metadata_status_def)
  moreover have "same_params (ws_topology ?ws) (ws_topology ws)"
    by (auto simp: same_params_def merge_worker_def ws(2) hm_get_merge_params split: option.splits)
  moreover have "?ws = ws\<lparr>ws_status := status_name_from_proto st, ws_updated_at := Some updated, ws_source_load := load,
      ws_topology := ws_topology ?ws\<rparr>" by (simp add: merge_worker_def ws(2))
  ultimately show ?thesis using p(1-5) ws(1) by blast
qed

subsection \<open>What is published is found\<close>

definition panswer :: "int \<Rightarrow> p_call \<Rightarrow> pworld \<Rightarrow> p_reply \<times> pworld" where
  "panswer t q w = (if q = PUtcNow then (PTime t, w) else pserve q w)"

abbreviation pexec :: "int \<Rightarrow> 'a pprog \<Rightarrow> pworld \<Rightarrow> 'a \<times> pworld" where
  "pexec t \<equiv> exec (panswer t)"

lemma pexec_now [simp]: "pexec t (p_now k) w = pexec t (k t) w"
  by (simp add: p_now_def panswer_def)

lemma pexec_get: "cr_at w n = Some cr \<Longrightarrow> pexec t (api_get n) w = (Inr cr, w)"
  by (simp add: api_get_def panswer_def cr_at_def)

lemma pexec_get_opt: "pexec t (api_get_opt n) w = (Inr (cr_at w n), w)"
  by (auto simp: api_get_opt_def panswer_def cr_at_def split: option.splits)

text \<open>What the code relies on: the encodings of this worker's data can be read back.\<close>

definition codecs_ok :: "PKubeEnv \<Rightarrow> WorkerRecord \<Rightarrow> bool" where
  "codecs_ok env r = ((\<forall>d. wr_backend_metadata r = Nixl d \<longrightarrow>
        pe_unb64 env (pe_b64 env d) = Some d \<and> (pe_b64 env d = [] \<longrightarrow> d = []))
     \<and> pe_parse env (pe_print env (map tensor_to_json (wr_tensors r))) = Some (map tensor_to_json (wr_tensors r)))"

lemma tensor_json_roundtrip: "kube_tensor_from_json (tensor_to_json t) = Inr t"
proof -
  have le: "unat x \<le> u64_max" for x :: u64
    using unsigned_less [of x, where ?'a = nat] by (simp add: u64_max_def)
  show ?thesis by (simp add: kube_tensor_from_json_def tensor_to_json_def parse_u64_show le)
qed

lemma tensors_json_roundtrip: "collect_results kube_tensor_from_json (map tensor_to_json ts) = Inr ts"
  by (induction ts) (auto simp: tensor_json_roundtrip)

lemma artifact_status_roundtrip:
  "artifact_to_status a = Inr s \<Longrightarrow> artifact_from_status s = Inr a"
  by (auto simp: artifact_to_status_def artifact_from_status_def split: if_splits)

lemma transpose_roundtrip:
  "transpose artifact_to_status x = Inr y \<Longrightarrow> transpose artifact_from_status y = Inr x"
  by (auto simp: transpose_def sum_bind_Inr_iff artifact_status_roundtrip split: option.splits)

lemma status_name_roundtrip: "0 \<le> st \<Longrightarrow> st \<le> 3 \<Longrightarrow> status_proto_from_name (status_name_from_proto st) = st"
  by (auto simp: status_proto_from_name_def status_name_from_proto_def)

lemma tensor_config_map_sel [simp]:
  "cm_name (tensor_config_map env a b r ts on ou) = tensor_cm_name a b r"
  "hm_get (cm_data (tensor_config_map env a b r ts on ou)) ''tensors.json'' = Some (pe_print env (map tensor_to_json ts))"
  by (simp_all add: tensor_config_map_def hm_get_def)

lemma pexec_upsert:
  obtains w' cm where "pexec t (upsert_tensor_configmap env a b r ts on ou) w = (Inr (tensor_cm_name a b r), w')"
    "pw_crs w' = pw_crs w" "pw_revision w' = pw_revision w"
    "hm_get (pw_cms w') (tensor_cm_name a b r) = Some cm"
    "hm_get (cm_data cm) ''tensors.json'' = Some (pe_print env (map tensor_to_json ts))"
proof (cases "hm_get (pw_cms w) (tensor_cm_name a b r)")
  case None
  then show ?thesis
    using that [where cm = "tensor_config_map env a b r ts on ou"]
    by (simp add: upsert_tensor_configmap_def Let_def panswer_def hm_simps)
next
  case (Some old)
  then show ?thesis
    using that by (simp add: upsert_tensor_configmap_def Let_def panswer_def hm_simps hm_get_merge_params)
qed

text \<open>The worker record written and read again.\<close>

definition stored_worker :: "PKubeEnv \<Rightarrow> int \<Rightarrow> WorkerRecord \<Rightarrow> WorkerRecord" where
  "stored_worker env t r = r\<lparr>wr_updated_at := or_default 0 (pe_millis env (pe_fmt env t))\<rparr>"

lemma worker_status_roundtrip:
  assumes "codecs_ok env r" and "worker_status_for env (pe_fmt env t) cm r = Inr ws"
    and "0 \<le> wr_status r" and "wr_status r \<le> 3"
    and "hm_get (pw_cms w) cm = Some c" and "hm_get (cm_data c) ''tensors.json'' = Some (pe_print env (map tensor_to_json (wr_tensors r)))"
  shows "pexec t' (read_worker env ws) w = (Inr (stored_worker env t r), w)"
proof -
  obtain art where art: "transpose artifact_to_status (wr_artifact_source r) = Inr art"
    using assms(2) by (auto simp: worker_status_for_def sum_bind_Inr_iff)
  have read: "pexec t' (read_tensor_configmap env cm) w = (Inr (wr_tensors r), w)"
    using assms(1,5,6) by (simp add: read_tensor_configmap_def panswer_def codecs_ok_def tensors_json_roundtrip)
  note back' = transpose_roundtrip [OF art] status_name_roundtrip [OF assms(3,4)]
  show ?thesis
  proof (cases "wr_backend_metadata r")
    case (Nixl d)
    then show ?thesis
      using assms(1,2) back' art read
      by (auto simp: read_worker_def worker_status_for_def worker_of_status_def stored_worker_def codecs_ok_def
          exec_pbind from_flat_def or_default_def)
  next
    case (TransferEngine sid)
    then show ?thesis
      using assms(1,2) back' art read
      by (auto simp: read_worker_def worker_status_for_def worker_of_status_def stored_worker_def
          exec_pbind from_flat_def or_default_def)
  next
    case NoBackend
    then show ?thesis
      using assms(1,2) back' art read
      by (auto simp: read_worker_def worker_status_for_def worker_of_status_def stored_worker_def
          exec_pbind from_flat_def or_default_def)
  qed
qed

lemma pexec_write_published:
  assumes "cr_at w n = Some cr"
  obtains conds gen where "pexec t (write_published env (Suc k) n now st ws) w = (Inr (),
    put_cr n (cr\<lparr>md_status := Some (merge_metadata_status \<lparr>sw_resource_version = or_default [] (md_resource_version cr),
      sw_worker = ws, sw_published_at = Some now, sw_conditions = conds, sw_observed_generation = gen\<rparr> (md_status cr))\<rparr>) w)"
proof -
  let ?s = "update_ready_condition (pe_fmt env t) st (case md_status cr of Some s \<Rightarrow> s | None \<Rightarrow> default_metadata_status)"
  show ?thesis
    by (rule that [of "ms_conditions ?s" "case md_generation cr of Some g \<Rightarrow> g | None \<Rightarrow> 0"])
      (use assms in \<open>simp add: exec_ptry pexec_get Let_def panswer_def cr_at_def or_default_def split: option.splits\<close>)
qed

definition fresh_cr :: "string \<Rightarrow> params \<Rightarrow> OwnerReference list option \<Rightarrow> ModelMetadataSpec \<Rightarrow> nat \<Rightarrow> ModelMetadata" where
  "fresh_cr n labels owners spec rev' = \<lparr>md_name = Some n, md_labels = labels, md_owner_references = owners,
     md_uid = Some (show_nat rev'), md_resource_version = Some (show_nat rev'), md_generation = Some 1,
     md_spec = spec, md_status = None\<rparr>"

lemma pexec_ensure_new:
  assumes "cr_at w n = None"
  shows "fst (pexec t (ensure_cr n labels owners spec) w) = Inr ()
    \<and> cr_at (snd (pexec t (ensure_cr n labels owners spec) w)) n = Some (fresh_cr n labels owners spec (pw_revision w))"
  using assms
  by (simp add: ensure_cr_def exec_ptry pexec_get_opt panswer_def put_cr_def fresh_cr_def hm_simps cr_at_def)

lemma publish_labels_sel [simp]:
  "hm_get (publish_labels sid wid ow) SOURCE_ID_LABEL = Some sid"
  "hm_get (publish_labels sid wid ow) WORKER_ID_LABEL = Some wid"
  "hm_get (publish_labels sid wid ow) OWNER_NAMESPACE_LABEL = ow"
  by (cases ow; simp add: publish_labels_def hm_get_def SOURCE_ID_LABEL_def WORKER_ID_LABEL_def OWNER_NAMESPACE_LABEL_def)+

lemma pexec_publish_new:
  assumes "pe_source_id env i = Some sid" and "cr_at w (p2p_cr_name sid wid) = None"
    and "worker_status_for env (pe_fmt env t) (tensor_cm_name sid wid (wm_worker_rank m)) (worker_record_from m) = Inr ws"
  obtains w' cr cm conds gen rv where
    "pexec t (kp_publish_metadata env i wid m pn pu pns ow) w = (Inr (), w')"
    "cr_at w' (p2p_cr_name sid wid) = Some cr" "md_labels cr = publish_labels sid wid ow"
    "mp_model_name (md_spec cr) = si_model_name i"
    "md_status cr = Some (merge_metadata_status \<lparr>sw_resource_version = rv, sw_worker = ws,
       sw_published_at = Some (pe_fmt env t), sw_conditions = conds, sw_observed_generation = gen\<rparr> None)"
    "hm_get (pw_cms w') (tensor_cm_name sid wid (wm_worker_rank m)) = Some cm"
    "hm_get (cm_data cm) ''tensors.json'' = Some (pe_print env (map tensor_to_json (wr_tensors (worker_record_from m))))"
proof -
  let ?n = "p2p_cr_name sid wid"
  let ?owners = "pod_owner_references pn pu pns (pe_namespace env)"
  let ?spec = "\<lparr>mp_model_name = si_model_name i, mp_source_type = source_type_name_from_proto (si_mx_source_type i)\<rparr>"
  let ?cr = "fresh_cr ?n (publish_labels sid wid ow) ?owners ?spec (pw_revision w)"
  have rank: "wr_worker_rank (worker_record_from m) = wm_worker_rank m"
    by (simp add: worker_record_from_def Let_def split: prod.splits)
  obtain w1 where w1: "pexec t (ensure_cr ?n (publish_labels sid wid ow) ?owners ?spec) w = (Inr (), w1)"
      "cr_at w1 ?n = Some ?cr"
    using pexec_ensure_new [OF assms(2), of t "publish_labels sid wid ow" ?owners ?spec] by (metis prod.collapse)
  have own: "pexec t (check_owner ?n ow ?cr) w1 = (Inr (), w1)"
    by (auto simp: check_owner_def owner_namespace_of_def fresh_cr_def split: option.splits)
  have pod: "pexec t (refresh_pod_owner ?n ?owners ?cr) w1 = (Inr (), w1)"
    by (auto simp: refresh_pod_owner_def fresh_cr_def split: option.splits)
  obtain w2 cm where w2: "pexec t (upsert_tensor_configmap env sid wid (wm_worker_rank m)
        (wr_tensors (worker_record_from m)) (md_name ?cr) (md_uid ?cr)) w1 = (Inr (tensor_cm_name sid wid (wm_worker_rank m)), w2)"
      "pw_crs w2 = pw_crs w1" "hm_get (pw_cms w2) (tensor_cm_name sid wid (wm_worker_rank m)) = Some cm"
      "hm_get (cm_data cm) ''tensors.json'' = Some (pe_print env (map tensor_to_json (wr_tensors (worker_record_from m))))"
    by (rule pexec_upsert)
  have at2: "cr_at w2 ?n = Some ?cr" using w1(2) w2(2) by (simp add: cr_at_def)
  obtain conds gen where wr: "pexec t (write_published env MAX_RETRIES ?n (pe_fmt env t) (wr_status (worker_record_from m)) ws) w2
      = (Inr (), put_cr ?n (?cr\<lparr>md_status := Some (merge_metadata_status \<lparr>sw_resource_version = or_default [] (md_resource_version ?cr),
      sw_worker = ws, sw_published_at = Some (pe_fmt env t), sw_conditions = conds, sw_observed_generation = gen\<rparr> (md_status ?cr))\<rparr>) w2)"
    using pexec_write_published [OF at2, of t env 4] unfolding MAX_RETRIES_def by (metis eval_nat_numeral(3) numeral_nat)
  have "pexec t (kp_publish_metadata env i wid m pn pu pns ow) w
      = pexec t (write_published env MAX_RETRIES ?n (pe_fmt env t) (wr_status (worker_record_from m)) ws) w2"
    unfolding kp_publish_metadata_def Let_def rank
    using assms(1,3) w1 own pod w2(1) by (simp add: exec_ptry pexec_get)
  then show ?thesis
    using that wr w2(3,4) by (simp add: cr_at_put put_cr_def fresh_cr_def cr_at_def hm_simps)
qed

text \<open>
  What is published is found: after the publication of a new worker, reading it gives the
  worker as published, with the time of publication, its tensors, its source payload and its
  owner, for every kind of transfer backend and every rank.
\<close>

theorem kube_published_is_found:
  assumes "codecs_ok env (worker_record_from m)" and "pe_source_id env i = Some sid" and "cr_at w (p2p_cr_name sid wid) = None"
    and "0 \<le> wm_status m" and "wm_status m \<le> 3"
    and "\<exists>a. transpose artifact_to_status (wr_artifact_source (worker_record_from m)) = Inr a"
  shows "let (x, w1) = pexec t (kp_publish_metadata env i wid m pn pu pns ow) w;
             (y, w2) = pexec t' (kp_get_metadata env sid wid) w1
         in x = Inr () \<and> w2 = w1 \<and> y = Inr (Some
              \<lparr>mm_source_id = sid, mm_worker_id = wid, mm_model_name = si_model_name i,
               mm_workers = [stored_worker env t (worker_record_from m)],
               mm_published_at = or_default 0 (pe_seconds env (pe_fmt env t)),
               mm_owner_namespace = ow, mm_identity = None\<rparr>)"
proof -
  let ?r = "worker_record_from m" and ?cm = "tensor_cm_name sid wid (wm_worker_rank m)"
  obtain ws where ws: "worker_status_for env (pe_fmt env t) ?cm ?r = Inr ws"
    using assms(6) by (auto simp: worker_status_for_def)
  obtain w' cr cm conds gen rv where p: "pexec t (kp_publish_metadata env i wid m pn pu pns ow) w = (Inr (), w')"
    "cr_at w' (p2p_cr_name sid wid) = Some cr" "md_labels cr = publish_labels sid wid ow"
    "mp_model_name (md_spec cr) = si_model_name i"
    "md_status cr = Some (merge_metadata_status \<lparr>sw_resource_version = rv, sw_worker = ws,
       sw_published_at = Some (pe_fmt env t), sw_conditions = conds, sw_observed_generation = gen\<rparr> None)"
    "hm_get (pw_cms w') ?cm = Some cm"
    "hm_get (cm_data cm) ''tensors.json'' = Some (pe_print env (map tensor_to_json (wr_tensors ?r)))"
    using assms(2,3) ws by (rule pexec_publish_new)
  have st: "wr_status ?r = wm_status m" by (simp add: worker_record_from_def Let_def split: prod.splits)
  have read: "pexec t' (read_worker env ws) w' = (Inr (stored_worker env t ?r), w')"
    using worker_status_roundtrip [OF assms(1) ws _ _ p(6,7)] assms(4,5) st by simp
  have "pexec t' (kp_get_metadata env sid wid) w' = (Inr (Some (metadata_record env sid wid cr
      (merge_metadata_status \<lparr>sw_resource_version = rv, sw_worker = ws,
       sw_published_at = Some (pe_fmt env t), sw_conditions = conds, sw_observed_generation = gen\<rparr> None)
      [stored_worker env t ?r])), w')"
    using p(2,5) read
    by (simp add: kp_get_metadata_def exec_ptry pexec_get_opt merge_metadata_status_def merge_worker_def)
  then show ?thesis
    using p(1,3,4) by (simp add: metadata_record_def merge_metadata_status_def owner_namespace_of_def)
qed

definition demo_pkube :: PKubeEnv where
  "demo_pkube = \<lparr>pe_namespace = ''mx'', pe_source_id = (\<lambda>i. Some ''5a''), pe_fmt = show_int,
     pe_fmt_millis = (\<lambda>t. Some (show_int t)), pe_millis = parse_i64, pe_seconds = parse_i64,
     pe_b64 = map (\<lambda>b. char_of (unat b)), pe_unb64 = (\<lambda>s. Some (map (\<lambda>c. of_nat (of_char c)) s)),
     pe_print = (\<lambda>ts. show_nat (length ts)), pe_parse = (\<lambda>s. if s = ''0'' then Some [] else None)\<rparr>"

definition demo_p2p_identity :: SourceIdentity where
  "demo_p2p_identity = \<lparr>si_mx_version = [], si_mx_source_type = 0, si_model_name = ''m'', si_backend_framework = 0,
     si_tensor_parallel_size = 0, si_pipeline_parallel_size = 0, si_expert_parallel_size = 0, si_dtype = [],
     si_quantization = [], si_extra_parameters = [], si_revision = [], si_backend_framework_version = [],
     si_torch_version = [], si_cuda_version = [], si_triton_version = [], si_gpu_arch = [],
     si_compile_config_digest = []\<rparr>"

definition demo_publication :: "params \<Rightarrow> WorkerMetadata" where
  "demo_publication topology = \<lparr>wm_worker_rank = 3, wm_backend_metadata = Some (NixlMetadata [7, 9]), wm_tensors = [],
     wm_status = 2, wm_updated_at = 0, wm_metadata_endpoint = [], wm_agent_name = ''a'', wm_worker_grpc_endpoint = [],
     wm_accelerator = ''cuda'', wm_topology = topology, wm_source_payload = None\<rparr>"

definition empty_pworld :: pworld where
  "empty_pworld = \<lparr>pw_crs = [], pw_cms = [], pw_revision = 0\<rparr>"

definition demo_worker_status :: "params \<Rightarrow> WorkerStatus" where
  "demo_worker_status topology = \<lparr>ws_worker_rank = 3, ws_backend_type = Some ''none'', ws_nixl_metadata = [],
     ws_transfer_engine_session_id = None, ws_tensor_count = 0, ws_tensor_config_map = None, ws_status = ''Ready'',
     ws_updated_at = None, ws_metadata_endpoint = [], ws_agent_name = [], ws_worker_grpc_endpoint = [],
     ws_accelerator = [], ws_source_load = None, ws_topology = topology, ws_artifact_source = None\<rparr>"

definition demo_racked :: pworld where
  "demo_racked = put_cr ''c'' \<lparr>md_name = None, md_labels = [], md_owner_references = None, md_uid = None,
     md_resource_version = None, md_generation = None, md_spec = \<lparr>mp_model_name = [], mp_source_type = []\<rparr>,
     md_status = Some (default_metadata_status\<lparr>ms_worker := Some (demo_worker_status [(''rack'', ''r1''), (''zone'', ''z1'')])\<rparr>)\<rparr>
     empty_pworld"

definition demo_publish :: "params \<Rightarrow> (p2pk_error + unit) pprog" where
  "demo_publish topology = kp_publish_metadata demo_pkube demo_p2p_identity ''w'' (demo_publication topology) [] [] [] None"

theorem kube_published_is_found_witness:
  "let (x, w1) = pexec 5 (demo_publish []) empty_pworld;
       (y, w2) = pexec 6 (kp_get_metadata demo_pkube ''5a'' ''w'') w1
   in x = Inr () \<and> w2 = w1 \<and> y = Inr (Some
        \<lparr>mm_source_id = ''5a'', mm_worker_id = ''w'', mm_model_name = si_model_name demo_p2p_identity,
         mm_workers = [stored_worker demo_pkube 5 (worker_record_from (demo_publication []))],
         mm_published_at = or_default 0 (pe_seconds demo_pkube (pe_fmt demo_pkube 5)),
         mm_owner_namespace = None, mm_identity = None\<rparr>)"
  unfolding demo_publish_def
proof (rule kube_published_is_found)
  have bytes: "map (\<lambda>c. of_nat (of_char c)) (map (\<lambda>b. char_of (unat b)) [7, 9 :: u8]) = [7, 9 :: u8]" by code_simp
  moreover have "show_nat 0 = ''0''" by code_simp
  ultimately show "codecs_ok demo_pkube (worker_record_from (demo_publication []))"
    by (simp add: codecs_ok_def demo_pkube_def worker_record_from_def demo_publication_def)
qed (simp_all add: demo_pkube_def empty_pworld_def cr_at_def demo_publication_def worker_record_from_def transpose_def)

subsection \<open>A topology that never shrinks\<close>

text \<open>
  A worker that is published again without a topology level it had before keeps that level:
  the status is written as a merge patch, which adds and replaces the keys of the topology map and
  removes none. Readers go on seeing the rack the worker has left.
\<close>

theorem republished_topology_accumulates:
  assumes "cr_at w n = Some cr" and "cr_worker cr = Some old"
  shows "\<exists>cr' new. cr_at (snd (pexec t (write_published env (Suc k) n now st ws) w)) n = Some cr' \<and> cr_worker cr' = Some new
    \<and> (\<forall>level. hm_get (ws_topology new) level = (case hm_get (ws_topology ws) level of
           Some v \<Rightarrow> Some v | None \<Rightarrow> hm_get (ws_topology old) level))"
proof -
  obtain conds gen where "pexec t (write_published env (Suc k) n now st ws) w = (Inr (),
    put_cr n (cr\<lparr>md_status := Some (merge_metadata_status \<lparr>sw_resource_version = or_default [] (md_resource_version cr),
      sw_worker = ws, sw_published_at = Some now, sw_conditions = conds, sw_observed_generation = gen\<rparr> (md_status cr))\<rparr>) w)"
    using assms(1) by (rule pexec_write_published)
  then show ?thesis
    using assms(2) by (simp add: cr_at_put cr_worker_def merge_metadata_status_def merge_worker_def hm_get_merge_params)
qed

theorem republished_topology_accumulates_witness:
  "\<exists>cr' new. cr_at (snd (pexec 6 (write_published demo_pkube (Suc 4) ''c'' ''6'' 2 (demo_worker_status [(''zone'', ''z2'')])) demo_racked))
       ''c'' = Some cr' \<and> cr_worker cr' = Some new \<and> hm_get (ws_topology new) ''rack'' = Some ''r1''
     \<and> hm_get (ws_topology new) ''zone'' = Some ''z2''"
proof -
  obtain cr where cr: "cr_at demo_racked ''c'' = Some cr"
      "cr_worker cr = Some (demo_worker_status [(''rack'', ''r1''), (''zone'', ''z1'')])"
    by (simp add: demo_racked_def cr_at_put cr_worker_def)
  show ?thesis
    using republished_topology_accumulates [OF cr, of 6 demo_pkube 4 "''6''" 2 "demo_worker_status [(''zone'', ''z2'')]"]
    by (auto simp: demo_worker_status_def hm_get_def)
qed

subsection \<open>The contract of the reaper\<close>

text \<open>
  A store as this backend builds it: each object has the name of its labels, source ids have no
  dash (they are hex), and stored maps have each key once.
\<close>

definition cr_keys :: "ModelMetadata \<Rightarrow> string \<Rightarrow> string \<Rightarrow> bool" where
  "cr_keys cr a b = (hm_get (md_labels cr) SOURCE_ID_LABEL = Some a \<and> hm_get (md_labels cr) WORKER_ID_LABEL = Some b)"

definition kp_ok :: "pworld \<Rightarrow> bool" where
  "kp_ok w = (hm_ok (pw_crs w) \<and> (\<forall>n cr. cr_at w n = Some cr \<longrightarrow>
     (\<exists>a b. n = p2p_cr_name a b \<and> cr_keys cr a b \<and> CHR ''-'' \<notin> set a)
     \<and> (\<forall>ws. cr_worker cr = Some ws \<longrightarrow> hm_ok (ws_topology ws))))"

definition kp_look :: "PKubeEnv \<Rightarrow> pworld \<Rightarrow> string \<Rightarrow> string \<Rightarrow> SourceInstanceInfo option" where
  "kp_look env w a b = (case cr_at w (p2p_cr_name a b) of
      None \<Rightarrow> None | Some cr \<Rightarrow> if cr_keys cr a b then Some (kp_info env cr) else None)"

definition kp_listing :: "PKubeEnv \<Rightarrow> pworld \<Rightarrow> SourceInstanceInfo list" where
  "kp_listing env w = (case fst (pexec 0 (kp_list_workers env None None) w) of Inr ws \<Rightarrow> ws | Inl _ \<Rightarrow> [])"

definition kp_update :: "PKubeEnv \<Rightarrow> string \<Rightarrow> string \<Rightarrow> u32 \<Rightarrow> int \<Rightarrow> int \<Rightarrow> f32 option \<Rightarrow> pworld \<Rightarrow> string + pworld" where
  "kp_update env a b rank st t load w = (case pexec t (kp_update_status env a b st t load) w of
      (Inr _, w') \<Rightarrow> Inr w' | (Inl _, _) \<Rightarrow> Inl ''update_status'')"

definition kp_remove :: "string \<Rightarrow> string \<Rightarrow> pworld \<Rightarrow> pworld" where
  "kp_remove a b w = snd (pexec 0 (kp_remove_worker a b) w)"

definition kp_admits :: "PKubeEnv \<Rightarrow> int \<Rightarrow> SourceInstanceInfo \<Rightarrow> bool" where
  "kp_admits env t w = (ii_status w \<noteq> 0 \<and> Option.bind (pe_fmt_millis env t) (pe_millis env) = Some t)"

lemma cr_name_keys:
  assumes "p2p_cr_name a b = p2p_cr_name c d" and "CHR ''-'' \<notin> set a" and "CHR ''-'' \<notin> set c"
  shows "a = c \<and> b = d"
proof -
  have "split_once (CHR ''-'') (a @ CHR ''-'' # b) = split_once (CHR ''-'') (c @ CHR ''-'' # d)"
    using assms(1) by (simp add: p2p_cr_name_def)
  then show ?thesis using assms(2,3) by (simp add: split_once_append)
qed

lemma kp_listing_map: "kp_listing env w = map (kp_info env) (hm_values (pw_crs w))"
  by (simp add: kp_listing_def kp_list_workers_def panswer_def kp_listed_def)

lemma kp_info_keys: "cr_keys cr a b \<Longrightarrow> ii_source_id (kp_info env cr) = a \<and> ii_worker_id (kp_info env cr) = b"
  by (simp add: cr_keys_def kp_info_def or_default_def)

lemma kp_member: "kp_ok w \<Longrightarrow> (n, cr) \<in> set (pw_crs w) \<longleftrightarrow> cr_at w n = Some cr"
  by (auto simp: kp_ok_def cr_at_def hm_mem_iff)

lemma kp_stored:
  assumes "kp_ok w" and "cr_at w n = Some cr"
  obtains a b where "n = p2p_cr_name a b" "cr_keys cr a b" "CHR ''-'' \<notin> set a"
  using assms unfolding kp_ok_def by metis

lemma kp_listing_look:
  assumes "kp_ok w"
  shows "x \<in> set (kp_listing env w) \<longleftrightarrow> kp_look env w (ii_source_id x) (ii_worker_id x) = Some x"
proof
  assume "x \<in> set (kp_listing env w)"
  then obtain n cr where x: "(n, cr) \<in> set (pw_crs w)" "x = kp_info env cr"
    by (auto simp: kp_listing_map hm_values_def)
  then have cr: "cr_at w n = Some cr" using kp_member [OF assms] by simp
  obtain a b where "n = p2p_cr_name a b" "cr_keys cr a b" using kp_stored [OF assms cr] by metis
  then show "kp_look env w (ii_source_id x) (ii_worker_id x) = Some x"
    using cr kp_info_keys [of cr a b env] by (simp add: kp_look_def x(2))
next
  assume "kp_look env w (ii_source_id x) (ii_worker_id x) = Some x"
  then obtain n cr where "cr_at w n = Some cr" "x = kp_info env cr"
    by (auto simp: kp_look_def split: option.splits if_splits)
  then show "x \<in> set (kp_listing env w)"
    using kp_member [OF assms, of n cr] by (force simp: kp_listing_map hm_values_def)
qed

lemma kp_listing_keys:
  assumes "kp_ok w"
  shows "distinct (map (\<lambda>x. (ii_source_id x, ii_worker_id x)) (kp_listing env w))"
proof -
  have key: "p2p_cr_name (ii_source_id (kp_info env cr)) (ii_worker_id (kp_info env cr)) = n" if "(n, cr) \<in> set (pw_crs w)" for n cr
  proof -
    have cr: "cr_at w n = Some cr" using that kp_member [OF assms] by simp
    obtain a b where "n = p2p_cr_name a b" "cr_keys cr a b" using kp_stored [OF assms cr] by metis
    then show ?thesis using kp_info_keys [of cr a b env] by simp
  qed
  have "map (\<lambda>x. p2p_cr_name (ii_source_id x) (ii_worker_id x)) (kp_listing env w) = map fst (pw_crs w)"
    using key by (auto simp: kp_listing_map hm_values_def)
  then have "distinct (map (\<lambda>(a, b). p2p_cr_name a b) (map (\<lambda>x. (ii_source_id x, ii_worker_id x)) (kp_listing env w)))"
    using assms by (simp add: kp_ok_def hm_ok_def comp_def)
  then show ?thesis by (rule distinct_map [THEN iffD1, THEN conjunct1])
qed

lemma hm_insert_same: "hm_get m k = Some v \<Longrightarrow> hm_insert k v m = m"
  by (induction m) (auto simp: hm_insert_def hm_get_def split: if_splits)

lemma merge_params_self:
  assumes "hm_ok m"
  shows "merge_params m m = m"
proof -
  have "merge_params new m = m" if "\<And>k v. (k, v) \<in> set new \<Longrightarrow> hm_get m k = Some v" for new
    using that by (induction new m rule: merge_params.induct) (auto simp: hm_insert_same)
  from this [OF hm_mem_iff [OF assms, THEN iffD1]] show ?thesis .
qed

lemma retries: "MAX_RETRIES = Suc 4"
  by (simp add: MAX_RETRIES_def)

lemma pexec_write_status:
  assumes "cr_at w n = Some cr" and "md_status cr = Some s" and "ms_worker s = Some ws"
  obtains sw where "pexec t (write_status env (Suc k) n st u load) w
      = (Inr (), put_cr n (cr\<lparr>md_status := Some (merge_metadata_status sw (Some s))\<rparr>) w)"
    "sw_worker sw = ws\<lparr>ws_status := status_name_from_proto st, ws_updated_at := Some u, ws_source_load := load\<rparr>"
proof -
  let ?sw = "\<lparr>sw_resource_version = (case md_resource_version cr of Some v \<Rightarrow> v | None \<Rightarrow> []),
    sw_worker = ws\<lparr>ws_status := status_name_from_proto st, ws_updated_at := Some u, ws_source_load := load\<rparr>,
    sw_published_at = None, sw_conditions = ms_conditions (update_ready_condition (pe_fmt env t) st s),
    sw_observed_generation = (case md_generation cr of Some g \<Rightarrow> g | None \<Rightarrow> 0)\<rparr>"
  show ?thesis
    by (rule that [of ?sw]) (use assms in \<open>simp_all add: exec_ptry pexec_get Let_def panswer_def cr_at_def split: option.splits\<close>)
qed

lemma kp_update_effect:
  assumes "kp_ok w" and "kp_look env w a b = Some x" and "kp_admits env t x" and "0 \<le> st" and "st \<le> 3"
  shows "\<exists>w'. kp_update env a b (ii_worker_rank x) st t None w = Inr w' \<and> kp_ok w'
    \<and> (\<forall>c d. kp_look env w' c d = (if c = a \<and> d = b
         then Some (x\<lparr>ii_status := st, ii_updated_at := t, ii_source_load := None\<rparr>) else kp_look env w c d))"
proof -
  let ?n = "p2p_cr_name a b"
  obtain cr where cr: "cr_at w ?n = Some cr" "cr_keys cr a b" "x = kp_info env cr"
    using assms(2) by (auto simp: kp_look_def split: option.splits if_splits)
  obtain s ws where s: "md_status cr = Some s" "ms_worker s = Some ws"
    using assms(3) cr(3) by (auto simp: kp_admits_def kp_info_def cr_worker_def split: option.splits Option.bind_splits)
  obtain u where u: "pe_fmt_millis env t = Some u" "pe_millis env u = Some t"
    using assms(3) by (auto simp: kp_admits_def split: Option.bind_splits)
  have top: "hm_ok (ws_topology ws)" using assms(1) cr(1) s by (auto simp: kp_ok_def cr_worker_def)
  let ?ws = "ws\<lparr>ws_status := status_name_from_proto st, ws_updated_at := Some u, ws_source_load := None\<rparr>"
  obtain sw where "pexec t (write_status env (Suc 4) ?n st u None) w
      = (Inr (), put_cr ?n (cr\<lparr>md_status := Some (merge_metadata_status sw (Some s))\<rparr>) w)" and "sw_worker sw = ?ws"
    using cr(1) s by (rule pexec_write_status)
  then have sw: "pexec t (kp_update_status env a b st t None) w
      = (Inr (), put_cr ?n (cr\<lparr>md_status := Some (merge_metadata_status sw (Some s))\<rparr>) w)" "sw_worker sw = ?ws"
    unfolding kp_update_status_def Let_def u(1) option.case retries by simp_all
  let ?cr = "cr\<lparr>md_status := Some (merge_metadata_status sw (Some s)), md_name := Some ?n,
    md_resource_version := Some (show_nat (pw_revision w))\<rparr>"
  let ?w = "put_cr ?n (cr\<lparr>md_status := Some (merge_metadata_status sw (Some s))\<rparr>) w"
  have at: "cr_at ?w m = (if m = ?n then Some ?cr else cr_at w m)" for m by (simp add: cr_at_put)
  have worker: "cr_worker ?cr = Some ?ws"
    using s sw(2) top by (simp add: cr_worker_def merge_metadata_status_def merge_worker_def merge_params_self)
  have keys: "cr_keys ?cr c d = cr_keys cr c d" for c d by (simp add: cr_keys_def)
  have info: "kp_info env ?cr = x\<lparr>ii_status := st, ii_updated_at := t, ii_source_load := None\<rparr>"
    using worker cr(3) s u(2) status_name_roundtrip [OF assms(4,5)]
    by (simp add: kp_info_def cr_worker_def or_default_def owner_namespace_of_def)
  have look: "kp_look env ?w c d = (if c = a \<and> d = b
         then Some (x\<lparr>ii_status := st, ii_updated_at := t, ii_source_load := None\<rparr>) else kp_look env w c d)" for c d
    using cr(1,2) by (auto simp: kp_look_def at keys info cr_keys_def)
  have "hm_ok (pw_crs ?w)" using assms(1) by (simp add: kp_ok_def put_cr_def hm_simps)
  moreover have "(\<exists>a b. n = p2p_cr_name a b \<and> cr_keys cr' a b \<and> CHR ''-'' \<notin> set a)
      \<and> (\<forall>ws. cr_worker cr' = Some ws \<longrightarrow> hm_ok (ws_topology ws))" if "cr_at ?w n = Some cr'" for n cr'
  proof (cases "n = ?n")
    case True
    then have "cr' = ?cr" using that at by simp
    moreover obtain a' b' where "?n = p2p_cr_name a' b'" "cr_keys cr a' b'" "CHR ''-'' \<notin> set a'"
      using kp_stored [OF assms(1) cr(1)] by metis
    ultimately show ?thesis using True keys worker top by auto
  next
    case False
    then show ?thesis using that at assms(1) by (simp add: kp_ok_def)
  qed
  ultimately have "kp_ok ?w" unfolding kp_ok_def by blast
  then show ?thesis using sw(1) look by (simp add: kp_update_def)
qed

lemma kp_remove_effect:
  assumes "kp_ok w" and "kp_look env w a b = Some x"
  shows "kp_ok (kp_remove a b w)"
    and "kp_look env (kp_remove a b w) c d = (if c = a \<and> d = b then None else kp_look env w c d)"
proof -
  obtain cr where cr: "cr_at w (p2p_cr_name a b) = Some cr" "cr_keys cr a b"
    using assms(2) by (auto simp: kp_look_def split: option.splits if_splits)
  have at: "cr_at (kp_remove a b w) n = (if n = p2p_cr_name a b then None else cr_at w n)" for n
    using cr(1) by (simp add: kp_remove_def kp_remove_worker_def panswer_def cr_at_def hm_simps)
  have "hm_ok (pw_crs (kp_remove a b w))"
    using cr(1) assms(1) by (simp add: kp_remove_def kp_remove_worker_def panswer_def cr_at_def hm_simps kp_ok_def)
  then show "kp_ok (kp_remove a b w)" using assms(1) at by (auto simp: kp_ok_def)
  show "kp_look env (kp_remove a b w) c d = (if c = a \<and> d = b then None else kp_look env w c d)"
    using cr by (auto simp: kp_look_def at cr_keys_def)
qed

interpretation kube: metadata_backend "kp_look env" "kp_listing env" "kp_update env" kp_remove "kp_admits env" kp_ok
  for env
proof
  show "kp_ok s \<Longrightarrow> kp_look env s a b = Some w \<Longrightarrow> ii_source_id w = a \<and> ii_worker_id w = b" for s a b w
    using kp_info_keys by (auto simp: kp_look_def split: option.splits if_splits)
qed (use kp_listing_look kp_listing_keys kp_update_effect kp_remove_effect in \<open>simp_all, blast?\<close>)

text \<open>
  A pass of the reaper over the Kubernetes backend is exact: every active worker without a
  heartbeat for the timeout becomes stale at the time of the pass, every stale worker past the
  collection timeout is gone, and every other worker is as it was.
\<close>

theorem kube_reaper_pass_exact:
  assumes "kp_ok w" and "\<And>x. is_active x \<Longrightarrow> age_ms now x > hb \<Longrightarrow> kp_admits env (clock x) x"
  shows "kp_look env (reap_once (kp_update env) kp_remove clock now hb gc (kp_listing env w) w) a b
    = (case kp_look env w a b of Some x \<Rightarrow> reap_result clock now hb gc x | None \<Rightarrow> None)"
  using assms by (rule kube.reap_exact(2))

definition demo_pw :: pworld where
  "demo_pw = put_cr (p2p_cr_name ''5a'' ''w'') \<lparr>md_name = None, md_labels = publish_labels ''5a'' ''w'' None,
     md_owner_references = None, md_uid = None, md_resource_version = None, md_generation = Some 1,
     md_spec = \<lparr>mp_model_name = ''m'', mp_source_type = ''weights''\<rparr>,
     md_status = Some (default_metadata_status\<lparr>ms_worker := Some (demo_worker_status [(''rack'', ''r1'')])\<rparr>)\<rparr> empty_pworld"

lemma cr_at_empty [simp]: "cr_at empty_pworld n = None"
  by (simp add: cr_at_def empty_pworld_def)

lemma demo_pw_ok: "kp_ok demo_pw" "p_versions_ok demo_pw"
proof -
  have at: "cr_at demo_pw n = Some cr \<Longrightarrow> n = p2p_cr_name ''5a'' ''w'' \<and> md_labels cr = publish_labels ''5a'' ''w'' None
      \<and> cr_worker cr = Some (demo_worker_status [(''rack'', ''r1'')]) \<and> md_resource_version cr = Some (show_nat 0)" for n cr
    by (auto simp: demo_pw_def cr_at_put cr_worker_def split: if_splits) (simp add: empty_pworld_def)
  have m: "hm_ok (pw_crs demo_pw)" by (simp add: demo_pw_def put_cr_def empty_pworld_def hm_simps)
  show "kp_ok demo_pw"
    unfolding kp_ok_def
  proof (intro conjI allI impI)
    fix n cr assume "cr_at demo_pw n = Some cr"
    note at = at [OF this]
    show "\<exists>a b. n = p2p_cr_name a b \<and> cr_keys cr a b \<and> CHR ''-'' \<notin> set a"
      by (rule exI [of _ "''5a''"], rule exI [of _ "''w''"]) (use at in \<open>simp add: cr_keys_def\<close>)
    show "hm_ok (ws_topology ws)" if "cr_worker cr = Some ws" for ws
      using at that by (auto simp: demo_worker_status_def hm_ok_def)
  qed (rule m)
  show "p_versions_ok demo_pw"
    unfolding p_versions_ok_def using at by (auto simp: demo_pw_def put_cr_def empty_pworld_def)
qed

lemma demo_pw_look: "kp_look demo_pkube demo_pw ''5a'' ''w'' = Some
    \<lparr>ii_source_id = ''5a'', ii_worker_id = ''w'', ii_model_name = ''m'', ii_worker_rank = 3, ii_status = 2,
     ii_updated_at = 0, ii_accelerator = [], ii_source_load = None, ii_topology = [(''rack'', ''r1'')],
     ii_training_step = None, ii_layout_signature = None, ii_owner_namespace = None\<rparr>"
  by (simp add: kp_look_def demo_pw_def cr_at_put cr_keys_def kp_info_def cr_worker_def demo_worker_status_def
      or_default_def owner_namespace_of_def status_proto_from_name_def)

lemma demo_millis: "pe_millis demo_pkube (show_int 8) = Some 8"
  using i64_codec.decode_encode [of 8] by (simp add: demo_pkube_def)

lemma demo_admits: "ii_status x \<noteq> 0 \<Longrightarrow> kp_admits demo_pkube 8 x"
  using demo_millis by (simp add: kp_admits_def) (simp add: demo_pkube_def)

theorem kube_reaper_pass_exact_witness:
  "map_option ii_status (kp_look demo_pkube (reap_once (kp_update demo_pkube) kp_remove (\<lambda>_. 8) 9 4 100
     (kp_listing demo_pkube demo_pw) demo_pw) ''5a'' ''w'') = Some STATUS_STALE"
proof -
  have "kp_admits demo_pkube 8 x" if "is_active x" "age_ms 9 x > 4" for x
    using that(1) by (intro demo_admits) (auto simp: is_active_def STATUS_READY_def STATUS_INITIALIZING_def)
  then have pass: "kp_look demo_pkube (reap_once (kp_update demo_pkube) kp_remove (\<lambda>_. 8) 9 4 100
     (kp_listing demo_pkube demo_pw) demo_pw) ''5a'' ''w''
    = (case kp_look demo_pkube demo_pw ''5a'' ''w'' of Some x \<Rightarrow> reap_result (\<lambda>_. 8) 9 4 100 x | None \<Rightarrow> None)"
    by (intro kube_reaper_pass_exact demo_pw_ok(1))
  show ?thesis
    unfolding pass demo_pw_look
    by (simp add: reap_result_def is_active_def STATUS_READY_def age_ms_def i64_saturating_sub_def)
qed

lemma panswer_pstep: "pstep r q w (fst (panswer t q w)) (snd (panswer t q w))"
  by (auto simp: panswer_def intro: pstep.intros)

definition demo_update :: "(p2pk_error + unit) pprog" where
  "demo_update = kp_update_status demo_pkube ''5a'' ''w'' 3 8 None"

theorem status_update_is_atomic_witness:
  "\<exists>before q after wp wq cr cr' ws ws'. exec_events (panswer 8) (2, 3) demo_update demo_pw = before @ Act (2, 3) q PDone # after
    \<and> prun demo_pw before wp \<and> pstep 2 q wp PDone wq \<and> prun wq after (snd (pexec 8 demo_update demo_pw))
    \<and> cr_at wp (p2p_cr_name ''5a'' ''w'') = Some cr \<and> cr_worker cr = Some ws
    \<and> cr_at wq (p2p_cr_name ''5a'' ''w'') = Some cr' \<and> cr_worker cr' = Some ws'
    \<and> ws' = ws\<lparr>ws_status := status_name_from_proto 3, ws_updated_at := Some (show_int 8), ws_source_load := None,
                ws_topology := ws_topology ws'\<rparr>
    \<and> same_params (ws_topology ws') (ws_topology ws)"
proof -
  have run: "prun demo_pw (exec_events (panswer 8) (2, 3) demo_update demo_pw) (snd (pexec 8 demo_update demo_pw))"
    by (rule exec_run) (rule panswer_pstep)
  obtain w' where "kp_update demo_pkube ''5a'' ''w'' 3 3 8 None demo_pw = Inr w'"
    using kp_update_effect [OF demo_pw_ok(1) demo_pw_look demo_admits, of 3] by auto
  then have "fst (pexec 8 demo_update demo_pw) = Inr ()"
    by (auto simp: kp_update_def demo_update_def split: prod.splits sum.splits)
  then have "follows demo_update (session (2, 3) (exec_events (panswer 8) (2, 3) demo_update demo_pw)) = Some (Inr ())"
    using exec_follows by metis
  moreover have "pe_fmt_millis demo_pkube 8 = Some (show_int 8)" by (simp add: demo_pkube_def)
  ultimately show ?thesis
    using status_update_is_atomic [OF run demo_pw_ok(2), of demo_pkube 8 "show_int 8" "''5a''" "''w''" 3 None "(2, 3)"]
    unfolding demo_update_def by simp
qed

end
