(* ===== verification/Backend_Selection.thy ===== *)
theory Backend_Selection
  imports Complex_Main Call_Trees MX_Text Registry_Memory
begin

text \<open>
  Which store the server uses and how it gets hold of it: the environment getters of
  \<^verbatim>\<open>modelexpress_common/src/envs.rs\<close>, the selection of \<^verbatim>\<open>backend_config.rs\<close> and the lazily
  connecting \<^verbatim>\<open>RegistryManager\<close> of \<^verbatim>\<open>registry/state.rs\<close>.

  The process environment is a map from names to texts, read at every call. A floating-point value is
  the rational it denotes, or \<^verbatim>\<open>NotFinite\<close>; its parser is an argument. The manager keeps its backend in a
  read-write lock: a call reads the lock, and on a miss looks again and builds while it holds
  the write lock, which is one step of the shared world. Whether a build succeeds is up to the
  environment.
\<close>

subsection \<open>envs.rs\<close>

type_synonym env_map = "string \<rightharpoonup> string"

definition env_or :: "env_map \<Rightarrow> string \<Rightarrow> string \<Rightarrow> string option" where
  "env_or env a b = (case env a of Some v \<Rightarrow> Some v | None \<Rightarrow> env b)"

definition unwrap_or :: "'a \<Rightarrow> 'a option \<Rightarrow> 'a" where
  "unwrap_or d x = (case x of Some v \<Rightarrow> v | None \<Rightarrow> d)"

definition home_dir :: "env_map \<Rightarrow> string option" where
  "home_dir env = env_or env ''HOME'' ''USERPROFILE''"

definition home_dir_or_cwd :: "env_map \<Rightarrow> string" where
  "home_dir_or_cwd env = unwrap_or ''.'' (home_dir env)"

definition env_cache_directory :: "env_map \<Rightarrow> string option" where
  "env_cache_directory env = env ''MODEL_EXPRESS_CACHE_DIRECTORY''"

definition DEFAULT_GRPC_PORT :: nat where "DEFAULT_GRPC_PORT = 8001"

definition server_endpoint_or_default :: "env_map \<Rightarrow> string" where
  "server_endpoint_or_default env =
     unwrap_or (''http://localhost:'' @ show_nat DEFAULT_GRPC_PORT) (env ''MODEL_EXPRESS_SERVER_ENDPOINT'')"

definition metrics_scheme :: "env_map \<Rightarrow> string" where
  "metrics_scheme env = unwrap_or [] (env ''MX_METRICS_SCHEME'')"

definition to_upper :: "string \<Rightarrow> string" where
  "to_upper s = map (\<lambda>c. let n = of_char c :: nat in if 97 \<le> n \<and> n \<le> 122 then char_of (n - 32) else c) s"

definition truthy :: "string \<Rightarrow> bool" where
  "truthy v = (to_upper v \<in> {''1'', ''ON'', ''YES'', ''TRUE''})"

definition hf_offline :: "env_map \<Rightarrow> bool" where
  "hf_offline env = (case env ''HF_HUB_OFFLINE'' of Some v \<Rightarrow> truthy v | None \<Rightarrow> False)"

definition hf_implicit_token_disabled :: "env_map \<Rightarrow> bool" where
  "hf_implicit_token_disabled env = (case env ''HF_HUB_DISABLE_IMPLICIT_TOKEN'' of Some v \<Rightarrow> truthy v | None \<Rightarrow> False)"

definition ngc_api_base :: "env_map \<Rightarrow> string" where
  "ngc_api_base env = unwrap_or ''https://api.ngc.nvidia.com'' (env ''NGC_API_ENDPOINT'')"

definition ngc_authn_base :: "env_map \<Rightarrow> string" where
  "ngc_authn_base env = unwrap_or ''https://authn.nvidia.com'' (env ''NGC_AUTH_ENDPOINT'')"

fun first_non_blank :: "env_map \<Rightarrow> string list \<Rightarrow> string option" where
  "first_non_blank env [] = None"
| "first_non_blank env (n # ns) = (case env n of
      Some v \<Rightarrow> if trim v \<noteq> [] then Some (trim v) else first_non_blank env ns
    | None \<Rightarrow> first_non_blank env ns)"

definition ngc_api_key :: "env_map \<Rightarrow> string option" where
  "ngc_api_key env = first_non_blank env [''NGC_API_KEY'', ''NGC_CLI_API_KEY'']"

definition metadata_backend_env :: "env_map \<Rightarrow> string" where
  "metadata_backend_env env = unwrap_or [] (env ''MX_METADATA_BACKEND'')"

definition redis_url :: "env_map \<Rightarrow> string option" where
  "redis_url env = env_or env ''MX_REDIS_URL'' ''REDIS_URL''"

definition redis_host :: "env_map \<Rightarrow> string option" where
  "redis_host env = env_or env ''MX_REDIS_HOST'' ''REDIS_HOST''"

definition redis_port :: "env_map \<Rightarrow> string option" where
  "redis_port env = env_or env ''MX_REDIS_PORT'' ''REDIS_PORT''"

definition metadata_namespace :: "env_map \<Rightarrow> string option" where
  "metadata_namespace env = env_or env ''MX_METADATA_NAMESPACE'' ''POD_NAMESPACE''"

definition env_u64 :: "env_map \<Rightarrow> string \<Rightarrow> nat \<Rightarrow> nat" where
  "env_u64 env name dflt = unwrap_or dflt (Option.bind (env name) parse_u64)"

definition reaper_scan_interval_secs :: "env_map \<Rightarrow> nat" where
  "reaper_scan_interval_secs env = env_u64 env ''MX_REAPER_SCAN_INTERVAL_SECS'' 30"

definition registry_stats_interval_secs :: "env_map \<Rightarrow> nat" where
  "registry_stats_interval_secs env = max 1 (env_u64 env ''MX_REGISTRY_STATS_INTERVAL_SECS'' 60)"

definition heartbeat_timeout_secs :: "env_map \<Rightarrow> nat" where
  "heartbeat_timeout_secs env = env_u64 env ''MX_HEARTBEAT_TIMEOUT_SECS'' 90"

definition gc_timeout_secs :: "env_map \<Rightarrow> nat" where
  "gc_timeout_secs env = env_u64 env ''MX_GC_TIMEOUT_SECS'' 3600"

datatype f64 = Finite rat | NotFinite

definition MAX_ENV_SECS :: nat where "MAX_ENV_SECS = 7 * 24 * 60 * 60"

definition env_secs_ceil :: "(string \<Rightarrow> f64 option) \<Rightarrow> env_map \<Rightarrow> string \<Rightarrow> nat \<Rightarrow> nat" where
  "env_secs_ceil parse_f64 env name dflt = (case env name of
      None \<Rightarrow> dflt
    | Some raw \<Rightarrow> (case parse_f64 (trim raw) of
          Some (Finite v) \<Rightarrow>
            if v > 0 then (if v > of_nat MAX_ENV_SECS then MAX_ENV_SECS else nat \<lceil>v\<rceil>) else dflt
        | _ \<Rightarrow> dflt))"

definition nccl_refit_transfer_timeout_secs :: "(string \<Rightarrow> f64 option) \<Rightarrow> env_map \<Rightarrow> nat" where
  "nccl_refit_transfer_timeout_secs parse_f64 env = env_secs_ceil parse_f64 env ''MX_NCCL_REFIT_TRANSFER_TIMEOUT_S'' 600"

subsection \<open>backend\_config.rs\<close>

datatype BackendConfig = CfgRedis string | CfgKubernetes string | CfgMemory

primrec config_name :: "BackendConfig \<Rightarrow> string" where
  "config_name (CfgRedis url) = ''redis''"
| "config_name (CfgKubernetes ns) = ''kubernetes''"
| "config_name CfgMemory = ''memory''"

definition valid_backends_hint :: "bool \<Rightarrow> string" where
  "valid_backends_hint memory_feature =
     (if memory_feature then ''Use 'redis', 'kubernetes', or 'memory'.'' else ''Use 'redis' or 'kubernetes'.'')"

definition redis_url_from_env :: "env_map \<Rightarrow> string + string" where
  "redis_url_from_env env = (case redis_url env of
      Some url \<Rightarrow> Inr url
    | None \<Rightarrow>
        sum_bind (ok_or ''MX_METADATA_BACKEND=redis requires REDIS_URL or MX_REDIS_HOST (alias REDIS_HOST) to be set.'' (redis_host env)) (\<lambda>host.
        sum_bind (ok_or ''MX_METADATA_BACKEND=redis requires REDIS_URL or MX_REDIS_PORT (alias REDIS_PORT) to be set.'' (redis_port env)) (\<lambda>port.
        Inr (''redis://'' @ host @ '':'' @ port))))"

definition k8s_namespace_from_env :: "env_map \<Rightarrow> string + string" where
  "k8s_namespace_from_env env =
     ok_or ''MX_METADATA_BACKEND=kubernetes requires MX_METADATA_NAMESPACE or POD_NAMESPACE to be set.'' (metadata_namespace env)"

definition config_from_env :: "bool \<Rightarrow> env_map \<Rightarrow> string + BackendConfig" where
  "config_from_env memory_feature env =
     (let ty = to_lowercase (metadata_backend_env env) in
      if ty = ''redis'' then sum_bind (redis_url_from_env env) (\<lambda>url. Inr (CfgRedis url))
      else if ty = ''kubernetes'' \<or> ty = ''k8s'' \<or> ty = ''crd''
      then sum_bind (k8s_namespace_from_env env) (\<lambda>ns. Inr (CfgKubernetes ns))
      else if memory_feature \<and> ty = ''memory'' then Inr CfgMemory
      else Inl (''MX_METADATA_BACKEND='' @ [CHR 0x27] @ ty @ [CHR 0x27] @ '' is not valid. '' @ valid_backends_hint memory_feature))"

definition from_type_str :: "bool \<Rightarrow> string \<Rightarrow> string \<Rightarrow> string \<Rightarrow> string \<Rightarrow> string + BackendConfig" where
  "from_type_str memory_feature env_name backend_type url k8s_namespace =
     (let ty = to_lowercase backend_type in
      if ty = ''redis'' then Inr (CfgRedis url)
      else if ty = ''kubernetes'' \<or> ty = ''k8s'' \<or> ty = ''crd'' then Inr (CfgKubernetes k8s_namespace)
      else if memory_feature \<and> ty = ''memory'' then Inr CfgMemory
      else Inl (env_name @ ''='' @ [CHR 0x27] @ ty @ [CHR 0x27] @ '' is not valid. '' @ valid_backends_hint memory_feature))"

end
