(* ===== verification/Registry_Manager.thy ===== *)
theory Registry_Manager
  imports Backend_Selection
begin

text \<open>
  The registry as the services hold it: \<^verbatim>\<open>RegistryManager\<close> of \<^verbatim>\<open>registry/state.rs\<close>, the factory
  \<^verbatim>\<open>create_registry_backend\<close> of \<^verbatim>\<open>registry/backend.rs\<close> and the statistics pass of
  \<^verbatim>\<open>registry/stats_refresh.rs\<close>.

  All clones of a manager share one slot behind a read-write lock. A method is a call tree: it reads
  the slot under the read lock; on a miss it takes the write lock, under which looking again,
  building and storing is one step, since nobody else can hold the lock meanwhile; then it forwards
  its operation to the backend it got. A backend is named by the position at which it was built, the
  way an \<^verbatim>\<open>Arc\<close> is a pointer to one allocation. Whether a connection succeeds is decided by the
  environment at every build. The in-memory backend answers as its theory says; the replies of a Redis or
  Kubernetes backend are left open here, since their own theories describe them.
\<close>

subsection \<open>The backend trait as requests and replies\<close>

datatype registry_op =
    OpGetStatus string
  | OpGetModelRecord string
  | OpSetStatus string ModelProvider ModelStatus "string option"
  | OpTouchModel string
  | OpDeleteModel string
  | OpGetModelsByLastUsed "u32 option"
  | OpGetStatusCounts
  | OpTryClaim string ModelProvider string nat
  | OpTryReset string ModelProvider string nat
  | OpRefresh string ModelProvider string nat
  | OpFinish string ModelProvider string ModelStatus "string option"

datatype registry_value =
    VStatus "ModelStatus option"
  | VRecord "ModelRecord option"
  | VUnit
  | VRecords "ModelRecord list"
  | VCounts "u32 \<times> u32 \<times> u32"
  | VClaim ClaimOutcome
  | VBool bool

type_synonym 'a registry_result = "string + 'a"

fun mem_serve :: "checked_add \<Rightarrow> int \<Rightarrow> registry_op \<Rightarrow> InMemoryState \<Rightarrow> registry_value \<times> InMemoryState" where
  "mem_serve add now (OpGetStatus n) s = (VStatus (mem_get_status n s), s)"
| "mem_serve add now (OpGetModelRecord n) s = (VRecord (mem_get_model_record n s), s)"
| "mem_serve add now (OpSetStatus n p st msg) s = (VUnit, mem_set_status now n p st msg s)"
| "mem_serve add now (OpTouchModel n) s = (VUnit, mem_touch_model now n s)"
| "mem_serve add now (OpDeleteModel n) s = (VUnit, mem_delete_model n s)"
| "mem_serve add now (OpGetModelsByLastUsed l) s = (VRecords (mem_get_models_by_last_used l s), s)"
| "mem_serve add now OpGetStatusCounts s = (VCounts (mem_get_status_counts s), s)"
| "mem_serve add now (OpTryClaim n p c d) s = apfst VClaim (mem_try_claim_for_download add now n p c d s)"
| "mem_serve add now (OpTryReset n p c d) s = apfst VBool (mem_try_reset_error_for_retry add now n p c d s)"
| "mem_serve add now (OpRefresh n p c d) s = apfst VBool (mem_refresh_download_claim add now n p c d s)"
| "mem_serve add now (OpFinish n p c st msg) s = apfst VBool (mem_finish_download_claim now n p c st msg s)"

subsection \<open>The factory\<close>

datatype registry_backend = RedisBackend string | KubernetesBackend string | MemoryBackend InMemoryState

text \<open>\<open>dial\<close> is the outcome of opening the connection; the in-memory backend opens none.\<close>

primrec create_registry_backend :: "(BackendConfig \<Rightarrow> string + unit) \<Rightarrow> BackendConfig \<Rightarrow> registry_backend registry_result" where
  "create_registry_backend dial (CfgRedis url) = sum_bind (dial (CfgRedis url)) (\<lambda>_. Inr (RedisBackend url))"
| "create_registry_backend dial (CfgKubernetes ns) =
     sum_bind (dial (CfgKubernetes ns)) (\<lambda>_. Inr (KubernetesBackend ns))"
| "create_registry_backend dial CfgMemory = Inr (MemoryBackend mem_new)"

subsection \<open>The manager\<close>

record RegistryManager =
  rm_config :: "BackendConfig option"

definition rm_with_config :: "BackendConfig \<Rightarrow> RegistryManager" where
  "rm_with_config config = \<lparr>rm_config = Some config\<rparr>"

datatype mgr_call = ReadSlot | WriteSlot "BackendConfig option" | Forward nat registry_op

datatype mgr_reply = RSlot "nat option" | RHandle "nat registry_result" | RValue "registry_value registry_result"

type_synonym 'a mgr_prog = "(mgr_call, mgr_reply, 'a) prog"

primrec slot_of :: "mgr_reply \<Rightarrow> nat option" where
  "slot_of (RSlot h) = h" | "slot_of (RHandle h) = None" | "slot_of (RValue v) = None"

primrec handle_of :: "mgr_reply \<Rightarrow> nat registry_result" where
  "handle_of (RSlot h) = Inl []" | "handle_of (RHandle h) = h" | "handle_of (RValue v) = Inl []"

primrec value_of :: "mgr_reply \<Rightarrow> registry_value registry_result" where
  "value_of (RSlot h) = Inl []" | "value_of (RHandle h) = Inl []" | "value_of (RValue v) = v"

definition NO_CONFIG :: string where
  "NO_CONFIG = ''MX_METADATA_BACKEND is not set or invalid. Set it to 'redis' or 'kubernetes'.''"

definition rm_connect :: "RegistryManager \<Rightarrow> string registry_result mgr_prog" where
  "rm_connect m = Call ReadSlot (\<lambda>a. case slot_of a of
      Some _ \<Rightarrow> Return (Inr (case rm_config m of Some c \<Rightarrow> config_name c | None \<Rightarrow> ''unknown''))
    | None \<Rightarrow> (case rm_config m of
          None \<Rightarrow> Return (Inl NO_CONFIG)
        | Some c \<Rightarrow> Call (WriteSlot (Some c)) (\<lambda>a. case handle_of a of
              Inl e \<Rightarrow> Return (Inl e)
            | Inr _ \<Rightarrow> Return (Inr (config_name c)))))"

definition rm_get_backend :: "RegistryManager \<Rightarrow> nat registry_result mgr_prog" where
  "rm_get_backend m = Call ReadSlot (\<lambda>a. case slot_of a of
      Some h \<Rightarrow> Return (Inr h)
    | None \<Rightarrow> Call (WriteSlot (rm_config m)) (\<lambda>a. Return (handle_of a)))"

text \<open>Every method gets the backend and forwards its arguments.\<close>

definition rm_forward :: "RegistryManager \<Rightarrow> registry_op \<Rightarrow> registry_value registry_result mgr_prog" where
  "rm_forward m op = ptry (rm_get_backend m) (\<lambda>h. Call (Forward h op) (\<lambda>a. Return (value_of a)))"

subsection \<open>The shared slot\<close>

record mgr_world =
  mw_slot :: "nat option"
  mw_built :: "registry_backend list"

definition mgr_start :: mgr_world where
  "mgr_start = \<lparr>mw_slot = None, mw_built = []\<rparr>"

text \<open>What happens under the write lock.\<close>

fun under_write_lock :: "(BackendConfig \<Rightarrow> string + unit) \<Rightarrow> BackendConfig option \<Rightarrow> mgr_world \<Rightarrow>
    nat registry_result \<times> mgr_world" where
  "under_write_lock dial config w = (case mw_slot w of
      Some h \<Rightarrow> (Inr h, w)
    | None \<Rightarrow> (case config of
          None \<Rightarrow> (Inl NO_CONFIG, w)
        | Some c \<Rightarrow> (case create_registry_backend dial c of
              Inl e \<Rightarrow> (Inl e, w)
            | Inr b \<Rightarrow> (Inr (length (mw_built w)),
                w\<lparr>mw_slot := Some (length (mw_built w)), mw_built := mw_built w @ [b]\<rparr>))))"

inductive mgr_step :: "checked_add \<Rightarrow> nat \<Rightarrow> mgr_call \<Rightarrow> mgr_world \<Rightarrow> mgr_reply \<Rightarrow> mgr_world \<Rightarrow> bool" for add where
  read: "mgr_step add r ReadSlot w (RSlot (mw_slot w)) w"
| locked: "under_write_lock dial config w = (h, w') \<Longrightarrow> mgr_step add r (WriteSlot config) w (RHandle h) w'"
| memory: "h < length (mw_built w) \<Longrightarrow> mw_built w ! h = MemoryBackend s \<Longrightarrow> mem_serve add now op s = (v, s') \<Longrightarrow>
    mgr_step add r (Forward h op) w (RValue (Inr v)) (w\<lparr>mw_built := (mw_built w)[h := MemoryBackend s']\<rparr>)"
| remote: "h < length (mw_built w) \<Longrightarrow> \<forall>s. mw_built w ! h \<noteq> MemoryBackend s \<Longrightarrow>
    mgr_step add r (Forward h op) w (RValue v) w"

inductive_cases mgr_readE: "mgr_step add r ReadSlot w a w'"
inductive_cases mgr_lockedE: "mgr_step add r (WriteSlot c) w a w'"
inductive_cases mgr_forwardE: "mgr_step add r (Forward h op) w a w'"

text \<open>The methods of the manager.\<close>

definition rm_get_status :: "RegistryManager \<Rightarrow> string \<Rightarrow> registry_value registry_result mgr_prog" where
  "rm_get_status m name = rm_forward m (OpGetStatus name)"

definition rm_get_model_record :: "RegistryManager \<Rightarrow> string \<Rightarrow> registry_value registry_result mgr_prog" where
  "rm_get_model_record m name = rm_forward m (OpGetModelRecord name)"

definition rm_set_status :: "RegistryManager \<Rightarrow> string \<Rightarrow> ModelProvider \<Rightarrow> ModelStatus \<Rightarrow> string option \<Rightarrow>
    registry_value registry_result mgr_prog" where
  "rm_set_status m name provider status message = rm_forward m (OpSetStatus name provider status message)"

definition rm_touch_model :: "RegistryManager \<Rightarrow> string \<Rightarrow> registry_value registry_result mgr_prog" where
  "rm_touch_model m name = rm_forward m (OpTouchModel name)"

definition rm_delete_model :: "RegistryManager \<Rightarrow> string \<Rightarrow> registry_value registry_result mgr_prog" where
  "rm_delete_model m name = rm_forward m (OpDeleteModel name)"

definition rm_get_models_by_last_used :: "RegistryManager \<Rightarrow> u32 option \<Rightarrow> registry_value registry_result mgr_prog" where
  "rm_get_models_by_last_used m limit = rm_forward m (OpGetModelsByLastUsed limit)"

definition rm_get_status_counts :: "RegistryManager \<Rightarrow> registry_value registry_result mgr_prog" where
  "rm_get_status_counts m = rm_forward m OpGetStatusCounts"

definition rm_try_claim_for_download :: "RegistryManager \<Rightarrow> string \<Rightarrow> ModelProvider \<Rightarrow> string \<Rightarrow> nat \<Rightarrow>
    registry_value registry_result mgr_prog" where
  "rm_try_claim_for_download m name provider claim_id d = rm_forward m (OpTryClaim name provider claim_id d)"

definition rm_try_reset_error_for_retry :: "RegistryManager \<Rightarrow> string \<Rightarrow> ModelProvider \<Rightarrow> string \<Rightarrow> nat \<Rightarrow>
    registry_value registry_result mgr_prog" where
  "rm_try_reset_error_for_retry m name provider claim_id d = rm_forward m (OpTryReset name provider claim_id d)"

definition rm_refresh_download_claim :: "RegistryManager \<Rightarrow> string \<Rightarrow> ModelProvider \<Rightarrow> string \<Rightarrow> nat \<Rightarrow>
    registry_value registry_result mgr_prog" where
  "rm_refresh_download_claim m name provider claim_id d = rm_forward m (OpRefresh name provider claim_id d)"

definition rm_finish_download_claim :: "RegistryManager \<Rightarrow> string \<Rightarrow> ModelProvider \<Rightarrow> string \<Rightarrow> ModelStatus \<Rightarrow> string option \<Rightarrow>
    registry_value registry_result mgr_prog" where
  "rm_finish_download_claim m name provider claim_id status message =
     rm_forward m (OpFinish name provider claim_id status message)"

lemmas rm_method_defs = rm_get_status_def rm_get_model_record_def rm_set_status_def rm_touch_model_def
  rm_delete_model_def rm_get_models_by_last_used_def rm_get_status_counts_def rm_try_claim_for_download_def
  rm_try_reset_error_for_retry_def rm_refresh_download_claim_def rm_finish_download_claim_def

text \<open>The method a client calls for each operation.\<close>

primrec rm_method :: "RegistryManager \<Rightarrow> registry_op \<Rightarrow> registry_value registry_result mgr_prog" where
  "rm_method m (OpGetStatus n) = rm_get_status m n"
| "rm_method m (OpGetModelRecord n) = rm_get_model_record m n"
| "rm_method m (OpSetStatus n p st msg) = rm_set_status m n p st msg"
| "rm_method m (OpTouchModel n) = rm_touch_model m n"
| "rm_method m (OpDeleteModel n) = rm_delete_model m n"
| "rm_method m (OpGetModelsByLastUsed l) = rm_get_models_by_last_used m l"
| "rm_method m OpGetStatusCounts = rm_get_status_counts m"
| "rm_method m (OpTryClaim n p c d) = rm_try_claim_for_download m n p c d"
| "rm_method m (OpTryReset n p c d) = rm_try_reset_error_for_retry m n p c d"
| "rm_method m (OpRefresh n p c d) = rm_refresh_download_claim m n p c d"
| "rm_method m (OpFinish n p c st msg) = rm_finish_download_claim m n p c st msg"

lemma rm_method_forward: "rm_method m op = rm_forward m op"
  by (cases op) (simp_all add: rm_method_defs)

subsection \<open>One backend for all callers\<close>

text \<open>
  The operations served, in order, with the session that asked; and the executions of one in-memory
  backend on its own, from empty, under any clock.
\<close>

definition served :: "(mgr_call, mgr_reply, 'e) event list \<Rightarrow> ((nat \<times> nat) \<times> registry_op \<times> registry_value registry_result) list" where
  "served es = List.map_filter (\<lambda>e. case e of
     Act p (Forward h op) a \<Rightarrow> Some (p, op, value_of a) | _ \<Rightarrow> None) es"

lemma served_simps [simp]:
  "served [] = []"
  "served (Act p (Forward h op) a # es) = (p, op, value_of a) # served es"
  "served (Act p ReadSlot a # es) = served es"
  "served (Act p (WriteSlot c) a # es) = served es"
  "served (Env x # es) = served es"
  by (simp_all add: served_def map_filter_simps)

inductive mem_serial :: "checked_add \<Rightarrow> ((nat \<times> nat) \<times> registry_op \<times> registry_value registry_result) list \<Rightarrow> InMemoryState \<Rightarrow> bool"
  for add where
  serial_Nil: "mem_serial add [] mem_new"
| serial_snoc: "mem_serial add tr s \<Longrightarrow> mem_serve add now op s = (v, s') \<Longrightarrow> mem_serial add (tr @ [(p, op, Inr v)]) s'"

definition one_store :: "checked_add \<Rightarrow> ((nat \<times> nat) \<times> registry_op \<times> registry_value registry_result) list \<Rightarrow> mgr_world \<Rightarrow> bool" where
  "one_store add tr w = (case mw_slot w of
      None \<Rightarrow> mw_built w = [] \<and> tr = []
    | Some h \<Rightarrow> h = 0 \<and> (\<exists>s. mw_built w = [MemoryBackend s] \<and> mem_serial add tr s))"

text \<open>What the calls of a manager ask for and what they are answered.\<close>

definition asks :: "BackendConfig \<Rightarrow> mgr_call \<Rightarrow> bool" where
  "asks config q = (case q of WriteSlot c \<Rightarrow> c = Some config | _ \<Rightarrow> True)"

definition answered :: "mgr_call \<Rightarrow> mgr_reply \<Rightarrow> bool" where
  "answered q a = (case q of ReadSlot \<Rightarrow> True | WriteSlot c \<Rightarrow> a = RHandle (Inr 0)
     | Forward h op \<Rightarrow> (\<exists>v. a = RValue (Inr v)))"

lemma one_store_step:
  assumes "mgr_step add r q w a w'" and "asks CfgMemory q" and "one_store add tr w"
  shows "one_store add (tr @ served [Act (r, i) q a]) w' \<and> answered q a"
  using assms(1)
proof (cases rule: mgr_step.cases)
  case read
  then show ?thesis using assms(3) by (simp add: answered_def)
next
  case (locked dial config h)
  then show ?thesis using assms(2,3) serial_Nil [of add]
    by (auto simp: asks_def one_store_def answered_def split: option.splits)
next
  case (memory h s now op v s')
  then have "h = 0" "mw_built w = [MemoryBackend s]" "mw_slot w = Some 0" "mem_serial add tr s"
    using assms(3) by (auto simp: one_store_def split: option.splits)
  moreover have "mem_serial add (tr @ [((r, i), op, Inr v)]) s'"
    by (rule serial_snoc [OF calculation(4) memory(6)])
  ultimately show ?thesis using memory by (auto simp: one_store_def answered_def)
next
  case remote
  then show ?thesis using assms(3) by (auto simp: one_store_def split: option.splits)
qed

lemma served_Cons: "served (e # es) = served [e] @ served es"
  by (simp add: served_def map_filter_simps split: option.splits)

lemma one_store_run:
  assumes "run (mgr_step add) env w es w'" and "\<And>p q a. Act p q a \<in> set es \<Longrightarrow> asks CfgMemory q"
    and "one_store add tr w" and "\<And>e w. env e w = w"
  shows "one_store add (tr @ served es) w' \<and> (\<forall>p q a. Act p q a \<in> set es \<longrightarrow> answered q a)"
  using assms(1,2,3)
proof (induction arbitrary: tr rule: run.induct)
  case (run_Act p q w a w' es w'')
  have "one_store add (tr @ served [Act p q a]) w' \<and> answered q a"
    using one_store_step [OF run_Act.hyps(1) _ run_Act.prems(2), of "snd p"] run_Act.prems(1) [of p q a] by simp
  then show ?case using run_Act.IH [of "tr @ served [Act p q a]"] run_Act.prems(1)
      served_Cons [of "Act p q a" es] by auto
qed (auto simp: assms(4))

lemma pwp_forward:
  "pwp R P Q (rm_forward m op) h = (P h ReadSlot \<and> (\<forall>a. R ReadSlot a \<longrightarrow> (case slot_of a of
      Some b \<Rightarrow> P ((ReadSlot, a) # h) (Forward b op) \<and> (\<forall>v. R (Forward b op) v \<longrightarrow>
        Q ((Forward b op, v) # (ReadSlot, a) # h) (value_of v))
    | None \<Rightarrow> P ((ReadSlot, a) # h) (WriteSlot (rm_config m)) \<and> (\<forall>g. R (WriteSlot (rm_config m)) g \<longrightarrow>
        (case handle_of g of
            Inl e \<Rightarrow> Q ((WriteSlot (rm_config m), g) # (ReadSlot, a) # h) (Inl e)
          | Inr b \<Rightarrow> P ((WriteSlot (rm_config m), g) # (ReadSlot, a) # h) (Forward b op) \<and>
              (\<forall>v. R (Forward b op) v \<longrightarrow>
                Q ((Forward b op, v) # (WriteSlot (rm_config m), g) # (ReadSlot, a) # h) (value_of v)))))))"
  by (auto simp: rm_forward_def rm_get_backend_def split: option.splits sum.splits)

lemma session_events: "(q, a) \<in> set (session p es) \<longleftrightarrow> Act p q a \<in> set es"
proof (induction es)
  case (Cons e es)
  then show ?case by (cases e) auto
qed simp

lemma served_events: "(p, op, v) \<in> set (served es) \<longleftrightarrow> (\<exists>h a. Act p (Forward h op) a \<in> set es \<and> v = value_of a)"
proof (induction es)
  case (Cons e es)
  have "(p, op, v) \<in> set (served [e]) \<longleftrightarrow> (\<exists>h a. e = Act p (Forward h op) a \<and> v = value_of a)"
    by (cases e rule: event.exhaust) (auto simp: served_def map_filter_simps split: mgr_call.splits)
  then show ?case using Cons by (subst served_Cons) auto
qed simp

text \<open>The configuration a backend was built from, and a slot that holds at most one such backend.\<close>

primrec built_from :: "registry_backend \<Rightarrow> BackendConfig" where
  "built_from (RedisBackend url) = CfgRedis url"
| "built_from (KubernetesBackend ns) = CfgKubernetes ns"
| "built_from (MemoryBackend s) = CfgMemory"

definition one_backend :: "BackendConfig \<Rightarrow> mgr_world \<Rightarrow> bool" where
  "one_backend config w = (case mw_slot w of
      None \<Rightarrow> mw_built w = []
    | Some h \<Rightarrow> h = 0 \<and> map built_from (mw_built w) = [config])"

definition routed :: "mgr_call \<Rightarrow> mgr_reply \<Rightarrow> bool" where
  "routed q a = (case q of ReadSlot \<Rightarrow> slot_of a = None \<or> slot_of a = Some 0
     | WriteSlot c \<Rightarrow> a = RHandle (Inr 0) \<or> (\<exists>e. a = RHandle (Inl e))
     | Forward h op \<Rightarrow> h = 0)"

lemma create_built_from: "create_registry_backend dial config = Inr b \<Longrightarrow> built_from b = config"
  by (cases config) (auto simp: sum_bind_def split: sum.splits)

lemma one_backend_step:
  assumes "mgr_step add r q w a w'" and "asks config q" and "one_backend config w"
  shows "one_backend config w' \<and> routed q a"
  using assms(1)
proof (cases rule: mgr_step.cases)
  case (locked dial c h)
  then show ?thesis using assms(2,3)
    by (auto simp: asks_def one_backend_def routed_def dest: create_built_from split: option.splits sum.splits)
next
  case (memory h s now op v s')
  then have "h = 0" "mw_slot w = Some 0" "map built_from (mw_built w) = [config]"
    using assms(3) by (auto simp: one_backend_def split: option.splits)
  then show ?thesis using memory by (auto simp: one_backend_def routed_def map_update)
qed (use assms(3) in \<open>auto simp: one_backend_def routed_def split: option.splits\<close>)

lemma one_backend_run:
  assumes "run (mgr_step add) env w es w'" and "\<And>p q a. Act p q a \<in> set es \<Longrightarrow> asks config q"
    and "one_backend config w" and "\<And>e w. env e w = w"
  shows "one_backend config w' \<and> (\<forall>p q a. Act p q a \<in> set es \<longrightarrow> routed q a)"
  using assms(1-3)
proof (induction rule: run.induct)
  case (run_Act p q w a w' es w'')
  then have "one_backend config w' \<and> routed q a" using one_backend_step by (metis list.set_intros(1))
  then show ?case using run_Act by auto
qed (auto simp: assms(4))

lemma method_asks:
  assumes "\<And>p. started (rm_method (rm_with_config config) (ops p)) (session p es)" and "Act p q a \<in> set es"
  shows "asks config q"
proof -
  obtain tr1 tr2 where tr: "session p es = tr1 @ (q, a) # tr2"
    using assms(2) split_list [of "(q, a)" "session p es"] session_events [of q a p es] by blast
  have "pwp (\<lambda>_ _. True) (\<lambda>_. asks config) (\<lambda>_ _. True) (rm_method (rm_with_config config) (ops p)) []"
    by (auto simp: rm_method_forward pwp_forward asks_def rm_with_config_def split: option.splits sum.splits)
  then show ?thesis
    using pwp_started [of "\<lambda>_ _. True" "\<lambda>_. asks config"] assms(1) [of p] by (simp add: tr)
qed

text \<open>How a call of a method ends: with the reply of its operation, or with the failure to build.\<close>

lemma method_result:
  assumes "follows (rm_method (rm_with_config config) op) (session p es) = Some r"
    and "\<And>q a. Act p q a \<in> set es \<Longrightarrow> routed q a"
  shows "(\<exists>a. Act p (Forward 0 op) a \<in> set es \<and> r = value_of a)
    \<or> (\<exists>e. r = Inl e \<and> Act p (WriteSlot (Some config)) (RHandle (Inl e)) \<in> set es)"
proof -
  have "pwp routed (\<lambda>_ _. True) (\<lambda>h r. (\<exists>a. (Forward 0 op, a) \<in> set h \<and> r = value_of a)
      \<or> (\<exists>e. r = Inl e \<and> (WriteSlot (Some config), RHandle (Inl e)) \<in> set h)) (rm_method (rm_with_config config) op) []"
    by (auto simp: rm_method_forward pwp_forward routed_def rm_with_config_def split: option.splits sum.splits)
  from pwp_follows [OF this assms(1)] assms(2) show ?thesis
    by (fastforce simp: session_events [symmetric])
qed

text \<open>
  C17. Any number of tasks call the methods of one registry manager, whatever backend it is configured
  for, and their steps interleave in any way: several may find the slot empty at once, and building
  the backend may fail any number of times. Then at most one backend is ever built, of the
  configured kind; every operation is forwarded to that one; and a call that returned gives the
  answer that backend gave to its operation, or the error of its own failed attempt to build it.
  With the in-memory backend, whose answers are modelled, all answers together are one
  one-after-another execution of one store that started empty, and every call that returned succeeded.
\<close>

theorem managed_registry_is_one_store:
  assumes "run (mgr_step add) (\<lambda>(_::unit) w. w) mgr_start es w"
    and "\<And>p. started (rm_method (rm_with_config config) (ops p)) (session p es)"
  shows "(mw_built w = [] \<or> map built_from (mw_built w) = [config])
    \<and> (\<forall>p h op a. Act p (Forward h op) a \<in> set es \<longrightarrow> h = 0)
    \<and> (\<forall>p r. follows (rm_method (rm_with_config config) (ops p)) (session p es) = Some r \<longrightarrow>
        (\<exists>a. Act p (Forward 0 (ops p)) a \<in> set es \<and> r = value_of a)
        \<or> (\<exists>e. r = Inl e \<and> Act p (WriteSlot (Some config)) (RHandle (Inl e)) \<in> set es))
    \<and> (config = CfgMemory \<longrightarrow> (\<exists>s. mem_serial add (served es) s)
        \<and> (\<forall>p r. follows (rm_method (rm_with_config config) (ops p)) (session p es) = Some r \<longrightarrow>
             (\<exists>v. r = Inr v \<and> (p, ops p, Inr v) \<in> set (served es))))"
proof -
  note asks = method_asks [OF assms(2)]
  have one: "one_backend config w" and rt: "\<And>p q a. Act p q a \<in> set es \<Longrightarrow> routed q a"
    using one_backend_run [OF assms(1) asks] by (auto simp: one_backend_def mgr_start_def)
  have built: "mw_built w = [] \<or> map built_from (mw_built w) = [config]"
    using one by (auto simp: one_backend_def split: option.splits)
  have zero: "h = 0" if "Act p (Forward h op) a \<in> set es" for p h op a
    using rt [OF that] by (simp add: routed_def)
  have result: "(\<exists>a. Act p (Forward 0 (ops p)) a \<in> set es \<and> r = value_of a)
      \<or> (\<exists>e. r = Inl e \<and> Act p (WriteSlot (Some config)) (RHandle (Inl e)) \<in> set es)"
    if "follows (rm_method (rm_with_config config) (ops p)) (session p es) = Some r" for p r
    by (rule method_result [OF that]) (rule rt)
  have memory: "(\<exists>s. mem_serial add (served es) s)
      \<and> (\<forall>p r. follows (rm_method (rm_with_config config) (ops p)) (session p es) = Some r \<longrightarrow>
           (\<exists>v. r = Inr v \<and> (p, ops p, Inr v) \<in> set (served es)))" if c: "config = CfgMemory"
  proof -
    have st: "one_store add (served es) w" and ans: "\<And>p q a. Act p q a \<in> set es \<Longrightarrow> answered q a"
      using one_store_run [OF assms(1) asks [unfolded c], where tr = "[]"] by (auto simp: one_store_def mgr_start_def)
    have "\<exists>v. r = Inr v \<and> (p, ops p, Inr v) \<in> set (served es)"
      if f: "follows (rm_method (rm_with_config config) (ops p)) (session p es) = Some r" for p r
      using result [OF f]
    proof (elim disjE exE conjE)
      fix a
      assume a: "Act p (Forward 0 (ops p)) a \<in> set es" "r = value_of a"
      then obtain v where "a = RValue (Inr v)" using ans [OF a(1)] by (auto simp: answered_def)
      with a show ?thesis unfolding served_events by (metis value_of.simps(3))
    next
      fix e
      assume "Act p (WriteSlot (Some config)) (RHandle (Inl e)) \<in> set es"
      from ans [OF this] show ?thesis by (simp add: answered_def)
    qed
    then show ?thesis using st serial_Nil by (auto simp: one_store_def split: option.splits)
  qed
  show ?thesis using built zero result memory by blast
qed

text \<open>Two tasks find the slot empty, both take the write lock, and only one of them claims the download.\<close>

definition race_op :: "nat \<times> nat \<Rightarrow> registry_op" where
  "race_op p = OpTryClaim ''m'' HuggingFace (if p = (0, 0) then ''a'' else ''b'') 30"

definition race_won :: InMemoryState where
  "race_won = snd (mem_serve (\<lambda>t d. Some (t + int d)) 1000 (race_op (0, 0)) mem_new)"

definition race_events :: "(mgr_call, mgr_reply, unit) event list" where
  "race_events = [Act (0, 0) ReadSlot (RSlot None), Act (0, 1) ReadSlot (RSlot None),
     Act (0, 0) (WriteSlot (Some CfgMemory)) (RHandle (Inr 0)), Act (0, 1) (WriteSlot (Some CfgMemory)) (RHandle (Inr 0)),
     Act (0, 0) (Forward 0 (race_op (0, 0))) (RValue (Inr (VClaim Claimed))),
     Act (0, 1) (Forward 0 (race_op (0, 1))) (RValue (Inr (VClaim (AlreadyExists DOWNLOADING))))]"

lemma race_runs: "run (mgr_step (\<lambda>t d. Some (t + int d))) (\<lambda>(_::unit) w. w) mgr_start race_events
   \<lparr>mw_slot = Some 0, mw_built = [MemoryBackend race_won]\<rparr>"
proof -
  let ?add = "\<lambda>t d. Some (t + int d)"
  have a: "mem_serve ?add 1000 (race_op (0, 0)) mem_new = (VClaim Claimed, race_won)"
    by (simp add: race_won_def race_op_def mem_op_defs mem_new_def hm_simps lease_deadline_def)
  have b: "mem_serve ?add 1001 (race_op (0, 1)) race_won = (VClaim (AlreadyExists DOWNLOADING), race_won)"
    by (simp add: race_won_def race_op_def mem_op_defs mem_new_def hm_simps lease_deadline_def)
  have l: "mgr_step ?add r (WriteSlot (Some CfgMemory)) w (RHandle h) w'"
    if "under_write_lock (\<lambda>_. Inr ()) (Some CfgMemory) w = (h, w')" for r w h w'
    by (rule mgr_step.locked) (rule that)
  have r: "mgr_step ?add r ReadSlot w (RSlot s) w" if "mw_slot w = s" for r w s
    using that mgr_step.read [of ?add r w] by simp
  have f: "mgr_step ?add r (Forward 0 op) \<lparr>mw_slot = Some 0, mw_built = [MemoryBackend s]\<rparr> (RValue (Inr v))
      \<lparr>mw_slot = Some 0, mw_built = [MemoryBackend s']\<rparr>" if "mem_serve ?add now op s = (v, s')" for r op s v s' now
    using mgr_step.memory [where h = 0 and w = "\<lparr>mw_slot = Some 0, mw_built = [MemoryBackend s]\<rparr>", OF _ _ that, of r] by simp
  show ?thesis unfolding race_events_def run_Act_iff run_Nil_iff fst_conv
    by (intro exI conjI) (rule r l f [OF a] f [OF b] refl | simp add: mgr_start_def)+
qed

theorem managed_registry_is_one_store_witness:
  "map built_from [MemoryBackend race_won] = [CfgMemory] \<and> (\<exists>s. mem_serial (\<lambda>t d. Some (t + int d)) (served race_events) s)
   \<and> (\<exists>v. Inr (VClaim Claimed) = Inr v \<and> ((0, 0), race_op (0, 0), Inr v) \<in> set (served race_events))"
proof -
  have s: "started (rm_method (rm_with_config CfgMemory) (race_op p)) (session p race_events)" for p
    by (auto simp: race_events_def rm_method_forward rm_forward_def ptry_def rm_get_backend_def rm_with_config_def)
  have "follows (rm_method (rm_with_config CfgMemory) (race_op (0, 0))) (session (0, 0) race_events) = Some (Inr (VClaim Claimed))"
    by (simp add: race_events_def rm_method_forward rm_forward_def ptry_def rm_get_backend_def rm_with_config_def)
  note won = this
  note all = managed_registry_is_one_store [OF race_runs s]
  from all have "\<exists>s. mem_serial (\<lambda>t d. Some (t + int d)) (served race_events) s" by blast
  moreover from all won have "\<exists>v. Inr (VClaim Claimed) = Inr v \<and> ((0, 0), race_op (0, 0), Inr v) \<in> set (served race_events)"
    by blast
  moreover from all have "map built_from [MemoryBackend race_won] = [CfgMemory]" by simp
  ultimately show ?thesis by blast
qed

subsection \<open>The statistics pass\<close>

text \<open>The gauges the pass writes; a status or map that was never written has no value.\<close>

record CacheGauges =
  cg_registry_entries :: "ModelStatus \<rightharpoonup> int"
  cg_state_entries :: "string \<rightharpoonup> int"
  cg_task_last_success :: "string \<rightharpoonup> int"

definition set_registry_entries :: "int \<Rightarrow> int \<Rightarrow> int \<Rightarrow> CacheGauges \<Rightarrow> CacheGauges" where
  "set_registry_entries downloading downloaded errored g = g\<lparr>cg_registry_entries :=
     fold (\<lambda>(st, n) m. m(st \<mapsto> n)) [(DOWNLOADING, downloading), (DOWNLOADED, downloaded), (ERROR, errored)]
       (cg_registry_entries g)\<rparr>"

definition set_state_entries :: "string \<Rightarrow> int \<Rightarrow> CacheGauges \<Rightarrow> CacheGauges" where
  "set_state_entries m n g = g\<lparr>cg_state_entries := (cg_state_entries g)(m \<mapsto> n)\<rparr>"

definition stamp_task_success :: "string \<Rightarrow> int \<Rightarrow> CacheGauges \<Rightarrow> CacheGauges" where
  "stamp_task_success task t g = g\<lparr>cg_task_last_success := (cg_task_last_success g)(task \<mapsto> t)\<rparr>"

definition TASK_NAME :: string where "TASK_NAME = ''registry_stats_refresh''"

definition refresh_once :: "RegistryManager \<Rightarrow> nat \<Rightarrow> int \<Rightarrow> CacheGauges \<Rightarrow> CacheGauges mgr_prog" where
  "refresh_once m waiters now g =
     (let g = set_state_entries ''download_waiters'' (min (int waiters) (2 ^ 63 - 1)) g in
      pbind (rm_get_status_counts m) (\<lambda>r. Return (case r of
          Inr (VCounts (downloading, downloaded, errored)) \<Rightarrow>
            stamp_task_success TASK_NAME now
              (set_registry_entries (uint downloading) (uint downloaded) (uint errored) g)
        | _ \<Rightarrow> g)))"

text \<open>
  A pass that could not read the counts leaves the registry gauges and the heartbeat as they were; the
  waiter gauge is written either way.
\<close>

lemma failed_refresh_keeps_gauges:
  "pwp (\<lambda>q a. \<forall>h op. q = Forward h op \<longrightarrow> (\<exists>e. a = RValue (Inl e))) (\<lambda>_ _. True)
     (\<lambda>_ g'. g' = set_state_entries ''download_waiters'' (min (int waiters) (2 ^ 63 - 1)) g)
     (refresh_once m waiters now g) []"
  by (auto simp: refresh_once_def rm_get_status_counts_def Let_def pwp_forward split: option.splits sum.splits)

end
