(* ===== verification/Local_Fs.thy ===== *)
theory Local_Fs
  imports Provider_Names "HOL-Library.Sublist"
begin

text \<open>
  A file system with symbolic links, as far as the client's file installation uses it: resolving a
  path, \<^verbatim>\<open>exists\<close>, \<^verbatim>\<open>canonicalize\<close>, \<^verbatim>\<open>create_dir_all\<close>, \<^verbatim>\<open>symlink_metadata\<close>, \<^verbatim>\<open>remove_file\<close>
  and creating a file with \<^verbatim>\<open>create_new\<close>.

  A node is found under its address, the list of names from the root, in which no link remains.
  A path is a list of components that may contain \<^verbatim>\<open>..\<close> and names of links. Resolving follows
  at most forty links, as Linux does. Every operation may also fail for reasons outside the model;
  \<open>io\<close> says which do. Nobody else changes the tree meanwhile.
\<close>

datatype node = NDir | NFile string | NLink bool "string list" | NOther

type_synonym addr = "string list"
type_synonym fs = "addr \<rightharpoonup> node"

datatype fs_error = FsMissing | FsRefused

datatype fs_op = OpMkDir "string list" | OpCanonicalize "string list" | OpStat "string list"
  | OpRemove "string list" | OpCreate "string list" | OpWrite addr nat | OpSync addr

subsection \<open>Resolving\<close>

function walk :: "fs \<Rightarrow> nat \<Rightarrow> addr \<Rightarrow> string list \<Rightarrow> fs_error + addr" where
  "walk fs n cur [] = Inr cur"
| "walk fs n cur (c # cs) =
     (if c = ''..'' then walk fs n (butlast cur) cs
      else case fs (cur @ [c]) of
          None \<Rightarrow> Inl FsMissing
        | Some NDir \<Rightarrow> walk fs n (cur @ [c]) cs
        | Some (NLink absolute target) \<Rightarrow>
            (case n of 0 \<Rightarrow> Inl FsRefused | Suc m \<Rightarrow> walk fs m (if absolute then [] else cur) (target @ cs))
        | Some _ \<Rightarrow> if cs = [] then Inr (cur @ [c]) else Inl FsRefused)"
  by pat_completeness auto
termination
  by (relation "inv_image (less_than <*lex*> less_than) (\<lambda>(_, n, _, cs). (n, length cs))") auto

definition LINK_LIMIT :: nat where "LINK_LIMIT = 40"

definition resolve_path :: "fs \<Rightarrow> string list \<Rightarrow> fs_error + addr" where
  "resolve_path fs p = walk fs LINK_LIMIT [] p"

definition dir_at :: "fs \<Rightarrow> addr \<Rightarrow> bool" where
  "dir_at fs a = (a = [] \<or> fs a = Some NDir)"

definition path_exists :: "fs \<Rightarrow> string list \<Rightarrow> bool" where
  "path_exists fs p = (case resolve_path fs p of Inr _ \<Rightarrow> True | Inl _ \<Rightarrow> False)"

definition path_is_dir :: "fs \<Rightarrow> string list \<Rightarrow> bool" where
  "path_is_dir fs p = (case resolve_path fs p of Inr a \<Rightarrow> dir_at fs a | Inl _ \<Rightarrow> False)"

definition canonicalize :: "(fs_op \<Rightarrow> bool) \<Rightarrow> string list \<Rightarrow> fs \<Rightarrow> fs_error + addr" where
  "canonicalize io p fs = (if io (OpCanonicalize p) then resolve_path fs p else Inl FsRefused)"

text \<open>The address of the entry a path names, its last component not followed.\<close>

definition entry_place :: "fs \<Rightarrow> string list \<Rightarrow> fs_error + addr" where
  "entry_place fs p =
     (if p = [] then Inl FsRefused
      else case resolve_path fs (butlast p) of
          Inl e \<Rightarrow> Inl e
        | Inr d \<Rightarrow> if dir_at fs d \<and> last p \<noteq> ''..'' then Inr (d @ [last p]) else Inl FsRefused)"

subsection \<open>Operations\<close>

definition make_dir :: "(fs_op \<Rightarrow> bool) \<Rightarrow> string list \<Rightarrow> fs \<Rightarrow> fs_error + fs" where
  "make_dir io p fs = (case entry_place fs p of
      Inl e \<Rightarrow> Inl e
    | Inr a \<Rightarrow> if \<not> io (OpMkDir p) \<or> fs a \<noteq> None then Inl FsRefused else Inr (fs(a \<mapsto> NDir)))"

function create_dir_all :: "(fs_op \<Rightarrow> bool) \<Rightarrow> string list \<Rightarrow> fs \<Rightarrow> bool \<times> fs" where
  "create_dir_all io p fs =
     (if p = [] then (True, fs)
      else case make_dir io p fs of
          Inr fs' \<Rightarrow> (True, fs')
        | Inl FsRefused \<Rightarrow> (path_is_dir fs p, fs)
        | Inl FsMissing \<Rightarrow> (case create_dir_all io (butlast p) fs of
              (False, fs') \<Rightarrow> (False, fs')
            | (True, fs') \<Rightarrow> (case make_dir io p fs' of
                  Inr fs'' \<Rightarrow> (True, fs'')
                | Inl _ \<Rightarrow> (path_is_dir fs' p, fs'))))"
  by pat_completeness auto
termination
  by (relation "measure (\<lambda>(_, p, _). length p)") auto

declare create_dir_all.simps [simp del]

text \<open>\<^verbatim>\<open>symlink_metadata\<close>: the node itself, a link not followed.\<close>

definition link_metadata :: "(fs_op \<Rightarrow> bool) \<Rightarrow> string list \<Rightarrow> fs \<Rightarrow> fs_error + node" where
  "link_metadata io p fs = (if \<not> io (OpStat p) then Inl FsRefused
     else case entry_place fs p of
        Inl e \<Rightarrow> Inl e
      | Inr a \<Rightarrow> (case fs a of Some x \<Rightarrow> Inr x | None \<Rightarrow> Inl FsMissing))"

definition fs_remove_file :: "(fs_op \<Rightarrow> bool) \<Rightarrow> string list \<Rightarrow> fs \<Rightarrow> fs_error + fs" where
  "fs_remove_file io p fs = (if \<not> io (OpRemove p) then Inl FsRefused
     else case entry_place fs p of
        Inl e \<Rightarrow> Inl e
      | Inr a \<Rightarrow> (case fs a of
            None \<Rightarrow> Inl FsMissing
          | Some NDir \<Rightarrow> Inl FsRefused
          | Some _ \<Rightarrow> Inr (fs(a := None))))"

text \<open>An open file is its address.\<close>

definition create_new :: "(fs_op \<Rightarrow> bool) \<Rightarrow> string list \<Rightarrow> fs \<Rightarrow> fs_error + addr \<times> fs" where
  "create_new io p fs = (if \<not> io (OpCreate p) then Inl FsRefused
     else case entry_place fs p of
        Inl e \<Rightarrow> Inl e
      | Inr a \<Rightarrow> if fs a \<noteq> None then Inl FsRefused else Inr (a, fs(a \<mapsto> NFile [])))"

definition append_data :: "addr \<Rightarrow> string \<Rightarrow> fs \<Rightarrow> fs" where
  "append_data a d fs = (case fs a of Some (NFile old) \<Rightarrow> fs(a \<mapsto> NFile (old @ d)) | _ \<Rightarrow> fs)"

subsection \<open>What the operations change\<close>

text \<open>Directories may appear where nothing was; everything else outside \<open>A\<close> stays.\<close>

definition changes_within :: "addr set \<Rightarrow> fs \<Rightarrow> fs \<Rightarrow> bool" where
  "changes_within A fs fs' = (\<forall>x. fs' x = fs x \<or> x \<in> A \<or> (fs x = None \<and> fs' x = Some NDir))"

lemma changes_refl [simp, intro]: "changes_within A fs fs"
  by (simp add: changes_within_def)

lemma changes_trans: "changes_within A fs fs' \<Longrightarrow> changes_within A fs' fs'' \<Longrightarrow> changes_within A fs fs''"
  unfolding changes_within_def by (metis option.distinct(1))

lemma changes_mono: "changes_within A fs fs' \<Longrightarrow> A \<subseteq> B \<Longrightarrow> changes_within B fs fs'"
  unfolding changes_within_def by blast

lemma make_dir_changes: "make_dir io p fs = Inr fs' \<Longrightarrow> changes_within {} fs fs'"
  by (auto simp: make_dir_def changes_within_def split: sum.splits if_splits)

lemma create_dir_all_changes: "create_dir_all io p fs = (ok, fs') \<Longrightarrow> changes_within {} fs fs'"
proof (induction io p fs arbitrary: ok fs' rule: create_dir_all.induct)
  case (1 io p fs)
  show ?case
  proof (cases "make_dir io p fs")
    case (Inr x)
    then show ?thesis using 1(2) make_dir_changes [OF Inr]
      by (auto simp: create_dir_all.simps [of io p fs] split: if_splits)
  next
    case (Inl e)
    show ?thesis
    proof (cases "p = [] \<or> e = FsRefused")
      case True
      then show ?thesis using 1(2) Inl by (auto simp: create_dir_all.simps [of io p fs] split: if_splits)
    next
      case False
      then have e: "e = FsMissing" "p \<noteq> []" by (cases e; simp)+
      obtain b f where r: "create_dir_all io (butlast p) fs = (b, f)" by fastforce
      have f: "changes_within {} fs f" using 1(1) [OF e(2) Inl e(1) r] .
      have "fs' = f \<or> make_dir io p f = Inr fs'"
        using 1(2) Inl e r by (auto simp: create_dir_all.simps [of io p fs] split: if_splits sum.splits bool.splits)
      then show ?thesis using f make_dir_changes changes_trans by blast
    qed
  qed
qed

text \<open>What was found stays found when nothing is lost on the way.\<close>

lemma walk_grows:
  assumes "walk fs n cur p = Inr a" and "\<And>x y. fs x = Some y \<Longrightarrow> fs' x = Some y"
  shows "walk fs' n cur p = Inr a"
  using assms
proof (induction fs n cur p rule: walk.induct)
  case (2 fs n cur c cs)
  show ?case
  proof (cases "c = ''..''")
    case True
    then show ?thesis using 2 by simp
  next
    case False
    then obtain x where x: "fs (cur @ [c]) = Some x" using 2(4) by (auto split: option.splits)
    moreover have "fs' (cur @ [c]) = Some x" using 2(5) x .
    ultimately show ?thesis using 2 False by (cases x) (auto split: if_splits nat.splits)
  qed
qed simp

end
