(* ===== verification/Client_Stream.thy ===== *)
theory Client_Stream
  imports File_Stream Local_Fs Hf_Cache
begin

text \<open>
  Receiving a model's files from the server (\<^verbatim>\<open>modelexpress_client/src/lib.rs\<close>:
  \<^verbatim>\<open>is_safe_relative_path\<close>, \<^verbatim>\<open>prepare_stream_model_dir\<close>, \<^verbatim>\<open>create_stream_output_file\<close> and
  \<^verbatim>\<open>stream_model_files_from_server\<close>), with \<^verbatim>\<open>resolve_model_path\<close> of
  \<^verbatim>\<open>modelexpress_common/src/cache.rs\<close> and its providers.

  The chunks are those of \<^verbatim>\<open>File_Stream\<close>; a stream is the list of messages the call delivers, the last of
  which may be an error. Operations thread the file system and return an error of the class the
  source uses, its text left out; what an operation did before it failed stays done. Sizes are naturals with
  the additions of the source saturating at 64 bits.
\<close>

datatype client_error = EValidation | EIo | EServer | ETransport | EGeneric

type_synonym 'a fs_prog = "fs \<Rightarrow> (client_error + 'a) \<times> fs"

definition fs_return :: "'a \<Rightarrow> 'a fs_prog" where
  "fs_return x fs = (Inr x, fs)"

definition fs_fail :: "client_error \<Rightarrow> 'a fs_prog" where
  "fs_fail e fs = (Inl e, fs)"

definition fs_bind :: "'a fs_prog \<Rightarrow> ('a \<Rightarrow> 'b fs_prog) \<Rightarrow> 'b fs_prog" where
  "fs_bind m f fs = (case m fs of (Inl e, fs') \<Rightarrow> (Inl e, fs') | (Inr a, fs') \<Rightarrow> f a fs')"

definition fs_require :: "bool \<Rightarrow> client_error \<Rightarrow> unit fs_prog" where
  "fs_require b e fs = (if b then Inr () else Inl e, fs)"

text \<open>The names of a path, \<^verbatim>\<open>..\<close> included; the current directory is the root.\<close>

definition path_names :: "string \<Rightarrow> string list" where
  "path_names p = map (\<lambda>(k, c). if k = 2 then ''..'' else c) (filter (\<lambda>(k, c). k = 2 \<or> k = 3) (path_components p))"

subsection \<open>Where a model is kept\<close>

text \<open>\<open>latest\<close> is the newest local snapshot of a Hugging Face model, asked for without a revision only.\<close>

definition resolve_model_path ::
  "fs \<Rightarrow> (string \<Rightarrow> string + string) \<Rightarrow> string \<Rightarrow> ModelProvider \<Rightarrow> string \<Rightarrow> string option \<Rightarrow> string + string" where
  "resolve_model_path fs latest cache_root provider model_name revision = (case provider of
      HuggingFace \<Rightarrow> (case revision of
          Some r \<Rightarrow> sum_bind (validate_revision r) (\<lambda>_. Inr (path_join (snapshots_dir cache_root model_name) r))
        | None \<Rightarrow> latest model_name)
    | Ngc \<Rightarrow> sum_bind (ngc_parse_model_name model_name) (\<lambda>i.
        let path = ngc_model_dir cache_root i in
        if path_exists fs (path_names path) then Inr path else Inl ''NGC model not found in cache'')
    | Gcs \<Rightarrow> sum_bind (gcs_parse model_name) (\<lambda>m. Inr (gcs_model_dir cache_root m))
    | S3 \<Rightarrow> sum_bind (s3_parse model_name) (\<lambda>m. Inr (s3_model_dir cache_root m)))"

definition is_safe_relative_path :: "string \<Rightarrow> bool" where
  "is_safe_relative_path p =
     (list_ex (\<lambda>(k, c). k = 3) (path_components p) \<and> \<not> list_ex (\<lambda>(k, c). k = 2 \<or> k = 0) (path_components p))"

definition fs_canonicalize :: "(fs_op \<Rightarrow> bool) \<Rightarrow> string list \<Rightarrow> addr fs_prog" where
  "fs_canonicalize io p fs = (case canonicalize io p fs of Inr a \<Rightarrow> Inr a | Inl _ \<Rightarrow> Inl EIo, fs)"

definition fs_create_dir_all :: "(fs_op \<Rightarrow> bool) \<Rightarrow> string list \<Rightarrow> unit fs_prog" where
  "fs_create_dir_all io p fs = (case create_dir_all io p fs of (ok, fs') \<Rightarrow> (if ok then Inr () else Inl EIo, fs'))"

definition prepare_stream_model_dir ::
  "(fs_op \<Rightarrow> bool) \<Rightarrow> (string \<Rightarrow> string + string) \<Rightarrow> string \<Rightarrow> ModelProvider \<Rightarrow> string \<Rightarrow> string option
   \<Rightarrow> (string list \<times> addr) fs_prog" where
  "prepare_stream_model_dir io latest local_cache_path provider model_name commit_hash =
     fs_bind (fs_require (\<not> (provider = HuggingFace \<and> commit_hash = None)) EValidation) (\<lambda>_.
     fs_bind (fs_require (case commit_hash of Some h \<Rightarrow> validate_revision h = Inr () | None \<Rightarrow> True) EValidation) (\<lambda>_.
     fs_bind (\<lambda>fs. (case resolve_model_path fs latest local_cache_path provider model_name commit_hash of
         Inr d \<Rightarrow> Inr (path_names d) | Inl _ \<Rightarrow> Inl EIo, fs)) (\<lambda>model_dir.
     fs_bind (fs_create_dir_all io model_dir) (\<lambda>_.
     fs_bind (fs_canonicalize io (path_names local_cache_path)) (\<lambda>canonical_cache_dir.
     fs_bind (fs_canonicalize io model_dir) (\<lambda>canonical_model_dir.
     fs_bind (fs_require (prefix canonical_cache_dir canonical_model_dir) EValidation) (\<lambda>_.
     fs_return (model_dir, canonical_model_dir))))))))"

definition create_stream_output_file :: "(fs_op \<Rightarrow> bool) \<Rightarrow> string list \<Rightarrow> addr fs_prog" where
  "create_stream_output_file io file_path =
     fs_bind (\<lambda>fs. case link_metadata io file_path fs of
         Inr NDir \<Rightarrow> (Inl EValidation, fs)
       | Inr NOther \<Rightarrow> (Inl EValidation, fs)
       | Inr _ \<Rightarrow> (case fs_remove_file io file_path fs of Inr fs' \<Rightarrow> (Inr (), fs') | Inl _ \<Rightarrow> (Inl EIo, fs))
       | Inl FsMissing \<Rightarrow> (Inr (), fs)
       | Inl FsRefused \<Rightarrow> (Inl EIo, fs)) (\<lambda>_.
     (\<lambda>fs. case create_new io file_path fs of Inr (a, fs') \<Rightarrow> (Inr a, fs') | Inl _ \<Rightarrow> (Inl EIo, fs)))"

subsection \<open>Receiving\<close>

record StreamedFileState =
  sf_path :: "string list"
  sf_file :: addr
  sf_expected_size :: nat
  sf_bytes_written :: nat
  sf_saw_last_chunk :: bool

record StreamState =
  ss_model_dir :: "(string list \<times> addr) option"
  ss_current_file :: "StreamedFileState option"
  ss_files_received :: nat
  ss_bytes_received :: nat
  ss_saw_chunk :: bool
  ss_saw_final_chunk :: bool

definition stream_start :: StreamState where
  "stream_start = \<lparr>ss_model_dir = None, ss_current_file = None, ss_files_received = 0, ss_bytes_received = 0,
     ss_saw_chunk = False, ss_saw_final_chunk = False\<rparr>"

definition sync_streamed_file :: "(fs_op \<Rightarrow> bool) \<Rightarrow> StreamedFileState \<Rightarrow> unit fs_prog" where
  "sync_streamed_file io f = fs_require (io (OpSync (sf_file f))) EIo"

definition file_complete :: "StreamedFileState \<Rightarrow> bool" where
  "file_complete f = (sf_saw_last_chunk f \<and> sf_bytes_written f = sf_expected_size f)"

text \<open>The parent of the file is created, then compared with the model directory.\<close>

definition check_parent :: "(fs_op \<Rightarrow> bool) \<Rightarrow> addr \<Rightarrow> string list \<Rightarrow> unit fs_prog" where
  "check_parent io canonical_model_dir file_path =
     (let parent = butlast file_path in
      fs_bind (\<lambda>fs. if path_exists fs parent then (Inr (), fs) else fs_create_dir_all io parent fs) (\<lambda>_.
      fs_bind (fs_canonicalize io parent) (\<lambda>canonical_parent.
      fs_require (prefix canonical_model_dir canonical_parent) EValidation)))"

text \<open>The file a chunk belongs to: the current one, or a new one once that is complete.\<close>

definition file_for_chunk :: "(fs_op \<Rightarrow> bool) \<Rightarrow> string list \<Rightarrow> FileChunk \<Rightarrow> StreamState \<Rightarrow> StreamState fs_prog" where
  "file_for_chunk io file_path c st =
     (if (case ss_current_file st of None \<Rightarrow> True | Some f \<Rightarrow> sf_path f \<noteq> file_path) then
        fs_bind (case ss_current_file st of
            None \<Rightarrow> fs_return ()
          | Some f \<Rightarrow> fs_bind (fs_require (file_complete f) EValidation) (\<lambda>_. sync_streamed_file io f)) (\<lambda>_.
        fs_bind (fs_require (fc_offset c = 0) EValidation) (\<lambda>_.
        fs_bind (create_stream_output_file io file_path) (\<lambda>a.
        fs_return (st\<lparr>ss_files_received := usize_saturating_add (ss_files_received st) 1,
          ss_current_file := Some \<lparr>sf_path = file_path, sf_file = a, sf_expected_size = fc_total_size c,
            sf_bytes_written = 0, sf_saw_last_chunk = False\<rparr>\<rparr>))))
      else fs_return st)"

definition write_chunk :: "(fs_op \<Rightarrow> bool) \<Rightarrow> FileChunk \<Rightarrow> StreamState \<Rightarrow> StreamState fs_prog" where
  "write_chunk io c st = (case ss_current_file st of
      None \<Rightarrow> fs_return st
    | Some f \<Rightarrow>
        let chunk_len = length (fc_data c);
            next_size = usize_saturating_add (sf_bytes_written f) chunk_len
        in fs_bind (fs_require (\<not> sf_saw_last_chunk f) EValidation) (\<lambda>_.
           fs_bind (fs_require (fc_total_size c = sf_expected_size f) EValidation) (\<lambda>_.
           fs_bind (fs_require (fc_offset c = sf_bytes_written f) EValidation) (\<lambda>_.
           fs_bind (fs_require (next_size \<le> sf_expected_size f) EValidation) (\<lambda>_.
           fs_bind (fs_require (io (OpWrite (sf_file f) (sf_bytes_written f))) EIo) (\<lambda>_.
           fs_bind (\<lambda>fs. (Inr (), append_data (sf_file f) (fc_data c) fs)) (\<lambda>_.
           fs_bind (fs_require (if fc_is_last_chunk c then next_size = sf_expected_size f
                                else next_size \<noteq> sf_expected_size f) EValidation) (\<lambda>_.
           fs_return (st\<lparr>ss_current_file := Some (f\<lparr>sf_bytes_written := next_size,
               sf_saw_last_chunk := fc_is_last_chunk c\<rparr>),
             ss_bytes_received := usize_saturating_add (ss_bytes_received st) chunk_len\<rparr>)))))))))"

definition ensure_model_dir ::
  "(fs_op \<Rightarrow> bool) \<Rightarrow> (string \<Rightarrow> string + string) \<Rightarrow> string \<Rightarrow> ModelProvider \<Rightarrow> string \<Rightarrow> FileChunk \<Rightarrow> StreamState
   \<Rightarrow> (string list \<times> addr) fs_prog" where
  "ensure_model_dir io latest cache provider model_name c st = (case ss_model_dir st of
      Some d \<Rightarrow> fs_return d
    | None \<Rightarrow> prepare_stream_model_dir io latest cache provider model_name (fc_commit_hash c))"

definition on_chunk ::
  "(fs_op \<Rightarrow> bool) \<Rightarrow> (string \<Rightarrow> string + string) \<Rightarrow> string \<Rightarrow> ModelProvider \<Rightarrow> string \<Rightarrow> FileChunk \<Rightarrow> StreamState
   \<Rightarrow> StreamState fs_prog" where
  "on_chunk io latest cache provider model_name c st =
     fs_bind (fs_require (\<not> ss_saw_final_chunk st) EValidation) (\<lambda>_.
     fs_bind (ensure_model_dir io latest cache provider model_name c st) (\<lambda>(model_dir, canonical_model_dir).
     fs_bind (fs_require (is_safe_relative_path (fc_relative_path c)) EValidation) (\<lambda>_.
     let file_path = model_dir @ path_names (fc_relative_path c) in
     fs_bind (fs_require (fc_offset c \<le> fc_total_size c) EValidation) (\<lambda>_.
     fs_bind (check_parent io canonical_model_dir file_path) (\<lambda>_.
     fs_bind (file_for_chunk io file_path c
       (st\<lparr>ss_saw_chunk := True, ss_model_dir := Some (model_dir, canonical_model_dir)\<rparr>)) (\<lambda>st.
     fs_bind (write_chunk io c st) (\<lambda>st.
     fs_return (if fc_is_last_file c \<and> fc_is_last_chunk c then st\<lparr>ss_saw_final_chunk := True\<rparr> else st))))))))"

fun on_chunks ::
  "(fs_op \<Rightarrow> bool) \<Rightarrow> (string \<Rightarrow> string + string) \<Rightarrow> string \<Rightarrow> ModelProvider \<Rightarrow> string
   \<Rightarrow> (unit + FileChunk) list \<Rightarrow> StreamState \<Rightarrow> StreamState fs_prog" where
  "on_chunks io latest cache provider model_name [] st = fs_return st"
| "on_chunks io latest cache provider model_name (Inl _ # cs) st = fs_fail ETransport"
| "on_chunks io latest cache provider model_name (Inr c # cs) st =
     fs_bind (on_chunk io latest cache provider model_name c st)
       (on_chunks io latest cache provider model_name cs)"

text \<open>\<open>reply\<close> is what the server answers to the request: an error or a stream.\<close>

definition stream_model_files_from_server ::
  "(fs_op \<Rightarrow> bool) \<Rightarrow> (string \<Rightarrow> string + string) \<Rightarrow> string option \<Rightarrow> ModelProvider \<Rightarrow> string
   \<Rightarrow> unit + (unit + FileChunk) list \<Rightarrow> string list fs_prog" where
  "stream_model_files_from_server io latest cache_config provider model_name reply = (case cache_config of
      None \<Rightarrow> fs_fail EServer
    | Some cache \<Rightarrow>
        fs_bind (fs_create_dir_all io (path_names cache)) (\<lambda>_.
        case reply of
          Inl _ \<Rightarrow> fs_fail ETransport
        | Inr chunks \<Rightarrow>
            fs_bind (on_chunks io latest cache provider model_name chunks stream_start) (\<lambda>st.
            fs_bind (fs_require (ss_saw_chunk st) EServer) (\<lambda>_.
            fs_bind (fs_require (ss_saw_final_chunk st) EServer) (\<lambda>_.
            fs_bind (case ss_current_file st of
                None \<Rightarrow> fs_return ()
              | Some f \<Rightarrow> fs_bind (fs_require (file_complete f) EValidation) (\<lambda>_. sync_streamed_file io f)) (\<lambda>_.
            case ss_model_dir st of Some (d, _) \<Rightarrow> fs_return d | None \<Rightarrow> fs_fail EServer))))))"

end
