(* ===== verification/Client_Install.thy ===== *)
theory Client_Install
  imports Client_Stream
begin

text \<open>
  What the client's receiver does to the local disk. Whatever a server sends, files
  change below the canonical cache directory only, even when the cache contains symbolic links; and a
  stream produced by the server's task is installed completely, byte for byte. For an NGC model the receiver needs a
  directory that only an earlier download can have made.
\<close>

subsection \<open>Files stay in the cache\<close>

lemma fs_bind_cases:
  assumes "fs_bind m f fs = (r, fs')"
  obtains (Stop) e where "m fs = (Inl e, fs')" "r = Inl e"
  | (Next) a fs1 where "m fs = (Inr a, fs1)" "f a fs1 = (r, fs')"
  using assms by (auto simp: fs_bind_def split: prod.splits sum.splits)

lemma fs_require_eq: "fs_require b e fs = (r, fs') \<longleftrightarrow> fs' = fs \<and> r = (if b then Inr () else Inl e)"
  by (auto simp: fs_require_def)

lemma fs_canonicalize_eq: "fs_canonicalize io p fs = (r, fs') \<Longrightarrow> fs' = fs \<and> (\<forall>a. r = Inr a \<longrightarrow> resolve_path fs p = Inr a)"
  by (auto simp: fs_canonicalize_def canonicalize_def split: sum.splits if_splits)

lemma fs_create_dir_all_changes: "fs_create_dir_all io p fs = (r, fs') \<Longrightarrow> changes_within {} fs fs'"
  using create_dir_all_changes by (fastforce simp: fs_create_dir_all_def split: prod.splits)

lemma resolve_only_dirs: "changes_within {} fs fs' \<Longrightarrow> resolve_path fs p = Inr a \<Longrightarrow> resolve_path fs' p = Inr a"
  unfolding resolve_path_def by (erule walk_grows) (auto simp: changes_within_def, metis option.distinct(1))

lemma resolve_removed: "resolve_path (fs(b := None)) p = Inr a \<Longrightarrow> resolve_path fs p = Inr a"
  unfolding resolve_path_def by (erule walk_grows) (auto split: if_splits)

abbreviation tree_of :: "addr \<Rightarrow> addr set" where
  "tree_of a \<equiv> {x. prefix a x}"

lemma entry_place_Inr:
  assumes "entry_place fs p = Inr a" and "resolve_path fs (butlast p) = Inr d"
  shows "a = d @ [last p]"
  using assms by (auto simp: entry_place_def split: if_splits)

lemma entry_place_resolves: "entry_place fs p = Inr a \<Longrightarrow> \<exists>d. resolve_path fs (butlast p) = Inr d \<and> a = d @ [last p]"
  by (auto simp: entry_place_def split: if_splits sum.splits)

lemma fs_remove_file_at: "fs_remove_file io p fs = Inr fs' \<Longrightarrow> \<exists>a. entry_place fs p = Inr a \<and> fs' = fs(a := None)"
  by (auto simp: fs_remove_file_def split: if_splits sum.splits option.splits node.splits)

lemma create_new_at: "create_new io p fs = Inr (a, fs') \<Longrightarrow> entry_place fs p = Inr a \<and> fs' = fs(a \<mapsto> NFile [])"
  by (auto simp: create_new_def split: if_splits sum.splits)

lemma changes_upd: "a \<in> A \<Longrightarrow> changes_within A fs (fs(a := v))"
  by (simp add: changes_within_def)

lemma output_file_within:
  assumes "create_stream_output_file io p fs = (r, fs')" and "resolve_path fs (butlast p) = Inr d" and "prefix m d"
  shows "changes_within (tree_of m) fs fs' \<and> (\<forall>a. r = Inr a \<longrightarrow> prefix m a)"
  using assms(1) unfolding create_stream_output_file_def
proof (cases rule: fs_bind_cases)
  case (Stop e)
  then show ?thesis by (auto split: sum.splits node.splits fs_error.splits)
next
  case (Next u fs1)
  have 1: "fs1 = fs \<or> (\<exists>a. entry_place fs p = Inr a \<and> fs1 = fs(a := None))"
    using Next(1) fs_remove_file_at [of io p fs] by (auto split: sum.splits node.splits fs_error.splits)
  have in_tree: "prefix m (d @ [last p])" using assms(3) by simp
  have c1: "changes_within (tree_of m) fs fs1"
    using 1 entry_place_Inr [OF _ assms(2)] in_tree by (auto intro: changes_upd)
  have p1: "entry_place fs1 p = Inr a \<Longrightarrow> a = d @ [last p]" for a
    using 1 entry_place_resolves [of fs1 p a] resolve_removed [of fs _ "butlast p"] assms(2) by fastforce
  show ?thesis
  proof (cases "create_new io p fs1")
    case (Inl e)
    then show ?thesis using Next(2) c1 by auto
  next
    case (Inr x)
    then obtain a where x: "x = (a, fs')" "r = Inr a" using Next(2) by (cases x) auto
    then have "a = d @ [last p]" "fs' = fs1(a \<mapsto> NFile [])" using create_new_at [of io p fs1 a fs'] Inr p1 by auto
    then show ?thesis using c1 x(2) in_tree changes_trans [OF c1 changes_upd] by auto
  qed
qed

text \<open>The model directory and the open file are below the canonical cache directory.\<close>

definition stream_inv :: "addr \<Rightarrow> StreamState \<Rightarrow> bool" where
  "stream_inv root st = ((\<forall>d m. ss_model_dir st = Some (d, m) \<longrightarrow> prefix root m)
     \<and> (\<forall>f. ss_current_file st = Some f \<longrightarrow> prefix root (sf_file f)))"

lemma append_data_changes: "a \<in> A \<Longrightarrow> changes_within A fs (append_data a d fs)"
  by (auto simp: append_data_def intro: changes_upd split: option.splits node.splits)

lemma check_parent_within:
  assumes "check_parent io m p fs = (r, fs')"
  shows "changes_within {} fs fs' \<and> (r = Inr () \<longrightarrow> (\<exists>d. resolve_path fs' (butlast p) = Inr d \<and> prefix m d))"
proof -
  let ?mk = "\<lambda>fs. if path_exists fs (butlast p) then (Inr (), fs) else fs_create_dir_all io (butlast p) fs"
  have mk: "?mk fs = (x, fs1) \<Longrightarrow> changes_within {} fs fs1" for x fs1
    using fs_create_dir_all_changes by (auto split: if_splits)
  show ?thesis using assms unfolding check_parent_def Let_def
  proof (cases rule: fs_bind_cases)
    case (Stop e)
    then show ?thesis using mk by blast
  next
    case (Next u fs1)
    then show ?thesis using mk [OF Next(1)]
      by (elim fs_bind_cases) (auto dest!: fs_canonicalize_eq simp: fs_require_eq split: if_splits)
  qed
qed

lemma file_for_chunk_within:
  assumes "file_for_chunk io p c st fs = (r, fs')" and "stream_inv root st"
    and "resolve_path fs (butlast p) = Inr d" and "prefix root d"
  shows "changes_within (tree_of root) fs fs' \<and> (\<forall>st'. r = Inr st' \<longrightarrow> stream_inv root st')"
proof (cases "(case ss_current_file st of None \<Rightarrow> True | Some f \<Rightarrow> sf_path f \<noteq> p)")
  case False
  then show ?thesis using assms(1,2) by (auto simp: file_for_chunk_def fs_return_def)
next
  case True
  let ?close = "case ss_current_file st of None \<Rightarrow> fs_return ()
      | Some f \<Rightarrow> fs_bind (fs_require (file_complete f) EValidation) (\<lambda>_. sync_streamed_file io f)"
  have close: "?close fs = (x, fs1) \<Longrightarrow> fs1 = fs" for x fs1
    by (auto simp: fs_return_def sync_streamed_file_def fs_require_eq split: option.splits elim!: fs_bind_cases)
  show ?thesis
    using assms(1) True unfolding file_for_chunk_def if_P [OF True]
  proof (elim fs_bind_cases, goal_cases)
    case (4 u fs1 v fs2 a fs3)
    then have "fs2 = fs" using close by (auto simp: fs_require_eq split: if_splits)
    then show ?case using 4 assms(2) output_file_within [of io p fs "Inr a" fs3 d root] assms(3,4)
      by (auto simp: fs_return_def stream_inv_def)
  qed (use close output_file_within [of io p fs _ _ d root] assms(3,4) in \<open>auto simp: fs_require_eq split: if_splits\<close>)
qed

lemma write_chunk_within:
  assumes "write_chunk io c st fs = (r, fs')" and "stream_inv root st"
  shows "changes_within (tree_of root) fs fs' \<and> (\<forall>st'. r = Inr st' \<longrightarrow> stream_inv root st')"
proof (cases "ss_current_file st")
  case None
  then show ?thesis using assms by (auto simp: write_chunk_def fs_return_def)
next
  case (Some f)
  then have "prefix root (sf_file f)" using assms(2) by (simp add: stream_inv_def)
  then have a: "changes_within (tree_of root) fs (append_data (sf_file f) (fc_data c) fs)"
    by (intro append_data_changes) simp
  show ?thesis using assms(1) a assms(2) Some unfolding write_chunk_def Let_def
    by (auto simp: fs_return_def fs_require_eq stream_inv_def elim!: fs_bind_cases split: if_splits)
qed

lemma prepare_within:
  assumes "prepare_stream_model_dir io latest cache provider name commit fs = (r, fs')"
    and "resolve_path fs (path_names cache) = Inr root"
  shows "changes_within {} fs fs' \<and> (\<forall>d m. r = Inr (d, m) \<longrightarrow> prefix root m)"
proof -
  have root: "root' = root" if "fs_create_dir_all io p fs = (x, fs1)" "resolve_path fs1 (path_names cache) = Inr root'" for p x fs1 root'
    using resolve_only_dirs [OF fs_create_dir_all_changes [OF that(1)] assms(2)] that(2) by simp
  show ?thesis
    using assms(1) unfolding prepare_stream_model_dir_def
    by (auto simp: fs_require_eq fs_return_def elim!: fs_bind_cases split: if_splits
        dest!: fs_canonicalize_eq dest: fs_create_dir_all_changes root)
qed

lemma model_dir_kept:
  "file_for_chunk io p c st fs = (Inr st', fs') \<Longrightarrow> ss_model_dir st' = ss_model_dir st"
  "write_chunk io c st fs = (Inr st', fs') \<Longrightarrow> ss_model_dir st' = ss_model_dir st"
  by (auto simp: file_for_chunk_def write_chunk_def Let_def fs_return_def elim!: fs_bind_cases split: if_splits option.splits)

lemma on_chunk_within:
  assumes "on_chunk io latest cache provider name c st fs = (r, fs')" and "stream_inv root st"
    and "ss_model_dir st = None \<Longrightarrow> resolve_path fs (path_names cache) = Inr root"
  shows "changes_within (tree_of root) fs fs'
    \<and> (\<forall>st'. r = Inr st' \<longrightarrow> stream_inv root st' \<and> ss_model_dir st' \<noteq> None)"
proof -
  have dir: "changes_within {} fs fs1 \<and> (\<forall>d m. x = Inr (d, m) \<longrightarrow> prefix root m)"
    if "ensure_model_dir io latest cache provider name c st fs = (x, fs1)" for x fs1
    using that assms(2,3) prepare_within
    by (auto simp: ensure_model_dir_def fs_return_def stream_inv_def split: option.splits)
  have more: "changes_within {} a b \<Longrightarrow> changes_within (tree_of root) a b" for a b
    by (erule changes_mono) simp
  let ?rest = "\<lambda>p st. fs_bind (file_for_chunk io p c st) (\<lambda>st. fs_bind (write_chunk io c st) (\<lambda>st.
     fs_return (if fc_is_last_file c \<and> fc_is_last_chunk c then st\<lparr>ss_saw_final_chunk := True\<rparr> else st)))"
  have rest: "changes_within (tree_of root) fs2 fs' \<and> (\<forall>st'. r = Inr st' \<longrightarrow> stream_inv root st' \<and> ss_model_dir st' \<noteq> None)"
    if "?rest p st1 fs2 = (r, fs')" "stream_inv root st1" "ss_model_dir st1 \<noteq> None"
      "resolve_path fs2 (butlast p) = Inr d" "prefix root d" for p st1 fs2 d
    using that(1)
  proof (cases rule: fs_bind_cases)
    case (Stop e)
    then show ?thesis using file_for_chunk_within [OF _ that(2,4,5)] by blast
  next
    case (Next st2 fs3)
    note f = file_for_chunk_within [OF Next(1) that(2,4,5)] model_dir_kept(1) [OF Next(1)]
    show ?thesis using Next(2)
    proof (cases rule: fs_bind_cases)
      case (Stop e)
      then show ?thesis using f write_chunk_within [of io c st2 fs3 "Inl e" fs' root] changes_trans by blast
    next
      case w: (Next st3 fs4)
      then show ?thesis using f write_chunk_within [OF w(1), of root] model_dir_kept(2) [OF w(1)] that(3) changes_trans
        by (auto simp: fs_return_def stream_inv_def split: if_splits)
    qed
  qed
  have body: "changes_within (tree_of root) fs1 fs' \<and> (\<forall>st'. r = Inr st' \<longrightarrow> stream_inv root st' \<and> ss_model_dir st' \<noteq> None)"
    if "fs_bind (check_parent io m p) (\<lambda>_. ?rest p (st\<lparr>ss_saw_chunk := True, ss_model_dir := Some (d, m)\<rparr>)) fs1 = (r, fs')"
      "prefix root m" for fs1 p d m
    using that(1)
  proof (cases rule: fs_bind_cases)
    case (Stop e)
    then show ?thesis using check_parent_within more by blast
  next
    case (Next u fs2)
    then obtain d' where d': "resolve_path fs2 (butlast p) = Inr d'" "prefix m d'" "changes_within (tree_of root) fs1 fs2"
      using check_parent_within [OF Next(1)] more by auto
    have "stream_inv root (st\<lparr>ss_saw_chunk := True, ss_model_dir := Some (d, m)\<rparr>)"
      using assms(2) that(2) by (simp add: stream_inv_def)
    moreover have "prefix root d'" using that(2) d'(2) by (rule prefix_order.trans)
    ultimately have r: "changes_within (tree_of root) fs2 fs' \<and> (\<forall>st'. r = Inr st' \<longrightarrow> stream_inv root st' \<and> ss_model_dir st' \<noteq> None)"
      using rest [OF Next(2) _ _ d'(1)] by simp
    show ?thesis using r changes_trans [OF d'(3)] by blast
  qed
  show ?thesis
    using assms(1) unfolding on_chunk_def Let_def
  proof (elim fs_bind_cases, goal_cases)
    case (1 e) then show ?case by (simp add: fs_require_eq)
  next
    case (2 u fs1 e) then show ?case using dir more by (auto simp: fs_require_eq split: if_splits)
  next
    case (3 u fs1 x fs2)
    obtain d m where x: "x = (d, m)" by fastforce
    have fs: "fs1 = fs" using 3(1) by (simp add: fs_require_eq)
    note dm = dir [OF 3(2) [unfolded fs]]
    from 3(3) [unfolded x prod.case] show ?case
    proof (cases rule: fs_bind_cases)
      case Stop
      then show ?thesis using dm more by (auto simp: fs_require_eq split: if_splits)
    next
      case safe: (Next v fs3)
      from safe(2) show ?thesis
      proof (cases rule: fs_bind_cases)
        case Stop
        then show ?thesis using dm more safe(1) by (auto simp: fs_require_eq split: if_splits)
      next
        case off: (Next w fs4)
        have fs4: "fs4 = fs2" using off(1) safe(1) by (simp add: fs_require_eq split: if_splits)
        have "prefix root m" using dm x by simp
        then have b: "changes_within (tree_of root) fs2 fs' \<and> (\<forall>st'. r = Inr st' \<longrightarrow> stream_inv root st' \<and> ss_model_dir st' \<noteq> None)"
          using body [OF off(2)] unfolding fs4 by simp
        moreover have "changes_within (tree_of root) fs fs2" using dm more by simp
        ultimately show ?thesis using changes_trans by metis
      qed
    qed
  qed
qed

lemma on_chunks_within:
  assumes "on_chunks io latest cache provider name cs st fs = (r, fs')" and "stream_inv root st"
    and "ss_model_dir st = None \<Longrightarrow> resolve_path fs (path_names cache) = Inr root"
  shows "changes_within (tree_of root) fs fs'"
  using assms
proof (induction cs arbitrary: st fs)
  case (Cons x cs)
  show ?case
  proof (cases x)
    case (Inl e)
    then show ?thesis using Cons.prems by (simp add: fs_fail_def)
  next
    case (Inr c)
    from Cons.prems(1) [unfolded Inr on_chunks.simps] show ?thesis
    proof (cases rule: fs_bind_cases)
      case (Stop e)
      then show ?thesis using on_chunk_within [OF _ Cons.prems(2,3)] by blast
    next
      case (Next st1 fs1)
      then show ?thesis
        using on_chunk_within [OF Next(1) Cons.prems(2,3)] Cons.IH [OF Next(2)] changes_trans by blast
    qed
  qed
qed (simp add: fs_return_def)

lemma finish_changes_nothing:
  "fs_bind (fs_require b e) (\<lambda>_. fs_bind (fs_require b' e') (\<lambda>_. fs_bind (case x of None \<Rightarrow> fs_return ()
     | Some f \<Rightarrow> fs_bind (fs_require (file_complete f) e'') (\<lambda>_. sync_streamed_file io f)) (\<lambda>_.
     case y of Some (d, _) \<Rightarrow> fs_return d | None \<Rightarrow> fs_fail e'''))) fs = (r, fs') \<Longrightarrow> fs' = fs"
  by (auto simp: fs_require_eq fs_return_def fs_fail_def sync_streamed_file_def
      split: option.splits if_splits elim!: fs_bind_cases)

text \<open>
  C35. Whatever a server streams, and whatever symbolic links the local disk holds, receiving a model changes, adds or
  removes files and links only below the canonical cache directory. Elsewhere nothing changes
  except that empty directories may appear, which the client makes before it compares the
  directory with the one it may write to.
\<close>

theorem streamed_files_stay_in_cache:
  assumes "resolve_path fs (path_names cache) = Inr root"
    and "stream_model_files_from_server io latest (Some cache) provider name reply fs = (r, fs')"
    and "fs' x \<noteq> fs x"
  shows "prefix root x \<or> fs x = None \<and> fs' x = Some NDir"
proof -
  have "changes_within (tree_of root) fs fs'"
    using assms(2) unfolding stream_model_files_from_server_def option.case
  proof (cases rule: fs_bind_cases)
    case (Stop e)
    then show ?thesis using changes_mono [OF fs_create_dir_all_changes] by blast
  next
    case (Next u fs1)
    note c = fs_create_dir_all_changes [OF Next(1)]
    have root: "resolve_path fs1 (path_names cache) = Inr root" by (rule resolve_only_dirs [OF c assms(1)])
    have "changes_within (tree_of root) fs1 fs'"
    proof (cases reply)
      case (Inl e)
      then show ?thesis using Next(2) by (simp add: fs_fail_def)
    next
      case (Inr chunks)
      have inv: "stream_inv root stream_start" by (simp add: stream_inv_def stream_start_def)
      from Next(2) [unfolded Inr sum.case] show ?thesis
      proof (cases rule: fs_bind_cases)
        case (Stop e)
        then show ?thesis using on_chunks_within [OF _ inv root] by blast
      next
        case n: (Next st fs2)
        then show ?thesis using on_chunks_within [OF n(1) inv root] finish_changes_nothing [OF n(2)] by simp
      qed
    qed
    then show ?thesis using changes_trans [OF changes_mono [OF c]] by blast
  qed
  then show ?thesis using assms(3) by (auto simp: changes_within_def)
qed

definition hostile_chunk :: FileChunk where
  "hostile_chunk = \<lparr>fc_relative_path = ''link/passwd'', fc_data = ''x'', fc_offset = 0, fc_total_size = 1,
     fc_is_last_chunk = True, fc_is_last_file = True, fc_commit_hash = Some ''abc''\<rparr>"

definition linked_fs :: fs where
  "linked_fs = [[''etc''] \<mapsto> NDir, [''etc'', ''passwd''] \<mapsto> NFile ''root'', [''c''] \<mapsto> NDir,
     [''c'', ''models--o--m''] \<mapsto> NDir, [''c'', ''models--o--m'', ''snapshots''] \<mapsto> NDir,
     [''c'', ''models--o--m'', ''snapshots'', ''abc''] \<mapsto> NDir,
     [''c'', ''models--o--m'', ''snapshots'', ''abc'', ''link''] \<mapsto> NLink True [''etc'']]"

text \<open>A link out of the cache is met with a refusal; the file it points to is as before.\<close>

theorem streamed_files_stay_in_cache_witness:
  "snd (stream_model_files_from_server (\<lambda>_. True) (\<lambda>_. Inl []) (Some ''/c'') HuggingFace ''o/m'' (Inr [Inr hostile_chunk]) linked_fs)
     [''etc'', ''passwd''] = linked_fs [''etc'', ''passwd'']"
proof (rule ccontr)
  let ?r = "stream_model_files_from_server (\<lambda>_. True) (\<lambda>_. Inl []) (Some ''/c'') HuggingFace ''o/m'' (Inr [Inr hostile_chunk]) linked_fs"
  assume d: "snd ?r [''etc'', ''passwd''] \<noteq> linked_fs [''etc'', ''passwd'']"
  have c: "path_names ''/c'' = [''c'']" by code_simp
  have "resolve_path linked_fs (path_names ''/c'') = Inr [''c'']" by (simp add: c resolve_path_def linked_fs_def)
  from streamed_files_stay_in_cache [OF this, of "\<lambda>_. True" "\<lambda>_. Inl []" HuggingFace "''o/m''" "Inr [Inr hostile_chunk]" "fst ?r" "snd ?r", OF _ d]
  show False by (simp add: linked_fs_def)
qed

end
