(* ===== verification/Client_Roundtrip.thy ===== *)
theory Client_Roundtrip
  imports Client_Install
begin

text \<open>
  The server's stream and the client's receiver together: a snapshot the server streams is
  installed by the client as it was. Helper lemmas describe a part of the local tree without links,
  in which every path is its own address.
\<close>

subsection \<open>Trees without links\<close>

definition fs_ok :: "fs \<Rightarrow> bool" where
  "fs_ok fs = (\<forall>x c. fs (x @ [c]) \<noteq> None \<longrightarrow> dir_at fs x)"

definition plain :: "fs \<Rightarrow> string list \<Rightarrow> bool" where
  "plain fs p = (''..'' \<notin> set p \<and> (\<forall>q. prefix q p \<longrightarrow> q \<noteq> [] \<longrightarrow> fs q = None \<or> fs q = Some NDir))"

definition mk_dirs :: "string list \<Rightarrow> fs \<Rightarrow> fs" where
  "mk_dirs p fs = (\<lambda>x. if x \<noteq> [] \<and> prefix x p then Some NDir else fs x)"

lemma fs_ok_parents:
  assumes "fs_ok fs" and "fs p = Some NDir" and "prefix q p" and "q \<noteq> []"
  shows "fs q = Some NDir"
  using assms(2,3)
proof (induction p rule: rev_induct)
  case (snoc c p)
  show ?case
  proof (cases "q = p @ [c]")
    case False
    then have "prefix q p" using snoc.prems(2) by (simp add: prefix_snoc)
    moreover have "dir_at fs p" using assms(1) snoc.prems(1) unfolding fs_ok_def by blast
    ultimately show ?thesis using snoc.IH assms(4) by (auto simp: dir_at_def)
  qed (use snoc.prems in simp)
qed (use assms(4) in simp)

lemma walk_dirs:
  assumes "''..'' \<notin> set p" and "\<And>q. prefix q p \<Longrightarrow> q \<noteq> [] \<Longrightarrow> fs (cur @ q) = Some NDir"
  shows "walk fs n cur p = Inr (cur @ p)"
  using assms
proof (induction p arbitrary: cur)
  case (Cons c p)
  have "fs (cur @ [c]) = Some NDir" using Cons.prems(2) [of "[c]"] by simp
  moreover have "fs ((cur @ [c]) @ q) = Some NDir" if "prefix q p" "q \<noteq> []" for q
    using Cons.prems(2) [of "c # q"] that by simp
  ultimately show ?case using Cons.IH [of "cur @ [c]"] Cons.prems(1) by auto
qed simp

lemma walk_absent:
  assumes "''..'' \<notin> set p" and "\<And>q. prefix q p \<Longrightarrow> q \<noteq> [] \<Longrightarrow> fs (cur @ q) = None \<or> fs (cur @ q) = Some NDir"
    and "p \<noteq> []" and "fs (cur @ p) = None"
  shows "walk fs n cur p = Inl FsMissing"
  using assms
proof (induction p arbitrary: cur)
  case (Cons c p)
  show ?case
  proof (cases "fs (cur @ [c]) = None")
    case True
    then show ?thesis using Cons.prems(1) by auto
  next
    case False
    then have d: "fs (cur @ [c]) = Some NDir" "p \<noteq> []" using Cons.prems(2) [of "[c]"] Cons.prems(4) by auto
    have "fs ((cur @ [c]) @ q) = None \<or> fs ((cur @ [c]) @ q) = Some NDir" if "prefix q p" "q \<noteq> []" for q
      using Cons.prems(2) [of "c # q"] that by simp
    then show ?thesis using Cons.IH [of "cur @ [c]"] Cons.prems(1,4) d by auto
  qed
qed simp

lemma resolve_plain:
  assumes "fs_ok fs" and "plain fs p"
  shows "resolve_path fs p = (if dir_at fs p then Inr p else Inl FsMissing)"
proof (cases "dir_at fs p")
  case True
  then have "fs ([] @ q) = Some NDir" if "prefix q p" "q \<noteq> []" for q
    using fs_ok_parents [OF assms(1) _ that] that by (auto simp: dir_at_def)
  then show ?thesis using walk_dirs [of p fs "[]"] assms(2) True by (simp add: resolve_path_def plain_def)
next
  case False
  then have "p \<noteq> []" "fs p = None" using assms(2) by (auto simp: dir_at_def plain_def)
  then show ?thesis using walk_absent [of p fs "[]"] assms(2) False by (simp add: resolve_path_def plain_def)
qed

lemma plain_butlast: "plain fs p \<Longrightarrow> plain fs (butlast p)"
  by (auto simp: plain_def dest: in_set_butlastD intro: prefix_order.trans [OF _ prefixeq_butlast])

lemma mk_dirs_id: "fs_ok fs \<Longrightarrow> dir_at fs p \<Longrightarrow> mk_dirs p fs = fs"
  using fs_ok_parents [of fs p] by (auto simp: mk_dirs_def dir_at_def)

lemma mk_dirs_snoc: "mk_dirs (p @ [c]) fs = (mk_dirs p fs)(p @ [c] \<mapsto> NDir)"
  by (auto simp: mk_dirs_def fun_eq_iff prefix_snoc)

lemma dir_at_mk_dirs [simp]: "dir_at (mk_dirs p fs) p"
  by (simp add: dir_at_def mk_dirs_def)

lemma plain_mk_dirs: "plain fs p \<Longrightarrow> plain (mk_dirs q fs) p"
  by (auto simp: plain_def mk_dirs_def)

lemma fs_ok_absent_below:
  assumes "fs_ok fs" and "fs x \<noteq> Some NDir" and "x \<noteq> []"
  shows "fs (x @ [c]) = None"
  using assms unfolding fs_ok_def dir_at_def by blast

lemma fs_ok_mk_dirs:
  assumes "fs_ok fs" and "plain fs p"
  shows "fs_ok (mk_dirs p fs)"
  unfolding fs_ok_def
proof (intro allI impI)
  fix x c
  assume a: "mk_dirs p fs (x @ [c]) \<noteq> None"
  show "dir_at (mk_dirs p fs) x"
  proof (cases "prefix x p")
    case True
    then show ?thesis by (simp add: dir_at_def mk_dirs_def)
  next
    case False
    then have "\<not> prefix (x @ [c]) p" by (meson append_prefixD)
    then have "fs (x @ [c]) \<noteq> None" using a by (simp add: mk_dirs_def)
    then have "dir_at fs x" using assms(1) unfolding fs_ok_def by blast
    then show ?thesis by (auto simp: dir_at_def mk_dirs_def)
  qed
qed

lemma entry_place_plain:
  assumes "fs_ok fs" and "plain fs (butlast p)" and "p \<noteq> []" and "last p \<noteq> ''..''"
  shows "entry_place fs p = (if dir_at fs (butlast p) then Inr p else Inl FsMissing)"
  using resolve_plain [OF assms(1,2)] assms(3,4) by (simp add: entry_place_def)

lemma create_dir_all_plain:
  assumes "fs_ok fs" and "plain fs p"
  shows "create_dir_all (\<lambda>_. True) p fs = (True, mk_dirs p fs)"
  using assms(2)
proof (induction p rule: rev_induct)
  case Nil
  then show ?case by (simp add: create_dir_all.simps mk_dirs_def fun_eq_iff)
next
  case (snoc c p)
  have pl: "plain fs p" using plain_butlast [OF snoc.prems] by simp
  have c: "c \<noteq> ''..''" using snoc.prems by (auto simp: plain_def)
  have pc: "fs (p @ [c]) = None \<or> fs (p @ [c]) = Some NDir" using snoc.prems by (simp add: plain_def)
  have place: "entry_place g (p @ [c]) = (if dir_at g p then Inr (p @ [c]) else Inl FsMissing)" if "fs_ok g" "plain g p" for g
    using entry_place_plain [of g "p @ [c]"] that c by simp
  show ?case
  proof (cases "dir_at fs p")
    case True
    note d = place [OF assms(1) pl] True
    show ?thesis
    proof (cases "fs (p @ [c])")
      case None
      then show ?thesis using d mk_dirs_id [OF assms(1) True]
        by (simp add: create_dir_all.simps [of _ "p @ [c]"] make_dir_def mk_dirs_snoc fun_upd_def)
    next
      case (Some x)
      then have x: "dir_at fs (p @ [c])" "x = NDir" using pc by (auto simp: dir_at_def)
      have "path_is_dir fs (p @ [c])"
        using resolve_plain [OF assms(1) snoc.prems] x(1) by (simp add: path_is_dir_def)
      then show ?thesis using d Some mk_dirs_id [OF assms(1) x(1)]
        by (simp add: create_dir_all.simps [of _ "p @ [c]"] make_dir_def)
    qed
  next
    case False
    then have "fs (p @ [c]) = None" using assms(1) unfolding fs_ok_def by blast
    then have new: "mk_dirs p fs (p @ [c]) = None" by (simp add: mk_dirs_def)
    have "entry_place (mk_dirs p fs) (p @ [c]) = Inr (p @ [c])"
      using place [OF fs_ok_mk_dirs [OF assms(1) pl] plain_mk_dirs [OF pl]] by simp
    then show ?thesis using snoc.IH [OF pl] place [OF assms(1) pl] False new
      by (simp add: create_dir_all.simps [of _ "p @ [c]"] make_dir_def mk_dirs_snoc fun_upd_def)
  qed
qed

subsection \<open>One file\<close>

text \<open>A path at which a file can be put: directories on the way, no directory in its place.\<close>

definition ready :: "fs \<Rightarrow> string list \<Rightarrow> bool" where
  "ready fs p = (p \<noteq> [] \<and> last p \<noteq> ''..'' \<and> plain fs (butlast p) \<and> fs p \<noteq> Some NDir \<and> fs p \<noteq> Some NOther)"

definition installed :: "string list \<Rightarrow> string \<Rightarrow> fs \<Rightarrow> fs" where
  "installed p d fs = (mk_dirs (butlast p) fs)(p \<mapsto> NFile d)"

lemma mk_dirs_file [simp]: "p \<noteq> [] \<Longrightarrow> mk_dirs (butlast p) fs p = fs p"
proof -
  assume "p \<noteq> []"
  then have "\<not> prefix p (butlast p)" using prefix_length_le [of p "butlast p"] by (cases p) auto
  then show ?thesis by (simp add: mk_dirs_def)
qed

lemma installed_at [simp]: "installed p d fs p = Some (NFile d)"
  by (simp add: installed_def)

lemma installed_again [simp]: "(installed p d fs)(p \<mapsto> NFile e) = installed p e fs"
  by (simp add: installed_def)

lemma fs_ok_installed:
  assumes "fs_ok fs" and "ready fs p"
  shows "fs_ok (installed p d fs)"
proof -
  let ?g = "mk_dirs (butlast p) fs"
  have p: "p \<noteq> []" "plain fs (butlast p)" "fs p \<noteq> Some NDir" using assms(2) by (auto simp: ready_def)
  have ok: "fs_ok ?g" by (rule fs_ok_mk_dirs [OF assms(1) p(2)])
  show ?thesis unfolding fs_ok_def
  proof (intro allI impI)
    fix x c
    assume a: "installed p d fs (x @ [c]) \<noteq> None"
    show "dir_at (installed p d fs) x"
    proof (cases "x @ [c] = p")
      case True
      then have "butlast p = x" "x \<noteq> p" by (auto simp: butlast_append)
      then show ?thesis using dir_at_mk_dirs [of x fs] by (auto simp: dir_at_def installed_def)
    next
      case False
      then have "?g (x @ [c]) \<noteq> None" using a by (simp add: installed_def)
      then have "dir_at ?g x" using ok unfolding fs_ok_def by blast
      moreover have "x \<noteq> p" using fs_ok_absent_below [OF ok, of p c] p \<open>?g (x @ [c]) \<noteq> None\<close> by auto
      ultimately show ?thesis by (simp add: dir_at_def installed_def)
    qed
  qed
qed

lemma ready_installed:
  assumes "ready fs q" and "\<not> prefix p q" and "\<not> prefix q p" and "p \<noteq> []"
  shows "ready (installed p d fs) q"
proof -
  have q: "q \<noteq> []" "last q \<noteq> ''..''" "plain fs (butlast q)" "fs q \<noteq> Some NDir" "fs q \<noteq> Some NOther"
    using assms(1) by (auto simp: ready_def)
  have "\<not> prefix q (butlast p)" using assms(3) prefix_order.trans [OF _ prefixeq_butlast] by blast
  then have "installed p d fs q = fs q" using assms(2) by (auto simp: installed_def mk_dirs_def)
  moreover have "x \<noteq> p" if "prefix x (butlast q)" for x
    using that assms(2) prefix_order.trans [OF that prefixeq_butlast] by auto
  then have "plain (installed p d fs) (butlast q)"
    using plain_mk_dirs [OF q(3), of "butlast p"] by (auto simp: plain_def installed_def)
  ultimately show ?thesis using q by (simp add: ready_def)
qed

lemma check_parent_ready:
  assumes "fs_ok fs" and "plain fs (butlast p)" and "prefix D (butlast p)"
  shows "check_parent (\<lambda>_. True) D p fs = (Inr (), mk_dirs (butlast p) fs)"
proof -
  let ?q = "butlast p"
  have r: "resolve_path (mk_dirs ?q fs) ?q = Inr ?q"
    using resolve_plain [OF fs_ok_mk_dirs plain_mk_dirs] assms(1,2) by simp
  have mk: "(if path_exists fs ?q then (Inr (), fs) else fs_create_dir_all (\<lambda>_. True) ?q fs) = (Inr (), mk_dirs ?q fs)"
    using resolve_plain [OF assms(1,2)] mk_dirs_id [OF assms(1)] create_dir_all_plain [OF assms(1,2)]
    by (auto simp: path_exists_def fs_create_dir_all_def)
  show ?thesis using assms(3) by (simp add: check_parent_def Let_def fs_bind_def mk fs_canonicalize_def canonicalize_def r fs_require_def)
qed

lemma output_file_ready:
  assumes "fs_ok fs" and "ready fs p" and "dir_at fs (butlast p)"
  shows "create_stream_output_file (\<lambda>_. True) p fs = (Inr p, fs(p \<mapsto> NFile []))"
proof -
  have p: "p \<noteq> []" "last p \<noteq> ''..''" "plain fs (butlast p)" using assms(2) by (auto simp: ready_def)
  have place: "entry_place fs p = Inr p" using entry_place_plain [OF assms(1) p(3,1,2)] assms(3) by simp
  have "\<not> prefix p (butlast p)" using mk_dirs_file [OF p(1), of "\<lambda>_. None"] p(1) by (auto simp: mk_dirs_def split: if_splits)
  then have un: "x \<noteq> p" if "prefix x (butlast p)" for x using that by auto
  have ok: "fs_ok (fs(p := None))"
    using assms(1,2) fs_ok_absent_below [OF assms(1)] by (fastforce simp: fs_ok_def ready_def dir_at_def)
  have "plain (fs(p := None)) (butlast p)" using p(3) un by (auto simp: plain_def)
  moreover have "dir_at (fs(p := None)) (butlast p)" using assms(3) un [of "butlast p"] by (auto simp: dir_at_def)
  ultimately have place': "entry_place (fs(p := None)) p = Inr p" using entry_place_plain [OF ok _ p(1,2)] by simp
  show ?thesis
  proof (cases "fs p")
    case None
    then show ?thesis by (simp add: create_stream_output_file_def fs_bind_def link_metadata_def place create_new_def)
  next
    case (Some x)
    then show ?thesis using assms(2) place place'
      by (cases x) (simp_all add: create_stream_output_file_def fs_bind_def link_metadata_def create_new_def fs_remove_file_def ready_def)
  qed
qed

subsection \<open>Chunks\<close>

definition open_at :: "StreamState \<Rightarrow> string list \<Rightarrow> nat \<Rightarrow> nat \<Rightarrow> bool \<Rightarrow> bool" where
  "open_at st p tot n done = (ss_current_file st = Some \<lparr>sf_path = p, sf_file = p, sf_expected_size = tot,
     sf_bytes_written = n, sf_saw_last_chunk = done\<rparr>)"

definition between_files :: "StreamState \<Rightarrow> bool" where
  "between_files st = (case ss_current_file st of None \<Rightarrow> True | Some f \<Rightarrow> file_complete f)"

text \<open>The flags of a chunk as the server sets them.\<close>

definition chunk_fits :: "string list \<Rightarrow> nat \<Rightarrow> nat \<Rightarrow> FileChunk \<Rightarrow> bool" where
  "chunk_fits ns tot n c = (is_safe_relative_path (fc_relative_path c) \<and> path_names (fc_relative_path c) = ns
     \<and> fc_total_size c = tot \<and> fc_offset c = n \<and> n + length (fc_data c) \<le> tot \<and> tot \<le> u64_max
     \<and> (fc_is_last_chunk c \<longleftrightarrow> n + length (fc_data c) = tot))"

lemma write_chunk_fits:
  assumes "chunk_fits ns tot n c" and "open_at st p tot n False" and "fs p = Some (NFile old)"
  shows "\<exists>st'. write_chunk (\<lambda>_. True) c st fs = (Inr st', fs(p \<mapsto> NFile (old @ fc_data c)))
    \<and> open_at st' p tot (n + length (fc_data c)) (fc_is_last_chunk c)
    \<and> ss_model_dir st' = ss_model_dir st \<and> ss_saw_chunk st' = ss_saw_chunk st
    \<and> ss_saw_final_chunk st' = ss_saw_final_chunk st"
proof -
  have s: "usize_saturating_add n (length (fc_data c)) = n + length (fc_data c)"
    using assms(1) by (simp add: chunk_fits_def usize_saturating_add_def)
  show ?thesis using assms
    by (auto simp: write_chunk_def open_at_def Let_def fs_bind_def fs_require_def fs_return_def chunk_fits_def append_data_def s)
qed

lemma on_chunk_first:
  assumes "ensure_model_dir (\<lambda>_. True) latest cache provider name c st fs = (Inr (D, D), fs1)"
    and "fs_ok fs1" and "ready fs1 (D @ ns)" and "ns \<noteq> []" and "chunk_fits ns tot 0 c"
    and "\<not> ss_saw_final_chunk st" and "between_files st"
    and "\<And>f. ss_current_file st = Some f \<Longrightarrow> sf_path f \<noteq> D @ ns"
  shows "\<exists>st'. on_chunk (\<lambda>_. True) latest cache provider name c st fs = (Inr st', installed (D @ ns) (fc_data c) fs1)
    \<and> open_at st' (D @ ns) tot (length (fc_data c)) (fc_is_last_chunk c)
    \<and> ss_model_dir st' = Some (D, D) \<and> ss_saw_chunk st'
    \<and> ss_saw_final_chunk st' = (fc_is_last_file c \<and> fc_is_last_chunk c)"
proof -
  let ?p = "D @ ns" and ?g = "mk_dirs (D @ butlast ns) fs1"
  have bl: "butlast ?p = D @ butlast ns" using assms(4) by (simp add: butlast_append)
  have pl: "plain fs1 (butlast ?p)" using assms(3) by (simp add: ready_def)
  have cp: "check_parent (\<lambda>_. True) D ?p fs1 = (Inr (), ?g)"
    using check_parent_ready [OF assms(2) pl, of D] bl by simp
  have rg: "ready ?g ?p" using assms(3) plain_mk_dirs [OF pl] mk_dirs_file [of ?p fs1] by (simp add: ready_def bl assms(4))
  have out: "create_stream_output_file (\<lambda>_. True) ?p ?g = (Inr ?p, installed ?p [] fs1)"
    using output_file_ready [OF fs_ok_mk_dirs [OF assms(2) pl], of ?p] rg by (simp add: bl installed_def)
  let ?st1 = "st\<lparr>ss_saw_chunk := True, ss_model_dir := Some (D, D),
      ss_files_received := usize_saturating_add (ss_files_received st) 1,
      ss_current_file := Some \<lparr>sf_path = ?p, sf_file = ?p, sf_expected_size = tot, sf_bytes_written = 0, sf_saw_last_chunk = False\<rparr>\<rparr>"
  have ffc: "file_for_chunk (\<lambda>_. True) ?p c (st\<lparr>ss_saw_chunk := True, ss_model_dir := Some (D, D)\<rparr>) ?g = (Inr ?st1, installed ?p [] fs1)"
    using assms(5,7,8) out
    by (auto simp: file_for_chunk_def between_files_def chunk_fits_def fs_bind_def fs_require_def fs_return_def
        sync_streamed_file_def split: option.splits)
  obtain st2 where w: "write_chunk (\<lambda>_. True) c ?st1 (installed ?p [] fs1) = (Inr st2, installed ?p (fc_data c) fs1)"
      "open_at st2 ?p tot (length (fc_data c)) (fc_is_last_chunk c)" "ss_model_dir st2 = Some (D, D)"
      "ss_saw_chunk st2" "ss_saw_final_chunk st2 = ss_saw_final_chunk st"
    using write_chunk_fits [OF assms(5), of ?st1 ?p "installed ?p [] fs1" "[]"] by (auto simp: open_at_def)
  have safe: "is_safe_relative_path (fc_relative_path c)" "path_names (fc_relative_path c) = ns" "fc_offset c \<le> fc_total_size c"
    using assms(5) by (auto simp: chunk_fits_def)
  show ?thesis using w(2-5) assms(6)
    by (auto simp: on_chunk_def fs_bind_def fs_require_def assms(1) safe Let_def cp ffc w(1) fs_return_def open_at_def
        simp del: One_nat_def)
qed

lemma on_chunk_more:
  assumes "ss_model_dir st = Some (D, D)" and "fs_ok fs" and "plain fs (D @ butlast ns)" and "ns \<noteq> []"
    and "fs (D @ ns) = Some (NFile old)" and "chunk_fits ns tot n c" and "open_at st (D @ ns) tot n False"
    and "\<not> ss_saw_final_chunk st"
  shows "\<exists>st'. on_chunk (\<lambda>_. True) latest cache provider name c st fs = (Inr st', fs(D @ ns \<mapsto> NFile (old @ fc_data c)))
    \<and> open_at st' (D @ ns) tot (n + length (fc_data c)) (fc_is_last_chunk c)
    \<and> ss_model_dir st' = Some (D, D) \<and> ss_saw_chunk st'
    \<and> ss_saw_final_chunk st' = (fc_is_last_file c \<and> fc_is_last_chunk c)"
proof -
  let ?p = "D @ ns"
  have bl: "butlast ?p = D @ butlast ns" using assms(4) by (simp add: butlast_append)
  have "?p = (D @ butlast ns) @ [last ns]" using assms(4) by simp
  then have "dir_at fs (D @ butlast ns)" using assms(2,5) unfolding fs_ok_def by (metis option.distinct(1))
  then have cp: "check_parent (\<lambda>_. True) D ?p fs = (Inr (), fs)"
    using check_parent_ready [OF assms(2), of ?p D] assms(3) mk_dirs_id [OF assms(2)] by (simp add: bl)
  let ?st1 = "st\<lparr>ss_saw_chunk := True, ss_model_dir := Some (D, D)\<rparr>"
  have ffc: "file_for_chunk (\<lambda>_. True) ?p c ?st1 fs = (Inr ?st1, fs)"
    using assms(7) by (simp add: file_for_chunk_def open_at_def fs_return_def)
  obtain st2 where w: "write_chunk (\<lambda>_. True) c ?st1 fs = (Inr st2, fs(?p \<mapsto> NFile (old @ fc_data c)))"
      "open_at st2 ?p tot (n + length (fc_data c)) (fc_is_last_chunk c)" "ss_model_dir st2 = Some (D, D)"
      "ss_saw_chunk st2" "ss_saw_final_chunk st2 = ss_saw_final_chunk st"
    using write_chunk_fits [OF assms(6), of ?st1 ?p fs old] assms(5,7) by (auto simp: open_at_def)
  have safe: "is_safe_relative_path (fc_relative_path c)" "path_names (fc_relative_path c) = ns" "fc_offset c \<le> fc_total_size c"
    using assms(6) by (auto simp: chunk_fits_def)
  show ?thesis using w(2-5) assms(8)
    by (auto simp: on_chunk_def fs_bind_def fs_require_def ensure_model_dir_def assms(1) safe Let_def cp ffc w(1) fs_return_def open_at_def)
qed

subsection \<open>Whole files\<close>

definition messages :: "(stream_error + FileChunk) list \<Rightarrow> (unit + FileChunk) list" where
  "messages = map (map_sum (\<lambda>_. ()) id)"

lemma messages_simps [simp]:
  "messages [] = []" "messages (Inr c # cs) = Inr c # messages cs" "messages (xs @ ys) = messages xs @ messages ys"
  by (simp_all add: messages_def)

lemma on_chunks_append:
  "on_chunks io latest cache provider name (xs @ ys) st
   = fs_bind (on_chunks io latest cache provider name xs st) (on_chunks io latest cache provider name ys)"
proof (induction xs arbitrary: st)
  case Nil
  then show ?case by (simp add: fs_bind_def fs_return_def fun_eq_iff)
next
  case (Cons x xs)
  have assoc: "fs_bind (fs_bind m f) g = fs_bind m (\<lambda>a. fs_bind (f a) g)" for m :: "StreamState fs_prog" and f and g :: "StreamState \<Rightarrow> StreamState fs_prog"
    by (auto simp: fs_bind_def fun_eq_iff split: prod.splits sum.splits)
  show ?case
  proof (cases x)
    case (Inl e)
    then show ?thesis by (simp add: fs_fail_def fs_bind_def fun_eq_iff)
  next
    case (Inr c)
    then show ?thesis by (simp add: assoc Cons [abs_def])
  qed
qed

lemma fs_ok_rewrite: "fs_ok fs \<Longrightarrow> fs a = Some (NFile d) \<Longrightarrow> fs_ok (fs(a \<mapsto> NFile e))"
  by (fastforce simp: fs_ok_def dir_at_def)

lemma plain_upd: "plain fs p \<Longrightarrow> \<not> prefix a p \<Longrightarrow> plain (fs(a := v)) p"
  by (auto simp: plain_def)

lemma file_not_parent: "ns \<noteq> [] \<Longrightarrow> \<not> prefix (D @ ns) (D @ butlast ns)"
  using prefix_length_le [of ns "butlast ns"] by (cases ns) auto

lemma rest_received:
  assumes "data \<noteq> []" and "\<And>i. reads i \<noteq> None" and "length acc + length data = tot" and "tot \<le> u64_max"
    and "is_safe_relative_path path" and "path_names path = ns" and "ns \<noteq> []"
    and "ss_model_dir st = Some (D, D)" and "fs_ok fs" and "plain fs (D @ butlast ns)" and "fs (D @ ns) = Some (NFile acc)"
    and "open_at st (D @ ns) tot (length acc) False" and "\<not> ss_saw_final_chunk st"
  shows "\<exists>st' cs. stream_file chunk_size reads i path tot is_last commit (length acc) data = (cs, True, None)
    \<and> on_chunks (\<lambda>_. True) latest cache provider name (messages cs) st fs = (Inr st', fs(D @ ns \<mapsto> NFile (acc @ data)))
    \<and> open_at st' (D @ ns) tot tot True \<and> ss_model_dir st' = Some (D, D) \<and> ss_saw_chunk st' \<and> ss_saw_final_chunk st' = is_last"
  using assms(1,3,8-13)
proof (induction "length data" arbitrary: data acc commit i st fs rule: less_induct)
  case less
  obtain k where k: "reads i = Some k" using assms(2) by fastforce
  define n where "n = bytes_read chunk_size k data"
  have n: "0 < n" "n \<le> length data" using less.prems(1) by (auto simp: n_def bytes_read_def Suc_le_eq)
  have off: "usize_saturating_add (length acc) n = length acc + n"
    using n less.prems(2) assms(4) by (simp add: usize_saturating_add_def)
  let ?last = "length acc + n \<ge> tot"
  let ?c = "\<lparr>fc_relative_path = path, fc_data = take n data, fc_offset = length acc, fc_total_size = tot,
      fc_is_last_chunk = ?last, fc_is_last_file = (is_last \<and> ?last), fc_commit_hash = commit\<rparr>"
  let ?fs1 = "fs(D @ ns \<mapsto> NFile (acc @ take n data))"
  have fits: "chunk_fits ns tot (length acc) ?c"
    using assms(4-6) less.prems(2) n by (auto simp: chunk_fits_def)
  obtain st1 where st1: "on_chunk (\<lambda>_. True) latest cache provider name ?c st fs = (Inr st1, ?fs1)"
      "open_at st1 (D @ ns) tot (length acc + n) ?last" "ss_model_dir st1 = Some (D, D)" "ss_saw_chunk st1"
      "ss_saw_final_chunk st1 = (is_last \<and> ?last)"
    using on_chunk_more [OF less.prems(3-5) assms(7) less.prems(6) fits less.prems(7,8), of latest cache provider name] n
    by (auto simp: min_absorb2)
  note step = stream_file.simps [of chunk_size reads i path tot is_last commit "length acc" data]
  show ?case
  proof (cases "drop n data = []")
    case True
    then have all: "n = length data" using n by simp
    then have "stream_file chunk_size reads i path tot is_last commit (length acc) data = ([Inr ?c], True, None)"
      using less.prems(1,2) off
      by (simp add: step k n_def [symmetric] Let_def stream_file.simps [of _ _ "Suc i"])
    then show ?thesis using st1 less.prems(2) all by (auto simp: fs_bind_def fs_return_def)
  next
    case False
    have nl: "\<not> ?last" using False less.prems(2) n by simp
    have len: "length (acc @ take n data) = length acc + n" using n by simp
    have "\<exists>st' cs. stream_file chunk_size reads (Suc i) path tot is_last None (length (acc @ take n data)) (drop n data) = (cs, True, None)
      \<and> on_chunks (\<lambda>_. True) latest cache provider name (messages cs) st1 ?fs1
          = (Inr st', ?fs1(D @ ns \<mapsto> NFile ((acc @ take n data) @ drop n data)))
      \<and> open_at st' (D @ ns) tot tot True \<and> ss_model_dir st' = Some (D, D) \<and> ss_saw_chunk st' \<and> ss_saw_final_chunk st' = is_last"
    proof (rule less.hyps)
      show "length (drop n data) < length data" "drop n data \<noteq> []" using n False by auto
      show "length (acc @ take n data) + length (drop n data) = tot" using less.prems(2) n by simp
      show "fs_ok ?fs1" by (rule fs_ok_rewrite [OF less.prems(4,6)])
      show "plain ?fs1 (D @ butlast ns)" by (rule plain_upd [OF less.prems(5) file_not_parent [OF assms(7)]])
      show "open_at st1 (D @ ns) tot (length (acc @ take n data)) False" using st1(2) nl len by simp
      show "\<not> ss_saw_final_chunk st1" using st1(5) nl by simp
    qed (use st1 in simp_all)
    then obtain st' cs where r: "stream_file chunk_size reads (Suc i) path tot is_last None (length acc + n) (drop n data) = (cs, True, None)"
      "on_chunks (\<lambda>_. True) latest cache provider name (messages cs) st1 ?fs1 = (Inr st', fs(D @ ns \<mapsto> NFile (acc @ data)))"
      "open_at st' (D @ ns) tot tot True" "ss_model_dir st' = Some (D, D)" "ss_saw_chunk st'" "ss_saw_final_chunk st' = is_last"
      unfolding len by auto
    have "stream_file chunk_size reads i path tot is_last commit (length acc) data = (Inr ?c # cs, True, None)"
      using less.prems(1) r(1) by (simp add: step k n_def [symmetric] Let_def off)
    then show ?thesis using st1(1) r by (intro exI [of _ st'] exI [of _ "Inr ?c # cs"]) (simp add: fs_bind_def)
  qed
qed

lemma plain_installed:
  "ready fs (D @ ns) \<Longrightarrow> ns \<noteq> [] \<Longrightarrow> plain (installed (D @ ns) d fs) (D @ butlast ns)"
  unfolding installed_def
  by (rule plain_upd [OF plain_mk_dirs file_not_parent]) (simp_all add: ready_def butlast_append)

lemma file_received:
  assumes "\<And>c. fc_commit_hash c = commit \<Longrightarrow> ensure_model_dir (\<lambda>_. True) latest cache provider name c st fs = (Inr (D, D), fs1)"
    and "fs_ok fs1" and "ready fs1 (D @ ns)" and "ns \<noteq> []" and "between_files st"
    and "\<And>f. ss_current_file st = Some f \<Longrightarrow> sf_path f \<noteq> D @ ns" and "\<not> ss_saw_final_chunk st"
    and "is_safe_relative_path path" and "path_names path = ns"
    and "open_file path = Some data" and "length data = tot" and "tot \<le> u64_max" and "\<And>i. reads path i \<noteq> None"
  shows "\<exists>st' cs. stream_files chunk_size open_file reads commit ((path, tot) # files)
      = cs @ stream_files chunk_size open_file reads None files
    \<and> on_chunks (\<lambda>_. True) latest cache provider name (messages cs) st fs = (Inr st', installed (D @ ns) data fs1)
    \<and> open_at st' (D @ ns) tot tot True \<and> ss_model_dir st' = Some (D, D) \<and> ss_saw_chunk st'
    \<and> ss_saw_final_chunk st' = (files = [])"
proof -
  have one: "\<exists>st'. on_chunks (\<lambda>_. True) latest cache provider name [Inr c] st fs = (Inr st', installed (D @ ns) (fc_data c) fs1)
    \<and> open_at st' (D @ ns) tot (length (fc_data c)) (fc_is_last_chunk c) \<and> ss_model_dir st' = Some (D, D) \<and> ss_saw_chunk st'
    \<and> ss_saw_final_chunk st' = (fc_is_last_file c \<and> fc_is_last_chunk c)"
    if "fc_commit_hash c = commit" "chunk_fits ns tot 0 c" for c
    using on_chunk_first [OF assms(1) [OF that(1)] assms(2-4) that(2) assms(7,5,6)] by (auto simp: fs_bind_def fs_return_def)
  show ?thesis
  proof (cases "tot = 0")
    case True
    let ?c = "\<lparr>fc_relative_path = path, fc_data = [], fc_offset = 0, fc_total_size = 0, fc_is_last_chunk = True,
      fc_is_last_file = (files = []), fc_commit_hash = commit\<rparr>"
    have "chunk_fits ns tot 0 ?c" using assms(8,9) True by (simp add: chunk_fits_def)
    with one [of ?c] obtain st' where "on_chunks (\<lambda>_. True) latest cache provider name [Inr ?c] st fs = (Inr st', installed (D @ ns) [] fs1)"
      "open_at st' (D @ ns) tot 0 True" "ss_model_dir st' = Some (D, D)" "ss_saw_chunk st'" "ss_saw_final_chunk st' = (files = [])"
      by auto
    then show ?thesis using assms(10,11) True by (intro exI [of _ st'] exI [of _ "[Inr ?c]"]) simp
  next
    case False
    then have data: "data \<noteq> []" using assms(11) by auto
    obtain k where k: "reads path 0 = Some k" using assms(13) by fastforce
    define n where "n = bytes_read chunk_size k data"
    have n: "0 < n" "n \<le> length data" using data by (auto simp: n_def bytes_read_def Suc_le_eq)
    have off: "usize_saturating_add 0 n = n" using n assms(11,12) by (simp add: usize_saturating_add_def)
    let ?last = "n \<ge> tot"
    let ?c = "\<lparr>fc_relative_path = path, fc_data = take n data, fc_offset = 0, fc_total_size = tot,
      fc_is_last_chunk = ?last, fc_is_last_file = (files = [] \<and> ?last), fc_commit_hash = commit\<rparr>"
    have "chunk_fits ns tot 0 ?c" using assms(8,9,11,12) n by (auto simp: chunk_fits_def)
    then obtain st1 where st1: "on_chunks (\<lambda>_. True) latest cache provider name [Inr ?c] st fs = (Inr st1, installed (D @ ns) (take n data) fs1)"
        "open_at st1 (D @ ns) tot n ?last" "ss_model_dir st1 = Some (D, D)" "ss_saw_chunk st1"
        "ss_saw_final_chunk st1 = (files = [] \<and> ?last)"
      using one [of ?c] n by (auto simp: min_absorb2)
    have split: "stream_file chunk_size (reads path) 0 path tot (files = []) commit 0 data
        = (let (cs, go_on, commit') = stream_file chunk_size (reads path) (Suc 0) path tot (files = []) None n (drop n data)
           in (Inr ?c # cs, go_on, commit'))"
      using data by (simp add: stream_file.simps [of chunk_size "reads path" 0] k n_def [symmetric] Let_def off)
    have "\<exists>st' cs. stream_file chunk_size (reads path) (Suc 0) path tot (files = []) None n (drop n data) = (cs, True, None)
      \<and> on_chunks (\<lambda>_. True) latest cache provider name (messages cs) st1 (installed (D @ ns) (take n data) fs1)
          = (Inr st', installed (D @ ns) data fs1)
      \<and> open_at st' (D @ ns) tot tot True \<and> ss_model_dir st' = Some (D, D) \<and> ss_saw_chunk st' \<and> ss_saw_final_chunk st' = (files = [])"
    proof (cases "drop n data = []")
      case True
      then have "n = tot" using n assms(11) by simp
      then show ?thesis using st1 True assms(11)
        by (intro exI [of _ st1] exI [of _ "[]"]) (simp add: stream_file.simps [of _ _ "Suc 0"] fs_return_def)
    next
      case False
      have nl: "\<not> ?last" using False assms(11) by simp
      have len: "length (take n data) = n" using n by simp
      show ?thesis
        using rest_received [where data = "drop n data" and reads = "reads path" and acc = "take n data" and tot = tot and path = path
            and ns = ns and st = st1 and D = D and fs = "installed (D @ ns) (take n data) fs1" and chunk_size = chunk_size
            and i = "Suc 0" and is_last = "files = []" and commit = None and latest = latest and cache = cache
            and provider = provider and name = name, OF False assms(13)]
          assms(4,8,9,11,12) st1(2-5) nl n fs_ok_installed [OF assms(2,3)] plain_installed [OF assms(3,4)]
        unfolding len by simp
    qed
    then obtain st' cs where r: "stream_file chunk_size (reads path) (Suc 0) path tot (files = []) None n (drop n data) = (cs, True, None)"
      "on_chunks (\<lambda>_. True) latest cache provider name (messages cs) st1 (installed (D @ ns) (take n data) fs1) = (Inr st', installed (D @ ns) data fs1)"
      "open_at st' (D @ ns) tot tot True" "ss_model_dir st' = Some (D, D)" "ss_saw_chunk st'" "ss_saw_final_chunk st' = (files = [])"
      by blast
    have "on_chunks (\<lambda>_. True) latest cache provider name (messages (Inr ?c # cs)) st fs = (Inr st', installed (D @ ns) data fs1)"
      using on_chunks_append [of "\<lambda>_. True" latest cache provider name "[Inr ?c]" "messages cs" st] st1(1) r(2)
      by (simp add: fs_bind_def)
    moreover have "stream_files chunk_size open_file reads commit ((path, tot) # files)
        = (Inr ?c # cs) @ stream_files chunk_size open_file reads None files"
      using assms(10) False r(1) by (simp add: split Let_def)
    ultimately show ?thesis using r by (intro exI [of _ st'] exI [of _ "Inr ?c # cs"]) simp
  qed
qed

text \<open>Files of which none lies at or below another.\<close>

fun apart :: "string list list \<Rightarrow> bool" where
  "apart [] = True"
| "apart (x # xs) = (list_all (\<lambda>y. \<not> prefix x y \<and> \<not> prefix y x) xs \<and> apart xs)"

definition streamable :: "(string \<Rightarrow> string option) \<Rightarrow> (string \<times> nat) list \<Rightarrow> bool" where
  "streamable open_file files = list_all (\<lambda>(p, n). n \<le> u64_max \<and> map_option length (open_file p) = Some n
     \<and> is_safe_relative_path p \<and> path_names p \<noteq> []) files"

lemma installed_elsewhere: "fs q = Some (NFile e) \<Longrightarrow> \<not> prefix q p \<Longrightarrow> installed p d fs q = Some (NFile e)"
  using prefix_order.trans [OF _ prefixeq_butlast] by (auto simp: installed_def mk_dirs_def)

lemma files_received:
  assumes "files \<noteq> []" and "streamable open_file files" and "apart (map (path_names \<circ> fst) files)"
    and "\<And>p i. reads p i \<noteq> None"
    and "\<And>c. fc_commit_hash c = commit \<Longrightarrow> ensure_model_dir (\<lambda>_. True) latest cache provider name c st fs = (Inr (D, D), fs1)"
    and "fs_ok fs1" and "list_all (\<lambda>(p, n). ready fs1 (D @ path_names p)) files" and "between_files st"
    and "\<And>f. ss_current_file st = Some f \<Longrightarrow> sf_path f \<notin> (\<lambda>(p, n). D @ path_names p) ` set files" and "\<not> ss_saw_final_chunk st"
  shows "\<exists>st' fs'. on_chunks (\<lambda>_. True) latest cache provider name (messages (stream_files chunk_size open_file reads commit files)) st fs = (Inr st', fs')
    \<and> (\<forall>(p, n) \<in> set files. fs' (D @ path_names p) = Some (NFile (the (open_file p))))
    \<and> (\<forall>q e. fs1 q = Some (NFile e) \<longrightarrow> (\<forall>(p, n) \<in> set files. \<not> prefix q (D @ path_names p)) \<longrightarrow> fs' q = Some (NFile e))
    \<and> between_files st' \<and> ss_model_dir st' = Some (D, D) \<and> ss_saw_chunk st' \<and> ss_saw_final_chunk st'"
  using assms(1-3,5-10)
proof (induction files arbitrary: commit st fs fs1)
  case (Cons f files)
  obtain p n where f: "f = (p, n)" by fastforce
  let ?ns = "path_names p"
  obtain data where d: "open_file p = Some data" "length data = n" "n \<le> u64_max" "is_safe_relative_path p" "?ns \<noteq> []"
    using Cons.prems(2) by (auto simp: f streamable_def)
  have rd: "ready fs1 (D @ ?ns)" using Cons.prems(6) by (simp add: f)
  have cur: "sf_path g \<noteq> D @ ?ns" if "ss_current_file st = Some g" for g using Cons.prems(8) [OF that] by (auto simp: f)
  obtain st1 cs where r: "stream_files chunk_size open_file reads commit (f # files) = cs @ stream_files chunk_size open_file reads None files"
    "on_chunks (\<lambda>_. True) latest cache provider name (messages cs) st fs = (Inr st1, installed (D @ ?ns) data fs1)"
    "open_at st1 (D @ ?ns) n n True" "ss_model_dir st1 = Some (D, D)" "ss_saw_chunk st1" "ss_saw_final_chunk st1 = (files = [])"
    using file_received [where D = D and ns = "path_names p" and path = p and open_file = open_file and data = data and files = files
        and reads = reads and chunk_size = chunk_size, OF Cons.prems(4,5) rd d(5) Cons.prems(7) cur Cons.prems(9) d(4) refl d(1-3) assms(4)]
    unfolding f by blast
  let ?fs1 = "installed (D @ ?ns) data fs1"
  have bf: "between_files st1" using r(3) by (simp add: open_at_def between_files_def file_complete_def)
  show ?case
  proof (cases "files = []")
    case True
    then show ?thesis using r bf d(1) installed_elsewhere by (auto simp: f)
  next
    case False
    have ap: "\<not> prefix ?ns (path_names q) \<and> \<not> prefix (path_names q) ?ns" if "(q, m) \<in> set files" for q m
      using Cons.prems(3) that by (auto simp: f list_all_iff)
    have "\<exists>st' fs'. on_chunks (\<lambda>_. True) latest cache provider name (messages (stream_files chunk_size open_file reads None files)) st1 ?fs1 = (Inr st', fs')
      \<and> (\<forall>(p, n) \<in> set files. fs' (D @ path_names p) = Some (NFile (the (open_file p))))
      \<and> (\<forall>q e. ?fs1 q = Some (NFile e) \<longrightarrow> (\<forall>(p, n) \<in> set files. \<not> prefix q (D @ path_names p)) \<longrightarrow> fs' q = Some (NFile e))
      \<and> between_files st' \<and> ss_model_dir st' = Some (D, D) \<and> ss_saw_chunk st' \<and> ss_saw_final_chunk st'"
    proof (rule Cons.IH [OF False])
      show "streamable open_file files" "apart (map (path_names \<circ> fst) files)" using Cons.prems(2,3) by (auto simp: f streamable_def o_def)
      show "ensure_model_dir (\<lambda>_. True) latest cache provider name c st1 ?fs1 = (Inr (D, D), ?fs1)" for c
        using r(4) by (simp add: ensure_model_dir_def fs_return_def)
      show "fs_ok ?fs1" by (rule fs_ok_installed [OF Cons.prems(5) rd])
      show "list_all (\<lambda>(p, n). ready ?fs1 (D @ path_names p)) files"
        using Cons.prems(6) ap ready_installed d(5) by (fastforce simp: f list_all_iff)
      show "sf_path g \<notin> (\<lambda>(p, n). D @ path_names p) ` set files" if "ss_current_file st1 = Some g" for g
        using that r(3) ap by (fastforce simp: open_at_def)
      show "\<not> ss_saw_final_chunk st1" using r(6) False by simp
    qed (fact bf)
    then obtain st' fs' where s: "on_chunks (\<lambda>_. True) latest cache provider name (messages (stream_files chunk_size open_file reads None files)) st1 ?fs1 = (Inr st', fs')"
      "\<forall>(p, n) \<in> set files. fs' (D @ path_names p) = Some (NFile (the (open_file p)))"
      "\<And>q e. ?fs1 q = Some (NFile e) \<Longrightarrow> \<forall>(p, n) \<in> set files. \<not> prefix q (D @ path_names p) \<Longrightarrow> fs' q = Some (NFile e)"
      "between_files st'" "ss_model_dir st' = Some (D, D)" "ss_saw_chunk st'" "ss_saw_final_chunk st'" by blast
    have "fs' (D @ ?ns) = Some (NFile (the (open_file p)))" using s(3) [of "D @ ?ns" data] ap d(1) by auto
    moreover have "fs' q = Some (NFile e)" if "fs1 q = Some (NFile e)" "\<forall>(p, n) \<in> set (f # files). \<not> prefix q (D @ path_names p)" for q e
      using s(3) [of q e] installed_elsewhere [of fs1 q e "D @ path_names p" data] that by (auto simp: f)
    ultimately show ?thesis using s(1,2,4-7) r(1,2)
      by (intro exI [of _ st'] exI [of _ fs']) (auto simp: f on_chunks_append fs_bind_def)
  qed
qed simp

subsection \<open>The model directory\<close>

lemma mk_dirs_mk_dirs: "prefix p q \<Longrightarrow> mk_dirs q (mk_dirs p fs) = mk_dirs q fs"
  using prefix_order.trans by (fastforce simp: mk_dirs_def fun_eq_iff)

lemma ready_mk_dirs:
  assumes "ready fs (D @ ns)" and "ns \<noteq> []" and "prefix p D"
  shows "ready (mk_dirs p fs) (D @ ns)"
proof -
  have "\<not> prefix (D @ ns) p" using prefix_length_le [of "D @ ns" p] prefix_length_le [OF assms(3)] assms(2) by (cases ns) auto
  then have "mk_dirs p fs (D @ ns) = fs (D @ ns)" by (simp add: mk_dirs_def)
  then show ?thesis using assms(1) plain_mk_dirs [of fs "butlast (D @ ns)" p] by (simp add: ready_def)
qed

definition commit_ok :: "ModelProvider \<Rightarrow> string option \<Rightarrow> bool" where
  "commit_ok provider commit = (case commit of None \<Rightarrow> provider \<noteq> HuggingFace | Some h \<Rightarrow> validate_revision h = Inr ())"

lemma prepare_plain:
  assumes "fs_ok fs" and "plain fs (path_names d)" and "prefix (path_names cache) (path_names d)" and "dir_at fs (path_names cache)"
    and "resolve_model_path fs latest cache provider name commit = Inr d" and "commit_ok provider commit"
  shows "prepare_stream_model_dir (\<lambda>_. True) latest cache provider name commit fs
    = (Inr (path_names d, path_names d), mk_dirs (path_names d) fs)"
proof -
  let ?D = "path_names d" and ?C = "path_names cache"
  let ?g = "mk_dirs ?D fs"
  have mk: "fs_create_dir_all (\<lambda>_. True) ?D fs = (Inr (), ?g)"
    using create_dir_all_plain [OF assms(1,2)] by (simp add: fs_create_dir_all_def)
  have ok: "fs_ok ?g" by (rule fs_ok_mk_dirs [OF assms(1,2)])
  have "plain fs ?C" using assms(2,3) prefix_order.trans by (fastforce simp: plain_def prefix_def)
  moreover have "dir_at ?g ?C" using assms(4) by (auto simp: dir_at_def mk_dirs_def)
  ultimately have "resolve_path ?g ?C = Inr ?C" using resolve_plain [OF ok plain_mk_dirs] by simp
  moreover have "resolve_path ?g ?D = Inr ?D" using resolve_plain [OF ok plain_mk_dirs [OF assms(2)]] by simp
  moreover have "\<not> (provider = HuggingFace \<and> commit = None)"
    "case commit of Some h \<Rightarrow> validate_revision h = Inr () | None \<Rightarrow> True"
    using assms(6) by (auto simp: commit_ok_def split: option.splits)
  ultimately show ?thesis using assms(3,5)
    by (simp add: prepare_stream_model_dir_def fs_bind_def fs_require_def mk fs_canonicalize_def canonicalize_def fs_return_def)
qed

text \<open>
  C27. What the server streams is what the client has. A snapshot's files that can still be read
  are cut into chunks by the server's task, whatever the chunk size and however short its
  reads; the client's receiver accepts the stream, answers with the model's directory, and each file is there
  byte for byte, in place of an older file or link of that name. It is asked that the cache has no links on
  the way, that no directory stands in place of a file, and that no file lies below another.
\<close>

theorem client_installs_what_server_streams:
  assumes "files \<noteq> []" and "streamable open_file files" and "apart (map (path_names \<circ> fst) files)"
    and "\<And>p i. reads p i \<noteq> None" and "fs_ok fs"
    and "resolve_model_path (mk_dirs (path_names cache) fs) latest cache provider name commit = Inr d"
    and "commit_ok provider commit" and "prefix (path_names cache) (path_names d)" and "plain fs (path_names d)"
    and "list_all (\<lambda>(p, n). ready fs (path_names d @ path_names p)) files"
  shows "case stream_model_files_from_server (\<lambda>_. True) latest (Some cache) provider name
        (Inr (messages (stream_files chunk_size open_file reads commit files))) fs of
    (r, fs') \<Rightarrow> r = Inr (path_names d)
      \<and> (\<forall>(p, n) \<in> set files. fs' (path_names d @ path_names p) = Some (NFile (the (open_file p))))"
proof -
  let ?C = "path_names cache" and ?D = "path_names d"
  let ?fs0 = "mk_dirs ?C fs" and ?fs1 = "mk_dirs ?D fs"
  have "plain fs ?C" using assms(8,9) prefix_order.trans by (fastforce simp: plain_def prefix_def)
  then have c: "fs_create_dir_all (\<lambda>_. True) ?C fs = (Inr (), ?fs0)" "fs_ok ?fs0"
    using create_dir_all_plain [OF assms(5)] fs_ok_mk_dirs [OF assms(5)] by (simp_all add: fs_create_dir_all_def)
  have prep: "ensure_model_dir (\<lambda>_. True) latest cache provider name c stream_start ?fs0 = (Inr (?D, ?D), ?fs1)"
    if "fc_commit_hash c = commit" for c
    using prepare_plain [OF c(2) plain_mk_dirs [OF assms(9)] assms(8) dir_at_mk_dirs assms(6,7)] that mk_dirs_mk_dirs [OF assms(8)]
    by (simp add: ensure_model_dir_def stream_start_def)
  have rd: "list_all (\<lambda>(p, n). ready ?fs1 (?D @ path_names p)) files"
    using assms(2,10) ready_mk_dirs by (fastforce simp: list_all_iff streamable_def)
  have start: "between_files stream_start" "\<not> ss_saw_final_chunk stream_start" "ss_current_file stream_start = None"
    by (simp_all add: stream_start_def between_files_def)
  obtain st' fs' where r: "on_chunks (\<lambda>_. True) latest cache provider name
      (messages (stream_files chunk_size open_file reads commit files)) stream_start ?fs0 = (Inr st', fs')"
    "\<forall>(p, n) \<in> set files. fs' (?D @ path_names p) = Some (NFile (the (open_file p)))"
    "between_files st'" "ss_model_dir st' = Some (?D, ?D)" "ss_saw_chunk st'" "ss_saw_final_chunk st'"
    using files_received [where reads = reads and commit = commit and chunk_size = chunk_size, OF assms(1-4) prep fs_ok_mk_dirs [OF assms(5,9)] rd start(1) _ start(2)]
      start(3) by auto
  then show ?thesis
    by (auto simp: stream_model_files_from_server_def fs_bind_def c(1) fs_require_def fs_return_def between_files_def
        sync_streamed_file_def split: option.splits)
qed

theorem client_installs_what_server_streams_witness:
  "case stream_model_files_from_server (\<lambda>_. True) (\<lambda>_. Inl []) (Some ''/c'') HuggingFace ''o/m''
        (Inr (messages (stream_files 4 (\<lambda>p. if p = ''sub/a.json'' then Some ''hello'' else None) (\<lambda>_ _. Some 2) (Some ''abc'')
           [(''sub/a.json'', 5)]))) Map.empty of
    (r, fs') \<Rightarrow> r = Inr [''c'', ''models--o--m'', ''snapshots'', ''abc'']
      \<and> fs' [''c'', ''models--o--m'', ''snapshots'', ''abc'', ''sub'', ''a.json''] = Some (NFile ''hello'')"
proof -
  let ?files = "[(''sub/a.json'', 5 :: nat)]" and ?open = "\<lambda>p. if p = ''sub/a.json'' then Some ''hello'' else None"
  have v: "validate_revision ''abc'' = Inr ()" by code_simp
  have n: "path_names ''/c'' = [''c'']" "path_names ''sub/a.json'' = [''sub'', ''a.json'']"
    "path_names ''/c/models--o--m/snapshots/abc'' = [''c'', ''models--o--m'', ''snapshots'', ''abc'']" by code_simp+
  have s: "is_safe_relative_path ''sub/a.json''" by code_simp
  have d: "path_join (snapshots_dir ''/c'' ''o/m'') ''abc'' = ''/c/models--o--m/snapshots/abc''" by code_simp
  have "case stream_model_files_from_server (\<lambda>_. True) (\<lambda>_. Inl []) (Some ''/c'') HuggingFace ''o/m''
        (Inr (messages (stream_files 4 ?open (\<lambda>_ _. Some 2) (Some ''abc'') ?files))) Map.empty of
    (r, fs') \<Rightarrow> r = Inr (path_names ''/c/models--o--m/snapshots/abc'')
      \<and> (\<forall>(p, n) \<in> set ?files. fs' (path_names ''/c/models--o--m/snapshots/abc'' @ path_names p) = Some (NFile (the (?open p))))"
  proof (rule client_installs_what_server_streams)
    show "streamable ?open ?files" by (simp add: streamable_def s n u64_max_def)
    show "resolve_model_path (mk_dirs (path_names ''/c'') Map.empty) (\<lambda>_. Inl []) ''/c'' HuggingFace ''o/m'' (Some ''abc'')
        = Inr ''/c/models--o--m/snapshots/abc''" by (simp add: resolve_model_path_def v d)
  qed (simp_all add: fs_ok_def commit_ok_def v n plain_def ready_def)
  then show ?thesis by (simp add: n split: prod.splits)
qed

subsection \<open>NGC models\<close>

text \<open>
  C37. A client without shared storage cannot receive an NGC model it does not have: the model's
  directory is looked up as an existing one before it would be created, so that the first chunk of
  every stream is refused and nothing is installed.
\<close>

theorem ngc_stream_needs_existing_dir:
  assumes "ngc_parse_model_name name = Inr i" and "fs_create_dir_all io (path_names cache) fs = (Inr (), fs0)"
    and "\<not> path_exists fs0 (path_names (ngc_model_dir cache i))" and "fc_commit_hash c = None"
  shows "stream_model_files_from_server io latest (Some cache) Ngc name (Inr (Inr c # rest)) fs = (Inl EIo, fs0)"
  using assms
  by (simp add: stream_model_files_from_server_def fs_bind_def on_chunk_def fs_require_def stream_start_def ensure_model_dir_def
      prepare_stream_model_dir_def resolve_model_path_def Let_def)

theorem ngc_stream_needs_existing_dir_witness:
  "stream_model_files_from_server (\<lambda>_. True) (\<lambda>_. Inl []) (Some ''/c'') Ngc ''org/model/1''
     (Inr (Inr \<lparr>fc_relative_path = ''a'', fc_data = ''x'', fc_offset = 0, fc_total_size = 1, fc_is_last_chunk = True,
        fc_is_last_file = True, fc_commit_hash = None\<rparr> # [])) Map.empty = (Inl EIo, mk_dirs [''c''] Map.empty)"
proof (rule ngc_stream_needs_existing_dir)
  show "ngc_parse_model_name ''org/model/1'' = Inr \<lparr>ng_org = ''org'', ng_team = None, ng_artifact_type = ''models'',
      ng_name = ''model'', ng_version = ''1''\<rparr>" by code_simp
  have c: "path_names ''/c'' = [''c'']" by code_simp
  have "fs_ok Map.empty" "plain Map.empty [''c'']" by (simp_all add: fs_ok_def plain_def)
  then show "fs_create_dir_all (\<lambda>_. True) (path_names ''/c'') Map.empty = (Inr (), mk_dirs [''c''] Map.empty)"
    using create_dir_all_plain by (simp add: fs_create_dir_all_def c)
  have "path_names (ngc_model_dir ''/c'' \<lparr>ng_org = ''org'', ng_team = None, ng_artifact_type = ''models'',
      ng_name = ''model'', ng_version = ''1''\<rparr>) = [''c'', ''ngc'', ''org'', ''models'', ''model'', ''1'']" by code_simp
  then show "\<not> path_exists (mk_dirs [''c''] Map.empty) (path_names (ngc_model_dir ''/c'' \<lparr>ng_org = ''org'', ng_team = None,
      ng_artifact_type = ''models'', ng_name = ''model'', ng_version = ''1''\<rparr>))"
    by (simp add: path_exists_def resolve_path_def mk_dirs_def)
qed simp

end
