(* ===== verification/Spec2Isabelle.thy ===== *)
theory Spec2Isabelle
  imports Entry_Key Lane_Layout Registry_Memory Registry_Redis Collective_Service P2p_Store
    Cache_Eviction Caller_Auth Model_Service P2p_Redis_Rows P2p_Service Refit_Answers
    Kube_Names P2p_Kube_Proofs Registry_Manager Client_Roundtrip
begin

text \<open>
  \<^bold>\<open>ModelExpress\<close> is a server that keeps model weights close to the accelerators that use them. Its
  parts, and the theories that model them (paths are below \<^verbatim>\<open>modelexpress_server/src\<close> unless a
  crate is named):

  \<^item> The \<^emph>\<open>model registry\<close> records which models are being downloaded, by whom and until when.
    Replicas share it, so a download is guarded by a lease. \<^verbatim>\<open>Registry_Backend\<close> states the
    contract of \<^verbatim>\<open>registry/backend.rs\<close> as an abstract lease cell per key and the locale
    \<^verbatim>\<open>lease_backend\<close>; \<^verbatim>\<open>Registry_Memory\<close> (\<^verbatim>\<open>registry/backend/memory.rs\<close>) and
    \<^verbatim>\<open>Registry_Redis\<close> (\<^verbatim>\<open>registry/backend/redis.rs\<close> with its Lua scripts) implement it.
    \<^verbatim>\<open>Registry_Kube\<close> (\<^verbatim>\<open>registry/backend/kubernetes.rs\<close>, \<^verbatim>\<open>registry/k8s_types.rs\<close>) keeps it in custom
    resources, with \<^verbatim>\<open>Kube_Programs\<close> (reasoning about its call trees), \<^verbatim>\<open>Kube_Claims\<close> (leases)
    and \<^verbatim>\<open>Kube_Names\<close> (resource names). \<^verbatim>\<open>Backend_Selection\<close> (\<^verbatim>\<open>backend_config.rs\<close>, \<^verbatim>\<open>envs.rs\<close> of
    \<^verbatim>\<open>modelexpress_common\<close>) chooses the backend and \<^verbatim>\<open>Registry_Manager\<close> (\<^verbatim>\<open>registry/state.rs\<close>,
    \<^verbatim>\<open>registry/stats_refresh.rs\<close>) connects to it on first use and forwards.
    \<^verbatim>\<open>Entry_Key\<close> (\<^verbatim>\<open>registry/entry_key.rs\<close>) gives the keys: tenant, model, revision and
    weight mode in one string.
  \<^item> The \<^emph>\<open>model cache\<close>: \<^verbatim>\<open>Cache_Eviction\<close> (\<^verbatim>\<open>cache.rs\<close>) selects and evicts entries,
    \<^verbatim>\<open>Download_Manifest\<close> (\<^verbatim>\<open>cache/manifest.rs\<close>) records what a download left on disk,
    \<^verbatim>\<open>Provider_Rules\<close> (\<^verbatim>\<open>providers.rs\<close> of \<^verbatim>\<open>modelexpress_common\<close>) says which revisions and
    files are acceptable.
  \<^item> The \<^emph>\<open>model service\<close> (\<^verbatim>\<open>services.rs\<close>) downloads models and serves their files.
    \<^verbatim>\<open>File_Stream\<close> collects a snapshot's files and cuts them into chunks; \<^verbatim>\<open>Download_Tracker\<close>
    claims, polls, downloads, notifies and clears through the registry, and \<^verbatim>\<open>Tracker_Proofs\<close> holds
    its theorems; \<^verbatim>\<open>Model_Service\<close> has the handlers on top of both and of the tenant scope.
  \<^item> The \<^emph>\<open>providers\<close> of \<^verbatim>\<open>modelexpress_common\<close>: \<^verbatim>\<open>Provider_Names\<close> (\<^verbatim>\<open>providers/gcs\<close>,
    \<^verbatim>\<open>s3.rs\<close>, \<^verbatim>\<open>ngc.rs\<close>) parses model names and maps them to cache directories;
    \<^verbatim>\<open>Hf_Cache\<close> (\<^verbatim>\<open>providers/huggingface.rs\<close>) resolves, downloads and deletes revisions.
  \<^item> The \<^emph>\<open>Rust client\<close> (\<^verbatim>\<open>modelexpress_client/src/lib.rs\<close>) receives a model's files when it shares no
    storage with the server: \<^verbatim>\<open>Local_Fs\<close> is the local disk with its symbolic links, \<^verbatim>\<open>Client_Stream\<close> the receiver,
    \<^verbatim>\<open>Client_Install\<close> and \<^verbatim>\<open>Client_Roundtrip\<close> its theorems.
  \<^item> The \<^emph>\<open>collective refit\<close> control plane forms groups of trainers and generators that move
    weights over collective communicators. \<^verbatim>\<open>Lane_Layout\<close> (\<^verbatim>\<open>refit_collective/lanes.rs\<close>)
    assigns ranks; \<^verbatim>\<open>Collective_Group\<close> holds the Lua scripts, each one atomic step of the Redis
    server, and the step relation; \<^verbatim>\<open>Collective_Cohort\<close> the invariants of that system;
    \<^verbatim>\<open>Collective_Redis\<close> and \<^verbatim>\<open>Collective_Reads\<close> the Rust backend around the scripts;
    \<^verbatim>\<open>Collective_Service\<close> the gRPC handlers.
  \<^item> The \<^emph>\<open>weight refit\<close> control plane publishes versions of a model shard by shard from the workers
    of a trainer mesh and leases them to generators. \<^verbatim>\<open>Refit_Scripts\<close> holds the Lua scripts of
    \<^verbatim>\<open>refit/backend/redis/scripts\<close>, \<^verbatim>\<open>Refit_Cohort\<close> the system of all replicas at the time of the
    Redis server with its invariants, \<^verbatim>\<open>Refit_Lifecycle\<close> its theorems; \<^verbatim>\<open>Refit_Redis\<close>
    (\<^verbatim>\<open>refit/backend/redis.rs\<close>) the backend around the scripts, \<^verbatim>\<open>Refit_Service\<close>
    (\<^verbatim>\<open>refit/service.rs\<close>, \<^verbatim>\<open>refit/coverage.rs\<close>) the handlers; \<^verbatim>\<open>Refit_Requests\<close> shows that
    every request is a run of the system and \<^verbatim>\<open>Refit_Answers\<close> what requests answer.
  \<^item> \<^emph>\<open>Peer-to-peer metadata\<close> lets a worker find others that already hold its weights:
    \<^verbatim>\<open>P2p_Records\<close> (\<^verbatim>\<open>p2p/backend.rs\<close>, \<^verbatim>\<open>p2p/source_identity.rs\<close>) has the records and
    identities, \<^verbatim>\<open>P2p_Store\<close> the contract \<^verbatim>\<open>metadata_backend\<close>, the in-memory backend, the state
    manager and the reaper, \<^verbatim>\<open>P2p_Redis\<close> and \<^verbatim>\<open>P2p_Redis_Rows\<close> (\<^verbatim>\<open>p2p/backend/redis.rs\<close>) the
    backend over hashes of JSON texts and its proofs, \<^verbatim>\<open>P2p_Kube\<close> and \<^verbatim>\<open>P2p_Kube_Proofs\<close>
    (\<^verbatim>\<open>p2p/backend/kubernetes.rs\<close>, \<^verbatim>\<open>p2p/k8s_types.rs\<close>) the one over custom resources, \<^verbatim>\<open>P2p_Service\<close> (\<^verbatim>\<open>p2p/service.rs\<close>) the
    handlers.
  \<^item> \<^emph>\<open>Authentication\<close>: \<^verbatim>\<open>Caller_Auth\<close> (\<^verbatim>\<open>auth.rs\<close>, \<^verbatim>\<open>auth/token.rs\<close>, \<^verbatim>\<open>auth/layer.rs\<close>,
    the security section of \<^verbatim>\<open>config.rs\<close>, and the tenant scope of the services).

  \<^bold>\<open>Conventions.\<close> \<^verbatim>\<open>MX_Prelude\<close> and \<^verbatim>\<open>MX_Text\<close> hold the parts of Rust's standard library the
  sources use: strings, saturating integers, hash maps whose traversal order is left open, results,
  printing and parsing of numbers. A struct is a record, an enum a datatype, a method a function
  that returns the changed state; a call that can fail returns a sum with the error on the left.
  Instants are integers and passed in where the source reads the clock. Code outside the repository
  (SHA-256, JSON, chrono's checked arithmetic, the Kubernetes API, caches with a time to live, SCAN
  pages of Redis) is an argument of the definitions, and what is assumed of it is a named hypothesis
  of the theorems that need it.

  \<^bold>\<open>Interference.\<close> An in-memory backend holds a mutex during each call and a Lua script is atomic,
  so each is one step. Where the Rust code makes several calls, the model takes an environment: a
  function that gives what others do before the call of each number. Reading a group takes up to five
  attempts of seven numbered calls, as in the source, and the theorems hold for every environment or
  name what they need of it. The handlers of the peer-to-peer service take what others do between
  the owner check and the write; in its Redis backend the reads and the script of a status update
  meet three databases, and the commands of a publication may be interrupted. Not interrupted
  are, of that backend, the listings and the removal of a source, and, over a whole request, the
  theorem on requests that stay within their tenant.

  The Kubernetes backends and the registry manager make a varying number of calls, so their methods are
  call trees (\<^verbatim>\<open>Call_Trees\<close>): the calls of any number of sessions interleave on one world, requests may be
  refused or lose their reply, replicas restart and clocks advance at will. Retries are
  bounded by the number in the source, and a theorem bounds the calls of a publication.

  The tracker numbers its registry calls in the same way; an oracle gives, for each number, what others
  do before the call, whether it fails and what the clock says. The polling loop of a waiter has no
  bound in the source, so the model takes a number of polls; that a waiter ends is a theorem about
  every number that includes one poll which reaches the registry after the download settled. The
  bytes of a file are streamed by a recursion whose termination is proved.

  \<^bold>\<open>What is shown.\<close>
  \<^item> Leases: exclusive ownership until the deadline, fencing of stale owners, takeover and migration
    of legacy records, for the in-memory and Redis backends through the contract. On Kubernetes, over all
    interleavings: at most one fresh claim, takeover only of a lease seen a full duration earlier with the same owner
    and heartbeat and of an entry that stood still from the taker's read to its write, fenced
    completion, and reclaiming of abandoned downloads; names fit their limits and tell entries apart. Theorems also
    exhibit a name the API server refuses and an entry that a touch makes unclaimable: its
    phase is the empty default of the resource's schema. All callers of a manager share one backend, of
    whichever kind is configured.
  \<^item> Keys and partitions: keys identify entries, tenants are kept apart, validated revisions are
    safe to store and to join to a directory.
  \<^item> Groups: a READY answer means the whole declared cohort is present at one epoch; a call that is
    answered and finds a member lost moves the epoch and aborts the transfers; at most one open transfer per epoch; finished transfers
    are final; the reader returns a view of one epoch, if nobody removes the root or takes the epoch
    back; a join through the service is a step of the
    system. One theorem shows a refused join that drops the fence for the next one.
  \<^item> Weight versions: a version becomes READY exactly with the publication that completes the coverage
    of its mesh, and never once the mesh has moved on; states only advance; a lease keeps shards and
    mesh in place; an update of the mesh keeps its coverage; whatever clients send, the service runs
    steps of the system. Sizes of tensor bindings are computed without overflow, created versions are
    read back, repeated requests create nothing, listed shards are the available ones. One theorem
    exhibits two requests whose joined keys collide.
  \<^item> Cache: what is selected, that evicting a Hugging Face entry spares the snapshots other entries refer
    to at the listing, that records go only after their files,
    that manifests round-trip and the clean-up is exact. The deletions of the other providers are an
    argument of the eviction, of which nothing is assumed. A lemma exhibits an eviction that drops a
    lease taken after the selection.
  \<^item> Downloads: success is reported only with the recorded files on disk; a waiter ends with the
    final status once the download settled and drives an abandoned one again; a finished download is a hit for the next
    request; a task that lost its lease publishes nothing; the stream carries exactly the listed
    files; requests stay within their tenant; a pinned revision is served as such or refused.
  \<^item> Client: whatever is streamed, files change below the cache only; what the server's task streams is
    installed byte for byte. A theorem exhibits that an NGC model can only be received into a
    directory that is already there.
  \<^item> Providers: directories determine their models, deleting a revision spares the others. Theorems
    also exhibit what the checks miss: names that leave their directory (NGC with a colon, an S3 bucket
    of two dots), blobs linked from a sub-directory of a snapshot, and refused deletes that are counted.
  \<^item> Peer-to-peer: all three backends meet one contract (published metadata is found, a listing is exact,
    the reaper acts on exactly the silent workers); heartbeats that arrive out of order converge to the
    latest; on Kubernetes status updates are atomic, publishing ends and a
    published worker is read back; a caller's reads depend on the workers of its namespace and the labels of their
    sources, its writes change no worker that is another's at the owner check, stored loads are numbers from zero to
    one, and a limited listing is the head of the full one. The pipelined listing of the Redis backend
    is exact for well-formed ids, static worker attributes and publications that run in one piece. Theorems also exhibit what the code does not exclude: a publication between
    the owner check and the write, a source renamed by its latest publisher, ids with a colon or with
    the name of the attributes field, a publication or a heartbeat of the Redis backend that is interrupted, a topology level that outlives its publication,
    a password with a colon that is logged in part.
  \<^item> Authentication: who passes and why others do not, over the life of the caches; the tenant of a
    request is its verified namespace.

  \<^bold>\<open>Not modelled.\<close> The downloads and deletions of the GCS, S3 and NGC providers (network and file I/O); start-up, configuration files, TLS and
  metrics (I/O and library calls); the operator, the requests of the Rust client,
  the clients in other languages and the build tools.
\<close>

end
